(* ===== verification/Prelude.thy ===== *)
theory Prelude
  imports Main "HOL-Library.Word" "HOL-Library.Monad_Syntax"
begin

unbundle bit_operations_syntax

text \<open>
  Shared vocabulary of the development: assertions and array accesses as partial operations,
  the number read off a finite run of bits, and the lemmas on options, lists and words that the
  component theories use.

  A failed \<^verbatim>\<open>ASSERT_require\<close> or \<^verbatim>\<open>ASSERT_forbid\<close>, and an access outside an array, is
  the value \<open>None\<close> of an option; the \<open>do\<close> blocks of the component theories stop there, as the
  program does.
\<close>

section \<open>Collections of facts\<close>

named_theorems bits_simps \<open>reading one bit of a word or of a vector of words\<close>
named_theorems range_simps \<open>endpoints and sizes of intervals\<close>

section \<open>Assertions and arrays\<close>

definition require :: "bool \<Rightarrow> unit option" where
  "require b = (if b then Some () else None)"

lemma require_simps [simp]: "require True = Some ()" "require False = None"
  by (simp_all add: require_def)

lemma require_eq_Some [simp]: "require b = Some u \<longleftrightarrow> b"
  by (simp add: require_def)

lemma bind_require [simp]: "Option.bind (require b) f = (if b then f () else None)"
  by (simp add: require_def)

definition vec_get :: "'a list \<Rightarrow> nat \<Rightarrow> 'a option" where
  "vec_get ws i = (if i < length ws then Some (ws ! i) else None)"

definition vec_set :: "'a list \<Rightarrow> nat \<Rightarrow> 'a \<Rightarrow> 'a list option" where
  "vec_set ws i x = (if i < length ws then Some (ws[i := x]) else None)"

lemma vec_get_Some [simp]: "i < length ws \<Longrightarrow> vec_get ws i = Some (ws ! i)"
  by (simp add: vec_get_def)

lemma vec_set_Some [simp]: "i < length ws \<Longrightarrow> vec_set ws i x = Some (ws[i := x])"
  by (simp add: vec_set_def)

lemma vec_get_eq_Some: "vec_get ws i = Some x \<longleftrightarrow> i < length ws \<and> ws ! i = x"
  by (auto simp: vec_get_def)

lemma vec_set_eq_Some: "vec_set ws i x = Some ws' \<longleftrightarrow> i < length ws \<and> ws' = ws[i := x]"
  by (auto simp: vec_set_def)

section \<open>Operations that must return\<close>

text \<open>\<open>succeeds r Q\<close>: the operation returns, and what it returns satisfies \<open>Q\<close>.\<close>

definition succeeds :: "'a option \<Rightarrow> ('a \<Rightarrow> bool) \<Rightarrow> bool" where
  "succeeds r Q \<longleftrightarrow> (\<exists>v. r = Some v \<and> Q v)"

lemma succeeds_Some [simp]: "succeeds (Some v) Q \<longleftrightarrow> Q v"
  by (simp add: succeeds_def)

lemma succeeds_None [simp]: "\<not> succeeds None Q"
  by (simp add: succeeds_def)

lemma succeeds_bind: "succeeds r P \<Longrightarrow> (\<And>v. P v \<Longrightarrow> succeeds (f v) Q) \<Longrightarrow> succeeds (Option.bind r f) Q"
  by (auto simp: succeeds_def)

lemma succeeds_mono: "succeeds r P \<Longrightarrow> (\<And>v. P v \<Longrightarrow> Q v) \<Longrightarrow> succeeds r Q"
  by (auto simp: succeeds_def)

lemma succeeds_require: "b \<Longrightarrow> succeeds (f ()) Q \<Longrightarrow> succeeds (Option.bind (require b) f) Q"
  by simp

lemma succeedsE: "succeeds r Q \<Longrightarrow> (\<And>v. r = Some v \<Longrightarrow> Q v \<Longrightarrow> P) \<Longrightarrow> P"
  by (auto simp: succeeds_def)

section \<open>The number read off a run of bits\<close>

text \<open>\<open>bval f n\<close> is the unsigned number whose bit \<open>i\<close> is \<open>f i\<close> for \<open>i < n\<close>.\<close>

definition bval :: "(nat \<Rightarrow> bool) \<Rightarrow> nat \<Rightarrow> nat" where
  "bval f n = horner_sum of_bool 2 (map f [0..<n])"

lemma bval_0 [simp]: "bval f 0 = 0"
  by (simp add: bval_def)

lemma bval_Suc: "bval f (Suc n) = bval f n + of_bool (f n) * 2 ^ n"
  by (simp add: bval_def horner_sum_append)

lemma bit_bval [bits_simps, simp]: "bit (bval f n) i \<longleftrightarrow> i < n \<and> f i"
  by (auto simp: bval_def bit_horner_sum_bit_iff)

lemma bval_less [simp]: "bval f n < 2 ^ n"
  using horner_sum_bound [of "map f [0..<n]", where 'a = nat] by (simp add: bval_def)

lemma bval_le [simp]: "bval f n \<le> 2 ^ n - 1"
  using bval_less [of f n] by linarith

lemma bval_cong: "(\<And>i. i < n \<Longrightarrow> f i = g i) \<Longrightarrow> bval f n = bval g n"
  by (rule bit_eqI) auto

lemma bval_eq_iff: "bval f n = bval g n \<longleftrightarrow> (\<forall>i<n. f i = g i)"
proof
  assume eq: "bval f n = bval g n"
  show "\<forall>i<n. f i = g i"
  proof (intro allI impI)
    fix i assume "i < n"
    with eq bit_bval [of f n i] bit_bval [of g n i] show "f i = g i" by simp
  qed
qed (auto intro: bval_cong)

lemma bval_add: "bval f (m + n) = bval f m + 2 ^ m * bval (\<lambda>i. f (m + i)) n"
  by (induction n) (simp_all add: bval_Suc algebra_simps power_add)

lemma bval_take_bit: "bval (bit k) n = take_bit n k" for k :: nat
  by (rule bit_eqI) (auto simp: bit_simps)

lemma take_bit_bval: "take_bit m (bval f n) = bval f (min m n)"
  by (rule bit_eqI) (auto simp: bit_simps)

lemma drop_bit_bval: "drop_bit m (bval f n) = bval (\<lambda>i. f (m + i)) (n - m)"
  by (rule bit_eqI) (auto simp: bit_simps)

lemma bval_mod: "bval f n mod 2 ^ m = bval f (min m n)"
  by (simp add: take_bit_bval flip: take_bit_eq_mod)

lemma bval_False [simp]: "bval (\<lambda>i. False) n = 0"
  by (rule bit_eqI) auto

lemma bval_eq_0_iff: "bval f n = 0 \<longleftrightarrow> (\<forall>i<n. \<not> f i)"
  using bval_eq_iff [of f n "\<lambda>i. False"] by simp

lemma bval_True: "bval (\<lambda>i. True) n = 2 ^ n - 1"
proof -
  have "bval (\<lambda>i. True) n = mask n"
    by (rule bit_eqI) (auto simp: bit_simps)
  then show ?thesis by (simp add: mask_eq_exp_minus_1)
qed

lemma bval_Not: "bval (\<lambda>i. \<not> f i) n = 2 ^ n - 1 - bval f n"
proof -
  have "bval (\<lambda>i. \<not> f i) n + bval f n = bval (\<lambda>i. True) n"
    by (induction n) (auto simp: bval_Suc)
  then show ?thesis by (simp add: bval_True)
qed

lemma bval_shift:
  assumes "k \<le> n"
  shows "bval (\<lambda>i. k \<le> i \<and> f (i - k)) n = 2 ^ k * bval f (n - k)"
proof -
  have "bval (\<lambda>i. k \<le> i \<and> f (i - k)) (k + (n - k)) =
        bval (\<lambda>i. k \<le> i \<and> f (i - k)) k + 2 ^ k * bval (\<lambda>i. f i) (n - k)"
    by (simp add: bval_add)
  moreover have "bval (\<lambda>i. k \<le> i \<and> f (i - k)) k = 0"
    by (simp add: bval_eq_0_iff)
  ultimately show ?thesis using assms by simp
qed

section \<open>Words\<close>

lemma bit_unat [bits_simps]: "bit (unat w) i \<longleftrightarrow> bit w i"
  by transfer (simp add: bit_simps)

lemma bval_word: "bval (bit w) n = take_bit n (unat w)" for w :: "'a::len word"
  by (rule bit_eqI) (auto simp: bit_simps bits_simps)

lemma mask_minus_one: "(if n = LENGTH('a) then - 1 else push_bit n 1 - 1) = (mask n :: 'a::len word)"
  if "n \<le> LENGTH('a)"
  using that by (auto simp: mask_eq_exp_minus_1 push_bit_eq_mult)

instance word :: (len) zero_less_one
  by standard (simp add: word_less_nat_alt)

lemma unat_word_Suc: "p < q \<Longrightarrow> unat (p + 1) = unat p + 1" for p q :: "'a::len word"
proof -
  assume "p < q"
  then have "unat p < unat q" by (simp add: word_less_nat_alt)
  moreover have "unat q < 2 ^ LENGTH('a)" by (rule unsigned_less)
  ultimately have "unat p + 1 < 2 ^ LENGTH('a)" by linarith
  then show ?thesis by (simp add: unat_plus_if')
qed

lemma word_Suc_le_iff: "p < q \<Longrightarrow> p + 1 \<le> x \<longleftrightarrow> p < x" for p q :: "'a::len word"
  by (auto simp: word_less_nat_alt word_le_nat_alt unat_word_Suc)

lemma unat_max_word: "unat (- 1 :: 'a::len word) = 2 ^ LENGTH('a) - 1"
  by (simp add: unsigned_minus_1_eq_mask mask_eq_exp_minus_1)

lemma unat_image_atLeastAtMost:
  "unat ` {a..b} = {unat a..unat b}" for a b :: "'a::len word"
proof (intro equalityI subsetI)
  fix n assume n: "n \<in> {unat a..unat b}"
  moreover have "unat b < 2 ^ LENGTH('a)" by simp
  ultimately have "n < 2 ^ LENGTH('a)" by (meson atLeastAtMost_iff le_less_trans)
  then have eq: "unat (word_of_nat n :: 'a word) = n" by (simp add: unat_of_nat)
  with n have "word_of_nat n \<in> {a..b}" by (simp add: word_le_nat_alt)
  with eq show "n \<in> unat ` {a..b}" by (metis image_eqI)
qed (auto simp: word_le_nat_alt)

section \<open>Searching and counting in runs of indices\<close>

lemma find_append: "find P (xs @ ys) = (case find P xs of Some x \<Rightarrow> Some x | None \<Rightarrow> find P ys)"
  by (induction xs) auto

lemma find_map: "find P (map f xs) = map_option f (find (P \<circ> f) xs)"
  by (induction xs) auto

lemma upt_add_split: "[0..<r + k] = [0..<r] @ map ((+) r) [0..<k]"
  by (induction k) simp_all

lemma find_upt_add:
  "find h [0..<r + k] = (case find h [0..<r] of Some i \<Rightarrow> Some i
     | None \<Rightarrow> map_option ((+) r) (find (\<lambda>i. h (r + i)) [0..<k]))"
  by (simp add: upt_add_split find_append find_map comp_def split: option.split)

lemma find_rev_upt_add:
  "find h (rev [0..<r + k]) = (case find (\<lambda>i. h (r + i)) (rev [0..<k]) of Some i \<Rightarrow> Some (r + i)
     | None \<Rightarrow> find h (rev [0..<r]))"
  by (simp add: upt_add_split rev_map find_append find_map comp_def split: option.split)

lemma find_upt_eq_Some:
  "find h [0..<n] = Some i \<longleftrightarrow> i < n \<and> h i \<and> (\<forall>j<i. \<not> h j)"
  by (auto simp: find_Some_iff)

lemma find_rev_upt_eq_Some:
  "find h (rev [0..<n]) = Some i \<longleftrightarrow> i < n \<and> h i \<and> (\<forall>j<n. i < j \<longrightarrow> \<not> h j)"
  by (induction n) (auto simp: less_Suc_eq)

lemma find_upt_eq_None: "find h [0..<n] = None \<longleftrightarrow> (\<forall>i<n. \<not> h i)"
  by (auto simp: find_None_iff)

lemma find_rev_upt_eq_None: "find h (rev [0..<n]) = None \<longleftrightarrow> (\<forall>i<n. \<not> h i)"
  by (auto simp: find_None_iff)

lemma length_filter_upt_add:
  "length (filter h [0..<r + k]) = length (filter h [0..<r]) + length (filter (\<lambda>i. h (r + i)) [0..<k])"
  by (simp add: upt_add_split filter_map comp_def)

lemma ex_not [simp]: "\<exists>d. \<not> d"
  by (rule exI [of _ False]) simp

lemma all_less_add: "(\<forall>i<r + k. P i) \<longleftrightarrow> (\<forall>i<r. P i) \<and> (\<forall>i<k. P (r + i))" for r k :: nat
proof -
  have "P i" if "\<forall>j<r. P j" "\<forall>j<k. P (r + j)" "i < r + k" for i
    using that by (cases "i < r") (auto dest: spec [of _ "i - r"])
  then show ?thesis by auto
qed

end
