(* ===== verification/Sawyer_Interval.thy ===== *)
theory Sawyer_Interval
  imports Prelude
begin

text \<open>
  Intervals delimited by their end points: the class template \<^verbatim>\<open>Interval<T>\<close> of
  \<^verbatim>\<open>src/Sawyer/Interval.h\<close>, with its iterator.

  The template parameter is a type variable. At \<open>64 word\<close> the definitions are the program's
  intervals of 64-bit unsigned numbers, wrap-around included; at \<open>nat\<close> they are the bit ranges
  of the bit-vector theories, which always lie inside an array, so that no end point comes near
  the greatest 64-bit number.
\<close>

section \<open>The class\<close>

record 'a interval =
  ilo :: 'a
  ihi :: 'a

definition Interval_empty :: "'a::{zero,one} interval" where
  "Interval_empty = \<lparr>ilo = 1, ihi = 0\<rparr>"

definition Interval_value :: "'a \<Rightarrow> 'a interval" where
  "Interval_value v = \<lparr>ilo = v, ihi = v\<rparr>"

definition hull :: "'a::linorder \<Rightarrow> 'a \<Rightarrow> 'a interval" where
  "hull v1 v2 = \<lparr>ilo = min v1 v2, ihi = max v1 v2\<rparr>"

definition baseSizeOverflows :: "'a::{linorder,zero,plus} \<Rightarrow> 'a \<Rightarrow> bool" where
  "baseSizeOverflows base sz \<longleftrightarrow> base + sz < base \<and> base + sz \<noteq> 0"

definition baseSize :: "'a::{linorder,zero,one,plus,minus} \<Rightarrow> 'a \<Rightarrow> 'a interval option" where
  "baseSize lo sz = do {
     require (\<not> baseSizeOverflows lo sz);
     Some (if sz = 0 then Interval_empty else hull lo (lo + sz - 1))
   }"

definition isEmpty :: "'a::{zero,one} interval \<Rightarrow> bool" where
  "isEmpty i \<longleftrightarrow> ilo i = 1 \<and> ihi i = 0"

definition least :: "'a::{zero,one} interval \<Rightarrow> 'a option" where
  "least i = do { require (\<not> isEmpty i); Some (ilo i) }"

definition greatest :: "'a::{zero,one} interval \<Rightarrow> 'a option" where
  "greatest i = do { require (\<not> isEmpty i); Some (ihi i) }"

definition isSingleton :: "'a interval \<Rightarrow> bool" where
  "isSingleton i \<longleftrightarrow> ilo i = ihi i"

definition interval_size :: "'a::{zero,one,plus,minus} interval \<Rightarrow> 'a" where
  "interval_size i = (if isEmpty i then 0 else ihi i - ilo i + 1)"

definition intersection :: "'a::{linorder,zero,one} interval \<Rightarrow> 'a interval \<Rightarrow> 'a interval" where
  "intersection i other =
     (if isEmpty i \<or> isEmpty other \<or> ihi i < ilo other \<or> ilo i > ihi other then Interval_empty
      else hull (max (ilo i) (ilo other)) (min (ihi i) (ihi other)))"

definition overlaps :: "'a::{linorder,zero,one} interval \<Rightarrow> 'a interval \<Rightarrow> bool" where
  "overlaps i other \<longleftrightarrow> \<not> isEmpty (intersection i other)"

definition contains :: "'a::{linorder,zero,one} interval \<Rightarrow> 'a interval \<Rightarrow> bool" where
  "contains i other \<longleftrightarrow>
     isEmpty other \<or> \<not> isEmpty i \<and> ilo i \<le> ilo other \<and> ihi i \<ge> ihi other"

definition isLeftOf :: "'a::{linorder,zero,one} interval \<Rightarrow> 'a interval \<Rightarrow> bool" where
  "isLeftOf i right \<longleftrightarrow> isEmpty i \<or> isEmpty right \<or> ihi i < ilo right"

definition isRightOf :: "'a::{linorder,zero,one} interval \<Rightarrow> 'a interval \<Rightarrow> bool" where
  "isRightOf i left \<longleftrightarrow> isEmpty i \<or> isEmpty left \<or> ihi left < ilo i"

definition interval_hull :: "'a::{linorder,zero,one} interval \<Rightarrow> 'a interval \<Rightarrow> 'a interval" where
  "interval_hull i other =
     (if isEmpty i then other else if isEmpty other then i
      else hull (min (ilo i) (ilo other)) (max (ihi i) (ihi other)))"

definition hull_value :: "'a::{linorder,zero,one} interval \<Rightarrow> 'a \<Rightarrow> 'a interval" where
  "hull_value i v =
     (if isEmpty i then Interval_value v else hull (min (ilo i) v) (max (ihi i) v))"

definition interval_split ::
    "'a::{linorder,zero,one,plus} interval \<Rightarrow> 'a \<Rightarrow> 'a interval \<times> 'a interval" where
  "interval_split i splitPoint =
     (if isEmpty i then (Interval_empty, Interval_empty)
      else if splitPoint < ilo i then (Interval_empty, i)
      else if splitPoint < ihi i then (hull (ilo i) splitPoint, hull (splitPoint + 1) (ihi i))
      else (i, Interval_empty))"

definition join ::
    "'a::{linorder,zero,one,plus} interval \<Rightarrow> 'a interval \<Rightarrow> 'a interval option" where
  "join i right =
     (if isEmpty i then Some right else if isEmpty right then Some i
      else do {
        require (ihi i + 1 = ilo right \<and> ilo right > ihi i);
        Some (interval_hull i right)
      })"

text \<open>
  The remaining members name the least and greatest value of the type
  (\<^verbatim>\<open>boost::integer_traits<T>\<close>): \<open>0\<close> and \<open>- 1\<close> of an unsigned word.
\<close>

definition whole :: "'w::len word interval" where
  "whole = hull 0 (- 1)"

definition isWhole :: "'w::len word interval \<Rightarrow> bool" where
  "isWhole i \<longleftrightarrow> ilo i = 0 \<and> ihi i = - 1"

definition baseSizeSat :: "'w::len word \<Rightarrow> 'w word \<Rightarrow> 'w word interval option" where
  "baseSizeSat lo sz =
     (if baseSizeOverflows lo sz then Some (hull lo (- 1)) else baseSize lo sz)"

definition isLeftAdjacent :: "'w::len word interval \<Rightarrow> 'w word interval \<Rightarrow> bool" where
  "isLeftAdjacent i right \<longleftrightarrow>
     isEmpty i \<or> isEmpty right \<or> \<not> isWhole i \<and> ihi i + 1 = ilo right"

definition isRightAdjacent :: "'w::len word interval \<Rightarrow> 'w word interval \<Rightarrow> bool" where
  "isRightAdjacent i left \<longleftrightarrow>
     isEmpty i \<or> isEmpty left \<or> \<not> isWhole left \<and> ihi left + 1 = ilo i"

definition isAdjacent :: "'w::len word interval \<Rightarrow> 'w word interval \<Rightarrow> bool" where
  "isAdjacent i other \<longleftrightarrow>
     isEmpty i \<or> isEmpty other \<or>
     \<not> isWhole i \<and> ihi i + 1 = ilo other \<or>
     \<not> isWhole other \<and> ihi other + 1 = ilo i"

definition shiftRightSat :: "'w::len word interval \<Rightarrow> 'w word \<Rightarrow> 'w word interval" where
  "shiftRightSat i n =
     (if isEmpty i \<or> baseSizeOverflows (ilo i) n then Interval_empty
      else if baseSizeOverflows (ihi i) n then hull (ilo i + n) (- 1)
      else hull (ilo i + n) (ihi i + n))"

section \<open>The iterator\<close>

record 'a const_iterator =
  it_first :: 'a
  it_cur :: 'a
  it_last :: 'a
  it_atEnd :: bool

definition iterator_default :: "'a::zero const_iterator" where
  "iterator_default = \<lparr>it_first = 0, it_cur = 0, it_last = 0, it_atEnd = True\<rparr>"

definition iterator_at :: "'a \<Rightarrow> 'a \<Rightarrow> 'a \<Rightarrow> 'a const_iterator" where
  "iterator_at f l c = \<lparr>it_first = f, it_cur = c, it_last = l, it_atEnd = False\<rparr>"

definition iterator_dereference :: "'a const_iterator \<Rightarrow> 'a option" where
  "iterator_dereference it = do { require (\<not> it_atEnd it); Some (it_cur it) }"

definition iterator_equal :: "'a const_iterator \<Rightarrow> 'a const_iterator \<Rightarrow> bool" where
  "iterator_equal it other =
     (if it_atEnd it \<or> it_atEnd other then it_atEnd it \<and> it_atEnd other else it_cur it = it_cur other)"

definition iterator_increment ::
    "'a::{one,plus} const_iterator \<Rightarrow> 'a const_iterator option" where
  "iterator_increment it =
     (if it_cur it = it_last it then Some (it\<lparr>it_atEnd := True\<rparr>)
      else if it_atEnd it then do { require (it_cur it = it_first it); Some (it\<lparr>it_atEnd := False\<rparr>) }
      else Some (it\<lparr>it_cur := it_cur it + 1\<rparr>))"

definition iterator_decrement ::
    "'a::{one,minus} const_iterator \<Rightarrow> 'a const_iterator option" where
  "iterator_decrement it =
     (if it_cur it = it_first it then Some (it\<lparr>it_atEnd := True\<rparr>)
      else if it_atEnd it then do { require (it_cur it = it_last it); Some (it\<lparr>it_atEnd := False\<rparr>) }
      else Some (it\<lparr>it_cur := it_cur it - 1\<rparr>))"

definition interval_begin :: "'a::{zero,one} interval \<Rightarrow> 'a const_iterator" where
  "interval_begin i = (if isEmpty i then iterator_default else iterator_at (ilo i) (ihi i) (ilo i))"

definition interval_end :: "'a::{zero,one,plus} interval \<Rightarrow> 'a const_iterator option" where
  "interval_end i =
     (if isEmpty i then Some iterator_default
      else iterator_increment (iterator_at (ilo i) (ihi i) (ihi i)))"

text \<open>
  The loop \<^verbatim>\<open>for (it = begin(); it != end(); ++it) visit(*it)\<close>, with fuel: the list of
  values visited, or \<open>None\<close> when the fuel runs out or an assertion fails.
\<close>

fun iterate ::
    "nat \<Rightarrow> 'a::{one,plus} const_iterator \<Rightarrow> 'a const_iterator \<Rightarrow> 'a list option" where
  "iterate 0 it e = None"
| "iterate (Suc fuel) it e =
     (if iterator_equal it e then Some []
      else do {
        v \<leftarrow> iterator_dereference it;
        it' \<leftarrow> iterator_increment it;
        vs \<leftarrow> iterate fuel it' e;
        Some (v # vs)
      })"

section \<open>Intervals as sets\<close>

text \<open>
  An interval stands for the set of the values between its end points. The empty interval is
  the pair \<open>(1, 0)\<close>; every interval the constructors build is empty or has ordered end points.
\<close>

definition ivl_set :: "'a::{linorder,zero,one} interval \<Rightarrow> 'a set" where
  "ivl_set i = (if isEmpty i then {} else {ilo i..ihi i})"

definition ivl_ok :: "'a::{linorder,zero,one} interval \<Rightarrow> bool" where
  "ivl_ok i \<longleftrightarrow> isEmpty i \<or> ilo i \<le> ihi i"

lemma isEmpty_Interval_empty [simp, range_simps]: "isEmpty Interval_empty"
  by (simp add: isEmpty_def Interval_empty_def)

lemma isEmpty_iff: "isEmpty i \<longleftrightarrow> i = Interval_empty"
  by (cases i) (simp add: isEmpty_def Interval_empty_def)

lemma ivl_set_empty [simp]: "ivl_set Interval_empty = {}"
  by (simp add: ivl_set_def)

lemma ivl_ok_empty [simp]: "ivl_ok Interval_empty"
  by (simp add: ivl_ok_def)

lemma hull_sel [simp, range_simps]: "ilo (hull a b) = min a b" "ihi (hull a b) = max a b"
  by (simp_all add: hull_def)

lemma not_isEmpty_hull [simp, range_simps]:
  "\<not> isEmpty (hull a b)" for a b :: "'a::{linorder,zero_less_one}"
proof
  assume "isEmpty (hull a b)"
  then have "(1::'a) = min a b" "max a b = 0" by (simp_all add: isEmpty_def)
  moreover have "min a b \<le> max a b" by (simp add: min_le_iff_disj le_max_iff_disj)
  ultimately have "(1::'a) \<le> 0" by simp
  with zero_less_one [where 'a = 'a] show False using leD by blast
qed

lemma ivl_set_hull [simp]:
  "ivl_set (hull a b) = {min a b..max a b}" for a b :: "'a::{linorder,zero_less_one}"
  by (simp add: ivl_set_def)


lemma ivl_ok_hull [simp]: "ivl_ok (hull a b)" for a b :: "'a::{linorder,zero_less_one}"
  by (simp add: ivl_ok_def min_le_iff_disj le_max_iff_disj)

lemma ivl_set_eq_empty: "ivl_ok i \<Longrightarrow> ivl_set i = {} \<longleftrightarrow> isEmpty i"
  by (auto simp: ivl_ok_def ivl_set_def)

lemma ivl_set_nonempty: "\<not> isEmpty i \<Longrightarrow> ivl_set i = {ilo i..ihi i}"
  by (simp add: ivl_set_def)

lemma intersection_ok [simp]:
  "ivl_ok (intersection i j)" for i :: "'a::{linorder,zero_less_one} interval"
  by (simp add: intersection_def)

lemma ivl_set_intersection:
  fixes i :: "'a::{linorder,zero_less_one} interval"
  assumes "ivl_ok i" "ivl_ok j"
  shows "ivl_set (intersection i j) = ivl_set i \<inter> ivl_set j"
proof (cases "isEmpty i \<or> isEmpty j \<or> ihi i < ilo j \<or> ilo i > ihi j")
  case True
  then show ?thesis by (auto simp: intersection_def ivl_set_def)
next
  case False
  with assms have "ilo i \<le> ihi i" "ilo j \<le> ihi j" by (auto simp: ivl_ok_def)
  with False have le: "max (ilo i) (ilo j) \<le> min (ihi i) (ihi j)" by auto
  have "ivl_set (intersection i j) = {max (ilo i) (ilo j)..min (ihi i) (ihi j)}"
    using False le by (simp add: intersection_def min.absorb1 max.absorb2)
  then show ?thesis using False by (simp add: ivl_set_nonempty Int_atLeastAtMost)
qed

lemma overlaps_iff:
  fixes i :: "'a::{linorder,zero_less_one} interval"
  assumes "ivl_ok i" "ivl_ok j"
  shows "overlaps i j \<longleftrightarrow> ivl_set i \<inter> ivl_set j \<noteq> {}"
  using ivl_set_eq_empty [OF intersection_ok, of i j] ivl_set_intersection [OF assms]
  by (simp add: overlaps_def)

lemma contains_iff:
  fixes i :: "'a::{linorder,zero_less_one} interval"
  assumes "ivl_ok i" "ivl_ok j"
  shows "contains i j \<longleftrightarrow> ivl_set j \<subseteq> ivl_set i"
  using assms by (auto simp: contains_def ivl_ok_def ivl_set_def)

lemma interval_hull_ok [simp]:
  "ivl_ok i \<Longrightarrow> ivl_ok j \<Longrightarrow> ivl_ok (interval_hull i j)"
  for i :: "'a::{linorder,zero_less_one} interval"
  by (simp add: interval_hull_def)

lemma interval_hull_least_upper:
  fixes i :: "'a::{linorder,zero_less_one} interval"
  assumes "ivl_ok i" "ivl_ok j" "ivl_ok k"
  shows "ivl_set (interval_hull i j) \<subseteq> ivl_set k \<longleftrightarrow> ivl_set i \<subseteq> ivl_set k \<and> ivl_set j \<subseteq> ivl_set k"
proof (cases "isEmpty i \<or> isEmpty j")
  case True
  then show ?thesis by (auto simp: interval_hull_def isEmpty_iff)
next
  case False
  with assms have le: "ilo i \<le> ihi i" "ilo j \<le> ihi j" by (auto simp: ivl_ok_def)
  have "{min (ilo i) (ilo j)..max (ihi i) (ihi j)} \<subseteq> ivl_set k \<longleftrightarrow>
        {ilo i..ihi i} \<subseteq> ivl_set k \<and> {ilo j..ihi j} \<subseteq> ivl_set k"
    using le by (cases "isEmpty k") (auto simp: ivl_set_def min_le_iff_disj le_max_iff_disj)
  moreover have "min (min (ilo i) (ilo j)) (max (ihi i) (ihi j)) = min (ilo i) (ilo j)"
    "max (min (ilo i) (ilo j)) (max (ihi i) (ihi j)) = max (ihi i) (ihi j)"
    using le by (auto simp: min_def max_def)
  ultimately show ?thesis using False by (simp add: interval_hull_def ivl_set_nonempty)
qed

section \<open>Intervals of machine words\<close>

lemma baseSizeOverflows_word:
  "baseSizeOverflows b n \<longleftrightarrow> unat b + unat n > 2 ^ LENGTH('w)" for b n :: "'w::len word"
proof (cases "unat b + unat n < 2 ^ LENGTH('w)")
  case True
  then show ?thesis by (simp add: baseSizeOverflows_def word_less_nat_alt unat_plus_if')
next
  case False
  have lt: "unat n < 2 ^ LENGTH('w)" by simp
  have u: "unat (b + n) = unat b + unat n - 2 ^ LENGTH('w)"
    using False by (simp add: unat_plus_if')
  then have "b + n = 0 \<longleftrightarrow> unat b + unat n = 2 ^ LENGTH('w)"
    using False by (simp add: unat_0_iff [symmetric])
  moreover have "b + n < b"
    using u lt False unfolding word_less_nat_alt by linarith
  ultimately show ?thesis using False by (auto simp: baseSizeOverflows_def)
qed

lemma baseSize_word_last:
  fixes b n :: "'w::len word"
  assumes "n \<noteq> 0" "unat b + unat n \<le> 2 ^ LENGTH('w)"
  shows "unat (b + n - 1) = unat b + unat n - 1" and "b \<le> b + n - 1"
proof -
  have n: "0 < unat n" using assms(1) by (simp add: unat_gt_0)
  have "b + n - 1 = b + (n - 1)" by (simp add: algebra_simps)
  moreover have "unat (n - 1) = unat n - 1" using assms(1) by (rule unat_minus_one)
  ultimately show 1: "unat (b + n - 1) = unat b + unat n - 1"
    using assms(2) n by (simp only: unat_plus_if') simp
  with n show "b \<le> b + n - 1" by (simp add: word_le_nat_alt)
qed

text \<open>
  \<^verbatim>\<open>Interval::baseSize\<close> succeeds exactly when the interval fits the type, and then holds
  exactly the values from the base (inclusive) to base plus size (exclusive), also when the
  interval ends at the greatest value of the type and base plus size wraps to zero.
\<close>

theorem baseSize_exact:
  fixes b n :: "'w::len word"
  shows "case baseSize b n of
           None \<Rightarrow> unat b + unat n > 2 ^ LENGTH('w)
         | Some i \<Rightarrow> unat b + unat n \<le> 2 ^ LENGTH('w) \<and> ivl_ok i \<and>
                     unat ` ivl_set i = {unat b..<unat b + unat n}"
proof (cases "unat b + unat n > 2 ^ LENGTH('w) \<or> n = 0")
  case True
  then show ?thesis
    using unsigned_less [of b, where 'a = nat]
    by (auto simp: baseSize_def baseSizeOverflows_word)
next
  case False
  then have fits: "unat b + unat n \<le> 2 ^ LENGTH('w)" and n: "n \<noteq> 0" by auto
  note last = baseSize_word_last [OF n fits]
  have "unat ` ivl_set (hull b (b + n - 1)) = {unat b..unat b + unat n - 1}"
    using last by (simp add: unat_image_atLeastAtMost min.absorb1 max.absorb2)
  also have "\<dots> = {unat b..<unat b + unat n}"
    using n by (auto simp: unat_gt_0 [symmetric])
  finally show ?thesis using fits n by (simp add: baseSize_def baseSizeOverflows_word)
qed

text \<open>
  \<^verbatim>\<open>Interval::split\<close> cuts a well-formed interval into the values up to the split point
  and the values after it, without wrap-around at the end of the type.
\<close>

theorem interval_split_partition:
  fixes i :: "'w::len word interval"
  assumes "ivl_ok i"
  shows "ivl_ok (fst (interval_split i p)) \<and> ivl_ok (snd (interval_split i p)) \<and>
         ivl_set (fst (interval_split i p)) = {x \<in> ivl_set i. x \<le> p} \<and>
         ivl_set (snd (interval_split i p)) = {x \<in> ivl_set i. p < x}"
  using assms
  by (auto simp: interval_split_def ivl_ok_def ivl_set_def word_Suc_le_iff min_def max_def
           split: if_splits)

lemma iterator_at_sel [simp]:
  "it_first (iterator_at f l c) = f" "it_last (iterator_at f l c) = l"
  "it_cur (iterator_at f l c) = c" "it_atEnd (iterator_at f l c) = False"
  by (simp_all add: iterator_at_def)

lemma iterator_at_update [simp]: "iterator_at f l c\<lparr>it_cur := c'\<rparr> = iterator_at f l c'"
  by (simp add: iterator_at_def)

lemma iterate_from:
  fixes c l :: "'w::len word"
  assumes "it_atEnd e" "c \<le> l"
  shows "\<exists>vs. iterate (Suc (Suc (unat l - unat c))) (iterator_at f l c) e = Some vs \<and>
              map unat vs = [unat c..<Suc (unat l)]"
  using assms(2)
proof (induction "unat l - unat c" arbitrary: c)
  case 0
  then have "c = l" by (simp add: word_le_nat_alt order.antisym word_unat_eq_iff)
  with assms(1) show ?case
    by (simp add: iterator_equal_def iterator_dereference_def iterator_increment_def)
next
  case (Suc n)
  then have lt: "c < l" by (auto simp: word_less_nat_alt)
  then have c1: "unat (c + 1) = unat c + 1" by (rule unat_word_Suc)
  have n: "n = unat l - unat (c + 1)" using Suc(2) c1 by simp
  have "c + 1 \<le> l" using lt c1 by (simp add: word_less_nat_alt word_le_nat_alt)
  from Suc(1) [OF n this] obtain vs where
    vs: "iterate (Suc (Suc n)) (iterator_at f l (c + 1)) e = Some vs"
      "map unat vs = [unat (c + 1)..<Suc (unat l)]"
    using n by auto
  have "iterate (Suc (Suc (Suc n))) (iterator_at f l c) e = Some (c # vs)"
    using lt vs(1) assms(1)
    by (simp add: iterator_equal_def iterator_dereference_def iterator_increment_def less_imp_neq)
  moreover have "[unat c..<Suc (unat l)] = unat c # [unat c + 1..<Suc (unat l)]"
    using lt by (simp add: upt_conv_Cons word_less_nat_alt)
  ultimately show ?case using vs(2) c1 Suc(2) by auto
qed

text \<open>
  Iterating over a well-formed interval from \<^verbatim>\<open>begin()\<close> to \<^verbatim>\<open>end()\<close> stops, and visits
  every value of the interval once, in increasing order, even when the interval reaches the
  greatest value of the type. The fuel is one more than the number of values.
\<close>

theorem iterate_visits_all:
  fixes i :: "'w::len word interval"
  assumes "ivl_ok i"
  shows "\<exists>e vs. interval_end i = Some e \<and>
           iterate (Suc (card (ivl_set i))) (interval_begin i) e = Some vs \<and>
           set vs = ivl_set i \<and> sorted vs \<and> distinct vs"
proof (cases "isEmpty i")
  case True
  then show ?thesis
    by (simp add: interval_end_def interval_begin_def ivl_set_def iterator_equal_def
        iterator_default_def)
next
  case False
  let ?e = "iterator_at (ilo i) (ihi i) (ihi i)\<lparr>it_atEnd := True\<rparr>"
  have le: "ilo i \<le> ihi i" using assms False by (simp add: ivl_ok_def)
  have "card (ivl_set i) = card (unat ` ivl_set i)"
    by (simp add: card_image inj_on_def word_unat_eq_iff)
  also have "\<dots> = Suc (unat (ihi i) - unat (ilo i))"
    using False le by (simp add: ivl_set_nonempty unat_image_atLeastAtMost word_le_nat_alt Suc_diff_le)
  finally have card: "card (ivl_set i) = Suc (unat (ihi i) - unat (ilo i))" .
  obtain vs where vs: "iterate (Suc (card (ivl_set i))) (interval_begin i) ?e = Some vs"
      "map unat vs = [unat (ilo i)..<Suc (unat (ihi i))]"
    using iterate_from [of ?e "ilo i" "ihi i" "ilo i"] le False
    by (auto simp: card interval_begin_def)
  have "unat ` set vs = unat ` ivl_set i"
    using vs(2) False by (metis atLeastLessThanSuc_atLeastAtMost ivl_set_nonempty list.set_map
        set_upt unat_image_atLeastAtMost)
  then have "set vs = ivl_set i" by (auto simp: inj_image_eq_iff inj_def word_unat_eq_iff)
  moreover have "sorted vs"
    using sorted_upt [of "unat (ilo i)" "Suc (unat (ihi i))"] unfolding vs(2) [symmetric]
    by (simp add: sorted_map word_le_nat_alt [abs_def])
  moreover have "distinct vs"
    using distinct_upt [of "unat (ilo i)" "Suc (unat (ihi i))"] unfolding vs(2) [symmetric]
    by (simp add: distinct_map)
  ultimately show ?thesis
    using vs(1) False by (auto simp: interval_end_def iterator_increment_def)
qed

lemma shiftRightSat_set:
  fixes i :: "'w::len word interval"
  assumes ok: "ivl_ok i" "\<not> isEmpty i"
    and lo: "unat (ilo i) + unat n < 2 ^ LENGTH('w)" and hi: "unat (ihi i) + unat n \<noteq> 2 ^ LENGTH('w)"
  shows "unat ` ivl_set (shiftRightSat i n) =
         {unat (ilo i) + unat n..min (unat (ihi i) + unat n) (2 ^ LENGTH('w) - 1)}"
proof -
  have u: "unat (ilo i + n) = unat (ilo i) + unat n" using lo by (simp add: unat_plus_if')
  have le: "unat (ilo i) \<le> unat (ihi i)" using ok by (simp add: ivl_ok_def word_le_nat_alt)
  have lo_ok: "\<not> baseSizeOverflows (ilo i) n" using lo by (simp add: baseSizeOverflows_word)
  show ?thesis
  proof (cases "unat (ihi i) + unat n < 2 ^ LENGTH('w)")
    case True
    then have v: "unat (ihi i + n) = unat (ihi i) + unat n" by (simp add: unat_plus_if')
    have "ilo i + n \<le> ihi i + n" using u v le by (simp add: word_le_nat_alt)
    then show ?thesis
      using True ok lo_ok u v
      by (simp add: shiftRightSat_def baseSizeOverflows_word unat_image_atLeastAtMost
          min.absorb1 max.absorb2)
  next
    case False
    then show ?thesis
      using hi ok lo_ok u
      by (simp add: shiftRightSat_def baseSizeOverflows_word unat_image_atLeastAtMost
          min.absorb1 max.absorb2 unat_max_word)
  qed
qed

lemma shiftRightSat_wrap_set:
  fixes i :: "'w::len word interval"
  assumes ok: "ivl_ok i" "\<not> isEmpty i" and hi: "unat (ihi i) + unat n = 2 ^ LENGTH('w)"
  shows "0 \<in> ivl_set (shiftRightSat i n)"
proof -
  have "unat (ilo i) \<le> unat (ihi i)" using ok by (simp add: ivl_ok_def word_le_nat_alt)
  then have "\<not> baseSizeOverflows (ilo i) n" "\<not> baseSizeOverflows (ihi i) n"
    using hi by (simp_all add: baseSizeOverflows_word)
  moreover have "ihi i + n = 0"
    using hi by (simp add: unat_plus_if' unat_0_iff [symmetric])
  ultimately show ?thesis using ok by (simp add: shiftRightSat_def)
qed

text \<open>
  \<^verbatim>\<open>Interval::shiftRightSat\<close>: where neither end point, shifted, is exactly the size of the
  type, the result is the shifted interval clipped to the type (empty when its least value no
  longer fits). Where the shifted greatest value is exactly the size of the type,
  \<^verbatim>\<open>baseSizeOverflows\<close> does not see the overflow and the result holds zero, which is not the
  shift of any value of the interval.
\<close>

theorem shiftRightSat_exact:
  fixes i :: "'w::len word interval"
  assumes "ivl_ok i" "\<not> isEmpty i"
  shows "(unat (ilo i) + unat n \<noteq> 2 ^ LENGTH('w) \<and> unat (ihi i) + unat n \<noteq> 2 ^ LENGTH('w) \<longrightarrow>
            unat ` ivl_set (shiftRightSat i n) =
            {unat (ilo i) + unat n..min (unat (ihi i) + unat n) (2 ^ LENGTH('w) - 1)}) \<and>
         (unat (ihi i) + unat n = 2 ^ LENGTH('w) \<longrightarrow>
            0 \<in> ivl_set (shiftRightSat i n) \<and> n \<noteq> 0)"
proof -
  have "\<not> unat (ilo i) + unat n < 2 ^ LENGTH('w) \<Longrightarrow>
        {unat (ilo i) + unat n..min (unat (ihi i) + unat n) (2 ^ LENGTH('w) - 1)} = {}"
    by (rule atLeastatMost_empty, rule le_less_trans [OF min.cobounded2])
      (use zero_less_power [of "2 :: nat" "LENGTH('w)"] in linarith)
  moreover have "\<not> unat (ilo i) + unat n < 2 ^ LENGTH('w) \<Longrightarrow> unat (ilo i) + unat n \<noteq> 2 ^ LENGTH('w) \<Longrightarrow>
        unat ` ivl_set (shiftRightSat i n) = {}"
    by (simp add: shiftRightSat_def baseSizeOverflows_word)
  moreover have "unat (ihi i) + unat n = 2 ^ LENGTH('w) \<Longrightarrow> n \<noteq> 0"
    by (metis add.right_neutral less_irrefl unsigned_less unsigned_0)
  ultimately show ?thesis
    using shiftRightSat_set [OF assms, of n] shiftRightSat_wrap_set [OF assms, of n]
    by (cases "unat (ilo i) + unat n < 2 ^ LENGTH('w)") metis+
qed

theorem shiftRightSat_exact_witness:
  "unat ` ivl_set (shiftRightSat (hull 10 250) (3 :: 8 word)) = {13..253} \<and>
   0 \<in> ivl_set (shiftRightSat (hull 10 250) (6 :: 8 word))"
  using shiftRightSat_exact [of "hull 10 250 :: 8 word interval" 3]
    shiftRightSat_exact [of "hull 10 250 :: 8 word interval" 6]
  by simp

text \<open>
  \<^verbatim>\<open>Interval::isLeftAdjacent\<close> compares \<^verbatim>\<open>greatest() + 1\<close> with the other least value in
  wrap-around arithmetic and excludes only the whole interval: an interval that ends at the
  greatest value of the type counts as left adjacent to one that starts at zero, although
  \<^verbatim>\<open>join\<close> of the two fails its assertion.
\<close>

theorem isLeftAdjacent_wraps:
  fixes a b :: "'w::len word"
  assumes "a \<noteq> 0"
  shows "isLeftAdjacent (hull a (- 1)) (hull 0 b) \<and> join (hull a (- 1)) (hull 0 b) = None"
proof -
  have "a \<le> - 1" by simp
  with assms show ?thesis
    by (auto simp: isLeftAdjacent_def isWhole_def join_def min.absorb1 max.absorb2)
qed

theorem isLeftAdjacent_wraps_witness:
  "isLeftAdjacent (hull 5 (- 1)) (hull 0 (2 :: 64 word)) \<and>
   join (hull 5 (- 1)) (hull 0 (2 :: 64 word)) = None"
  using isLeftAdjacent_wraps [of "5 :: 64 word" 2] by simp

theorem interval_split_partition_witness:
  "ivl_set (fst (interval_split (hull 10 255) (20 :: 8 word))) = {x \<in> {10..255}. x \<le> 20} \<and>
   ivl_set (snd (interval_split (hull 10 255) (20 :: 8 word))) = {x \<in> {10..255}. 20 < x}"
  using interval_split_partition [of "hull 10 255 :: 8 word interval" 20] by simp

theorem iterate_visits_all_witness:
  "\<exists>e vs. interval_end (hull 250 (255 :: 8 word)) = Some e \<and>
     iterate (Suc (card (ivl_set (hull 250 (255 :: 8 word))))) (interval_begin (hull 250 255)) e =
       Some vs \<and> set vs = ivl_set (hull 250 255) \<and> sorted vs \<and> distinct vs"
  using iterate_visits_all [of "hull 250 255 :: 8 word interval"] by simp

section \<open>Ranges of bit positions\<close>

text \<open>The facts the bit-vector theories use of intervals of \<open>nat\<close>.\<close>

type_synonym bitrange = "nat interval"

lemma baseSizeOverflows_nat [simp, range_simps]: "\<not> baseSizeOverflows (b :: nat) n"
  by (simp add: baseSizeOverflows_def)

definition range_of :: "nat \<Rightarrow> nat \<Rightarrow> bitrange" where
  "range_of b n = (if n = 0 then Interval_empty else \<lparr>ilo = b, ihi = b + n - 1\<rparr>)"

lemma baseSize_nat [simp, range_simps]: "baseSize b n = Some (range_of b n)"
  by (auto simp: baseSize_def range_of_def hull_def)

lemma range_of_sel [simp, range_simps]:
  "isEmpty (range_of b n) \<longleftrightarrow> n = 0"
  "0 < n \<Longrightarrow> ilo (range_of b n) = b"
  "0 < n \<Longrightarrow> ihi (range_of b n) = b + n - 1"
  "interval_size (range_of b n) = n"
  by (auto simp: range_of_def isEmpty_def interval_size_def Interval_empty_def)

lemma least_range_of [simp, range_simps]: "least (range_of b n) = (if n = 0 then None else Some b)"
  by (simp add: least_def)

lemma greatest_range_of [simp, range_simps]:
  "greatest (range_of b n) = (if n = 0 then None else Some (b + n - 1))"
  by (simp add: greatest_def)

lemma hull_nat [simp, range_simps]: "a \<le> b \<Longrightarrow> hull a b = range_of a (b - a + 1)"
  by (simp add: hull_def range_of_def)

lemma ivl_ok_range_of: "ivl_ok r \<Longrightarrow> r = range_of (ilo r) (interval_size r)" for r :: bitrange
  by (cases r) (auto simp: ivl_ok_def range_of_def isEmpty_def interval_size_def Interval_empty_def)

lemma ivl_set_range_of [simp]: "ivl_set (range_of b n) = {b..<b + n}"
  by (auto simp: ivl_set_def)

lemma ivl_ok_range [simp]: "ivl_ok (range_of b n)"
  by (cases "n = 0") (simp_all add: ivl_ok_def)

end
