(* ===== verification/BVS_Traverse.thy ===== *)
theory BVS_Traverse
  imports Sawyer_Interval
begin

text \<open>
  Traversal of bit ranges of word arrays, after the first part of
  \<^verbatim>\<open>src/Sawyer/BitVectorSupport.h\<close>: word indices and masks, \<^verbatim>\<open>processWord\<close>,
  \<^verbatim>\<open>nonoverlappingCopy\<close> and the traversals of one range and of two ranges.

  An array of \<^verbatim>\<open>Word\<close> is a list of \<open>'w word\<close>; bit \<open>i\<close> of the array is bit \<open>i mod w\<close> of
  element \<open>i div w\<close>. A processor (the functor \<^verbatim>\<open>Processor\<close>) is a function that threads its
  member variables as a state \<open>'s\<close>: it takes the state, the word shifted right and the number
  of bits, and gives the new state, the words it may have assigned and whether the traversal
  may stop. The C++ overloads of \<^verbatim>\<open>processWord\<close> differ in which of the words are \<^verbatim>\<open>const\<close>;
  the traversals take the overload as an argument, as the template instantiation fixes it.
\<close>

section \<open>Indices and masks\<close>

definition bitsPerWord :: "'w::len itself \<Rightarrow> nat" where
  "bitsPerWord _ = LENGTH('w)"

definition wordIndex :: "'w::len itself \<Rightarrow> nat \<Rightarrow> nat" where
  "wordIndex W idx = idx div bitsPerWord W"

definition bitIndex :: "'w::len itself \<Rightarrow> nat \<Rightarrow> nat" where
  "bitIndex W idx = idx mod bitsPerWord W"

definition numberOfWords :: "'w::len itself \<Rightarrow> nat \<Rightarrow> nat" where
  "numberOfWords W nbits = (nbits + bitsPerWord W - 1) div bitsPerWord W"

definition bitMask :: "nat \<Rightarrow> nat \<Rightarrow> 'w::len word option" where
  "bitMask offset nbits = do {
     require (offset + nbits \<le> bitsPerWord TYPE('w));
     let mask = (if nbits = bitsPerWord TYPE('w) then - 1 else push_bit nbits 1 - 1);
     Some (push_bit offset mask)
   }"

section \<open>Processing one word\<close>

type_synonym ('s, 'w) cproc = "'s \<Rightarrow> 'w word \<Rightarrow> nat \<Rightarrow> ('s \<times> bool) option"
type_synonym ('s, 'w) mproc = "'s \<Rightarrow> 'w word \<Rightarrow> nat \<Rightarrow> ('s \<times> 'w word \<times> bool) option"
type_synonym ('s, 'w) ccproc = "'s \<Rightarrow> 'w word \<Rightarrow> 'w word \<Rightarrow> nat \<Rightarrow> ('s \<times> bool) option"
type_synonym ('s, 'w) cmproc = "'s \<Rightarrow> 'w word \<Rightarrow> 'w word \<Rightarrow> nat \<Rightarrow> ('s \<times> 'w word \<times> bool) option"
type_synonym ('s, 'w) mmproc =
  "'s \<Rightarrow> 'w word \<Rightarrow> 'w word \<Rightarrow> nat \<Rightarrow> ('s \<times> 'w word \<times> 'w word \<times> bool) option"

text \<open>The instances of \<^verbatim>\<open>processWord\<close>, with the words they leave.\<close>

type_synonym ('s, 'w) word_op = "'s \<Rightarrow> 'w word \<Rightarrow> nat \<Rightarrow> nat \<Rightarrow> ('s \<times> 'w word \<times> bool) option"
type_synonym ('s, 'w) word_op2 =
  "'s \<Rightarrow> 'w word \<Rightarrow> 'w word \<Rightarrow> nat \<Rightarrow> nat \<Rightarrow> ('s \<times> 'w word \<times> 'w word \<times> bool) option"

definition processWord_c :: "('s, 'w::len) cproc \<Rightarrow> ('s, 'w) word_op" where
  "processWord_c processor s word shift nbits = do {
     require (shift < bitsPerWord TYPE('w));
     require (nbits \<le> bitsPerWord TYPE('w));
     let tmp = drop_bit shift word;
     (s', retval) \<leftarrow> processor s tmp nbits;
     Some (s', word, retval)
   }"

definition processWord_m :: "('s, 'w::len) mproc \<Rightarrow> ('s, 'w) word_op" where
  "processWord_m processor s word shift nbits = do {
     require (shift < bitsPerWord TYPE('w));
     (s', tmp, retval) \<leftarrow> processor s (drop_bit shift word) nbits;
     m \<leftarrow> bitMask shift nbits;
     m0 \<leftarrow> bitMask 0 nbits;
     Some (s', (word AND NOT m) OR push_bit shift (tmp AND m0), retval)
   }"

definition processWord_cm :: "('s, 'w::len) cmproc \<Rightarrow> ('s, 'w) word_op2" where
  "processWord_cm processor s src dst shift nbits = do {
     require (shift < bitsPerWord TYPE('w));
     require (nbits \<le> bitsPerWord TYPE('w));
     (s', tmpDst, retval) \<leftarrow> processor s (drop_bit shift src) (drop_bit shift dst) nbits;
     m \<leftarrow> bitMask shift nbits;
     m0 \<leftarrow> bitMask 0 nbits;
     Some (s', src, (dst AND NOT m) OR push_bit shift (tmpDst AND m0), retval)
   }"

definition processWord_mm :: "('s, 'w::len) mmproc \<Rightarrow> ('s, 'w) word_op2" where
  "processWord_mm processor s w1 w2 shift nbits = do {
     require (shift < bitsPerWord TYPE('w));
     require (nbits \<le> bitsPerWord TYPE('w));
     (s', tmp1, tmp2, retval) \<leftarrow> processor s (drop_bit shift w1) (drop_bit shift w2) nbits;
     m \<leftarrow> bitMask shift nbits;
     Some (s', (w1 AND NOT m) OR (push_bit shift tmp1 AND m),
               (w2 AND NOT m) OR (push_bit shift tmp2 AND m), retval)
   }"

definition processWord_cc :: "('s, 'w::len) ccproc \<Rightarrow> ('s, 'w) word_op2" where
  "processWord_cc processor s w1 w2 shift nbits = do {
     require (shift < bitsPerWord TYPE('w));
     require (nbits \<le> bitsPerWord TYPE('w));
     (s', retval) \<leftarrow> processor s (drop_bit shift w1) (drop_bit shift w2) nbits;
     Some (s', w1, w2, retval)
   }"

section \<open>Copying bits between arrays\<close>

text \<open>
  The three loops of \<^verbatim>\<open>nonoverlappingCopy\<close> run over the destination words from
  \<^verbatim>\<open>dstFirstIdx\<close> to \<^verbatim>\<open>dstLastIdx\<close> and differ in how they assemble the source bits of one
  word. \<open>copy_source\<close> is that assembly, \<open>copy_word\<close> the masking and the assignment, which the
  loops share, \<open>copy_loop\<close> the iteration. The offset \<^verbatim>\<open>srcOffset\<close> is a difference of indices
  that may be negative; the source lets it wrap around, and adding it to \<open>i\<close> wraps back.
\<close>

definition copy_source ::
    "'w::len word list \<Rightarrow> bitrange \<Rightarrow> bitrange \<Rightarrow> nat \<Rightarrow> nat \<Rightarrow> 'w word option" where
  "copy_source src srcRange dstRange dstFirstIdx i = do {
     srcLeast \<leftarrow> least srcRange;
     srcGreatest \<leftarrow> greatest srcRange;
     dstLeast \<leftarrow> least dstRange;
     let srcFirstIdx = wordIndex TYPE('w) srcLeast;
     let srcLastIdx = wordIndex TYPE('w) srcGreatest;
     let srcOffset = int srcFirstIdx - int dstFirstIdx;
     let j = nat (int i + srcOffset);
     let srcBitIdx = bitIndex TYPE('w) srcLeast;
     let dstBitIdx = bitIndex TYPE('w) dstLeast;
     if srcBitIdx < dstBitIdx then do {
       let leftShiftAmount = dstBitIdx - srcBitIdx;
       let rightShiftAmount = bitsPerWord TYPE('w) - leftShiftAmount;
       lo \<leftarrow> (if j > srcFirstIdx
              then map_option (drop_bit rightShiftAmount) (vec_get src (j - 1)) else Some 0);
       hi \<leftarrow> (if j > srcLastIdx
              then Some 0 else map_option (push_bit leftShiftAmount) (vec_get src j));
       Some (lo OR hi)
     } else if srcBitIdx > dstBitIdx then do {
       let rightShiftAmount = srcBitIdx - dstBitIdx;
       let leftShiftAmount = bitsPerWord TYPE('w) - rightShiftAmount;
       lo \<leftarrow> map_option (drop_bit rightShiftAmount) (vec_get src j);
       hi \<leftarrow> (if j + 1 \<le> srcLastIdx
              then map_option (push_bit leftShiftAmount) (vec_get src (j + 1)) else Some 0);
       Some (lo OR hi)
     } else vec_get src j
   }"

definition copy_word ::
    "bitrange \<Rightarrow> nat \<Rightarrow> nat \<Rightarrow> nat \<Rightarrow> 'w::len word \<Rightarrow> 'w word list \<Rightarrow> 'w word list option" where
  "copy_word dstRange dstFirstIdx dstLastIdx i tmp dst = do {
     dstLeast \<leftarrow> least dstRange;
     dstGreatest \<leftarrow> greatest dstRange;
     full \<leftarrow> bitMask 0 (bitsPerWord TYPE('w));
     below \<leftarrow> bitMask 0 (bitIndex TYPE('w) dstLeast);
     upto \<leftarrow> bitMask 0 (bitIndex TYPE('w) dstGreatest + 1);
     let m = (if i = dstFirstIdx then full AND NOT below else full);
     let m = (if i = dstLastIdx then m AND upto else m);
     d \<leftarrow> vec_get dst i;
     vec_set dst i ((d AND NOT m) OR (tmp AND m))
   }"

fun copy_loop ::
    "'w::len word list \<Rightarrow> bitrange \<Rightarrow> bitrange \<Rightarrow> nat \<Rightarrow> nat \<Rightarrow> nat list \<Rightarrow> 'w word list \<Rightarrow>
     'w word list option" where
  "copy_loop src srcRange dstRange dstFirstIdx dstLastIdx [] dst = Some dst"
| "copy_loop src srcRange dstRange dstFirstIdx dstLastIdx (i # is) dst = do {
     tmp \<leftarrow> copy_source src srcRange dstRange dstFirstIdx i;
     dst' \<leftarrow> copy_word dstRange dstFirstIdx dstLastIdx i tmp dst;
     copy_loop src srcRange dstRange dstFirstIdx dstLastIdx is dst'
   }"

definition nonoverlappingCopy ::
    "'w::len word list \<Rightarrow> bitrange \<Rightarrow> 'w word list \<Rightarrow> bitrange \<Rightarrow> 'w word list option" where
  "nonoverlappingCopy src srcRange dst dstRange = do {
     require (interval_size srcRange = interval_size dstRange);
     dstLeast \<leftarrow> least dstRange;
     dstGreatest \<leftarrow> greatest dstRange;
     let dstFirstIdx = wordIndex TYPE('w) dstLeast;
     let dstLastIdx = wordIndex TYPE('w) dstGreatest;
     copy_loop src srcRange dstRange dstFirstIdx dstLastIdx [dstFirstIdx..<dstLastIdx + 1] dst
   }"

section \<open>Traversals\<close>

function traverse_up ::
    "('s, 'w::len) word_op \<Rightarrow> 's \<Rightarrow> 'w word list \<Rightarrow> nat \<Rightarrow> nat \<Rightarrow> nat \<Rightarrow> ('s \<times> 'w word list) option" where
  "traverse_up pw s words wordIdx offsetInWord nRemaining =
     (if nRemaining = 0 then Some (s, words)
      else let nbits = min (bitsPerWord TYPE('w) - offsetInWord) nRemaining in
        if nbits = 0 then None
        else do {
          w \<leftarrow> vec_get words wordIdx;
          (s', w', done) \<leftarrow> pw s w offsetInWord nbits;
          words' \<leftarrow> vec_set words wordIdx w';
          if done then Some (s', words')
          else traverse_up pw s' words' (wordIdx + 1) 0 (nRemaining - nbits)
        })"
  by pat_completeness auto
termination
  by (relation "measure (\<lambda>(pw, s, words, wordIdx, offsetInWord, nRemaining). nRemaining)") auto

definition traverse_LowToHigh ::
    "('s, 'w::len) word_op \<Rightarrow> 's \<Rightarrow> 'w word list \<Rightarrow> bitrange \<Rightarrow> ('s \<times> 'w word list) option" where
  "traverse_LowToHigh pw s words rng =
     (if isEmpty rng then Some (s, words)
      else do {
        lo \<leftarrow> least rng;
        traverse_up pw s words (wordIndex TYPE('w) lo) (bitIndex TYPE('w) lo) (interval_size rng)
      })"

text \<open>
  From high to low, the number of bits of a word depends on whether it is the first, the last
  or a middle word of the range.
\<close>

definition down_nbits :: "'w::len itself \<Rightarrow> nat \<Rightarrow> nat \<Rightarrow> nat \<Rightarrow> nat \<Rightarrow> nat \<Rightarrow> nat option" where
  "down_nbits W firstWordIdx lastWordIdx offsetInWord wordIdx nRemaining =
     (if wordIdx = firstWordIdx then do {
        require (nRemaining \<le> bitsPerWord W);
        Some nRemaining
      } else if wordIdx < lastWordIdx then do {
        require (nRemaining > bitsPerWord W);
        Some (bitsPerWord W)
      } else do {
        require (wordIdx = lastWordIdx);
        require (wordIdx > firstWordIdx);
        let nBitsToLeft = (bitsPerWord W - offsetInWord) +
                          (lastWordIdx - firstWordIdx - 1) * bitsPerWord W;
        require (nRemaining > nBitsToLeft);
        let nbits = nRemaining - nBitsToLeft;
        require (nbits \<le> bitsPerWord W);
        Some nbits
      })"

lemma down_nbits_pos: "down_nbits W f l off i n = Some k \<Longrightarrow> 0 < n \<Longrightarrow> 0 < k" for W :: "'w::len itself"
  by (auto simp: down_nbits_def bitsPerWord_def Let_def split: if_splits)

function traverse_down ::
    "('s, 'w::len) word_op \<Rightarrow> nat \<Rightarrow> nat \<Rightarrow> nat \<Rightarrow> 's \<Rightarrow> 'w word list \<Rightarrow> nat \<Rightarrow> nat \<Rightarrow>
     ('s \<times> 'w word list) option" where
  "traverse_down pw firstWordIdx lastWordIdx offsetInWord s words wordIdx nRemaining =
     (if nRemaining = 0 then Some (s, words)
      else case down_nbits TYPE('w) firstWordIdx lastWordIdx offsetInWord wordIdx nRemaining of
        None \<Rightarrow> None
      | Some nbits \<Rightarrow> do {
          w \<leftarrow> vec_get words wordIdx;
          (s', w', done) \<leftarrow> pw s w (if wordIdx = firstWordIdx then offsetInWord else 0) nbits;
          words' \<leftarrow> vec_set words wordIdx w';
          if done then Some (s', words')
          else traverse_down pw firstWordIdx lastWordIdx offsetInWord s' words' (wordIdx - 1)
                 (nRemaining - nbits)
        })"
  by pat_completeness auto
termination
  by (relation "measure (\<lambda>(pw, f, l, off, s, words, wordIdx, nRemaining). nRemaining)")
    (auto dest: down_nbits_pos)

definition traverse_HighToLow ::
    "('s, 'w::len) word_op \<Rightarrow> 's \<Rightarrow> 'w word list \<Rightarrow> bitrange \<Rightarrow> ('s \<times> 'w word list) option" where
  "traverse_HighToLow pw s words rng =
     (if isEmpty rng then Some (s, words)
      else do {
        lo \<leftarrow> least rng;
        hi \<leftarrow> greatest rng;
        traverse_down pw (wordIndex TYPE('w) lo) (wordIndex TYPE('w) hi) (bitIndex TYPE('w) lo)
          s words (wordIndex TYPE('w) hi) (interval_size rng)
      })"

text \<open>
  Two ranges: the first is copied into a temporary array with the bit alignment of the second
  (\<open>align_tmp\<close>), the words of the two are processed in pairs, and the temporary is copied back
  to the first vector only where that is not \<^verbatim>\<open>const\<close> (\<open>conditionalCopy\<close>). Because the
  temporary is filled before the traversal, the two vectors may be the same array.
\<close>

definition align_tmp ::
    "'w::len word list \<Rightarrow> bitrange \<Rightarrow> bitrange \<Rightarrow> ('w word list \<times> bitrange) option" where
  "align_tmp vec1 range1 range2 = do {
     lo2 \<leftarrow> least range2;
     let offsetInWord = bitIndex TYPE('w) lo2;
     let nWordsTmp = numberOfWords TYPE('w) (offsetInWord + interval_size range2);
     tmpRange \<leftarrow> baseSize offsetInWord (interval_size range1);
     tmp \<leftarrow> nonoverlappingCopy vec1 range1 (replicate nWordsTmp 0) tmpRange;
     Some (tmp, tmpRange)
   }"

function traverse2_up ::
    "('s, 'w::len) word_op2 \<Rightarrow> nat \<Rightarrow> 's \<Rightarrow> 'w word list \<Rightarrow> 'w word list \<Rightarrow> nat \<Rightarrow> nat \<Rightarrow> nat \<Rightarrow>
     ('s \<times> 'w word list \<times> 'w word list) option" where
  "traverse2_up pw vec2WordOffset s tmp vec2 wordIdx offsetInWord nRemaining =
     (if nRemaining = 0 then Some (s, tmp, vec2)
      else let nbits = min (bitsPerWord TYPE('w) - offsetInWord) nRemaining in
        if nbits = 0 then None
        else do {
          w1 \<leftarrow> vec_get tmp wordIdx;
          w2 \<leftarrow> vec_get vec2 (wordIdx + vec2WordOffset);
          (s', w1', w2', done) \<leftarrow> pw s w1 w2 offsetInWord nbits;
          tmp' \<leftarrow> vec_set tmp wordIdx w1';
          vec2' \<leftarrow> vec_set vec2 (wordIdx + vec2WordOffset) w2';
          if done then Some (s', tmp', vec2')
          else traverse2_up pw vec2WordOffset s' tmp' vec2' (wordIdx + 1) 0 (nRemaining - nbits)
        })"
  by pat_completeness auto
termination
  by (relation "measure (\<lambda>(pw, off2, s, tmp, vec2, wordIdx, offsetInWord, nRemaining). nRemaining)") auto

definition traverse2_LowToHigh ::
    "('s, 'w::len) word_op2 \<Rightarrow> 's \<Rightarrow> 'w word list \<Rightarrow> bitrange \<Rightarrow> 'w word list \<Rightarrow> bitrange \<Rightarrow>
     ('s \<times> ('w word list \<times> bitrange) option \<times> 'w word list) option" where
  "traverse2_LowToHigh pw s vec1 range1 vec2 range2 = do {
     require (isEmpty range1 \<and> isEmpty range2 \<or> \<not> isEmpty range1 \<and> \<not> isEmpty range2);
     if isEmpty range1 then Some (s, None, vec2)
     else do {
       require (interval_size range1 = interval_size range2);
       (tmp, tmpRange) \<leftarrow> align_tmp vec1 range1 range2;
       lo2 \<leftarrow> least range2;
       (s', tmp', vec2') \<leftarrow> traverse2_up pw (wordIndex TYPE('w) lo2) s tmp vec2 0
         (bitIndex TYPE('w) lo2) (interval_size range2);
       Some (s', Some (tmp', tmpRange), vec2')
     }
   }"

function traverse2_down ::
    "('s, 'w::len) word_op2 \<Rightarrow> nat \<Rightarrow> nat \<Rightarrow> nat \<Rightarrow> 's \<Rightarrow> 'w word list \<Rightarrow> 'w word list \<Rightarrow> nat \<Rightarrow> nat \<Rightarrow>
     ('s \<times> 'w word list \<times> 'w word list) option" where
  "traverse2_down pw vec2WordOffset nWordsTmp offsetInWord s tmp vec2 wordIdx nRemaining =
     (if nRemaining = 0 then Some (s, tmp, vec2)
      else case down_nbits TYPE('w) 0 (nWordsTmp - 1) offsetInWord wordIdx nRemaining of
        None \<Rightarrow> None
      | Some nbits \<Rightarrow> do {
          w1 \<leftarrow> vec_get tmp wordIdx;
          w2 \<leftarrow> vec_get vec2 (wordIdx + vec2WordOffset);
          (s', w1', w2', done) \<leftarrow> pw s w1 w2 (if wordIdx = 0 then offsetInWord else 0) nbits;
          tmp' \<leftarrow> vec_set tmp wordIdx w1';
          vec2' \<leftarrow> vec_set vec2 (wordIdx + vec2WordOffset) w2';
          if done then Some (s', tmp', vec2')
          else traverse2_down pw vec2WordOffset nWordsTmp offsetInWord s' tmp' vec2' (wordIdx - 1)
                 (nRemaining - nbits)
        })"
  by pat_completeness auto
termination
  by (relation "measure (\<lambda>(pw, off2, nw, off, s, tmp, vec2, wordIdx, nRemaining). nRemaining)")
    (auto dest: down_nbits_pos)

definition traverse2_HighToLow ::
    "('s, 'w::len) word_op2 \<Rightarrow> 's \<Rightarrow> 'w word list \<Rightarrow> bitrange \<Rightarrow> 'w word list \<Rightarrow> bitrange \<Rightarrow>
     ('s \<times> ('w word list \<times> bitrange) option \<times> 'w word list) option" where
  "traverse2_HighToLow pw s vec1 range1 vec2 range2 = do {
     require (isEmpty range1 \<and> isEmpty range2 \<or> \<not> isEmpty range1 \<and> \<not> isEmpty range2);
     if isEmpty range1 then Some (s, None, vec2)
     else do {
       require (interval_size range1 = interval_size range2);
       (tmp, tmpRange) \<leftarrow> align_tmp vec1 range1 range2;
       lo2 \<leftarrow> least range2;
       (s', tmp', vec2') \<leftarrow> traverse2_down pw (wordIndex TYPE('w) lo2) (length tmp)
         (bitIndex TYPE('w) lo2) s tmp vec2 (length tmp - 1) (interval_size range2);
       Some (s', Some (tmp', tmpRange), vec2')
     }
   }"

definition conditionalCopy ::
    "('w::len word list \<times> bitrange) option \<Rightarrow> 'w word list \<Rightarrow> bitrange \<Rightarrow> 'w word list option" where
  "conditionalCopy t vec1 range1 =
     (case t of None \<Rightarrow> Some vec1
      | Some (tmp, tmpRange) \<Rightarrow> nonoverlappingCopy tmp tmpRange vec1 range1)"

declare traverse_up.simps [simp del] traverse_down.simps [simp del]
declare traverse2_up.simps [simp del] traverse2_down.simps [simp del]

section \<open>Bits of an array\<close>

definition vbit :: "'w::len word list \<Rightarrow> nat \<Rightarrow> bool" where
  "vbit ws i \<longleftrightarrow> i div LENGTH('w) < length ws \<and> bit (ws ! (i div LENGTH('w))) (i mod LENGTH('w))"

lemma split_index:
  fixes W :: nat
  assumes "k < W"
  shows "(j * W + k) div W = j" "(j * W + k) mod W = k" "(W * j + k) div W = j" "(W * j + k) mod W = k"
  using assms by simp_all

lemma vbit_word [bits_simps]:
  "k < LENGTH('w) \<Longrightarrow> vbit ws (j * LENGTH('w) + k) \<longleftrightarrow> j < length ws \<and> bit (ws ! j) k"
  for ws :: "'w::len word list"
  by (simp add: vbit_def)

lemma vbit_beyond: "length ws * LENGTH('w) \<le> i \<Longrightarrow> \<not> vbit ws i" for ws :: "'w::len word list"
  by (simp add: vbit_def not_less less_eq_div_iff_mult_less_eq)

lemma index_less:
  "i < length ws * LENGTH('w) \<Longrightarrow> i div LENGTH('w) < length ws" for ws :: "'w::len word list"
  by (simp add: less_mult_imp_div_less)

lemma vbit_update [bits_simps]:
  fixes ws :: "'w::len word list"
  assumes "j < length ws"
  shows "vbit (ws[j := x]) i \<longleftrightarrow> (if i div LENGTH('w) = j then bit x (i mod LENGTH('w)) else vbit ws i)"
  using assms by (auto simp: vbit_def nth_list_update)

lemma vbit_replicate_0 [simp]: "\<not> vbit (replicate n 0) i"
  by (simp add: vbit_def)

lemma vec_eqI:
  fixes xs ys :: "'w::len word list"
  assumes len: "length xs = length ys" and bits: "\<And>i. vbit xs i = vbit ys i"
  shows "xs = ys"
proof (rule nth_equalityI [OF len])
  fix j assume j: "j < length xs"
  show "xs ! j = ys ! j"
  proof (rule bit_word_eqI)
    fix k assume "k < LENGTH('w)"
    with bits [of "j * LENGTH('w) + k"] j len show "bit (xs ! j) k = bit (ys ! j) k"
      by (simp add: vbit_word)
  qed
qed

lemma bitMask_Some [simp]:
  "off + n \<le> LENGTH('w) \<Longrightarrow> bitMask off n = Some (push_bit off (mask n) :: 'w::len word)"
  using mask_minus_one [where 'a = 'w, of n] by (simp add: bitMask_def bitsPerWord_def)

lemma bit_splice [bits_simps]:
  fixes w t :: "'w::len word"
  assumes "i < LENGTH('w)"
  shows "bit ((w AND NOT (push_bit off (mask n))) OR push_bit off (t AND mask n)) i \<longleftrightarrow>
         (if off \<le> i \<and> i < off + n then bit t (i - off) else bit w i)"
  using assms by (auto simp: bit_simps)

lemma bit_splice_masked [bits_simps]:
  fixes w t :: "'w::len word"
  assumes "i < LENGTH('w)"
  shows "bit ((w AND NOT m) OR (t AND m)) i \<longleftrightarrow> (if bit m i then bit t i else bit w i)"
  using assms by (auto simp: bit_simps)

lemma bit_drop_bit_word [bits_simps]: "bit (drop_bit n w) i \<longleftrightarrow> bit w (n + i)" for w :: "'w::len word"
  by (simp add: bit_simps)

section \<open>Copying is correct\<close>

text \<open>
  Word \<open>i\<close> of the destination, inside the destination range, receives the source bits at the
  same distance from the start of the range.
\<close>

lemma copy_source_bits:
  fixes src :: "'w::len word list"
  assumes n: "0 < n" and src: "sb + n \<le> length src * LENGTH('w)"
    and i: "db div LENGTH('w) \<le> i" "i \<le> (db + n - 1) div LENGTH('w)"
  shows "\<exists>tmp. copy_source src (range_of sb n) (range_of db n) (db div LENGTH('w)) i = Some tmp \<and>
           (\<forall>k<LENGTH('w). db \<le> i * LENGTH('w) + k \<longrightarrow> i * LENGTH('w) + k < db + n \<longrightarrow>
              bit tmp k = vbit src (sb + (i * LENGTH('w) + k - db)))"
proof -
  define W where "W = LENGTH('w)"
  have W: "0 < W" by (simp add: W_def)
  define sF where "sF = sb div W"
  define s' where "s' = sb mod W"
  define dF where "dF = db div W"
  define d' where "d' = db mod W"
  define t where "t = i - dF"
  define sL where "sL = (sb + n - Suc 0) div W"
  have sb: "sb = sF * W + s'" and db: "db = dF * W + d'"
    by (simp_all add: sF_def s'_def dF_def d'_def)
  have s'W: "s' < W" and d'W: "d' < W" using W by (simp_all add: s'_def d'_def)
  have it: "i = dF + t" using i(1) by (simp add: t_def dF_def W_def)
  have j: "nat (int i + (int sF - int dF)) = sF + t" by (simp add: it)
  have div_shift: "(a * W + b) div W = a + b div W" for a b
    using W by simp
  have sL: "sL = sF + (s' + n - 1) div W"
    using n div_shift [of sF "s' + n - 1"] by (simp add: sL_def sb add.assoc)
  have t: "t \<le> (d' + n - 1) div W"
    using i(2) n div_shift [of dF "d' + n - 1"] by (simp add: it db W_def [symmetric] add.assoc)
  have sL_len: "sL < length src"
    using src n W by (auto simp: sL_def W_def [symmetric] intro!: less_mult_imp_div_less)
  have pos: "sb + (i * W + k - db) = (sF + t) * W + s' + k - d'" if "db \<le> i * W + k" for k
    using that by (simp add: it db sb algebra_simps)
  have pos_le: "((sF + t) * W + s' + k - d') div W \<le> sL"
    if "db \<le> i * W + k" "i * W + k < db + n" for k
    unfolding sL_def by (rule div_le_mono) (use that pos [of k] in linarith)
  have vb: "vbit src (p * W + k) \<longleftrightarrow> p < length src \<and> bit (src ! p) k" if "k < W" for p k
    using that by (simp add: W_def vbit_word)
  have t_less: "d' \<le> t * W + k" if "db \<le> i * W + k" for k
    using that by (simp add: it db algebra_simps)
  note unf = copy_source_def wordIndex_def bitIndex_def bitsPerWord_def Let_def W_def [symmetric]
    sF_def [symmetric] dF_def [symmetric] s'_def [symmetric] d'_def [symmetric]
  consider (left) "s' < d'" | (right) "d' < s'" | (same) "s' = d'" by linarith
  then show ?thesis
    unfolding W_def [symmetric] dF_def [symmetric]
  proof cases
    case left
    define l where "l = d' - s'"
    have l: "0 < l" "l < W" using left d'W by (auto simp: l_def)
    have "t \<le> Suc ((s' + n - 1) div W)"
    proof -
      have "(d' + n - 1) div W \<le> (W + (s' + n - 1)) div W"
        by (rule div_le_mono) (use d'W n in linarith)
      with t div_shift [of 1 "s' + n - 1"] show ?thesis by simp
    qed
    then have "sF + t - 1 < length src" using sL sL_len by linarith
    then have eq: "copy_source src (range_of sb n) (range_of db n) dF i =
        Some ((if 0 < t then drop_bit (W - l) (src ! (sF + t - 1)) else 0) OR
              (if sL < sF + t then 0 else push_bit l (src ! (sF + t))))"
      using n left sL_len by (simp add: unf j sL_def [symmetric] l_def [symmetric])
    show "\<exists>tmp. copy_source src (range_of sb n) (range_of db n) dF i = Some tmp \<and>
       (\<forall>k<W. db \<le> i * W + k \<longrightarrow> i * W + k < db + n \<longrightarrow> bit tmp k = vbit src (sb + (i * W + k - db)))"
      unfolding eq
    proof (rule exI, rule conjI, rule refl, intro allI impI)
      fix k assume k: "k < W" and lo: "db \<le> i * W + k" and hi: "i * W + k < db + n"
      show "bit ((if 0 < t then drop_bit (W - l) (src ! (sF + t - 1)) else 0) OR
            (if sL < sF + t then 0 else push_bit l (src ! (sF + t)))) k = vbit src (sb + (i * W + k - db))"
      proof (cases "k < l")
        case True
        then have tpos: "0 < t" using t_less [OF lo] l_def by (cases t) auto
        then have "(sF + t) * W = (sF + t - 1) * W + W" by (cases t) auto
        then have "sb + (i * W + k - db) = (sF + t - 1) * W + (W - l + k)"
          using pos [OF lo] l left by (simp add: l_def)
        moreover have "W - l + k < W" using True l by linarith
        ultimately show ?thesis
          using True tpos k \<open>sF + t - 1 < length src\<close> by (simp add: vb bit_simps)
      next
        case False
        then have p: "sb + (i * W + k - db) = (sF + t) * W + (k - l)"
          using pos [OF lo] left by (simp add: l_def)
        have "(sF + t) * W + s' + k - d' = (sF + t) * W + (k - l)"
          using p pos [OF lo] by simp
        then have "sF + t \<le> sL" using pos_le [OF lo hi] div_shift [of "sF + t" "k - l"] k by simp
        moreover have "\<not> bit (src ! x) (W - l + k)" for x
          using False l by (auto simp: W_def dest: bit_imp_le_length)
        ultimately show ?thesis
          using False k sL_len unfolding p by (subst vb) (auto simp: bit_simps W_def [symmetric])
      qed
    qed
  next
    case right
    define r where "r = s' - d'"
    have r: "0 < r" "r < W" using right s'W by (auto simp: r_def)
    have "(d' + n - 1) div W \<le> (s' + n - 1) div W"
      by (rule div_le_mono) (use right in linarith)
    with t sL sL_len have jl: "sF + t \<le> sL" "sF + t < length src" by linarith+
    then have eq: "copy_source src (range_of sb n) (range_of db n) dF i =
        Some (drop_bit r (src ! (sF + t)) OR
              (if sF + t + 1 \<le> sL then push_bit (W - r) (src ! (sF + t + 1)) else 0))"
      using n right sL_len by (simp add: unf j sL_def [symmetric] r_def [symmetric])
    show "\<exists>tmp. copy_source src (range_of sb n) (range_of db n) dF i = Some tmp \<and>
       (\<forall>k<W. db \<le> i * W + k \<longrightarrow> i * W + k < db + n \<longrightarrow> bit tmp k = vbit src (sb + (i * W + k - db)))"
      unfolding eq
    proof (rule exI, rule conjI, rule refl, intro allI impI)
      fix k assume k: "k < W" and lo: "db \<le> i * W + k" and hi: "i * W + k < db + n"
      show "bit (drop_bit r (src ! (sF + t)) OR
              (if sF + t + 1 \<le> sL then push_bit (W - r) (src ! (sF + t + 1)) else 0)) k =
            vbit src (sb + (i * W + k - db))"
      proof (cases "r + k < W")
        case True
        have "sb + (i * W + k - db) = (sF + t) * W + (r + k)"
          using pos [OF lo] right by (simp add: r_def)
        then show ?thesis using True jl by (auto simp: vb bit_simps)
      next
        case False
        have p: "sb + (i * W + k - db) = (sF + t + 1) * W + (k - (W - r))"
          using pos [OF lo] right False r by (simp add: r_def)
        have "(sF + t) * W + s' + k - d' = (sF + t + 1) * W + (k - (W - r))"
          using p pos [OF lo] by simp
        then have "sF + t + 1 \<le> sL"
          using pos_le [OF lo hi] div_shift [of "sF + t + 1" "k - (W - r)"] k by simp
        moreover have "\<not> bit (src ! x) (r + k)" for x
          using False by (auto simp: W_def dest: bit_imp_le_length)
        ultimately show ?thesis
          using False k sL_len unfolding p by (subst vb) (auto simp: bit_simps W_def [symmetric])
      qed
    qed
  next
    case same
    with t sL sL_len have jl: "sF + t < length src" by simp
    then have eq: "copy_source src (range_of sb n) (range_of db n) dF i = Some (src ! (sF + t))"
      using n same by (simp add: unf j)
    moreover have "sb + (i * W + k - db) = (sF + t) * W + k" if "db \<le> i * W + k" for k
      using pos [OF that] same by simp
    ultimately show "\<exists>tmp. copy_source src (range_of sb n) (range_of db n) dF i = Some tmp \<and>
       (\<forall>k<W. db \<le> i * W + k \<longrightarrow> i * W + k < db + n \<longrightarrow> bit tmp k = vbit src (sb + (i * W + k - db)))"
      using jl by (simp add: vb)
  qed
qed

lemma le_by_index:
  fixes W :: nat
  assumes "0 < W" "a div W \<le> p div W"
  shows "a \<le> p \<longleftrightarrow> (a div W = p div W \<longrightarrow> a mod W \<le> p mod W)"
proof (cases "a div W = p div W")
  case True
  then show ?thesis
    by (metis add_le_cancel_left div_mult_mod_eq)
next
  case False
  with assms have "a div W < p div W" by simp
  then have "a < p" by (meson div_le_mono leD not_le_imp_less)
  with False show ?thesis by simp
qed

lemma copy_word_bits:
  fixes dst :: "'w::len word list"
  assumes n: "0 < n" and dst: "db + n \<le> length dst * LENGTH('w)"
    and i: "db div LENGTH('w) \<le> i" "i \<le> (db + n - 1) div LENGTH('w)"
  shows "\<exists>dst'. copy_word (range_of db n) (db div LENGTH('w)) ((db + n - 1) div LENGTH('w)) i tmp dst
                  = Some dst' \<and> length dst' = length dst \<and>
          (\<forall>p. vbit dst' p = (if p div LENGTH('w) = i \<and> db \<le> p \<and> p < db + n
                              then bit tmp (p mod LENGTH('w)) else vbit dst p))"
proof -
  define W where "W = LENGTH('w)"
  have W: "0 < W" by (simp add: W_def)
  define dL where "dL = (db + n - Suc 0) div W"
  define m0 where "m0 = (if i = db div W then mask W AND NOT (mask (db mod W)) else mask W :: 'w word)"
  define m where "m = (if i = dL then m0 AND mask (Suc ((db + n - Suc 0) mod W)) else m0)"
  have dL: "dL < length dst"
    using dst n W by (auto simp: dL_def W_def [symmetric] intro!: less_mult_imp_div_less)
  have il: "i < length dst" using i(2) dL by (simp add: dL_def W_def [symmetric])
  have mod_le: "Suc (a mod W) \<le> W" "a mod W \<le> W" for a
    using W by (simp_all add: Suc_le_eq less_imp_le)
  have eq: "copy_word (range_of db n) (db div W) dL i tmp dst
      = Some (dst[i := (dst ! i AND NOT m) OR (tmp AND m)])"
    using n il mod_le by (simp add: copy_word_def bitsPerWord_def bitIndex_def Let_def W_def [symmetric]
        m_def m0_def)
  have m_bits: "bit m k \<longleftrightarrow> db \<le> i * W + k \<and> i * W + k < db + n" if k: "k < W" for k
  proof -
    have lo: "db \<le> i * W + k \<longleftrightarrow> (db div W = i \<longrightarrow> db mod W \<le> k)"
      using le_by_index [of W db "i * W + k"] W k i(1) by (simp add: W_def [symmetric])
    have hi: "i * W + k \<le> db + n - Suc 0 \<longleftrightarrow> (i = dL \<longrightarrow> k \<le> (db + n - Suc 0) mod W)"
      using le_by_index [of W "i * W + k" "db + n - Suc 0"] W k i(2)
      by (auto simp: dL_def W_def [symmetric])
    have "i * W + k < db + n \<longleftrightarrow> i * W + k \<le> db + n - Suc 0" using n by linarith
    with lo hi show ?thesis
      using k by (auto simp: m_def m0_def bit_simps W_def)
  qed
  show ?thesis
    unfolding W_def [symmetric]
    using eq
  proof (intro exI conjI allI)
    fix p
    show "vbit (dst[i := (dst ! i AND NOT m) OR (tmp AND m)]) p =
        (if p div W = i \<and> db \<le> p \<and> p < db + n then bit tmp (p mod W) else vbit dst p)"
    proof (cases "p div W = i")
      case True
      then have "i * W + p mod W = p" by auto
      moreover have "p mod W < W" using W by simp
      ultimately show ?thesis
        using il m_bits [of "p mod W"] True bit_splice_masked [of "p mod W" "dst ! i" m tmp]
        by (simp add: vbit_update W_def [symmetric]) (simp add: vbit_def W_def)
    next
      case False
      with il show ?thesis by (simp add: vbit_update W_def [symmetric])
    qed
  qed (simp_all add: dL_def)
qed

lemma copy_loop_bits:
  fixes src dst :: "'w::len word list"
  assumes n: "0 < n" and src: "sb + n \<le> length src * LENGTH('w)"
    and dst: "db + n \<le> length dst * LENGTH('w)"
    and a: "db div LENGTH('w) \<le> a" and b: "b \<le> Suc ((db + n - 1) div LENGTH('w))"
  shows "\<exists>dst'. copy_loop src (range_of sb n) (range_of db n) (db div LENGTH('w))
                  ((db + n - 1) div LENGTH('w)) [a..<b] dst = Some dst' \<and> length dst' = length dst \<and>
          (\<forall>p. vbit dst' p = (if a \<le> p div LENGTH('w) \<and> p div LENGTH('w) < b \<and> db \<le> p \<and> p < db + n
                              then vbit src (sb + (p - db)) else vbit dst p))"
  using a dst
proof (induction "b - a" arbitrary: a dst)
  case 0
  then show ?case by auto
next
  case (Suc d)
  then have ab: "a < b" and dd: "d = b - Suc a" by simp_all
  with b have aL: "a \<le> (db + n - 1) div LENGTH('w)" by simp
  obtain tmp where tmp: "copy_source src (range_of sb n) (range_of db n) (db div LENGTH('w)) a = Some tmp"
      and tb: "\<And>k. k < LENGTH('w) \<Longrightarrow> db \<le> a * LENGTH('w) + k \<Longrightarrow> a * LENGTH('w) + k < db + n \<Longrightarrow>
              bit tmp k = vbit src (sb + (a * LENGTH('w) + k - db))"
    using copy_source_bits [OF n src \<open>db div LENGTH('w) \<le> a\<close> aL] by blast
  obtain d1 where d1: "copy_word (range_of db n) (db div LENGTH('w)) ((db + n - 1) div LENGTH('w)) a tmp dst
                  = Some d1" "length d1 = length dst"
      and d1b: "\<And>p. vbit d1 p = (if p div LENGTH('w) = a \<and> db \<le> p \<and> p < db + n
                              then bit tmp (p mod LENGTH('w)) else vbit dst p)"
    using copy_word_bits [OF n Suc.prems(2) Suc.prems(1) aL] by blast
  obtain d2 where d2: "copy_loop src (range_of sb n) (range_of db n) (db div LENGTH('w))
                  ((db + n - 1) div LENGTH('w)) [Suc a..<b] d1 = Some d2" "length d2 = length d1"
      and d2b: "\<And>p. vbit d2 p = (if Suc a \<le> p div LENGTH('w) \<and> p div LENGTH('w) < b \<and> db \<le> p \<and> p < db + n
                              then vbit src (sb + (p - db)) else vbit d1 p)"
    using Suc.hyps(1) [of "Suc a" d1] dd Suc.prems d1(2) by auto
  have tb': "bit tmp (p mod LENGTH('w)) = vbit src (sb + (p - db))"
    if "p div LENGTH('w) = a" "db \<le> p" "p < db + n" for p
    using tb [of "p mod LENGTH('w)"] that by (auto simp: div_mult_mod_eq)
  have "copy_loop src (range_of sb n) (range_of db n) (db div LENGTH('w))
                  ((db + n - 1) div LENGTH('w)) [a..<b] dst = Some d2"
    using tmp d1(1) d2(1) ab by (simp add: upt_conv_Cons)
  moreover have "vbit d2 p = (if a \<le> p div LENGTH('w) \<and> p div LENGTH('w) < b \<and> db \<le> p \<and> p < db + n
                              then vbit src (sb + (p - db)) else vbit dst p)" for p
    using tb' [of p] ab by (auto simp: d2b d1b)
  ultimately show ?case using d2(2) d1(2) by auto
qed

text \<open>
  Bits outside the destination range keep their value, those inside take the source's.
\<close>

definition copied ::
    "'w::len word list \<Rightarrow> nat \<Rightarrow> 'w word list \<Rightarrow> nat \<Rightarrow> nat \<Rightarrow> 'w word list \<Rightarrow> bool" where
  "copied src sb dst db n dst' \<longleftrightarrow> length dst' = length dst \<and>
     (\<forall>p. vbit dst' p = (if db \<le> p \<and> p < db + n then vbit src (sb + (p - db)) else vbit dst p))"

lemma nonoverlappingCopy_bits:
  fixes src dst :: "'w::len word list"
  assumes n: "0 < n" and src: "sb + n \<le> length src * LENGTH('w)"
    and dst: "db + n \<le> length dst * LENGTH('w)"
  shows "\<exists>dst'. nonoverlappingCopy src (range_of sb n) dst (range_of db n) = Some dst' \<and>
           copied src sb dst db n dst'"
proof -
  have inside: "db div LENGTH('w) \<le> p div LENGTH('w) \<and> p div LENGTH('w) \<le> (db + n - Suc 0) div LENGTH('w)"
    if "db \<le> p" "p < db + n" for p
    using that by (auto intro!: div_le_mono)
  then show ?thesis
    using copy_loop_bits [OF assms order_refl order_refl] n
    by (fastforce simp: nonoverlappingCopy_def wordIndex_def bitsPerWord_def Let_def copied_def less_Suc_eq_le)
qed

end
