(* ===== verification/BVS_Rules.thy ===== *)
theory BVS_Rules
  imports BVS_Traverse
begin

text \<open>
  Proof rules for the traversals of \<^verbatim>\<open>src/Sawyer/BitVectorSupport.h\<close>. Each rule takes an
  invariant indexed by the position reached in the range and asks for one step of the
  processor: given the next run of at most one word of bits, the processor succeeds and either
  re-establishes the invariant further on or stops with the result. The conclusion is that the
  traversal succeeds, keeps the length of the array and gives the result; no assertion of the
  traversal fails and no word outside the range is read.
\<close>

section \<open>Runs of bits\<close>

definition chunk :: "'w::len word list \<Rightarrow> nat \<Rightarrow> nat \<Rightarrow> 'w word \<Rightarrow> bool" where
  "chunk ws p k w \<longleftrightarrow> (\<forall>i<k. bit w i = vbit ws (p + i))"

definition spliced :: "'w::len word list \<Rightarrow> nat \<Rightarrow> nat \<Rightarrow> 'w word \<Rightarrow> 'w word list \<Rightarrow> bool" where
  "spliced ws p k t ws' \<longleftrightarrow> length ws' = length ws \<and>
     (\<forall>q. vbit ws' q = (if p \<le> q \<and> q < p + k then bit t (q - p) else vbit ws q))"

text \<open>A position \<open>p\<close> and a length \<open>k\<close> that stay inside one word.\<close>

definition in_word :: "'w::len itself \<Rightarrow> nat \<Rightarrow> nat \<Rightarrow> bool" where
  "in_word W p k \<longleftrightarrow> 0 < k \<and> p mod LENGTH('w) + k \<le> LENGTH('w)"

lemma in_word_index:
  fixes W :: "'w::len itself"
  assumes "in_word W p k"
  shows "p div LENGTH('w) = q div LENGTH('w) \<and> p mod LENGTH('w) \<le> q mod LENGTH('w) \<and>
           q mod LENGTH('w) < p mod LENGTH('w) + k \<longleftrightarrow> p \<le> q \<and> q < p + k"
    (is "?l = ?r")
proof
  assume ?l
  then show ?r
    using div_mult_mod_eq [of p "LENGTH('w)"] div_mult_mod_eq [of q "LENGTH('w)"]
    by (metis add.assoc add_le_cancel_left add_less_cancel_left)
next
  assume r: ?r
  define i where "i = q - p"
  have i: "i < k" "q = p div LENGTH('w) * LENGTH('w) + (p mod LENGTH('w) + i)"
    using r by (auto simp: i_def add.assoc [symmetric])
  have "p mod LENGTH('w) + i < LENGTH('w)" using assms i(1) by (simp add: in_word_def)
  then have "q div LENGTH('w) = p div LENGTH('w)" "q mod LENGTH('w) = p mod LENGTH('w) + i"
    unfolding i(2) by (simp_all only: split_index)
  then show ?l using i(1) by simp
qed

lemma chunk_drop_bit:
  fixes ws :: "'w::len word list"
  assumes "in_word TYPE('w) p k" "p div LENGTH('w) < length ws"
  shows "chunk ws p k (drop_bit (p mod LENGTH('w)) (ws ! (p div LENGTH('w))))"
  unfolding chunk_def
proof (intro allI impI)
  fix i assume i: "i < k"
  then have "p mod LENGTH('w) + i < LENGTH('w)"
    using assms(1) by (simp add: in_word_def)
  then show "bit (drop_bit (p mod LENGTH('w)) (ws ! (p div LENGTH('w)))) i = vbit ws (p + i)"
    using assms(2) vbit_word [of "p mod LENGTH('w) + i" ws "p div LENGTH('w)"]
    by (simp add: bit_simps add.assoc [symmetric])
qed

lemma spliced_update:
  fixes ws :: "'w::len word list"
  assumes iw: "in_word TYPE('w) p k" and len: "p div LENGTH('w) < length ws"
    and bits: "\<And>i. i < LENGTH('w) \<Longrightarrow> bit w' i = (if p mod LENGTH('w) \<le> i \<and> i < p mod LENGTH('w) + k
                then bit t (i - p mod LENGTH('w)) else bit (ws ! (p div LENGTH('w))) i)"
  shows "spliced ws p k t (ws[p div LENGTH('w) := w'])"
  unfolding spliced_def
proof (intro conjI allI)
  fix q
  show "vbit (ws[p div LENGTH('w) := w']) q = (if p \<le> q \<and> q < p + k then bit t (q - p) else vbit ws q)"
  proof (cases "q div LENGTH('w) = p div LENGTH('w)")
    case True
    then have "q - p = q mod LENGTH('w) - p mod LENGTH('w)"
      using div_mult_mod_eq [of p "LENGTH('w)"] div_mult_mod_eq [of q "LENGTH('w)"]
      by (metis diff_cancel2 add.commute)
    with True show ?thesis
      using in_word_index [OF iw, of q] bits [of "q mod LENGTH('w)"] len
      by (simp add: vbit_update) (simp add: vbit_def)
  next
    case False
    then show ?thesis
      using in_word_index [OF iw, of q] len by (auto simp: vbit_update)
  qed
qed simp

lemma processWord_m_chunk:
  fixes ws :: "'w::len word list"
  assumes iw: "in_word TYPE('w) p k" and len: "p div LENGTH('w) < length ws"
    and proc: "proc s (drop_bit (p mod LENGTH('w)) (ws ! (p div LENGTH('w)))) k = Some (s', t, d)"
  shows "\<exists>w'. processWord_m proc s (ws ! (p div LENGTH('w))) (p mod LENGTH('w)) k = Some (s', w', d) \<and>
           spliced ws p k t (ws[p div LENGTH('w) := w'])"
proof -
  have "processWord_m proc s (ws ! (p div LENGTH('w))) (p mod LENGTH('w)) k =
    Some (s', (ws ! (p div LENGTH('w)) AND NOT (push_bit (p mod LENGTH('w)) (mask k))) OR
              push_bit (p mod LENGTH('w)) (t AND mask k), d)"
    using iw proc by (simp add: processWord_m_def bitsPerWord_def in_word_def)
  then show ?thesis
    by (intro exI conjI) (assumption, rule spliced_update [OF iw len], rule bit_splice)
qed

lemma processWord_c_chunk:
  fixes w :: "'w::len word"
  assumes iw: "in_word TYPE('w) p k"
    and proc: "proc s (drop_bit (p mod LENGTH('w)) w) k = Some (s', d)"
  shows "processWord_c proc s w (p mod LENGTH('w)) k = Some (s', w, d)"
  using iw proc by (simp add: processWord_c_def bitsPerWord_def in_word_def)

section \<open>One range, low to high\<close>

lemma next_chunk:
  fixes W :: "'w::len itself"
  assumes "p < e"
  defines "k \<equiv> min (LENGTH('w) - p mod LENGTH('w)) (e - p)"
  shows "in_word W p k \<and> p + k \<le> e \<and>
         (p + k < e \<longrightarrow> (p + k) div LENGTH('w) = Suc (p div LENGTH('w)) \<and> (p + k) mod LENGTH('w) = 0)"
proof -
  have m: "p mod LENGTH('w) < LENGTH('w)" by simp
  have "p + k = Suc (p div LENGTH('w)) * LENGTH('w)" if "p + k < e"
  proof -
    have "k = LENGTH('w) - p mod LENGTH('w)" using that by (auto simp: k_def)
    with m have "k + p mod LENGTH('w) = LENGTH('w)" by simp
    then show ?thesis using div_mult_mod_eq [of p "LENGTH('w)"] unfolding mult_Suc by linarith
  qed
  then have "p + k < e \<longrightarrow> (p + k) div LENGTH('w) = Suc (p div LENGTH('w)) \<and> (p + k) mod LENGTH('w) = 0"
    by (metis div_mult_self_is_m len_gt_0 mod_mult_self2_is_0)
  moreover have "k \<le> LENGTH('w) - p mod LENGTH('w)" "k \<le> e - p" "0 < k"
    using assms(1) by (simp_all add: k_def)
  with m assms(1) have "in_word W p k \<and> p + k \<le> e"
    unfolding in_word_def by linarith
  ultimately show ?thesis by blast
qed

lemma traverse_up_rule:
  fixes ws :: "'w::len word list"
  assumes "P s ws p" "e \<le> L * LENGTH('w)" "length ws = L" "b \<le> p" "p \<le> e"
    and step: "\<And>s ws p k. P s ws p \<Longrightarrow> length ws = L \<Longrightarrow> b \<le> p \<Longrightarrow> p + k \<le> e \<Longrightarrow>
        in_word TYPE('w) p k \<Longrightarrow> p div LENGTH('w) < L \<Longrightarrow>
        \<exists>s' w' d. pw s (ws ! (p div LENGTH('w))) (p mod LENGTH('w)) k = Some (s', w', d) \<and>
          (if d then Q s' (ws[p div LENGTH('w) := w']) else P s' (ws[p div LENGTH('w) := w']) (p + k))"
    and fin: "\<And>s ws. P s ws e \<Longrightarrow> length ws = L \<Longrightarrow> Q s ws"
  shows "\<exists>s' ws'. traverse_up pw s ws (p div LENGTH('w)) (p mod LENGTH('w)) (e - p) = Some (s', ws') \<and>
           Q s' ws' \<and> length ws' = L"
  using assms(1,3,4,5)
proof (induction "e - p" arbitrary: s ws p rule: less_induct)
  case less
  show ?case
  proof (cases "p = e")
    case True
    with less.prems fin show ?thesis by (simp add: traverse_up.simps)
  next
    case False
    with less.prems have pe: "p < e" by simp
    define k where "k = min (LENGTH('w) - p mod LENGTH('w)) (e - p)"
    have k: "in_word TYPE('w) p k" "p + k \<le> e" "0 < k"
      and next_pos: "p + k < e \<Longrightarrow> (p + k) div LENGTH('w) = Suc (p div LENGTH('w)) \<and> (p + k) mod LENGTH('w) = 0"
      using next_chunk [OF pe, where 'w = 'w] by (auto simp: k_def in_word_def)
    have idx: "p div LENGTH('w) < L" using pe assms(2) by (simp add: less_mult_imp_div_less)
    obtain s' w' d where pw: "pw s (ws ! (p div LENGTH('w))) (p mod LENGTH('w)) k = Some (s', w', d)"
      and PQ: "if d then Q s' (ws[p div LENGTH('w) := w']) else P s' (ws[p div LENGTH('w) := w']) (p + k)"
      using step [OF less.prems(1,2,3) k(2,1) idx] by blast
    have unf: "traverse_up pw s ws (p div LENGTH('w)) (p mod LENGTH('w)) (e - p) =
        (if d then Some (s', ws[p div LENGTH('w) := w'])
         else traverse_up pw s' (ws[p div LENGTH('w) := w']) (Suc (p div LENGTH('w))) 0 (e - p - k))"
      using pe k pw idx less.prems(2)
      by (subst traverse_up.simps) (simp add: bitsPerWord_def Let_def k_def [symmetric])
    show ?thesis
    proof (cases d)
      case True
      with unf PQ less.prems(2) show ?thesis by simp
    next
      case nd: False
      show ?thesis
      proof (cases "p + k = e")
        case True
        with nd unf PQ less.prems(2) fin show ?thesis by (auto simp: traverse_up.simps)
      next
        case False
        with k(2) have "p + k < e" by simp
        with nd unf PQ less.prems next_pos k less.hyps [of "p + k" s' "ws[p div LENGTH('w) := w']"]
        show ?thesis by (simp add: diff_diff_left)
      qed
    qed
  qed
qed

lemma traverse_LowToHigh_rule:
  fixes ws :: "'w::len word list"
  assumes "P s ws b" "b + n \<le> length ws * LENGTH('w)"
    and step: "\<And>s ws' p k. P s ws' p \<Longrightarrow> length ws' = length ws \<Longrightarrow> b \<le> p \<Longrightarrow> p + k \<le> b + n \<Longrightarrow>
        in_word TYPE('w) p k \<Longrightarrow> p div LENGTH('w) < length ws' \<Longrightarrow>
        \<exists>s' w' d. pw s (ws' ! (p div LENGTH('w))) (p mod LENGTH('w)) k = Some (s', w', d) \<and>
          (if d then Q s' (ws'[p div LENGTH('w) := w']) else P s' (ws'[p div LENGTH('w) := w']) (p + k))"
    and fin: "\<And>s ws'. P s ws' (b + n) \<Longrightarrow> length ws' = length ws \<Longrightarrow> Q s ws'"
  shows "\<exists>s' ws'. traverse_LowToHigh pw s ws (range_of b n) = Some (s', ws') \<and> Q s' ws' \<and>
           length ws' = length ws"
proof (cases "n = 0")
  case True
  with assms show ?thesis by (simp add: traverse_LowToHigh_def)
next
  case False
  then show ?thesis
    using traverse_up_rule [of P s ws b "b + n" "length ws" b pw Q] assms
    by (simp add: traverse_LowToHigh_def wordIndex_def bitIndex_def bitsPerWord_def)
qed

text \<open>The rules for processors that may assign the word, and for those that only read it.\<close>

lemma traverse_m_LowToHigh_rule:
  fixes ws :: "'w::len word list"
  assumes "P s ws b" "b + n \<le> length ws * LENGTH('w)"
    and step: "\<And>s ws' p k w. P s ws' p \<Longrightarrow> length ws' = length ws \<Longrightarrow> b \<le> p \<Longrightarrow> p + k \<le> b + n \<Longrightarrow>
        0 < k \<Longrightarrow> k \<le> LENGTH('w) \<Longrightarrow> chunk ws' p k w \<Longrightarrow>
        \<exists>s' t d. proc s w k = Some (s', t, d) \<and>
          (\<forall>ws''. spliced ws' p k t ws'' \<longrightarrow> (if d then Q s' ws'' else P s' ws'' (p + k)))"
    and fin: "\<And>s ws'. P s ws' (b + n) \<Longrightarrow> length ws' = length ws \<Longrightarrow> Q s ws'"
  shows "\<exists>s' ws'. traverse_LowToHigh (processWord_m proc) s ws (range_of b n) = Some (s', ws') \<and>
           Q s' ws' \<and> length ws' = length ws"
proof (rule traverse_LowToHigh_rule [where P = P and Q = Q, OF assms(1,2) _ fin])
  fix s ws' p k
  assume a: "P s ws' p" "length ws' = length ws" "b \<le> p" "p + k \<le> b + n" "in_word TYPE('w) p k"
    "p div LENGTH('w) < length ws'"
  then have k: "0 < k" "k \<le> LENGTH('w)" by (auto simp: in_word_def)
  show "\<exists>s' w' d. processWord_m proc s (ws' ! (p div LENGTH('w))) (p mod LENGTH('w)) k = Some (s', w', d) \<and>
          (if d then Q s' (ws'[p div LENGTH('w) := w']) else P s' (ws'[p div LENGTH('w) := w']) (p + k))"
    using step [OF a(1,2,3,4) k chunk_drop_bit [OF a(5,6)]] processWord_m_chunk [OF a(5,6)] by metis
qed

lemma traverse_c_LowToHigh_rule:
  fixes ws :: "'w::len word list"
  assumes "P s b" "b + n \<le> length ws * LENGTH('w)"
    and step: "\<And>s p k w. P s p \<Longrightarrow> b \<le> p \<Longrightarrow> p + k \<le> b + n \<Longrightarrow>
        0 < k \<Longrightarrow> k \<le> LENGTH('w) \<Longrightarrow> chunk ws p k w \<Longrightarrow>
        \<exists>s' d. proc s w k = Some (s', d) \<and> (if d then Q s' else P s' (p + k))"
    and fin: "\<And>s. P s (b + n) \<Longrightarrow> Q s"
  shows "\<exists>s'. traverse_LowToHigh (processWord_c proc) s ws (range_of b n) = Some (s', ws) \<and> Q s'"
proof -
  have "\<exists>s' ws'. traverse_LowToHigh (processWord_c proc) s ws (range_of b n) = Some (s', ws') \<and>
      (Q s' \<and> ws' = ws) \<and> length ws' = length ws"
  proof (rule traverse_LowToHigh_rule [where P = "\<lambda>s ws' p. P s p \<and> ws' = ws"])
    fix s ws' p k
    assume a: "P s p \<and> ws' = ws" "b \<le> p" "p + k \<le> b + n" "in_word TYPE('w) p k"
      "p div LENGTH('w) < length ws'"
    then have k: "0 < k" "k \<le> LENGTH('w)" by (auto simp: in_word_def)
    obtain s' d where "proc s (drop_bit (p mod LENGTH('w)) (ws ! (p div LENGTH('w)))) k = Some (s', d)"
        "if d then Q s' else P s' (p + k)"
      using step [of s p k] a k chunk_drop_bit [OF a(4,5)] by blast
    then show "\<exists>s' w' d. processWord_c proc s (ws' ! (p div LENGTH('w))) (p mod LENGTH('w)) k = Some (s', w', d) \<and>
       (if d then Q s' \<and> ws'[p div LENGTH('w) := w'] = ws
        else P s' (p + k) \<and> ws'[p div LENGTH('w) := w'] = ws)"
      using processWord_c_chunk [OF a(4)] a(1) by (metis list_update_id)
  qed (use assms in auto)
  then show ?thesis by blast
qed

section \<open>One range, high to low\<close>

text \<open>\<open>chunk_base\<close> is where the run of bits below position \<open>p\<close> starts.\<close>

definition chunk_base :: "'w::len itself \<Rightarrow> nat \<Rightarrow> nat \<Rightarrow> nat" where
  "chunk_base W b p = max b ((p - 1) div LENGTH('w) * LENGTH('w))"

lemma chunk_base_props:
  fixes W :: "'w::len itself"
  assumes "b < p"
  defines "q \<equiv> chunk_base W b p"
  shows "b \<le> q" "q < p" "in_word W q (p - q)" "q div LENGTH('w) = (p - 1) div LENGTH('w)"
    "q mod LENGTH('w) = (if (p - 1) div LENGTH('w) = b div LENGTH('w) then b mod LENGTH('w) else 0)"
    "b < q \<Longrightarrow> LENGTH('w) dvd q"
proof -
  define x where "x = (p - Suc 0) div LENGTH('w)"
  have p1: "p - Suc 0 = x * LENGTH('w) + (p - Suc 0) mod LENGTH('w)" "(p - Suc 0) mod LENGTH('w) < LENGTH('w)"
    by (simp_all add: x_def)
  have bx: "b div LENGTH('w) \<le> x" using assms(1) unfolding x_def by (intro div_le_mono) simp
  have b: "b = b div LENGTH('w) * LENGTH('w) + b mod LENGTH('w)" "b mod LENGTH('w) < LENGTH('w)"
    by simp_all
  have q: "q = (if x = b div LENGTH('w) then b else x * LENGTH('w))" "b < q \<Longrightarrow> q = x * LENGTH('w)"
  proof -
    have "b < x * LENGTH('w)" if "b div LENGTH('w) < x"
      using that by (simp add: div_less_iff_less_mult)
    with bx b show "q = (if x = b div LENGTH('w) then b else x * LENGTH('w))"
      unfolding q_def chunk_base_def One_nat_def x_def [symmetric] by (metis le_less less_imp_le max_absorb1 max_absorb2 le_add1)
    then show "b < q \<Longrightarrow> q = x * LENGTH('w)" by (auto split: if_splits)
  qed
  show "b \<le> q" by (simp add: q_def chunk_base_def)
  show "q < p"
    using assms(1) p1(1) by (auto simp: q_def chunk_base_def x_def [symmetric])
  show qd: "q div LENGTH('w) = (p - 1) div LENGTH('w)"
    using q(1) by (auto simp: x_def)
  show qm: "q mod LENGTH('w) = (if (p - 1) div LENGTH('w) = b div LENGTH('w) then b mod LENGTH('w) else 0)"
    using q(1) by (auto simp: x_def)
  show "b < q \<Longrightarrow> LENGTH('w) dvd q" using q(2) by simp
  have "q mod LENGTH('w) + (p - q) \<le> LENGTH('w)"
  proof -
    have "q = x * LENGTH('w) + q mod LENGTH('w)" using qd div_mult_mod_eq [of q "LENGTH('w)"] by (simp add: x_def)
    with p1 \<open>q < p\<close> show ?thesis by linarith
  qed
  with \<open>q < p\<close> show "in_word W q (p - q)" by (simp add: in_word_def)
qed

lemma down_nbits_chunk:
  fixes W :: "'w::len itself"
  assumes bp: "b < p" "p \<le> e" and pe: "p = e \<or> LENGTH('w) dvd p"
  shows "down_nbits W (b div LENGTH('w)) ((e - 1) div LENGTH('w)) (b mod LENGTH('w))
           ((p - 1) div LENGTH('w)) (p - b) = Some (p - chunk_base W b p)"
proof -
  define w where "w = LENGTH('w)"
  define B where "B = b div w"
  define r where "r = b mod w"
  define x where "x = (p - Suc 0) div w"
  define q where "q = chunk_base W b p"
  have w: "0 < w" by (simp add: w_def)
  have b: "b = B * w + r" and r: "r < w" using w by (simp_all add: B_def r_def)
  have q: "q div w = x" "q mod w = (if x = B then r else 0)" "q < p" "q mod w + (p - q) \<le> w" "b \<le> q"
    using chunk_base_props [OF bp(1), of W]
    by (simp_all add: q_def x_def w_def B_def r_def in_word_def)
  have Bx: "B \<le> x" using bp unfolding x_def B_def by (intro div_le_mono) simp
  have xe: "x \<le> (e - 1) div w" using bp unfolding x_def by (intro div_le_mono) simp
  have q_eq: "q = (if x = B then b else x * w)"
    using q(1,2) b by (metis add_0_right div_mult_mod_eq)
  show ?thesis
  proof (cases "x = B")
    case True
    then show ?thesis
      using q(2,4) q_eq
      by (simp add: down_nbits_def bitsPerWord_def w_def [symmetric] B_def [symmetric] r_def [symmetric]
          x_def [symmetric] q_def [symmetric])
  next
    case False
    with Bx obtain y where y: "x = Suc (B + y)" by (metis le_neq_implies_less less_iff_Suc_add)
    have "x * w = B * w + w + y * w" by (simp add: y algebra_simps)
    then have left: "(w - r) + (x - B - 1) * w = x * w - b" "b < x * w" using b r y by auto
    have qx: "q = x * w" using False q_eq by simp
    show ?thesis
    proof (cases "x < (e - 1) div w")
      case True
      then have "p \<noteq> e" by (auto simp: x_def)
      with pe obtain c where c: "p = c * w" by (metis dvdE mult.commute w_def)
      have "p - q = w"
      proof -
        have "c \<noteq> 0" using bp c by (auto intro!: gr0I)
        then obtain c' where c': "c = Suc c'" by (cases c) auto
        have "p - Suc 0 = c' * w + (w - 1)" using c c' w by simp
        then have "x = c'" using split_index(1) [of "w - 1" w c'] w by (simp only: x_def)
        then show ?thesis using c c' qx by simp
      qed
      then show ?thesis
        using True False left(2) qx q(3)
        by (simp add: down_nbits_def bitsPerWord_def w_def [symmetric] B_def [symmetric] r_def [symmetric]
            x_def [symmetric] q_def [symmetric])
    next
      case last: False
      with xe have "(e - Suc 0) div w = x" by simp
      then show ?thesis
        using False Bx left qx q(2,3,4)
        by (simp add: down_nbits_def bitsPerWord_def w_def [symmetric] B_def [symmetric] r_def [symmetric]
            x_def [symmetric] q_def [symmetric] Let_def)
    qed
  qed
qed

lemma dvd_pred_div: "0 < q \<Longrightarrow> w dvd q \<Longrightarrow> q div w - 1 = (q - 1) div w" for q w :: nat
  by (cases q) (auto elim!: dvdE simp: div_Suc mod_Suc dvd_eq_mod_eq_0 split: if_splits)

lemma traverse_down_rule:
  fixes ws :: "'w::len word list"
  assumes "P s ws p" "e \<le> L * LENGTH('w)" "length ws = L" "b \<le> p" "p \<le> e" "p = e \<or> LENGTH('w) dvd p"
    and step: "\<And>s ws q p. P s ws p \<Longrightarrow> length ws = L \<Longrightarrow> b \<le> q \<Longrightarrow> q < p \<Longrightarrow> p \<le> e \<Longrightarrow>
        in_word TYPE('w) q (p - q) \<Longrightarrow> q div LENGTH('w) < L \<Longrightarrow>
        \<exists>s' w' d. pw s (ws ! (q div LENGTH('w))) (q mod LENGTH('w)) (p - q) = Some (s', w', d) \<and>
          (if d then Q s' (ws[q div LENGTH('w) := w']) else P s' (ws[q div LENGTH('w) := w']) q)"
    and fin: "\<And>s ws. P s ws b \<Longrightarrow> length ws = L \<Longrightarrow> Q s ws"
  shows "\<exists>s' ws'. traverse_down pw (b div LENGTH('w)) ((e - 1) div LENGTH('w)) (b mod LENGTH('w)) s ws
             ((p - 1) div LENGTH('w)) (p - b) = Some (s', ws') \<and> Q s' ws' \<and> length ws' = L"
  using assms(1,3-6)
proof (induction "p - b" arbitrary: s ws p rule: less_induct)
  case less
  show ?case
  proof (cases "p = b")
    case True
    with less.prems fin show ?thesis by (simp add: traverse_down.simps)
  next
    case False
    with less.prems have bp: "b < p" by simp
    define q where "q = chunk_base TYPE('w) b p"
    note q = chunk_base_props [OF bp, where 'w = 'w, of "TYPE('w)", folded q_def]
    have idx: "q div LENGTH('w) < L"
      using q(2) less.prems(4) assms(2) by (intro less_mult_imp_div_less) linarith
    obtain s' w' d where pw: "pw s (ws ! (q div LENGTH('w))) (q mod LENGTH('w)) (p - q) = Some (s', w', d)"
      and PQ: "if d then Q s' (ws[q div LENGTH('w) := w']) else P s' (ws[q div LENGTH('w) := w']) q"
      using step [OF less.prems(1,2) q(1,2) less.prems(4) q(3) idx] by blast
    have shift: "(if (p - Suc 0) div LENGTH('w) = b div LENGTH('w) then b mod LENGTH('w) else 0) = q mod LENGTH('w)"
      using q(5) by simp
    have unf: "traverse_down pw (b div LENGTH('w)) ((e - 1) div LENGTH('w)) (b mod LENGTH('w)) s ws
             ((p - 1) div LENGTH('w)) (p - b) =
        (if d then Some (s', ws[q div LENGTH('w) := w'])
         else traverse_down pw (b div LENGTH('w)) ((e - 1) div LENGTH('w)) (b mod LENGTH('w)) s'
            (ws[q div LENGTH('w) := w']) ((p - 1) div LENGTH('w) - 1) (q - b))"
      using bp pw idx less.prems(2) down_nbits_chunk [OF bp less.prems(4,5)] q(1,2,4) shift
      by (subst traverse_down.simps) (simp add: q_def [symmetric] diff_diff_left)
    show ?thesis
    proof (cases d)
      case True
      with unf PQ less.prems(2) show ?thesis by simp
    next
      case nd: False
      show ?thesis
      proof (cases "q = b")
        case True
        with nd unf PQ less.prems(2) fin show ?thesis by (simp add: traverse_down.simps)
      next
        case False
        with q have "LENGTH('w) dvd q" "b < q" by auto
        then have "q div LENGTH('w) - 1 = (q - 1) div LENGTH('w)" by (intro dvd_pred_div) auto
        with nd unf PQ less.prems q \<open>LENGTH('w) dvd q\<close> less.hyps [of q s' "ws[q div LENGTH('w) := w']"]
        show ?thesis by simp
      qed
    qed
  qed
qed

lemma traverse_c_HighToLow_rule:
  fixes ws :: "'w::len word list"
  assumes "P s (b + n)" "b + n \<le> length ws * LENGTH('w)"
    and step: "\<And>s q p w. P s p \<Longrightarrow> b \<le> q \<Longrightarrow> q < p \<Longrightarrow> p \<le> b + n \<Longrightarrow> p - q \<le> LENGTH('w) \<Longrightarrow>
        chunk ws q (p - q) w \<Longrightarrow> \<exists>s' d. proc s w (p - q) = Some (s', d) \<and> (if d then Q s' else P s' q)"
    and fin: "\<And>s. P s b \<Longrightarrow> Q s"
  shows "\<exists>s'. traverse_HighToLow (processWord_c proc) s ws (range_of b n) = Some (s', ws) \<and> Q s'"
proof (cases "n = 0")
  case True
  with assms(1) fin show ?thesis by (simp add: traverse_HighToLow_def)
next
  case False
  have "\<exists>s' ws'. traverse_down (processWord_c proc) (b div LENGTH('w)) ((b + n - 1) div LENGTH('w))
      (b mod LENGTH('w)) s ws ((b + n - 1) div LENGTH('w)) (b + n - b) = Some (s', ws') \<and>
      (Q s' \<and> ws' = ws) \<and> length ws' = length ws"
  proof (rule traverse_down_rule [where P = "\<lambda>s ws' p. P s p \<and> ws' = ws"])
    fix s ws' q p
    assume a: "P s p \<and> ws' = ws" "b \<le> q" "q < p" "p \<le> b + n" "in_word TYPE('w) q (p - q)"
      "q div LENGTH('w) < length ws"
    then have "p - q \<le> LENGTH('w)" by (auto simp: in_word_def)
    then obtain s' d where "proc s (drop_bit (q mod LENGTH('w)) (ws ! (q div LENGTH('w)))) (p - q) = Some (s', d)"
        "if d then Q s' else P s' q"
      using step [of s p q] a chunk_drop_bit [OF a(5,6)] by blast
    then show "\<exists>s' w' d. processWord_c proc s (ws' ! (q div LENGTH('w))) (q mod LENGTH('w)) (p - q) = Some (s', w', d) \<and>
       (if d then Q s' \<and> ws'[q div LENGTH('w) := w'] = ws else P s' q \<and> ws'[q div LENGTH('w) := w'] = ws)"
      using processWord_c_chunk [OF a(5)] a(1) by (metis list_update_id)
  qed (use assms in auto)
  with False show ?thesis
    by (auto simp: traverse_HighToLow_def wordIndex_def bitIndex_def bitsPerWord_def)
qed

section \<open>Two ranges\<close>

text \<open>
  The temporary that \<open>align_tmp\<close> makes holds the bits of the first range from the bit offset of
  the second range on, so that position \<open>p\<close> of the temporary goes with position
  \<open>lo2 div w * w + p\<close> of the second vector.
\<close>

lemma numberOfWords_pos:
  "0 < m \<Longrightarrow> numberOfWords TYPE('w::len) m = Suc ((m - 1) div LENGTH('w))"
proof -
  assume "0 < m"
  then have "m + LENGTH('w) - 1 = (m - 1) + LENGTH('w)" by simp
  then show ?thesis using div_add_self2 [of "LENGTH('w)" "m - 1"] unfolding numberOfWords_def bitsPerWord_def by simp
qed

lemma numberOfWords_enough: "m \<le> numberOfWords TYPE('w::len) m * LENGTH('w)"
proof (cases "m = 0")
  case False
  have "m - 1 < Suc ((m - 1) div LENGTH('w)) * LENGTH('w)"
    by (simp add: mult.commute dividend_less_times_div)
  with False show ?thesis by (simp only: numberOfWords_pos)
qed simp

lemma align_tmp_bits:
  fixes vec1 :: "'w::len word list" and b2 :: nat
  assumes n: "0 < n" and v1: "b1 + n \<le> length vec1 * LENGTH('w)"
  defines "off \<equiv> b2 mod LENGTH('w)"
  shows "\<exists>tmp. align_tmp vec1 (range_of b1 n) (range_of b2 n) = Some (tmp, range_of off n) \<and>
      off + n \<le> length tmp * LENGTH('w) \<and> length tmp = Suc ((off + n - 1) div LENGTH('w)) \<and>
      (\<forall>i<n. vbit tmp (off + i) = vbit vec1 (b1 + i))"
proof -
  define N where "N = numberOfWords TYPE('w) (off + n)"
  have N: "N = Suc ((off + n - 1) div LENGTH('w))"
    using n by (simp add: N_def numberOfWords_pos)
  have le: "off + n \<le> length (replicate N (0 :: 'w word)) * LENGTH('w)"
    using numberOfWords_enough by (simp add: N_def)
  obtain tmp where tmp: "nonoverlappingCopy vec1 (range_of b1 n) (replicate N 0) (range_of off n) = Some tmp"
    "copied vec1 b1 (replicate N 0) off n tmp"
    using nonoverlappingCopy_bits [OF n v1 le] by blast
  have eq: "align_tmp vec1 (range_of b1 n) (range_of b2 n) = Some (tmp, range_of off n)"
    using n tmp(1) unfolding N_def
    by (simp add: align_tmp_def bitIndex_def bitsPerWord_def off_def Let_def)
  have len: "length tmp = N" using tmp(2) by (simp add: copied_def)
  show ?thesis
    using eq tmp(2) le N len by (intro exI [of _ tmp]) (simp add: copied_def)
qed

lemma traverse2_up_rule:
  fixes tmp ws :: "'w::len word list"
  assumes "P s tmp ws p" "e \<le> T * LENGTH('w)" "length tmp = T" "o2 * LENGTH('w) + e \<le> L * LENGTH('w)"
    "length ws = L" "b \<le> p" "p \<le> e"
    and step: "\<And>s tmp ws p k. P s tmp ws p \<Longrightarrow> length tmp = T \<Longrightarrow> length ws = L \<Longrightarrow> b \<le> p \<Longrightarrow> p + k \<le> e \<Longrightarrow>
        in_word TYPE('w) p k \<Longrightarrow> p div LENGTH('w) < T \<Longrightarrow> p div LENGTH('w) + o2 < L \<Longrightarrow>
        \<exists>s' w1' w2' d. pw s (tmp ! (p div LENGTH('w))) (ws ! (p div LENGTH('w) + o2)) (p mod LENGTH('w)) k
            = Some (s', w1', w2', d) \<and>
          (if d then Q s' (tmp[p div LENGTH('w) := w1']) (ws[p div LENGTH('w) + o2 := w2'])
           else P s' (tmp[p div LENGTH('w) := w1']) (ws[p div LENGTH('w) + o2 := w2']) (p + k))"
    and fin: "\<And>s tmp ws. P s tmp ws e \<Longrightarrow> length tmp = T \<Longrightarrow> length ws = L \<Longrightarrow> Q s tmp ws"
  shows "\<exists>s' tmp' ws'. traverse2_up pw o2 s tmp ws (p div LENGTH('w)) (p mod LENGTH('w)) (e - p)
           = Some (s', tmp', ws') \<and> Q s' tmp' ws' \<and> length tmp' = T \<and> length ws' = L"
  using assms(1,3,5,6,7)
proof (induction "e - p" arbitrary: s tmp ws p rule: less_induct)
  case less
  show ?case
  proof (cases "p = e")
    case True
    with less.prems fin show ?thesis by (simp add: traverse2_up.simps)
  next
    case False
    with less.prems have pe: "p < e" by simp
    define k where "k = min (LENGTH('w) - p mod LENGTH('w)) (e - p)"
    have k: "in_word TYPE('w) p k" "p + k \<le> e" "0 < k"
      and next_pos: "p + k < e \<Longrightarrow> (p + k) div LENGTH('w) = Suc (p div LENGTH('w)) \<and> (p + k) mod LENGTH('w) = 0"
      using next_chunk [OF pe, where 'w = 'w] by (auto simp: k_def in_word_def)
    have idx: "p div LENGTH('w) < T" using pe assms(2) by (simp add: less_mult_imp_div_less)
    have "p + o2 * LENGTH('w) < L * LENGTH('w)" using pe assms(4) by linarith
    then have idx2: "p div LENGTH('w) + o2 < L" using less_mult_imp_div_less by fastforce
    obtain s' w1' w2' d where
      pw: "pw s (tmp ! (p div LENGTH('w))) (ws ! (p div LENGTH('w) + o2)) (p mod LENGTH('w)) k = Some (s', w1', w2', d)"
      and PQ: "if d then Q s' (tmp[p div LENGTH('w) := w1']) (ws[p div LENGTH('w) + o2 := w2'])
           else P s' (tmp[p div LENGTH('w) := w1']) (ws[p div LENGTH('w) + o2 := w2']) (p + k)"
      using step [OF less.prems(1,2,3,4) k(2,1) idx idx2] by blast
    have unf: "traverse2_up pw o2 s tmp ws (p div LENGTH('w)) (p mod LENGTH('w)) (e - p) =
        (if d then Some (s', tmp[p div LENGTH('w) := w1'], ws[p div LENGTH('w) + o2 := w2'])
         else traverse2_up pw o2 s' (tmp[p div LENGTH('w) := w1']) (ws[p div LENGTH('w) + o2 := w2'])
                (Suc (p div LENGTH('w))) 0 (e - p - k))"
      using pe k pw idx idx2 less.prems(2,3)
      by (subst traverse2_up.simps) (simp add: bitsPerWord_def Let_def k_def [symmetric])
    show ?thesis
    proof (cases d)
      case True
      with unf PQ less.prems(2,3) show ?thesis by simp
    next
      case nd: False
      show ?thesis
      proof (cases "p + k = e")
        case True
        with nd unf PQ less.prems(2,3) fin show ?thesis by (auto simp: traverse2_up.simps)
      next
        case False
        with k(2) have "p + k < e" by simp
        with nd unf PQ less.prems next_pos k
          less.hyps [of "p + k" s' "tmp[p div LENGTH('w) := w1']" "ws[p div LENGTH('w) + o2 := w2']"]
        show ?thesis by (simp add: diff_diff_left)
      qed
    qed
  qed
qed

lemma traverse2_down_rule:
  fixes tmp ws :: "'w::len word list"
  assumes "P s tmp ws p" "e \<le> T * LENGTH('w)" "length tmp = T" "o2 * LENGTH('w) + e \<le> L * LENGTH('w)"
    "length ws = L" "b \<le> p" "p \<le> e" "p = e \<or> LENGTH('w) dvd p" "b < LENGTH('w)" "N - 1 = (e - 1) div LENGTH('w)"
    and step: "\<And>s tmp ws q p. P s tmp ws p \<Longrightarrow> length tmp = T \<Longrightarrow> length ws = L \<Longrightarrow> b \<le> q \<Longrightarrow> q < p \<Longrightarrow> p \<le> e \<Longrightarrow>
        in_word TYPE('w) q (p - q) \<Longrightarrow> q div LENGTH('w) < T \<Longrightarrow> q div LENGTH('w) + o2 < L \<Longrightarrow>
        \<exists>s' w1' w2' d. pw s (tmp ! (q div LENGTH('w))) (ws ! (q div LENGTH('w) + o2)) (q mod LENGTH('w)) (p - q)
            = Some (s', w1', w2', d) \<and>
          (if d then Q s' (tmp[q div LENGTH('w) := w1']) (ws[q div LENGTH('w) + o2 := w2'])
           else P s' (tmp[q div LENGTH('w) := w1']) (ws[q div LENGTH('w) + o2 := w2']) q)"
    and fin: "\<And>s tmp ws. P s tmp ws b \<Longrightarrow> length tmp = T \<Longrightarrow> length ws = L \<Longrightarrow> Q s tmp ws"
  shows "\<exists>s' tmp' ws'. traverse2_down pw o2 N b s tmp ws ((p - 1) div LENGTH('w)) (p - b)
           = Some (s', tmp', ws') \<and> Q s' tmp' ws' \<and> length tmp' = T \<and> length ws' = L"
  using assms(1,3,5-8)
proof (induction "p - b" arbitrary: s tmp ws p rule: less_induct)
  case less
  show ?case
  proof (cases "p = b")
    case True
    with less.prems fin show ?thesis by (simp add: traverse2_down.simps)
  next
    case False
    with less.prems have bp: "b < p" by simp
    define q where "q = chunk_base TYPE('w) b p"
    note q = chunk_base_props [OF bp, where 'w = 'w, of "TYPE('w)", folded q_def]
    have idx: "q div LENGTH('w) < T"
      using q(2) less.prems(5) assms(2) by (intro less_mult_imp_div_less) linarith
    have "q + o2 * LENGTH('w) < L * LENGTH('w)" using q(2) less.prems(5) assms(4) by linarith
    then have idx2: "q div LENGTH('w) + o2 < L" using less_mult_imp_div_less by fastforce
    obtain s' w1' w2' d where
      pw: "pw s (tmp ! (q div LENGTH('w))) (ws ! (q div LENGTH('w) + o2)) (q mod LENGTH('w)) (p - q) = Some (s', w1', w2', d)"
      and PQ: "if d then Q s' (tmp[q div LENGTH('w) := w1']) (ws[q div LENGTH('w) + o2 := w2'])
           else P s' (tmp[q div LENGTH('w) := w1']) (ws[q div LENGTH('w) + o2 := w2']) q"
      using step [OF less.prems(1,2,3) q(1,2) less.prems(5) q(3) idx idx2] by blast
    have shift: "(if (p - Suc 0) div LENGTH('w) = 0 then b else 0) = q mod LENGTH('w)"
      using q(5) assms(9) by simp
    have nb: "down_nbits TYPE('w) 0 (N - 1) b ((p - 1) div LENGTH('w)) (p - b) = Some (p - q)"
      using down_nbits_chunk [OF bp less.prems(5,6)] assms(9,10) by (simp add: q_def)
    have unf: "traverse2_down pw o2 N b s tmp ws ((p - 1) div LENGTH('w)) (p - b) =
        (if d then Some (s', tmp[q div LENGTH('w) := w1'], ws[q div LENGTH('w) + o2 := w2'])
         else traverse2_down pw o2 N b s' (tmp[q div LENGTH('w) := w1']) (ws[q div LENGTH('w) + o2 := w2'])
            ((p - 1) div LENGTH('w) - 1) (q - b))"
      using bp pw idx idx2 less.prems(2,3) nb q(1,2,4) shift
      by (subst traverse2_down.simps) (simp add: diff_diff_left)
    show ?thesis
    proof (cases d)
      case True
      with unf PQ less.prems(2,3) show ?thesis by simp
    next
      case nd: False
      show ?thesis
      proof (cases "q = b")
        case True
        with nd unf PQ less.prems(2,3) fin show ?thesis by (simp add: traverse2_down.simps)
      next
        case False
        with q have qd: "LENGTH('w) dvd q" "b < q" by auto
        then have "q div LENGTH('w) - 1 = (q - 1) div LENGTH('w)" by (intro dvd_pred_div) auto
        with nd unf PQ less.prems q qd
          less.hyps [of q s' "tmp[q div LENGTH('w) := w1']" "ws[q div LENGTH('w) + o2 := w2']"]
        show ?thesis by simp
      qed
    qed
  qed
qed

lemma aligned_position:
  fixes W :: "'w::len itself"
  assumes "b mod LENGTH('w) \<le> p"
  defines "q \<equiv> b + (p - b mod LENGTH('w))"
  shows "q div LENGTH('w) = p div LENGTH('w) + b div LENGTH('w)" "q mod LENGTH('w) = p mod LENGTH('w)"
    "in_word W p k \<Longrightarrow> in_word W q k"
proof -
  have q: "q = b div LENGTH('w) * LENGTH('w) + p"
    using assms(1) div_mult_mod_eq [of b "LENGTH('w)"] unfolding q_def by linarith
  then show "q div LENGTH('w) = p div LENGTH('w) + b div LENGTH('w)" "q mod LENGTH('w) = p mod LENGTH('w)"
    by simp_all
  then show "in_word W p k \<Longrightarrow> in_word W q k" by (simp add: in_word_def)
qed

lemma processWord_cm_chunk:
  fixes ws :: "'w::len word list"
  assumes iw: "in_word TYPE('w) p k" and len: "p div LENGTH('w) < length ws"
    and proc: "proc s (drop_bit (p mod LENGTH('w)) w1)
                 (drop_bit (p mod LENGTH('w)) (ws ! (p div LENGTH('w)))) k = Some (s', t, d)"
  shows "\<exists>w'. processWord_cm proc s w1 (ws ! (p div LENGTH('w))) (p mod LENGTH('w)) k = Some (s', w1, w', d) \<and>
           spliced ws p k t (ws[p div LENGTH('w) := w'])"
proof -
  have "processWord_cm proc s w1 (ws ! (p div LENGTH('w))) (p mod LENGTH('w)) k =
    Some (s', w1, (ws ! (p div LENGTH('w)) AND NOT (push_bit (p mod LENGTH('w)) (mask k))) OR
              push_bit (p mod LENGTH('w)) (t AND mask k), d)"
    using iw proc by (simp add: processWord_cm_def bitsPerWord_def in_word_def)
  then show ?thesis
    by (intro exI conjI) (assumption, rule spliced_update [OF iw len], rule bit_splice)
qed

lemma processWord_cc_eq:
  fixes w1 w2 :: "'w::len word"
  assumes "in_word TYPE('w) p k"
    and "proc s (drop_bit (p mod LENGTH('w)) w1) (drop_bit (p mod LENGTH('w)) w2) k = Some (s', d)"
  shows "processWord_cc proc s w1 w2 (p mod LENGTH('w)) k = Some (s', w1, w2, d)"
  using assms by (simp add: processWord_cc_def bitsPerWord_def in_word_def)

lemma traverse_cm_LowToHigh_rule:
  fixes vec1 ws :: "'w::len word list"
  assumes P: "P s ws 0" and v1: "b1 + n \<le> length vec1 * LENGTH('w)" and v2: "b2 + n \<le> length ws * LENGTH('w)"
    and step: "\<And>s ws' r k x y. P s ws' r \<Longrightarrow> length ws' = length ws \<Longrightarrow> r + k \<le> n \<Longrightarrow>
        0 < k \<Longrightarrow> k \<le> LENGTH('w) \<Longrightarrow> chunk vec1 (b1 + r) k x \<Longrightarrow> chunk ws' (b2 + r) k y \<Longrightarrow>
        \<exists>s' t d. proc s x y k = Some (s', t, d) \<and>
          (\<forall>ws''. spliced ws' (b2 + r) k t ws'' \<longrightarrow> (if d then Q s' ws'' else P s' ws'' (r + k)))"
    and fin: "\<And>s ws'. P s ws' n \<Longrightarrow> length ws' = length ws \<Longrightarrow> Q s ws'"
  shows "\<exists>s' t ws'. traverse2_LowToHigh (processWord_cm proc) s vec1 (range_of b1 n) ws (range_of b2 n)
           = Some (s', t, ws') \<and> Q s' ws' \<and> length ws' = length ws"
proof (cases "n = 0")
  case True
  with P fin show ?thesis by (simp add: traverse2_LowToHigh_def)
next
  case False
  define off where "off = b2 mod LENGTH('w)"
  define o2 where "o2 = b2 div LENGTH('w)"
  obtain tmp where tmp: "align_tmp vec1 (range_of b1 n) (range_of b2 n) = Some (tmp, range_of off n)"
    "off + n \<le> length tmp * LENGTH('w)" "\<And>i. i < n \<Longrightarrow> vbit tmp (off + i) = vbit vec1 (b1 + i)"
    using align_tmp_bits [OF _ v1, of b2] False by (auto simp: off_def)
  have "\<exists>s' tmp' ws'. traverse2_up (processWord_cm proc) o2 s tmp ws (off div LENGTH('w)) (off mod LENGTH('w))
      (off + n - off) = Some (s', tmp', ws') \<and> Q s' ws' \<and> length tmp' = length tmp \<and> length ws' = length ws"
  proof (rule traverse2_up_rule [where P = "\<lambda>s t ws' p. t = tmp \<and> P s ws' (p - off)" and b = off])
    fix s t ws' p k
    assume a: "t = tmp \<and> P s ws' (p - off)" "length ws' = length ws" "off \<le> p" "p + k \<le> off + n"
      "in_word TYPE('w) p k" "p div LENGTH('w) < length tmp" "p div LENGTH('w) + o2 < length ws"
    define q where "q = b2 + (p - off)"
    have q: "q div LENGTH('w) = p div LENGTH('w) + o2" "q mod LENGTH('w) = p mod LENGTH('w)" "in_word TYPE('w) q k"
      using aligned_position [where 'w = 'w, of b2 p] a(3,5) by (simp_all add: q_def off_def o2_def)
    have k: "0 < k" "k \<le> LENGTH('w)" using a(5) by (auto simp: in_word_def)
    have c1: "chunk vec1 (b1 + (p - off)) k (drop_bit (q mod LENGTH('w)) (tmp ! (p div LENGTH('w))))"
      using chunk_drop_bit [OF a(5,6)] tmp(3) [of "p - off + i" for i] a(3,4) q(2)
      by (auto simp: chunk_def add.assoc)
    have c2: "chunk ws' (b2 + (p - off)) k (drop_bit (q mod LENGTH('w)) (ws' ! (q div LENGTH('w))))"
      using chunk_drop_bit [OF q(3), of ws'] q(1) a(2,7) by (simp add: q_def)
    have r: "p - off + k \<le> n" "p - off + k = p + k - off" using a(3,4) by simp_all
    obtain s' t' d where pr: "proc s (drop_bit (q mod LENGTH('w)) (tmp ! (p div LENGTH('w))))
        (drop_bit (q mod LENGTH('w)) (ws' ! (q div LENGTH('w)))) k = Some (s', t', d)"
      and PQ: "\<And>ws''. spliced ws' q k t' ws'' \<Longrightarrow> if d then Q s' ws'' else P s' ws'' (p - off + k)"
      using step [OF conjunct2 [OF a(1)] a(2) r(1) k c1 c2] unfolding q_def by blast
    obtain w' where w': "processWord_cm proc s (tmp ! (p div LENGTH('w))) (ws' ! (q div LENGTH('w))) (q mod LENGTH('w)) k
        = Some (s', tmp ! (p div LENGTH('w)), w', d)" "spliced ws' q k t' (ws'[q div LENGTH('w) := w'])"
      using processWord_cm_chunk [where proc = proc and ws = ws' and s = s and s' = s' and t = t' and d = d,
          OF q(3) _ pr] q(1) a(2,7) by auto
    show "\<exists>s' w1' w2' d. processWord_cm proc s (t ! (p div LENGTH('w))) (ws' ! (p div LENGTH('w) + o2)) (p mod LENGTH('w)) k
            = Some (s', w1', w2', d) \<and>
          (if d then Q s' (ws'[p div LENGTH('w) + o2 := w2'])
           else t[p div LENGTH('w) := w1'] = tmp \<and> P s' (ws'[p div LENGTH('w) + o2 := w2']) (p + k - off))"
      using w'(1) PQ [OF w'(2)] a(1) unfolding r(2) [symmetric] q(1,2)
      by (cases d) (simp_all, blast+)
  qed (use P fin tmp(2) v2 in \<open>auto simp: o2_def off_def\<close>)
  moreover have "off div LENGTH('w) = 0" "off mod LENGTH('w) = off" by (simp_all add: off_def)
  ultimately show ?thesis
    using False tmp(1)
    by (auto simp: traverse2_LowToHigh_def wordIndex_def bitIndex_def bitsPerWord_def off_def o2_def)
qed

text \<open>
  When neither vector is assigned, a traversal in either direction only threads the state of
  the processor; one lemma on the pair of words at a position serves both directions.
\<close>

lemma cc_step:
  fixes vec1 ws tmp :: "'w::len word list"
  assumes tmp: "\<And>i. i < n \<Longrightarrow> vbit tmp (b2 mod LENGTH('w) + i) = vbit vec1 (b1 + i)"
    and p: "b2 mod LENGTH('w) \<le> p" "p + k \<le> b2 mod LENGTH('w) + n" "in_word TYPE('w) p k"
    and idx: "p div LENGTH('w) < length tmp" "p div LENGTH('w) + b2 div LENGTH('w) < length ws"
    and proc: "\<And>x y. chunk vec1 (b1 + (p - b2 mod LENGTH('w))) k x \<Longrightarrow>
          chunk ws (b2 + (p - b2 mod LENGTH('w))) k y \<Longrightarrow> \<exists>s' d. proc s x y k = Some (s', d) \<and> R s' d"
  shows "\<exists>s' d. processWord_cc proc s (tmp ! (p div LENGTH('w))) (ws ! (p div LENGTH('w) + b2 div LENGTH('w)))
           (p mod LENGTH('w)) k = Some (s', tmp ! (p div LENGTH('w)), ws ! (p div LENGTH('w) + b2 div LENGTH('w)), d) \<and> R s' d"
proof -
  define q where "q = b2 + (p - b2 mod LENGTH('w))"
  have q: "q div LENGTH('w) = p div LENGTH('w) + b2 div LENGTH('w)" "q mod LENGTH('w) = p mod LENGTH('w)"
      "in_word TYPE('w) q k"
    using aligned_position [where 'w = 'w, of b2 p] p by (simp_all add: q_def)
  have "chunk vec1 (b1 + (p - b2 mod LENGTH('w))) k (drop_bit (p mod LENGTH('w)) (tmp ! (p div LENGTH('w))))"
    using chunk_drop_bit [OF p(3) idx(1)] tmp [of "p - b2 mod LENGTH('w) + i" for i] p(1,2)
    by (auto simp: chunk_def add.assoc)
  moreover have "chunk ws q k (drop_bit (p mod LENGTH('w)) (ws ! (p div LENGTH('w) + b2 div LENGTH('w))))"
    using chunk_drop_bit [OF q(3), of ws] idx(2) by (simp add: q(1,2))
  ultimately show ?thesis
    using proc processWord_cc_eq [OF p(3), of proc s] unfolding q_def by metis
qed

lemma traverse_cc_LowToHigh_rule:
  fixes vec1 ws :: "'w::len word list"
  assumes P: "P s 0" and v1: "b1 + n \<le> length vec1 * LENGTH('w)" and v2: "b2 + n \<le> length ws * LENGTH('w)"
    and step: "\<And>s r k x y. P s r \<Longrightarrow> r + k \<le> n \<Longrightarrow> 0 < k \<Longrightarrow> k \<le> LENGTH('w) \<Longrightarrow>
        chunk vec1 (b1 + r) k x \<Longrightarrow> chunk ws (b2 + r) k y \<Longrightarrow>
        \<exists>s' d. proc s x y k = Some (s', d) \<and> (if d then Q s' else P s' (r + k))"
    and fin: "\<And>s. P s n \<Longrightarrow> Q s"
  shows "\<exists>s' t. traverse2_LowToHigh (processWord_cc proc) s vec1 (range_of b1 n) ws (range_of b2 n)
           = Some (s', t, ws) \<and> Q s'"
proof (cases "n = 0")
  case True
  with P fin show ?thesis by (simp add: traverse2_LowToHigh_def)
next
  case False
  define off where "off = b2 mod LENGTH('w)"
  define o2 where "o2 = b2 div LENGTH('w)"
  obtain tmp where tmp: "align_tmp vec1 (range_of b1 n) (range_of b2 n) = Some (tmp, range_of off n)"
    "off + n \<le> length tmp * LENGTH('w)" "\<And>i. i < n \<Longrightarrow> vbit tmp (off + i) = vbit vec1 (b1 + i)"
    using align_tmp_bits [OF _ v1, of b2] False by (auto simp: off_def)
  have "\<exists>s' tmp' ws'. traverse2_up (processWord_cc proc) o2 s tmp ws (off div LENGTH('w)) (off mod LENGTH('w))
      (off + n - off) = Some (s', tmp', ws') \<and> (Q s' \<and> ws' = ws) \<and> length tmp' = length tmp \<and> length ws' = length ws"
  proof (rule traverse2_up_rule [where P = "\<lambda>s t ws' p. t = tmp \<and> ws' = ws \<and> P s (p - off)" and b = off])
    fix s t ws' p k
    assume a: "t = tmp \<and> ws' = ws \<and> P s (p - off)" "off \<le> p" "p + k \<le> off + n"
      "in_word TYPE('w) p k" "p div LENGTH('w) < length tmp" "p div LENGTH('w) + o2 < length ws"
    have k: "0 < k" "k \<le> LENGTH('w)" "p - off + k \<le> n" "p + k - off = p - off + k"
      using a by (auto simp: in_word_def)
    obtain s' d where "processWord_cc proc s (tmp ! (p div LENGTH('w))) (ws ! (p div LENGTH('w) + o2)) (p mod LENGTH('w)) k
            = Some (s', tmp ! (p div LENGTH('w)), ws ! (p div LENGTH('w) + o2), d)"
        "if d then Q s' else P s' (p - off + k)"
      using cc_step [where R = "\<lambda>s' d. if d then Q s' else P s' (p - off + k)",
          OF tmp(3) [unfolded off_def] a(2,3) [unfolded off_def] a(4,5) a(6) [unfolded o2_def]] step a(1) k
      unfolding off_def o2_def by blast
    then show "\<exists>s' w1' w2' d. processWord_cc proc s (t ! (p div LENGTH('w))) (ws' ! (p div LENGTH('w) + o2)) (p mod LENGTH('w)) k
            = Some (s', w1', w2', d) \<and>
          (if d then Q s' \<and> ws'[p div LENGTH('w) + o2 := w2'] = ws
           else t[p div LENGTH('w) := w1'] = tmp \<and> ws'[p div LENGTH('w) + o2 := w2'] = ws \<and> P s' (p + k - off))"
      using a(1) k(4) by auto
  qed (use P fin tmp(2) v2 in \<open>auto simp: o2_def off_def\<close>)
  moreover have "off div LENGTH('w) = 0" "off mod LENGTH('w) = off" by (simp_all add: off_def)
  ultimately show ?thesis
    using False tmp(1)
    by (auto simp: traverse2_LowToHigh_def wordIndex_def bitIndex_def bitsPerWord_def off_def o2_def)
qed

lemma traverse_cc_HighToLow_rule:
  fixes vec1 ws :: "'w::len word list"
  assumes P: "P s n" and v1: "b1 + n \<le> length vec1 * LENGTH('w)" and v2: "b2 + n \<le> length ws * LENGTH('w)"
    and step: "\<And>s r k x y. P s (r + k) \<Longrightarrow> r + k \<le> n \<Longrightarrow> 0 < k \<Longrightarrow> k \<le> LENGTH('w) \<Longrightarrow>
        chunk vec1 (b1 + r) k x \<Longrightarrow> chunk ws (b2 + r) k y \<Longrightarrow>
        \<exists>s' d. proc s x y k = Some (s', d) \<and> (if d then Q s' else P s' r)"
    and fin: "\<And>s. P s 0 \<Longrightarrow> Q s"
  shows "\<exists>s' t. traverse2_HighToLow (processWord_cc proc) s vec1 (range_of b1 n) ws (range_of b2 n)
           = Some (s', t, ws) \<and> Q s'"
proof (cases "n = 0")
  case True
  with P fin show ?thesis by (simp add: traverse2_HighToLow_def)
next
  case False
  define off where "off = b2 mod LENGTH('w)"
  define o2 where "o2 = b2 div LENGTH('w)"
  obtain tmp where tmp: "align_tmp vec1 (range_of b1 n) (range_of b2 n) = Some (tmp, range_of off n)"
    "off + n \<le> length tmp * LENGTH('w)" "length tmp = Suc ((off + n - 1) div LENGTH('w))"
    "\<And>i. i < n \<Longrightarrow> vbit tmp (off + i) = vbit vec1 (b1 + i)"
    using align_tmp_bits [OF _ v1, of b2] False by (auto simp: off_def)
  have "\<exists>s' tmp' ws'. traverse2_down (processWord_cc proc) o2 (length tmp) off s tmp ws ((off + n - 1) div LENGTH('w))
      (off + n - off) = Some (s', tmp', ws') \<and> (Q s' \<and> ws' = ws) \<and> length tmp' = length tmp \<and> length ws' = length ws"
  proof (rule traverse2_down_rule [where P = "\<lambda>s t ws' p. t = tmp \<and> ws' = ws \<and> P s (p - off)" and e = "off + n"])
    fix s t ws' q p
    assume a: "t = tmp \<and> ws' = ws \<and> P s (p - off)" "off \<le> q" "q < p" "p \<le> off + n"
      "in_word TYPE('w) q (p - q)" "q div LENGTH('w) < length tmp" "q div LENGTH('w) + o2 < length ws"
    have k: "0 < p - q" "p - q \<le> LENGTH('w)" "p - off \<le> n" "p - off = q - off + (p - q)" "q + (p - q) \<le> off + n"
      using a by (auto simp: in_word_def)
    obtain s' d where "processWord_cc proc s (tmp ! (q div LENGTH('w))) (ws ! (q div LENGTH('w) + o2)) (q mod LENGTH('w)) (p - q)
            = Some (s', tmp ! (q div LENGTH('w)), ws ! (q div LENGTH('w) + o2), d)"
        "if d then Q s' else P s' (q - off)"
      using cc_step [where R = "\<lambda>s' d. if d then Q s' else P s' (q - off)",
          OF tmp(4) [unfolded off_def] a(2) [unfolded off_def] k(5) [unfolded off_def] a(5,6) a(7) [unfolded o2_def]]
        step a(1) k unfolding off_def o2_def by metis
    then show "\<exists>s' w1' w2' d. processWord_cc proc s (t ! (q div LENGTH('w))) (ws' ! (q div LENGTH('w) + o2)) (q mod LENGTH('w)) (p - q)
            = Some (s', w1', w2', d) \<and>
          (if d then Q s' \<and> ws'[q div LENGTH('w) + o2 := w2'] = ws
           else t[q div LENGTH('w) := w1'] = tmp \<and> ws'[q div LENGTH('w) + o2 := w2'] = ws \<and> P s' (q - off))"
      using a(1) by auto
  qed (use P fin tmp(2,3) v2 in \<open>auto simp: o2_def off_def\<close>)
  with False tmp(1,3) show ?thesis
    by (auto simp: traverse2_HighToLow_def wordIndex_def bitIndex_def bitsPerWord_def off_def o2_def)
qed

lemma processWord_mm_chunk:
  fixes ws ts :: "'w::len word list"
  assumes iw: "in_word TYPE('w) p k" "in_word TYPE('w) q k" and eq: "q mod LENGTH('w) = p mod LENGTH('w)"
    and len: "p div LENGTH('w) < length ts" "q div LENGTH('w) < length ws"
    and proc: "proc s (drop_bit (p mod LENGTH('w)) (ts ! (p div LENGTH('w))))
                 (drop_bit (p mod LENGTH('w)) (ws ! (q div LENGTH('w)))) k = Some (s', t1, t2, d)"
  shows "\<exists>w1 w2. processWord_mm proc s (ts ! (p div LENGTH('w))) (ws ! (q div LENGTH('w))) (p mod LENGTH('w)) k = Some (s', w1, w2, d) \<and>
    spliced ts p k t1 (ts[p div LENGTH('w) := w1]) \<and> spliced ws q k t2 (ws[q div LENGTH('w) := w2])"
proof -
  define W where "W = LENGTH('w)"
  let ?m = "push_bit (p mod W) (mask k) :: 'w word"
  have "processWord_mm proc s (ts ! (p div W)) (ws ! (q div W)) (p mod W) k =
    Some (s', (ts ! (p div W) AND NOT ?m) OR (push_bit (p mod W) t1 AND ?m), (ws ! (q div W) AND NOT ?m) OR (push_bit (p mod W) t2 AND ?m), d)"
    using iw(1) proc unfolding W_def by (simp add: processWord_mm_def bitsPerWord_def in_word_def)
  moreover have b: "bit ((w AND NOT ?m) OR (push_bit (p mod W) t AND ?m)) i =
      (if p mod W \<le> i \<and> i < p mod W + k then bit t (i - p mod W) else bit w i)" if "i < LENGTH('w)" for i and w t :: "'w word"
    using that by (auto simp: bit_simps W_def)
  moreover have "spliced ts p k t1 (ts[p div W := (ts ! (p div W) AND NOT ?m) OR (push_bit (p mod W) t1 AND ?m)])"
    unfolding W_def by (rule spliced_update [OF iw(1) len(1)]) (rule b [unfolded W_def])
  moreover have "spliced ws q k t2 (ws[q div W := (ws ! (q div W) AND NOT ?m) OR (push_bit (p mod W) t2 AND ?m)])"
    unfolding W_def by (rule spliced_update [OF iw(2) len(2)]) (simp add: b [unfolded W_def] eq)
  ultimately show ?thesis unfolding W_def by blast
qed

end
