(* ===== verification/BVS_Bits.thy ===== *)
theory BVS_Bits
  imports BVS_Rules
begin

text \<open>
  Bit accessors and bit-wise Boolean logic of \<^verbatim>\<open>src/Sawyer/BitVectorSupport.h\<close>: \<^verbatim>\<open>get\<close>,
  \<^verbatim>\<open>clear\<close>, \<^verbatim>\<open>set\<close>, \<^verbatim>\<open>setValue\<close>, \<^verbatim>\<open>copy\<close>, \<^verbatim>\<open>swap\<close>, \<^verbatim>\<open>equalTo\<close>, \<^verbatim>\<open>invert\<close>,
  \<^verbatim>\<open>bitwiseAnd\<close>, \<^verbatim>\<open>bitwiseOr\<close>, \<^verbatim>\<open>bitwiseXor\<close>, and the shifts and rotations built from them.

  Two interfaces carry the proofs: a processor that maps every bit by a Boolean function
  (\<open>bit_mapper\<close>) and one that combines the bits of two vectors (\<open>bit_combiner\<close>). Their lemmas
  say that the traversal writes exactly the range; the functors of the source are instances.
\<close>

section \<open>Functors and operations\<close>

definition get :: "'w::len word list \<Rightarrow> nat \<Rightarrow> bool option" where
  "get words idx = do {
     w \<leftarrow> vec_get words (wordIndex TYPE('w) idx);
     m \<leftarrow> bitMask (bitIndex TYPE('w) idx) 1;
     Some (w AND m \<noteq> 0)
   }"

definition ClearBits :: "(unit, 'w::len) mproc" where
  "ClearBits s word nbits = do { m \<leftarrow> bitMask 0 nbits; Some (s, word AND NOT m, False) }"

definition clear :: "'w::len word list \<Rightarrow> bitrange \<Rightarrow> 'w word list option" where
  "clear words whr = map_option snd (traverse_LowToHigh (processWord_m ClearBits) () words whr)"

definition SetBits :: "(unit, 'w::len) mproc" where
  "SetBits s word nbits = do { m \<leftarrow> bitMask 0 nbits; Some (s, word OR m, False) }"

definition set_bits :: "'w::len word list \<Rightarrow> bitrange \<Rightarrow> 'w word list option" where
  "set_bits words whr = map_option snd (traverse_LowToHigh (processWord_m SetBits) () words whr)"

definition setValue :: "'w::len word list \<Rightarrow> bitrange \<Rightarrow> bool \<Rightarrow> 'w word list option" where
  "setValue words whr value = (if value then set_bits words whr else clear words whr)"

definition CopyBits :: "(unit, 'w::len) cmproc" where
  "CopyBits s src dst nbits = do {
     m \<leftarrow> bitMask 0 nbits;
     let dst = dst AND NOT m;
     Some (s, dst OR (src AND m), False)
   }"

definition copy ::
    "'w::len word list \<Rightarrow> bitrange \<Rightarrow> 'w word list \<Rightarrow> bitrange \<Rightarrow> 'w word list option" where
  "copy src srcRange dst dstRange =
     map_option (snd \<circ> snd) (traverse2_LowToHigh (processWord_cm CopyBits) () src srcRange dst dstRange)"

definition SwapBits :: "(unit, 'w::len) mmproc" where
  "SwapBits s w1 w2 nbits = do {
     m \<leftarrow> bitMask 0 nbits;
     let tmp = w1;
     let w1 = (w1 AND NOT m) OR (w2 AND m);
     let w2 = (w2 AND NOT m) OR (tmp AND m);
     Some (s, w1, w2, False)
   }"

text \<open>
  \<^verbatim>\<open>swap\<close> assigns both vectors. For two distinct arrays the result is a pair; when both
  arguments are the same array (\<open>swap_same\<close>) the temporary is copied back into the array that
  the traversal has already changed, and the ranges may not overlap.
\<close>

definition swap_bits ::
    "'w::len word list \<Rightarrow> bitrange \<Rightarrow> 'w word list \<Rightarrow> bitrange \<Rightarrow> ('w word list \<times> 'w word list) option" where
  "swap_bits vec1 range1 vec2 range2 = do {
     (s, t, vec2') \<leftarrow> traverse2_LowToHigh (processWord_mm SwapBits) () vec1 range1 vec2 range2;
     vec1' \<leftarrow> conditionalCopy t vec1 range1;
     Some (vec1', vec2')
   }"

definition swap_same :: "'w::len word list \<Rightarrow> bitrange \<Rightarrow> bitrange \<Rightarrow> 'w word list option" where
  "swap_same vec range1 range2 = do {
     require (\<not> overlaps range1 range2);
     (s, t, vec') \<leftarrow> traverse2_LowToHigh (processWord_mm SwapBits) () vec range1 vec range2;
     conditionalCopy t vec' range1
   }"

definition EqualTo :: "(bool, 'w::len) ccproc" where
  "EqualTo wasEqv w1 w2 nbits =
     (if wasEqv then do {
        m \<leftarrow> bitMask 0 nbits;
        let a = w1 AND m;
        let b = w2 AND m;
        Some (a = b, False)
      } else Some (wasEqv, False))"

definition equalTo ::
    "'w::len word list \<Rightarrow> bitrange \<Rightarrow> 'w word list \<Rightarrow> bitrange \<Rightarrow> bool option" where
  "equalTo vec1 range1 vec2 range2 =
     (if interval_size range1 \<noteq> interval_size range2 then Some False
      else map_option fst (traverse2_LowToHigh (processWord_cc EqualTo) True vec1 range1 vec2 range2))"

definition InvertBits :: "(unit, 'w::len) mproc" where
  "InvertBits s word nbits = do { m \<leftarrow> bitMask 0 nbits; Some (s, word XOR m, False) }"

definition invert :: "'w::len word list \<Rightarrow> bitrange \<Rightarrow> 'w word list option" where
  "invert words rng = map_option snd (traverse_LowToHigh (processWord_m InvertBits) () words rng)"

definition AndBits :: "(unit, 'w::len) cmproc" where
  "AndBits s w1 w2 nbits = do { m \<leftarrow> bitMask 0 nbits; Some (s, w2 AND (w1 OR NOT m), False) }"

definition bitwiseAnd ::
    "'w::len word list \<Rightarrow> bitrange \<Rightarrow> 'w word list \<Rightarrow> bitrange \<Rightarrow> 'w word list option" where
  "bitwiseAnd vec1 range1 vec2 range2 =
     map_option (snd \<circ> snd) (traverse2_LowToHigh (processWord_cm AndBits) () vec1 range1 vec2 range2)"

definition OrBits :: "(unit, 'w::len) cmproc" where
  "OrBits s w1 w2 nbits = do { m \<leftarrow> bitMask 0 nbits; Some (s, w2 OR (w1 AND m), False) }"

definition bitwiseOr ::
    "'w::len word list \<Rightarrow> bitrange \<Rightarrow> 'w word list \<Rightarrow> bitrange \<Rightarrow> 'w word list option" where
  "bitwiseOr vec1 range1 vec2 range2 =
     map_option (snd \<circ> snd) (traverse2_LowToHigh (processWord_cm OrBits) () vec1 range1 vec2 range2)"

definition XorBits :: "(unit, 'w::len) cmproc" where
  "XorBits s w1 w2 nbits = do { m \<leftarrow> bitMask 0 nbits; Some (s, w2 XOR (w1 AND m), False) }"

definition bitwiseXor ::
    "'w::len word list \<Rightarrow> bitrange \<Rightarrow> 'w word list \<Rightarrow> bitrange \<Rightarrow> 'w word list option" where
  "bitwiseXor vec1 range1 vec2 range2 =
     map_option (snd \<circ> snd) (traverse2_LowToHigh (processWord_cm XorBits) () vec1 range1 vec2 range2)"

section \<open>Shifts and rotations\<close>

definition shiftLeft ::
    "'w::len word list \<Rightarrow> bitrange \<Rightarrow> nat \<Rightarrow> bool \<Rightarrow> 'w word list option" where
  "shiftLeft words rng nShift newBits =
     (if nShift < interval_size rng then do {
        let nbits = interval_size rng - nShift;
        lo \<leftarrow> least rng;
        shiftedFrom \<leftarrow> baseSize lo nbits;
        shiftedTo \<leftarrow> baseSize (lo + nShift) nbits;
        introduced \<leftarrow> baseSize lo nShift;
        words \<leftarrow> copy words shiftedFrom words shiftedTo;
        setValue words introduced newBits
      } else setValue words rng newBits)"

definition shiftRight ::
    "'w::len word list \<Rightarrow> bitrange \<Rightarrow> nat \<Rightarrow> bool \<Rightarrow> 'w word list option" where
  "shiftRight words rng nShift newBits =
     (if nShift < interval_size rng then do {
        let nbits = interval_size rng - nShift;
        lo \<leftarrow> least rng;
        shiftedFrom \<leftarrow> baseSize (lo + nShift) nbits;
        shiftedTo \<leftarrow> baseSize lo nbits;
        introduced \<leftarrow> baseSize (lo + nbits) nShift;
        words \<leftarrow> copy words shiftedFrom words shiftedTo;
        setValue words introduced newBits
      } else setValue words rng newBits)"

definition shiftRightArithmetic ::
    "'w::len word list \<Rightarrow> bitrange \<Rightarrow> nat \<Rightarrow> 'w word list option" where
  "shiftRightArithmetic words rng nShift =
     (if \<not> isEmpty rng then do {
        hi \<leftarrow> greatest rng;
        newBits \<leftarrow> get words hi;
        shiftRight words rng nShift newBits
      } else Some words)"

definition rotateRight :: "'w::len word list \<Rightarrow> bitrange \<Rightarrow> nat \<Rightarrow> 'w word list option" where
  "rotateRight words rng nShift =
     (if isEmpty rng then Some words
      else let nShift = nShift mod interval_size rng in
      if nShift = 0 then Some words
      else do {
        let nSavedWords = numberOfWords TYPE('w) nShift;
        savedRange \<leftarrow> baseSize 0 nShift;
        lo \<leftarrow> least rng;
        low \<leftarrow> baseSize lo nShift;
        saved \<leftarrow> copy words low (replicate nSavedWords 0) savedRange;
        words \<leftarrow> shiftRight words rng nShift False;
        introduced \<leftarrow> baseSize (lo + interval_size rng - nShift) nShift;
        copy saved savedRange words introduced
      })"

definition rotateLeft :: "'w::len word list \<Rightarrow> bitrange \<Rightarrow> nat \<Rightarrow> 'w word list option" where
  "rotateLeft words rng nShift =
     (if isEmpty rng then Some words
      else let nShift = nShift mod interval_size rng in
      rotateRight words rng (interval_size rng - nShift))"

section \<open>Writing a run of bits\<close>

text \<open>
  \<open>vupd ws b n g\<close> is the array \<open>ws\<close> with bit \<open>b + i\<close> replaced by \<open>g i\<close> for \<open>i < n\<close>: the reference
  against which the operations are proved.
\<close>

definition vupd :: "'w::len word list \<Rightarrow> nat \<Rightarrow> nat \<Rightarrow> (nat \<Rightarrow> bool) \<Rightarrow> 'w word list" where
  "vupd ws b n g = map (\<lambda>j. horner_sum of_bool 2 (map (\<lambda>k. let q = j * LENGTH('w) + k in
       if b \<le> q \<and> q < b + n then g (q - b) else bit (ws ! j) k) [0..<LENGTH('w)])) [0..<length ws]"

lemma length_vupd [simp]: "length (vupd ws b n g) = length ws"
  by (simp add: vupd_def)

lemma vbit_vupd [bits_simps]:
  fixes ws :: "'w::len word list"
  assumes "b + n \<le> length ws * LENGTH('w)"
  shows "vbit (vupd ws b n g) q \<longleftrightarrow> (if b \<le> q \<and> q < b + n then g (q - b) else vbit ws q)"
proof (cases "q div LENGTH('w) < length ws")
  case True
  have "q div LENGTH('w) * LENGTH('w) + q mod LENGTH('w) = q" by simp
  then show ?thesis
    using True by (simp add: vbit_def vupd_def bit_horner_sum_bit_word_iff Let_def)
next
  case False
  then have "length ws * LENGTH('w) \<le> q"
    using index_less not_le by blast
  then show ?thesis using False assms by (auto simp: vbit_def)
qed

lemma vupd_eqI:
  fixes ws :: "'w::len word list"
  assumes "b + n \<le> length ws * LENGTH('w)" "length ws' = length ws"
    and "\<And>q. vbit ws' q = (if b \<le> q \<and> q < b + n then g (q - b) else vbit ws q)"
  shows "ws' = vupd ws b n g"
  by (rule vec_eqI) (use assms in \<open>simp_all add: vbit_vupd\<close>)

lemma vupd_0 [simp]: "vupd ws b 0 g = ws" for ws :: "'w::len word list"
proof (rule nth_equalityI)
  fix j assume "j < length (vupd ws b 0 g)"
  then show "vupd ws b 0 g ! j = ws ! j"
    by (intro bit_word_eqI) (auto simp: vupd_def bit_horner_sum_bit_word_iff Let_def)
qed simp

lemma vupd_cong: "(\<And>i. i < n \<Longrightarrow> g i = h i) \<Longrightarrow> vupd ws b n g = vupd ws b n h"
  unfolding vupd_def by (intro map_cong refl arg_cong [where f = "horner_sum of_bool 2"]) (auto simp: Let_def)

text \<open>The unsigned number that a run of bits stands for.\<close>

definition vval :: "'w::len word list \<Rightarrow> nat \<Rightarrow> nat \<Rightarrow> nat" where
  "vval ws b n = bval (\<lambda>i. vbit ws (b + i)) n"

lemma vval_less [simp]: "vval ws b n < 2 ^ n"
  by (simp add: vval_def)

lemma vval_vupd [simp]:
  "b + n \<le> length ws * LENGTH('w) \<Longrightarrow> vval (vupd ws b n g) b n = bval g n" for ws :: "'w::len word list"
  unfolding vval_def by (rule bval_cong) (simp add: vbit_vupd)

section \<open>Processors that map bits\<close>

locale bit_mapper =
  fixes proc :: "(unit, 'w::len) mproc" and f :: "bool \<Rightarrow> bool"
  assumes maps: "k \<le> LENGTH('w) \<Longrightarrow>
    \<exists>t. proc () w k = Some ((), t, False) \<and> (\<forall>i<k. bit t i = f (bit w i))"
begin

lemma traverse_eq:
  assumes len: "b + n \<le> length ws * LENGTH('w)"
  shows "traverse_LowToHigh (processWord_m proc) () ws (range_of b n)
           = Some ((), vupd ws b n (\<lambda>i. f (vbit ws (b + i))))"
proof -
  define P where "P u ws' p \<longleftrightarrow> length ws' = length ws \<and> b \<le> p \<and> p \<le> b + n \<and>
      (\<forall>q. vbit ws' q = (if b \<le> q \<and> q < p then f (vbit ws q) else vbit ws q))" for u :: unit and ws' :: "'w word list" and p
  have "\<exists>s' ws'. traverse_LowToHigh (processWord_m proc) () ws (range_of b n) = Some (s', ws') \<and>
      P s' ws' (b + n) \<and> length ws' = length ws"
  proof (rule traverse_m_LowToHigh_rule [where P = P])
    fix s ws' p k w
    assume a: "P s ws' p" "length ws' = length ws" "b \<le> p" "p + k \<le> b + n" "0 < k" "k \<le> LENGTH('w)"
      "chunk ws' p k w"
    obtain t where t: "proc () w k = Some ((), t, False)" "\<And>i. i < k \<Longrightarrow> bit t i = f (bit w i)"
      using maps a(6) by blast
    have "P () ws'' (p + k)" if "spliced ws' p k t ws''" for ws''
      using that a t(2) by (auto simp: P_def spliced_def chunk_def)
    with t show "\<exists>s' t d. proc s w k = Some (s', t, d) \<and>
        (\<forall>ws''. spliced ws' p k t ws'' \<longrightarrow> (if d then P s' ws'' (b + n) else P s' ws'' (p + k)))"
      by auto
  qed (use len in \<open>auto simp: P_def\<close>)
  then obtain ws' where "traverse_LowToHigh (processWord_m proc) () ws (range_of b n) = Some ((), ws')"
    "P () ws' (b + n)" by auto
  moreover have "ws' = vupd ws b n (\<lambda>i. f (vbit ws (b + i)))"
    by (rule vupd_eqI [OF len]) (use \<open>P () ws' (b + n)\<close> in \<open>auto simp: P_def\<close>)
  ultimately show ?thesis by simp
qed

end

interpretation clear_bits: bit_mapper ClearBits "\<lambda>_. False"
  by unfold_locales (auto simp: ClearBits_def bit_simps)

interpretation set_bits: bit_mapper SetBits "\<lambda>_. True"
  by unfold_locales (auto simp: SetBits_def bit_simps)

interpretation invert_bits: bit_mapper InvertBits Not
  by unfold_locales (auto simp: InvertBits_def bit_simps)

section \<open>Processors that combine bits\<close>

locale bit_combiner =
  fixes proc :: "(unit, 'w::len) cmproc" and f :: "bool \<Rightarrow> bool \<Rightarrow> bool"
  assumes combines: "k \<le> LENGTH('w) \<Longrightarrow>
    \<exists>t. proc () x y k = Some ((), t, False) \<and> (\<forall>i<k. bit t i = f (bit x i) (bit y i))"
begin

lemma traverse_eq:
  assumes v1: "b1 + n \<le> length vec1 * LENGTH('w)" and v2: "b2 + n \<le> length ws * LENGTH('w)"
  shows "map_option (snd \<circ> snd)
           (traverse2_LowToHigh (processWord_cm proc) () vec1 (range_of b1 n) ws (range_of b2 n))
           = Some (vupd ws b2 n (\<lambda>i. f (vbit vec1 (b1 + i)) (vbit ws (b2 + i))))"
proof -
  define P where "P u ws' r \<longleftrightarrow> length ws' = length ws \<and> r \<le> n \<and>
      (\<forall>q. vbit ws' q = (if b2 \<le> q \<and> q < b2 + r then f (vbit vec1 (b1 + (q - b2))) (vbit ws q) else vbit ws q))"
    for u :: unit and ws' :: "'w word list" and r
  have "\<exists>s' t ws'. traverse2_LowToHigh (processWord_cm proc) () vec1 (range_of b1 n) ws (range_of b2 n)
      = Some (s', t, ws') \<and> P s' ws' n \<and> length ws' = length ws"
  proof (rule traverse_cm_LowToHigh_rule [where P = P, OF _ v1 v2])
    fix s ws' r k x y
    assume a: "P s ws' r" "length ws' = length ws" "r + k \<le> n" "0 < k" "k \<le> LENGTH('w)"
      "chunk vec1 (b1 + r) k x" "chunk ws' (b2 + r) k y"
    obtain t where t: "proc () x y k = Some ((), t, False)" "\<And>i. i < k \<Longrightarrow> bit t i = f (bit x i) (bit y i)"
      using combines a(5) by blast
    have t_bits: "bit t i = f (vbit vec1 (b1 + (r + i))) (vbit ws (b2 + (r + i)))" if "i < k" for i
      using t(2) [OF that] a that by (auto simp: P_def chunk_def add.assoc)
    have "P () ws'' (r + k)" if sp: "spliced ws' (b2 + r) k t ws''" for ws''
      unfolding P_def
    proof (intro conjI allI)
      fix q
      consider "b2 + r \<le> q \<and> q < b2 + r + k" | "b2 \<le> q \<and> q < b2 + r" | "q < b2 \<or> b2 + r + k \<le> q" by linarith
      then show "vbit ws'' q = (if b2 \<le> q \<and> q < b2 + (r + k) then f (vbit vec1 (b1 + (q - b2))) (vbit ws q)
          else vbit ws q)"
      proof cases
        case 1
        then have "q = b2 + (r + (q - (b2 + r)))" by simp
        with 1 sp t_bits [of "q - (b2 + r)"] show ?thesis by (simp add: spliced_def)
      qed (use sp a(1) in \<open>auto simp: spliced_def P_def\<close>)
    qed (use sp a in \<open>auto simp: spliced_def P_def\<close>)
    with t show "\<exists>s' t d. proc s x y k = Some (s', t, d) \<and>
        (\<forall>ws''. spliced ws' (b2 + r) k t ws'' \<longrightarrow> (if d then P s' ws'' n else P s' ws'' (r + k)))"
      by auto
  qed (auto simp: P_def)
  then obtain t ws' where "traverse2_LowToHigh (processWord_cm proc) () vec1 (range_of b1 n) ws (range_of b2 n)
      = Some ((), t, ws')" "P () ws' n" by auto
  moreover have "ws' = vupd ws b2 n (\<lambda>i. f (vbit vec1 (b1 + i)) (vbit ws (b2 + i)))"
    by (rule vupd_eqI [OF v2]) (use \<open>P () ws' n\<close> in \<open>auto simp: P_def\<close>)
  ultimately show ?thesis by simp
qed

end

interpretation copy_bits: bit_combiner CopyBits "\<lambda>a b. a"
  by unfold_locales (auto simp: CopyBits_def bit_simps)

interpretation and_bits: bit_combiner AndBits "\<lambda>a b. b \<and> a"
  by unfold_locales (auto simp: AndBits_def bit_simps)

interpretation or_bits: bit_combiner OrBits "\<lambda>a b. b \<or> a"
  by unfold_locales (auto simp: OrBits_def bit_simps)

interpretation xor_bits: bit_combiner XorBits "\<lambda>a b. b \<noteq> a"
  by unfold_locales (auto simp: XorBits_def bit_simps)

section \<open>The operations write their range\<close>

lemma get_eq [simp]:
  fixes ws :: "'w::len word list"
  assumes "i < length ws * LENGTH('w)"
  shows "get ws i = Some (vbit ws i)"
proof -
  have "(x AND push_bit k (mask (Suc 0)) \<noteq> 0) = bit x k" for x :: "'w word" and k
    by (simp add: bit_iff_and_push_bit_not_eq_0)
  then show ?thesis
    using index_less [OF assms] by (simp add: get_def wordIndex_def bitIndex_def bitsPerWord_def vbit_def Suc_le_eq)
qed

lemma clear_eq [simp]:
  "b + n \<le> length ws * LENGTH('w) \<Longrightarrow> clear ws (range_of b n) = Some (vupd ws b n (\<lambda>_. False))"
  for ws :: "'w::len word list"
  by (simp add: clear_def clear_bits.traverse_eq)

lemma set_bits_eq [simp]:
  "b + n \<le> length ws * LENGTH('w) \<Longrightarrow> set_bits ws (range_of b n) = Some (vupd ws b n (\<lambda>_. True))"
  for ws :: "'w::len word list"
  by (simp add: set_bits_def set_bits.traverse_eq)

lemma setValue_eq [simp]:
  "b + n \<le> length ws * LENGTH('w) \<Longrightarrow> setValue ws (range_of b n) v = Some (vupd ws b n (\<lambda>_. v))"
  for ws :: "'w::len word list"
  by (cases v) (simp_all add: setValue_def)

lemma invert_eq [simp]:
  "b + n \<le> length ws * LENGTH('w) \<Longrightarrow> invert ws (range_of b n) = Some (vupd ws b n (\<lambda>i. \<not> vbit ws (b + i)))"
  for ws :: "'w::len word list"
  by (simp add: invert_def invert_bits.traverse_eq)

lemma copy_eq [simp]:
  "sb + n \<le> length src * LENGTH('w) \<Longrightarrow> db + n \<le> length dst * LENGTH('w) \<Longrightarrow>
   copy src (range_of sb n) dst (range_of db n) = Some (vupd dst db n (\<lambda>i. vbit src (sb + i)))"
  for src dst :: "'w::len word list"
  by (simp add: copy_def copy_bits.traverse_eq)

lemma bitwise_eq [simp]:
  fixes vec1 vec2 :: "'w::len word list"
  assumes "b1 + n \<le> length vec1 * LENGTH('w)" "b2 + n \<le> length vec2 * LENGTH('w)"
  shows "bitwiseAnd vec1 (range_of b1 n) vec2 (range_of b2 n)
          = Some (vupd vec2 b2 n (\<lambda>i. vbit vec2 (b2 + i) \<and> vbit vec1 (b1 + i)))"
    and "bitwiseOr vec1 (range_of b1 n) vec2 (range_of b2 n)
          = Some (vupd vec2 b2 n (\<lambda>i. vbit vec2 (b2 + i) \<or> vbit vec1 (b1 + i)))"
    and "bitwiseXor vec1 (range_of b1 n) vec2 (range_of b2 n)
          = Some (vupd vec2 b2 n (\<lambda>i. vbit vec2 (b2 + i) \<noteq> vbit vec1 (b1 + i)))"
  using and_bits.traverse_eq [OF assms] or_bits.traverse_eq [OF assms] xor_bits.traverse_eq [OF assms]
  by (simp_all add: bitwiseAnd_def bitwiseOr_def bitwiseXor_def)

section \<open>Shifts and rotations are correct\<close>

text \<open>
  A shift moves the bits of the range and fills with the new bit; what is outside the range
  stays. Both cases of the source (a shift shorter than the range, and one that empties it) have
  the same description.
\<close>

lemma shiftLeft_eq [simp]:
  fixes ws :: "'w::len word list"
  assumes len: "b + n \<le> length ws * LENGTH('w)"
  shows "shiftLeft ws (range_of b n) k v
           = Some (vupd ws b n (\<lambda>i. if k \<le> i then vbit ws (b + (i - k)) else v))"
proof (cases "k < n")
  case True
  then have "shiftLeft ws (range_of b n) k v =
      Some (vupd (vupd ws (b + k) (n - k) (\<lambda>i. vbit ws (b + i))) b k (\<lambda>_. v))"
    using len by (simp add: shiftLeft_def)
  also have "vupd (vupd ws (b + k) (n - k) (\<lambda>i. vbit ws (b + i))) b k (\<lambda>_. v) =
      vupd ws b n (\<lambda>i. if k \<le> i then vbit ws (b + (i - k)) else v)"
    by (rule vupd_eqI [OF len]) (use True len in \<open>auto simp: vbit_vupd\<close>)
  finally show ?thesis .
next
  case False
  with len show ?thesis by (auto simp: shiftLeft_def intro: vupd_cong)
qed

lemma shiftRight_eq [simp]:
  fixes ws :: "'w::len word list"
  assumes len: "b + n \<le> length ws * LENGTH('w)"
  shows "shiftRight ws (range_of b n) k v
           = Some (vupd ws b n (\<lambda>i. if i + k < n then vbit ws (b + (i + k)) else v))"
proof (cases "k < n")
  case True
  then have "shiftRight ws (range_of b n) k v =
      Some (vupd (vupd ws b (n - k) (\<lambda>i. vbit ws (b + k + i))) (b + (n - k)) k (\<lambda>_. v))"
    using len by (simp add: shiftRight_def)
  also have "vupd (vupd ws b (n - k) (\<lambda>i. vbit ws (b + k + i))) (b + (n - k)) k (\<lambda>_. v) =
      vupd ws b n (\<lambda>i. if i + k < n then vbit ws (b + (i + k)) else v)"
    by (rule vupd_eqI [OF len]) (use True len in \<open>auto simp: vbit_vupd add.commute\<close>)
  finally show ?thesis .
next
  case False
  with len show ?thesis by (auto simp: shiftRight_def intro: vupd_cong)
qed

lemma shiftRightArithmetic_eq [simp]:
  fixes ws :: "'w::len word list"
  assumes len: "b + n \<le> length ws * LENGTH('w)"
  shows "shiftRightArithmetic ws (range_of b n) k
           = Some (vupd ws b n (\<lambda>i. vbit ws (b + (if i + k < n then i + k else n - 1))))"
proof (cases "n = 0")
  case False
  then have "b + n - 1 < length ws * LENGTH('w)" using len by simp
  then have "shiftRightArithmetic ws (range_of b n) k =
      Some (vupd ws b n (\<lambda>i. if i + k < n then vbit ws (b + (i + k)) else vbit ws (b + n - 1)))"
    using False len by (simp add: shiftRightArithmetic_def)
  then show ?thesis using False by (auto intro!: vupd_cong)
qed (simp add: shiftRightArithmetic_def)

text \<open>Bit \<open>i\<close> of the result of a rotation is bit \<open>(i + k) mod n\<close> of the argument.\<close>

lemma rotateRight_eq [simp]:
  fixes ws :: "'w::len word list"
  assumes len: "b + n \<le> length ws * LENGTH('w)"
  shows "rotateRight ws (range_of b n) k = Some (vupd ws b n (\<lambda>i. vbit ws (b + (i + k) mod n)))"
proof (cases "n = 0")
  case n: False
  define s where "s = k mod n"
  have s: "s < n" using n by (simp add: s_def)
  have ik: "(i + k) mod n = (if i + s < n then i + s else i + s - n)" if "i < n" for i
  proof -
    have "(i + k) mod n = (i + s) mod n" by (simp add: s_def mod_add_right_eq)
    then show ?thesis using that s by (simp add: le_mod_geq)
  qed
  have target: "vupd ws b n (\<lambda>i. vbit ws (b + (i + k) mod n)) =
      vupd ws b n (\<lambda>i. vbit ws (b + (if i + s < n then i + s else i + s - n)))"
    by (rule vupd_cong) (simp add: ik)
  show ?thesis
    unfolding target
  proof (cases "s = 0")
    case True
    then have "rotateRight ws (range_of b n) k = Some ws"
      using n by (simp add: rotateRight_def s_def)
    moreover have "ws = vupd ws b n (\<lambda>i. vbit ws (b + (if i + s < n then i + s else i + s - n)))"
      by (rule vupd_eqI [OF len]) (use True in auto)
    ultimately show "rotateRight ws (range_of b n) k =
      Some (vupd ws b n (\<lambda>i. vbit ws (b + (if i + s < n then i + s else i + s - n))))" by simp
  next
    case False
    define saved :: "'w word list" where "saved = vupd (replicate (numberOfWords TYPE('w) s) 0) 0 s (\<lambda>i. vbit ws (b + i))"
    define sh where "sh = vupd ws b n (\<lambda>i. if i + s < n then vbit ws (b + (i + s)) else False)"
    have sl: "s \<le> length saved * LENGTH('w)" "s \<le> length (replicate (numberOfWords TYPE('w) s) (0::'w word)) * LENGTH('w)"
      using numberOfWords_enough by (simp_all add: saved_def)
    have shl: "b + n - s + s \<le> length sh * LENGTH('w)" using len s by (simp add: sh_def)
    have "rotateRight ws (range_of b n) k = Some (vupd sh (b + n - s) s (\<lambda>i. vbit saved i))"
      using False n s len sl shl copy_eq [of 0 s saved "b + n - s" sh]
      by (simp add: rotateRight_def s_def [symmetric] saved_def [symmetric] sh_def [symmetric])
    also have "vupd sh (b + n - s) s (\<lambda>i. vbit saved i) =
      vupd ws b n (\<lambda>i. vbit ws (b + (if i + s < n then i + s else i + s - n)))"
    proof (rule vupd_eqI [OF len])
      fix q
      have saved: "vbit saved i = vbit ws (b + i)" if "i < s" for i
        using that sl(2) by (simp add: saved_def vbit_vupd)
      have "q - (b + n - s) = q - b + s - n" "b + (q - b + s) = q + s" if "b + n - s \<le> q" "b \<le> q" using that s by auto
      then show "vbit (vupd sh (b + n - s) s (\<lambda>i. vbit saved i)) q =
          (if b \<le> q \<and> q < b + n then vbit ws (b + (if q - b + s < n then q - b + s else q - b + s - n)) else vbit ws q)"
        using s shl len by (auto simp: vbit_vupd saved sh_def)
    qed (simp add: sh_def)
    finally show "rotateRight ws (range_of b n) k =
      Some (vupd ws b n (\<lambda>i. vbit ws (b + (if i + s < n then i + s else i + s - n))))" .
  qed
qed (simp add: rotateRight_def)

lemma rotateLeft_eq [simp]:
  fixes ws :: "'w::len word list"
  assumes len: "b + n \<le> length ws * LENGTH('w)"
  shows "rotateLeft ws (range_of b n) k = Some (vupd ws b n (\<lambda>i. vbit ws (b + (i + (n - k mod n)) mod n)))"
  using len by (simp add: rotateLeft_def)

section \<open>Swapping\<close>

lemma SwapBits_eq:
  fixes x y :: "'w::len word"
  assumes "k \<le> LENGTH('w)"
  obtains x' y' where "SwapBits () x y k = Some ((), x', y', False)" "\<And>i. i < k \<Longrightarrow> bit x' i = bit y i" "\<And>i. i < k \<Longrightarrow> bit y' i = bit x i"
  using assms that [of "(x AND NOT (mask k)) OR (y AND mask k)" "(y AND NOT (mask k)) OR (x AND mask k)"]
  by (simp add: SwapBits_def bitsPerWord_def bit_simps)

lemma swap_traversal:
  fixes vec1 vec2 :: "'w::len word list"
  assumes n: "0 < n" and v1: "b1 + n \<le> length vec1 * LENGTH('w)" and v2: "b2 + n \<le> length vec2 * LENGTH('w)"
  shows "\<exists>tmp off. traverse2_LowToHigh (processWord_mm SwapBits) () vec1 (range_of b1 n) vec2 (range_of b2 n) =
      Some ((), Some (tmp, range_of off n), vupd vec2 b2 n (\<lambda>i. vbit vec1 (b1 + i))) \<and>
    off + n \<le> length tmp * LENGTH('w) \<and> (\<forall>i<n. vbit tmp (off + i) = vbit vec2 (b2 + i))"
proof -
  define off where "off = b2 mod LENGTH('w)"
  define o2 where "o2 = b2 div LENGTH('w)"
  obtain tmp where tmp: "align_tmp vec1 (range_of b1 n) (range_of b2 n) = Some (tmp, range_of off n)"
    "off + n \<le> length tmp * LENGTH('w)" "\<And>i. i < n \<Longrightarrow> vbit tmp (off + i) = vbit vec1 (b1 + i)"
    using align_tmp_bits [OF n v1, of b2] by (auto simp: off_def)
  define P where "P s t ws p \<longleftrightarrow> (\<forall>i<n. vbit t (off + i) = (if off + i < p then vbit vec2 (b2 + i) else vbit vec1 (b1 + i))) \<and>
    (\<forall>q. vbit ws q = (if b2 \<le> q \<and> q < b2 + (p - off) then vbit vec1 (b1 + (q - b2)) else vbit vec2 q))"
    for s :: unit and t ws :: "'w word list" and p
  have "\<exists>s' tmp' ws'. traverse2_up (processWord_mm SwapBits) o2 () tmp vec2 (off div LENGTH('w)) (off mod LENGTH('w))
      (off + n - off) = Some (s', tmp', ws') \<and> P s' tmp' ws' (off + n) \<and> length tmp' = length tmp \<and> length ws' = length vec2"
  proof (rule traverse2_up_rule [where P = P and b = off])
    show "P () tmp vec2 off" using tmp(3) by (auto simp: P_def)
  next
    fix s t ws p k
    assume P: "P s t ws p" and a: "length t = length tmp" "length ws = length vec2" "off \<le> p" "p + k \<le> off + n"
      "in_word TYPE('w) p k" "p div LENGTH('w) < length tmp" "p div LENGTH('w) + o2 < length vec2"
    define q where "q = b2 + (p - off)"
    have q: "q div LENGTH('w) = p div LENGTH('w) + o2" "q mod LENGTH('w) = p mod LENGTH('w)" "in_word TYPE('w) q k"
      using aligned_position [where 'w = 'w, of b2 p] a(3,5) by (simp_all add: q_def off_def o2_def)
    define x y where "x = drop_bit (p mod LENGTH('w)) (t ! (p div LENGTH('w)))" and "y = drop_bit (p mod LENGTH('w)) (ws ! (q div LENGTH('w)))"
    have c: "chunk t p k x" "chunk ws q k y"
      using chunk_drop_bit [OF a(5), of t] chunk_drop_bit [OF q(3), of ws] a q(1,2) by (simp_all add: x_def y_def)
    have k: "k \<le> LENGTH('w)" using a(5) by (simp add: in_word_def)
    obtain x' y' where sw: "SwapBits () x y k = Some ((), x', y', False)" "\<And>i. i < k \<Longrightarrow> bit x' i = bit y i" "\<And>i. i < k \<Longrightarrow> bit y' i = bit x i"
      using SwapBits_eq [OF k, of x y] by blast
    obtain w1 w2 where w: "processWord_mm SwapBits s (t ! (p div LENGTH('w))) (ws ! (q div LENGTH('w))) (p mod LENGTH('w)) k = Some ((), w1, w2, False)"
      "spliced t p k x' (t[p div LENGTH('w) := w1])" "spliced ws q k y' (ws[q div LENGTH('w) := w2])"
      using processWord_mm_chunk [OF a(5) q(3,2), of t ws SwapBits s "()" x' y' False] sw(1) a q(1) by (auto simp: x_def y_def)
    have bits: "bit x' i = vbit ws (q + i)" "bit y' i = vbit t (p + i)" if "i < k" for i
      using c sw(2,3) that by (simp_all add: chunk_def)
    have "P () (t[p div LENGTH('w) := w1]) (ws[q div LENGTH('w) := w2]) (p + k)"
      unfolding P_def
    proof (intro conjI allI impI)
      fix i assume i: "i < n"
      show "vbit (t[p div LENGTH('w) := w1]) (off + i) = (if off + i < p + k then vbit vec2 (b2 + i) else vbit vec1 (b1 + i))"
      proof (cases "p \<le> off + i \<and> off + i < p + k")
        case True
        then have "q + (off + i - p) = b2 + i" using a(3) by (simp add: q_def)
        with True w(2) bits(1) [of "off + i - p"] P show ?thesis by (auto simp: spliced_def P_def q_def)
      next
        case False
        with w(2) P i show ?thesis by (auto simp: spliced_def P_def)
      qed
    next
      fix r
      show "vbit (ws[q div LENGTH('w) := w2]) r = (if b2 \<le> r \<and> r < b2 + (p + k - off) then vbit vec1 (b1 + (r - b2)) else vbit vec2 r)"
      proof (cases "q \<le> r \<and> r < q + k")
        case True
        then have "p + (r - q) = off + (r - b2)" "r - b2 < n" using a(3,4) by (auto simp: q_def)
        with True w(3) bits(2) [of "r - q"] P a(3) show ?thesis by (auto simp: spliced_def P_def q_def)
      next
        case False
        with w(3) P a(3) show ?thesis by (auto simp: spliced_def P_def q_def)
      qed
    qed
    with w(1) q(1) show "\<exists>s' w1' w2' d. processWord_mm SwapBits s (t ! (p div LENGTH('w))) (ws ! (p div LENGTH('w) + o2)) (p mod LENGTH('w)) k = Some (s', w1', w2', d) \<and>
        (if d then P s' (t[p div LENGTH('w) := w1']) (ws[p div LENGTH('w) + o2 := w2']) (off + n)
         else P s' (t[p div LENGTH('w) := w1']) (ws[p div LENGTH('w) + o2 := w2']) (p + k))" by auto
  qed (use tmp(2) v2 in \<open>auto simp: o2_def off_def\<close>)
  moreover have "off div LENGTH('w) = 0" "off mod LENGTH('w) = off" by (simp_all add: off_def)
  ultimately obtain tmp' ws' where up: "traverse2_up (processWord_mm SwapBits) o2 () tmp vec2 0 off n = Some ((), tmp', ws')"
    "P () tmp' ws' (off + n)" "length tmp' = length tmp" "length ws' = length vec2" by auto
  have "ws' = vupd vec2 b2 n (\<lambda>i. vbit vec1 (b1 + i))"
    by (rule vupd_eqI) (use up(2,4) v2 in \<open>auto simp: P_def\<close>)
  with up tmp(1,2) n show ?thesis
    by (intro exI [of _ tmp'] exI [of _ off]) (simp add: traverse2_LowToHigh_def wordIndex_def bitIndex_def bitsPerWord_def off_def o2_def P_def)
qed

lemma conditionalCopy_eq:
  fixes tmp vec :: "'w::len word list"
  assumes "0 < n" "off + n \<le> length tmp * LENGTH('w)" "b + n \<le> length vec * LENGTH('w)"
  shows "conditionalCopy (Some (tmp, range_of off n)) vec (range_of b n) = Some (vupd vec b n (\<lambda>i. vbit tmp (off + i)))"
  using nonoverlappingCopy_bits [OF assms] assms(3) by (auto simp: conditionalCopy_def copied_def intro!: vupd_eqI)

lemma swap_bits_eq [simp]:
  fixes vec1 vec2 :: "'w::len word list"
  assumes "b1 + n \<le> length vec1 * LENGTH('w)" "b2 + n \<le> length vec2 * LENGTH('w)"
  shows "swap_bits vec1 (range_of b1 n) vec2 (range_of b2 n) =
    Some (vupd vec1 b1 n (\<lambda>i. vbit vec2 (b2 + i)), vupd vec2 b2 n (\<lambda>i. vbit vec1 (b1 + i)))"
proof (cases "n = 0")
  case False
  with swap_traversal [OF _ assms] obtain tmp off where t:
    "traverse2_LowToHigh (processWord_mm SwapBits) () vec1 (range_of b1 n) vec2 (range_of b2 n) =
      Some ((), Some (tmp, range_of off n), vupd vec2 b2 n (\<lambda>i. vbit vec1 (b1 + i)))"
    "off + n \<le> length tmp * LENGTH('w)" "\<forall>i<n. vbit tmp (off + i) = vbit vec2 (b2 + i)" by auto
  have "vupd vec1 b1 n (\<lambda>i. vbit tmp (off + i)) = vupd vec1 b1 n (\<lambda>i. vbit vec2 (b2 + i))" by (rule vupd_cong) (use t(3) in simp)
  with t(1) conditionalCopy_eq [OF _ t(2) assms(1)] False show ?thesis by (simp add: swap_bits_def)
qed (simp add: swap_bits_def traverse2_LowToHigh_def conditionalCopy_def)

lemma swap_same_eq [simp]:
  fixes vec :: "'w::len word list"
  assumes "b1 + n \<le> length vec * LENGTH('w)" "b2 + n \<le> length vec * LENGTH('w)"
  shows "swap_same vec (range_of b1 n) (range_of b2 n) = (if overlaps (range_of b1 n) (range_of b2 n) then None
    else Some (vupd (vupd vec b2 n (\<lambda>i. vbit vec (b1 + i))) b1 n (\<lambda>i. vbit vec (b2 + i))))"
proof (cases "n = 0")
  case True
  then show ?thesis by (simp add: swap_same_def traverse2_LowToHigh_def conditionalCopy_def overlaps_def intersection_def)
next
  case False
  with swap_traversal [OF _ assms] obtain tmp off where t:
    "traverse2_LowToHigh (processWord_mm SwapBits) () vec (range_of b1 n) vec (range_of b2 n) =
      Some ((), Some (tmp, range_of off n), vupd vec b2 n (\<lambda>i. vbit vec (b1 + i)))"
    "off + n \<le> length tmp * LENGTH('w)" "\<forall>i<n. vbit tmp (off + i) = vbit vec (b2 + i)" by auto
  let ?v = "vupd vec b2 n (\<lambda>i. vbit vec (b1 + i))"
  have "vupd ?v b1 n (\<lambda>i. vbit tmp (off + i)) = vupd ?v b1 n (\<lambda>i. vbit vec (b2 + i))" by (rule vupd_cong) (use t(3) in simp)
  with t(1) conditionalCopy_eq [OF _ t(2), of b1 ?v] False assms show ?thesis by (simp add: swap_same_def)
qed

end
