(* ===== verification/BVS_Search.thy ===== *)
theory BVS_Search
  imports BVS_Bits
begin

text \<open>
  Counting and searching in \<^verbatim>\<open>src/Sawyer/BitVectorSupport.h\<close>: the least and most significant
  set or clear bit, the predicates and counts over a range, and the least and most significant
  difference of two ranges.

  The functors remember the offset of the current word from the start of the range and the
  index they have found (\<open>bit_search\<close>). The interfaces \<open>searcher_up\<close>, \<open>searcher_down\<close> and
  \<open>bit_counter\<close> state what a functor does with one word; their lemmas give the result of the
  whole traversal as a search through the indices of the range.
\<close>

section \<open>Loops over the bits of a word\<close>

text \<open>The loops \<^verbatim>\<open>for (size_t i=0; i<nbits; ++i)\<close> and \<^verbatim>\<open>for (size_t i=nbits; i>0; --i)\<close> with
  an early return, and the loops that count.\<close>

primrec scan :: "(nat \<Rightarrow> bool option) \<Rightarrow> nat list \<Rightarrow> nat option option" where
  "scan test [] = Some None"
| "scan test (i # is) = do { t \<leftarrow> test i; if t then Some (Some i) else scan test is }"

primrec count_loop :: "(nat \<Rightarrow> bool option) \<Rightarrow> nat list \<Rightarrow> nat \<Rightarrow> nat option" where
  "count_loop test [] r = Some r"
| "count_loop test (i # is) r = do {
     t \<leftarrow> test i; count_loop test is (if t then r + 1 else r) }"

definition isSetAt :: "'w::len word \<Rightarrow> nat \<Rightarrow> bool option" where
  "isSetAt word i = do { m \<leftarrow> bitMask i 1; Some (word AND m \<noteq> 0) }"

definition isClearAt :: "'w::len word \<Rightarrow> nat \<Rightarrow> bool option" where
  "isClearAt word i = do { m \<leftarrow> bitMask i 1; Some (word AND m = 0) }"

section \<open>Functors and operations\<close>

record bit_search =
  srch_offset :: nat
  srch_result :: "nat option"

definition LeastSignificantSetBit :: "(bit_search, 'w::len) cproc" where
  "LeastSignificantSetBit s word nbits = do {
     m \<leftarrow> bitMask 0 nbits;
     found \<leftarrow> (if word AND m \<noteq> 0 then scan (isSetAt word) [0..<nbits] else Some None);
     Some (case found of
        Some i \<Rightarrow> (s\<lparr>srch_result := Some (srch_offset s + i)\<rparr>, True)
      | None \<Rightarrow> (s\<lparr>srch_offset := srch_offset s + nbits\<rparr>, False))
   }"

definition leastSignificantSetBit :: "'w::len word list \<Rightarrow> bitrange \<Rightarrow> nat option option" where
  "leastSignificantSetBit words rng = do {
     (visitor, _) \<leftarrow> traverse_LowToHigh (processWord_c LeastSignificantSetBit)
        \<lparr>srch_offset = 0, srch_result = None\<rparr> words rng;
     (case srch_result visitor of
        Some r \<Rightarrow> do { lo \<leftarrow> least rng; Some (Some (lo + r)) }
      | None \<Rightarrow> Some None)
   }"

definition LeastSignificantClearBit :: "(bit_search, 'w::len) cproc" where
  "LeastSignificantClearBit s word nbits = do {
     m \<leftarrow> bitMask 0 nbits;
     found \<leftarrow> (if m \<noteq> word AND m then scan (isClearAt word) [0..<nbits] else Some None);
     Some (case found of
        Some i \<Rightarrow> (s\<lparr>srch_result := Some (srch_offset s + i)\<rparr>, True)
      | None \<Rightarrow> (s\<lparr>srch_offset := srch_offset s + nbits\<rparr>, False))
   }"

definition leastSignificantClearBit :: "'w::len word list \<Rightarrow> bitrange \<Rightarrow> nat option option" where
  "leastSignificantClearBit words rng = do {
     (visitor, _) \<leftarrow> traverse_LowToHigh (processWord_c LeastSignificantClearBit)
        \<lparr>srch_offset = 0, srch_result = None\<rparr> words rng;
     (case srch_result visitor of
        Some r \<Rightarrow> do { lo \<leftarrow> least rng; Some (Some (lo + r)) }
      | None \<Rightarrow> Some None)
   }"

definition MostSignificantSetBit :: "(bit_search, 'w::len) cproc" where
  "MostSignificantSetBit s word nbits = do {
     require (nbits \<le> srch_offset s);
     let s = s\<lparr>srch_offset := srch_offset s - nbits\<rparr>;
     m \<leftarrow> bitMask 0 nbits;
     found \<leftarrow> (if word AND m \<noteq> 0 then scan (isSetAt word) (rev [0..<nbits]) else Some None);
     Some (case found of
        Some i \<Rightarrow> (s\<lparr>srch_result := Some (srch_offset s + i)\<rparr>, True)
      | None \<Rightarrow> (s, False))
   }"

definition mostSignificantSetBit :: "'w::len word list \<Rightarrow> bitrange \<Rightarrow> nat option option" where
  "mostSignificantSetBit words rng = do {
     (visitor, _) \<leftarrow> traverse_HighToLow (processWord_c MostSignificantSetBit)
        \<lparr>srch_offset = interval_size rng, srch_result = None\<rparr> words rng;
     (case srch_result visitor of
        Some r \<Rightarrow> do { lo \<leftarrow> least rng; Some (Some (lo + r)) }
      | None \<Rightarrow> Some None)
   }"

definition MostSignificantClearBit :: "(bit_search, 'w::len) cproc" where
  "MostSignificantClearBit s word nbits = do {
     require (nbits \<le> srch_offset s);
     let s = s\<lparr>srch_offset := srch_offset s - nbits\<rparr>;
     m \<leftarrow> bitMask 0 nbits;
     found \<leftarrow> (if m \<noteq> word AND m then scan (isClearAt word) (rev [0..<nbits]) else Some None);
     Some (case found of
        Some i \<Rightarrow> (s\<lparr>srch_result := Some (srch_offset s + i)\<rparr>, True)
      | None \<Rightarrow> (s, False))
   }"

definition mostSignificantClearBit :: "'w::len word list \<Rightarrow> bitrange \<Rightarrow> nat option option" where
  "mostSignificantClearBit words rng = do {
     (visitor, _) \<leftarrow> traverse_HighToLow (processWord_c MostSignificantClearBit)
        \<lparr>srch_offset = interval_size rng, srch_result = None\<rparr> words rng;
     (case srch_result visitor of
        Some r \<Rightarrow> do { lo \<leftarrow> least rng; Some (Some (lo + r)) }
      | None \<Rightarrow> Some None)
   }"

definition isAllSet :: "'w::len word list \<Rightarrow> bitrange \<Rightarrow> bool option" where
  "isAllSet words rng = map_option (\<lambda>r. r = None) (leastSignificantClearBit words rng)"

definition isAllClear :: "'w::len word list \<Rightarrow> bitrange \<Rightarrow> bool option" where
  "isAllClear words rng = map_option (\<lambda>r. r = None) (leastSignificantSetBit words rng)"

definition CountSetBits :: "(nat, 'w::len) cproc" where
  "CountSetBits r word nbits = do {
     m \<leftarrow> bitMask 0 nbits;
     r' \<leftarrow> (if word AND m \<noteq> 0 then count_loop (isSetAt word) [0..<nbits] r else Some r);
     Some (r', False)
   }"

definition nSet :: "'w::len word list \<Rightarrow> bitrange \<Rightarrow> nat option" where
  "nSet words rng = map_option fst (traverse_LowToHigh (processWord_c CountSetBits) 0 words rng)"

definition CountClearBits :: "(nat, 'w::len) cproc" where
  "CountClearBits r word nbits = do {
     m \<leftarrow> bitMask 0 nbits;
     r' \<leftarrow> (if m \<noteq> word AND m then count_loop (isClearAt word) [0..<nbits] r else Some r);
     Some (r', False)
   }"

definition nClear :: "'w::len word list \<Rightarrow> bitrange \<Rightarrow> nat option" where
  "nClear words rng = map_option fst (traverse_LowToHigh (processWord_c CountClearBits) 0 words rng)"

definition LeastSignificantDifference :: "(bit_search, 'w::len) ccproc" where
  "LeastSignificantDifference s w1 w2 nbits = do {
     mask \<leftarrow> bitMask 0 nbits;
     found \<leftarrow> (if w1 AND mask \<noteq> w2 AND mask then scan (isSetAt (w1 XOR w2)) [0..<nbits] else Some None);
     Some (case found of
        Some i \<Rightarrow> (s\<lparr>srch_result := Some (srch_offset s + i)\<rparr>, True)
      | None \<Rightarrow> (s\<lparr>srch_offset := srch_offset s + nbits\<rparr>, False))
   }"

definition leastSignificantDifference ::
    "'w::len word list \<Rightarrow> bitrange \<Rightarrow> 'w word list \<Rightarrow> bitrange \<Rightarrow> nat option option" where
  "leastSignificantDifference vec1 range1 vec2 range2 =
     map_option (\<lambda>(visitor, _). srch_result visitor)
       (traverse2_LowToHigh (processWord_cc LeastSignificantDifference)
          \<lparr>srch_offset = 0, srch_result = None\<rparr> vec1 range1 vec2 range2)"

definition MostSignificantDifference :: "(bit_search, 'w::len) ccproc" where
  "MostSignificantDifference s w1 w2 nbits = do {
     require (nbits \<le> srch_offset s);
     let s = s\<lparr>srch_offset := srch_offset s - nbits\<rparr>;
     mask \<leftarrow> bitMask 0 nbits;
     found \<leftarrow> (if w1 AND mask \<noteq> w2 AND mask
              then scan (isSetAt (w1 XOR w2)) (rev [0..<nbits]) else Some None);
     Some (case found of
        Some i \<Rightarrow> (s\<lparr>srch_result := Some (srch_offset s + i)\<rparr>, True)
      | None \<Rightarrow> (s, False))
   }"

definition mostSignificantDifference ::
    "'w::len word list \<Rightarrow> bitrange \<Rightarrow> 'w word list \<Rightarrow> bitrange \<Rightarrow> nat option option" where
  "mostSignificantDifference vec1 range1 vec2 range2 =
     map_option (\<lambda>(visitor, _). srch_result visitor)
       (traverse2_HighToLow (processWord_cc MostSignificantDifference)
          \<lparr>srch_offset = interval_size range1, srch_result = None\<rparr> vec1 range1 vec2 range2)"

definition areEqual ::
    "'w::len word list \<Rightarrow> bitrange \<Rightarrow> 'w word list \<Rightarrow> bitrange \<Rightarrow> bool option" where
  "areEqual vec1 range1 vec2 range2 =
     (if interval_size range1 \<noteq> interval_size range2 then Some False
      else map_option (\<lambda>r. r = None) (leastSignificantDifference vec1 range1 vec2 range2))"

section \<open>What a functor does with one word\<close>

lemma isSetAt_eq [simp]: "i < LENGTH('w) \<Longrightarrow> isSetAt w i = Some (bit w i)" for w :: "'w::len word"
  by (simp add: isSetAt_def bit_iff_and_push_bit_not_eq_0 Suc_le_eq)

lemma isClearAt_eq [simp]: "i < LENGTH('w) \<Longrightarrow> isClearAt w i = Some (\<not> bit w i)" for w :: "'w::len word"
  by (simp add: isClearAt_def bit_iff_and_push_bit_not_eq_0 Suc_le_eq)

lemma scan_eq: "(\<And>i. i \<in> set is \<Longrightarrow> test i = Some (h i)) \<Longrightarrow> scan test is = Some (find h is)"
  by (induction "is") auto

lemma count_loop_eq:
  "(\<And>i. i \<in> set is \<Longrightarrow> test i = Some (h i)) \<Longrightarrow> count_loop test is r = Some (r + length (filter h is))"
  by (induction "is" arbitrary: r) auto

lemma any_set_iff: "w AND mask k = 0 \<longleftrightarrow> (\<forall>i<k. i < LENGTH('w) \<longrightarrow> \<not> bit w i)" for w :: "'w::len word"
  by (auto simp: bit_eq_iff bit_simps)

lemma all_set_iff: "mask k = w AND mask k \<longleftrightarrow> (\<forall>i<k. i < LENGTH('w) \<longrightarrow> bit w i)" for w :: "'w::len word"
  by (auto simp: bit_eq_iff bit_simps)

lemma same_iff: "x AND mask k = y AND mask k \<longleftrightarrow> (\<forall>i<k. i < LENGTH('w) \<longrightarrow> bit x i = bit y i)"
  for x y :: "'w::len word"
  by (auto simp: bit_eq_iff bit_simps)

lemmas word_guard_iffs = any_set_iff all_set_iff same_iff

definition searched_up :: "bit_search \<Rightarrow> nat \<Rightarrow> nat option \<Rightarrow> bit_search \<times> bool" where
  "searched_up s k found = (case found of
     Some i \<Rightarrow> (s\<lparr>srch_result := Some (srch_offset s + i)\<rparr>, True)
   | None \<Rightarrow> (s\<lparr>srch_offset := srch_offset s + k\<rparr>, False))"

definition searched_down :: "bit_search \<Rightarrow> nat \<Rightarrow> nat option \<Rightarrow> bit_search \<times> bool" where
  "searched_down s k found = (case found of
     Some i \<Rightarrow> (s\<lparr>srch_offset := srch_offset s - k, srch_result := Some (srch_offset s - k + i)\<rparr>, True)
   | None \<Rightarrow> (s\<lparr>srch_offset := srch_offset s - k\<rparr>, False))"

text \<open>The invariants of the searches, relative to a predicate \<open>h\<close> on the indices of the range.\<close>

definition search_inv_up :: "(nat \<Rightarrow> bool) \<Rightarrow> bit_search \<Rightarrow> nat \<Rightarrow> bool" where
  "search_inv_up h s r \<longleftrightarrow> srch_offset s = r \<and> srch_result s = None \<and> (\<forall>i<r. \<not> h i)"

definition search_inv_down :: "(nat \<Rightarrow> bool) \<Rightarrow> nat \<Rightarrow> bit_search \<Rightarrow> nat \<Rightarrow> bool" where
  "search_inv_down h n s r \<longleftrightarrow> srch_offset s = r \<and> srch_result s = None \<and> (\<forall>i<n. r \<le> i \<longrightarrow> \<not> h i)"

lemma search_up_step:
  assumes inv: "search_inv_up h s r" and n: "r + k \<le> n"
    and out: "searched_up s k (find (\<lambda>i. h (r + i)) [0..<k]) = (s', d)"
  shows "if d then srch_result s' = find h [0..<n] else search_inv_up h s' (r + k)"
proof (cases "find (\<lambda>i. h (r + i)) [0..<k]")
  case None
  then have "\<not> h i" if "r \<le> i" "i < r + k" for i
    using that by (auto simp: find_upt_eq_None dest: spec [of _ "i - r"])
  with None out inv show ?thesis
    by (auto simp: searched_up_def search_inv_up_def) (meson not_le_imp_less)
next
  case (Some i)
  then have i: "i < k" "h (r + i)" "\<forall>j<i. \<not> h (r + j)" by (simp_all add: find_upt_eq_Some)
  have "\<not> h j" if "j < r + i" for j
    using that i(3) inv by (cases "j < r") (auto simp: search_inv_up_def dest: spec [of _ "j - r"])
  then have "find h [0..<n] = Some (r + i)" using i n by (auto simp: find_upt_eq_Some)
  with Some out inv show ?thesis by (auto simp: searched_up_def search_inv_up_def)
qed

lemma search_down_step:
  assumes inv: "search_inv_down h n s (r + k)" and n: "r + k \<le> n"
    and out: "searched_down s k (find (\<lambda>i. h (r + i)) (rev [0..<k])) = (s', d)"
  shows "if d then srch_result s' = find h (rev [0..<n]) else search_inv_down h n s' r"
proof (cases "find (\<lambda>i. h (r + i)) (rev [0..<k])")
  case None
  then have "\<not> h i" if "r \<le> i" "i < r + k" for i
    using that by (auto simp: find_rev_upt_eq_None dest: spec [of _ "i - r"])
  with None out inv show ?thesis
    by (auto simp: searched_down_def search_inv_down_def)
next
  case (Some i)
  then have i: "i < k" "h (r + i)" "\<forall>j<k. i < j \<longrightarrow> \<not> h (r + j)" by (simp_all add: find_rev_upt_eq_Some)
  have "\<not> h j" if "j < n" "r + i < j" for j
    using that i(3) inv by (cases "j < r + k") (auto simp: search_inv_down_def dest: spec [of _ "j - r"])
  then have "find h (rev [0..<n]) = Some (r + i)" using i n by (auto simp: find_rev_upt_eq_Some)
  with Some out inv show ?thesis by (auto simp: searched_down_def search_inv_down_def)
qed

section \<open>Interfaces\<close>

locale searcher_up =
  fixes proc :: "(bit_search, 'w::len) cproc" and hit :: "bool \<Rightarrow> bool"
  assumes searches: "k \<le> LENGTH('w) \<Longrightarrow>
    proc s w k = Some (searched_up s k (find (\<lambda>i. hit (bit w i)) [0..<k]))"
begin

lemma traverse_eq:
  assumes len: "b + n \<le> length ws * LENGTH('w)"
  shows "\<exists>s'. traverse_LowToHigh (processWord_c proc) \<lparr>srch_offset = 0, srch_result = None\<rparr> ws (range_of b n)
           = Some (s', ws) \<and> srch_result s' = find (\<lambda>i. hit (vbit ws (b + i))) [0..<n]"
proof (rule traverse_c_LowToHigh_rule [where P = "\<lambda>s p. search_inv_up (\<lambda>i. hit (vbit ws (b + i))) s (p - b)", OF _ len])
  fix s p k w
  assume a: "search_inv_up (\<lambda>i. hit (vbit ws (b + i))) s (p - b)" "b \<le> p" "p + k \<le> b + n" "k \<le> LENGTH('w)"
    "chunk ws p k w"
  obtain s' d where o: "searched_up s k (find (\<lambda>i. hit (vbit ws (b + (p - b + i)))) [0..<k]) = (s', d)" by force
  have "find (\<lambda>i. hit (bit w i)) [0..<k] = find (\<lambda>i. hit (vbit ws (b + (p - b + i)))) [0..<k]"
    using a by (intro find_cong) (auto simp: chunk_def)
  then have "proc s w k = Some (s', d)" using searches [OF a(4)] o by simp
  moreover have "p - b + k = p + k - b" "p - b + k \<le> n" using a(2,3) by simp_all
  ultimately show "\<exists>s' d. proc s w k = Some (s', d) \<and>
      (if d then srch_result s' = find (\<lambda>i. hit (vbit ws (b + i))) [0..<n]
       else search_inv_up (\<lambda>i. hit (vbit ws (b + i))) s' (p + k - b))"
    using search_up_step [OF a(1) _ o, of n] by auto
qed (auto simp: search_inv_up_def find_upt_eq_None eq_commute [of None])

end

locale searcher_down =
  fixes proc :: "(bit_search, 'w::len) cproc" and hit :: "bool \<Rightarrow> bool"
  assumes searches: "k \<le> LENGTH('w) \<Longrightarrow> k \<le> srch_offset s \<Longrightarrow>
    proc s w k = Some (searched_down s k (find (\<lambda>i. hit (bit w i)) (rev [0..<k])))"
begin

lemma traverse_eq:
  assumes len: "b + n \<le> length ws * LENGTH('w)"
  shows "\<exists>s'. traverse_HighToLow (processWord_c proc) \<lparr>srch_offset = n, srch_result = None\<rparr> ws (range_of b n)
           = Some (s', ws) \<and> srch_result s' = find (\<lambda>i. hit (vbit ws (b + i))) (rev [0..<n])"
proof (rule traverse_c_HighToLow_rule
    [where P = "\<lambda>s p. search_inv_down (\<lambda>i. hit (vbit ws (b + i))) n s (p - b)", OF _ len])
  fix s q p w
  assume a: "search_inv_down (\<lambda>i. hit (vbit ws (b + i))) n s (p - b)" "b \<le> q" "q < p" "p \<le> b + n"
    "p - q \<le> LENGTH('w)" "chunk ws q (p - q) w"
  have eq: "p - b = q - b + (p - q)" "q - b + (p - q) \<le> n" using a(2-4) by simp_all
  obtain s' d where o: "searched_down s (p - q) (find (\<lambda>i. hit (vbit ws (b + (q - b + i)))) (rev [0..<p - q])) = (s', d)"
    by force
  have "find (\<lambda>i. hit (bit w i)) (rev [0..<p - q]) = find (\<lambda>i. hit (vbit ws (b + (q - b + i)))) (rev [0..<p - q])"
    using a by (intro find_cong) (auto simp: chunk_def)
  moreover have "p - q \<le> srch_offset s" using a(1-3) by (simp add: search_inv_down_def)
  ultimately have "proc s w (p - q) = Some (s', d)" using searches [OF a(5)] o by simp
  then show "\<exists>s' d. proc s w (p - q) = Some (s', d) \<and>
      (if d then srch_result s' = find (\<lambda>i. hit (vbit ws (b + i))) (rev [0..<n])
       else search_inv_down (\<lambda>i. hit (vbit ws (b + i))) n s' (q - b))"
    using search_down_step [OF a(1) [unfolded eq(1)] eq(2) o] by auto
qed (auto simp: search_inv_down_def find_rev_upt_eq_None eq_commute [of None])

end

locale difference_searcher_up =
  fixes proc :: "(bit_search, 'w::len) ccproc"
  assumes searches: "k \<le> LENGTH('w) \<Longrightarrow>
    proc s x y k = Some (searched_up s k (find (\<lambda>i. bit x i \<noteq> bit y i) [0..<k]))"
begin

lemma traverse_eq:
  assumes v1: "b1 + n \<le> length vec1 * LENGTH('w)" and v2: "b2 + n \<le> length vec2 * LENGTH('w)"
  shows "\<exists>s' t. traverse2_LowToHigh (processWord_cc proc) \<lparr>srch_offset = 0, srch_result = None\<rparr>
             vec1 (range_of b1 n) vec2 (range_of b2 n) = Some (s', t, vec2) \<and>
           srch_result s' = find (\<lambda>i. vbit vec1 (b1 + i) \<noteq> vbit vec2 (b2 + i)) [0..<n]"
proof (rule traverse_cc_LowToHigh_rule
    [where P = "search_inv_up (\<lambda>i. vbit vec1 (b1 + i) \<noteq> vbit vec2 (b2 + i))", OF _ v1 v2])
  fix s r k x y
  let ?h = "\<lambda>i. vbit vec1 (b1 + i) \<noteq> vbit vec2 (b2 + i)"
  assume a: "search_inv_up ?h s r" "r + k \<le> n" "k \<le> LENGTH('w)" "chunk vec1 (b1 + r) k x" "chunk vec2 (b2 + r) k y"
  obtain s' d where o: "searched_up s k (find (\<lambda>i. ?h (r + i)) [0..<k]) = (s', d)" by force
  have "find (\<lambda>i. bit x i \<noteq> bit y i) [0..<k] = find (\<lambda>i. ?h (r + i)) [0..<k]"
    using a by (intro find_cong) (auto simp: chunk_def add.assoc)
  then have "proc s x y k = Some (s', d)" using searches [OF a(3)] o by simp
  then show "\<exists>s' d. proc s x y k = Some (s', d) \<and>
      (if d then srch_result s' = find ?h [0..<n] else search_inv_up ?h s' (r + k))"
    using search_up_step [OF a(1,2) o] by auto
qed (auto simp: search_inv_up_def find_upt_eq_None eq_commute [of None])

end

locale difference_searcher_down =
  fixes proc :: "(bit_search, 'w::len) ccproc"
  assumes searches: "k \<le> LENGTH('w) \<Longrightarrow> k \<le> srch_offset s \<Longrightarrow>
    proc s x y k = Some (searched_down s k (find (\<lambda>i. bit x i \<noteq> bit y i) (rev [0..<k])))"
begin

lemma traverse_eq:
  assumes v1: "b1 + n \<le> length vec1 * LENGTH('w)" and v2: "b2 + n \<le> length vec2 * LENGTH('w)"
  shows "\<exists>s' t. traverse2_HighToLow (processWord_cc proc) \<lparr>srch_offset = n, srch_result = None\<rparr>
             vec1 (range_of b1 n) vec2 (range_of b2 n) = Some (s', t, vec2) \<and>
           srch_result s' = find (\<lambda>i. vbit vec1 (b1 + i) \<noteq> vbit vec2 (b2 + i)) (rev [0..<n])"
proof (rule traverse_cc_HighToLow_rule
    [where P = "search_inv_down (\<lambda>i. vbit vec1 (b1 + i) \<noteq> vbit vec2 (b2 + i)) n", OF _ v1 v2])
  fix s r k x y
  let ?h = "\<lambda>i. vbit vec1 (b1 + i) \<noteq> vbit vec2 (b2 + i)"
  assume a: "search_inv_down ?h n s (r + k)" "r + k \<le> n" "k \<le> LENGTH('w)"
    "chunk vec1 (b1 + r) k x" "chunk vec2 (b2 + r) k y"
  obtain s' d where o: "searched_down s k (find (\<lambda>i. ?h (r + i)) (rev [0..<k])) = (s', d)" by force
  have "find (\<lambda>i. bit x i \<noteq> bit y i) (rev [0..<k]) = find (\<lambda>i. ?h (r + i)) (rev [0..<k])"
    using a by (intro find_cong) (auto simp: chunk_def add.assoc)
  moreover have "k \<le> srch_offset s" using a(1) by (simp add: search_inv_down_def)
  ultimately have "proc s x y k = Some (s', d)" using searches [OF a(3)] o by simp
  then show "\<exists>s' d. proc s x y k = Some (s', d) \<and>
      (if d then srch_result s' = find ?h (rev [0..<n]) else search_inv_down ?h n s' r)"
    using search_down_step [OF a(1,2) o] by auto
qed (auto simp: search_inv_down_def find_rev_upt_eq_None eq_commute [of None])

end

locale bit_counter =
  fixes proc :: "(nat, 'w::len) cproc" and hit :: "bool \<Rightarrow> bool"
  assumes counts: "k \<le> LENGTH('w) \<Longrightarrow>
    proc r w k = Some (r + length (filter (\<lambda>i. hit (bit w i)) [0..<k]), False)"
begin

lemma traverse_eq:
  assumes len: "b + n \<le> length ws * LENGTH('w)"
  shows "\<exists>r. traverse_LowToHigh (processWord_c proc) 0 ws (range_of b n) = Some (r, ws) \<and>
           r = length (filter (\<lambda>i. hit (vbit ws (b + i))) [0..<n])"
proof (rule traverse_c_LowToHigh_rule
    [where P = "\<lambda>r p. b \<le> p \<and> r = length (filter (\<lambda>i. hit (vbit ws (b + i))) [0..<p - b])", OF _ len])
  fix r p k w
  let ?h = "\<lambda>i. hit (vbit ws (b + i))"
  assume a: "b \<le> p \<and> r = length (filter ?h [0..<p - b])" "b \<le> p" "k \<le> LENGTH('w)" "chunk ws p k w"
  have "filter (\<lambda>i. hit (bit w i)) [0..<k] = filter (\<lambda>i. ?h (p - b + i)) [0..<k]"
    using a by (intro filter_cong) (auto simp: chunk_def)
  moreover have "length (filter ?h [0..<p + k - b]) =
      length (filter ?h [0..<p - b]) + length (filter (\<lambda>i. ?h (p - b + i)) [0..<k])"
    using length_filter_upt_add [of ?h "p - b" k] a(2) by (simp only: Nat.add_diff_assoc2)
  ultimately show "\<exists>s' d. proc r w k = Some (s', d) \<and>
      (if d then s' = length (filter ?h [0..<n]) else b \<le> p + k \<and> s' = length (filter ?h [0..<p + k - b]))"
    using counts [OF a(3), of r w] a(1) by auto
qed simp_all

end

section \<open>The functors implement the interfaces\<close>

lemma find_none_guard: "(\<And>i. i < k \<Longrightarrow> \<not> h i) \<Longrightarrow> find h [0..<k] = None" "(\<And>i. i < k \<Longrightarrow> \<not> h i) \<Longrightarrow> find h (rev [0..<k]) = None"
  by (simp_all add: find_upt_eq_None find_rev_upt_eq_None)

lemma scan_set [simp]:
  fixes w :: "'w::len word"
  assumes "k \<le> LENGTH('w)"
  shows "scan (isSetAt w) [0..<k] = Some (find (bit w) [0..<k])"
    "scan (isSetAt w) (rev [0..<k]) = Some (find (bit w) (rev [0..<k]))"
    "scan (isClearAt w) [0..<k] = Some (find (\<lambda>i. \<not> bit w i) [0..<k])"
    "scan (isClearAt w) (rev [0..<k]) = Some (find (\<lambda>i. \<not> bit w i) (rev [0..<k]))"
  using assms by (auto intro!: scan_eq)

lemma count_set [simp]:
  fixes w :: "'w::len word"
  assumes "k \<le> LENGTH('w)"
  shows "count_loop (isSetAt w) [0..<k] r = Some (r + length (filter (bit w) [0..<k]))"
    "count_loop (isClearAt w) [0..<k] r = Some (r + length (filter (\<lambda>i. \<not> bit w i) [0..<k]))"
  using assms by (auto intro!: count_loop_eq)

lemma find_bit_xor:
  fixes x y :: "'w::len word"
  shows "find (bit (x XOR y)) [0..<k] = find (\<lambda>i. bit x i \<noteq> bit y i) [0..<k]"
    "find (bit (x XOR y)) (rev [0..<k]) = find (\<lambda>i. bit x i \<noteq> bit y i) (rev [0..<k])"
  by (intro find_cong; auto simp: bit_simps dest: bit_imp_le_length)+

interpretation lssb: searcher_up LeastSignificantSetBit "\<lambda>b. b"
  by unfold_locales (auto simp: LeastSignificantSetBit_def searched_up_def word_guard_iffs find_none_guard)

interpretation lscb: searcher_up LeastSignificantClearBit Not
  by unfold_locales (auto simp: LeastSignificantClearBit_def searched_up_def word_guard_iffs find_none_guard)

interpretation mssb: searcher_down MostSignificantSetBit "\<lambda>b. b"
  by unfold_locales (auto simp: MostSignificantSetBit_def searched_down_def word_guard_iffs find_none_guard
      split: option.split)

interpretation mscb: searcher_down MostSignificantClearBit Not
  by unfold_locales (auto simp: MostSignificantClearBit_def searched_down_def word_guard_iffs find_none_guard
      split: option.split)

interpretation lsd: difference_searcher_up LeastSignificantDifference
  by unfold_locales (auto simp: LeastSignificantDifference_def searched_up_def word_guard_iffs find_bit_xor
      find_none_guard)

interpretation msd: difference_searcher_down MostSignificantDifference
  by unfold_locales (auto simp: MostSignificantDifference_def searched_down_def word_guard_iffs find_bit_xor
      find_none_guard split: option.split)

interpretation count_set: bit_counter CountSetBits "\<lambda>b. b"
  by unfold_locales (auto simp: CountSetBits_def word_guard_iffs)

interpretation count_clear: bit_counter CountClearBits Not
  by unfold_locales (auto simp: CountClearBits_def word_guard_iffs)

section \<open>The operations search and count the range\<close>

lemma absolute_index:
  assumes "\<And>i. r = Some i \<Longrightarrow> i < n"
  shows "(case r of Some i \<Rightarrow> do { lo \<leftarrow> least (range_of b n); Some (Some (lo + i)) } | None \<Rightarrow> Some None)
           = Some (map_option ((+) b) r)"
  using assms by (cases r) auto

lemma leastSignificantSetBit_eq [simp]:
  fixes ws :: "'w::len word list"
  assumes "b + n \<le> length ws * LENGTH('w)"
  shows "leastSignificantSetBit ws (range_of b n) = Some (map_option ((+) b) (find (\<lambda>i. vbit ws (b + i)) [0..<n]))"
  using lssb.traverse_eq [OF assms] absolute_index [of "find (\<lambda>i. vbit ws (b + i)) [0..<n]" n b]
  by (auto simp: leastSignificantSetBit_def find_upt_eq_Some)

lemma leastSignificantClearBit_eq [simp]:
  fixes ws :: "'w::len word list"
  assumes "b + n \<le> length ws * LENGTH('w)"
  shows "leastSignificantClearBit ws (range_of b n) = Some (map_option ((+) b) (find (\<lambda>i. \<not> vbit ws (b + i)) [0..<n]))"
  using lscb.traverse_eq [OF assms] absolute_index [of "find (\<lambda>i. \<not> vbit ws (b + i)) [0..<n]" n b]
  by (auto simp: leastSignificantClearBit_def find_upt_eq_Some)

lemma mostSignificantSetBit_eq [simp]:
  fixes ws :: "'w::len word list"
  assumes "b + n \<le> length ws * LENGTH('w)"
  shows "mostSignificantSetBit ws (range_of b n)
           = Some (map_option ((+) b) (find (\<lambda>i. vbit ws (b + i)) (rev [0..<n])))"
  using mssb.traverse_eq [OF assms] absolute_index [of "find (\<lambda>i. vbit ws (b + i)) (rev [0..<n])" n b]
  by (auto simp: mostSignificantSetBit_def find_rev_upt_eq_Some)

lemma mostSignificantClearBit_eq [simp]:
  fixes ws :: "'w::len word list"
  assumes "b + n \<le> length ws * LENGTH('w)"
  shows "mostSignificantClearBit ws (range_of b n)
           = Some (map_option ((+) b) (find (\<lambda>i. \<not> vbit ws (b + i)) (rev [0..<n])))"
  using mscb.traverse_eq [OF assms] absolute_index [of "find (\<lambda>i. \<not> vbit ws (b + i)) (rev [0..<n])" n b]
  by (auto simp: mostSignificantClearBit_def find_rev_upt_eq_Some)

lemma isAllSet_eq [simp]:
  "b + n \<le> length ws * LENGTH('w) \<Longrightarrow> isAllSet ws (range_of b n) = Some (\<forall>i<n. vbit ws (b + i))"
  for ws :: "'w::len word list"
  by (simp add: isAllSet_def find_upt_eq_None)

lemma isAllClear_eq [simp]:
  "b + n \<le> length ws * LENGTH('w) \<Longrightarrow> isAllClear ws (range_of b n) = Some (\<forall>i<n. \<not> vbit ws (b + i))"
  for ws :: "'w::len word list"
  by (simp add: isAllClear_def find_upt_eq_None)

lemma nSet_eq [simp]:
  "b + n \<le> length ws * LENGTH('w) \<Longrightarrow> nSet ws (range_of b n) = Some (length (filter (\<lambda>i. vbit ws (b + i)) [0..<n]))"
  for ws :: "'w::len word list"
  using count_set.traverse_eq [of b n ws] by (auto simp: nSet_def)

lemma nClear_eq [simp]:
  "b + n \<le> length ws * LENGTH('w) \<Longrightarrow> nClear ws (range_of b n) = Some (length (filter (\<lambda>i. \<not> vbit ws (b + i)) [0..<n]))"
  for ws :: "'w::len word list"
  using count_clear.traverse_eq [of b n ws] by (auto simp: nClear_def)

lemma differences_eq [simp]:
  fixes vec1 vec2 :: "'w::len word list"
  assumes "b1 + n \<le> length vec1 * LENGTH('w)" "b2 + n \<le> length vec2 * LENGTH('w)"
  shows "leastSignificantDifference vec1 (range_of b1 n) vec2 (range_of b2 n)
           = Some (find (\<lambda>i. vbit vec1 (b1 + i) \<noteq> vbit vec2 (b2 + i)) [0..<n])"
    and "mostSignificantDifference vec1 (range_of b1 n) vec2 (range_of b2 n)
           = Some (find (\<lambda>i. vbit vec1 (b1 + i) \<noteq> vbit vec2 (b2 + i)) (rev [0..<n]))"
  using lsd.traverse_eq [OF assms] msd.traverse_eq [OF assms]
  by (auto simp: leastSignificantDifference_def mostSignificantDifference_def)

lemma areEqual_eq [simp]:
  fixes vec1 vec2 :: "'w::len word list"
  assumes "b1 + n1 \<le> length vec1 * LENGTH('w)" "b2 + n2 \<le> length vec2 * LENGTH('w)"
  shows "areEqual vec1 (range_of b1 n1) vec2 (range_of b2 n2)
           = Some (n1 = n2 \<and> vval vec1 b1 n1 = vval vec2 b2 n2)"
  using assms by (auto simp: areEqual_def find_upt_eq_None vval_def bval_eq_iff)

text \<open>The functor \<^verbatim>\<open>EqualTo\<close>, which visits every word, decides the same relation.\<close>

lemma EqualTo_eq:
  "k \<le> LENGTH('w) \<Longrightarrow> EqualTo e x y k = Some (e \<and> (\<forall>i<k. bit x i = bit y i), False)" for x y :: "'w::len word"
  by (auto simp: EqualTo_def word_guard_iffs)

lemma equalTo_eq [simp]:
  fixes vec1 vec2 :: "'w::len word list"
  assumes v: "b1 + n1 \<le> length vec1 * LENGTH('w)" "b2 + n2 \<le> length vec2 * LENGTH('w)"
  shows "equalTo vec1 (range_of b1 n1) vec2 (range_of b2 n2)
           = Some (n1 = n2 \<and> vval vec1 b1 n1 = vval vec2 b2 n2)"
proof (cases "n1 = n2")
  case True
  have "\<exists>e t. traverse2_LowToHigh (processWord_cc EqualTo) True vec1 (range_of b1 n1) vec2 (range_of b2 n1)
      = Some (e, t, vec2) \<and> e = (\<forall>i<n1. vbit vec1 (b1 + i) = vbit vec2 (b2 + i))"
  proof (rule traverse_cc_LowToHigh_rule
      [where P = "\<lambda>e r. e = (\<forall>i<r. vbit vec1 (b1 + i) = vbit vec2 (b2 + i))", OF _ v(1) v(2) [folded True]])
    fix e r k x y
    assume a: "e = (\<forall>i<r. vbit vec1 (b1 + i) = vbit vec2 (b2 + i))" "k \<le> LENGTH('w)"
      "chunk vec1 (b1 + r) k x" "chunk vec2 (b2 + r) k y"
    have "(\<forall>i<k. bit x i = bit y i) \<longleftrightarrow> (\<forall>i<k. vbit vec1 (b1 + (r + i)) = vbit vec2 (b2 + (r + i)))"
      using a(3,4) by (auto simp: chunk_def add.assoc)
    then show "\<exists>e' d. EqualTo e x y k = Some (e', d) \<and> (if d then e' = (\<forall>i<n1. vbit vec1 (b1 + i) = vbit vec2 (b2 + i))
        else e' = (\<forall>i<r + k. vbit vec1 (b1 + i) = vbit vec2 (b2 + i)))"
      unfolding all_less_add a(1) [symmetric] by (auto simp: EqualTo_eq [OF a(2)])
  qed simp_all
  with True show ?thesis by (auto simp: equalTo_def vval_def bval_eq_iff)
qed (simp add: equalTo_def)

end
