(* ===== verification/BVS_Numeric.thy ===== *)
theory BVS_Numeric
  imports BVS_Arith
begin

text \<open>
  Numeric correctness of the operations of \<open>BVS_Arith\<close> and \<open>BVS_Bits\<close>: shifts as multiplication
  and division by powers of two, multiplication by ten, conversion to and from 64-bit integers,
  and the two comparisons.
\<close>

section \<open>Shifts as arithmetic\<close>

lemma vval_shiftLeft:
  "bval (\<lambda>i. if k \<le> i then vbit ws (b + (i - k)) else False) n = (vval ws b n * 2 ^ k) mod 2 ^ n"
  by (rule bit_eqI)
    (auto simp: bit_simps bits_simps take_bit_eq_mod [symmetric] push_bit_eq_mult [symmetric])

lemma vval_shiftRight:
  "bval (\<lambda>i. if i + k < n then vbit ws (b + (i + k)) else False) n = vval ws b n div 2 ^ k"
  by (rule bit_eqI)
    (auto simp: bit_simps bits_simps drop_bit_eq_div [symmetric] add.commute)

lemma vval_replicate_0 [simp]: "vval (replicate m 0) b n = 0"
  by (simp add: vval_eq_0_iff)

lemma multiply10_eq [simp]:
  fixes ws :: "'w::len word list"
  assumes len: "b + n \<le> length ws * LENGTH('w)"
  shows "multiply10 ws (range_of b n) = Some (vupd ws b n (bit (10 * vval ws b n)))"
proof -
  define tmp :: "'w word list" where "tmp = replicate (numberOfWords TYPE('w) n) 0"
  define p1 where "p1 = vupd tmp 0 n (\<lambda>i. vbit ws (b + i))"
  define w1 where "w1 = vupd ws b n (\<lambda>i. if 3 \<le> i then vbit ws (b + (i - 3)) else False)"
  define p2 where "p2 = vupd p1 0 n (\<lambda>i. if 1 \<le> i then vbit p1 (0 + (i - 1)) else False)"
  have l: "0 + n \<le> length tmp * LENGTH('w)" "0 + n \<le> length p1 * LENGTH('w)" "0 + n \<le> length p2 * LENGTH('w)"
    "b + n \<le> length w1 * LENGTH('w)"
    using numberOfWords_enough len by (simp_all add: tmp_def p1_def p2_def w1_def)
  define S where "S = of_bool False + vval p2 0 n + vval w1 b n"
  have "vval p1 0 n = vval ws b n"
    using l(1) by (simp add: p1_def bval_bits_of)
  then have vp: "vval p2 0 n = (vval ws b n * 2 ^ 1) mod 2 ^ n"
    using l(2) unfolding p2_def by (subst vval_vupd) (auto simp only: vval_shiftLeft)
  have vw: "vval w1 b n = (vval ws b n * 2 ^ 3) mod 2 ^ n"
    using len unfolding w1_def by (subst vval_vupd) (auto simp only: vval_shiftLeft)
  have "multiply10 ws (range_of b n) = Some (vupd w1 b n (bit S))"
    using copy_eq [OF len l(1), folded p1_def] shiftLeft_eq [OF len, of 3 False, folded w1_def]
      shiftLeft_eq [OF l(2), of 1 False, folded p2_def] add_eq [OF l(3,4), of False, folded S_def]
    by (simp add: multiply10_def tmp_def [symmetric] del: copy_eq shiftLeft_eq add_eq)
  moreover have "vupd w1 b n (bit S) = vupd ws b n (bit S)"
    by (rule vupd_eqI [OF len]) (use len in \<open>auto simp: w1_def vbit_vupd\<close>)
  moreover have "S mod 2 ^ n = (10 * vval ws b n) mod 2 ^ n"
  proof -
    have "S mod 2 ^ n = (vval ws b n * 2 + vval ws b n * 8) mod 2 ^ n"
      by (simp add: S_def vp vw mod_add_eq)
    then show ?thesis by (simp add: algebra_simps)
  qed
  ultimately show ?thesis using vupd_bit_mod by metis
qed

section \<open>Conversion to and from integers\<close>

lemma fromInteger_eq [simp]:
  fixes ws :: "'w::len word list"
  assumes len: "b + n \<le> length ws * LENGTH('w)"
  shows "fromInteger ws (range_of b n) v = Some (vupd ws b n (bit v))"
proof (cases "n = 0")
  case False
  define m where "m = min n 64"
  define N where "N = numberOfWords TYPE('w) m"
  define tmp :: "'w word list" where
    "tmp = map (\<lambda>i. ucast (drop_bit (i * LENGTH('w)) v AND ucast (- 1 :: 'w word))) [0..<N]"
  have mN: "m \<le> N * LENGTH('w)" unfolding N_def by (rule numberOfWords_enough)
  have tb: "vbit tmp i = bit v i" if "i < m" for i
  proof -
    have "i div LENGTH('w) < N" using that mN by (intro less_mult_imp_div_less) simp
    then show ?thesis
      using that order_le_less_trans [OF mod_less_eq_dividend, of i 64 "LENGTH('w)"]
      by (auto simp: vbit_def tmp_def bit_simps m_def)
  qed
  have l: "0 + m \<le> length tmp * LENGTH('w)" "b + m \<le> length ws * LENGTH('w)"
    using mN len by (simp_all add: tmp_def m_def)
  let ?w1 = "vupd ws b m (bit v)"
  have w1: "copy tmp (range_of 0 m) ws (range_of b m) = Some ?w1"
    using l tb by (simp add: vupd_cong [of m "vbit tmp" "bit v"])
  have "fromInteger ws (range_of b n) v = (if 64 \<le> n then clear ?w1 (range_of (b + 64) (n - 64)) else Some ?w1)"
    using False w1 by (simp add: fromInteger_def bitsPerWord_def m_def [symmetric] N_def [symmetric]
        tmp_def [symmetric] Let_def)
  also have "\<dots> = Some (vupd ws b n (bit v))"
  proof (cases "64 \<le> n")
    case True
    have "vupd ?w1 (b + 64) (n - 64) (\<lambda>_. False) = vupd ws b n (bit v)"
      by (rule vupd_eqI [OF len]) (use True len in \<open>auto simp: vbit_vupd m_def dest: bit_imp_le_length\<close>)
    with True len show ?thesis by simp
  qed (simp add: m_def)
  finally show ?thesis .
qed (simp add: fromInteger_def)

lemma bit_or_words:
  fixes ws :: "'w::len word list"
  assumes "N \<le> length ws"
  shows "bit (or_words ws N) q \<longleftrightarrow> q < 64 \<and> q < N * LENGTH('w) \<and> vbit ws q"
  using assms
proof (induction N)
  case (Suc N)
  have "bit (push_bit (N * LENGTH('w)) (ucast (ws ! N)) :: 64 word) q \<longleftrightarrow>
      q < 64 \<and> N * LENGTH('w) \<le> q \<and> q < Suc N * LENGTH('w) \<and> vbit ws q"
  proof (cases "N * LENGTH('w) \<le> q \<and> q < Suc N * LENGTH('w)")
    case True
    define k where "k = q - N * LENGTH('w)"
    have k: "q = N * LENGTH('w) + k" "k < LENGTH('w)" using True by (auto simp: k_def)
    with Suc.prems show ?thesis by (auto simp: bit_simps vbit_word)
  next
    case False
    then have "\<not> bit (ws ! N) (q - N * LENGTH('w))" if "N * LENGTH('w) \<le> q"
      using that by (auto dest!: bit_imp_le_length)
    with False show ?thesis by (auto simp: bit_simps)
  qed
  moreover have "bit (or_words ws N) q \<longleftrightarrow> q < 64 \<and> q < N * LENGTH('w) \<and> vbit ws q"
    using Suc by simp
  ultimately show ?case
    by (auto simp: or_words_def bitsPerWord_def bit_simps)
qed (simp add: or_words_def)

lemma toInteger_eq:
  fixes ws :: "'w::len word list"
  assumes len: "b + n \<le> length ws * LENGTH('w)" and n: "0 < n"
  shows "toInteger ws (range_of b n) = Some (word_of_nat (vval ws b (min n 64)))"
proof -
  define m where "m = min n 64"
  define tmp :: "'w word list" where "tmp = replicate (numberOfWords TYPE('w) m) 0"
  define t1 where "t1 = vupd tmp 0 m (\<lambda>i. vbit ws (b + i))"
  have l: "0 + m \<le> length tmp * LENGTH('w)" "b + m \<le> length ws * LENGTH('w)"
    using numberOfWords_enough len by (simp_all add: tmp_def m_def)
  have "toInteger ws (range_of b n) = Some (or_words t1 (numberOfWords TYPE('w) m))"
    using n l by (simp add: toInteger_def m_def [symmetric] tmp_def [symmetric] t1_def [symmetric] Let_def)
  moreover have "or_words t1 (numberOfWords TYPE('w) m) = word_of_nat (vval ws b m)"
  proof (rule bit_word_eqI)
    fix q assume "q < LENGTH(64)"
    then show "bit (or_words t1 (numberOfWords TYPE('w) m)) q = bit (word_of_nat (vval ws b m) :: 64 word) q"
      using l(1) numberOfWords_enough [where 'w = 'w, of m]
      by (auto simp: bit_or_words t1_def tmp_def vbit_vupd bit_simps bits_simps)
  qed
  ultimately show ?thesis by (simp add: m_def)
qed

lemma toInteger_small_eq:
  fixes ws :: "'w::len word list"
  assumes len: "numberOfWords TYPE('w) n \<le> length ws" and n: "n \<le> 64"
  shows "toInteger_small ws n = Some (word_of_nat (vval ws 0 n))"
proof -
  let ?N = "numberOfWords TYPE('w) n"
  define r where "r = (if n < 64 then or_words ws ?N AND NOT (push_bit n (NOT 0)) else or_words ws ?N)"
  have "toInteger_small ws n = Some r" using len n by (simp add: toInteger_small_def r_def Let_def)
  moreover have "r = word_of_nat (vval ws 0 n)"
  proof (rule bit_word_eqI)
    fix q assume "q < LENGTH(64)"
    then show "bit r q = bit (word_of_nat (vval ws 0 n) :: 64 word) q"
      using len n numberOfWords_enough [where 'w = 'w, of n]
      by (auto simp: r_def bit_or_words bit_simps bits_simps)
  qed
  ultimately show ?thesis by simp
qed

section \<open>Comparison\<close>

definition cmp :: "'a::linorder \<Rightarrow> 'a \<Rightarrow> int" where
  "cmp x y = (if x < y then - 1 else if y < x then 1 else 0)"

lemma cmp_refl [simp]: "cmp x x = 0"
  by (simp add: cmp_def)

lemma cmp_of_nat [simp]: "cmp (int x) (int y) = cmp x y"
  by (simp add: cmp_def)

lemma cmp_commute: "cmp y x = - cmp x y"
  by (auto simp: cmp_def)

lemma cmp_high_digit:
  fixes x y x' y' :: nat
  assumes "x < 2 ^ r" "y < 2 ^ r" "x' \<noteq> y'"
  shows "cmp (x + 2 ^ r * x') (y + 2 ^ r * y') = cmp x' y'"
proof -
  have lt: "a + 2 ^ r * a' < c + 2 ^ r * c'" if "a < 2 ^ r" "a' < c'" for a a' c c' :: nat
  proof -
    have "a + 2 ^ r * a' < 2 ^ r * Suc a'" using that(1) by simp
    also have "\<dots> \<le> 2 ^ r * c'" using that(2) by (intro mult_le_mono2) simp
    finally show ?thesis by simp
  qed
  show ?thesis
    using assms lt [of x x' y' y] lt [of y y' x' x] by (cases x' y' rule: linorder_cases) (auto simp: cmp_def)
qed

lemma CompareBits_eq:
  fixes x y :: "'w::len word"
  assumes "k \<le> LENGTH('w)"
  shows "CompareBits 0 x y k = Some (cmp (take_bit k (unat x)) (take_bit k (unat y)),
           take_bit k (unat x) \<noteq> take_bit k (unat y))"
  using assms by (auto simp: CompareBits_def Let_def word_less_nat_alt masked_value cmp_def)

lemma compare_same_size:
  fixes vec1 vec2 :: "'w::len word list"
  assumes v: "b1 + n \<le> length vec1 * LENGTH('w)" "b2 + n \<le> length vec2 * LENGTH('w)"
  shows "\<exists>r t. traverse2_HighToLow (processWord_cc CompareBits) 0 vec1 (range_of b1 n) vec2 (range_of b2 n)
           = Some (r, t, vec2) \<and> r = cmp (vval vec1 b1 n) (vval vec2 b2 n)"
proof (rule traverse_cc_HighToLow_rule
    [where P = "\<lambda>(c :: int) r. c = 0 \<and> vval vec1 (b1 + r) (n - r) = vval vec2 (b2 + r) (n - r)", OF _ v])
  fix c :: int and r k x y
  assume a: "c = 0 \<and> vval vec1 (b1 + (r + k)) (n - (r + k)) = vval vec2 (b2 + (r + k)) (n - (r + k))"
    "r + k \<le> n" "0 < k" "k \<le> LENGTH('w)" "chunk vec1 (b1 + r) k x" "chunk vec2 (b2 + r) k y"
  define X where "X = vval vec1 (b1 + r) k"
  define Y where "Y = vval vec2 (b2 + r) k"
  have XY: "take_bit k (unat x) = X" "take_bit k (unat y) = Y"
    using chunk_value a(5,6) by (auto simp: X_def Y_def)
  have hi: "vval v (b + r) (n - r) = vval v (b + r) k + 2 ^ k * vval v (b + (r + k)) (n - (r + k))"
    for v :: "'w word list" and b
    using vval_add [of v "b + r" k "n - (r + k)"] a(2) by (simp add: add.assoc)
  have all: "vval v b n = vval v b r + 2 ^ r * vval v (b + r) (n - r)" for v :: "'w word list" and b
    using vval_add [of v b r "n - r"] a(2) by simp
  show "\<exists>s' d. CompareBits c x y k = Some (s', d) \<and>
      (if d then s' = cmp (vval vec1 b1 n) (vval vec2 b2 n)
       else s' = 0 \<and> vval vec1 (b1 + r) (n - r) = vval vec2 (b2 + r) (n - r))"
  proof (cases "X = Y")
    case True
    with a(1) show ?thesis
      using CompareBits_eq [OF a(4), of x y] hi [of vec1 b1] hi [of vec2 b2] by (simp add: XY X_def Y_def)
  next
    case False
    define H where "H = vval vec2 (b2 + (r + k)) (n - (r + k))"
    have h: "vval vec1 (b1 + r) (n - r) = X + 2 ^ k * H" "vval vec2 (b2 + r) (n - r) = Y + 2 ^ k * H"
      using hi [of vec1 b1] hi [of vec2 b2] a(1) by (simp_all add: X_def Y_def H_def)
    have "cmp (vval vec1 b1 n) (vval vec2 b2 n) = cmp (X + 2 ^ k * H) (Y + 2 ^ k * H)"
      unfolding all [of vec1 b1] all [of vec2 b2] h by (rule cmp_high_digit) (use False in auto)
    also have "\<dots> = cmp X Y" by (simp add: cmp_def)
    finally show ?thesis
      using CompareBits_eq [OF a(4), of x y] a(1) False by (auto simp: XY)
  qed
qed (use v in auto)

lemma compare_eq [simp]:
  fixes vec1 vec2 :: "'w::len word list"
  assumes v1: "b1 + n1 \<le> length vec1 * LENGTH('w)" and v2: "b2 + n2 \<le> length vec2 * LENGTH('w)"
  shows "compare vec1 (range_of b1 n1) vec2 (range_of b2 n2) = Some (cmp (vval vec1 b1 n1) (vval vec2 b2 n2))"
proof -
  have same: "compare vec1 (range_of b1 n) vec2 (range_of b2 n) = Some (cmp (vval vec1 b1 n) (vval vec2 b2 n))"
    if "0 < n" "n \<le> n1" "n \<le> n2" for n
    using compare_same_size [of b1 n vec1 b2 vec2] that v1 v2 by (subst compare.simps) auto
  have zero: "isEqualToZero v (range_of b n) = Some (vval v b n = 0)"
    if "b + n \<le> length v * LENGTH('w)" for v :: "'w word list" and b n
    using that by (simp add: isEqualToZero_def vval_eq_0_iff)
  consider "n1 = 0" | "n2 = 0" | "0 < n1" "n1 = n2" | (less) "0 < n1" "n1 < n2" | (greater) "0 < n2" "n2 < n1" by linarith
  then show ?thesis
  proof cases
    case less
    have eq: "vval vec2 b2 n2 = vval vec2 b2 n1 + 2 ^ n1 * vval vec2 (b2 + n1) (n2 - n1)"
      using vval_add [of vec2 b2 n1 "n2 - n1"] less by simp
    have "compare vec1 (range_of b1 n1) vec2 (range_of b2 n2) =
        (if vval vec2 (b2 + n1) (n2 - n1) = 0 then compare vec1 (range_of b1 n1) vec2 (range_of b2 n1) else Some (- 1))"
      using less v2 by (subst compare.simps) (simp add: zero Suc_diff_Suc)
    then show ?thesis
      using same [of n1] less cmp_high_digit [of "vval vec1 b1 n1" n1 "vval vec2 b2 n1" 0 "vval vec2 (b2 + n1) (n2 - n1)"]
      unfolding eq by (auto simp: cmp_def)
  next
    case greater
    have eq: "vval vec1 b1 n1 = vval vec1 b1 n2 + 2 ^ n2 * vval vec1 (b1 + n2) (n1 - n2)"
      using vval_add [of vec1 b1 n2 "n1 - n2"] greater by simp
    have "compare vec1 (range_of b1 n1) vec2 (range_of b2 n2) =
        (if vval vec1 (b1 + n2) (n1 - n2) = 0 then compare vec1 (range_of b1 n2) vec2 (range_of b2 n2) else Some 1)"
      using greater v1 by (subst compare.simps) (simp add: zero Suc_diff_Suc)
    then show ?thesis
      using same [of n2] greater cmp_high_digit [of "vval vec1 b1 n2" n2 "vval vec2 b2 n2" "vval vec1 (b1 + n2) (n1 - n2)" 0]
      unfolding eq by (auto simp: cmp_def)
  qed (use v1 v2 same [of n1] in \<open>auto simp: compare.simps zero cmp_def\<close>)
qed

section \<open>Signed comparison\<close>

lemma sval_0 [simp]: "sval ws b 0 = 0"
  by (simp add: sval_def)

lemma vval_top:
  "0 < n \<Longrightarrow> vval ws b n = vval ws b (n - 1) + of_bool (vbit ws (b + n - 1)) * 2 ^ (n - 1)"
  by (cases n) (simp_all add: vval_def bval_Suc)

lemma sval_bounds:
  assumes "0 < n"
  shows "- (2 ^ (n - 1)) \<le> sval ws b n" "sval ws b n < 2 ^ (n - 1)" "sval ws b n < 0 \<longleftrightarrow> vbit ws (b + n - 1)"
    "\<not> vbit ws (b + n - 1) \<Longrightarrow> sval ws b n = int (vval ws b n)"
    "vbit ws (b + n - 1) \<Longrightarrow> sval ws b n = int (vval ws b n) - 2 ^ n"
proof -
  define A where "A = int (vval ws b (n - 1))"
  define T where "T = (2 :: int) ^ (n - 1)"
  have p: "(2 :: int) ^ n = 2 * T" using assms by (cases n) (simp_all add: T_def)
  have "vval ws b (n - 1) < 2 ^ (n - 1)" by simp
  then have "int (vval ws b (n - 1)) < int (2 ^ (n - 1))" by (simp only: of_nat_less_iff)
  then have l: "A < T" "0 \<le> A" by (simp_all add: A_def T_def)
  have t: "int (vval ws b n) = A + of_bool (vbit ws (b + n - 1)) * T"
    by (simp add: vval_top [OF assms] A_def T_def)
  have s: "sval ws b n = (if vbit ws (b + n - 1) then A - T else A)"
    using assms t p by (simp add: sval_def)
  show "- (2 ^ (n - 1)) \<le> sval ws b n" "sval ws b n < 2 ^ (n - 1)" "sval ws b n < 0 \<longleftrightarrow> vbit ws (b + n - 1)"
    unfolding s T_def [symmetric] using l by auto
  show "\<not> vbit ws (b + n - 1) \<Longrightarrow> sval ws b n = int (vval ws b n)"
    "vbit ws (b + n - 1) \<Longrightarrow> sval ws b n = int (vval ws b n) - 2 ^ n"
    using assms by (simp_all add: sval_def)
qed

lemma most_significant_difference_cmp:
  fixes v1 v2 :: "'a::len word list"
  assumes d: "find (\<lambda>i. vbit v1 (b1 + i) \<noteq> vbit v2 (b2 + i)) (rev [0..<n]) = Some d"
  shows "cmp (vval v1 b1 n) (vval v2 b2 n) = (if vbit v1 (b1 + d) then 1 else - 1)"
proof -
  have dn: "d < n" and ne: "vbit v1 (b1 + d) \<noteq> vbit v2 (b2 + d)"
    and eq: "\<And>j. d < j \<Longrightarrow> j < n \<Longrightarrow> vbit v1 (b1 + j) = vbit v2 (b2 + j)"
    using d by (auto simp: find_rev_upt_eq_Some)
  define H where "H = vval v2 (b2 + d + 1) (n - d - 1)"
  have "vval v1 (b1 + d + 1) (n - d - 1) = H"
    unfolding H_def by (rule vval_cong) (use eq [of "d + 1 + i" for i] in \<open>simp add: add.assoc\<close>)
  moreover have "vval v (b + d) (n - d) = of_bool (vbit v (b + d)) + 2 * vval v (b + d + 1) (n - d - 1)"
    for v :: "'a word list" and b
  proof -
    have "vval v (b + d) 1 = of_bool (vbit v (b + d))" by (simp add: vval_def bval_Suc)
    moreover have "1 + (n - d - 1) = n - d" using dn by simp
    ultimately show ?thesis using vval_add [of v "b + d" 1 "n - d - 1"] by (simp only: power_one_right)
  qed
  ultimately have h: "vval v1 (b1 + d) (n - d) = of_bool (vbit v1 (b1 + d)) + 2 * H"
    "vval v2 (b2 + d) (n - d) = of_bool (vbit v2 (b2 + d)) + 2 * H" by (simp_all add: H_def)
  have split: "vval v b n = vval v b d + 2 ^ d * vval v (b + d) (n - d)" for v :: "'a word list" and b
    using vval_add [of v b d "n - d"] dn by simp
  have "cmp (vval v1 b1 n) (vval v2 b2 n) =
      cmp (of_bool (vbit v1 (b1 + d)) + 2 * H) (of_bool (vbit v2 (b2 + d)) + 2 * H)"
    unfolding split [of v1 b1] split [of v2 b2] h by (rule cmp_high_digit) (use ne in auto)
  with ne show ?thesis by (auto simp: cmp_def)
qed

lemma length_filter_full: "length (filter h [0..<n]) = n \<longleftrightarrow> (\<forall>i<n. h i)"
proof -
  have "length (filter h [0..<n]) = n \<longleftrightarrow> filter h [0..<n] = [0..<n]"
    by (metis length_filter_less nat_neq_iff filter_id_conv diff_zero length_upt)
  then show ?thesis by (auto simp: filter_id_conv)
qed

lemma vval_all_set: "(\<forall>i<n. vbit ws (b + i)) \<longleftrightarrow> vval ws b n = 2 ^ n - 1"
  using bval_eq_iff [of "\<lambda>i. vbit ws (b + i)" n "\<lambda>_. True"] by (simp add: vval_def bval_True)

lemma compareSigned_same_size:
  fixes vec1 vec2 :: "'w::len word list"
  assumes v: "b1 + n \<le> length vec1 * LENGTH('w)" "b2 + n \<le> length vec2 * LENGTH('w)" and n: "0 < n"
  shows "compareSigned vec1 (range_of b1 n) vec2 (range_of b2 n) = Some (cmp (sval vec1 b1 n) (sval vec2 b2 n))"
proof -
  define neg1 where "neg1 = vbit vec1 (b1 + n - 1)"
  define neg2 where "neg2 = vbit vec2 (b2 + n - 1)"
  note s = sval_bounds(3-5) [OF n, of vec1 b1, folded neg1_def] sval_bounds(3-5) [OF n, of vec2 b2, folded neg2_def]
  have g: "get vec1 (b1 + n - 1) = Some neg1" "get vec2 (b2 + n - 1) = Some neg2"
    unfolding neg1_def neg2_def by (rule get_eq; use v n in linarith)+
  have diff: "(case find (\<lambda>i. vbit vec1 (b1 + i) \<noteq> vbit vec2 (b2 + i)) (rev [0..<n]) of
      Some d \<Rightarrow> do { g \<leftarrow> get vec1 (b1 + d); Some (if g then 1 else - 1) } | None \<Rightarrow> Some 0)
      = Some (cmp (vval vec1 b1 n) (vval vec2 b2 n))"
  proof (cases "find (\<lambda>i. vbit vec1 (b1 + i) \<noteq> vbit vec2 (b2 + i)) (rev [0..<n])")
    case None
    then have "vval vec1 b1 n = vval vec2 b2 n" by (simp add: find_rev_upt_eq_None vval_eq_iff)
    with None show ?thesis by simp
  next
    case (Some d)
    then have "b1 + d < length vec1 * LENGTH('w)" using v(1) by (auto simp: find_rev_upt_eq_Some)
    with Some show ?thesis by (simp add: most_significant_difference_cmp [OF Some])
  qed
  have "compareSigned vec1 (range_of b1 n) vec2 (range_of b2 n) =
      (if neg1 = neg2 then Some (cmp (vval vec1 b1 n) (vval vec2 b2 n)) else if neg1 then Some (- 1) else Some 1)"
    using n v g diff by (subst compareSigned.simps) (auto cong: option.case_cong)
  moreover have "cmp (vval vec1 b1 n) (vval vec2 b2 n) = cmp (sval vec1 b1 n) (sval vec2 b2 n)" if "neg1 = neg2"
    using that s by (cases neg1) (auto simp: cmp_def)
  moreover have "cmp (sval vec1 b1 n) (sval vec2 b2 n) = (if neg1 then - 1 else 1)" if "neg1 \<noteq> neg2"
    using that s(1,4) by (cases neg1) (auto simp: cmp_def)
  ultimately show ?thesis by auto
qed

text \<open>A negative number keeps its value when it is cut to a width that holds only copies of its sign above.\<close>

lemma sval_cut:
  assumes n: "0 < n1" "n1 < n2" and neg: "vbit ws (b + n2 - 1)"
  shows "if (\<forall>i<n2 - n1. vbit ws (b + n1 + i)) \<and> vbit ws (b + n1 - 1)
         then sval ws b n2 = sval ws b n1 else sval ws b n2 < - (2 ^ (n1 - 1))"
proof -
  define L where "L = int (vval ws b n1)"
  define H where "H = int (vval ws (b + n1) (n2 - n1))"
  define K where "K = (2 :: int) ^ n1"
  define M where "M = (2 :: int) ^ (n2 - n1)"
  have "vval ws b n2 = vval ws b n1 + 2 ^ n1 * vval ws (b + n1) (n2 - n1)"
    using vval_add [of ws b n1 "n2 - n1"] n by simp
  then have s2: "sval ws b n2 = L + K * H - K * M"
    using sval_bounds(5) [of n2 ws b] n neg by (simp add: L_def H_def K_def M_def power_add [symmetric])
  have "vval ws b n1 < 2 ^ n1" "vval ws (b + n1) (n2 - n1) < 2 ^ (n2 - n1)" by simp_all
  then have "int (vval ws b n1) < int (2 ^ n1)" "int (vval ws (b + n1) (n2 - n1)) < int (2 ^ (n2 - n1))"
    by (simp_all only: of_nat_less_iff)
  then have LK: "L < K" "0 \<le> L" "H < M" "0 < K" by (simp_all add: L_def K_def H_def M_def)
  have K2: "K = 2 * 2 ^ (n1 - 1)" using n(1) by (cases n1) (simp_all add: K_def)
  have all: "(\<forall>i<n2 - n1. vbit ws (b + n1 + i)) \<longleftrightarrow> H = M - 1"
  proof -
    have "M - 1 = int (2 ^ (n2 - n1) - 1)" by (simp add: M_def of_nat_diff)
    then show ?thesis by (simp only: vval_all_set H_def of_nat_eq_iff)
  qed
  show ?thesis
  proof (cases "H = M - 1")
    case True
    then have "sval ws b n2 = L - K" by (simp add: s2 right_diff_distrib)
    moreover have "L < 2 ^ (n1 - 1)" if "\<not> vbit ws (b + n1 - 1)"
      using that sval_bounds(2,4) [OF n(1), of ws b] by (simp add: L_def)
    ultimately show ?thesis
      using all True sval_bounds(5) [OF n(1), of ws b] K2 by (auto simp: L_def K_def)
  next
    case False
    with LK(3) have "H \<le> M - 2" by simp
    then have "K * H \<le> K * (M - 2)" using LK(4) by (intro mult_left_mono) auto
    then have "sval ws b n2 \<le> L - 2 * K" using s2 by (simp add: algebra_simps)
    with LK have "sval ws b n2 < - K" by simp
    moreover have "- K \<le> - (2 ^ (n1 - 1))" using K2 by simp
    ultimately show ?thesis using all False by auto
  qed
qed

lemma compareSigned_shorter:
  fixes vec1 vec2 :: "'w::len word list"
  assumes v: "b1 + n1 \<le> length vec1 * LENGTH('w)" "b2 + n2 \<le> length vec2 * LENGTH('w)" and n: "0 < n1" "n1 < n2"
  shows "compareSigned vec1 (range_of b1 n1) vec2 (range_of b2 n2) = Some (cmp (sval vec1 b1 n1) (sval vec2 b2 n2))"
proof -
  have n2: "0 < n2" using n by simp
  define neg1 where "neg1 = vbit vec1 (b1 + n1 - 1)"
  define neg2 where "neg2 = vbit vec2 (b2 + n2 - 1)"
  define cut where "cut \<longleftrightarrow> (\<forall>i<n2 - n1. vbit vec2 (b2 + n1 + i)) \<and> vbit vec2 (b2 + n1 - 1)"
  note s = sval_bounds(3-5) [OF n(1), of vec1 b1, folded neg1_def] sval_bounds(3-5) [OF n2, of vec2 b2, folded neg2_def]
  have g: "get vec1 (b1 + n1 - 1) = Some neg1" "get vec2 (b2 + n2 - 1) = Some neg2"
    "get vec2 (b2 + n1 - 1) = Some (vbit vec2 (b2 + n1 - 1))"
    unfolding neg1_def neg2_def by (rule get_eq; use v n n2 in linarith)+
  have h: "hull (b2 + n1) (b2 + n2 - 1) = range_of (b2 + n1) (n2 - n1)"
    using n by (subst hull_nat) (auto simp: Suc_diff_Suc)
  have low: "compareSigned vec1 (range_of b1 n1) vec2 (range_of b2 n1) = Some (cmp (sval vec1 b1 n1) (sval vec2 b2 n1))"
    using compareSigned_same_size [of b1 n1 vec1 b2 vec2] v n by simp
  have "compareSigned vec1 (range_of b1 n1) vec2 (range_of b2 n2) =
      (if \<not> neg1 \<and> \<not> neg2 then Some (cmp (vval vec1 b1 n1) (vval vec2 b2 n2))
       else if neg1 \<and> neg2 then (if cut then Some (cmp (sval vec1 b1 n1) (sval vec2 b2 n1)) else Some 1)
       else if neg1 then Some (- 1) else Some 1)"
    using n v g low by (subst compareSigned.simps)
      (auto simp: h [unfolded One_nat_def] length_filter_full cut_def simp del: hull_nat)
  moreover have "cmp (vval vec1 b1 n1) (vval vec2 b2 n2) = cmp (sval vec1 b1 n1) (sval vec2 b2 n2)" if "\<not> neg1" "\<not> neg2"
    using that s by simp
  moreover have "cmp (sval vec1 b1 n1) (sval vec2 b2 n2) = (if neg1 then - 1 else 1)" if "neg1 \<noteq> neg2"
    using that s(1,4) by (cases neg1) (auto simp: cmp_def)
  moreover have "if cut then sval vec2 b2 n2 = sval vec2 b2 n1 else cmp (sval vec1 b1 n1) (sval vec2 b2 n2) = 1" if neg2
    using sval_cut [OF n, of vec2 b2] that sval_bounds(1) [OF n(1), of vec1 b1]
    by (auto simp: cut_def neg2_def cmp_def split: if_splits)
  ultimately show ?thesis by (auto split: if_splits)
qed

lemma compareSigned_eq [simp]:
  fixes vec1 vec2 :: "'w::len word list"
  assumes v: "b1 + n1 \<le> length vec1 * LENGTH('w)" "b2 + n2 \<le> length vec2 * LENGTH('w)"
  shows "compareSigned vec1 (range_of b1 n1) vec2 (range_of b2 n2) = Some (cmp (sval vec1 b1 n1) (sval vec2 b2 n2))"
proof -
  have top: "(case find (\<lambda>i. vbit ws (b + i)) (rev [0..<n]) of Some m \<Rightarrow> if b + m = b + n - Suc 0 then x else - x | None \<Rightarrow> 0)
      = (- x) * cmp (sval ws b n) 0" if n: "0 < n" for ws :: "'w word list" and b n and x :: int
  proof (cases "find (\<lambda>i. vbit ws (b + i)) (rev [0..<n])")
    case None
    then have z: "\<And>i. i < n \<Longrightarrow> \<not> vbit ws (b + i)" by (simp add: find_rev_upt_eq_None)
    then have "vval ws b n = 0" "\<not> vbit ws (b + n - 1)" using n z [of "n - 1"] by (simp_all add: vval_eq_0_iff)
    with None n show ?thesis by (simp add: sval_def)
  next
    case (Some m)
    then have m: "m < n" "vbit ws (b + m)" "\<And>j. j < n \<Longrightarrow> m < j \<Longrightarrow> \<not> vbit ws (b + j)"
      by (auto simp: find_rev_upt_eq_Some)
    then have "vval ws b n \<noteq> 0" by (auto simp: vval_eq_0_iff)
    moreover have "vbit ws (b + n - 1) \<longleftrightarrow> b + m = b + n - Suc 0"
      using m(1,2) m(3) [of "n - 1"] n by (cases "m = n - 1") auto
    ultimately show ?thesis
      using Some sval_bounds(3,4) [OF n, of ws b] by (auto simp: cmp_def)
  qed
  consider (e) "n1 = 0" "n2 = 0" | (e1) "n1 = 0" "0 < n2" | (e2) "0 < n1" "n2 = 0" | "0 < n1" "n1 = n2"
    | "0 < n1" "n1 < n2" | (greater) "0 < n2" "n2 < n1" by linarith
  then show ?thesis
  proof cases
    case e1
    then show ?thesis
      using v top [where n = n2 and ws = vec2 and b = b2 and x = 1] cmp_commute [of 0 "sval vec2 b2 n2"]
      by (subst compareSigned.simps) (simp add: option.case_eq_if split: if_splits cong: if_cong)
  next
    case e2
    then show ?thesis
      using v top [where n = n1 and ws = vec1 and b = b1 and x = "- 1"]
      by (subst compareSigned.simps) (simp add: option.case_eq_if split: if_splits cong: if_cong)
  next
    case greater
    then have "compareSigned vec2 (range_of b2 n2) vec1 (range_of b1 n1) = Some (cmp (sval vec2 b2 n2) (sval vec1 b1 n1))"
      using compareSigned_shorter v by blast
    then show ?thesis
      using greater cmp_commute [of "sval vec2 b2 n2"] by (subst compareSigned.simps) simp
  next
    case e
    then show ?thesis by (simp add: compareSigned.simps)
  qed (use v compareSigned_same_size compareSigned_shorter in auto)
qed

section \<open>Sign copies and arithmetic shifts\<close>

lemma sval_mod: "sval ws b n mod 2 ^ n = int (vval ws b n)"
proof -
  have "vval ws b n < 2 ^ n" by simp
  then have "int (vval ws b n) < int (2 ^ n)" by (simp only: of_nat_less_iff)
  then have "int (vval ws b n) mod 2 ^ n = int (vval ws b n)" by simp
  then show ?thesis by (simp add: sval_def)
qed

text \<open>Sign extension adds copies of the sign bit on top, which keeps the signed number.\<close>

lemma vval_sign_copies:
  assumes "0 < n1" "n1 \<le> n2"
  shows "int (bval (\<lambda>i. vbit ws (b + (if i < n1 then i else n1 - 1))) n2) =
    sval ws b n1 + (if vbit ws (b + n1 - 1) then 2 ^ n2 else 0)"
proof -
  let ?f = "\<lambda>i. vbit ws (b + (if i < n1 then i else n1 - 1))"
  have "bval ?f n2 = bval ?f n1 + 2 ^ n1 * bval (\<lambda>i. ?f (n1 + i)) (n2 - n1)"
    using bval_add [of ?f n1 "n2 - n1"] assms by simp
  also have "bval ?f n1 = vval ws b n1"
    unfolding vval_def by (rule bval_cong) simp
  also have "bval (\<lambda>i. ?f (n1 + i)) (n2 - n1) = (if vbit ws (b + n1 - 1) then 2 ^ (n2 - n1) - 1 else 0)"
    using assms by (simp add: bval_True)
  finally have "int (bval ?f n2) = int (vval ws b n1) + 2 ^ n1 * (if vbit ws (b + n1 - 1) then 2 ^ (n2 - n1) - 1 else 0)"
    by (simp add: of_nat_diff)
  moreover have "(2 :: int) ^ n1 * (2 ^ (n2 - n1) - 1) = 2 ^ n2 - 2 ^ n1"
    using assms by (simp add: right_diff_distrib power_add [symmetric])
  ultimately show ?thesis using assms sval_bounds(4,5) [of n1 ws b] by auto
qed

lemma arithmetic_shift_value:
  assumes n: "0 < n"
  shows "int (bval (\<lambda>i. vbit ws (b + (if i + k < n then i + k else n - 1))) n) = (sval ws b n div 2 ^ k) mod 2 ^ n"
proof -
  define x where "x = sval ws b n"
  have x_bit: "bit x i = vbit ws (b + (if i < n then i else n - 1))" for i
  proof (cases "i < n")
    case True
    have "bit (int (vval ws b n)) i = bit (take_bit n x) i"
      by (simp add: x_def take_bit_eq_mod sval_mod)
    with True show ?thesis by (simp add: bit_simps bits_simps)
  next
    case False
    have "- (2 ^ i) \<le> x" "x < 2 ^ i"
    proof -
      have "(2 :: int) ^ (n - 1) \<le> 2 ^ i" using False by (intro power_increasing) auto
      then show "- (2 ^ i) \<le> x" "x < 2 ^ i" using sval_bounds(1,2) [OF n, of ws b] unfolding x_def by linarith+
    qed
    then have "x div 2 ^ i = (if x < 0 then - 1 else 0)"
      using int_div_pos_eq [of x "2 ^ i" "- 1" "x + 2 ^ i"] by (auto simp: div_pos_pos_trivial)
    then have "bit x i \<longleftrightarrow> x < 0" by (simp add: bit_iff_odd)
    with False n sval_bounds(3) [OF n, of ws b] show ?thesis by (simp add: x_def)
  qed
  have "int (bval (\<lambda>i. vbit ws (b + (if i + k < n then i + k else n - 1))) n) = take_bit n (drop_bit k x)"
    by (rule bit_eqI) (auto simp: bit_simps bits_simps x_bit add.commute)
  then show ?thesis by (simp add: x_def take_bit_eq_mod drop_bit_eq_div)
qed

end
