(* ===== verification/BVS_Spec.thy ===== *)
theory BVS_Spec
  imports BVS_Numeric
begin

text \<open>
  What the bit-range operations of \<^verbatim>\<open>src/Sawyer/BitVectorSupport.h\<close> promise, stated over the
  bits and the numbers of the ranges. The hypotheses are the documented ones: the ranges lie
  inside the arrays and have equal sizes where the operation asks for it. The source and the
  destination may be the same array and may overlap.
\<close>

section \<open>Properties\<close>

text \<open>
  C12. \<^verbatim>\<open>copy\<close> never fails on ranges inside the arrays, for every alignment of the two ranges
  and also when source and destination are the same array: the destination range receives the
  bits that the source range had before the call, and every other bit of the destination keeps
  its value.
\<close>

theorem copy_exact:
  fixes src dst :: "'w::len word list"
  assumes "sb + n \<le> length src * LENGTH('w)" "db + n \<le> length dst * LENGTH('w)"
  shows "\<exists>dst'. copy src (range_of sb n) dst (range_of db n) = Some dst' \<and> length dst' = length dst \<and>
    (\<forall>q. vbit dst' q = (if db \<le> q \<and> q < db + n then vbit src (sb + (q - db)) else vbit dst q))"
  using assms by (simp add: vbit_vupd)

theorem copy_exact_witness:
  "let ws = [0xAB, 0xCD :: 8 word] in
   2 + 9 \<le> length ws * LENGTH(8) \<and> 5 + 9 \<le> length ws * LENGTH(8) \<and>
   (\<exists>dst'. copy ws (range_of 2 9) ws (range_of 5 9) = Some dst' \<and> length dst' = 2 \<and> vbit dst' 5 = vbit ws 2)"
proof -
  have l: "2 + 9 \<le> length [0xAB, 0xCD :: 8 word] * LENGTH(8)" "5 + 9 \<le> length [0xAB, 0xCD :: 8 word] * LENGTH(8)"
    by simp_all
  show ?thesis using copy_exact [OF l] l by (auto simp: Let_def)
qed

text \<open>
  C13. \<^verbatim>\<open>add\<close> computes the exact sum: the new value of the second range and the carry out
  together are the sum of the two ranges and the carry in, and no bit outside the second range
  changes.
\<close>

theorem add_exact:
  fixes vec1 vec2 :: "'w::len word list"
  assumes "b1 + n \<le> length vec1 * LENGTH('w)" "b2 + n \<le> length vec2 * LENGTH('w)"
  shows "\<exists>carry vec2'. add vec1 (range_of b1 n) vec2 (range_of b2 n) cin = Some (carry, vec2') \<and>
    vval vec2' b2 n + of_bool carry * 2 ^ n = of_bool cin + vval vec1 b1 n + vval vec2 b2 n \<and>
    length vec2' = length vec2 \<and> (\<forall>q. q < b2 \<or> b2 + n \<le> q \<longrightarrow> vbit vec2' q = vbit vec2 q)"
  using add_value [OF assms, of cin] by blast

theorem add_exact_witness:
  "let v = [0xF0, 0xFF :: 8 word] in
   4 + 12 \<le> length v * LENGTH(8) \<and> 0 + 12 \<le> length v * LENGTH(8) \<and>
   (\<exists>carry vec2'. add v (range_of 4 12) v (range_of 0 12) True = Some (carry, vec2') \<and>
      vval vec2' 0 12 + of_bool carry * 2 ^ 12 = of_bool True + vval v 4 12 + vval v 0 12)"
proof -
  have l: "4 + 12 \<le> length [0xF0, 0xFF :: 8 word] * LENGTH(8)" "0 + 12 \<le> length [0xF0, 0xFF :: 8 word] * LENGTH(8)"
    by simp_all
  show ?thesis using add_exact [OF l, of True] l by (auto simp: Let_def)
qed

text \<open>
  \<^verbatim>\<open>subtract\<close> leaves the difference of the second and the first range modulo two to the
  width in the second range, and returns true exactly when no borrow was needed, that is when
  the first value is at most the second.
\<close>

theorem subtract_exact:
  fixes vec1 vec2 :: "'w::len word list"
  assumes "b1 + n \<le> length vec1 * LENGTH('w)" "b2 + n \<le> length vec2 * LENGTH('w)"
  shows "\<exists>noBorrow vec2'. subtract vec1 (range_of b1 n) vec2 (range_of b2 n) = Some (noBorrow, vec2') \<and>
    int (vval vec2' b2 n) = (int (vval vec2 b2 n) - int (vval vec1 b1 n)) mod 2 ^ n \<and>
    (noBorrow \<longleftrightarrow> vval vec1 b1 n \<le> vval vec2 b2 n)"
proof -
  have "vval vec1 b1 n < 2 ^ n" by simp
  then have "vval vec1 b1 n \<le> vval vec2 b2 n + 2 ^ n" by linarith
  then have "int (vval vec2 b2 n + 2 ^ n - vval vec1 b1 n) = int (vval vec2 b2 n) - int (vval vec1 b1 n) + 2 ^ n"
    by (simp add: of_nat_diff)
  then have "int ((vval vec2 b2 n + 2 ^ n - vval vec1 b1 n) mod 2 ^ n) =
      (int (vval vec2 b2 n) - int (vval vec1 b1 n)) mod 2 ^ n"
    by (simp add: of_nat_mod)
  then show ?thesis using assms by (simp del: vval_vupd add: vval_vupd_bit)
qed

theorem subtract_exact_witness:
  "\<exists>noBorrow vec2'. subtract [5 :: 8 word] (range_of 0 8) [3] (range_of 0 8) = Some (noBorrow, vec2') \<and>
     int (vval vec2' 0 8) = (int (vval [3 :: 8 word] 0 8) - int (vval [5 :: 8 word] 0 8)) mod 2 ^ 8 \<and>
     (noBorrow \<longleftrightarrow> vval [5 :: 8 word] 0 8 \<le> vval [3 :: 8 word] 0 8)"
  by (rule subtract_exact) simp_all

text \<open>
  \<^verbatim>\<open>decrement\<close> undoes \<^verbatim>\<open>increment\<close>: the array is restored bit for bit, and the carry of the
  increment is the borrow of the decrement (both are set exactly when the range was all ones).
\<close>

theorem increment_decrement:
  fixes ws :: "'w::len word list"
  assumes "b + n \<le> length ws * LENGTH('w)"
  shows "\<exists>carry ws'. increment ws (range_of b n) = Some (carry, ws') \<and>
    decrement ws' (range_of b n) = Some (carry, ws) \<and> (carry \<longleftrightarrow> vval ws b n = 2 ^ n - 1)"
proof -
  define v where "v = vval ws b n"
  define ws' where "ws' = vupd ws b n (bit (v + 1))"
  have v: "v < 2 ^ n" by (simp add: v_def)
  have v': "vval ws' b n = (v + 1) mod 2 ^ n" using assms by (simp add: ws'_def del: vval_vupd)
  have zero: "(v + 1) mod 2 ^ n = 0 \<longleftrightarrow> v = 2 ^ n - 1"
    using v by (auto simp: mod_if split: if_splits)
  have "vupd ws' b n (bit ((v + 1) mod 2 ^ n + (2 ^ n - 1))) = ws"
  proof -
    have "(v + 1) + (2 ^ n - 1) = v + 2 ^ n"
      using one_le_power [of "2 :: nat" n] by linarith
    then have "((v + 1) mod 2 ^ n + (2 ^ n - 1)) mod 2 ^ n = (v + 2 ^ n) mod 2 ^ n"
      using mod_add_left_eq [of "v + 1" "2 ^ n" "2 ^ n - 1"] by simp
    then have "vupd ws' b n (bit ((v + 1) mod 2 ^ n + (2 ^ n - 1))) = vupd ws' b n (bit v)"
      by (intro vupd_bit_mod) simp
    also have "\<dots> = ws"
      by (rule vec_eqI) (use assms in \<open>auto simp: ws'_def v_def vbit_vupd bits_simps\<close>)
    finally show ?thesis .
  qed
  then show ?thesis
    using assms zero v' by (simp add: v_def [symmetric] ws'_def [symmetric]) (simp add: ws'_def)
qed

theorem increment_decrement_witness:
  "\<exists>carry ws'. increment [0xFF, 0x0F :: 8 word] (range_of 2 9) = Some (carry, ws') \<and>
    decrement ws' (range_of 2 9) = Some (carry, [0xFF, 0x0F]) \<and> (carry \<longleftrightarrow> vval [0xFF, 0x0F :: 8 word] 2 9 = 2 ^ 9 - 1)"
  by (rule increment_decrement) simp

text \<open>
  Shifts are arithmetic on the number in the range, for every shift count: \<^verbatim>\<open>shiftLeft\<close>
  multiplies by a power of two modulo the width, \<^verbatim>\<open>shiftRight\<close> divides the unsigned number, and
  \<^verbatim>\<open>shiftRightArithmetic\<close> divides the two's complement number, rounding down.
\<close>

theorem shifts_are_arithmetic:
  fixes ws :: "'w::len word list"
  assumes "b + n \<le> length ws * LENGTH('w)" "0 < n"
  shows "(\<exists>ws'. shiftLeft ws (range_of b n) k False = Some ws' \<and> vval ws' b n = vval ws b n * 2 ^ k mod 2 ^ n) \<and>
    (\<exists>ws'. shiftRight ws (range_of b n) k False = Some ws' \<and> vval ws' b n = vval ws b n div 2 ^ k) \<and>
    (\<exists>ws'. shiftRightArithmetic ws (range_of b n) k = Some ws' \<and>
       int (vval ws' b n) = (sval ws b n div 2 ^ k) mod 2 ^ n)"
  using assms vval_shiftLeft [of k ws b n] vval_shiftRight [of k n ws b] arithmetic_shift_value [OF assms(2), of ws b k]
  by simp

theorem shifts_are_arithmetic_witness:
  "let ws = [0x0F, 0xF1 :: 8 word] in
   (\<exists>ws'. shiftLeft ws (range_of 3 11) 2 False = Some ws' \<and> vval ws' 3 11 = vval ws 3 11 * 2 ^ 2 mod 2 ^ 11) \<and>
   (\<exists>ws'. shiftRight ws (range_of 3 11) 2 False = Some ws' \<and> vval ws' 3 11 = vval ws 3 11 div 2 ^ 2) \<and>
   (\<exists>ws'. shiftRightArithmetic ws (range_of 3 11) 2 = Some ws' \<and>
      int (vval ws' 3 11) = (sval ws 3 11 div 2 ^ 2) mod 2 ^ 11)"
  unfolding Let_def by (rule shifts_are_arithmetic) simp_all

text \<open>
  \<^verbatim>\<open>rotateLeft\<close> undoes \<^verbatim>\<open>rotateRight\<close> by the same count, for counts larger than the range
  too; the array is restored bit for bit.
\<close>

theorem rotate_inverse:
  fixes ws :: "'w::len word list"
  assumes "b + n \<le> length ws * LENGTH('w)"
  shows "\<exists>ws'. rotateRight ws (range_of b n) k = Some ws' \<and> rotateLeft ws' (range_of b n) k = Some ws"
proof -
  define ws' where "ws' = vupd ws b n (\<lambda>i. vbit ws (b + (i + k) mod n))"
  have "vupd ws' b n (\<lambda>i. vbit ws' (b + (i + (n - k mod n)) mod n)) = ws"
  proof (rule vec_eqI)
    fix q
    show "vbit (vupd ws' b n (\<lambda>i. vbit ws' (b + (i + (n - k mod n)) mod n))) q = vbit ws q"
    proof (cases "b \<le> q \<and> q < b + n")
      case True
      define i where "i = q - b"
      have i: "i < n" "q = b + i" using True by (auto simp: i_def)
      have "((i + (n - k mod n)) mod n + k) mod n = (i + (n - k mod n) + k mod n) mod n"
        by (simp add: mod_simps)
      also have "i + (n - k mod n) + k mod n = i + n"
        using i(1) mod_less_divisor [of n k] by linarith
      also have "(i + n) mod n = i" using i(1) by simp
      finally show ?thesis
        using assms i by (simp add: vbit_vupd ws'_def)
    next
      case False
      with assms show ?thesis by (auto simp: vbit_vupd ws'_def)
    qed
  qed (simp add: ws'_def)
  moreover have "b + n \<le> length ws' * LENGTH('w)" using assms by (simp add: ws'_def)
  ultimately show ?thesis
    using assms by (intro exI [of _ ws']) (simp add: ws'_def [symmetric])
qed

theorem rotate_inverse_witness:
  "\<exists>ws'. rotateRight [0x2B, 0x91 :: 8 word] (range_of 1 13) 30 = Some ws' \<and>
     rotateLeft ws' (range_of 1 13) 30 = Some [0x2B, 0x91]"
  by (rule rotate_inverse) simp

text \<open>
  \<^verbatim>\<open>mostSignificantSetBit\<close> finds the binary logarithm of the number in the range and
  \<^verbatim>\<open>leastSignificantSetBit\<close> the exponent of the greatest power of two that divides it; both
  return the absolute bit index, and nothing exactly when the number is zero.
\<close>

theorem significant_bits:
  fixes ws :: "'w::len word list"
  assumes "b + n \<le> length ws * LENGTH('w)"
  shows "if vval ws b n = 0
    then mostSignificantSetBit ws (range_of b n) = Some None \<and> leastSignificantSetBit ws (range_of b n) = Some None
    else \<exists>i j. mostSignificantSetBit ws (range_of b n) = Some (Some (b + i)) \<and>
        2 ^ i \<le> vval ws b n \<and> vval ws b n < 2 ^ (i + 1) \<and>
      leastSignificantSetBit ws (range_of b n) = Some (Some (b + j)) \<and>
        2 ^ j dvd vval ws b n \<and> \<not> 2 ^ (j + 1) dvd vval ws b n"
proof (cases "vval ws b n = 0")
  case True
  then have "\<And>i. i < n \<Longrightarrow> \<not> vbit ws (b + i)" by (simp add: vval_eq_0_iff)
  with assms True show ?thesis by (simp add: find_none_guard)
next
  case False
  define v where "v = vval ws b n"
  obtain i where i: "find (\<lambda>i. vbit ws (b + i)) (rev [0..<n]) = Some i"
    using False by (cases "find (\<lambda>i. vbit ws (b + i)) (rev [0..<n])") (auto simp: find_rev_upt_eq_None vval_eq_0_iff)
  obtain j where j: "find (\<lambda>i. vbit ws (b + i)) [0..<n] = Some j"
    using False by (cases "find (\<lambda>i. vbit ws (b + i)) [0..<n]") (auto simp: find_upt_eq_None vval_eq_0_iff)
  have bits: "bit v k \<longleftrightarrow> k < n \<and> vbit ws (b + k)" for k by (simp add: v_def bit_vval)
  have "take_bit (i + 1) v = v"
    by (rule bit_eqI) (use i in \<open>auto simp: bit_simps bits find_rev_upt_eq_Some\<close>)
  then have "v < 2 ^ (i + 1)" by (metis take_bit_nat_less_exp)
  moreover have "2 ^ i \<le> v"
  proof (rule ccontr)
    assume "\<not> 2 ^ i \<le> v"
    then have "v div 2 ^ i = 0" by simp
    then have "\<not> bit v i" by (simp add: bit_iff_odd)
    with i show False by (simp add: bits find_rev_upt_eq_Some)
  qed
  moreover have "2 ^ j dvd v"
    unfolding dvd_eq_mod_eq_0 take_bit_eq_mod [symmetric]
    by (rule bit_eqI) (use j in \<open>auto simp: bit_simps bits find_upt_eq_Some\<close>)
  moreover have "\<not> 2 ^ (j + 1) dvd v"
  proof
    assume "2 ^ (j + 1) dvd v"
    then have "take_bit (j + 1) v = 0" by (simp add: take_bit_eq_mod)
    then have "\<not> bit v j" by (metis bit_take_bit_iff bit_0_eq bot_apply bot_bool_def less_add_one)
    with j show False by (simp add: bits find_upt_eq_Some)
  qed
  ultimately show ?thesis using False i j assms by (auto simp: v_def)
qed

theorem significant_bits_witness:
  "if vval [0x50, 0x06 :: 8 word] 3 10 = 0
   then mostSignificantSetBit [0x50, 0x06 :: 8 word] (range_of 3 10) = Some None \<and>
        leastSignificantSetBit [0x50, 0x06 :: 8 word] (range_of 3 10) = Some None
   else \<exists>i j. mostSignificantSetBit [0x50, 0x06 :: 8 word] (range_of 3 10) = Some (Some (3 + i)) \<and>
        2 ^ i \<le> vval [0x50, 0x06 :: 8 word] 3 10 \<and> vval [0x50, 0x06 :: 8 word] 3 10 < 2 ^ (i + 1) \<and>
      leastSignificantSetBit [0x50, 0x06 :: 8 word] (range_of 3 10) = Some (Some (3 + j)) \<and>
        2 ^ j dvd vval [0x50, 0x06 :: 8 word] 3 10 \<and> \<not> 2 ^ (j + 1) dvd vval [0x50, 0x06 :: 8 word] 3 10"
  by (rule significant_bits) simp

text \<open>
  C14. \<^verbatim>\<open>compare\<close> and \<^verbatim>\<open>compareSigned\<close> return the sign of the difference of the numbers in the
  two ranges, for ranges of any sizes, empty ones included: the unsigned numbers (the shorter
  range zero extended) and the two's complement numbers (the shorter range sign extended).
\<close>

theorem comparisons_exact:
  fixes vec1 vec2 :: "'w::len word list"
  assumes "b1 + n1 \<le> length vec1 * LENGTH('w)" "b2 + n2 \<le> length vec2 * LENGTH('w)"
  shows "compare vec1 (range_of b1 n1) vec2 (range_of b2 n2)
           = Some (sgn (int (vval vec1 b1 n1) - int (vval vec2 b2 n2))) \<and>
    compareSigned vec1 (range_of b1 n1) vec2 (range_of b2 n2) = Some (sgn (sval vec1 b1 n1 - sval vec2 b2 n2))"
  using assms by (simp add: cmp_def sgn_if)

theorem comparisons_exact_witness:
  "compare [0x83 :: 8 word] (range_of 0 8) [0x03] (range_of 0 3)
     = Some (sgn (int (vval [0x83 :: 8 word] 0 8) - int (vval [0x03 :: 8 word] 0 3))) \<and>
   compareSigned [0x83 :: 8 word] (range_of 0 8) [0x03] (range_of 0 3)
     = Some (sgn (sval [0x83 :: 8 word] 0 8 - sval [0x03 :: 8 word] 0 3))"
  by (rule comparisons_exact) simp_all

text \<open>
  \<^verbatim>\<open>signExtend\<close> to a range at least as wide keeps the two's complement number and returns
  its sign.
\<close>

theorem signExtend_keeps_value:
  fixes vec1 vec2 :: "'w::len word list"
  assumes "b1 + n1 \<le> length vec1 * LENGTH('w)" "b2 + n2 \<le> length vec2 * LENGTH('w)" "0 < n1" "n1 \<le> n2"
  shows "\<exists>sign vec2'. signExtend vec1 (range_of b1 n1) vec2 (range_of b2 n2) = Some (sign, vec2') \<and>
    sval vec2' b2 n2 = sval vec1 b1 n1 \<and> (sign \<longleftrightarrow> sval vec1 b1 n1 < 0)"
proof -
  define g where "g i = vbit vec1 (b1 + (if i < n1 then i else n1 - 1))" for i
  define vec2' where "vec2' = vupd vec2 b2 n2 g"
  have n2: "0 < n2" using assms(3,4) by simp
  have "signExtend vec1 (range_of b1 n1) vec2 (range_of b2 n2) = Some (vbit vec1 (b1 + n1 - 1), vec2')"
    using assms n2 by (simp add: vec2'_def g_def [abs_def])
  moreover have "vbit vec2' (b2 + n2 - 1) = vbit vec1 (b1 + n1 - 1)"
  proof -
    have q: "b2 \<le> b2 + n2 - 1" "b2 + n2 - 1 < b2 + n2" "b2 + n2 - 1 - b2 = n2 - 1" using n2 by linarith+
    have "g (n2 - 1) = vbit vec1 (b1 + n1 - 1)" using assms(3,4) by (cases "n1 = n2") (auto simp: g_def)
    then show ?thesis unfolding vec2'_def vbit_vupd [OF assms(2)] using q by simp
  qed
  moreover have "int (vval vec2' b2 n2) = sval vec1 b1 n1 + (if vbit vec1 (b1 + n1 - 1) then 2 ^ n2 else 0)"
    using vval_sign_copies [OF assms(3,4), of vec1 b1] assms(2) by (simp add: vec2'_def g_def [abs_def])
  ultimately show ?thesis
    using n2 sval_bounds(3) [OF assms(3), of vec1 b1] by (simp add: sval_def [of vec2'])
qed

theorem signExtend_keeps_value_witness:
  "\<exists>sign vec2'. signExtend [0x83 :: 8 word] (range_of 4 4) [0, 0] (range_of 3 11) = Some (sign, vec2') \<and>
     sval vec2' 3 11 = sval [0x83 :: 8 word] 4 4 \<and> (sign \<longleftrightarrow> sval [0x83 :: 8 word] 4 4 < 0)"
  by (rule signExtend_keeps_value) simp_all

text \<open>
  Storing a 64-bit integer in a range and reading it back gives its low-order bits (all of
  it when the range has 64 bits or more), whatever the alignment of the range; the fast reader
  for ranges that start at bit zero agrees with the general one.
\<close>

theorem integer_roundtrip:
  fixes ws :: "'w::len word list"
  assumes "b + n \<le> length ws * LENGTH('w)" "0 < n"
  shows "(\<exists>ws'. fromInteger ws (range_of b n) v = Some ws' \<and>
            toInteger ws' (range_of b n) = Some (take_bit (min n 64) v)) \<and>
    toInteger_small ws (min n 64) = toInteger ws (range_of 0 (min n 64))"
proof -
  have eq: "word_of_nat (bval (\<lambda>i. bit v i) (min n 64)) = take_bit (min n 64) v"
    by (rule bit_word_eqI) (auto simp: bit_simps)
  have "vval (vupd ws b n (bit v)) b (min n 64) = bval (\<lambda>i. bit v i) (min n 64)"
    unfolding vval_def by (rule bval_cong) (use assms in \<open>simp add: vbit_vupd\<close>)
  then have "\<exists>ws'. fromInteger ws (range_of b n) v = Some ws' \<and>
      toInteger ws' (range_of b n) = Some (take_bit (min n 64) v)"
    using assms eq by (simp add: toInteger_eq)
  moreover have "toInteger_small ws (min n 64) = toInteger ws (range_of 0 (min n 64))"
  proof -
    have "min n 64 - 1 < length ws * LENGTH('w)" using assms by linarith
    then have "numberOfWords TYPE('w) (min n 64) \<le> length ws"
      using assms(2) by (simp add: numberOfWords_pos Suc_le_eq less_mult_imp_div_less)
    then show ?thesis using assms by (simp add: toInteger_small_eq toInteger_eq)
  qed
  ultimately show ?thesis by blast
qed

theorem integer_roundtrip_witness:
  "(\<exists>ws'. fromInteger [0, 0, 0 :: 8 word] (range_of 3 20) 0xABCDE = Some ws' \<and>
      toInteger ws' (range_of 3 20) = Some (take_bit (min 20 64) 0xABCDE)) \<and>
   toInteger_small [0, 0, 0 :: 8 word] (min 20 64) = toInteger [0, 0, 0 :: 8 word] (range_of 0 (min 20 64))"
  by (rule integer_roundtrip) simp_all

text \<open>
  \<^verbatim>\<open>toInteger\<close> of an empty range stops at the assertion of \<^verbatim>\<open>least()\<close>, although its
  documentation says that it returns zero; the fast reader does return zero.
\<close>

theorem toInteger_empty: "toInteger ws Interval_empty = None \<and> toInteger_small ws 0 = Some 0"
  for ws :: "'w::len word list"
  by (simp add: toInteger_def toInteger_small_def least_def numberOfWords_def bitsPerWord_def or_words_def)

text \<open>
  \<^verbatim>\<open>multiply10\<close> multiplies the number in the range by ten modulo two to the width, and
  \<^verbatim>\<open>negate\<close> gives its two's complement.
\<close>

theorem multiply10_negate_values:
  fixes ws :: "'w::len word list"
  assumes "b + n \<le> length ws * LENGTH('w)"
  shows "(\<exists>ws'. multiply10 ws (range_of b n) = Some ws' \<and> vval ws' b n = 10 * vval ws b n mod 2 ^ n) \<and>
    (\<exists>ws'. negate ws (range_of b n) = Some ws' \<and> int (vval ws' b n) = (- sval ws b n) mod 2 ^ n)"
proof -
  have "vval ws b n \<le> 2 ^ n" by (rule less_imp_le) simp
  then have "int (2 ^ n - vval ws b n) = 2 ^ n - int (vval ws b n)" by (simp add: of_nat_diff)
  then have "int ((2 ^ n - vval ws b n) mod 2 ^ n) = (- int (vval ws b n)) mod 2 ^ n"
    by (simp add: of_nat_mod zmod_int)
  also have "\<dots> = (- sval ws b n) mod 2 ^ n" by (metis mod_minus_eq sval_mod)
  finally show ?thesis using assms by (simp del: vval_vupd add: vval_vupd_bit)
qed

theorem multiply10_negate_values_witness:
  "(\<exists>ws'. multiply10 [0x37, 0x12 :: 8 word] (range_of 2 11) = Some ws' \<and>
      vval ws' 2 11 = 10 * vval [0x37, 0x12 :: 8 word] 2 11 mod 2 ^ 11) \<and>
   (\<exists>ws'. negate [0x37, 0x12 :: 8 word] (range_of 2 11) = Some ws' \<and>
      int (vval ws' 2 11) = (- sval [0x37, 0x12 :: 8 word] 2 11) mod 2 ^ 11)"
  by (rule multiply10_negate_values) simp

end
