(* ===== verification/Bit_Vector.thy ===== *)
theory Bit_Vector
  imports BVS_Numeric
begin

text \<open>
  The class \<^verbatim>\<open>BitVector\<close> of \<^verbatim>\<open>src/Sawyer/BitVector.h\<close>: an array of 32-bit words with a size in
  bits. Every member that takes a range checks it against the vector (\<open>checkRange\<close>) and calls
  the free function of the same name on the words; the overload without a range works on the
  whole vector (\<open>BitVector_hull\<close>). The suffixes \<open>_range\<close>, \<open>_ranges\<close> and \<open>_same\<close> distinguish the
  overloads with one range, with a range of each operand, and with two ranges of one vector. A
  member that returns a value besides changing the vector returns the pair.

  The bits above \<^verbatim>\<open>size_\<close> in the last word have no meaning and are not kept at any value, so the
  vectors are compared by the number \<open>bv_val\<close> that their bits stand for.
\<close>

section \<open>The class\<close>

record bitvector =
  bv_words :: "32 word list"
  bv_size :: nat

definition on_words :: "bitvector \<Rightarrow> 32 word list option \<Rightarrow> bitvector option" where
  "on_words v r = map_option (\<lambda>ws. v\<lparr>bv_words := ws\<rparr>) r"

definition on_words2 :: "bitvector \<Rightarrow> ('r \<times> 32 word list) option \<Rightarrow> ('r \<times> bitvector) option" where
  "on_words2 v r = map_option (\<lambda>(x, ws). (x, v\<lparr>bv_words := ws\<rparr>)) r"

definition BitVector_empty :: bitvector where
  "BitVector_empty = \<lparr>bv_words = [], bv_size = 0\<rparr>"

definition BitVector_hull :: "bitvector \<Rightarrow> bitrange" where
  "BitVector_hull v = (if bv_size v = 0 then Interval_empty else hull 0 (bv_size v - 1))"

definition checkRange :: "bitvector \<Rightarrow> bitrange \<Rightarrow> unit option" where
  "checkRange v rng = require (contains (BitVector_hull v) rng)"

text \<open>\<^verbatim>\<open>std::vector::resize\<close>: keep a prefix, or append copies of the given element.\<close>

definition resize_words :: "'a list \<Rightarrow> nat \<Rightarrow> 'a \<Rightarrow> 'a list" where
  "resize_words ws n x = take n ws @ replicate (n - length ws) x"

definition BitVector_resize :: "bitvector \<Rightarrow> nat \<Rightarrow> bool \<Rightarrow> bitvector option" where
  "BitVector_resize v newSize newBits =
     (if newSize = 0 then Some \<lparr>bv_words = [], bv_size = 0\<rparr>
      else if newSize > bv_size v then do {
        let nwords = numberOfWords TYPE(32) newSize;
        let ws = resize_words (bv_words v) nwords 0;
        ws \<leftarrow> setValue ws (hull (bv_size v) (newSize - 1)) newBits;
        Some \<lparr>bv_words = ws, bv_size = newSize\<rparr>
      } else do {
        let nwords = numberOfWords TYPE(32) newSize;
        Some \<lparr>bv_words = resize_words (bv_words v) nwords 0, bv_size = newSize\<rparr>
      })"

definition BitVector_new :: "nat \<Rightarrow> bool \<Rightarrow> bitvector option" where
  "BitVector_new nbits newBits = BitVector_resize BitVector_empty nbits newBits"

text \<open>Assignment makes the vector an exact copy of the other.\<close>

definition BitVector_assign :: "bitvector \<Rightarrow> bitvector \<Rightarrow> bitvector" where
  "BitVector_assign v other = v\<lparr>bv_words := bv_words other, bv_size := bv_size other\<rparr>"

subsection \<open>Value access\<close>

definition BitVector_get :: "bitvector \<Rightarrow> nat \<Rightarrow> bool option" where
  "BitVector_get v idx = do { checkRange v (Interval_value idx); get (bv_words v) idx }"

definition BitVector_clear_range :: "bitvector \<Rightarrow> bitrange \<Rightarrow> bitvector option" where
  "BitVector_clear_range v rng = do { checkRange v rng; on_words v (clear (bv_words v) rng) }"

definition BitVector_clear :: "bitvector \<Rightarrow> bitvector option" where
  "BitVector_clear v = on_words v (clear (bv_words v) (BitVector_hull v))"

definition BitVector_set_range :: "bitvector \<Rightarrow> bitrange \<Rightarrow> bitvector option" where
  "BitVector_set_range v rng = do { checkRange v rng; on_words v (set_bits (bv_words v) rng) }"

definition BitVector_set :: "bitvector \<Rightarrow> bitvector option" where
  "BitVector_set v = on_words v (set_bits (bv_words v) (BitVector_hull v))"

definition BitVector_setValue_range :: "bitvector \<Rightarrow> bitrange \<Rightarrow> bool \<Rightarrow> bitvector option" where
  "BitVector_setValue_range v rng value = do { checkRange v rng; on_words v (setValue (bv_words v) rng value) }"

definition BitVector_setValue :: "bitvector \<Rightarrow> bool \<Rightarrow> bitvector option" where
  "BitVector_setValue v value = on_words v (setValue (bv_words v) (BitVector_hull v) value)"

definition BitVector_copy :: "bitvector \<Rightarrow> bitrange \<Rightarrow> bitvector \<Rightarrow> bitrange \<Rightarrow> bitvector option" where
  "BitVector_copy v to other from = do {
     checkRange v to;
     checkRange other from;
     on_words v (copy (bv_words other) from (bv_words v) to)
   }"

definition BitVector_copy_same :: "bitvector \<Rightarrow> bitrange \<Rightarrow> bitrange \<Rightarrow> bitvector option" where
  "BitVector_copy_same v to from = do {
     checkRange v to;
     checkRange v from;
     on_words v (copy (bv_words v) from (bv_words v) to)
   }"

definition BitVector_swap :: "bitvector \<Rightarrow> bitrange \<Rightarrow> bitvector \<Rightarrow> bitrange \<Rightarrow> (bitvector \<times> bitvector) option" where
  "BitVector_swap v range1 other range2 = do {
     checkRange v range1;
     checkRange other range2;
     (ws1, ws2) \<leftarrow> swap_bits (bv_words v) range1 (bv_words other) range2;
     Some (v\<lparr>bv_words := ws1\<rparr>, other\<lparr>bv_words := ws2\<rparr>)
   }"

definition BitVector_swap_same :: "bitvector \<Rightarrow> bitrange \<Rightarrow> bitrange \<Rightarrow> bitvector option" where
  "BitVector_swap_same v range1 range2 = do {
     checkRange v range1;
     checkRange v range2;
     on_words v (swap_same (bv_words v) range1 range2)
   }"

definition BitVector_equalTo_ranges :: "bitvector \<Rightarrow> bitrange \<Rightarrow> bitvector \<Rightarrow> bitrange \<Rightarrow> bool option" where
  "BitVector_equalTo_ranges v range1 other range2 = do {
     checkRange v range1;
     checkRange other range2;
     equalTo (bv_words v) range1 (bv_words other) range2
   }"

definition BitVector_equalTo_same :: "bitvector \<Rightarrow> bitrange \<Rightarrow> bitrange \<Rightarrow> bool option" where
  "BitVector_equalTo_same v range1 range2 = do {
     checkRange v range1;
     checkRange v range2;
     equalTo (bv_words v) range1 (bv_words v) range2
   }"

definition BitVector_equalTo :: "bitvector \<Rightarrow> bitvector \<Rightarrow> bool option" where
  "BitVector_equalTo v other =
     (if bv_size v \<noteq> bv_size other then Some False
      else equalTo (bv_words v) (BitVector_hull v) (bv_words other) (BitVector_hull other))"

subsection \<open>Counting and searching\<close>

definition BitVector_leastSignificantSetBit_range :: "bitvector \<Rightarrow> bitrange \<Rightarrow> nat option option" where
  "BitVector_leastSignificantSetBit_range v rng = do { checkRange v rng; leastSignificantSetBit (bv_words v) rng }"

definition BitVector_leastSignificantSetBit :: "bitvector \<Rightarrow> nat option option" where
  "BitVector_leastSignificantSetBit v = leastSignificantSetBit (bv_words v) (BitVector_hull v)"

definition BitVector_leastSignificantClearBit_range :: "bitvector \<Rightarrow> bitrange \<Rightarrow> nat option option" where
  "BitVector_leastSignificantClearBit_range v rng = do { checkRange v rng; leastSignificantClearBit (bv_words v) rng }"

definition BitVector_leastSignificantClearBit :: "bitvector \<Rightarrow> nat option option" where
  "BitVector_leastSignificantClearBit v = leastSignificantClearBit (bv_words v) (BitVector_hull v)"

definition BitVector_mostSignificantSetBit_range :: "bitvector \<Rightarrow> bitrange \<Rightarrow> nat option option" where
  "BitVector_mostSignificantSetBit_range v rng = do { checkRange v rng; mostSignificantSetBit (bv_words v) rng }"

definition BitVector_mostSignificantSetBit :: "bitvector \<Rightarrow> nat option option" where
  "BitVector_mostSignificantSetBit v = mostSignificantSetBit (bv_words v) (BitVector_hull v)"

definition BitVector_mostSignificantClearBit_range :: "bitvector \<Rightarrow> bitrange \<Rightarrow> nat option option" where
  "BitVector_mostSignificantClearBit_range v rng = do { checkRange v rng; mostSignificantClearBit (bv_words v) rng }"

definition BitVector_mostSignificantClearBit :: "bitvector \<Rightarrow> nat option option" where
  "BitVector_mostSignificantClearBit v = mostSignificantClearBit (bv_words v) (BitVector_hull v)"

definition BitVector_isAllSet_range :: "bitvector \<Rightarrow> bitrange \<Rightarrow> bool option" where
  "BitVector_isAllSet_range v rng = do { checkRange v rng; isAllSet (bv_words v) rng }"

definition BitVector_isAllSet :: "bitvector \<Rightarrow> bool option" where
  "BitVector_isAllSet v = isAllSet (bv_words v) (BitVector_hull v)"

definition BitVector_isAllClear_range :: "bitvector \<Rightarrow> bitrange \<Rightarrow> bool option" where
  "BitVector_isAllClear_range v rng = do { checkRange v rng; isAllClear (bv_words v) rng }"

definition BitVector_isAllClear :: "bitvector \<Rightarrow> bool option" where
  "BitVector_isAllClear v = isAllClear (bv_words v) (BitVector_hull v)"

definition BitVector_nSet_range :: "bitvector \<Rightarrow> bitrange \<Rightarrow> nat option" where
  "BitVector_nSet_range v rng = do { checkRange v rng; nSet (bv_words v) rng }"

definition BitVector_nSet :: "bitvector \<Rightarrow> nat option" where
  "BitVector_nSet v = nSet (bv_words v) (BitVector_hull v)"

definition BitVector_nClear_range :: "bitvector \<Rightarrow> bitrange \<Rightarrow> nat option" where
  "BitVector_nClear_range v rng = do { checkRange v rng; nClear (bv_words v) rng }"

definition BitVector_nClear :: "bitvector \<Rightarrow> nat option" where
  "BitVector_nClear v = nClear (bv_words v) (BitVector_hull v)"

definition BitVector_mostSignificantDifference_ranges :: "bitvector \<Rightarrow> bitrange \<Rightarrow> bitvector \<Rightarrow> bitrange \<Rightarrow> nat option option" where
  "BitVector_mostSignificantDifference_ranges v range1 other range2 = do {
     checkRange v range1;
     checkRange other range2;
     mostSignificantDifference (bv_words v) range1 (bv_words other) range2
   }"

definition BitVector_mostSignificantDifference_same :: "bitvector \<Rightarrow> bitrange \<Rightarrow> bitrange \<Rightarrow> nat option option" where
  "BitVector_mostSignificantDifference_same v range1 range2 = do {
     checkRange v range1;
     checkRange v range2;
     mostSignificantDifference (bv_words v) range1 (bv_words v) range2
   }"

definition BitVector_mostSignificantDifference :: "bitvector \<Rightarrow> bitvector \<Rightarrow> nat option option" where
  "BitVector_mostSignificantDifference v other = mostSignificantDifference (bv_words v) (BitVector_hull v) (bv_words other) (BitVector_hull other)"

definition BitVector_leastSignificantDifference_ranges :: "bitvector \<Rightarrow> bitrange \<Rightarrow> bitvector \<Rightarrow> bitrange \<Rightarrow> nat option option" where
  "BitVector_leastSignificantDifference_ranges v range1 other range2 = do {
     checkRange v range1;
     checkRange other range2;
     leastSignificantDifference (bv_words v) range1 (bv_words other) range2
   }"

definition BitVector_leastSignificantDifference_same :: "bitvector \<Rightarrow> bitrange \<Rightarrow> bitrange \<Rightarrow> nat option option" where
  "BitVector_leastSignificantDifference_same v range1 range2 = do {
     checkRange v range1;
     checkRange v range2;
     leastSignificantDifference (bv_words v) range1 (bv_words v) range2
   }"

definition BitVector_leastSignificantDifference :: "bitvector \<Rightarrow> bitvector \<Rightarrow> nat option option" where
  "BitVector_leastSignificantDifference v other = leastSignificantDifference (bv_words v) (BitVector_hull v) (bv_words other) (BitVector_hull other)"

subsection \<open>Shifts and rotations\<close>

definition BitVector_shiftLeft_range :: "bitvector \<Rightarrow> bitrange \<Rightarrow> nat \<Rightarrow> bool \<Rightarrow> bitvector option" where
  "BitVector_shiftLeft_range v rng nShift newBits = do { checkRange v rng; on_words v (shiftLeft (bv_words v) rng nShift newBits) }"

definition BitVector_shiftLeft :: "bitvector \<Rightarrow> nat \<Rightarrow> bool \<Rightarrow> bitvector option" where
  "BitVector_shiftLeft v nShift newBits = on_words v (shiftLeft (bv_words v) (BitVector_hull v) nShift newBits)"

definition BitVector_shiftRight_range :: "bitvector \<Rightarrow> bitrange \<Rightarrow> nat \<Rightarrow> bool \<Rightarrow> bitvector option" where
  "BitVector_shiftRight_range v rng nShift newBits = do { checkRange v rng; on_words v (shiftRight (bv_words v) rng nShift newBits) }"

definition BitVector_shiftRight :: "bitvector \<Rightarrow> nat \<Rightarrow> bool \<Rightarrow> bitvector option" where
  "BitVector_shiftRight v nShift newBits = on_words v (shiftRight (bv_words v) (BitVector_hull v) nShift newBits)"

definition BitVector_shiftRightArithmetic_range :: "bitvector \<Rightarrow> bitrange \<Rightarrow> nat \<Rightarrow> bitvector option" where
  "BitVector_shiftRightArithmetic_range v rng nShift = do { checkRange v rng; on_words v (shiftRightArithmetic (bv_words v) rng nShift) }"

definition BitVector_shiftRightArithmetic :: "bitvector \<Rightarrow> nat \<Rightarrow> bitvector option" where
  "BitVector_shiftRightArithmetic v nShift = on_words v (shiftRightArithmetic (bv_words v) (BitVector_hull v) nShift)"

definition BitVector_rotateRight_range :: "bitvector \<Rightarrow> bitrange \<Rightarrow> nat \<Rightarrow> bitvector option" where
  "BitVector_rotateRight_range v rng nShift = do { checkRange v rng; on_words v (rotateRight (bv_words v) rng nShift) }"

definition BitVector_rotateRight :: "bitvector \<Rightarrow> nat \<Rightarrow> bitvector option" where
  "BitVector_rotateRight v nShift = on_words v (rotateRight (bv_words v) (BitVector_hull v) nShift)"

definition BitVector_rotateLeft_range :: "bitvector \<Rightarrow> bitrange \<Rightarrow> nat \<Rightarrow> bitvector option" where
  "BitVector_rotateLeft_range v rng nShift = do { checkRange v rng; on_words v (rotateLeft (bv_words v) rng nShift) }"

definition BitVector_rotateLeft :: "bitvector \<Rightarrow> nat \<Rightarrow> bitvector option" where
  "BitVector_rotateLeft v nShift = on_words v (rotateLeft (bv_words v) (BitVector_hull v) nShift)"

subsection \<open>Arithmetic\<close>

definition BitVector_negate_range :: "bitvector \<Rightarrow> bitrange \<Rightarrow> bitvector option" where
  "BitVector_negate_range v rng = do { checkRange v rng; on_words v (negate (bv_words v) rng) }"

definition BitVector_negate :: "bitvector \<Rightarrow> bitvector option" where
  "BitVector_negate v = on_words v (negate (bv_words v) (BitVector_hull v))"

definition BitVector_increment_range :: "bitvector \<Rightarrow> bitrange \<Rightarrow> (bool \<times> bitvector) option" where
  "BitVector_increment_range v rng = do { checkRange v rng; on_words2 v (increment (bv_words v) rng) }"

definition BitVector_increment :: "bitvector \<Rightarrow> (bool \<times> bitvector) option" where
  "BitVector_increment v = on_words2 v (increment (bv_words v) (BitVector_hull v))"

definition BitVector_decrement_range :: "bitvector \<Rightarrow> bitrange \<Rightarrow> (bool \<times> bitvector) option" where
  "BitVector_decrement_range v rng = do { checkRange v rng; on_words2 v (decrement (bv_words v) rng) }"

definition BitVector_decrement :: "bitvector \<Rightarrow> (bool \<times> bitvector) option" where
  "BitVector_decrement v = on_words2 v (decrement (bv_words v) (BitVector_hull v))"

definition BitVector_add_ranges :: "bitvector \<Rightarrow> bitrange \<Rightarrow> bitvector \<Rightarrow> bitrange \<Rightarrow> (bool \<times> bitvector) option" where
  "BitVector_add_ranges v range1 other range2 = do {
     checkRange v range1;
     checkRange other range2;
     on_words2 v (add (bv_words other) range2 (bv_words v) range1 False)
   }"

definition BitVector_add_same :: "bitvector \<Rightarrow> bitrange \<Rightarrow> bitrange \<Rightarrow> (bool \<times> bitvector) option" where
  "BitVector_add_same v range1 range2 = do {
     checkRange v range1;
     checkRange v range2;
     on_words2 v (add (bv_words v) range2 (bv_words v) range1 False)
   }"

definition BitVector_add :: "bitvector \<Rightarrow> bitvector \<Rightarrow> (bool \<times> bitvector) option" where
  "BitVector_add v other =
     on_words2 v (add (bv_words other) (BitVector_hull other) (bv_words v) (BitVector_hull v) False)"

definition BitVector_subtract_ranges :: "bitvector \<Rightarrow> bitrange \<Rightarrow> bitvector \<Rightarrow> bitrange \<Rightarrow> (bool \<times> bitvector) option" where
  "BitVector_subtract_ranges v range1 other range2 = do {
     checkRange v range1;
     checkRange other range2;
     on_words2 v (subtract (bv_words other) range2 (bv_words v) range1)
   }"

definition BitVector_subtract_same :: "bitvector \<Rightarrow> bitrange \<Rightarrow> bitrange \<Rightarrow> (bool \<times> bitvector) option" where
  "BitVector_subtract_same v range1 range2 = do {
     checkRange v range1;
     checkRange v range2;
     on_words2 v (subtract (bv_words v) range2 (bv_words v) range1)
   }"

definition BitVector_subtract :: "bitvector \<Rightarrow> bitvector \<Rightarrow> (bool \<times> bitvector) option" where
  "BitVector_subtract v other =
     on_words2 v (subtract (bv_words other) (BitVector_hull other) (bv_words v) (BitVector_hull v))"

definition BitVector_signExtend_ranges :: "bitvector \<Rightarrow> bitrange \<Rightarrow> bitvector \<Rightarrow> bitrange \<Rightarrow> bitvector option" where
  "BitVector_signExtend_ranges v range1 other range2 = do {
     checkRange v range1;
     checkRange other range2;
     map_option snd (on_words2 v (signExtend (bv_words other) range2 (bv_words v) range1))
   }"

definition BitVector_signExtend_same :: "bitvector \<Rightarrow> bitrange \<Rightarrow> bitrange \<Rightarrow> bitvector option" where
  "BitVector_signExtend_same v range1 range2 = do {
     checkRange v range1;
     checkRange v range2;
     map_option snd (on_words2 v (signExtend (bv_words v) range2 (bv_words v) range1))
   }"

definition BitVector_signExtend :: "bitvector \<Rightarrow> bitvector \<Rightarrow> bitvector option" where
  "BitVector_signExtend v other =
     map_option snd (on_words2 v (signExtend (bv_words other) (BitVector_hull other) (bv_words v) (BitVector_hull v)))"

definition BitVector_multiply10 :: "bitvector \<Rightarrow> bitvector option" where
  "BitVector_multiply10 v = on_words v (multiply10 (bv_words v) (BitVector_hull v))"

definition BitVector_multiply10_range :: "bitvector \<Rightarrow> bitrange \<Rightarrow> bitvector option" where
  "BitVector_multiply10_range v rng = on_words v (multiply10 (bv_words v) rng)"

text \<open>
  The loop of \<^verbatim>\<open>multiply\<close> and \<^verbatim>\<open>multiplySigned\<close> over the bits of the multiplier: add the
  addend where the bit is set and shift the addend left.
\<close>

fun multiply_loop :: "bitvector \<Rightarrow> nat list \<Rightarrow> bitvector \<Rightarrow> bitvector \<Rightarrow> bitvector option" where
  "multiply_loop a [] product addend = Some product"
| "multiply_loop a (i # is) product addend = do {
     g \<leftarrow> BitVector_get a i;
     product \<leftarrow> (if g then map_option snd (BitVector_add product addend) else Some product);
     addend \<leftarrow> BitVector_shiftLeft addend 1 False;
     multiply_loop a is product addend
   }"

definition BitVector_multiply :: "bitvector \<Rightarrow> bitvector \<Rightarrow> bitvector option" where
  "BitVector_multiply v other = do {
     product \<leftarrow> BitVector_new (bv_size v + bv_size other) False;
     let addend = other;
     addend \<leftarrow> BitVector_resize addend (bv_size product) False;
     multiply_loop v [0..<bv_size v] product addend
   }"

definition BitVector_multiplySigned :: "bitvector \<Rightarrow> bitvector \<Rightarrow> bitvector option" where
  "BitVector_multiplySigned v other = do {
     product \<leftarrow> BitVector_new (bv_size v + bv_size other) False;
     let a = v;
     aIsNeg \<leftarrow> (if bv_size a > 1 then BitVector_get a (bv_size a - 1) else Some False);
     a \<leftarrow> (if aIsNeg then BitVector_negate a else Some a);
     let b = other;
     bIsNeg \<leftarrow> (if bv_size b > 1 then BitVector_get b (bv_size b - 1) else Some False);
     b \<leftarrow> (if bIsNeg then BitVector_negate b else Some b);
     b \<leftarrow> BitVector_resize b (bv_size product) False;
     product \<leftarrow> multiply_loop a [0..<bv_size a] product b;
     if aIsNeg \<noteq> bIsNeg then BitVector_negate product else Some product
   }"

subsection \<open>Boolean logic\<close>

definition BitVector_invert_range :: "bitvector \<Rightarrow> bitrange \<Rightarrow> bitvector option" where
  "BitVector_invert_range v rng = do { checkRange v rng; on_words v (invert (bv_words v) rng) }"

definition BitVector_invert :: "bitvector \<Rightarrow> bitvector option" where
  "BitVector_invert v = on_words v (invert (bv_words v) (BitVector_hull v))"

definition BitVector_bitwiseAnd_ranges :: "bitvector \<Rightarrow> bitrange \<Rightarrow> bitvector \<Rightarrow> bitrange \<Rightarrow> bitvector option" where
  "BitVector_bitwiseAnd_ranges v range1 other range2 = do {
     checkRange v range1;
     checkRange other range2;
     on_words v (bitwiseAnd (bv_words other) range2 (bv_words v) range1)
   }"

definition BitVector_bitwiseAnd_same :: "bitvector \<Rightarrow> bitrange \<Rightarrow> bitrange \<Rightarrow> bitvector option" where
  "BitVector_bitwiseAnd_same v range1 range2 = do {
     checkRange v range1;
     checkRange v range2;
     on_words v (bitwiseAnd (bv_words v) range2 (bv_words v) range1)
   }"

definition BitVector_bitwiseAnd :: "bitvector \<Rightarrow> bitvector \<Rightarrow> bitvector option" where
  "BitVector_bitwiseAnd v other =
     on_words v (bitwiseAnd (bv_words other) (BitVector_hull other) (bv_words v) (BitVector_hull v))"

definition BitVector_bitwiseOr_ranges :: "bitvector \<Rightarrow> bitrange \<Rightarrow> bitvector \<Rightarrow> bitrange \<Rightarrow> bitvector option" where
  "BitVector_bitwiseOr_ranges v range1 other range2 = do {
     checkRange v range1;
     checkRange other range2;
     on_words v (bitwiseOr (bv_words other) range2 (bv_words v) range1)
   }"

definition BitVector_bitwiseOr_same :: "bitvector \<Rightarrow> bitrange \<Rightarrow> bitrange \<Rightarrow> bitvector option" where
  "BitVector_bitwiseOr_same v range1 range2 = do {
     checkRange v range1;
     checkRange v range2;
     on_words v (bitwiseOr (bv_words v) range2 (bv_words v) range1)
   }"

definition BitVector_bitwiseOr :: "bitvector \<Rightarrow> bitvector \<Rightarrow> bitvector option" where
  "BitVector_bitwiseOr v other =
     on_words v (bitwiseOr (bv_words other) (BitVector_hull other) (bv_words v) (BitVector_hull v))"

definition BitVector_bitwiseXor_ranges :: "bitvector \<Rightarrow> bitrange \<Rightarrow> bitvector \<Rightarrow> bitrange \<Rightarrow> bitvector option" where
  "BitVector_bitwiseXor_ranges v range1 other range2 = do {
     checkRange v range1;
     checkRange other range2;
     on_words v (bitwiseXor (bv_words other) range2 (bv_words v) range1)
   }"

definition BitVector_bitwiseXor_same :: "bitvector \<Rightarrow> bitrange \<Rightarrow> bitrange \<Rightarrow> bitvector option" where
  "BitVector_bitwiseXor_same v range1 range2 = do {
     checkRange v range1;
     checkRange v range2;
     on_words v (bitwiseXor (bv_words v) range2 (bv_words v) range1)
   }"

definition BitVector_bitwiseXor :: "bitvector \<Rightarrow> bitvector \<Rightarrow> bitvector option" where
  "BitVector_bitwiseXor v other =
     on_words v (bitwiseXor (bv_words other) (BitVector_hull other) (bv_words v) (BitVector_hull v))"

subsection \<open>Numeric comparison\<close>

definition BitVector_isEqualToZero_range :: "bitvector \<Rightarrow> bitrange \<Rightarrow> bool option" where
  "BitVector_isEqualToZero_range v rng = do { checkRange v rng; isEqualToZero (bv_words v) rng }"

definition BitVector_isEqualToZero :: "bitvector \<Rightarrow> bool option" where
  "BitVector_isEqualToZero v = isEqualToZero (bv_words v) (BitVector_hull v)"

definition BitVector_compare_ranges :: "bitvector \<Rightarrow> bitrange \<Rightarrow> bitvector \<Rightarrow> bitrange \<Rightarrow> int option" where
  "BitVector_compare_ranges v range1 other range2 = do {
     checkRange v range1;
     checkRange other range2;
     compare (bv_words v) range1 (bv_words other) range2
   }"

definition BitVector_compare_same :: "bitvector \<Rightarrow> bitrange \<Rightarrow> bitrange \<Rightarrow> int option" where
  "BitVector_compare_same v range1 range2 = do {
     checkRange v range1;
     checkRange v range2;
     compare (bv_words v) range1 (bv_words v) range2
   }"

definition BitVector_compare :: "bitvector \<Rightarrow> bitvector \<Rightarrow> int option" where
  "BitVector_compare v other = compare (bv_words v) (BitVector_hull v) (bv_words other) (BitVector_hull other)"

definition BitVector_compareSigned_ranges :: "bitvector \<Rightarrow> bitrange \<Rightarrow> bitvector \<Rightarrow> bitrange \<Rightarrow> int option" where
  "BitVector_compareSigned_ranges v range1 other range2 = do {
     checkRange v range1;
     checkRange other range2;
     compareSigned (bv_words v) range1 (bv_words other) range2
   }"

definition BitVector_compareSigned_same :: "bitvector \<Rightarrow> bitrange \<Rightarrow> bitrange \<Rightarrow> int option" where
  "BitVector_compareSigned_same v range1 range2 = do {
     checkRange v range1;
     checkRange v range2;
     compareSigned (bv_words v) range1 (bv_words v) range2
   }"

definition BitVector_compareSigned :: "bitvector \<Rightarrow> bitvector \<Rightarrow> int option" where
  "BitVector_compareSigned v other = compareSigned (bv_words v) (BitVector_hull v) (bv_words other) (BitVector_hull other)"

subsection \<open>Integers\<close>

definition BitVector_toInteger_range :: "bitvector \<Rightarrow> bitrange \<Rightarrow> 64 word option" where
  "BitVector_toInteger_range v rng = do { checkRange v rng; toInteger (bv_words v) rng }"

definition BitVector_toInteger :: "bitvector \<Rightarrow> 64 word option" where
  "BitVector_toInteger v =
     (if bv_size v \<le> 64 then toInteger_small (bv_words v) (bv_size v)
      else toInteger (bv_words v) (BitVector_hull v))"

definition BitVector_toSignedInteger_range :: "bitvector \<Rightarrow> bitrange \<Rightarrow> int option" where
  "BitVector_toSignedInteger_range v rng = do {
     checkRange v rng;
     u \<leftarrow> toInteger (bv_words v) rng;
     Some (sint u)
   }"

definition BitVector_toSignedInteger :: "bitvector \<Rightarrow> int option" where
  "BitVector_toSignedInteger v =
     (if bv_size v \<le> 64 then toSignedInteger_small (bv_words v) (bv_size v)
      else toSignedInteger (bv_words v) (BitVector_hull v))"

definition BitVector_fromInteger_range :: "bitvector \<Rightarrow> bitrange \<Rightarrow> 64 word \<Rightarrow> bitvector option" where
  "BitVector_fromInteger_range v rng value = do { checkRange v rng; on_words v (fromInteger (bv_words v) rng value) }"

definition BitVector_fromInteger :: "bitvector \<Rightarrow> 64 word \<Rightarrow> bitvector option" where
  "BitVector_fromInteger v value = on_words v (fromInteger (bv_words v) (BitVector_hull v) value)"

section \<open>Invariant and number\<close>

text \<open>A vector has exactly the words its bits need.\<close>

definition bv_ok :: "bitvector \<Rightarrow> bool" where
  "bv_ok v \<longleftrightarrow> length (bv_words v) = numberOfWords TYPE(32) (bv_size v)"

definition bv_val :: "bitvector \<Rightarrow> nat" where
  "bv_val v = vval (bv_words v) 0 (bv_size v)"

definition bv_bit :: "bitvector \<Rightarrow> nat \<Rightarrow> bool" where
  "bv_bit v i = vbit (bv_words v) i"

text \<open>\<open>bv_is v n x\<close>: a well-formed vector of \<open>n\<close> bits that holds the number \<open>x\<close>.\<close>

definition bv_is :: "bitvector \<Rightarrow> nat \<Rightarrow> nat \<Rightarrow> bool" where
  "bv_is v n x \<longleftrightarrow> bv_ok v \<and> bv_size v = n \<and> bv_val v = x"

definition yields :: "bitvector option \<Rightarrow> nat \<Rightarrow> nat \<Rightarrow> bool" where
  "yields r n x \<longleftrightarrow> (\<exists>v. r = Some v \<and> bv_is v n x)"

lemma BitVector_hull_eq [simp, range_simps]: "BitVector_hull v = range_of 0 (bv_size v)"
  by (simp add: BitVector_hull_def range_of_def hull_def)

lemma bv_fits: "bv_ok v \<Longrightarrow> 0 + bv_size v \<le> length (bv_words v) * LENGTH(32)"
  using numberOfWords_enough [where 'w = 32, of "bv_size v"] by (simp add: bv_ok_def)

lemma bv_fits_range: "bv_ok v \<Longrightarrow> b + n \<le> bv_size v \<Longrightarrow> b + n \<le> length (bv_words v) * LENGTH(32)"
  using bv_fits [of v] by simp

lemma contains_range_of: "contains (range_of 0 m) (range_of b k) \<longleftrightarrow> k = 0 \<or> b + k \<le> m"
  by (cases "k = 0"; cases "m = 0") (auto simp: contains_def)

lemma checkRange_eq [simp]: "checkRange v (range_of b k) = require (k = 0 \<or> b + k \<le> bv_size v)"
  by (simp add: checkRange_def contains_range_of)

lemma Interval_value_nat: "Interval_value i = range_of i 1"
  by (simp add: Interval_value_def range_of_def)

lemma bv_is_less: "bv_is v n x \<Longrightarrow> x < 2 ^ n"
  by (auto simp: bv_is_def bv_val_def)

lemma bv_val_less [simp]: "bv_val v < 2 ^ bv_size v"
  by (simp add: bv_val_def)

lemma bit_bv_val: "bit (bv_val v) i \<longleftrightarrow> i < bv_size v \<and> bv_bit v i"
  by (simp add: bv_val_def bv_bit_def bits_simps)

lemma bv_is_bit: "bv_is v n x \<Longrightarrow> i < n \<Longrightarrow> bv_bit v i = bit x i"
  using bit_bv_val [of v i] by (auto simp: bv_is_def)

text \<open>Writing the whole vector.\<close>

lemma bv_is_update:
  assumes "bv_is v n x" "\<And>i. i < n \<Longrightarrow> g i = bit y i"
  shows "bv_is (v\<lparr>bv_words := vupd (bv_words v) 0 n g\<rparr>) n (y mod 2 ^ n)"
proof -
  have "bval g n = y mod 2 ^ n"
    by (rule bit_eqI) (use assms(2) in \<open>auto simp: bit_simps take_bit_eq_mod [symmetric]\<close>)
  moreover have "0 + n \<le> length (bv_words v) * LENGTH(32)" using assms(1) bv_fits [of v] by (simp add: bv_is_def)
  ultimately show ?thesis
    using assms(1) by (simp add: bv_is_def bv_ok_def bv_val_def)
qed

lemma bv_is_update_val:
  fixes y :: nat
  assumes "bv_is v n x"
  shows "bv_is (v\<lparr>bv_words := vupd (bv_words v) 0 n (bit y)\<rparr>) n (y mod 2 ^ n)"
  using bv_is_update [OF assms] by blast

lemma bv_is_unfold:
  assumes "bv_is v n x"
  shows "0 + n \<le> length (bv_words v) * LENGTH(32)" "bv_size v = n" "vval (bv_words v) 0 n = x"
    "\<And>i. i < n \<Longrightarrow> vbit (bv_words v) i = bit x i"
  using assms bv_fits [of v] bv_is_bit [OF assms] by (auto simp: bv_is_def bv_val_def bv_bit_def)

section \<open>Construction and resizing\<close>

lemma vbit_resize_words:
  fixes ws :: "'w::len word list"
  assumes "i < m * LENGTH('w)"
  shows "vbit (resize_words ws m 0) i = vbit ws i"
proof -
  have "i div LENGTH('w) < m" using assms by (simp add: less_mult_imp_div_less)
  then show ?thesis
    by (auto simp: vbit_def resize_words_def nth_append)
qed

lemma length_resize_words [simp]: "length (resize_words ws m x) = m"
  by (simp add: resize_words_def)

text \<open>Growing a vector with zeros keeps its number; shrinking it keeps the number modulo the new size.\<close>

lemma BitVector_resize_is:
  assumes v: "bv_is v n x"
  shows "yields (BitVector_resize v m newBits) m (x mod 2 ^ m + (if newBits then 2 ^ m - 2 ^ min n m else 0))"
proof -
  define N where "N = numberOfWords TYPE(32) m"
  define ws where "ws = resize_words (bv_words v) N 0"
  have len: "length ws = N" by (simp add: ws_def)
  have fits: "0 + m \<le> length ws * LENGTH(32)"
    using numberOfWords_enough [where 'w = 32, of m] by (simp add: len N_def)
  note vu = bv_is_unfold [OF v]
  consider (zero) "m = 0" | (grow) "n < m" | (shrink) "0 < m" "m \<le> n" by linarith
  then show ?thesis
  proof cases
    case zero
    then show ?thesis
      by (auto simp: yields_def BitVector_resize_def bv_is_def bv_ok_def bv_val_def numberOfWords_def bitsPerWord_def)
  next
    case grow
    have f: "n + (m - n) \<le> length ws * LENGTH(32)" using fits grow by simp
    define ws' where "ws' = vupd ws n (m - n) (\<lambda>_. newBits)"
    have "hull n (m - 1) = range_of n (m - n)" using grow by (subst hull_nat) auto
    then have "setValue ws (hull n (m - 1)) newBits = Some ws'"
      using setValue_eq [OF f, of newBits] by (simp add: ws'_def)
    then have r: "BitVector_resize v m newBits = Some \<lparr>bv_words = ws', bv_size = m\<rparr>"
      using grow vu(2) by (simp add: BitVector_resize_def N_def [symmetric] ws_def [symmetric])
    have "vval ws' 0 m = x + (if newBits then 2 ^ m - 2 ^ n else 0)"
    proof -
      have "vval ws' 0 m = vval ws' 0 n + 2 ^ n * vval ws' (0 + n) (m - n)"
        using vval_add [of ws' 0 n "m - n"] grow by simp
      moreover have "vval ws' 0 n = x"
      proof -
        have "vval ws' 0 n = vval (bv_words v) 0 n"
        proof (rule vval_cong)
          fix i assume i: "i < n"
          then have "i < N * LENGTH(32)" using fits grow by (simp add: len)
          then show "vbit ws' (0 + i) = vbit (bv_words v) (0 + i)"
            using i f by (simp add: ws'_def vbit_vupd) (simp add: ws_def vbit_resize_words)
        qed
        then show ?thesis using vu(3) by simp
      qed
      moreover have "vval ws' (0 + n) (m - n) = (if newBits then 2 ^ (m - n) - 1 else 0)"
        unfolding ws'_def using f by (simp add: bval_True)
      moreover have "(2 :: nat) ^ n * (2 ^ (m - n) - 1) = 2 ^ m - 2 ^ n"
        using grow by (simp add: diff_mult_distrib2 power_add [symmetric])
      ultimately show ?thesis by simp
    qed
    moreover have "x < 2 ^ m"
      using bv_is_less [OF v] grow by (meson less_imp_le less_le_trans one_le_numeral power_increasing)
    moreover have "length ws' = N" by (simp add: ws'_def len)
    ultimately show ?thesis
      using r grow by (simp add: yields_def bv_is_def bv_ok_def bv_val_def N_def min_def)
  next
    case shrink
    have "vval ws 0 m = x mod 2 ^ m"
    proof -
      have "vval ws 0 m = vval (bv_words v) 0 m"
        by (rule vval_cong) (use fits in \<open>auto simp: ws_def vbit_resize_words len [unfolded ws_def]\<close>)
      also have "\<dots> = vval (bv_words v) 0 n mod 2 ^ m"
        using shrink by (simp add: vval_def bval_mod)
      finally show ?thesis using vu(3) by simp
    qed
    then show ?thesis
      using shrink vu(2) len
      by (auto simp: yields_def BitVector_resize_def bv_is_def bv_ok_def bv_val_def N_def [symmetric] ws_def [symmetric])
  qed
qed

lemma BitVector_empty_is: "bv_is BitVector_empty 0 0"
  by (simp add: bv_is_def bv_ok_def bv_val_def BitVector_empty_def numberOfWords_def bitsPerWord_def)

lemma BitVector_new_is: "yields (BitVector_new n False) n 0"
  using BitVector_resize_is [OF BitVector_empty_is, of n False] by (simp add: BitVector_new_def)

section \<open>Operations on whole vectors\<close>

text \<open>The two's complement reading of an \<open>n\<close>-bit number.\<close>

definition signed_of :: "nat \<Rightarrow> nat \<Rightarrow> int" where
  "signed_of n x = (if 0 < n \<and> bit x (n - 1) then int x - 2 ^ n else int x)"

lemma signed_of_sval: "bv_is v n x \<Longrightarrow> sval (bv_words v) 0 n = signed_of n x"
  using bv_is_less [of v n x] by (cases "n = 0") (simp_all add: sval_def signed_of_def bv_is_unfold)

lemma yieldsI: "r = Some v \<Longrightarrow> bv_is v n x \<Longrightarrow> yields r n x"
  by (simp add: yields_def)

lemma yields_on_words:
  assumes "bv_is v n x" "r = Some (vupd (bv_words v) 0 n g)" "\<And>i. i < n \<Longrightarrow> g i = bit y i"
  shows "yields (on_words v r) n (y mod 2 ^ n)"
  using assms(2) bv_is_update [OF assms(1,3)] by (simp add: yields_def on_words_def)

lemma BitVector_get_is: "bv_is v n x \<Longrightarrow> i < n \<Longrightarrow> BitVector_get v i = Some (bit x i)"
  using bv_is_unfold [of v n x] by (simp add: BitVector_get_def Interval_value_nat)

lemma BitVector_logic_is:
  assumes v: "bv_is v n x" and w: "bv_is w n y"
  shows "yields (BitVector_bitwiseAnd v w) n (x AND y)"
    "yields (BitVector_bitwiseOr v w) n (x OR y)"
    "yields (BitVector_bitwiseXor v w) n (x XOR y)"
proof -
  note vu = bv_is_unfold [OF v] and wu = bv_is_unfold [OF w]
  have m: "(x AND y) mod 2 ^ n = x AND y" "(x OR y) mod 2 ^ n = x OR y" "(x XOR y) mod 2 ^ n = x XOR y"
    using bv_is_less [OF v] bv_is_less [OF w]
    by (simp_all add: take_bit_eq_mod [symmetric] take_bit_nat_eq_self)
  note b = bitwise_eq [OF wu(1) vu(1)]
  have "yields (BitVector_bitwiseAnd v w) n ((x AND y) mod 2 ^ n)"
    unfolding BitVector_bitwiseAnd_def BitVector_hull_eq vu(2) wu(2)
    by (rule yields_on_words [OF v b(1)]) (simp add: vu(4) wu(4) bit_simps)
  then show "yields (BitVector_bitwiseAnd v w) n (x AND y)" unfolding m .
  have "yields (BitVector_bitwiseOr v w) n ((x OR y) mod 2 ^ n)"
    unfolding BitVector_bitwiseOr_def BitVector_hull_eq vu(2) wu(2)
    by (rule yields_on_words [OF v b(2)]) (simp add: vu(4) wu(4) bit_simps)
  then show "yields (BitVector_bitwiseOr v w) n (x OR y)" unfolding m .
  have "yields (BitVector_bitwiseXor v w) n ((x XOR y) mod 2 ^ n)"
    unfolding BitVector_bitwiseXor_def BitVector_hull_eq vu(2) wu(2)
    by (rule yields_on_words [OF v b(3)]) (simp add: vu(4) wu(4) bit_simps)
  then show "yields (BitVector_bitwiseXor v w) n (x XOR y)" unfolding m .
qed

lemma yields_value:
  assumes v: "bv_is v n x" and r: "r = Some (vupd (bv_words v) 0 n g)" and y: "bval g n = y"
  shows "yields (on_words v r) n y"
proof -
  have "y mod 2 ^ n = y" using bval_less [of g n] y by simp
  moreover have "\<And>i. i < n \<Longrightarrow> g i = bit y i" using y [symmetric] by simp
  ultimately show ?thesis using yields_on_words [OF v r, of y] by simp
qed

lemma bval_vbit_is: "bv_is v n x \<Longrightarrow> bval (\<lambda>i. vbit (bv_words v) (0 + i)) n = x"
  using bv_is_unfold(3) [of v n x] by (simp add: vval_def)

lemma BitVector_invert_is:
  assumes v: "bv_is v n x"
  shows "yields (BitVector_invert v) n (2 ^ n - 1 - x)"
  unfolding BitVector_invert_def BitVector_hull_eq bv_is_unfold(2) [OF v]
  by (rule yields_value [OF v invert_eq [OF bv_is_unfold(1) [OF v]]])
    (simp only: bval_Not bval_vbit_is [OF v])

lemma BitVector_shift_is:
  assumes v: "bv_is v n x"
  shows "yields (BitVector_shiftLeft v k False) n (x * 2 ^ k mod 2 ^ n)"
    "yields (BitVector_shiftRight v k False) n (x div 2 ^ k)"
  unfolding BitVector_shiftLeft_def BitVector_shiftRight_def BitVector_hull_eq bv_is_unfold(2) [OF v]
  by (rule yields_value [OF v shiftLeft_eq [OF bv_is_unfold(1) [OF v]]],
      simp only: vval_shiftLeft bv_is_unfold(3) [OF v],
      rule yields_value [OF v shiftRight_eq [OF bv_is_unfold(1) [OF v]]],
      simp only: vval_shiftRight bv_is_unfold(3) [OF v])

lemma BitVector_add_is:
  assumes v: "bv_is v n x" and w: "bv_is w n y"
  shows "\<exists>v'. BitVector_add v w = Some (2 ^ n \<le> x + y, v') \<and> bv_is v' n ((x + y) mod 2 ^ n)"
proof -
  note vu = bv_is_unfold [OF v] and wu = bv_is_unfold [OF w]
  have "BitVector_add v w = Some (2 ^ n \<le> x + y, v\<lparr>bv_words := vupd (bv_words v) 0 n (bit (x + y))\<rparr>)"
    using add_eq [OF wu(1) vu(1), of False]
    by (simp add: BitVector_add_def on_words2_def vu(2,3) wu(2,3) add.commute)
  with bv_is_update_val [OF v] show ?thesis by blast
qed

lemma BitVector_subtract_is:
  assumes v: "bv_is v n x" and w: "bv_is w n y"
  shows "\<exists>v'. BitVector_subtract v w = Some (y \<le> x, v') \<and> bv_is v' n ((x + 2 ^ n - y) mod 2 ^ n)"
proof -
  note vu = bv_is_unfold [OF v] and wu = bv_is_unfold [OF w]
  have "BitVector_subtract v w = Some (y \<le> x, v\<lparr>bv_words := vupd (bv_words v) 0 n (bit (x + 2 ^ n - y))\<rparr>)"
    using subtract_eq [OF wu(1) vu(1)]
    by (simp add: BitVector_subtract_def on_words2_def vu(2,3) wu(2,3))
  with bv_is_update_val [OF v] show ?thesis by blast
qed

lemma BitVector_negate_is:
  assumes v: "bv_is v n x"
  shows "yields (BitVector_negate v) n ((2 ^ n - x) mod 2 ^ n)"
  using negate_eq [OF bv_is_unfold(1) [OF v]] bv_is_update_val [OF v, of "2 ^ n - x"]
  by (simp add: BitVector_negate_def on_words_def bv_is_unfold(2,3) [OF v] yields_def)

lemma BitVector_observe_is:
  assumes v: "bv_is v n x" and w: "bv_is w m y"
  shows "BitVector_isEqualToZero v = Some (x = 0)"
    "BitVector_compare v w = Some (cmp x y)"
    "BitVector_compareSigned v w = Some (cmp (signed_of n x) (signed_of m y))"
  using compare_eq [OF bv_is_unfold(1) [OF v] bv_is_unfold(1) [OF w]]
    compareSigned_eq [OF bv_is_unfold(1) [OF v] bv_is_unfold(1) [OF w]] bv_is_unfold [OF v] bv_is_unfold [OF w]
    vval_eq_0_iff [of "bv_words v" 0 n]
  by (simp_all add: BitVector_isEqualToZero_def isEqualToZero_def BitVector_compare_def BitVector_compareSigned_def
      signed_of_sval [OF v] signed_of_sval [OF w])

lemma BitVector_fromInteger_is:
  assumes v: "bv_is v n x"
  shows "yields (BitVector_fromInteger v k) n (unat k mod 2 ^ n)"
  unfolding BitVector_fromInteger_def BitVector_hull_eq bv_is_unfold(2) [OF v]
  by (rule yields_on_words [OF v fromInteger_eq [OF bv_is_unfold(1) [OF v]]]) (simp add: bits_simps)

lemma BitVector_toInteger_is:
  assumes v: "bv_is v n x"
  shows "BitVector_toInteger v = Some (word_of_nat x)"
proof (cases "n \<le> 64")
  case True
  have "length (bv_words v) = numberOfWords TYPE(32) n" using v by (simp add: bv_is_def bv_ok_def)
  with True show ?thesis
    by (simp add: BitVector_toInteger_def bv_is_unfold(2,3) [OF v] toInteger_small_eq)
next
  case False
  have "vval (bv_words v) 0 64 = take_bit 64 x"
    using False bv_is_unfold(3) [OF v] take_bit_bval [of 64 "vbit (bv_words v)" n] by (auto simp: vval_def min_def)
  moreover have "word_of_nat (take_bit 64 x) = (word_of_nat x :: 64 word)"
    by (rule bit_word_eqI) (auto simp: bit_simps)
  ultimately show ?thesis
    using False toInteger_eq [OF bv_is_unfold(1) [OF v]] bv_is_unfold(2) [OF v]
    by (simp add: BitVector_toInteger_def)
qed

lemma BitVector_signExtend_is:
  assumes v: "bv_is v m z" and w: "bv_is w n y"
  shows "yields (BitVector_signExtend v w) m (nat (signed_of n y mod 2 ^ m))"
proof -
  note vu = bv_is_unfold [OF v] and wu = bv_is_unfold [OF w]
  define g where "g i \<longleftrightarrow> n > 0 \<and> vbit (bv_words w) (0 + (if i < n then i else n - 1))" for i
  have "map_option snd (on_words2 v (signExtend (bv_words w) (range_of 0 n) (bv_words v) (range_of 0 m)))
      = on_words v (Some (vupd (bv_words v) 0 m g))"
    using signExtend_eq [OF wu(1) vu(1)] by (simp add: on_words_def on_words2_def g_def [abs_def])
  moreover have "\<And>i. i < m \<Longrightarrow> g i = bit (nat (signed_of n y mod 2 ^ m)) i"
  proof -
    fix i assume i: "i < m"
    have "bit (nat (signed_of n y mod 2 ^ m)) i \<longleftrightarrow> bit (signed_of n y) i"
      using i by (simp add: take_bit_eq_mod [symmetric] bit_nat_iff bit_simps)
    moreover have "bit (signed_of n y) i \<longleftrightarrow> g i"
    proof (cases "n = 0")
      case True
      then show ?thesis using bv_is_less [OF w] by (simp add: signed_of_def g_def)
    next
      case False
      have "signed_of n y = signed_take_bit (n - 1) (int y)"
        using False bv_is_less [OF w]
        by (auto simp: signed_of_def signed_take_bit_eq_if_positive signed_take_bit_eq_if_negative bit_of_nat_iff
            take_bit_int_eq_self signed_take_bit_eq_take_bit_minus)
      then show ?thesis
        using False wu(4) by (cases "i = n - 1") (auto simp: bit_signed_take_bit_iff g_def bit_of_nat_iff min_def)
    qed
    ultimately show "g i = bit (nat (signed_of n y mod 2 ^ m)) i" by simp
  qed
  moreover have "nat (signed_of n y mod 2 ^ m) mod 2 ^ m = nat (signed_of n y mod 2 ^ m)"
    by (simp add: nat_mod_distrib nat_power_eq [symmetric] del: nat_power_eq flip: nat_mod_distrib)
  ultimately show ?thesis
    using yields_on_words [OF v refl, of g "nat (signed_of n y mod 2 ^ m)"]
    by (simp add: BitVector_signExtend_def vu(2) wu(2))
qed

lemma BitVector_shiftRightArithmetic_is:
  assumes v: "bv_is v n x"
  shows "yields (BitVector_shiftRightArithmetic v k) n (nat ((signed_of n x div 2 ^ k) mod 2 ^ n))"
proof (cases "n = 0")
  case True
  have "BitVector_shiftRightArithmetic v k = Some v"
    using shiftRightArithmetic_eq [of 0 0 "bv_words v" k] True
    by (simp add: BitVector_shiftRightArithmetic_def bv_is_unfold(2) [OF v] on_words_def)
  with True v bv_is_less [OF v] show ?thesis by (simp add: yields_def)
next
  case False
  note vu = bv_is_unfold [OF v]
  have "bval (\<lambda>i. vbit (bv_words v) (0 + (if i + k < n then i + k else n - 1))) n =
      nat ((signed_of n x div 2 ^ k) mod 2 ^ n)"
    using arithmetic_shift_value [of n "bv_words v" 0 k] False by (simp add: signed_of_sval [OF v])
  from yields_value [OF v shiftRightArithmetic_eq [OF vu(1)] this] show ?thesis
    by (simp add: BitVector_shiftRightArithmetic_def vu(2))
qed

lemma BitVector_rotate_is:
  assumes v: "bv_is v n x"
  shows "yields (BitVector_rotateRight v k) n (bval (\<lambda>i. bit x ((i + k) mod n)) n)"
    "yields (BitVector_rotateLeft v k) n (bval (\<lambda>i. bit x ((i + (n - k mod n)) mod n)) n)"
proof -
  note vu = bv_is_unfold [OF v]
  have eq: "bval (\<lambda>i. vbit (bv_words v) (0 + (i + c) mod n)) n = bval (\<lambda>i. bit x ((i + c) mod n)) n" for c
    by (rule bval_cong) (simp add: vu(4))
  show "yields (BitVector_rotateRight v k) n (bval (\<lambda>i. bit x ((i + k) mod n)) n)"
    using yields_value [OF v rotateRight_eq [OF vu(1)] eq] by (simp add: BitVector_rotateRight_def vu(2))
  show "yields (BitVector_rotateLeft v k) n (bval (\<lambda>i. bit x ((i + (n - k mod n)) mod n)) n)"
    using yields_value [OF v rotateLeft_eq [OF vu(1)] eq] by (simp add: BitVector_rotateLeft_def vu(2))
qed

text \<open>Copying part of a vector into part of another; the case where the destination range ends the vector.\<close>

lemma BitVector_copy_is:
  assumes v: "bv_is v n x" and w: "bv_is w m y" and tn: "tb + k = n" and fm: "fb + k \<le> m" and k: "0 < k"
  shows "yields (BitVector_copy v (range_of tb k) w (range_of fb k)) n (x mod 2 ^ tb + 2 ^ tb * ((y div 2 ^ fb) mod 2 ^ k))"
proof -
  note vu = bv_is_unfold [OF v] and wu = bv_is_unfold [OF w]
  let ?ws = "vupd (bv_words v) tb k (\<lambda>i. vbit (bv_words w) (fb + i))"
  have l: "tb + k \<le> length (bv_words v) * LENGTH(32)" "fb + k \<le> length (bv_words w) * LENGTH(32)"
    using vu(1) wu(1) tn fm by simp_all
  have r: "BitVector_copy v (range_of tb k) w (range_of fb k) = Some (v\<lparr>bv_words := ?ws\<rparr>)"
    using copy_eq [OF l(2) l(1)] tn fm k vu(2) wu(2) by (simp add: BitVector_copy_def on_words_def)
  have "vval ?ws 0 n = vval ?ws 0 tb + 2 ^ tb * vval ?ws (0 + tb) k"
    using vval_add [of ?ws 0 tb k] tn by simp
  also have "vval ?ws 0 tb = x mod 2 ^ tb"
  proof -
    have "vval ?ws 0 tb = vval (bv_words v) 0 tb" by (rule vval_cong) (use l in \<open>simp add: vbit_vupd\<close>)
    also have "\<dots> = vval (bv_words v) 0 n mod 2 ^ tb" using tn by (auto simp: vval_def bval_mod min_def)
    finally show ?thesis using vu(3) by simp
  qed
  also have "vval ?ws (0 + tb) k = (y div 2 ^ fb) mod 2 ^ k"
  proof -
    have "vval ?ws (0 + tb) k = bval (\<lambda>i. bit y (fb + i)) k"
      using l(1) fm by (simp add: bval_cong [of k "\<lambda>i. vbit (bv_words w) (fb + i)" "\<lambda>i. bit y (fb + i)"] wu(4))
    also have "\<dots> = take_bit k (drop_bit fb y)"
      by (rule bit_eqI) (auto simp: bit_simps)
    finally show ?thesis by (simp add: take_bit_eq_mod drop_bit_eq_div)
  qed
  finally show ?thesis
    using r v vu(2) by (simp add: yields_def bv_is_def bv_ok_def bv_val_def)
qed

lemma BitVector_search_is:
  assumes v: "bv_is v n x"
  shows "BitVector_leastSignificantSetBit v = Some (find (bit x) [0..<n])"
    "BitVector_mostSignificantSetBit v = Some (find (bit x) (rev [0..<n]))"
proof -
  note vu = bv_is_unfold [OF v]
  have "find (\<lambda>i. vbit (bv_words v) (0 + i)) [0..<n] = find (bit x) [0..<n]"
    "find (\<lambda>i. vbit (bv_words v) (0 + i)) (rev [0..<n]) = find (bit x) (rev [0..<n])"
    by (intro find_cong; auto simp: vu(4))+
  moreover have "map_option ((+) 0) r = r" for r :: "nat option" by (cases r) auto
  ultimately show "BitVector_leastSignificantSetBit v = Some (find (bit x) [0..<n])"
    "BitVector_mostSignificantSetBit v = Some (find (bit x) (rev [0..<n]))"
    using leastSignificantSetBit_eq [OF vu(1)] mostSignificantSetBit_eq [OF vu(1)]
    by (simp_all add: BitVector_leastSignificantSetBit_def BitVector_mostSignificantSetBit_def vu(2))
qed

section \<open>Multiplication\<close>

text \<open>
  After \<open>i\<close> rounds the product holds the multiplicand times the low \<open>i\<close> bits of the multiplier
  and the addend has been shifted by \<open>i\<close>.
\<close>

lemma multiply_loop_is:
  assumes a: "bv_is a n x"
  shows "i \<le> n \<Longrightarrow> bv_is p N (y * (x mod 2 ^ i) mod 2 ^ N) \<Longrightarrow> bv_is d N (y * 2 ^ i mod 2 ^ N) \<Longrightarrow>
    yields (multiply_loop a [i..<n] p d) N (y * x mod 2 ^ N)"
proof (induction "n - i" arbitrary: i p d)
  case 0
  then have "i = n" by simp
  with 0 bv_is_less [OF a] show ?case by (simp add: yields_def)
next
  case (Suc r)
  then have i: "i < n" by simp
  obtain d' where d': "BitVector_shiftLeft d 1 False = Some d'" "bv_is d' N (y * 2 ^ Suc i mod 2 ^ N)"
  proof -
    have "y * 2 ^ i mod 2 ^ N * 2 ^ 1 mod 2 ^ N = y * 2 ^ Suc i mod 2 ^ N"
      using mod_mult_left_eq [of "y * 2 ^ i" "2 ^ N" 2] by (simp add: mult_ac)
    with BitVector_shift_is(1) [OF Suc.prems(3), of 1] that show ?thesis unfolding yields_def by metis
  qed
  have g: "BitVector_get a i = Some (bit x i)" by (rule BitVector_get_is [OF a i])
  have low: "x mod 2 ^ Suc i = x mod 2 ^ i + of_bool (bit x i) * 2 ^ i"
    using take_bit_Suc_from_most [of i x] unfolding take_bit_eq_mod by (simp add: mult.commute)
  obtain p' where p': "(if bit x i then map_option snd (BitVector_add p d) else Some p) = Some p'"
    "bv_is p' N (y * (x mod 2 ^ Suc i) mod 2 ^ N)"
  proof (cases "bit x i")
    case True
    have "(y * (x mod 2 ^ i) mod 2 ^ N + y * 2 ^ i mod 2 ^ N) mod 2 ^ N = y * (x mod 2 ^ Suc i) mod 2 ^ N"
      unfolding low using True by (simp add: mod_add_eq distrib_left)
    with BitVector_add_is [OF Suc.prems(2,3)] True that show ?thesis by auto
  next
    case False
    with that Suc.prems(2) low show ?thesis by simp
  qed
  have "yields (multiply_loop a [Suc i..<n] p' d') N (y * x mod 2 ^ N)"
    using Suc.hyps(1) [OF _ _ p'(2) d'(2)] Suc.hyps(2) i by simp
  moreover have "[i..<n] = i # [Suc i..<n]" using i by (rule upt_conv_Cons)
  ultimately show ?case using g p'(1) d'(1) by simp
qed

lemma BitVector_multiply_is:
  assumes v: "bv_is v n x" and w: "bv_is w m y"
  shows "yields (BitVector_multiply v w) (n + m) (x * y)"
proof -
  obtain p where p: "BitVector_new (n + m) False = Some p" "bv_is p (n + m) 0"
    using BitVector_new_is [of "n + m"] by (auto simp: yields_def)
  have ym: "y < 2 ^ (n + m)" using bv_is_less [OF w] by (simp add: less_le_trans power_add)
  obtain d where d: "BitVector_resize w (n + m) False = Some d" "bv_is d (n + m) y"
    using BitVector_resize_is [OF w, of "n + m" False] ym by (auto simp: yields_def)
  have "x * y < 2 ^ (n + m)"
    using bv_is_less [OF v] bv_is_less [OF w] by (simp add: power_add mult_strict_mono)
  moreover have "yields (multiply_loop v [0..<n] p d) (n + m) (y * x mod 2 ^ (n + m))"
    by (rule multiply_loop_is [OF v]) (use p d ym in auto)
  moreover have "bv_size p = n + m" "bv_size v = n" "bv_size w = m" using p v w by (auto simp: bv_is_def)
  ultimately show ?thesis
    using p(1) d(1) by (simp add: BitVector_multiply_def mult.commute)
qed

text \<open>
  \<^verbatim>\<open>multiplySigned\<close> multiplies the absolute values and negates the product where the signs
  differ. A one-bit operand counts as zero or one.
\<close>

definition wide_signed :: "nat \<Rightarrow> nat \<Rightarrow> int" where
  "wide_signed n x = (if n > 1 then signed_of n x else int x)"

lemma absolute_value_is:
  assumes v: "bv_is v n x"
  shows "\<exists>neg a. (if bv_size v > 1 then BitVector_get v (bv_size v - 1) else Some False) = Some neg \<and>
    (if neg then BitVector_negate v else Some v) = Some a \<and> bv_is a n (nat \<bar>wide_signed n x\<bar>) \<and>
    (neg \<longrightarrow> wide_signed n x < 0) \<and> (\<not> neg \<longrightarrow> 0 \<le> wide_signed n x)"
proof -
  define neg where "neg \<longleftrightarrow> n > 1 \<and> bit x (n - 1)"
  have size: "bv_size v = n" using v by (simp add: bv_is_def)
  have g: "(if bv_size v > 1 then BitVector_get v (bv_size v - 1) else Some False) = Some neg"
    using BitVector_get_is [OF v, of "n - 1"] by (auto simp: size neg_def)
  show ?thesis
  proof (cases neg)
    case True
    then have n: "n > 1" "bit x (n - 1)" by (auto simp: neg_def)
    have xl: "x < 2 ^ n" by (rule bv_is_less [OF v])
    have "0 < x" using n(2) by (cases "x = 0") auto
    then have "(2 ^ n - x) mod 2 ^ n = 2 ^ n - x" using xl by simp
    moreover have ws: "wide_signed n x = int x - 2 ^ n" using n by (simp add: wide_signed_def signed_of_def)
    moreover have "int x < 2 ^ n" using xl by (metis of_nat_less_iff of_nat_numeral of_nat_power)
    moreover have "nat \<bar>int x - 2 ^ n\<bar> = 2 ^ n - x"
      using \<open>int x < 2 ^ n\<close> xl by (simp add: nat_diff_distrib nat_power_eq)
    ultimately show ?thesis
      using BitVector_negate_is [OF v] g True by (auto simp: yields_def)
  next
    case False
    then have "wide_signed n x = int x" by (auto simp: neg_def wide_signed_def signed_of_def)
    with g False v show ?thesis by auto
  qed
qed

lemma BitVector_multiplySigned_is:
  assumes v: "bv_is v n x" and w: "bv_is w m y"
  shows "yields (BitVector_multiplySigned v w) (n + m) (nat ((wide_signed n x * wide_signed m y) mod 2 ^ (n + m)))"
proof -
  let ?N = "n + m"
  obtain p where p: "BitVector_new ?N False = Some p" "bv_is p ?N 0"
    using BitVector_new_is [of ?N] by (auto simp: yields_def)
  obtain na a where a: "(if bv_size v > 1 then BitVector_get v (bv_size v - 1) else Some False) = Some na"
      "(if na then BitVector_negate v else Some v) = Some a" "bv_is a n (nat \<bar>wide_signed n x\<bar>)"
      "na \<longrightarrow> wide_signed n x < 0" "\<not> na \<longrightarrow> 0 \<le> wide_signed n x"
    using absolute_value_is [OF v] by blast
  obtain nb b where b: "(if bv_size w > 1 then BitVector_get w (bv_size w - 1) else Some False) = Some nb"
      "(if nb then BitVector_negate w else Some w) = Some b" "bv_is b m (nat \<bar>wide_signed m y\<bar>)"
      "nb \<longrightarrow> wide_signed m y < 0" "\<not> nb \<longrightarrow> 0 \<le> wide_signed m y"
    using absolute_value_is [OF w] by blast
  define X where "X = nat \<bar>wide_signed n x\<bar>"
  define Y where "Y = nat \<bar>wide_signed m y\<bar>"
  have "Y < 2 ^ m" "X < 2 ^ n" using bv_is_less [OF b(3)] bv_is_less [OF a(3)] unfolding X_def Y_def .
  moreover have "(2 :: nat) ^ m \<le> 2 ^ ?N" by (intro power_increasing) auto
  ultimately have "Y < 2 ^ ?N" by linarith
  then obtain d where d: "BitVector_resize b ?N False = Some d" "bv_is d ?N Y"
    using BitVector_resize_is [OF b(3), of ?N False] by (auto simp: yields_def Y_def)
  obtain q where q: "multiply_loop a [0..<n] p d = Some q" "bv_is q ?N (Y * X mod 2 ^ ?N)"
    using multiply_loop_is [OF a(3), of 0 p ?N Y d] p d \<open>Y < 2 ^ ?N\<close> by (auto simp: yields_def X_def)
  have XY: "int (X * Y) = \<bar>wide_signed n x * wide_signed m y\<bar>" by (simp add: X_def Y_def abs_mult)
  have less: "X * Y < 2 ^ ?N"
    using \<open>Y < 2 ^ m\<close> \<open>X < 2 ^ n\<close> unfolding power_add by (intro mult_strict_mono) auto
  have size: "bv_size p = ?N" "bv_size v = n" "bv_size w = m" "bv_size a = n"
    using p v w a(3) by (auto simp: bv_is_def)
  have body: "BitVector_multiplySigned v w = (if na \<noteq> nb then BitVector_negate q else Some q)"
    using p(1) a(1,2) b(1,2) d(1) q(1) size by (simp add: BitVector_multiplySigned_def)
  show ?thesis
  proof (cases "na = nb")
    case True
    then have "wide_signed n x * wide_signed m y = int (X * Y)"
      using a(4,5) b(4,5) XY by (auto simp: mult_nonneg_nonneg mult_neg_neg less_imp_le)
    with True body q(2) less show ?thesis
      by (simp add: yields_def mult.commute nat_mod_distrib nat_power_eq nat_mult_distrib)
  next
    case False
    then have e: "wide_signed n x * wide_signed m y = - int (X * Y)"
      using a(4,5) b(4,5) XY mult_nonneg_nonpos [of "wide_signed n x" "wide_signed m y"]
        mult_nonpos_nonneg [of "wide_signed n x" "wide_signed m y"] by (auto simp: less_imp_le)
    have "int ((2 ^ ?N - X * Y) mod 2 ^ ?N) = (- int (X * Y)) mod 2 ^ ?N"
    proof -
      have "int (2 ^ ?N - X * Y) = 2 ^ ?N - int (X * Y)" using less by (simp add: of_nat_diff less_imp_le)
      then have "int (2 ^ ?N - X * Y) mod 2 ^ ?N = (- int (X * Y)) mod 2 ^ ?N" by simp
      then show ?thesis by (simp add: of_nat_mod)
    qed
    then have "nat ((- int (X * Y)) mod 2 ^ ?N) = (2 ^ ?N - X * Y) mod 2 ^ ?N" by (metis nat_int)
    with False body e less BitVector_negate_is [OF q(2)] show ?thesis by (simp add: mult.commute)
  qed
qed

section \<open>Properties\<close>

text \<open>
  C27. \<^verbatim>\<open>multiply\<close> returns the exact product of the two numbers, in a vector wide enough to hold
  it, and \<^verbatim>\<open>multiplySigned\<close> the exact product of the two's complement numbers (an operand of one
  bit counts as zero or one).
\<close>

theorem multiply_exact:
  assumes "bv_ok v" "bv_ok w"
  shows "(\<exists>p. BitVector_multiply v w = Some p \<and> bv_ok p \<and> bv_size p = bv_size v + bv_size w \<and>
            bv_val p = bv_val v * bv_val w) \<and>
    (\<exists>p. BitVector_multiplySigned v w = Some p \<and> bv_ok p \<and> bv_size p = bv_size v + bv_size w \<and>
       int (bv_val p) = (wide_signed (bv_size v) (bv_val v) * wide_signed (bv_size w) (bv_val w))
         mod 2 ^ (bv_size v + bv_size w))"
proof -
  have vw: "bv_is v (bv_size v) (bv_val v)" "bv_is w (bv_size w) (bv_val w)" using assms by (simp_all add: bv_is_def)
  show ?thesis
    using BitVector_multiply_is [OF vw] BitVector_multiplySigned_is [OF vw] by (auto simp: yields_def bv_is_def)
qed

theorem multiply_exact_witness:
  "let v = \<lparr>bv_words = [0xFFFFFFFE, 1], bv_size = 40\<rparr>; w = \<lparr>bv_words = [5], bv_size = 3\<rparr> in
   (\<exists>p. BitVector_multiply v w = Some p \<and> bv_ok p \<and> bv_size p = bv_size v + bv_size w \<and>
      bv_val p = bv_val v * bv_val w) \<and>
   (\<exists>p. BitVector_multiplySigned v w = Some p \<and> bv_ok p \<and> bv_size p = bv_size v + bv_size w \<and>
      int (bv_val p) = (wide_signed (bv_size v) (bv_val v) * wide_signed (bv_size w) (bv_val w))
        mod 2 ^ (bv_size v + bv_size w))"
  unfolding Let_def by (rule multiply_exact) (simp_all add: bv_ok_def numberOfWords_def bitsPerWord_def)

text \<open>
  \<^verbatim>\<open>resize\<close> grows a vector with the given bit and shrinks it by dropping high-order bits; in
  particular zero extension keeps the number.
\<close>

theorem resize_value:
  assumes "bv_ok v"
  shows "\<exists>v'. BitVector_resize v n newBits = Some v' \<and> bv_ok v' \<and> bv_size v' = n \<and>
    bv_val v' = bv_val v mod 2 ^ n + (if newBits then 2 ^ n - 2 ^ min (bv_size v) n else 0)"
  using BitVector_resize_is [of v "bv_size v" "bv_val v" n newBits] assms
  by (simp add: yields_def bv_is_def)

theorem resize_value_witness:
  "\<exists>v'. BitVector_resize \<lparr>bv_words = [0xAB], bv_size = 8\<rparr> 40 True = Some v' \<and> bv_ok v' \<and> bv_size v' = 40 \<and>
     bv_val v' = bv_val \<lparr>bv_words = [0xAB], bv_size = 8\<rparr> mod 2 ^ 40 +
       (if True then 2 ^ 40 - 2 ^ min (bv_size \<lparr>bv_words = [0xAB], bv_size = 8\<rparr>) 40 else 0)"
  by (rule resize_value) (simp add: bv_ok_def numberOfWords_def bitsPerWord_def)

text \<open>
  The overload of \<^verbatim>\<open>toSignedInteger\<close> that takes a range calls \<^verbatim>\<open>toInteger\<close> and so returns the
  unsigned number of a range of fewer than 64 bits; it is never negative.
\<close>

theorem toSignedInteger_range_unsigned:
  assumes "bv_ok v" "0 < n" "n < 64" "b + n \<le> bv_size v"
  shows "BitVector_toSignedInteger_range v (range_of b n) = Some (int (vval (bv_words v) b n))"
proof -
  have x: "vval (bv_words v) b n < 2 ^ n" by simp
  have "(2 :: nat) ^ n \<le> 2 ^ 63" using assms(3) by (intro power_increasing) auto
  with x have "vval (bv_words v) b n < 2 ^ 63" by linarith
  then have "sint (word_of_nat (vval (bv_words v) b n) :: 64 word) = int (vval (bv_words v) b n)"
    by (simp add: signed_of_nat signed_take_bit_int_eq_self)
  then show ?thesis
    using assms toInteger_eq [of b n "bv_words v"] bv_fits_range [of v b n]
    by (simp add: BitVector_toSignedInteger_range_def min_def)
qed

theorem toSignedInteger_range_unsigned_witness:
  "BitVector_toSignedInteger_range \<lparr>bv_words = [0xFF], bv_size = 8\<rparr> (range_of 0 8)
     = Some (int (vval (bv_words \<lparr>bv_words = [0xFF], bv_size = 8\<rparr>) 0 8))"
  by (rule toSignedInteger_range_unsigned) (simp_all add: bv_ok_def numberOfWords_def bitsPerWord_def)

end
