(* ===== verification/Bit_Vector_Spec.thy ===== *)
theory Bit_Vector_Spec
  imports Bit_Vector
begin

text \<open>
  What the class \<^verbatim>\<open>BitVector\<close> promises, over lists of booleans: the bits of a vector, least
  significant first, are its only observable content, and each mutator replaces a slice of the
  list by a function of that slice (and of a slice of the other operand), fails exactly when a
  range is outside of its vector or two ranges differ in size, and leaves every other bit alone.
  The word-wise implementation refines this specification for every sequence of mutators that a
  client runs on its vectors.
\<close>

section \<open>Clients of the class\<close>

text \<open>
  The mutators of the class as the commands of a client; the second operand of a binary command
  is another vector of the client, or the same one. \<open>Assign\<close> is the assignment operator. Not
  among them are the conversions from strings and byte arrays, which are not modelled, and the
  overload of \<^verbatim>\<open>multiply10\<close> with a range, which does not check it.
\<close>

datatype bv_command =
    Resize nat bool | Assign | Clear bitrange | SetAll bitrange | SetValue bitrange bool
  | ShiftLeft bitrange nat bool | ShiftRight bitrange nat bool | ShiftRightArithmetic bitrange nat
  | RotateRight bitrange nat | RotateLeft bitrange nat | Negate bitrange | Incr bitrange | Decr bitrange
  | Multiply10 | Invert bitrange | FromInteger bitrange "64 word"
  | CopyFrom bitrange bitrange | AddTo bitrange bitrange | SubtractFrom bitrange bitrange
  | SignExtendFrom bitrange bitrange | AndWith bitrange bitrange | OrWith bitrange bitrange | XorWith bitrange bitrange

fun bv_exec :: "bv_command \<Rightarrow> bitvector \<Rightarrow> bitvector \<Rightarrow> bitvector option" where
  "bv_exec (Resize n b) v w = BitVector_resize v n b"
| "bv_exec Assign v w = Some (BitVector_assign v w)"
| "bv_exec (Clear r) v w = BitVector_clear_range v r"
| "bv_exec (SetAll r) v w = BitVector_set_range v r"
| "bv_exec (SetValue r b) v w = BitVector_setValue_range v r b"
| "bv_exec (ShiftLeft r k b) v w = BitVector_shiftLeft_range v r k b"
| "bv_exec (ShiftRight r k b) v w = BitVector_shiftRight_range v r k b"
| "bv_exec (ShiftRightArithmetic r k) v w = BitVector_shiftRightArithmetic_range v r k"
| "bv_exec (RotateRight r k) v w = BitVector_rotateRight_range v r k"
| "bv_exec (RotateLeft r k) v w = BitVector_rotateLeft_range v r k"
| "bv_exec (Negate r) v w = BitVector_negate_range v r"
| "bv_exec (Incr r) v w = map_option snd (BitVector_increment_range v r)"
| "bv_exec (Decr r) v w = map_option snd (BitVector_decrement_range v r)"
| "bv_exec Multiply10 v w = BitVector_multiply10 v"
| "bv_exec (Invert r) v w = BitVector_invert_range v r"
| "bv_exec (FromInteger r k) v w = BitVector_fromInteger_range v r k"
| "bv_exec (CopyFrom r q) v w = BitVector_copy v r w q"
| "bv_exec (AddTo r q) v w = map_option snd (BitVector_add_ranges v r w q)"
| "bv_exec (SubtractFrom r q) v w = map_option snd (BitVector_subtract_ranges v r w q)"
| "bv_exec (SignExtendFrom r q) v w = BitVector_signExtend_ranges v r w q"
| "bv_exec (AndWith r q) v w = BitVector_bitwiseAnd_ranges v r w q"
| "bv_exec (OrWith r q) v w = BitVector_bitwiseOr_ranges v r w q"
| "bv_exec (XorWith r q) v w = BitVector_bitwiseXor_ranges v r w q"

fun command_ranges :: "bv_command \<Rightarrow> bitrange list" where
  "command_ranges (Resize n b) = []" | "command_ranges Assign = []" | "command_ranges Multiply10 = []"
| "command_ranges (Clear r) = [r]" | "command_ranges (SetAll r) = [r]" | "command_ranges (SetValue r b) = [r]"
| "command_ranges (ShiftLeft r k b) = [r]" | "command_ranges (ShiftRight r k b) = [r]"
| "command_ranges (ShiftRightArithmetic r k) = [r]" | "command_ranges (RotateRight r k) = [r]"
| "command_ranges (RotateLeft r k) = [r]" | "command_ranges (Negate r) = [r]" | "command_ranges (Incr r) = [r]"
| "command_ranges (Decr r) = [r]" | "command_ranges (Invert r) = [r]" | "command_ranges (FromInteger r k) = [r]"
| "command_ranges (CopyFrom r q) = [r, q]" | "command_ranges (AddTo r q) = [r, q]"
| "command_ranges (SubtractFrom r q) = [r, q]" | "command_ranges (SignExtendFrom r q) = [r, q]"
| "command_ranges (AndWith r q) = [r, q]" | "command_ranges (OrWith r q) = [r, q]" | "command_ranges (XorWith r q) = [r, q]"

text \<open>
  A client owns a table of vectors. It runs a command on the vector with index \<open>i\<close>, the other
  operand being the vector with index \<open>j\<close>, or swaps bits of two of its vectors or within one.
\<close>

datatype bv_action = Run bv_command nat nat | Swap bitrange nat bitrange nat

fun bv_act :: "bv_action \<Rightarrow> (nat \<Rightarrow> bitvector) \<Rightarrow> (nat \<Rightarrow> bitvector) option" where
  "bv_act (Run c i j) t = do { v \<leftarrow> bv_exec c (t i) (t j); Some (t(i := v)) }"
| "bv_act (Swap r i q j) t =
     (if i = j then do { v \<leftarrow> BitVector_swap_same (t i) r q; Some (t(i := v)) }
      else do { (v, w) \<leftarrow> BitVector_swap (t i) r (t j) q; Some (t(j := w, i := v)) })"

fun action_ranges :: "bv_action \<Rightarrow> bitrange list" where
  "action_ranges (Run c i j) = command_ranges c"
| "action_ranges (Swap r i q j) = [r, q]"

fun bv_acts :: "bv_action list \<Rightarrow> (nat \<Rightarrow> bitvector) \<Rightarrow> (nat \<Rightarrow> bitvector) option" where
  "bv_acts [] t = Some t"
| "bv_acts (a # as) t = do { u \<leftarrow> bv_act a t; bv_acts as u }"

section \<open>The specification\<close>

text \<open>
  A range names a slice of the list. \<open>edit\<close> replaces the slice by a function of it; \<open>combine\<close> by a
  function of it and of a slice of another list, which may refuse the pair.
\<close>

type_synonym bits = "bool list"

definition inside :: "bits \<Rightarrow> bitrange \<Rightarrow> bool" where
  "inside xs r \<longleftrightarrow> interval_size r = 0 \<or> ilo r + interval_size r \<le> length xs"

definition slice :: "bits \<Rightarrow> bitrange \<Rightarrow> bits" where
  "slice xs r = take (interval_size r) (drop (ilo r) xs)"

definition overwrite :: "bits \<Rightarrow> bitrange \<Rightarrow> bits \<Rightarrow> bits" where
  "overwrite xs r ys = take (ilo r) xs @ ys @ drop (ilo r + length ys) xs"

definition edit :: "bitrange \<Rightarrow> (bits \<Rightarrow> bits) \<Rightarrow> bits \<Rightarrow> bits option" where
  "edit r f xs = (if inside xs r then Some (overwrite xs r (f (slice xs r))) else None)"

definition combine :: "bitrange \<Rightarrow> bitrange \<Rightarrow> (bits \<Rightarrow> bits \<Rightarrow> bits option) \<Rightarrow> bits \<Rightarrow> bits \<Rightarrow> bits option" where
  "combine r q f xs ys =
     (if inside xs r \<and> inside ys q then map_option (overwrite xs r) (f (slice xs r) (slice ys q)) else None)"

definition same_size :: "(bits \<Rightarrow> bits \<Rightarrow> bits) \<Rightarrow> bits \<Rightarrow> bits \<Rightarrow> bits option" where
  "same_size f xs ys = (if length xs = length ys then Some (f xs ys) else None)"

text \<open>The number that a list of bits stands for, and the low-order bits of a number.\<close>

definition num_of :: "bits \<Rightarrow> nat" where
  "num_of xs = horner_sum of_bool 2 xs"

definition low_bits :: "nat \<Rightarrow> nat \<Rightarrow> bits" where
  "low_bits n x = map (bit x) [0..<n]"

fun bits_exec :: "bv_command \<Rightarrow> bits \<Rightarrow> bits \<Rightarrow> bits option" where
  "bits_exec (Resize n b) xs ys = Some (take n xs @ replicate (n - length xs) b)"
| "bits_exec Assign xs ys = Some ys"
| "bits_exec (Clear r) xs ys = edit r (map (\<lambda>_. False)) xs"
| "bits_exec (SetAll r) xs ys = edit r (map (\<lambda>_. True)) xs"
| "bits_exec (SetValue r b) xs ys = edit r (map (\<lambda>_. b)) xs"
| "bits_exec (ShiftLeft r k b) xs ys = edit r (\<lambda>s. take (length s) (replicate k b @ s)) xs"
| "bits_exec (ShiftRight r k b) xs ys = edit r (\<lambda>s. take (length s) (drop k s @ replicate k b)) xs"
| "bits_exec (ShiftRightArithmetic r k) xs ys = edit r (\<lambda>s. take (length s) (drop k s @ replicate k (last s))) xs"
| "bits_exec (RotateRight r k) xs ys = edit r (rotate k) xs"
| "bits_exec (RotateLeft r k) xs ys = edit r (\<lambda>s. rotate (length s - k mod length s) s) xs"
| "bits_exec (Negate r) xs ys = edit r (\<lambda>s. low_bits (length s) (2 ^ length s - num_of s)) xs"
| "bits_exec (Incr r) xs ys = edit r (\<lambda>s. low_bits (length s) (num_of s + 1)) xs"
| "bits_exec (Decr r) xs ys = edit r (\<lambda>s. low_bits (length s) (num_of s + 2 ^ length s - 1)) xs"
| "bits_exec Multiply10 xs ys = Some (low_bits (length xs) (10 * num_of xs))"
| "bits_exec (Invert r) xs ys = edit r (map Not) xs"
| "bits_exec (FromInteger r k) xs ys = edit r (\<lambda>s. low_bits (length s) (unat k)) xs"
| "bits_exec (CopyFrom r q) xs ys = combine r q (same_size (\<lambda>s u. u)) xs ys"
| "bits_exec (AddTo r q) xs ys = combine r q (same_size (\<lambda>s u. low_bits (length s) (num_of s + num_of u))) xs ys"
| "bits_exec (SubtractFrom r q) xs ys =
     combine r q (same_size (\<lambda>s u. low_bits (length s) (num_of s + 2 ^ length s - num_of u))) xs ys"
| "bits_exec (SignExtendFrom r q) xs ys =
     combine r q (\<lambda>s u. Some (take (length s) (u @ replicate (length s) (u \<noteq> [] \<and> last u)))) xs ys"
| "bits_exec (AndWith r q) xs ys = combine r q (same_size (map2 (\<and>))) xs ys"
| "bits_exec (OrWith r q) xs ys = combine r q (same_size (map2 (\<or>))) xs ys"
| "bits_exec (XorWith r q) xs ys = combine r q (same_size (map2 (\<noteq>))) xs ys"

text \<open>
  Swapping writes to each range what was in the other; within one vector the ranges must not
  overlap.
\<close>

fun bits_act :: "bv_action \<Rightarrow> (nat \<Rightarrow> bits) \<Rightarrow> (nat \<Rightarrow> bits) option" where
  "bits_act (Run c i j) t = do { xs \<leftarrow> bits_exec c (t i) (t j); Some (t(i := xs)) }"
| "bits_act (Swap r i q j) t =
     (if i = j \<and> overlaps r q then None
      else do {
        ys \<leftarrow> combine q r (same_size (\<lambda>s u. u)) (t j) (t i);
        xs \<leftarrow> combine r q (same_size (\<lambda>s u. u)) (if i = j then ys else t i) (t j);
        Some (t(j := ys, i := xs))
      })"

fun bits_acts :: "bv_action list \<Rightarrow> (nat \<Rightarrow> bits) \<Rightarrow> (nat \<Rightarrow> bits) option" where
  "bits_acts [] t = Some t"
| "bits_acts (a # as) t = do { u \<leftarrow> bits_act a t; bits_acts as u }"

section \<open>The abstraction\<close>

definition bv_bits :: "bitvector \<Rightarrow> bits" where
  "bv_bits v = map (vbit (bv_words v)) [0..<bv_size v]"

text \<open>A result of the class, and the result that the specification asks for.\<close>

definition implements :: "bitvector option \<Rightarrow> bits option \<Rightarrow> bool" where
  "implements x y \<longleftrightarrow> map_option bv_bits x = y \<and> (\<forall>v. x = Some v \<longrightarrow> bv_ok v)"

lemma length_bv_bits [simp]: "length (bv_bits v) = bv_size v"
  by (simp add: bv_bits_def)

lemma nth_bv_bits [simp]: "i < bv_size v \<Longrightarrow> bv_bits v ! i = vbit (bv_words v) i"
  by (simp add: bv_bits_def)

lemma bits_of_slice: "num_of (map f [0..<n]) = bval f n"
  by (simp add: num_of_def bval_def)

lemma slice_range [simp]:
  assumes "b + n \<le> bv_size v"
  shows "slice (bv_bits v) (range_of b n) = map (\<lambda>i. vbit (bv_words v) (b + i)) [0..<n]"
  by (cases "n = 0") (use assms in \<open>auto simp: slice_def intro!: nth_equalityI\<close>)

lemma inside_range [simp]: "inside xs (range_of b n) \<longleftrightarrow> n = 0 \<or> b + n \<le> length xs"
  by (cases "n = 0") (auto simp: inside_def)

lemma bv_bits_update:
  assumes "bv_ok v" "b + n \<le> bv_size v"
  shows "bv_bits (v\<lparr>bv_words := vupd (bv_words v) b n g\<rparr>) = overwrite (bv_bits v) (range_of b n) (map g [0..<n])"
proof (cases "n = 0")
  case False
  have "vbit (vupd (bv_words v) b n g) i = (if b \<le> i \<and> i < b + n then g (i - b) else vbit (bv_words v) i)" for i
    by (rule vbit_vupd) (rule bv_fits_range [OF assms])
  then show ?thesis
    using False assms(2) by (intro nth_equalityI) (auto simp: bv_bits_def overwrite_def range_of_def nth_append)
qed (simp add: overwrite_def)

lemma checkRange_inside:
  assumes "ivl_ok r"
  shows "checkRange v r = require (inside (bv_bits v) r)"
  by (subst (1 2) ivl_ok_range_of [OF assms]) (simp only: checkRange_eq inside_range length_bv_bits)

lemma inside_cases:
  assumes "ivl_ok r" "inside (bv_bits v) r"
  obtains b n where "r = range_of b n" "b + n \<le> bv_size v"
proof (cases "interval_size r = 0")
  case True
  with assms(1) have "r = range_of 0 0" using ivl_ok_range_of [of r] by (simp add: range_of_def)
  then show ?thesis using that [of 0 0] by simp
next
  case False
  with assms that [of "ilo r" "interval_size r"] ivl_ok_range_of [OF assms(1)] show ?thesis by (simp add: inside_def)
qed

lemma implements_edit:
  assumes ok: "bv_ok v" and r: "ivl_ok r"
    and f: "\<And>b n. b + n \<le> bv_size v \<Longrightarrow> f (range_of b n) = Some (vupd (bv_words v) b n (g b n))"
    and h: "\<And>b n. b + n \<le> bv_size v \<Longrightarrow> map (g b n) [0..<n] = h (map (\<lambda>i. vbit (bv_words v) (b + i)) [0..<n])"
  shows "implements (do { checkRange v r; on_words v (f r) }) (edit r h (bv_bits v))"
proof (cases "inside (bv_bits v) r")
  case True
  obtain b n where bn: "r = range_of b n" "b + n \<le> bv_size v" by (rule inside_cases [OF r True])
  with f [OF bn(2)] h [OF bn(2)] ok True show ?thesis
    by (auto simp: implements_def edit_def checkRange_inside [OF r] on_words_def bv_bits_update bv_ok_def)
qed (simp add: implements_def edit_def checkRange_inside [OF r])

lemma implements_combine:
  assumes ok: "bv_ok v" "bv_ok w" and r: "ivl_ok r" and q: "ivl_ok q"
    and f: "\<And>b n c m. b + n \<le> bv_size v \<Longrightarrow> c + m \<le> bv_size w \<Longrightarrow>
      f (range_of b n) (range_of c m) = (if P n m then Some (vupd (bv_words v) b n (g b n c m)) else None)"
    and h: "\<And>b n c m. b + n \<le> bv_size v \<Longrightarrow> c + m \<le> bv_size w \<Longrightarrow>
      h (map (\<lambda>i. vbit (bv_words v) (b + i)) [0..<n]) (map (\<lambda>i. vbit (bv_words w) (c + i)) [0..<m])
        = (if P n m then Some (map (g b n c m) [0..<n]) else None)"
  shows "implements (do { checkRange v r; checkRange w q; on_words v (f r q) }) (combine r q h (bv_bits v) (bv_bits w))"
proof (cases "inside (bv_bits v) r \<and> inside (bv_bits w) q")
  case True
  obtain b n where bn: "r = range_of b n" "b + n \<le> bv_size v" by (rule inside_cases [OF r]) (use True in auto)
  obtain c m where cm: "q = range_of c m" "c + m \<le> bv_size w" by (rule inside_cases [OF q]) (use True in auto)
  from f [OF bn(2) cm(2)] h [OF bn(2) cm(2)] bn cm ok(1) True show ?thesis
    by (auto simp: implements_def combine_def checkRange_inside [OF r] checkRange_inside [OF q] on_words_def bv_bits_update bv_ok_def)
qed (auto simp: implements_def combine_def checkRange_inside [OF r] checkRange_inside [OF q])

section \<open>Every mutator implements its specification\<close>

lemma snd_on_words2: "map_option snd (on_words2 v r) = on_words v (map_option snd r)"
  by (cases r) (auto simp: on_words_def on_words2_def)

lemma map_option_of_bind: "map_option f (Option.bind m g) = Option.bind m (\<lambda>x. map_option f (g x))"
  by (cases m) auto

lemma two_range_size:
  assumes "traverse2_LowToHigh pw s vec1 (range_of b1 n1) vec2 (range_of b2 n2) = Some z"
  shows "n1 = n2"
  using assms by (auto simp: traverse2_LowToHigh_def split: if_splits)

lemma two_range_sizes:
  "copy vec1 (range_of b1 n1) vec2 (range_of b2 n2) = Some z \<Longrightarrow> n1 = n2"
  "bitwiseAnd vec1 (range_of b1 n1) vec2 (range_of b2 n2) = Some z \<Longrightarrow> n1 = n2"
  "bitwiseOr vec1 (range_of b1 n1) vec2 (range_of b2 n2) = Some z \<Longrightarrow> n1 = n2"
  "bitwiseXor vec1 (range_of b1 n1) vec2 (range_of b2 n2) = Some z \<Longrightarrow> n1 = n2"
  "add vec1 (range_of b1 n1) vec2 (range_of b2 n2) c = Some y \<Longrightarrow> n1 = n2"
  by (auto simp: copy_def bitwiseAnd_def bitwiseOr_def bitwiseXor_def add_def bind_eq_Some_conv dest: two_range_size)

lemma subtract_size:
  fixes vec1 vec2 :: "'w::len word list"
  assumes "subtract vec1 (range_of b1 n1) vec2 (range_of b2 n2) = Some y"
  shows "n1 = n2"
  using assms by (auto simp: subtract_def Let_def bind_eq_Some_conv dest: two_range_sizes)

lemmas range_defs = BitVector_clear_range_def BitVector_set_range_def BitVector_setValue_range_def BitVector_copy_def
  BitVector_shiftLeft_range_def BitVector_shiftRight_range_def BitVector_shiftRightArithmetic_range_def
  BitVector_rotateRight_range_def BitVector_rotateLeft_range_def BitVector_negate_range_def
  BitVector_increment_range_def BitVector_decrement_range_def BitVector_add_ranges_def
  BitVector_subtract_ranges_def BitVector_signExtend_ranges_def BitVector_invert_range_def
  BitVector_bitwiseAnd_ranges_def BitVector_bitwiseOr_ranges_def BitVector_bitwiseXor_ranges_def
  BitVector_fromInteger_range_def

lemma num_of_range [simp]: "num_of (map (\<lambda>i. vbit ws (b + i)) [0..<n]) = vval ws b n"
  by (simp add: bits_of_slice vval_def)

lemma low_bits_unat: "low_bits n (unat w) = map (bit w) [0..<n]"
  by (simp add: low_bits_def bit_unsigned_iff [where 'a = nat] bit_imp_le_length cong: conj_cong)

lemma resize_implements:
  assumes ok: "bv_ok v"
  shows "implements (BitVector_resize v n b) (bits_exec (Resize n b) (bv_bits v) ys)"
proof -
  define N where "N = numberOfWords TYPE(32) n"
  define ws where "ws = resize_words (bv_words v) N 0"
  have len: "length ws = N" by (simp add: ws_def)
  have fits: "n \<le> length ws * LENGTH(32)"
    using numberOfWords_enough [where 'w = 32, of n] by (simp add: len N_def)
  have old: "vbit ws i = vbit (bv_words v) i" if "i < n" for i
    using that fits by (simp add: ws_def vbit_resize_words)
  consider (zero) "n = 0" | (grow) "bv_size v < n" | (shrink) "0 < n" "n \<le> bv_size v" by linarith
  then show ?thesis
  proof cases
    case zero
    then show ?thesis
      by (simp add: implements_def BitVector_resize_def bv_bits_def bv_ok_def numberOfWords_def bitsPerWord_def)
  next
    case grow
    let ?m = "bv_size v"
    have f: "?m + (n - ?m) \<le> length ws * LENGTH(32)" using fits grow by simp
    have "hull ?m (n - 1) = range_of ?m (n - ?m)" using grow by (subst hull_nat) auto
    then have "setValue ws (hull ?m (n - 1)) b = Some (vupd ws ?m (n - ?m) (\<lambda>_. b))"
      using setValue_eq [OF f, of b] by simp
    then have "BitVector_resize v n b = Some \<lparr>bv_words = vupd ws ?m (n - ?m) (\<lambda>_. b), bv_size = n\<rparr>"
      using grow by (simp add: BitVector_resize_def N_def [symmetric] ws_def [symmetric])
    moreover have "bv_bits \<lparr>bv_words = vupd ws ?m (n - ?m) (\<lambda>_. b), bv_size = n\<rparr> = take n (bv_bits v) @ replicate (n - ?m) b"
      using grow old by (intro nth_equalityI) (auto simp: bv_bits_def nth_append vbit_vupd [OF f])
    ultimately show ?thesis by (simp add: implements_def bv_ok_def len N_def)
  next
    case shrink
    then have "BitVector_resize v n b = Some \<lparr>bv_words = ws, bv_size = n\<rparr>"
      by (simp add: BitVector_resize_def N_def [symmetric] ws_def [symmetric])
    moreover have "bv_bits \<lparr>bv_words = ws, bv_size = n\<rparr> = take n (bv_bits v)"
      using shrink old by (intro nth_equalityI) (auto simp: bv_bits_def)
    ultimately show ?thesis using shrink by (simp add: implements_def bv_ok_def len N_def)
  qed
qed

lemma shift_lists:
  fixes f :: "nat \<Rightarrow> bool"
  shows "map (\<lambda>i. if k \<le> i then f (i - k) else v) [0..<n] = take n (replicate k v @ map f [0..<n])"
    and "map (\<lambda>i. if i + k < n then f (i + k) else v) [0..<n] = take n (drop k (map f [0..<n]) @ replicate k v)"
    and "map (\<lambda>i. f (if i + k < n then i + k else n - 1)) [0..<n]
           = take n (drop k (map f [0..<n]) @ replicate k (last (map f [0..<n])))"
    and "map (\<lambda>i. f ((i + k) mod n)) [0..<n] = rotate k (map f [0..<n])"
    and "map (\<lambda>i. 0 < m \<and> f (if i < m then i else m - 1)) [0..<n]
           = take n (map f [0..<m] @ replicate n (map f [0..<m] \<noteq> [] \<and> last (map f [0..<m])))"
  by (auto simp: nth_append nth_rotate last_conv_nth add.commute split: if_splits intro!: nth_equalityI)

lemmas shift_slices = shift_lists [where f = "\<lambda>i. vbit ws (b + i)" for ws b]

lemma shift_implements:
  assumes "bv_ok v" "ivl_ok r"
  shows "implements (BitVector_shiftLeft_range v r k b) (bits_exec (ShiftLeft r k b) (bv_bits v) ys)"
    and "implements (BitVector_shiftRight_range v r k b) (bits_exec (ShiftRight r k b) (bv_bits v) ys)"
    and "implements (BitVector_shiftRightArithmetic_range v r k) (bits_exec (ShiftRightArithmetic r k) (bv_bits v) ys)"
    and "implements (BitVector_rotateRight_range v r k) (bits_exec (RotateRight r k) (bv_bits v) ys)"
    and "implements (BitVector_rotateLeft_range v r k) (bits_exec (RotateLeft r k) (bv_bits v) ys)"
  unfolding range_defs bits_exec.simps
  by (rule implements_edit [OF assms], erule shiftLeft_eq [OF bv_fits_range [OF assms(1)]], simp add: shift_slices(1))
     (rule implements_edit [OF assms], erule shiftRight_eq [OF bv_fits_range [OF assms(1)]], simp add: shift_slices(2),
      rule implements_edit [OF assms], erule shiftRightArithmetic_eq [OF bv_fits_range [OF assms(1)]], simp add: shift_slices(3),
      rule implements_edit [OF assms], erule rotateRight_eq [OF bv_fits_range [OF assms(1)]], simp add: shift_slices(4),
      rule implements_edit [OF assms], erule rotateLeft_eq [OF bv_fits_range [OF assms(1)]], simp add: shift_slices(4))

lemma value_implements:
  assumes "bv_ok v" "ivl_ok r"
  shows "implements (BitVector_clear_range v r) (bits_exec (Clear r) (bv_bits v) ys)"
    and "implements (BitVector_set_range v r) (bits_exec (SetAll r) (bv_bits v) ys)"
    and "implements (BitVector_setValue_range v r b) (bits_exec (SetValue r b) (bv_bits v) ys)"
    and "implements (BitVector_invert_range v r) (bits_exec (Invert r) (bv_bits v) ys)"
    and "implements (BitVector_fromInteger_range v r x) (bits_exec (FromInteger r x) (bv_bits v) ys)"
  unfolding range_defs bits_exec.simps
  by (rule implements_edit [OF assms], erule clear_eq [OF bv_fits_range [OF assms(1)]], simp)
     (rule implements_edit [OF assms], erule set_bits_eq [OF bv_fits_range [OF assms(1)]], simp,
      rule implements_edit [OF assms], erule setValue_eq [OF bv_fits_range [OF assms(1)]], simp,
      rule implements_edit [OF assms], erule invert_eq [OF bv_fits_range [OF assms(1)]], simp,
      rule implements_edit [OF assms], erule fromInteger_eq [OF bv_fits_range [OF assms(1)]], simp add: low_bits_unat)

lemma number_implements:
  assumes "bv_ok v" "ivl_ok r"
  shows "implements (BitVector_negate_range v r) (bits_exec (Negate r) (bv_bits v) ys)"
    and "implements (map_option snd (BitVector_increment_range v r)) (bits_exec (Incr r) (bv_bits v) ys)"
    and "implements (map_option snd (BitVector_decrement_range v r)) (bits_exec (Decr r) (bv_bits v) ys)"
  unfolding range_defs bits_exec.simps map_option_of_bind snd_on_words2
  by (rule implements_edit [OF assms], erule negate_eq [OF bv_fits_range [OF assms(1)]], simp add: low_bits_def)
     (rule implements_edit [OF assms], subst increment_eq [OF bv_fits_range [OF assms(1)]], assumption, simp, simp add: low_bits_def,
      rule implements_edit [OF assms], subst decrement_eq [OF bv_fits_range [OF assms(1)]], assumption, simp, simp add: low_bits_def)

lemma multiply10_implements:
  assumes "bv_ok v"
  shows "implements (BitVector_multiply10 v) (bits_exec Multiply10 (bv_bits v) ys)"
proof -
  have "num_of (bv_bits v) = vval (bv_words v) 0 (bv_size v)" by (simp add: bv_bits_def bits_of_slice vval_def)
  moreover have "bv_bits (v\<lparr>bv_words := vupd (bv_words v) 0 (bv_size v) g\<rparr>) = map g [0..<bv_size v]" for g
    using bv_bits_update [OF assms, of 0 "bv_size v" g] by (cases "bv_size v = 0") (auto simp: overwrite_def bv_bits_def)
  ultimately show ?thesis
    using multiply10_eq [OF bv_fits [OF assms]] assms
    by (simp add: implements_def BitVector_multiply10_def on_words_def low_bits_def bv_ok_def)
qed

text \<open>Two ranges of different sizes are refused.\<close>

lemma different_sizes:
  assumes "n \<noteq> m"
  shows "copy ws (range_of c m) vs (range_of b n) = None" "add ws (range_of c m) vs (range_of b n) cin = None"
    "subtract ws (range_of c m) vs (range_of b n) = None" "bitwiseAnd ws (range_of c m) vs (range_of b n) = None"
    "bitwiseOr ws (range_of c m) vs (range_of b n) = None" "bitwiseXor ws (range_of c m) vs (range_of b n) = None"
proof -
  have "x = None" if "\<And>y. x = Some y \<Longrightarrow> m = n" for x :: "'z option" using that assms by (cases x) auto
  note none = this
  show "copy ws (range_of c m) vs (range_of b n) = None" by (rule none) (rule two_range_sizes)
  show "bitwiseAnd ws (range_of c m) vs (range_of b n) = None" by (rule none) (rule two_range_sizes)
  show "bitwiseOr ws (range_of c m) vs (range_of b n) = None" by (rule none) (rule two_range_sizes)
  show "bitwiseXor ws (range_of c m) vs (range_of b n) = None" by (rule none) (rule two_range_sizes)
  show "add ws (range_of c m) vs (range_of b n) cin = None" by (rule none) (rule two_range_sizes)
  show "subtract ws (range_of c m) vs (range_of b n) = None" by (rule none) (rule subtract_size)
qed

lemma combine_implements:
  assumes ok: "bv_ok v" "bv_ok w" and rq: "ivl_ok r" "ivl_ok q"
  shows "implements (BitVector_copy v r w q) (bits_exec (CopyFrom r q) (bv_bits v) (bv_bits w))"
    and "implements (BitVector_bitwiseAnd_ranges v r w q) (bits_exec (AndWith r q) (bv_bits v) (bv_bits w))"
    and "implements (BitVector_bitwiseOr_ranges v r w q) (bits_exec (OrWith r q) (bv_bits v) (bv_bits w))"
    and "implements (BitVector_bitwiseXor_ranges v r w q) (bits_exec (XorWith r q) (bv_bits v) (bv_bits w))"
    and "implements (map_option snd (BitVector_add_ranges v r w q)) (bits_exec (AddTo r q) (bv_bits v) (bv_bits w))"
    and "implements (map_option snd (BitVector_subtract_ranges v r w q)) (bits_exec (SubtractFrom r q) (bv_bits v) (bv_bits w))"
    and "implements (BitVector_signExtend_ranges v r w q) (bits_exec (SignExtendFrom r q) (bv_bits v) (bv_bits w))"
  unfolding range_defs bits_exec.simps map_option_of_bind snd_on_words2
proof -
  note fits = bv_fits_range [OF ok(1), simplified] bv_fits_range [OF ok(2), simplified]
  show "implements (do { checkRange v r; checkRange w q; on_words v (copy (bv_words w) q (bv_words v) r) })
      (combine r q (same_size (\<lambda>s u. u)) (bv_bits v) (bv_bits w))"
    by (rule implements_combine [OF ok rq, where f = "\<lambda>r q. copy (bv_words w) q (bv_words v) r" and P = "(=)" and
        g = "\<lambda>b n c m i. vbit (bv_words w) (c + i)"]) (auto simp: same_size_def different_sizes fits)
  show "implements (do { checkRange v r; checkRange w q; on_words v (bitwiseAnd (bv_words w) q (bv_words v) r) })
      (combine r q (same_size (map2 (\<and>))) (bv_bits v) (bv_bits w))"
    by (rule implements_combine [OF ok rq, where f = "\<lambda>r q. bitwiseAnd (bv_words w) q (bv_words v) r" and P = "(=)" and
        g = "\<lambda>b n c m i. vbit (bv_words v) (b + i) \<and> vbit (bv_words w) (c + i)"])
      (auto simp: same_size_def different_sizes fits map2_map_map)
  show "implements (do { checkRange v r; checkRange w q; on_words v (bitwiseOr (bv_words w) q (bv_words v) r) })
      (combine r q (same_size (map2 (\<or>))) (bv_bits v) (bv_bits w))"
    by (rule implements_combine [OF ok rq, where f = "\<lambda>r q. bitwiseOr (bv_words w) q (bv_words v) r" and P = "(=)" and
        g = "\<lambda>b n c m i. vbit (bv_words v) (b + i) \<or> vbit (bv_words w) (c + i)"])
      (auto simp: same_size_def different_sizes fits map2_map_map)
  show "implements (do { checkRange v r; checkRange w q; on_words v (bitwiseXor (bv_words w) q (bv_words v) r) })
      (combine r q (same_size (map2 (\<noteq>))) (bv_bits v) (bv_bits w))"
    by (rule implements_combine [OF ok rq, where f = "\<lambda>r q. bitwiseXor (bv_words w) q (bv_words v) r" and P = "(=)" and
        g = "\<lambda>b n c m i. vbit (bv_words v) (b + i) \<noteq> vbit (bv_words w) (c + i)"])
      (auto simp: same_size_def different_sizes fits map2_map_map)
  show "implements (do { checkRange v r; checkRange w q; on_words v (map_option snd (add (bv_words w) q (bv_words v) r False)) })
      (combine r q (same_size (\<lambda>s u. low_bits (length s) (num_of s + num_of u))) (bv_bits v) (bv_bits w))"
    by (rule implements_combine [OF ok rq, where f = "\<lambda>r q. map_option snd (add (bv_words w) q (bv_words v) r False)" and P = "(=)" and
        g = "\<lambda>b n c m. bit (vval (bv_words w) c m + vval (bv_words v) b n)"])
      (auto simp: same_size_def different_sizes fits low_bits_def add.commute [of "vval (bv_words v) b n" for b n])
  show "implements (do { checkRange v r; checkRange w q; on_words v (map_option snd (subtract (bv_words w) q (bv_words v) r)) })
      (combine r q (same_size (\<lambda>s u. low_bits (length s) (num_of s + 2 ^ length s - num_of u))) (bv_bits v) (bv_bits w))"
    by (rule implements_combine [OF ok rq, where f = "\<lambda>r q. map_option snd (subtract (bv_words w) q (bv_words v) r)" and P = "(=)" and
        g = "\<lambda>b n c m. bit (vval (bv_words v) b n + 2 ^ n - vval (bv_words w) c m)"])
      (auto simp: same_size_def different_sizes fits low_bits_def)
  show "implements (do { checkRange v r; checkRange w q; on_words v (map_option snd (signExtend (bv_words w) q (bv_words v) r)) })
      (combine r q (\<lambda>s u. Some (take (length s) (u @ replicate (length s) (u \<noteq> [] \<and> last u)))) (bv_bits v) (bv_bits w))"
    by (rule implements_combine [OF ok rq, where f = "\<lambda>r q. map_option snd (signExtend (bv_words w) q (bv_words v) r)" and P = "\<lambda>_ _. True" and
        g = "\<lambda>b n c m i. 0 < m \<and> vbit (bv_words w) (c + (if i < m then i else m - 1))"])
      (simp_all add: fits shift_slices(5))
qed

lemma bv_exec_implements:
  assumes "bv_ok v" "bv_ok w" "list_all ivl_ok (command_ranges c)"
  shows "implements (bv_exec c v w) (bits_exec c (bv_bits v) (bv_bits w))"
proof -
  have "implements (Some (BitVector_assign v w)) (Some (bv_bits w))"
    using assms(2) by (simp add: implements_def BitVector_assign_def bv_bits_def bv_ok_def)
  with assms show ?thesis
    by (cases c) (simp_all add: resize_implements value_implements shift_implements number_implements
        multiply10_implements combine_implements del: bits_exec.simps, simp)
qed

text \<open>
  The overloads that take no range are the commands on the whole vector.
\<close>

lemma whole_vector:
  "BitVector_clear v = BitVector_clear_range v (BitVector_hull v)"
  "BitVector_set v = BitVector_set_range v (BitVector_hull v)"
  "BitVector_setValue v b = BitVector_setValue_range v (BitVector_hull v) b"
  "BitVector_shiftLeft v k b = BitVector_shiftLeft_range v (BitVector_hull v) k b"
  "BitVector_shiftRight v k b = BitVector_shiftRight_range v (BitVector_hull v) k b"
  "BitVector_shiftRightArithmetic v k = BitVector_shiftRightArithmetic_range v (BitVector_hull v) k"
  "BitVector_rotateRight v k = BitVector_rotateRight_range v (BitVector_hull v) k"
  "BitVector_rotateLeft v k = BitVector_rotateLeft_range v (BitVector_hull v) k"
  "BitVector_negate v = BitVector_negate_range v (BitVector_hull v)"
  "BitVector_increment v = BitVector_increment_range v (BitVector_hull v)"
  "BitVector_decrement v = BitVector_decrement_range v (BitVector_hull v)"
  "BitVector_invert v = BitVector_invert_range v (BitVector_hull v)"
  "BitVector_fromInteger v x = BitVector_fromInteger_range v (BitVector_hull v) x"
  "BitVector_add v w = BitVector_add_ranges v (BitVector_hull v) w (BitVector_hull w)"
  "BitVector_subtract v w = BitVector_subtract_ranges v (BitVector_hull v) w (BitVector_hull w)"
  "BitVector_signExtend v w = BitVector_signExtend_ranges v (BitVector_hull v) w (BitVector_hull w)"
  "BitVector_bitwiseAnd v w = BitVector_bitwiseAnd_ranges v (BitVector_hull v) w (BitVector_hull w)"
  "BitVector_bitwiseOr v w = BitVector_bitwiseOr_ranges v (BitVector_hull v) w (BitVector_hull w)"
  "BitVector_bitwiseXor v w = BitVector_bitwiseXor_ranges v (BitVector_hull v) w (BitVector_hull w)"
  by (simp_all add: range_defs BitVector_clear_def BitVector_set_def BitVector_setValue_def BitVector_shiftLeft_def
      BitVector_shiftRight_def BitVector_shiftRightArithmetic_def BitVector_rotateRight_def BitVector_rotateLeft_def
      BitVector_negate_def BitVector_increment_def BitVector_decrement_def BitVector_invert_def BitVector_fromInteger_def
      BitVector_add_def BitVector_subtract_def BitVector_signExtend_def BitVector_bitwiseAnd_def BitVector_bitwiseOr_def
      BitVector_bitwiseXor_def)

section \<open>Swapping\<close>

lemma swap_sizes:
  "n \<noteq> m \<Longrightarrow> swap_bits vs (range_of b n) ws (range_of c m) = None"
  "n \<noteq> m \<Longrightarrow> swap_same vs (range_of b n) (range_of c m) = None"
  by (auto simp: swap_bits_def swap_same_def traverse2_LowToHigh_def)

text \<open>A swap is a copy in each direction, from what the vectors held before.\<close>

lemma swap_copies:
  assumes ok: "bv_ok v" "bv_ok w" and rq: "ivl_ok r" "ivl_ok q"
  shows "BitVector_swap v r w q = do { w' \<leftarrow> BitVector_copy w q v r; v' \<leftarrow> BitVector_copy v r w q; Some (v', w') }"
proof (cases "inside (bv_bits v) r \<and> inside (bv_bits w) q")
  case True
  obtain b n where bn: "r = range_of b n" "b + n \<le> bv_size v" by (rule inside_cases [OF rq(1)]) (use True in auto)
  obtain c m where cm: "q = range_of c m" "c + m \<le> bv_size w" by (rule inside_cases [OF rq(2)]) (use True in auto)
  note fits = bv_fits_range [OF ok(1), simplified] bv_fits_range [OF ok(2), simplified]
  show ?thesis
    by (cases "n = m") (use bn cm in \<open>auto simp: BitVector_swap_def BitVector_copy_def on_words_def swap_sizes different_sizes fits\<close>)
qed (auto simp: BitVector_swap_def BitVector_copy_def checkRange_inside [OF rq(1)] checkRange_inside [OF rq(2)])

lemma swap_same_copies:
  assumes ok: "bv_ok v" and rq: "ivl_ok r" "ivl_ok q"
  shows "BitVector_swap_same v r q = (if overlaps r q then None
    else do { w \<leftarrow> BitVector_copy v q v r; BitVector_copy w r v q })"
proof (cases "inside (bv_bits v) r \<and> inside (bv_bits v) q")
  case True
  obtain b n where bn: "r = range_of b n" "b + n \<le> bv_size v" by (rule inside_cases [OF rq(1)]) (use True in auto)
  obtain c m where cm: "q = range_of c m" "c + m \<le> bv_size v" by (rule inside_cases [OF rq(2)]) (use True in auto)
  note fits = bv_fits_range [OF ok(1), simplified]
  show ?thesis
    by (cases "n = m") (use bn cm in \<open>auto simp: BitVector_swap_same_def BitVector_copy_def on_words_def swap_sizes different_sizes fits\<close>)
qed (auto simp: BitVector_swap_same_def BitVector_copy_def checkRange_inside [OF rq(1)] checkRange_inside [OF rq(2)])

lemma implements_cases:
  assumes "implements x y"
  obtains "x = None" "y = None" | v where "x = Some v" "y = Some (bv_bits v)" "bv_ok v"
  using assms by (cases x) (auto simp: implements_def)

lemma bv_act_implements:
  assumes ok: "\<forall>i. bv_ok (t i)" and ranges: "list_all ivl_ok (action_ranges a)"
  shows "map_option (\<lambda>u i. bv_bits (u i)) (bv_act a t) = bits_act a (\<lambda>i. bv_bits (t i))"
    and "bv_act a t = Some u \<Longrightarrow> bv_ok (u i)"
proof -
  have "map_option (\<lambda>u i. bv_bits (u i)) (bv_act a t) = bits_act a (\<lambda>i. bv_bits (t i)) \<and>
    (\<forall>u i. bv_act a t = Some u \<longrightarrow> bv_ok (u i))"
  proof (cases a)
    case (Run c i j)
    with ok ranges have "implements (bv_exec c (t i) (t j)) (bits_exec c (bv_bits (t i)) (bv_bits (t j)))"
      by (intro bv_exec_implements) auto
    then show ?thesis by (rule implements_cases) (use Run ok in auto)
  next
    case (Swap r i q j)
    then have rq: "ivl_ok r" "ivl_ok q" using ranges by auto
    show ?thesis
    proof (cases "i = j")
      case True
      have "implements (BitVector_copy (t i) q (t i) r) (combine q r (same_size (\<lambda>s u. u)) (bv_bits (t i)) (bv_bits (t i)))"
        using combine_implements(1) ok rq by simp
      then show ?thesis
      proof (rule implements_cases)
        fix w assume w: "BitVector_copy (t i) q (t i) r = Some w" "bv_ok w"
          "combine q r (same_size (\<lambda>s u. u)) (bv_bits (t i)) (bv_bits (t i)) = Some (bv_bits w)"
        then have "implements (BitVector_copy w r (t i) q) (combine r q (same_size (\<lambda>s u. u)) (bv_bits w) (bv_bits (t i)))"
          using combine_implements(1) [of w "t i" r q] ok rq by simp
        then show ?thesis
          by (rule implements_cases) (use w Swap True ok swap_same_copies [OF spec [OF ok, of i] rq] in auto)
      qed (use Swap True ok swap_same_copies [OF spec [OF ok, of i] rq] in auto)
    next
      case False
      have "implements (BitVector_copy (t j) q (t i) r) (combine q r (same_size (\<lambda>s u. u)) (bv_bits (t j)) (bv_bits (t i)))"
        "implements (BitVector_copy (t i) r (t j) q) (combine r q (same_size (\<lambda>s u. u)) (bv_bits (t i)) (bv_bits (t j)))"
        using combine_implements(1) ok rq by simp_all
      with swap_copies [OF spec [OF ok, of i] spec [OF ok, of j] rq] Swap False ok show ?thesis
        by (auto intro!: ext elim!: implements_cases)
    qed
  qed
  then show "map_option (\<lambda>u i. bv_bits (u i)) (bv_act a t) = bits_act a (\<lambda>i. bv_bits (t i))"
    and "bv_act a t = Some u \<Longrightarrow> bv_ok (u i)" by blast+
qed

section \<open>The property\<close>

text \<open>
  C15. \<^verbatim>\<open>BitVector\<close> refines lists of booleans. A client owns any number of well-formed vectors and
  runs any sequence of mutators on them (resizing, assignment, clearing, setting, copying, swapping,
  shifting, rotating, negating, incrementing, decrementing, adding, subtracting, multiplying by ten,
  sign extending, inverting, the bitwise operators and conversion from an integer; with other vectors
  of the table or the same vector as the second operand), with ranges of its choice. The run of the
  word-wise implementation fails exactly when the run on the lists does (a range outside of its
  vector, two ranges of different sizes, a swap of overlapping ranges of one vector); otherwise the
  vectors hold exactly the bits of the lists at the end, and each still has exactly the words that
  its bits need. The conversions from strings and bytes and \<^verbatim>\<open>multiply10\<close> of a range are not among
  the mutators.
\<close>

theorem bitvector_refines:
  assumes "\<forall>i. bv_ok (t i)" "list_all (\<lambda>a. list_all ivl_ok (action_ranges a)) as"
  shows "map_option (\<lambda>u i. bv_bits (u i)) (bv_acts as t) = bits_acts as (\<lambda>i. bv_bits (t i)) \<and>
    (\<forall>u i. bv_acts as t = Some u \<longrightarrow> bv_ok (u i))"
  using assms
proof (induction as arbitrary: t)
  case (Cons a as)
  show ?case
  proof (cases "bv_act a t")
    case None
    with bv_act_implements(1) [of t a] Cons.prems show ?thesis by auto
  next
    case (Some u)
    with bv_act_implements [of t a] Cons.prems
    have "bits_act a (\<lambda>i. bv_bits (t i)) = Some (\<lambda>i. bv_bits (u i))" "\<forall>i. bv_ok (u i)" by fastforce+
    with Some Cons.IH [of u] Cons.prems show ?thesis by auto
  qed
qed simp

text \<open>Two vectors of six bits; an addition carries out of its range and the low halves are swapped.\<close>

theorem bitvector_refines_witness:
  "map_option (\<lambda>u. (bv_bits (u 0), bv_bits (u 1)))
     (bv_acts [Run (Resize 6 True) 0 0, Run Assign 1 0, Run (Clear (range_of 0 2)) 1 1,
        Run (AddTo (range_of 1 3) (range_of 2 3)) 0 1, Run (ShiftLeft (range_of 0 6) 2 False) 1 1,
        Swap (range_of 0 3) 0 (range_of 3 3) 1] (\<lambda>_. BitVector_empty))
   = Some ([False, True, True, True, True, True], [False, False, False, True, False, True])"
  (is "map_option _ (bv_acts ?as ?t) = _")
proof -
  have "\<forall>i :: nat. bv_ok (?t i)" by (simp add: BitVector_empty_def bv_ok_def numberOfWords_def bitsPerWord_def)
  moreover have "list_all (\<lambda>a. list_all ivl_ok (action_ranges a)) ?as" by (simp add: range_of_def ivl_ok_def isEmpty_def)
  ultimately have "map_option (\<lambda>u i. bv_bits (u i)) (bv_acts ?as ?t) = bits_acts ?as (\<lambda>i. bv_bits (?t i))"
    by (rule conjunct1 [OF bitvector_refines])
  then have "map_option (\<lambda>u. (u 0, u 1)) (map_option (\<lambda>u i. bv_bits (u i)) (bv_acts ?as ?t)) =
      map_option (\<lambda>u. (u 0, u 1)) (bits_acts ?as (\<lambda>i. bv_bits (?t i)))" by simp
  also have "\<dots> = Some ([False, True, True, True, True, True], [False, False, False, True, False, True])" by code_simp
  finally show ?thesis by (simp add: option.map_comp comp_def)
qed

end
