(* ===== verification/Interval_Map.thy ===== *)
theory Interval_Map
  imports Sawyer_Interval
begin

text \<open>
  Interval maps and interval sets: the class templates \<^verbatim>\<open>IntervalMap<Interval, Value>\<close> with the
  default \<^verbatim>\<open>MergePolicy\<close> (\<^verbatim>\<open>src/Sawyer/IntervalMap.h\<close>) and \<^verbatim>\<open>IntervalSet<Interval>\<close>
  (\<^verbatim>\<open>src/Sawyer/IntervalSet.h\<close>), whose map holds the number zero for every member.

  The underlying \<^verbatim>\<open>Container::Map\<close> is ordered by the greatest value of its keys; it is the list of
  its nodes in that order. An iterator is the rest of that list. The end points are read after a test for
  emptiness, so that the members \<^verbatim>\<open>least\<close> and \<^verbatim>\<open>greatest\<close> of an interval are its fields here.

  The locale \<open>scalar\<close> states what the lemmas need of the type of the end points; it is interpreted for the
  64-bit words of the program and for the natural numbers that stand for bit positions.
\<close>

section \<open>The class\<close>

type_synonym ('a, 'v) node = "'a interval \<times> 'v"

record ('a, 'v) interval_map =
  im_map :: "('a, 'v) node list"
  im_size :: 'a

definition policy_merge :: "'v \<Rightarrow> 'v \<Rightarrow> bool" where
  "policy_merge leftValue rightValue \<longleftrightarrow> leftValue = rightValue"

definition policy_split :: "'v \<Rightarrow> 'v" where
  "policy_split value = value"

definition splitInterval :: "'a::{linorder,zero,one,minus} interval \<Rightarrow> 'a \<Rightarrow> ('a interval \<times> 'a interval) option" where
  "splitInterval interval splitPoint = do {
     require (\<not> isEmpty interval);
     require (splitPoint > ilo interval \<and> splitPoint \<le> ihi interval);
     Some (hull (ilo interval) (splitPoint - 1), hull splitPoint (ihi interval))
   }"

definition isLarge :: "'a::{linorder,zero,one,plus,minus} interval \<Rightarrow> 'a \<Rightarrow> bool" where
  "isLarge interval sz \<longleftrightarrow> \<not> isEmpty interval \<and> (interval_size interval = 0 \<or> interval_size interval \<ge> sz)"

subsection \<open>The ordered map of nodes\<close>

fun map_insert :: "'a::linorder interval \<Rightarrow> 'v \<Rightarrow> ('a, 'v) node list \<Rightarrow> ('a, 'v) node list" where
  "map_insert k v [] = [(k, v)]"
| "map_insert k v ((k', v') # ns) =
     (if ihi k' < ihi k then (k', v') # map_insert k v ns
      else if ihi k < ihi k' then (k, v) # (k', v') # ns
      else (k', v) # ns)"

definition map_insertMultiple :: "('a::linorder, 'v) node list \<Rightarrow> ('a, 'v) node list \<Rightarrow> ('a, 'v) node list" where
  "map_insertMultiple ns others = fold (\<lambda>(k, v). map_insert k v) others ns"

definition map_eraseAt :: "('a, 'v) node list \<Rightarrow> 'a interval \<Rightarrow> ('a, 'v) node list" where
  "map_eraseAt ns k = filter (\<lambda>n. ihi (fst n) \<noteq> ihi k) ns"

subsection \<open>Searching\<close>

definition lowerBound :: "('a::linorder, 'v) node list \<Rightarrow> 'a \<Rightarrow> ('a, 'v) node list" where
  "lowerBound ns scalar = dropWhile (\<lambda>n. ihi (fst n) < scalar) ns"

definition upperBound :: "('a::linorder, 'v) node list \<Rightarrow> 'a \<Rightarrow> ('a, 'v) node list" where
  "upperBound ns scalar =
     dropWhile (\<lambda>n. ilo (fst n) \<le> scalar) (dropWhile (\<lambda>n. ihi (fst n) \<le> scalar) ns)"

text \<open>The iterator that \<open>findPrior\<close> returns moves backward; it is the list of the nodes from its position down to the first.\<close>

definition findPrior :: "('a::linorder, 'v) node list \<Rightarrow> 'a \<Rightarrow> ('a, 'v) node list" where
  "findPrior ns scalar =
     (if ns = [] then []
      else let before = takeWhile (\<lambda>n. ihi (fst n) < scalar) ns in
        case lowerBound ns scalar of
          n # _ \<Rightarrow> if ilo (fst n) \<le> scalar then n # rev before else rev before
        | [] \<Rightarrow> rev before)"

definition find_node :: "('a::linorder, 'v) node list \<Rightarrow> 'a \<Rightarrow> ('a, 'v) node option" where
  "find_node ns scalar =
     (case lowerBound ns scalar of [] \<Rightarrow> None | (k, v) # _ \<Rightarrow> if scalar < ilo k then None else Some (k, v))"

definition findAll :: "('a::{linorder,zero,one}, 'v) node list \<Rightarrow> 'a interval \<Rightarrow> ('a, 'v) node list" where
  "findAll ns interval =
     (if isEmpty interval then []
      else case lowerBound ns (ilo interval) of
        [] \<Rightarrow> []
      | (k, v) # rest \<Rightarrow>
          if ilo k > ihi interval then []
          else take (length ((k, v) # rest) - length (upperBound ns (ihi interval))) ((k, v) # rest))"

definition findFirstOverlap :: "('a::{linorder,zero,one}, 'v) node list \<Rightarrow> 'a interval \<Rightarrow> ('a, 'v) node option" where
  "findFirstOverlap ns interval =
     (if isEmpty interval then None
      else case lowerBound ns (ilo interval) of
        [] \<Rightarrow> None
      | (k, v) # _ \<Rightarrow> if overlaps interval k then Some (k, v) else None)"

fun findFirstOverlap_maps ::
    "('a::{linorder,zero,one}, 'v) node list \<Rightarrow> ('a, 'w) node list \<Rightarrow> (('a, 'v) node \<times> ('a, 'w) node) option" where
  "findFirstOverlap_maps [] others = None"
| "findFirstOverlap_maps (n # ns) [] = None"
| "findFirstOverlap_maps (n # ns) (m # ms) =
     (if overlaps (fst n) (fst m) then Some (n, m)
      else if ihi (fst n) < ihi (fst m) then findFirstOverlap_maps ns (m # ms)
      else findFirstOverlap_maps (n # ns) ms)"

definition firstFit :: "'a::{linorder,zero,one,plus,minus} \<Rightarrow> ('a, 'v) node list \<Rightarrow> ('a, 'v) node option" where
  "firstFit sz start = find (\<lambda>n. isLarge (fst n) sz) start"

fun bestFit_loop ::
    "'a::{linorder,zero,one,plus,minus} \<Rightarrow> ('a, 'v) node list \<Rightarrow> ('a, 'v) node option \<Rightarrow> ('a, 'v) node option" where
  "bestFit_loop sz [] best = best"
| "bestFit_loop sz (n # ns) best =
     (if interval_size (fst n) = sz \<and> sz \<noteq> 0 then Some n
      else if interval_size (fst n) > sz \<and>
          (case best of None \<Rightarrow> True | Some b \<Rightarrow> interval_size (fst n) < interval_size (fst b))
        then bestFit_loop sz ns (Some n)
        else bestFit_loop sz ns best)"

definition bestFit :: "'a::{linorder,zero,one,plus,minus} \<Rightarrow> ('a, 'v) node list \<Rightarrow> ('a, 'v) node option" where
  "bestFit sz start = bestFit_loop sz start None"

definition im_exists :: "('a::linorder, 'v) node list \<Rightarrow> 'a \<Rightarrow> bool" where
  "im_exists ns scalar \<longleftrightarrow> find_node ns scalar \<noteq> None"

text \<open>\<open>get\<close> and the array operator throw when the key is absent.\<close>

definition im_get :: "('a::linorder, 'v) node list \<Rightarrow> 'a \<Rightarrow> 'v option" where
  "im_get ns scalar = do { n \<leftarrow> find_node ns scalar; Some (snd n) }"

definition getOptional :: "('a::linorder, 'v) node list \<Rightarrow> 'a \<Rightarrow> 'v option" where
  "getOptional ns scalar = (case find_node ns scalar of None \<Rightarrow> None | Some n \<Rightarrow> Some (snd n))"

definition getOrElse :: "('a::linorder, 'v) node list \<Rightarrow> 'a \<Rightarrow> 'v \<Rightarrow> 'v" where
  "getOrElse ns scalar dflt = (case find_node ns scalar of None \<Rightarrow> dflt | Some n \<Rightarrow> snd n)"

subsection \<open>Capacity and limits\<close>

definition im_isEmpty :: "('a, 'v) node list \<Rightarrow> bool" where
  "im_isEmpty ns \<longleftrightarrow> ns = []"

definition nIntervals :: "('a, 'v) node list \<Rightarrow> nat" where
  "nIntervals ns = length ns"

definition im_least :: "('a, 'v) node list \<Rightarrow> 'a option" where
  "im_least ns = do { require (\<not> im_isEmpty ns); Some (ilo (fst (hd ns))) }"

definition im_greatest :: "('a, 'v) node list \<Rightarrow> 'a option" where
  "im_greatest ns = do { require (\<not> im_isEmpty ns); Some (ihi (fst (last ns))) }"

definition least_from :: "('a::linorder, 'v) node list \<Rightarrow> 'a \<Rightarrow> 'a option" where
  "least_from ns lowerLimit =
     (case lowerBound ns lowerLimit of [] \<Rightarrow> None | n # _ \<Rightarrow> Some (max lowerLimit (ilo (fst n))))"

definition greatest_to :: "('a::linorder, 'v) node list \<Rightarrow> 'a \<Rightarrow> 'a option" where
  "greatest_to ns upperLimit =
     (case findPrior ns upperLimit of [] \<Rightarrow> None | n # _ \<Rightarrow> Some (min upperLimit (ihi (fst n))))"

fun leastUnmapped_loop :: "('a::{linorder,one,plus}, 'v) node list \<Rightarrow> 'a \<Rightarrow> 'a option" where
  "leastUnmapped_loop [] lowerLimit = Some lowerLimit"
| "leastUnmapped_loop (n # ns) lowerLimit =
     (if lowerLimit < ilo (fst n) then Some lowerLimit
      else if ihi (fst n) + 1 \<le> ilo (fst n) then None
      else leastUnmapped_loop ns (ihi (fst n) + 1))"

definition leastUnmapped :: "('a::{linorder,one,plus}, 'v) node list \<Rightarrow> 'a \<Rightarrow> 'a option" where
  "leastUnmapped ns lowerLimit = leastUnmapped_loop (lowerBound ns lowerLimit) lowerLimit"

fun greatestUnmapped_loop :: "('a::{linorder,one,minus}, 'v) node list \<Rightarrow> 'a \<Rightarrow> 'a option" where
  "greatestUnmapped_loop [] upperLimit = Some upperLimit"
| "greatestUnmapped_loop (n # ns) upperLimit =
     (if upperLimit > ihi (fst n) then Some upperLimit
      else if ilo (fst n) - 1 \<ge> ihi (fst n) then None
      else greatestUnmapped_loop ns (ilo (fst n) - 1))"

definition greatestUnmapped :: "('a::{linorder,one,minus}, 'v) node list \<Rightarrow> 'a \<Rightarrow> 'a option" where
  "greatestUnmapped ns upperLimit = greatestUnmapped_loop (findPrior ns upperLimit) upperLimit"

fun firstUnmapped_loop :: "('w::len word, 'v) node list \<Rightarrow> 'w word \<Rightarrow> 'w word interval" where
  "firstUnmapped_loop [] minAddr = hull minAddr (ihi whole)"
| "firstUnmapped_loop (n # ns) minAddr =
     (if minAddr < ilo (fst n) then hull minAddr (ilo (fst n) - 1)
      else if ihi (fst n) = ihi whole then Interval_empty
      else firstUnmapped_loop ns (ihi (fst n) + 1))"

definition firstUnmapped :: "('w::len word, 'v) node list \<Rightarrow> 'w word \<Rightarrow> 'w word interval" where
  "firstUnmapped ns minAddr = firstUnmapped_loop (lowerBound ns minAddr) minAddr"

fun lastUnmapped_loop :: "('w::len word, 'v) node list \<Rightarrow> 'w word \<Rightarrow> 'w word interval" where
  "lastUnmapped_loop [] maxAddr = Interval_empty"
| "lastUnmapped_loop [n] maxAddr =
     (if maxAddr > ihi (fst n) then hull (ihi (fst n) + 1) maxAddr
      else if ilo (fst n) > ilo whole then hull (ilo whole) (ilo (fst n) - 1)
      else Interval_empty)"
| "lastUnmapped_loop (n # n' # ns) maxAddr =
     (if maxAddr > ihi (fst n) then hull (ihi (fst n) + 1) maxAddr
      else if ilo (fst n) = ilo whole then Interval_empty
      else lastUnmapped_loop (n' # ns) (ilo (fst n) - 1))"

definition lastUnmapped :: "('w::len word, 'v) node list \<Rightarrow> 'w word \<Rightarrow> 'w word interval" where
  "lastUnmapped ns maxAddr =
     (if im_isEmpty ns then hull (ilo whole) maxAddr
      else if findPrior ns maxAddr = [] then
        if maxAddr > ilo whole then hull (ilo whole) maxAddr else Interval_empty
      else lastUnmapped_loop (findPrior ns maxAddr) maxAddr)"

definition im_hull :: "('a::{linorder,zero,one}, 'v) node list \<Rightarrow> 'a interval option" where
  "im_hull ns =
     (if im_isEmpty ns then Some Interval_empty
      else do { lo \<leftarrow> im_least ns; hi \<leftarrow> im_greatest ns; Some (hull lo hi) })"

subsection \<open>Mutators\<close>

definition im_clear :: "('a::zero, 'v) interval_map \<Rightarrow> ('a, 'v) interval_map" where
  "im_clear m = m\<lparr>im_map := [], im_size := 0\<rparr>"

text \<open>
  The loop of \<^verbatim>\<open>erase\<close>. Its state is the list of nodes before \<^verbatim>\<open>eraseBegin\<close> (all nodes passed
  so far while \<^verbatim>\<open>eraseBegin\<close> is the end iterator), whether \<^verbatim>\<open>eraseBegin\<close> is set, the nodes to insert
  afterwards and the size; the result adds the nodes from the final position of the iterator on.
\<close>

fun erase_loop ::
    "'a::{linorder,zero,one,plus,minus} interval \<Rightarrow> ('a, 'v) node list \<Rightarrow> ('a, 'v) node list \<Rightarrow> bool \<Rightarrow>
     ('a, 'v) node list \<Rightarrow> 'a \<Rightarrow> (('a, 'v) node list \<times> ('a, 'v) node list \<times> ('a, 'v) node list \<times> 'a) option" where
  "erase_loop e [] before erasing insertions sz = Some (before, [], insertions, sz)"
| "erase_loop e ((k, v) # rest) before erasing insertions sz =
     (if isLeftOf e k then Some (before, (k, v) # rest, insertions, sz)
      else if contains e k then erase_loop e rest before True insertions (sz - interval_size k)
      else if ilo e > ilo k \<and> ihi e < ihi k then do {
        require (\<not> erasing);
        (rtl, rtr) \<leftarrow> splitInterval k (ihi e + 1);
        let insertions = map_insert rtr (policy_split v) insertions;
        (ltl, ltr) \<leftarrow> splitInterval rtl (ilo e);
        let insertions = map_insert ltl v insertions;
        erase_loop e rest before True insertions (sz - interval_size e)
      } else if ilo e > ilo k then do {
        require (\<not> erasing);
        (l, r) \<leftarrow> splitInterval k (ilo e);
        let insertions = map_insert l v insertions;
        erase_loop e rest before True insertions (sz - interval_size r)
      } else if ihi e < ihi k then do {
        (l, r) \<leftarrow> splitInterval k (ihi e + 1);
        let insertions = map_insert r (policy_split v) insertions;
        erase_loop e rest before True insertions (sz - interval_size l)
      } else erase_loop e rest (if erasing then before else before @ [(k, v)]) erasing insertions sz)"

definition im_erase ::
    "('a::{linorder,zero,one,plus,minus}, 'v) interval_map \<Rightarrow> 'a interval \<Rightarrow> ('a, 'v) interval_map option" where
  "im_erase m erasure =
     (if isEmpty erasure then Some m
      else do {
        let ns = im_map m;
        (before, rest, insertions, sz) \<leftarrow>
          erase_loop erasure (lowerBound ns (ilo erasure)) (takeWhile (\<lambda>n. ihi (fst n) < ilo erasure) ns) False [] (im_size m);
        Some (m\<lparr>im_map := map_insertMultiple (before @ rest) insertions, im_size := sz\<rparr>)
      })"

fun im_eraseMultiple ::
    "('a::{linorder,zero,one,plus,minus}, 'v) interval_map \<Rightarrow> ('a, 'w) node list \<Rightarrow> ('a, 'v) interval_map option" where
  "im_eraseMultiple m [] = Some m"
| "im_eraseMultiple m (n # others) = do { m \<leftarrow> im_erase m (fst n); im_eraseMultiple m others }"

text \<open>Merging a new node with its left and right neighbours: the key to insert, the nodes that remain and the size.\<close>

definition merge_left ::
    "('a::{linorder,zero,one,plus,minus}, 'v) node list \<Rightarrow> 'a \<Rightarrow> 'a interval \<Rightarrow> 'v \<Rightarrow> 'a interval \<times> ('a, 'v) node list \<times> 'a" where
  "merge_left ns sz key v =
     (if ilo key - 1 < ilo key then
        case find_node ns (ilo key - 1) of
          Some (lk, lv) \<Rightarrow>
            if ihi lk + 1 = ilo key \<and> policy_merge lv v
            then (hull (ilo lk) (ihi key), map_eraseAt ns lk, sz - interval_size lk)
            else (key, ns, sz)
        | None \<Rightarrow> (key, ns, sz)
      else (key, ns, sz))"

definition merge_right ::
    "('a::{linorder,zero,one,plus,minus}, 'v) node list \<Rightarrow> 'a \<Rightarrow> 'a interval \<Rightarrow> 'v \<Rightarrow> 'a interval \<times> ('a, 'v) node list \<times> 'a" where
  "merge_right ns sz key v =
     (if ihi key + 1 > ihi key then
        case find_node ns (ihi key + 1) of
          Some (rk, rv) \<Rightarrow>
            if ihi key + 1 = ilo rk \<and> policy_merge v rv
            then (hull (ilo key) (ihi rk), map_eraseAt ns rk, sz - interval_size rk)
            else (key, ns, sz)
        | None \<Rightarrow> (key, ns, sz)
      else (key, ns, sz))"

definition insert_node ::
    "('a::{linorder,zero,one,plus,minus}, 'v) interval_map \<Rightarrow> 'a interval \<Rightarrow> 'v \<Rightarrow> ('a, 'v) interval_map" where
  "insert_node m key v =
     (let (key, ns, sz) = merge_left (im_map m) (im_size m) key v;
          (key, ns, sz) = merge_right ns sz key v
      in m\<lparr>im_map := map_insert key v ns, im_size := sz + interval_size key\<rparr>)"

definition im_insert ::
    "('a::{linorder,zero,one,plus,minus}, 'v) interval_map \<Rightarrow> 'a interval \<Rightarrow> 'v \<Rightarrow> bool \<Rightarrow> ('a, 'v) interval_map option" where
  "im_insert m key value makeHole =
     (if isEmpty key then Some m
      else if makeHole then do { m \<leftarrow> im_erase m key; Some (insert_node m key value) }
      else case lowerBound (im_map m) (ilo key) of
          n # _ \<Rightarrow> if overlaps key (fst n) then Some m else Some (insert_node m key value)
        | [] \<Rightarrow> Some (insert_node m key value))"

fun im_insertMultiple ::
    "('a::{linorder,zero,one,plus,minus}, 'v) interval_map \<Rightarrow> ('a, 'v) node list \<Rightarrow> bool \<Rightarrow> ('a, 'v) interval_map option" where
  "im_insertMultiple m [] makeHole = Some m"
| "im_insertMultiple m (n # others) makeHole = do {
     m \<leftarrow> im_insert m (fst n) (snd n) makeHole;
     im_insertMultiple m others makeHole
   }"

subsection \<open>Predicates\<close>

definition im_overlaps :: "('a::{linorder,zero,one}, 'v) node list \<Rightarrow> 'a interval \<Rightarrow> bool" where
  "im_overlaps ns interval \<longleftrightarrow> findFirstOverlap ns interval \<noteq> None"

definition im_overlaps_map :: "('a::{linorder,zero,one}, 'v) node list \<Rightarrow> ('a, 'w) node list \<Rightarrow> bool" where
  "im_overlaps_map ns others \<longleftrightarrow> findFirstOverlap_maps ns others \<noteq> None"

definition im_isDistinct :: "('a::{linorder,zero,one}, 'v) node list \<Rightarrow> 'a interval \<Rightarrow> bool" where
  "im_isDistinct ns interval \<longleftrightarrow> \<not> im_overlaps ns interval"

fun contains_loop :: "('a::{linorder,zero,one,plus,minus}, 'v) node list \<Rightarrow> 'a interval \<Rightarrow> bool option" where
  "contains_loop [] key = Some False"
| "contains_loop (n # ns) key =
     (if ilo key < ilo (fst n) then Some False
      else do {
        require (overlaps key (fst n));
        if ihi key \<le> ihi (fst n) then Some True
        else do {
          (l, r) \<leftarrow> splitInterval key (ihi (fst n) + 1);
          contains_loop ns r
        }
      })"

definition im_contains :: "('a::{linorder,zero,one,plus,minus}, 'v) node list \<Rightarrow> 'a interval \<Rightarrow> bool option" where
  "im_contains ns key =
     (if isEmpty key then Some True
      else case find_node ns (ilo key) of
        None \<Rightarrow> Some False
      | Some _ \<Rightarrow> contains_loop (lowerBound ns (ilo key)) key)"

section \<open>Interval sets\<close>

type_synonym 'a interval_set = "('a, int) interval_map"

definition IntervalSet_empty :: "'a::zero interval_set" where
  "IntervalSet_empty = \<lparr>im_map = [], im_size = 0\<rparr>"

definition IntervalSet_intervals :: "'a interval_set \<Rightarrow> 'a interval list" where
  "IntervalSet_intervals s = map fst (im_map s)"

definition IntervalSet_insert :: "'a::{linorder,zero,one,plus,minus} interval_set \<Rightarrow> 'a interval \<Rightarrow> 'a interval_set option" where
  "IntervalSet_insert s interval = im_insert s interval 0 True"

definition IntervalSet_erase :: "'a::{linorder,zero,one,plus,minus} interval_set \<Rightarrow> 'a interval \<Rightarrow> 'a interval_set option" where
  "IntervalSet_erase s interval = im_erase s interval"

definition IntervalSet_isEmpty :: "'a interval_set \<Rightarrow> bool" where
  "IntervalSet_isEmpty s \<longleftrightarrow> im_isEmpty (im_map s)"

definition IntervalSet_exists :: "'a::linorder interval_set \<Rightarrow> 'a \<Rightarrow> bool" where
  "IntervalSet_exists s scalar \<longleftrightarrow> find_node (im_map s) scalar \<noteq> None"

text \<open>The loop of \<^verbatim>\<open>invert(restricted)\<close>: the set built so far, what is pending, and whether the top is to be inserted.\<close>

fun invert_loop ::
    "('a::{linorder,zero,one,plus,minus}, int) node list \<Rightarrow> 'a interval \<Rightarrow> 'a interval_set \<Rightarrow> 'a \<Rightarrow>
     ('a interval_set \<times> 'a \<times> bool) option" where
  "invert_loop [] restricted inverted pending = Some (inverted, pending, True)"
| "invert_loop (n # ns) restricted inverted pending =
     (if ilo (fst n) > ihi restricted then Some (inverted, pending, True)
      else do {
        inverted \<leftarrow> (if pending < ilo (fst n)
          then IntervalSet_insert inverted (hull pending (ilo (fst n) - 1)) else Some inverted);
        if ihi (fst n) < ihi restricted then invert_loop ns restricted inverted (ihi (fst n) + 1)
        else Some (inverted, pending, False)
      })"

definition IntervalSet_invert :: "'a::{linorder,zero,one,plus,minus} interval_set \<Rightarrow> 'a interval \<Rightarrow> 'a interval_set option" where
  "IntervalSet_invert s restricted =
     (if isEmpty restricted then Some IntervalSet_empty
      else do {
        (inverted, pending, insertTop) \<leftarrow>
          invert_loop (lowerBound (im_map s) (ilo restricted)) restricted IntervalSet_empty (ilo restricted);
        if insertTop then IntervalSet_insert inverted (hull pending (ihi restricted)) else Some inverted
      })"

section \<open>Interval maps as finite maps\<close>

fun lookup :: "('a::linorder, 'v) node list \<Rightarrow> 'a \<Rightarrow> 'v option" where
  "lookup [] x = None"
| "lookup (n # ns) x = (if ilo (fst n) \<le> x \<and> x \<le> ihi (fst n) then Some (snd n) else lookup ns x)"

definition node_ok :: "('a::{linorder,zero,one}, 'v) node \<Rightarrow> bool" where
  "node_ok n \<longleftrightarrow> \<not> isEmpty (fst n) \<and> ilo (fst n) \<le> ihi (fst n)"

definition before_node :: "('a::linorder, 'v) node \<Rightarrow> ('a, 'v) node \<Rightarrow> bool" where
  "before_node a b \<longleftrightarrow> ihi (fst a) < ilo (fst b)"

definition nodes_ok :: "('a::{linorder,zero,one}, 'v) node list \<Rightarrow> bool" where
  "nodes_ok ns \<longleftrightarrow> (\<forall>n\<in>set ns. node_ok n) \<and> sorted_wrt before_node ns"

definition nodes_size :: "('a::{zero,one,plus,minus,monoid_add}, 'v) node list \<Rightarrow> 'a" where
  "nodes_size ns = sum_list (map (interval_size \<circ> fst) ns)"

definition im_ok :: "('a::{linorder,one,cancel_comm_monoid_add}, 'v) interval_map \<Rightarrow> bool" where
  "im_ok m \<longleftrightarrow> nodes_ok (im_map m) \<and> im_size m = nodes_size (im_map m)"

text \<open>Neighbours that touch are merged whenever their values are the same.\<close>

definition coalesced :: "('a::{linorder,one,plus}, 'v) node list \<Rightarrow> bool" where
  "coalesced ns \<longleftrightarrow>
     (\<forall>n\<in>set ns. \<forall>m\<in>set ns. ihi (fst n) < ilo (fst m) \<longrightarrow> ihi (fst n) + 1 = ilo (fst m) \<longrightarrow> snd n \<noteq> snd m)"

lemma coalesced_subset: "coalesced ns \<Longrightarrow> set ms \<subseteq> set ns \<Longrightarrow> coalesced ms"
  by (auto simp: coalesced_def)

lemma nodes_ok_Nil [simp]: "nodes_ok []"
  by (simp add: nodes_ok_def)

lemma nodes_ok_Cons: "nodes_ok (n # ns) \<longleftrightarrow> node_ok n \<and> (\<forall>m\<in>set ns. before_node n m) \<and> nodes_ok ns"
  by (auto simp: nodes_ok_def)

lemma nodes_ok_append:
  "nodes_ok (ns @ ms) \<longleftrightarrow> nodes_ok ns \<and> nodes_ok ms \<and> (\<forall>n\<in>set ns. \<forall>m\<in>set ms. before_node n m)"
  by (auto simp: nodes_ok_def sorted_wrt_append)

lemma nodes_size_simps [simp]:
  "nodes_size [] = 0" "nodes_size (n # ns) = interval_size (fst n) + nodes_size ns"
  by (simp_all add: nodes_size_def)

lemma nodes_size_append [simp]: "nodes_size (ns @ ms) = nodes_size ns + nodes_size ms"
  by (simp add: nodes_size_def)

lemma lookup_append: "lookup (ns @ ms) x = (case lookup ns x of None \<Rightarrow> lookup ms x | Some v \<Rightarrow> Some v)"
  by (induction ns) auto

lemma lookup_None_iff: "lookup ns x = None \<longleftrightarrow> (\<forall>n\<in>set ns. \<not> (ilo (fst n) \<le> x \<and> x \<le> ihi (fst n)))"
  by (induction ns) auto

lemma lookup_below: "\<forall>n\<in>set ns. x < ilo (fst n) \<Longrightarrow> lookup ns x = None"
  unfolding lookup_None_iff by (auto simp: leD)

lemma lookup_above: "\<forall>n\<in>set ns. ihi (fst n) < x \<Longrightarrow> lookup ns x = None"
  unfolding lookup_None_iff by (auto simp: leD)

lemma lowerBound_ok: "nodes_ok ns \<Longrightarrow> nodes_ok (lowerBound ns s)"
  unfolding lowerBound_def by (metis nodes_ok_append takeWhile_dropWhile_id)

lemma lowerBound_ends:
  assumes "nodes_ok ns" "n \<in> set (lowerBound ns s)"
  shows "s \<le> ihi (fst n)"
  using assms
proof (induction ns)
  case (Cons m ns)
  show ?case
  proof (cases "ihi (fst m) < s")
    case True
    with Cons show ?thesis by (simp add: lowerBound_def nodes_ok_Cons)
  next
    case False
    with Cons.prems have "n = m \<or> before_node m n \<and> node_ok n"
      by (auto simp: lowerBound_def nodes_ok_Cons) (simp add: nodes_ok_def)
    with False show ?thesis by (auto simp: before_node_def node_ok_def)
  qed
qed (simp add: lowerBound_def)

lemma takeWhile_lookup: "lookup (takeWhile (\<lambda>n. ihi (fst n) < s) ns) x = None" if "s \<le> x"
  using that by (intro lookup_above) (auto dest: set_takeWhileD)

lemma lookup_lowerBound: "s \<le> x \<Longrightarrow> lookup (lowerBound ns s) x = lookup ns x"
  using lookup_append [of "takeWhile (\<lambda>n. ihi (fst n) < s) ns" "dropWhile (\<lambda>n. ihi (fst n) < s) ns" x]
  by (simp add: lowerBound_def takeWhile_lookup)

text \<open>A key is found exactly where the map is defined.\<close>

lemma find_node_lookup:
  assumes "nodes_ok ns"
  shows "map_option snd (find_node ns s) = lookup ns s"
proof (cases "lowerBound ns s")
  case Nil
  then show ?thesis using lookup_lowerBound [of s s ns] by (simp add: find_node_def)
next
  case (Cons n rest)
  obtain k v where n: "n = (k, v)" by force
  from lowerBound_ok [OF assms, of s] Cons have ok: "node_ok n" "\<forall>m\<in>set rest. before_node n m"
    by (simp_all add: nodes_ok_Cons)
  from lowerBound_ends [OF assms, of n s] Cons have hi: "s \<le> ihi (fst n)" by simp
  have "lookup rest s = None" if "s < ilo k"
    using ok that n by (intro lookup_below) (auto simp: before_node_def node_ok_def)
  then show ?thesis using lookup_lowerBound [of s s ns] Cons n hi
    by (auto simp: find_node_def not_less leD split: if_splits)
qed

lemma find_node_range:
  assumes "nodes_ok ns" "find_node ns s = Some (k, v)"
  shows "(k, v) \<in> set ns" "ilo k \<le> s" "s \<le> ihi k"
proof -
  from assms(2) obtain rest where lb: "lowerBound ns s = (k, v) # rest" and le: "ilo k \<le> s"
    by (auto simp: find_node_def split: list.splits if_splits)
  then have "(k, v) \<in> set (lowerBound ns s)" by simp
  then show "(k, v) \<in> set ns" "s \<le> ihi k"
    using lowerBound_ends [OF assms(1), of "(k, v)" s] by (auto simp: lowerBound_def dest: set_dropWhileD)
  show "ilo k \<le> s" by (rule le)
qed

lemma map_insert_between:
  "\<forall>n\<in>set ns. ihi (fst n) < ihi k \<Longrightarrow> \<forall>m\<in>set ms. ihi k < ihi (fst m) \<Longrightarrow>
   map_insert k v (ns @ ms) = ns @ (k, v) # ms"
proof (induction ns)
  case Nil
  then show ?case by (cases ms) auto
qed auto

lemma map_insert_first: "\<forall>m\<in>set ms. ihi k < ihi (fst m) \<Longrightarrow> map_insert k v ms = (k, v) # ms"
  using map_insert_between [of "[]" k ms v] by simp

lemma map_insert_last: "\<forall>n\<in>set ns. ihi (fst n) < ihi k \<Longrightarrow> map_insert k v ns = ns @ [(k, v)]"
  using map_insert_between [of ns k "[]" v] by simp

section \<open>Erasing and inserting\<close>

text \<open>What is left of a node when an interval is erased.\<close>

definition remainders :: "'a::{linorder,zero,one,plus,minus} interval \<Rightarrow> ('a, 'v) node \<Rightarrow> ('a, 'v) node list" where
  "remainders e n =
     (if ihi (fst n) < ilo e \<or> ihi e < ilo (fst n) then [n]
      else (if ilo (fst n) < ilo e then [(hull (ilo (fst n)) (ilo e - 1), snd n)] else []) @
        (if ihi e < ihi (fst n) then [(hull (ihi e + 1) (ihi (fst n)), snd n)] else []))"

lemma remainders_left: "\<forall>n\<in>set ns. ihi (fst n) < ilo e \<Longrightarrow> concat (map (remainders e) ns) = ns"
  by (induction ns) (auto simp: remainders_def)

lemma remainders_right: "\<forall>n\<in>set ns. ihi e < ilo (fst n) \<Longrightarrow> concat (map (remainders e) ns) = ns"
  by (induction ns) (auto simp: remainders_def)

lemma hull_ends: "ilo k \<le> ihi k \<Longrightarrow> hull (ilo k) (ihi k) = k"
  by (cases k) (simp add: hull_def)

lemma nodes_apart:
  assumes "nodes_ok ns" "a \<in> set ns" "b \<in> set ns" "a \<noteq> b"
  shows "ihi (fst a) < ilo (fst b) \<or> ihi (fst b) < ilo (fst a)"
  using assms by (induction ns) (auto simp: nodes_ok_Cons before_node_def)

text \<open>The type of the end points: a discrete order in which a step inside a range does not wrap.\<close>

locale scalar =
  fixes type_of_scalars :: "'a::{linorder,zero_less_one,cancel_comm_monoid_add} itself"
  assumes succ_le: "(p :: 'a) < q \<Longrightarrow> p + 1 \<le> x \<longleftrightarrow> p < x"
    and le_pred: "(p :: 'a) < q \<Longrightarrow> x \<le> q - 1 \<longleftrightarrow> x < q"
    and split_size: "(a :: 'a) < s \<Longrightarrow> s \<le> b \<Longrightarrow> (s - 1 - a + 1) + (b - s + 1) = b - a + 1"
begin

lemma isLeftOf_node:
  "\<not> isEmpty e \<Longrightarrow> node_ok n \<Longrightarrow> isLeftOf e (fst n) \<longleftrightarrow> ihi e < ilo (fst n)" for e :: "'a interval" and n :: "('a, 'v) node"
  by (simp add: isLeftOf_def node_ok_def)

lemma contains_node:
  "\<not> isEmpty e \<Longrightarrow> node_ok n \<Longrightarrow> contains e (fst n) \<longleftrightarrow> ilo e \<le> ilo (fst n) \<and> ihi (fst n) \<le> ihi e"
  for e :: "'a interval" and n :: "('a, 'v) node"
  by (simp add: contains_def node_ok_def)

lemma size_split:
  fixes a s b :: 'a
  assumes "a < s" "s \<le> b"
  shows "interval_size (hull a (s - 1)) + interval_size (hull s b) = interval_size (hull a b)"
proof -
  have "a \<le> s - 1" "a \<le> b" using le_pred [OF assms(1), of a] assms by auto
  with assms split_size [OF assms] show ?thesis
    by (simp add: interval_size_def min.absorb1 max.absorb2)
qed

lemma splitInterval_node:
  fixes n :: "('a, 'v) node"
  assumes "node_ok n" "ilo (fst n) < s" "s \<le> ihi (fst n)"
  shows "splitInterval (fst n) s = Some (hull (ilo (fst n)) (s - 1), hull s (ihi (fst n)))"
  using assms by (simp add: splitInterval_def node_ok_def)

lemma erase_stop:
  fixes e :: "'a interval"
  assumes "\<not> isEmpty e" "\<forall>n\<in>set suf. node_ok n \<and> ihi e < ilo (fst n)"
  shows "erase_loop e suf before erasing ins sz = Some (before, suf, ins, sz)"
  using assms by (cases suf) (auto simp: isLeftOf_def node_ok_def)

lemma erase_right_part:
  fixes e :: "'a interval" and suf :: "('a, 'v) node list"
  assumes "\<not> isEmpty e" "ilo e \<le> ihi e" "nodes_ok suf" "\<forall>n\<in>set suf. ilo e \<le> ilo (fst n)"
    "\<forall>n\<in>set ins. ihi (fst n) < ilo e" "sz = s0 + nodes_size suf"
  shows "\<exists>rest new. erase_loop e suf before erasing ins sz = Some (before, rest, ins @ new, s0 + nodes_size (new @ rest)) \<and>
    new @ rest = concat (map (remainders e) suf)"
  using assms(3-6)
proof (induction suf arbitrary: sz erasing)
  case Nil
  then show ?case by simp
next
  case (Cons n suf)
  obtain k v where n: "n = (k, v)" by force
  from Cons.prems have ok: "node_ok n" "nodes_ok suf" "\<forall>m\<in>set suf. before_node n m" "ilo e \<le> ilo k"
    by (simp_all add: nodes_ok_Cons n)
  have lt: "\<forall>m\<in>set suf. node_ok m \<and> ihi k < ilo (fst m)"
    using ok by (auto simp: before_node_def n nodes_ok_def)
  note L = isLeftOf_node [OF assms(1) ok(1)] and C = contains_node [OF assms(1) ok(1)]
  consider (out) "ihi e < ilo k" | (whole) "ilo k \<le> ihi e" "ihi k \<le> ihi e" | (part) "ilo k \<le> ihi e" "ihi e < ihi k"
    by force
  then show ?case
  proof cases
    case out
    then have "\<forall>m\<in>set (n # suf). node_ok m \<and> ihi e < ilo (fst m)"
      using ok(1) lt by (auto simp: n node_ok_def intro: less_trans)
    then show ?thesis
      using erase_stop [OF assms(1), of "n # suf"] remainders_right [of "n # suf" e] Cons.prems(4) by auto
  next
    case whole
    have "sz = (s0 + nodes_size suf) + interval_size k" using Cons.prems(4) by (simp add: n ac_simps)
    then have sz: "sz - interval_size k = s0 + nodes_size suf" by simp
    have "remainders e n = []" using whole ok(1,4) by (auto simp: remainders_def n node_ok_def)
    moreover have "erase_loop e (n # suf) before erasing ins sz = erase_loop e suf before True ins (sz - interval_size k)"
      using L C whole ok(4) leD [OF whole(1)] by (simp add: n)
    ultimately show ?thesis
      using Cons.IH [OF ok(2) _ Cons.prems(3) sz] Cons.prems(2) by simp
  next
    case part
    let ?r = "hull (ihi e + 1) (ihi k)" and ?l = "hull (ilo k) (ihi e)"
    have le: "ihi e + 1 \<le> ihi k" and gt: "ilo k < ihi e + 1" "ihi e < ihi e + 1"
      using succ_le [OF part(2)] part succ_le [OF part(2), of "ihi e"] by (auto simp: not_le [symmetric])
    have pr: "ihi e + 1 - 1 = ihi e" by simp
    have sp: "splitInterval k (ihi e + 1) = Some (?l, ?r)"
      using splitInterval_node [OF ok(1)] gt le pr by (simp add: n)
    have "interval_size ?l + interval_size ?r = interval_size k"
      using size_split [OF gt(1) le] ok(1) by (simp add: n hull_ends node_ok_def)
    then have "sz = (s0 + nodes_size ((?r, v) # suf)) + interval_size ?l"
      unfolding Cons.prems(4) n by (simp add: ac_simps flip: \<open>interval_size ?l + interval_size ?r = interval_size k\<close>)
    then have sz: "sz - interval_size ?l = s0 + nodes_size ((?r, v) # suf)" by simp
    have hi: "ihi ?r = ihi k" using le by simp
    have ins: "map_insert ?r (policy_split v) ins = ins @ [(?r, v)]"
      unfolding policy_split_def
    proof (rule map_insert_last, intro ballI)
      fix m assume "m \<in> set ins"
      then have "ihi (fst m) < ilo e" using Cons.prems(3) by blast
      also have "\<dots> \<le> ihi k" using ok(1,4) by (auto simp: node_ok_def n)
      finally show "ihi (fst m) < ihi ?r" unfolding hi .
    qed
    have "\<forall>m\<in>set suf. node_ok m \<and> ihi e < ilo (fst m)" using lt part by (auto intro: less_trans)
    note st = erase_stop [OF assms(1) this]
    have "erase_loop e (n # suf) before erasing ins sz = Some (before, suf, ins @ [(?r, v)], sz - interval_size ?l)"
      using L C part ok(4) sp ins st leD [OF part(1)] leD [OF ok(4)] by (simp add: n not_le)
    moreover have "concat (map (remainders e) suf) = suf" using lt part by (intro remainders_right) (auto intro: less_trans)
    then have "concat (map (remainders e) (n # suf)) = (?r, v) # suf"
      using part ok(1,4) leD [OF part(1)] leD [OF ok(4)] by (auto simp: remainders_def n node_ok_def)
    ultimately show ?thesis using sz by (intro exI [of _ suf] exI [of _ "[(?r, v)]"]) simp
  qed
qed

lemma succ_range: "(p :: 'a) < q \<Longrightarrow> p < p + 1 \<and> p + 1 \<le> q"
  using succ_le [of p q q] succ_le [of p q p] by (auto simp: not_le)

lemma pred_range: "(p :: 'a) < q \<Longrightarrow> p \<le> q - 1 \<and> q - 1 < q"
  using le_pred [of p q p] le_pred [of p q q] by (auto simp: not_le)

text \<open>The first node of the loop may begin before the interval that is erased.\<close>

lemma erase_left_part:
  fixes e :: "'a interval" and suf :: "('a, 'v) node list"
  assumes e: "\<not> isEmpty e" "ilo e \<le> ihi e" and ok: "nodes_ok ((k, v) # suf)"
    and k: "ilo k < ilo e" "ilo e \<le> ihi k" and sz: "sz = s0 + nodes_size ((k, v) # suf)"
  shows "\<exists>rest new. erase_loop e ((k, v) # suf) before False [] sz = Some (before, rest, new, s0 + nodes_size (new @ rest)) \<and>
    new @ rest = concat (map (remainders e) ((k, v) # suf))"
proof -
  let ?l = "hull (ilo k) (ilo e - 1)"
  have n: "node_ok (k, v)" "nodes_ok suf" and lt: "\<forall>m\<in>set suf. node_ok m \<and> ihi k < ilo (fst m)"
    using ok by (auto simp: nodes_ok_Cons before_node_def nodes_ok_def)
  have kk: "hull (ilo k) (ihi k) = k" using n by (simp add: hull_ends node_ok_def)
  note p = pred_range [OF k(1)]
  have loop: "\<not> isLeftOf e k" "\<not> contains e k" "\<not> ihi e < ilo k"
    using isLeftOf_node [OF e(1) n(1)] contains_node [OF e(1) n(1)] k e(2) by auto
  show ?thesis
  proof (cases "ihi e < ihi k")
    case True
    let ?r = "hull (ihi e + 1) (ihi k)"
    note q = succ_range [OF True]
    have pr: "ihi e + 1 - 1 = ihi e" by simp
    have lr: "ilo k < ihi e + 1" "ilo k \<le> ihi e" "ilo e - 1 < ihi e + 1" using k e(2) p q by auto
    have s1: "splitInterval k (ihi e + 1) = Some (hull (ilo k) (ihi e), ?r)"
      using splitInterval_node [OF n(1)] lr q pr by simp
    have s2: "splitInterval (hull (ilo k) (ihi e)) (ilo e) = Some (?l, hull (ilo e) (ihi e))"
      using splitInterval_node [of "(hull (ilo k) (ihi e), v)" "ilo e"] lr(2) k(1) e(2)
      by (simp add: node_ok_def min.absorb1 max.absorb2)
    have st: "erase_loop e suf before True ins z = Some (before, suf, ins, z)" for ins z
      using lt True by (intro erase_stop [OF e(1)]) (auto intro: less_trans)
    have ins: "map_insert ?l v [(?r, v)] = [(?l, v), (?r, v)]"
      using lr(3) p q by (intro map_insert_first) (auto simp: max_def intro: less_le_trans)
    have "interval_size ?l + interval_size e + interval_size ?r = interval_size k"
      using size_split [OF k(1) e(2)] size_split [of "ilo k" "ihi e + 1" "ihi k"] lr q kk pr e(2) by (simp add: hull_ends)
    then have "sz = (s0 + nodes_size ([(?l, v), (?r, v)] @ suf)) + interval_size e"
      unfolding sz by (simp add: ac_simps flip: \<open>interval_size ?l + interval_size e + interval_size ?r = interval_size k\<close>)
    then have sz': "sz - interval_size e = s0 + nodes_size ([(?l, v), (?r, v)] @ suf)" by simp
    have "concat (map (remainders e) suf) = suf" using lt True by (intro remainders_right) (auto intro: less_trans)
    then have "concat (map (remainders e) ((k, v) # suf)) = [(?l, v), (?r, v)] @ suf"
      using True k loop(3) by (auto simp: remainders_def)
    moreover have "erase_loop e ((k, v) # suf) before False [] sz = Some (before, suf, [(?l, v), (?r, v)], sz - interval_size e)"
      using loop True k s1 s2 ins st by (simp add: policy_split_def)
    ultimately show ?thesis using sz' by (intro exI [of _ suf] exI [of _ "[(?l, v), (?r, v)]"]) simp
  next
    case False
    let ?r = "hull (ilo e) (ihi k)"
    have s1: "splitInterval k (ilo e) = Some (?l, ?r)" using splitInterval_node [OF n(1)] k by simp
    have "interval_size ?l + interval_size ?r = interval_size k" using size_split [OF k] kk by simp
    then have "sz = ((s0 + interval_size ?l) + nodes_size suf) + interval_size ?r"
      unfolding sz by (simp add: ac_simps flip: \<open>interval_size ?l + interval_size ?r = interval_size k\<close>)
    then have sz': "sz - interval_size ?r = (s0 + interval_size ?l) + nodes_size suf" by simp
    have "erase_loop e ((k, v) # suf) before False [] sz = erase_loop e suf before True [(?l, v)] (sz - interval_size ?r)"
      using loop False k s1 by simp
    moreover have "concat (map (remainders e) ((k, v) # suf)) = (?l, v) # concat (map (remainders e) suf)"
      using False k loop(3) by (auto simp: remainders_def)
    moreover have "\<exists>rest new. erase_loop e suf before True [(?l, v)] (sz - interval_size ?r) =
        Some (before, rest, [(?l, v)] @ new, s0 + interval_size ?l + nodes_size (new @ rest)) \<and>
      new @ rest = concat (map (remainders e) suf)"
      using lt k p by (intro erase_right_part [OF e n(2) _ _ sz']) (auto simp: max_def intro: less_imp_le le_less_trans)
    ultimately show ?thesis by (auto simp: ac_simps)
  qed
qed

lemma remainders_inside:
  fixes n :: "('a, 'v) node"
  assumes "node_ok n" "ilo e \<le> ihi e" "m \<in> set (remainders e n)"
  shows "node_ok m" "ilo (fst n) \<le> ilo (fst m)" "ihi (fst m) \<le> ihi (fst n)" "snd m = snd n"
  using assms pred_range [of "ilo (fst n)" "ilo e"] succ_range [of "ihi e" "ihi (fst n)"]
  by (auto simp: remainders_def node_ok_def min_def max_def not_less split: if_splits)

lemma remainders_ok:
  fixes n :: "('a, 'v) node"
  assumes "node_ok n" "ilo e \<le> ihi e"
  shows "nodes_ok (remainders e n)"
proof (cases "ilo (fst n) < ilo e \<and> ihi e < ihi (fst n)")
  case True
  note p = pred_range [OF conjunct1 [OF True]] succ_range [OF conjunct2 [OF True]]
  then have "ilo e - 1 < ihi e + 1" using assms(2) by auto
  with p True assms show ?thesis
    by (auto simp: remainders_def nodes_ok_def node_ok_def before_node_def min_def max_def not_less)
next
  case False
  with remainders_inside(1) [OF assms] show ?thesis
    by (auto simp: remainders_def nodes_ok_def)
qed

lemma remainders_nodes_ok:
  fixes ns :: "('a, 'v) node list"
  assumes "ilo e \<le> ihi e"
  shows "nodes_ok ns \<Longrightarrow> nodes_ok (concat (map (remainders e) ns))"
proof (induction ns)
  case (Cons n ns)
  have "before_node a b" if ab: "a \<in> set (remainders e n)" "c \<in> set ns" "b \<in> set (remainders e c)" for a b c
  proof -
    have "node_ok n" "node_ok c" "ihi (fst n) < ilo (fst c)"
      using Cons.prems ab(2) by (auto simp: nodes_ok_Cons before_node_def nodes_ok_def)
    with remainders_inside(3) [OF _ assms ab(1)] remainders_inside(2) [OF _ assms ab(3)]
    show ?thesis by (auto simp: before_node_def intro: le_less_trans less_le_trans)
  qed
  with Cons remainders_ok [OF _ assms, of n] show ?case
    by (auto simp: nodes_ok_append nodes_ok_Cons)
qed simp

lemma lookup_remainders:
  fixes ns :: "('a, 'v) node list"
  assumes "ilo e \<le> ihi e" "\<forall>n\<in>set ns. node_ok n"
  shows "lookup (concat (map (remainders e) ns)) x = (if ilo e \<le> x \<and> x \<le> ihi e then None else lookup ns x)"
  using assms(2)
proof (induction ns)
  case (Cons n ns)
  have "lookup (remainders e n) x = (if ilo e \<le> x \<and> x \<le> ihi e then None else lookup [n] x)"
  proof (cases "ihi (fst n) < ilo e \<or> ihi e < ilo (fst n)")
    case True
    then show ?thesis by (auto simp: remainders_def)
  next
    case False
    let ?l = "if ilo (fst n) < ilo e then [(hull (ilo (fst n)) (ilo e - 1), snd n)] else []"
      and ?r = "if ihi e < ihi (fst n) then [(hull (ihi e + 1) (ihi (fst n)), snd n)] else []"
    have l: "lookup ?l x = (if ilo (fst n) \<le> x \<and> x < ilo e then Some (snd n) else None)"
      using le_pred [of "ilo (fst n)" "ilo e" x] pred_range [of "ilo (fst n)" "ilo e"]
      by (auto simp: min.absorb1 max.absorb2)
    have r: "lookup ?r x = (if ihi e < x \<and> x \<le> ihi (fst n) then Some (snd n) else None)"
      using succ_le [of "ihi e" "ihi (fst n)" x] succ_range [of "ihi e" "ihi (fst n)"]
      by (auto simp: min.absorb1 max.absorb2)
    have "remainders e n = ?l @ ?r" using False by (simp add: remainders_def)
    then show ?thesis using False assms(1) by (auto simp: lookup_append l r not_less not_le)
  qed
  with Cons show ?case by (auto simp: lookup_append split: option.split)
qed simp

lemma insertMultiple_between:
  fixes new :: "('a, 'v) node list"
  shows "nodes_ok (ns @ new @ ms) \<Longrightarrow> map_insertMultiple (ns @ ms) new = ns @ new @ ms"
proof (induction new arbitrary: ns)
  case (Cons n new)
  have b: "\<forall>a\<in>set ns. ihi (fst a) < ihi (fst n)" "\<forall>c\<in>set ms. ihi (fst n) < ihi (fst c)"
    using Cons.prems unfolding nodes_ok_def sorted_wrt_append before_node_def node_ok_def
    by (auto intro: less_le_trans le_less_trans)
  have "map_insertMultiple (ns @ ms) (n # new) = map_insertMultiple (map_insert (fst n) (snd n) (ns @ ms)) new"
    by (simp add: map_insertMultiple_def case_prod_unfold)
  also have "\<dots> = map_insertMultiple ((ns @ [n]) @ ms) new" using map_insert_between [OF b] by simp
  also have "\<dots> = (ns @ [n]) @ new @ ms" using Cons.prems by (intro Cons.IH) simp
  finally show ?case by simp
qed (simp add: map_insertMultiple_def)

lemma erase_law:
  fixes m :: "('a, 'v) interval_map"
  assumes ok: "im_ok m" and e: "\<not> isEmpty e" "ilo e \<le> ihi e"
  shows "im_erase m e = Some (m\<lparr>im_map := concat (map (remainders e) (im_map m)),
    im_size := nodes_size (concat (map (remainders e) (im_map m)))\<rparr>)"
proof -
  define ns pre suf where "ns = im_map m" and "pre = takeWhile (\<lambda>n. ihi (fst n) < ilo e) ns"
    and "suf = lowerBound ns (ilo e)"
  have ns: "ns = pre @ suf" by (simp add: pre_def suf_def lowerBound_def)
  have nsok: "nodes_ok ns" and sz: "im_size m = nodes_size pre + nodes_size suf"
    using ok by (simp_all add: im_ok_def ns flip: ns_def)
  have sok: "nodes_ok suf" using nsok by (simp add: ns nodes_ok_append)
  have hi: "\<forall>n\<in>set suf. ilo e \<le> ihi (fst n)" using lowerBound_ends [OF nsok] by (simp add: suf_def)
  have pre: "concat (map (remainders e) pre) = pre"
    by (rule remainders_left) (auto simp: pre_def dest: set_takeWhileD)
  have "\<exists>rest new. erase_loop e suf pre False [] (im_size m) = Some (pre, rest, new, nodes_size pre + nodes_size (new @ rest)) \<and>
      new @ rest = concat (map (remainders e) suf)"
  proof (cases "\<forall>n\<in>set suf. ilo e \<le> ilo (fst n)")
    case True
    then show ?thesis using erase_right_part [OF e sok True _ sz, of "[]" pre False] by simp
  next
    case False
    then obtain k v suf' where s: "suf = (k, v) # suf'" by (cases suf) auto
    have "\<forall>n\<in>set suf'. ilo e \<le> ilo (fst n)"
      using sok hi by (auto simp: s nodes_ok_Cons before_node_def intro: less_imp_le le_less_trans)
    with False have k: "ilo k < ilo e" "ilo e \<le> ihi k" using hi by (auto simp: s not_le)
    show ?thesis using erase_left_part [OF e sok [unfolded s] k sz [unfolded s]] by (simp add: s)
  qed
  then obtain rest new where loop: "erase_loop e suf pre False [] (im_size m) =
      Some (pre, rest, new, nodes_size pre + nodes_size (new @ rest))" and new: "new @ rest = concat (map (remainders e) suf)"
    by blast
  have all: "concat (map (remainders e) ns) = pre @ new @ rest" by (simp add: ns pre new)
  then have "map_insertMultiple (pre @ rest) new = pre @ new @ rest"
    using remainders_nodes_ok [OF e(2) nsok] by (intro insertMultiple_between) simp
  with loop all show ?thesis
    using e by (simp add: im_erase_def flip: ns_def pre_def suf_def)
qed

lemma erase_is:
  fixes m :: "('a, 'v) interval_map"
  assumes "im_ok m" "ivl_ok e"
  shows "succeeds (im_erase m e) (\<lambda>m'. im_ok m' \<and>
    (\<forall>x. lookup (im_map m') x = (if x \<in> ivl_set e then None else lookup (im_map m) x)))"
proof (cases "isEmpty e")
  case True
  then show ?thesis using assms by (simp add: im_erase_def ivl_set_def)
next
  case False
  then have "ilo e \<le> ihi e" using assms(2) by (simp add: ivl_ok_def)
  with erase_law [OF assms(1) False this] remainders_nodes_ok [OF this, of "im_map m"]
    lookup_remainders [OF this, of "im_map m"] assms(1)
  show ?thesis by (simp add: im_ok_def nodes_ok_def ivl_set_nonempty [OF False])
qed

lemma eraseAt_nodes:
  fixes ns :: "('a, 'v) node list"
  assumes "nodes_ok (as @ (k, v) # bs)"
  shows "map_eraseAt (as @ (k, v) # bs) k = as @ bs"
proof -
  have "\<forall>n\<in>set as. ihi (fst n) < ihi k" "\<forall>n\<in>set bs. ihi k < ihi (fst n)"
    using assms unfolding nodes_ok_append nodes_ok_Cons before_node_def
    by (auto simp: nodes_ok_def node_ok_def intro: less_le_trans)
  then have "\<forall>n\<in>set as. ihi (fst n) \<noteq> ihi k" "\<forall>n\<in>set bs. ihi (fst n) \<noteq> ihi k" by auto
  then show ?thesis by (simp add: map_eraseAt_def filter_id_conv)
qed

text \<open>\<open>update_at f key v\<close>: the map \<open>f\<close> with \<open>v\<close> at every member of \<open>key\<close>.\<close>

definition update_at :: "('a \<Rightarrow> 'v option) \<Rightarrow> 'a interval \<Rightarrow> 'v \<Rightarrow> 'a \<Rightarrow> 'v option" where
  "update_at f key v x = (if ilo key \<le> x \<and> x \<le> ihi key then Some v else f x)"

definition fresh :: "('a, 'v) node list \<Rightarrow> 'a interval \<Rightarrow> bool" where
  "fresh ns key \<longleftrightarrow> nodes_ok ns \<and> \<not> isEmpty key \<and> ilo key \<le> ihi key \<and>
     (\<forall>n\<in>set ns. ihi (fst n) < ilo key \<or> ihi key < ilo (fst n))"

text \<open>A merge step keeps the map with the new node in it, and the total size.\<close>

definition merged :: "('a, 'v) node list \<Rightarrow> 'a interval \<Rightarrow> 'v \<Rightarrow> 'a interval \<times> ('a, 'v) node list \<times> 'a \<Rightarrow> bool" where
  "merged ns key v r \<longleftrightarrow> (case r of (key', ns', sz') \<Rightarrow> fresh ns' key' \<and> sz' = nodes_size ns' \<and>
     update_at (lookup ns') key' v = update_at (lookup ns) key v)"

lemma merged_same: "fresh ns key \<Longrightarrow> merged ns key v (key, ns, nodes_size ns)"
  by (simp add: merged_def)

text \<open>Merging with an adjacent node whose value is the same.\<close>

lemma merge_adjacent:
  assumes fr: "fresh ns key" and n: "(k, v) \<in> set ns"
    and key': "key' = hull lo hi" "lo \<le> hi"
    and cover: "\<And>x. lo \<le> x \<and> x \<le> hi \<longleftrightarrow> (ilo key \<le> x \<and> x \<le> ihi key) \<or> (ilo k \<le> x \<and> x \<le> ihi k)"
  shows "merged ns key v (key', map_eraseAt ns k, nodes_size ns - interval_size k)"
proof -
  from split_list [OF n] obtain as bs where ns: "ns = as @ (k, v) # bs" by blast
  have ok: "nodes_ok ns" using fr by (simp add: fresh_def)
  have er: "map_eraseAt ns k = as @ bs" unfolding ns by (rule eraseAt_nodes) (use ok ns in simp)
  have ab: "nodes_ok (as @ bs)" using ok unfolding ns nodes_ok_append nodes_ok_Cons by auto
  have key'_ends: "ilo key' = lo" "ihi key' = hi" using key' by (simp_all add: min.absorb1 max.absorb2)
  have "ihi (fst n) < lo \<or> hi < ilo (fst n)" if "n \<in> set (as @ bs)" for n
  proof (rule ccontr)
    assume "\<not> (ihi (fst n) < lo \<or> hi < ilo (fst n))"
    then have o: "lo \<le> ihi (fst n)" "ilo (fst n) \<le> hi" by auto
    have nn: "ilo (fst n) \<le> ihi (fst n)" using ab that by (auto simp: nodes_ok_def node_ok_def)
    have kn: "ihi k < ilo (fst n) \<or> ihi (fst n) < ilo k"
      using ok that unfolding ns nodes_ok_append nodes_ok_Cons before_node_def by auto
    have dn: "ihi (fst n) < ilo key \<or> ihi key < ilo (fst n)" using fr that by (auto simp: fresh_def ns)
    define x where "x = max lo (ilo (fst n))"
    have "lo \<le> x" "x \<le> hi" "ilo (fst n) \<le> x" "x \<le> ihi (fst n)" using o nn key'(2) by (auto simp: x_def)
    with cover [of x] kn dn show False by auto
  qed
  then have "fresh (as @ bs) key'" using ab key'(2) key'_ends by (simp add: fresh_def) (simp add: key'(1))
  moreover have "lookup as x = None" if "ilo k \<le> x" for x
    using ok that unfolding ns nodes_ok_append before_node_def by (intro lookup_above) (auto intro: less_le_trans)
  then have "update_at (lookup (as @ bs)) key' v x = update_at (lookup ns) key v x" for x
    using cover [of x] by (auto simp: update_at_def key'_ends ns lookup_append split: option.split)
  moreover have "nodes_size ns = nodes_size (as @ bs) + interval_size k" by (simp add: ns ac_simps)
  ultimately show ?thesis by (auto simp: merged_def er)
qed

lemma merge_left_merged:
  assumes "fresh ns key"
  shows "merged ns key v (merge_left ns (nodes_size ns) key v)"
proof (cases "\<exists>lk. ilo key - 1 < ilo key \<and> find_node ns (ilo key - 1) = Some (lk, v) \<and> ihi lk + 1 = ilo key")
  case True
  then obtain lk where lk: "ilo key - 1 < ilo key" "find_node ns (ilo key - 1) = Some (lk, v)" "ihi lk + 1 = ilo key" by blast
  have ns: "nodes_ok ns" and key: "ilo key \<le> ihi key" using assms by (simp_all add: fresh_def)
  note r = find_node_range [OF ns lk(2)]
  have "ihi lk < ilo key \<or> ihi key < ilo lk" using assms r(1) by (auto simp: fresh_def)
  then have "ihi lk < ilo key" using r(2) lk(1) key by auto
  with succ_le [OF this] lk(3) r have adj: "\<And>x. ilo key \<le> x \<longleftrightarrow> ihi lk < x" "ilo lk \<le> ihi lk" "ilo lk \<le> ihi key"
    using key by auto
  have "ilo lk \<le> x \<and> x \<le> ihi key \<longleftrightarrow> (ilo key \<le> x \<and> x \<le> ihi key) \<or> (ilo lk \<le> x \<and> x \<le> ihi lk)" for x
    using adj(1) [of x] adj(1) [of "ihi key"] adj(2) key by (cases "ihi lk < x") (auto simp: not_less)
  then have "merged ns key v (hull (ilo lk) (ihi key), map_eraseAt ns lk, nodes_size ns - interval_size lk)"
    by (intro merge_adjacent [OF assms r(1) refl adj(3)])
  with lk show ?thesis by (simp add: merge_left_def policy_merge_def)
next
  case False
  then show ?thesis using merged_same [OF assms]
    by (auto simp: merge_left_def policy_merge_def split: option.split)
qed

lemma merge_right_merged:
  assumes "fresh ns key"
  shows "merged ns key v (merge_right ns (nodes_size ns) key v)"
proof (cases "\<exists>rk. ihi key + 1 > ihi key \<and> find_node ns (ihi key + 1) = Some (rk, v) \<and> ihi key + 1 = ilo rk")
  case True
  then obtain rk where rk: "ihi key + 1 > ihi key" "find_node ns (ihi key + 1) = Some (rk, v)" "ihi key + 1 = ilo rk" by blast
  have ns: "nodes_ok ns" and key: "ilo key \<le> ihi key" using assms by (simp_all add: fresh_def)
  note r = find_node_range [OF ns rk(2)]
  have "ihi key < ilo rk" using rk by simp
  with succ_le [OF this] rk(3) r have adj: "\<And>x. ilo rk \<le> x \<longleftrightarrow> ihi key < x" "ilo rk \<le> ihi rk" "ilo key \<le> ihi rk"
    using key by auto
  have "ilo key \<le> x \<and> x \<le> ihi rk \<longleftrightarrow> (ilo key \<le> x \<and> x \<le> ihi key) \<or> (ilo rk \<le> x \<and> x \<le> ihi rk)" for x
    using adj(1) [of x] adj(1) [of "ihi rk"] adj(2) key by (cases "ihi key < x") (auto simp: not_less)
  then have "merged ns key v (hull (ilo key) (ihi rk), map_eraseAt ns rk, nodes_size ns - interval_size rk)"
    by (intro merge_adjacent [OF assms r(1) refl adj(3)])
  with rk show ?thesis by (simp add: merge_right_def policy_merge_def)
next
  case False
  then show ?thesis using merged_same [OF assms]
    by (auto simp: merge_right_def policy_merge_def split: option.split)
qed

lemma map_insert_fresh:
  assumes "fresh ns key"
  shows "nodes_ok (map_insert key v ns)" "nodes_size (map_insert key v ns) = nodes_size ns + interval_size key"
    "lookup (map_insert key v ns) = update_at (lookup ns) key v"
proof -
  define as bs where "as = takeWhile (\<lambda>n. ihi (fst n) < ilo key) ns" and "bs = lowerBound ns (ilo key)"
  have ns: "ns = as @ bs" by (simp add: as_def bs_def lowerBound_def)
  have ok: "nodes_ok ns" and key: "node_ok (key, v)" and dj: "\<forall>n\<in>set ns. ihi (fst n) < ilo key \<or> ihi key < ilo (fst n)"
    using assms by (simp_all add: fresh_def node_ok_def)
  have a: "\<forall>n\<in>set as. ihi (fst n) < ilo key" by (auto simp: as_def dest: set_takeWhileD)
  have "\<not> ihi (fst n) < ilo key" if "n \<in> set bs" for n
    using lowerBound_ends [OF ok, of n "ilo key"] that by (simp add: bs_def not_less)
  then have b: "\<forall>n\<in>set bs. node_ok n \<and> ihi key < ilo (fst n)"
    using dj ok by (auto simp: nodes_ok_def ns)
  have ins: "map_insert key v ns = as @ (key, v) # bs"
    unfolding ns using a b key by (intro map_insert_between) (auto simp: node_ok_def intro: less_le_trans)
  show "nodes_ok (map_insert key v ns)"
    unfolding ins using ok a b key by (auto simp: ns nodes_ok_append nodes_ok_Cons before_node_def)
  show "nodes_size (map_insert key v ns) = nodes_size ns + interval_size key"
    unfolding ins by (simp add: ns ac_simps)
  show "lookup (map_insert key v ns) = update_at (lookup ns) key v"
  proof
    fix x
    have "lookup as x = None" if "ilo key \<le> x" using a that by (intro lookup_above) (auto intro: less_le_trans)
    then show "lookup (map_insert key v ns) x = update_at (lookup ns) key v x"
      unfolding ins by (auto simp: ns lookup_append update_at_def split: option.split)
  qed
qed

lemma insert_node_is:
  fixes m :: "('a, 'v) interval_map"
  assumes "im_ok m" "fresh (im_map m) key"
  shows "im_ok (insert_node m key v)" "lookup (im_map (insert_node m key v)) = update_at (lookup (im_map m)) key v"
proof -
  have sz: "im_size m = nodes_size (im_map m)" using assms(1) by (simp add: im_ok_def)
  obtain k1 n1 s1 where l: "merge_left (im_map m) (nodes_size (im_map m)) key v = (k1, n1, s1)"
    by (metis prod_cases3)
  with merge_left_merged [OF assms(2), of v] have m1: "fresh n1 k1" "s1 = nodes_size n1"
    "update_at (lookup n1) k1 v = update_at (lookup (im_map m)) key v" by (simp_all add: merged_def)
  obtain k2 n2 s2 where r: "merge_right n1 (nodes_size n1) k1 v = (k2, n2, s2)"
    by (metis prod_cases3)
  with merge_right_merged [OF m1(1), of v] have m2: "fresh n2 k2" "s2 = nodes_size n2"
    "update_at (lookup n2) k2 v = update_at (lookup n1) k1 v" by (simp_all add: merged_def)
  have "insert_node m key v = m\<lparr>im_map := map_insert k2 v n2, im_size := s2 + interval_size k2\<rparr>"
    by (simp add: insert_node_def sz l m1(2) r)
  with map_insert_fresh [OF m2(1), of v] m1 m2
  show "im_ok (insert_node m key v)" "lookup (im_map (insert_node m key v)) = update_at (lookup (im_map m)) key v"
    by (simp_all add: im_ok_def)
qed

lemma fresh_iff:
  assumes "nodes_ok ns" "\<not> isEmpty key" "ilo key \<le> ihi key"
  shows "fresh ns key \<longleftrightarrow> (\<forall>x. ilo key \<le> x \<and> x \<le> ihi key \<longrightarrow> lookup ns x = None)"
proof
  assume "fresh ns key"
  then show "\<forall>x. ilo key \<le> x \<and> x \<le> ihi key \<longrightarrow> lookup ns x = None"
    unfolding lookup_None_iff fresh_def by (meson le_less_trans leD less_le_trans)
next
  assume L: "\<forall>x. ilo key \<le> x \<and> x \<le> ihi key \<longrightarrow> lookup ns x = None"
  have "ihi (fst n) < ilo key \<or> ihi key < ilo (fst n)" if n: "n \<in> set ns" for n
  proof (rule ccontr)
    assume c: "\<not> ?thesis"
    have "ilo (fst n) \<le> ihi (fst n)" using assms(1) n by (auto simp: nodes_ok_def node_ok_def)
    then have "lookup ns (max (ilo key) (ilo (fst n))) \<noteq> None"
      unfolding lookup_None_iff using c n assms(3) by (auto simp: not_less)
    with L [rule_format, of "max (ilo key) (ilo (fst n))"] c assms(3) show False by (auto simp: not_less)
  qed
  with assms show "fresh ns key" by (simp add: fresh_def)
qed

lemma insert_is:
  fixes m :: "('a, 'v) interval_map"
  assumes "im_ok m" "ivl_ok key"
  shows "succeeds (im_insert m key v True) (\<lambda>m'. im_ok m' \<and>
    (\<forall>x. lookup (im_map m') x = (if x \<in> ivl_set key then Some v else lookup (im_map m) x)))"
proof (cases "isEmpty key")
  case True
  then show ?thesis using assms by (simp add: im_insert_def ivl_set_def)
next
  case False
  then have le: "ilo key \<le> ihi key" using assms(2) by (simp add: ivl_ok_def)
  have eq: "im_insert m key v True = Option.bind (im_erase m key) (\<lambda>m. Some (insert_node m key v))"
    using False by (simp add: im_insert_def)
  show ?thesis
    unfolding eq
  proof (rule succeeds_bind [OF erase_is [OF assms]])
    fix m1 assume m1: "im_ok m1 \<and> (\<forall>x. lookup (im_map m1) x = (if x \<in> ivl_set key then None else lookup (im_map m) x))"
    then have "fresh (im_map m1) key"
      using fresh_iff [of "im_map m1" key] False le by (simp add: im_ok_def ivl_set_nonempty [OF False])
    with m1 insert_node_is [of m1 key v]
    show "succeeds (Some (insert_node m1 key v)) (\<lambda>m'. im_ok m' \<and>
        (\<forall>x. lookup (im_map m') x = (if x \<in> ivl_set key then Some v else lookup (im_map m) x)))"
      by (auto simp: update_at_def ivl_set_nonempty [OF False])
  qed
qed

text \<open>Without the flag to make a hole, an insertion is refused when a member of the interval is mapped.\<close>

lemma insert_no_hole:
  fixes m :: "('a, 'v) interval_map"
  assumes "im_ok m" "\<not> isEmpty key" "ilo key \<le> ihi key"
  shows "im_insert m key v False = Some (if fresh (im_map m) key then insert_node m key v else m)"
proof (cases "lowerBound (im_map m) (ilo key)")
  case Nil
  have "fresh (im_map m) key"
    using assms Nil lookup_lowerBound [of "ilo key" _ "im_map m"] by (auto simp: fresh_iff im_ok_def)
  with Nil assms(2) show ?thesis by (simp add: im_insert_def)
next
  case (Cons n rest)
  have ok: "nodes_ok (n # rest)" using assms(1) lowerBound_ok [of "im_map m" "ilo key"] Cons by (simp add: im_ok_def)
  have n: "node_ok n" "ilo key \<le> ihi (fst n)"
    using ok lowerBound_ends [of "im_map m" n "ilo key"] assms(1) Cons by (auto simp: nodes_ok_Cons im_ok_def)
  have "fresh (im_map m) key \<longleftrightarrow> ihi key < ilo (fst n)"
  proof
    assume "fresh (im_map m) key"
    moreover have "n \<in> set (im_map m)" using Cons by (metis list.set_intros(1) lowerBound_def set_dropWhileD)
    ultimately show "ihi key < ilo (fst n)" using n by (auto simp: fresh_def)
  next
    assume "ihi key < ilo (fst n)"
    then have none: "lookup (n # rest) x = None" if "x \<le> ihi key" for x
      using ok that by (intro lookup_below) (auto simp: nodes_ok_Cons before_node_def node_ok_def)
    have "lookup (im_map m) x = None" if "ilo key \<le> x" "x \<le> ihi key" for x
      using lookup_lowerBound [OF that(1), of "im_map m"] none [OF that(2)] Cons by (simp del: lookup.simps)
    with assms show "fresh (im_map m) key" by (simp add: fresh_iff im_ok_def)
  qed
  moreover have "overlaps key (fst n) \<longleftrightarrow> \<not> ihi key < ilo (fst n)"
    using n assms(2,3) by (auto simp: overlaps_def intersection_def node_ok_def not_less)
  ultimately show ?thesis using Cons assms(2) by (simp add: im_insert_def)
qed

lemma coalesced_remainders:
  fixes ns :: "('a, 'v) node list"
  assumes "nodes_ok ns" "coalesced ns" "ilo e \<le> ihi e"
  shows "coalesced (concat (map (remainders e) ns))"
  unfolding coalesced_def
proof (intro ballI impI notI)
  fix r1 r2
  assume r: "r1 \<in> set (concat (map (remainders e) ns))" "r2 \<in> set (concat (map (remainders e) ns))"
    and lt: "ihi (fst r1) < ilo (fst r2)" and adj: "ihi (fst r1) + 1 = ilo (fst r2)" and eq: "snd r1 = snd r2"
  then obtain a b where ab: "a \<in> set ns" "r1 \<in> set (remainders e a)" "b \<in> set ns" "r2 \<in> set (remainders e b)" by auto
  have ok: "node_ok a" "node_ok b" using assms(1) ab by (auto simp: nodes_ok_def)
  note ra = remainders_inside [OF ok(1) assms(3) ab(2)] and rb = remainders_inside [OF ok(2) assms(3) ab(4)]
  have step: "x \<le> ihi (fst r1) \<or> ilo (fst r2) \<le> x" for x
    using succ_le [OF lt, of x] adj by auto
  show False
  proof (cases "a = b")
    case True
    have "r1 \<noteq> r2" using lt ra(1) by (auto simp: node_ok_def)
    with ab(2,4) lt step [of "ilo e"] True assms(3) pred_range [of "ilo (fst a)" "ilo e"] succ_range [of "ihi e" "ihi (fst a)"] ok
    show False by (auto simp: remainders_def node_ok_def min_def max_def split: if_splits)
  next
    case False
    then have "ihi (fst a) < ilo (fst b) \<or> ihi (fst b) < ilo (fst a)"
      using nodes_apart [OF assms(1) ab(1,3)] by simp
    with ra rb lt ok have "ihi (fst a) < ilo (fst b)" by (auto simp: node_ok_def)
    with step [of "ihi (fst a)"] step [of "ilo (fst b)"] ra rb have "ihi (fst r1) = ihi (fst a)" "ilo (fst r2) = ilo (fst b)" by auto
    with adj eq \<open>ihi (fst a) < ilo (fst b)\<close> assms(2) ab ra(4) rb(4) show False by (auto simp: coalesced_def)
  qed
qed

lemma erase_coalesced:
  fixes m :: "('a, 'v) interval_map"
  assumes "im_ok m" "ivl_ok e" "coalesced (im_map m)" "im_erase m e = Some m'"
  shows "coalesced (im_map m')"
proof (cases "isEmpty e")
  case False
  then have "ilo e \<le> ihi e" using assms(2) by (simp add: ivl_ok_def)
  with erase_law [OF assms(1) False this] coalesced_remainders [OF _ assms(3) this] assms(1,4) show ?thesis
    by (auto simp: im_ok_def)
qed (use assms(3,4) in \<open>simp add: im_erase_def\<close>)

lemma find_node_at:
  fixes ns :: "('a, 'v) node list"
  assumes "nodes_ok ns" "n \<in> set ns" "ilo (fst n) \<le> x" "x \<le> ihi (fst n)"
  shows "find_node ns x = Some n"
proof -
  have "lookup ns x \<noteq> None" using assms by (auto simp: lookup_None_iff)
  with find_node_lookup [OF assms(1), of x] obtain m where m: "find_node ns x = Some m" by auto
  with find_node_range [OF assms(1), of x "fst m" "snd m"] have "m \<in> set ns" "ilo (fst m) \<le> x" "x \<le> ihi (fst m)" by auto
  with nodes_apart [OF assms(1,2), of m] assms(3,4) have "m = n" by fastforce
  with m show ?thesis by simp
qed

lemma eraseAt_set: "set (map_eraseAt ns k) \<subseteq> set ns - {n. fst n = k}"
  by (auto simp: map_eraseAt_def)

lemma merge_left_coalesced:
  fixes ns :: "('a, 'v) node list"
  assumes ok: "nodes_ok ns" and sep: "coalesced ns" and le: "ilo key \<le> ihi key"
    and eq: "merge_left ns sz key v = (k1, n1, s1)"
  shows "set n1 \<subseteq> set ns \<and> ihi k1 = ihi key \<and> (\<forall>m\<in>set n1. ihi (fst m) < ilo k1 \<longrightarrow> ihi (fst m) + 1 = ilo k1 \<longrightarrow> snd m \<noteq> v)"
proof (cases "\<exists>lk. ilo key - 1 < ilo key \<and> find_node ns (ilo key - 1) = Some (lk, v) \<and> ihi lk + 1 = ilo key")
  case True
  then obtain lk where lk: "ilo key - 1 < ilo key" "find_node ns (ilo key - 1) = Some (lk, v)" "ihi lk + 1 = ilo key" by blast
  note r = find_node_range [OF ok lk(2)]
  have "ilo lk \<le> ihi key" using r(2) lk(1) le by auto
  moreover have "k1 = hull (ilo lk) (ihi key)" "n1 = map_eraseAt ns lk" using eq lk by (auto simp: merge_left_def policy_merge_def)
  ultimately show ?thesis using sep r(1) eraseAt_set [of ns lk] by (fastforce simp: coalesced_def min_def max_def)
next
  case False
  have "snd m \<noteq> v" if m: "m \<in> set ns" "ihi (fst m) < ilo key" and adj: "ihi (fst m) + 1 = ilo key" for m
  proof
    assume v: "snd m = v"
    have p: "ihi (fst m) \<le> ilo key - 1" "ilo key - 1 < ilo key" using pred_range [OF m(2)] by auto
    moreover have "\<not> ihi (fst m) < ilo key - 1" using succ_le [OF m(2), of "ilo key - 1"] adj p(2) by auto
    ultimately have "ilo key - 1 = ihi (fst m)" by auto
    moreover have "ilo (fst m) \<le> ihi (fst m)" using ok m(1) by (auto simp: nodes_ok_def node_ok_def)
    ultimately have "find_node ns (ilo key - 1) = Some m" using find_node_at [OF ok m(1)] by simp
    moreover have "m = (fst m, v)" using v by (cases m) auto
    ultimately show False using False p(2) adj by (metis fst_conv)
  qed
  moreover have "k1 = key \<and> n1 = ns" using eq False
    by (fastforce simp: merge_left_def policy_merge_def split: if_splits option.splits)
  ultimately show ?thesis by auto
qed

lemma merge_right_coalesced:
  fixes ns :: "('a, 'v) node list"
  assumes ok: "nodes_ok ns" and sep: "coalesced ns" and le: "ilo key \<le> ihi key"
    and eq: "merge_right ns sz key v = (k1, n1, s1)"
  shows "set n1 \<subseteq> set ns \<and> ilo k1 = ilo key \<and> (\<forall>m\<in>set n1. ihi k1 < ilo (fst m) \<longrightarrow> ihi k1 + 1 = ilo (fst m) \<longrightarrow> snd m \<noteq> v)"
proof (cases "\<exists>rk. ihi key + 1 > ihi key \<and> find_node ns (ihi key + 1) = Some (rk, v) \<and> ihi key + 1 = ilo rk")
  case True
  then obtain rk where rk: "ihi key + 1 > ihi key" "find_node ns (ihi key + 1) = Some (rk, v)" "ihi key + 1 = ilo rk" by blast
  note r = find_node_range [OF ok rk(2)]
  have "ilo key \<le> ihi rk" using r(3) rk(1) le by auto
  moreover have "k1 = hull (ilo key) (ihi rk)" "n1 = map_eraseAt ns rk" using eq rk by (auto simp: merge_right_def policy_merge_def)
  ultimately show ?thesis using sep r(1) eraseAt_set [of ns rk] by (fastforce simp: coalesced_def min_def max_def)
next
  case False
  have "snd m \<noteq> v" if m: "m \<in> set ns" "ihi key < ilo (fst m)" and adj: "ihi key + 1 = ilo (fst m)" for m
  proof
    assume v: "snd m = v"
    have "ilo (fst m) \<le> ihi (fst m)" using ok m(1) by (auto simp: nodes_ok_def node_ok_def)
    then have "find_node ns (ihi key + 1) = Some m" using find_node_at [OF ok m(1)] adj by simp
    moreover have "m = (fst m, v)" using v by (cases m) auto
    ultimately show False using False m(2) adj by metis
  qed
  moreover have "k1 = key \<and> n1 = ns" using eq False
    by (fastforce simp: merge_right_def policy_merge_def split: if_splits option.splits)
  ultimately show ?thesis by auto
qed

lemma set_map_insert: "\<forall>n\<in>set ns. ihi (fst n) \<noteq> ihi k \<Longrightarrow> set (map_insert k v ns) = insert (k, v) (set ns)"
  by (induction ns) (auto split: if_splits)

lemma insert_node_coalesced:
  fixes m :: "('a, 'v) interval_map"
  assumes "im_ok m" "fresh (im_map m) key" "coalesced (im_map m)"
  shows "coalesced (im_map (insert_node m key v))"
proof -
  have ok: "nodes_ok (im_map m)" "ilo key \<le> ihi key" "im_size m = nodes_size (im_map m)"
    using assms(1,2) by (simp_all add: im_ok_def fresh_def)
  obtain k1 n1 s1 where l: "merge_left (im_map m) (im_size m) key v = (k1, n1, s1)" by (metis prod_cases3)
  obtain k2 n2 s2 where r: "merge_right n1 s1 k1 v = (k2, n2, s2)" by (metis prod_cases3)
  note ml = merge_left_coalesced [OF ok(1) assms(3) ok(2) l]
  have c1: "coalesced n1" using ml assms(3) coalesced_subset by blast
  from merge_left_merged [OF assms(2), of v] l ok(3) have n1: "fresh n1 k1" "s1 = nodes_size n1" by (simp_all add: merged_def)
  then have n1ok: "nodes_ok n1" "ilo k1 \<le> ihi k1" by (simp_all add: fresh_def)
  note mr = merge_right_coalesced [OF n1ok(1) c1 n1ok(2) r]
  from merge_right_merged [OF n1(1), of v] r n1(2) have n2: "fresh n2 k2" by (simp add: merged_def)
  have ne: "\<forall>n\<in>set n2. ihi (fst n) \<noteq> ihi k2" using n2 by (fastforce simp: fresh_def nodes_ok_def node_ok_def)
  have c2: "coalesced n2" using c1 mr coalesced_subset by blast
  have left: "\<forall>m\<in>set n2. ihi (fst m) < ilo k2 \<longrightarrow> ihi (fst m) + 1 = ilo k2 \<longrightarrow> snd m \<noteq> v" using ml mr by auto
  have le2: "ilo k2 \<le> ihi k2" using n2 by (simp add: fresh_def)
  have "coalesced (map_insert k2 v n2)"
    unfolding coalesced_def set_map_insert [OF ne] using c2 left mr le2 by (auto simp: coalesced_def)
  then show ?thesis by (simp add: insert_node_def l r)
qed

lemma erase_refines:
  fixes m :: "('a, 'v) interval_map"
  assumes "im_ok m" "ivl_ok e"
  shows "succeeds (im_erase m e) (\<lambda>m'. im_ok m' \<and> (coalesced (im_map m) \<longrightarrow> coalesced (im_map m')) \<and>
    (\<forall>x. lookup (im_map m') x = (if x \<in> ivl_set e then None else lookup (im_map m) x)))"
  using erase_is [OF assms] erase_coalesced [OF assms] by (auto elim!: succeedsE)

lemma insert_refines:
  fixes m :: "('a, 'v) interval_map"
  assumes "im_ok m" "ivl_ok key"
  shows "succeeds (im_insert m key v True) (\<lambda>m'. im_ok m' \<and> (coalesced (im_map m) \<longrightarrow> coalesced (im_map m')) \<and>
    (\<forall>x. lookup (im_map m') x = (if x \<in> ivl_set key then Some v else lookup (im_map m) x)))"
proof (cases "isEmpty key")
  case True
  then show ?thesis using insert_is [OF assms, of v] by (simp add: im_insert_def)
next
  case False
  then have le: "ilo key \<le> ihi key" using assms(2) by (simp add: ivl_ok_def)
  from erase_refines [OF assms] obtain e where e: "im_erase m key = Some e" "im_ok e" "coalesced (im_map m) \<longrightarrow> coalesced (im_map e)"
    "\<forall>x. lookup (im_map e) x = (if x \<in> ivl_set key then None else lookup (im_map m) x)" by (auto elim!: succeedsE)
  then have "fresh (im_map e) key" using fresh_iff [of "im_map e" key] False le by (simp add: im_ok_def ivl_set_nonempty [OF False])
  with insert_node_coalesced [OF e(2) this] insert_is [OF assms, of v] e(1,3) False show ?thesis by (auto simp: im_insert_def)
qed

lemma insert_no_hole_refines:
  fixes m :: "('a, 'v) interval_map"
  assumes "im_ok m" "ivl_ok key"
  shows "succeeds (im_insert m key v False) (\<lambda>m'. im_ok m' \<and> (coalesced (im_map m) \<longrightarrow> coalesced (im_map m')) \<and>
    (\<forall>x. lookup (im_map m') x = (if \<exists>y\<in>ivl_set key. lookup (im_map m) y \<noteq> None then lookup (im_map m) x
      else if x \<in> ivl_set key then Some v else lookup (im_map m) x)))"
proof (cases "isEmpty key")
  case True
  then show ?thesis using assms by (simp add: im_insert_def ivl_set_def)
next
  case False
  then have le: "ilo key \<le> ihi key" using assms(2) by (simp add: ivl_ok_def)
  have fr: "fresh (im_map m) key \<longleftrightarrow> \<not> (\<exists>y\<in>ivl_set key. lookup (im_map m) y \<noteq> None)"
    using fresh_iff [of "im_map m" key] False le assms(1) by (auto simp: im_ok_def ivl_set_nonempty [OF False])
  show ?thesis
  proof (cases "fresh (im_map m) key")
    case True
    with fr insert_node_is [OF assms(1) True, of v] insert_node_coalesced [OF assms(1) True, of v] show ?thesis
      by (simp add: insert_no_hole [OF assms(1) False le] update_at_def ivl_set_nonempty [OF False])
  qed (use fr assms in \<open>simp add: insert_no_hole [OF assms(1) \<open>\<not> isEmpty key\<close> le]\<close>)
qed

lemma contains_loop_is:
  fixes suf :: "('a, 'v) node list"
  assumes "nodes_ok suf" "\<not> isEmpty key" "ilo key \<le> ihi key" "\<forall>n\<in>set suf. ilo key \<le> ihi (fst n)"
  shows "contains_loop suf key = Some (\<forall>x. ilo key \<le> x \<and> x \<le> ihi key \<longrightarrow> lookup suf x \<noteq> None)"
  using assms
proof (induction suf arbitrary: key)
  case Nil
  then show ?case by auto
next
  case (Cons n suf)
  have n: "node_ok n" "nodes_ok suf" "\<forall>m\<in>set suf. node_ok m \<and> ihi (fst n) < ilo (fst m)"
    using Cons.prems(1) by (auto simp: nodes_ok_Cons before_node_def nodes_ok_def)
  show ?case
  proof (cases "ilo key < ilo (fst n)")
    case True
    have "lookup (n # suf) (ilo key) = None"
      using True n by (intro lookup_below) (auto simp: node_ok_def intro: less_le_trans less_trans)
    then have "\<not> (\<forall>x. ilo key \<le> x \<and> x \<le> ihi key \<longrightarrow> lookup (n # suf) x \<noteq> None)"
      using Cons.prems(3) by blast
    with True show ?thesis by (cases n) simp
  next
    case False
    then have in_n: "ilo (fst n) \<le> ilo key" "ilo key \<le> ihi (fst n)" using Cons.prems(4) by auto
    have ov: "overlaps key (fst n)"
      using in_n Cons.prems(2,3) n(1) by (simp add: overlaps_def intersection_def node_ok_def not_less [symmetric])
    show ?thesis
    proof (cases "ihi key \<le> ihi (fst n)")
      case True
      then show ?thesis using False ov in_n by auto
    next
      case gt: False
      then have lt: "ihi (fst n) < ihi key" by simp
      note p = succ_range [OF lt]
      let ?r = "hull (ihi (fst n) + 1) (ihi key)"
      have sp: "splitInterval key (ihi (fst n) + 1) = Some (hull (ilo key) (ihi (fst n) + 1 - 1), ?r)"
        using Cons.prems(2) p in_n by (auto simp: splitInterval_def)
      have r: "ilo ?r = ihi (fst n) + 1" "ihi ?r = ihi key" using p by (simp_all add: min.absorb1 max.absorb2)
      have "contains_loop suf ?r = Some (\<forall>x. ilo ?r \<le> x \<and> x \<le> ihi ?r \<longrightarrow> lookup suf x \<noteq> None)"
        using n p succ_le [OF lt] by (intro Cons.IH) (auto simp: r node_ok_def intro: less_le_trans)
      moreover have "(ilo ?r \<le> x \<and> x \<le> ihi ?r \<longrightarrow> lookup suf x \<noteq> None) \<longleftrightarrow>
          (ilo key \<le> x \<and> x \<le> ihi key \<longrightarrow> lookup (n # suf) x \<noteq> None)" for x
        unfolding r succ_le [OF lt] using in_n by (cases "x \<le> ihi (fst n)") auto
      ultimately show ?thesis using False ov gt sp by simp
    qed
  qed
qed

lemma contains_is:
  fixes ns :: "('a, 'v) node list"
  assumes "nodes_ok ns" "ivl_ok key"
  shows "im_contains ns key = Some (\<forall>x\<in>ivl_set key. lookup ns x \<noteq> None)"
proof (cases "isEmpty key")
  case True
  then show ?thesis by (simp add: im_contains_def ivl_set_def)
next
  case False
  then have le: "ilo key \<le> ihi key" using assms(2) by (simp add: ivl_ok_def)
  have loop: "contains_loop (lowerBound ns (ilo key)) key =
      Some (\<forall>x. ilo key \<le> x \<and> x \<le> ihi key \<longrightarrow> lookup ns x \<noteq> None)"
    using contains_loop_is [OF lowerBound_ok [OF assms(1)] False le] lowerBound_ends [OF assms(1)]
      lookup_lowerBound [of "ilo key" _ ns] by auto
  have "lookup ns (ilo key) = None" if "find_node ns (ilo key) = None"
    using find_node_lookup [OF assms(1), of "ilo key"] that by simp
  with loop le False show ?thesis
    by (auto simp: im_contains_def ivl_set_nonempty [OF False] split: option.split)
qed

lemma overlaps_is:
  fixes ns :: "('a, 'v) node list"
  assumes "nodes_ok ns" "ivl_ok i"
  shows "im_overlaps ns i \<longleftrightarrow> (\<exists>x\<in>ivl_set i. lookup ns x \<noteq> None)"
proof (cases "isEmpty i")
  case True
  then show ?thesis by (simp add: im_overlaps_def findFirstOverlap_def ivl_set_def)
next
  case False
  then have le: "ilo i \<le> ihi i" using assms(2) by (simp add: ivl_ok_def)
  have lk: "(\<exists>x\<in>ivl_set i. lookup ns x \<noteq> None) \<longleftrightarrow> (\<exists>x. ilo i \<le> x \<and> x \<le> ihi i \<and> lookup (lowerBound ns (ilo i)) x \<noteq> None)"
    using lookup_lowerBound [of "ilo i" _ ns] unfolding ivl_set_nonempty [OF False] by (metis atLeastAtMost_iff)
  show ?thesis
  proof (cases "lowerBound ns (ilo i)")
    case Nil
    then show ?thesis unfolding lk using False by (simp add: im_overlaps_def findFirstOverlap_def)
  next
    case (Cons n rest)
    have n: "node_ok n" "\<forall>m\<in>set rest. node_ok m \<and> ihi (fst n) < ilo (fst m)" and hi: "ilo i \<le> ihi (fst n)"
      using lowerBound_ok [OF assms(1), of "ilo i"] lowerBound_ends [OF assms(1), of n "ilo i"] Cons
      by (auto simp: nodes_ok_Cons before_node_def nodes_ok_def)
    have ov: "overlaps i (fst n) \<longleftrightarrow> ilo (fst n) \<le> ihi i"
      using n hi False le by (simp add: overlaps_def intersection_def node_ok_def not_less [symmetric] leD)
    have "\<exists>x. ilo i \<le> x \<and> x \<le> ihi i \<and> lookup (n # rest) x \<noteq> None" if "ilo (fst n) \<le> ihi i"
      using that hi le n(1) by (intro exI [of _ "max (ilo i) (ilo (fst n))"]) (simp add: node_ok_def)
    moreover have "lookup (n # rest) x = None" if "ihi i < ilo (fst n)" "x \<le> ihi i" for x
      using that n by (intro lookup_below) (auto simp: node_ok_def intro: less_trans le_less_trans less_le_trans)
    ultimately show ?thesis unfolding lk using False ov Cons
      by (cases n) (auto simp: im_overlaps_def findFirstOverlap_def not_le [symmetric])
  qed
qed

end

interpretation word_scalar: scalar "TYPE(64 word)"
proof
  fix p q x :: "64 word"
  assume "p < q"
  then show "p + 1 \<le> x \<longleftrightarrow> p < x" by (rule word_Suc_le_iff)
next
  fix p q x :: "64 word"
  assume pq: "p < q"
  then have "unat (q - 1) = unat q - 1" by (intro unat_minus_one) auto
  then show "x \<le> q - 1 \<longleftrightarrow> x < q"
    using pq by (auto simp: word_le_nat_alt word_less_nat_alt)
qed (simp add: algebra_simps)

interpretation nat_scalar: scalar "TYPE(nat)"
  by unfold_locales auto

lemma whole_ends [simp]: "ilo (whole :: 'w::len word interval) = 0" "ihi (whole :: 'w::len word interval) = - 1"
  by (simp_all add: whole_def min_def max_def)

text \<open>
  \<open>first_gap f a i\<close>: the interval \<open>i\<close> is the first run of values at or above \<open>a\<close> where \<open>f\<close> is
  undefined, and it cannot be extended; it is empty when there is no such value.
\<close>

definition first_gap :: "('w::len word \<Rightarrow> 'v option) \<Rightarrow> 'w word \<Rightarrow> 'w word interval \<Rightarrow> bool" where
  "first_gap f a i \<longleftrightarrow> (if isEmpty i then \<forall>x\<ge>a. f x \<noteq> None
     else a \<le> ilo i \<and> ilo i \<le> ihi i \<and> (\<forall>x. a \<le> x \<and> x < ilo i \<longrightarrow> f x \<noteq> None) \<and>
       (\<forall>x. ilo i \<le> x \<and> x \<le> ihi i \<longrightarrow> f x = None) \<and> (ihi i = - 1 \<or> f (ihi i + 1) \<noteq> None))"

lemma first_gap_mono:
  assumes "first_gap g b i" "a \<le> b" "\<forall>x. a \<le> x \<and> x < b \<longrightarrow> f x \<noteq> None" "\<forall>x\<ge>b. f x = g x"
  shows "first_gap f a i"
proof (cases "isEmpty i")
  case True
  with assms show ?thesis unfolding first_gap_def by (metis not_le)
next
  case False
  with assms(1) have i: "b \<le> ilo i" "ilo i \<le> ihi i" "\<forall>x. b \<le> x \<and> x < ilo i \<longrightarrow> g x \<noteq> None"
    "\<forall>x. ilo i \<le> x \<and> x \<le> ihi i \<longrightarrow> g x = None" "ihi i = - 1 \<or> g (ihi i + 1) \<noteq> None"
    by (simp_all add: first_gap_def)
  have "b \<le> ihi i + 1" if "ihi i \<noteq> - 1"
  proof -
    have "ihi i < - 1" using that by (simp add: word_order.not_eq_extremum)
    then show ?thesis using word_Suc_le_iff [of "ihi i" "- 1" "ihi i + 1"] i(1,2) by auto
  qed
  then have "ihi i = - 1 \<or> f (ihi i + 1) \<noteq> None" using i(5) assms(4) by auto
  moreover have "f x \<noteq> None" if "a \<le> x" "x < ilo i" for x
    using that i(3) assms(3,4) by (cases "x < b") (auto simp: not_less)
  moreover have "f x = None" if "ilo i \<le> x" "x \<le> ihi i" for x
    using that i(1,4) assms(4) by auto
  ultimately show ?thesis using i(1,2) assms(2) False by (simp add: first_gap_def)
qed

lemma firstUnmapped_loop_gap:
  fixes suf :: "('w::len word, 'v) node list"
  assumes "nodes_ok suf" "\<forall>n\<in>set suf. a \<le> ihi (fst n)"
  shows "first_gap (lookup suf) a (firstUnmapped_loop suf a)"
  using assms
proof (induction suf arbitrary: a)
  case Nil
  then show ?case by (auto simp: first_gap_def)
next
  case (Cons n suf)
  have n: "node_ok n" "nodes_ok suf" "\<forall>m\<in>set suf. node_ok m \<and> ihi (fst n) < ilo (fst m)" "a \<le> ihi (fst n)"
    using Cons.prems by (auto simp: nodes_ok_Cons before_node_def nodes_ok_def)
  show ?case
  proof (cases "a < ilo (fst n)")
    case True
    have u: "unat (ilo (fst n) - 1) = unat (ilo (fst n)) - 1" using True by (intro unat_minus_one) auto
    have le: "a \<le> ilo (fst n) - 1" and lt: "x \<le> ilo (fst n) - 1 \<Longrightarrow> x < ilo (fst n)" for x
      using True by (auto simp: word_le_nat_alt word_less_nat_alt u)
    have "lookup (n # suf) x = None" if "x \<le> ilo (fst n) - 1" for x
      using lt [OF that] n by (intro lookup_below) (auto simp: node_ok_def intro: less_trans less_le_trans)
    then show ?thesis using True le n(1) by (auto simp: first_gap_def node_ok_def min.absorb1 max.absorb2)
  next
    case False
    then have cov: "lookup (n # suf) x \<noteq> None" if "a \<le> x" "x \<le> ihi (fst n)" for x
      using that by auto
    show ?thesis
    proof (cases "ihi (fst n) = - 1")
      case True
      then show ?thesis using False cov by (simp add: first_gap_def)
    next
      case gt: False
      then have lt: "ihi (fst n) < - 1" by (simp add: word_order.not_eq_extremum)
      note step = word_Suc_le_iff [OF lt]
      have "first_gap (lookup suf) (ihi (fst n) + 1) (firstUnmapped_loop suf (ihi (fst n) + 1))"
        using n step by (intro Cons.IH) (auto simp: node_ok_def intro: less_le_trans)
      moreover have "a \<le> ihi (fst n) + 1" using n(4) step [of "ihi (fst n) + 1"] by auto
      moreover have "\<forall>x. a \<le> x \<and> x < ihi (fst n) + 1 \<longrightarrow> lookup (n # suf) x \<noteq> None"
        using cov step by (metis not_le)
      ultimately have "first_gap (lookup (n # suf)) a (firstUnmapped_loop suf (ihi (fst n) + 1))"
        using step by (elim first_gap_mono) auto
      moreover have "firstUnmapped_loop (n # suf) a = firstUnmapped_loop suf (ihi (fst n) + 1)" using False gt by simp
      ultimately show ?thesis by (simp only:)
    qed
  qed
qed

section \<open>Properties\<close>

text \<open>
  C10. Inserting into and erasing from an interval map of 64-bit keys always returns, keeps the
  nodes non-empty, sorted and disjoint and the stored size equal to the sum of the sizes, leaves no two
  touching nodes with the same value if there were none, and is the update, or the restriction, of the map
  from keys to values that the container stands for. An insertion that may not make a hole changes nothing
  when a member of the interval is mapped.
\<close>

theorem interval_map_refines:
  fixes m :: "(64 word, 'v) interval_map"
  assumes "im_ok m" "ivl_ok key"
  shows "succeeds (im_insert m key v True) (\<lambda>m'. im_ok m' \<and> (coalesced (im_map m) \<longrightarrow> coalesced (im_map m')) \<and>
      lookup (im_map m') = (\<lambda>x. if x \<in> ivl_set key then Some v else lookup (im_map m) x)) \<and>
    succeeds (im_insert m key v False) (\<lambda>m'. im_ok m' \<and> (coalesced (im_map m) \<longrightarrow> coalesced (im_map m')) \<and>
      lookup (im_map m') = (\<lambda>x. if \<exists>y\<in>ivl_set key. lookup (im_map m) y \<noteq> None then lookup (im_map m) x
        else if x \<in> ivl_set key then Some v else lookup (im_map m) x)) \<and>
    succeeds (im_erase m key) (\<lambda>m'. im_ok m' \<and> (coalesced (im_map m) \<longrightarrow> coalesced (im_map m')) \<and>
      lookup (im_map m') = (\<lambda>x. if x \<in> ivl_set key then None else lookup (im_map m) x))"
  unfolding fun_eq_iff
  by (intro conjI word_scalar.insert_refines [OF assms] word_scalar.insert_no_hole_refines [OF assms] word_scalar.erase_refines [OF assms])

theorem interval_map_refines_witness:
  "succeeds (im_insert \<lparr>im_map = [(hull 2 9, CHR ''a'')], im_size = 8 :: 64 word\<rparr> (hull 10 15) (CHR ''a'') True)
     (\<lambda>m'. im_ok m' \<and> coalesced (im_map m') \<and> lookup (im_map m') =
       (\<lambda>x. if x \<in> ivl_set (hull 10 15) then Some (CHR ''a'') else lookup [(hull 2 9, CHR ''a'')] x))"
proof -
  have "im_ok \<lparr>im_map = [(hull 2 9, CHR ''a'')], im_size = 8 :: 64 word\<rparr>" "ivl_ok (hull 10 (15 :: 64 word))"
    "coalesced [(hull 2 (9 :: 64 word), CHR ''a'')]"
    by (simp_all add: im_ok_def nodes_ok_def node_ok_def interval_size_def coalesced_def)
  with conjunct1 [OF interval_map_refines [OF this(1,2), of "CHR ''a''"]] show ?thesis
    unfolding interval_map.select_convs by (simp only: simp_thms)
qed

text \<open>
  The queries of an interval map of 64-bit keys agree with the map it stands for: a key is
  found with its value, an interval is contained when every member is mapped and overlaps when some
  member is, and \<^verbatim>\<open>firstUnmapped\<close> is the first maximal run of unmapped keys.
\<close>

theorem interval_map_queries:
  fixes ns :: "(64 word, 'v) node list"
  assumes "nodes_ok ns" "ivl_ok i"
  shows "getOptional ns x = lookup ns x \<and>
    im_contains ns i = Some (\<forall>x\<in>ivl_set i. lookup ns x \<noteq> None) \<and>
    (im_overlaps ns i \<longleftrightarrow> (\<exists>x\<in>ivl_set i. lookup ns x \<noteq> None)) \<and>
    first_gap (lookup ns) a (firstUnmapped ns a)"
proof (intro conjI)
  show "getOptional ns x = lookup ns x"
    using find_node_lookup [OF assms(1), of x] by (cases "find_node ns x") (auto simp: getOptional_def)
  show "first_gap (lookup ns) a (firstUnmapped ns a)"
    unfolding firstUnmapped_def
  proof (rule first_gap_mono)
    show "first_gap (lookup (lowerBound ns a)) a (firstUnmapped_loop (lowerBound ns a) a)"
      using lowerBound_ends [OF assms(1)] by (intro firstUnmapped_loop_gap lowerBound_ok [OF assms(1)]) blast
  qed (auto simp: lookup_lowerBound)
qed (rule word_scalar.contains_is [OF assms] word_scalar.overlaps_is [OF assms])+

theorem interval_map_queries_witness:
  "first_gap (lookup [(hull 2 9, CHR ''a'')]) 3 (firstUnmapped [(hull 2 9, CHR ''a'')] (3 :: 64 word)) \<and>
   firstUnmapped [(hull 2 9, CHR ''a'')] (3 :: 64 word) = hull 10 (- 1)"
  using interval_map_queries [of "[(hull 2 9, CHR ''a'')]" "hull 0 (0 :: 64 word)" 0 3]
  by (simp add: nodes_ok_def node_ok_def firstUnmapped_def lowerBound_def)

text \<open>
  \<^verbatim>\<open>lastUnmapped\<close> of the address zero returns the empty interval for every container that
  is not empty, also when zero is not mapped.
\<close>

theorem lastUnmapped_zero:
  fixes ns :: "(64 word, 'v) node list"
  assumes "nodes_ok ns" "ns \<noteq> []" "lookup ns 0 = None"
  shows "lastUnmapped ns 0 = Interval_empty"
proof -
  have "\<not> ihi (fst n) < 0" for n :: "(64 word, 'v) node" by simp
  then have tw: "takeWhile (\<lambda>n. ihi (fst n) < 0) ns = []" "lowerBound ns 0 = ns"
    by (cases ns; simp add: lowerBound_def)+
  obtain n rest where ns: "ns = n # rest" using assms(2) by (cases ns) auto
  have "\<not> ilo (fst n) \<le> 0" using assms(1,3) by (auto simp: ns nodes_ok_Cons node_ok_def)
  then have "findPrior ns 0 = []" using tw by (simp add: findPrior_def ns)
  then show ?thesis using assms(2) by (simp add: lastUnmapped_def im_isEmpty_def)
qed

theorem lastUnmapped_zero_witness:
  "lastUnmapped [(hull 2 9, CHR ''a'')] (0 :: 64 word) = Interval_empty \<and> lookup [(hull 2 9, CHR ''a'')] (0 :: 64 word) = None"
  using lastUnmapped_zero [of "[(hull 2 9, CHR ''a'')]"] by (simp add: nodes_ok_def node_ok_def)

end
