(* ===== verification/Interval_Set.thy ===== *)
theory Interval_Set
  imports Interval_Map
begin

text \<open>
  Sets of scalars stored as maximal intervals (\<^verbatim>\<open>Sawyer/IntervalSet.h\<close>), the set operations built
  on the interval map: construction from intervals, union, intersection, difference, complement,
  inclusion and equality. The operations that modify a set in place return the new set. The guard
  of the map against an operand that is the same object is not part of the values and is left out.
\<close>

section \<open>Constructors and queries\<close>

fun im_contains_map :: "('a::{linorder,zero,one,plus,minus}, 'v) node list \<Rightarrow> ('a, 'w) node list \<Rightarrow> bool option" where
  "im_contains_map ns [] = Some True"
| "im_contains_map ns (o1 # others) = do {
     c \<leftarrow> im_contains ns (fst o1);
     if c then im_contains_map ns others else Some False
   }"

fun insert_intervals :: "'a::{linorder,zero,one,plus,minus} interval_set \<Rightarrow> 'a interval list \<Rightarrow> 'a interval_set option" where
  "insert_intervals s [] = Some s"
| "insert_intervals s (i # is) = do { s \<leftarrow> IntervalSet_insert s i; insert_intervals s is }"

definition IntervalSet_of_intervals :: "'a::{linorder,zero,one,plus,minus} interval list \<Rightarrow> 'a interval_set option" where
  "IntervalSet_of_intervals is = insert_intervals IntervalSet_empty is"

definition IntervalSet_clear :: "'a::zero interval_set \<Rightarrow> 'a interval_set" where
  "IntervalSet_clear s = im_clear s"

definition IntervalSet_assign :: "'a::{linorder,zero,one,plus,minus} interval_set \<Rightarrow> 'a interval list \<Rightarrow> 'a interval_set option" where
  "IntervalSet_assign s is = insert_intervals (IntervalSet_clear s) is"

definition IntervalSet_nIntervals :: "'a interval_set \<Rightarrow> nat" where
  "IntervalSet_nIntervals s = nIntervals (im_map s)"

definition IntervalSet_hull :: "'a::{linorder,zero,one} interval_set \<Rightarrow> 'a interval option" where
  "IntervalSet_hull s = im_hull (im_map s)"

definition IntervalSet_overlaps :: "'a::{linorder,zero,one} interval_set \<Rightarrow> 'a interval \<Rightarrow> bool" where
  "IntervalSet_overlaps s interval \<longleftrightarrow> im_overlaps (im_map s) interval"

definition IntervalSet_overlaps_set :: "'a::{linorder,zero,one} interval_set \<Rightarrow> 'a interval_set \<Rightarrow> bool" where
  "IntervalSet_overlaps_set s other \<longleftrightarrow> im_overlaps_map (im_map s) (im_map other)"

definition IntervalSet_isDistinct :: "'a::{linorder,zero,one} interval_set \<Rightarrow> 'a interval_set \<Rightarrow> bool" where
  "IntervalSet_isDistinct s other \<longleftrightarrow> \<not> IntervalSet_overlaps_set s other"

definition IntervalSet_contains :: "'a::{linorder,zero,one,plus,minus} interval_set \<Rightarrow> 'a interval \<Rightarrow> bool option" where
  "IntervalSet_contains s interval = im_contains (im_map s) interval"

definition IntervalSet_contains_set :: "'a::{linorder,zero,one,plus,minus} interval_set \<Rightarrow> 'a interval_set \<Rightarrow> bool option" where
  "IntervalSet_contains_set s other = im_contains_map (im_map s) (im_map other)"

definition IntervalSet_least :: "'a interval_set \<Rightarrow> 'a option" where
  "IntervalSet_least s = do { require (\<not> IntervalSet_isEmpty s); im_least (im_map s) }"

definition IntervalSet_greatest :: "'a interval_set \<Rightarrow> 'a option" where
  "IntervalSet_greatest s = do { require (\<not> IntervalSet_isEmpty s); im_greatest (im_map s) }"

section \<open>Modifiers\<close>

definition IntervalSet_invert_whole :: "'w::len word interval_set \<Rightarrow> 'w word interval_set option" where
  "IntervalSet_invert_whole s = IntervalSet_invert s whole"

definition IntervalSet_insertMultiple :: "'a::{linorder,zero,one,plus,minus} interval_set \<Rightarrow> 'a interval_set \<Rightarrow> 'a interval_set option" where
  "IntervalSet_insertMultiple s other = insert_intervals s (IntervalSet_intervals other)"

definition IntervalSet_eraseMultiple :: "'a::{linorder,zero,one,plus,minus} interval_set \<Rightarrow> 'a interval_set \<Rightarrow> 'a interval_set option" where
  "IntervalSet_eraseMultiple s other = im_eraseMultiple s (im_map other)"

text \<open>\<^verbatim>\<open>intersect\<close> with an interval: the two erasures of what is below and above it.\<close>

definition IntervalSet_intersect :: "'a::{linorder,zero,one,plus,minus} interval_set \<Rightarrow> 'a interval \<Rightarrow> 'a interval_set option" where
  "IntervalSet_intersect s interval =
     (if IntervalSet_isEmpty s then Some s
      else if isEmpty interval then Some (IntervalSet_clear s)
      else do {
        h \<leftarrow> IntervalSet_hull s;
        lo \<leftarrow> least h;
        s \<leftarrow> (if lo < ilo interval then im_erase s (hull lo (ilo interval - 1)) else Some s);
        h \<leftarrow> IntervalSet_hull s;
        if \<not> isEmpty h \<and> ihi h > ihi interval then im_erase s (hull (ihi interval) (ihi h)) else Some s
      })"

definition IntervalSet_intersect_set :: "'a::{linorder,zero,one,plus,minus} interval_set \<Rightarrow> 'a interval_set \<Rightarrow> 'a interval_set option" where
  "IntervalSet_intersect_set s other = do {
     h \<leftarrow> IntervalSet_hull s;
     other \<leftarrow> IntervalSet_invert other h;
     im_eraseMultiple s (im_map other)
   }"

section \<open>Operators\<close>

definition IntervalSet_ne :: "'a interval_set \<Rightarrow> 'a interval_set \<Rightarrow> bool" where
  "IntervalSet_ne a b \<longleftrightarrow>
     (if IntervalSet_nIntervals a \<noteq> IntervalSet_nIntervals b then True
      else list_ex (\<lambda>(ai, bi). ai \<noteq> bi) (zip (IntervalSet_intervals a) (IntervalSet_intervals b)))"

definition IntervalSet_eq :: "'a interval_set \<Rightarrow> 'a interval_set \<Rightarrow> bool" where
  "IntervalSet_eq a b \<longleftrightarrow> \<not> IntervalSet_ne a b"

definition IntervalSet_union :: "'a::{linorder,zero,one,plus,minus} interval_set \<Rightarrow> 'a interval_set \<Rightarrow> 'a interval_set option" where
  "IntervalSet_union a b =
     (if IntervalSet_nIntervals a < IntervalSet_nIntervals b then IntervalSet_insertMultiple b a
      else IntervalSet_insertMultiple a b)"

definition IntervalSet_intersection :: "'a::{linorder,zero,one,plus,minus} interval_set \<Rightarrow> 'a interval_set \<Rightarrow> 'a interval_set option" where
  "IntervalSet_intersection a b =
     (if IntervalSet_nIntervals a < IntervalSet_nIntervals b then IntervalSet_intersect_set b a
      else IntervalSet_intersect_set a b)"

definition IntervalSet_difference :: "'a::{linorder,zero,one,plus,minus} interval_set \<Rightarrow> 'a interval_set \<Rightarrow> 'a interval_set option" where
  "IntervalSet_difference a b = IntervalSet_eraseMultiple a b"

section \<open>The sets they stand for\<close>

definition elems :: "'a::linorder interval_set \<Rightarrow> 'a set" where
  "elems s = {x. lookup (im_map s) x \<noteq> None}"

text \<open>No two stored intervals touch.\<close>

definition separated :: "('a::{linorder,one,plus}, 'v) node list \<Rightarrow> bool" where
  "separated ns \<longleftrightarrow> (\<forall>n\<in>set ns. \<forall>m\<in>set ns. ihi (fst n) < ilo (fst m) \<longrightarrow> ihi (fst n) + 1 \<noteq> ilo (fst m))"

definition iset_ok :: "'a::{linorder,one,cancel_comm_monoid_add} interval_set \<Rightarrow> bool" where
  "iset_ok s \<longleftrightarrow> im_ok s \<and> (\<forall>n\<in>set (im_map s). snd n = 0) \<and> separated (im_map s)"

lemma iset_ok_empty: "iset_ok IntervalSet_empty" "elems IntervalSet_empty = {}"
  by (simp_all add: iset_ok_def im_ok_def IntervalSet_empty_def separated_def elems_def)

context scalar
begin

lemma iset_coalesced:
  fixes s :: "'a interval_set"
  assumes "\<forall>n\<in>set (im_map s). snd n = 0"
  shows "separated (im_map s) \<longleftrightarrow> coalesced (im_map s)"
  using assms by (auto simp: separated_def coalesced_def)

lemma zero_values:
  fixes ns :: "('a, int) node list"
  assumes "nodes_ok ns" "\<forall>x. lookup ns x \<in> {None, Some 0}"
  shows "\<forall>n\<in>set ns. snd n = 0"
proof
  fix n assume n: "n \<in> set ns"
  then have "find_node ns (ilo (fst n)) = Some n"
    using assms(1) by (intro find_node_at) (auto simp: nodes_ok_def node_ok_def)
  with find_node_lookup [OF assms(1), of "ilo (fst n)"] assms(2) show "snd n = 0" by (metis insertE option.discI option.inject option.simps(9) singletonD)
qed

lemma lookup_zero: "\<forall>n\<in>set ns. snd n = 0 \<Longrightarrow> lookup ns x \<in> {None, Some 0}" for ns :: "('a, int) node list"
  by (induction ns) auto

lemma iset_lookup: "iset_ok s \<Longrightarrow> lookup (im_map s) x \<in> {None, Some 0}" for s :: "'a interval_set"
  using lookup_zero [of "im_map s" x] by (simp add: iset_ok_def)

text \<open>An operation that keeps a map coalesced and stores only zeros keeps the invariant of sets.\<close>

lemma iset_okI:
  fixes s s' :: "'a interval_set"
  assumes "iset_ok s" "im_ok s'" "coalesced (im_map s) \<longrightarrow> coalesced (im_map s')" "\<forall>x. lookup (im_map s') x \<in> {None, Some 0}"
  shows "iset_ok s'"
  using assms iset_coalesced [of s] iset_coalesced [of s'] zero_values [of "im_map s'"] by (auto simp: iset_ok_def im_ok_def)

lemma erase_iset:
  fixes s :: "'a interval_set"
  assumes "iset_ok s" "ivl_ok e"
  shows "succeeds (im_erase s e) (\<lambda>s'. iset_ok s' \<and> elems s' = elems s - ivl_set e)"
proof (rule succeeds_mono [OF erase_refines [OF _ assms(2)]])
  fix s' assume s': "im_ok s' \<and> (coalesced (im_map s) \<longrightarrow> coalesced (im_map s')) \<and>
    (\<forall>x. lookup (im_map s') x = (if x \<in> ivl_set e then None else lookup (im_map s) x))"
  then have "iset_ok s'" using iset_lookup [OF assms(1)] by (intro iset_okI [OF assms(1)]) simp_all
  with s' show "iset_ok s' \<and> elems s' = elems s - ivl_set e" by (auto simp: elems_def)
qed (use assms(1) in \<open>simp add: iset_ok_def\<close>)

lemma insert_iset:
  fixes s :: "'a interval_set"
  assumes "iset_ok s" "ivl_ok key"
  shows "succeeds (IntervalSet_insert s key) (\<lambda>s'. iset_ok s' \<and> elems s' = elems s \<union> ivl_set key)"
  unfolding IntervalSet_insert_def
proof (rule succeeds_mono [OF insert_refines [OF _ assms(2)]])
  fix s' assume s': "im_ok s' \<and> (coalesced (im_map s) \<longrightarrow> coalesced (im_map s')) \<and>
    (\<forall>x. lookup (im_map s') x = (if x \<in> ivl_set key then Some 0 else lookup (im_map s) x))"
  then have "iset_ok s'" using iset_lookup [OF assms(1)] by (intro iset_okI [OF assms(1)]) simp_all
  with s' show "iset_ok s' \<and> elems s' = elems s \<union> ivl_set key" by (auto simp: elems_def)
qed (use assms(1) in \<open>simp add: iset_ok_def\<close>)

lemma node_ivl: "node_ok n \<Longrightarrow> ivl_ok (fst n) \<and> ivl_set (fst n) = {ilo (fst n)..ihi (fst n)}" for n :: "('a, 'v) node"
  by (simp add: node_ok_def ivl_ok_def ivl_set_def)

lemma elems_nodes: "iset_ok s \<Longrightarrow> elems s = (\<Union>n\<in>set (im_map s). ivl_set (fst n))" for s :: "'a interval_set"
proof -
  assume "iset_ok s"
  then have "\<forall>n\<in>set (im_map s). ivl_set (fst n) = {ilo (fst n)..ihi (fst n)}"
    using node_ivl unfolding iset_ok_def im_ok_def nodes_ok_def by blast
  then have "(\<Union>n\<in>set (im_map s). ivl_set (fst n)) = (\<Union>n\<in>set (im_map s). {ilo (fst n)..ihi (fst n)})" by simp
  then show ?thesis unfolding elems_def lookup_None_iff by (simp only:) (simp add: set_eq_iff)
qed

lemma insert_intervals_is:
  fixes s :: "'a interval_set"
  assumes "iset_ok s" "\<forall>i\<in>set is. ivl_ok i"
  shows "succeeds (insert_intervals s is) (\<lambda>s'. iset_ok s' \<and> elems s' = elems s \<union> (\<Union>i\<in>set is. ivl_set i))"
  using assms
proof (induction "is" arbitrary: s)
  case (Cons i "is")
  from insert_iset [OF Cons.prems(1), of i] Cons.prems(2)
  obtain s1 where s1: "IntervalSet_insert s i = Some s1" "iset_ok s1" "elems s1 = elems s \<union> ivl_set i" by (auto elim: succeedsE)
  from Cons.IH [OF s1(2)] Cons.prems(2) s1 show ?case by (auto elim!: succeedsE)
qed simp

lemma eraseMultiple_is:
  fixes s :: "'a interval_set" and ns :: "('a, 'v) node list"
  assumes "iset_ok s" "\<forall>n\<in>set ns. ivl_ok (fst n)"
  shows "succeeds (im_eraseMultiple s ns) (\<lambda>s'. iset_ok s' \<and> elems s' = elems s - (\<Union>n\<in>set ns. ivl_set (fst n)))"
  using assms
proof (induction ns arbitrary: s)
  case (Cons n ns)
  from erase_iset [OF Cons.prems(1), of "fst n"] Cons.prems(2)
  obtain s1 where s1: "im_erase s (fst n) = Some s1" "iset_ok s1" "elems s1 = elems s - ivl_set (fst n)" by (auto elim: succeedsE)
  from Cons.IH [OF s1(2)] Cons.prems(2) s1 show ?case by (auto elim!: succeedsE)
qed simp

lemma iset_nodes: "iset_ok s \<Longrightarrow> \<forall>n\<in>set (im_map s). ivl_ok (fst n)" for s :: "'a interval_set"
  using node_ivl unfolding iset_ok_def im_ok_def nodes_ok_def by blast

lemma insertMultiple_iset:
  fixes s other :: "'a interval_set"
  assumes "iset_ok s" "iset_ok other"
  shows "succeeds (IntervalSet_insertMultiple s other) (\<lambda>s'. iset_ok s' \<and> elems s' = elems s \<union> elems other)"
  using insert_intervals_is [OF assms(1), of "IntervalSet_intervals other"] iset_nodes [OF assms(2)] elems_nodes [OF assms(2)]
  by (simp add: IntervalSet_insertMultiple_def IntervalSet_intervals_def)

lemma eraseMultiple_iset:
  fixes s other :: "'a interval_set"
  assumes "iset_ok s" "iset_ok other"
  shows "succeeds (im_eraseMultiple s (im_map other)) (\<lambda>s'. iset_ok s' \<and> elems s' = elems s - elems other)"
  using eraseMultiple_is [OF assms(1), of "im_map other"] iset_nodes [OF assms(2)] elems_nodes [OF assms(2)] by simp

text \<open>The loop of \<^verbatim>\<open>invert\<close> collects what the nodes leave free from the pending value on.\<close>

lemma invert_loop_is:
  fixes inv :: "'a interval_set"
  assumes "nodes_ok ns" "\<forall>n\<in>set ns. p \<le> ihi (fst n)" "iset_ok inv" "p \<le> ihi r"
  shows "succeeds (invert_loop ns r inv p) (\<lambda>(inv', p', top). iset_ok inv' \<and> (top \<longrightarrow> p' \<le> ihi r) \<and>
    elems inv' \<union> (if top then {p'..ihi r} else {}) = elems inv \<union> {x. p \<le> x \<and> x \<le> ihi r \<and> lookup ns x = None})"
  using assms
proof (induction ns arbitrary: inv p)
  case Nil
  then show ?case by auto
next
  case (Cons n ns)
  have n: "node_ok n" "nodes_ok ns" "\<forall>m\<in>set ns. ihi (fst n) < ilo (fst m) \<and> ilo (fst m) \<le> ihi (fst m)"
    using Cons.prems(1) by (auto simp: nodes_ok_Cons before_node_def nodes_ok_def node_ok_def)
  have nn: "ilo (fst n) \<le> ihi (fst n)" using n(1) by (simp add: node_ok_def)
  have below: "lookup ns x = None" if "x \<le> ihi (fst n)" for x
    using n(3) that by (intro lookup_below) auto
  show ?case
  proof (cases "ilo (fst n) > ihi r")
    case True
    then have "lookup (n # ns) x = None" if "x \<le> ihi r" for x using below [of x] that nn by auto
    then have "{x. p \<le> x \<and> x \<le> ihi r \<and> lookup (n # ns) x = None} = {p..ihi r}"
      unfolding set_eq_iff mem_Collect_eq atLeastAtMost_iff by blast
    with True Cons.prems show ?thesis by simp
  next
    case False
    define gap where "gap = {x. p \<le> x \<and> x < ilo (fst n)}"
    have "succeeds (if p < ilo (fst n) then IntervalSet_insert inv (hull p (ilo (fst n) - 1)) else Some inv)
        (\<lambda>i. iset_ok i \<and> elems i = elems inv \<union> gap)"
    proof (cases "p < ilo (fst n)")
      case True
      note pr = pred_range [OF True] and lp = le_pred [OF True]
      have "ivl_set (hull p (ilo (fst n) - 1)) = gap"
        unfolding ivl_set_hull min.absorb1 [OF pr [THEN conjunct1]] max.absorb2 [OF pr [THEN conjunct1]]
          gap_def set_eq_iff atLeastAtMost_iff mem_Collect_eq lp by blast
      with insert_iset [OF Cons.prems(3), of "hull p (ilo (fst n) - 1)"] True show ?thesis by simp
    qed (use Cons.prems in \<open>auto simp: gap_def\<close>)
    then obtain i where i: "(if p < ilo (fst n) then IntervalSet_insert inv (hull p (ilo (fst n) - 1)) else Some inv) = Some i"
      "iset_ok i" "elems i = elems inv \<union> gap" by (auto elim: succeedsE)
    have here: "{x. p \<le> x \<and> x \<le> ihi (fst n) \<and> x \<le> ihi r \<and> lookup (n # ns) x = None} = gap"
      using below False by (auto simp: gap_def) (use nn Cons.prems(2) in auto)
    show ?thesis
    proof (cases "ihi (fst n) < ihi r")
      case True
      note su = succ_le [OF True] and sr = succ_range [OF True]
      have "\<forall>m\<in>set ns. ihi (fst n) + 1 \<le> ihi (fst m)" using n(3) su by fastforce
      from Cons.IH [OF n(2) this i(2)] sr
      have IH: "succeeds (invert_loop ns r i (ihi (fst n) + 1)) (\<lambda>(inv', p', top). iset_ok inv' \<and> (top \<longrightarrow> p' \<le> ihi r) \<and>
        elems inv' \<union> (if top then {p'..ihi r} else {}) = elems i \<union> {x. ihi (fst n) + 1 \<le> x \<and> x \<le> ihi r \<and> lookup ns x = None})"
        by simp
      have "elems i \<union> {x. ihi (fst n) + 1 \<le> x \<and> x \<le> ihi r \<and> lookup ns x = None} =
          elems inv \<union> {x. p \<le> x \<and> x \<le> ihi r \<and> lookup (n # ns) x = None}"
        unfolding i(3) here [symmetric] su using True Cons.prems(2) by auto
      with IH False True i(1) show ?thesis by (simp add: case_prod_unfold)
    next
      case hi: False
      have "{x. p \<le> x \<and> x \<le> ihi r \<and> lookup (n # ns) x = None} = gap"
        unfolding here [symmetric] using hi by auto
      with i False hi show ?thesis by simp
    qed
  qed
qed

lemma invert_is:
  fixes s :: "'a interval_set"
  assumes "iset_ok s" "ivl_ok r"
  shows "succeeds (IntervalSet_invert s r) (\<lambda>s'. iset_ok s' \<and> elems s' = ivl_set r - elems s)"
proof (cases "isEmpty r")
  case True
  then show ?thesis by (simp add: IntervalSet_invert_def iset_ok_empty ivl_set_def)
next
  case False
  then have le: "ilo r \<le> ihi r" using assms(2) by (simp add: ivl_ok_def)
  have ok: "nodes_ok (im_map s)" using assms(1) by (simp add: iset_ok_def im_ok_def)
  have "elems IntervalSet_empty \<union> {x. ilo r \<le> x \<and> x \<le> ihi r \<and> lookup (lowerBound (im_map s) (ilo r)) x = None} = ivl_set r - elems s"
    unfolding ivl_set_nonempty [OF False] elems_def
    using lookup_lowerBound [of "ilo r" _ "im_map s"] by (auto simp: IntervalSet_empty_def)
  with invert_loop_is [OF lowerBound_ok [OF ok] _ iset_ok_empty(1) le, of "ilo r"] lowerBound_ends [OF ok]
  obtain inv p top where l: "invert_loop (lowerBound (im_map s) (ilo r)) r IntervalSet_empty (ilo r) = Some (inv, p, top)"
    "iset_ok inv" "top \<longrightarrow> p \<le> ihi r" "elems inv \<union> (if top then {p..ihi r} else {}) = ivl_set r - elems s"
    by (auto elim!: succeedsE)
  show ?thesis
  proof (cases top)
    case True
    with l insert_iset [OF l(2), of "hull p (ihi r)"] False show ?thesis
      by (simp add: IntervalSet_invert_def min_def max_def)
  qed (use l False in \<open>simp add: IntervalSet_invert_def\<close>)
qed

lemma hull_is:
  fixes s :: "'a interval_set"
  assumes "iset_ok s" "\<not> IntervalSet_isEmpty s"
  obtains lo hi where "IntervalSet_hull s = Some (hull lo hi)" "lo \<le> hi" "lo \<in> elems s" "hi \<in> elems s" "elems s \<subseteq> {lo..hi}"
proof -
  define ns where "ns = im_map s"
  have ne: "ns \<noteq> []" and ok: "nodes_ok ns" using assms by (auto simp: ns_def IntervalSet_isEmpty_def im_isEmpty_def iset_ok_def im_ok_def)
  define lo hi where "lo = ilo (fst (hd ns))" and "hi = ihi (fst (last ns))"
  have h: "IntervalSet_hull s = Some (hull lo hi)"
    using ne by (simp add: IntervalSet_hull_def im_hull_def im_isEmpty_def im_least_def im_greatest_def lo_def hi_def flip: ns_def)
  have nd: "node_ok n" if "n \<in> set ns" for n using ok that by (auto simp: nodes_ok_def)
  have fst_n: "lo \<le> ilo (fst n)" if "n \<in> set ns" for n
    using ok that nd [of "hd ns"] ne by (cases ns) (auto simp: lo_def nodes_ok_Cons before_node_def node_ok_def)
  have last_n: "ihi (fst n) \<le> hi" if "n \<in> set ns" for n
  proof -
    have "ns = butlast ns @ [last ns]" using ne by simp
    then have "n \<in> set (butlast ns) \<or> n = last ns" "\<forall>m\<in>set (butlast ns). before_node m (last ns)"
      using that ok by (metis Un_iff empty_iff list.set set_append insert_iff, metis nodes_ok_append list.set_intros(1))
    then show ?thesis using nd [of "last ns"] ne by (auto simp: hi_def before_node_def node_ok_def)
  qed
  have el: "x \<in> elems s \<longleftrightarrow> (\<exists>n\<in>set ns. ilo (fst n) \<le> x \<and> x \<le> ihi (fst n))" for x
    by (simp add: elems_def lookup_None_iff flip: ns_def)
  show ?thesis
  proof (rule that [OF h])
    show "lo \<in> elems s" unfolding el lo_def using nd [of "hd ns"] ne by (intro bexI [of _ "hd ns"]) (simp_all add: node_ok_def)
    show "hi \<in> elems s" unfolding el hi_def using nd [of "last ns"] ne by (intro bexI [of _ "last ns"]) (simp_all add: node_ok_def)
    show sub: "elems s \<subseteq> {lo..hi}" using fst_n last_n by (fastforce simp: el)
    show "lo \<le> hi" using sub \<open>lo \<in> elems s\<close> by auto
  qed
qed

lemma isEmpty_elems:
  fixes s :: "'a interval_set"
  assumes "iset_ok s"
  shows "IntervalSet_isEmpty s \<longleftrightarrow> elems s = {}"
proof (cases "IntervalSet_isEmpty s")
  case True
  then show ?thesis by (simp add: elems_def IntervalSet_isEmpty_def im_isEmpty_def)
next
  case False
  from hull_is [OF assms False] have "elems s \<noteq> {}" by blast
  with False show ?thesis by simp
qed

lemma intersect_set_is:
  fixes s other :: "'a interval_set"
  assumes "iset_ok s" "iset_ok other"
  shows "succeeds (IntervalSet_intersect_set s other) (\<lambda>s'. iset_ok s' \<and> elems s' = elems s \<inter> elems other)"
proof -
  obtain h where h: "IntervalSet_hull s = Some h" "ivl_ok h" "elems s \<subseteq> ivl_set h"
  proof (cases "IntervalSet_isEmpty s")
    case True
    then show ?thesis using that [of Interval_empty] isEmpty_elems [OF assms(1)]
      by (simp add: IntervalSet_hull_def im_hull_def IntervalSet_isEmpty_def)
  next
    case False
    from hull_is [OF assms(1) this] show ?thesis using that by (metis ivl_ok_hull ivl_set_hull max.absorb2 min.absorb1)
  qed
  from invert_is [OF assms(2) h(2)] obtain i where i: "IntervalSet_invert other h = Some i" "iset_ok i" "elems i = ivl_set h - elems other"
    by (auto elim: succeedsE)
  have "elems s - elems i = elems s \<inter> elems other" using h(3) i(3) by auto
  with eraseMultiple_iset [OF assms(1) i(2)] h(1) i(1) show ?thesis by (simp add: IntervalSet_intersect_set_def)
qed

text \<open>Nodes that do not touch are determined by the members.\<close>

lemma gap_after_first:
  fixes ns :: "('a, 'v) node list"
  assumes "nodes_ok (n # ns)" "separated (n # ns)" "ihi (fst n) < y"
  shows "\<exists>x. ihi (fst n) < x \<and> x \<le> y \<and> lookup (n # ns) x = None"
proof -
  define x where "x = ihi (fst n) + 1"
  have x: "ihi (fst n) < x" "x \<le> y" using succ_range [OF assms(3)] by (simp_all add: x_def)
  have "\<not> (ilo (fst m) \<le> x \<and> x \<le> ihi (fst m))" if "m \<in> set ns" for m
  proof -
    have b: "ihi (fst n) < ilo (fst m)" using assms(1) that by (auto simp: nodes_ok_Cons before_node_def)
    then have "x \<noteq> ilo (fst m)" using assms(2) that by (auto simp: separated_def x_def)
    moreover have "x \<le> ilo (fst m)" using succ_range [OF b] by (simp add: x_def)
    ultimately show ?thesis by auto
  qed
  then have "lookup (n # ns) x = None" using x(1) by (auto simp: lookup_None_iff)
  with x show ?thesis by blast
qed

lemma separated_keys:
  fixes ns :: "('a, 'v) node list" and ms :: "('a, 'w) node list"
  assumes "nodes_ok ns" "separated ns" "nodes_ok ms" "separated ms" "\<And>x. lookup ns x = None \<longleftrightarrow> lookup ms x = None"
  shows "map fst ns = map fst ms"
  using assms
proof (induction ns arbitrary: ms)
  case Nil
  show ?case
  proof (cases ms)
    case (Cons m ms')
    then have "lookup ms (ilo (fst m)) \<noteq> None" using Nil.prems(3) by (simp add: nodes_ok_Cons node_ok_def)
    then show ?thesis using Nil.prems(5) [of "ilo (fst m)"] by simp
  qed simp
next
  case (Cons n ns)
  have n: "ilo (fst n) \<le> ihi (fst n)" "\<forall>k\<in>set ns. ihi (fst n) < ilo (fst k)" "nodes_ok ns" "separated ns"
    using Cons.prems(1,2) by (auto simp: nodes_ok_Cons node_ok_def before_node_def separated_def)
  have mapped: "lookup (n # ns) x \<noteq> None \<longleftrightarrow> lookup ms x \<noteq> None" for x using Cons.prems(5) [of x] by (simp only:)
  have ln: "lookup (n # ns) (ilo (fst n)) \<noteq> None" using n(1) by simp
  then obtain m ms' where ms: "ms = m # ms'" using mapped [of "ilo (fst n)"] by (cases ms) auto
  have m: "ilo (fst m) \<le> ihi (fst m)" "\<forall>k\<in>set ms'. ihi (fst m) < ilo (fst k)" "nodes_ok ms'" "separated ms'"
    using Cons.prems(3,4) unfolding ms by (auto simp: nodes_ok_Cons node_ok_def before_node_def separated_def)
  have lm: "lookup ms (ilo (fst m)) \<noteq> None" using m(1) by (simp add: ms)
  have lo_n: "ilo (fst n) \<le> x" if "lookup (n # ns) x \<noteq> None" for x
    using that n(1,2) unfolding lookup_None_iff by fastforce
  have lo_m: "ilo (fst m) \<le> x" if "lookup ms x \<noteq> None" for x
    using that m(1,2) unfolding ms lookup_None_iff by fastforce
  have lo: "ilo (fst n) = ilo (fst m)"
    using lo_n [of "ilo (fst m)"] lo_m [of "ilo (fst n)"] ln lm mapped by (intro antisym) blast+
  have "\<not> ihi (fst n) < ihi (fst m)"
  proof
    assume lt: "ihi (fst n) < ihi (fst m)"
    from gap_after_first [OF Cons.prems(1,2) lt] obtain x where "ihi (fst n) < x" "x \<le> ihi (fst m)" "lookup ms x = None"
      using Cons.prems(5) by blast
    then show False using lo n(1) by (simp add: ms split: if_splits)
  qed
  moreover have "\<not> ihi (fst m) < ihi (fst n)"
  proof
    assume lt: "ihi (fst m) < ihi (fst n)"
    from gap_after_first [OF Cons.prems(3,4) [unfolded ms] lt] obtain x where "ihi (fst m) < x" "x \<le> ihi (fst n)" "lookup (n # ns) x = None"
      using Cons.prems(5) ms by blast
    then show False using lo m(1) by (simp split: if_splits)
  qed
  ultimately have hi: "ihi (fst n) = ihi (fst m)" by simp
  have "lookup ns x = None \<longleftrightarrow> lookup ms' x = None" for x
  proof (cases "x \<le> ihi (fst n)")
    case True
    then have "lookup ns x = None" "lookup ms' x = None"
      using n(2) m(2) hi by (auto intro!: lookup_below intro: le_less_trans)
    then show ?thesis by simp
  next
    case False
    then show ?thesis using Cons.prems(5) [of x] hi by (simp add: ms)
  qed
  from Cons.IH [OF n(3,4) m(3,4) this] lo hi show ?case by (simp add: ms)
qed

lemma eq_is:
  fixes a b :: "'a interval_set"
  assumes "iset_ok a" "iset_ok b"
  shows "IntervalSet_eq a b \<longleftrightarrow> elems a = elems b"
proof
  assume "elems a = elems b"
  then have "lookup (im_map a) x = None \<longleftrightarrow> lookup (im_map b) x = None" for x
    unfolding elems_def set_eq_iff by blast
  then have "map fst (im_map a) = map fst (im_map b)"
    using assms by (intro separated_keys) (auto simp: iset_ok_def im_ok_def)
  with map_eq_imp_length_eq [OF this] show "IntervalSet_eq a b"
    by (simp add: IntervalSet_eq_def IntervalSet_ne_def IntervalSet_nIntervals_def nIntervals_def IntervalSet_intervals_def
      list_ex_iff zip_same_conv_map)
next
  assume eq: "IntervalSet_eq a b"
  then have len: "length (im_map a) = length (im_map b)"
    and "\<forall>i<length (im_map a). map fst (im_map a) ! i = map fst (im_map b) ! i"
    by (fastforce simp: IntervalSet_eq_def IntervalSet_ne_def IntervalSet_nIntervals_def nIntervals_def IntervalSet_intervals_def
      list_ex_iff set_zip split: if_splits)+
  then have "map fst (im_map a) = map fst (im_map b)" by (intro nth_equalityI) simp_all
  then have "fst ` set (im_map a) = fst ` set (im_map b)" by (metis set_map)
  then show "elems a = elems b" unfolding elems_nodes [OF assms(1)] elems_nodes [OF assms(2)]
    by (metis image_image)
qed

lemma contains_map_is:
  fixes s :: "'a interval_set" and ns :: "('a, 'v) node list"
  assumes "iset_ok s" "\<forall>n\<in>set ns. ivl_ok (fst n)"
  shows "im_contains_map (im_map s) ns = Some ((\<Union>n\<in>set ns. ivl_set (fst n)) \<subseteq> elems s)"
  using assms(2)
proof (induction ns)
  case (Cons n ns)
  have "im_contains (im_map s) (fst n) = Some (ivl_set (fst n) \<subseteq> elems s)"
    using contains_is [of "im_map s" "fst n"] assms(1) Cons.prems by (auto simp: elems_def iset_ok_def im_ok_def)
  with Cons show ?case by simp
qed simp

lemma contains_set_is:
  fixes a b :: "'a interval_set"
  assumes "iset_ok a" "iset_ok b"
  shows "IntervalSet_contains_set a b = Some (elems b \<subseteq> elems a)"
  using contains_map_is [OF assms(1) iset_nodes [OF assms(2)]] elems_nodes [OF assms(2)]
  by (simp add: IntervalSet_contains_set_def)

text \<open>What \<^verbatim>\<open>intersect\<close> with an interval leaves: its upper end goes with what is above it.\<close>

lemma clear_iset: "iset_ok (IntervalSet_clear s)" "elems (IntervalSet_clear s) = {}" for s :: "'a interval_set"
  by (simp_all add: IntervalSet_clear_def im_clear_def iset_ok_def im_ok_def separated_def elems_def)

lemma intersect_below:
  fixes s :: "'a interval_set"
  assumes "iset_ok s" "\<not> IntervalSet_isEmpty s" "IntervalSet_hull s = Some h"
  shows "succeeds (if ilo h < b then im_erase s (hull (ilo h) (b - 1)) else Some s)
    (\<lambda>s'. iset_ok s' \<and> elems s' = {x \<in> elems s. b \<le> x})"
proof -
  from hull_is [OF assms(1,2)] assms(3) have h: "elems s \<subseteq> {ilo h..ihi h}"
    by (metis hull_sel(1) hull_sel(2) max.absorb2 min.absorb1 option.inject)
  show ?thesis
  proof (cases "ilo h < b")
    case True
    have "ivl_set (hull (ilo h) (b - 1)) = {x. ilo h \<le> x \<and> x < b}"
      unfolding ivl_set_hull min.absorb1 [OF pred_range [OF True, THEN conjunct1]]
        max.absorb2 [OF pred_range [OF True, THEN conjunct1]] set_eq_iff atLeastAtMost_iff mem_Collect_eq le_pred [OF True] by blast
    moreover have "elems s - {x. ilo h \<le> x \<and> x < b} = {x \<in> elems s. b \<le> x}" using h by auto
    ultimately show ?thesis using erase_iset [OF assms(1), of "hull (ilo h) (b - 1)"] True by simp
  next
    case False
    with h have "{x \<in> elems s. b \<le> x} = elems s" by fastforce
    with False assms(1) show ?thesis by simp
  qed
qed

lemma intersect_above:
  fixes s :: "'a interval_set"
  assumes "iset_ok s" "IntervalSet_hull s = Some h"
  shows "succeeds (if \<not> isEmpty h \<and> ihi h > t then im_erase s (hull t (ihi h)) else Some s)
    (\<lambda>s'. iset_ok s' \<and> elems s' = {x \<in> elems s. x \<le> t} - (if \<exists>x\<in>elems s. t < x then {t} else {}))"
proof (cases "IntervalSet_isEmpty s")
  case True
  then show ?thesis using assms isEmpty_elems [OF assms(1)]
    by (auto simp: IntervalSet_hull_def im_hull_def IntervalSet_isEmpty_def)
next
  case False
  from hull_is [OF assms(1) False] assms(2) obtain lo hi where h: "h = hull lo hi" "lo \<le> hi" "hi \<in> elems s" "elems s \<subseteq> {lo..hi}"
    by (metis option.inject)
  then have ends: "\<not> isEmpty h" "ihi h = hi" by simp_all
  show ?thesis
  proof (cases "hi > t")
    case True
    with h have "elems s - {t..hi} = {x \<in> elems s. x \<le> t} - (if \<exists>x\<in>elems s. t < x then {t} else {})" by auto
    with erase_iset [OF assms(1), of "hull t hi"] True ends show ?thesis by (simp add: min.absorb1 max.absorb2)
  next
    case False
    then have le: "x \<le> t" if "x \<in> elems s" for x using h(4) that by (metis atLeastAtMost_iff leI order_trans subsetD)
    then have "{x \<in> elems s. x \<le> t} - (if \<exists>x\<in>elems s. t < x then {t} else {}) = elems s" by (auto simp: not_less [symmetric])
    with False ends assms(1) show ?thesis by simp
  qed
qed

lemma intersect_is:
  fixes s :: "'a interval_set"
  assumes "iset_ok s" "ivl_ok i"
  shows "succeeds (IntervalSet_intersect s i) (\<lambda>s'. iset_ok s' \<and>
    elems s' = elems s \<inter> ivl_set i - (if \<not> isEmpty i \<and> (\<exists>x\<in>elems s. ihi i < x) then {ihi i} else {}))"
proof (cases "IntervalSet_isEmpty s \<or> isEmpty i")
  case True
  then show ?thesis using assms isEmpty_elems [OF assms(1)] clear_iset [of s]
    by (auto simp: IntervalSet_intersect_def ivl_set_def)
next
  case False
  then have ne: "\<not> IntervalSet_isEmpty s" "\<not> isEmpty i" by simp_all
  have le: "ilo i \<le> ihi i" using assms(2) ne(2) by (simp add: ivl_ok_def)
  from hull_is [OF assms(1) ne(1)] obtain lo hi where "IntervalSet_hull s = Some (hull lo hi)" by metis
  then obtain h where h: "IntervalSet_hull s = Some h" "least h = Some (ilo h)" by (simp add: least_def)
  from intersect_below [OF assms(1) ne(1) h(1), of "ilo i"] obtain s1 where
    s1: "(if ilo h < ilo i then im_erase s (hull (ilo h) (ilo i - 1)) else Some s) = Some s1" "iset_ok s1"
      "elems s1 = {x \<in> elems s. ilo i \<le> x}" by (auto elim: succeedsE)
  obtain h1 where h1: "IntervalSet_hull s1 = Some h1"
    by (cases "im_isEmpty (im_map s1)") (simp_all add: IntervalSet_hull_def im_hull_def im_least_def im_greatest_def)
  have "{x \<in> elems s1. x \<le> ihi i} - (if \<exists>x\<in>elems s1. ihi i < x then {ihi i} else {}) =
      elems s \<inter> ivl_set i - (if \<not> isEmpty i \<and> (\<exists>x\<in>elems s. ihi i < x) then {ihi i} else {})"
  proof -
    have "(\<exists>x\<in>{x \<in> elems s. ilo i \<le> x}. ihi i < x) \<longleftrightarrow> (\<exists>x\<in>elems s. ihi i < x)" using le by (auto dest: le_less_trans)
    then show ?thesis unfolding s1(3) ivl_set_nonempty [OF ne(2)] using ne(2) by auto
  qed
  with intersect_above [OF s1(2) h1, of "ihi i"] h s1(1) h1 ne show ?thesis by (simp add: IntervalSet_intersect_def)
qed

end

section \<open>Correctness\<close>

text \<open>
  C11. For sets of 64-bit scalars the operators union, intersection, difference and complement return
  the set theoretic union, intersection, difference and complement, and keep the invariant that the
  stored intervals are ordered, disjoint and never touch, with the size field the number of members.
\<close>

theorem interval_set_algebra:
  fixes a b :: "64 word interval_set"
  assumes "iset_ok a" "iset_ok b"
  shows "succeeds (IntervalSet_union a b) (\<lambda>s. iset_ok s \<and> elems s = elems a \<union> elems b) \<and>
    succeeds (IntervalSet_intersection a b) (\<lambda>s. iset_ok s \<and> elems s = elems a \<inter> elems b) \<and>
    succeeds (IntervalSet_difference a b) (\<lambda>s. iset_ok s \<and> elems s = elems a - elems b) \<and>
    succeeds (IntervalSet_invert_whole a) (\<lambda>s. iset_ok s \<and> elems s = - elems a)"
proof (intro conjI)
  show "succeeds (IntervalSet_union a b) (\<lambda>s. iset_ok s \<and> elems s = elems a \<union> elems b)"
    using word_scalar.insertMultiple_iset [OF assms] word_scalar.insertMultiple_iset [OF assms(2,1)]
    by (simp add: IntervalSet_union_def Un_commute)
  show "succeeds (IntervalSet_intersection a b) (\<lambda>s. iset_ok s \<and> elems s = elems a \<inter> elems b)"
    using word_scalar.intersect_set_is [OF assms] word_scalar.intersect_set_is [OF assms(2,1)]
    by (simp add: IntervalSet_intersection_def Int_commute)
  show "succeeds (IntervalSet_difference a b) (\<lambda>s. iset_ok s \<and> elems s = elems a - elems b)"
    using word_scalar.eraseMultiple_iset [OF assms] by (simp add: IntervalSet_difference_def IntervalSet_eraseMultiple_def)
  have "ivl_ok (whole :: 64 word interval)" "ivl_set (whole :: 64 word interval) = UNIV"
    by (auto simp: ivl_ok_def ivl_set_def isEmpty_def)
  with word_scalar.invert_is [OF assms(1), of whole] show "succeeds (IntervalSet_invert_whole a) (\<lambda>s. iset_ok s \<and> elems s = - elems a)"
    by (simp add: IntervalSet_invert_whole_def Compl_eq_Diff_UNIV)
qed

definition sample_set :: "64 word interval_set" where
  "sample_set = \<lparr>im_map = [(hull 2 9, 0), (hull 20 29, 0)], im_size = 18\<rparr>"

lemma sample_set_ok: "iset_ok sample_set" "elems sample_set = {2..9} \<union> {20..29}"
  by (auto simp: iset_ok_def im_ok_def sample_set_def nodes_ok_def node_ok_def before_node_def separated_def
      interval_size_def elems_def split: if_splits)

theorem interval_set_algebra_witness:
  "succeeds (IntervalSet_invert_whole sample_set) (\<lambda>s. iset_ok s \<and> elems s = - ({2..9} \<union> {20..29}))"
  using interval_set_algebra [OF sample_set_ok(1) sample_set_ok(1)] unfolding sample_set_ok(2) by blast

text \<open>
  C34. The equality operator compares the stored intervals one by one and so decides whether two sets
  have the same members, and \<^verbatim>\<open>contains\<close> decides inclusion.
\<close>

theorem interval_set_equality:
  fixes a b :: "64 word interval_set"
  assumes "iset_ok a" "iset_ok b"
  shows "(IntervalSet_eq a b \<longleftrightarrow> elems a = elems b) \<and> IntervalSet_contains_set a b = Some (elems b \<subseteq> elems a)"
  using word_scalar.eq_is [OF assms] word_scalar.contains_set_is [OF assms] by blast

theorem interval_set_equality_witness:
  "IntervalSet_eq sample_set sample_set \<and> IntervalSet_contains_set sample_set sample_set = Some True"
  using interval_set_equality [OF sample_set_ok(1) sample_set_ok(1)] by simp

text \<open>
  C35. \<^verbatim>\<open>intersect\<close> with an interval keeps the members of the interval, except that its greatest
  value is lost whenever the set has a member above it: the second erasure begins at the greatest
  value of the interval and not after it.
\<close>

theorem intersect_interval:
  fixes s :: "64 word interval_set"
  assumes "iset_ok s" "ivl_ok i" "\<not> isEmpty i"
  shows "succeeds (IntervalSet_intersect s i) (\<lambda>s'. iset_ok s' \<and>
    elems s' = elems s \<inter> ivl_set i - (if \<exists>x\<in>elems s. ihi i < x then {ihi i} else {}))"
  using word_scalar.intersect_is [OF assms(1,2)] assms(3) by simp

theorem intersect_interval_witness:
  "succeeds (IntervalSet_intersect sample_set (hull 5 22)) (\<lambda>s. 21 \<in> elems s \<and> 22 \<notin> elems s) \<and> 22 \<in> elems sample_set"
proof -
  have "\<exists>x\<in>elems sample_set. ihi (hull 5 22) < x" unfolding sample_set_ok(2) by (rule bexI [of _ 29]) simp_all
  with intersect_interval [OF sample_set_ok(1), of "hull 5 22"]
  have "succeeds (IntervalSet_intersect sample_set (hull 5 22)) (\<lambda>s. iset_ok s \<and> elems s = elems sample_set \<inter> {5..22} - {22})"
    by (simp add: min_def max_def)
  then have "succeeds (IntervalSet_intersect sample_set (hull 5 22)) (\<lambda>s. 21 \<in> elems s \<and> 22 \<notin> elems s)"
    by (rule succeeds_mono) (simp add: sample_set_ok(2))
  then show ?thesis by (simp add: sample_set_ok(2))
qed

end
