(* ===== verification/Risc_Operators.thy ===== *)
theory Risc_Operators
  imports Bit_Vector "HOL-Library.Signed_Division"
begin

text \<open>
  The operators of \<^verbatim>\<open>BaseSemantics::RiscOperators\<close>
  (\<^verbatim>\<open>src/Rose/BinaryAnalysis/InstructionSemantics/BaseSemantics/RiscOperators.C\<close>), through which every
  instruction is expressed. The pure virtual operators are the fields of the record \<open>risc_ops\<close>, one
  per virtual function that works on values; the derived operators are definitions over it. \<open>None\<close>
  is a failed assertion or a thrown exception.

  The locale \<open>risc_laws\<close> states what the virtual operators promise, as arithmetic on the number and
  the width of a value, and proves from it what the derived operators compute. The concrete
  semantics provides the operators and interprets the locale.
\<close>

section \<open>The virtual operators\<close>

record 'v risc_ops =
  op_nBits :: "'v \<Rightarrow> nat"
  op_toUnsigned :: "'v \<Rightarrow> 64 word option"
  op_copy :: "'v \<Rightarrow> 'v option"
  op_undefined :: "nat \<Rightarrow> 'v option"
  op_number :: "nat \<Rightarrow> 64 word \<Rightarrow> 'v option"
  op_boolean :: "bool \<Rightarrow> 'v option"
  op_and :: "'v \<Rightarrow> 'v \<Rightarrow> 'v option"
  op_or :: "'v \<Rightarrow> 'v \<Rightarrow> 'v option"
  op_xor :: "'v \<Rightarrow> 'v \<Rightarrow> 'v option"
  op_invert :: "'v \<Rightarrow> 'v option"
  op_extract :: "'v \<Rightarrow> nat \<Rightarrow> nat \<Rightarrow> 'v option"
  op_concat :: "'v \<Rightarrow> 'v \<Rightarrow> 'v option"
  op_leastSignificantSetBit :: "'v \<Rightarrow> 'v option"
  op_mostSignificantSetBit :: "'v \<Rightarrow> 'v option"
  op_rotateLeft :: "'v \<Rightarrow> 'v \<Rightarrow> 'v option"
  op_rotateRight :: "'v \<Rightarrow> 'v \<Rightarrow> 'v option"
  op_shiftLeft :: "'v \<Rightarrow> 'v \<Rightarrow> 'v option"
  op_shiftRight :: "'v \<Rightarrow> 'v \<Rightarrow> 'v option"
  op_shiftRightArithmetic :: "'v \<Rightarrow> 'v \<Rightarrow> 'v option"
  op_equalToZero :: "'v \<Rightarrow> 'v option"
  op_ite :: "'v \<Rightarrow> 'v \<Rightarrow> 'v \<Rightarrow> 'v option"
  op_unsignedExtend :: "'v \<Rightarrow> nat \<Rightarrow> 'v option"
  op_signExtend :: "'v \<Rightarrow> nat \<Rightarrow> 'v option"
  op_add :: "'v \<Rightarrow> 'v \<Rightarrow> 'v option"
  op_addWithCarries :: "'v \<Rightarrow> 'v \<Rightarrow> 'v \<Rightarrow> ('v \<times> 'v) option"
  op_negate :: "'v \<Rightarrow> 'v option"
  op_signedDivide :: "'v \<Rightarrow> 'v \<Rightarrow> 'v option"
  op_signedModulo :: "'v \<Rightarrow> 'v \<Rightarrow> 'v option"
  op_signedMultiply :: "'v \<Rightarrow> 'v \<Rightarrow> 'v option"
  op_unsignedDivide :: "'v \<Rightarrow> 'v \<Rightarrow> 'v option"
  op_unsignedModulo :: "'v \<Rightarrow> 'v \<Rightarrow> 'v option"
  op_unsignedMultiply :: "'v \<Rightarrow> 'v \<Rightarrow> 'v option"

section \<open>The derived operators\<close>

definition ops_concatLoHi :: "'v risc_ops \<Rightarrow> 'v \<Rightarrow> 'v \<Rightarrow> 'v option" where
  "ops_concatLoHi ops lowBits highBits = op_concat ops lowBits highBits"

definition ops_concatHiLo :: "'v risc_ops \<Rightarrow> 'v \<Rightarrow> 'v \<Rightarrow> 'v option" where
  "ops_concatHiLo ops highBits lowBits = op_concat ops lowBits highBits"

definition ops_split :: "'v risc_ops \<Rightarrow> 'v \<Rightarrow> nat \<Rightarrow> ('v \<times> 'v) option" where
  "ops_split ops a splitPoint = do {
     lo \<leftarrow> op_extract ops a 0 splitPoint;
     hi \<leftarrow> op_extract ops a splitPoint (op_nBits ops a);
     Some (lo, hi)
   }"

text \<open>The sum or difference, the carry out of it, and the overflow flag.\<close>

definition ops_addCarry :: "'v risc_ops \<Rightarrow> 'v \<Rightarrow> 'v \<Rightarrow> ('v \<times> 'v \<times> 'v) option" where
  "ops_addCarry ops a b = do {
     require (op_nBits ops a = op_nBits ops b);
     let nBits = op_nBits ops a;
     false \<leftarrow> op_boolean ops False;
     (sum, carries) \<leftarrow> op_addWithCarries ops a b false;
     carryOut \<leftarrow> op_extract ops carries (nBits - 1) nBits;
     c \<leftarrow> op_extract ops carries (nBits - 2) (nBits - 1);
     overflowed \<leftarrow> op_xor ops carryOut c;
     Some (sum, carryOut, overflowed)
   }"

definition ops_subtract :: "'v risc_ops \<Rightarrow> 'v \<Rightarrow> 'v \<Rightarrow> 'v option" where
  "ops_subtract ops minuend subtrahend = do {
     n \<leftarrow> op_negate ops subtrahend;
     op_add ops minuend n
   }"

definition ops_subtractCarry :: "'v risc_ops \<Rightarrow> 'v \<Rightarrow> 'v \<Rightarrow> ('v \<times> 'v \<times> 'v) option" where
  "ops_subtractCarry ops minuend subtrahend = do {
     require (op_nBits ops minuend = op_nBits ops subtrahend);
     let nBits = op_nBits ops minuend;
     require (nBits > 1);
     negatedSubtrahend \<leftarrow> op_negate ops subtrahend;
     false \<leftarrow> op_boolean ops False;
     (difference, carries) \<leftarrow> op_addWithCarries ops minuend negatedSubtrahend false;
     carryOut \<leftarrow> op_extract ops carries (nBits - 1) nBits;
     c \<leftarrow> op_extract ops carries (nBits - 2) (nBits - 1);
     overflowed \<leftarrow> op_xor ops carryOut c;
     Some (difference, carryOut, overflowed)
   }"

definition ops_countLeadingZeros :: "'v risc_ops \<Rightarrow> 'v \<Rightarrow> 'v option" where
  "ops_countLeadingZeros ops a = do {
     idx \<leftarrow> op_mostSignificantSetBit ops a;
     width \<leftarrow> op_number ops (op_nBits ops a) (of_nat (op_nBits ops a));
     top \<leftarrow> op_number ops (op_nBits ops a) (of_nat (op_nBits ops a) - 1);
     diff \<leftarrow> ops_subtract ops top idx;
     z \<leftarrow> op_equalToZero ops a;
     op_ite ops z width diff
   }"

definition ops_countLeadingOnes :: "'v risc_ops \<Rightarrow> 'v \<Rightarrow> 'v option" where
  "ops_countLeadingOnes ops a = do {
     i \<leftarrow> op_invert ops a;
     ops_countLeadingZeros ops i
   }"

text \<open>The loop of \<^verbatim>\<open>reverseElmts\<close> for \<open>i\<close> up to \<open>nElmts\<close>; the accumulator is null before the first round.\<close>

fun reverse_loop :: "'v risc_ops \<Rightarrow> 'v \<Rightarrow> nat \<Rightarrow> nat list \<Rightarrow> 'v option \<Rightarrow> 'v option option" where
  "reverse_loop ops a elmtNBits [] result = Some result"
| "reverse_loop ops a elmtNBits (i # is) result = do {
     elmt \<leftarrow> op_extract ops a (i * elmtNBits) ((i + 1) * elmtNBits);
     r \<leftarrow> (case result of None \<Rightarrow> Some elmt | Some r \<Rightarrow> ops_concatHiLo ops r elmt);
     reverse_loop ops a elmtNBits is (Some r)
   }"

definition ops_reverseElmts :: "'v risc_ops \<Rightarrow> 'v \<Rightarrow> nat \<Rightarrow> 'v option" where
  "ops_reverseElmts ops a elmtNBits = do {
     require (elmtNBits > 0);
     require (elmtNBits \<le> op_nBits ops a);
     require (op_nBits ops a mod elmtNBits = 0);
     let nElmts = op_nBits ops a div elmtNBits;
     r \<leftarrow> reverse_loop ops a elmtNBits [0..<nElmts] None;
     result \<leftarrow> r;
     require (op_nBits ops result = op_nBits ops a);
     Some result
   }"

definition ops_isEqual :: "'v risc_ops \<Rightarrow> 'v \<Rightarrow> 'v \<Rightarrow> 'v option" where
  "ops_isEqual ops a b = do { x \<leftarrow> op_xor ops a b; op_equalToZero ops x }"

definition ops_isNotEqual :: "'v risc_ops \<Rightarrow> 'v \<Rightarrow> 'v \<Rightarrow> 'v option" where
  "ops_isNotEqual ops a b = do { x \<leftarrow> ops_isEqual ops a b; op_invert ops x }"

definition ops_isUnsignedLessThan :: "'v risc_ops \<Rightarrow> 'v \<Rightarrow> 'v \<Rightarrow> 'v option" where
  "ops_isUnsignedLessThan ops a b = do {
     wideA \<leftarrow> op_unsignedExtend ops a (op_nBits ops a + 1);
     wideB \<leftarrow> op_unsignedExtend ops b (op_nBits ops b + 1);
     diff \<leftarrow> ops_subtract ops wideA wideB;
     op_extract ops diff (op_nBits ops diff - 1) (op_nBits ops diff)
   }"

definition ops_isUnsignedLessThanOrEqual :: "'v risc_ops \<Rightarrow> 'v \<Rightarrow> 'v \<Rightarrow> 'v option" where
  "ops_isUnsignedLessThanOrEqual ops a b = do {
     lt \<leftarrow> ops_isUnsignedLessThan ops a b;
     eq \<leftarrow> ops_isEqual ops a b;
     op_or ops lt eq
   }"

definition ops_isUnsignedGreaterThan :: "'v risc_ops \<Rightarrow> 'v \<Rightarrow> 'v \<Rightarrow> 'v option" where
  "ops_isUnsignedGreaterThan ops a b = do { x \<leftarrow> ops_isUnsignedLessThanOrEqual ops a b; op_invert ops x }"

definition ops_isUnsignedGreaterThanOrEqual :: "'v risc_ops \<Rightarrow> 'v \<Rightarrow> 'v \<Rightarrow> 'v option" where
  "ops_isUnsignedGreaterThanOrEqual ops a b = do { x \<leftarrow> ops_isUnsignedLessThan ops a b; op_invert ops x }"

definition ops_isSignedLessThan :: "'v risc_ops \<Rightarrow> 'v \<Rightarrow> 'v \<Rightarrow> 'v option" where
  "ops_isSignedLessThan ops a b = do {
     require (op_nBits ops a = op_nBits ops b);
     let nBits = op_nBits ops a;
     wideA \<leftarrow> op_signExtend ops a (nBits + 1);
     wideB \<leftarrow> op_signExtend ops b (nBits + 1);
     difference \<leftarrow> ops_subtract ops wideA wideB;
     op_extract ops difference nBits (nBits + 1)
   }"

definition ops_isSignedLessThanOrEqual :: "'v risc_ops \<Rightarrow> 'v \<Rightarrow> 'v \<Rightarrow> 'v option" where
  "ops_isSignedLessThanOrEqual ops a b = do {
     lt \<leftarrow> ops_isSignedLessThan ops a b;
     eq \<leftarrow> ops_isEqual ops a b;
     op_or ops lt eq
   }"

definition ops_isSignedGreaterThan :: "'v risc_ops \<Rightarrow> 'v \<Rightarrow> 'v \<Rightarrow> 'v option" where
  "ops_isSignedGreaterThan ops a b = do { x \<leftarrow> ops_isSignedLessThanOrEqual ops a b; op_invert ops x }"

definition ops_isSignedGreaterThanOrEqual :: "'v risc_ops \<Rightarrow> 'v \<Rightarrow> 'v \<Rightarrow> 'v option" where
  "ops_isSignedGreaterThanOrEqual ops a b = do { x \<leftarrow> ops_isSignedLessThan ops a b; op_invert ops x }"

subsection \<open>Floating-point classification\<close>

text \<open>The layout of a floating-point type, \<^verbatim>\<open>SgAsmFloatType\<close>.\<close>

record float_type =
  significandBits :: bitrange
  exponentBits :: bitrange
  signBit :: nat
  exponentBias :: "64 word"
  gradualUnderflow :: bool

definition float_field :: "'v risc_ops \<Rightarrow> 'v \<Rightarrow> bitrange \<Rightarrow> 'v option" where
  "float_field ops a bits = do {
     lo \<leftarrow> least bits;
     hi \<leftarrow> greatest bits;
     op_extract ops a lo (hi + 1)
   }"

definition ops_fpIsNan :: "'v risc_ops \<Rightarrow> 'v \<Rightarrow> float_type \<Rightarrow> 'v option" where
  "ops_fpIsNan ops a aType = do {
     exponent \<leftarrow> float_field ops a (exponentBits aType);
     significand \<leftarrow> float_field ops a (significandBits aType);
     i \<leftarrow> op_invert ops exponent;
     e \<leftarrow> op_equalToZero ops i;
     z \<leftarrow> op_equalToZero ops significand;
     nz \<leftarrow> op_invert ops z;
     op_and ops e nz
   }"

definition ops_fpIsDenormalized :: "'v risc_ops \<Rightarrow> 'v \<Rightarrow> float_type \<Rightarrow> 'v option" where
  "ops_fpIsDenormalized ops a aType =
     (if \<not> gradualUnderflow aType then op_boolean ops False
      else do {
        exponent \<leftarrow> float_field ops a (exponentBits aType);
        significand \<leftarrow> float_field ops a (significandBits aType);
        e \<leftarrow> op_equalToZero ops exponent;
        z \<leftarrow> op_equalToZero ops significand;
        nz \<leftarrow> op_invert ops z;
        op_and ops e nz
      })"

definition ops_fpIsZero :: "'v risc_ops \<Rightarrow> 'v \<Rightarrow> float_type \<Rightarrow> 'v option" where
  "ops_fpIsZero ops a aType = do {
     exponent \<leftarrow> float_field ops a (exponentBits aType);
     significand \<leftarrow> float_field ops a (significandBits aType);
     e \<leftarrow> op_equalToZero ops exponent;
     z \<leftarrow> op_equalToZero ops significand;
     op_and ops e z
   }"

definition ops_fpIsInfinity :: "'v risc_ops \<Rightarrow> 'v \<Rightarrow> float_type \<Rightarrow> 'v option" where
  "ops_fpIsInfinity ops a aType = do {
     exponent \<leftarrow> float_field ops a (exponentBits aType);
     significand \<leftarrow> float_field ops a (significandBits aType);
     i \<leftarrow> op_invert ops exponent;
     e \<leftarrow> op_equalToZero ops i;
     z \<leftarrow> op_equalToZero ops significand;
     op_and ops e z
   }"

definition ops_fpSign :: "'v risc_ops \<Rightarrow> 'v \<Rightarrow> float_type \<Rightarrow> 'v option" where
  "ops_fpSign ops a aType = op_extract ops a (signBit aType) (signBit aType + 1)"

definition ops_fpEffectiveExponent :: "'v risc_ops \<Rightarrow> 'v \<Rightarrow> float_type \<Rightarrow> 'v option" where
  "ops_fpEffectiveExponent ops a aType = do {
     let expWidth = interval_size (exponentBits aType) + 1;
     storedExponent \<leftarrow> float_field ops a (exponentBits aType);
     significand \<leftarrow> float_field ops a (significandBits aType);
     ez \<leftarrow> op_equalToZero ops storedExponent;
     sz \<leftarrow> op_equalToZero ops significand;
     zero \<leftarrow> op_number ops expWidth 0;
     base \<leftarrow> op_number ops expWidth (1 - exponentBias aType - of_nat (interval_size (significandBits aType)));
     msb \<leftarrow> op_mostSignificantSetBit ops significand;
     wideMsb \<leftarrow> op_unsignedExtend ops msb expWidth;
     denorm \<leftarrow> op_add ops base wideMsb;
     small \<leftarrow> op_ite ops sz zero denorm;
     wideExp \<leftarrow> op_unsignedExtend ops storedExponent expWidth;
     bias \<leftarrow> op_number ops expWidth (exponentBias aType);
     norm \<leftarrow> ops_subtract ops wideExp bias;
     op_ite ops ez small norm
   }"

subsection \<open>Conversions between types\<close>

text \<open>
  A type of the AST, \<^verbatim>\<open>SgAsmType\<close>: the code compares types by address, which is the field \<open>type_id\<close>.
\<close>

datatype type_shape = IntegerType bool | FloatType float_type | VectorType | OtherType

record asm_type =
  type_id :: nat
  type_nBits :: nat
  type_shape :: type_shape

definition ops_reinterpret :: "'v risc_ops \<Rightarrow> 'v \<Rightarrow> asm_type \<Rightarrow> 'v option" where
  "ops_reinterpret ops a type = (if op_nBits ops a \<noteq> type_nBits type then None else op_copy ops a)"

definition ops_fpConvert :: "'v risc_ops \<Rightarrow> 'v \<Rightarrow> asm_type \<Rightarrow> asm_type \<Rightarrow> 'v option" where
  "ops_fpConvert ops a aType retType = (if type_id aType = type_id retType then op_copy ops a else None)"

definition ops_convert :: "'v risc_ops \<Rightarrow> 'v \<Rightarrow> asm_type \<Rightarrow> asm_type \<Rightarrow> 'v option" where
  "ops_convert ops a srcType dstType = do {
     srcVal \<leftarrow> ops_reinterpret ops a srcType;
     if type_id srcType = type_id dstType then Some srcVal
     else case (type_shape srcType, type_shape dstType) of
       (IntegerType srcSigned, IntegerType dstSigned) \<Rightarrow>
         if \<not> srcSigned \<and> \<not> dstSigned then do {
           v \<leftarrow> op_unsignedExtend ops srcVal (type_nBits dstType);
           ops_reinterpret ops v dstType
         } else if \<not> srcSigned then
           if type_nBits dstType > type_nBits srcType then do {
             v \<leftarrow> op_unsignedExtend ops srcVal (type_nBits dstType);
             ops_reinterpret ops v dstType
           } else do {
             require (type_nBits dstType < type_nBits srcType);
             v \<leftarrow> op_unsignedExtend ops srcVal (type_nBits dstType);
             ops_reinterpret ops v dstType
           }
         else if \<not> dstSigned then do {
           v \<leftarrow> op_unsignedExtend ops srcVal (type_nBits dstType);
           ops_reinterpret ops v dstType
         } else if type_nBits dstType \<ge> type_nBits srcType then do {
           v \<leftarrow> op_signExtend ops srcVal (type_nBits dstType);
           ops_reinterpret ops v dstType
         } else do {
           v \<leftarrow> op_unsignedExtend ops srcVal (type_nBits dstType);
           ops_reinterpret ops v dstType
         }
     | (FloatType f, FloatType g) \<Rightarrow> ops_fpConvert ops srcVal srcType dstType
     | _ \<Rightarrow> None
   }"

section \<open>Arithmetic of carries and signs\<close>

lemma power_half: "0 < n \<Longrightarrow> (2 :: nat) ^ n = 2 * 2 ^ (n - 1)"
  by (cases n) simp_all

lemma power_half_int: "0 < n \<Longrightarrow> (2 :: int) ^ n = 2 * 2 ^ (n - 1)"
  by (cases n) simp_all

lemma bit_top:
  fixes x :: nat
  assumes "x < 2 ^ n" "0 < n"
  shows "bit x (n - 1) \<longleftrightarrow> 2 ^ (n - 1) \<le> x"
proof (cases "2 ^ (n - 1) \<le> x")
  case True
  then have "x div 2 ^ (n - 1) = 1"
    using assms(1) power_half [OF assms(2)] by (intro div_nat_eqI) simp_all
  with True show ?thesis by (simp add: bit_iff_odd)
qed (simp add: bit_iff_odd)

lemma of_nat_power_le_iff: "(2 :: int) ^ k \<le> int x \<longleftrightarrow> 2 ^ k \<le> x"
  by (metis of_nat_le_iff of_nat_numeral of_nat_power)

lemma of_nat_less_power_iff: "int x < (2 :: int) ^ k \<longleftrightarrow> x < 2 ^ k"
  by (metis of_nat_less_iff of_nat_numeral of_nat_power)

lemma signed_of_range:
  assumes "x < 2 ^ n" "0 < n"
  shows "- (2 ^ (n - 1)) \<le> signed_of n x" "signed_of n x < 2 ^ (n - 1)"
proof -
  have p: "(2 :: int) ^ n = 2 * 2 ^ (n - 1)" by (rule power_half_int [OF assms(2)])
  have x: "int x < 2 ^ n" using assms(1) by (simp add: of_nat_less_power_iff)
  have "signed_of n x = (if (2 :: int) ^ (n - 1) \<le> int x then int x - 2 ^ n else int x)"
    using bit_top [OF assms] assms(2) by (simp add: signed_of_def of_nat_power_le_iff)
  with p x show "- (2 ^ (n - 1)) \<le> signed_of n x" "signed_of n x < 2 ^ (n - 1)" by (auto split: if_splits)
qed

lemma signed_of_mod: "signed_of n x mod 2 ^ n = int x mod 2 ^ n"
  by (simp add: signed_of_def)

lemma signed_of_neg_iff:
  assumes "x < 2 ^ n" "0 < n"
  shows "signed_of n x < 0 \<longleftrightarrow> 2 ^ (n - 1) \<le> x"
  using assms bit_top [OF assms] by (simp add: signed_of_def of_nat_less_power_iff)

text \<open>A number of \<open>n\<close> bits read back from its residue.\<close>

lemma signed_of_residue:
  assumes "- (2 ^ (n - 1)) \<le> k" "k < 2 ^ (n - 1)" "0 < n"
  shows "signed_of n (nat (k mod 2 ^ n)) = k"
proof -
  have h: "(2 :: int) ^ n = 2 * 2 ^ (n - 1)" using power_half_int [OF assms(3)] .
  have "nat (k mod 2 ^ n) < 2 ^ n" by (simp add: nat_less_iff)
  note top = bit_top [OF this assms(3)]
  show ?thesis
  proof (cases "0 \<le> k")
    case True
    then have "k mod 2 ^ n = k" using assms(2) h by simp
    then show ?thesis using top True assms(2) by (auto simp: signed_of_def le_nat_iff)
  next
    case False
    then have "k mod 2 ^ n = k + 2 ^ n" using assms(1) h by (intro mod_pos_pos_trivial [of "k + 2 ^ n" "2 ^ n", simplified]) auto
    then show ?thesis using top False assms h by (auto simp: signed_of_def le_nat_iff)
  qed
qed

text \<open>The carries of an addition: the top one and its exclusive or with the next say whether the
  unsigned and the signed sum fit.\<close>

definition carries_of :: "nat \<Rightarrow> nat \<Rightarrow> nat \<Rightarrow> nat" where
  "carries_of x y z = (x XOR y XOR (x + y + z)) div 2"

lemma bit_carries: "bit (carries_of x y z) i = (bit x (Suc i) \<noteq> (bit y (Suc i) \<noteq> bit (x + y + z) (Suc i)))"
  by (simp add: carries_of_def bit_simps flip: bit_Suc)

lemma carry_out:
  assumes "x < 2 ^ n" "y < 2 ^ n" "0 < n"
  shows "bit (carries_of x y 0) (n - 1) \<longleftrightarrow> 2 ^ n \<le> x + y"
proof -
  have "\<not> bit x n" "\<not> bit y n" using assms by (simp_all add: bit_iff_odd)
  moreover have "bit (x + y) n \<longleftrightarrow> 2 ^ n \<le> x + y"
    using bit_top [of "x + y" "Suc n"] assms by simp
  ultimately show ?thesis using assms(3) by (simp add: bit_carries)
qed

definition fits_signed :: "nat \<Rightarrow> int \<Rightarrow> bool" where
  "fits_signed n k \<longleftrightarrow> - (2 ^ (n - 1)) \<le> k \<and> k < 2 ^ (n - 1)"

lemma overflow_carries:
  assumes x: "x < 2 ^ n" and y: "y < 2 ^ n" and n: "1 < n"
  shows "(bit (carries_of x y 0) (n - 1) \<noteq> bit (carries_of x y 0) (n - 2)) \<longleftrightarrow>
    \<not> fits_signed n (signed_of n x + signed_of n y)"
proof -
  define h :: nat where "h = 2 ^ (n - 1)"
  define q where "q = (x + y) div h"
  have h: "0 < h" "2 ^ n = 2 * h" using power_half [of n] n by (simp_all add: h_def)
  have hi: "(2 :: int) ^ (n - 1) = int h" "(2 :: int) ^ n = 2 * int h"
    using power_half_int [of n] n by (simp_all add: h_def)
  have q: "h * q \<le> x + y" "x + y < h * (q + 1)"
    using h(1) by (simp_all add: q_def) (metis dividend_less_times_div add.commute)
  have n1: "0 < n" using n by simp
  have sx: "signed_of n x = (if h \<le> x then int x - 2 * int h else int x)"
    "signed_of n y = (if h \<le> y then int y - 2 * int h else int y)"
    using bit_top [OF x n1] bit_top [OF y n1] n1 hi by (simp_all add: signed_of_def h_def)
  have "Suc (n - 2) = n - 1" using n by simp
  then have c: "bit (carries_of x y 0) (n - 2) = ((h \<le> x) \<noteq> ((h \<le> y) \<noteq> odd q))"
    using bit_top [OF x n1] bit_top [OF y n1] bit_iff_odd [of "x + y" "n - 1"]
    by (simp add: bit_carries h_def q_def)
  have d: "bit (carries_of x y 0) (n - 1) = (2 * h \<le> x + y)"
    using carry_out [OF x y n1] h(2) by simp
  have "q < 4" unfolding q_def using x y h by (intro less_mult_imp_div_less) simp
  then consider "q = 0" | "q = 1" | "q = 2" | "q = 3" by linarith
  then show ?thesis
    unfolding c d fits_signed_def sx hi by cases (use q x y h(2) in auto)
qed

lemma xor_eq_0_iff_nat: "x XOR y = 0 \<longleftrightarrow> x = y" for x y :: nat
proof
  assume z: "x XOR y = 0"
  show "x = y"
  proof (rule bit_eqI)
    fix i
    have "\<not> bit (x XOR y) i" by (simp only: z) simp
    then show "bit x i = bit y i" by (simp add: bit_simps)
  qed
qed simp

lemma int_diff_mod:
  assumes "y \<le> 2 ^ m"
  shows "int ((x + (2 ^ m - y)) mod 2 ^ m) = (int x - int y) mod 2 ^ m"
proof -
  have "int ((x + (2 ^ m - y)) mod 2 ^ m) = (int x - int y + 2 ^ m) mod 2 ^ m"
    using assms by (simp add: of_nat_mod of_nat_diff algebra_simps)
  then show ?thesis by simp
qed

lemma diff_sign:
  assumes "y \<le> 2 ^ Suc n" "- (2 ^ n) \<le> int x - int y" "int x - int y < 2 ^ n"
  shows "bit ((x + (2 ^ Suc n - y)) mod 2 ^ Suc n) n \<longleftrightarrow> x < y"
proof -
  define d where "d = (x + (2 ^ Suc n - y)) mod 2 ^ Suc n"
  have d: "d < 2 ^ Suc n" by (simp add: d_def)
  have "d = nat ((int x - int y) mod 2 ^ Suc n)"
    using int_diff_mod [OF assms(1), of x] unfolding d_def by (metis nat_int)
  then have "signed_of (Suc n) d = int x - int y" using signed_of_residue [of "Suc n"] assms(2,3) by simp
  moreover have "bit d n \<longleftrightarrow> signed_of (Suc n) d < 0"
    using bit_top [OF d] signed_of_neg_iff [OF d] by simp
  ultimately show ?thesis by (simp add: d_def)
qed

text \<open>The number of clear bits above the highest set bit.\<close>

definition leading_zeros :: "nat \<Rightarrow> nat \<Rightarrow> nat" where
  "leading_zeros n x = length (takeWhile (\<lambda>i. \<not> bit x i) (rev [0..<n]))"

lemma leading_zeros_find:
  "leading_zeros n x = (case find (bit x) (rev [0..<n]) of None \<Rightarrow> n | Some i \<Rightarrow> n - 1 - i)"
proof (induction n)
  case (Suc n)
  have "find (bit x) (rev [0..<n]) = Some i \<Longrightarrow> i < n" for i by (auto simp: find_Some_iff rev_nth)
  with Suc show ?case by (auto simp: leading_zeros_def split: option.splits)
qed (simp add: leading_zeros_def)

lemma top_bit_None:
  fixes x :: nat
  assumes "x < 2 ^ n"
  shows "x = 0 \<longleftrightarrow> find (bit x) (rev [0..<n]) = None"
proof
  assume "find (bit x) (rev [0..<n]) = None"
  then have "take_bit n x = 0" by (intro bit_eqI) (auto simp: find_None_iff bit_simps)
  then show "x = 0" using assms by (simp add: take_bit_nat_eq_self)
qed (simp add: find_None_iff)

lemma top_bit_eq:
  fixes x :: nat
  assumes "x < 2 ^ n" "x \<noteq> 0"
  shows "(case find (bit x) (rev [0..<n]) of None \<Rightarrow> 0 | Some i \<Rightarrow> i) = n - 1 - leading_zeros n x"
proof -
  obtain j where j: "find (bit x) (rev [0..<n]) = Some j" using top_bit_None [OF assms(1)] assms(2) by auto
  then have "j < n" by (auto simp: find_Some_iff rev_nth)
  with j show ?thesis by (simp add: leading_zeros_find)
qed

lemma leading_zeros_le: "leading_zeros n x \<le> n"
  by (simp add: leading_zeros_def) (metis diff_zero length_rev length_takeWhile_le length_upt)

text \<open>The number with its first \<open>k\<close> elements of \<open>e\<close> bits in reverse order.\<close>

primrec reversed :: "nat \<Rightarrow> nat \<Rightarrow> nat \<Rightarrow> nat" where
  "reversed e x 0 = 0"
| "reversed e x (Suc k) = x div 2 ^ (k * e) mod 2 ^ e + 2 ^ e * reversed e x k"

lemma reversed_less: "reversed e x k < 2 ^ (k * e)"
proof (induction k)
  case (Suc k)
  have "x div 2 ^ (k * e) mod 2 ^ e < 2 ^ e" by simp
  moreover have "reversed e x k + 1 \<le> 2 ^ (k * e)" using Suc by simp
  then have "2 ^ e * (reversed e x k + 1) \<le> 2 ^ e * 2 ^ (k * e)" by (rule mult_le_mono2)
  ultimately have "x div 2 ^ (k * e) mod 2 ^ e + 2 ^ e * reversed e x k < 2 ^ e * 2 ^ (k * e)"
    unfolding add_mult_distrib2 by linarith
  then show ?case by (simp add: power_add)
qed simp

lemma reversed_elements:
  assumes "j < k"
  shows "reversed e x k div 2 ^ (j * e) mod 2 ^ e = x div 2 ^ ((k - 1 - j) * e) mod 2 ^ e"
  using assms
proof (induction k arbitrary: j)
  case (Suc k)
  show ?case
  proof (cases j)
    case (Suc i)
    have "reversed e x (Suc k) div 2 ^ (j * e) = reversed e x (Suc k) div 2 ^ e div 2 ^ (i * e)"
      by (simp add: Suc power_add div_mult2_eq)
    also have "reversed e x (Suc k) div 2 ^ e = reversed e x k" by simp
    finally show ?thesis using Suc.IH [of i] Suc.prems Suc by simp
  qed simp
qed simp

lemma signed_of_eq: "x < 2 ^ n \<Longrightarrow> 0 < n \<Longrightarrow> signed_of n x = (if 2 ^ (n - 1) \<le> x then int x - 2 ^ n else int x)"
  using bit_top [of x n] by (simp add: signed_of_def)

lemma signed_of_negated:
  assumes "y < 2 ^ n" "0 < n"
  shows "signed_of n ((2 ^ n - y) mod 2 ^ n) = (if y = 2 ^ (n - 1) then signed_of n y else - signed_of n y)"
proof -
  define h :: nat where "h = 2 ^ (n - 1)"
  have h: "2 ^ n = 2 * h" "(2 :: int) ^ n = 2 * int h" "0 < h"
    using power_half [OF assms(2)] power_half_int [OF assms(2)] by (simp_all add: h_def)
  have z: "(2 ^ n - y) mod 2 ^ n = (if y = 0 then 0 else 2 * h - y)" using assms(1) h by auto
  have se: "signed_of n v = (if h \<le> v then int v - 2 * int h else int v)" if "v < 2 * h" for v
    using signed_of_eq [of v n] that assms(2) h(1,2) by (simp add: h_def)
  have y: "y < 2 * h" using assms(1) h(1) by simp
  have "(if y = 0 then 0 else 2 * h - y) < 2 * h" using y by simp
  from se [OF y] se [OF this] y h(3) show ?thesis
    unfolding z h_def [symmetric] by (auto simp: of_nat_diff split: if_splits)
qed

text \<open>
  What \<^verbatim>\<open>subtractCarry\<close> returns as the overflow flag: the flag of adding the negated subtrahend. The
  least signed number is its own negation, and there the flag is the opposite of what the
  difference would need.
\<close>

definition subtract_overflow :: "nat \<Rightarrow> nat \<Rightarrow> nat \<Rightarrow> bool" where
  "subtract_overflow n x y = (if y = 2 ^ (n - 1) then fits_signed n (signed_of n x - signed_of n y)
     else \<not> fits_signed n (signed_of n x - signed_of n y))"

lemma subtract_overflow_flag:
  assumes "x < 2 ^ n" "y < 2 ^ n" "0 < n"
  shows "\<not> fits_signed n (signed_of n x + signed_of n ((2 ^ n - y) mod 2 ^ n)) \<longleftrightarrow> subtract_overflow n x y"
proof (cases "y = 2 ^ (n - 1)")
  case True
  have p: "(2 :: int) ^ n = 2 * 2 ^ (n - 1)" by (rule power_half_int [OF assms(3)])
  have "signed_of n y = - (2 ^ (n - 1))" using True assms(2,3) p by (simp add: signed_of_eq)
  with True signed_of_range [OF assms(1,3)] show ?thesis
    unfolding signed_of_negated [OF assms(2,3)] subtract_overflow_def fits_signed_def by auto
next
  case False
  then show ?thesis unfolding signed_of_negated [OF assms(2,3)] subtract_overflow_def by simp
qed

section \<open>Laws of the operators\<close>

text \<open>
  \<open>sv_is v n x\<close>: the value \<open>v\<close> has \<open>n\<close> bits and stands for the unsigned number \<open>x\<close>. The laws give
  the number of every virtual operator's result; a law holds where the operator's precondition
  (equal widths, a shift count of at most 64 bits, a divisor that is not zero) does.
\<close>

locale risc_laws =
  fixes ops :: "'v risc_ops" and sv_is :: "'v \<Rightarrow> nat \<Rightarrow> nat \<Rightarrow> bool"
  assumes is_less: "sv_is v n x \<Longrightarrow> x < 2 ^ n"
    and is_width: "sv_is v n x \<Longrightarrow> op_nBits ops v = n"
    and toUnsigned: "sv_is v n x \<Longrightarrow> n \<le> 64 \<Longrightarrow> op_toUnsigned ops v = Some (of_nat x)"
    and copy_law: "sv_is v n x \<Longrightarrow> succeeds (op_copy ops v) (\<lambda>r. sv_is r n x)"
    and undefined_law: "\<exists>x. succeeds (op_undefined ops n) (\<lambda>r. sv_is r n x)"
    and number: "succeeds (op_number ops n w) (\<lambda>r. sv_is r n (unat w mod 2 ^ n))"
    and boolean: "succeeds (op_boolean ops t) (\<lambda>r. sv_is r 1 (of_bool t))"
    and and_law: "sv_is a n x \<Longrightarrow> sv_is b n y \<Longrightarrow> succeeds (op_and ops a b) (\<lambda>r. sv_is r n (x AND y))"
    and or_law: "sv_is a n x \<Longrightarrow> sv_is b n y \<Longrightarrow> succeeds (op_or ops a b) (\<lambda>r. sv_is r n (x OR y))"
    and xor_law: "sv_is a n x \<Longrightarrow> sv_is b n y \<Longrightarrow> succeeds (op_xor ops a b) (\<lambda>r. sv_is r n (x XOR y))"
    and invert_law: "sv_is a n x \<Longrightarrow> succeeds (op_invert ops a) (\<lambda>r. sv_is r n (2 ^ n - 1 - x))"
    and extract_law: "sv_is a n x \<Longrightarrow> i < j \<Longrightarrow> j \<le> n \<Longrightarrow>
      succeeds (op_extract ops a i j) (\<lambda>r. sv_is r (j - i) (x div 2 ^ i mod 2 ^ (j - i)))"
    and concat_law: "sv_is a n x \<Longrightarrow> sv_is b m y \<Longrightarrow> 0 < m \<Longrightarrow>
      succeeds (op_concat ops a b) (\<lambda>r. sv_is r (n + m) (x + 2 ^ n * y))"
    and lssb: "sv_is a n x \<Longrightarrow> n < 2 ^ 64 \<Longrightarrow> succeeds (op_leastSignificantSetBit ops a)
      (\<lambda>r. sv_is r n (case find (bit x) [0..<n] of None \<Rightarrow> 0 | Some i \<Rightarrow> i))"
    and mssb: "sv_is a n x \<Longrightarrow> n < 2 ^ 64 \<Longrightarrow> succeeds (op_mostSignificantSetBit ops a)
      (\<lambda>r. sv_is r n (case find (bit x) (rev [0..<n]) of None \<Rightarrow> 0 | Some i \<Rightarrow> i))"
    and rotateLeft_law: "sv_is a n x \<Longrightarrow> sv_is s m k \<Longrightarrow> m \<le> 64 \<Longrightarrow> succeeds (op_rotateLeft ops a s)
      (\<lambda>r. sv_is r n (bval (\<lambda>i. bit x ((i + (n - k mod n)) mod n)) n))"
    and rotateRight_law: "sv_is a n x \<Longrightarrow> sv_is s m k \<Longrightarrow> m \<le> 64 \<Longrightarrow> succeeds (op_rotateRight ops a s)
      (\<lambda>r. sv_is r n (bval (\<lambda>i. bit x ((i + k) mod n)) n))"
    and shiftLeft_law: "sv_is a n x \<Longrightarrow> sv_is s m k \<Longrightarrow> m \<le> 64 \<Longrightarrow>
      succeeds (op_shiftLeft ops a s) (\<lambda>r. sv_is r n (x * 2 ^ k mod 2 ^ n))"
    and shiftRight_law: "sv_is a n x \<Longrightarrow> sv_is s m k \<Longrightarrow> m \<le> 64 \<Longrightarrow>
      succeeds (op_shiftRight ops a s) (\<lambda>r. sv_is r n (x div 2 ^ k))"
    and shiftRightArithmetic_law: "sv_is a n x \<Longrightarrow> sv_is s m k \<Longrightarrow> m \<le> 64 \<Longrightarrow>
      succeeds (op_shiftRightArithmetic ops a s) (\<lambda>r. sv_is r n (nat ((signed_of n x div 2 ^ k) mod 2 ^ n)))"
    and equalToZero: "sv_is a n x \<Longrightarrow> succeeds (op_equalToZero ops a) (\<lambda>r. sv_is r 1 (of_bool (x = 0)))"
    and ite: "sv_is c 1 z \<Longrightarrow> sv_is a n x \<Longrightarrow> sv_is b m y \<Longrightarrow>
      succeeds (op_ite ops c a b) (\<lambda>r. sv_is r (if z = 1 then n else m) (if z = 1 then x else y))"
    and unsignedExtend: "sv_is a n x \<Longrightarrow> succeeds (op_unsignedExtend ops a m) (\<lambda>r. sv_is r m (x mod 2 ^ m))"
    and signExtend_law: "sv_is a n x \<Longrightarrow>
      succeeds (op_signExtend ops a m) (\<lambda>r. sv_is r m (nat (signed_of n x mod 2 ^ m)))"
    and add_law: "sv_is a n x \<Longrightarrow> sv_is b n y \<Longrightarrow>
      succeeds (op_add ops a b) (\<lambda>r. sv_is r n ((x + y) mod 2 ^ n))"
    and addWithCarries: "sv_is a n x \<Longrightarrow> sv_is b n y \<Longrightarrow> sv_is c 1 z \<Longrightarrow>
      succeeds (op_addWithCarries ops a b c)
        (\<lambda>(sum, cs). sv_is sum n ((x + y + z) mod 2 ^ n) \<and> sv_is cs n (carries_of x y z mod 2 ^ n))"
    and negate_law: "sv_is a n x \<Longrightarrow> succeeds (op_negate ops a) (\<lambda>r. sv_is r n ((2 ^ n - x) mod 2 ^ n))"
    and signedDivide: "sv_is a n x \<Longrightarrow> sv_is b m y \<Longrightarrow> 0 < n \<Longrightarrow> n < 64 \<Longrightarrow> 0 < m \<Longrightarrow> m \<le> 64 \<Longrightarrow> y \<noteq> 0 \<Longrightarrow>
      succeeds (op_signedDivide ops a b) (\<lambda>r. sv_is r n (nat ((signed_of n x sdiv signed_of m y) mod 2 ^ n)))"
    and signedModulo: "sv_is a n x \<Longrightarrow> sv_is b m y \<Longrightarrow> 0 < n \<Longrightarrow> n < 64 \<Longrightarrow> 0 < m \<Longrightarrow> m \<le> 64 \<Longrightarrow> y \<noteq> 0 \<Longrightarrow>
      succeeds (op_signedModulo ops a b) (\<lambda>r. sv_is r m (nat ((signed_of n x smod signed_of m y) mod 2 ^ m)))"
    and signedMultiply: "sv_is a n x \<Longrightarrow> sv_is b m y \<Longrightarrow> 0 < n \<Longrightarrow> 0 < m \<Longrightarrow> n + m \<le> 64 \<Longrightarrow>
      succeeds (op_signedMultiply ops a b) (\<lambda>r. sv_is r (n + m) (nat ((signed_of n x * signed_of m y) mod 2 ^ (n + m))))"
    and unsignedDivide: "sv_is a n x \<Longrightarrow> sv_is b m y \<Longrightarrow> n \<le> 64 \<Longrightarrow> m \<le> 64 \<Longrightarrow> y \<noteq> 0 \<Longrightarrow>
      succeeds (op_unsignedDivide ops a b) (\<lambda>r. sv_is r n (x div y))"
    and unsignedModulo: "sv_is a n x \<Longrightarrow> sv_is b m y \<Longrightarrow> n \<le> 64 \<Longrightarrow> m \<le> 64 \<Longrightarrow> y \<noteq> 0 \<Longrightarrow>
      succeeds (op_unsignedModulo ops a b) (\<lambda>r. sv_is r m (x mod y))"
    and unsignedMultiply: "sv_is a n x \<Longrightarrow> sv_is b m y \<Longrightarrow> n + m \<le> 64 \<Longrightarrow>
      succeeds (op_unsignedMultiply ops a b) (\<lambda>r. sv_is r (n + m) (x * y))"
begin

lemmas width = is_width

lemma sv_is_cong: "sv_is v n x \<Longrightarrow> x = y \<Longrightarrow> sv_is v n y"
  by simp

lemma bit_value: "sv_is v 1 z \<Longrightarrow> z = 0 \<or> z = 1"
  using is_less [of v 1 z] by auto

lemma subtract_law:
  assumes "sv_is a n x" "sv_is b n y"
  shows "succeeds (ops_subtract ops a b) (\<lambda>r. sv_is r n ((x + (2 ^ n - y)) mod 2 ^ n))"
  unfolding ops_subtract_def
proof (rule succeeds_bind [OF negate_law [OF assms(2)]])
  fix v assume "sv_is v n ((2 ^ n - y) mod 2 ^ n)"
  from add_law [OF assms(1) this] show "succeeds (op_add ops a v) (\<lambda>r. sv_is r n ((x + (2 ^ n - y)) mod 2 ^ n))"
    by (simp add: mod_add_right_eq)
qed

lemma concatHiLo:
  assumes "sv_is hi n x" "sv_is lo m y" "0 < n"
  shows "succeeds (ops_concatHiLo ops hi lo) (\<lambda>r. sv_is r (m + n) (y + 2 ^ m * x))"
  using concat_law [OF assms(2,1,3)] by (simp add: ops_concatHiLo_def)

lemma split_law:
  assumes "sv_is a n x" "0 < k" "k < n"
  shows "succeeds (ops_split ops a k) (\<lambda>(lo, hi). sv_is lo k (x mod 2 ^ k) \<and> sv_is hi (n - k) (x div 2 ^ k))"
proof -
  have "x div 2 ^ k < 2 ^ (n - k)"
    using is_less [OF assms(1)] assms(3) by (intro less_mult_imp_div_less) (simp flip: power_add)
  then show ?thesis
    unfolding ops_split_def width [OF assms(1)]
    using extract_law [OF assms(1), of 0 k] extract_law [OF assms(1), of k n] assms
    by (auto simp: succeeds_def)
qed

lemma bit_extract:
  assumes "sv_is a n x" "i < n"
  shows "succeeds (op_extract ops a i (Suc i)) (\<lambda>r. sv_is r 1 (of_bool (bit x i)))"
proof -
  have "x div 2 ^ i mod 2 ^ (Suc i - i) = of_bool (bit x i)"
    by (simp add: bit_iff_odd mod2_eq_if)
  then show ?thesis using extract_law [OF assms(1), of i "Suc i"] assms(2) by simp
qed

lemma isEqual:
  assumes "sv_is a n x" "sv_is b n y"
  shows "succeeds (ops_isEqual ops a b) (\<lambda>r. sv_is r 1 (of_bool (x = y)))"
  unfolding ops_isEqual_def
proof (rule succeeds_bind [OF xor_law [OF assms]])
  fix v assume "sv_is v n (x XOR y)"
  from equalToZero [OF this] show "succeeds (op_equalToZero ops v) (\<lambda>r. sv_is r 1 (of_bool (x = y)))"
    by (simp add: xor_eq_0_iff_nat)
qed

lemma not_bit:
  assumes "sv_is a 1 (of_bool t)"
  shows "succeeds (op_invert ops a) (\<lambda>r. sv_is r 1 (of_bool (\<not> t)))"
  using invert_law [OF assms] by (cases t) simp_all

lemma or_bits:
  assumes "sv_is a 1 (of_bool t)" "sv_is b 1 (of_bool u)"
  shows "succeeds (op_or ops a b) (\<lambda>r. sv_is r 1 (of_bool (t \<or> u)))"
  using or_law [OF assms] by (cases t; cases u) simp_all

lemma and_bits:
  assumes "sv_is a 1 (of_bool t)" "sv_is b 1 (of_bool u)"
  shows "succeeds (op_and ops a b) (\<lambda>r. sv_is r 1 (of_bool (t \<and> u)))"
  using and_law [OF assms] by (cases t; cases u) simp_all

lemma xor_bits:
  assumes "sv_is a 1 (of_bool t)" "sv_is b 1 (of_bool u)"
  shows "succeeds (op_xor ops a b) (\<lambda>r. sv_is r 1 (of_bool (t \<noteq> u)))"
  using xor_law [OF assms] by (cases t; cases u) simp_all

lemma isNotEqual:
  assumes "sv_is a n x" "sv_is b n y"
  shows "succeeds (ops_isNotEqual ops a b) (\<lambda>r. sv_is r 1 (of_bool (x \<noteq> y)))"
  unfolding ops_isNotEqual_def by (rule succeeds_bind [OF isEqual [OF assms] not_bit])

lemma isUnsignedLessThan:
  assumes a: "sv_is a n x" and b: "sv_is b n y"
  shows "succeeds (ops_isUnsignedLessThan ops a b) (\<lambda>r. sv_is r 1 (of_bool (x < y)))"
proof -
  have less: "x < 2 ^ n" "y < 2 ^ n" using is_less a b by auto
  have i: "int x < 2 ^ n" "int y < 2 ^ n" using less by (simp_all add: of_nat_less_power_iff)
  have xy: "x mod 2 ^ Suc n = x" "y mod 2 ^ Suc n = y" "y \<le> 2 ^ Suc n"
    "- (2 ^ n) \<le> int x - int y" "int x - int y < 2 ^ n"
    using less by simp_all (use i in linarith)+
  show ?thesis
    unfolding ops_isUnsignedLessThan_def width [OF a] width [OF b]
  proof (rule succeeds_bind [OF unsignedExtend [OF a]], rule succeeds_bind [OF unsignedExtend [OF b]])
    fix v w assume "sv_is v (n + 1) (x mod 2 ^ (n + 1))" "sv_is w (n + 1) (y mod 2 ^ (n + 1))"
    then have "sv_is v (Suc n) x" "sv_is w (Suc n) y" using xy by simp_all
    from subtract_law [OF this]
    show "succeeds (Option.bind (ops_subtract ops v w) (\<lambda>d. op_extract ops d (op_nBits ops d - 1) (op_nBits ops d)))
        (\<lambda>r. sv_is r 1 (of_bool (x < y)))"
    proof (rule succeeds_bind)
      fix d assume d: "sv_is d (Suc n) ((x + (2 ^ Suc n - y)) mod 2 ^ Suc n)"
      from bit_extract [OF d, of n]
      show "succeeds (op_extract ops d (op_nBits ops d - 1) (op_nBits ops d)) (\<lambda>r. sv_is r 1 (of_bool (x < y)))"
        unfolding width [OF d] diff_sign [OF xy(3-5)] by simp
    qed
  qed
qed

lemma isSignedLessThan:
  assumes a: "sv_is a n x" and b: "sv_is b n y" and n: "0 < n"
  shows "succeeds (ops_isSignedLessThan ops a b) (\<lambda>r. sv_is r 1 (of_bool (signed_of n x < signed_of n y)))"
proof -
  define X Y where "X = nat (signed_of n x mod 2 ^ Suc n)" and "Y = nat (signed_of n y mod 2 ^ Suc n)"
  note range = signed_of_range [OF is_less [OF a] n] signed_of_range [OF is_less [OF b] n]
  have p: "(2 :: int) ^ n = 2 * 2 ^ (n - 1)" by (rule power_half_int [OF n])
  define D where "D = (X + (2 ^ Suc n - Y)) mod 2 ^ Suc n"
  have Y: "Y \<le> 2 ^ Suc n" by (simp add: Y_def nat_le_iff less_imp_le)
  have "int D = (signed_of n x mod 2 ^ Suc n - signed_of n y mod 2 ^ Suc n) mod 2 ^ Suc n"
    using int_diff_mod [OF Y, of X] by (simp add: D_def X_def Y_def)
  then have "int D = (signed_of n x - signed_of n y) mod 2 ^ Suc n" by (simp add: mod_diff_eq)
  then have D: "D = nat ((signed_of n x - signed_of n y) mod 2 ^ Suc n)" by (metis nat_int)
  have sD: "signed_of (Suc n) D = signed_of n x - signed_of n y"
    unfolding D by (rule signed_of_residue) (use range p in auto)
  have less: "D < 2 ^ Suc n" by (simp add: D_def)
  have top: "bit D n \<longleftrightarrow> signed_of n x < signed_of n y"
    using bit_top [OF less] signed_of_neg_iff [OF less] sD by simp
  show ?thesis
    unfolding ops_isSignedLessThan_def width [OF a] width [OF b] Let_def
  proof (rule succeeds_require [OF refl], rule succeeds_bind [OF signExtend_law [OF a]],
      rule succeeds_bind [OF signExtend_law [OF b]])
    fix v w assume "sv_is v (n + 1) (nat (signed_of n x mod 2 ^ (n + 1)))"
      "sv_is w (n + 1) (nat (signed_of n y mod 2 ^ (n + 1)))"
    then have "sv_is v (Suc n) X" "sv_is w (Suc n) Y" by (simp_all add: X_def Y_def)
    from subtract_law [OF this, folded D_def]
    show "succeeds (Option.bind (ops_subtract ops v w) (\<lambda>d. op_extract ops d n (n + 1)))
        (\<lambda>r. sv_is r 1 (of_bool (signed_of n x < signed_of n y)))"
      by (rule succeeds_bind) (use bit_extract [of _ "Suc n" D n] top in simp)
  qed
qed

lemma isUnsignedLessThanOrEqual:
  assumes "sv_is a n x" "sv_is b n y"
  shows "succeeds (ops_isUnsignedLessThanOrEqual ops a b) (\<lambda>r. sv_is r 1 (of_bool (x \<le> y)))"
  unfolding ops_isUnsignedLessThanOrEqual_def order_le_less
  by (rule succeeds_bind [OF isUnsignedLessThan [OF assms]], rule succeeds_bind [OF isEqual [OF assms]], rule or_bits)

lemma isUnsignedGreaterThan:
  assumes "sv_is a n x" "sv_is b n y"
  shows "succeeds (ops_isUnsignedGreaterThan ops a b) (\<lambda>r. sv_is r 1 (of_bool (y < x)))"
  unfolding ops_isUnsignedGreaterThan_def not_le [symmetric]
  by (rule succeeds_bind [OF isUnsignedLessThanOrEqual [OF assms] not_bit])

lemma isUnsignedGreaterThanOrEqual:
  assumes "sv_is a n x" "sv_is b n y"
  shows "succeeds (ops_isUnsignedGreaterThanOrEqual ops a b) (\<lambda>r. sv_is r 1 (of_bool (y \<le> x)))"
  unfolding ops_isUnsignedGreaterThanOrEqual_def not_less [symmetric]
  by (rule succeeds_bind [OF isUnsignedLessThan [OF assms] not_bit])

text \<open>Two numbers of the same width are equal exactly when they are equal as signed numbers.\<close>

lemma signed_of_inject:
  assumes "x < 2 ^ n" "y < 2 ^ n"
  shows "signed_of n x = signed_of n y \<longleftrightarrow> x = y"
proof
  assume "signed_of n x = signed_of n y"
  then have "int x mod 2 ^ n = int y mod 2 ^ n" using signed_of_mod [of n x] signed_of_mod [of n y] by simp
  then have "int (x mod 2 ^ n) = int (y mod 2 ^ n)" by (simp add: of_nat_mod)
  with assms show "x = y" by simp
qed simp

lemma isSignedLessThanOrEqual:
  assumes "sv_is a n x" "sv_is b n y" "0 < n"
  shows "succeeds (ops_isSignedLessThanOrEqual ops a b) (\<lambda>r. sv_is r 1 (of_bool (signed_of n x \<le> signed_of n y)))"
  unfolding ops_isSignedLessThanOrEqual_def order_le_less signed_of_inject [OF is_less [OF assms(1)] is_less [OF assms(2)]]
  by (rule succeeds_bind [OF isSignedLessThan [OF assms]], rule succeeds_bind [OF isEqual [OF assms(1,2)]], rule or_bits)

lemma isSignedGreaterThan:
  assumes "sv_is a n x" "sv_is b n y" "0 < n"
  shows "succeeds (ops_isSignedGreaterThan ops a b) (\<lambda>r. sv_is r 1 (of_bool (signed_of n y < signed_of n x)))"
  unfolding ops_isSignedGreaterThan_def not_le [symmetric]
  by (rule succeeds_bind [OF isSignedLessThanOrEqual [OF assms] not_bit])

lemma isSignedGreaterThanOrEqual:
  assumes "sv_is a n x" "sv_is b n y" "0 < n"
  shows "succeeds (ops_isSignedGreaterThanOrEqual ops a b) (\<lambda>r. sv_is r 1 (of_bool (signed_of n y \<le> signed_of n x)))"
  unfolding ops_isSignedGreaterThanOrEqual_def not_less [symmetric]
  by (rule succeeds_bind [OF isSignedLessThan [OF assms] not_bit])

text \<open>The tail shared by \<^verbatim>\<open>addCarry\<close> and \<^verbatim>\<open>subtractCarry\<close>.\<close>

lemma carry_tail:
  assumes a: "sv_is a n x" and b: "sv_is b n y" and n: "1 < n"
  shows "succeeds (do {
      false \<leftarrow> op_boolean ops False;
      (sum, carries) \<leftarrow> op_addWithCarries ops a b false;
      carryOut \<leftarrow> op_extract ops carries (n - 1) n;
      c \<leftarrow> op_extract ops carries (n - 2) (n - 1);
      overflowed \<leftarrow> op_xor ops carryOut c;
      Some (sum, carryOut, overflowed)
    }) (\<lambda>(sum, carryOut, overflowed). sv_is sum n ((x + y) mod 2 ^ n) \<and>
      sv_is carryOut 1 (of_bool (2 ^ n \<le> x + y)) \<and>
      sv_is overflowed 1 (of_bool (\<not> fits_signed n (signed_of n x + signed_of n y))))"
proof (rule succeeds_bind [OF boolean], rule succeeds_bind)
  fix z assume "sv_is z 1 (of_bool False)"
  then show "succeeds (op_addWithCarries ops a b z) (\<lambda>r. sv_is (fst r) n ((x + y) mod 2 ^ n) \<and>
      sv_is (snd r) n (carries_of x y 0 mod 2 ^ n))"
    using addWithCarries [OF a b, of z 0] by (simp add: case_prod_unfold)
next
  fix r assume "sv_is (fst r) n ((x + y) mod 2 ^ n) \<and> sv_is (snd r) n (carries_of x y 0 mod 2 ^ n)"
  then obtain sum cs where r: "r = (sum, cs)" and s: "sv_is sum n ((x + y) mod 2 ^ n)"
    and c: "sv_is cs n (carries_of x y 0 mod 2 ^ n)" by (cases r) auto
  have less: "x < 2 ^ n" "y < 2 ^ n" using is_less a b by auto
  have bits: "bit (carries_of x y 0 mod 2 ^ n) i = bit (carries_of x y 0) i" if "i < n" for i
    using that by (simp add: bit_simps flip: take_bit_eq_mod)
  have top: "succeeds (op_extract ops cs (n - 1) n) (\<lambda>r. sv_is r 1 (of_bool (bit (carries_of x y 0) (n - 1))))"
    using bit_extract [OF c, of "n - 1"] n bits [of "n - 1"] by simp
  have nxt: "succeeds (op_extract ops cs (n - 2) (n - 1)) (\<lambda>r. sv_is r 1 (of_bool (bit (carries_of x y 0) (n - 2))))"
    using bit_extract [OF c, of "n - 2"] n bits [of "n - 2"] by (simp add: Suc_diff_Suc numeral_2_eq_2)
  show "succeeds (case r of (sum, carries) \<Rightarrow> do {
      carryOut \<leftarrow> op_extract ops carries (n - 1) n;
      c \<leftarrow> op_extract ops carries (n - 2) (n - 1);
      overflowed \<leftarrow> op_xor ops carryOut c;
      Some (sum, carryOut, overflowed)
    }) (\<lambda>(sum, carryOut, overflowed). sv_is sum n ((x + y) mod 2 ^ n) \<and>
      sv_is carryOut 1 (of_bool (2 ^ n \<le> x + y)) \<and>
      sv_is overflowed 1 (of_bool (\<not> fits_signed n (signed_of n x + signed_of n y))))"
    unfolding r prod.case overflow_carries [OF less n, symmetric] carry_out [OF less order.strict_trans [OF zero_less_one n], symmetric]
  proof (rule succeeds_bind [OF top], rule succeeds_bind [OF nxt], rule succeeds_bind, erule (1) xor_bits)
  qed (simp add: s)
qed

lemma addCarry:
  assumes a: "sv_is a n x" and b: "sv_is b n y" and n: "1 < n"
  shows "succeeds (ops_addCarry ops a b) (\<lambda>(sum, carryOut, overflowed). sv_is sum n ((x + y) mod 2 ^ n) \<and>
      sv_is carryOut 1 (of_bool (2 ^ n \<le> x + y)) \<and>
      sv_is overflowed 1 (of_bool (\<not> fits_signed n (signed_of n x + signed_of n y))))"
  using carry_tail [OF assms] by (simp add: ops_addCarry_def width [OF a] width [OF b] Let_def)

lemma subtractCarry:
  assumes a: "sv_is a n x" and b: "sv_is b n y" and n: "1 < n"
  shows "succeeds (ops_subtractCarry ops a b) (\<lambda>(diff, carryOut, overflowed). sv_is diff n ((x + (2 ^ n - y)) mod 2 ^ n) \<and>
      sv_is carryOut 1 (of_bool (0 < y \<and> y \<le> x)) \<and> sv_is overflowed 1 (of_bool (subtract_overflow n x y)))"
proof -
  have less: "x < 2 ^ n" "y < 2 ^ n" using is_less a b by auto
  have carry: "2 ^ n \<le> x + (2 ^ n - y) mod 2 ^ n \<longleftrightarrow> 0 < y \<and> y \<le> x"
    using less by (cases "y = 0") auto
  have sum: "(x + (2 ^ n - y) mod 2 ^ n) mod 2 ^ n = (x + (2 ^ n - y)) mod 2 ^ n" by (rule mod_add_right_eq)
  have n0: "0 < n" using n by simp
  show ?thesis
    unfolding ops_subtractCarry_def width [OF a] width [OF b] Let_def
  proof (rule succeeds_require [OF refl], rule succeeds_require [OF n], rule succeeds_bind [OF negate_law [OF b]])
    fix v assume "sv_is v n ((2 ^ n - y) mod 2 ^ n)"
    from carry_tail [OF a this n]
    show "succeeds (do {
        false \<leftarrow> op_boolean ops False;
        (difference, carries) \<leftarrow> op_addWithCarries ops a v false;
        carryOut \<leftarrow> op_extract ops carries (n - 1) n;
        c \<leftarrow> op_extract ops carries (n - 2) (n - 1);
        overflowed \<leftarrow> op_xor ops carryOut c;
        Some (difference, carryOut, overflowed)
      }) (\<lambda>(diff, carryOut, overflowed). sv_is diff n ((x + (2 ^ n - y)) mod 2 ^ n) \<and>
        sv_is carryOut 1 (of_bool (0 < y \<and> y \<le> x)) \<and> sv_is overflowed 1 (of_bool (subtract_overflow n x y)))"
      unfolding carry sum subtract_overflow_flag [OF less n0] .
  qed
qed

lemma countLeadingZeros:
  assumes a: "sv_is a n x" and n: "n < 2 ^ 64"
  shows "succeeds (ops_countLeadingZeros ops a) (\<lambda>r. sv_is r n (leading_zeros n x))"
proof -
  define i where "i = (case find (bit x) (rev [0..<n]) of None \<Rightarrow> 0 | Some i \<Rightarrow> i)"
  define T where "T = unat (word_of_nat n - 1 :: 64 word) mod 2 ^ n"
  have less: "x < 2 ^ n" "n < 2 ^ n" using is_less [OF a] by simp_all
  have w: "unat (word_of_nat n :: 64 word) = n" using n by (simp add: unat_of_nat)
  note z = top_bit_None [OF less(1)]
  have r: "leading_zeros n x = (if x = 0 then n else (T + (2 ^ n - i)) mod 2 ^ n)"
  proof (cases "x = 0")
    case False
    then obtain j where j: "find (bit x) (rev [0..<n]) = Some j" using z by auto
    have ij: "i = j" "j < n" using j by (simp add: i_def) (use j in \<open>auto simp: find_Some_iff rev_nth\<close>)
    have "(word_of_nat n :: 64 word) \<noteq> 0" using w ij(2) by (metis unat_0 not_less_zero)
    moreover have "n - 1 < 2 ^ n" using less(2) by linarith
    ultimately have "T = n - 1" using w by (simp add: T_def unat_minus_one)
    then have "T + (2 ^ n - i) = (n - 1 - j) + 2 ^ n" using ij less(2) by linarith
    moreover have "n - 1 - j < 2 ^ n" using less(2) by linarith
    ultimately show ?thesis using j False by (simp add: leading_zeros_find)
  qed (use z in \<open>simp add: leading_zeros_find\<close>)
  show ?thesis
    unfolding ops_countLeadingZeros_def width [OF a]
  proof (rule succeeds_bind [OF mssb [OF a n, folded i_def]], rule succeeds_bind [OF number],
      rule succeeds_bind [OF number], rule succeeds_bind [OF subtract_law], assumption, assumption,
      rule succeeds_bind [OF equalToZero [OF a]], rule succeeds_mono [OF ite], assumption+)
  qed (use less(2) in \<open>auto simp: r w T_def split: if_splits\<close>)
qed

lemma countLeadingOnes:
  assumes a: "sv_is a n x" and n: "n < 2 ^ 64"
  shows "succeeds (ops_countLeadingOnes ops a) (\<lambda>r. sv_is r n (leading_zeros n (2 ^ n - 1 - x)))"
  unfolding ops_countLeadingOnes_def by (rule succeeds_bind [OF invert_law [OF a] countLeadingZeros [OF _ n]])

lemma reverse_loop_law:
  assumes a: "sv_is a n x" and e: "0 < e" "k * e = n"
  shows "0 < i \<Longrightarrow> i \<le> k \<Longrightarrow> sv_is v (i * e) (reversed e x i) \<Longrightarrow>
    succeeds (reverse_loop ops a e [i..<k] (Some v)) (\<lambda>r. \<exists>w. r = Some w \<and> sv_is w n (reversed e x k))"
proof (induction "k - i" arbitrary: i v)
  case 0
  then show ?case using e by simp
next
  case (Suc d)
  then have i: "i < k" by simp
  then have ie: "(i + 1) * e \<le> n" using e(2) by (metis Suc_eq_plus1 Suc_leI mult_le_mono1)
  have upt: "[i..<k] = i # [Suc i..<k]" using i by (simp add: upt_conv_Cons)
  have el: "succeeds (op_extract ops a (i * e) ((i + 1) * e)) (\<lambda>r. sv_is r e (x div 2 ^ (i * e) mod 2 ^ e))"
    using extract_law [OF a, of "i * e" "(i + 1) * e"] e(1) ie by simp
  have ie0: "0 < i * e" using Suc.prems(1) e(1) by simp
  show ?case
    unfolding upt reverse_loop.simps option.case
  proof (rule succeeds_bind [OF el], rule succeeds_bind)
    fix w assume "sv_is w e (x div 2 ^ (i * e) mod 2 ^ e)"
    from concatHiLo [OF Suc.prems(3) this ie0]
    show "succeeds (ops_concatHiLo ops v w) (\<lambda>r. sv_is r (Suc i * e) (reversed e x (Suc i)))" by simp
  next
    fix r assume "sv_is r (Suc i * e) (reversed e x (Suc i))"
    then show "succeeds (reverse_loop ops a e [Suc i..<k] (Some r)) (\<lambda>r. \<exists>w. r = Some w \<and> sv_is w n (reversed e x k))"
      using Suc.hyps(1) [of "Suc i" r] Suc.hyps(2) i by simp
  qed
qed

lemma reverseElmts:
  assumes a: "sv_is a n x" and e: "0 < e" "k * e = n" "0 < k"
  shows "succeeds (ops_reverseElmts ops a e) (\<lambda>r. sv_is r n (reversed e x k))"
proof -
  have le: "e \<le> n" using e by (metis Suc_leI mult_le_mono1 mult_1 One_nat_def)
  have n: "n mod e = 0" "n div e = k" using e by auto
  have upt: "[0..<k] = 0 # [1..<k]" using e(3) by (simp add: upt_conv_Cons)
  have el: "succeeds (op_extract ops a (0 * e) ((0 + 1) * e)) (\<lambda>r. sv_is r (1 * e) (reversed e x 1))"
    using extract_law [OF a, of 0 e] e(1) le by simp
  show ?thesis
    unfolding ops_reverseElmts_def width [OF a] Let_def n
  proof (rule succeeds_require [OF e(1)], rule succeeds_require [OF le], rule succeeds_require [OF refl], rule succeeds_bind)
    show "succeeds (reverse_loop ops a e [0..<k] None) (\<lambda>r. \<exists>w. r = Some w \<and> sv_is w n (reversed e x k))"
      unfolding upt reverse_loop.simps option.case Option.bind.bind_lunit
      by (rule succeeds_bind [OF el]) (rule reverse_loop_law [OF a e(1,2)], use e(3) in simp_all)
  next
    fix r assume "\<exists>w. r = Some w \<and> sv_is w n (reversed e x k)"
    then show "succeeds (do { result \<leftarrow> r; require (op_nBits ops result = n); Some result }) (\<lambda>r. sv_is r n (reversed e x k))"
      by (auto simp: width)
  qed
qed

text \<open>Fields of a floating-point value, and the classes of IEEE 754.\<close>

lemma float_field_law:
  assumes a: "sv_is a n x" and k: "0 < k" "b + k \<le> n"
  shows "succeeds (float_field ops a (range_of b k)) (\<lambda>r. sv_is r k (x div 2 ^ b mod 2 ^ k))"
proof -
  have "least (range_of b k) = Some b" "greatest (range_of b k) = Some (b + k - 1)"
    using k(1) by (simp_all add: least_def greatest_def range_simps)
  then show ?thesis using extract_law [OF a, of b "b + k"] k by (simp add: float_field_def)
qed

end

text \<open>
  \<open>layout_ok t n\<close>: the fields lie within a value of \<open>n\<close> bits, as \<^verbatim>\<open>SgAsmFloatType::check\<close> asserts.
\<close>

definition layout_ok :: "float_type \<Rightarrow> nat \<Rightarrow> nat \<Rightarrow> nat \<Rightarrow> nat \<Rightarrow> nat \<Rightarrow> bool" where
  "layout_ok t n sb sn eb en \<longleftrightarrow> significandBits t = range_of sb sn \<and> exponentBits t = range_of eb en \<and>
     0 < sn \<and> 0 < en \<and> sb + sn \<le> n \<and> eb + en \<le> n \<and> signBit t < n"

context risc_laws
begin

lemma fp_classes:
  assumes a: "sv_is a n x" and t: "layout_ok t n sb sn eb en"
  defines "E \<equiv> x div 2 ^ eb mod 2 ^ en" and "F \<equiv> x div 2 ^ sb mod 2 ^ sn"
  shows "succeeds (ops_fpIsNan ops a t) (\<lambda>r. sv_is r 1 (of_bool (E = 2 ^ en - 1 \<and> F \<noteq> 0)))"
    "succeeds (ops_fpIsInfinity ops a t) (\<lambda>r. sv_is r 1 (of_bool (E = 2 ^ en - 1 \<and> F = 0)))"
    "succeeds (ops_fpIsZero ops a t) (\<lambda>r. sv_is r 1 (of_bool (E = 0 \<and> F = 0)))"
    "succeeds (ops_fpIsDenormalized ops a t) (\<lambda>r. sv_is r 1 (of_bool (gradualUnderflow t \<and> E = 0 \<and> F \<noteq> 0)))"
    "succeeds (ops_fpSign ops a t) (\<lambda>r. sv_is r 1 (of_bool (bit x (signBit t))))"
proof -
  have ef: "succeeds (float_field ops a (exponentBits t)) (\<lambda>r. sv_is r en E)"
    "succeeds (float_field ops a (significandBits t)) (\<lambda>r. sv_is r sn F)"
    using float_field_law [OF a] t by (simp_all add: layout_ok_def E_def F_def)
  have inv: "(2 ^ en - 1 - E = 0) = (E = 2 ^ en - 1)"
  proof -
    have "E < 2 ^ en" by (simp add: E_def)
    then show ?thesis by linarith
  qed
  show "succeeds (ops_fpIsNan ops a t) (\<lambda>r. sv_is r 1 (of_bool (E = 2 ^ en - 1 \<and> F \<noteq> 0)))"
    unfolding ops_fpIsNan_def inv [symmetric]
    by (rule succeeds_bind [OF ef(1)], rule succeeds_bind [OF ef(2)], rule succeeds_bind [OF invert_law], assumption,
      rule succeeds_bind [OF equalToZero], assumption, rule succeeds_bind [OF equalToZero], assumption,
      rule succeeds_bind [OF not_bit], assumption, erule (1) and_bits)
  show "succeeds (ops_fpIsInfinity ops a t) (\<lambda>r. sv_is r 1 (of_bool (E = 2 ^ en - 1 \<and> F = 0)))"
    unfolding ops_fpIsInfinity_def inv [symmetric]
    by (rule succeeds_bind [OF ef(1)], rule succeeds_bind [OF ef(2)], rule succeeds_bind [OF invert_law], assumption,
      rule succeeds_bind [OF equalToZero], assumption, rule succeeds_bind [OF equalToZero], assumption, erule (1) and_bits)
  show "succeeds (ops_fpIsZero ops a t) (\<lambda>r. sv_is r 1 (of_bool (E = 0 \<and> F = 0)))"
    unfolding ops_fpIsZero_def
    by (rule succeeds_bind [OF ef(1)], rule succeeds_bind [OF ef(2)],
      rule succeeds_bind [OF equalToZero], assumption, rule succeeds_bind [OF equalToZero], assumption, erule (1) and_bits)
  have "succeeds (do {
        exponent \<leftarrow> float_field ops a (exponentBits t);
        significand \<leftarrow> float_field ops a (significandBits t);
        e \<leftarrow> op_equalToZero ops exponent;
        z \<leftarrow> op_equalToZero ops significand;
        nz \<leftarrow> op_invert ops z;
        op_and ops e nz
      }) (\<lambda>r. sv_is r 1 (of_bool (E = 0 \<and> F \<noteq> 0)))"
    by (rule succeeds_bind [OF ef(1)], rule succeeds_bind [OF ef(2)],
      rule succeeds_bind [OF equalToZero], assumption, rule succeeds_bind [OF equalToZero], assumption,
      rule succeeds_bind [OF not_bit], assumption, erule (1) and_bits)
  then show "succeeds (ops_fpIsDenormalized ops a t) (\<lambda>r. sv_is r 1 (of_bool (gradualUnderflow t \<and> E = 0 \<and> F \<noteq> 0)))"
    using boolean [of False] by (simp add: ops_fpIsDenormalized_def)
  show "succeeds (ops_fpSign ops a t) (\<lambda>r. sv_is r 1 (of_bool (bit x (signBit t))))"
    using bit_extract [OF a, of "signBit t"] t by (simp add: ops_fpSign_def layout_ok_def)
qed

lemma reinterpret:
  assumes "sv_is a n x" "type_nBits t = n"
  shows "succeeds (ops_reinterpret ops a t) (\<lambda>r. sv_is r n x)"
  using copy_law [OF assms(1)] assms(2) width [OF assms(1)] by (simp add: ops_reinterpret_def)

lemma reinterpret_mismatch: "sv_is a n x \<Longrightarrow> type_nBits t \<noteq> n \<Longrightarrow> ops_reinterpret ops a t = None"
  by (simp add: ops_reinterpret_def width)

text \<open>
  Conversion between integer types of different identity: the value is kept modulo the width of
  the destination, except that a signed number widened to an unsigned type is not sign extended and
  that an unsigned type converted to a signed type of the same width fails.
\<close>

lemma convert_integers:
  assumes a: "sv_is a n x" and src: "type_shape s = IntegerType p" "type_nBits s = n"
    and dst: "type_shape t = IntegerType q" "type_nBits t = m" and ne: "type_id s \<noteq> type_id t"
  shows "if \<not> p \<and> q \<and> n = m then ops_convert ops a s t = None
    else succeeds (ops_convert ops a s t) (\<lambda>r. sv_is r m
      (if p \<and> q \<and> n \<le> m then nat (signed_of n x mod 2 ^ m) else x mod 2 ^ m))"
proof -
  have ext: "succeeds (do { v \<leftarrow> op_unsignedExtend ops v0 m; ops_reinterpret ops v t }) (\<lambda>r. sv_is r m (x mod 2 ^ m))"
    "succeeds (do { v \<leftarrow> op_signExtend ops v0 m; ops_reinterpret ops v t }) (\<lambda>r. sv_is r m (nat (signed_of n x mod 2 ^ m)))"
    if "sv_is v0 n x" for v0
    by (rule succeeds_bind [OF unsignedExtend [OF that]], erule reinterpret [OF _ dst(2)])
       (rule succeeds_bind [OF signExtend_law [OF that]], erule reinterpret [OF _ dst(2)])
  obtain v0 where v0: "ops_reinterpret ops a s = Some v0" "sv_is v0 n x"
    using reinterpret [OF a src(2)] by (auto elim: succeedsE)
  note e = ext [OF v0(2)]
  show ?thesis
    using e ne by (cases p; cases q) (auto simp: ops_convert_def v0(1) src dst)
qed

lemma fpEffectiveExponent:
  assumes a: "sv_is a n x" and t: "layout_ok t n sb sn eb en" and le: "en < 64" "sn < 2 ^ 64"
  defines "E \<equiv> x div 2 ^ eb mod 2 ^ en" and "F \<equiv> x div 2 ^ sb mod 2 ^ sn" and "B \<equiv> int (unat (exponentBias t))"
  shows "succeeds (ops_fpEffectiveExponent ops a t) (\<lambda>r. sv_is r (en + 1) (nat (
    (if E = 0 then if F = 0 then 0 else 1 - B - int sn + int (sn - 1 - leading_zeros sn F) else int E - B) mod 2 ^ (en + 1))))"
proof -
  define W where "W = en + 1"
  define i where "i = (case find (bit F) (rev [0..<sn]) of None \<Rightarrow> 0 | Some i \<Rightarrow> i)"
  define D where "D = unat (1 - exponentBias t - word_of_nat sn :: 64 word) mod 2 ^ W"
  have ef: "succeeds (float_field ops a (exponentBits t)) (\<lambda>r. sv_is r en E)"
    "succeeds (float_field ops a (significandBits t)) (\<lambda>r. sv_is r sn F)"
    using float_field_law [OF a] t by (simp_all add: layout_ok_def E_def F_def)
  have W: "interval_size (exponentBits t) + 1 = W" "interval_size (significandBits t) = sn" "W \<le> 64"
    using t le(1) by (simp_all add: layout_ok_def W_def range_simps)
  have residue: "int (unat w mod 2 ^ W) = uint w mod 2 ^ W" for w :: "64 word"
    by (simp add: of_nat_mod)
  have dvd: "(2 :: int) ^ W dvd 2 ^ 64" using W(3) by (rule le_imp_power_dvd)
  have D: "int D = (1 - B - int sn) mod 2 ^ W"
    using mod_mod_cancel [OF dvd] le(2)
    by (simp add: D_def residue B_def uint_word_ariths unsigned_of_nat take_bit_nat_eq_self mod_simps)
  have E: "E < 2 ^ W" unfolding E_def W_def by (rule less_trans [OF mod_less_divisor]) simp_all
  have small: "F \<noteq> 0 \<Longrightarrow> (D + i mod 2 ^ W) mod 2 ^ W = nat ((1 - B - int sn + int (sn - 1 - leading_zeros sn F)) mod 2 ^ W)"
  proof -
    assume "F \<noteq> 0"
    then have "i = sn - 1 - leading_zeros sn F" unfolding i_def by (intro top_bit_eq) (simp_all add: F_def)
    then have "int ((D + i mod 2 ^ W) mod 2 ^ W) = (1 - B - int sn + int (sn - 1 - leading_zeros sn F)) mod 2 ^ W"
      by (simp add: of_nat_mod D mod_simps)
    then show ?thesis by (metis nat_int)
  qed
  have norm: "(E mod 2 ^ W + (2 ^ W - unat (exponentBias t) mod 2 ^ W)) mod 2 ^ W = nat ((int E - B) mod 2 ^ W)"
  proof -
    have b: "unat (exponentBias t) mod 2 ^ W \<le> 2 ^ W" by (simp add: less_imp_le)
    have "int ((E + (2 ^ W - unat (exponentBias t) mod 2 ^ W)) mod 2 ^ W) = (int E - B) mod 2 ^ W"
      unfolding int_diff_mod [OF b] by (simp add: B_def of_nat_mod mod_simps)
    then have "(E + (2 ^ W - unat (exponentBias t) mod 2 ^ W)) mod 2 ^ W = nat ((int E - B) mod 2 ^ W)" by (metis nat_int)
    then show ?thesis using E by simp
  qed
  show ?thesis
    unfolding ops_fpEffectiveExponent_def Let_def W W_def [symmetric]
  proof (rule succeeds_bind [OF ef(1)], rule succeeds_bind [OF ef(2)], rule succeeds_bind [OF equalToZero], assumption,
      rule succeeds_bind [OF equalToZero], assumption, rule succeeds_bind [OF number], rule succeeds_bind [OF number],
      rule succeeds_bind [OF mssb [OF _ le(2)]], assumption, rule succeeds_bind [OF unsignedExtend], assumption,
      rule succeeds_bind [OF add_law], assumption, assumption, rule succeeds_bind [OF ite], assumption, assumption, assumption,
      rule succeeds_bind [OF unsignedExtend], assumption, rule succeeds_bind [OF number],
      rule succeeds_bind [OF subtract_law], assumption, assumption, rule succeeds_mono [OF ite], assumption+)
  qed (use small norm in \<open>auto simp flip: i_def D_def split: if_splits\<close>)
qed

end

end
