(* ===== verification/Concrete_Value.thy ===== *)
theory Concrete_Value
  imports Risc_Operators
begin

text \<open>
  Values of the concrete semantics and the operators on them
  (\<^verbatim>\<open>src/Rose/BinaryAnalysis/InstructionSemantics/ConcreteSemantics.C\<close>, classes \<^verbatim>\<open>SValue\<close> and
  \<^verbatim>\<open>RiscOperators\<close>): a value is a bit vector with a width. The operators call the members of
  \<open>Bit_Vector\<close>, and division and multiplication go through 64-bit integers. \<open>None\<close> is a failed assertion
  or an exception (\<^verbatim>\<open>NotImplemented\<close> for operands too wide, \<^verbatim>\<open>Exception\<close> for a division by zero).
  \<^verbatim>\<open>toUnsigned\<close> returns nothing for a value of more than 64 bits, and the \<^verbatim>\<open>get\<close> of that result fails;
  both are \<open>None\<close> here.

  The interpretation \<open>cv\<close> at the end shows that these operators keep the laws of \<open>risc_laws\<close>.
\<close>

section \<open>Values\<close>

record svalue =
  sv_width :: nat
  sv_bits :: bitvector

definition SValue_instance :: "nat \<Rightarrow> svalue option" where
  "SValue_instance nbits = do {
     bits \<leftarrow> BitVector_new nbits False;
     Some \<lparr>sv_width = nbits, sv_bits = bits\<rparr>
   }"

definition SValue_number :: "nat \<Rightarrow> 64 word \<Rightarrow> svalue option" where
  "SValue_number nbits number = do {
     bits \<leftarrow> BitVector_new nbits False;
     bits \<leftarrow> BitVector_fromInteger bits number;
     Some \<lparr>sv_width = nbits, sv_bits = bits\<rparr>
   }"

definition SValue_undefined :: "nat \<Rightarrow> svalue option" where
  "SValue_undefined nbits = SValue_instance nbits"

definition SValue_boolean :: "bool \<Rightarrow> svalue option" where
  "SValue_boolean value = SValue_number 1 (if value then 1 else 0)"

definition SValue_set_width :: "svalue \<Rightarrow> nat \<Rightarrow> svalue option" where
  "SValue_set_width v newWidth = do {
     require (newWidth > 0);
     if newWidth \<noteq> sv_width v then do {
       bits \<leftarrow> BitVector_resize (sv_bits v) newWidth False;
       let v = v\<lparr>sv_bits := bits\<rparr>;
       let v = v\<lparr>sv_width := newWidth\<rparr>;
       require (bv_size (sv_bits v) = sv_width v);
       Some v
     } else Some v
   }"

definition SValue_copy :: "svalue \<Rightarrow> nat \<Rightarrow> svalue option" where
  "SValue_copy v new_width =
     (if new_width \<noteq> 0 \<and> new_width \<noteq> sv_width v then SValue_set_width v new_width else Some v)"

definition SValue_bits :: "svalue \<Rightarrow> bitvector \<Rightarrow> svalue option" where
  "SValue_bits v newBits = do {
     require (bv_size newBits = bv_size (sv_bits v));
     require (bv_size newBits = sv_width v);
     Some (v\<lparr>sv_bits := newBits\<rparr>)
   }"

definition SValue_may_equal :: "svalue \<Rightarrow> svalue \<Rightarrow> bool option" where
  "SValue_may_equal v other = do { c \<leftarrow> BitVector_compare (sv_bits v) (sv_bits other); Some (0 = c) }"

definition SValue_must_equal :: "svalue \<Rightarrow> svalue \<Rightarrow> bool option" where
  "SValue_must_equal v other = do { c \<leftarrow> BitVector_compare (sv_bits v) (sv_bits other); Some (0 = c) }"

definition SValue_get_number :: "svalue \<Rightarrow> 64 word option" where
  "SValue_get_number v = BitVector_toInteger (sv_bits v)"

definition SValue_toUnsigned :: "svalue \<Rightarrow> 64 word option" where
  "SValue_toUnsigned v = (if sv_width v \<le> 64 then SValue_get_number v else None)"

definition SValue_isTrue :: "svalue \<Rightarrow> bool" where
  "SValue_isTrue v = (case SValue_toUnsigned v of None \<Rightarrow> False | Some x \<Rightarrow> x \<noteq> 0)"

definition SValue_isFalse :: "svalue \<Rightarrow> bool" where
  "SValue_isFalse v = (case SValue_toUnsigned v of None \<Rightarrow> False | Some x \<Rightarrow> x = 0)"

section \<open>Operators\<close>

definition svalueNumber :: "bitvector \<Rightarrow> svalue option" where
  "svalueNumber bits = do {
     retval \<leftarrow> SValue_number (bv_size bits) 0;
     SValue_bits retval bits
   }"

definition Concrete_and :: "svalue \<Rightarrow> svalue \<Rightarrow> svalue option" where
  "Concrete_and a b = do { result \<leftarrow> BitVector_bitwiseAnd (sv_bits a) (sv_bits b); svalueNumber result }"

definition Concrete_or :: "svalue \<Rightarrow> svalue \<Rightarrow> svalue option" where
  "Concrete_or a b = do { result \<leftarrow> BitVector_bitwiseOr (sv_bits a) (sv_bits b); svalueNumber result }"

definition Concrete_xor :: "svalue \<Rightarrow> svalue \<Rightarrow> svalue option" where
  "Concrete_xor a b = do { result \<leftarrow> BitVector_bitwiseXor (sv_bits a) (sv_bits b); svalueNumber result }"

definition Concrete_invert :: "svalue \<Rightarrow> svalue option" where
  "Concrete_invert a = do { result \<leftarrow> BitVector_invert (sv_bits a); svalueNumber result }"

definition Concrete_extract :: "svalue \<Rightarrow> nat \<Rightarrow> nat \<Rightarrow> svalue option" where
  "Concrete_extract a begin_bit end_bit = do {
     require (end_bit \<le> sv_width a);
     require (begin_bit < end_bit);
     result \<leftarrow> BitVector_new (end_bit - begin_bit) False;
     result \<leftarrow> BitVector_copy result (BitVector_hull result) (sv_bits a) (hull begin_bit (end_bit - 1));
     svalueNumber result
   }"

definition Concrete_concat :: "svalue \<Rightarrow> svalue \<Rightarrow> svalue option" where
  "Concrete_concat a b = do {
     let resultNBits = sv_width a + sv_width b;
     result \<leftarrow> BitVector_resize (sv_bits a) resultNBits False;
     to \<leftarrow> baseSize (sv_width a) (sv_width b);
     from \<leftarrow> baseSize 0 (sv_width b);
     result \<leftarrow> BitVector_copy result to (sv_bits b) from;
     svalueNumber result
   }"

definition Concrete_leastSignificantSetBit :: "svalue \<Rightarrow> svalue option" where
  "Concrete_leastSignificantSetBit a = do {
     i \<leftarrow> BitVector_leastSignificantSetBit (sv_bits a);
     let count = (case i of None \<Rightarrow> 0 | Some i \<Rightarrow> of_nat i);
     SValue_number (sv_width a) count
   }"

definition Concrete_mostSignificantSetBit :: "svalue \<Rightarrow> svalue option" where
  "Concrete_mostSignificantSetBit a = do {
     i \<leftarrow> BitVector_mostSignificantSetBit (sv_bits a);
     let count = (case i of None \<Rightarrow> 0 | Some i \<Rightarrow> of_nat i);
     SValue_number (sv_width a) count
   }"

definition Concrete_rotateLeft :: "svalue \<Rightarrow> svalue \<Rightarrow> svalue option" where
  "Concrete_rotateLeft a sa = do {
     n \<leftarrow> SValue_toUnsigned sa;
     result \<leftarrow> BitVector_rotateLeft (sv_bits a) (unat n);
     svalueNumber result
   }"

definition Concrete_rotateRight :: "svalue \<Rightarrow> svalue \<Rightarrow> svalue option" where
  "Concrete_rotateRight a sa = do {
     n \<leftarrow> SValue_toUnsigned sa;
     result \<leftarrow> BitVector_rotateRight (sv_bits a) (unat n);
     svalueNumber result
   }"

definition Concrete_shiftLeft :: "svalue \<Rightarrow> svalue \<Rightarrow> svalue option" where
  "Concrete_shiftLeft a sa = do {
     n \<leftarrow> SValue_toUnsigned sa;
     result \<leftarrow> BitVector_shiftLeft (sv_bits a) (unat n) False;
     svalueNumber result
   }"

definition Concrete_shiftRight :: "svalue \<Rightarrow> svalue \<Rightarrow> svalue option" where
  "Concrete_shiftRight a sa = do {
     n \<leftarrow> SValue_toUnsigned sa;
     result \<leftarrow> BitVector_shiftRight (sv_bits a) (unat n) False;
     svalueNumber result
   }"

definition Concrete_shiftRightArithmetic :: "svalue \<Rightarrow> svalue \<Rightarrow> svalue option" where
  "Concrete_shiftRightArithmetic a sa = do {
     n \<leftarrow> SValue_toUnsigned sa;
     result \<leftarrow> BitVector_shiftRightArithmetic (sv_bits a) (unat n);
     svalueNumber result
   }"

definition Concrete_equalToZero :: "svalue \<Rightarrow> svalue option" where
  "Concrete_equalToZero a = do { z \<leftarrow> BitVector_isEqualToZero (sv_bits a); SValue_boolean z }"

text \<open>\<^verbatim>\<open>iteWithStatus\<close> also says which operand the result was formed from; \<^verbatim>\<open>ite\<close> drops it.\<close>

datatype ite_status = NEITHER | STATUS_A | STATUS_B | BOTH

definition Concrete_iteWithStatus :: "svalue \<Rightarrow> svalue \<Rightarrow> svalue \<Rightarrow> (svalue \<times> ite_status) option" where
  "Concrete_iteWithStatus sel a b = do {
     require (sv_width sel = 1);
     s \<leftarrow> SValue_toUnsigned sel;
     if s \<noteq> 0 then do { r \<leftarrow> SValue_copy a 0; Some (r, STATUS_A) }
     else do { r \<leftarrow> SValue_copy b 0; Some (r, STATUS_B) }
   }"

definition Concrete_ite :: "svalue \<Rightarrow> svalue \<Rightarrow> svalue \<Rightarrow> svalue option" where
  "Concrete_ite sel a b = map_option fst (Concrete_iteWithStatus sel a b)"

definition Concrete_unsignedExtend :: "svalue \<Rightarrow> nat \<Rightarrow> svalue option" where
  "Concrete_unsignedExtend a new_width = do {
     result \<leftarrow> BitVector_resize (sv_bits a) new_width False;
     svalueNumber result
   }"

definition Concrete_signExtend :: "svalue \<Rightarrow> nat \<Rightarrow> svalue option" where
  "Concrete_signExtend a new_width = do {
     result \<leftarrow> BitVector_new new_width False;
     result \<leftarrow> BitVector_signExtend result (sv_bits a);
     svalueNumber result
   }"

definition Concrete_add :: "svalue \<Rightarrow> svalue \<Rightarrow> svalue option" where
  "Concrete_add a b = do {
     (_, result) \<leftarrow> BitVector_add (sv_bits a) (sv_bits b);
     svalueNumber result
   }"

definition Concrete_addWithCarries :: "svalue \<Rightarrow> svalue \<Rightarrow> svalue \<Rightarrow> (svalue \<times> svalue) option" where
  "Concrete_addWithCarries a b c = do {
     let nbits = sv_width a;
     ae \<leftarrow> BitVector_resize (sv_bits a) (nbits + 1) False;
     be \<leftarrow> BitVector_resize (sv_bits b) (nbits + 1) False;
     ce \<leftarrow> BitVector_resize (sv_bits c) (nbits + 1) False;
     (_, se) \<leftarrow> BitVector_add ae be;
     (_, se) \<leftarrow> BitVector_add se ce;
     co \<leftarrow> BitVector_bitwiseXor ae be;
     co \<leftarrow> BitVector_bitwiseXor co se;
     co \<leftarrow> BitVector_shiftRight co 1 False;
     co \<leftarrow> BitVector_resize co nbits False;
     carry_out \<leftarrow> svalueNumber co;
     se \<leftarrow> BitVector_resize se nbits False;
     r \<leftarrow> svalueNumber se;
     Some (r, carry_out)
   }"

definition Concrete_negate :: "svalue \<Rightarrow> svalue option" where
  "Concrete_negate a = do { result \<leftarrow> BitVector_negate (sv_bits a); svalueNumber result }"

text \<open>\<^verbatim>\<open>IntegerOps::signExtend2\<close> and its helpers for \<^verbatim>\<open>uint64_t\<close>.\<close>

definition shl1 :: "nat \<Rightarrow> 64 word" where
  "shl1 n = (if n \<ge> 64 then 0 else push_bit n 1)"

definition genMask :: "nat \<Rightarrow> 64 word" where
  "genMask n = shl1 n - 1"

definition signBit2 :: "64 word \<Rightarrow> nat \<Rightarrow> bool option" where
  "signBit2 value width = do {
     require (width > 0 \<and> width \<le> 64);
     Some (value AND shl1 (width - 1) \<noteq> 0)
   }"

definition signExtend2 :: "64 word \<Rightarrow> nat \<Rightarrow> nat \<Rightarrow> 64 word option" where
  "signExtend2 value from_width to_width = do {
     require (from_width \<le> 64);
     require (to_width \<le> 64);
     s \<leftarrow> signBit2 value from_width;
     Some (value OR (if s then genMask to_width XOR genMask from_width else 0))
   }"

text \<open>
  The signed operand of a division or multiplication. The quotient of the least \<^verbatim>\<open>int64_t\<close> and -1 is
  undefined in C++ (the division traps), which is \<open>None\<close> here.
\<close>

definition signed_operand :: "svalue \<Rightarrow> int option" where
  "signed_operand a = do {
     u \<leftarrow> SValue_toUnsigned a;
     s \<leftarrow> signExtend2 u (sv_width a) 64;
     Some (sint s)
   }"

definition division_defined :: "int \<Rightarrow> int \<Rightarrow> unit option" where
  "division_defined a b = require (\<not> (a = - (2 ^ 63) \<and> b = - 1))"

definition Concrete_signedDivide :: "svalue \<Rightarrow> svalue \<Rightarrow> svalue option" where
  "Concrete_signedDivide a' b' =
     (if sv_width a' > 64 \<or> sv_width b' > 64 then None
      else do {
        a \<leftarrow> signed_operand a';
        b \<leftarrow> signed_operand b';
        if 0 = b then None
        else do {
          division_defined a b;
          SValue_number (sv_width a') (word_of_int (a sdiv b))
        }
      })"

definition Concrete_signedModulo :: "svalue \<Rightarrow> svalue \<Rightarrow> svalue option" where
  "Concrete_signedModulo a' b' =
     (if sv_width a' > 64 \<or> sv_width b' > 64 then None
      else do {
        a \<leftarrow> signed_operand a';
        b \<leftarrow> signed_operand b';
        if 0 = b then None
        else do {
          division_defined a b;
          SValue_number (sv_width b') (word_of_int (a smod b))
        }
      })"

text \<open>The long multiplication of two 64-bit numbers, 32 bits at a time, shared by both multiplications.\<close>

definition long_multiply :: "64 word \<Rightarrow> 64 word \<Rightarrow> svalue option" where
  "long_multiply a b = do {
     let a0 = a AND 0xffffffff;
     let a1 = drop_bit 32 a;
     let b0 = b AND 0xffffffff;
     let b1 = drop_bit 32 b;
     let c0 = a0 * b0;
     let c1 = (a0 * b1) + (a1 * b0) + drop_bit 32 c0;
     let c2 = (a1 * b1) + drop_bit 32 c1;
     let c0 = c0 AND 0xffffffff;
     let c1 = c1 AND 0xffffffff;
     product \<leftarrow> BitVector_new 128 False;
     lo \<leftarrow> baseSize 0 64;
     product \<leftarrow> BitVector_fromInteger_range product lo (push_bit 32 c1 OR c0);
     hi \<leftarrow> baseSize 64 64;
     product \<leftarrow> BitVector_fromInteger_range product hi c2;
     svalueNumber product
   }"

definition Concrete_signedMultiply :: "svalue \<Rightarrow> svalue \<Rightarrow> svalue option" where
  "Concrete_signedMultiply a' b' = do {
     require (sv_width a' \<le> 64);
     require (sv_width b' \<le> 64);
     if sv_width a' = 64 \<and> sv_width b' = 64 then do {
       a \<leftarrow> SValue_toUnsigned a';
       b \<leftarrow> SValue_toUnsigned b';
       long_multiply a b
     } else if sv_width a' + sv_width b' > 64 then None
     else do {
       a \<leftarrow> signed_operand a';
       b \<leftarrow> signed_operand b';
       SValue_number (sv_width a' + sv_width b') (word_of_int (a * b))
     }
   }"

text \<open>The division of a 128-bit by a 64-bit number on a 64-bit host.\<close>

definition wide_numerator :: "svalue \<Rightarrow> 128 word option" where
  "wide_numerator a = do {
     hi \<leftarrow> baseSize 64 64;
     h \<leftarrow> BitVector_toInteger_range (sv_bits a) hi;
     lo \<leftarrow> baseSize 0 64;
     l \<leftarrow> BitVector_toInteger_range (sv_bits a) lo;
     Some (push_bit 64 (ucast h) OR ucast l)
   }"

definition Concrete_unsignedDivide :: "svalue \<Rightarrow> svalue \<Rightarrow> svalue option" where
  "Concrete_unsignedDivide a b =
     (if sv_width a = 128 \<and> sv_width b = 64 then do {
        numerator \<leftarrow> wide_numerator a;
        denominator \<leftarrow> BitVector_toInteger (sv_bits b);
        if 0 = denominator then None
        else do {
          let ratio = numerator div ucast denominator;
          let ratio_lo = ucast ratio;
          let ratio_hi = ucast (drop_bit 64 ratio);
          resultBits \<leftarrow> BitVector_new 128 False;
          lo \<leftarrow> baseSize 0 64;
          resultBits \<leftarrow> BitVector_fromInteger_range resultBits lo ratio_lo;
          hi \<leftarrow> baseSize 64 64;
          resultBits \<leftarrow> BitVector_fromInteger_range resultBits hi ratio_hi;
          svalueNumber resultBits
        }
      } else if sv_width a > 64 \<or> sv_width b > 64 then None
      else do {
        an \<leftarrow> SValue_toUnsigned a;
        bn \<leftarrow> SValue_toUnsigned b;
        if 0 = bn then None else SValue_number (sv_width a) (an div bn)
      })"

definition Concrete_unsignedModulo :: "svalue \<Rightarrow> svalue \<Rightarrow> svalue option" where
  "Concrete_unsignedModulo a b =
     (if sv_width a = 128 \<and> sv_width b = 64 then do {
        numerator \<leftarrow> wide_numerator a;
        denominator \<leftarrow> BitVector_toInteger (sv_bits b);
        if 0 = denominator then None
        else SValue_number 64 (ucast (numerator mod ucast denominator))
      } else if sv_width a > 64 \<or> sv_width b > 64 then None
      else do {
        an \<leftarrow> SValue_toUnsigned a;
        bn \<leftarrow> SValue_toUnsigned b;
        if 0 = bn then None else SValue_number (sv_width b) (an mod bn)
      })"

definition Concrete_unsignedMultiply :: "svalue \<Rightarrow> svalue \<Rightarrow> svalue option" where
  "Concrete_unsignedMultiply a' b' = do {
     require (sv_width a' \<le> 64);
     require (sv_width b' \<le> 64);
     if sv_width a' = 64 \<and> sv_width b' = 64 then do {
       a \<leftarrow> SValue_toUnsigned a';
       b \<leftarrow> SValue_toUnsigned b';
       long_multiply a b
     } else if sv_width a' + sv_width b' > 64 then None
     else do {
       a \<leftarrow> SValue_toUnsigned a';
       b \<leftarrow> SValue_toUnsigned b';
       SValue_number (sv_width a' + sv_width b') (a * b)
     }
   }"

definition concrete_ops :: "svalue risc_ops" where
  "concrete_ops = \<lparr>
     op_nBits = sv_width,
     op_toUnsigned = SValue_toUnsigned,
     op_copy = (\<lambda>a. SValue_copy a 0),
     op_undefined = SValue_undefined,
     op_number = SValue_number,
     op_boolean = SValue_boolean,
     op_and = Concrete_and,
     op_or = Concrete_or,
     op_xor = Concrete_xor,
     op_invert = Concrete_invert,
     op_extract = Concrete_extract,
     op_concat = Concrete_concat,
     op_leastSignificantSetBit = Concrete_leastSignificantSetBit,
     op_mostSignificantSetBit = Concrete_mostSignificantSetBit,
     op_rotateLeft = Concrete_rotateLeft,
     op_rotateRight = Concrete_rotateRight,
     op_shiftLeft = Concrete_shiftLeft,
     op_shiftRight = Concrete_shiftRight,
     op_shiftRightArithmetic = Concrete_shiftRightArithmetic,
     op_equalToZero = Concrete_equalToZero,
     op_ite = Concrete_ite,
     op_unsignedExtend = Concrete_unsignedExtend,
     op_signExtend = Concrete_signExtend,
     op_add = Concrete_add,
     op_addWithCarries = Concrete_addWithCarries,
     op_negate = Concrete_negate,
     op_signedDivide = Concrete_signedDivide,
     op_signedModulo = Concrete_signedModulo,
     op_signedMultiply = Concrete_signedMultiply,
     op_unsignedDivide = Concrete_unsignedDivide,
     op_unsignedModulo = Concrete_unsignedModulo,
     op_unsignedMultiply = Concrete_unsignedMultiply\<rparr>"

section \<open>What the operators compute\<close>

definition sv_is :: "svalue \<Rightarrow> nat \<Rightarrow> nat \<Rightarrow> bool" where
  "sv_is v n x \<longleftrightarrow> sv_width v = n \<and> bv_is (sv_bits v) n x"

lemma sv_isD: "sv_is v n x \<Longrightarrow> sv_width v = n" "sv_is v n x \<Longrightarrow> bv_is (sv_bits v) n x"
  by (simp_all add: sv_is_def)

lemma sv_is_less: "sv_is v n x \<Longrightarrow> x < 2 ^ n"
  by (auto simp: sv_is_def dest: bv_is_less)

lemma yields_succeeds: "yields r n x \<longleftrightarrow> succeeds r (\<lambda>v. bv_is v n x)"
  by (simp add: yields_def succeeds_def)

lemma SValue_number_is: "succeeds (SValue_number n k) (\<lambda>r. sv_is r n (unat k mod 2 ^ n))"
  unfolding SValue_number_def
proof (rule succeeds_bind [OF BitVector_new_is [unfolded yields_succeeds]])
  fix b assume "bv_is b n 0"
  from BitVector_fromInteger_is [OF this, of k]
  show "succeeds (do { bits \<leftarrow> BitVector_fromInteger b k; Some \<lparr>sv_width = n, sv_bits = bits\<rparr> }) (\<lambda>r. sv_is r n (unat k mod 2 ^ n))"
    unfolding yields_succeeds by (rule succeeds_bind) (simp add: sv_is_def)
qed

lemma svalueNumber_is: "bv_is b n x \<Longrightarrow> succeeds (svalueNumber b) (\<lambda>r. sv_is r n x)"
  unfolding svalueNumber_def
  by (rule succeeds_bind [OF SValue_number_is]) (auto simp: SValue_bits_def sv_is_def bv_is_def)

lemma yields_number: "yields r n x \<Longrightarrow> succeeds (Option.bind r svalueNumber) (\<lambda>r. sv_is r n x)"
  unfolding yields_succeeds by (erule succeeds_bind) (rule svalueNumber_is)

lemma SValue_boolean_is: "succeeds (SValue_boolean b) (\<lambda>r. sv_is r 1 (of_bool b))"
  using SValue_number_is [of 1 "if b then 1 else 0"] by (cases b) (simp_all add: SValue_boolean_def)

lemma SValue_instance_is: "succeeds (SValue_instance n) (\<lambda>r. sv_is r n 0)"
  unfolding SValue_instance_def
  by (rule succeeds_bind [OF BitVector_new_is [unfolded yields_succeeds]]) (simp add: sv_is_def)

lemma SValue_toUnsigned_is: "sv_is v n x \<Longrightarrow> n \<le> 64 \<Longrightarrow> SValue_toUnsigned v = Some (of_nat x)"
  by (auto simp: SValue_toUnsigned_def SValue_get_number_def sv_is_def intro: BitVector_toInteger_is)

lemma unat_value: "sv_is v n x \<Longrightarrow> n \<le> 64 \<Longrightarrow> unat (of_nat x :: 64 word) = x"
  using sv_is_less [of v n x] power_increasing [of n 64 "2 :: nat"] by (simp add: unat_of_nat)

lemma Concrete_logic_is:
  assumes a: "sv_is a n x" and b: "sv_is b n y"
  shows "succeeds (Concrete_and a b) (\<lambda>r. sv_is r n (x AND y))"
    "succeeds (Concrete_or a b) (\<lambda>r. sv_is r n (x OR y))"
    "succeeds (Concrete_xor a b) (\<lambda>r. sv_is r n (x XOR y))"
    "succeeds (Concrete_invert a) (\<lambda>r. sv_is r n (2 ^ n - 1 - x))"
proof -
  note ab = sv_isD(2) [OF a] sv_isD(2) [OF b]
  show "succeeds (Concrete_and a b) (\<lambda>r. sv_is r n (x AND y))"
    unfolding Concrete_and_def by (rule yields_number [OF BitVector_logic_is(1) [OF ab]])
  show "succeeds (Concrete_or a b) (\<lambda>r. sv_is r n (x OR y))"
    unfolding Concrete_or_def by (rule yields_number [OF BitVector_logic_is(2) [OF ab]])
  show "succeeds (Concrete_xor a b) (\<lambda>r. sv_is r n (x XOR y))"
    unfolding Concrete_xor_def by (rule yields_number [OF BitVector_logic_is(3) [OF ab]])
  show "succeeds (Concrete_invert a) (\<lambda>r. sv_is r n (2 ^ n - 1 - x))"
    unfolding Concrete_invert_def by (rule yields_number [OF BitVector_invert_is [OF ab(1)]])
qed

lemma Concrete_extract_is:
  assumes a: "sv_is a n x" and ij: "i < j" "j \<le> n"
  shows "succeeds (Concrete_extract a i j) (\<lambda>r. sv_is r (j - i) (x div 2 ^ i mod 2 ^ (j - i)))"
proof -
  have k: "0 < j - i" "0 + (j - i) = j - i" "i + (j - i) \<le> n" using ij by simp_all
  have h: "hull i (j - 1) = range_of i (j - i)" using ij by (subst hull_nat) auto
  show ?thesis
    unfolding Concrete_extract_def sv_isD(1) [OF a] h
  proof (rule succeeds_require [OF ij(2)], rule succeeds_require [OF ij(1)],
      rule succeeds_bind [OF BitVector_new_is [unfolded yields_succeeds]])
    fix v assume v: "bv_is v (j - i) 0"
    show "succeeds (BitVector_copy v (BitVector_hull v) (sv_bits a) (range_of i (j - i)) \<bind> svalueNumber)
        (\<lambda>r. sv_is r (j - i) (x div 2 ^ i mod 2 ^ (j - i)))"
      using yields_number [OF BitVector_copy_is [OF v sv_isD(2) [OF a] k(2,3,1)]] by (simp add: bv_is_unfold(2) [OF v])
  qed
qed

lemma Concrete_concat_is:
  assumes a: "sv_is a n x" and b: "sv_is b m y" and m: "0 < m"
  shows "succeeds (Concrete_concat a b) (\<lambda>r. sv_is r (n + m) (x + 2 ^ n * y))"
proof -
  have xy: "x mod 2 ^ (n + m) = x" "x mod 2 ^ n = x" "y mod 2 ^ m = y"
    using sv_is_less [OF a] sv_is_less [OF b] by (simp_all add: power_add trans_less_add1 mod_mult2_eq)
  show ?thesis
    unfolding Concrete_concat_def sv_isD(1) [OF a] sv_isD(1) [OF b] Let_def baseSize_nat Option.bind.bind_lunit
  proof (rule succeeds_bind [OF BitVector_resize_is [OF sv_isD(2) [OF a], unfolded yields_succeeds]])
    fix v assume "bv_is v (n + m) (x mod 2 ^ (n + m) + (if False then 2 ^ (n + m) - 2 ^ min n (n + m) else 0))"
    then have v: "bv_is v (n + m) x" by (simp add: xy)
    show "succeeds (BitVector_copy v (range_of n m) (sv_bits b) (range_of 0 m) \<bind> svalueNumber) (\<lambda>r. sv_is r (n + m) (x + 2 ^ n * y))"
      using yields_number [OF BitVector_copy_is [OF v sv_isD(2) [OF b] refl _ m]] xy by simp
  qed
qed

lemma Concrete_search_is:
  assumes a: "sv_is a n x" and n: "n < 2 ^ 64"
  shows "succeeds (Concrete_leastSignificantSetBit a) (\<lambda>r. sv_is r n (case find (bit x) [0..<n] of None \<Rightarrow> 0 | Some i \<Rightarrow> i))"
    "succeeds (Concrete_mostSignificantSetBit a) (\<lambda>r. sv_is r n (case find (bit x) (rev [0..<n]) of None \<Rightarrow> 0 | Some i \<Rightarrow> i))"
proof -
  have u: "unat (of_nat i :: 64 word) mod 2 ^ n = i" if "i < n" for i
  proof -
    have "i < 2 ^ n" using that by (meson less_exp less_trans)
    with that n show ?thesis by (simp add: unat_of_nat)
  qed
  have i: "find (bit x) [0..<n] = Some i \<Longrightarrow> i < n" "find (bit x) (rev [0..<n]) = Some i \<Longrightarrow> i < n" for i
    by (auto simp: find_Some_iff rev_nth)
  note s = BitVector_search_is [OF sv_isD(2) [OF a]]
  show "succeeds (Concrete_leastSignificantSetBit a) (\<lambda>r. sv_is r n (case find (bit x) [0..<n] of None \<Rightarrow> 0 | Some i \<Rightarrow> i))"
    unfolding Concrete_leastSignificantSetBit_def s sv_isD(1) [OF a] Let_def Option.bind.bind_lunit
    by (rule succeeds_mono [OF SValue_number_is]) (auto simp: u i split: option.splits)
  show "succeeds (Concrete_mostSignificantSetBit a) (\<lambda>r. sv_is r n (case find (bit x) (rev [0..<n]) of None \<Rightarrow> 0 | Some i \<Rightarrow> i))"
    unfolding Concrete_mostSignificantSetBit_def s sv_isD(1) [OF a] Let_def Option.bind.bind_lunit
    by (rule succeeds_mono [OF SValue_number_is]) (auto simp: u i split: option.splits)
qed

lemma Concrete_shift_is:
  assumes a: "sv_is a n x" and s: "sv_is s m k" and m: "m \<le> 64"
  shows "succeeds (Concrete_rotateLeft a s) (\<lambda>r. sv_is r n (bval (\<lambda>i. bit x ((i + (n - k mod n)) mod n)) n))"
    "succeeds (Concrete_rotateRight a s) (\<lambda>r. sv_is r n (bval (\<lambda>i. bit x ((i + k) mod n)) n))"
    "succeeds (Concrete_shiftLeft a s) (\<lambda>r. sv_is r n (x * 2 ^ k mod 2 ^ n))"
    "succeeds (Concrete_shiftRight a s) (\<lambda>r. sv_is r n (x div 2 ^ k))"
    "succeeds (Concrete_shiftRightArithmetic a s) (\<lambda>r. sv_is r n (nat ((signed_of n x div 2 ^ k) mod 2 ^ n)))"
  unfolding Concrete_rotateLeft_def Concrete_rotateRight_def Concrete_shiftLeft_def Concrete_shiftRight_def
    Concrete_shiftRightArithmetic_def SValue_toUnsigned_is [OF s m] Option.bind.bind_lunit unat_value [OF s m]
  using yields_number [OF BitVector_rotate_is(1) [OF sv_isD(2) [OF a]]] yields_number [OF BitVector_rotate_is(2) [OF sv_isD(2) [OF a]]]
    yields_number [OF BitVector_shift_is(1) [OF sv_isD(2) [OF a]]] yields_number [OF BitVector_shift_is(2) [OF sv_isD(2) [OF a]]]
    yields_number [OF BitVector_shiftRightArithmetic_is [OF sv_isD(2) [OF a]]]
  by blast+

lemma Concrete_equalToZero_is:
  assumes "sv_is a n x"
  shows "succeeds (Concrete_equalToZero a) (\<lambda>r. sv_is r 1 (of_bool (x = 0)))"
  using SValue_boolean_is BitVector_observe_is(1) [OF sv_isD(2) [OF assms] sv_isD(2) [OF assms]]
  by (simp add: Concrete_equalToZero_def)

lemma Concrete_ite_is:
  assumes c: "sv_is c 1 z" and a: "sv_is a n x" and b: "sv_is b m y"
  shows "succeeds (Concrete_ite c a b) (\<lambda>r. sv_is r (if z = 1 then n else m) (if z = 1 then x else y))"
proof -
  have "z = 0 \<or> z = 1" using sv_is_less [OF c] by auto
  then show ?thesis
    using a b c SValue_toUnsigned_is [OF c]
    by (auto simp: Concrete_ite_def Concrete_iteWithStatus_def SValue_copy_def sv_isD(1) [OF c])
qed

lemma Concrete_extend_is:
  assumes a: "sv_is a n x"
  shows "succeeds (Concrete_unsignedExtend a m) (\<lambda>r. sv_is r m (x mod 2 ^ m))"
    "succeeds (Concrete_signExtend a m) (\<lambda>r. sv_is r m (nat (signed_of n x mod 2 ^ m)))"
proof -
  show "succeeds (Concrete_unsignedExtend a m) (\<lambda>r. sv_is r m (x mod 2 ^ m))"
    using yields_number [OF BitVector_resize_is [OF sv_isD(2) [OF a], of m False]] by (simp add: Concrete_unsignedExtend_def)
  show "succeeds (Concrete_signExtend a m) (\<lambda>r. sv_is r m (nat (signed_of n x mod 2 ^ m)))"
    unfolding Concrete_signExtend_def
    by (rule succeeds_bind [OF BitVector_new_is [unfolded yields_succeeds]],
      erule yields_number [OF BitVector_signExtend_is [OF _ sv_isD(2) [OF a]]])
qed

lemma BitVector_add_snd:
  assumes "bv_is v n x" "bv_is w n y"
  shows "succeeds (BitVector_add v w) (\<lambda>r. bv_is (snd r) n ((x + y) mod 2 ^ n))"
  using BitVector_add_is [OF assms] by (auto simp: succeeds_def)

lemma Concrete_add_is:
  assumes a: "sv_is a n x" and b: "sv_is b n y"
  shows "succeeds (Concrete_add a b) (\<lambda>r. sv_is r n ((x + y) mod 2 ^ n))"
  unfolding Concrete_add_def case_prod_unfold
  by (rule succeeds_bind [OF BitVector_add_snd [OF sv_isD(2) [OF a] sv_isD(2) [OF b]]], erule svalueNumber_is)

lemma Concrete_negate_is:
  assumes a: "sv_is a n x"
  shows "succeeds (Concrete_negate a) (\<lambda>r. sv_is r n ((2 ^ n - x) mod 2 ^ n))"
  unfolding Concrete_negate_def by (rule yields_number [OF BitVector_negate_is [OF sv_isD(2) [OF a]]])

lemma resize_is: "bv_is v n x \<Longrightarrow> succeeds (BitVector_resize v m False) (\<lambda>r. bv_is r m (x mod 2 ^ m))"
  using BitVector_resize_is [of v n x m False] by (simp add: yields_succeeds)

lemma Concrete_addWithCarries_is:
  assumes a: "sv_is a n x" and b: "sv_is b n y" and c: "sv_is c 1 z"
  shows "succeeds (Concrete_addWithCarries a b c)
    (\<lambda>(sum, cs). sv_is sum n ((x + y + z) mod 2 ^ n) \<and> sv_is cs n (carries_of x y z mod 2 ^ n))"
proof -
  have less: "x < 2 ^ n" "y < 2 ^ n" "z < 2" using sv_is_less [OF a] sv_is_less [OF b] sv_is_less [OF c] by simp_all
  have z: "z mod 2 ^ (n + 1) = z" using less(3) by (cases "z = 0") (auto simp: less_2_cases_iff)
  have xy: "x mod 2 ^ (n + 1) = x" "y mod 2 ^ (n + 1) = y" using less by simp_all
  have s: "((x + y) mod 2 ^ (n + 1) + z) mod 2 ^ (n + 1) = x + y + z" using less by simp
  note ops = BitVector_logic_is(3) [unfolded yields_succeeds] BitVector_shift_is(2) [unfolded yields_succeeds]
  show ?thesis
    unfolding Concrete_addWithCarries_def case_prod_unfold sv_isD(1) [OF a] Let_def
  proof (rule succeeds_bind [OF resize_is [OF sv_isD(2) [OF a]]], rule succeeds_bind [OF resize_is [OF sv_isD(2) [OF b]]],
      rule succeeds_bind [OF resize_is [OF sv_isD(2) [OF c]]], unfold xy z,
      rule succeeds_bind [OF BitVector_add_snd], assumption, assumption,
      rule succeeds_bind [OF BitVector_add_snd], assumption, assumption, unfold s,
      rule succeeds_bind [OF ops(1)], assumption, assumption, rule succeeds_bind [OF ops(1)], assumption, assumption,
      rule succeeds_bind [OF ops(2)], assumption, rule succeeds_bind [OF resize_is], assumption,
      rule succeeds_bind [OF svalueNumber_is], assumption, rule succeeds_bind [OF resize_is], assumption,
      rule succeeds_bind [OF svalueNumber_is], assumption)
  qed (simp add: carries_of_def xor.assoc)
qed

subsection \<open>Division and multiplication\<close>

lemma genMask_eq: "n \<le> 64 \<Longrightarrow> genMask n = mask n"
  by (cases "n = 64") (simp_all add: genMask_def shl1_def mask_eq_exp_minus_1 push_bit_eq_mult)

lemma signExtend2_eq:
  fixes x :: nat
  assumes x: "x < 2 ^ n" and n: "0 < n" "n \<le> 64"
  shows "signExtend2 (of_nat x) n 64 = Some (word_of_int (signed_of n x))"
proof -
  have n64: "\<not> 64 \<le> n - 1" "n - 1 < 64" using n by simp_all
  have sb: "signBit2 (of_nat x) n = Some (bit x (n - 1))"
    using n n64 by (simp add: signBit2_def shl1_def push_bit_eq_mult) (simp add: bit_simps and_exp_eq_0_iff_not_bit)
  have m: "genMask 64 XOR genMask n = - (2 ^ n :: 64 word)"
  proof -
    have "genMask 64 XOR genMask n = NOT (mask n)"
      unfolding genMask_eq [OF n(2)] genMask_eq [OF order_refl] by (rule bit_word_eqI) (auto simp: bit_simps)
    then show ?thesis by (simp add: minus_exp_eq_not_mask)
  qed
  have "(of_nat x :: 64 word) AND - (2 ^ n) = 0"
  proof (rule bit_word_eqI)
    fix i assume "i < LENGTH(64)"
    have "\<not> bit x i" if "n \<le> i" using x that by (metis bit_take_bit_iff not_le take_bit_nat_eq_self)
    moreover have "\<not> bit (- (2 ^ n) :: 64 word) i" if "i < n"
      using that by (simp add: minus_exp_eq_not_mask bit_simps)
    ultimately show "bit ((of_nat x :: 64 word) AND - (2 ^ n)) i = bit (0 :: 64 word) i"
      by (cases "n \<le> i") (auto simp: bit_simps)
  qed
  then have "(of_nat x OR - (2 ^ n) :: 64 word) = word_of_int (int x - 2 ^ n)"
    by (simp add: disjunctive_add_eq_or [symmetric])
  then show ?thesis
    using n by (simp add: signExtend2_def sb m signed_of_def)
qed

lemma signed_operand_is:
  assumes a: "sv_is a n x" and n: "0 < n" "n \<le> 64"
  shows "signed_operand a = Some (signed_of n x)"
proof -
  have "- (2 ^ 63) \<le> signed_of n x" "signed_of n x < 2 ^ 63"
    using signed_of_range [OF sv_is_less [OF a] n(1)] power_increasing [of "n - 1" 63 "2 :: int"] n by linarith+
  then have "signed_take_bit 63 (signed_of n x) = signed_of n x" by (intro signed_take_bit_int_eq_self) simp_all
  then show ?thesis
    using signExtend2_eq [OF sv_is_less [OF a] n] n(2)
    by (simp add: signed_operand_def SValue_toUnsigned_is [OF a n(2)] sv_isD(1) [OF a] signed_of_int)
qed

lemma number_of_int:
  assumes "n \<le> 64"
  shows "succeeds (SValue_number n (word_of_int k)) (\<lambda>r. sv_is r n (nat (k mod 2 ^ n)))"
proof -
  have "(2 :: int) ^ n dvd 2 ^ 64" using assms by (rule le_imp_power_dvd)
  then have "int (unat (word_of_int k :: 64 word) mod 2 ^ n) = k mod 2 ^ n"
    by (simp add: of_nat_mod unsigned_of_int take_bit_eq_mod mod_mod_cancel)
  then have "unat (word_of_int k :: 64 word) mod 2 ^ n = nat (k mod 2 ^ n)" by (metis nat_int)
  then show ?thesis using SValue_number_is [of n "word_of_int k"] by simp
qed

lemma signed_of_eq_0:
  assumes "x < 2 ^ n"
  shows "signed_of n x = 0 \<longleftrightarrow> x = 0"
proof -
  have "int x < 2 ^ n" using assms by (simp add: of_nat_less_power_iff)
  then show ?thesis by (cases "x = 0") (simp_all add: signed_of_def)
qed

lemma Concrete_signed_division_is:
  assumes a: "sv_is a n x" and b: "sv_is b m y" and n: "0 < n" "n \<le> 64" and m: "0 < m" "m \<le> 64" and y: "y \<noteq> 0"
    and d: "\<not> (signed_of n x = - (2 ^ 63) \<and> signed_of m y = - 1)"
  shows "succeeds (Concrete_signedDivide a b) (\<lambda>r. sv_is r n (nat ((signed_of n x sdiv signed_of m y) mod 2 ^ n)))"
    "succeeds (Concrete_signedModulo a b) (\<lambda>r. sv_is r m (nat ((signed_of n x smod signed_of m y) mod 2 ^ m)))"
proof -
  have d: "division_defined (signed_of n x) (signed_of m y) = Some ()" using d by (simp add: division_defined_def)
  have y: "signed_of m y \<noteq> 0" using y signed_of_eq_0 [OF sv_is_less [OF b]] by simp
  have le: "\<not> 64 < n" "\<not> 64 < m" using n m by simp_all
  show "succeeds (Concrete_signedDivide a b) (\<lambda>r. sv_is r n (nat ((signed_of n x sdiv signed_of m y) mod 2 ^ n)))"
    "succeeds (Concrete_signedModulo a b) (\<lambda>r. sv_is r m (nat ((signed_of n x smod signed_of m y) mod 2 ^ m)))"
    unfolding Concrete_signedDivide_def Concrete_signedModulo_def sv_isD(1) [OF a] sv_isD(1) [OF b]
      signed_operand_is [OF a n] signed_operand_is [OF b m]
    using number_of_int [OF n(2)] number_of_int [OF m(2)] y le by (simp_all add: d)
qed

lemma narrow_dividend:
  assumes "sv_is a n x" "0 < n" "n < 64"
  shows "signed_of n x \<noteq> - (2 ^ 63)"
  using signed_of_range(1) [OF sv_is_less [OF assms(1)] assms(2)] power_strict_increasing [of "n - 1" 63 "2 :: int"] assms(2,3)
  by linarith

lemma Concrete_signed_overflow:
  assumes a: "sv_is a n x" and b: "sv_is b m y" and n: "0 < n" "n \<le> 64" and m: "0 < m" "m \<le> 64"
    and "signed_of n x = - (2 ^ 63)" "signed_of m y = - 1"
  shows "Concrete_signedDivide a b = None" "Concrete_signedModulo a b = None"
  unfolding Concrete_signedDivide_def Concrete_signedModulo_def signed_operand_is [OF a n] signed_operand_is [OF b m]
  using assms(7,8) by (simp_all add: division_defined_def)

lemma wide_operands:
  assumes a: "sv_is a n x" and b: "sv_is b m y" and w: "64 < n \<or> 64 < m"
  shows "Concrete_signedDivide a b = None \<and> Concrete_signedModulo a b = None \<and>
    (\<not> (n = 128 \<and> m = 64) \<longrightarrow> Concrete_unsignedDivide a b = None \<and> Concrete_unsignedModulo a b = None)"
  using w by (auto simp: Concrete_signedDivide_def Concrete_signedModulo_def Concrete_unsignedDivide_def Concrete_unsignedModulo_def
      sv_isD(1) [OF a] sv_isD(1) [OF b])

lemma Concrete_signedMultiply_is:
  assumes a: "sv_is a n x" and b: "sv_is b m y" and n: "0 < n" "0 < m" "n + m \<le> 64"
  shows "succeeds (Concrete_signedMultiply a b)
    (\<lambda>r. sv_is r (n + m) (nat ((signed_of n x * signed_of m y) mod 2 ^ (n + m))))"
proof -
  have le: "n \<le> 64" "m \<le> 64" "n \<noteq> 64" "\<not> 64 < n + m" using n by simp_all
  show ?thesis
    unfolding Concrete_signedMultiply_def sv_isD(1) [OF a] sv_isD(1) [OF b]
      signed_operand_is [OF a n(1) le(1)] signed_operand_is [OF b n(2) le(2)]
    using number_of_int [OF n(3), of "signed_of n x * signed_of m y"] le by simp
qed

lemma number_of_nat:
  assumes "k < 2 ^ n" "k < 2 ^ 64"
  shows "succeeds (SValue_number n (of_nat k)) (\<lambda>r. sv_is r n k)"
  using SValue_number_is [of n "of_nat k"] assms by (simp add: unat_of_nat)

lemma Concrete_unsigned_is:
  assumes a: "sv_is a n x" and b: "sv_is b m y" and le: "n \<le> 64" "m \<le> 64"
  shows "y \<noteq> 0 \<Longrightarrow> succeeds (Concrete_unsignedDivide a b) (\<lambda>r. sv_is r n (x div y))"
    "y \<noteq> 0 \<Longrightarrow> succeeds (Concrete_unsignedModulo a b) (\<lambda>r. sv_is r m (x mod y))"
    "n + m \<le> 64 \<Longrightarrow> succeeds (Concrete_unsignedMultiply a b) (\<lambda>r. sv_is r (n + m) (x * y))"
proof -
  note u = unat_value [OF a le(1)] unat_value [OF b le(2)]
  have less: "x < 2 ^ n" "y < 2 ^ m" using sv_is_less [OF a] sv_is_less [OF b] by simp_all
  have p: "(2 :: nat) ^ n \<le> 2 ^ 64" "(2 :: nat) ^ m \<le> 2 ^ 64" using le by (simp_all only: power_increasing one_le_numeral)
  have x64: "x < 2 ^ 64" "y < 2 ^ 64" using less p by linarith+
  have div: "(of_nat x div of_nat y :: 64 word) = of_nat (x div y)" "(of_nat x mod of_nat y :: 64 word) = of_nat (x mod y)"
    using u x64 by (simp_all add: word_arith_nat_div word_arith_nat_mod)
  have nz: "y \<noteq> 0 \<Longrightarrow> (of_nat y :: 64 word) \<noteq> 0" using u(2) by (metis unat_0)
  have q: "x div y < 2 ^ n" "x div y < 2 ^ 64" using less x64 by (meson div_le_dividend le_less_trans)+
  show "y \<noteq> 0 \<Longrightarrow> succeeds (Concrete_unsignedDivide a b) (\<lambda>r. sv_is r n (x div y))"
    using number_of_nat [OF q] nz le
    by (simp add: Concrete_unsignedDivide_def sv_isD(1) [OF a] sv_isD(1) [OF b] SValue_toUnsigned_is [OF a]
        SValue_toUnsigned_is [OF b] div)
  show "y \<noteq> 0 \<Longrightarrow> succeeds (Concrete_unsignedModulo a b) (\<lambda>r. sv_is r m (x mod y))"
  proof -
    assume y: "y \<noteq> 0"
    then have "x mod y < y" by simp
    then have "x mod y < 2 ^ m" "x mod y < 2 ^ 64" using less x64 by linarith+
    from number_of_nat [OF this] nz [OF y] le show ?thesis
      by (simp add: Concrete_unsignedModulo_def sv_isD(1) [OF a] sv_isD(1) [OF b] SValue_toUnsigned_is [OF a]
          SValue_toUnsigned_is [OF b] div)
  qed
  show "n + m \<le> 64 \<Longrightarrow> succeeds (Concrete_unsignedMultiply a b) (\<lambda>r. sv_is r (n + m) (x * y))"
  proof -
    assume nm: "n + m \<le> 64"
    have xy: "x * y < 2 ^ (n + m)" using less by (cases "y = 0") (simp_all add: power_add mult_strict_mono)
    moreover have "(2 :: nat) ^ (n + m) \<le> 2 ^ 64" using nm by (simp only: power_increasing one_le_numeral)
    ultimately have "x * y < 2 ^ 64" by linarith
    moreover have "(n = 64 \<and> m = 64) = False" using nm by auto
    ultimately show ?thesis
      using number_of_nat [OF xy] nm le unfolding Concrete_unsignedMultiply_def sv_isD(1) [OF a] sv_isD(1) [OF b]
      by (simp only: SValue_toUnsigned_is [OF a] SValue_toUnsigned_is [OF b] if_False) simp
  qed
qed

text \<open>A 128-bit vector written as two 64-bit halves.\<close>

lemma fromInteger_range_is:
  assumes v: "bv_is v n x" and le: "b + k \<le> n"
  shows "yields (BitVector_fromInteger_range v (range_of b k) w) n
    (bval (\<lambda>i. if b \<le> i \<and> i < b + k then bit w (i - b) else bit x i) n)"
proof -
  note vu = bv_is_unfold [OF v]
  have fits: "b + k \<le> length (bv_words v) * LENGTH(32)" using vu(1) le by simp
  define ws where "ws = vupd (bv_words v) b k (bit w)"
  have "vval ws 0 n = bval (\<lambda>i. if b \<le> i \<and> i < b + k then bit w (i - b) else bit x i) n"
    unfolding vval_def by (rule bval_cong) (use fits vu(4) in \<open>auto simp: ws_def vbit_vupd\<close>)
  then show ?thesis
    using fits v le
    by (auto simp: BitVector_fromInteger_range_def yields_def on_words_def ws_def bv_is_def bv_ok_def bv_val_def)
qed

lemma two_halves:
  "succeeds (do {
      v \<leftarrow> BitVector_new 128 False;
      v \<leftarrow> BitVector_fromInteger_range v (range_of 0 64) lo;
      v \<leftarrow> BitVector_fromInteger_range v (range_of 64 64) hi;
      svalueNumber v
    }) (\<lambda>r. sv_is r 128 (unat lo + 2 ^ 64 * unat hi))"
proof (rule succeeds_bind [OF BitVector_new_is [unfolded yields_succeeds]],
    rule succeeds_bind [OF fromInteger_range_is [unfolded yields_succeeds]], assumption, simp,
    rule succeeds_bind [OF fromInteger_range_is [unfolded yields_succeeds]], assumption, simp)
  let ?y = "bval (\<lambda>i. if 64 \<le> i \<and> i < 64 + 64 then bit hi (i - 64)
    else bit (bval (\<lambda>i. if 0 \<le> i \<and> i < 0 + 64 then bit lo (i - 0) else bit (0 :: nat) i) 128) i) 128"
  have "unat lo AND push_bit 64 (unat hi) = 0"
    by (rule bit_eqI) (auto simp: bit_simps dest: bit_imp_le_length)
  then have "unat lo + 2 ^ 64 * unat hi = unat lo OR push_bit 64 (unat hi)"
    by (simp add: disjunctive_add_eq_or [symmetric] push_bit_eq_mult mult.commute)
  also have "\<dots> = ?y"
    by (rule bit_eqI) (auto simp: bit_simps dest: bit_imp_le_length)
  finally have y: "unat lo + 2 ^ 64 * unat hi = ?y" .
  fix v assume "bv_is v 128 ?y"
  then show "succeeds (svalueNumber v) (\<lambda>r. sv_is r 128 (unat lo + 2 ^ 64 * unat hi))"
    unfolding y by (rule svalueNumber_is)
qed

text \<open>
  The middle column of the long multiplication. The code keeps it in 64 bits, and a carry out of
  it is lost.
\<close>

definition middle_column :: "nat \<Rightarrow> nat \<Rightarrow> nat" where
  "middle_column x y = (x mod 2 ^ 32) * (y div 2 ^ 32) + (x div 2 ^ 32) * (y mod 2 ^ 32) +
     ((x mod 2 ^ 32) * (y mod 2 ^ 32)) div 2 ^ 32"

lemma long_multiply_is:
  assumes x: "x < 2 ^ 64" and y: "y < 2 ^ 64"
  shows "succeeds (long_multiply (of_nat x) (of_nat y))
    (\<lambda>r. sv_is r 128 (x * y - (if 2 ^ 64 \<le> middle_column x y then 2 ^ 96 else 0)))"
proof -
  define X0 X1 Y0 Y1 where d: "X0 = x mod 2 ^ 32" "X1 = x div 2 ^ 32" "Y0 = y mod 2 ^ 32" "Y1 = y div 2 ^ 32"
  define C1 where "C1 = X0 * Y1 + X1 * Y0 + (X0 * Y0) div 2 ^ 32"
  have C1: "middle_column x y = C1" by (simp add: middle_column_def C1_def d)
  have b: "X0 \<le> 2 ^ 32 - 1" "X1 \<le> 2 ^ 32 - 1" "Y0 \<le> 2 ^ 32 - 1" "Y1 \<le> 2 ^ 32 - 1"
    using x y by (simp_all add: d)
  have m: "X0 * Y0 \<le> (2 ^ 32 - 1) * (2 ^ 32 - 1)" "X0 * Y1 \<le> (2 ^ 32 - 1) * (2 ^ 32 - 1)"
    "X1 * Y0 \<le> (2 ^ 32 - 1) * (2 ^ 32 - 1)" "X1 * Y1 \<le> (2 ^ 32 - 1) * (2 ^ 32 - 1)"
    using b by (meson mult_le_mono)+
  have lowmask: "unat (w AND 0xffffffff) = unat w mod 2 ^ 32" for w :: "64 word"
  proof -
    have "w AND 0xffffffff = take_bit 32 w" by (simp add: take_bit_eq_mask mask_eq_exp_minus_1)
    then show ?thesis by (simp only: unsigned_take_bit_eq) (simp only: take_bit_eq_mod)
  qed
  have high: "unat (drop_bit 32 w) = unat w div 2 ^ 32" for w :: "64 word"
    by (simp add: drop_bit_eq_div unat_div)
  have xy: "unat (of_nat x :: 64 word) = x" "unat (of_nat y :: 64 word) = y" using x y by (simp_all add: unat_of_nat)
  define a0 a1 b0 b1 :: "64 word" where w: "a0 = of_nat x AND 0xffffffff" "a1 = drop_bit 32 (of_nat x)"
    "b0 = of_nat y AND 0xffffffff" "b1 = drop_bit 32 (of_nat y)"
  have u: "unat a0 = X0" "unat a1 = X1" "unat b0 = Y0" "unat b1 = Y1"
    by (simp_all only: w lowmask high xy d)
  define c0 c1 c2 where c: "c0 = a0 * b0" "c1 = a0 * b1 + a1 * b0 + drop_bit 32 c0" "c2 = a1 * b1 + drop_bit 32 c1"
  have c0: "unat c0 = X0 * Y0" using m(1) by (simp add: c u unat_word_ariths)
  have c1: "unat c1 = C1 mod 2 ^ 64"
    by (simp add: c(2) unat_word_ariths high c0 u C1_def mod_simps)
  have c2: "unat c2 = X1 * Y1 + unat c1 div 2 ^ 32"
  proof -
    have "unat c1 div 2 ^ 32 < 2 ^ 32" unfolding c1 by simp
    with m(4) show ?thesis by (simp add: c(3) unat_word_ariths high u)
  qed
  define lo where "lo = push_bit 32 (c1 AND 0xffffffff) OR (c0 AND 0xffffffff)"
  have lo: "unat lo = unat c0 mod 2 ^ 32 + 2 ^ 32 * (unat c1 mod 2 ^ 32)"
  proof -
    have m32: "(0xffffffff :: 64 word) = mask 32" by (simp add: mask_eq_exp_minus_1)
    have "push_bit 32 (c1 AND 0xffffffff) AND (c0 AND 0xffffffff) = 0"
      unfolding m32 by (rule bit_word_eqI) (auto simp: bit_simps)
    then have "lo = push_bit 32 (c1 AND 0xffffffff) + (c0 AND 0xffffffff)"
      unfolding lo_def by (rule disjunctive_add_eq_or [symmetric])
    then have "unat lo = (unat (c1 AND 0xffffffff) * 2 ^ 32 mod 2 ^ 64 + unat (c0 AND 0xffffffff)) mod 2 ^ 64"
      by (simp add: push_bit_eq_mult unat_word_ariths)
    then have "unat lo = ((unat c1 mod 2 ^ 32) * 2 ^ 32 mod 2 ^ 64 + unat c0 mod 2 ^ 32) mod 2 ^ 64"
      by (simp only: lowmask)
    moreover have "unat c1 mod 2 ^ 32 < 2 ^ 32" "unat c0 mod 2 ^ 32 < 2 ^ 32" by simp_all
    ultimately show ?thesis by simp
  qed
  have total: "unat lo + 2 ^ 64 * unat c2 = x * y - (if 2 ^ 64 \<le> C1 then 2 ^ 96 else 0)"
  proof -
    define p where "p = (X0 * Y0) mod 2 ^ 32"
    have "x = X0 + 2 ^ 32 * X1" "y = Y0 + 2 ^ 32 * Y1" by (simp_all add: d)
    then have "x * y = X0 * Y0 + 2 ^ 32 * (X0 * Y1 + X1 * Y0) + 2 ^ 64 * (X1 * Y1)" by (simp add: algebra_simps)
    moreover have "X0 * Y0 = p + 2 ^ 32 * ((X0 * Y0) div 2 ^ 32)" by (simp add: p_def)
    ultimately have prod: "x * y = p + 2 ^ 32 * C1 + 2 ^ 64 * (X1 * Y1)" by (simp add: C1_def algebra_simps)
    define q r where qr: "q = unat c1 div 2 ^ 32" "r = unat c1 mod 2 ^ 32"
    have c1qr: "unat c1 = 2 ^ 32 * q + r" by (simp add: qr)
    have "unat lo + 2 ^ 64 * unat c2 = p + 2 ^ 32 * (2 ^ 32 * q + r) + 2 ^ 64 * (X1 * Y1)"
      unfolding lo c2 c0 p_def [symmetric] qr [symmetric] by (simp add: algebra_simps)
    then have "unat lo + 2 ^ 64 * unat c2 = p + 2 ^ 32 * unat c1 + 2 ^ 64 * (X1 * Y1)" by (simp only: c1qr)
    moreover have "C1 < 2 * 2 ^ 64" using m(1-3) by (simp add: C1_def)
    then have "C1 mod 2 ^ 64 = (if 2 ^ 64 \<le> C1 then C1 - 2 ^ 64 else C1)" by (auto simp: le_mod_geq)
    then have "C1 = unat c1 + (if 2 ^ 64 \<le> C1 then 2 ^ 64 else 0)" unfolding c1 by auto
    ultimately show ?thesis unfolding prod by (cases "2 ^ 64 \<le> C1") simp_all
  qed
  have "long_multiply (of_nat x) (of_nat y) = do {
      v \<leftarrow> BitVector_new 128 False;
      v \<leftarrow> BitVector_fromInteger_range v (range_of 0 64) lo;
      v \<leftarrow> BitVector_fromInteger_range v (range_of 64 64) c2;
      svalueNumber v }"
    by (simp add: long_multiply_def Let_def lo_def c w)
  then show ?thesis using two_halves [of lo c2] total C1 by simp
qed

section \<open>The operators keep the laws\<close>

lemma SValue_copy_is: "sv_is v n x \<Longrightarrow> succeeds (SValue_copy v 0) (\<lambda>r. sv_is r n x)"
  by (simp add: SValue_copy_def)

interpretation cv: risc_laws concrete_ops sv_is
proof
  show "\<exists>x. succeeds (op_undefined concrete_ops n) (\<lambda>r. sv_is r n x)" for n
    using SValue_instance_is [of n] by (auto simp: concrete_ops_def SValue_undefined_def)
  show "succeeds (op_boolean concrete_ops t) (\<lambda>r. sv_is r 1 (of_bool t))" for t
    using SValue_boolean_is [of t] by (simp only: concrete_ops_def risc_ops.simps)
qed (simp_all add: concrete_ops_def sv_is_less sv_isD SValue_toUnsigned_is SValue_copy_is SValue_number_is
  Concrete_logic_is [simplified] Concrete_extract_is Concrete_concat_is Concrete_search_is [simplified] Concrete_shift_is
  Concrete_equalToZero_is [simplified] Concrete_ite_is [simplified] Concrete_extend_is Concrete_add_is Concrete_addWithCarries_is [simplified]
  Concrete_negate_is Concrete_signed_division_is narrow_dividend [simplified] Concrete_signedMultiply_is Concrete_unsigned_is)

lemma sv_number: "sv_is (the (SValue_number n k)) n (unat k mod 2 ^ n)"
  using SValue_number_is [of n k] by (auto simp: succeeds_def)

text \<open>The double-width division takes its numerator apart and puts the quotient together in halves.\<close>

lemma wide_numerator_is:
  assumes "sv_is a 128 x"
  shows "wide_numerator a = Some (of_nat x)"
proof -
  note v = sv_isD(2) [OF assms]
  let ?ws = "bv_words (sv_bits a)"
  have len: "64 + 64 \<le> length ?ws * LENGTH(32)" "0 + 64 \<le> length ?ws * LENGTH(32)"
    using bv_is_unfold(1) [OF v] by simp_all
  have "BitVector_toInteger_range (sv_bits a) (range_of 64 64) = Some (of_nat (vval ?ws 64 64))"
    "BitVector_toInteger_range (sv_bits a) (range_of 0 64) = Some (of_nat (vval ?ws 0 64))"
    using toInteger_eq [OF len(1)] toInteger_eq [OF len(2)] bv_is_unfold(2) [OF v] by (simp_all add: BitVector_toInteger_range_def)
  moreover have "push_bit 64 (ucast (of_nat (vval ?ws 64 64) :: 64 word)) OR ucast (of_nat (vval ?ws 0 64) :: 64 word) = (of_nat x :: 128 word)"
    using bv_is_unfold(4) [OF v] by (intro bit_word_eqI) (auto simp: bit_simps bits_simps)
  ultimately show ?thesis by (simp add: wide_numerator_def)
qed

lemma wide_division_is:
  assumes a: "sv_is a 128 x" and b: "sv_is b 64 y" and y: "y \<noteq> 0"
  shows "succeeds (Concrete_unsignedDivide a b) (\<lambda>r. sv_is r 128 (x div y))"
    "succeeds (Concrete_unsignedModulo a b) (\<lambda>r. sv_is r 64 (x mod y))"
proof -
  have less: "x < 2 ^ 128" "y < 2 ^ 64" using sv_is_less [OF a] sv_is_less [OF b] by simp_all
  have y64: "unat (of_nat y :: 64 word) = y" using less(2) by (simp add: unat_of_nat)
  have yc: "(ucast (of_nat y :: 64 word) :: 128 word) = of_nat y"
    using y64 by (metis of_nat_unat ucast_id)
  have nz: "(of_nat y :: 64 word) \<noteq> 0" using y y64 by (metis unat_0)
  have xy: "unat (of_nat x :: 128 word) = x" "unat (of_nat y :: 128 word) = y" using less by (simp_all add: unat_of_nat)
  define q where "q = (of_nat x :: 128 word) div of_nat y"
  have q: "unat q = x div y" by (simp add: q_def unat_div xy)
  have "unat (ucast q :: 64 word) + 2 ^ 64 * unat (ucast (drop_bit 64 q) :: 64 word) = unat q"
  proof -
    have "unat q < 2 ^ 128" using unsigned_less [of q, where ?'a = nat] by simp
    then have "unat q div 2 ^ 64 < 2 ^ 64" by simp
    then show ?thesis by (simp add: unsigned_ucast_eq take_bit_eq_mod drop_bit_eq_div unat_div)
  qed
  moreover have "Concrete_unsignedDivide a b = do {
      v \<leftarrow> BitVector_new 128 False;
      v \<leftarrow> BitVector_fromInteger_range v (range_of 0 64) (ucast q);
      v \<leftarrow> BitVector_fromInteger_range v (range_of 64 64) (ucast (drop_bit 64 q));
      svalueNumber v }"
    using nz by (simp add: Concrete_unsignedDivide_def sv_isD(1) [OF a] sv_isD(1) [OF b] wide_numerator_is [OF a]
        BitVector_toInteger_is [OF sv_isD(2) [OF b]] yc q_def Let_def)
  ultimately show "succeeds (Concrete_unsignedDivide a b) (\<lambda>r. sv_is r 128 (x div y))"
    using two_halves [of "ucast q" "ucast (drop_bit 64 q)"] q by simp
  define r where "r = (of_nat x :: 128 word) mod of_nat y"
  have r: "unat r = x mod y" by (simp add: r_def unat_mod xy)
  have "x mod y < 2 ^ 64" using y less(2) by (meson le_less_trans less_imp_le mod_less_divisor neq0_conv order.strict_trans)
  then have "unat (ucast r :: 64 word) mod 2 ^ 64 = x mod y" by (simp add: unsigned_ucast_eq r take_bit_eq_mod)
  moreover have "Concrete_unsignedModulo a b = SValue_number 64 (ucast r)"
    using nz by (simp add: Concrete_unsignedModulo_def sv_isD(1) [OF a] sv_isD(1) [OF b] wide_numerator_is [OF a]
        BitVector_toInteger_is [OF sv_isD(2) [OF b]] yc r_def)
  ultimately show "succeeds (Concrete_unsignedModulo a b) (\<lambda>r. sv_is r 64 (x mod y))"
    using SValue_number_is [of 64 "ucast r"] by simp
qed

lemma zero_divisor:
  assumes a: "sv_is a n x" and b: "sv_is b m 0"
  shows "Concrete_signedDivide a b = None" "Concrete_signedModulo a b = None"
    "Concrete_unsignedDivide a b = None" "Concrete_unsignedModulo a b = None"
proof -
  have "signed_operand b = None \<or> signed_operand b = Some 0" if "m \<le> 64"
    using signed_operand_is [OF b] that
    by (cases "m = 0") (auto simp: signed_operand_def SValue_toUnsigned_is [OF b that] sv_isD(1) [OF b] signExtend2_def signBit2_def signed_of_def)
  then show "Concrete_signedDivide a b = None" "Concrete_signedModulo a b = None"
    by (auto simp: Concrete_signedDivide_def Concrete_signedModulo_def sv_isD(1) [OF b] bind_eq_None_conv)
  show "Concrete_unsignedDivide a b = None" "Concrete_unsignedModulo a b = None"
    by (auto simp: Concrete_unsignedDivide_def Concrete_unsignedModulo_def sv_isD(1) [OF b]
        SValue_toUnsigned_is [OF b] BitVector_toInteger_is [OF sv_isD(2) [OF b]] bind_eq_None_conv)
qed

section \<open>Properties\<close>

text \<open>
  C28. The comparison operators of two values of the same width return the one-bit value that says
  whether the relation holds of the unsigned, or of the two's complement, numbers.
\<close>

theorem comparisons_of_values:
  assumes "sv_is a n x" "sv_is b n y" "0 < n"
  shows "succeeds (ops_isEqual concrete_ops a b) (\<lambda>r. sv_is r 1 (of_bool (x = y))) \<and>
    succeeds (ops_isNotEqual concrete_ops a b) (\<lambda>r. sv_is r 1 (of_bool (x \<noteq> y))) \<and>
    succeeds (ops_isUnsignedLessThan concrete_ops a b) (\<lambda>r. sv_is r 1 (of_bool (x < y))) \<and>
    succeeds (ops_isUnsignedLessThanOrEqual concrete_ops a b) (\<lambda>r. sv_is r 1 (of_bool (x \<le> y))) \<and>
    succeeds (ops_isUnsignedGreaterThan concrete_ops a b) (\<lambda>r. sv_is r 1 (of_bool (y < x))) \<and>
    succeeds (ops_isUnsignedGreaterThanOrEqual concrete_ops a b) (\<lambda>r. sv_is r 1 (of_bool (y \<le> x))) \<and>
    succeeds (ops_isSignedLessThan concrete_ops a b) (\<lambda>r. sv_is r 1 (of_bool (signed_of n x < signed_of n y))) \<and>
    succeeds (ops_isSignedLessThanOrEqual concrete_ops a b) (\<lambda>r. sv_is r 1 (of_bool (signed_of n x \<le> signed_of n y))) \<and>
    succeeds (ops_isSignedGreaterThan concrete_ops a b) (\<lambda>r. sv_is r 1 (of_bool (signed_of n y < signed_of n x))) \<and>
    succeeds (ops_isSignedGreaterThanOrEqual concrete_ops a b) (\<lambda>r. sv_is r 1 (of_bool (signed_of n y \<le> signed_of n x)))"
proof -
  note u = cv.isEqual cv.isNotEqual cv.isUnsignedLessThan cv.isUnsignedLessThanOrEqual cv.isUnsignedGreaterThan
    cv.isUnsignedGreaterThanOrEqual
  note s = cv.isSignedLessThan cv.isSignedLessThanOrEqual cv.isSignedGreaterThan cv.isSignedGreaterThanOrEqual
  show ?thesis by (intro conjI u [OF assms(1,2)] s [OF assms])
qed

theorem comparisons_of_values_witness:
  "succeeds (ops_isSignedLessThan concrete_ops (the (SValue_number 8 200)) (the (SValue_number 8 7)))
     (\<lambda>r. sv_is r 1 (of_bool (signed_of 8 200 < signed_of 8 7)))"
  using comparisons_of_values [of "the (SValue_number 8 200)" 8 200 "the (SValue_number 8 7)" 7]
    sv_number [of 8 200] sv_number [of 8 7] by simp

text \<open>
  C29. The divisions at every width of at least one bit. A zero divisor throws. Otherwise, if both operands have at most 64 bits,
  the signed division rounds toward zero and the remainder has the sign of the dividend, except that the quotient and the
  remainder of the least 64-bit number and -1 are undefined (the C++ division overflows, \<open>None\<close> here), and the unsigned division is the
  Euclidean one; the quotient has the width of the dividend and the remainder the width of the divisor. With a wider operand
  all four are not implemented and throw, except for the unsigned divisions of a 128-bit by a 64-bit number, which are exact.
\<close>

theorem division_of_values:
  assumes "sv_is a n x" "sv_is b m y" "0 < n" "0 < m"
  shows "(y = 0 \<longrightarrow> Concrete_signedDivide a b = None \<and> Concrete_signedModulo a b = None \<and>
      Concrete_unsignedDivide a b = None \<and> Concrete_unsignedModulo a b = None) \<and>
    (64 < n \<or> 64 < m \<longrightarrow> Concrete_signedDivide a b = None \<and> Concrete_signedModulo a b = None \<and>
      (\<not> (n = 128 \<and> m = 64) \<longrightarrow> Concrete_unsignedDivide a b = None \<and> Concrete_unsignedModulo a b = None)) \<and>
    (y \<noteq> 0 \<and> n \<le> 64 \<and> m \<le> 64 \<longrightarrow>
      (if signed_of n x = - (2 ^ 63) \<and> signed_of m y = - 1
       then Concrete_signedDivide a b = None \<and> Concrete_signedModulo a b = None
       else succeeds (Concrete_signedDivide a b) (\<lambda>r. sv_is r n (nat ((signed_of n x sdiv signed_of m y) mod 2 ^ n))) \<and>
         succeeds (Concrete_signedModulo a b) (\<lambda>r. sv_is r m (nat ((signed_of n x smod signed_of m y) mod 2 ^ m))))) \<and>
    (y \<noteq> 0 \<and> (n \<le> 64 \<and> m \<le> 64 \<or> n = 128 \<and> m = 64) \<longrightarrow>
      succeeds (Concrete_unsignedDivide a b) (\<lambda>r. sv_is r n (x div y)) \<and>
      succeeds (Concrete_unsignedModulo a b) (\<lambda>r. sv_is r m (x mod y)))"
proof (intro conjI)
  show "y = 0 \<longrightarrow> Concrete_signedDivide a b = None \<and> Concrete_signedModulo a b = None \<and>
      Concrete_unsignedDivide a b = None \<and> Concrete_unsignedModulo a b = None"
    using zero_divisor [OF assms(1)] assms(2) by blast
  show "64 < n \<or> 64 < m \<longrightarrow> Concrete_signedDivide a b = None \<and> Concrete_signedModulo a b = None \<and>
      (\<not> (n = 128 \<and> m = 64) \<longrightarrow> Concrete_unsignedDivide a b = None \<and> Concrete_unsignedModulo a b = None)"
    using wide_operands [OF assms(1,2)] by blast
  show "y \<noteq> 0 \<and> n \<le> 64 \<and> m \<le> 64 \<longrightarrow>
      (if signed_of n x = - (2 ^ 63) \<and> signed_of m y = - 1
       then Concrete_signedDivide a b = None \<and> Concrete_signedModulo a b = None
       else succeeds (Concrete_signedDivide a b) (\<lambda>r. sv_is r n (nat ((signed_of n x sdiv signed_of m y) mod 2 ^ n))) \<and>
         succeeds (Concrete_signedModulo a b) (\<lambda>r. sv_is r m (nat ((signed_of n x smod signed_of m y) mod 2 ^ m))))"
    using Concrete_signed_division_is [OF assms(1-3) _ assms(4)] Concrete_signed_overflow [OF assms(1-3) _ assms(4)] by simp
  show "y \<noteq> 0 \<and> (n \<le> 64 \<and> m \<le> 64 \<or> n = 128 \<and> m = 64) \<longrightarrow>
      succeeds (Concrete_unsignedDivide a b) (\<lambda>r. sv_is r n (x div y)) \<and>
      succeeds (Concrete_unsignedModulo a b) (\<lambda>r. sv_is r m (x mod y))"
    using Concrete_unsigned_is(1,2) [OF assms(1,2)] wide_division_is [of a x b y] assms(1,2) by auto
qed

theorem division_of_values_witness:
  "succeeds (Concrete_signedDivide (the (SValue_number 8 0xF9)) (the (SValue_number 8 2)))
     (\<lambda>r. sv_is r 8 (nat ((signed_of 8 0xF9 sdiv signed_of 8 2) mod 2 ^ 8))) \<and>
   Concrete_signedDivide (the (SValue_number 64 0x8000000000000000)) (the (SValue_number 8 0xFF)) = None"
  using division_of_values [of "the (SValue_number 8 0xF9)" 8 "0xF9" "the (SValue_number 8 2)" 8 2]
    division_of_values [of "the (SValue_number 64 0x8000000000000000)" 64 "0x8000000000000000" "the (SValue_number 8 0xFF)" 8 "0xFF"]
    sv_number [of 8 "0xF9"] sv_number [of 8 2] sv_number [of 64 "0x8000000000000000"] sv_number [of 8 "0xFF"]
  by (simp add: signed_of_def bit_iff_odd)

text \<open>
  C30. The product of two 64-bit values: both multiplications compute the unsigned product, and
  lose a carry worth two to the 96th when the middle column of the long multiplication does not fit
  in 64 bits.
\<close>

theorem multiply_64_loses_carry:
  assumes "sv_is a 64 x" "sv_is b 64 y"
  shows "succeeds (Concrete_unsignedMultiply a b)
      (\<lambda>r. sv_is r 128 (x * y - (if 2 ^ 64 \<le> middle_column x y then 2 ^ 96 else 0))) \<and>
    Concrete_signedMultiply a b = Concrete_unsignedMultiply a b"
proof -
  have "Concrete_unsignedMultiply a b = long_multiply (of_nat x) (of_nat y)"
    "Concrete_signedMultiply a b = long_multiply (of_nat x) (of_nat y)"
    by (simp_all add: Concrete_unsignedMultiply_def Concrete_signedMultiply_def sv_isD(1) [OF assms(1)] sv_isD(1) [OF assms(2)]
        SValue_toUnsigned_is [OF assms(1)] SValue_toUnsigned_is [OF assms(2)])
  then show ?thesis using long_multiply_is [OF sv_is_less [OF assms(1)] sv_is_less [OF assms(2)]] by simp
qed

theorem multiply_64_loses_carry_witness:
  "2 ^ 64 \<le> middle_column (2 ^ 64 - 1) (2 ^ 64 - 1) \<and>
   succeeds (Concrete_unsignedMultiply (the (SValue_number 64 0xFFFFFFFFFFFFFFFF)) (the (SValue_number 64 0xFFFFFFFFFFFFFFFF)))
     (\<lambda>r. sv_is r 128 ((2 ^ 64 - 1) * (2 ^ 64 - 1) - 2 ^ 96))"
  using multiply_64_loses_carry [of "the (SValue_number 64 0xFFFFFFFFFFFFFFFF)" "2 ^ 64 - 1" "the (SValue_number 64 0xFFFFFFFFFFFFFFFF)" "2 ^ 64 - 1"]
    sv_number [of 64 "0xFFFFFFFFFFFFFFFF"] by (simp add: middle_column_def)

text \<open>
  C31. \<^verbatim>\<open>subtractCarry\<close> returns the difference; its carry is set exactly when the subtrahend is not zero
  and not above the minuend; its overflow flag says whether the signed difference does not fit,
  except for the least signed subtrahend, where it says the opposite.
\<close>

theorem subtractCarry_flags:
  assumes "sv_is a n x" "sv_is b n y" "1 < n"
  shows "succeeds (ops_subtractCarry concrete_ops a b) (\<lambda>(diff, carryOut, overflowed).
    sv_is diff n ((x + (2 ^ n - y)) mod 2 ^ n) \<and>
    sv_is carryOut 1 (of_bool (0 < y \<and> y \<le> x)) \<and>
    sv_is overflowed 1 (of_bool (if y = 2 ^ (n - 1) then fits_signed n (signed_of n x - signed_of n y)
      else \<not> fits_signed n (signed_of n x - signed_of n y))))"
  using cv.subtractCarry [OF assms] by (simp only: subtract_overflow_def)

theorem subtractCarry_flags_witness:
  "succeeds (ops_subtractCarry concrete_ops (the (SValue_number 8 1)) (the (SValue_number 8 128))) (\<lambda>(diff, carryOut, overflowed).
    sv_is diff 8 129 \<and> sv_is carryOut 1 0 \<and> sv_is overflowed 1 0) \<and> \<not> fits_signed 8 (1 - - 128)"
  using subtractCarry_flags [of "the (SValue_number 8 1)" 8 1 "the (SValue_number 8 128)" 128]
    sv_number [of 8 1] sv_number [of 8 128] by (simp add: signed_of_def fits_signed_def bit_iff_odd)

text \<open>Splitting a concatenation at the seam gives back the numbers of the two parts.\<close>

theorem concat_split_roundtrip:
  assumes "sv_is a n x" "sv_is b m y" "0 < n" "0 < m"
  shows "succeeds (do { c \<leftarrow> Concrete_concat a b; ops_split concrete_ops c n })
    (\<lambda>(lo, hi). sv_is lo n x \<and> sv_is hi m y)"
proof (rule succeeds_bind [OF Concrete_concat_is [OF assms(1,2,4)]])
  fix c assume c: "sv_is c (n + m) (x + 2 ^ n * y)"
  have "x < 2 ^ n" using sv_is_less [OF assms(1)] .
  with cv.split_law [OF c, of n] assms(3,4)
  show "succeeds (ops_split concrete_ops c n) (\<lambda>(lo, hi). sv_is lo n x \<and> sv_is hi m y)" by simp
qed

theorem concat_split_roundtrip_witness:
  "succeeds (do { c \<leftarrow> Concrete_concat (the (SValue_number 8 200)) (the (SValue_number 40 7)); ops_split concrete_ops c 8 })
     (\<lambda>(lo, hi). sv_is lo 8 200 \<and> sv_is hi 40 7)"
  using concat_split_roundtrip [of "the (SValue_number 8 200)" 8 200 "the (SValue_number 40 7)" 40 7]
    sv_number [of 8 200] sv_number [of 40 7] by simp

end
