(* ===== verification/Register_Descriptor.thy ===== *)
theory Register_Descriptor
  imports Sawyer_Interval
begin

text \<open>
  Register descriptors (\<^verbatim>\<open>src/Rose/BinaryAnalysis/RegisterDescriptor.h\<close> and \<^verbatim>\<open>.C\<close>): a major and a
  minor number, an offset and a width packed into one 32-bit word. The arguments of type \<^verbatim>\<open>unsigned\<close> and
  \<^verbatim>\<open>size_t\<close> are natural numbers; the sum of an offset below 512 and a width can only wrap for a width that
  the last assertion of \<^verbatim>\<open>setOffsetWidth\<close> rejects.
\<close>

section \<open>The class\<close>

record register_descriptor =
  rd_data :: "32 word"

definition EMPTY_PATTERN :: "32 word" where
  "EMPTY_PATTERN = 0x000005ff"

definition OFFSET_WIDTH_MASK :: "32 word" where
  "OFFSET_WIDTH_MASK = 0x0003ffff"

definition RegisterDescriptor_empty :: register_descriptor where
  "RegisterDescriptor_empty = \<lparr>rd_data = EMPTY_PATTERN\<rparr>"

definition RegisterDescriptor_fromRaw :: "32 word \<Rightarrow> register_descriptor" where
  "RegisterDescriptor_fromRaw raw = RegisterDescriptor_empty\<lparr>rd_data := raw\<rparr>"

definition maxMajor :: nat where "maxMajor = 16"

definition maxMinor :: nat where "maxMinor = 1023"

definition maxOffset :: nat where "maxOffset = 511"

definition maxNBits :: nat where "maxNBits = 512"

definition majorNumber :: "register_descriptor \<Rightarrow> nat" where
  "majorNumber r = unat (drop_bit 28 (rd_data r))"

definition minorNumber :: "register_descriptor \<Rightarrow> nat" where
  "minorNumber r = unat (drop_bit 18 (rd_data r) AND 0x3ff)"

definition reg_offset :: "register_descriptor \<Rightarrow> nat" where
  "reg_offset r =
     (if rd_data r AND OFFSET_WIDTH_MASK = EMPTY_PATTERN then 0
      else let offsetField = drop_bit 9 (rd_data r) AND 0x1ff;
               widthField = rd_data r AND 0x1ff
           in if offsetField + widthField = 512 then unat offsetField else unat offsetField)"

definition reg_nBits :: "register_descriptor \<Rightarrow> nat" where
  "reg_nBits r =
     (if rd_data r AND OFFSET_WIDTH_MASK = EMPTY_PATTERN then 0
      else let offsetField = drop_bit 9 (rd_data r) AND 0x1ff;
               widthField = rd_data r AND 0x1ff
           in if offsetField + widthField = 512 then 0 else unat (widthField + 1))"

definition reg_bits :: "register_descriptor \<Rightarrow> nat interval option" where
  "reg_bits r = (if reg_nBits r \<noteq> 0 then baseSize (reg_offset r) (reg_nBits r) else Some Interval_empty)"

definition reg_isEmpty :: "register_descriptor \<Rightarrow> bool" where
  "reg_isEmpty r \<longleftrightarrow> 0 = reg_nBits r"

definition reg_isValid :: "register_descriptor \<Rightarrow> bool" where
  "reg_isValid r \<longleftrightarrow> reg_nBits r \<noteq> 0"

definition set_majorNumber :: "register_descriptor \<Rightarrow> nat \<Rightarrow> register_descriptor option" where
  "set_majorNumber r majr = do {
     require (majr \<le> maxMajor);
     let r = r\<lparr>rd_data := rd_data r AND 0x0fffffff\<rparr>;
     Some (r\<lparr>rd_data := rd_data r OR push_bit 28 (of_nat majr)\<rparr>)
   }"

definition set_minorNumber :: "register_descriptor \<Rightarrow> nat \<Rightarrow> register_descriptor option" where
  "set_minorNumber r minr = do {
     require (minr \<le> maxMinor);
     let r = r\<lparr>rd_data := rd_data r AND 0xf003ffff\<rparr>;
     Some (r\<lparr>rd_data := rd_data r OR push_bit 18 (of_nat minr)\<rparr>)
   }"

definition setOffsetWidth :: "register_descriptor \<Rightarrow> nat \<Rightarrow> nat \<Rightarrow> register_descriptor option" where
  "setOffsetWidth r offset width = do {
     require (offset < 512);
     require (offset + width \<le> 512);
     let r = r\<lparr>rd_data := rd_data r AND NOT OFFSET_WIDTH_MASK\<rparr>;
     let r = (if 0 = offset \<and> 0 = width then r\<lparr>rd_data := rd_data r OR EMPTY_PATTERN\<rparr>
        else if 0 = width then
          (let widthField = of_nat (512 - offset) in r\<lparr>rd_data := rd_data r OR (push_bit 9 (of_nat offset) OR widthField)\<rparr>)
        else r\<lparr>rd_data := rd_data r OR (push_bit 9 (of_nat offset) OR of_nat (width - 1))\<rparr>);
     require (reg_offset r = offset);
     require (reg_nBits r = width);
     Some r
   }"

definition RegisterDescriptor_new :: "nat \<Rightarrow> nat \<Rightarrow> nat \<Rightarrow> nat \<Rightarrow> register_descriptor option" where
  "RegisterDescriptor_new majr minr offset width = do {
     r \<leftarrow> set_majorNumber \<lparr>rd_data = 0\<rparr> majr;
     r \<leftarrow> set_minorNumber r minr;
     setOffsetWidth r offset width
   }"

definition set_offset :: "register_descriptor \<Rightarrow> nat \<Rightarrow> register_descriptor option" where
  "set_offset r offset = do {
     require (offset < 512);
     let width = min (reg_nBits r) (512 - offset);
     setOffsetWidth r offset width
   }"

definition set_nBits :: "register_descriptor \<Rightarrow> nat \<Rightarrow> register_descriptor option" where
  "set_nBits r width = do {
     require (width \<le> 512);
     setOffsetWidth r (reg_offset r) width
   }"

definition reg_and :: "register_descriptor \<Rightarrow> register_descriptor \<Rightarrow> register_descriptor option" where
  "reg_and r other =
     (if majorNumber r = majorNumber other \<and> minorNumber r = minorNumber other then
        let begin1 = reg_offset r; end1 = begin1 + reg_nBits r;
            begin2 = reg_offset other; end2 = begin2 + reg_nBits other;
            b = max begin1 begin2; e = min end1 end2
        in if e \<le> b then Some RegisterDescriptor_empty
           else RegisterDescriptor_new (majorNumber r) (minorNumber r) b (e - b)
      else Some RegisterDescriptor_empty)"

definition isSubsetOf :: "register_descriptor \<Rightarrow> register_descriptor \<Rightarrow> bool option" where
  "isSubsetOf r other = do {
     i \<leftarrow> reg_and r other;
     if \<not> reg_isEmpty i then Some (reg_offset i = reg_offset r \<and> reg_nBits i = reg_nBits r) else Some False
   }"

definition reg_less :: "register_descriptor \<Rightarrow> register_descriptor \<Rightarrow> bool" where
  "reg_less r other \<longleftrightarrow> rd_data r < rd_data other"

section \<open>Fields of the packed word\<close>

lemma masks:
  "w AND 0x3ff = take_bit 10 w" "w AND 0x1ff = take_bit 9 w" "w AND OFFSET_WIDTH_MASK = take_bit 18 w"
  "w AND 0x0fffffff = take_bit 28 w" "w AND NOT OFFSET_WIDTH_MASK = push_bit 18 (drop_bit 18 w)"
  for w :: "32 word"
proof -
  have m: "(0x3ff :: 32 word) = mask 10" "(0x1ff :: 32 word) = mask 9" "OFFSET_WIDTH_MASK = mask 18" "(0x0fffffff :: 32 word) = mask 28"
    by (simp_all add: mask_eq_exp_minus_1 OFFSET_WIDTH_MASK_def)
  show "w AND 0x3ff = take_bit 10 w" "w AND 0x1ff = take_bit 9 w" "w AND OFFSET_WIDTH_MASK = take_bit 18 w"
    "w AND 0x0fffffff = take_bit 28 w"
    unfolding m take_bit_eq_mask by (rule refl)+
  show "w AND NOT OFFSET_WIDTH_MASK = push_bit 18 (drop_bit 18 w)"
    unfolding m by (rule bit_word_eqI) (auto simp: bit_simps)
qed

text \<open>The two low fields as numbers below 512.\<close>

definition low_word :: "nat \<Rightarrow> nat \<Rightarrow> 32 word" where
  "low_word f g = push_bit 9 (of_nat f) OR of_nat g"

lemma small_word: "n < 2 ^ k \<Longrightarrow> k \<le> 32 \<Longrightarrow> take_bit k (of_nat n :: 32 word) = of_nat n"
proof -
  assume n: "n < 2 ^ k" "k \<le> 32"
  then have "n < 2 ^ 32" using power_increasing [of k 32 "2 :: nat"] by linarith
  with n show ?thesis
    by (simp only: word_unat_eq_iff unsigned_take_bit_eq unat_of_nat len_bit0 len_num1) (simp add: take_bit_nat_eq_self)
qed

lemma unat_small: "n < 2 ^ 32 \<Longrightarrow> unat (of_nat n :: 32 word) = n"
  by (simp add: unat_of_nat)

lemma two_fields:
  fixes F G :: "32 word"
  assumes F: "take_bit 9 F = F" and G: "take_bit 9 G = G"
  shows "take_bit 18 (push_bit 9 F OR G) = push_bit 9 F OR G" "take_bit 9 (push_bit 9 F OR G) = G"
    "take_bit 9 (drop_bit 9 (push_bit 9 F OR G)) = F"
proof -
  have F': "bit F i \<Longrightarrow> i < 9" and G': "bit G i \<Longrightarrow> i < 9" for i
    using arg_cong [OF F, of "\<lambda>w. bit w i"] arg_cong [OF G, of "\<lambda>w. bit w i"] by (auto simp: bit_take_bit_iff)
  show "take_bit 18 (push_bit 9 F OR G) = push_bit 9 F OR G" "take_bit 9 (push_bit 9 F OR G) = G"
    "take_bit 9 (drop_bit 9 (push_bit 9 F OR G)) = F"
    by (rule bit_word_eqI; auto simp: bit_simps dest: F' G')+
qed

lemma low_word_fields:
  assumes "f < 512" "g < 512"
  shows "take_bit 18 (low_word f g) = low_word f g" "take_bit 9 (low_word f g) = of_nat g"
    "take_bit 9 (drop_bit 9 (low_word f g)) = of_nat f"
  unfolding low_word_def using assms by (intro two_fields small_word; simp)+

lemma EMPTY_PATTERN_low: "EMPTY_PATTERN = low_word 2 511"
  by (simp add: EMPTY_PATTERN_def low_word_def)

lemma low_word_empty: "f < 512 \<Longrightarrow> g < 512 \<Longrightarrow> low_word f g = EMPTY_PATTERN \<longleftrightarrow> f = 2 \<and> g = 511"
proof
  assume b: "f < 512" "g < 512" and "low_word f g = EMPTY_PATTERN"
  then have e: "low_word f g = low_word 2 511" by (simp add: EMPTY_PATTERN_low)
  have "(of_nat f :: 32 word) = of_nat 2" "(of_nat g :: 32 word) = of_nat 511"
    using arg_cong [OF e, of "\<lambda>w. take_bit 9 (drop_bit 9 w)"] arg_cong [OF e, of "take_bit 9"]
      low_word_fields [OF b] low_word_fields [of 2 511] by simp_all
  then have "unat (of_nat f :: 32 word) = unat (of_nat 2 :: 32 word)" "unat (of_nat g :: 32 word) = unat (of_nat 511 :: 32 word)" by simp_all
  then show "f = 2 \<and> g = 511" using b by (simp add: unat_of_nat)
qed (simp add: EMPTY_PATTERN_low)

text \<open>A descriptor whose low fields are \<open>f\<close> and \<open>g\<close>.\<close>

definition with_low :: "32 word \<Rightarrow> nat \<Rightarrow> nat \<Rightarrow> register_descriptor" where
  "with_low d f g = \<lparr>rd_data = push_bit 18 (drop_bit 18 d) OR low_word f g\<rparr>"

lemma with_low_fields:
  assumes "f < 512" "g < 512"
  shows "take_bit 18 (rd_data (with_low d f g)) = low_word f g"
    "take_bit 9 (rd_data (with_low d f g)) = of_nat g"
    "take_bit 9 (drop_bit 9 (rd_data (with_low d f g))) = of_nat f"
    "drop_bit 18 (rd_data (with_low d f g)) = drop_bit 18 d"
proof -
  let ?w = "rd_data (with_low d f g)"
  note l = low_word_fields [OF assms]
  show t: "take_bit 18 ?w = low_word f g"
    by (simp add: with_low_def take_bit_or take_bit_push_bit l(1))
  have "take_bit 9 ?w = take_bit 9 (take_bit 18 ?w)" "take_bit 9 (drop_bit 9 ?w) = take_bit 9 (drop_bit 9 (take_bit 18 ?w))"
    by (rule bit_word_eqI; auto simp: bit_simps)+
  with t l show "take_bit 9 ?w = of_nat g" "take_bit 9 (drop_bit 9 ?w) = of_nat f" by simp_all
  have "\<not> bit (low_word f g) (18 + i)" for i
    using arg_cong [OF l(1), of "\<lambda>w. bit w (18 + i)"] by (simp add: bit_simps)
  then show "drop_bit 18 ?w = drop_bit 18 d"
    by (intro bit_word_eqI) (auto simp: with_low_def bit_simps dest: bit_imp_le_length)
qed

lemma with_low_offset_width:
  assumes "f < 512" "g < 512"
  shows "reg_offset (with_low d f g) = (if f = 2 \<and> g = 511 then 0 else f)"
    "reg_nBits (with_low d f g) = (if f = 2 \<and> g = 511 \<or> f + g = 512 then 0 else g + 1)"
proof -
  have sum: "(of_nat f :: 32 word) + of_nat g = 512 \<longleftrightarrow> f + g = 512"
  proof -
    have "(of_nat f :: 32 word) + of_nat g = 512 \<longleftrightarrow> unat (of_nat (f + g) :: 32 word) = unat (512 :: 32 word)"
      by (simp only: of_nat_add word_unat_eq_iff)
    moreover have "unat (of_nat (f + g) :: 32 word) = f + g" using assms by (intro unat_small) simp
    ultimately show ?thesis by simp
  qed
  have one: "unat ((of_nat g :: 32 word) + 1) = g + 1"
    using unat_small [of "g + 1"] assms by (simp add: add.commute)
  note u = unat_small [of f] unat_small [of g]
  show "reg_offset (with_low d f g) = (if f = 2 \<and> g = 511 then 0 else f)"
    unfolding reg_offset_def masks with_low_fields [OF assms] low_word_empty [OF assms] using u assms by (simp add: Let_def)
  show "reg_nBits (with_low d f g) = (if f = 2 \<and> g = 511 \<or> f + g = 512 then 0 else g + 1)"
    unfolding reg_nBits_def masks with_low_fields [OF assms] low_word_empty [OF assms] Let_def sum one by auto
qed

text \<open>The low fields that stand for an offset and a width.\<close>

definition low_fields :: "nat \<Rightarrow> nat \<Rightarrow> nat \<times> nat" where
  "low_fields offset width =
     (if offset = 0 \<and> width = 0 then (2, 511) else if width = 0 then (offset, 512 - offset) else (offset, width - 1))"

lemma setOffsetWidth_is:
  "setOffsetWidth r offset width =
     (if offset < 512 \<and> offset + width \<le> 512
      then Some (case low_fields offset width of (f, g) \<Rightarrow> with_low (rd_data r) f g) else None)"
proof (cases "offset < 512 \<and> offset + width \<le> 512")
  case True
  obtain f g where fg: "low_fields offset width = (f, g)" by force
  with True have b: "f < 512" "g < 512" by (auto simp: low_fields_def split: if_splits)
  have o: "reg_offset (with_low (rd_data r) f g) = offset" and w: "reg_nBits (with_low (rd_data r) f g) = width"
    unfolding with_low_offset_width [OF b] using True fg by (auto simp: low_fields_def split: if_splits)
  obtain d where r: "r = \<lparr>rd_data = d\<rparr>" by (cases r)
  have eq: "(if 0 = offset \<and> 0 = width then \<lparr>rd_data = (d AND NOT OFFSET_WIDTH_MASK) OR EMPTY_PATTERN\<rparr>
      else if 0 = width then \<lparr>rd_data = (d AND NOT OFFSET_WIDTH_MASK) OR (push_bit 9 (of_nat offset) OR of_nat (512 - offset))\<rparr>
      else \<lparr>rd_data = (d AND NOT OFFSET_WIDTH_MASK) OR (push_bit 9 (of_nat offset) OR of_nat (width - 1))\<rparr>) = with_low d f g"
    using fg by (auto simp: low_fields_def with_low_def masks EMPTY_PATTERN_low low_word_def split: if_splits)
  show ?thesis using True o w
    unfolding setOffsetWidth_def Let_def r register_descriptor.simps fg prod.case eq by simp
next
  case False
  then show ?thesis by (auto simp: setOffsetWidth_def)
qed

lemma setOffsetWidth_fields:
  assumes "offset < 512" "offset + width \<le> 512"
  shows "succeeds (setOffsetWidth r offset width) (\<lambda>r'. reg_offset r' = offset \<and> reg_nBits r' = width \<and>
    drop_bit 18 (rd_data r') = drop_bit 18 (rd_data r))"
proof -
  obtain f g where fg: "low_fields offset width = (f, g)" by force
  with assms have b: "f < 512" "g < 512" by (auto simp: low_fields_def split: if_splits)
  show ?thesis
    using assms fg with_low_fields(4) [OF b] with_low_offset_width [OF b]
    by (auto simp: setOffsetWidth_is low_fields_def split: if_splits)
qed

text \<open>The four properties of a descriptor in one tuple.\<close>

definition reg_fields :: "register_descriptor \<Rightarrow> nat \<times> nat \<times> nat \<times> nat" where
  "reg_fields r = (majorNumber r, minorNumber r, reg_offset r, reg_nBits r)"

lemma major_minor_of_high:
  "majorNumber r = unat (drop_bit 10 (drop_bit 18 (rd_data r)))"
  "minorNumber r = unat (take_bit 10 (drop_bit 18 (rd_data r)))"
  by (simp_all add: majorNumber_def minorNumber_def masks drop_bit_drop_bit)

lemma high_word:
  fixes M N :: "32 word"
  assumes "take_bit 10 N = N"
  defines "w \<equiv> ((0 AND 0x0fffffff OR push_bit 28 M) AND 0xf003ffff) OR push_bit 18 N"
  shows "drop_bit 10 (drop_bit 18 w) = take_bit 4 M" "take_bit 10 (drop_bit 18 w) = N"
proof -
  have N: "bit N i \<Longrightarrow> i < 10" for i
    using arg_cong [OF assms(1), of "\<lambda>w. bit w i"] by (auto simp: bit_take_bit_iff)
  have k: "(0xf003ffff :: 32 word) = NOT (push_bit 18 (mask 10))" by (simp add: mask_eq_exp_minus_1)
  have "push_bit 28 M AND 0xf003ffff = push_bit 28 M"
    unfolding k by (rule bit_word_eqI) (auto simp: bit_simps)
  then have w: "w = push_bit 28 M OR push_bit 18 N" by (simp add: w_def)
  show "drop_bit 10 (drop_bit 18 w) = take_bit 4 M"
    unfolding w by (rule bit_word_eqI) (auto simp: bit_simps dest: bit_imp_le_length N)
  show "take_bit 10 (drop_bit 18 w) = N"
    unfolding w by (rule bit_word_eqI) (auto simp: bit_simps dest: bit_imp_le_length N)
qed

lemma new_is:
  "if majr \<le> 16 \<and> minr < 1024 \<and> offset < 512 \<and> offset + width \<le> 512
   then succeeds (RegisterDescriptor_new majr minr offset width) (\<lambda>r. reg_fields r = (majr mod 16, minr, offset, width))
   else RegisterDescriptor_new majr minr offset width = None"
proof (cases "majr \<le> 16 \<and> minr < 1024")
  case False
  then show ?thesis
    by (auto simp: RegisterDescriptor_new_def set_majorNumber_def set_minorNumber_def maxMajor_def maxMinor_def not_le not_less)
next
  case True
  define w where "w = ((0 AND 0x0fffffff OR push_bit 28 (of_nat majr)) AND 0xf003ffff) OR push_bit 18 (of_nat minr :: 32 word)"
  have new: "RegisterDescriptor_new majr minr offset width = setOffsetWidth \<lparr>rd_data = w\<rparr> offset width"
    using True by (simp add: RegisterDescriptor_new_def set_majorNumber_def set_minorNumber_def maxMajor_def maxMinor_def w_def)
  have high: "drop_bit 10 (drop_bit 18 w) = take_bit 4 (of_nat majr)" "take_bit 10 (drop_bit 18 w) = of_nat minr"
    unfolding w_def using True by (intro high_word small_word; simp)+
  have "unat (take_bit 4 (of_nat majr :: 32 word)) = majr mod 16"
    using True unat_small [of majr] by (simp only: unsigned_take_bit_eq) (simp add: take_bit_eq_mod)
  with high have "unat (drop_bit 10 (drop_bit 18 w)) = majr mod 16" "unat (take_bit 10 (drop_bit 18 w)) = minr"
    using True unat_small [of minr] by (simp_all del: drop_bit_drop_bit)
  moreover have "setOffsetWidth \<lparr>rd_data = w\<rparr> offset width = None" if "\<not> (offset < 512 \<and> offset + width \<le> 512)"
    using that by (simp add: setOffsetWidth_is)
  ultimately show ?thesis
    using True setOffsetWidth_fields [of offset width "\<lparr>rd_data = w\<rparr>"]
    by (auto simp: new reg_fields_def major_minor_of_high simp del: drop_bit_drop_bit elim!: succeeds_mono)
qed

lemma new_fields:
  assumes "majr < 16" "minr < 1024" "offset < 512" "offset + width \<le> 512"
  shows "succeeds (RegisterDescriptor_new majr minr offset width) (\<lambda>r. reg_fields r = (majr, minr, offset, width))"
  using new_is [of majr minr offset width] assms by simp

lemma field_bounds: "majorNumber r < 16" "minorNumber r < 1024" "reg_offset r < 512" "reg_nBits r \<le> 512"
proof -
  have t: "unat (take_bit k w) < 2 ^ k" for k and w :: "32 word"
    by (simp add: unsigned_take_bit_eq)
  have "unat (rd_data r) < 16 * 2 ^ 28" using unsigned_less [of "rd_data r"] by simp
  then have "unat (rd_data r) div 2 ^ 28 < 16" by (rule less_mult_imp_div_less)
  then have "unat (drop_bit 28 (rd_data r)) < 16" by (simp only: unat_drop_bit_eq) (simp only: drop_bit_eq_div)
  then show "majorNumber r < 16" by (simp add: majorNumber_def)
  show "minorNumber r < 1024" using t [of 10 "drop_bit 18 (rd_data r)"] by (simp add: minorNumber_def masks)
  show "reg_offset r < 512"
    using t [of 9 "drop_bit 9 (rd_data r)"] by (simp add: reg_offset_def masks Let_def)
  have "unat (take_bit 9 (rd_data r) + 1) \<le> 512"
  proof -
    have "unat (take_bit 9 (rd_data r)) < 512" using t [of 9 "rd_data r"] by simp
    then show ?thesis by (simp add: unat_word_ariths)
  qed
  then show "reg_nBits r \<le> 512" by (simp add: reg_nBits_def masks Let_def)
qed

text \<open>The class invariant: offset plus width is at most 512. It holds of everything the constructors and setters build.\<close>

definition reg_ok :: "register_descriptor \<Rightarrow> bool" where
  "reg_ok r \<longleftrightarrow> reg_offset r + reg_nBits r \<le> 512"

text \<open>The bits of the register file that a descriptor names.\<close>

definition reg_positions :: "register_descriptor \<Rightarrow> (nat \<times> nat \<times> nat) set" where
  "reg_positions r = {(majorNumber r, minorNumber r, i) | i. reg_offset r \<le> i \<and> i < reg_offset r + reg_nBits r}"

lemma reg_empty_fields: "reg_nBits RegisterDescriptor_empty = 0"
  by (simp add: reg_nBits_def RegisterDescriptor_empty_def EMPTY_PATTERN_def OFFSET_WIDTH_MASK_def)

lemma reg_and_is:
  assumes "reg_ok r" "reg_ok s"
  shows "succeeds (reg_and r s) (\<lambda>i. reg_positions i = reg_positions r \<inter> reg_positions s \<and>
    (reg_nBits i \<noteq> 0 \<longrightarrow> majorNumber i = majorNumber r \<and> minorNumber i = minorNumber r \<and>
      reg_offset i = max (reg_offset r) (reg_offset s) \<and>
      reg_offset i + reg_nBits i = min (reg_offset r + reg_nBits r) (reg_offset s + reg_nBits s)))"
proof (cases "majorNumber r = majorNumber s \<and> minorNumber r = minorNumber s \<and>
    max (reg_offset r) (reg_offset s) < min (reg_offset r + reg_nBits r) (reg_offset s + reg_nBits s)")
  case True
  let ?b = "max (reg_offset r) (reg_offset s)" and ?e = "min (reg_offset r + reg_nBits r) (reg_offset s + reg_nBits s)"
  have "?b < 512" "?b + (?e - ?b) \<le> 512" using True assms field_bounds [of r] field_bounds [of s] by (auto simp: reg_ok_def)
  from new_fields [OF field_bounds(1,2) this, of r r] True show ?thesis
    by (auto simp: reg_and_def Let_def reg_fields_def reg_positions_def elim!: succeeds_mono)
next
  case False
  then have "reg_and r s = Some RegisterDescriptor_empty" by (auto simp: reg_and_def Let_def)
  moreover have "reg_positions r \<inter> reg_positions s = {}" using False by (auto simp: reg_positions_def)
  ultimately show ?thesis by (simp add: reg_positions_def reg_empty_fields)
qed

lemma reg_positions_empty: "reg_positions r = {} \<longleftrightarrow> reg_nBits r = 0"
  by (auto simp: reg_positions_def)

section \<open>Properties\<close>

text \<open>
  C32. The constructor of a descriptor accepts exactly the major numbers up to 16, the minor numbers below
  1024, and the offsets below 512 whose sum with the width is at most 512; what it packs is read back
  unchanged by the four accessors, also for a width of zero, except that the major number 16 is stored as 0.
\<close>

theorem descriptor_roundtrip:
  "map_option reg_fields (RegisterDescriptor_new majr minr offset width) =
     (if majr \<le> 16 \<and> minr < 1024 \<and> offset < 512 \<and> offset + width \<le> 512
      then Some (if majr = 16 then 0 else majr, minr, offset, width) else None)"
  using new_is [of majr minr offset width] by (cases "majr = 16") (auto elim!: succeedsE split: if_splits)

text \<open>
  C33. Every descriptor has a major number below 16, a minor number below 1024, an offset below 512 and a
  width of at most 512; setting the offset truncates the width so that the sum stays within 512, setting the
  width succeeds exactly when the sum stays within 512, and both leave the other fields alone.
\<close>

theorem descriptor_bounds:
  "majorNumber r < 16 \<and> minorNumber r < 1024 \<and> reg_offset r < 512 \<and> reg_nBits r \<le> 512 \<and>
   map_option reg_fields (set_offset r n) =
     (if n < 512 then Some (majorNumber r, minorNumber r, n, min (reg_nBits r) (512 - n)) else None) \<and>
   map_option reg_fields (set_nBits r n) =
     (if reg_offset r + n \<le> 512 then Some (majorNumber r, minorNumber r, reg_offset r, n) else None)"
proof -
  have s: "map_option reg_fields (setOffsetWidth r a b) =
      (if a < 512 \<and> a + b \<le> 512 then Some (majorNumber r, minorNumber r, a, b) else None)" for a b
  proof (cases "a < 512 \<and> a + b \<le> 512")
    case True
    then show ?thesis using setOffsetWidth_fields [of a b r]
      by (auto simp: reg_fields_def major_minor_of_high simp del: drop_bit_drop_bit elim!: succeedsE)
  qed (auto simp: setOffsetWidth_is)
  have "map_option reg_fields (set_offset r n) =
      (if n < 512 then Some (majorNumber r, minorNumber r, n, min (reg_nBits r) (512 - n)) else None)"
    by (auto simp: set_offset_def s)
  moreover have "map_option reg_fields (set_nBits r n) =
      (if reg_offset r + n \<le> 512 then Some (majorNumber r, minorNumber r, reg_offset r, n) else None)"
    using field_bounds [of r] s [of "reg_offset r" n] by (auto simp: set_nBits_def)
  ultimately show ?thesis using field_bounds [of r] by blast
qed

text \<open>
  The intersection of two descriptors names exactly the bits that both name, and a descriptor is
  a subset of another exactly when it is not empty and all its bits are bits of the other.
\<close>

theorem descriptor_intersection:
  assumes "reg_ok r" "reg_ok s"
  shows "succeeds (reg_and r s) (\<lambda>i. reg_positions i = reg_positions r \<inter> reg_positions s) \<and>
    isSubsetOf r s = Some (reg_positions r \<noteq> {} \<and> reg_positions r \<subseteq> reg_positions s)"
proof -
  from reg_and_is [OF assms] obtain i where i: "reg_and r s = Some i" "reg_positions i = reg_positions r \<inter> reg_positions s"
    "reg_nBits i \<noteq> 0 \<Longrightarrow> majorNumber i = majorNumber r \<and> minorNumber i = minorNumber r \<and>
      reg_offset i = max (reg_offset r) (reg_offset s) \<and>
      reg_offset i + reg_nBits i = min (reg_offset r + reg_nBits r) (reg_offset s + reg_nBits s)"
    by (auto elim: succeedsE)
  have "isSubsetOf r s = Some (reg_positions r \<noteq> {} \<and> reg_positions r \<subseteq> reg_positions s)"
  proof (cases "reg_nBits i = 0")
    case True
    then have "reg_positions r \<inter> reg_positions s = {}" using i(2) reg_positions_empty [of i] by simp
    then show ?thesis using i(1) True by (auto simp: isSubsetOf_def reg_isEmpty_def)
  next
    case False
    have "reg_offset i = reg_offset r \<and> reg_nBits i = reg_nBits r \<longleftrightarrow> reg_positions i = reg_positions r"
    proof
      assume eq: "reg_positions i = reg_positions r"
      have "k \<in> {reg_offset i..<reg_offset i + reg_nBits i} \<longleftrightarrow> (majorNumber r, minorNumber r, k) \<in> reg_positions i" for k
        using i(3) [OF False] by (simp add: reg_positions_def)
      moreover have "k \<in> {reg_offset r..<reg_offset r + reg_nBits r} \<longleftrightarrow> (majorNumber r, minorNumber r, k) \<in> reg_positions r" for k
        by (simp add: reg_positions_def)
      ultimately have same: "{reg_offset i..<reg_offset i + reg_nBits i} = {reg_offset r..<reg_offset r + reg_nBits r}"
        unfolding eq by blast
      have "reg_nBits r \<noteq> 0" using False eq reg_positions_empty by metis
      with same False show "reg_offset i = reg_offset r \<and> reg_nBits i = reg_nBits r"
        using atLeastLessThan_eq_iff [of "reg_offset i" "reg_offset i + reg_nBits i" "reg_offset r" "reg_offset r + reg_nBits r"] by simp
    qed (use i(3) False in \<open>simp add: reg_positions_def\<close>)
    moreover have "reg_positions i \<noteq> {}" using False by (simp add: reg_positions_empty)
    ultimately show ?thesis using i(1,2) False by (auto simp: isSubsetOf_def reg_isEmpty_def)
  qed
  with i(1,2) show ?thesis by simp
qed

theorem descriptor_intersection_witness:
  "succeeds (reg_and (the (RegisterDescriptor_new 0 5 0 32)) (the (RegisterDescriptor_new 0 5 8 8)))
     (\<lambda>i. reg_positions i = reg_positions (the (RegisterDescriptor_new 0 5 0 32)) \<inter> reg_positions (the (RegisterDescriptor_new 0 5 8 8)))"
proof -
  have "reg_ok (the (RegisterDescriptor_new 0 5 0 32))" "reg_ok (the (RegisterDescriptor_new 0 5 8 8))"
    using new_fields [of 0 5 0 32] new_fields [of 0 5 8 8] by (auto simp: reg_ok_def reg_fields_def elim!: succeedsE)
  from descriptor_intersection [OF this] show ?thesis by blast
qed

end
