(* ===== verification/Register_State.thy ===== *)
theory Register_State
  imports Concrete_Value Interval_Map Register_Descriptor
begin

text \<open>
  The register state that adapts to how registers are accessed
  (\<^verbatim>\<open>BaseSemantics/RegisterStateGeneric.C\<close>): for every major and minor number a list of
  pairs of a register descriptor and the value of those bits. Reading and writing split and join
  the stored pieces, controlled by the two flags \<^verbatim>\<open>accessModifiesExistingLocations\<close> and
  \<^verbatim>\<open>accessCreatesLocations\<close>.

  The definitions take the RISC operators as an argument. A null value pointer is \<open>None\<close> in the
  field \<open>rp_value\<close>. An assertion that fails and the exception \<^verbatim>\<open>RegisterNotPresent\<close> are \<open>None\<close>
  results. The names attached to values as comments, the sets of writers and the access
  properties are bookkeeping beside the values and are left out.
\<close>

section \<open>Data\<close>

type_synonym regstore = "nat \<times> nat"

definition RegStore :: "register_descriptor \<Rightarrow> regstore" where
  "RegStore d = (majorNumber d, minorNumber d)"

record 'v regpair =
  rp_desc :: register_descriptor
  rp_value :: "'v option"

definition RegPair :: "register_descriptor \<Rightarrow> 'v \<Rightarrow> 'v regpair" where
  "RegPair desc value = \<lparr>rp_desc = desc, rp_value = Some value\<rparr>"

definition bit_location :: "register_descriptor \<Rightarrow> nat interval option" where
  "bit_location reg = baseSize (reg_offset reg) (reg_nBits reg)"

definition rp_location :: "'v regpair \<Rightarrow> nat interval option" where
  "rp_location p = bit_location (rp_desc p)"

definition rp_get :: "'v risc_ops \<Rightarrow> 'v regpair \<Rightarrow> register_descriptor \<Rightarrow> 'v option" where
  "rp_get ops p reg = do {
     sub \<leftarrow> isSubsetOf reg (rp_desc p);
     require sub;
     v \<leftarrow> rp_value p;
     if rd_data reg = rd_data (rp_desc p) then Some v
     else do {
       let b = reg_offset reg - reg_offset (rp_desc p);
       op_extract ops v b (b + reg_nBits reg)
     }
   }"

definition has_null_value :: "'v regpair \<Rightarrow> bool" where
  "has_null_value p \<longleftrightarrow> rp_value p = None"

definition sortByOffset :: "'v regpair list \<Rightarrow> 'v regpair list" where
  "sortByOffset ps = sort_key (reg_offset \<circ> rp_desc) ps"

record 'v regstate =
  registers :: "regstore \<rightharpoonup> 'v regpair list"
  accessModifiesExistingLocations :: bool
  accessCreatesLocations :: bool

definition RegisterState_new :: "'v regstate" where
  "RegisterState_new = \<lparr>registers = Map.empty, accessModifiesExistingLocations = True, accessCreatesLocations = True\<rparr>"

definition RegisterState_clear :: "'v regstate \<Rightarrow> 'v regstate" where
  "RegisterState_clear st = st\<lparr>registers := Map.empty\<rparr>"

definition getOrDefault :: "'v regstate \<Rightarrow> register_descriptor \<Rightarrow> 'v regpair list" where
  "getOrDefault st reg = (case registers st (RegStore reg) of None \<Rightarrow> [] | Some ps \<Rightarrow> ps)"

definition set_pairList :: "'v regstate \<Rightarrow> register_descriptor \<Rightarrow> 'v regpair list \<Rightarrow> 'v regstate" where
  "set_pairList st reg ps = st\<lparr>registers := (registers st)(RegStore reg \<mapsto> ps)\<rparr>"

section \<open>Scanning the stored pieces\<close>

text \<open>The piece of the register of \<open>reg\<close> at offset \<open>lo\<close> with \<open>n\<close> bits, whose value the operation \<open>val\<close> computes.\<close>

definition make_part :: "register_descriptor \<Rightarrow> nat \<Rightarrow> nat \<Rightarrow> 'v option \<Rightarrow> 'v regpair option" where
  "make_part reg lo n val = do {
     subreg \<leftarrow> RegisterDescriptor_new (majorNumber reg) (minorNumber reg) lo n;
     v \<leftarrow> val;
     Some (RegPair subreg v)
   }"

definition low_part :: "'v risc_ops \<Rightarrow> register_descriptor \<Rightarrow> nat interval \<Rightarrow> nat interval \<Rightarrow> 'v \<Rightarrow> 'v regpair list option" where
  "low_part ops reg stored overlap v =
     (if ilo overlap > ilo stored then do {
        let nbits = ilo overlap - ilo stored;
        p \<leftarrow> make_part reg (ilo stored) nbits (op_unsignedExtend ops v nbits);
        Some [p]
      } else Some [])"

definition middle_part :: "'v risc_ops \<Rightarrow> register_descriptor \<Rightarrow> nat interval \<Rightarrow> nat interval \<Rightarrow> 'v \<Rightarrow> 'v regpair option" where
  "middle_part ops reg stored overlap v = do {
     let extractBegin = ilo overlap - ilo stored;
     let extractEnd = extractBegin + interval_size overlap;
     make_part reg (ilo overlap) (interval_size overlap) (op_extract ops v extractBegin extractEnd)
   }"

definition high_part :: "'v risc_ops \<Rightarrow> register_descriptor \<Rightarrow> nat interval \<Rightarrow> nat interval \<Rightarrow> 'v \<Rightarrow> 'v regpair list option" where
  "high_part ops reg stored overlap v =
     (if ihi overlap < ihi stored then do {
        let nbits = ihi stored - ihi overlap;
        let extractBegin = ihi overlap + 1 - ilo stored;
        let extractEnd = extractBegin + nbits;
        p \<leftarrow> make_part reg (ihi overlap + 1) nbits (op_extract ops v extractBegin extractEnd);
        Some [p]
      } else Some [])"

text \<open>The accessed and the preserved parts of the pieces in a list.\<close>

fun scanAccessedLocations ::
    "'v risc_ops \<Rightarrow> register_descriptor \<Rightarrow> nat interval \<Rightarrow> 'v regpair list \<Rightarrow> ('v regpair list \<times> 'v regpair list) option" where
  "scanAccessedLocations ops reg accessed [] = Some ([], [])"
| "scanAccessedLocations ops reg accessed (p # ps) = do {
     stored \<leftarrow> rp_location p;
     let overlap = intersection stored accessed;
     if isEmpty overlap then scanAccessedLocations ops reg accessed ps
     else do {
       v \<leftarrow> rp_value p;
       lo \<leftarrow> low_part ops reg stored overlap v;
       mid \<leftarrow> middle_part ops reg stored overlap v;
       hi \<leftarrow> high_part ops reg stored overlap v;
       (accessedParts, preservedParts) \<leftarrow> scanAccessedLocations ops reg accessed ps;
       Some (mid # accessedParts, lo @ hi @ preservedParts)
     }
   }"

fun clearOverlappingLocations :: "nat interval \<Rightarrow> 'v regpair list \<Rightarrow> 'v regpair list option" where
  "clearOverlappingLocations accessed [] = Some []"
| "clearOverlappingLocations accessed (p # ps) = do {
     stored \<leftarrow> rp_location p;
     let overlap = intersection stored accessed;
     rest \<leftarrow> clearOverlappingLocations accessed ps;
     Some ((if \<not> isEmpty overlap then p\<lparr>rp_value := None\<rparr> else p) # rest)
   }"

fun erase_locations :: "nat interval_set \<Rightarrow> 'v regpair list \<Rightarrow> nat interval_set option" where
  "erase_locations s [] = Some s"
| "erase_locations s (p # ps) = do {
     l \<leftarrow> rp_location p;
     s \<leftarrow> IntervalSet_erase s l;
     erase_locations s ps
   }"

definition newLocations :: "nat interval \<Rightarrow> 'v regpair list \<Rightarrow> nat interval list option" where
  "newLocations accessed accessedParts = do {
     s \<leftarrow> IntervalSet_insert IntervalSet_empty accessed;
     s \<leftarrow> erase_locations s accessedParts;
     Some (IntervalSet_intervals s)
   }"

text \<open>The parts that the state does not store, cut out of a value for the whole register.\<close>

fun new_parts :: "'v risc_ops \<Rightarrow> register_descriptor \<Rightarrow> 'v \<Rightarrow> nat interval list \<Rightarrow> 'v regpair list option" where
  "new_parts ops reg dflt [] = Some []"
| "new_parts ops reg dflt (l # ls) = do {
     require (ilo l \<ge> reg_offset reg);
     p \<leftarrow> make_part reg (ilo l) (interval_size l)
       (op_extract ops dflt (ilo l - reg_offset reg) (ihi l + 1 - reg_offset reg));
     ps \<leftarrow> new_parts ops reg dflt ls;
     Some (p # ps)
   }"

fun concat_parts :: "'v risc_ops \<Rightarrow> 'v option \<Rightarrow> 'v regpair list \<Rightarrow> 'v option option" where
  "concat_parts ops retval [] = Some retval"
| "concat_parts ops retval (p # ps) = do {
     v \<leftarrow> rp_value p;
     r \<leftarrow> (case retval of Some r \<Rightarrow> op_concat ops r v | None \<Rightarrow> Some v);
     concat_parts ops (Some r) ps
   }"

definition combine_parts :: "'v risc_ops \<Rightarrow> register_descriptor \<Rightarrow> 'v regpair list \<Rightarrow> 'v option" where
  "combine_parts ops reg retvalParts = do {
     r \<leftarrow> concat_parts ops None (sortByOffset retvalParts);
     retval \<leftarrow> r;
     require (op_nBits ops retval = reg_nBits reg);
     Some retval
   }"

text \<open>
  The accessed parts put back in as large chunks as possible: \<open>part\<close> is the value of the chunk
  from \<open>firstOffset\<close> up to \<open>nextOffset\<close> that is being built.
\<close>

definition chunk_pair :: "'v risc_ops \<Rightarrow> register_descriptor \<Rightarrow> 'v \<Rightarrow> nat \<Rightarrow> nat \<Rightarrow> 'v regpair option" where
  "chunk_pair ops reg part firstOffset nextOffset = do {
     tmpReg \<leftarrow> RegisterDescriptor_new (majorNumber reg) (minorNumber reg) firstOffset (nextOffset - firstOffset);
     require (reg_nBits tmpReg = op_nBits ops part);
     Some (RegPair tmpReg part)
   }"

fun chunk_loop :: "'v risc_ops \<Rightarrow> register_descriptor \<Rightarrow> 'v \<Rightarrow> nat \<Rightarrow> nat \<Rightarrow> 'v regpair list \<Rightarrow> 'v regpair list option" where
  "chunk_loop ops reg part firstOffset nextOffset [] = do {
     p \<leftarrow> chunk_pair ops reg part firstOffset nextOffset;
     Some [p]
   }"
| "chunk_loop ops reg part firstOffset nextOffset (p # ps) = do {
     v \<leftarrow> rp_value p;
     if reg_offset (rp_desc p) = nextOffset then do {
       part \<leftarrow> op_concat ops part v;
       chunk_loop ops reg part firstOffset (nextOffset + reg_nBits (rp_desc p)) ps
     } else do {
       q \<leftarrow> chunk_pair ops reg part firstOffset nextOffset;
       qs \<leftarrow> chunk_loop ops reg v (reg_offset (rp_desc p)) (reg_offset (rp_desc p) + reg_nBits (rp_desc p)) ps;
       Some (q # qs)
     }
   }"

fun rejoin_parts :: "'v risc_ops \<Rightarrow> register_descriptor \<Rightarrow> 'v regpair list \<Rightarrow> 'v regpair list option" where
  "rejoin_parts ops reg [] = Some []"
| "rejoin_parts ops reg (p # ps) = do {
     v \<leftarrow> rp_value p;
     chunk_loop ops reg v (reg_offset (rp_desc p)) (reg_offset (rp_desc p) + reg_nBits (rp_desc p)) ps
   }"

section \<open>Reading\<close>

definition readRegister ::
    "'v risc_ops \<Rightarrow> 'v regstate \<Rightarrow> register_descriptor \<Rightarrow> 'v \<Rightarrow> ('v \<times> 'v regstate) option" where
  "readRegister ops st reg dflt = do {
     require (\<not> reg_isEmpty reg);
     require (reg_nBits reg = op_nBits ops dflt);
     accessedLocation \<leftarrow> bit_location reg;
     let adjustLocations = accessModifiesExistingLocations st;
     case registers st (RegStore reg) of
       None \<Rightarrow>
         if \<not> accessCreatesLocations st then Some (dflt, st)
         else do {
           newval \<leftarrow> op_copy ops dflt;
           Some (newval, set_pairList st reg [RegPair reg newval])
         }
     | Some pairList \<Rightarrow> do {
         (accessedParts, preservedParts) \<leftarrow> scanAccessedLocations ops reg accessedLocation pairList;
         pairList \<leftarrow> (if adjustLocations then clearOverlappingLocations accessedLocation pairList else Some pairList);
         locations \<leftarrow> newLocations accessedLocation accessedParts;
         newParts \<leftarrow> new_parts ops reg dflt locations;
         retval \<leftarrow> combine_parts ops reg (accessedParts @ newParts);
         if adjustLocations then do {
           let pairList = filter (\<lambda>p. \<not> has_null_value p) pairList @ preservedParts;
           if accessCreatesLocations st then Some (retval, set_pairList st reg (pairList @ [RegPair reg retval]))
           else do {
             chunks \<leftarrow> rejoin_parts ops reg (sortByOffset accessedParts);
             Some (retval, set_pairList st reg (pairList @ chunks))
           }
         } else if accessCreatesLocations st then Some (retval, set_pairList st reg (pairList @ newParts))
         else Some (retval, st)
       }
   }"

definition peekRegister ::
    "'v risc_ops \<Rightarrow> 'v regstate \<Rightarrow> register_descriptor \<Rightarrow> 'v \<Rightarrow> 'v option" where
  "peekRegister ops st reg dflt = do {
     require (\<not> reg_isEmpty reg);
     require (reg_nBits reg = op_nBits ops dflt);
     accessedLocation \<leftarrow> bit_location reg;
     case registers st (RegStore reg) of
       None \<Rightarrow> Some dflt
     | Some pairList \<Rightarrow> do {
         (accessedParts, preservedParts) \<leftarrow> scanAccessedLocations ops reg accessedLocation pairList;
         locations \<leftarrow> newLocations accessedLocation accessedParts;
         newParts \<leftarrow> new_parts ops reg dflt locations;
         combine_parts ops reg (accessedParts @ newParts)
       }
   }"

section \<open>Writing\<close>

fun nBitsFound :: "nat interval \<Rightarrow> 'v regpair list \<Rightarrow> nat option" where
  "nBitsFound accessed [] = Some 0"
| "nBitsFound accessed (p # ps) = do {
     stored \<leftarrow> rp_location p;
     n \<leftarrow> nBitsFound accessed ps;
     Some (interval_size (intersection stored accessed) + n)
   }"

text \<open>The new value of a stored piece of which the bits in \<open>overlap\<close> are written.\<close>

definition valueToWrite ::
    "'v risc_ops \<Rightarrow> 'v \<Rightarrow> nat interval \<Rightarrow> nat interval \<Rightarrow> nat interval \<Rightarrow> 'v \<Rightarrow> 'v option" where
  "valueToWrite ops value accessed stored overlap old = do {
     low \<leftarrow> (if ilo overlap > ilo stored
       then do { v \<leftarrow> op_unsignedExtend ops old (ilo overlap - ilo stored); Some (Some v) } else Some None);
     let extractBegin = ilo overlap - ilo accessed;
     midValue \<leftarrow> op_extract ops value extractBegin (extractBegin + interval_size overlap);
     v \<leftarrow> (case low of Some l \<Rightarrow> op_concat ops l midValue | None \<Rightarrow> Some midValue);
     if ihi overlap < ihi stored then do {
       let extractBegin = ihi overlap + 1 - ilo stored;
       hiValue \<leftarrow> op_extract ops old extractBegin (extractBegin + (ihi stored - ihi overlap));
       op_concat ops v hiValue
     } else Some v
   }"

fun write_existing :: "'v risc_ops \<Rightarrow> 'v \<Rightarrow> nat interval \<Rightarrow> 'v regpair list \<Rightarrow> 'v regpair list option" where
  "write_existing ops value accessed [] = Some []"
| "write_existing ops value accessed (p # ps) = do {
     stored \<leftarrow> rp_location p;
     let overlap = intersection stored accessed;
     p' \<leftarrow> (if \<not> isEmpty overlap then do {
         old \<leftarrow> rp_value p;
         v \<leftarrow> valueToWrite ops value accessed stored overlap old;
         require (op_nBits ops v = reg_nBits (rp_desc p));
         Some (p\<lparr>rp_value := Some v\<rparr>)
       } else Some p);
     ps' \<leftarrow> write_existing ops value accessed ps;
     Some (p' # ps')
   }"

fun write_new :: "'v risc_ops \<Rightarrow> register_descriptor \<Rightarrow> 'v \<Rightarrow> nat interval \<Rightarrow> nat interval list \<Rightarrow> 'v regpair list option" where
  "write_new ops reg value accessed [] = Some []"
| "write_new ops reg value accessed (l # ls) = do {
     let extractBegin = ilo l - ilo accessed;
     v \<leftarrow> op_extract ops value extractBegin (extractBegin + interval_size l);
     require (op_nBits ops v = interval_size l);
     p \<leftarrow> make_part reg (ilo l) (interval_size l) (Some v);
     ps \<leftarrow> write_new ops reg value accessed ls;
     Some (p # ps)
   }"

definition writeRegister ::
    "'v risc_ops \<Rightarrow> 'v regstate \<Rightarrow> register_descriptor \<Rightarrow> 'v \<Rightarrow> 'v regstate option" where
  "writeRegister ops st reg value = do {
     require (reg_nBits reg = op_nBits ops value);
     accessedLocation \<leftarrow> bit_location reg;
     case registers st (RegStore reg) of
       None \<Rightarrow>
         if \<not> accessCreatesLocations st then None
         else Some (set_pairList st reg [RegPair reg value])
     | Some pairList \<Rightarrow> do {
         (if \<not> accessCreatesLocations st then do {
            n \<leftarrow> nBitsFound accessedLocation pairList;
            require (n \<le> interval_size accessedLocation);
            require (\<not> n < interval_size accessedLocation)
          } else Some ());
         (accessedParts, preservedParts) \<leftarrow> scanAccessedLocations ops reg accessedLocation pairList;
         pairList \<leftarrow> (if accessModifiesExistingLocations st then clearOverlappingLocations accessedLocation pairList
           else Some pairList);
         locations \<leftarrow> newLocations accessedLocation accessedParts;
         if accessModifiesExistingLocations st then
           Some (set_pairList st reg (filter (\<lambda>p. \<not> has_null_value p) pairList @ preservedParts @ [RegPair reg value]))
         else do {
           pairList \<leftarrow> write_existing ops value accessedLocation pairList;
           news \<leftarrow> write_new ops reg value accessedLocation locations;
           Some (set_pairList st reg (pairList @ news))
         }
       }
   }"

fun erase_scan ::
    "'v risc_ops \<Rightarrow> register_descriptor \<Rightarrow> nat interval \<Rightarrow> 'v regpair list \<Rightarrow> ('v regpair list \<times> 'v regpair list) option" where
  "erase_scan ops reg accessed [] = Some ([], [])"
| "erase_scan ops reg accessed (p # ps) = do {
     have \<leftarrow> rp_location p;
     let i = intersection accessed have;
     if \<not> isEmpty i then do {
       v \<leftarrow> rp_value p;
       lo \<leftarrow> low_part ops reg have i v;
       hi \<leftarrow> high_part ops reg have i v;
       (pairs, nonoverlaps) \<leftarrow> erase_scan ops reg accessed ps;
       Some (p\<lparr>rp_value := None\<rparr> # pairs, lo @ hi @ nonoverlaps)
     } else do {
       (pairs, nonoverlaps) \<leftarrow> erase_scan ops reg accessed ps;
       Some (p # pairs, nonoverlaps)
     }
   }"

definition erase_register :: "'v risc_ops \<Rightarrow> 'v regstate \<Rightarrow> register_descriptor \<Rightarrow> 'v regstate option" where
  "erase_register ops st reg = do {
     require (\<not> reg_isEmpty reg);
     accessedLocation \<leftarrow> bit_location reg;
     case registers st (RegStore reg) of
       None \<Rightarrow> Some st
     | Some pairList \<Rightarrow> do {
         (pairList, nonoverlaps) \<leftarrow> erase_scan ops reg accessedLocation pairList;
         Some (set_pairList st reg (filter (\<lambda>p. \<not> has_null_value p) pairList @ nonoverlaps))
       }
   }"

section \<open>Initialization and queries\<close>

fun initialize_loop :: "'v risc_ops \<Rightarrow> 'v regstate \<Rightarrow> register_descriptor list \<Rightarrow> bool \<Rightarrow> 'v regstate option" where
  "initialize_loop ops st [] initialize_to_zero = Some st"
| "initialize_loop ops st (reg # regs) initialize_to_zero = do {
     val \<leftarrow> (if initialize_to_zero then op_number ops (reg_nBits reg) 0 else op_undefined ops (reg_nBits reg));
     initialize_loop ops (set_pairList st reg (getOrDefault st reg @ [RegPair reg val])) regs initialize_to_zero
   }"

definition initialize_nonoverlapping :: "'v risc_ops \<Rightarrow> 'v regstate \<Rightarrow> register_descriptor list \<Rightarrow> bool \<Rightarrow> 'v regstate option" where
  "initialize_nonoverlapping ops st regs initialize_to_zero =
     initialize_loop ops (RegisterState_clear st) regs initialize_to_zero"

text \<open>The conditions that \<^verbatim>\<open>assertStorageConditions\<close> checks of the list with a given key, after the locations in \<open>found\<close>.\<close>

fun storage_conditions :: "'v risc_ops \<Rightarrow> regstore \<Rightarrow> nat interval_set \<Rightarrow> 'v regpair list \<Rightarrow> bool option" where
  "storage_conditions ops key found [] = Some True"
| "storage_conditions ops key found (p # ps) =
     (if \<not> reg_isValid (rp_desc p) then Some False
      else if majorNumber (rp_desc p) \<noteq> fst key \<or> minorNumber (rp_desc p) \<noteq> snd key then Some False
      else case rp_value p of None \<Rightarrow> Some False
        | Some v \<Rightarrow>
          if op_nBits ops v \<noteq> reg_nBits (rp_desc p) then Some False
          else do {
            l \<leftarrow> rp_location p;
            if im_overlaps (im_map found) l then Some False
            else do { found \<leftarrow> IntervalSet_insert found l; storage_conditions ops key found ps }
          })"

fun any_overlap :: "nat interval \<Rightarrow> 'v regpair list \<Rightarrow> bool option" where
  "any_overlap want [] = Some False"
| "any_overlap want (p # ps) = do {
     l \<leftarrow> rp_location p;
     if \<not> isEmpty (intersection want l) then Some True else any_overlap want ps
   }"

definition is_partly_stored :: "'v regstate \<Rightarrow> register_descriptor \<Rightarrow> bool option" where
  "is_partly_stored st desc = do {
     want \<leftarrow> bit_location desc;
     any_overlap want (getOrDefault st desc)
   }"

definition is_wholly_stored :: "'v regstate \<Rightarrow> register_descriptor \<Rightarrow> bool option" where
  "is_wholly_stored st desc = do {
     l \<leftarrow> bit_location desc;
     desired \<leftarrow> IntervalSet_insert IntervalSet_empty l;
     desired \<leftarrow> erase_locations desired (getOrDefault st desc);
     Some (IntervalSet_isEmpty desired)
   }"

definition is_exactly_stored :: "'v regstate \<Rightarrow> register_descriptor \<Rightarrow> bool" where
  "is_exactly_stored st desc \<longleftrightarrow> (\<exists>p\<in>set (getOrDefault st desc). rd_data desc = rd_data (rp_desc p))"

fun overlapping_pairs :: "nat interval \<Rightarrow> 'v regpair list \<Rightarrow> 'v regpair list option" where
  "overlapping_pairs needleBits [] = Some []"
| "overlapping_pairs needleBits (p # ps) = do {
     l \<leftarrow> rp_location p;
     rest \<leftarrow> overlapping_pairs needleBits ps;
     Some (if \<not> isEmpty (intersection needleBits l) then p # rest else rest)
   }"

definition overlappingRegisters :: "'v regstate \<Rightarrow> register_descriptor \<Rightarrow> 'v regpair list option" where
  "overlappingRegisters st needle = do {
     require (\<not> reg_isEmpty needle);
     needleBits \<leftarrow> bit_location needle;
     overlapping_pairs needleBits (getOrDefault st needle)
   }"

end
