(* ===== verification/Register_Refinement.thy ===== *)
theory Register_Refinement
  imports Register_State
begin

text \<open>
  The register state stands for a partial map from bit positions to bits, whatever pieces it
  stores and however its two flags are set: reading, writing and erasing a register are the obvious
  operations on that map.
\<close>

section \<open>Pieces of a bit map\<close>

text \<open>\<open>val_chunk repr g a n v\<close>: the value \<open>v\<close> has \<open>n\<close> bits, which are the bits of \<open>g\<close> from position \<open>a\<close> on.\<close>

definition val_chunk :: "('v \<Rightarrow> nat \<Rightarrow> nat \<Rightarrow> bool) \<Rightarrow> (nat \<Rightarrow> bool option) \<Rightarrow> nat \<Rightarrow> nat \<Rightarrow> 'v \<Rightarrow> bool" where
  "val_chunk repr g a n v \<longleftrightarrow> (\<exists>x. repr v n x \<and> (\<forall>k<n. g (a + k) = Some (bit x k)))"

definition in_pair :: "'v regpair \<Rightarrow> nat \<Rightarrow> bool" where
  "in_pair p i \<longleftrightarrow> reg_offset (rp_desc p) \<le> i \<and> i < reg_offset (rp_desc p) + reg_nBits (rp_desc p)"

definition covers :: "'v regpair list \<Rightarrow> nat \<Rightarrow> nat" where
  "covers ps i = length (filter (\<lambda>p. in_pair p i) ps)"

definition chunk :: "('v \<Rightarrow> nat \<Rightarrow> nat \<Rightarrow> bool) \<Rightarrow> regstore \<Rightarrow> (nat \<Rightarrow> bool option) \<Rightarrow> 'v regpair \<Rightarrow> bool" where
  "chunk repr key g p \<longleftrightarrow> RegStore (rp_desc p) = key \<and> reg_nBits (rp_desc p) > 0 \<and> reg_ok (rp_desc p) \<and>
     (\<exists>v. rp_value p = Some v \<and> val_chunk repr g (reg_offset (rp_desc p)) (reg_nBits (rp_desc p)) v)"

text \<open>The pieces of a list are disjoint, cover the domain of \<open>g\<close> and hold its bits.\<close>

definition represents :: "('v \<Rightarrow> nat \<Rightarrow> nat \<Rightarrow> bool) \<Rightarrow> regstore \<Rightarrow> (nat \<Rightarrow> bool option) \<Rightarrow> 'v regpair list \<Rightarrow> bool" where
  "represents repr key g ps \<longleftrightarrow> (\<forall>p\<in>set ps. chunk repr key g p) \<and> (\<forall>i. covers ps i = of_bool (g i \<noteq> None))"

definition reg_rep :: "('v \<Rightarrow> nat \<Rightarrow> nat \<Rightarrow> bool) \<Rightarrow> 'v regstate \<Rightarrow> (regstore \<Rightarrow> nat \<Rightarrow> bool option) \<Rightarrow> bool" where
  "reg_rep repr st f \<longleftrightarrow> (\<forall>key. represents repr key (f key) (case registers st key of None \<Rightarrow> [] | Some ps \<Rightarrow> ps))"

section \<open>The operations on the bit map\<close>

definition in_reg :: "register_descriptor \<Rightarrow> nat \<Rightarrow> bool" where
  "in_reg reg i \<longleftrightarrow> reg_offset reg \<le> i \<and> i < reg_offset reg + reg_nBits reg"

definition bits_read :: "(regstore \<Rightarrow> nat \<Rightarrow> bool option) \<Rightarrow> register_descriptor \<Rightarrow> nat \<Rightarrow> nat" where
  "bits_read f reg d = bval (\<lambda>k. case f (RegStore reg) (reg_offset reg + k) of Some b \<Rightarrow> b | None \<Rightarrow> bit d k) (reg_nBits reg)"

definition bits_fill :: "(regstore \<Rightarrow> nat \<Rightarrow> bool option) \<Rightarrow> register_descriptor \<Rightarrow> nat \<Rightarrow> regstore \<Rightarrow> nat \<Rightarrow> bool option" where
  "bits_fill f reg d = f(RegStore reg := (\<lambda>i. if in_reg reg i \<and> f (RegStore reg) i = None
     then Some (bit d (i - reg_offset reg)) else f (RegStore reg) i))"

definition bits_write :: "(regstore \<Rightarrow> nat \<Rightarrow> bool option) \<Rightarrow> register_descriptor \<Rightarrow> nat \<Rightarrow> regstore \<Rightarrow> nat \<Rightarrow> bool option" where
  "bits_write f reg x = f(RegStore reg := (\<lambda>i. if in_reg reg i then Some (bit x (i - reg_offset reg)) else f (RegStore reg) i))"

definition bits_erase :: "(regstore \<Rightarrow> nat \<Rightarrow> bool option) \<Rightarrow> register_descriptor \<Rightarrow> regstore \<Rightarrow> nat \<Rightarrow> bool option" where
  "bits_erase f reg = f(RegStore reg := (\<lambda>i. if in_reg reg i then None else f (RegStore reg) i))"

section \<open>Locations\<close>

lemma covers_simps [simp]: "covers [] i = 0" "covers (p # ps) i = of_bool (in_pair p i) + covers ps i"
  "covers (ps @ qs) i = covers ps i + covers qs i"
  by (simp_all add: covers_def)

lemma covers_pos: "0 < covers ps i \<longleftrightarrow> (\<exists>p\<in>set ps. in_pair p i)"
  by (induction ps) auto

lemma covers_sort [simp]: "covers (sort_key f ps) i = covers ps i"
  by (simp add: covers_def filter_sort)

definition loc :: "register_descriptor \<Rightarrow> nat interval" where
  "loc d = hull (reg_offset d) (reg_offset d + reg_nBits d - 1)"

lemma bit_location_loc: "0 < reg_nBits d \<Longrightarrow> bit_location d = Some (loc d)"
  by (simp add: bit_location_def baseSize_def baseSizeOverflows_def loc_def)

lemma loc_ends: "0 < reg_nBits d \<Longrightarrow> ilo (loc d) = reg_offset d" "0 < reg_nBits d \<Longrightarrow> ihi (loc d) = reg_offset d + reg_nBits d - 1"
  by (simp_all add: loc_def)

lemma loc_set: "0 < reg_nBits d \<Longrightarrow> ivl_set (loc d) = {i. in_reg d i}"
  by (auto simp: loc_def in_reg_def)

lemma loc_not_empty: "\<not> isEmpty (loc d)" "ivl_ok (loc d)"
  by (simp_all add: loc_def)

lemma loc_size: "0 < reg_nBits d \<Longrightarrow> interval_size (loc d) = reg_nBits d"
  by (simp add: interval_size_def loc_def)

text \<open>The overlap of a stored piece with the accessed register.\<close>

lemma overlap_ends:
  assumes "0 < reg_nBits d" "0 < reg_nBits e" "\<not> isEmpty (intersection (loc d) (loc e))"
  shows "ilo (intersection (loc d) (loc e)) = max (reg_offset d) (reg_offset e)"
    "ihi (intersection (loc d) (loc e)) = min (reg_offset d + reg_nBits d) (reg_offset e + reg_nBits e) - 1"
    "max (reg_offset d) (reg_offset e) < min (reg_offset d + reg_nBits d) (reg_offset e + reg_nBits e)"
    "interval_size (intersection (loc d) (loc e)) =
       min (reg_offset d + reg_nBits d) (reg_offset e + reg_nBits e) - max (reg_offset d) (reg_offset e)"
proof -
  have ne: "\<not> (ihi (loc d) < ilo (loc e) \<or> ilo (loc d) > ihi (loc e))"
    using assms(3) by (auto simp: intersection_def)
  then have i: "intersection (loc d) (loc e) = hull (max (ilo (loc d)) (ilo (loc e))) (min (ihi (loc d)) (ihi (loc e)))"
    by (simp add: intersection_def loc_not_empty)
  have arith: "h - 1 - l + 1 = h - l" if "l < h" for l h :: nat using that by simp
  have lt: "max (reg_offset d) (reg_offset e) < min (reg_offset d + reg_nBits d) (reg_offset e + reg_nBits e)"
    using ne assms(1,2) by (auto simp: loc_ends)
  then show "max (reg_offset d) (reg_offset e) < min (reg_offset d + reg_nBits d) (reg_offset e + reg_nBits e)" .
  then have le: "max (reg_offset d) (reg_offset e) \<le> min (reg_offset d + reg_nBits d) (reg_offset e + reg_nBits e) - 1" by linarith
  have m: "min (ihi (loc d)) (ihi (loc e)) = min (reg_offset d + reg_nBits d) (reg_offset e + reg_nBits e) - 1"
    using assms(1,2) by (simp add: loc_ends min_diff)
  show "ilo (intersection (loc d) (loc e)) = max (reg_offset d) (reg_offset e)"
    "ihi (intersection (loc d) (loc e)) = min (reg_offset d + reg_nBits d) (reg_offset e + reg_nBits e) - 1"
    unfolding i m hull_sel loc_ends(1) [OF assms(1)] loc_ends(1) [OF assms(2)]
    using min.absorb1 [OF le] max.absorb2 [OF le] by (simp_all only:)
  then show "interval_size (intersection (loc d) (loc e)) =
       min (reg_offset d + reg_nBits d) (reg_offset e + reg_nBits e) - max (reg_offset d) (reg_offset e)"
    using assms(3) arith [OF lt] by (simp only: interval_size_def if_False)
qed

lemma overlap_empty:
  assumes "0 < reg_nBits d" "0 < reg_nBits e"
  shows "isEmpty (intersection (loc d) (loc e)) \<longleftrightarrow> (\<forall>i. \<not> (in_reg d i \<and> in_reg e i))"
proof -
  have "isEmpty (intersection (loc d) (loc e)) \<longleftrightarrow> ivl_set (loc d) \<inter> ivl_set (loc e) = {}"
    using overlaps_iff [of "loc d" "loc e"] by (simp add: overlaps_def loc_not_empty)
  then show ?thesis using assms by (auto simp: loc_set)
qed

lemma intersection_commute: "intersection i j = intersection j i" for i :: "nat interval"
  by (auto simp: intersection_def max.commute min.commute)

lemma in_pair_reg: "in_pair p i \<longleftrightarrow> in_reg (rp_desc p) i"
  by (simp add: in_pair_def in_reg_def)

lemma in_pair_RegPair [simp]: "in_pair (RegPair d v) i \<longleftrightarrow> in_reg d i"
  by (simp add: in_pair_reg RegPair_def)

lemma RegPair_sel [simp]: "rp_desc (RegPair d v) = d" "rp_value (RegPair d v) = Some v"
  by (simp_all add: RegPair_def)

lemma chunkD:
  assumes "chunk repr key g p"
  shows "RegStore (rp_desc p) = key" "0 < reg_nBits (rp_desc p)" "reg_ok (rp_desc p)" "rp_location p = Some (loc (rp_desc p))"
    "\<exists>v. rp_value p = Some v \<and> val_chunk repr g (reg_offset (rp_desc p)) (reg_nBits (rp_desc p)) v"
  using assms by (auto simp: chunk_def rp_location_def bit_location_loc)

lemma val_chunk_cong:
  assumes "val_chunk repr g a n v" "\<And>i. a \<le> i \<Longrightarrow> i < a + n \<Longrightarrow> g i = h i"
  shows "val_chunk repr h a n v"
  using assms unfolding val_chunk_def by force

lemma chunk_cong:
  assumes "chunk repr key g p" "\<And>i. in_pair p i \<Longrightarrow> g i = h i"
  shows "chunk repr key h p"
  using assms val_chunk_cong [of repr g _ _ _ h] unfolding chunk_def in_pair_def by metis

section \<open>Operators on pieces\<close>

context risc_laws
begin

lemma chunk_extract:
  assumes "val_chunk sv_is g a n v" "i < j" "j \<le> n"
  shows "succeeds (op_extract ops v i j) (val_chunk sv_is g (a + i) (j - i))"
proof -
  obtain x where x: "sv_is v n x" "\<forall>k<n. g (a + k) = Some (bit x k)" using assms(1) by (auto simp: val_chunk_def)
  have b: "bit (x div 2 ^ i mod 2 ^ (j - i)) k \<longleftrightarrow> k < j - i \<and> bit x (i + k)" for k
    by (simp add: bit_simps flip: drop_bit_eq_div take_bit_eq_mod)
  from extract_law [OF x(1) assms(2,3)] show ?thesis
    by (rule succeeds_mono) (use x(2) assms in \<open>auto simp: val_chunk_def b add.assoc intro!: exI\<close>)
qed

lemma chunk_truncate:
  assumes "val_chunk sv_is g a n v" "m \<le> n"
  shows "succeeds (op_unsignedExtend ops v m) (val_chunk sv_is g a m)"
proof -
  obtain x where x: "sv_is v n x" "\<forall>k<n. g (a + k) = Some (bit x k)" using assms(1) by (auto simp: val_chunk_def)
  have b: "bit (x mod 2 ^ m) k \<longleftrightarrow> k < m \<and> bit x k" for k
    by (simp add: bit_simps flip: take_bit_eq_mod)
  from unsignedExtend [OF x(1)] show ?thesis
    by (rule succeeds_mono) (use x(2) assms in \<open>auto simp: val_chunk_def b intro!: exI\<close>)
qed

lemma chunk_concat:
  assumes "val_chunk sv_is g a n v" "val_chunk sv_is g (a + n) m w" "0 < m"
  shows "succeeds (op_concat ops v w) (val_chunk sv_is g a (n + m))"
proof -
  obtain x where x: "sv_is v n x" "\<forall>k<n. g (a + k) = Some (bit x k)" using assms(1) by (auto simp: val_chunk_def)
  obtain y where y: "sv_is w m y" "\<forall>k<m. g (a + n + k) = Some (bit y k)" using assms(2) by (auto simp: val_chunk_def)
  define h where "h k = (if k < n then bit x k else bit y (k - n))" for k
  have "x < 2 ^ n" "y < 2 ^ m" using is_less x(1) y(1) by auto
  then have "bval (bit x) n = x" "bval (bit y) m = y" by (simp_all add: bval_take_bit take_bit_nat_eq_self)
  moreover have "bval h n = bval (bit x) n" "bval (\<lambda>k. h (n + k)) m = bval (bit y) m"
    by (auto simp: h_def intro!: bval_cong)
  ultimately have "x + 2 ^ n * y = bval h (n + m)" by (simp add: bval_add)
  moreover have "g (a + k) = Some (h k)" if "k < n + m" for k
    using x(2) y(2) [rule_format, of "k - n"] that by (cases "k < n") (auto simp: h_def)
  ultimately show ?thesis
    using concat_law [OF x(1) y(1) assms(3)] by (elim succeeds_mono) (auto simp: val_chunk_def intro!: exI)
qed

text \<open>A stored piece that holds the bits of \<open>g\<close> from \<open>a\<close> on.\<close>

definition piece :: "regstore \<Rightarrow> (nat \<Rightarrow> bool option) \<Rightarrow> nat \<Rightarrow> nat \<Rightarrow> 'v regpair \<Rightarrow> bool" where
  "piece key g a n q \<longleftrightarrow> chunk sv_is key g q \<and> reg_offset (rp_desc q) = a \<and> reg_nBits (rp_desc q) = n"

lemma piece_covers: "piece key g a n q \<Longrightarrow> in_pair q i \<longleftrightarrow> a \<le> i \<and> i < a + n"
  by (simp add: piece_def in_pair_def)

lemma new_piece:
  assumes "0 < n" "a + n \<le> 512" "val_chunk sv_is g a n v"
  shows "succeeds (RegisterDescriptor_new (majorNumber reg) (minorNumber reg) a n)
    (\<lambda>d. piece (RegStore reg) g a n (RegPair d v) \<and> reg_nBits d = n)"
  using new_fields [OF field_bounds(1,2) _ assms(2), of reg reg] assms
  by (auto simp: piece_def chunk_def reg_fields_def RegStore_def reg_ok_def elim!: succeeds_mono)

lemma make_part_piece:
  assumes "0 < n" "a + n \<le> 512" "succeeds val (val_chunk sv_is g a n)"
  shows "succeeds (make_part reg a n val) (piece (RegStore reg) g a n)"
proof -
  obtain v where v: "val = Some v" "val_chunk sv_is g a n v" using assms(3) by (auto elim: succeedsE)
  show ?thesis
    unfolding make_part_def v(1) using new_piece [OF assms(1,2) v(2), of reg] by (auto elim!: succeedsE)
qed

text \<open>The parts of one stored piece: below, inside and above the accessed register.\<close>

lemma low_part_chunks:
  assumes p: "chunk sv_is (RegStore reg) g p" "rp_value p = Some v" and n: "0 < reg_nBits reg"
    and ov: "\<not> isEmpty (intersection (loc (rp_desc p)) (loc reg))"
  shows "succeeds (low_part ops reg (loc (rp_desc p)) (intersection (loc (rp_desc p)) (loc reg)) v)
    (\<lambda>qs. (\<forall>q\<in>set qs. chunk sv_is (RegStore reg) g q) \<and> (\<forall>i. covers qs i = of_bool (in_pair p i \<and> i < reg_offset reg)))"
proof (cases "reg_offset (rp_desc p) < reg_offset reg")
  case True
  let ?a = "reg_offset (rp_desc p)" and ?n = "reg_offset reg - reg_offset (rp_desc p)"
  note P = chunkD [OF p(1)] and O = overlap_ends [OF chunkD(2) [OF p(1)] n ov]
  have v: "val_chunk sv_is g ?a (reg_nBits (rp_desc p)) v" using P(5) p(2) by simp
  have "succeeds (make_part reg ?a ?n (op_unsignedExtend ops v ?n)) (piece (RegStore reg) g ?a ?n)"
    using True O(3) P(3) by (intro make_part_piece chunk_truncate [OF v]) (auto simp: reg_ok_def)
  then obtain q where q: "make_part reg ?a ?n (op_unsignedExtend ops v ?n) = Some q" "piece (RegStore reg) g ?a ?n q"
    by (elim succeedsE)
  have "?a + ?n = reg_offset reg" "reg_offset reg < ?a + reg_nBits (rp_desc p)" using True O(3) by simp_all
  then have "in_pair q i \<longleftrightarrow> in_pair p i \<and> i < reg_offset reg" for i
    unfolding piece_covers [OF q(2)] unfolding in_pair_def by linarith
  moreover have "ilo (intersection (loc (rp_desc p)) (loc reg)) = reg_offset reg" "ilo (loc (rp_desc p)) = ?a"
    using True O(1) P(2) by (simp_all add: loc_ends)
  then have "low_part ops reg (loc (rp_desc p)) (intersection (loc (rp_desc p)) (loc reg)) v = Some [q]"
    using True q(1) by (simp only: low_part_def) simp
  moreover have "chunk sv_is (RegStore reg) g q" using q(2) by (simp add: piece_def)
  ultimately show ?thesis by simp
next
  case False
  then show ?thesis
    using overlap_ends(1) [OF chunkD(2) [OF p(1)] n ov] chunkD(2) [OF p(1)] by (auto simp: low_part_def loc_ends in_pair_def)
qed

lemma middle_part_chunk:
  assumes p: "chunk sv_is (RegStore reg) g p" "rp_value p = Some v" and n: "0 < reg_nBits reg"
    and ov: "\<not> isEmpty (intersection (loc (rp_desc p)) (loc reg))"
  shows "succeeds (middle_part ops reg (loc (rp_desc p)) (intersection (loc (rp_desc p)) (loc reg)) v)
    (\<lambda>q. chunk sv_is (RegStore reg) g q \<and> (\<forall>i. in_pair q i \<longleftrightarrow> in_pair p i \<and> in_reg reg i))"
proof -
  let ?o = "intersection (loc (rp_desc p)) (loc reg)" and ?l = "ilo (loc (rp_desc p))"
  note P = chunkD [OF p(1)] and O = overlap_ends [OF chunkD(2) [OF p(1)] n ov]
  have v: "val_chunk sv_is g ?l (reg_nBits (rp_desc p)) v" using P(2,5) p(2) by (simp add: loc_ends)
  have m: "ilo ?o - ?l + interval_size ?o \<le> reg_nBits (rp_desc p)" "0 < interval_size ?o" "ilo ?o + interval_size ?o \<le> 512" "?l \<le> ilo ?o"
    using O P(2,3) by (auto simp: loc_ends reg_ok_def)
  then have "succeeds (op_extract ops v (ilo ?o - ?l) (ilo ?o - ?l + interval_size ?o)) (val_chunk sv_is g (ilo ?o) (interval_size ?o))"
    using chunk_extract [OF v, of "ilo ?o - ?l" "ilo ?o - ?l + interval_size ?o"] by simp
  from make_part_piece [OF m(2,3) this, of reg] show ?thesis
    unfolding middle_part_def Let_def
  proof (rule succeeds_mono)
    fix q assume q: "piece (RegStore reg) g (ilo ?o) (interval_size ?o) q"
    have "ilo ?o + interval_size ?o = min (reg_offset (rp_desc p) + reg_nBits (rp_desc p)) (reg_offset reg + reg_nBits reg)"
      using O by simp
    then have "in_pair q i \<longleftrightarrow> in_pair p i \<and> in_reg reg i" for i
      unfolding piece_covers [OF q] unfolding O(1) in_pair_def in_reg_def by auto
    with q show "chunk sv_is (RegStore reg) g q \<and> (\<forall>i. in_pair q i \<longleftrightarrow> in_pair p i \<and> in_reg reg i)"
      by (simp add: piece_def)
  qed
qed

lemma high_part_chunks:
  assumes p: "chunk sv_is (RegStore reg) g p" "rp_value p = Some v" and n: "0 < reg_nBits reg"
    and ov: "\<not> isEmpty (intersection (loc (rp_desc p)) (loc reg))"
  shows "succeeds (high_part ops reg (loc (rp_desc p)) (intersection (loc (rp_desc p)) (loc reg)) v)
    (\<lambda>qs. (\<forall>q\<in>set qs. chunk sv_is (RegStore reg) g q) \<and>
      (\<forall>i. covers qs i = of_bool (in_pair p i \<and> reg_offset reg + reg_nBits reg \<le> i)))"
proof (cases "reg_offset reg + reg_nBits reg < reg_offset (rp_desc p) + reg_nBits (rp_desc p)")
  case True
  let ?o = "intersection (loc (rp_desc p)) (loc reg)" and ?d = "rp_desc p"
  let ?a = "reg_offset reg + reg_nBits reg" and ?n = "reg_offset ?d + reg_nBits ?d - (reg_offset reg + reg_nBits reg)"
  note P = chunkD [OF p(1)] and O = overlap_ends [OF chunkD(2) [OF p(1)] n ov]
  have v: "val_chunk sv_is g (reg_offset ?d) (reg_nBits ?d) v" using P(5) p(2) by simp
  have e: "ihi ?o + 1 = ?a" "ihi (loc ?d) - ihi ?o = ?n" "ihi ?o < ihi (loc ?d)" "ilo (loc ?d) = reg_offset ?d" "reg_offset ?d \<le> ?a"
    using True O P(2) n by (auto simp: loc_ends)
  have "succeeds (op_extract ops v (?a - reg_offset ?d) (?a - reg_offset ?d + ?n)) (val_chunk sv_is g ?a ?n)"
  proof -
    have "reg_offset ?d + (?a - reg_offset ?d) = ?a" "?a - reg_offset ?d + ?n - (?a - reg_offset ?d) = ?n"
      "?a - reg_offset ?d < ?a - reg_offset ?d + ?n" "?a - reg_offset ?d + ?n \<le> reg_nBits ?d"
      using True e(5) by linarith+
    then show ?thesis using chunk_extract [OF v, of "?a - reg_offset ?d" "?a - reg_offset ?d + ?n"] by (simp only:)
  qed
  then have "succeeds (make_part reg ?a ?n (op_extract ops v (?a - reg_offset ?d) (?a - reg_offset ?d + ?n))) (piece (RegStore reg) g ?a ?n)"
    using True P(3) by (intro make_part_piece) (auto simp: reg_ok_def)
  then obtain q where q: "make_part reg ?a ?n (op_extract ops v (?a - reg_offset ?d) (?a - reg_offset ?d + ?n)) = Some q"
    "piece (RegStore reg) g ?a ?n q" by (elim succeedsE)
  have "?a + ?n = reg_offset ?d + reg_nBits ?d" using True by simp
  then have "in_pair q i \<longleftrightarrow> in_pair p i \<and> ?a \<le> i" for i
    unfolding piece_covers [OF q(2)] unfolding in_pair_def using e(5) by linarith
  moreover have "high_part ops reg (loc ?d) ?o v = Some [q]"
    using e(3) q(1) by (simp only: high_part_def Let_def e) simp
  moreover have "chunk sv_is (RegStore reg) g q" using q(2) by (simp add: piece_def)
  ultimately show ?thesis by simp
next
  case False
  then show ?thesis
    using overlap_ends(2) [OF chunkD(2) [OF p(1)] n ov] chunkD(2) [OF p(1)] n by (auto simp: high_part_def loc_ends in_pair_def)
qed

text \<open>Whether a stored piece shares a bit with the register.\<close>

definition hits :: "register_descriptor \<Rightarrow> 'v regpair \<Rightarrow> bool" where
  "hits reg p \<longleftrightarrow> \<not> isEmpty (intersection (loc (rp_desc p)) (loc reg))"

lemma hits_iff:
  assumes "chunk sv_is key g p" "0 < reg_nBits reg"
  shows "hits reg p \<longleftrightarrow> (\<exists>i. in_pair p i \<and> in_reg reg i)"
  using overlap_empty [OF chunkD(2) [OF assms(1)] assms(2)] by (auto simp: hits_def in_pair_reg)

lemma scan_is:
  assumes n: "0 < reg_nBits reg" and "\<forall>p\<in>set ps. chunk sv_is (RegStore reg) g p"
  shows "succeeds (scanAccessedLocations ops reg (loc reg) ps) (\<lambda>(as, prs).
    (\<forall>q\<in>set (as @ prs). chunk sv_is (RegStore reg) g q) \<and>
    (\<forall>i. covers as i = (if in_reg reg i then covers ps i else 0)) \<and>
    (\<forall>i. covers prs i = (if in_reg reg i then 0 else covers (filter (hits reg) ps) i)))"
  using assms(2)
proof (induction ps)
  case Nil
  then show ?case by simp
next
  case (Cons p ps)
  have p: "chunk sv_is (RegStore reg) g p" using Cons.prems by simp
  note P = chunkD [OF p]
  obtain v where v: "rp_value p = Some v" using P(5) by blast
  from Cons obtain as prs where sc: "scanAccessedLocations ops reg (loc reg) ps = Some (as, prs)"
    and ch: "\<forall>q\<in>set (as @ prs). chunk sv_is (RegStore reg) g q"
    and as: "\<forall>i. covers as i = (if in_reg reg i then covers ps i else 0)"
    and prs: "\<forall>i. covers prs i = (if in_reg reg i then 0 else covers (filter (hits reg) ps) i)"
    by (auto elim!: succeedsE)
  show ?case
  proof (cases "hits reg p")
    case True
    then have ov: "\<not> isEmpty (intersection (loc (rp_desc p)) (loc reg))" by (simp add: hits_def)
    obtain lo where lo: "low_part ops reg (loc (rp_desc p)) (intersection (loc (rp_desc p)) (loc reg)) v = Some lo"
      "\<forall>q\<in>set lo. chunk sv_is (RegStore reg) g q" "\<forall>i. covers lo i = of_bool (in_pair p i \<and> i < reg_offset reg)"
      using low_part_chunks [OF p v n ov] by (auto elim: succeedsE)
    obtain mid where mid: "middle_part ops reg (loc (rp_desc p)) (intersection (loc (rp_desc p)) (loc reg)) v = Some mid"
      "chunk sv_is (RegStore reg) g mid" "\<forall>i. in_pair mid i \<longleftrightarrow> in_pair p i \<and> in_reg reg i"
      using middle_part_chunk [OF p v n ov] by (auto elim: succeedsE)
    obtain hi where hi: "high_part ops reg (loc (rp_desc p)) (intersection (loc (rp_desc p)) (loc reg)) v = Some hi"
      "\<forall>q\<in>set hi. chunk sv_is (RegStore reg) g q"
      "\<forall>i. covers hi i = of_bool (in_pair p i \<and> reg_offset reg + reg_nBits reg \<le> i)"
      using high_part_chunks [OF p v n ov] by (auto elim: succeedsE)
    have "scanAccessedLocations ops reg (loc reg) (p # ps) = Some (mid # as, lo @ hi @ prs)"
      using P(4) v ov lo(1) mid(1) hi(1) sc by simp
    moreover have "covers (mid # as) i = (if in_reg reg i then covers (p # ps) i else 0)" for i
      using mid(3) as by simp
    moreover have "covers (lo @ hi @ prs) i = (if in_reg reg i then 0 else covers (filter (hits reg) (p # ps)) i)" for i
      using lo(3) hi(3) prs True by (auto simp: in_reg_def)
    ultimately show ?thesis using ch lo(2) mid(2) hi(2) by auto
  next
    case False
    then have "isEmpty (intersection (loc (rp_desc p)) (loc reg))" by (simp add: hits_def)
    then have "scanAccessedLocations ops reg (loc reg) (p # ps) = Some (as, prs)" using P(4) sc by simp
    moreover have "covers (p # ps) i = covers ps i" if "in_reg reg i" for i
      using hits_iff [OF p n] False that by auto
    ultimately show ?thesis using ch as prs False by auto
  qed
qed

text \<open>Pieces outside the register stay, with the preserved parts of the others.\<close>

lemma clear_is:
  assumes "\<forall>p\<in>set ps. chunk sv_is key g p"
  shows "clearOverlappingLocations (loc reg) ps = Some (map (\<lambda>p. if hits reg p then p\<lparr>rp_value := None\<rparr> else p) ps)"
  using assms
proof (induction ps)
  case (Cons p ps)
  then show ?case using chunkD(4) [of sv_is key g p] by (simp add: hits_def)
qed simp

lemma filter_cleared:
  assumes "\<forall>p\<in>set ps. chunk sv_is key g p"
  shows "filter (\<lambda>p. \<not> has_null_value p) (map (\<lambda>p. if hits reg p then p\<lparr>rp_value := None\<rparr> else p) ps) = filter (\<lambda>p. \<not> hits reg p) ps"
  using assms by (induction ps) (auto simp: has_null_value_def chunk_def)

lemma kept_covers:
  assumes n: "0 < reg_nBits reg" and "\<forall>p\<in>set ps. chunk sv_is key g p"
    and prs: "\<forall>i. covers prs i = (if in_reg reg i then 0 else covers (filter (hits reg) ps) i)"
  shows "covers (filter (\<lambda>p. \<not> hits reg p) ps @ prs) i = (if in_reg reg i then 0 else covers ps i)"
proof -
  have "covers (filter (\<lambda>p. \<not> hits reg p) ps) i + covers (filter (hits reg) ps) i = covers ps i"
    by (induction ps) auto
  moreover have "covers (filter (\<lambda>p. \<not> hits reg p) ps) i = 0" if "in_reg reg i"
  proof (rule ccontr)
    assume "covers (filter (\<lambda>p. \<not> hits reg p) ps) i \<noteq> 0"
    then obtain p where p: "p \<in> set ps" "\<not> hits reg p" "in_pair p i"
      using covers_pos [of "filter (\<lambda>p. \<not> hits reg p) ps" i] by auto
    with hits_iff [OF _ n, of key g p] assms(2) that show False by blast
  qed
  ultimately show ?thesis using prs by auto
qed

text \<open>The locations that are not stored yet.\<close>

lemma count_lookup:
  fixes ns :: "(nat, 'w) node list"
  assumes "nodes_ok ns"
  shows "length (filter (\<lambda>l. ilo l \<le> i \<and> i \<le> ihi l) (map fst ns)) = of_bool (lookup ns i \<noteq> None)"
  using assms
proof (induction ns)
  case (Cons m ns)
  have "lookup ns i = None" if "i \<le> ihi (fst m)"
    using Cons.prems that by (intro lookup_below) (auto simp: nodes_ok_Cons before_node_def)
  with Cons show ?case by (auto simp: nodes_ok_Cons)
qed simp

lemma erase_locations_is:
  assumes "im_ok s" "\<forall>p\<in>set ps. chunk sv_is key g p"
  shows "succeeds (erase_locations s ps) (\<lambda>s'. im_ok s' \<and>
    (\<forall>x. lookup (im_map s') x = (if 0 < covers ps x then None else lookup (im_map s) x)))"
  using assms
proof (induction ps arbitrary: s)
  case (Cons p ps)
  have p: "rp_location p = Some (loc (rp_desc p))" "ivl_set (loc (rp_desc p)) = {i. in_pair p i}"
    using Cons.prems(2) chunkD(2,4) [of sv_is key g p] by (auto simp: loc_set in_pair_reg)
  from nat_scalar.erase_is [OF Cons.prems(1) loc_not_empty(2), of "rp_desc p"]
  obtain s1 where s1: "IntervalSet_erase s (loc (rp_desc p)) = Some s1" "im_ok s1"
    "\<forall>x. lookup (im_map s1) x = (if in_pair p x then None else lookup (im_map s) x)"
    by (auto simp: IntervalSet_erase_def p(2) elim!: succeedsE)
  have "succeeds (erase_locations s1 ps) (\<lambda>s'. im_ok s' \<and>
      (\<forall>x. lookup (im_map s') x = (if 0 < covers ps x then None else lookup (im_map s1) x)))"
    using Cons s1(2) by simp
  then show ?case using p(1) s1 by (auto elim!: succeeds_mono)
qed simp

lemma insert_empty_is:
  assumes "0 < reg_nBits reg"
  shows "succeeds (IntervalSet_insert IntervalSet_empty (loc reg)) (\<lambda>s. im_ok s \<and>
    (\<forall>x. lookup (im_map s) x = (if in_reg reg x then Some 0 else None)))"
proof -
  have "im_ok (IntervalSet_empty :: nat interval_set)" by (simp add: im_ok_def IntervalSet_empty_def)
  from nat_scalar.insert_is [OF this loc_not_empty(2), of reg 0] show ?thesis
    by (simp add: IntervalSet_insert_def loc_set [OF assms] IntervalSet_empty_def cong: if_cong)
qed

definition count_in :: "nat interval list \<Rightarrow> nat \<Rightarrow> nat" where
  "count_in ls i = length (filter (\<lambda>l. ilo l \<le> i \<and> i \<le> ihi l) ls)"

lemma newLocations_is:
  assumes n: "0 < reg_nBits reg" and "\<forall>p\<in>set as. chunk sv_is key g p"
  shows "succeeds (newLocations (loc reg) as) (\<lambda>ls.
    (\<forall>l\<in>set ls. \<not> isEmpty l \<and> ilo l \<le> ihi l \<and> reg_offset reg \<le> ilo l \<and> ihi l < reg_offset reg + reg_nBits reg) \<and>
    (\<forall>i. count_in ls i = of_bool (in_reg reg i \<and> covers as i = 0)))"
  unfolding newLocations_def
proof (rule succeeds_bind [OF insert_empty_is [OF n]])
  fix s :: "nat interval_set" assume s: "im_ok s \<and> (\<forall>x. lookup (im_map s) x = (if in_reg reg x then Some 0 else None))"
  with erase_locations_is [OF _ assms(2), of s] obtain s' where
    s': "erase_locations s as = Some s'" "im_ok s'"
      "\<forall>x. lookup (im_map s') x = (if 0 < covers as x then None else if in_reg reg x then Some 0 else None)"
    by (auto elim!: succeedsE)
  have ok: "nodes_ok (im_map s')" using s'(2) by (simp add: im_ok_def)
  have c: "count_in (IntervalSet_intervals s') i = of_bool (in_reg reg i \<and> covers as i = 0)" for i
    using count_lookup [OF ok, of i] s'(3) by (simp add: count_in_def IntervalSet_intervals_def)
  have "\<not> isEmpty l \<and> ilo l \<le> ihi l \<and> reg_offset reg \<le> ilo l \<and> ihi l < reg_offset reg + reg_nBits reg"
    if l: "l \<in> set (IntervalSet_intervals s')" for l
  proof -
    have lo: "\<not> isEmpty l" "ilo l \<le> ihi l" using ok l by (auto simp: IntervalSet_intervals_def nodes_ok_def node_ok_def)
    then have "0 < count_in (IntervalSet_intervals s') (ilo l)" "0 < count_in (IntervalSet_intervals s') (ihi l)"
      using l by (auto simp: count_in_def filter_empty_conv simp flip: length_greater_0_conv intro: length_pos_if_in_set)
    then show ?thesis using lo by (simp add: c in_reg_def)
  qed
  with c s'(1) show "succeeds (do { s \<leftarrow> erase_locations s as; Some (IntervalSet_intervals s) }) (\<lambda>ls.
      (\<forall>l\<in>set ls. \<not> isEmpty l \<and> ilo l \<le> ihi l \<and> reg_offset reg \<le> ilo l \<and> ihi l < reg_offset reg + reg_nBits reg) \<and>
      (\<forall>i. count_in ls i = of_bool (in_reg reg i \<and> covers as i = 0)))"
    by simp
qed

text \<open>Parts of a value for the whole register.\<close>

lemma part_of_value:
  assumes v: "val_chunk sv_is h (reg_offset reg) (reg_nBits reg) v" and reg: "reg_ok reg"
    and l: "ilo l \<le> ihi l" "reg_offset reg \<le> ilo l" "ihi l < reg_offset reg + reg_nBits reg" "\<not> isEmpty l"
  shows "succeeds (op_extract ops v (ilo l - reg_offset reg) (ilo l - reg_offset reg + interval_size l))
      (val_chunk sv_is h (ilo l) (interval_size l))"
    "0 < interval_size l" "ilo l + interval_size l \<le> 512" "ihi l + 1 - reg_offset reg = ilo l - reg_offset reg + interval_size l"
    "ilo l + interval_size l = Suc (ihi l)"
proof -
  have sz: "interval_size l = ihi l - ilo l + 1" using l(4) by (simp add: interval_size_def)
  then show "0 < interval_size l" "ilo l + interval_size l \<le> 512"
    "ihi l + 1 - reg_offset reg = ilo l - reg_offset reg + interval_size l" "ilo l + interval_size l = Suc (ihi l)"
    using l reg by (auto simp: reg_ok_def)
  show "succeeds (op_extract ops v (ilo l - reg_offset reg) (ilo l - reg_offset reg + interval_size l))
      (val_chunk sv_is h (ilo l) (interval_size l))"
  proof -
    have "reg_offset reg + (ilo l - reg_offset reg) = ilo l" "ilo l - reg_offset reg + interval_size l - (ilo l - reg_offset reg) = interval_size l"
      "ilo l - reg_offset reg < ilo l - reg_offset reg + interval_size l" "ilo l - reg_offset reg + interval_size l \<le> reg_nBits reg"
      using l sz by linarith+
    then show ?thesis
      using chunk_extract [OF v, of "ilo l - reg_offset reg" "ilo l - reg_offset reg + interval_size l"] by (simp only:)
  qed
qed

lemma new_parts_is:
  assumes v: "val_chunk sv_is h (reg_offset reg) (reg_nBits reg) v" and reg: "reg_ok reg"
    and "\<forall>l\<in>set ls. \<not> isEmpty l \<and> ilo l \<le> ihi l \<and> reg_offset reg \<le> ilo l \<and> ihi l < reg_offset reg + reg_nBits reg"
  shows "succeeds (new_parts ops reg v ls) (\<lambda>qs. (\<forall>q\<in>set qs. chunk sv_is (RegStore reg) h q) \<and> (\<forall>i. covers qs i = count_in ls i))"
    "succeeds (write_new ops reg v (loc reg) ls) (\<lambda>qs. (\<forall>q\<in>set qs. chunk sv_is (RegStore reg) h q) \<and> (\<forall>i. covers qs i = count_in ls i))"
proof -
  have both: "\<exists>qs. new_parts ops reg v ls = Some qs \<and> write_new ops reg v (loc reg) ls = Some qs \<and>
      (\<forall>q\<in>set qs. chunk sv_is (RegStore reg) h q) \<and> (\<forall>i. covers qs i = count_in ls i)"
    using assms(3)
  proof (induction ls)
    case Nil
    then show ?case by (simp add: count_in_def)
  next
    case (Cons l ls)
    then have l: "ilo l \<le> ihi l" "reg_offset reg \<le> ilo l" "ihi l < reg_offset reg + reg_nBits reg" "\<not> isEmpty l" by auto
    note L = part_of_value [OF v reg l]
    obtain w where w: "op_extract ops v (ilo l - reg_offset reg) (ilo l - reg_offset reg + interval_size l) = Some w"
      "val_chunk sv_is h (ilo l) (interval_size l) w" using L(1) by (elim succeedsE)
    have "succeeds (make_part reg (ilo l) (interval_size l) (Some w)) (piece (RegStore reg) h (ilo l) (interval_size l))"
      using w(2) by (intro make_part_piece [OF L(2,3)]) simp
    then obtain q where q: "make_part reg (ilo l) (interval_size l) (Some w) = Some q" "piece (RegStore reg) h (ilo l) (interval_size l) q"
      by (elim succeedsE)
    have width: "op_nBits ops w = interval_size l" using w(2) is_width by (auto simp: val_chunk_def)
    have nz: "0 < reg_nBits reg" using l by linarith
    obtain qs where qs: "new_parts ops reg v ls = Some qs" "write_new ops reg v (loc reg) ls = Some qs"
      "\<forall>q\<in>set qs. chunk sv_is (RegStore reg) h q" "\<forall>i. covers qs i = count_in ls i"
      using Cons by auto
    have "in_pair q i \<longleftrightarrow> ilo l \<le> i \<and> i \<le> ihi l" for i
      unfolding piece_covers [OF q(2)] L(5) by auto
    then have "covers (q # qs) i = count_in (l # ls) i" for i using qs(4) by (simp add: count_in_def)
    moreover have "chunk sv_is (RegStore reg) h q" using q(2) by (simp add: piece_def)
    moreover have "make_part reg (ilo l) (interval_size l)
        (op_extract ops v (ilo l - reg_offset reg) (ihi l + 1 - reg_offset reg)) = Some q"
      unfolding L(4) w(1) by (rule q(1))
    then have "new_parts ops reg v (l # ls) = Some (q # qs)" using l(2) qs(1) by (simp only: new_parts.simps) simp
    moreover have "write_new ops reg v (loc reg) (l # ls) = Some (q # qs)"
      unfolding write_new.simps Let_def loc_ends(1) [OF nz] w(1) using q(1) qs(2) width by simp
    ultimately show ?case using qs(3) by (intro exI [of _ "q # qs"]) (simp del: covers_simps)
  qed
  then show "succeeds (new_parts ops reg v ls) (\<lambda>qs. (\<forall>q\<in>set qs. chunk sv_is (RegStore reg) h q) \<and> (\<forall>i. covers qs i = count_in ls i))"
    "succeeds (write_new ops reg v (loc reg) ls) (\<lambda>qs. (\<forall>q\<in>set qs. chunk sv_is (RegStore reg) h q) \<and> (\<forall>i. covers qs i = count_in ls i))"
    by auto
qed

text \<open>Sorted disjoint pieces that fill a range are consecutive.\<close>

fun consecutive :: "nat \<Rightarrow> 'v regpair list \<Rightarrow> bool" where
  "consecutive s [] = True"
| "consecutive s (p # ps) \<longleftrightarrow> reg_offset (rp_desc p) = s \<and> consecutive (s + reg_nBits (rp_desc p)) ps"

definition total :: "'v regpair list \<Rightarrow> nat" where
  "total ps = sum_list (map (reg_nBits \<circ> rp_desc) ps)"

lemma sorted_consecutive:
  assumes "sorted (map (reg_offset \<circ> rp_desc) ps)" "\<forall>p\<in>set ps. 0 < reg_nBits (rp_desc p)"
    "\<forall>i. covers ps i = of_bool (s \<le> i \<and> i < e)" "s \<le> e"
  shows "consecutive s ps \<and> s + total ps = e"
  using assms
proof (induction ps arbitrary: s)
  case Nil
  then have "\<not> s < e" by (auto dest: spec [of _ s])
  with Nil.prems(4) show ?case by (simp add: total_def)
next
  case (Cons p ps)
  let ?o = "reg_offset (rp_desc p)" and ?n = "reg_nBits (rp_desc p)"
  have n: "0 < ?n" using Cons.prems(2) by simp
  have cov: "of_bool (in_pair p i) + covers ps i = of_bool (s \<le> i \<and> i < e)" for i using Cons.prems(3) by simp
  have "in_pair p ?o" "in_pair p (?o + ?n - 1)" using n by (auto simp: in_pair_def)
  with cov [of ?o] cov [of "?o + ?n - 1"] have b: "s \<le> ?o" "?o < e" "?o + ?n - 1 < e" by (auto split: split_of_bool_asm)
  have "\<exists>q\<in>set (p # ps). in_pair q s"
    using Cons.prems(3) b covers_pos [of "p # ps" s] by auto
  then have "?o \<le> s" using Cons.prems(1) by (auto simp: in_pair_def)
  with b have o: "?o = s" by simp
  have "covers ps i = of_bool (s + ?n \<le> i \<and> i < e)" for i
    using cov [of i] b n o by (auto simp: in_pair_def split: split_of_bool_asm)
  moreover have "s + ?n \<le> e" using b n o by linarith
  ultimately have "consecutive (s + ?n) ps \<and> s + ?n + total ps = e" using Cons.prems(1,2) by (intro Cons.IH) auto
  with o show ?case by (simp add: total_def add.assoc)
qed

lemma concat_consecutive:
  assumes "\<forall>p\<in>set ps. chunk sv_is key g p" "consecutive (a + m) ps" "val_chunk sv_is g a m r"
  shows "succeeds (concat_parts ops (Some r) ps) (\<lambda>x. \<exists>v. x = Some v \<and> val_chunk sv_is g a (m + total ps) v)"
  using assms
proof (induction ps arbitrary: m r)
  case Nil
  then show ?case by (simp add: total_def)
next
  case (Cons p ps)
  have p: "chunk sv_is key g p" "reg_offset (rp_desc p) = a + m" using Cons.prems by auto
  obtain v where v: "rp_value p = Some v" "val_chunk sv_is g (a + m) (reg_nBits (rp_desc p)) v"
    using chunkD(5) [OF p(1)] p(2) by auto
  from chunk_concat [OF Cons.prems(3) v(2) chunkD(2) [OF p(1)]] obtain w where
    w: "op_concat ops r v = Some w" "val_chunk sv_is g a (m + reg_nBits (rp_desc p)) w" by (elim succeedsE)
  have "succeeds (concat_parts ops (Some w) ps) (\<lambda>x. \<exists>v. x = Some v \<and> val_chunk sv_is g a (m + reg_nBits (rp_desc p) + total ps) v)"
    using Cons.prems w(2) by (intro Cons.IH) (auto simp: add.assoc)
  then show ?case using v(1) w(1) by (simp add: total_def add.assoc)
qed

lemma combine_is:
  assumes n: "0 < reg_nBits reg" and qs: "\<forall>p\<in>set qs. chunk sv_is key g p" "\<forall>i. covers qs i = of_bool (in_reg reg i)"
  shows "succeeds (combine_parts ops reg qs) (val_chunk sv_is g (reg_offset reg) (reg_nBits reg))"
proof -
  let ?ps = "sortByOffset qs"
  have ps: "\<forall>p\<in>set ?ps. chunk sv_is key g p" using qs(1) by (simp add: sortByOffset_def)
  have "consecutive (reg_offset reg) ?ps \<and> reg_offset reg + total ?ps = reg_offset reg + reg_nBits reg"
  proof (rule sorted_consecutive)
    show "sorted (map (reg_offset \<circ> rp_desc) ?ps)" unfolding sortByOffset_def by (rule sorted_sort_key)
    show "\<forall>p\<in>set ?ps. 0 < reg_nBits (rp_desc p)" using ps chunkD(2) by blast
    show "\<forall>i. covers ?ps i = of_bool (reg_offset reg \<le> i \<and> i < reg_offset reg + reg_nBits reg)"
      using qs(2) by (simp add: sortByOffset_def in_reg_def)
  qed simp
  then have co: "consecutive (reg_offset reg) ?ps" and tot: "total ?ps = reg_nBits reg" by auto
  obtain p rest where pr: "?ps = p # rest" using tot n by (cases ?ps) (auto simp: total_def)
  have p: "chunk sv_is key g p" "reg_offset (rp_desc p) = reg_offset reg" using ps co by (simp_all add: pr)
  obtain v where v: "rp_value p = Some v" "val_chunk sv_is g (reg_offset reg) (reg_nBits (rp_desc p)) v"
    using chunkD(5) [OF p(1)] p(2) by auto
  have "succeeds (concat_parts ops (Some v) rest) (\<lambda>x. \<exists>w. x = Some w \<and> val_chunk sv_is g (reg_offset reg) (reg_nBits (rp_desc p) + total rest) w)"
    using ps co v(2) by (intro concat_consecutive) (auto simp: pr)
  moreover have "reg_nBits (rp_desc p) + total rest = reg_nBits reg" using tot by (simp add: pr total_def)
  ultimately obtain w where w: "concat_parts ops None ?ps = Some (Some w)" "val_chunk sv_is g (reg_offset reg) (reg_nBits reg) w"
    using v(1) by (auto simp: pr elim!: succeedsE)
  have "op_nBits ops w = reg_nBits reg" using w(2) is_width by (auto simp: val_chunk_def)
  with w show ?thesis by (simp add: combine_parts_def)
qed

lemma chunk_pair_is:
  assumes "val_chunk sv_is g a (e - a) v" "a < e" "e \<le> 512"
  shows "succeeds (chunk_pair ops reg v a e) (piece (RegStore reg) g a (e - a))"
proof -
  have "op_nBits ops v = e - a" using assms(1) is_width by (auto simp: val_chunk_def)
  with new_piece [OF _ _ assms(1), of reg] assms(2,3) show ?thesis
    unfolding chunk_pair_def by (auto elim!: succeedsE)
qed

lemma chunk_loop_is:
  assumes "\<forall>p\<in>set ps. chunk sv_is (RegStore reg) g p" "val_chunk sv_is g a (e - a) v" "a < e" "e \<le> 512"
  shows "succeeds (chunk_loop ops reg v a e ps) (\<lambda>qs. (\<forall>q\<in>set qs. chunk sv_is (RegStore reg) g q) \<and>
    (\<forall>i. covers qs i = of_bool (a \<le> i \<and> i < e) + covers ps i))"
  using assms
proof (induction ps arbitrary: v a e)
  case Nil
  obtain q where q: "chunk_pair ops reg v a e = Some q" "piece (RegStore reg) g a (e - a) q"
    using chunk_pair_is [OF Nil.prems(2-4), of reg] by (elim succeedsE)
  have "in_pair q i \<longleftrightarrow> a \<le> i \<and> i < e" for i unfolding piece_covers [OF q(2)] using Nil.prems(3) by auto
  with q show ?case by (simp add: piece_def)
next
  case (Cons p ps)
  let ?o = "reg_offset (rp_desc p)" and ?n = "reg_nBits (rp_desc p)"
  have p: "chunk sv_is (RegStore reg) g p" using Cons.prems by simp
  note P = chunkD [OF p]
  have b: "?o + ?n \<le> 512" using P(3) by (simp add: reg_ok_def)
  obtain w where w: "rp_value p = Some w" "val_chunk sv_is g ?o ?n w" using P(5) by blast
  show ?case
  proof (cases "?o = e")
    case True
    have ae: "a + (e - a) = e" "e - a + ?n = e + ?n - a" using Cons.prems(3) by auto
    have "succeeds (op_concat ops v w) (val_chunk sv_is g a (e + ?n - a))"
      using chunk_concat [OF Cons.prems(2) _ P(2), of w] w(2) True unfolding ae by simp
    then obtain x where x: "op_concat ops v w = Some x" "val_chunk sv_is g a (e + ?n - a) x" by (elim succeedsE)
    have "succeeds (chunk_loop ops reg x a (e + ?n) ps) (\<lambda>qs. (\<forall>q\<in>set qs. chunk sv_is (RegStore reg) g q) \<and>
        (\<forall>i. covers qs i = of_bool (a \<le> i \<and> i < e + ?n) + covers ps i))"
      using Cons.prems b x(2) True by (intro Cons.IH) auto
    then obtain qs where qs: "chunk_loop ops reg x a (e + ?n) ps = Some qs" "\<forall>q\<in>set qs. chunk sv_is (RegStore reg) g q"
      "\<forall>i. covers qs i = of_bool (a \<le> i \<and> i < e + ?n) + covers ps i" by (auto elim: succeedsE)
    have "covers qs i = of_bool (a \<le> i \<and> i < e) + covers (p # ps) i" for i
      using qs(3) True Cons.prems(3) by (auto simp: in_pair_def)
    moreover have "chunk_loop ops reg v a e (p # ps) = Some qs" using w(1) x(1) qs(1) True by simp
    ultimately show ?thesis using qs(2) by (simp del: covers_simps chunk_loop.simps)
  next
    case False
    obtain q where q: "chunk_pair ops reg v a e = Some q" "piece (RegStore reg) g a (e - a) q"
      using chunk_pair_is [OF Cons.prems(2-4), of reg] by (elim succeedsE)
    have "succeeds (chunk_loop ops reg w ?o (?o + ?n) ps) (\<lambda>qs. (\<forall>q\<in>set qs. chunk sv_is (RegStore reg) g q) \<and>
        (\<forall>i. covers qs i = of_bool (?o \<le> i \<and> i < ?o + ?n) + covers ps i))"
      using Cons.prems b w(2) P(2) by (intro Cons.IH) auto
    then obtain qs where qs: "chunk_loop ops reg w ?o (?o + ?n) ps = Some qs" "\<forall>q\<in>set qs. chunk sv_is (RegStore reg) g q"
      "\<forall>i. covers qs i = of_bool (?o \<le> i \<and> i < ?o + ?n) + covers ps i" by (auto elim: succeedsE)
    have "in_pair q i \<longleftrightarrow> a \<le> i \<and> i < e" for i unfolding piece_covers [OF q(2)] using Cons.prems(3) by auto
    then have "covers (q # qs) i = of_bool (a \<le> i \<and> i < e) + covers (p # ps) i" for i
      using qs(3) by (simp add: in_pair_def [of p])
    moreover have "chunk_loop ops reg v a e (p # ps) = Some (q # qs)" using w(1) q(1) qs(1) False by simp
    moreover have "chunk sv_is (RegStore reg) g q" using q(2) by (simp add: piece_def)
    ultimately show ?thesis using qs(2) by (simp del: covers_simps chunk_loop.simps)
  qed
qed

lemma rejoin_is:
  assumes "\<forall>p\<in>set ps. chunk sv_is (RegStore reg) g p"
  shows "succeeds (rejoin_parts ops reg ps) (\<lambda>qs. (\<forall>q\<in>set qs. chunk sv_is (RegStore reg) g q) \<and> (\<forall>i. covers qs i = covers ps i))"
proof (cases ps)
  case (Cons p rest)
  note P = chunkD [of sv_is "RegStore reg" g p]
  obtain v where v: "rp_value p = Some v" "val_chunk sv_is g (reg_offset (rp_desc p)) (reg_nBits (rp_desc p)) v"
    using P(5) assms Cons by auto
  have "succeeds (chunk_loop ops reg v (reg_offset (rp_desc p)) (reg_offset (rp_desc p) + reg_nBits (rp_desc p)) rest)
      (\<lambda>qs. (\<forall>q\<in>set qs. chunk sv_is (RegStore reg) g q) \<and>
        (\<forall>i. covers qs i = of_bool (reg_offset (rp_desc p) \<le> i \<and> i < reg_offset (rp_desc p) + reg_nBits (rp_desc p)) + covers rest i))"
    using assms Cons P(2,3) v(2) by (intro chunk_loop_is) (auto simp: reg_ok_def)
  then show ?thesis using v(1) by (simp add: Cons in_pair_def)
qed simp

lemma chunk_defined: "chunk sv_is key g p \<Longrightarrow> in_pair p i \<Longrightarrow> g i \<noteq> None"
  unfolding chunk_def val_chunk_def in_pair_def by (metis add_diff_inverse_nat nat_add_left_cancel_less not_less option.distinct(1))

text \<open>A value for the whole register, as bits at their positions.\<close>

definition value_bits :: "register_descriptor \<Rightarrow> nat \<Rightarrow> nat \<Rightarrow> bool option" where
  "value_bits reg x i = (if in_reg reg i then Some (bit x (i - reg_offset reg)) else None)"

lemma value_chunk: "sv_is v (reg_nBits reg) x \<Longrightarrow> val_chunk sv_is (value_bits reg x) (reg_offset reg) (reg_nBits reg) v"
  by (auto simp: val_chunk_def value_bits_def in_reg_def)

text \<open>What an access finds: the accessed and preserved parts, and the locations that are missing.\<close>

definition accessed_parts ::
    "register_descriptor \<Rightarrow> (nat \<Rightarrow> bool option) \<Rightarrow> 'v regpair list \<Rightarrow> 'v regpair list \<Rightarrow> 'v regpair list \<Rightarrow> nat interval list \<Rightarrow> bool" where
  "accessed_parts reg g ps as prs ls \<longleftrightarrow>
     scanAccessedLocations ops reg (loc reg) ps = Some (as, prs) \<and> newLocations (loc reg) as = Some ls \<and>
     (\<forall>q\<in>set (as @ prs). chunk sv_is (RegStore reg) g q) \<and>
     (\<forall>i. covers as i = of_bool (in_reg reg i \<and> g i \<noteq> None)) \<and>
     (\<forall>i. covers (filter (\<lambda>p. \<not> hits reg p) ps @ prs) i = of_bool (\<not> in_reg reg i \<and> g i \<noteq> None)) \<and>
     (\<forall>l\<in>set ls. \<not> isEmpty l \<and> ilo l \<le> ihi l \<and> reg_offset reg \<le> ilo l \<and> ihi l < reg_offset reg + reg_nBits reg) \<and>
     (\<forall>i. count_in ls i = of_bool (in_reg reg i \<and> g i = None))"

lemma accessed_parts_exist:
  assumes n: "0 < reg_nBits reg" and r: "represents sv_is (RegStore reg) g ps"
  shows "\<exists>as prs ls. accessed_parts reg g ps as prs ls"
proof -
  have ch: "\<forall>p\<in>set ps. chunk sv_is (RegStore reg) g p" and cov: "\<forall>i. covers ps i = of_bool (g i \<noteq> None)"
    using r by (simp_all add: represents_def)
  obtain as prs where sc: "scanAccessedLocations ops reg (loc reg) ps = Some (as, prs)"
    "\<forall>q\<in>set (as @ prs). chunk sv_is (RegStore reg) g q" "\<forall>i. covers as i = (if in_reg reg i then covers ps i else 0)"
    "\<forall>i. covers prs i = (if in_reg reg i then 0 else covers (filter (hits reg) ps) i)"
    using scan_is [OF n ch] by (auto elim: succeedsE)
  have as: "\<forall>i. covers as i = of_bool (in_reg reg i \<and> g i \<noteq> None)" using sc(3) cov by simp
  have ch_as: "\<forall>p\<in>set as. chunk sv_is (RegStore reg) g p" using sc(2) by simp
  obtain ls where ls: "newLocations (loc reg) as = Some ls"
    "\<forall>l\<in>set ls. \<not> isEmpty l \<and> ilo l \<le> ihi l \<and> reg_offset reg \<le> ilo l \<and> ihi l < reg_offset reg + reg_nBits reg"
    "\<forall>i. count_in ls i = of_bool (in_reg reg i \<and> covers as i = 0)"
    using newLocations_is [OF n ch_as] by (auto elim: succeedsE)
  have "count_in ls i = of_bool (in_reg reg i \<and> g i = None)" for i using ls(3) as by (cases "in_reg reg i") auto
  moreover have "covers (filter (\<lambda>p. \<not> hits reg p) ps @ prs) i = of_bool (\<not> in_reg reg i \<and> g i \<noteq> None)" for i
    using kept_covers [OF n ch sc(4), of i] cov by auto
  ultimately show ?thesis using sc(1,2) as ls(1,2) unfolding accessed_parts_def by blast
qed

lemma reg_rep_update:
  assumes "reg_rep sv_is st f" "represents sv_is (RegStore reg) g ps"
  shows "reg_rep sv_is (set_pairList st reg ps) (f(RegStore reg := g))"
  using assms by (auto simp: reg_rep_def set_pairList_def)

lemma represents_empty: "represents sv_is key g [] \<longleftrightarrow> g = (\<lambda>i. None)"
  by (auto simp: represents_def fun_eq_iff)

lemma reg_repD:
  assumes "reg_rep sv_is st f"
  shows "registers st key = Some ps \<Longrightarrow> represents sv_is key (f key) ps" "registers st key = None \<Longrightarrow> f key = (\<lambda>i. None)"
  using assms [unfolded reg_rep_def, THEN spec, of key] by (auto simp: represents_empty)

lemma represents_pair:
  assumes "0 < reg_nBits reg" "reg_ok reg" "val_chunk sv_is g (reg_offset reg) (reg_nBits reg) v"
  shows "chunk sv_is (RegStore reg) g (RegPair reg v)"
  using assms by (simp add: chunk_def)

lemma bits_read_value:
  assumes "val_chunk sv_is g (reg_offset reg) (reg_nBits reg) v"
    "\<And>k. k < reg_nBits reg \<Longrightarrow>
      g (reg_offset reg + k) = Some (case f (RegStore reg) (reg_offset reg + k) of Some b \<Rightarrow> b | None \<Rightarrow> bit d k)"
  shows "sv_is v (reg_nBits reg) (bits_read f reg d)"
proof -
  obtain x where x: "sv_is v (reg_nBits reg) x" "\<forall>k<reg_nBits reg. g (reg_offset reg + k) = Some (bit x k)"
    using assms(1) by (auto simp: val_chunk_def)
  have "bits_read f reg d = bval (bit x) (reg_nBits reg)"
    unfolding bits_read_def using x(2) assms(2) by (intro bval_cong) auto
  then show ?thesis using x(1) is_less [OF x(1)] by (simp add: bval_take_bit take_bit_nat_eq_self)
qed

text \<open>The parts an access combines into its result: the stored ones, and the default's where nothing is stored.\<close>

lemma combined_parts:
  assumes n: "0 < reg_nBits reg" and ok: "reg_ok reg" and d: "sv_is dflt (reg_nBits reg) d"
    and ac: "accessed_parts reg (f (RegStore reg)) ps as prs ls"
  defines "g' \<equiv> bits_fill f reg d (RegStore reg)"
  shows "\<exists>news retval. new_parts ops reg dflt ls = Some news \<and> combine_parts ops reg (as @ news) = Some retval \<and>
    (\<forall>q\<in>set news. chunk sv_is (RegStore reg) g' q) \<and>
    (\<forall>i. covers news i = of_bool (in_reg reg i \<and> f (RegStore reg) i = None)) \<and>
    val_chunk sv_is g' (reg_offset reg) (reg_nBits reg) retval \<and>
    sv_is retval (reg_nBits reg) (bits_read f reg d)"
proof -
  let ?g = "f (RegStore reg)"
  note A = ac [unfolded accessed_parts_def]
  obtain news where news: "new_parts ops reg dflt ls = Some news"
    "\<forall>q\<in>set news. chunk sv_is (RegStore reg) (value_bits reg d) q" "\<forall>i. covers news i = count_in ls i"
    using new_parts_is(1) [OF value_chunk [OF d] ok, of ls] A by (auto elim: succeedsE)
  have cov: "covers news i = of_bool (in_reg reg i \<and> ?g i = None)" for i using news(3) A by simp
  have g': "g' i = (if in_reg reg i \<and> ?g i = None then Some (bit d (i - reg_offset reg)) else ?g i)" for i
    by (simp add: g'_def bits_fill_def)
  have ch1: "chunk sv_is (RegStore reg) g' q" if q: "q \<in> set news" for q
  proof (rule chunk_cong [of _ _ "value_bits reg d"])
    fix i assume "in_pair q i"
    then have "0 < covers news i" using q covers_pos [of news i] by blast
    then have "in_reg reg i \<and> ?g i = None" using cov by simp
    then show "value_bits reg d i = g' i" by (simp add: g' value_bits_def)
  qed (use news(2) q in blast)
  have ch2: "chunk sv_is (RegStore reg) g' q" if q: "q \<in> set as" for q
  proof (rule chunk_cong [of _ _ ?g])
    show "chunk sv_is (RegStore reg) ?g q" using A q by auto
    then show "?g i = g' i" if "in_pair q i" for i using chunk_defined [OF _ that] by (auto simp: g')
  qed
  have "covers (as @ news) i = of_bool (in_reg reg i)" for i using A cov by auto
  then have "succeeds (combine_parts ops reg (as @ news)) (val_chunk sv_is g' (reg_offset reg) (reg_nBits reg))"
    using ch1 ch2 by (intro combine_is [OF n, of _ "RegStore reg"]) auto
  then obtain retval where r: "combine_parts ops reg (as @ news) = Some retval"
    "val_chunk sv_is g' (reg_offset reg) (reg_nBits reg) retval" by (elim succeedsE)
  have "sv_is retval (reg_nBits reg) (bits_read f reg d)"
    by (rule bits_read_value [OF r(2)]) (auto simp: g' in_reg_def split: option.split)
  with r news(1) ch1 cov show ?thesis by blast
qed

lemma peek_is:
  assumes rep: "reg_rep sv_is st f" and n: "0 < reg_nBits reg" and ok: "reg_ok reg" and d: "sv_is dflt (reg_nBits reg) d"
  shows "succeeds (peekRegister ops st reg dflt) (\<lambda>v. sv_is v (reg_nBits reg) (bits_read f reg d))"
proof (cases "registers st (RegStore reg)")
  case None
  then have "bits_read f reg d = d"
    using reg_repD(2) [OF rep] is_less [OF d] by (simp add: bits_read_def bval_take_bit take_bit_nat_eq_self)
  then show ?thesis using None n d by (simp add: peekRegister_def reg_isEmpty_def bit_location_loc is_width [OF d])
next
  case (Some ps)
  obtain as prs ls where ac: "accessed_parts reg (f (RegStore reg)) ps as prs ls"
    using accessed_parts_exist [OF n reg_repD(1) [OF rep Some]] by blast
  from combined_parts [where f = f, OF n ok d ac] ac show ?thesis
    using Some n by (auto simp: peekRegister_def reg_isEmpty_def bit_location_loc is_width [OF d] accessed_parts_def)
qed

lemma read_is:
  assumes rep: "reg_rep sv_is st f" and n: "0 < reg_nBits reg" and ok: "reg_ok reg" and d: "sv_is dflt (reg_nBits reg) d"
  shows "succeeds (readRegister ops st reg dflt) (\<lambda>(v, st'). sv_is v (reg_nBits reg) (bits_read f reg d) \<and>
    reg_rep sv_is st' (if accessCreatesLocations st then bits_fill f reg d else f) \<and>
    accessModifiesExistingLocations st' = accessModifiesExistingLocations st \<and>
    accessCreatesLocations st' = accessCreatesLocations st)"
proof (cases "registers st (RegStore reg)")
  case None
  note f = reg_repD(2) [OF rep None]
  have r: "bits_read f reg d = d" using f is_less [OF d] by (simp add: bits_read_def bval_take_bit take_bit_nat_eq_self)
  obtain c where c: "op_copy ops dflt = Some c" "sv_is c (reg_nBits reg) d" using copy_law [OF d] by (elim succeedsE)
  have "represents sv_is (RegStore reg) (value_bits reg d) [RegPair reg c]"
    using represents_pair [OF n ok value_chunk [OF c(2)]] by (simp add: represents_def value_bits_def)
  moreover have "bits_fill f reg d = f(RegStore reg := value_bits reg d)" by (simp add: bits_fill_def f value_bits_def fun_eq_iff)
  ultimately have "reg_rep sv_is (set_pairList st reg [RegPair reg c]) (bits_fill f reg d)"
    using reg_rep_update [OF rep] by simp
  then show ?thesis using None n d c r rep
    by (simp add: readRegister_def reg_isEmpty_def bit_location_loc is_width [OF d] set_pairList_def)
next
  case (Some ps)
  let ?g = "f (RegStore reg)" and ?g' = "bits_fill f reg d (RegStore reg)"
  note R = reg_repD(1) [OF rep Some]
  have ch: "\<forall>p\<in>set ps. chunk sv_is (RegStore reg) ?g p" and cov: "\<forall>i. covers ps i = of_bool (?g i \<noteq> None)"
    using R by (simp_all add: represents_def)
  obtain as prs ls where ac: "accessed_parts reg ?g ps as prs ls" using accessed_parts_exist [OF n R] by blast
  note A = ac [unfolded accessed_parts_def]
  obtain news v where nv: "new_parts ops reg dflt ls = Some news" "combine_parts ops reg (as @ news) = Some v"
    "\<forall>q\<in>set news. chunk sv_is (RegStore reg) ?g' q" "\<forall>i. covers news i = of_bool (in_reg reg i \<and> ?g i = None)"
    "val_chunk sv_is ?g' (reg_offset reg) (reg_nBits reg) v" "sv_is v (reg_nBits reg) (bits_read f reg d)"
    using combined_parts [where f = f, OF n ok d ac] by blast
  have g': "?g' i = (if in_reg reg i \<and> ?g i = None then Some (bit d (i - reg_offset reg)) else ?g i)" for i
    by (simp add: bits_fill_def)
  have up: "chunk sv_is (RegStore reg) ?g' q" if "chunk sv_is (RegStore reg) ?g q" for q
    using that by (rule chunk_cong) (use chunk_defined [OF that] in \<open>auto simp: g'\<close>)
  define kept where "kept = filter (\<lambda>p. \<not> hits reg p) ps @ prs"
  have kch: "\<forall>q\<in>set kept. chunk sv_is (RegStore reg) ?g q" using ch A by (auto simp: kept_def)
  have kcov: "covers kept i = of_bool (\<not> in_reg reg i \<and> ?g i \<noteq> None)" for i using A unfolding kept_def by blast
  have r1: "represents sv_is (RegStore reg) ?g' (kept @ [RegPair reg v])"
    using kch up represents_pair [OF n ok nv(5)] by (auto simp: represents_def kcov g')
  obtain chunks where ck: "rejoin_parts ops reg (sortByOffset as) = Some chunks"
    "\<forall>q\<in>set chunks. chunk sv_is (RegStore reg) ?g q" "\<forall>i. covers chunks i = covers as i"
    using rejoin_is [of "sortByOffset as" reg ?g] A by (auto simp: sortByOffset_def elim: succeedsE)
  have r2: "represents sv_is (RegStore reg) ?g (kept @ chunks)"
    using kch ck A by (auto simp: represents_def kcov)
  have r3: "represents sv_is (RegStore reg) ?g' (ps @ news)"
    using ch up nv(3,4) cov by (auto simp: represents_def g')
  have fill: "f(RegStore reg := ?g') = bits_fill f reg d" "f(RegStore reg := ?g) = f" by (simp_all add: bits_fill_def)
  have cl: "clearOverlappingLocations (loc reg) ps = Some (map (\<lambda>p. if hits reg p then p\<lparr>rp_value := None\<rparr> else p) ps)"
    by (rule clear_is [OF ch])
  have rd: "readRegister ops st reg dflt = Some (v,
      if accessModifiesExistingLocations st then set_pairList st reg (kept @ (if accessCreatesLocations st then [RegPair reg v] else chunks))
      else if accessCreatesLocations st then set_pairList st reg (ps @ news) else st)"
    using Some n A nv(1,2) ck(1) cl filter_cleared [OF ch, of reg] kept_def
    by (simp add: readRegister_def reg_isEmpty_def bit_location_loc is_width [OF d])
  have "reg_rep sv_is (if accessModifiesExistingLocations st then set_pairList st reg (kept @ (if accessCreatesLocations st then [RegPair reg v] else chunks))
      else if accessCreatesLocations st then set_pairList st reg (ps @ news) else st)
    (if accessCreatesLocations st then bits_fill f reg d else f)"
    using reg_rep_update [OF rep r1, unfolded fill] reg_rep_update [OF rep r2, unfolded fill]
      reg_rep_update [OF rep r3, unfolded fill] rep by auto
  then show ?thesis unfolding rd using nv(6) by (auto simp: set_pairList_def)
qed

text \<open>Writing into a stored piece.\<close>

lemma valueToWrite_is:
  assumes p: "chunk sv_is (RegStore reg) g p" "rp_value p = Some old" and n: "0 < reg_nBits reg"
    and ov: "\<not> isEmpty (intersection (loc (rp_desc p)) (loc reg))"
    and v: "val_chunk sv_is h (reg_offset reg) (reg_nBits reg) v"
    and h: "\<And>i. \<not> in_reg reg i \<Longrightarrow> h i = g i"
  shows "succeeds (valueToWrite ops v (loc reg) (loc (rp_desc p)) (intersection (loc (rp_desc p)) (loc reg)) old)
    (val_chunk sv_is h (reg_offset (rp_desc p)) (reg_nBits (rp_desc p)))"
proof -
  let ?d = "rp_desc p" and ?o = "intersection (loc (rp_desc p)) (loc reg)"
  define a b r e lo hi where defs: "a = reg_offset ?d" "b = a + reg_nBits ?d" "r = reg_offset reg" "e = r + reg_nBits reg"
    "lo = max a r" "hi = min b e"
  note P = chunkD [OF p(1)] and O = overlap_ends [OF chunkD(2) [OF p(1)] n ov]
  have ends: "ilo ?o = lo" "ihi ?o = hi - 1" "interval_size ?o = hi - lo" "lo < hi"
    using O by (simp_all add: defs)
  have nb: "reg_nBits ?d = b - a" "reg_nBits reg = e - r" by (simp_all add: defs)
  have le: "a \<le> lo" "r \<le> lo" "hi \<le> b" "hi \<le> e" "a < b" using P(2) by (simp_all add: defs)
  have locs: "ilo (loc ?d) = a" "ihi (loc ?d) = b - 1" "ilo (loc reg) = r" using P(2) n by (simp_all add: loc_ends defs)
  have old: "val_chunk sv_is g a (b - a) old" using P(5) p(2) by (simp add: nb defs(1) flip: defs(1))
  have v': "val_chunk sv_is h r (e - r) v" using v by (simp add: nb(2) flip: defs(3))
  have out: "h i = g i" if "a \<le> i \<and> i < lo \<or> hi \<le> i \<and> i < b" for i
    using that le ends(4) by (intro h) (auto simp: in_reg_def defs)
  have "succeeds (op_extract ops v (lo - r) (lo - r + (hi - lo))) (val_chunk sv_is h (r + (lo - r)) (lo - r + (hi - lo) - (lo - r)))"
    using le ends(4) by (intro chunk_extract [OF v']) auto
  then obtain mid where mid: "op_extract ops v (lo - r) (lo - r + (hi - lo)) = Some mid" "val_chunk sv_is h lo (hi - lo) mid"
    using le by (auto elim: succeedsE)
  have "\<exists>w. (do { low \<leftarrow> (if a < lo then do { x \<leftarrow> op_unsignedExtend ops old (lo - a); Some (Some x) } else Some None);
        case low of Some l \<Rightarrow> op_concat ops l mid | None \<Rightarrow> Some mid }) = Some w \<and> val_chunk sv_is h a (hi - a) w"
  proof (cases "a < lo")
    case True
    obtain l where l: "op_unsignedExtend ops old (lo - a) = Some l" "val_chunk sv_is g a (lo - a) l"
      using chunk_truncate [OF old, of "lo - a"] diff_le_mono [of lo b a] le ends(4) by (auto elim: succeedsE)
    have "val_chunk sv_is h a (lo - a) l" using l(2) by (rule val_chunk_cong) (use out True in auto)
    moreover have "val_chunk sv_is h (a + (lo - a)) (hi - lo) mid" using mid(2) le by simp
    ultimately have "succeeds (op_concat ops l mid) (val_chunk sv_is h a (lo - a + (hi - lo)))"
      using ends(4) by (intro chunk_concat) auto
    then show ?thesis using l(1) True le ends(4) by (auto elim: succeedsE)
  next
    case False
    then have "lo = a" using le by simp
    then show ?thesis using mid(2) by simp
  qed
  then obtain w where w: "(do { low \<leftarrow> (if a < lo then do { x \<leftarrow> op_unsignedExtend ops old (lo - a); Some (Some x) } else Some None);
        case low of Some l \<Rightarrow> op_concat ops l mid | None \<Rightarrow> Some mid }) = Some w" "val_chunk sv_is h a (hi - a) w" by blast
  have fin: "succeeds (if hi - 1 < b - 1 then do {
        hv \<leftarrow> op_extract ops old (hi - 1 + 1 - a) (hi - 1 + 1 - a + (b - 1 - (hi - 1))); op_concat ops w hv } else Some w)
      (val_chunk sv_is h a (b - a))"
  proof (cases "hi - 1 < b - 1")
    case True
    have e1: "hi - 1 + 1 - a = hi - a" "hi - a + (b - 1 - (hi - 1)) = b - a" "a + (hi - a) = hi" "b - a - (hi - a) = b - hi"
      "hi - a < b - a" "hi - a + (b - hi) = b - a" "0 < b - hi"
      using True le ends(4) by linarith+
    obtain hv where hv: "op_extract ops old (hi - a) (b - a) = Some hv" "val_chunk sv_is g hi (b - hi) hv"
      using chunk_extract [OF old e1(5) order_refl] unfolding e1(3,4) by (elim succeedsE)
    have "val_chunk sv_is h hi (b - hi) hv" using hv(2) by (rule val_chunk_cong) (use out e1 in auto)
    then have "val_chunk sv_is h (a + (hi - a)) (b - hi) hv" unfolding e1(3) .
    from chunk_concat [OF w(2) this e1(7)] show ?thesis using True hv(1) unfolding e1(1) e1(2) e1(6) by simp
  next
    case False
    then have "hi = b" using le ends(4) by linarith
    then show ?thesis using w(2) by simp
  qed
  have "valueToWrite ops v (loc reg) (loc ?d) ?o old = (if hi - 1 < b - 1 then do {
        hv \<leftarrow> op_extract ops old (hi - 1 + 1 - a) (hi - 1 + 1 - a + (b - 1 - (hi - 1))); op_concat ops w hv } else Some w)"
    unfolding valueToWrite_def ends locs Let_def mid(1) using w(1)
    by (cases "a < lo"; cases "op_unsignedExtend ops old (lo - a)"; simp)
  then show ?thesis using fin by (simp add: nb flip: defs(1))
qed

lemma write_existing_is:
  assumes n: "0 < reg_nBits reg" and "\<forall>p\<in>set ps. chunk sv_is (RegStore reg) g p"
    and v: "val_chunk sv_is h (reg_offset reg) (reg_nBits reg) v" and h: "\<And>i. \<not> in_reg reg i \<Longrightarrow> h i = g i"
  shows "succeeds (write_existing ops v (loc reg) ps) (\<lambda>qs. (\<forall>q\<in>set qs. chunk sv_is (RegStore reg) h q) \<and>
    (\<forall>i. covers qs i = covers ps i))"
  using assms(2)
proof (induction ps)
  case (Cons p ps)
  then have p: "chunk sv_is (RegStore reg) g p" by simp
  note P = chunkD [OF p]
  obtain old where old: "rp_value p = Some old" using P(5) by blast
  obtain qs where qs: "write_existing ops v (loc reg) ps = Some qs" "\<forall>q\<in>set qs. chunk sv_is (RegStore reg) h q"
    "\<forall>i. covers qs i = covers ps i" using Cons by (auto elim!: succeedsE)
  show ?case
  proof (cases "hits reg p")
    case True
    then have ov: "\<not> isEmpty (intersection (loc (rp_desc p)) (loc reg))" by (simp add: hits_def)
    obtain w where w: "valueToWrite ops v (loc reg) (loc (rp_desc p)) (intersection (loc (rp_desc p)) (loc reg)) old = Some w"
      "val_chunk sv_is h (reg_offset (rp_desc p)) (reg_nBits (rp_desc p)) w"
      using valueToWrite_is [where h = h, OF p old n ov v] h by (auto elim: succeedsE)
    have wd: "op_nBits ops w = reg_nBits (rp_desc p)" using w(2) is_width by (auto simp: val_chunk_def)
    let ?p = "p\<lparr>rp_value := Some w\<rparr>"
    have "write_existing ops v (loc reg) (p # ps) = Some (?p # qs)" using P(4) old ov w(1) wd qs(1) by simp
    moreover have "chunk sv_is (RegStore reg) h ?p" using P(1-3) w(2) by (simp add: chunk_def)
    moreover have "in_pair ?p = in_pair p" by (simp add: in_pair_def fun_eq_iff)
    ultimately show ?thesis using qs(2,3) by simp
  next
    case False
    have "chunk sv_is (RegStore reg) h p"
      using p by (rule chunk_cong) (use hits_iff [OF p n] False h in metis)
    moreover have "write_existing ops v (loc reg) (p # ps) = Some (p # qs)" using P(4) False qs(1) by (simp add: hits_def)
    ultimately show ?thesis using qs(2,3) by simp
  qed
qed simp

lemma nBitsFound_is:
  assumes n: "0 < reg_nBits reg" and "\<forall>p\<in>set ps. chunk sv_is key g p"
  shows "nBitsFound (loc reg) ps = Some (\<Sum>i\<in>{i. in_reg reg i}. covers ps i)"
  using assms(2)
proof (induction ps)
  case (Cons p ps)
  then have p: "chunk sv_is key g p" by simp
  have fin: "finite {i. in_reg reg i}" by (simp add: in_reg_def)
  have set: "{i. in_reg reg i \<and> in_pair p i} =
      {max (reg_offset (rp_desc p)) (reg_offset reg)..<min (reg_offset (rp_desc p) + reg_nBits (rp_desc p)) (reg_offset reg + reg_nBits reg)}"
    by (auto simp: in_reg_def in_pair_def)
  have "interval_size (intersection (loc (rp_desc p)) (loc reg)) = card {i. in_reg reg i \<and> in_pair p i}"
  proof (cases "isEmpty (intersection (loc (rp_desc p)) (loc reg))")
    case True
    then have "{i. in_reg reg i \<and> in_pair p i} = {}" using overlap_empty [OF chunkD(2) [OF p] n] by (auto simp: in_pair_reg)
    then show ?thesis using True by (simp only: interval_size_def if_True card.empty)
  next
    case False
    then show ?thesis unfolding set using overlap_ends(4) [OF chunkD(2) [OF p] n False] by simp
  qed
  also have "\<dots> = (\<Sum>i\<in>{i. in_reg reg i}. of_bool (in_pair p i))"
    using fin by (simp add: of_bool_def sum.If_cases Int_def conj_commute)
  finally show ?case using Cons chunkD(4) [OF p] by (simp add: sum.distrib)
qed simp

lemma found_all:
  assumes "0 < reg_nBits reg" "represents sv_is key g ps"
  shows "\<exists>m. nBitsFound (loc reg) ps = Some m \<and> m \<le> reg_nBits reg \<and> (m < reg_nBits reg \<longleftrightarrow> (\<exists>i. in_reg reg i \<and> g i = None))"
proof -
  let ?A = "{i. in_reg reg i}"
  have A: "finite ?A" "card ?A = reg_nBits reg"
  proof -
    have "?A = {reg_offset reg..<reg_offset reg + reg_nBits reg}" by (auto simp: in_reg_def)
    then show "finite ?A" "card ?A = reg_nBits reg" by simp_all
  qed
  have "(\<Sum>i\<in>?A. covers ps i) = card {i \<in> ?A. g i \<noteq> None}"
    using assms(2) A(1) by (simp add: represents_def of_bool_def sum.If_cases Int_def)
  moreover define B where "B = {i. in_reg reg i \<and> (\<exists>y. g i = Some y)}"
  have B: "B \<subseteq> ?A" "card B \<le> card ?A" using A(1) by (auto simp: B_def intro: card_mono)
  then have "card B < card ?A \<longleftrightarrow> B \<noteq> ?A" using A(1) psubset_card_mono [of ?A B] by auto
  moreover have "B = ?A \<longleftrightarrow> (\<forall>i. in_reg reg i \<longrightarrow> g i \<noteq> None)" unfolding B_def set_eq_iff by auto
  then have "B \<noteq> ?A \<longleftrightarrow> (\<exists>i. in_reg reg i \<and> g i = None)" by simp
  ultimately show ?thesis
    using nBitsFound_is [OF assms(1), of ps key g] assms(2) A(2) B by (simp add: represents_def flip: B_def)
qed

lemma write_is:
  assumes rep: "reg_rep sv_is st f" and n: "0 < reg_nBits reg" and ok: "reg_ok reg" and v: "sv_is v (reg_nBits reg) x"
    and allowed: "accessCreatesLocations st \<or> (\<forall>i. in_reg reg i \<longrightarrow> f (RegStore reg) i \<noteq> None)"
  shows "succeeds (writeRegister ops st reg v) (\<lambda>st'. reg_rep sv_is st' (bits_write f reg x) \<and>
    accessModifiesExistingLocations st' = accessModifiesExistingLocations st \<and>
    accessCreatesLocations st' = accessCreatesLocations st)"
proof (cases "registers st (RegStore reg)")
  case None
  note f = reg_repD(2) [OF rep None]
  have cr: "accessCreatesLocations st"
    using allowed n f by (auto simp: in_reg_def dest: spec [of _ "reg_offset reg"])
  have "represents sv_is (RegStore reg) (value_bits reg x) [RegPair reg v]"
    using represents_pair [OF n ok value_chunk [OF v]] by (simp add: represents_def value_bits_def)
  moreover have "bits_write f reg x = f(RegStore reg := value_bits reg x)" by (simp add: bits_write_def f value_bits_def fun_eq_iff)
  ultimately have "reg_rep sv_is (set_pairList st reg [RegPair reg v]) (bits_write f reg x)"
    using reg_rep_update [OF rep] by simp
  then show ?thesis using None n cr by (simp add: writeRegister_def bit_location_loc is_width [OF v] set_pairList_def)
next
  case (Some ps)
  let ?g = "f (RegStore reg)" and ?h = "bits_write f reg x (RegStore reg)"
  note R = reg_repD(1) [OF rep Some]
  have ch: "\<forall>p\<in>set ps. chunk sv_is (RegStore reg) ?g p" and cov: "\<forall>i. covers ps i = of_bool (?g i \<noteq> None)"
    using R by (simp_all add: represents_def)
  have h: "?h i = (if in_reg reg i then Some (bit x (i - reg_offset reg)) else ?g i)" for i by (simp add: bits_write_def)
  have vh: "val_chunk sv_is ?h (reg_offset reg) (reg_nBits reg) v"
    using value_chunk [OF v] by (rule val_chunk_cong) (auto simp: h value_bits_def in_reg_def)
  obtain as prs ls where ac: "accessed_parts reg ?g ps as prs ls" using accessed_parts_exist [OF n R] by blast
  note A = ac [unfolded accessed_parts_def]
  define kept where "kept = filter (\<lambda>p. \<not> hits reg p) ps @ prs"
  have kcov: "covers kept i = of_bool (\<not> in_reg reg i \<and> ?g i \<noteq> None)" for i using A unfolding kept_def by blast
  have kch: "chunk sv_is (RegStore reg) ?h q" if q: "q \<in> set kept" for q
  proof (rule chunk_cong [of _ _ ?g])
    show "chunk sv_is (RegStore reg) ?g q" using q ch A by (auto simp: kept_def)
    fix i assume "in_pair q i"
    then have "0 < covers kept i" using q covers_pos [of kept i] by blast
    then show "?g i = ?h i" using kcov by (simp add: h)
  qed
  have r1: "represents sv_is (RegStore reg) ?h (kept @ [RegPair reg v])"
    using kch represents_pair [OF n ok vh] by (auto simp: represents_def kcov h)
  obtain qs where qs: "write_existing ops v (loc reg) ps = Some qs" "\<forall>q\<in>set qs. chunk sv_is (RegStore reg) ?h q"
    "\<forall>i. covers qs i = covers ps i" using write_existing_is [OF n ch vh] by (auto simp: h elim: succeedsE)
  obtain news where nw: "write_new ops reg v (loc reg) ls = Some news" "\<forall>q\<in>set news. chunk sv_is (RegStore reg) ?h q"
    "\<forall>i. covers news i = count_in ls i" using new_parts_is(2) [OF vh ok, of ls] A by (auto elim: succeedsE)
  have r2: "represents sv_is (RegStore reg) ?h (qs @ news)"
    using qs nw cov A by (auto simp: represents_def h)
  obtain m where m: "nBitsFound (loc reg) ps = Some m" "m \<le> reg_nBits reg" "m < reg_nBits reg \<longleftrightarrow> (\<exists>i. in_reg reg i \<and> ?g i = None)"
    using found_all [OF n R] by blast
  have "writeRegister ops st reg v = Some (set_pairList st reg
      (if accessModifiesExistingLocations st then kept @ [RegPair reg v] else qs @ news))"
    using Some n A m allowed qs(1) nw(1) clear_is [OF ch, of reg] filter_cleared [OF ch, of reg] kept_def
    by (auto simp: writeRegister_def bit_location_loc is_width [OF v] loc_size)
  moreover have "f(RegStore reg := ?h) = bits_write f reg x" by (simp add: bits_write_def)
  ultimately show ?thesis
    using reg_rep_update [OF rep r1] reg_rep_update [OF rep r2] by (simp add: set_pairList_def)
qed

lemma write_not_present:
  assumes rep: "reg_rep sv_is st f" and n: "0 < reg_nBits reg" and v: "sv_is v (reg_nBits reg) x"
    and "\<not> accessCreatesLocations st" "in_reg reg i" "f (RegStore reg) i = None"
  shows "writeRegister ops st reg v = None"
proof (cases "registers st (RegStore reg)")
  case None
  then show ?thesis using assms by (simp add: writeRegister_def bit_location_loc)
next
  case (Some ps)
  obtain m where "nBitsFound (loc reg) ps = Some m" "m < reg_nBits reg"
    using found_all [OF n reg_repD(1) [OF rep Some]] assms(5,6) by blast
  then show ?thesis using Some n assms(4) by (simp add: writeRegister_def bit_location_loc is_width [OF v] loc_size)
qed

lemma erase_scan_is:
  assumes n: "0 < reg_nBits reg" and "\<forall>p\<in>set ps. chunk sv_is (RegStore reg) g p"
  shows "\<exists>prs. erase_scan ops reg (loc reg) ps = Some (map (\<lambda>p. if hits reg p then p\<lparr>rp_value := None\<rparr> else p) ps, prs) \<and>
    (\<forall>q\<in>set prs. chunk sv_is (RegStore reg) g q) \<and>
    (\<forall>i. covers prs i = (if in_reg reg i then 0 else covers (filter (hits reg) ps) i))"
  using assms(2)
proof (induction ps)
  case (Cons p ps)
  have p: "chunk sv_is (RegStore reg) g p" using Cons.prems by simp
  note P = chunkD [OF p]
  obtain v where v: "rp_value p = Some v" using P(5) by blast
  obtain prs where prs: "erase_scan ops reg (loc reg) ps = Some (map (\<lambda>p. if hits reg p then p\<lparr>rp_value := None\<rparr> else p) ps, prs)"
    "\<forall>q\<in>set prs. chunk sv_is (RegStore reg) g q"
    "\<forall>i. covers prs i = (if in_reg reg i then 0 else covers (filter (hits reg) ps) i)" using Cons by auto
  show ?case
  proof (cases "hits reg p")
    case True
    then have ov: "\<not> isEmpty (intersection (loc (rp_desc p)) (loc reg))" by (simp add: hits_def)
    obtain lo where lo: "low_part ops reg (loc (rp_desc p)) (intersection (loc (rp_desc p)) (loc reg)) v = Some lo"
      "\<forall>q\<in>set lo. chunk sv_is (RegStore reg) g q" "\<forall>i. covers lo i = of_bool (in_pair p i \<and> i < reg_offset reg)"
      using low_part_chunks [OF p v n ov] by (auto elim: succeedsE)
    obtain hi where hi: "high_part ops reg (loc (rp_desc p)) (intersection (loc (rp_desc p)) (loc reg)) v = Some hi"
      "\<forall>q\<in>set hi. chunk sv_is (RegStore reg) g q"
      "\<forall>i. covers hi i = of_bool (in_pair p i \<and> reg_offset reg + reg_nBits reg \<le> i)"
      using high_part_chunks [OF p v n ov] by (auto elim: succeedsE)
    have "covers (lo @ hi @ prs) i = (if in_reg reg i then 0 else covers (filter (hits reg) (p # ps)) i)" for i
      using lo(3) hi(3) prs(3) True by (auto simp: in_reg_def)
    moreover have "erase_scan ops reg (loc reg) (p # ps) =
        Some (map (\<lambda>p. if hits reg p then p\<lparr>rp_value := None\<rparr> else p) (p # ps), lo @ hi @ prs)"
      using P(4) v ov True lo(1) hi(1) prs(1) by (simp add: intersection_commute [of "loc reg"])
    ultimately show ?thesis using lo(2) hi(2) prs(2) by (intro exI [of _ "lo @ hi @ prs"]) auto
  next
    case False
    then have "isEmpty (intersection (loc reg) (loc (rp_desc p)))" by (simp add: hits_def intersection_commute [of "loc reg"])
    then show ?thesis using P(4) prs False by (intro exI [of _ prs]) auto
  qed
qed simp

lemma erase_register_is:
  assumes rep: "reg_rep sv_is st f" and n: "0 < reg_nBits reg"
  shows "succeeds (erase_register ops st reg) (\<lambda>st'. reg_rep sv_is st' (bits_erase f reg) \<and>
    accessModifiesExistingLocations st' = accessModifiesExistingLocations st \<and>
    accessCreatesLocations st' = accessCreatesLocations st)"
proof (cases "registers st (RegStore reg)")
  case None
  then have "bits_erase f reg = f" using reg_repD(2) [OF rep None] by (auto simp: bits_erase_def fun_eq_iff)
  then show ?thesis using None n rep by (simp add: erase_register_def reg_isEmpty_def bit_location_loc)
next
  case (Some ps)
  let ?g = "f (RegStore reg)" and ?h = "bits_erase f reg (RegStore reg)"
  note R = reg_repD(1) [OF rep Some]
  have ch: "\<forall>p\<in>set ps. chunk sv_is (RegStore reg) ?g p" and cov: "\<forall>i. covers ps i = of_bool (?g i \<noteq> None)"
    using R by (simp_all add: represents_def)
  obtain prs where prs: "erase_scan ops reg (loc reg) ps = Some (map (\<lambda>p. if hits reg p then p\<lparr>rp_value := None\<rparr> else p) ps, prs)"
    "\<forall>q\<in>set prs. chunk sv_is (RegStore reg) ?g q"
    "\<forall>i. covers prs i = (if in_reg reg i then 0 else covers (filter (hits reg) ps) i)"
    using erase_scan_is [OF n ch] by blast
  define kept where "kept = filter (\<lambda>p. \<not> hits reg p) ps @ prs"
  have h: "?h i = (if in_reg reg i then None else ?g i)" for i by (simp add: bits_erase_def)
  have kcov: "covers kept i = of_bool (?h i \<noteq> None)" for i
    using kept_covers [OF n ch prs(3), of i] cov by (simp add: kept_def h del: covers_simps)
  have "chunk sv_is (RegStore reg) ?h q" if q: "q \<in> set kept" for q
  proof (rule chunk_cong [of _ _ ?g])
    show "chunk sv_is (RegStore reg) ?g q" using q ch prs(2) by (auto simp: kept_def)
    fix i assume "in_pair q i"
    then have "0 < covers kept i" using q covers_pos [of kept i] by blast
    then show "?g i = ?h i" using kcov by (auto simp: h split: if_splits)
  qed
  then have "represents sv_is (RegStore reg) ?h kept" using kcov by (simp add: represents_def)
  moreover have "f(RegStore reg := ?h) = bits_erase f reg" by (simp add: bits_erase_def)
  moreover have "erase_register ops st reg = Some (set_pairList st reg kept)"
    using Some n prs(1) filter_cleared [OF ch, of reg] by (simp add: erase_register_def reg_isEmpty_def bit_location_loc kept_def)
  ultimately show ?thesis using reg_rep_update [OF rep, of reg ?h kept] by (simp add: set_pairList_def)
qed

text \<open>The conditions of \<^verbatim>\<open>assertStorageConditions\<close> hold of every list of pieces that represents a bit map.\<close>

lemma storage_conditions_loop:
  assumes "im_ok found" "\<forall>p\<in>set ps. chunk sv_is key g p" "\<forall>i. lookup (im_map found) i \<noteq> None \<longrightarrow> covers ps i = 0" "\<forall>i. covers ps i \<le> 1"
  shows "storage_conditions ops key found ps = Some True"
  using assms
proof (induction ps arbitrary: found)
  case (Cons p ps)
  have p: "chunk sv_is key g p" using Cons.prems by simp
  note P = chunkD [OF p]
  obtain v where v: "rp_value p = Some v" "op_nBits ops v = reg_nBits (rp_desc p)"
    using P(5) is_width by (auto simp: val_chunk_def)
  have ls: "ivl_set (loc (rp_desc p)) = {i. in_pair p i}" using P(2) by (auto simp: loc_set in_pair_reg)
  have no: "\<not> im_overlaps (im_map found) (loc (rp_desc p))"
    using Cons.prems(1,3) nat_scalar.overlaps_is [of "im_map found" "loc (rp_desc p)"] ls
    by (auto simp: im_ok_def loc_not_empty)
  obtain found' where f': "IntervalSet_insert found (loc (rp_desc p)) = Some found'" "im_ok found'"
    "\<forall>x. lookup (im_map found') x = (if in_pair p x then Some 0 else lookup (im_map found) x)"
    using nat_scalar.insert_is [OF Cons.prems(1) loc_not_empty(2), of "rp_desc p" 0]
    by (auto simp: IntervalSet_insert_def ls elim!: succeedsE)
  have "storage_conditions ops key found' ps = Some True"
  proof (rule Cons.IH [OF f'(2)])
    show "\<forall>i. lookup (im_map found') i \<noteq> None \<longrightarrow> covers ps i = 0"
    proof (intro allI impI)
      fix i assume i: "lookup (im_map found') i \<noteq> None"
      show "covers ps i = 0"
        using i f'(3) Cons.prems(3,4) [rule_format, of i] by (cases "in_pair p i") auto
    qed
    show "\<forall>i. covers ps i \<le> 1"
      using Cons.prems(4) by (metis covers_simps(2) le_add2 order_trans)
  qed (use Cons.prems(2) in auto)
  then show ?case using P(1,2,4) v no f'(1) by (auto simp: reg_isValid_def RegStore_def)
qed simp

lemma storage_conditions_is:
  assumes "represents sv_is key g ps"
  shows "storage_conditions ops key IntervalSet_empty ps = Some True"
  using assms by (intro storage_conditions_loop) (auto simp: represents_def im_ok_def IntervalSet_empty_def)

lemma any_overlap_is:
  assumes n: "0 < reg_nBits reg" and "\<forall>p\<in>set ps. chunk sv_is key g p"
  shows "any_overlap (loc reg) ps = Some (\<exists>i. in_reg reg i \<and> 0 < covers ps i)"
  using assms(2)
proof (induction ps)
  case (Cons p ps)
  then have p: "chunk sv_is key g p" by simp
  have "isEmpty (intersection (loc reg) (loc (rp_desc p))) \<longleftrightarrow> \<not> (\<exists>i. in_pair p i \<and> in_reg reg i)"
    using overlap_empty [OF n chunkD(2) [OF p]] by (auto simp: in_pair_reg)
  with Cons chunkD(4) [OF p] show ?case by auto
qed simp

lemma stored_queries:
  assumes rep: "reg_rep sv_is st f" and n: "0 < reg_nBits reg"
  shows "is_partly_stored st reg = Some (\<exists>i. in_reg reg i \<and> f (RegStore reg) i \<noteq> None)"
    "is_wholly_stored st reg = Some (\<forall>i. in_reg reg i \<longrightarrow> f (RegStore reg) i \<noteq> None)"
proof -
  let ?ps = "getOrDefault st reg"
  have R: "represents sv_is (RegStore reg) (f (RegStore reg)) ?ps"
    using rep unfolding reg_rep_def getOrDefault_def by blast
  then have ch: "\<forall>p\<in>set ?ps. chunk sv_is (RegStore reg) (f (RegStore reg)) p"
    and cov: "\<forall>i. covers ?ps i = of_bool (f (RegStore reg) i \<noteq> None)" by (simp_all add: represents_def)
  show "is_partly_stored st reg = Some (\<exists>i. in_reg reg i \<and> f (RegStore reg) i \<noteq> None)"
    using any_overlap_is [OF n ch] cov n by (simp add: is_partly_stored_def bit_location_loc)
  obtain s where s: "IntervalSet_insert IntervalSet_empty (loc reg) = Some s" "im_ok s"
    "\<forall>x. lookup (im_map s) x = (if in_reg reg x then Some 0 else None)" using insert_empty_is [OF n] by (auto elim: succeedsE)
  obtain s' where s': "erase_locations s ?ps = Some s'" "im_ok s'"
    "\<forall>x. lookup (im_map s') x = (if 0 < covers ?ps x then None else lookup (im_map s) x)"
    using erase_locations_is [OF s(2) ch] by (auto elim: succeedsE)
  have "im_map s' = [] \<longleftrightarrow> (\<forall>x. lookup (im_map s') x = None)"
  proof
    assume L: "\<forall>x. lookup (im_map s') x = None"
    show "im_map s' = []"
    proof (cases "im_map s'")
      case (Cons m ns)
      then have "ilo (fst m) \<le> ihi (fst m)" using s'(2) by (simp add: im_ok_def nodes_ok_def node_ok_def)
      with L Cons show ?thesis by (auto dest: spec [of _ "ilo (fst m)"])
    qed
  qed simp
  then show "is_wholly_stored st reg = Some (\<forall>i. in_reg reg i \<longrightarrow> f (RegStore reg) i \<noteq> None)"
    using s s' cov n by (auto simp: is_wholly_stored_def bit_location_loc IntervalSet_isEmpty_def im_isEmpty_def)
qed

end

section \<open>Runs of the register state with concrete values\<close>

text \<open>The states that a register state with concrete values goes through.\<close>

inductive reg_reachable :: "svalue regstate \<Rightarrow> bool" where
  fresh_state: "reg_reachable RegisterState_new"
| clear_step: "reg_reachable st \<Longrightarrow> reg_reachable (RegisterState_clear st)"
| flags_step: "reg_reachable st \<Longrightarrow>
    reg_reachable (st\<lparr>accessModifiesExistingLocations := m, accessCreatesLocations := c\<rparr>)"
| read_step: "reg_reachable st \<Longrightarrow> reg_ok reg \<Longrightarrow> sv_is dflt (reg_nBits reg) d \<Longrightarrow>
    readRegister concrete_ops st reg dflt = Some (v, st') \<Longrightarrow> reg_reachable st'"
| write_step: "reg_reachable st \<Longrightarrow> reg_ok reg \<Longrightarrow> 0 < reg_nBits reg \<Longrightarrow> sv_is v (reg_nBits reg) x \<Longrightarrow>
    writeRegister concrete_ops st reg v = Some st' \<Longrightarrow> reg_reachable st'"
| erase_step: "reg_reachable st \<Longrightarrow> erase_register concrete_ops st reg = Some st' \<Longrightarrow> reg_reachable st'"

lemma read_not_empty: "readRegister concrete_ops st reg dflt = Some r \<Longrightarrow> 0 < reg_nBits reg"
  by (auto simp: readRegister_def reg_isEmpty_def split: if_splits)

lemma erase_not_empty: "erase_register concrete_ops st reg = Some r \<Longrightarrow> 0 < reg_nBits reg"
  by (auto simp: erase_register_def reg_isEmpty_def split: if_splits)

lemma reg_rep_empty: "registers st = Map.empty \<Longrightarrow> reg_rep sv_is st (\<lambda>key i. None)"
  by (simp add: reg_rep_def cv.represents_empty)

lemma reachable_rep: "reg_reachable st \<Longrightarrow> \<exists>f. reg_rep sv_is st f"
proof (induction rule: reg_reachable.induct)
  case fresh_state
  show ?case using reg_rep_empty [of RegisterState_new] by (auto simp: RegisterState_new_def)
next
  case (clear_step st)
  show ?case using reg_rep_empty [of "RegisterState_clear st"] by (auto simp: RegisterState_clear_def)
next
  case (flags_step st m c)
  then show ?case by (simp add: reg_rep_def)
next
  case (read_step st reg dflt d v st')
  then show ?case using cv.read_is [OF _ read_not_empty [OF read_step(4)]] by (fastforce elim: succeedsE)
next
  case (write_step st reg v x st')
  from write_step(6) obtain f where f: "reg_rep sv_is st f" by blast
  show ?case
  proof (cases "accessCreatesLocations st \<or> (\<forall>i. in_reg reg i \<longrightarrow> f (RegStore reg) i \<noteq> None)")
    case True
    then show ?thesis using cv.write_is [OF f write_step(3,2,4)] write_step(5) by (fastforce elim: succeedsE)
  next
    case False
    then show ?thesis using cv.write_not_present [OF f write_step(3,4)] write_step(5) by auto
  qed
next
  case (erase_step st reg st')
  then show ?case using cv.erase_register_is [OF _ erase_not_empty [OF erase_step(2)]] by (fastforce elim: succeedsE)
qed

section \<open>Properties\<close>

text \<open>
  C6. Reading a register, with any setting of the two flags and however the register is stored,
  returns the stored bits and the default's bits where nothing is stored; the state then stands for the
  same bit map, or for the map filled with what was missing when accesses create locations. Peeking
  returns the same value.
\<close>

theorem register_read_refines:
  assumes "reg_rep sv_is st f" "0 < reg_nBits reg" "reg_ok reg" "sv_is dflt (reg_nBits reg) d"
  shows "succeeds (readRegister concrete_ops st reg dflt) (\<lambda>(v, st'). sv_is v (reg_nBits reg) (bits_read f reg d) \<and>
      reg_rep sv_is st' (if accessCreatesLocations st then bits_fill f reg d else f)) \<and>
    succeeds (peekRegister concrete_ops st reg dflt) (\<lambda>v. sv_is v (reg_nBits reg) (bits_read f reg d))"
proof
  show "succeeds (readRegister concrete_ops st reg dflt) (\<lambda>(v, st'). sv_is v (reg_nBits reg) (bits_read f reg d) \<and>
      reg_rep sv_is st' (if accessCreatesLocations st then bits_fill f reg d else f))"
    by (rule succeeds_mono [OF cv.read_is [OF assms]]) auto
  show "succeeds (peekRegister concrete_ops st reg dflt) (\<lambda>v. sv_is v (reg_nBits reg) (bits_read f reg d))"
    by (rule cv.peek_is [OF assms])
qed

text \<open>A state and a register for the witnesses: the low half of register 0.5.\<close>

definition sample_reg :: register_descriptor where
  "sample_reg = the (RegisterDescriptor_new 0 5 0 16)"

lemma sample_reg_fields: "reg_fields sample_reg = (0, 5, 0, 16)"
  using new_fields [of 0 5 0 16] by (auto simp: sample_reg_def elim!: succeedsE)

lemma sample_reg_ok: "reg_nBits sample_reg = 16" "reg_ok sample_reg"
  using sample_reg_fields by (simp_all add: reg_fields_def reg_ok_def)

lemma new_state_rep: "reg_rep sv_is RegisterState_new (\<lambda>key i. None)"
  by (rule reg_rep_empty) (simp add: RegisterState_new_def)

theorem register_read_refines_witness:
  "succeeds (readRegister concrete_ops RegisterState_new sample_reg (the (SValue_number 16 7))) (\<lambda>(v, st').
     sv_is v (reg_nBits sample_reg) (bits_read (\<lambda>key i. None) sample_reg 7) \<and>
     reg_rep sv_is st' (bits_fill (\<lambda>key i. None) sample_reg 7))"
proof -
  have "sv_is (the (SValue_number 16 7)) (reg_nBits sample_reg) 7"
    using sv_number [of 16 7] by (simp add: sample_reg_ok)
  from conjunct1 [OF register_read_refines [OF new_state_rep _ sample_reg_ok(2) this]] show ?thesis
    by (simp add: sample_reg_ok RegisterState_new_def)
qed

text \<open>
  C7. Writing a register, however it is stored and with any setting of the flags, is the update of
  the bit map at the register's bits; when accesses may not create locations the write is refused
  exactly when some bit of the register is not stored.
\<close>

theorem register_write_refines:
  assumes "reg_rep sv_is st f" "0 < reg_nBits reg" "reg_ok reg" "sv_is v (reg_nBits reg) x"
  shows "if accessCreatesLocations st \<or> (\<forall>i. in_reg reg i \<longrightarrow> f (RegStore reg) i \<noteq> None)
    then succeeds (writeRegister concrete_ops st reg v) (\<lambda>st'. reg_rep sv_is st' (bits_write f reg x))
    else writeRegister concrete_ops st reg v = None"
proof (cases "accessCreatesLocations st \<or> (\<forall>i. in_reg reg i \<longrightarrow> f (RegStore reg) i \<noteq> None)")
  case True
  then show ?thesis by (auto intro: succeeds_mono [OF cv.write_is [OF assms True]])
next
  case False
  then show ?thesis using cv.write_not_present [OF assms(1,2,4)] by auto
qed

theorem register_write_refines_witness:
  "succeeds (writeRegister concrete_ops RegisterState_new sample_reg (the (SValue_number 16 7)))
     (\<lambda>st'. reg_rep sv_is st' (bits_write (\<lambda>key i. None) sample_reg 7))"
proof -
  have "sv_is (the (SValue_number 16 7)) (reg_nBits sample_reg) 7"
    using sv_number [of 16 7] by (simp add: sample_reg_ok)
  from register_write_refines [OF new_state_rep _ sample_reg_ok(2) this] show ?thesis
    by (simp add: sample_reg_ok RegisterState_new_def)
qed

text \<open>
  After a write, peeking the same register gives the written number, and a register that
  shares no bit with it reads as before.
\<close>

theorem register_write_then_read:
  assumes "reg_rep sv_is st f" "0 < reg_nBits reg" "reg_ok reg" "sv_is v (reg_nBits reg) x" "accessCreatesLocations st"
    and "0 < reg_nBits other" "reg_ok other" "sv_is dflt (reg_nBits other) d" "reg_positions reg \<inter> reg_positions other = {}"
  shows "succeeds (do { st' \<leftarrow> writeRegister concrete_ops st reg v; a \<leftarrow> peekRegister concrete_ops st' reg v;
      b \<leftarrow> peekRegister concrete_ops st' other dflt; Some (a, b) })
    (\<lambda>(a, b). sv_is a (reg_nBits reg) x \<and> sv_is b (reg_nBits other) (bits_read f other d))"
proof -
  obtain st' where st': "writeRegister concrete_ops st reg v = Some st'" "reg_rep sv_is st' (bits_write f reg x)"
    using cv.write_is [OF assms(1-4)] assms(5) by (auto elim!: succeedsE)
  have "bits_read (bits_write f reg x) reg x = bval (bit x) (reg_nBits reg)"
    unfolding bits_read_def by (intro bval_cong) (simp add: bits_write_def in_reg_def)
  also have "\<dots> = x" using sv_is_less [OF assms(4)] by (simp add: bval_take_bit take_bit_nat_eq_self)
  finally have same: "bits_read (bits_write f reg x) reg x = x" .
  have "\<not> (RegStore other = RegStore reg \<and> in_reg reg (reg_offset other + k))" if "k < reg_nBits other" for k
  proof
    assume e: "RegStore other = RegStore reg \<and> in_reg reg (reg_offset other + k)"
    let ?i = "(majorNumber reg, minorNumber reg, reg_offset other + k)"
    have "?i \<in> reg_positions reg" "?i \<in> reg_positions other"
      using e that by (auto simp: reg_positions_def RegStore_def in_reg_def)
    with assms(9) show False by blast
  qed
  then have other: "bits_read (bits_write f reg x) other d = bits_read f other d"
    unfolding bits_read_def by (intro bval_cong) (auto simp: bits_write_def)
  show ?thesis
    using st'(1) cv.peek_is [OF st'(2) assms(2-4)] cv.peek_is [OF st'(2) assms(6-8)]
    by (auto simp: same other elim!: succeedsE)
qed

theorem register_write_then_read_witness:
  "succeeds (do { st' \<leftarrow> writeRegister concrete_ops RegisterState_new sample_reg (the (SValue_number 16 7));
      a \<leftarrow> peekRegister concrete_ops st' sample_reg (the (SValue_number 16 7));
      b \<leftarrow> peekRegister concrete_ops st' (the (RegisterDescriptor_new 0 5 16 16)) (the (SValue_number 16 9)); Some (a, b) })
    (\<lambda>(a, b). sv_is a 16 7 \<and> sv_is b 16 (bits_read (\<lambda>key i. None) (the (RegisterDescriptor_new 0 5 16 16)) 9))"
proof -
  let ?o = "the (RegisterDescriptor_new 0 5 16 16)"
  have o: "reg_fields ?o = (0, 5, 16, 16)" using new_fields [of 0 5 16 16] by (auto elim!: succeedsE)
  then have o': "reg_nBits ?o = 16" "reg_ok ?o" by (simp_all add: reg_fields_def reg_ok_def)
  have v: "sv_is (the (SValue_number 16 7)) (reg_nBits sample_reg) 7" "sv_is (the (SValue_number 16 9)) (reg_nBits ?o) 9"
    using sv_number [of 16 7] sv_number [of 16 9] by (simp_all add: sample_reg_ok o')
  have "reg_positions sample_reg \<inter> reg_positions ?o = {}"
    using o sample_reg_fields by (auto simp: reg_positions_def reg_fields_def)
  from register_write_then_read [OF new_state_rep _ sample_reg_ok(2) v(1) _ _ o'(2) v(2) this] show ?thesis
    by (simp add: sample_reg_ok o' RegisterState_new_def)
qed

text \<open>
  C9. In every state that a register state reaches by clearing, changing its flags, reading,
  writing and erasing, the conditions of \<^verbatim>\<open>assertStorageConditions\<close> hold of every stored list:
  valid descriptors in the right list, values of the right width, no bit stored twice.
\<close>

theorem storage_conditions_invariant:
  assumes "reg_reachable st" "registers st key = Some ps"
  shows "storage_conditions concrete_ops key IntervalSet_empty ps = Some True"
  using reachable_rep [OF assms(1)] cv.storage_conditions_is cv.reg_repD(1) [OF _ assms(2)] by blast

theorem storage_conditions_invariant_witness:
  "storage_conditions concrete_ops (0, 5) IntervalSet_empty [RegPair sample_reg (the (SValue_number 16 7))] = Some True"
proof -
  have v: "sv_is (the (SValue_number 16 7)) (reg_nBits sample_reg) 7"
    using sv_number [of 16 7] by (simp add: sample_reg_ok)
  have key: "RegStore sample_reg = (0, 5)" using sample_reg_fields by (simp add: reg_fields_def RegStore_def)
  let ?st = "set_pairList RegisterState_new sample_reg [RegPair sample_reg (the (SValue_number 16 7))]"
  have "op_nBits concrete_ops (the (SValue_number 16 7)) = 16" using cv.is_width [OF v] by (simp add: sample_reg_ok)
  then have "writeRegister concrete_ops RegisterState_new sample_reg (the (SValue_number 16 7)) = Some ?st"
    by (simp add: writeRegister_def RegisterState_new_def bit_location_loc sample_reg_ok)
  from write_step [OF fresh_state sample_reg_ok(2) _ v this] have "reg_reachable ?st" by (simp add: sample_reg_ok)
  from storage_conditions_invariant [OF this, of "(0, 5)"] key show ?thesis by (simp add: set_pairList_def)
qed

end
