(* ===== verification/Concrete_Memory.thy ===== *)
theory Concrete_Memory
  imports Register_Refinement
begin

text \<open>
  The memory of the concrete semantics (\<^verbatim>\<open>ConcreteSemantics::MemoryState\<close>), which allocates pages
  on demand, and the operators that read and write multi-byte values through it in either byte
  order (\<^verbatim>\<open>ConcreteSemantics::RiscOperators\<close> and the register access of
  \<^verbatim>\<open>BaseSemantics::RiscOperators\<close> and \<^verbatim>\<open>BaseSemantics::State\<close>).

  A memory map is the partial function from addresses to the cells behind them. A cell of a segment
  that is longer than its buffer has no byte: reading it stops at an assertion and writing it does
  nothing. Writing a cell of an immutable segment does nothing either. The null map pointer is
  \<open>None\<close>. The read and write properties of registers, which are bookkeeping, are left out.
\<close>

section \<open>Memory state\<close>

datatype byte_order = ORDER_UNSPECIFIED | ORDER_LSB | ORDER_MSB

record cell =
  cell_byte :: "8 word option"
  cell_immutable :: bool

type_synonym memory_map = "64 word \<rightharpoonup> cell"

record memstate =
  ms_map :: "memory_map option"
  ms_pageSize :: "64 word"
  ms_byteOrder :: byte_order

definition MemoryState_new :: memstate where
  "MemoryState_new = \<lparr>ms_map = None, ms_pageSize = 4096, ms_byteOrder = ORDER_UNSPECIFIED\<rparr>"

definition set_byteOrder :: "memstate \<Rightarrow> byte_order \<Rightarrow> memstate" where
  "set_byteOrder m bo = m\<lparr>ms_byteOrder := bo\<rparr>"

definition MemoryState_clear :: "memstate \<Rightarrow> memstate" where
  "MemoryState_clear m = m\<lparr>ms_map := None\<rparr>"

text \<open>The page size may be set only while no address is mapped.\<close>

definition set_pageSize :: "memstate \<Rightarrow> 64 word \<Rightarrow> memstate option" where
  "set_pageSize m nBytes = do {
     require (case ms_map m of None \<Rightarrow> True | Some mm \<Rightarrow> mm = Map.empty);
     Some (m\<lparr>ms_pageSize := max nBytes 1\<rparr>)
   }"

definition alignDown :: "64 word \<Rightarrow> 64 word \<Rightarrow> 64 word option" where
  "alignDown address alignment = do { require (alignment > 0); Some ((address div alignment) * alignment) }"

text \<open>The bytes of a new allocating buffer of \<open>n\<close> bytes, mapped at \<open>i\<close>, are zero.\<close>

definition map_insert_buffer :: "memory_map \<Rightarrow> 64 word interval \<Rightarrow> 64 word \<Rightarrow> memory_map" where
  "map_insert_buffer mm i n = (\<lambda>a. if a \<in> ivl_set i
     then Some \<lparr>cell_byte = (if a - ilo i < n then Some 0 else None), cell_immutable = False\<rparr> else mm a)"

definition allocatePage :: "memstate \<Rightarrow> 64 word \<Rightarrow> memstate option" where
  "allocatePage m va = do {
     let mm = (case ms_map m of None \<Rightarrow> Map.empty | Some mm \<Rightarrow> mm);
     pageVa \<leftarrow> alignDown va (ms_pageSize m);
     Some (m\<lparr>ms_map := Some (map_insert_buffer mm (hull pageVa (pageVa + ms_pageSize m - 1)) (ms_pageSize m))\<rparr>)
   }"

text \<open>The three accesses of the map at one address: \<^verbatim>\<open>exists\<close>, \<^verbatim>\<open>limit(1).read\<close> and \<^verbatim>\<open>limit(1).write\<close>.\<close>

definition map_exists :: "memstate \<Rightarrow> 64 word \<Rightarrow> bool" where
  "map_exists m a \<longleftrightarrow> (case ms_map m of None \<Rightarrow> False | Some mm \<Rightarrow> mm a \<noteq> None)"

definition map_read :: "memstate \<Rightarrow> 64 word \<Rightarrow> 8 word \<Rightarrow> 8 word option" where
  "map_read m a buf = (case ms_map m of None \<Rightarrow> None | Some mm \<Rightarrow>
     (case mm a of None \<Rightarrow> Some buf | Some c \<Rightarrow> cell_byte c))"

definition map_write :: "memstate \<Rightarrow> 64 word \<Rightarrow> 8 word \<Rightarrow> memstate option" where
  "map_write m a b = (case ms_map m of None \<Rightarrow> None | Some mm \<Rightarrow>
     (case mm a of
        None \<Rightarrow> Some m
      | Some c \<Rightarrow>
          if cell_immutable c \<or> cell_byte c = None then Some m
          else Some (m\<lparr>ms_map := Some (mm(a \<mapsto> c\<lparr>cell_byte := Some b\<rparr>))\<rparr>)))"

definition MemoryState_readOrPeekMemory :: "memstate \<Rightarrow> svalue \<Rightarrow> svalue \<Rightarrow> bool \<Rightarrow> (svalue \<times> memstate) option" where
  "MemoryState_readOrPeekMemory m address dflt0 allowSideEffects = do {
     require (8 = sv_width dflt0);
     addr \<leftarrow> SValue_toUnsigned address;
     d \<leftarrow> SValue_toUnsigned dflt0;
     let dflt = (ucast d :: 8 word);
     if \<not> map_exists m addr then
       if allowSideEffects then do {
         m \<leftarrow> allocatePage m addr;
         m \<leftarrow> map_write m addr dflt;
         Some (dflt0, m)
       } else Some (dflt0, m)
     else do {
       dflt \<leftarrow> map_read m addr dflt;
       v \<leftarrow> SValue_number 8 (ucast dflt);
       Some (v, m)
     }
   }"

definition MemoryState_readMemory :: "memstate \<Rightarrow> svalue \<Rightarrow> svalue \<Rightarrow> (svalue \<times> memstate) option" where
  "MemoryState_readMemory m addr dflt = MemoryState_readOrPeekMemory m addr dflt True"

definition MemoryState_peekMemory :: "memstate \<Rightarrow> svalue \<Rightarrow> svalue \<Rightarrow> (svalue \<times> memstate) option" where
  "MemoryState_peekMemory m addr dflt = MemoryState_readOrPeekMemory m addr dflt False"

definition MemoryState_writeMemory :: "memstate \<Rightarrow> svalue \<Rightarrow> svalue \<Rightarrow> memstate option" where
  "MemoryState_writeMemory m address value0 = do {
     require (8 = sv_width value0);
     addr \<leftarrow> SValue_toUnsigned address;
     v \<leftarrow> SValue_toUnsigned value0;
     let value = (ucast v :: 8 word);
     m \<leftarrow> (if \<not> map_exists m addr then allocatePage m addr else Some m);
     map_write m addr value
   }"

section \<open>States and operators\<close>

record cstate =
  cs_registers :: "svalue regstate"
  cs_memory :: memstate

definition State_clear :: "cstate \<Rightarrow> cstate" where
  "State_clear s = s\<lparr>cs_registers := RegisterState_clear (cs_registers s), cs_memory := MemoryState_clear (cs_memory s)\<rparr>"

definition State_readRegister :: "cstate \<Rightarrow> register_descriptor \<Rightarrow> svalue \<Rightarrow> (svalue \<times> cstate) option" where
  "State_readRegister s desc dflt = do {
     require (\<not> reg_isEmpty desc);
     (v, regs) \<leftarrow> readRegister concrete_ops (cs_registers s) desc dflt;
     Some (v, s\<lparr>cs_registers := regs\<rparr>)
   }"

definition State_peekRegister :: "cstate \<Rightarrow> register_descriptor \<Rightarrow> svalue \<Rightarrow> svalue option" where
  "State_peekRegister s desc dflt = do {
     require (\<not> reg_isEmpty desc);
     peekRegister concrete_ops (cs_registers s) desc dflt
   }"

definition State_writeRegister :: "cstate \<Rightarrow> register_descriptor \<Rightarrow> svalue \<Rightarrow> cstate option" where
  "State_writeRegister s desc v = do {
     require (\<not> reg_isEmpty desc);
     regs \<leftarrow> writeRegister concrete_ops (cs_registers s) desc v;
     Some (s\<lparr>cs_registers := regs\<rparr>)
   }"

definition State_accessMemory :: "cstate \<Rightarrow> svalue \<Rightarrow> svalue \<Rightarrow> bool \<Rightarrow> (svalue \<times> cstate) option" where
  "State_accessMemory s address dflt allowSideEffects = do {
     (v, m) \<leftarrow> (if allowSideEffects then MemoryState_readMemory (cs_memory s) address dflt
       else MemoryState_peekMemory (cs_memory s) address dflt);
     Some (v, s\<lparr>cs_memory := m\<rparr>)
   }"

definition State_writeMemory :: "cstate \<Rightarrow> svalue \<Rightarrow> svalue \<Rightarrow> cstate option" where
  "State_writeMemory s address v = do {
     m \<leftarrow> MemoryState_writeMemory (cs_memory s) address v;
     Some (s\<lparr>cs_memory := m\<rparr>)
   }"

text \<open>The operators object: its current state and the lazily updated initial state, if there is one.\<close>

record machine =
  currentState :: cstate
  initialState :: "cstate option"

definition ops_readRegister :: "machine \<Rightarrow> register_descriptor \<Rightarrow> svalue \<Rightarrow> (svalue \<times> machine) option" where
  "ops_readRegister mc reg dflt0 = do {
     (dflt, mc) \<leftarrow> (case initialState mc of
         None \<Rightarrow> Some (dflt0, mc)
       | Some s \<Rightarrow> do { (dflt, s) \<leftarrow> State_readRegister s reg dflt0; Some (dflt, mc\<lparr>initialState := Some s\<rparr>) });
     (retval, s) \<leftarrow> State_readRegister (currentState mc) reg dflt;
     Some (retval, mc\<lparr>currentState := s\<rparr>)
   }"

definition ops_writeRegister :: "machine \<Rightarrow> register_descriptor \<Rightarrow> svalue \<Rightarrow> machine option" where
  "ops_writeRegister mc reg a = do {
     s \<leftarrow> State_writeRegister (currentState mc) reg a;
     Some (mc\<lparr>currentState := s\<rparr>)
   }"

definition ops_peekRegister :: "machine \<Rightarrow> register_descriptor \<Rightarrow> svalue \<Rightarrow> svalue option" where
  "ops_peekRegister mc reg dflt = State_peekRegister (currentState mc) reg dflt"

definition ops_interrupt :: "machine \<Rightarrow> machine" where
  "ops_interrupt mc = mc\<lparr>currentState := State_clear (currentState mc)\<rparr>"

text \<open>The address offset by the value of the segment register, when there is one.\<close>

definition adjusted_va :: "machine \<Rightarrow> register_descriptor \<Rightarrow> svalue \<Rightarrow> bool \<Rightarrow> (svalue \<times> machine) option" where
  "adjusted_va mc segreg address allowSideEffects =
     (if reg_isEmpty segreg then Some (address, mc)
      else do {
        u \<leftarrow> SValue_undefined (reg_nBits segreg);
        (segregValue, mc) \<leftarrow> (if allowSideEffects then ops_readRegister mc segreg u
          else do { v \<leftarrow> ops_peekRegister mc segreg u; Some (v, mc) });
        e \<leftarrow> Concrete_signExtend segregValue (sv_width address);
        va \<leftarrow> Concrete_add address e;
        Some (va, mc)
      })"

text \<open>One byte of a multi-byte access: its address, and the offset of its bits in the value.\<close>

definition byte_addr :: "svalue \<Rightarrow> nat \<Rightarrow> svalue option" where
  "byte_addr va bytenum = do { k \<leftarrow> SValue_number (sv_width va) (of_nat bytenum); Concrete_add va k }"

definition read_byteOffset :: "byte_order \<Rightarrow> nat \<Rightarrow> nat \<Rightarrow> nat" where
  "read_byteOffset bo nbytes bytenum = (if bo = ORDER_MSB then nbytes - (bytenum + 1) else bytenum)"

definition read_byte :: "machine \<Rightarrow> svalue \<Rightarrow> svalue \<Rightarrow> nat \<Rightarrow> nat \<Rightarrow> bool \<Rightarrow> (svalue \<times> machine) option" where
  "read_byte mc va dflt nbytes bytenum allowSideEffects = do {
     let byteOffset = read_byteOffset (ms_byteOrder (cs_memory (currentState mc))) nbytes bytenum;
     byte_dflt \<leftarrow> Concrete_extract dflt (8 * byteOffset) (8 * byteOffset + 8);
     ba \<leftarrow> byte_addr va bytenum;
     (byte_dflt, mc) \<leftarrow> (case initialState mc of
         None \<Rightarrow> Some (byte_dflt, mc)
       | Some s \<Rightarrow> do {
           (b, s) \<leftarrow> State_accessMemory s ba byte_dflt allowSideEffects;
           Some (b, mc\<lparr>initialState := Some s\<rparr>)
         });
     (v, s) \<leftarrow> State_accessMemory (currentState mc) ba byte_dflt allowSideEffects;
     Some (v, mc\<lparr>currentState := s\<rparr>)
   }"

fun read_bytes :: "machine \<Rightarrow> svalue \<Rightarrow> svalue \<Rightarrow> nat \<Rightarrow> bool \<Rightarrow> nat list \<Rightarrow> svalue option \<Rightarrow> (svalue option \<times> machine) option" where
  "read_bytes mc va dflt nbytes allowSideEffects [] retval = Some (retval, mc)"
| "read_bytes mc va dflt nbytes allowSideEffects (bytenum # rest) retval = do {
     (byte_value, mc) \<leftarrow> read_byte mc va dflt nbytes bytenum allowSideEffects;
     retval \<leftarrow> (case retval of
         None \<Rightarrow> Some byte_value
       | Some r \<Rightarrow>
           (case ms_byteOrder (cs_memory (currentState mc)) of
              ORDER_MSB \<Rightarrow> Concrete_concat byte_value r
            | ORDER_LSB \<Rightarrow> Concrete_concat r byte_value
            | ORDER_UNSPECIFIED \<Rightarrow> None));
     read_bytes mc va dflt nbytes allowSideEffects rest (Some retval)
   }"

definition ops_readOrPeekMemory :: "machine \<Rightarrow> register_descriptor \<Rightarrow> svalue \<Rightarrow> svalue \<Rightarrow> bool \<Rightarrow> (svalue \<times> machine) option" where
  "ops_readOrPeekMemory mc segreg address dflt allowSideEffects = do {
     let nbits = sv_width dflt;
     require (0 = nbits mod 8);
     (va, mc) \<leftarrow> adjusted_va mc segreg address allowSideEffects;
     (r, mc) \<leftarrow> read_bytes mc va dflt (nbits div 8) allowSideEffects [0..<nbits div 8] None;
     retval \<leftarrow> r;
     require (sv_width retval = nbits);
     Some (retval, mc)
   }"

definition ops_readMemory :: "machine \<Rightarrow> register_descriptor \<Rightarrow> svalue \<Rightarrow> svalue \<Rightarrow> svalue \<Rightarrow> (svalue \<times> machine) option" where
  "ops_readMemory mc segreg address dflt cond = do {
     require (1 = sv_width cond);
     if SValue_isFalse cond then Some (dflt, mc)
     else ops_readOrPeekMemory mc segreg address dflt True
   }"

definition ops_peekMemory :: "machine \<Rightarrow> register_descriptor \<Rightarrow> svalue \<Rightarrow> svalue \<Rightarrow> (svalue \<times> machine) option" where
  "ops_peekMemory mc segreg address dflt = ops_readOrPeekMemory mc segreg address dflt False"

definition write_byteOffset :: "byte_order \<Rightarrow> nat \<Rightarrow> nat \<Rightarrow> nat option" where
  "write_byteOffset bo nbytes bytenum =
     (if 1 = nbytes then Some 0
      else case bo of
          ORDER_MSB \<Rightarrow> Some (nbytes - (bytenum + 1))
        | ORDER_LSB \<Rightarrow> Some bytenum
        | ORDER_UNSPECIFIED \<Rightarrow> None)"

fun write_bytes :: "machine \<Rightarrow> svalue \<Rightarrow> svalue \<Rightarrow> nat \<Rightarrow> nat list \<Rightarrow> machine option" where
  "write_bytes mc va v nbytes [] = Some mc"
| "write_bytes mc va v nbytes (bytenum # rest) = do {
     byteOffset \<leftarrow> write_byteOffset (ms_byteOrder (cs_memory (currentState mc))) nbytes bytenum;
     byte_value \<leftarrow> Concrete_extract v (8 * byteOffset) (8 * byteOffset + 8);
     ba \<leftarrow> byte_addr va bytenum;
     s \<leftarrow> State_writeMemory (currentState mc) ba byte_value;
     write_bytes (mc\<lparr>currentState := s\<rparr>) va v nbytes rest
   }"

definition ops_writeMemory :: "machine \<Rightarrow> register_descriptor \<Rightarrow> svalue \<Rightarrow> svalue \<Rightarrow> svalue \<Rightarrow> machine option" where
  "ops_writeMemory mc segreg address value0 cond = do {
     require (1 = sv_width cond);
     if SValue_isFalse cond then Some mc
     else do {
       (va, mc) \<leftarrow> adjusted_va mc segreg address True;
       value \<leftarrow> SValue_copy value0 0;
       let nbits = sv_width value;
       require (0 = nbits mod 8);
       write_bytes mc va value (nbits div 8) [0..<nbits div 8]
     }
   }"

section \<open>Memory as a function from addresses to bytes\<close>

definition the_map :: "memstate \<Rightarrow> memory_map" where
  "the_map m = (case ms_map m of None \<Rightarrow> Map.empty | Some mm \<Rightarrow> mm)"

definition plain_cell :: "cell \<Rightarrow> bool" where
  "plain_cell c \<longleftrightarrow> \<not> cell_immutable c \<and> cell_byte c \<noteq> None"

text \<open>Whole pages are mapped, and every mapped byte can be read and written.\<close>

definition map_ok :: "64 word \<Rightarrow> memory_map \<Rightarrow> bool" where
  "map_ok p mm \<longleftrightarrow> (\<forall>c\<in>ran mm. plain_cell c) \<and> (\<forall>a\<in>dom mm. \<forall>b. b div p = a div p \<longrightarrow> b \<in> dom mm)"

definition mem_ok :: "memstate \<Rightarrow> bool" where
  "mem_ok m \<longleftrightarrow> (\<exists>k<64. ms_pageSize m = 2 ^ k) \<and> map_ok (ms_pageSize m) (the_map m)"

text \<open>An address that is not mapped counts as zero.\<close>

definition mem_bytes :: "memstate \<Rightarrow> 64 word \<Rightarrow> 8 word" where
  "mem_bytes m a = (case the_map m a of None \<Rightarrow> 0 | Some c \<Rightarrow> (case cell_byte c of None \<Rightarrow> 0 | Some b \<Rightarrow> b))"

lemma map_exists_iff: "map_exists m a \<longleftrightarrow> a \<in> dom (the_map m)"
  by (auto simp: map_exists_def the_map_def split: option.splits)

lemma unat_pow2: "k < 64 \<Longrightarrow> unat (2 ^ k :: 64 word) = 2 ^ k"
  using unat_of_nat [of "2 ^ k", where 'a = 64] power_strict_increasing [of k 64 "2 :: nat"] by simp

lemma page_interval:
  fixes a :: "64 word"
  assumes "k < 64"
  shows "ivl_set (hull (a div 2 ^ k * 2 ^ k) (a div 2 ^ k * 2 ^ k + 2 ^ k - 1)) = {b. b div 2 ^ k = a div 2 ^ k}"
    "b div 2 ^ k = a div 2 ^ k \<Longrightarrow> b - ilo (hull (a div 2 ^ k * 2 ^ k) (a div 2 ^ k * 2 ^ k + 2 ^ k - 1)) < 2 ^ k"
proof -
  define p q where "p = a div 2 ^ k * 2 ^ k" and "q = unat a div 2 ^ k"
  have "q * 2 ^ k \<le> unat a" by (simp add: q_def)
  have qb: "q < 2 ^ (64 - k)"
  proof -
    have "unat a < 2 ^ k * 2 ^ (64 - k)" using assms unsigned_less [of a] by (simp flip: power_add)
    then show ?thesis by (simp add: q_def less_mult_imp_div_less mult.commute)
  qed
  have top: "q * 2 ^ k + 2 ^ k \<le> 2 ^ 64"
  proof -
    have "(q + 1) * 2 ^ k \<le> 2 ^ (64 - k) * 2 ^ k" using qb by (intro mult_right_mono) auto
    then show ?thesis using assms by (simp flip: power_add)
  qed
  have up: "unat p = q * 2 ^ k"
  proof -
    have "unat (a div 2 ^ k) = q" by (simp add: unat_div unat_pow2 [OF assms] q_def)
    moreover have "q * 2 ^ k < 2 ^ LENGTH(64)"
      by (rule less_le_trans [of _ "q * 2 ^ k + 2 ^ k"]) (use top in simp_all)
    ultimately show ?thesis unfolding p_def using unat_mult_lem [of "a div 2 ^ k" "2 ^ k"] by (simp add: unat_pow2 [OF assms])
  qed
  have one: "p + 2 ^ k - 1 = p + (2 ^ k - 1)" by (simp add: algebra_simps)
  have um: "unat (2 ^ k - 1 :: 64 word) = 2 ^ k - 1"
    using assms by (simp add: unat_minus_one unat_pow2)
  have uq: "unat (p + 2 ^ k - 1) = q * 2 ^ k + (2 ^ k - 1)"
    unfolding one unat_word_ariths up um using top by (simp add: le_Suc_ex)
  have le: "p \<le> p + 2 ^ k - 1" unfolding word_le_nat_alt up uq by (rule le_add1)
  have dv: "b div 2 ^ k = a div 2 ^ k \<longleftrightarrow> unat b div 2 ^ k = q" for b :: "64 word"
    by (simp add: word_unat_eq_iff unat_div unat_pow2 [OF assms] q_def)
  have mem: "p \<le> b \<and> b \<le> p + 2 ^ k - 1 \<longleftrightarrow> unat b div 2 ^ k = q" for b :: "64 word"
  proof -
    have "q * 2 ^ k \<le> unat b \<and> unat b \<le> q * 2 ^ k + (2 ^ k - 1) \<longleftrightarrow> unat b div 2 ^ k = q"
    proof -
      have "q * 2 ^ k \<le> u \<and> u \<le> q * 2 ^ k + (2 ^ k - 1) \<longleftrightarrow> u div 2 ^ k = q" for u :: nat
      proof -
        have "u \<le> q * 2 ^ k + (2 ^ k - 1) \<longleftrightarrow> u < q * 2 ^ k + 2 ^ k"
          using zero_less_power [of "2 :: nat" k] by linarith
        moreover have "u div 2 ^ k = q" if "q * 2 ^ k \<le> u" "u < q * 2 ^ k + 2 ^ k"
          using that by (intro div_nat_eqI) (simp_all add: algebra_simps)
        moreover have "q * 2 ^ k \<le> u \<and> u < q * 2 ^ k + 2 ^ k" if "u div 2 ^ k = q"
          using that dividend_less_div_times [of "2 ^ k" u] by (auto simp: algebra_simps)
        ultimately show ?thesis by blast
      qed
      then show ?thesis .
    qed
    then show ?thesis unfolding word_le_nat_alt up uq .
  qed
  show "ivl_set (hull (a div 2 ^ k * 2 ^ k) (a div 2 ^ k * 2 ^ k + 2 ^ k - 1)) = {b. b div 2 ^ k = a div 2 ^ k}"
    unfolding p_def [symmetric] ivl_set_hull min.absorb1 [OF le] max.absorb2 [OF le] set_eq_iff atLeastAtMost_iff mem_Collect_eq mem dv by blast
  show "b - ilo (hull (a div 2 ^ k * 2 ^ k) (a div 2 ^ k * 2 ^ k + 2 ^ k - 1)) < 2 ^ k" if "b div 2 ^ k = a div 2 ^ k"
  proof -
    have pb: "p \<le> b" "b \<le> p + 2 ^ k - 1" using that mem dv by blast+
    then have "unat (b - p) = unat b - unat p" by (simp add: unat_sub)
    also have "\<dots> < 2 ^ k" using pb zero_less_power [of "2 :: nat" k] unfolding word_le_nat_alt up uq by linarith
    finally show ?thesis unfolding p_def [symmetric] by (simp add: min.absorb1 [OF le] word_less_nat_alt unat_pow2 [OF assms])
  qed
qed

lemma map_ok_upd: "map_ok p mm \<Longrightarrow> a \<in> dom mm \<Longrightarrow> plain_cell c \<Longrightarrow> map_ok p (mm(a \<mapsto> c))"
  unfolding map_ok_def by (auto simp: ran_def)

lemma map_ok_page:
  assumes "map_ok p mm" "plain_cell c"
  shows "map_ok p (\<lambda>b. if b div p = a div p then Some c else mm b)"
  unfolding map_ok_def
proof (intro conjI ballI allI impI)
  fix d assume "d \<in> ran (\<lambda>b. if b div p = a div p then Some c else mm b)"
  then obtain b where "(if b div p = a div p then Some c else mm b) = Some d" by (auto simp: ran_def)
  then show "plain_cell d" using assms by (auto simp: map_ok_def ran_def split: if_splits)
next
  fix x y assume x: "x \<in> dom (\<lambda>b. if b div p = a div p then Some c else mm b)" and xy: "y div p = x div p"
  show "y \<in> dom (\<lambda>b. if b div p = a div p then Some c else mm b)"
  proof (cases "y div p = a div p")
    case False
    then have "x \<in> dom mm" using x xy by (simp add: dom_def)
    then have "y \<in> dom mm" using assms(1) xy unfolding map_ok_def by blast
    then show ?thesis by (simp add: dom_def)
  qed (simp add: dom_def)
qed

lemma allocatePage_is:
  assumes "mem_ok m" "\<not> map_exists m a"
  shows "succeeds (allocatePage m a) (\<lambda>m'. mem_ok m' \<and> map_exists m' a \<and> mem_bytes m' = mem_bytes m \<and>
    ms_byteOrder m' = ms_byteOrder m \<and> ms_pageSize m' = ms_pageSize m \<and>
    (\<forall>b. map_exists m' b \<longleftrightarrow> map_exists m b \<or> b div ms_pageSize m = a div ms_pageSize m))"
proof -
  obtain k where k: "k < 64" "ms_pageSize m = 2 ^ k" using assms(1) by (auto simp: mem_ok_def)
  have pos: "(0 :: 64 word) < 2 ^ k" by (simp add: word_less_nat_alt unat_pow2 [OF k(1)])
  define i where "i = hull (a div 2 ^ k * 2 ^ k) (a div 2 ^ k * 2 ^ k + 2 ^ k - 1)"
  define z where "z = \<lparr>cell_byte = Some 0, cell_immutable = False\<rparr>"
  define m' where "m' = m\<lparr>ms_map := Some (map_insert_buffer (the_map m) i (2 ^ k))\<rparr>"
  have eq: "allocatePage m a = Some m'"
    using pos by (simp add: allocatePage_def alignDown_def k(2) m'_def the_map_def i_def)
  have nm: "the_map m' = (\<lambda>b. if b div 2 ^ k = a div 2 ^ k then Some z else the_map m b)"
  proof
    fix b
    show "the_map m' b = (if b div 2 ^ k = a div 2 ^ k then Some z else the_map m b)"
      using page_interval(1) [OF k(1), of a] page_interval(2) [OF k(1), of b a]
      unfolding the_map_def m'_def map_insert_buffer_def i_def [symmetric] z_def by simp
  qed
  have ok: "map_ok (2 ^ k) (the_map m)" using assms(1) by (simp add: mem_ok_def k(2))
  have none: "the_map m b = None" if "b div 2 ^ k = a div 2 ^ k" for b
  proof (rule ccontr)
    assume "the_map m b \<noteq> None"
    then have "b \<in> dom (the_map m)" by blast
    with ok that [symmetric] have "a \<in> dom (the_map m)" unfolding map_ok_def by blast
    with assms(2) show False by (simp add: map_exists_iff)
  qed
  have "mem_ok m'"
  proof -
    have "ms_pageSize m' = 2 ^ k" by (simp add: m'_def k(2))
    moreover have "plain_cell z" by (simp add: z_def plain_cell_def)
    ultimately show ?thesis unfolding mem_ok_def nm using map_ok_page [OF ok, of z a] k(1) by metis
  qed
  moreover have dm: "\<forall>b. map_exists m' b \<longleftrightarrow> map_exists m b \<or> b div ms_pageSize m = a div ms_pageSize m"
    by (auto simp: map_exists_iff nm k(2) dom_def)
  then have "map_exists m' a" by simp
  moreover note dm
  moreover have "mem_bytes m' b = mem_bytes m b" for b
    using none [of b] by (simp add: mem_bytes_def nm z_def)
  moreover have "ms_byteOrder m' = ms_byteOrder m" "ms_pageSize m' = ms_pageSize m" by (simp_all add: m'_def)
  ultimately show ?thesis unfolding eq succeeds_Some by blast
qed

lemma mapped_cell:
  assumes "mem_ok m" "map_exists m a"
  obtains mm c b where "ms_map m = Some mm" "mm a = Some c" "cell_byte c = Some b" "\<not> cell_immutable c" "mem_bytes m a = b"
proof -
  obtain mm c where mm: "ms_map m = Some mm" "mm a = Some c"
    using assms(2) by (auto simp: map_exists_def split: option.splits)
  then have "plain_cell c" using assms(1) by (auto simp: mem_ok_def map_ok_def the_map_def ran_def)
  with mm that show ?thesis by (auto simp: plain_cell_def mem_bytes_def the_map_def)
qed

lemma map_write_is:
  assumes "mem_ok m" "map_exists m a"
  shows "succeeds (map_write m a b) (\<lambda>m'. mem_ok m' \<and> map_exists m' a \<and> mem_bytes m' = (mem_bytes m)(a := b) \<and>
    ms_byteOrder m' = ms_byteOrder m \<and> ms_pageSize m' = ms_pageSize m \<and> map_exists m' = map_exists m)"
proof -
  from mapped_cell [OF assms] obtain mm c where mm: "ms_map m = Some mm" "mm a = Some c" "cell_byte c \<noteq> None" "\<not> cell_immutable c"
    by (metis option.distinct(1))
  define m' where "m' = m\<lparr>ms_map := Some (mm(a \<mapsto> c\<lparr>cell_byte := Some b\<rparr>))\<rparr>"
  have w: "map_write m a b = Some m'" by (simp add: map_write_def mm m'_def)
  have t: "the_map m = mm" "the_map m' = mm(a \<mapsto> c\<lparr>cell_byte := Some b\<rparr>)" by (simp_all add: the_map_def mm m'_def)
  have "map_ok (ms_pageSize m) (the_map m')" unfolding t
    by (rule map_ok_upd) (use assms(1) mm t in \<open>auto simp: mem_ok_def plain_cell_def\<close>)
  moreover have "a \<in> dom mm" using mm(2) by blast
  moreover have c: "ms_pageSize m' = ms_pageSize m" "ms_byteOrder m' = ms_byteOrder m" by (simp_all add: m'_def)
  ultimately show ?thesis unfolding w succeeds_Some mem_ok_def c map_exists_iff
    using assms(1) by (auto simp: mem_ok_def mem_bytes_def t fun_eq_iff map_exists_iff)
qed

lemma map_read_is: "mem_ok m \<Longrightarrow> map_exists m a \<Longrightarrow> map_read m a d = Some (mem_bytes m a)"
  by (erule (1) mapped_cell) (simp add: map_read_def)

lemma unmapped_zero: "\<not> map_exists m a \<Longrightarrow> mem_bytes m a = 0"
  by (simp add: map_exists_iff mem_bytes_def domIff)

definition keeps_config :: "memstate \<Rightarrow> memstate \<Rightarrow> bool" where
  "keeps_config m m' \<longleftrightarrow> ms_byteOrder m' = ms_byteOrder m \<and> ms_pageSize m' = ms_pageSize m"

lemma MemoryState_writeMemory_is:
  assumes "mem_ok m" "sv_is addr w x" "w \<le> 64" "sv_is v 8 y"
  shows "succeeds (MemoryState_writeMemory m addr v) (\<lambda>m'. mem_ok m' \<and> keeps_config m m' \<and>
    mem_bytes m' = (mem_bytes m)(of_nat x := of_nat y))"
proof -
  have u: "SValue_toUnsigned addr = Some (of_nat x)" "SValue_toUnsigned v = Some (of_nat y)" "sv_width v = 8"
    using SValue_toUnsigned_is [OF assms(2,3)] SValue_toUnsigned_is [OF assms(4)] sv_isD(1) [OF assms(4)] by simp_all
  have y: "(ucast (of_nat y :: 64 word) :: 8 word) = of_nat y" by (rule bit_word_eqI) (simp add: bit_simps)
  have "succeeds (if \<not> map_exists m (of_nat x) then allocatePage m (of_nat x) else Some m)
      (\<lambda>m'. mem_ok m' \<and> map_exists m' (of_nat x) \<and> mem_bytes m' = mem_bytes m \<and> keeps_config m m')"
    using allocatePage_is [OF assms(1), of "of_nat x"] assms(1) by (auto simp: keeps_config_def elim!: succeeds_mono)
  then obtain m1 where m1: "(if \<not> map_exists m (of_nat x) then allocatePage m (of_nat x) else Some m) = Some m1"
      "mem_ok m1" "map_exists m1 (of_nat x)" "mem_bytes m1 = mem_bytes m" "keeps_config m m1" by (auto elim: succeedsE)
  then have "MemoryState_writeMemory m addr v = map_write m1 (of_nat x) (of_nat y)"
    unfolding MemoryState_writeMemory_def by (simp add: u y)
  with map_write_is [OF m1(2,3), of "of_nat y"] m1(4,5) show ?thesis by (auto simp: keeps_config_def elim!: succeeds_mono)
qed

lemma byte_value: "unat b < 2 ^ 8" "take_bit 64 (unat b) = unat b" for b :: "8 word"
  using unsigned_less [of b, where 'a = nat] by (auto intro: take_bit_nat_eq_self)

lemma MemoryState_read_mapped:
  assumes "mem_ok m" "sv_is addr w x" "w \<le> 64" "sv_is d 8 y" "map_exists m (of_nat x)"
  shows "succeeds (MemoryState_readOrPeekMemory m addr d side) (\<lambda>(v, m'). sv_is v 8 (unat (mem_bytes m (of_nat x))) \<and> m' = m)"
proof -
  have u: "SValue_toUnsigned addr = Some (of_nat x)" "SValue_toUnsigned d = Some (of_nat y)" "sv_width d = 8"
    using SValue_toUnsigned_is [OF assms(2,3)] SValue_toUnsigned_is [OF assms(4)] sv_isD(1) [OF assms(4)] by simp_all
  have "succeeds (SValue_number 8 (ucast (mem_bytes m (of_nat x)))) (\<lambda>v. sv_is v 8 (unat (mem_bytes m (of_nat x))))"
    using SValue_number_is [of 8 "ucast (mem_bytes m (of_nat x))"] byte_value [of "mem_bytes m (of_nat x)"]
    by (simp add: unsigned_ucast_eq)
  with assms(1,5) show ?thesis
    by (auto simp: MemoryState_readOrPeekMemory_def u map_read_is elim!: succeedsE)
qed

lemma MemoryState_read_unmapped:
  assumes "mem_ok m" "sv_is addr w x" "w \<le> 64" "sv_is d 8 y" "\<not> map_exists m (of_nat x)"
  shows "MemoryState_readOrPeekMemory m addr d False = Some (d, m)"
    "succeeds (MemoryState_readOrPeekMemory m addr d True) (\<lambda>(v, m'). v = d \<and> mem_ok m' \<and> keeps_config m m' \<and>
      mem_bytes m' = (mem_bytes m)(of_nat x := of_nat y) \<and>
      (\<forall>b. map_exists m' b \<longleftrightarrow> map_exists m b \<or> b div ms_pageSize m = of_nat x div ms_pageSize m))"
proof -
  have u: "SValue_toUnsigned addr = Some (of_nat x)" "SValue_toUnsigned d = Some (of_nat y)" "sv_width d = 8"
    using SValue_toUnsigned_is [OF assms(2,3)] SValue_toUnsigned_is [OF assms(4)] sv_isD(1) [OF assms(4)] by simp_all
  show "MemoryState_readOrPeekMemory m addr d False = Some (d, m)"
    using assms(5) by (simp add: MemoryState_readOrPeekMemory_def u)
  have y: "(ucast (of_nat y :: 64 word) :: 8 word) = of_nat y" by (rule bit_word_eqI) (simp add: bit_simps)
  from allocatePage_is [OF assms(1,5)] obtain m1 where m1: "allocatePage m (of_nat x) = Some m1" "mem_ok m1"
    "map_exists m1 (of_nat x)" "mem_bytes m1 = mem_bytes m" "keeps_config m m1"
    "\<forall>b. map_exists m1 b \<longleftrightarrow> map_exists m b \<or> b div ms_pageSize m = of_nat x div ms_pageSize m"
    by (auto simp: keeps_config_def elim: succeedsE)
  from map_write_is [OF m1(2,3), of "of_nat y"] obtain m2 where m2: "map_write m1 (of_nat x) (of_nat y) = Some m2" "mem_ok m2"
    "mem_bytes m2 = (mem_bytes m)(of_nat x := of_nat y)" "keeps_config m m2" "map_exists m2 = map_exists m1"
    using m1(4,5) by (auto simp: keeps_config_def elim: succeedsE)
  have "MemoryState_readOrPeekMemory m addr d True = Some (d, m2)"
    using m1(1) m2(1) assms(5) by (simp add: MemoryState_readOrPeekMemory_def u y)
  with m2 m1(6) show "succeeds (MemoryState_readOrPeekMemory m addr d True) (\<lambda>(v, m'). v = d \<and> mem_ok m' \<and> keeps_config m m' \<and>
      mem_bytes m' = (mem_bytes m)(of_nat x := of_nat y) \<and>
      (\<forall>b. map_exists m' b \<longleftrightarrow> map_exists m b \<or> b div ms_pageSize m = of_nat x div ms_pageSize m))" by simp
qed

lemma MemoryState_read_is:
  assumes "mem_ok m" "sv_is addr w x" "w \<le> 64" "sv_is d 8 0"
  shows "succeeds (MemoryState_readOrPeekMemory m addr d side) (\<lambda>(v, m'). sv_is v 8 (unat (mem_bytes m (of_nat x))) \<and>
    mem_ok m' \<and> keeps_config m m' \<and> mem_bytes m' = mem_bytes m)"
proof (cases "map_exists m (of_nat x)")
  case True
  from MemoryState_read_mapped [OF assms True, of side] assms(1) show ?thesis by (auto simp: keeps_config_def elim!: succeeds_mono)
next
  case False
  note z = unmapped_zero [OF False]
  then have "(mem_bytes m)(of_nat x := of_nat 0) = mem_bytes m" by (simp add: fun_upd_idem_iff)
  with MemoryState_read_unmapped [OF assms False] assms(1,4) z show ?thesis
    by (cases side) (auto simp: keeps_config_def elim!: succeeds_mono)
qed

text \<open>Loading and storing the bytes of a value, at addresses that wrap around at the width of the address.\<close>

definition at_byte :: "nat \<Rightarrow> nat \<Rightarrow> nat \<Rightarrow> 64 word" where
  "at_byte w x i = of_nat ((x + i) mod 2 ^ w)"

definition byte_of :: "byte_order \<Rightarrow> nat \<Rightarrow> nat \<Rightarrow> nat \<Rightarrow> 8 word" where
  "byte_of bo n y i = of_nat (y div 2 ^ (8 * read_byteOffset bo n i))"

fun store :: "byte_order \<Rightarrow> nat \<Rightarrow> nat \<Rightarrow> nat \<Rightarrow> nat \<Rightarrow> nat \<Rightarrow> (64 word \<Rightarrow> 8 word) \<Rightarrow> 64 word \<Rightarrow> 8 word" where
  "store bo w x n y 0 f = f"
| "store bo w x n y (Suc k) f = (store bo w x n y k f)(at_byte w x k := byte_of bo n y k)"

fun load :: "byte_order \<Rightarrow> nat \<Rightarrow> nat \<Rightarrow> nat \<Rightarrow> (64 word \<Rightarrow> 8 word) \<Rightarrow> nat" where
  "load bo w x 0 f = 0"
| "load bo w x (Suc k) f =
     (if bo = ORDER_MSB then unat (f (at_byte w x k)) + 2 ^ 8 * load bo w x k f
      else load bo w x k f + 2 ^ (8 * k) * unat (f (at_byte w x k)))"

lemma byte_addr_is:
  assumes "sv_is va w x" "w \<le> 64"
  shows "succeeds (byte_addr va i) (\<lambda>r. sv_is r w ((x + i) mod 2 ^ w))"
proof -
  have "unat (of_nat i :: 64 word) mod 2 ^ w = i mod 2 ^ w"
    using mod_mod_cancel [OF le_imp_power_dvd [OF assms(2)], of i "2"] by (simp add: unat_of_nat)
  with SValue_number_is [of w "of_nat i"] have "succeeds (SValue_number w (of_nat i)) (\<lambda>r. sv_is r w (i mod 2 ^ w))" by simp
  then show ?thesis unfolding byte_addr_def sv_isD(1) [OF assms(1)]
  proof (rule succeeds_bind)
    fix k assume "sv_is k w (i mod 2 ^ w)"
    from cv.add_law [OF assms(1) this] show "succeeds (Concrete_add va k) (\<lambda>r. sv_is r w ((x + i) mod 2 ^ w))"
      by (simp add: concrete_ops_def mod_add_right_eq)
  qed
qed

abbreviation mc_memory :: "machine \<Rightarrow> memstate" where
  "mc_memory mc \<equiv> cs_memory (currentState mc)"

abbreviation set_memory :: "machine \<Rightarrow> memstate \<Rightarrow> machine" where
  "set_memory mc m \<equiv> mc\<lparr>currentState := (currentState mc)\<lparr>cs_memory := m\<rparr>\<rparr>"

text \<open>Multi-byte accesses need a byte order.\<close>

definition order_known :: "memstate \<Rightarrow> nat \<Rightarrow> bool" where
  "order_known m n \<longleftrightarrow> n = 1 \<or> ms_byteOrder m \<noteq> ORDER_UNSPECIFIED"

lemma order_known_keeps: "keeps_config m m' \<Longrightarrow> order_known m n \<Longrightarrow> order_known m' n"
  by (simp add: order_known_def keeps_config_def)

lemma read_byteOffset_less: "i < n \<Longrightarrow> read_byteOffset bo n i < n"
  by (simp add: read_byteOffset_def)

lemma write_byteOffset_is:
  "order_known m n \<Longrightarrow> i < n \<Longrightarrow> write_byteOffset (ms_byteOrder m) n i = Some (read_byteOffset (ms_byteOrder m) n i)"
  by (auto simp: write_byteOffset_def read_byteOffset_def order_known_def split: byte_order.splits)

lemma extract_byte:
  assumes "sv_is v (8 * n) y" "b < n"
  shows "succeeds (Concrete_extract v (8 * b) (8 * b + 8)) (\<lambda>r. sv_is r 8 (y div 2 ^ (8 * b) mod 2 ^ 8))"
  using cv.extract_law [OF assms(1), of "8 * b" "8 * b + 8"] assms(2) by (simp add: concrete_ops_def)

lemma write_bytes_is:
  assumes "sv_is va w x" "w \<le> 64" "sv_is v (8 * n) y"
  shows "mem_ok (mc_memory mc) \<Longrightarrow> order_known (mc_memory mc) n \<Longrightarrow> j \<le> n \<Longrightarrow>
    mem_bytes (mc_memory mc) = store (ms_byteOrder (mc_memory mc)) w x n y j f \<Longrightarrow>
    succeeds (write_bytes mc va v n [j..<n]) (\<lambda>mc'. \<exists>m. mc' = set_memory mc m \<and> mem_ok m \<and> keeps_config (mc_memory mc) m \<and>
      mem_bytes m = store (ms_byteOrder (mc_memory mc)) w x n y n f)"
proof (induction "n - j" arbitrary: j mc)
  case 0
  then show ?case by (auto simp: keeps_config_def intro: exI [of _ "mc_memory mc"])
next
  case (Suc d)
  define bo where "bo = ms_byteOrder (mc_memory mc)"
  define ofs where "ofs = read_byteOffset bo n j"
  have j: "j < n" "[j..<n] = j # [Suc j..<n]" using Suc.hyps(2) by (simp_all add: upt_conv_Cons)
  have ob: "write_byteOffset bo n j = Some ofs" using write_byteOffset_is [OF Suc.prems(2) j(1)] by (simp add: bo_def ofs_def)
  from extract_byte [OF assms(3), of ofs] read_byteOffset_less [OF j(1), of bo]
  obtain bv where bv: "Concrete_extract v (8 * ofs) (8 * ofs + 8) = Some bv" "sv_is bv 8 (y div 2 ^ (8 * ofs) mod 2 ^ 8)"
    by (auto simp: ofs_def elim: succeedsE)
  from byte_addr_is [OF assms(1,2), of j] obtain ba where ba: "byte_addr va j = Some ba" "sv_is ba w ((x + j) mod 2 ^ w)"
    by (auto elim: succeedsE)
  have bt: "(of_nat (y div 2 ^ (8 * ofs) mod 2 ^ 8) :: 8 word) = byte_of bo n y j"
    by (simp add: byte_of_def ofs_def [symmetric] word_of_nat_eq_iff take_bit_eq_mod)
  from MemoryState_writeMemory_is [OF Suc.prems(1) ba(2) assms(2) bv(2)]
  obtain m1 where m1: "MemoryState_writeMemory (mc_memory mc) ba bv = Some m1" "mem_ok m1" "keeps_config (mc_memory mc) m1"
    "mem_bytes m1 = (mem_bytes (mc_memory mc))(at_byte w x j := byte_of bo n y j)"
    unfolding bt at_byte_def by (auto elim: succeedsE)
  have bo1: "ms_byteOrder m1 = bo" using m1(3) by (simp add: keeps_config_def bo_def)
  let ?mc = "set_memory mc m1"
  have "write_bytes mc va v n [j..<n] = write_bytes ?mc va v n [Suc j..<n]"
    using ob bv(1) ba(1) m1(1) by (simp add: j(2) State_writeMemory_def bo_def [symmetric])
  moreover have "succeeds (write_bytes ?mc va v n [Suc j..<n]) (\<lambda>mc'. \<exists>m. mc' = set_memory ?mc m \<and> mem_ok m \<and>
      keeps_config (mc_memory ?mc) m \<and> mem_bytes m = store (ms_byteOrder (mc_memory ?mc)) w x n y n f)"
  proof (rule Suc.hyps(1))
    show "d = n - Suc j" "Suc j \<le> n" using Suc.hyps(2) by simp_all
    show "mem_ok (mc_memory ?mc)" "order_known (mc_memory ?mc) n" using m1 order_known_keeps [OF m1(3) Suc.prems(2)] by simp_all
    show "mem_bytes (mc_memory ?mc) = store (ms_byteOrder (mc_memory ?mc)) w x n y (Suc j) f"
      using m1(4) Suc.prems(4) bo1 by (simp add: bo_def)
  qed
  ultimately show ?case using m1(3) bo1 by (auto simp: keeps_config_def bo_def elim!: succeeds_mono)
qed

lemma read_byte_is:
  assumes "sv_is va w x" "w \<le> 64" "sv_is d (8 * n) 0" "j < n" "mem_ok (mc_memory mc)" "initialState mc = None"
  shows "succeeds (read_byte mc va d n j side) (\<lambda>(v, mc'). sv_is v 8 (unat (mem_bytes (mc_memory mc) (at_byte w x j))) \<and>
    (\<exists>m. mc' = set_memory mc m \<and> mem_ok m \<and> keeps_config (mc_memory mc) m \<and> mem_bytes m = mem_bytes (mc_memory mc)))"
proof -
  define ofs where "ofs = read_byteOffset (ms_byteOrder (mc_memory mc)) n j"
  from extract_byte [OF assms(3), of ofs] read_byteOffset_less [OF assms(4)]
  obtain bv where bv: "Concrete_extract d (8 * ofs) (8 * ofs + 8) = Some bv" "sv_is bv 8 0"
    by (auto simp: ofs_def elim: succeedsE)
  from byte_addr_is [OF assms(1,2), of j] obtain ba where ba: "byte_addr va j = Some ba" "sv_is ba w ((x + j) mod 2 ^ w)"
    by (auto elim: succeedsE)
  from MemoryState_read_is [OF assms(5) ba(2) assms(2) bv(2), of side] obtain v m1 where
    r: "MemoryState_readOrPeekMemory (mc_memory mc) ba bv side = Some (v, m1)"
      "sv_is v 8 (unat (mem_bytes (mc_memory mc) (at_byte w x j)))" "mem_ok m1" "keeps_config (mc_memory mc) m1"
      "mem_bytes m1 = mem_bytes (mc_memory mc)"
    unfolding at_byte_def by (auto elim!: succeedsE)
  have "State_accessMemory (currentState mc) ba bv side = Some (v, (currentState mc)\<lparr>cs_memory := m1\<rparr>)"
    using r(1) by (cases side) (simp_all add: State_accessMemory_def MemoryState_readMemory_def MemoryState_peekMemory_def)
  then have "read_byte mc va d n j side = Some (v, set_memory mc m1)"
    unfolding read_byte_def Let_def ofs_def [symmetric] bv(1) ba(1) assms(6) by simp
  with r show ?thesis by auto
qed

lemma read_bytes_is:
  assumes "sv_is va w x" "w \<le> 64" "sv_is d (8 * n) 0"
  shows "mem_ok (mc_memory mc) \<Longrightarrow> order_known (mc_memory mc) n \<Longrightarrow> initialState mc = None \<Longrightarrow> j \<le> n \<Longrightarrow>
    (if j = 0 then r = None else \<exists>v. r = Some v \<and> sv_is v (8 * j) (load (ms_byteOrder (mc_memory mc)) w x j (mem_bytes (mc_memory mc)))) \<Longrightarrow>
    succeeds (read_bytes mc va d n side [j..<n] r) (\<lambda>(r', mc').
      (if n = 0 then r' = None else \<exists>v. r' = Some v \<and> sv_is v (8 * n) (load (ms_byteOrder (mc_memory mc)) w x n (mem_bytes (mc_memory mc)))) \<and>
      (\<exists>m. mc' = set_memory mc m \<and> mem_ok m \<and> keeps_config (mc_memory mc) m \<and> mem_bytes m = mem_bytes (mc_memory mc)))"
proof (induction "n - j" arbitrary: j mc r)
  case 0
  then show ?case by (auto simp: keeps_config_def intro: exI [of _ "mc_memory mc"])
next
  case (Suc k)
  define bo f where "bo = ms_byteOrder (mc_memory mc)" and "f = mem_bytes (mc_memory mc)"
  have j: "j < n" "[j..<n] = j # [Suc j..<n]" using Suc.hyps(2) by (simp_all add: upt_conv_Cons)
  from read_byte_is [OF assms j(1) Suc.prems(1,3), of side] obtain b m1 where
    b: "read_byte mc va d n j side = Some (b, set_memory mc m1)" "sv_is b 8 (unat (f (at_byte w x j)))" "mem_ok m1"
      "keeps_config (mc_memory mc) m1" "mem_bytes m1 = f"
    by (auto simp: f_def elim!: succeedsE)
  have bo1: "ms_byteOrder m1 = bo" using b(4) by (simp add: keeps_config_def bo_def)
  have "succeeds (case r of None \<Rightarrow> Some b | Some r \<Rightarrow>
      (case bo of ORDER_MSB \<Rightarrow> Concrete_concat b r | ORDER_LSB \<Rightarrow> Concrete_concat r b | ORDER_UNSPECIFIED \<Rightarrow> None))
      (\<lambda>v. sv_is v (8 * Suc j) (load bo w x (Suc j) f))"
  proof (cases "j = 0")
    case True
    then show ?thesis using Suc.prems(5) b(2) by simp
  next
    case False
    then obtain v where v: "r = Some v" "sv_is v (8 * j) (load bo w x j f)" using Suc.prems(5) by (auto simp: bo_def f_def)
    have "bo \<noteq> ORDER_UNSPECIFIED" using Suc.prems(2) False j(1) by (auto simp: order_known_def bo_def)
    moreover have "succeeds (Concrete_concat b v) (\<lambda>q. sv_is q (8 + 8 * j) (unat (f (at_byte w x j)) + 2 ^ 8 * load bo w x j f))"
      "succeeds (Concrete_concat v b) (\<lambda>q. sv_is q (8 * j + 8) (load bo w x j f + 2 ^ (8 * j) * unat (f (at_byte w x j))))"
      using cv.concat_law [OF b(2) v(2)] cv.concat_law [OF v(2) b(2)] False by (simp_all add: concrete_ops_def)
    ultimately show ?thesis using v(1) by (cases bo) (simp_all add: add.commute)
  qed
  then obtain v where v: "(case r of None \<Rightarrow> Some b | Some r \<Rightarrow>
      (case bo of ORDER_MSB \<Rightarrow> Concrete_concat b r | ORDER_LSB \<Rightarrow> Concrete_concat r b | ORDER_UNSPECIFIED \<Rightarrow> None)) = Some v"
    "sv_is v (8 * Suc j) (load bo w x (Suc j) f)" by (auto elim: succeedsE)
  let ?mc = "set_memory mc m1"
  have "read_bytes mc va d n side [j..<n] r = read_bytes ?mc va d n side [Suc j..<n] (Some v)"
  proof -
    have "ms_byteOrder (mc_memory ?mc) = bo" using bo1 by simp
    then show ?thesis by (simp only: j(2) read_bytes.simps b(1) v(1) Option.bind_lunit prod.case)
  qed
  moreover have "succeeds (read_bytes ?mc va d n side [Suc j..<n] (Some v)) (\<lambda>(r', mc').
      (if n = 0 then r' = None else \<exists>v. r' = Some v \<and> sv_is v (8 * n) (load (ms_byteOrder (mc_memory ?mc)) w x n (mem_bytes (mc_memory ?mc)))) \<and>
      (\<exists>m. mc' = set_memory ?mc m \<and> mem_ok m \<and> keeps_config (mc_memory ?mc) m \<and> mem_bytes m = mem_bytes (mc_memory ?mc)))"
  proof (rule Suc.hyps(1))
    show "k = n - Suc j" "Suc j \<le> n" using Suc.hyps(2) by simp_all
    show "mem_ok (mc_memory ?mc)" "order_known (mc_memory ?mc) n" "initialState ?mc = None"
      using b order_known_keeps [OF b(4) Suc.prems(2)] Suc.prems(3) by simp_all
    show "if Suc j = 0 then Some v = None else \<exists>u. Some v = Some u \<and> sv_is u (8 * Suc j)
        (load (ms_byteOrder (mc_memory ?mc)) w x (Suc j) (mem_bytes (mc_memory ?mc)))"
      using v(2) b(5) bo1 by simp
  qed
  ultimately show ?case using b(4,5) bo1
    by (auto simp: keeps_config_def bo_def [symmetric] f_def [symmetric] elim!: succeeds_mono split: if_splits)
qed

lemma at_byte_inj:
  assumes "w \<le> 64" "n \<le> 2 ^ w" "i < n" "j < n" "at_byte w x i = at_byte w x j"
  shows "i = j"
proof -
  have "(2 :: nat) ^ w \<le> 2 ^ 64" using assms(1) by (rule power_increasing) simp
  then have "(x + i) mod 2 ^ w = (x + j) mod 2 ^ w"
    using assms(5) by (simp add: at_byte_def word_of_nat_eq_iff take_bit_nat_eq_self less_le_trans [OF mod_less_divisor])
  moreover have "a = b" if "a \<le> b" "a < 2 ^ w" "b < 2 ^ w" "(x + a) mod 2 ^ w = (x + b) mod 2 ^ w" for a b :: nat
  proof (rule ccontr)
    assume "a \<noteq> b"
    with that mod_eq_dvd_iff_nat [of "x + a" "x + b" "2 ^ w"] have "2 ^ w dvd b - a" "0 < b - a" by simp_all
    then have "2 ^ w \<le> b - a" by (rule dvd_imp_le)
    with that(3) show False by simp
  qed
  ultimately show ?thesis using assms(2-4) by (metis linorder_linear order_less_le_trans)
qed

lemma store_at: "w \<le> 64 \<Longrightarrow> n \<le> 2 ^ w \<Longrightarrow> k \<le> n \<Longrightarrow> i < k \<Longrightarrow> store bo w x n y k f (at_byte w x i) = byte_of bo n y i"
proof (induction k)
  case (Suc k)
  show ?case
  proof (cases "i = k")
    case False
    then have "at_byte w x i \<noteq> at_byte w x k" using at_byte_inj [OF Suc.prems(1,2), of i k x] Suc.prems(3,4) by auto
    then show ?thesis using False Suc by simp
  qed simp
qed simp

lemma store_other: "(\<And>i. i < k \<Longrightarrow> a \<noteq> at_byte w x i) \<Longrightarrow> store bo w x n y k f a = f a"
  by (induction k) auto

lemma load_cong: "(\<And>i. i < k \<Longrightarrow> f (at_byte w x i) = g (at_byte w x i)) \<Longrightarrow> load bo w x k f = load bo w x k g"
  by (induction k) auto

lemma load_store:
  assumes "w \<le> 64" "n \<le> 2 ^ w" "y < 2 ^ (8 * n)"
  shows "load bo w x n (store bo w x n y n f) = y"
proof -
  let ?g = "store bo w x n y n f"
  have at: "unat (?g (at_byte w x i)) = y div 2 ^ (8 * read_byteOffset bo n i) mod 2 ^ 8" if "i < n" for i
    using store_at [OF assms(1,2), of n i] that by (simp add: byte_of_def unat_of_nat)
  have "load bo w x k ?g = (if bo = ORDER_MSB then y div 2 ^ (8 * (n - k)) else y mod 2 ^ (8 * k))" if "k \<le> n" for k
    using that
  proof (induction k)
    case 0
    then show ?case using assms(3) by simp
  next
    case (Suc k)
    then have k: "k < n" by simp
    show ?case
    proof (cases "bo = ORDER_MSB")
      case True
      have "8 * (n - k) = 8 * (n - Suc k) + 8" using k by simp
      then have "y div 2 ^ (8 * (n - k)) = y div 2 ^ (8 * (n - Suc k)) div 2 ^ 8" by (simp add: power_add div_mult2_eq)
      with Suc True at [OF k] show ?thesis by (simp add: read_byteOffset_def)
    next
      case False
      have "y mod 2 ^ (8 * Suc k) = y mod 2 ^ (8 * k) + 2 ^ (8 * k) * (y div 2 ^ (8 * k) mod 2 ^ 8)"
        using mod_mult2_eq [of y "2 ^ (8 * k)" "2 ^ 8"] by (simp add: power_add mult.commute)
      with Suc False at [OF k] show ?thesis by (simp add: read_byteOffset_def)
    qed
  qed
  from this [of n] show ?thesis using assms(3) by simp
qed

lemma true_condition: "sv_is c 1 1 \<Longrightarrow> sv_width c = 1 \<and> \<not> SValue_isFalse c"
  using SValue_toUnsigned_is [of c 1 1] by (simp add: SValue_isFalse_def sv_is_def)

lemma ops_writeMemory_is:
  assumes "mem_ok (mc_memory mc)" "order_known (mc_memory mc) n" "reg_isEmpty seg" "sv_is c 1 1"
    "sv_is addr w x" "w \<le> 64" "sv_is v (8 * n) y"
  shows "succeeds (ops_writeMemory mc seg addr v c) (\<lambda>mc'. \<exists>m. mc' = set_memory mc m \<and> mem_ok m \<and>
    keeps_config (mc_memory mc) m \<and> mem_bytes m = store (ms_byteOrder (mc_memory mc)) w x n y n (mem_bytes (mc_memory mc)))"
proof -
  have w: "sv_width v = 8 * n" using sv_isD(1) [OF assms(7)] .
  show ?thesis
    using write_bytes_is [OF assms(5-7,1,2), of 0 "mem_bytes (mc_memory mc)"] true_condition [OF assms(4)] assms(3)
    by (simp add: ops_writeMemory_def adjusted_va_def SValue_copy_def w)
qed

lemma ops_readOrPeekMemory_is:
  assumes "mem_ok (mc_memory mc)" "order_known (mc_memory mc) n" "initialState mc = None" "reg_isEmpty seg"
    "sv_is addr w x" "w \<le> 64" "sv_is d (8 * n) 0" "0 < n"
  shows "succeeds (ops_readOrPeekMemory mc seg addr d side) (\<lambda>(r, mc').
    sv_is r (8 * n) (load (ms_byteOrder (mc_memory mc)) w x n (mem_bytes (mc_memory mc))) \<and>
    (\<exists>m. mc' = set_memory mc m \<and> mem_ok m \<and> keeps_config (mc_memory mc) m \<and> mem_bytes m = mem_bytes (mc_memory mc)))"
proof -
  have w: "sv_width d = 8 * n" using sv_isD(1) [OF assms(7)] .
  from read_bytes_is [OF assms(5-7,1-3), of 0 None side] assms(8) obtain r mc' where
    r: "read_bytes mc addr d n side [0..<n] None = Some (Some r, mc')"
      "sv_is r (8 * n) (load (ms_byteOrder (mc_memory mc)) w x n (mem_bytes (mc_memory mc)))"
      "\<exists>m. mc' = set_memory mc m \<and> mem_ok m \<and> keeps_config (mc_memory mc) m \<and> mem_bytes m = mem_bytes (mc_memory mc)"
    by (auto elim!: succeedsE)
  have "ops_readOrPeekMemory mc seg addr d side = Some (r, mc')"
    using r(1) sv_isD(1) [OF r(2)] assms(4) by (simp add: ops_readOrPeekMemory_def adjusted_va_def w)
  with r show ?thesis by simp
qed

lemma ops_readMemory_is:
  assumes "mem_ok (mc_memory mc)" "order_known (mc_memory mc) n" "initialState mc = None" "reg_isEmpty seg" "sv_is c 1 1"
    "sv_is addr w x" "w \<le> 64" "sv_is d (8 * n) 0" "0 < n"
  shows "succeeds (ops_readMemory mc seg addr d c) (\<lambda>(r, mc').
    sv_is r (8 * n) (load (ms_byteOrder (mc_memory mc)) w x n (mem_bytes (mc_memory mc))) \<and>
    (\<exists>m. mc' = set_memory mc m \<and> mem_ok m \<and> keeps_config (mc_memory mc) m \<and> mem_bytes m = mem_bytes (mc_memory mc)))"
  using ops_readOrPeekMemory_is [OF assms(1-4,6-9)] true_condition [OF assms(5)] by (simp add: ops_readMemory_def)

section \<open>Correctness\<close>

text \<open>
  C3. With no lazily updated initial state, the demand-allocated memory behaves as a total function
  from 64-bit addresses to bytes that starts at zero: \<^verbatim>\<open>writeMemory\<close> stores the bytes of the value
  in the byte order of the memory at consecutive addresses, which wrap around at the width of the
  address, and nothing else changes; \<^verbatim>\<open>readMemory\<close> with a zero default returns the number those
  bytes form and changes no byte; whole pages stay mapped.
\<close>

theorem memory_refines:
  assumes "mem_ok (mc_memory mc)" "order_known (mc_memory mc) n" "initialState mc = None" "reg_isEmpty seg" "sv_is c 1 1"
    "sv_is addr w x" "w \<le> 64" "sv_is v (8 * n) y" "sv_is d (8 * n) 0" "0 < n"
  shows "succeeds (ops_writeMemory mc seg addr v c) (\<lambda>mc'. \<exists>m. mc' = set_memory mc m \<and> mem_ok m \<and>
      mem_bytes m = store (ms_byteOrder (mc_memory mc)) w x n y n (mem_bytes (mc_memory mc))) \<and>
    succeeds (ops_readMemory mc seg addr d c) (\<lambda>(r, mc').
      sv_is r (8 * n) (load (ms_byteOrder (mc_memory mc)) w x n (mem_bytes (mc_memory mc))) \<and>
      (\<exists>m. mc' = set_memory mc m \<and> mem_ok m \<and> mem_bytes m = mem_bytes (mc_memory mc)))"
  using ops_writeMemory_is [OF assms(1,2,4-8)] ops_readMemory_is [OF assms(1-7,9,10)]
  by (auto elim!: succeeds_mono)

definition sample_machine :: machine where
  "sample_machine = \<lparr>currentState = \<lparr>cs_registers = RegisterState_new, cs_memory = set_byteOrder MemoryState_new ORDER_LSB\<rparr>, initialState = None\<rparr>"

lemma sample_machine_ok: "mem_ok (mc_memory sample_machine)" "ms_byteOrder (mc_memory sample_machine) = ORDER_LSB"
  "initialState sample_machine = None" "ms_pageSize (mc_memory sample_machine) = 4096" "\<not> map_exists (mc_memory sample_machine) a"
proof -
  have "(4096 :: 64 word) = 2 ^ 12" by simp
  then show "mem_ok (mc_memory sample_machine)"
    unfolding mem_ok_def by (auto simp: sample_machine_def set_byteOrder_def MemoryState_new_def the_map_def map_ok_def intro!: exI [of _ 12])
qed (simp_all add: sample_machine_def set_byteOrder_def MemoryState_new_def map_exists_def)

lemma empty_segment: "reg_isEmpty RegisterDescriptor_empty"
  by (simp add: reg_isEmpty_def reg_nBits_def RegisterDescriptor_empty_def EMPTY_PATTERN_def OFFSET_WIDTH_MASK_def)

definition sample_value :: "nat \<Rightarrow> 64 word \<Rightarrow> svalue" where
  "sample_value n k = the (SValue_number n k)"

lemma sample_value_is: "sv_is (sample_value n k) n (unat k mod 2 ^ n)"
  unfolding sample_value_def by (rule sv_number)

theorem memory_refines_witness:
  "succeeds (ops_readMemory sample_machine RegisterDescriptor_empty (sample_value 32 100) (sample_value 16 0) (sample_value 1 1))
     (\<lambda>(r, mc'). sv_is r 16 0 \<and> mem_ok (mc_memory mc'))"
proof -
  have v: "sv_is (sample_value 1 1) 1 1" "sv_is (sample_value 32 100) 32 100" "sv_is (sample_value 16 7) (8 * 2) 7" "sv_is (sample_value 16 0) (8 * 2) 0"
    using sample_value_is [of 1 1] sample_value_is [of 32 100] sample_value_is [of 16 7] sample_value_is [of 16 0] by simp_all
  have k: "order_known (mc_memory sample_machine) 2" by (simp add: order_known_def sample_machine_ok)
  have "mem_bytes (mc_memory sample_machine) b = 0" for b by (rule unmapped_zero [OF sample_machine_ok(5)])
  then have "load ORDER_LSB 32 100 2 (mem_bytes (mc_memory sample_machine)) = 0" by (simp add: numeral_2_eq_2)
  with conjunct2 [OF memory_refines [OF sample_machine_ok(1) k sample_machine_ok(3) empty_segment v(1,2) _ v(3,4)]]
  show ?thesis by (auto simp: sample_machine_ok(2) elim!: succeeds_mono)
qed

text \<open>
  Reading back what was written: after writing a value of \<open>n\<close> bytes, in either byte order,
  reading \<open>n\<close> bytes at the same address returns the value, and reading at addresses that the write
  did not touch returns what it returned before.
\<close>

theorem memory_write_then_read:
  assumes "mem_ok (mc_memory mc)" "ms_byteOrder (mc_memory mc) \<noteq> ORDER_UNSPECIFIED" "initialState mc = None" "reg_isEmpty seg"
    "sv_is c 1 1" "sv_is addr w x" "w \<le> 64" "n \<le> 2 ^ w" "sv_is v (8 * n) y" "sv_is d (8 * n) 0" "0 < n"
    "sv_is addr' w x'" "sv_is d' (8 * k) 0" "0 < k" "\<forall>i<k. \<forall>j<n. at_byte w x' i \<noteq> at_byte w x j"
  shows "succeeds (do { mc \<leftarrow> ops_writeMemory mc seg addr v c; ops_readMemory mc seg addr d c }) (\<lambda>(r, _). sv_is r (8 * n) y) \<and>
    (\<exists>z. succeeds (ops_readMemory mc seg addr' d' c) (\<lambda>(r, _). sv_is r (8 * k) z) \<and>
      succeeds (do { mc \<leftarrow> ops_writeMemory mc seg addr v c; ops_readMemory mc seg addr' d' c }) (\<lambda>(r, _). sv_is r (8 * k) z))"
proof -
  define bo f where "bo = ms_byteOrder (mc_memory mc)" and "f = mem_bytes (mc_memory mc)"
  have ok: "order_known (mc_memory mc) q" for q using assms(2) by (simp add: order_known_def)
  from ops_writeMemory_is [OF assms(1) ok assms(4,5,6,7,9)] obtain m where
    m: "ops_writeMemory mc seg addr v c = Some (set_memory mc m)" "mem_ok m" "keeps_config (mc_memory mc) m"
      "mem_bytes m = store bo w x n y n f" by (auto simp: bo_def f_def elim: succeedsE)
  let ?mc = "set_memory mc m"
  have bo: "ms_byteOrder m = bo" using m(3) by (simp add: keeps_config_def bo_def)
  have mc: "mem_ok (mc_memory ?mc)" "order_known (mc_memory ?mc) q" "initialState ?mc = None" for q
    using m(2) order_known_keeps [OF m(3) ok] assms(3) by simp_all
  have y: "y < 2 ^ (8 * n)" using sv_is_less [OF assms(9)] .
  have same: "succeeds (ops_readMemory ?mc seg addr d c) (\<lambda>(r, _). sv_is r (8 * n) y)"
    using ops_readMemory_is [OF mc assms(4-7,10,11)] load_store [OF assms(7,8) y, of bo x f]
    by (auto simp: bo m(4) elim!: succeeds_mono)
  have "load bo w x' k (store bo w x n y n f) = load bo w x' k f"
    using assms(15) by (intro load_cong store_other) auto
  with ops_readMemory_is [OF mc assms(4,5,12,7,13,14)] ops_readMemory_is [OF assms(1) ok assms(3-5,12,7,13,14)]
  have "\<exists>z. succeeds (ops_readMemory mc seg addr' d' c) (\<lambda>(r, _). sv_is r (8 * k) z) \<and>
      succeeds (ops_readMemory ?mc seg addr' d' c) (\<lambda>(r, _). sv_is r (8 * k) z)"
    by (intro exI [of _ "load bo w x' k f"]) (auto simp: bo bo_def [symmetric] f_def [symmetric] m(4) elim!: succeeds_mono)
  with same m(1) show ?thesis by simp
qed

theorem memory_write_then_read_witness:
  "succeeds (do {
      mc \<leftarrow> ops_writeMemory sample_machine RegisterDescriptor_empty (sample_value 32 100) (sample_value 16 513) (sample_value 1 1);
      ops_readMemory mc RegisterDescriptor_empty (sample_value 32 100) (sample_value 16 0) (sample_value 1 1)
    }) (\<lambda>(r, _). sv_is r 16 513)"
proof -
  have v: "sv_is (sample_value 1 1) 1 1" "sv_is (sample_value 32 100) 32 100" "sv_is (sample_value 16 513) (8 * 2) 513"
    "sv_is (sample_value 16 0) (8 * 2) 0" "sv_is (sample_value 32 200) 32 200" "sv_is (sample_value 8 0) (8 * 1) 0"
    using sample_value_is [of 1 1] sample_value_is [of 32 100] sample_value_is [of 16 513] sample_value_is [of 16 0]
      sample_value_is [of 32 200] sample_value_is [of 8 0] by simp_all
  have "\<forall>i<1. \<forall>j<2. at_byte 32 200 i \<noteq> at_byte 32 100 j" by (auto simp: at_byte_def less_2_cases_iff)
  with memory_write_then_read [OF sample_machine_ok(1) _ sample_machine_ok(3) empty_segment v(1,2) _ _ v(3,4) _ v(5,6)]
  show ?thesis by (simp add: sample_machine_ok(2))
qed

lemma read_byte_access:
  assumes "initialState mc = None" "byte_addr va j = Some ba"
    "Concrete_extract d (8 * read_byteOffset (ms_byteOrder (mc_memory mc)) n j) (8 * read_byteOffset (ms_byteOrder (mc_memory mc)) n j + 8) = Some bv"
    "MemoryState_readOrPeekMemory (mc_memory mc) ba bv side = Some (v, m)"
  shows "read_byte mc va d n j side = Some (v, set_memory mc m)"
proof -
  have "State_accessMemory (currentState mc) ba bv side = Some (v, (currentState mc)\<lparr>cs_memory := m\<rparr>)"
    using assms(4) by (cases side) (simp_all add: State_accessMemory_def MemoryState_readMemory_def MemoryState_peekMemory_def)
  then show ?thesis unfolding read_byte_def Let_def assms(1-3) by simp
qed

lemma page_exists: "mem_ok m \<Longrightarrow> a div ms_pageSize m = b div ms_pageSize m \<Longrightarrow> map_exists m a \<longleftrightarrow> map_exists m b"
  unfolding mem_ok_def map_ok_def map_exists_iff by metis

lemma read_two_bytes:
  assumes "initialState mc = None" "ms_byteOrder (mc_memory mc) = ORDER_LSB" "ms_byteOrder m1 = ORDER_LSB" "ms_byteOrder m2 = ORDER_LSB"
    "reg_isEmpty seg" "sv_width d = 16"
    "byte_addr va 0 = Some a0" "Concrete_extract d 0 8 = Some d0" "MemoryState_readOrPeekMemory (mc_memory mc) a0 d0 side = Some (v0, m1)"
    "byte_addr va 1 = Some a1" "Concrete_extract d 8 16 = Some d1" "MemoryState_readOrPeekMemory m1 a1 d1 side = Some (v1, m2)"
    "sv_is v0 8 p" "sv_is v1 8 q"
  shows "succeeds (ops_readOrPeekMemory mc seg va d side) (\<lambda>(r, mc'). sv_is r 16 (p + 2 ^ 8 * q) \<and> mc' = set_memory mc m2)"
proof -
  have r0: "read_byte mc va d 2 0 side = Some (v0, set_memory mc m1)"
    by (rule read_byte_access) (use assms in \<open>simp_all add: read_byteOffset_def\<close>)
  have r1: "read_byte (set_memory mc m1) va d 2 1 side = Some (v1, set_memory mc m2)"
    using read_byte_access [of "set_memory mc m1" va 1 a1 d 2 d1 side v1 m2] assms by (simp add: read_byteOffset_def)
  from cv.concat_law [OF assms(13,14)] obtain r where r: "Concrete_concat v0 v1 = Some r" "sv_is r 16 (p + 2 ^ 8 * q)"
    by (auto simp: concrete_ops_def elim: succeedsE)
  have "read_bytes mc va d 2 side [0, 1] None = Some (Some r, set_memory mc m2)"
    using assms(4) r1 by (simp add: r0 r(1))
  moreover have "[0..<16 div 8] = [0, 1 :: nat]" by (simp add: upt_rec)
  ultimately show ?thesis using r(2) sv_isD(1) [OF r(2)] assms(5,6) by (simp add: ops_readOrPeekMemory_def adjusted_va_def)
qed

text \<open>
  C36. A read of memory that is not mapped takes only its first byte from the default value: the read
  of that byte allocates the whole page, whose other bytes are zero, and the reads of the following
  bytes find those zeros. \<^verbatim>\<open>peekMemory\<close>, which allocates nothing, returns the whole default.
  Stated for a little-endian read of two bytes in one page.
\<close>

theorem default_bytes_lost:
  assumes "mem_ok (mc_memory mc)" "ms_byteOrder (mc_memory mc) = ORDER_LSB" "initialState mc = None" "reg_isEmpty seg" "sv_is c 1 1"
    "sv_is addr 64 x" "\<not> map_exists (mc_memory mc) (of_nat x)" "sv_is d 16 z" "Suc x < 2 ^ 64"
    "of_nat (Suc x) div ms_pageSize (mc_memory mc) = of_nat x div ms_pageSize (mc_memory mc)"
  shows "succeeds (ops_readMemory mc seg addr d c) (\<lambda>(r, _). sv_is r 16 (z mod 2 ^ 8)) \<and>
    succeeds (ops_peekMemory mc seg addr d) (\<lambda>(r, mc'). sv_is r 16 z \<and> mc' = mc)"
proof -
  let ?m = "mc_memory mc"
  from byte_addr_is [OF assms(6), of 0] byte_addr_is [OF assms(6), of 1] sv_is_less [OF assms(6)] assms(9)
  obtain a0 a1 where a: "byte_addr addr 0 = Some a0" "sv_is a0 64 x" "byte_addr addr 1 = Some a1" "sv_is a1 64 (Suc x)"
    by (auto elim!: succeedsE)
  from cv.extract_law [OF assms(8), of 0 8] cv.extract_law [OF assms(8), of 8 16] sv_is_less [OF assms(8)]
  obtain d0 d1 where d: "Concrete_extract d 0 8 = Some d0" "sv_is d0 8 (z mod 2 ^ 8)" "Concrete_extract d 8 16 = Some d1" "sv_is d1 8 (z div 2 ^ 8 mod 2 ^ 8)"
    by (auto simp: concrete_ops_def elim!: succeedsE)
  have w: "sv_width d = 16" using sv_isD(1) [OF assms(8)] .
  have un: "\<not> map_exists ?m (of_nat (Suc x))" using page_exists [OF assms(1,10)] assms(7) by blast
  have ne: "(of_nat (Suc x) :: 64 word) \<noteq> of_nat x" using assms(9) by (simp add: word_of_nat_eq_iff take_bit_nat_eq_self)
  from MemoryState_read_unmapped(2) [OF assms(1) a(2) _ d(2) assms(7)] obtain m1 where
    m1: "MemoryState_readOrPeekMemory ?m a0 d0 True = Some (d0, m1)" "mem_ok m1" "keeps_config ?m m1"
      "mem_bytes m1 = (mem_bytes ?m)(of_nat x := of_nat (z mod 2 ^ 8))"
      "\<forall>b. map_exists m1 b \<longleftrightarrow> map_exists ?m b \<or> b div ms_pageSize ?m = of_nat x div ms_pageSize ?m"
    by (auto elim!: succeedsE)
  have "map_exists m1 (of_nat (Suc x))" using m1(5) assms(10) by blast
  from MemoryState_read_mapped [OF m1(2) a(4) _ d(4) this, of True] obtain v1 where
    v1: "MemoryState_readOrPeekMemory m1 a1 d1 True = Some (v1, m1)" "sv_is v1 8 (unat (mem_bytes m1 (of_nat (Suc x))))"
    by (auto elim!: succeedsE)
  have "mem_bytes m1 (of_nat (Suc x)) = 0" unfolding m1(4) using ne unmapped_zero [OF un] by simp
  with v1 have v: "sv_is v1 8 0" by simp
  have lsb: "ms_byteOrder m1 = ORDER_LSB" using m1(3) assms(2) by (simp add: keeps_config_def)
  from read_two_bytes [OF assms(3,2) lsb lsb assms(4) w a(1) d(1) m1(1) a(3) d(3) v1(1) d(2) v] true_condition [OF assms(5)]
  have rd: "succeeds (ops_readMemory mc seg addr d c) (\<lambda>(r, _). sv_is r 16 (z mod 2 ^ 8))"
    by (auto simp: ops_readMemory_def elim!: succeeds_mono)
  have p0: "MemoryState_readOrPeekMemory ?m a0 d0 False = Some (d0, ?m)" "MemoryState_readOrPeekMemory ?m a1 d1 False = Some (d1, ?m)"
    using MemoryState_read_unmapped(1) [OF assms(1) a(2) _ d(2) assms(7)] MemoryState_read_unmapped(1) [OF assms(1) a(4) _ d(4) un] by simp_all
  have "z mod 2 ^ 8 + 2 ^ 8 * (z div 2 ^ 8 mod 2 ^ 8) = z" using sv_is_less [OF assms(8)] by (simp add: less_mult_imp_div_less)
  with read_two_bytes [OF assms(3,2,2,2,4) w a(1) d(1) p0(1) a(3) d(3) p0(2) d(2,4)] rd
  show ?thesis by (simp add: ops_peekMemory_def case_prod_unfold)
qed

theorem default_bytes_lost_witness:
  "succeeds (ops_readMemory sample_machine RegisterDescriptor_empty (sample_value 64 100) (sample_value 16 513) (sample_value 1 1))
     (\<lambda>(r, _). sv_is r 16 1) \<and>
   succeeds (ops_peekMemory sample_machine RegisterDescriptor_empty (sample_value 64 100) (sample_value 16 513)) (\<lambda>(r, _). sv_is r 16 513)"
proof -
  have v: "sv_is (sample_value 1 1) 1 1" "sv_is (sample_value 64 100) 64 100" "sv_is (sample_value 16 513) 16 513"
    using sample_value_is [of 1 1] sample_value_is [of 64 100] sample_value_is [of 16 513] by simp_all
  have "(of_nat (Suc 100) :: 64 word) div 4096 = of_nat 100 div 4096" by simp
  with default_bytes_lost [OF sample_machine_ok(1-3) empty_segment v(1,2) sample_machine_ok(5) v(3)] show ?thesis
    by (auto simp: sample_machine_ok(4) elim!: succeeds_mono)
qed

end
