(* ===== verification/Dispatcher.thy ===== *)
theory Dispatcher
  imports Concrete_Memory
begin

text \<open>
  The architecture-independent part of the instruction dispatcher
  (\<^verbatim>\<open>BaseSemantics::Dispatcher\<close>): operand expressions, their effective addresses, reading and
  writing them, register updates before and after an access, the instruction pointer and interrupts.

  An expression node always has a type here, given by its width. The base of an integer node that is
  relative to another node is given by its address. Where C++ leaves the order of evaluation of two
  arguments open, the left one is evaluated first. A subclass may answer the \<^verbatim>\<open>read\<close> of a register
  operand itself: that is the \<open>virtual_read\<close> field, whose value \<open>None\<close> means that the base class
  reads it.
\<close>

section \<open>Operands\<close>

datatype asm_expr =
    DirectRegister register_descriptor int nat
  | IndirectRegister register_descriptor int register_descriptor register_descriptor "64 word" "64 word" nat
  | MemoryReference asm_expr "asm_expr option" nat
  | IntegerValue bitvector "64 word" nat
  | BinaryAdd asm_expr asm_expr nat
  | BinarySubtract asm_expr asm_expr nat
  | BinaryMultiply asm_expr asm_expr nat
  | BinaryLsl asm_expr asm_expr nat
  | BinaryLsr asm_expr asm_expr nat
  | BinaryAsr asm_expr asm_expr nat
  | BinaryRor asm_expr asm_expr nat
  | BinaryPreupdate asm_expr asm_expr nat
  | BinaryPostupdate asm_expr asm_expr nat
  | UnaryUnsignedExtend asm_expr nat
  | UnarySignedExtend asm_expr nat
  | UnaryTruncate asm_expr nat
  | OtherExpression "asm_expr list" nat

fun get_nBits :: "asm_expr \<Rightarrow> nat" where
  "get_nBits (DirectRegister _ _ t) = t"
| "get_nBits (IndirectRegister _ _ _ _ _ _ t) = t"
| "get_nBits (MemoryReference _ _ t) = t"
| "get_nBits (IntegerValue _ _ t) = t"
| "get_nBits (BinaryAdd _ _ t) = t"
| "get_nBits (BinarySubtract _ _ t) = t"
| "get_nBits (BinaryMultiply _ _ t) = t"
| "get_nBits (BinaryLsl _ _ t) = t"
| "get_nBits (BinaryLsr _ _ t) = t"
| "get_nBits (BinaryAsr _ _ t) = t"
| "get_nBits (BinaryRor _ _ t) = t"
| "get_nBits (BinaryPreupdate _ _ t) = t"
| "get_nBits (BinaryPostupdate _ _ t) = t"
| "get_nBits (UnaryUnsignedExtend _ t) = t"
| "get_nBits (UnarySignedExtend _ t) = t"
| "get_nBits (UnaryTruncate _ t) = t"
| "get_nBits (OtherExpression _ t) = t"

text \<open>Integer nodes: the stored bits are a signed offset from the base address.\<close>

definition IntegerValue_new :: "64 word \<Rightarrow> nat \<Rightarrow> asm_expr option" where
  "IntegerValue_new value t = do {
     require (0 = value \<or> t \<le> 64);
     v \<leftarrow> BitVector_resize BitVector_empty t False;
     v \<leftarrow> BitVector_fromInteger v value;
     Some (IntegerValue v 0 t)
   }"

definition get_relativeValue :: "bitvector \<Rightarrow> 64 word option" where
  "get_relativeValue v = do {
     let nbits = bv_size v;
     require (nbits \<le> 64);
     require (nbits > 0);
     uv \<leftarrow> BitVector_toInteger v;
     signExtend2 uv nbits 64
   }"

definition get_absoluteValue :: "bitvector \<Rightarrow> 64 word \<Rightarrow> nat \<Rightarrow> 64 word option" where
  "get_absoluteValue v base nbits0 = do {
     let nbits = (if 0 = nbits0 then bv_size v else nbits0);
     require (nbits \<le> 64);
     rel \<leftarrow> get_relativeValue v;
     Some ((base + rel) AND genMask nbits)
   }"

definition get_signedValue :: "bitvector \<Rightarrow> 64 word \<Rightarrow> 64 word option" where
  "get_signedValue v base = do {
     require (bv_size v \<le> 64);
     rel \<leftarrow> get_relativeValue v;
     Some (base + rel)
   }"

section \<open>The dispatcher\<close>

record dispatcher =
  arch_bitsPerWord :: nat
  arch_byteOrder :: byte_order
  instructionPointerRegister :: register_descriptor
  autoResetInstructionPointer :: bool
  virtual_read :: "asm_expr \<Rightarrow> nat \<Rightarrow> svalue option option"

definition addressWidth :: "dispatcher \<Rightarrow> nat" where
  "addressWidth d = arch_bitsPerWord d"

text \<open>Reading a register with the default \<^verbatim>\<open>undefined_\<close>.\<close>

definition readRegister1 :: "machine \<Rightarrow> register_descriptor \<Rightarrow> (svalue \<times> machine) option" where
  "readRegister1 mc reg = do { u \<leftarrow> SValue_undefined (reg_nBits reg); ops_readRegister mc reg u }"

text \<open>
  With no interrupt state, as the concrete semantics creates its states, an interrupt whose condition
  is true calls \<^verbatim>\<open>interrupt\<close>; every value of the concrete domain is concrete, so the last branch of
  the source is left for conditions that are neither true nor false.
\<close>

definition raiseInterrupt :: "machine \<Rightarrow> svalue \<Rightarrow> machine option" where
  "raiseInterrupt mc raise = do {
     require (sv_width raise = 1);
     if SValue_isTrue raise then Some (ops_interrupt mc)
     else if SValue_isFalse raise then Some mc
     else None
   }"

definition advanceInstructionPointer :: "dispatcher \<Rightarrow> machine \<Rightarrow> 64 word \<Rightarrow> 64 word \<Rightarrow> machine option" where
  "advanceInstructionPointer d mc address nbytes = do {
     let ipReg = instructionPointerRegister d;
     let nBits = reg_nBits ipReg;
     stored \<leftarrow> (if \<not> autoResetInstructionPointer d
        then is_partly_stored (cs_registers (currentState mc)) ipReg else Some False);
     (ipValue, mc) \<leftarrow> (if stored then readRegister1 mc ipReg
        else do { v \<leftarrow> SValue_number nBits address; Some (v, mc) });
     k \<leftarrow> SValue_number nBits nbytes;
     ipValue \<leftarrow> Concrete_add ipValue k;
     ops_writeRegister mc ipReg ipValue
   }"

section \<open>Registers as operands\<close>

text \<open>The register that an indirect register expression names.\<close>

definition indirect_register :: "machine \<Rightarrow> register_descriptor \<Rightarrow> register_descriptor \<Rightarrow> register_descriptor \<Rightarrow> 64 word \<Rightarrow> 64 word \<Rightarrow>
    (register_descriptor \<times> machine) option" where
  "indirect_register mc desc stride offsetReg index modulus = do {
     (offset, mc) \<leftarrow> readRegister1 mc offsetReg;
     u \<leftarrow> SValue_toUnsigned offset;
     require (modulus \<noteq> 0);
     let idx = (u + index) mod modulus;
     reg \<leftarrow> set_majorNumber desc (unat (ucast (of_nat (majorNumber desc) + of_nat (majorNumber stride) * idx) :: 32 word));
     reg \<leftarrow> set_minorNumber reg (unat (ucast (of_nat (minorNumber reg) + of_nat (minorNumber stride) * idx) :: 32 word));
     reg \<leftarrow> set_offset reg (unat (of_nat (reg_offset reg) + of_nat (reg_offset stride) * idx));
     reg \<leftarrow> set_nBits reg (unat (of_nat (reg_nBits reg) + of_nat (reg_nBits stride) * idx));
     Some (reg, mc)
   }"

text \<open>The result of a read is made as wide as the caller asked.\<close>

definition fit_value :: "svalue \<Rightarrow> nat \<Rightarrow> svalue option" where
  "fit_value v value_nbits = (if sv_width v \<noteq> value_nbits then Concrete_unsignedExtend v value_nbits else Some v)"

definition fit_address :: "svalue \<Rightarrow> nat \<Rightarrow> svalue option" where
  "fit_address v nbits =
     (if sv_width v < nbits then Concrete_signExtend v nbits
      else if sv_width v > nbits then Concrete_extract v 0 nbits
      else Some v)"

text \<open>The width of a read when none is given is the width of the operand's type.\<close>

definition value_width :: "asm_expr \<Rightarrow> nat \<Rightarrow> nat option" where
  "value_width e value_nbits =
     (if 0 = value_nbits then do { require (get_nBits e \<noteq> 0); Some (get_nBits e) } else Some value_nbits)"

text \<open>Reading a register operand (the first two cases of \<^verbatim>\<open>read\<close>), the subclass being asked first.\<close>

fun read_register :: "dispatcher \<Rightarrow> machine \<Rightarrow> asm_expr \<Rightarrow> nat \<Rightarrow> (svalue \<times> machine) option" where
  "read_register d mc (DirectRegister desc adj t) n =
     (case virtual_read d (DirectRegister desc adj t) n of
        Some r \<Rightarrow> do { v \<leftarrow> r; Some (v, mc) }
      | None \<Rightarrow> do {
          value_nbits \<leftarrow> value_width (DirectRegister desc adj t) n;
          (v, mc) \<leftarrow> readRegister1 mc desc;
          v \<leftarrow> fit_value v value_nbits;
          Some (v, mc)
        })"
| "read_register d mc (IndirectRegister desc adj stride offset index modulus t) n =
     (case virtual_read d (IndirectRegister desc adj stride offset index modulus t) n of
        Some r \<Rightarrow> do { v \<leftarrow> r; Some (v, mc) }
      | None \<Rightarrow> do {
          value_nbits \<leftarrow> value_width (IndirectRegister desc adj stride offset index modulus t) n;
          (reg, mc) \<leftarrow> indirect_register mc desc stride offset index modulus;
          (v, mc) \<leftarrow> readRegister1 mc reg;
          v \<leftarrow> fit_value v value_nbits;
          Some (v, mc)
        })"
| "read_register d mc e n = None"

section \<open>Effective addresses\<close>

definition addr_nbits :: "dispatcher \<Rightarrow> nat \<Rightarrow> nat" where
  "addr_nbits d n = (if 0 = n then addressWidth d else n)"

text \<open>The value of an operator applied to two addresses, and to one, made as wide as the address.\<close>

definition address_of2 :: "(svalue \<Rightarrow> svalue \<Rightarrow> svalue option) \<Rightarrow> svalue \<Rightarrow> svalue \<Rightarrow> machine \<Rightarrow> nat \<Rightarrow> (svalue \<times> machine) option" where
  "address_of2 f lhs rhs mc nbits = do { v \<leftarrow> f lhs rhs; v \<leftarrow> fit_address v nbits; Some (v, mc) }"

definition address_of1 :: "svalue option \<Rightarrow> machine \<Rightarrow> nat \<Rightarrow> (svalue \<times> machine) option" where
  "address_of1 r mc nbits = do { v \<leftarrow> r; v \<leftarrow> fit_address v nbits; Some (v, mc) }"

fun effectiveAddress :: "dispatcher \<Rightarrow> machine \<Rightarrow> asm_expr \<Rightarrow> nat \<Rightarrow> (svalue \<times> machine) option" where
  "effectiveAddress d mc (MemoryReference a seg t) n = do {
     (v, mc) \<leftarrow> effectiveAddress d mc a (addr_nbits d n);
     address_of1 (Some v) mc (addr_nbits d n)
   }"
| "effectiveAddress d mc (DirectRegister desc adj t) n = do {
     (v, mc) \<leftarrow> read_register d mc (DirectRegister desc adj t) (addr_nbits d n);
     address_of1 (Some v) mc (addr_nbits d n)
   }"
| "effectiveAddress d mc (IndirectRegister desc adj stride offset index modulus t) n = do {
     (v, mc) \<leftarrow> read_register d mc (IndirectRegister desc adj stride offset index modulus t) (addr_nbits d n);
     address_of1 (Some v) mc (addr_nbits d n)
   }"
| "effectiveAddress d mc (BinaryAdd l r t) n = do {
     (lhs, mc) \<leftarrow> effectiveAddress d mc l (addr_nbits d n);
     (rhs, mc) \<leftarrow> effectiveAddress d mc r (addr_nbits d n);
     address_of2 Concrete_add lhs rhs mc (addr_nbits d n)
   }"
| "effectiveAddress d mc (BinarySubtract l r t) n = do {
     (lhs, mc) \<leftarrow> effectiveAddress d mc l (addr_nbits d n);
     (rhs, mc) \<leftarrow> effectiveAddress d mc r (addr_nbits d n);
     address_of2 (ops_subtract concrete_ops) lhs rhs mc (addr_nbits d n)
   }"
| "effectiveAddress d mc (BinaryPreupdate l r t) n = do {
     (v, mc) \<leftarrow> effectiveAddress d mc l (addr_nbits d n);
     address_of1 (Some v) mc (addr_nbits d n)
   }"
| "effectiveAddress d mc (BinaryPostupdate l r t) n = do {
     (v, mc) \<leftarrow> effectiveAddress d mc l (addr_nbits d n);
     address_of1 (Some v) mc (addr_nbits d n)
   }"
| "effectiveAddress d mc (BinaryMultiply l r t) n = do {
     (lhs, mc) \<leftarrow> effectiveAddress d mc l (addr_nbits d n);
     (rhs, mc) \<leftarrow> effectiveAddress d mc r (addr_nbits d n);
     address_of2 Concrete_unsignedMultiply lhs rhs mc (addr_nbits d n)
   }"
| "effectiveAddress d mc (IntegerValue v base t) n = do {
     val \<leftarrow> get_absoluteValue v base 0;
     address_of1 (SValue_number (bv_size v) val) mc (addr_nbits d n)
   }"
| "effectiveAddress d mc (UnaryUnsignedExtend e t) n = do {
     (v, mc) \<leftarrow> effectiveAddress d mc e (get_nBits e);
     address_of1 (Concrete_unsignedExtend v t) mc (addr_nbits d n)
   }"
| "effectiveAddress d mc (UnarySignedExtend e t) n = do {
     (v, mc) \<leftarrow> effectiveAddress d mc e (get_nBits e);
     address_of1 (Concrete_signExtend v t) mc (addr_nbits d n)
   }"
| "effectiveAddress d mc (UnaryTruncate e t) n = do {
     (v, mc) \<leftarrow> effectiveAddress d mc e (get_nBits e);
     address_of1 (Concrete_unsignedExtend v t) mc (addr_nbits d n)
   }"
| "effectiveAddress d mc (BinaryLsl l r t) n = do {
     (lhs, mc) \<leftarrow> effectiveAddress d mc l (addr_nbits d n);
     (rhs, mc) \<leftarrow> effectiveAddress d mc r (addr_nbits d n);
     address_of2 Concrete_shiftLeft lhs rhs mc (addr_nbits d n)
   }"
| "effectiveAddress d mc (BinaryLsr l r t) n = do {
     (lhs, mc) \<leftarrow> effectiveAddress d mc l (addr_nbits d n);
     (rhs, mc) \<leftarrow> effectiveAddress d mc r (addr_nbits d n);
     address_of2 Concrete_shiftRight lhs rhs mc (addr_nbits d n)
   }"
| "effectiveAddress d mc (BinaryAsr l r t) n = do {
     (lhs, mc) \<leftarrow> effectiveAddress d mc l (addr_nbits d n);
     (rhs, mc) \<leftarrow> effectiveAddress d mc r (addr_nbits d n);
     address_of2 Concrete_shiftRightArithmetic lhs rhs mc (addr_nbits d n)
   }"
| "effectiveAddress d mc (BinaryRor l r t) n = do {
     (lhs, mc) \<leftarrow> effectiveAddress d mc l (addr_nbits d n);
     (rhs, mc) \<leftarrow> effectiveAddress d mc r (addr_nbits d n);
     address_of2 Concrete_rotateRight lhs rhs mc (addr_nbits d n)
   }"
| "effectiveAddress d mc (OtherExpression es t) n = None"

fun segmentRegister :: "asm_expr \<Rightarrow> register_descriptor" where
  "segmentRegister (MemoryReference a (Some (DirectRegister desc adj t)) u) = desc"
| "segmentRegister (MemoryReference a (Some (IndirectRegister desc adj s k i m t)) u) = desc"
| "segmentRegister e = RegisterDescriptor_empty"

section \<open>Reading and writing operands\<close>

definition read_of2 :: "(svalue \<Rightarrow> svalue \<Rightarrow> svalue option) \<Rightarrow> svalue \<Rightarrow> svalue \<Rightarrow> machine \<Rightarrow> nat \<Rightarrow> (svalue \<times> machine) option" where
  "read_of2 f lhs rhs mc value_nbits = do { v \<leftarrow> f lhs rhs; v \<leftarrow> fit_value v value_nbits; Some (v, mc) }"

definition read_of1 :: "svalue option \<Rightarrow> machine \<Rightarrow> nat \<Rightarrow> (svalue \<times> machine) option" where
  "read_of1 r mc value_nbits = do { v \<leftarrow> r; v \<leftarrow> fit_value v value_nbits; Some (v, mc) }"

text \<open>The wider of the two operands' widths, to which both are sign extended.\<close>

definition extended :: "(svalue \<Rightarrow> svalue \<Rightarrow> svalue option) \<Rightarrow> nat \<Rightarrow> svalue \<Rightarrow> svalue \<Rightarrow> svalue option" where
  "extended f nbits lhs rhs = do {
     a \<leftarrow> Concrete_signExtend lhs nbits;
     b \<leftarrow> Concrete_signExtend rhs nbits;
     f a b
   }"

fun Dispatcher_read :: "dispatcher \<Rightarrow> machine \<Rightarrow> asm_expr \<Rightarrow> nat \<Rightarrow> nat \<Rightarrow> (svalue \<times> machine) option" where
  "Dispatcher_read d mc (DirectRegister desc adj t) n a = read_register d mc (DirectRegister desc adj t) n"
| "Dispatcher_read d mc (IndirectRegister desc adj stride offset index modulus t) n a =
     read_register d mc (IndirectRegister desc adj stride offset index modulus t) n"
| "Dispatcher_read d mc (MemoryReference e seg t) n a = do {
     value_nbits \<leftarrow> value_width (MemoryReference e seg t) n;
     (addr, mc) \<leftarrow> effectiveAddress d mc (MemoryReference e seg t) a;
     require (sv_width addr = arch_bitsPerWord d);
     dflt \<leftarrow> SValue_undefined value_nbits;
     yes \<leftarrow> SValue_boolean True;
     (v, mc) \<leftarrow> ops_readMemory mc (segmentRegister (MemoryReference e seg t)) addr dflt yes;
     read_of1 (Some v) mc value_nbits
   }"
| "Dispatcher_read d mc (IntegerValue v base t) n a = do {
     value_nbits \<leftarrow> value_width (IntegerValue v base t) n;
     val \<leftarrow> get_signedValue v base;
     read_of1 (SValue_number value_nbits val) mc value_nbits
   }"
| "Dispatcher_read d mc (BinaryAdd l r t) n a = do {
     value_nbits \<leftarrow> value_width (BinaryAdd l r t) n;
     (lhs, mc) \<leftarrow> Dispatcher_read d mc l (get_nBits l) a;
     (rhs, mc) \<leftarrow> Dispatcher_read d mc r (get_nBits r) a;
     read_of2 (extended Concrete_add (max (get_nBits l) (get_nBits r))) lhs rhs mc value_nbits
   }"
| "Dispatcher_read d mc (BinarySubtract l r t) n a = do {
     value_nbits \<leftarrow> value_width (BinarySubtract l r t) n;
     (lhs, mc) \<leftarrow> Dispatcher_read d mc l (get_nBits l) a;
     (rhs, mc) \<leftarrow> Dispatcher_read d mc r (get_nBits r) a;
     read_of2 (extended (ops_subtract concrete_ops) (max (get_nBits l) (get_nBits r))) lhs rhs mc value_nbits
   }"
| "Dispatcher_read d mc (BinaryMultiply l r t) n a = do {
     value_nbits \<leftarrow> value_width (BinaryMultiply l r t) n;
     (lhs, mc) \<leftarrow> Dispatcher_read d mc l (get_nBits l) 0;
     (rhs, mc) \<leftarrow> Dispatcher_read d mc r (get_nBits r) 0;
     read_of2 Concrete_unsignedMultiply lhs rhs mc value_nbits
   }"
| "Dispatcher_read d mc (UnaryTruncate e t) n a = do {
     value_nbits \<leftarrow> value_width (UnaryTruncate e t) n;
     (v, mc) \<leftarrow> Dispatcher_read d mc e (get_nBits e) a;
     read_of1 (Concrete_unsignedExtend v t) mc value_nbits
   }"
| "Dispatcher_read d mc (BinaryLsr l r t) n a = do {
     value_nbits \<leftarrow> value_width (BinaryLsr l r t) n;
     (lhs, mc) \<leftarrow> Dispatcher_read d mc l (get_nBits l) a;
     (rhs, mc) \<leftarrow> Dispatcher_read d mc r (get_nBits r) a;
     read_of2 Concrete_shiftRight lhs rhs mc value_nbits
   }"
| "Dispatcher_read d mc (BinaryAsr l r t) n a = do {
     value_nbits \<leftarrow> value_width (BinaryAsr l r t) n;
     (lhs, mc) \<leftarrow> Dispatcher_read d mc l (get_nBits l) a;
     (rhs, mc) \<leftarrow> Dispatcher_read d mc r (get_nBits r) a;
     read_of2 Concrete_shiftRightArithmetic lhs rhs mc value_nbits
   }"
| "Dispatcher_read d mc (BinaryLsl l r t) n a = do {
     value_nbits \<leftarrow> value_width (BinaryLsl l r t) n;
     (lhs, mc) \<leftarrow> Dispatcher_read d mc l (get_nBits l) a;
     (rhs, mc) \<leftarrow> Dispatcher_read d mc r (get_nBits r) a;
     read_of2 Concrete_shiftLeft lhs rhs mc value_nbits
   }"
| "Dispatcher_read d mc (BinaryRor l r t) n a = do {
     value_nbits \<leftarrow> value_width (BinaryRor l r t) n;
     (lhs, mc) \<leftarrow> Dispatcher_read d mc l (get_nBits l) a;
     (rhs, mc) \<leftarrow> Dispatcher_read d mc r (get_nBits r) a;
     read_of2 Concrete_rotateRight lhs rhs mc value_nbits
   }"
| "Dispatcher_read d mc (UnaryUnsignedExtend e t) n a = do {
     value_nbits \<leftarrow> value_width (UnaryUnsignedExtend e t) n;
     (v, mc) \<leftarrow> effectiveAddress d mc e (get_nBits e);
     read_of1 (Concrete_unsignedExtend v t) mc value_nbits
   }"
| "Dispatcher_read d mc (UnarySignedExtend e t) n a = do {
     value_nbits \<leftarrow> value_width (UnarySignedExtend e t) n;
     (v, mc) \<leftarrow> effectiveAddress d mc e (get_nBits e);
     read_of1 (Concrete_signExtend v t) mc value_nbits
   }"
| "Dispatcher_read d mc (BinaryPostupdate l r t) n a = do {
     value_nbits \<leftarrow> value_width (BinaryPostupdate l r t) n;
     Dispatcher_read d mc l value_nbits a
   }"
| "Dispatcher_read d mc (BinaryPreupdate l r t) n a = do {
     value_nbits \<leftarrow> value_width (BinaryPreupdate l r t) n;
     Dispatcher_read d mc l value_nbits a
   }"
| "Dispatcher_read d mc (OtherExpression es t) n a = None"

fun Dispatcher_write :: "dispatcher \<Rightarrow> machine \<Rightarrow> asm_expr \<Rightarrow> svalue \<Rightarrow> nat \<Rightarrow> machine option" where
  "Dispatcher_write d mc (DirectRegister desc adj t) value a = do {
     reg \<leftarrow> (if reg_nBits desc > t then RegisterDescriptor_new (majorNumber desc) (minorNumber desc) (reg_offset desc) t
       else Some desc);
     ops_writeRegister mc reg value
   }"
| "Dispatcher_write d mc (IndirectRegister desc adj stride offset index modulus t) value a = do {
     (reg, mc) \<leftarrow> indirect_register mc desc stride offset index modulus;
     ops_writeRegister mc reg value
   }"
| "Dispatcher_write d mc (MemoryReference e seg t) value a = do {
     (addr, mc) \<leftarrow> effectiveAddress d mc (MemoryReference e seg t) a;
     require (sv_width addr = arch_bitsPerWord d);
     yes \<leftarrow> SValue_boolean True;
     ops_writeMemory mc (segmentRegister (MemoryReference e seg t)) addr value yes
   }"
| "Dispatcher_write d mc e value a = None"

section \<open>Register updates around an access\<close>

text \<open>The nodes of an expression in the order in which a forward traversal first visits them.\<close>

fun subexpressions :: "asm_expr \<Rightarrow> asm_expr list" where
  "subexpressions (MemoryReference e None t) = MemoryReference e None t # subexpressions e"
| "subexpressions (MemoryReference e (Some seg) t) = MemoryReference e (Some seg) t # subexpressions e @ subexpressions seg"
| "subexpressions (BinaryAdd l r t) = BinaryAdd l r t # subexpressions l @ subexpressions r"
| "subexpressions (BinarySubtract l r t) = BinarySubtract l r t # subexpressions l @ subexpressions r"
| "subexpressions (BinaryMultiply l r t) = BinaryMultiply l r t # subexpressions l @ subexpressions r"
| "subexpressions (BinaryLsl l r t) = BinaryLsl l r t # subexpressions l @ subexpressions r"
| "subexpressions (BinaryLsr l r t) = BinaryLsr l r t # subexpressions l @ subexpressions r"
| "subexpressions (BinaryAsr l r t) = BinaryAsr l r t # subexpressions l @ subexpressions r"
| "subexpressions (BinaryRor l r t) = BinaryRor l r t # subexpressions l @ subexpressions r"
| "subexpressions (BinaryPreupdate l r t) = BinaryPreupdate l r t # subexpressions l @ subexpressions r"
| "subexpressions (BinaryPostupdate l r t) = BinaryPostupdate l r t # subexpressions l @ subexpressions r"
| "subexpressions (UnaryUnsignedExtend e t) = UnaryUnsignedExtend e t # subexpressions e"
| "subexpressions (UnarySignedExtend e t) = UnarySignedExtend e t # subexpressions e"
| "subexpressions (UnaryTruncate e t) = UnaryTruncate e t # subexpressions e"
| "subexpressions (OtherExpression es t) = OtherExpression es t # concat (map subexpressions es)"
| "subexpressions e = [e]"

fun register_adjustment :: "asm_expr \<Rightarrow> (register_descriptor \<times> int) option" where
  "register_adjustment (DirectRegister desc adj t) = Some (desc, adj)"
| "register_adjustment (IndirectRegister desc adj s k i m t) = Some (desc, adj)"
| "register_adjustment e = None"

fun decrement_all :: "machine \<Rightarrow> asm_expr list \<Rightarrow> machine option" where
  "decrement_all mc [] = Some mc"
| "decrement_all mc (e # es) = do {
     mc \<leftarrow> (case register_adjustment e of
         None \<Rightarrow> Some mc
       | Some (reg, k) \<Rightarrow>
           if k < 0 then do {
             adj \<leftarrow> SValue_number 64 (word_of_int k);
             adj \<leftarrow> (if reg_nBits reg \<le> 64 then Concrete_unsignedExtend adj (reg_nBits reg)
               else Concrete_signExtend adj (reg_nBits reg));
             (v, mc) \<leftarrow> readRegister1 mc reg;
             v \<leftarrow> Concrete_add v adj;
             ops_writeRegister mc reg v
           } else Some mc);
     decrement_all mc es
   }"

definition decrementRegisters :: "machine \<Rightarrow> asm_expr \<Rightarrow> machine option" where
  "decrementRegisters mc e = decrement_all mc (subexpressions e)"

fun increment_all :: "machine \<Rightarrow> asm_expr list \<Rightarrow> machine option" where
  "increment_all mc [] = Some mc"
| "increment_all mc (e # es) = do {
     mc \<leftarrow> (case register_adjustment e of
         None \<Rightarrow> Some mc
       | Some (reg, k) \<Rightarrow>
           if k > 0 then do {
             adj \<leftarrow> SValue_number 64 (word_of_int k);
             adj \<leftarrow> Concrete_unsignedExtend adj (reg_nBits reg);
             (v, mc) \<leftarrow> readRegister1 mc reg;
             v \<leftarrow> Concrete_add v adj;
             ops_writeRegister mc reg v
           } else Some mc);
     increment_all mc es
   }"

definition incrementRegisters :: "machine \<Rightarrow> asm_expr \<Rightarrow> machine option" where
  "incrementRegisters mc e = increment_all mc (subexpressions e)"

text \<open>
  One update of the left operand, when it is enabled. Every value of the concrete domain is concrete,
  so one that is too wide for \<^verbatim>\<open>toUnsigned\<close> stops at the access of the missing number.
\<close>

definition update_operand :: "dispatcher \<Rightarrow> machine \<Rightarrow> asm_expr \<Rightarrow> asm_expr \<Rightarrow> svalue \<Rightarrow> machine option" where
  "update_operand d mc l r enabled =
     (if SValue_isTrue enabled then do {
        (newValue, mc) \<leftarrow> Dispatcher_read d mc r 0 0;
        Dispatcher_write d mc l newValue 0
      } else do {
        u \<leftarrow> SValue_toUnsigned enabled;
        if u \<noteq> 0 then do {
          (oldValue, mc) \<leftarrow> Dispatcher_read d mc l 0 0;
          (newValue, mc) \<leftarrow> Dispatcher_read d mc r 0 0;
          maybe \<leftarrow> Concrete_ite enabled newValue oldValue;
          Dispatcher_write d mc l maybe 0
        } else Some mc
      })"

fun preUpdate_all :: "dispatcher \<Rightarrow> machine \<Rightarrow> svalue \<Rightarrow> asm_expr list \<Rightarrow> machine option" where
  "preUpdate_all d mc enabled [] = Some mc"
| "preUpdate_all d mc enabled (e # es) = do {
     mc \<leftarrow> (case e of BinaryPreupdate l r t \<Rightarrow> update_operand d mc l r enabled | _ \<Rightarrow> Some mc);
     preUpdate_all d mc enabled es
   }"

definition preUpdate :: "dispatcher \<Rightarrow> machine \<Rightarrow> asm_expr \<Rightarrow> svalue \<Rightarrow> machine option" where
  "preUpdate d mc e enabled = preUpdate_all d mc enabled (subexpressions e)"

fun postUpdate_all :: "dispatcher \<Rightarrow> machine \<Rightarrow> svalue \<Rightarrow> asm_expr list \<Rightarrow> machine option" where
  "postUpdate_all d mc enabled [] = Some mc"
| "postUpdate_all d mc enabled (e # es) = do {
     mc \<leftarrow> (case e of BinaryPostupdate l r t \<Rightarrow> update_operand d mc l r enabled | _ \<Rightarrow> Some mc);
     postUpdate_all d mc enabled es
   }"

definition postUpdate :: "dispatcher \<Rightarrow> machine \<Rightarrow> asm_expr \<Rightarrow> svalue \<Rightarrow> machine option" where
  "postUpdate d mc e enabled = postUpdate_all d mc enabled (subexpressions e)"

end
