(* ===== verification/Mips_Dispatcher.thy ===== *)
theory Mips_Dispatcher
  imports Dispatcher
begin

text \<open>
  The MIPS dispatcher (\<^verbatim>\<open>DispatcherMips\<close>): one definition per functor \<^verbatim>\<open>IP_...\<close>, the dispatch table,
  and the processing of an instruction with its delay slot.

  A functor takes the dispatcher, the current instruction, the action that processes the delay slot and
  the machine. An instruction kind is the number of the enumeration constant; the kinds that the dispatch
  table or \<^verbatim>\<open>isControlTransfer\<close> names have names here too. Trace output, warnings and the
  counters of processed and failed instructions are left out. A missing delay slot where the functor
  requires one, a wrong number of operands and a result that was not computed stop at an exception or
  an assertion, which is \<open>None\<close>.
\<close>

section \<open>Instructions\<close>

type_synonym mips_kind = nat

abbreviation (input) mips_add :: mips_kind where "mips_add \<equiv> 4"
abbreviation (input) mips_addi :: mips_kind where "mips_addi \<equiv> 8"
abbreviation (input) mips_addiu :: mips_kind where "mips_addiu \<equiv> 9"
abbreviation (input) mips_addu :: mips_kind where "mips_addu \<equiv> 10"
abbreviation (input) mips_and :: mips_kind where "mips_and \<equiv> 12"
abbreviation (input) mips_andi :: mips_kind where "mips_andi \<equiv> 13"
abbreviation (input) mips_b :: mips_kind where "mips_b \<equiv> 14"
abbreviation (input) mips_bal :: mips_kind where "mips_bal \<equiv> 15"
abbreviation (input) mips_bc1f :: mips_kind where "mips_bc1f \<equiv> 16"
abbreviation (input) mips_bc1fl :: mips_kind where "mips_bc1fl \<equiv> 17"
abbreviation (input) mips_bc1t :: mips_kind where "mips_bc1t \<equiv> 18"
abbreviation (input) mips_bc1tl :: mips_kind where "mips_bc1tl \<equiv> 19"
abbreviation (input) mips_bc2f :: mips_kind where "mips_bc2f \<equiv> 20"
abbreviation (input) mips_bc2fl :: mips_kind where "mips_bc2fl \<equiv> 21"
abbreviation (input) mips_bc2t :: mips_kind where "mips_bc2t \<equiv> 22"
abbreviation (input) mips_bc2tl :: mips_kind where "mips_bc2tl \<equiv> 23"
abbreviation (input) mips_beq :: mips_kind where "mips_beq \<equiv> 24"
abbreviation (input) mips_beql :: mips_kind where "mips_beql \<equiv> 25"
abbreviation (input) mips_bgez :: mips_kind where "mips_bgez \<equiv> 26"
abbreviation (input) mips_bgezal :: mips_kind where "mips_bgezal \<equiv> 27"
abbreviation (input) mips_bgezall :: mips_kind where "mips_bgezall \<equiv> 28"
abbreviation (input) mips_bgezl :: mips_kind where "mips_bgezl \<equiv> 29"
abbreviation (input) mips_bgtz :: mips_kind where "mips_bgtz \<equiv> 30"
abbreviation (input) mips_bgtzl :: mips_kind where "mips_bgtzl \<equiv> 31"
abbreviation (input) mips_blez :: mips_kind where "mips_blez \<equiv> 32"
abbreviation (input) mips_blezl :: mips_kind where "mips_blezl \<equiv> 33"
abbreviation (input) mips_bltz :: mips_kind where "mips_bltz \<equiv> 34"
abbreviation (input) mips_bltzal :: mips_kind where "mips_bltzal \<equiv> 35"
abbreviation (input) mips_bltzall :: mips_kind where "mips_bltzall \<equiv> 36"
abbreviation (input) mips_bltzl :: mips_kind where "mips_bltzl \<equiv> 37"
abbreviation (input) mips_bne :: mips_kind where "mips_bne \<equiv> 38"
abbreviation (input) mips_bnel :: mips_kind where "mips_bnel \<equiv> 39"
abbreviation (input) mips_break :: mips_kind where "mips_break \<equiv> 40"
abbreviation (input) mips_clo :: mips_kind where "mips_clo \<equiv> 97"
abbreviation (input) mips_clz :: mips_kind where "mips_clz \<equiv> 98"
abbreviation (input) mips_div :: mips_kind where "mips_div \<equiv> 116"
abbreviation (input) mips_divu :: mips_kind where "mips_divu \<equiv> 119"
abbreviation (input) mips_ehb :: mips_kind where "mips_ehb \<equiv> 120"
abbreviation (input) mips_eret :: mips_kind where "mips_eret \<equiv> 122"
abbreviation (input) mips_j :: mips_kind where "mips_j \<equiv> 129"
abbreviation (input) mips_jal :: mips_kind where "mips_jal \<equiv> 130"
abbreviation (input) mips_jalr :: mips_kind where "mips_jalr \<equiv> 131"
abbreviation (input) mips_jalr_hb :: mips_kind where "mips_jalr_hb \<equiv> 132"
abbreviation (input) mips_jalx :: mips_kind where "mips_jalx \<equiv> 133"
abbreviation (input) mips_jr :: mips_kind where "mips_jr \<equiv> 134"
abbreviation (input) mips_jr_hb :: mips_kind where "mips_jr_hb \<equiv> 135"
abbreviation (input) mips_lb :: mips_kind where "mips_lb \<equiv> 136"
abbreviation (input) mips_lbe :: mips_kind where "mips_lbe \<equiv> 137"
abbreviation (input) mips_lbu :: mips_kind where "mips_lbu \<equiv> 138"
abbreviation (input) mips_lbue :: mips_kind where "mips_lbue \<equiv> 139"
abbreviation (input) mips_lh :: mips_kind where "mips_lh \<equiv> 143"
abbreviation (input) mips_lhe :: mips_kind where "mips_lhe \<equiv> 144"
abbreviation (input) mips_lhu :: mips_kind where "mips_lhu \<equiv> 145"
abbreviation (input) mips_lhue :: mips_kind where "mips_lhue \<equiv> 146"
abbreviation (input) mips_lui :: mips_kind where "mips_lui \<equiv> 149"
abbreviation (input) mips_lw :: mips_kind where "mips_lw \<equiv> 151"
abbreviation (input) mips_lwc1 :: mips_kind where "mips_lwc1 \<equiv> 152"
abbreviation (input) mips_lwe :: mips_kind where "mips_lwe \<equiv> 154"
abbreviation (input) mips_lwl :: mips_kind where "mips_lwl \<equiv> 155"
abbreviation (input) mips_lwr :: mips_kind where "mips_lwr \<equiv> 157"
abbreviation (input) mips_madd :: mips_kind where "mips_madd \<equiv> 161"
abbreviation (input) mips_maddu :: mips_kind where "mips_maddu \<equiv> 165"
abbreviation (input) mips_mfc0 :: mips_kind where "mips_mfc0 \<equiv> 166"
abbreviation (input) mips_mfc1 :: mips_kind where "mips_mfc1 \<equiv> 167"
abbreviation (input) mips_mfc2 :: mips_kind where "mips_mfc2 \<equiv> 168"
abbreviation (input) mips_mfhi :: mips_kind where "mips_mfhi \<equiv> 171"
abbreviation (input) mips_mflo :: mips_kind where "mips_mflo \<equiv> 172"
abbreviation (input) mips_mov_s :: mips_kind where "mips_mov_s \<equiv> 173"
abbreviation (input) mips_mov_d :: mips_kind where "mips_mov_d \<equiv> 174"
abbreviation (input) mips_mov_ps :: mips_kind where "mips_mov_ps \<equiv> 175"
abbreviation (input) mips_movf :: mips_kind where "mips_movf \<equiv> 176"
abbreviation (input) mips_movf_s :: mips_kind where "mips_movf_s \<equiv> 177"
abbreviation (input) mips_movf_d :: mips_kind where "mips_movf_d \<equiv> 178"
abbreviation (input) mips_movf_ps :: mips_kind where "mips_movf_ps \<equiv> 179"
abbreviation (input) mips_movn :: mips_kind where "mips_movn \<equiv> 180"
abbreviation (input) mips_movt :: mips_kind where "mips_movt \<equiv> 184"
abbreviation (input) mips_movz :: mips_kind where "mips_movz \<equiv> 188"
abbreviation (input) mips_msub :: mips_kind where "mips_msub \<equiv> 192"
abbreviation (input) mips_msubu :: mips_kind where "mips_msubu \<equiv> 196"
abbreviation (input) mips_mthi :: mips_kind where "mips_mthi \<equiv> 202"
abbreviation (input) mips_mtlo :: mips_kind where "mips_mtlo \<equiv> 203"
abbreviation (input) mips_mul :: mips_kind where "mips_mul \<equiv> 204"
abbreviation (input) mips_mult :: mips_kind where "mips_mult \<equiv> 208"
abbreviation (input) mips_multu :: mips_kind where "mips_multu \<equiv> 209"
abbreviation (input) mips_nop :: mips_kind where "mips_nop \<equiv> 219"
abbreviation (input) mips_nor :: mips_kind where "mips_nor \<equiv> 220"
abbreviation (input) mips_or :: mips_kind where "mips_or \<equiv> 221"
abbreviation (input) mips_ori :: mips_kind where "mips_ori \<equiv> 222"
abbreviation (input) mips_pause :: mips_kind where "mips_pause \<equiv> 223"
abbreviation (input) mips_rdhwr :: mips_kind where "mips_rdhwr \<equiv> 231"
abbreviation (input) mips_rotr :: mips_kind where "mips_rotr \<equiv> 235"
abbreviation (input) mips_rotrv :: mips_kind where "mips_rotrv \<equiv> 236"
abbreviation (input) mips_sb :: mips_kind where "mips_sb \<equiv> 243"
abbreviation (input) mips_sbe :: mips_kind where "mips_sbe \<equiv> 244"
abbreviation (input) mips_sdc1 :: mips_kind where "mips_sdc1 \<equiv> 247"
abbreviation (input) mips_seb :: mips_kind where "mips_seb \<equiv> 250"
abbreviation (input) mips_seh :: mips_kind where "mips_seh \<equiv> 251"
abbreviation (input) mips_sh :: mips_kind where "mips_sh \<equiv> 252"
abbreviation (input) mips_she :: mips_kind where "mips_she \<equiv> 253"
abbreviation (input) mips_sll :: mips_kind where "mips_sll \<equiv> 254"
abbreviation (input) mips_sllv :: mips_kind where "mips_sllv \<equiv> 255"
abbreviation (input) mips_slt :: mips_kind where "mips_slt \<equiv> 256"
abbreviation (input) mips_slti :: mips_kind where "mips_slti \<equiv> 257"
abbreviation (input) mips_sltiu :: mips_kind where "mips_sltiu \<equiv> 258"
abbreviation (input) mips_sltu :: mips_kind where "mips_sltu \<equiv> 259"
abbreviation (input) mips_sra :: mips_kind where "mips_sra \<equiv> 262"
abbreviation (input) mips_srav :: mips_kind where "mips_srav \<equiv> 263"
abbreviation (input) mips_srl :: mips_kind where "mips_srl \<equiv> 264"
abbreviation (input) mips_srlv :: mips_kind where "mips_srlv \<equiv> 265"
abbreviation (input) mips_ssnop :: mips_kind where "mips_ssnop \<equiv> 266"
abbreviation (input) mips_sub :: mips_kind where "mips_sub \<equiv> 267"
abbreviation (input) mips_subu :: mips_kind where "mips_subu \<equiv> 271"
abbreviation (input) mips_suxc1 :: mips_kind where "mips_suxc1 \<equiv> 272"
abbreviation (input) mips_sw :: mips_kind where "mips_sw \<equiv> 273"
abbreviation (input) mips_swc1 :: mips_kind where "mips_swc1 \<equiv> 274"
abbreviation (input) mips_swc2 :: mips_kind where "mips_swc2 \<equiv> 275"
abbreviation (input) mips_swe :: mips_kind where "mips_swe \<equiv> 276"
abbreviation (input) mips_swxc1 :: mips_kind where "mips_swxc1 \<equiv> 281"
abbreviation (input) mips_wait :: mips_kind where "mips_wait \<equiv> 307"
abbreviation (input) mips_xor :: mips_kind where "mips_xor \<equiv> 310"
abbreviation (input) mips_xori :: mips_kind where "mips_xori \<equiv> 311"

datatype mips_insn = Insn (get_kind: mips_kind) (get_address: "64 word") (get_size: "64 word")
  (operands: "asm_expr list") (get_delaySlot: "mips_insn option")

definition isControlTransfer :: "mips_kind \<Rightarrow> bool" where
  "isControlTransfer k \<longleftrightarrow> k \<in> {mips_b, mips_bal, mips_bc1f, mips_bc1fl, mips_bc1t, mips_bc1tl, mips_bc2f, mips_bc2fl,
     mips_bc2t, mips_bc2tl, mips_beq, mips_beql, mips_bgez, mips_bgezal, mips_bgezall, mips_bgezl, mips_bgtz, mips_bgtzl,
     mips_blez, mips_blezl, mips_bltz, mips_bltzal, mips_bltzall, mips_bltzl, mips_bne, mips_bnel, mips_eret,
     mips_j, mips_jal, mips_jalr, mips_jalr_hb, mips_jalx, mips_jr, mips_jr_hb, mips_pause, mips_wait}"

section \<open>The architecture and its dispatcher\<close>

definition mips_reg :: "nat \<Rightarrow> nat \<Rightarrow> nat \<Rightarrow> nat \<Rightarrow> register_descriptor" where
  "mips_reg majr minr offset width = the (RegisterDescriptor_new majr minr offset width)"

definition mips_gpr :: "nat \<Rightarrow> register_descriptor" where
  "mips_gpr i = mips_reg 0 i 0 32"

definition REG_ZERO :: register_descriptor where "REG_ZERO = mips_reg 0 0 0 32"

definition REG_RA :: register_descriptor where "REG_RA = mips_reg 0 31 0 32"

definition REG_HI :: register_descriptor where "REG_HI = mips_reg 1 0 0 32"

definition REG_LO :: register_descriptor where "REG_LO = mips_reg 1 1 0 32"

definition REG_PC :: register_descriptor where "REG_PC = mips_reg 1 2 0 32"

text \<open>The override of \<^verbatim>\<open>read\<close>: the zero register reads as zero.\<close>

fun DispatcherMips_read :: "asm_expr \<Rightarrow> nat \<Rightarrow> svalue option option" where
  "DispatcherMips_read (DirectRegister desc adj t) valueNBits =
     (if desc = REG_ZERO then Some (SValue_number (if valueNBits \<noteq> 0 then valueNBits else reg_nBits REG_ZERO) 0) else None)"
| "DispatcherMips_read e valueNBits = None"

definition Mips32 :: "byte_order \<Rightarrow> bool \<Rightarrow> dispatcher" where
  "Mips32 bo autoReset = \<lparr>arch_bitsPerWord = 4 * 8, arch_byteOrder = bo, instructionPointerRegister = REG_PC,
     autoResetInstructionPointer = autoReset, virtual_read = DispatcherMips_read\<rparr>"

definition initializeMemoryState :: "dispatcher \<Rightarrow> machine \<Rightarrow> machine" where
  "initializeMemoryState d mc =
     (case ms_byteOrder (cs_memory (currentState mc)) of
        ORDER_UNSPECIFIED \<Rightarrow> mc\<lparr>currentState := (currentState mc)\<lparr>cs_memory :=
          set_byteOrder (cs_memory (currentState mc)) (arch_byteOrder d)\<rparr>\<rparr>
      | _ \<Rightarrow> mc)"

section \<open>Merging unaligned words\<close>

definition concatHiLo :: "svalue \<Rightarrow> svalue \<Rightarrow> svalue option" where
  "concatHiLo a b = ops_concatHiLo concrete_ops a b"

definition merge_address :: "dispatcher \<Rightarrow> mips_insn \<Rightarrow> machine \<Rightarrow> nat \<Rightarrow> (svalue \<times> machine) option" where
  "merge_address d insn mc nBits = do {
     require (length (operands insn) > 1);
     case operands insn ! 1 of
       MemoryReference a seg t \<Rightarrow> effectiveAddress d mc (MemoryReference a seg t) nBits
     | _ \<Rightarrow> None
   }"

text \<open>The three alternatives to taking the whole word: the conditions and the pieces that are joined.\<close>

definition merge_take :: "(svalue \<Rightarrow> svalue \<Rightarrow> svalue option) \<Rightarrow> 64 word \<Rightarrow> svalue \<Rightarrow> svalue \<Rightarrow> svalue \<Rightarrow>
    nat \<Rightarrow> nat \<Rightarrow> nat \<Rightarrow> nat \<Rightarrow> svalue \<Rightarrow> svalue option" where
  "merge_take glue position offset mem reg i j k l result = do {
     p \<leftarrow> SValue_number 2 position;
     take \<leftarrow> ops_isEqual concrete_ops p offset;
     src \<leftarrow> Concrete_extract mem i j;
     dst \<leftarrow> Concrete_extract reg k l;
     word \<leftarrow> glue src dst;
     Concrete_ite take word result
   }"

definition mergeLeft :: "dispatcher \<Rightarrow> mips_insn \<Rightarrow> machine \<Rightarrow> svalue \<Rightarrow> svalue \<Rightarrow> (svalue \<times> machine) option" where
  "mergeLeft d insn mc reg mem = do {
     let nBits = arch_bitsPerWord d;
     (effAddr, mc) \<leftarrow> merge_address d insn mc nBits;
     offset \<leftarrow> Concrete_extract effAddr 0 2;
     let (p1, p2, p3) = (if ORDER_MSB = arch_byteOrder d then (3, 2, 1) else (0, 1, 2));
     result \<leftarrow> merge_take concatHiLo p1 offset mem reg 24 32 (nBits - 24) nBits mem;
     result \<leftarrow> merge_take concatHiLo p2 offset mem reg 16 32 (nBits - 16) nBits result;
     result \<leftarrow> merge_take concatHiLo p3 offset mem reg 8 32 (nBits - 8) nBits result;
     Some (result, mc)
   }"

definition mergeRight :: "dispatcher \<Rightarrow> mips_insn \<Rightarrow> machine \<Rightarrow> svalue \<Rightarrow> svalue \<Rightarrow> (svalue \<times> machine) option" where
  "mergeRight d insn mc reg mem = do {
     let nBits = arch_bitsPerWord d;
     (effAddr, mc) \<leftarrow> merge_address d insn mc nBits;
     offset \<leftarrow> Concrete_extract effAddr 0 2;
     let (p1, p2, p3) = (if ORDER_MSB = arch_byteOrder d then (0, 1, 2) else (3, 2, 1));
     result \<leftarrow> merge_take (\<lambda>src dst. concatHiLo dst src) p1 offset mem reg 0 8 (nBits - 24) nBits mem;
     result \<leftarrow> merge_take (\<lambda>src dst. concatHiLo dst src) p2 offset mem reg 0 16 (nBits - 16) nBits result;
     result \<leftarrow> merge_take (\<lambda>src dst. concatHiLo dst src) p3 offset mem reg 0 24 (nBits - 8) nBits result;
     Some (result, mc)
   }"

section \<open>The functors\<close>

type_synonym insn_processor = "dispatcher \<Rightarrow> mips_insn \<Rightarrow> (machine \<Rightarrow> machine option) \<Rightarrow> machine \<Rightarrow> machine option"

definition assert_args :: "mips_insn \<Rightarrow> nat \<Rightarrow> unit option" where
  "assert_args insn nargs = require (length (operands insn) = nargs)"

text \<open>The operand \<^verbatim>\<open>args[i]\<close>, read with the width of its type or with a given one, and written.\<close>

definition read_arg :: "dispatcher \<Rightarrow> mips_insn \<Rightarrow> nat \<Rightarrow> nat \<Rightarrow> machine \<Rightarrow> (svalue \<times> machine) option" where
  "read_arg d insn i nbits mc = Dispatcher_read d mc (operands insn ! i) nbits 0"

definition write_arg :: "dispatcher \<Rightarrow> mips_insn \<Rightarrow> nat \<Rightarrow> svalue \<Rightarrow> machine \<Rightarrow> machine option" where
  "write_arg d insn i v mc = Dispatcher_write d mc (operands insn ! i) v 0"

text \<open>The return address that the linking instructions store, and the interrupt of a true overflow.\<close>

definition link_value :: "dispatcher \<Rightarrow> mips_insn \<Rightarrow> svalue option" where
  "link_value d insn = do {
     link \<leftarrow> SValue_number (arch_bitsPerWord d) (get_address insn);
     k \<leftarrow> SValue_number (arch_bitsPerWord d) 8;
     Concrete_add link k
   }"

definition IP_add :: insn_processor where
  "IP_add d insn delaySlot mc = do {
     assert_args insn 3;
     let nBits = arch_bitsPerWord d;
     (rs, mc) \<leftarrow> read_arg d insn 1 0 mc;
     (rt, mc) \<leftarrow> read_arg d insn 2 0 mc;
     sum \<leftarrow> Concrete_add rs rt;
     (rs2, mc) \<leftarrow> read_arg d insn 1 0 mc;
     wideRs \<leftarrow> Concrete_signExtend rs2 (nBits + 1);
     (rt2, mc) \<leftarrow> read_arg d insn 2 0 mc;
     wideRt \<leftarrow> Concrete_signExtend rt2 (nBits + 1);
     wideSum \<leftarrow> Concrete_add wideRs wideRt;
     wideSum32 \<leftarrow> Concrete_extract wideSum 32 33;
     wideSum31 \<leftarrow> Concrete_extract wideSum 31 32;
     overflow \<leftarrow> ops_isNotEqual concrete_ops wideSum31 wideSum32;
     (oldRd, mc) \<leftarrow> read_arg d insn 0 nBits mc;
     result \<leftarrow> Concrete_ite overflow oldRd sum;
     mc \<leftarrow> write_arg d insn 0 result mc;
     raiseInterrupt mc overflow
   }"

definition IP_addi :: insn_processor where
  "IP_addi d insn delaySlot mc = do {
     assert_args insn 3;
     let nBits = arch_bitsPerWord d;
     (rs, mc) \<leftarrow> read_arg d insn 1 nBits mc;
     (imm, mc) \<leftarrow> read_arg d insn 2 0 mc;
     imm \<leftarrow> Concrete_signExtend imm nBits;
     sum \<leftarrow> Concrete_add rs imm;
     (rs2, mc) \<leftarrow> read_arg d insn 1 0 mc;
     wideRs \<leftarrow> Concrete_signExtend rs2 (nBits + 1);
     (rt2, mc) \<leftarrow> read_arg d insn 2 0 mc;
     wideRt \<leftarrow> Concrete_signExtend rt2 (nBits + 1);
     wideSum \<leftarrow> Concrete_add wideRs wideRt;
     wideSum32 \<leftarrow> Concrete_extract wideSum 32 33;
     wideSum31 \<leftarrow> Concrete_extract wideSum 31 32;
     overflow \<leftarrow> ops_isNotEqual concrete_ops wideSum31 wideSum32;
     (oldRd, mc) \<leftarrow> read_arg d insn 0 nBits mc;
     result \<leftarrow> Concrete_ite overflow oldRd sum;
     mc \<leftarrow> write_arg d insn 0 result mc;
     raiseInterrupt mc overflow
   }"

definition IP_addiu :: insn_processor where
  "IP_addiu d insn delaySlot mc = do {
     assert_args insn 3;
     let nBits = arch_bitsPerWord d;
     (rs, mc) \<leftarrow> read_arg d insn 1 0 mc;
     (imm, mc) \<leftarrow> read_arg d insn 2 0 mc;
     imm \<leftarrow> Concrete_signExtend imm nBits;
     result \<leftarrow> Concrete_add rs imm;
     write_arg d insn 0 result mc
   }"

definition IP_addu :: insn_processor where
  "IP_addu d insn delaySlot mc = do {
     assert_args insn 3;
     (rs, mc) \<leftarrow> read_arg d insn 1 0 mc;
     (rt, mc) \<leftarrow> read_arg d insn 2 0 mc;
     result \<leftarrow> Concrete_add rs rt;
     write_arg d insn 0 result mc
   }"

definition IP_and :: insn_processor where
  "IP_and d insn delaySlot mc = do {
     assert_args insn 3;
     (rs, mc) \<leftarrow> read_arg d insn 1 0 mc;
     (rt, mc) \<leftarrow> read_arg d insn 2 0 mc;
     result \<leftarrow> Concrete_and rs rt;
     write_arg d insn 0 result mc
   }"

definition IP_andi :: insn_processor where
  "IP_andi d insn delaySlot mc = do {
     assert_args insn 3;
     let nBits = arch_bitsPerWord d;
     (rs, mc) \<leftarrow> read_arg d insn 1 0 mc;
     (imm, mc) \<leftarrow> read_arg d insn 2 0 mc;
     imm \<leftarrow> Concrete_unsignedExtend imm nBits;
     result \<leftarrow> Concrete_and rs imm;
     write_arg d insn 0 result mc
   }"

definition IP_b :: insn_processor where
  "IP_b d insn delaySlot mc = do {
     assert_args insn 1;
     mc \<leftarrow> delaySlot mc;
     mc \<leftarrow> (if get_kind insn = mips_bal then do { link \<leftarrow> link_value d insn; ops_writeRegister mc REG_RA link } else Some mc);
     (target, mc) \<leftarrow> read_arg d insn 0 0 mc;
     ops_writeRegister mc (instructionPointerRegister d) target
   }"

definition IP_beq :: insn_processor where
  "IP_beq d insn delaySlot mc = do {
     assert_args insn 3;
     mc \<leftarrow> delaySlot mc;
     (rs, mc) \<leftarrow> read_arg d insn 0 0 mc;
     (rt, mc) \<leftarrow> read_arg d insn 1 0 mc;
     (ipValue, mc) \<leftarrow> readRegister1 mc (instructionPointerRegister d);
     compare \<leftarrow> (if get_kind insn = mips_beq then ops_isEqual concrete_ops rs rt
       else if get_kind insn = mips_bne then ops_isNotEqual concrete_ops rs rt
       else None);
     (target, mc) \<leftarrow> read_arg d insn 2 0 mc;
     ipValue \<leftarrow> Concrete_ite compare target ipValue;
     ops_writeRegister mc (instructionPointerRegister d) ipValue
   }"

definition IP_bgez :: insn_processor where
  "IP_bgez d insn delaySlot mc = do {
     assert_args insn 2;
     let nBits = arch_bitsPerWord d;
     mc \<leftarrow> delaySlot mc;
     mc \<leftarrow> (if get_kind insn \<in> {mips_bgezal, mips_bltzal} then do { link \<leftarrow> link_value d insn; ops_writeRegister mc REG_RA link } else Some mc);
     (rs, mc) \<leftarrow> read_arg d insn 0 0 mc;
     (ipValue, mc) \<leftarrow> readRegister1 mc (instructionPointerRegister d);
     zero \<leftarrow> SValue_number nBits 0;
     compare \<leftarrow> (if get_kind insn \<in> {mips_bgez, mips_bgezal} then ops_isSignedGreaterThanOrEqual concrete_ops rs zero
       else if get_kind insn = mips_bgtz then ops_isSignedGreaterThan concrete_ops rs zero
       else if get_kind insn = mips_blez then ops_isSignedLessThanOrEqual concrete_ops rs zero
       else if get_kind insn \<in> {mips_bltz, mips_bltzal} then ops_isSignedLessThan concrete_ops rs zero
       else None);
     (target, mc) \<leftarrow> read_arg d insn 1 0 mc;
     ipValue \<leftarrow> Concrete_ite compare target ipValue;
     ops_writeRegister mc (instructionPointerRegister d) ipValue
   }"

definition IP_break :: insn_processor where
  "IP_break d insn delaySlot mc = do {
     assert_args insn 0;
     yes \<leftarrow> SValue_boolean True;
     raiseInterrupt mc yes
   }"

definition IP_clo :: insn_processor where
  "IP_clo d insn delaySlot mc = do {
     assert_args insn 2;
     (rs, mc) \<leftarrow> read_arg d insn 1 0 mc;
     result \<leftarrow> ops_countLeadingOnes concrete_ops rs;
     write_arg d insn 0 result mc
   }"

definition IP_clz :: insn_processor where
  "IP_clz d insn delaySlot mc = do {
     assert_args insn 2;
     (rs, mc) \<leftarrow> read_arg d insn 1 0 mc;
     result \<leftarrow> ops_countLeadingZeros concrete_ops rs;
     write_arg d insn 0 result mc
   }"

definition IP_div :: insn_processor where
  "IP_div d insn delaySlot mc = do {
     assert_args insn 2;
     (rs, mc) \<leftarrow> read_arg d insn 0 0 mc;
     (rt, mc) \<leftarrow> read_arg d insn 1 0 mc;
     quotient \<leftarrow> Concrete_signedDivide rs rt;
     remainder \<leftarrow> Concrete_signedModulo rs rt;
     mc \<leftarrow> ops_writeRegister mc REG_LO quotient;
     ops_writeRegister mc REG_HI remainder
   }"

definition IP_divu :: insn_processor where
  "IP_divu d insn delaySlot mc = do {
     assert_args insn 2;
     (rs, mc) \<leftarrow> read_arg d insn 0 0 mc;
     (rt, mc) \<leftarrow> read_arg d insn 1 0 mc;
     quotient \<leftarrow> Concrete_unsignedDivide rs rt;
     remainder \<leftarrow> Concrete_unsignedModulo rs rt;
     mc \<leftarrow> ops_writeRegister mc REG_LO quotient;
     ops_writeRegister mc REG_HI remainder
   }"

definition IP_ehb :: insn_processor where
  "IP_ehb d insn delaySlot mc = do {
     assert_args insn 0;
     Some mc
   }"

definition IP_j :: insn_processor where
  "IP_j d insn delaySlot mc = do {
     assert_args insn 1;
     mc \<leftarrow> delaySlot mc;
     mc \<leftarrow> (if get_kind insn = mips_jal \<or> get_kind insn = mips_jalx then do { link \<leftarrow> link_value d insn; ops_writeRegister mc REG_RA link } else Some mc);
     (target, mc) \<leftarrow> read_arg d insn 0 0 mc;
     ops_writeRegister mc (instructionPointerRegister d) target
   }"

definition IP_jalr :: insn_processor where
  "IP_jalr d insn delaySlot mc = do {
     assert_args insn 2;
     mc \<leftarrow> delaySlot mc;
     mc \<leftarrow> (case operands insn ! 0 of
         DirectRegister desc adj t \<Rightarrow> do {
           let reg = (if majorNumber desc = 0 \<and> minorNumber desc = 0 then REG_RA else desc);
           link \<leftarrow> link_value d insn;
           ops_writeRegister mc reg link
         }
       | _ \<Rightarrow> Some mc);
     (temp, mc) \<leftarrow> read_arg d insn 1 0 mc;
     ops_writeRegister mc (instructionPointerRegister d) temp
   }"

definition IP_jr :: insn_processor where
  "IP_jr d insn delaySlot mc = do {
     assert_args insn 1;
     mc \<leftarrow> delaySlot mc;
     (temp, mc) \<leftarrow> read_arg d insn 0 0 mc;
     ops_writeRegister mc (instructionPointerRegister d) temp
   }"

definition IP_lb :: insn_processor where
  "IP_lb d insn delaySlot mc = do {
     assert_args insn 2;
     let nBits = arch_bitsPerWord d;
     (v, mc) \<leftarrow> read_arg d insn 1 0 mc;
     result \<leftarrow> Concrete_signExtend v nBits;
     write_arg d insn 0 result mc
   }"

definition IP_lbu :: insn_processor where
  "IP_lbu d insn delaySlot mc = do {
     assert_args insn 2;
     let nBits = arch_bitsPerWord d;
     (v, mc) \<leftarrow> read_arg d insn 1 0 mc;
     result \<leftarrow> Concrete_unsignedExtend v nBits;
     write_arg d insn 0 result mc
   }"

definition IP_lui :: insn_processor where
  "IP_lui d insn delaySlot mc = do {
     assert_args insn 2;
     let nBits = arch_bitsPerWord d;
     zeros \<leftarrow> SValue_number 16 0;
     (v, mc) \<leftarrow> read_arg d insn 1 0 mc;
     imm \<leftarrow> concatHiLo v zeros;
     result \<leftarrow> Concrete_signExtend imm nBits;
     write_arg d insn 0 result mc
   }"

definition IP_lwc1 :: insn_processor where
  "IP_lwc1 d insn delaySlot mc = do {
     assert_args insn 2;
     (v, mc) \<leftarrow> read_arg d insn 1 0 mc;
     write_arg d insn 0 v mc
   }"

definition IP_lwl :: insn_processor where
  "IP_lwl d insn delaySlot mc = do {
     assert_args insn 2;
     let nBits = arch_bitsPerWord d;
     (rt, mc) \<leftarrow> read_arg d insn 0 0 mc;
     (mem, mc) \<leftarrow> read_arg d insn 1 0 mc;
     (merged, mc) \<leftarrow> mergeRight d insn mc rt mem;
     result \<leftarrow> Concrete_signExtend merged nBits;
     write_arg d insn 0 result mc
   }"

definition IP_lwr :: insn_processor where
  "IP_lwr d insn delaySlot mc = do {
     assert_args insn 2;
     let nBits = arch_bitsPerWord d;
     (rt, mc) \<leftarrow> read_arg d insn 0 0 mc;
     (mem, mc) \<leftarrow> read_arg d insn 1 0 mc;
     (merged, mc) \<leftarrow> mergeRight d insn mc rt mem;
     result \<leftarrow> Concrete_signExtend merged nBits;
     write_arg d insn 0 result mc
   }"

definition IP_lwxc1 :: insn_processor where
  "IP_lwxc1 d insn delaySlot mc = do {
     assert_args insn 2;
     (v, mc) \<leftarrow> read_arg d insn 1 0 mc;
     write_arg d insn 0 v mc
   }"

definition IP_madd :: insn_processor where
  "IP_madd d insn delaySlot mc = do {
     assert_args insn 2;
     let nBits = arch_bitsPerWord d;
     (rs, mc) \<leftarrow> read_arg d insn 0 0 mc;
     (rt, mc) \<leftarrow> read_arg d insn 1 0 mc;
     mult \<leftarrow> Concrete_signedMultiply rs rt;
     (hi, mc) \<leftarrow> readRegister1 mc REG_HI;
     (lo, mc) \<leftarrow> readRegister1 mc REG_LO;
     hilo \<leftarrow> concatHiLo hi lo;
     acc \<leftarrow> Concrete_add hilo mult;
     hi \<leftarrow> Concrete_extract acc 32 64;
     hi \<leftarrow> Concrete_signExtend hi nBits;
     lo \<leftarrow> Concrete_extract acc 0 32;
     lo \<leftarrow> Concrete_signExtend lo nBits;
     mc \<leftarrow> ops_writeRegister mc REG_HI hi;
     ops_writeRegister mc REG_LO lo
   }"

definition IP_maddu :: insn_processor where
  "IP_maddu d insn delaySlot mc = do {
     assert_args insn 2;
     let nBits = arch_bitsPerWord d;
     (rs, mc) \<leftarrow> read_arg d insn 0 0 mc;
     (rt, mc) \<leftarrow> read_arg d insn 1 0 mc;
     mult \<leftarrow> Concrete_unsignedMultiply rs rt;
     (hi, mc) \<leftarrow> readRegister1 mc REG_HI;
     (lo, mc) \<leftarrow> readRegister1 mc REG_LO;
     hilo \<leftarrow> concatHiLo hi lo;
     acc \<leftarrow> Concrete_add hilo mult;
     hi \<leftarrow> Concrete_extract acc 32 64;
     hi \<leftarrow> Concrete_signExtend hi nBits;
     lo \<leftarrow> Concrete_extract acc 0 32;
     lo \<leftarrow> Concrete_signExtend lo nBits;
     mc \<leftarrow> ops_writeRegister mc REG_HI hi;
     ops_writeRegister mc REG_LO lo
   }"

definition IP_mfc0 :: insn_processor where
  "IP_mfc0 d insn delaySlot mc = do {
     assert_args insn 3;
     let nBits = arch_bitsPerWord d;
     (v, mc) \<leftarrow> read_arg d insn 1 0 mc;
     result \<leftarrow> Concrete_signExtend v nBits;
     write_arg d insn 0 result mc
   }"

definition IP_mfc1 :: insn_processor where
  "IP_mfc1 d insn delaySlot mc = do {
     assert_args insn 2;
     let nBits = arch_bitsPerWord d;
     (v, mc) \<leftarrow> read_arg d insn 1 0 mc;
     result \<leftarrow> Concrete_signExtend v nBits;
     write_arg d insn 0 result mc
   }"

definition IP_mfc2 :: insn_processor where
  "IP_mfc2 d insn delaySlot mc = do {
     assert_args insn 2;
     let nBits = arch_bitsPerWord d;
     (v, mc) \<leftarrow> read_arg d insn 1 0 mc;
     result \<leftarrow> Concrete_signExtend v nBits;
     write_arg d insn 0 result mc
   }"

definition IP_mfhi :: insn_processor where
  "IP_mfhi d insn delaySlot mc = do {
     assert_args insn 1;
     if get_kind insn = mips_mfhi then do { (v, mc) \<leftarrow> readRegister1 mc REG_HI; write_arg d insn 0 v mc }
     else if get_kind insn = mips_mthi then do { (v, mc) \<leftarrow> read_arg d insn 0 0 mc; ops_writeRegister mc REG_HI v }
     else Some mc
   }"

definition IP_mflo :: insn_processor where
  "IP_mflo d insn delaySlot mc = do {
     assert_args insn 1;
     if get_kind insn = mips_mflo then do { (v, mc) \<leftarrow> readRegister1 mc REG_LO; write_arg d insn 0 v mc }
     else if get_kind insn = mips_mtlo then do { (v, mc) \<leftarrow> read_arg d insn 0 0 mc; ops_writeRegister mc REG_LO v }
     else Some mc
   }"

definition IP_mov_s :: insn_processor where
  "IP_mov_s d insn delaySlot mc = do {
     assert_args insn 2;
     (fs, mc) \<leftarrow> read_arg d insn 1 0 mc;
     write_arg d insn 0 fs mc
   }"

definition IP_mov_d :: insn_processor where
  "IP_mov_d d insn delaySlot mc = do {
     assert_args insn 2;
     (fs, mc) \<leftarrow> read_arg d insn 1 0 mc;
     write_arg d insn 0 fs mc
   }"

definition IP_mov_ps :: insn_processor where
  "IP_mov_ps d insn delaySlot mc = do {
     assert_args insn 2;
     (fs, mc) \<leftarrow> read_arg d insn 1 0 mc;
     write_arg d insn 0 fs mc
   }"

definition IP_movf :: insn_processor where
  "IP_movf d insn delaySlot mc = do {
     assert_args insn 3;
     (rs, mc) \<leftarrow> read_arg d insn 1 0 mc;
     (cc, mc) \<leftarrow> read_arg d insn 2 0 mc;
     (oldRd, mc) \<leftarrow> read_arg d insn 0 0 mc;
     z \<leftarrow> Concrete_equalToZero cc;
     result \<leftarrow> (if get_kind insn = mips_movf then Concrete_ite z rs oldRd
       else if get_kind insn = mips_movt then Concrete_ite z oldRd rs
       else None);
     write_arg d insn 0 result mc
   }"

definition IP_movf_s :: insn_processor where
  "IP_movf_s d insn delaySlot mc = do {
     assert_args insn 3;
     (fs, mc) \<leftarrow> read_arg d insn 1 0 mc;
     (cc, mc) \<leftarrow> read_arg d insn 2 0 mc;
     (oldFd, mc) \<leftarrow> read_arg d insn 0 0 mc;
     z \<leftarrow> Concrete_equalToZero cc;
     result \<leftarrow> Concrete_ite z fs oldFd;
     write_arg d insn 0 result mc
   }"

definition IP_movf_d :: insn_processor where
  "IP_movf_d d insn delaySlot mc = do {
     assert_args insn 3;
     (fs, mc) \<leftarrow> read_arg d insn 1 0 mc;
     (cc, mc) \<leftarrow> read_arg d insn 2 0 mc;
     (oldFd, mc) \<leftarrow> read_arg d insn 0 0 mc;
     z \<leftarrow> Concrete_equalToZero cc;
     result \<leftarrow> Concrete_ite z fs oldFd;
     write_arg d insn 0 result mc
   }"

definition IP_movf_ps :: insn_processor where
  "IP_movf_ps d insn delaySlot mc = do {
     assert_args insn 3;
     (fs, mc) \<leftarrow> read_arg d insn 1 0 mc;
     (cc, mc) \<leftarrow> read_arg d insn 2 0 mc;
     (oldFd, mc) \<leftarrow> read_arg d insn 0 0 mc;
     z \<leftarrow> Concrete_equalToZero cc;
     result \<leftarrow> Concrete_ite z fs oldFd;
     write_arg d insn 0 result mc
   }"

definition IP_movn :: insn_processor where
  "IP_movn d insn delaySlot mc = do {
     assert_args insn 3;
     (rt, mc) \<leftarrow> read_arg d insn 2 0 mc;
     (rs, mc) \<leftarrow> read_arg d insn 1 0 mc;
     (oldRd, mc) \<leftarrow> read_arg d insn 0 0 mc;
     z \<leftarrow> Concrete_equalToZero rt;
     result \<leftarrow> (if get_kind insn = mips_movz then Concrete_ite z rs oldRd
       else if get_kind insn = mips_movn then Concrete_ite z oldRd rs
       else None);
     write_arg d insn 0 result mc
   }"

definition IP_msub_su :: insn_processor where
  "IP_msub_su d insn delaySlot mc = do {
     assert_args insn 2;
     let nBits = arch_bitsPerWord d;
     (rs, mc) \<leftarrow> read_arg d insn 0 0 mc;
     (rt, mc) \<leftarrow> read_arg d insn 1 0 mc;
     mult \<leftarrow> (if get_kind insn = mips_msub then Concrete_signedMultiply rs rt
       else if get_kind insn = mips_msubu then Concrete_unsignedMultiply rs rt
       else None);
     (hi, mc) \<leftarrow> readRegister1 mc REG_HI;
     (lo, mc) \<leftarrow> readRegister1 mc REG_LO;
     hilo \<leftarrow> concatHiLo hi lo;
     acc \<leftarrow> ops_subtract concrete_ops hilo mult;
     hi \<leftarrow> Concrete_extract acc 32 64;
     hi \<leftarrow> Concrete_signExtend hi nBits;
     lo \<leftarrow> Concrete_extract acc 0 32;
     lo \<leftarrow> Concrete_signExtend lo nBits;
     mc \<leftarrow> ops_writeRegister mc REG_HI hi;
     ops_writeRegister mc REG_LO lo
   }"

definition IP_mul :: insn_processor where
  "IP_mul d insn delaySlot mc = do {
     assert_args insn 3;
     let nBits = arch_bitsPerWord d;
     (rs, mc) \<leftarrow> read_arg d insn 1 0 mc;
     (rt, mc) \<leftarrow> read_arg d insn 2 0 mc;
     smul \<leftarrow> Concrete_signedMultiply rs rt;
     lo \<leftarrow> Concrete_extract smul 0 32;
     loBits \<leftarrow> Concrete_signExtend lo nBits;
     write_arg d insn 0 loBits mc
   }"

definition IP_mult_su :: insn_processor where
  "IP_mult_su d insn delaySlot mc = do {
     assert_args insn 2;
     let nBits = arch_bitsPerWord d;
     (rs, mc) \<leftarrow> read_arg d insn 0 0 mc;
     (rt, mc) \<leftarrow> read_arg d insn 1 0 mc;
     mult \<leftarrow> (if get_kind insn = mips_mult then Concrete_signedMultiply rs rt
       else if get_kind insn = mips_multu then Concrete_unsignedMultiply rs rt
       else None);
     hi \<leftarrow> Concrete_extract mult 32 64;
     hi \<leftarrow> Concrete_signExtend hi nBits;
     lo \<leftarrow> Concrete_extract mult 0 32;
     lo \<leftarrow> Concrete_signExtend lo nBits;
     mc \<leftarrow> ops_writeRegister mc REG_HI hi;
     ops_writeRegister mc REG_LO lo
   }"

definition IP_nop :: insn_processor where
  "IP_nop d insn delaySlot mc = do {
     assert_args insn 0;
     Some mc
   }"

definition IP_nor :: insn_processor where
  "IP_nor d insn delaySlot mc = do {
     assert_args insn 3;
     (rs, mc) \<leftarrow> read_arg d insn 1 0 mc;
     (rt, mc) \<leftarrow> read_arg d insn 2 0 mc;
     v \<leftarrow> Concrete_or rs rt;
     result \<leftarrow> Concrete_invert v;
     write_arg d insn 0 result mc
   }"

definition IP_or :: insn_processor where
  "IP_or d insn delaySlot mc = do {
     assert_args insn 3;
     (rs, mc) \<leftarrow> read_arg d insn 1 0 mc;
     (rt, mc) \<leftarrow> read_arg d insn 2 0 mc;
     result \<leftarrow> Concrete_or rs rt;
     write_arg d insn 0 result mc
   }"

definition IP_ori :: insn_processor where
  "IP_ori d insn delaySlot mc = do {
     assert_args insn 3;
     let nBits = arch_bitsPerWord d;
     (rs, mc) \<leftarrow> read_arg d insn 1 0 mc;
     (imm, mc) \<leftarrow> read_arg d insn 2 0 mc;
     imm \<leftarrow> Concrete_unsignedExtend imm nBits;
     result \<leftarrow> Concrete_or rs imm;
     write_arg d insn 0 result mc
   }"

definition IP_rdhwr :: insn_processor where
  "IP_rdhwr d insn delaySlot mc = do {
     assert_args insn 2;
     (hwr, mc) \<leftarrow> read_arg d insn 1 0 mc;
     write_arg d insn 0 hwr mc
   }"

definition IP_rotate :: insn_processor where
  "IP_rotate d insn delaySlot mc = do {
     assert_args insn 3;
     let nBits = arch_bitsPerWord d;
     (rt, mc) \<leftarrow> read_arg d insn 1 0 mc;
     low32rt \<leftarrow> Concrete_extract rt 0 32;
     (sa, mc) \<leftarrow> read_arg d insn 2 0 mc;
     sa \<leftarrow> (if get_kind insn = mips_rotr then Some sa
       else if get_kind insn = mips_rotrv then Concrete_extract sa 0 5
       else None);
     result \<leftarrow> Concrete_rotateRight low32rt sa;
     result \<leftarrow> Concrete_signExtend result nBits;
     write_arg d insn 0 result mc
   }"

definition store_width :: "mips_kind \<Rightarrow> nat option" where
  "store_width k =
     (if k \<in> {mips_sb, mips_sbe} then Some 8
      else if k = mips_sdc1 then Some 64
      else if k \<in> {mips_sh, mips_she} then Some 16
      else if k \<in> {mips_sw, mips_swc1, mips_swc2, mips_swe, mips_swxc1} then Some 32
      else if k = mips_suxc1 then Some 64
      else None)"

definition IP_store :: insn_processor where
  "IP_store d insn delaySlot mc = do {
     assert_args insn 2;
     nBits \<leftarrow> store_width (get_kind insn);
     (result, mc) \<leftarrow> read_arg d insn 0 nBits mc;
     write_arg d insn 1 result mc
   }"

definition IP_seb :: insn_processor where
  "IP_seb d insn delaySlot mc = do {
     assert_args insn 2;
     let nBits = arch_bitsPerWord d;
     (v, mc) \<leftarrow> read_arg d insn 1 8 mc;
     byte \<leftarrow> Concrete_signExtend v nBits;
     write_arg d insn 0 byte mc
   }"

definition IP_seh :: insn_processor where
  "IP_seh d insn delaySlot mc = do {
     assert_args insn 2;
     let nBits = arch_bitsPerWord d;
     (v, mc) \<leftarrow> read_arg d insn 1 16 mc;
     halfWord \<leftarrow> Concrete_signExtend v nBits;
     write_arg d insn 0 halfWord mc
   }"

definition IP_shift :: insn_processor where
  "IP_shift d insn delaySlot mc = do {
     assert_args insn 3;
     let nBits = arch_bitsPerWord d;
     (sa, mc) \<leftarrow> read_arg d insn 2 0 mc;
     (rt, mc) \<leftarrow> read_arg d insn 1 0 mc;
     low32rt \<leftarrow> Concrete_extract rt 0 32;
     result \<leftarrow> (if get_kind insn = mips_sll then Concrete_shiftLeft low32rt sa
       else if get_kind insn = mips_srl then Concrete_shiftRight low32rt sa
       else if get_kind insn = mips_sra then Concrete_shiftRightArithmetic low32rt sa
       else None);
     result \<leftarrow> Concrete_signExtend result nBits;
     write_arg d insn 0 result mc
   }"

definition IP_shiftv :: insn_processor where
  "IP_shiftv d insn delaySlot mc = do {
     assert_args insn 3;
     let nBits = arch_bitsPerWord d;
     (sa, mc) \<leftarrow> read_arg d insn 2 0 mc;
     low5sa \<leftarrow> Concrete_extract sa 0 5;
     (rt, mc) \<leftarrow> read_arg d insn 1 0 mc;
     low32rt \<leftarrow> Concrete_extract rt 0 32;
     result \<leftarrow> (if get_kind insn = mips_sllv then Concrete_shiftLeft low32rt low5sa
       else if get_kind insn = mips_srlv then Concrete_shiftRight low32rt low5sa
       else if get_kind insn = mips_srav then Concrete_shiftRightArithmetic low32rt low5sa
       else None);
     result \<leftarrow> Concrete_signExtend result nBits;
     write_arg d insn 0 result mc
   }"

definition IP_slt_su :: insn_processor where
  "IP_slt_su d insn delaySlot mc = do {
     assert_args insn 3;
     let nBits = arch_bitsPerWord d;
     (rs, mc) \<leftarrow> read_arg d insn 1 0 mc;
     (rt, mc) \<leftarrow> read_arg d insn 2 0 mc;
     compare \<leftarrow> (if get_kind insn = mips_slt then ops_isSignedLessThan concrete_ops rs rt
       else if get_kind insn = mips_sltu then ops_isUnsignedLessThan concrete_ops rs rt
       else None);
     zeros \<leftarrow> SValue_number (nBits - 1) 0;
     result \<leftarrow> concatHiLo zeros compare;
     write_arg d insn 0 result mc
   }"

definition IP_slti_su :: insn_processor where
  "IP_slti_su d insn delaySlot mc = do {
     assert_args insn 3;
     let nBits = arch_bitsPerWord d;
     (rs, mc) \<leftarrow> read_arg d insn 1 0 mc;
     (imm, mc) \<leftarrow> read_arg d insn 2 0 mc;
     imm \<leftarrow> Concrete_signExtend imm nBits;
     compare \<leftarrow> (if get_kind insn = mips_slti then ops_isSignedLessThan concrete_ops rs imm
       else if get_kind insn = mips_sltiu then ops_isUnsignedLessThan concrete_ops rs imm
       else None);
     zeros \<leftarrow> SValue_number (nBits - 1) 0;
     result \<leftarrow> concatHiLo zeros compare;
     write_arg d insn 0 result mc
   }"

definition IP_sub :: insn_processor where
  "IP_sub d insn delaySlot mc = do {
     assert_args insn 3;
     let nBits = arch_bitsPerWord d;
     (rs, mc) \<leftarrow> read_arg d insn 1 0 mc;
     (rt, mc) \<leftarrow> read_arg d insn 2 0 mc;
     sum \<leftarrow> ops_subtract concrete_ops rs rt;
     (rs2, mc) \<leftarrow> read_arg d insn 1 0 mc;
     wideRs \<leftarrow> Concrete_signExtend rs2 (nBits + 1);
     (rt2, mc) \<leftarrow> read_arg d insn 2 0 mc;
     wideRt \<leftarrow> Concrete_signExtend rt2 (nBits + 1);
     wideSum \<leftarrow> ops_subtract concrete_ops wideRs wideRt;
     wideSum32 \<leftarrow> Concrete_extract wideSum 32 33;
     wideSum31 \<leftarrow> Concrete_extract wideSum 31 32;
     overflow \<leftarrow> ops_isNotEqual concrete_ops wideSum31 wideSum32;
     (oldRd, mc) \<leftarrow> read_arg d insn 0 nBits mc;
     result \<leftarrow> Concrete_ite overflow oldRd sum;
     mc \<leftarrow> write_arg d insn 0 result mc;
     raiseInterrupt mc overflow
   }"

definition IP_subu :: insn_processor where
  "IP_subu d insn delaySlot mc = do {
     assert_args insn 3;
     (rs, mc) \<leftarrow> read_arg d insn 1 0 mc;
     (rt, mc) \<leftarrow> read_arg d insn 2 0 mc;
     result \<leftarrow> ops_subtract concrete_ops rs rt;
     write_arg d insn 0 result mc
   }"

definition IP_xor :: insn_processor where
  "IP_xor d insn delaySlot mc = do {
     assert_args insn 3;
     (rs, mc) \<leftarrow> read_arg d insn 1 0 mc;
     (rt, mc) \<leftarrow> read_arg d insn 2 0 mc;
     result \<leftarrow> Concrete_xor rs rt;
     write_arg d insn 0 result mc
   }"

definition IP_xori :: insn_processor where
  "IP_xori d insn delaySlot mc = do {
     assert_args insn 3;
     let nBits = arch_bitsPerWord d;
     (rs, mc) \<leftarrow> read_arg d insn 1 0 mc;
     (imm, mc) \<leftarrow> read_arg d insn 2 0 mc;
     imm \<leftarrow> Concrete_unsignedExtend imm nBits;
     result \<leftarrow> Concrete_xor rs imm;
     write_arg d insn 0 result mc
   }"

section \<open>Dispatch\<close>

text \<open>
  The table of functors, indexed by the instruction kind. An index beyond the end of the vector reads
  as a null pointer, so that the vector is the function from indices to functors.
\<close>

type_synonym iproc_table = "nat \<Rightarrow> insn_processor option"

definition iprocSet :: "nat \<Rightarrow> insn_processor \<Rightarrow> iproc_table \<Rightarrow> iproc_table" where
  "iprocSet key iproc table = table(key := Some iproc)"

definition iprocGet :: "iproc_table \<Rightarrow> nat \<Rightarrow> insn_processor option" where
  "iprocGet table key = table key"

text \<open>The calls of \<^verbatim>\<open>iprocSet\<close>, in order.\<close>

definition dispatch_entries :: "(mips_kind \<times> insn_processor) list" where
  "dispatch_entries =
     [(mips_add, IP_add),
      (mips_addi, IP_addi),
      (mips_addiu, IP_addiu),
      (mips_addu, IP_addu),
      (mips_and, IP_and),
      (mips_andi, IP_andi),
      (mips_b, IP_b),
      (mips_bal, IP_b),
      (mips_beq, IP_beq),
      (mips_bgez, IP_bgez),
      (mips_bgezal, IP_bgez),
      (mips_bgtz, IP_bgez),
      (mips_blez, IP_bgez),
      (mips_bltz, IP_bgez),
      (mips_bltzal, IP_bgez),
      (mips_bne, IP_beq),
      (mips_break, IP_break),
      (mips_clo, IP_clo),
      (mips_clz, IP_clz),
      (mips_div, IP_div),
      (mips_divu, IP_divu),
      (mips_ehb, IP_ehb),
      (mips_j, IP_j),
      (mips_jal, IP_j),
      (mips_jalr, IP_jalr),
      (mips_jalr_hb, IP_jalr),
      (mips_jalx, IP_j),
      (mips_jr, IP_jr),
      (mips_jr_hb, IP_jr),
      (mips_lb, IP_lb),
      (mips_lbe, IP_lb),
      (mips_lbu, IP_lbu),
      (mips_lbue, IP_lbu),
      (mips_lh, IP_lb),
      (mips_lhe, IP_lb),
      (mips_lhu, IP_lbu),
      (mips_lhue, IP_lbu),
      (mips_lui, IP_lui),
      (mips_lw, IP_lb),
      (mips_lwc1, IP_lwc1),
      (mips_lwe, IP_lb),
      (mips_lwl, IP_lwl),
      (mips_lwr, IP_lwr),
      (mips_madd, IP_madd),
      (mips_maddu, IP_maddu),
      (mips_mfc0, IP_mfc0),
      (mips_mfc1, IP_mfc1),
      (mips_mfc2, IP_mfc2),
      (mips_mfhi, IP_mfhi),
      (mips_mflo, IP_mflo),
      (mips_mov_s, IP_mov_s),
      (mips_mov_d, IP_mov_d),
      (mips_mov_ps, IP_mov_ps),
      (mips_movf, IP_movf),
      (mips_movf_s, IP_movf_s),
      (mips_movf_d, IP_movf_d),
      (mips_movf_ps, IP_movf_ps),
      (mips_movn, IP_movn),
      (mips_movt, IP_movf),
      (mips_movz, IP_movn),
      (mips_msub, IP_msub_su),
      (mips_msubu, IP_msub_su),
      (mips_mthi, IP_mfhi),
      (mips_mtlo, IP_mflo),
      (mips_mul, IP_mul),
      (mips_mult, IP_mult_su),
      (mips_multu, IP_mult_su),
      (mips_nop, IP_nop),
      (mips_nor, IP_nor),
      (mips_or, IP_or),
      (mips_ori, IP_ori),
      (mips_rdhwr, IP_rdhwr),
      (mips_rotr, IP_rotate),
      (mips_rotrv, IP_rotate),
      (mips_sb, IP_store),
      (mips_sbe, IP_store),
      (mips_sdc1, IP_store),
      (mips_seb, IP_seb),
      (mips_seh, IP_seh),
      (mips_sh, IP_store),
      (mips_she, IP_store),
      (mips_sll, IP_shift),
      (mips_sllv, IP_shiftv),
      (mips_sra, IP_shift),
      (mips_srav, IP_shiftv),
      (mips_srl, IP_shift),
      (mips_srlv, IP_shiftv),
      (mips_slt, IP_slt_su),
      (mips_sltu, IP_slt_su),
      (mips_slti, IP_slti_su),
      (mips_sltiu, IP_slti_su),
      (mips_ssnop, IP_nop),
      (mips_sub, IP_sub),
      (mips_subu, IP_subu),
      (mips_suxc1, IP_store),
      (mips_sw, IP_store),
      (mips_swc1, IP_store),
      (mips_swc2, IP_store),
      (mips_swe, IP_store),
      (mips_swxc1, IP_store),
      (mips_xor, IP_xor),
      (mips_xori, IP_xori)]"

definition initializeDispatchTable :: iproc_table where
  "initializeDispatchTable = fold (\<lambda>(key, iproc). iprocSet key iproc) dispatch_entries (\<lambda>key. None)"

definition iprocLookup :: "mips_kind \<Rightarrow> insn_processor option" where
  "iprocLookup k = iprocGet initializeDispatchTable k"

text \<open>The part of \<^verbatim>\<open>P::process\<close> before the functor proper: the program counter is moved first.\<close>

definition P_process :: "insn_processor \<Rightarrow> insn_processor" where
  "P_process p d insn delaySlot mc = do {
     mc \<leftarrow> advanceInstructionPointer d mc (get_address insn) (get_size insn);
     p d insn delaySlot mc
   }"

text \<open>
  \<^verbatim>\<open>processCommon\<close> and \<^verbatim>\<open>processDelaySlot\<close>. The delay slot action that a functor may call is the
  processing of the instruction in the slot; an instruction of the control transfer kind there raises
  an interrupt first and is processed all the same.
\<close>

fun processCommon :: "dispatcher \<Rightarrow> mips_insn \<Rightarrow> machine \<Rightarrow> machine option" where
  "processCommon d (Insn k addr sz args None) mc =
     (case iprocLookup k of
        None \<Rightarrow> None
      | Some p \<Rightarrow> P_process p d (Insn k addr sz args None) (\<lambda>mc. None) mc)"
| "processCommon d (Insn k addr sz args (Some inner)) mc =
     (case iprocLookup k of
        None \<Rightarrow> None
      | Some p \<Rightarrow> P_process p d (Insn k addr sz args (Some inner)) (\<lambda>mc. do {
          raise \<leftarrow> SValue_boolean (isControlTransfer (get_kind inner));
          mc \<leftarrow> raiseInterrupt mc raise;
          processCommon d inner mc
        }) mc)"

definition processInstruction :: "dispatcher \<Rightarrow> mips_insn \<Rightarrow> machine \<Rightarrow> machine option" where
  "processInstruction d insn mc = processCommon d insn mc"

text \<open>Running a straight list of instructions.\<close>

fun processInstructions :: "dispatcher \<Rightarrow> mips_insn list \<Rightarrow> machine \<Rightarrow> machine option" where
  "processInstructions d [] mc = Some mc"
| "processInstructions d (insn # insns) mc = do {
     mc \<leftarrow> processInstruction d insn mc;
     processInstructions d insns mc
   }"

end
