(* ===== verification/Operand_Types.thy ===== *)
theory Operand_Types
  imports Mips_Dispatcher
begin

text \<open>
  Widths as types: the values that the dispatcher computes for the operands of an instruction are as wide
  as the caller asked, whatever the shape of the expression and the content of the machine.
\<close>

section \<open>Widths of the operators that resize\<close>

lemma svalueNumber_width: "svalueNumber bits = Some v \<Longrightarrow> sv_width v = bv_size bits"
  by (auto simp: svalueNumber_def SValue_number_def SValue_bits_def require_def bind_eq_Some_conv split: if_split_asm)

lemma SValue_number_width: "SValue_number n k = Some v \<Longrightarrow> sv_width v = n"
  by (auto simp: SValue_number_def bind_eq_Some_conv)

lemma BitVector_resize_size: "BitVector_resize b n x = Some b' \<Longrightarrow> bv_size b' = n"
  by (auto simp: BitVector_resize_def Let_def bind_eq_Some_conv split: if_split_asm)

lemma on_words_size: "on_words b r = Some b' \<Longrightarrow> bv_size b' = bv_size b"
  by (auto simp: on_words_def)

lemma unsignedExtend_width: "Concrete_unsignedExtend v n = Some w \<Longrightarrow> sv_width w = n"
  by (auto simp: Concrete_unsignedExtend_def bind_eq_Some_conv dest!: svalueNumber_width BitVector_resize_size)

lemma signExtend_width: "Concrete_signExtend v n = Some w \<Longrightarrow> sv_width w = n"
  by (auto simp: Concrete_signExtend_def BitVector_signExtend_def on_words2_def BitVector_new_def bind_eq_Some_conv
      dest!: svalueNumber_width BitVector_resize_size)

lemma extract_width: "Concrete_extract v i j = Some w \<Longrightarrow> sv_width w = j - i"
  by (auto simp: Concrete_extract_def BitVector_copy_def BitVector_new_def bind_eq_Some_conv split: if_split_asm
      dest!: svalueNumber_width BitVector_resize_size on_words_size)

section \<open>Widths of operands\<close>

lemma fit_value_width: "fit_value v n = Some w \<Longrightarrow> sv_width w = n"
  by (auto simp: fit_value_def unsignedExtend_width split: if_split_asm)

lemma fit_address_width: "fit_address v n = Some w \<Longrightarrow> sv_width w = n"
  by (auto simp: fit_address_def signExtend_width dest: extract_width split: if_split_asm)

lemma read_of_width:
  "read_of1 r mc n = Some (v, mc') \<Longrightarrow> sv_width v = n"
  "read_of2 f x y mc n = Some (v, mc') \<Longrightarrow> sv_width v = n"
  "address_of1 r mc n = Some (v, mc') \<Longrightarrow> sv_width v = n"
  "address_of2 f x y mc n = Some (v, mc') \<Longrightarrow> sv_width v = n"
  by (auto simp: read_of1_def read_of2_def address_of1_def address_of2_def fit_value_width fit_address_width bind_eq_Some_conv)

lemma value_width_given: "0 < n \<Longrightarrow> value_width e n = Some n"
  by (simp add: value_width_def)

lemma read_register_width:
  assumes "0 < n" "read_register (Mips32 bo ar) mc e n = Some (v, mc')"
  shows "sv_width v = n"
  using assms by (cases e) (auto simp: Mips32_def value_width_given bind_eq_Some_conv fit_value_width SValue_number_width split: if_split_asm)

lemma read_width: "0 < n \<Longrightarrow> Dispatcher_read (Mips32 bo ar) mc e n a = Some (v, mc') \<Longrightarrow> sv_width v = n"
proof (induction e arbitrary: mc n a v mc')
  case (DirectRegister desc adj t)
  then show ?case using read_register_width by (simp only: Dispatcher_read.simps)
next
  case (IndirectRegister desc adj stride offset index modulus t)
  then show ?case using read_register_width by (simp only: Dispatcher_read.simps)
next
  case (BinaryPreupdate l r t)
  from BinaryPreupdate.prems(2) have "Dispatcher_read (Mips32 bo ar) mc l n a = Some (v, mc')"
    by (simp add: value_width_given [OF BinaryPreupdate.prems(1)] del: read_register.simps)
  with BinaryPreupdate show ?case by blast
next
  case (BinaryPostupdate l r t)
  from BinaryPostupdate.prems(2) have "Dispatcher_read (Mips32 bo ar) mc l n a = Some (v, mc')"
    by (simp add: value_width_given [OF BinaryPostupdate.prems(1)] del: read_register.simps)
  with BinaryPostupdate show ?case by blast
qed (simp_all add: value_width_given, (auto simp: bind_eq_Some_conv dest: read_of_width split: if_split_asm)+)

lemma address_width: "effectiveAddress (Mips32 bo ar) mc e n = Some (v, mc') \<Longrightarrow> sv_width v = addr_nbits (Mips32 bo ar) n"
  by (cases e) (auto simp: bind_eq_Some_conv dest: read_of_width simp del: read_register.simps)

text \<open>
  C24. Operands are well typed: a value read with a given width has that width, and an effective address
  has the width asked for, or the 32 bits of an address when none is given, which is what the tests of the
  address's width in reads and writes of memory demand.
\<close>

theorem operand_types:
  "(0 < n \<and> Dispatcher_read (Mips32 bo ar) mc e n a = Some (v, mc') \<longrightarrow> sv_width v = n) \<and>
   (effectiveAddress (Mips32 bo ar) mc e n = Some (v, mc') \<longrightarrow> sv_width v = (if n = 0 then addressWidth (Mips32 bo ar) else n))"
  using read_width address_width [of bo ar mc e n v mc'] by (auto simp: addr_nbits_def)

theorem operand_types_witness:
  "\<exists>v. Dispatcher_read (Mips32 ORDER_LSB True) sample_machine (DirectRegister REG_ZERO 0 32) 8 0 = Some (v, sample_machine) \<and> sv_width v = 8"
proof -
  from SValue_number_is [of 8 0] obtain v where "SValue_number 8 0 = Some v" by (auto elim: succeedsE)
  then have r: "Dispatcher_read (Mips32 ORDER_LSB True) sample_machine (DirectRegister REG_ZERO 0 32) 8 0 = Some (v, sample_machine)"
    by (simp add: Mips32_def)
  with operand_types [of 8 ORDER_LSB True sample_machine "DirectRegister REG_ZERO 0 32" 0 v sample_machine] show ?thesis by auto
qed

end
