(* ===== verification/Mips_Makers.thy ===== *)
theory Mips_Makers
  imports Mips_Dispatcher
begin

text \<open>
  The parts from which the MIPS disassembler builds instructions
  (\<^verbatim>\<open>Rose/BinaryAnalysis/Disassembler/Mips.C\<close>): the fields of an instruction word, the register
  dictionary of the architecture, and the functions that make operands and instructions. The value
  \<open>None\<close> of a function that makes an operand is a thrown exception. The type of an expression is its
  width, and the position of an immediate within the instruction word is not kept.
\<close>

unbundle bit_operations_syntax

section \<open>Kinds of instructions\<close>

text \<open>The members of the enumeration that have no functor.\<close>

abbreviation (input) mips_unknown_instruction :: mips_kind where "mips_unknown_instruction \<equiv> 0"
abbreviation (input) mips_abs_s :: mips_kind where "mips_abs_s \<equiv> 1"
abbreviation (input) mips_abs_d :: mips_kind where "mips_abs_d \<equiv> 2"
abbreviation (input) mips_abs_ps :: mips_kind where "mips_abs_ps \<equiv> 3"
abbreviation (input) mips_add_s :: mips_kind where "mips_add_s \<equiv> 5"
abbreviation (input) mips_add_d :: mips_kind where "mips_add_d \<equiv> 6"
abbreviation (input) mips_add_ps :: mips_kind where "mips_add_ps \<equiv> 7"
abbreviation (input) mips_alnv_ps :: mips_kind where "mips_alnv_ps \<equiv> 11"
abbreviation (input) mips_c_f_s :: mips_kind where "mips_c_f_s \<equiv> 41"
abbreviation (input) mips_c_un_s :: mips_kind where "mips_c_un_s \<equiv> 42"
abbreviation (input) mips_c_eq_s :: mips_kind where "mips_c_eq_s \<equiv> 43"
abbreviation (input) mips_c_ueq_s :: mips_kind where "mips_c_ueq_s \<equiv> 44"
abbreviation (input) mips_c_olt_s :: mips_kind where "mips_c_olt_s \<equiv> 45"
abbreviation (input) mips_c_ult_s :: mips_kind where "mips_c_ult_s \<equiv> 46"
abbreviation (input) mips_c_ole_s :: mips_kind where "mips_c_ole_s \<equiv> 47"
abbreviation (input) mips_c_ule_s :: mips_kind where "mips_c_ule_s \<equiv> 48"
abbreviation (input) mips_c_sf_s :: mips_kind where "mips_c_sf_s \<equiv> 49"
abbreviation (input) mips_c_ngle_s :: mips_kind where "mips_c_ngle_s \<equiv> 50"
abbreviation (input) mips_c_seq_s :: mips_kind where "mips_c_seq_s \<equiv> 51"
abbreviation (input) mips_c_ngl_s :: mips_kind where "mips_c_ngl_s \<equiv> 52"
abbreviation (input) mips_c_lt_s :: mips_kind where "mips_c_lt_s \<equiv> 53"
abbreviation (input) mips_c_nge_s :: mips_kind where "mips_c_nge_s \<equiv> 54"
abbreviation (input) mips_c_le_s :: mips_kind where "mips_c_le_s \<equiv> 55"
abbreviation (input) mips_c_ngt_s :: mips_kind where "mips_c_ngt_s \<equiv> 56"
abbreviation (input) mips_c_f_d :: mips_kind where "mips_c_f_d \<equiv> 57"
abbreviation (input) mips_c_un_d :: mips_kind where "mips_c_un_d \<equiv> 58"
abbreviation (input) mips_c_eq_d :: mips_kind where "mips_c_eq_d \<equiv> 59"
abbreviation (input) mips_c_ueq_d :: mips_kind where "mips_c_ueq_d \<equiv> 60"
abbreviation (input) mips_c_olt_d :: mips_kind where "mips_c_olt_d \<equiv> 61"
abbreviation (input) mips_c_ult_d :: mips_kind where "mips_c_ult_d \<equiv> 62"
abbreviation (input) mips_c_ole_d :: mips_kind where "mips_c_ole_d \<equiv> 63"
abbreviation (input) mips_c_ule_d :: mips_kind where "mips_c_ule_d \<equiv> 64"
abbreviation (input) mips_c_sf_d :: mips_kind where "mips_c_sf_d \<equiv> 65"
abbreviation (input) mips_c_ngle_d :: mips_kind where "mips_c_ngle_d \<equiv> 66"
abbreviation (input) mips_c_seq_d :: mips_kind where "mips_c_seq_d \<equiv> 67"
abbreviation (input) mips_c_ngl_d :: mips_kind where "mips_c_ngl_d \<equiv> 68"
abbreviation (input) mips_c_lt_d :: mips_kind where "mips_c_lt_d \<equiv> 69"
abbreviation (input) mips_c_nge_d :: mips_kind where "mips_c_nge_d \<equiv> 70"
abbreviation (input) mips_c_le_d :: mips_kind where "mips_c_le_d \<equiv> 71"
abbreviation (input) mips_c_ngt_d :: mips_kind where "mips_c_ngt_d \<equiv> 72"
abbreviation (input) mips_c_f_ps :: mips_kind where "mips_c_f_ps \<equiv> 73"
abbreviation (input) mips_c_un_ps :: mips_kind where "mips_c_un_ps \<equiv> 74"
abbreviation (input) mips_c_eq_ps :: mips_kind where "mips_c_eq_ps \<equiv> 75"
abbreviation (input) mips_c_ueq_ps :: mips_kind where "mips_c_ueq_ps \<equiv> 76"
abbreviation (input) mips_c_olt_ps :: mips_kind where "mips_c_olt_ps \<equiv> 77"
abbreviation (input) mips_c_ult_ps :: mips_kind where "mips_c_ult_ps \<equiv> 78"
abbreviation (input) mips_c_ole_ps :: mips_kind where "mips_c_ole_ps \<equiv> 79"
abbreviation (input) mips_c_ule_ps :: mips_kind where "mips_c_ule_ps \<equiv> 80"
abbreviation (input) mips_c_sf_ps :: mips_kind where "mips_c_sf_ps \<equiv> 81"
abbreviation (input) mips_c_ngle_ps :: mips_kind where "mips_c_ngle_ps \<equiv> 82"
abbreviation (input) mips_c_seq_ps :: mips_kind where "mips_c_seq_ps \<equiv> 83"
abbreviation (input) mips_c_ngl_ps :: mips_kind where "mips_c_ngl_ps \<equiv> 84"
abbreviation (input) mips_c_lt_ps :: mips_kind where "mips_c_lt_ps \<equiv> 85"
abbreviation (input) mips_c_nge_ps :: mips_kind where "mips_c_nge_ps \<equiv> 86"
abbreviation (input) mips_c_le_ps :: mips_kind where "mips_c_le_ps \<equiv> 87"
abbreviation (input) mips_c_ngt_ps :: mips_kind where "mips_c_ngt_ps \<equiv> 88"
abbreviation (input) mips_cache :: mips_kind where "mips_cache \<equiv> 89"
abbreviation (input) mips_cachee :: mips_kind where "mips_cachee \<equiv> 90"
abbreviation (input) mips_ceil_l_s :: mips_kind where "mips_ceil_l_s \<equiv> 91"
abbreviation (input) mips_ceil_l_d :: mips_kind where "mips_ceil_l_d \<equiv> 92"
abbreviation (input) mips_ceil_w_s :: mips_kind where "mips_ceil_w_s \<equiv> 93"
abbreviation (input) mips_ceil_w_d :: mips_kind where "mips_ceil_w_d \<equiv> 94"
abbreviation (input) mips_cfc1 :: mips_kind where "mips_cfc1 \<equiv> 95"
abbreviation (input) mips_cfc2 :: mips_kind where "mips_cfc2 \<equiv> 96"
abbreviation (input) mips_cop2 :: mips_kind where "mips_cop2 \<equiv> 99"
abbreviation (input) mips_ctc1 :: mips_kind where "mips_ctc1 \<equiv> 100"
abbreviation (input) mips_ctc2 :: mips_kind where "mips_ctc2 \<equiv> 101"
abbreviation (input) mips_cvt_d_s :: mips_kind where "mips_cvt_d_s \<equiv> 102"
abbreviation (input) mips_cvt_d_w :: mips_kind where "mips_cvt_d_w \<equiv> 103"
abbreviation (input) mips_cvt_d_l :: mips_kind where "mips_cvt_d_l \<equiv> 104"
abbreviation (input) mips_cvt_l_s :: mips_kind where "mips_cvt_l_s \<equiv> 105"
abbreviation (input) mips_cvt_l_d :: mips_kind where "mips_cvt_l_d \<equiv> 106"
abbreviation (input) mips_cvt_ps_s :: mips_kind where "mips_cvt_ps_s \<equiv> 107"
abbreviation (input) mips_cvt_s_d :: mips_kind where "mips_cvt_s_d \<equiv> 108"
abbreviation (input) mips_cvt_s_w :: mips_kind where "mips_cvt_s_w \<equiv> 109"
abbreviation (input) mips_cvt_s_l :: mips_kind where "mips_cvt_s_l \<equiv> 110"
abbreviation (input) mips_cvt_s_pl :: mips_kind where "mips_cvt_s_pl \<equiv> 111"
abbreviation (input) mips_cvt_s_pu :: mips_kind where "mips_cvt_s_pu \<equiv> 112"
abbreviation (input) mips_cvt_w_s :: mips_kind where "mips_cvt_w_s \<equiv> 113"
abbreviation (input) mips_cvt_w_d :: mips_kind where "mips_cvt_w_d \<equiv> 114"
abbreviation (input) mips_di :: mips_kind where "mips_di \<equiv> 115"
abbreviation (input) mips_div_s :: mips_kind where "mips_div_s \<equiv> 117"
abbreviation (input) mips_div_d :: mips_kind where "mips_div_d \<equiv> 118"
abbreviation (input) mips_ei :: mips_kind where "mips_ei \<equiv> 121"
abbreviation (input) mips_ext :: mips_kind where "mips_ext \<equiv> 123"
abbreviation (input) mips_floor_l_s :: mips_kind where "mips_floor_l_s \<equiv> 124"
abbreviation (input) mips_floor_l_d :: mips_kind where "mips_floor_l_d \<equiv> 125"
abbreviation (input) mips_floor_w_s :: mips_kind where "mips_floor_w_s \<equiv> 126"
abbreviation (input) mips_floor_w_d :: mips_kind where "mips_floor_w_d \<equiv> 127"
abbreviation (input) mips_ins :: mips_kind where "mips_ins \<equiv> 128"
abbreviation (input) mips_ldc1 :: mips_kind where "mips_ldc1 \<equiv> 140"
abbreviation (input) mips_ldc2 :: mips_kind where "mips_ldc2 \<equiv> 141"
abbreviation (input) mips_ldxc1 :: mips_kind where "mips_ldxc1 \<equiv> 142"
abbreviation (input) mips_ll :: mips_kind where "mips_ll \<equiv> 147"
abbreviation (input) mips_lle :: mips_kind where "mips_lle \<equiv> 148"
abbreviation (input) mips_luxc1 :: mips_kind where "mips_luxc1 \<equiv> 150"
abbreviation (input) mips_lwc2 :: mips_kind where "mips_lwc2 \<equiv> 153"
abbreviation (input) mips_lwle :: mips_kind where "mips_lwle \<equiv> 156"
abbreviation (input) mips_lwre :: mips_kind where "mips_lwre \<equiv> 158"
abbreviation (input) mips_lwu :: mips_kind where "mips_lwu \<equiv> 159"
abbreviation (input) mips_lwxc1 :: mips_kind where "mips_lwxc1 \<equiv> 160"
abbreviation (input) mips_madd_s :: mips_kind where "mips_madd_s \<equiv> 162"
abbreviation (input) mips_madd_d :: mips_kind where "mips_madd_d \<equiv> 163"
abbreviation (input) mips_madd_ps :: mips_kind where "mips_madd_ps \<equiv> 164"
abbreviation (input) mips_mfhc1 :: mips_kind where "mips_mfhc1 \<equiv> 169"
abbreviation (input) mips_mfhc2 :: mips_kind where "mips_mfhc2 \<equiv> 170"
abbreviation (input) mips_movn_s :: mips_kind where "mips_movn_s \<equiv> 181"
abbreviation (input) mips_movn_d :: mips_kind where "mips_movn_d \<equiv> 182"
abbreviation (input) mips_movn_ps :: mips_kind where "mips_movn_ps \<equiv> 183"
abbreviation (input) mips_movt_s :: mips_kind where "mips_movt_s \<equiv> 185"
abbreviation (input) mips_movt_d :: mips_kind where "mips_movt_d \<equiv> 186"
abbreviation (input) mips_movt_ps :: mips_kind where "mips_movt_ps \<equiv> 187"
abbreviation (input) mips_movz_s :: mips_kind where "mips_movz_s \<equiv> 189"
abbreviation (input) mips_movz_d :: mips_kind where "mips_movz_d \<equiv> 190"
abbreviation (input) mips_movz_ps :: mips_kind where "mips_movz_ps \<equiv> 191"
abbreviation (input) mips_msub_s :: mips_kind where "mips_msub_s \<equiv> 193"
abbreviation (input) mips_msub_d :: mips_kind where "mips_msub_d \<equiv> 194"
abbreviation (input) mips_msub_ps :: mips_kind where "mips_msub_ps \<equiv> 195"
abbreviation (input) mips_mtc0 :: mips_kind where "mips_mtc0 \<equiv> 197"
abbreviation (input) mips_mtc1 :: mips_kind where "mips_mtc1 \<equiv> 198"
abbreviation (input) mips_mtc2 :: mips_kind where "mips_mtc2 \<equiv> 199"
abbreviation (input) mips_mthc1 :: mips_kind where "mips_mthc1 \<equiv> 200"
abbreviation (input) mips_mthc2 :: mips_kind where "mips_mthc2 \<equiv> 201"
abbreviation (input) mips_mul_s :: mips_kind where "mips_mul_s \<equiv> 205"
abbreviation (input) mips_mul_d :: mips_kind where "mips_mul_d \<equiv> 206"
abbreviation (input) mips_mul_ps :: mips_kind where "mips_mul_ps \<equiv> 207"
abbreviation (input) mips_neg_s :: mips_kind where "mips_neg_s \<equiv> 210"
abbreviation (input) mips_neg_d :: mips_kind where "mips_neg_d \<equiv> 211"
abbreviation (input) mips_neg_ps :: mips_kind where "mips_neg_ps \<equiv> 212"
abbreviation (input) mips_nmadd_s :: mips_kind where "mips_nmadd_s \<equiv> 213"
abbreviation (input) mips_nmadd_d :: mips_kind where "mips_nmadd_d \<equiv> 214"
abbreviation (input) mips_nmadd_ps :: mips_kind where "mips_nmadd_ps \<equiv> 215"
abbreviation (input) mips_nmsub_s :: mips_kind where "mips_nmsub_s \<equiv> 216"
abbreviation (input) mips_nmsub_d :: mips_kind where "mips_nmsub_d \<equiv> 217"
abbreviation (input) mips_nmsub_ps :: mips_kind where "mips_nmsub_ps \<equiv> 218"
abbreviation (input) mips_pll_ps :: mips_kind where "mips_pll_ps \<equiv> 224"
abbreviation (input) mips_plu_ps :: mips_kind where "mips_plu_ps \<equiv> 225"
abbreviation (input) mips_pref :: mips_kind where "mips_pref \<equiv> 226"
abbreviation (input) mips_prefe :: mips_kind where "mips_prefe \<equiv> 227"
abbreviation (input) mips_prefx :: mips_kind where "mips_prefx \<equiv> 228"
abbreviation (input) mips_pul_ps :: mips_kind where "mips_pul_ps \<equiv> 229"
abbreviation (input) mips_puu_ps :: mips_kind where "mips_puu_ps \<equiv> 230"
abbreviation (input) mips_rdpgpr :: mips_kind where "mips_rdpgpr \<equiv> 232"
abbreviation (input) mips_recip_s :: mips_kind where "mips_recip_s \<equiv> 233"
abbreviation (input) mips_recip_d :: mips_kind where "mips_recip_d \<equiv> 234"
abbreviation (input) mips_round_l_s :: mips_kind where "mips_round_l_s \<equiv> 237"
abbreviation (input) mips_round_l_d :: mips_kind where "mips_round_l_d \<equiv> 238"
abbreviation (input) mips_round_w_s :: mips_kind where "mips_round_w_s \<equiv> 239"
abbreviation (input) mips_round_w_d :: mips_kind where "mips_round_w_d \<equiv> 240"
abbreviation (input) mips_rsqrt_s :: mips_kind where "mips_rsqrt_s \<equiv> 241"
abbreviation (input) mips_rsqrt_d :: mips_kind where "mips_rsqrt_d \<equiv> 242"
abbreviation (input) mips_sc :: mips_kind where "mips_sc \<equiv> 245"
abbreviation (input) mips_sce :: mips_kind where "mips_sce \<equiv> 246"
abbreviation (input) mips_sdc2 :: mips_kind where "mips_sdc2 \<equiv> 248"
abbreviation (input) mips_sdxc1 :: mips_kind where "mips_sdxc1 \<equiv> 249"
abbreviation (input) mips_sqrt_s :: mips_kind where "mips_sqrt_s \<equiv> 260"
abbreviation (input) mips_sqrt_d :: mips_kind where "mips_sqrt_d \<equiv> 261"
abbreviation (input) mips_sub_s :: mips_kind where "mips_sub_s \<equiv> 268"
abbreviation (input) mips_sub_d :: mips_kind where "mips_sub_d \<equiv> 269"
abbreviation (input) mips_sub_ps :: mips_kind where "mips_sub_ps \<equiv> 270"
abbreviation (input) mips_swl :: mips_kind where "mips_swl \<equiv> 277"
abbreviation (input) mips_swle :: mips_kind where "mips_swle \<equiv> 278"
abbreviation (input) mips_swr :: mips_kind where "mips_swr \<equiv> 279"
abbreviation (input) mips_swre :: mips_kind where "mips_swre \<equiv> 280"
abbreviation (input) mips_sync :: mips_kind where "mips_sync \<equiv> 282"
abbreviation (input) mips_synci :: mips_kind where "mips_synci \<equiv> 283"
abbreviation (input) mips_syscall :: mips_kind where "mips_syscall \<equiv> 284"
abbreviation (input) mips_teq :: mips_kind where "mips_teq \<equiv> 285"
abbreviation (input) mips_teqi :: mips_kind where "mips_teqi \<equiv> 286"
abbreviation (input) mips_tge :: mips_kind where "mips_tge \<equiv> 287"
abbreviation (input) mips_tgei :: mips_kind where "mips_tgei \<equiv> 288"
abbreviation (input) mips_tgeiu :: mips_kind where "mips_tgeiu \<equiv> 289"
abbreviation (input) mips_tgeu :: mips_kind where "mips_tgeu \<equiv> 290"
abbreviation (input) mips_tlbinv :: mips_kind where "mips_tlbinv \<equiv> 291"
abbreviation (input) mips_tlbinvf :: mips_kind where "mips_tlbinvf \<equiv> 292"
abbreviation (input) mips_tlbp :: mips_kind where "mips_tlbp \<equiv> 293"
abbreviation (input) mips_tlbr :: mips_kind where "mips_tlbr \<equiv> 294"
abbreviation (input) mips_tlbwi :: mips_kind where "mips_tlbwi \<equiv> 295"
abbreviation (input) mips_tlbwr :: mips_kind where "mips_tlbwr \<equiv> 296"
abbreviation (input) mips_tlt :: mips_kind where "mips_tlt \<equiv> 297"
abbreviation (input) mips_tlti :: mips_kind where "mips_tlti \<equiv> 298"
abbreviation (input) mips_tltiu :: mips_kind where "mips_tltiu \<equiv> 299"
abbreviation (input) mips_tltu :: mips_kind where "mips_tltu \<equiv> 300"
abbreviation (input) mips_tne :: mips_kind where "mips_tne \<equiv> 301"
abbreviation (input) mips_tnei :: mips_kind where "mips_tnei \<equiv> 302"
abbreviation (input) mips_trunc_l_s :: mips_kind where "mips_trunc_l_s \<equiv> 303"
abbreviation (input) mips_trunc_l_d :: mips_kind where "mips_trunc_l_d \<equiv> 304"
abbreviation (input) mips_trunc_w_s :: mips_kind where "mips_trunc_w_s \<equiv> 305"
abbreviation (input) mips_trunc_w_d :: mips_kind where "mips_trunc_w_d \<equiv> 306"
abbreviation (input) mips_wrpgpr :: mips_kind where "mips_wrpgpr \<equiv> 308"
abbreviation (input) mips_wsbh :: mips_kind where "mips_wsbh \<equiv> 309"
abbreviation (input) mips_last_instruction :: mips_kind where "mips_last_instruction \<equiv> 312"

section \<open>Integer operations on instruction words\<close>

text \<open>
  The templates of \<^verbatim>\<open>IntegerOps\<close> at the type \<^verbatim>\<open>unsigned\<close>. The assertions of \<^verbatim>\<open>shift_to\<close> and \<^verbatim>\<open>extract\<close>
  concern their template parameters and the constants of the decoders, which all fit their fields.
\<close>

definition SHL1 :: "nat \<Rightarrow> 32 word" where
  "SHL1 n = (if n \<ge> 32 then 0 else push_bit n 1)"

definition GenMask :: "nat \<Rightarrow> 32 word" where
  "GenMask n = SHL1 n - 1"

definition genMask_bits :: "nat \<Rightarrow> nat \<Rightarrow> 32 word" where
  "genMask_bits lobit hibit = push_bit lobit (GenMask (1 + hibit - lobit))"

definition signBit :: "nat \<Rightarrow> 32 word \<Rightarrow> bool" where
  "signBit nbits value \<longleftrightarrow> value AND SHL1 (nbits - 1) \<noteq> 0"

definition IntegerOps_signExtend :: "nat \<Rightarrow> nat \<Rightarrow> 32 word \<Rightarrow> 32 word" where
  "IntegerOps_signExtend fromBits toBits value = value OR (if signBit fromBits value then GenMask toBits XOR GenMask fromBits else 0)"

definition IntegerOps_shiftLeft :: "32 word \<Rightarrow> nat \<Rightarrow> 32 word" where
  "IntegerOps_shiftLeft value count = (value * SHL1 count) AND GenMask 32"

definition shiftRightLogical :: "32 word \<Rightarrow> nat \<Rightarrow> 32 word" where
  "shiftRightLogical value count = (if count \<ge> 32 then 0 else drop_bit count value)"

definition shift_to :: "nat \<Rightarrow> nat \<Rightarrow> 32 word \<Rightarrow> 32 word" where
  "shift_to lobit hibit value = IntegerOps_shiftLeft (value AND GenMask (1 + hibit - lobit)) lobit"

definition extract_field :: "nat \<Rightarrow> nat \<Rightarrow> 32 word \<Rightarrow> 32 word" where
  "extract_field lobit hibit bits = shiftRightLogical bits lobit AND GenMask (1 + hibit - lobit)"

definition bitmask_subset :: "32 word \<Rightarrow> 32 word \<Rightarrow> bool" where
  "bitmask_subset m1 m2 \<longleftrightarrow> 0 = NOT m1 AND m2"

section \<open>The fields of an instruction word\<close>

definition mask_for :: "nat \<Rightarrow> nat \<Rightarrow> 32 word" where
  "mask_for lobit hibit = genMask_bits lobit hibit"

definition mOP :: "32 word" where "mOP = mask_for 26 31"

definition mR0 :: "32 word" where "mR0 = mask_for 21 25"

definition mR1 :: "32 word" where "mR1 = mask_for 16 20"

definition mR2 :: "32 word" where "mR2 = mask_for 11 15"

definition mR3 :: "32 word" where "mR3 = mask_for 6 10"

definition mFN :: "32 word" where "mFN = mask_for 0 5"

definition sOP :: "32 word \<Rightarrow> 32 word" where "sOP value = shift_to 26 31 value"

definition sR0 :: "32 word \<Rightarrow> 32 word" where "sR0 value = shift_to 21 25 value"

definition sR1 :: "32 word \<Rightarrow> 32 word" where "sR1 value = shift_to 16 20 value"

definition sR2 :: "32 word \<Rightarrow> 32 word" where "sR2 value = shift_to 11 15 value"

definition sR3 :: "32 word \<Rightarrow> 32 word" where "sR3 value = shift_to 6 10 value"

definition sFN :: "32 word \<Rightarrow> 32 word" where "sFN value = shift_to 0 5 value"

definition gR0 :: "32 word \<Rightarrow> 32 word" where "gR0 insn_bits = extract_field 21 25 insn_bits"

definition gR1 :: "32 word \<Rightarrow> 32 word" where "gR1 insn_bits = extract_field 16 20 insn_bits"

definition gR2 :: "32 word \<Rightarrow> 32 word" where "gR2 insn_bits = extract_field 11 15 insn_bits"

definition gR3 :: "32 word \<Rightarrow> 32 word" where "gR3 insn_bits = extract_field 6 10 insn_bits"

definition gIM :: "32 word \<Rightarrow> 32 word" where "gIM insn_bits = extract_field 0 15 insn_bits"

section \<open>The register dictionary\<close>

text \<open>Numbers in decimal notation.\<close>

fun numberToString :: "nat \<Rightarrow> string" where
  "numberToString n = (if n < 10 then [char_of (48 + n)] else numberToString (n div 10) @ [char_of (48 + n mod 10)])"

declare numberToString.simps [simp del]

text \<open>The names and their registers, in the order in which they are inserted; no name occurs twice.\<close>

definition registerDictionary :: "(string \<times> register_descriptor) list" where
  "registerDictionary =
     concat (map (\<lambda>i. [(''r'' @ numberToString i, mips_reg 0 i 0 32), (''hw'' @ numberToString i, mips_reg 8 i 0 32)]) [0..<32]) @
     [(''zero'', mips_reg 0 0 0 32), (''at'', mips_reg 0 1 0 32), (''v0'', mips_reg 0 2 0 32), (''v1'', mips_reg 0 3 0 32),
      (''a0'', mips_reg 0 4 0 32), (''a1'', mips_reg 0 5 0 32), (''a2'', mips_reg 0 6 0 32), (''a3'', mips_reg 0 7 0 32),
      (''t0'', mips_reg 0 8 0 32), (''t1'', mips_reg 0 9 0 32), (''t2'', mips_reg 0 10 0 32), (''t3'', mips_reg 0 11 0 32),
      (''t4'', mips_reg 0 12 0 32), (''t5'', mips_reg 0 13 0 32), (''t6'', mips_reg 0 14 0 32), (''t7'', mips_reg 0 15 0 32),
      (''s0'', mips_reg 0 16 0 32), (''s1'', mips_reg 0 17 0 32), (''s2'', mips_reg 0 18 0 32), (''s3'', mips_reg 0 19 0 32),
      (''s4'', mips_reg 0 20 0 32), (''s5'', mips_reg 0 21 0 32), (''s6'', mips_reg 0 22 0 32), (''s7'', mips_reg 0 23 0 32),
      (''t8'', mips_reg 0 24 0 32), (''t9'', mips_reg 0 25 0 32), (''k0'', mips_reg 0 26 0 32), (''k1'', mips_reg 0 27 0 32),
      (''gp'', mips_reg 0 28 0 32), (''sp'', mips_reg 0 29 0 32), (''s8'', mips_reg 0 30 0 32), (''fp'', mips_reg 0 30 0 32),
      (''ra'', mips_reg 0 31 0 32), (''hi'', mips_reg 1 0 0 32), (''lo'', mips_reg 1 1 0 32), (''pc'', mips_reg 1 2 0 32)] @
     map (\<lambda>i. (''f'' @ numberToString i, mips_reg 2 i 0 32)) [0..<32] @
     map (\<lambda>i. (''f'' @ numberToString i @ ''d'', mips_reg 2 (i * 2) 0 64)) [0..<16] @
     [(''fir'', mips_reg 1 3 0 32), (''fcsr'', mips_reg 3 0 0 32), (''fccr'', mips_reg 3 1 0 32), (''fexr'', mips_reg 3 2 0 32),
      (''fenr'', mips_reg 3 3 0 32)] @
     map (\<lambda>i. (''cc'' @ numberToString i, mips_reg 3 1 (23 + i) 1)) [0..<8] @
     [(''fir.d'', mips_reg 1 3 17 1), (''fir.s'', mips_reg 1 3 16 1), (''fir.processorid'', mips_reg 1 3 8 8),
      (''fir.revision'', mips_reg 1 3 0 8)]"

definition find_register :: "string \<Rightarrow> register_descriptor" where
  "find_register name = (case map_of registerDictionary name of None \<Rightarrow> RegisterDescriptor_empty | Some reg \<Rightarrow> reg)"

section \<open>Making operands\<close>

datatype mips_fmt = mips_fmt_w | mips_fmt_l | mips_fmt_s | mips_fmt_d | mips_fmt_ps

fun makeType :: "mips_fmt \<Rightarrow> nat" where
  "makeType mips_fmt_w = 32"
| "makeType mips_fmt_l = 64"
| "makeType mips_fmt_s = 32"
| "makeType mips_fmt_d = 64"
| "makeType mips_fmt_ps = 2 * 32"

text \<open>A register expression with the width of the register.\<close>

definition register_expr :: "register_descriptor \<Rightarrow> asm_expr" where
  "register_expr reg = DirectRegister reg 0 (reg_nBits reg)"

definition makeRegister :: "32 word \<Rightarrow> asm_expr option" where
  "makeRegister regnum = do {
     let reg = find_register (''r'' @ numberToString (unat regnum));
     require (\<not> reg_isEmpty reg);
     Some (register_expr reg)
   }"

definition makeFpRegister :: "32 word \<Rightarrow> mips_fmt \<Rightarrow> asm_expr option" where
  "makeFpRegister regNum fmt = do {
     let regNameSuffix = (if mips_fmt_d = fmt \<or> mips_fmt_ps = fmt \<or> mips_fmt_l = fmt then ''d'' else '''');
     let reg = find_register (''f'' @ numberToString (unat regNum) @ regNameSuffix);
     require (\<not> reg_isEmpty reg);
     require (makeType fmt = reg_nBits reg);
     Some (DirectRegister reg 0 (makeType fmt))
   }"

text \<open>The names of the registers of coprocessor 0: one row for each register number, indexed by \<^verbatim>\<open>sel\<close>.\<close>

definition cp0_names :: "string list list" where
  "cp0_names =
     [[''Index'', ''MVPControl'', ''MVPConf0'', ''MVPConf1''],
      [''Random'', ''VPEControl'', ''VPEConf0'', ''VPEConf1'', ''YQMask'', ''VPESchedule'', ''VPEScheFBack'', ''VPEOpt''],
      [''EntryLo0'', ''TCStatus'', ''TCBind'', ''TCRestart'', ''TCHalt'', ''TCContext'', ''TCSchedule'', ''TCScheFBack''],
      [''EntryLo1'', '''', '''', '''', '''', '''', '''', ''TCOpt''],
      [''Context'', ''ContextConfig'', ''UserLocal''],
      [''PageMask'', ''PageGrain''],
      [''Wired'', ''SRSConf0'', ''SRSConf1'', ''SRSConf2'', ''SRSConf3'', ''SRSConf4''],
      [''HWREna''], [''BadVAddr''], [''Count''], [''EntryHi''], [''Compare''],
      [''Status'', ''IntCtl'', ''SRSCtl'', ''SRSMap'', ''View_IPL'', ''SRSMap2''],
      [''Cause'', '''', '''', '''', ''View_RIPL''],
      [''EPC''],
      [''PRId'', ''EBase'', ''CDMMBase'', ''CMGCRBase''],
      [''Config'', ''Config1'', ''Config2'', ''Config3'', ''Config4''],
      [''LLAddr''],
      [''WatchLo'', ''WatchLo'', ''WatchLo'', ''WatchLo'', ''WatchLo'', ''WatchLo'', ''WatchLo'', ''WatchLo''],
      [''WatchHi'', ''WatchHi'', ''WatchHi'', ''WatchHi'', ''WatchHi'', ''WatchHi'', ''WatchHi'', ''WatchHi''],
      [], [], [],
      [''Debug'', ''TraceControl'', ''TraceControl2'', ''UserTraceData1'', ''TraceIBPC'', ''TraceDBPC'', ''Debug2''],
      [''DEPC'', '''', ''TraceControl3'', ''UserTraceData2''],
      [''PerfCnt'', ''PerfCnt'', ''PerfCnt'', ''PerfCnt'', ''PerfCnt'', ''PerfCnt'', ''PerfCnt'', ''PerfCnt''],
      [''ErrCtl''],
      [''CacheErr'', ''CacheErr'', ''CacheErr'', ''CacheErr''],
      [''TagLo'', ''DataLo'', ''TagLo'', ''DataLo'', ''TagLo'', ''DataLo'', ''TagLo'', ''DataLo''],
      [''TagHi'', ''DataHi'', ''TagHi'', ''DataHi'', ''TagHi'', ''DataHi'', ''TagHi'', ''DataHi''],
      [''ErrorEPC''],
      [''DESAVE'', '''', ''KScratch1'', ''KScratch2'', ''KScratch3'', ''KScratch4'', ''KScratch5'', ''KScratch6'']]"

definition makeCp0Register :: "32 word \<Rightarrow> 32 word \<Rightarrow> asm_expr option" where
  "makeCp0Register regnum sel = do {
     require (regnum < 32);
     require (sel < 8);
     let row = cp0_names ! unat regnum;
     let s = (if unat sel < length row then row ! unat sel else '''');
     require (s \<noteq> '''');
     let regdesc = find_register s;
     require (\<not> reg_isEmpty regdesc);
     Some (register_expr regdesc)
   }"

definition makeFpccRegister :: "32 word \<Rightarrow> asm_expr option" where
  "makeFpccRegister cc = do {
     require (cc \<le> 7);
     let regdesc = find_register ''fccr'';
     require (\<not> reg_isEmpty regdesc);
     r \<leftarrow> RegisterDescriptor_new (majorNumber regdesc) (minorNumber regdesc) (23 + unat cc) 1;
     Some (register_expr r)
   }"

definition makeCp2Register :: "32 word \<Rightarrow> asm_expr option" where
  "makeCp2Register regnum = do {
     require (regnum < 32);
     r \<leftarrow> RegisterDescriptor_new 5 (unat regnum) 0 32;
     Some (register_expr r)
   }"

definition makeCp2ccRegister :: "32 word \<Rightarrow> asm_expr option" where
  "makeCp2ccRegister regnum = do {
     require (regnum < 32);
     r \<leftarrow> RegisterDescriptor_new 6 (unat regnum) 0 32;
     Some (register_expr r)
   }"

definition makeHwRegister :: "32 word \<Rightarrow> asm_expr option" where
  "makeHwRegister regnum = do {
     require (regnum < 32);
     r \<leftarrow> RegisterDescriptor_new 8 (unat regnum) 0 32;
     Some (register_expr r)
   }"

definition makeShadowRegister :: "32 word \<Rightarrow> asm_expr option" where
  "makeShadowRegister cc = do {
     regref \<leftarrow> makeRegister cc;
     case regref of
       DirectRegister desc adj t \<Rightarrow> do { desc \<leftarrow> set_majorNumber desc 7; Some (DirectRegister desc adj t) }
     | _ \<Rightarrow> None
   }"

definition makeImmediate8 :: "32 word \<Rightarrow> asm_expr option" where
  "makeImmediate8 value = do { require (0 = value AND NOT 0xff); IntegerValue_new (ucast (ucast value :: 8 word)) 8 }"

definition makeImmediate16 :: "32 word \<Rightarrow> asm_expr option" where
  "makeImmediate16 value = do { require (0 = value AND NOT 0xffff); IntegerValue_new (ucast (ucast value :: 16 word)) 16 }"

definition makeImmediate32 :: "32 word \<Rightarrow> asm_expr option" where
  "makeImmediate32 value = IntegerValue_new (ucast value) 32"

definition makeBranchTargetRelative :: "64 word \<Rightarrow> 32 word \<Rightarrow> asm_expr option" where
  "makeBranchTargetRelative insn_va pc_offset = do {
     require (0 = pc_offset AND NOT 0xffff);
     let pc_offset = IntegerOps_shiftLeft pc_offset 2;
     let pc_offset = IntegerOps_signExtend 18 32 pc_offset;
     let target = (ucast ((insn_va + 4 + ucast pc_offset) AND ucast (GenMask 32)) :: 32 word);
     IntegerValue_new (ucast target) 32
   }"

definition makeBranchTargetAbsolute :: "64 word \<Rightarrow> 32 word \<Rightarrow> nat \<Rightarrow> nat \<Rightarrow> asm_expr option" where
  "makeBranchTargetAbsolute insn_va insn_index bit_offset nbits = do {
     require (nbits > 0);
     require (bit_offset + nbits + 2 \<le> 32);
     require (0 = ucast insn_index AND NOT (genMask nbits));
     let lo_nbits = nbits + 2;
     let lo_mask = (ucast (genMask lo_nbits) :: 32 word);
     let lo_target = IntegerOps_shiftLeft insn_index 2 AND lo_mask;
     let hi_target = (ucast ((insn_va + 4) AND ucast (NOT lo_mask)) :: 32 word);
     let target = hi_target OR lo_target;
     IntegerValue_new (ucast target) 32
   }"

text \<open>\<^verbatim>\<open>SageBuilderAsm::buildAddExpression\<close> without a type: that of the left operand.\<close>

definition buildAddExpression :: "asm_expr \<Rightarrow> asm_expr \<Rightarrow> asm_expr" where
  "buildAddExpression lhs rhs = BinaryAdd lhs rhs (get_nBits lhs)"

definition makeRegisterOffset :: "32 word \<Rightarrow> 32 word \<Rightarrow> asm_expr option" where
  "makeRegisterOffset gprnum offset16 = do {
     regref \<leftarrow> makeRegister gprnum;
     require (0 = offset16 AND NOT 0xffff);
     let offset32 = IntegerOps_signExtend 16 32 offset16;
     offset \<leftarrow> IntegerValue_new (ucast offset32) 32;
     Some (buildAddExpression regref offset)
   }"

definition makeRegisterIndexed :: "32 word \<Rightarrow> 32 word \<Rightarrow> asm_expr option" where
  "makeRegisterIndexed base_gprnum index_gprnum = do {
     base_reg \<leftarrow> makeRegister base_gprnum;
     index_reg \<leftarrow> makeRegister index_gprnum;
     Some (buildAddExpression base_reg index_reg)
   }"

definition makeMemoryReference :: "asm_expr \<Rightarrow> nat \<Rightarrow> asm_expr" where
  "makeMemoryReference addr t = MemoryReference addr None t"

section \<open>Making instructions\<close>

text \<open>An instruction has no bytes until the disassembler stores the ones it was decoded from.\<close>

definition makeInstruction :: "64 word \<Rightarrow> mips_kind \<Rightarrow> asm_expr list \<Rightarrow> mips_insn" where
  "makeInstruction insn_va kind ops = Insn kind insn_va 0 ops None"

definition set_rawBytes :: "mips_insn \<Rightarrow> 8 word list \<Rightarrow> mips_insn" where
  "set_rawBytes insn bytes = (case insn of Insn k a n ops slot \<Rightarrow> Insn k a (of_nat (length bytes)) ops slot)"

definition set_delaySlot :: "mips_insn \<Rightarrow> mips_insn \<Rightarrow> mips_insn" where
  "set_delaySlot insn inner = (case insn of Insn k a n ops slot \<Rightarrow> Insn k a n ops (Some inner))"

definition makeUnknownInstruction :: "64 word \<Rightarrow> 32 word \<Rightarrow> mips_insn" where
  "makeUnknownInstruction insn_va ib =
     set_rawBytes (makeInstruction insn_va mips_unknown_instruction [])
       [ucast ib, ucast (drop_bit 8 ib), ucast (drop_bit 16 ib), ucast (drop_bit 24 ib)]"

datatype mips_release = Release1 | Release2 | Release3 | Micro

record decoder =
  d_arch :: mips_release
  d_match :: "32 word"
  d_mask :: "32 word"
  d_decode :: "64 word \<Rightarrow> 32 word \<Rightarrow> mips_insn option"

definition Decoder :: "mips_release \<Rightarrow> 32 word \<Rightarrow> 32 word \<Rightarrow> (64 word \<Rightarrow> 32 word \<Rightarrow> mips_insn option) \<Rightarrow> decoder" where
  "Decoder arch mtch msk decode = \<lparr>d_arch = arch, d_match = mtch, d_mask = msk, d_decode = decode\<rparr>"

end
