(* ===== verification/Machine_Refinement.thy ===== *)
theory Machine_Refinement
  imports Dispatcher
begin

text \<open>
  The contract between the dispatcher and the state below it. An abstract machine is a total function
  from register bits to booleans and a total function from addresses to bytes: what is not stored reads
  as zero. The locale \<open>machine_laws\<close> lists what the accesses of a concrete machine do to the abstract
  one; it is interpreted on the machine of the concrete semantics, where the laws follow from the
  refinement theorems of the register state and of the memory. Operand access is proved once, inside
  the locale.
\<close>

section \<open>Abstract machines\<close>

record astate =
  as_bits :: "regstore \<Rightarrow> nat \<Rightarrow> bool"
  as_bytes :: "64 word \<Rightarrow> 8 word"
  as_order :: byte_order

definition get_reg :: "astate \<Rightarrow> register_descriptor \<Rightarrow> nat" where
  "get_reg s r = bval (\<lambda>k. as_bits s (RegStore r) (reg_offset r + k)) (reg_nBits r)"

definition set_reg :: "astate \<Rightarrow> register_descriptor \<Rightarrow> nat \<Rightarrow> astate" where
  "set_reg s r x = s\<lparr>as_bits := (as_bits s)(RegStore r := (\<lambda>i. if in_reg r i then bit x (i - reg_offset r) else as_bits s (RegStore r) i))\<rparr>"

definition get_mem :: "astate \<Rightarrow> nat \<Rightarrow> nat \<Rightarrow> nat" where
  "get_mem s a n = load (as_order s) 32 a n (as_bytes s)"

definition set_mem :: "astate \<Rightarrow> nat \<Rightarrow> nat \<Rightarrow> nat \<Rightarrow> astate" where
  "set_mem s a n y = s\<lparr>as_bytes := store (as_order s) 32 a n y n (as_bytes s)\<rparr>"

definition cleared :: "astate \<Rightarrow> astate" where
  "cleared s = s\<lparr>as_bits := (\<lambda>key i. False), as_bytes := (\<lambda>a. 0)\<rparr>"

definition machine_rep :: "machine \<Rightarrow> astate \<Rightarrow> bool" where
  "machine_rep mc s \<longleftrightarrow> initialState mc = None \<and> accessCreatesLocations (cs_registers (currentState mc)) \<and>
     (\<exists>f. reg_rep sv_is (cs_registers (currentState mc)) f \<and> as_bits s = (\<lambda>key i. f key i = Some True)) \<and>
     mem_ok (mc_memory mc) \<and> ms_byteOrder (mc_memory mc) = as_order s \<and> as_order s \<noteq> ORDER_UNSPECIFIED \<and>
     as_bytes s = mem_bytes (mc_memory mc)"

lemma get_reg_less: "get_reg s r < 2 ^ reg_nBits r"
  by (simp add: get_reg_def bval_less)

lemma get_set_same: "x < 2 ^ reg_nBits r \<Longrightarrow> get_reg (set_reg s r x) r = x"
proof -
  assume "x < 2 ^ reg_nBits r"
  moreover have "get_reg (set_reg s r x) r = bval (bit x) (reg_nBits r)"
    unfolding get_reg_def by (rule bval_cong) (simp add: set_reg_def in_reg_def)
  ultimately show ?thesis by (simp add: bval_take_bit take_bit_nat_eq_self)
qed

lemma get_set_other: "RegStore r \<noteq> RegStore r' \<Longrightarrow> get_reg (set_reg s r x) r' = get_reg s r'"
  by (simp add: get_reg_def set_reg_def)

lemma set_reg_frame [simp]: "as_bytes (set_reg s r x) = as_bytes s" "as_order (set_reg s r x) = as_order s"
  "get_mem (set_reg s r x) a n = get_mem s a n"
  by (simp_all add: set_reg_def get_mem_def)

lemma set_mem_frame [simp]: "as_bits (set_mem s a n y) = as_bits s" "as_order (set_mem s a n y) = as_order s"
  "get_reg (set_mem s a n y) r = get_reg s r"
  by (simp_all add: set_mem_def get_reg_def)

section \<open>The laws\<close>

locale machine_laws =
  fixes rep :: "machine \<Rightarrow> astate \<Rightarrow> bool"
  assumes read_reg: "rep mc s \<Longrightarrow> 0 < reg_nBits r \<Longrightarrow> reg_ok r \<Longrightarrow>
      succeeds (readRegister1 mc r) (\<lambda>(v, mc'). sv_is v (reg_nBits r) (get_reg s r) \<and> rep mc' s)"
    and write_reg: "rep mc s \<Longrightarrow> 0 < reg_nBits r \<Longrightarrow> reg_ok r \<Longrightarrow> sv_is v (reg_nBits r) x \<Longrightarrow>
      succeeds (ops_writeRegister mc r v) (\<lambda>mc'. rep mc' (set_reg s r x))"
    and read_mem: "rep mc s \<Longrightarrow> reg_isEmpty seg \<Longrightarrow> sv_is c 1 1 \<Longrightarrow> sv_is addr 32 x \<Longrightarrow> sv_is d (8 * n) 0 \<Longrightarrow> 0 < n \<Longrightarrow>
      succeeds (ops_readMemory mc seg addr d c) (\<lambda>(v, mc'). sv_is v (8 * n) (get_mem s x n) \<and> rep mc' s)"
    and write_mem: "rep mc s \<Longrightarrow> reg_isEmpty seg \<Longrightarrow> sv_is c 1 1 \<Longrightarrow> sv_is addr 32 x \<Longrightarrow> sv_is v (8 * n) y \<Longrightarrow>
      succeeds (ops_writeMemory mc seg addr v c) (\<lambda>mc'. rep mc' (set_mem s x n y))"
    and interrupt: "rep mc s \<Longrightarrow> rep (ops_interrupt mc) (cleared s)"

lemma undefined_is: "succeeds (SValue_undefined n) (\<lambda>v. sv_is v n 0)"
  by (simp add: SValue_undefined_def SValue_instance_is)

lemma bits_read_total: "bits_read f r 0 = bval (\<lambda>k. f (RegStore r) (reg_offset r + k) = Some True) (reg_nBits r)"
  unfolding bits_read_def by (rule bval_cong) (simp split: option.split)

lemma machine_read_reg:
  assumes "machine_rep mc s" "0 < reg_nBits r" "reg_ok r"
  shows "succeeds (readRegister1 mc r) (\<lambda>(v, mc'). sv_is v (reg_nBits r) (get_reg s r) \<and> machine_rep mc' s)"
proof -
  let ?st = "cs_registers (currentState mc)"
  from assms(1) obtain f where f: "reg_rep sv_is ?st f" "as_bits s = (\<lambda>key i. f key i = Some True)"
    and mc: "initialState mc = None" "accessCreatesLocations ?st" by (auto simp: machine_rep_def)
  from undefined_is [of "reg_nBits r"] obtain u where u: "SValue_undefined (reg_nBits r) = Some u" "sv_is u (reg_nBits r) 0"
    by (rule succeedsE)
  from cv.read_is [OF f(1) assms(2,3) u(2)] mc(2) obtain v st where
    v: "readRegister concrete_ops ?st r u = Some (v, st)" "sv_is v (reg_nBits r) (bits_read f r 0)"
      "reg_rep sv_is st (bits_fill f r 0)" "accessCreatesLocations st" by (auto elim!: succeedsE)
  have "(\<lambda>key i. bits_fill f r 0 key i = Some True) = as_bits s" by (auto simp: bits_fill_def f(2) fun_eq_iff)
  then have "machine_rep (mc\<lparr>currentState := (currentState mc)\<lparr>cs_registers := st\<rparr>\<rparr>) s"
    using assms(1) v(3,4) by (auto simp: machine_rep_def intro: exI [of _ "bits_fill f r 0"])
  moreover have "ops_readRegister mc r u = Some (v, mc\<lparr>currentState := (currentState mc)\<lparr>cs_registers := st\<rparr>\<rparr>)"
    using assms(2) by (simp add: ops_readRegister_def mc(1) State_readRegister_def v(1) reg_isEmpty_def)
  moreover have "bits_read f r 0 = get_reg s r" by (simp add: bits_read_total get_reg_def f(2))
  ultimately show ?thesis using v(2) by (simp add: readRegister1_def u(1))
qed

lemma machine_write_reg:
  assumes "machine_rep mc s" "0 < reg_nBits r" "reg_ok r" "sv_is v (reg_nBits r) x"
  shows "succeeds (ops_writeRegister mc r v) (\<lambda>mc'. machine_rep mc' (set_reg s r x))"
proof -
  let ?st = "cs_registers (currentState mc)"
  from assms(1) obtain f where f: "reg_rep sv_is ?st f" "as_bits s = (\<lambda>key i. f key i = Some True)"
    and mc: "accessCreatesLocations ?st" by (auto simp: machine_rep_def)
  from cv.write_is [OF f(1) assms(2-4)] mc obtain st where
    st: "writeRegister concrete_ops ?st r v = Some st" "reg_rep sv_is st (bits_write f r x)" "accessCreatesLocations st"
    by (auto elim!: succeedsE)
  have "as_bits (set_reg s r x) = (\<lambda>key i. bits_write f r x key i = Some True)"
    by (auto simp: set_reg_def bits_write_def f(2) fun_eq_iff)
  then have "machine_rep (mc\<lparr>currentState := (currentState mc)\<lparr>cs_registers := st\<rparr>\<rparr>) (set_reg s r x)"
    using assms(1) st(2,3) by (auto simp: machine_rep_def)
  then show ?thesis using assms(2) by (simp add: ops_writeRegister_def State_writeRegister_def st(1) reg_isEmpty_def)
qed

lemma machine_order: "machine_rep mc s \<Longrightarrow> order_known (mc_memory mc) n"
  by (simp add: machine_rep_def order_known_def)

lemma machine_read_mem:
  assumes "machine_rep mc s" "reg_isEmpty seg" "sv_is c 1 1" "sv_is addr 32 x" "sv_is d (8 * n) 0" "0 < n"
  shows "succeeds (ops_readMemory mc seg addr d c) (\<lambda>(v, mc'). sv_is v (8 * n) (get_mem s x n) \<and> machine_rep mc' s)"
proof -
  have m: "mem_ok (mc_memory mc)" "initialState mc = None" "ms_byteOrder (mc_memory mc) = as_order s" "mem_bytes (mc_memory mc) = as_bytes s"
    using assms(1) by (simp_all add: machine_rep_def)
  show ?thesis
    by (rule succeeds_mono [OF ops_readMemory_is [OF m(1) machine_order [OF assms(1)] m(2) assms(2-4) _ assms(5,6)]])
      (use assms(1) in \<open>auto simp: m get_mem_def machine_rep_def keeps_config_def\<close>)
qed

lemma machine_write_mem:
  assumes "machine_rep mc s" "reg_isEmpty seg" "sv_is c 1 1" "sv_is addr 32 x" "sv_is v (8 * n) y"
  shows "succeeds (ops_writeMemory mc seg addr v c) (\<lambda>mc'. machine_rep mc' (set_mem s x n y))"
proof -
  have m: "mem_ok (mc_memory mc)" using assms(1) by (simp add: machine_rep_def)
  show ?thesis
    by (rule succeeds_mono [OF ops_writeMemory_is [OF m machine_order [OF assms(1)] assms(2-4) _ assms(5)]])
      (use assms(1) in \<open>auto simp: set_mem_def machine_rep_def keeps_config_def\<close>)
qed

lemma machine_interrupt:
  assumes "machine_rep mc s"
  shows "machine_rep (ops_interrupt mc) (cleared s)"
proof -
  have "reg_rep sv_is (RegisterState_clear (cs_registers (currentState mc))) (\<lambda>key i. None)"
    by (simp add: reg_rep_def represents_def RegisterState_clear_def)
  moreover have "mem_ok (MemoryState_clear (mc_memory mc))"
    using assms by (auto simp: machine_rep_def mem_ok_def MemoryState_clear_def the_map_def map_ok_def)
  moreover have "mem_bytes (MemoryState_clear (mc_memory mc)) = (\<lambda>a. 0)"
    by (simp add: mem_bytes_def MemoryState_clear_def the_map_def fun_eq_iff)
  ultimately show ?thesis using assms
    by (auto simp: machine_rep_def ops_interrupt_def State_clear_def cleared_def MemoryState_clear_def RegisterState_clear_def)
qed

interpretation cm: machine_laws machine_rep
  by unfold_locales (fact machine_read_reg machine_write_reg machine_read_mem machine_write_mem machine_interrupt)+

end
