(* ===== verification/Mips_Operands.thy ===== *)
theory Mips_Operands
  imports Mips_Dispatcher Machine_Refinement
begin

text \<open>
  The operands that the MIPS disassembler builds, what they stand for in an abstract machine, and the
  rules by which the functors are executed symbolically: one rule per operator and per access, which
  consumes the facts about its arguments and yields the fact about its result.
\<close>

section \<open>Operands\<close>

datatype operand = Gpr nat | Imm nat nat | Mem nat nat nat

fun operand_ok :: "operand \<Rightarrow> bool" where
  "operand_ok (Gpr i) \<longleftrightarrow> i < 32"
| "operand_ok (Imm t y) \<longleftrightarrow> 0 < t \<and> t \<le> 64 \<and> y < 2 ^ t"
| "operand_ok (Mem b off n) \<longleftrightarrow> b < 32 \<and> off < 2 ^ 32 \<and> 0 < n"

text \<open>The expressions that the disassembler makes of them.\<close>

definition gpr_expr :: "nat \<Rightarrow> asm_expr" where
  "gpr_expr regnum = DirectRegister (mips_gpr regnum) 0 (reg_nBits (mips_gpr regnum))"

definition imm_expr :: "nat \<Rightarrow> nat \<Rightarrow> asm_expr" where
  "imm_expr t value = the (IntegerValue_new (of_nat value) t)"

definition offset_expr :: "nat \<Rightarrow> nat \<Rightarrow> asm_expr" where
  "offset_expr gprnum offset32 =
     BinaryAdd (gpr_expr gprnum) (imm_expr 32 offset32) (get_nBits (gpr_expr gprnum))"

definition mem_expr :: "asm_expr \<Rightarrow> nat \<Rightarrow> asm_expr" where
  "mem_expr addr t = MemoryReference addr None t"

fun operand_expr :: "operand \<Rightarrow> asm_expr" where
  "operand_expr (Gpr i) = gpr_expr i"
| "operand_expr (Imm t y) = imm_expr t y"
| "operand_expr (Mem b off n) = mem_expr (offset_expr b off) (8 * n)"

section \<open>The registers\<close>

lemma mips_reg_fields:
  assumes "majr < 16" "minr < 1024" "offset < 512" "offset + width \<le> 512"
  shows "majorNumber (mips_reg majr minr offset width) = majr" "minorNumber (mips_reg majr minr offset width) = minr"
    "reg_offset (mips_reg majr minr offset width) = offset" "reg_nBits (mips_reg majr minr offset width) = width"
    "reg_ok (mips_reg majr minr offset width)"
  using new_fields [OF assms] assms(4) by (auto simp: mips_reg_def reg_fields_def reg_ok_def elim!: succeedsE)

lemma gpr_fields [simp]:
  assumes "i < 32"
  shows "majorNumber (mips_gpr i) = 0" "minorNumber (mips_gpr i) = i" "reg_offset (mips_gpr i) = 0" "reg_nBits (mips_gpr i) = 32"
    "reg_ok (mips_gpr i)"
  using assms by (simp_all add: mips_gpr_def mips_reg_fields)

lemma special_fields [simp]:
  "reg_nBits REG_HI = 32" "reg_ok REG_HI" "reg_nBits REG_LO = 32" "reg_ok REG_LO" "reg_nBits REG_PC = 32" "reg_ok REG_PC"
  "majorNumber REG_HI = 1" "majorNumber REG_LO = 1" "majorNumber REG_PC = 1" "minorNumber REG_HI = 0" "minorNumber REG_LO = 1" "minorNumber REG_PC = 2"
  "REG_RA = mips_gpr 31" "REG_ZERO = mips_gpr 0"
  by (simp_all add: REG_HI_def REG_LO_def REG_PC_def REG_RA_def REG_ZERO_def mips_gpr_def mips_reg_fields)

lemma gpr_eq_iff: "i < 32 \<Longrightarrow> j < 32 \<Longrightarrow> mips_gpr i = mips_gpr j \<longleftrightarrow> i = j"
  using gpr_fields(2) by metis

text \<open>Different registers are stored apart.\<close>

lemma registers_apart [simp]:
  "i < 32 \<Longrightarrow> j < 32 \<Longrightarrow> RegStore (mips_gpr i) = RegStore (mips_gpr j) \<longleftrightarrow> i = j"
  "i < 32 \<Longrightarrow> RegStore (mips_gpr i) \<noteq> RegStore REG_PC" "i < 32 \<Longrightarrow> RegStore (mips_gpr i) \<noteq> RegStore REG_HI"
  "i < 32 \<Longrightarrow> RegStore (mips_gpr i) \<noteq> RegStore REG_LO" "RegStore REG_HI \<noteq> RegStore REG_LO"
  "RegStore REG_PC \<noteq> RegStore REG_HI" "RegStore REG_PC \<noteq> RegStore REG_LO" "i < 32 \<Longrightarrow> RegStore REG_PC \<noteq> RegStore (mips_gpr i)"
  "i < 32 \<Longrightarrow> RegStore REG_HI \<noteq> RegStore (mips_gpr i)" "i < 32 \<Longrightarrow> RegStore REG_LO \<noteq> RegStore (mips_gpr i)"
  by (auto simp: RegStore_def)

lemma mips32 [simp]: "arch_bitsPerWord (Mips32 bo ar) = 32" "arch_byteOrder (Mips32 bo ar) = bo"
  "instructionPointerRegister (Mips32 bo ar) = REG_PC" "autoResetInstructionPointer (Mips32 bo ar) = ar"
  "virtual_read (Mips32 bo ar) = DispatcherMips_read" "addressWidth (Mips32 bo ar) = 32"
  by (simp_all add: Mips32_def addressWidth_def)

section \<open>Integer operands\<close>

lemma IntegerValue_new_succeeds:
  assumes "t \<le> 64" "y < 2 ^ t"
  shows "succeeds (IntegerValue_new (of_nat y) t) (\<lambda>e. \<exists>v. e = IntegerValue v 0 t \<and> bv_is v t y)"
proof -
  have y: "unat (of_nat y :: 64 word) mod 2 ^ t = y"
    using assms power_increasing [of t 64 "2 :: nat"] by (simp add: unat_of_nat)
  show ?thesis
    unfolding IntegerValue_new_def
  proof (intro succeeds_require)
    show "0 = (of_nat y :: 64 word) \<or> t \<le> 64" using assms by simp
    have "succeeds (BitVector_resize BitVector_empty t False) (\<lambda>v. bv_is v t 0)"
      using BitVector_new_is [of t] by (simp add: yields_succeeds BitVector_new_def)
    then show "succeeds (BitVector_resize BitVector_empty t False \<bind> (\<lambda>v. BitVector_fromInteger v (of_nat y) \<bind> (\<lambda>v. Some (IntegerValue v 0 t))))
        (\<lambda>e. \<exists>v. e = IntegerValue v 0 t \<and> bv_is v t y)"
    proof (rule succeeds_bind)
      fix v assume "bv_is v t 0"
      from BitVector_fromInteger_is [OF this, of "of_nat y"] y
      have "succeeds (BitVector_fromInteger v (of_nat y)) (\<lambda>v. bv_is v t y)" by (simp add: yields_succeeds)
      then show "succeeds (BitVector_fromInteger v (of_nat y) \<bind> (\<lambda>v. Some (IntegerValue v 0 t))) (\<lambda>e. \<exists>v. e = IntegerValue v 0 t \<and> bv_is v t y)"
        by (rule succeeds_bind) simp
    qed
  qed
qed

lemma IntegerValue_new_is:
  assumes "t \<le> 64" "y < 2 ^ t"
  shows "\<exists>v. imm_expr t y = IntegerValue v 0 t \<and> bv_is v t y" "IntegerValue_new (of_nat y) t = Some (imm_expr t y)"
  using IntegerValue_new_succeeds [OF assms] by (auto simp: imm_expr_def elim: succeedsE)

lemma relative_value:
  assumes "bv_is v t y" "0 < t" "t \<le> 64"
  shows "get_relativeValue v = Some (word_of_int (signed_of t y))" "bv_size v = t"
proof -
  show "bv_size v = t" using bv_is_unfold(2) [OF assms(1)] .
  then show "get_relativeValue v = Some (word_of_int (signed_of t y))"
    using assms BitVector_toInteger_is [OF assms(1)] signExtend2_eq [OF bv_is_less [OF assms(1)] assms(2,3)]
    by (simp add: get_relativeValue_def)
qed

lemma signed_number:
  assumes "n \<le> 64"
  shows "succeeds (SValue_number n (word_of_int k)) (\<lambda>r. sv_is r n (nat (k mod 2 ^ n)))"
proof -
  have "unat (word_of_int k :: 64 word) mod 2 ^ n = nat (k mod 2 ^ n)"
  proof -
    have "unat (word_of_int k :: 64 word) = nat (k mod 2 ^ 64)" by (simp add: unsigned_of_int take_bit_eq_mod)
    moreover have "k mod 2 ^ 64 mod 2 ^ n = k mod 2 ^ n"
      using assms by (intro mod_mod_cancel le_imp_power_dvd) simp
    moreover have "nat (k mod 2 ^ 64) mod 2 ^ n = nat (k mod 2 ^ 64 mod 2 ^ n)"
      by (simp add: nat_mod_distrib nat_power_eq)
    ultimately show ?thesis by simp
  qed
  with SValue_number_is [of n "word_of_int k"] show ?thesis by simp
qed

lemma value_of_width: "sv_is v n x \<Longrightarrow> fit_value v n = Some v" "sv_is v n x \<Longrightarrow> fit_address v n = Some v"
  by (auto simp: fit_value_def fit_address_def dest: sv_isD)

lemma read_immediate:
  assumes "operand_ok (Imm t y)"
  shows "succeeds (Dispatcher_read d mc (imm_expr t y) 0 a) (\<lambda>(v, mc'). sv_is v t y \<and> mc' = mc)"
proof -
  from assms IntegerValue_new_is(1) [of t y] obtain v where v: "imm_expr t y = IntegerValue v 0 t" "bv_is v t y" by auto
  have t: "0 < t" "t \<le> 64" "y < 2 ^ t" using assms by simp_all
  have "nat (signed_of t y mod 2 ^ t) = y" using t(3) by (simp add: signed_of_mod nat_mod_distrib nat_power_eq)
  with signed_number [OF t(2), of "signed_of t y"] obtain r where
    r: "SValue_number t (word_of_int (signed_of t y)) = Some r" "sv_is r t y" by (auto elim: succeedsE)
  show ?thesis using t
    by (simp add: v(1) value_width_def get_signedValue_def relative_value [OF v(2)] read_of1_def r value_of_width [OF r(2)])
qed

lemma masked_immediate:
  assumes "y < 2 ^ 32"
  shows "(word_of_int (signed_of 32 y) :: 64 word) AND genMask 32 = of_nat y"
proof (rule bit_word_eqI)
  fix i assume "i < LENGTH(64)"
  have "bit (signed_of 32 y) i = bit y i" if "i < 32"
  proof -
    have "take_bit 32 (signed_of 32 y) = take_bit 32 (int y)" using signed_of_mod [of 32 y] by (simp add: take_bit_eq_mod)
    then show ?thesis using that by (metis bit_of_nat_iff_bit bit_take_bit_iff)
  qed
  moreover have "\<not> bit y i" if "32 \<le> i" using assms that by (metis bit_take_bit_iff not_le take_bit_nat_eq_self)
  ultimately show "bit ((word_of_int (signed_of 32 y) :: 64 word) AND genMask 32) i = bit (of_nat y :: 64 word) i"
    using \<open>i < LENGTH(64)\<close> by (cases "i < 32") (auto simp: genMask_eq bit_simps)
qed

lemma address_immediate:
  assumes "y < 2 ^ 32"
  shows "succeeds (effectiveAddress (Mips32 bo ar) mc (imm_expr 32 y) 32) (\<lambda>(v, mc'). sv_is v 32 y \<and> mc' = mc)"
proof -
  from assms IntegerValue_new_is(1) [of 32 y] obtain v where v: "imm_expr 32 y = IntegerValue v 0 32" "bv_is v 32 y" by auto
  have "unat (of_nat y :: 64 word) mod 2 ^ 32 = y" using assms by (simp add: unat_of_nat)
  with masked_immediate [OF assms] show ?thesis using SValue_number_is [of 32 "of_nat y"]
    by (auto simp: v(1) get_absoluteValue_def relative_value [OF v(2)] addr_nbits_def address_of1_def value_of_width elim!: succeedsE)
qed

section \<open>What the operands stand for\<close>

text \<open>The zero register reads as zero, whatever was written to it.\<close>

definition gpr :: "astate \<Rightarrow> nat \<Rightarrow> nat" where
  "gpr s i = (if i = 0 then 0 else get_reg s (mips_gpr i))"

definition set_gpr :: "astate \<Rightarrow> nat \<Rightarrow> nat \<Rightarrow> astate" where
  "set_gpr s i x = set_reg s (mips_gpr i) x"

definition mem_addr :: "astate \<Rightarrow> nat \<Rightarrow> nat \<Rightarrow> nat" where
  "mem_addr s b off = (gpr s b + off) mod 2 ^ 32"

lemma gpr_less: "i < 32 \<Longrightarrow> gpr s i < 2 ^ 32"
  using get_reg_less [of s "mips_gpr i"] by (simp add: gpr_def)

lemma gpr_set_gpr: "i < 32 \<Longrightarrow> j < 32 \<Longrightarrow> x < 2 ^ 32 \<Longrightarrow> gpr (set_gpr s i x) j = (if i = j \<and> j \<noteq> 0 then x else gpr s j)"
  by (auto simp: gpr_def set_gpr_def get_set_same get_set_other)

section \<open>Rules for symbolic execution\<close>

lemma concrete_ops_sel:
  "op_nBits concrete_ops = sv_width" "op_toUnsigned concrete_ops = SValue_toUnsigned" "op_undefined concrete_ops = SValue_undefined"
  "op_number concrete_ops = SValue_number" "op_boolean concrete_ops = SValue_boolean" "op_and concrete_ops = Concrete_and"
  "op_or concrete_ops = Concrete_or" "op_xor concrete_ops = Concrete_xor" "op_invert concrete_ops = Concrete_invert"
  "op_extract concrete_ops = Concrete_extract" "op_concat concrete_ops = Concrete_concat"
  "op_rotateRight concrete_ops = Concrete_rotateRight" "op_shiftLeft concrete_ops = Concrete_shiftLeft"
  "op_shiftRight concrete_ops = Concrete_shiftRight" "op_shiftRightArithmetic concrete_ops = Concrete_shiftRightArithmetic"
  "op_equalToZero concrete_ops = Concrete_equalToZero" "op_ite concrete_ops = Concrete_ite"
  "op_unsignedExtend concrete_ops = Concrete_unsignedExtend" "op_signExtend concrete_ops = Concrete_signExtend"
  "op_add concrete_ops = Concrete_add" "op_signedDivide concrete_ops = Concrete_signedDivide"
  "op_signedModulo concrete_ops = Concrete_signedModulo" "op_signedMultiply concrete_ops = Concrete_signedMultiply"
  "op_unsignedDivide concrete_ops = Concrete_unsignedDivide" "op_unsignedModulo concrete_ops = Concrete_unsignedModulo"
  "op_unsignedMultiply concrete_ops = Concrete_unsignedMultiply"
  by (simp_all add: concrete_ops_def)

lemmas value_laws = cv.and_law cv.or_law cv.xor_law cv.invert_law cv.rotateRight_law cv.shiftLeft_law
  cv.shiftRight_law cv.shiftRightArithmetic_law cv.equalToZero cv.unsignedExtend cv.signExtend_law cv.add_law
  cv.signedDivide cv.signedModulo cv.signedMultiply cv.unsignedDivide cv.unsignedModulo cv.unsignedMultiply
  cv.number cv.boolean cv.isEqual cv.isNotEqual cv.isUnsignedLessThan cv.isSignedLessThan cv.isSignedLessThanOrEqual
  cv.isSignedGreaterThan cv.isSignedGreaterThanOrEqual cv.countLeadingZeros cv.countLeadingOnes cv.subtract_law

lemmas value_steps = value_laws [unfolded concrete_ops_sel, THEN succeeds_bind]

text \<open>Selecting, cutting and joining, with the widths as the caller needs them.\<close>

lemma ite_step:
  assumes "sv_is c 1 (of_bool z)" "sv_is a n x" "sv_is b n y" "\<And>r. sv_is r n (if z then x else y) \<Longrightarrow> succeeds (f r) Q"
  shows "succeeds (Concrete_ite c a b \<bind> f) Q"
  by (rule succeeds_bind [OF cv.ite [OF assms(1-3), unfolded concrete_ops_sel]]) (rule assms(4), cases z; simp)

lemma extract_step:
  assumes "sv_is a n x" "i < j" "j \<le> n" "\<And>r. sv_is r (j - i) (x div 2 ^ i mod 2 ^ (j - i)) \<Longrightarrow> succeeds (f r) Q"
  shows "succeeds (Concrete_extract a i j \<bind> f) Q"
  by (rule succeeds_bind [OF cv.extract_law [OF assms(1-3), unfolded concrete_ops_sel]]) (rule assms(4))

lemma concat_step:
  assumes "sv_is a n x" "sv_is b m y" "0 < n" "\<And>r. sv_is r (m + n) (y + 2 ^ m * x) \<Longrightarrow> succeeds (f r) Q"
  shows "succeeds (concatHiLo a b \<bind> f) Q"
  unfolding concatHiLo_def by (rule succeeds_bind [OF cv.concatHiLo [OF assms(1-3)]]) (rule assms(4))

lemma args_step: "length (operands insn) = n \<Longrightarrow> succeeds (f ()) Q \<Longrightarrow> succeeds (assert_args insn n \<bind> f) Q"
  by (simp add: assert_args_def)

text \<open>The argument \<open>i\<close> of an instruction is the given operand.\<close>

definition arg :: "mips_insn \<Rightarrow> nat \<Rightarrow> operand \<Rightarrow> bool" where
  "arg insn i p \<longleftrightarrow> operands insn ! i = operand_expr p \<and> operand_ok p"

context machine_laws
begin

lemma bind_read:
  assumes "succeeds r (\<lambda>(v, mc). sv_is v n x \<and> rep mc s)" "\<And>v mc. sv_is v n x \<Longrightarrow> rep mc s \<Longrightarrow> succeeds (f v mc) Q"
  shows "succeeds (r \<bind> (\<lambda>(v, mc). f v mc)) Q"
  by (rule succeeds_bind [OF assms(1)]) (use assms(2) in auto)

lemmas read_reg_step = read_reg [THEN bind_read]

lemma read_gpr:
  assumes "rep mc s" "i < 32"
  shows "succeeds (Dispatcher_read (Mips32 bo ar) mc (gpr_expr i) n a)
    (\<lambda>(v, mc'). sv_is v (if n = 0 then 32 else n) (gpr s i mod 2 ^ (if n = 0 then 32 else n)) \<and> rep mc' s)"
proof (cases "i = 0")
  case True
  then show ?thesis using assms SValue_number_is [of "if n = 0 then 32 else n" 0]
    by (auto simp: gpr_expr_def gpr_def elim!: succeedsE)
next
  case False
  let ?n = "if n = 0 then 32 else n"
  have w: "value_width (gpr_expr i) n = Some ?n" using assms(2) by (auto simp: value_width_def gpr_expr_def)
  have z: "virtual_read (Mips32 bo ar) (gpr_expr i) n = None" using assms(2) False by (simp add: gpr_expr_def gpr_eq_iff)
  have "succeeds (readRegister1 mc (mips_gpr i) \<bind> (\<lambda>(v, mc). fit_value v ?n \<bind> (\<lambda>v. Some (v, mc))))
      (\<lambda>(v, mc'). sv_is v ?n (gpr s i mod 2 ^ ?n) \<and> rep mc' s)"
  proof (rule read_reg_step [OF assms(1)])
    show "0 < reg_nBits (mips_gpr i)" "reg_ok (mips_gpr i)" using assms(2) by simp_all
    fix v mc' assume v: "sv_is v (reg_nBits (mips_gpr i)) (get_reg s (mips_gpr i))" and r: "rep mc' s"
    from v have v32: "sv_is v 32 (gpr s i)" using assms(2) False by (simp add: gpr_def)
    show "succeeds (fit_value v ?n \<bind> (\<lambda>v. Some (v, mc'))) (\<lambda>(v, mc'). sv_is v ?n (gpr s i mod 2 ^ ?n) \<and> rep mc' s)"
    proof (cases "?n = 32")
      case True
      then show ?thesis using v32 r value_of_width(1) [OF v32] sv_is_less [OF v32] by simp
    next
      case False
      then have "fit_value v ?n = Concrete_unsignedExtend v ?n" using sv_isD(1) [OF v32] by (simp add: fit_value_def)
      then show ?thesis using r by (auto intro: succeeds_bind [OF Concrete_extend_is(1) [OF v32]])
    qed
  qed
  with w z show ?thesis by (simp add: gpr_expr_def)
qed

lemma read_gpr_arg:
  assumes "rep mc s" "arg insn i (Gpr j)"
  shows "succeeds (read_arg (Mips32 bo ar) insn i 0 mc) (\<lambda>(v, mc'). sv_is v 32 (gpr s j) \<and> rep mc' s)"
  using read_gpr [OF assms(1), of j bo ar 0 0] gpr_less [of j s] assms(2) by (simp add: read_arg_def arg_def)

lemma read_gpr_arg_width:
  assumes "rep mc s" "arg insn i (Gpr j)" "0 < n"
  shows "succeeds (read_arg (Mips32 bo ar) insn i n mc) (\<lambda>(v, mc'). sv_is v n (gpr s j mod 2 ^ n) \<and> rep mc' s)"
  using read_gpr [OF assms(1), of j bo ar n 0] assms(2,3) by (simp add: read_arg_def arg_def)

lemma read_imm_arg:
  assumes "rep mc s" "arg insn i (Imm t y)"
  shows "succeeds (read_arg (Mips32 bo ar) insn i 0 mc) (\<lambda>(v, mc'). sv_is v t y \<and> rep mc' s)"
proof -
  have "operands insn ! i = imm_expr t y" "operand_ok (Imm t y)" using assms(2) by (simp_all add: arg_def)
  then obtain v where "Dispatcher_read (Mips32 bo ar) mc (operands insn ! i) 0 0 = Some (v, mc)" "sv_is v t y"
    using read_immediate [of t y "Mips32 bo ar" mc 0] by (auto elim!: succeedsE)
  then show ?thesis using assms(1) by (simp add: read_arg_def)
qed

lemma mem_address:
  assumes "rep mc s" "b < 32" "off < 2 ^ 32" "n = 0 \<or> n = 32"
  shows "succeeds (effectiveAddress (Mips32 bo ar) mc (mem_expr (offset_expr b off) t) n)
    (\<lambda>(v, mc'). sv_is v 32 (mem_addr s b off) \<and> rep mc' s)"
proof -
  have n: "addr_nbits (Mips32 bo ar) n = 32" "addr_nbits (Mips32 bo ar) 32 = 32" using assms(4) by (auto simp: addr_nbits_def)
  have reg: "effectiveAddress (Mips32 bo ar) mc (gpr_expr b) 32 =
      Dispatcher_read (Mips32 bo ar) mc (gpr_expr b) 32 0 \<bind> (\<lambda>(v, mc). address_of1 (Some v) mc 32)"
    by (simp add: gpr_expr_def n(2))
  from read_gpr [OF assms(1,2), of bo ar 32 0] gpr_less [OF assms(2), of s] obtain v mc1 where
    v: "Dispatcher_read (Mips32 bo ar) mc (gpr_expr b) 32 0 = Some (v, mc1)" "sv_is v 32 (gpr s b)" "rep mc1 s"
    by (auto elim!: succeedsE)
  from address_immediate [OF assms(3), of bo ar mc1] obtain u where
    u: "effectiveAddress (Mips32 bo ar) mc1 (imm_expr 32 off) 32 = Some (u, mc1)" "sv_is u 32 off" by (auto elim!: succeedsE)
  from Concrete_add_is [OF v(2) u(2)] obtain r where r: "Concrete_add v u = Some r" "sv_is r 32 (mem_addr s b off)"
    by (auto simp: mem_addr_def elim!: succeedsE)
  show ?thesis
    by (simp add: mem_expr_def offset_expr_def n reg v(1) address_of1_def address_of2_def
        value_of_width(2) [OF v(2)] u(1) r(1) value_of_width(2) [OF r(2)]) (simp add: r v)
qed

lemma read_mem_arg:
  assumes "rep mc s" "arg insn i (Mem b off n)"
  shows "succeeds (read_arg (Mips32 bo ar) insn i 0 mc) (\<lambda>(v, mc'). sv_is v (8 * n) (get_mem s (mem_addr s b off) n) \<and> rep mc' s)"
proof -
  have ok: "b < 32" "off < 2 ^ 32" "0 < n" and e: "operands insn ! i = mem_expr (offset_expr b off) (8 * n)"
    using assms(2) by (simp_all add: arg_def)
  from mem_address [OF assms(1) ok(1,2), of 0 bo ar "8 * n"] obtain a mc1 where
    a: "effectiveAddress (Mips32 bo ar) mc (mem_expr (offset_expr b off) (8 * n)) 0 = Some (a, mc1)"
      "sv_is a 32 (mem_addr s b off)" "rep mc1 s" by (auto elim!: succeedsE)
  from undefined_is [of "8 * n"] obtain u where u: "SValue_undefined (8 * n) = Some u" "sv_is u (8 * n) 0" by (rule succeedsE)
  from SValue_boolean_is [of True] obtain c where c: "SValue_boolean True = Some c" "sv_is c 1 1" by (auto elim!: succeedsE)
  from read_mem [OF a(3) empty_segment c(2) a(2) u(2) ok(3)] obtain v mc2 where
    v: "ops_readMemory mc1 RegisterDescriptor_empty a u c = Some (v, mc2)" "sv_is v (8 * n) (get_mem s (mem_addr s b off) n)" "rep mc2 s"
    by (auto elim!: succeedsE)
  show ?thesis using ok(3) a(1)
    by (simp add: read_arg_def e mem_expr_def value_width_def u(1) c(1) v sv_isD(1) [OF a(2)] read_of1_def value_of_width(1) [OF v(2)])
qed

lemma write_gpr_arg:
  assumes "rep mc s" "arg insn i (Gpr j)" "sv_is v 32 x"
  shows "succeeds (write_arg (Mips32 bo ar) insn i v mc) (\<lambda>mc'. rep mc' (set_gpr s j x))"
proof -
  have j: "j < 32" "operands insn ! i = gpr_expr j" using assms(2) by (simp_all add: arg_def)
  show ?thesis using write_reg [OF assms(1), of "mips_gpr j" v x] j assms(3)
    by (simp add: write_arg_def gpr_expr_def set_gpr_def)
qed

lemma write_mem_arg:
  assumes "rep mc s" "arg insn i (Mem b off n)" "sv_is v (8 * k) x"
  shows "succeeds (write_arg (Mips32 bo ar) insn i v mc) (\<lambda>mc'. rep mc' (set_mem s (mem_addr s b off) k x))"
proof -
  have ok: "b < 32" "off < 2 ^ 32" and e: "operands insn ! i = mem_expr (offset_expr b off) (8 * n)"
    using assms(2) by (simp_all add: arg_def)
  from mem_address [OF assms(1) ok(1,2), of 0 bo ar "8 * n"] obtain a mc1 where
    a: "effectiveAddress (Mips32 bo ar) mc (mem_expr (offset_expr b off) (8 * n)) 0 = Some (a, mc1)"
      "sv_is a 32 (mem_addr s b off)" "rep mc1 s" by (auto elim!: succeedsE)
  from SValue_boolean_is [of True] obtain c where c: "SValue_boolean True = Some c" "sv_is c 1 1" by (auto elim!: succeedsE)
  show ?thesis using a(1) write_mem [OF a(3) empty_segment c(2) a(2) assms(3)]
    by (simp add: write_arg_def e mem_expr_def c(1) sv_isD(1) [OF a(2)])
qed

lemma raise_is:
  assumes "rep mc s" "sv_is c 1 (of_bool z)"
  shows "succeeds (raiseInterrupt mc c) (\<lambda>mc'. rep mc' (if z then cleared s else s))"
  using assms(1) interrupt [OF assms(1)] sv_isD(1) [OF assms(2)] SValue_toUnsigned_is [OF assms(2)]
  by (cases z) (simp_all add: raiseInterrupt_def SValue_isTrue_def SValue_isFalse_def)

lemma advance_is:
  assumes "rep mc s"
  shows "succeeds (advanceInstructionPointer (Mips32 bo True) mc addr k)
    (\<lambda>mc'. rep mc' (set_reg s REG_PC (unat (addr + k) mod 2 ^ 32)))"
proof -
  have k: "(unat addr mod 2 ^ 32 + unat k mod 2 ^ 32) mod 2 ^ 32 = unat (addr + k) mod 2 ^ 32"
    by (simp add: unat_word_ariths mod_mod_cancel mod_simps)
  show ?thesis unfolding advanceInstructionPointer_def Let_def
    by (simp, rule succeeds_bind [OF SValue_number_is], rule succeeds_bind [OF SValue_number_is],
      rule succeeds_bind [OF Concrete_add_is], assumption, assumption, unfold k,
      rule write_reg [OF assms], simp_all)
qed

lemma link_is:
  "succeeds (link_value (Mips32 bo ar) insn) (\<lambda>v. sv_is v 32 (unat (get_address insn + 8) mod 2 ^ 32))"
proof -
  have k: "(unat (get_address insn) mod 2 ^ 32 + unat (8 :: 64 word) mod 2 ^ 32) mod 2 ^ 32 = unat (get_address insn + 8) mod 2 ^ 32"
    by (simp add: unat_word_ariths mod_mod_cancel mod_simps)
  show ?thesis unfolding link_value_def
    by (simp only: mips32, rule succeeds_bind [OF SValue_number_is], rule succeeds_bind [OF SValue_number_is])
      (unfold k [symmetric], rule Concrete_add_is, assumption+)
qed

lemmas read_steps = read_gpr_arg [THEN bind_read] read_imm_arg [THEN bind_read] read_mem_arg [THEN bind_read]

lemmas write_steps = write_gpr_arg [THEN succeeds_bind] write_reg [THEN succeeds_bind]

end

end
