(* ===== verification/Mips_Registers.thy ===== *)
theory Mips_Registers
  imports Mips_Makers Mips_Operands
begin

text \<open>
  What the names of registers stand for: lookups in the register dictionary, and the operands that the
  disassembler makes of them.
\<close>

section \<open>Decimal notation\<close>

definition digit_value :: "char \<Rightarrow> nat" where
  "digit_value c = of_char c - 48"

definition decimal_value :: "string \<Rightarrow> nat" where
  "decimal_value cs = foldl (\<lambda>v c. 10 * v + digit_value c) 0 cs"

lemma digit_char: "(n :: nat) < 10 \<Longrightarrow> of_char (char_of (48 + n) :: char) = 48 + n"
  by (simp add: of_char_of mod_less)

lemma numberToString_roundtrip: "decimal_value (numberToString n) = n"
proof (induction n rule: numberToString.induct)
  case (1 n)
  show ?case
  proof (cases "n < 10")
    case True
    then show ?thesis by (simp add: numberToString.simps [of n] decimal_value_def digit_value_def digit_char)
  next
    case False
    with 1 show ?thesis by (simp add: numberToString.simps [of n] decimal_value_def digit_value_def digit_char)
  qed
qed

lemma numberToString_inject: "numberToString m = numberToString n \<longleftrightarrow> m = n"
  by (metis numberToString_roundtrip)

lemma numberToString_digits: "c \<in> set (numberToString n) \<Longrightarrow> 48 \<le> (of_char c :: nat) \<and> of_char c < (58 :: nat)"
proof (induction n rule: numberToString.induct)
  case (1 n)
  then show ?case by (subst (asm) (2) numberToString.simps) (auto simp: digit_char split: if_split_asm)
qed

lemma numberToString_nonempty: "numberToString n \<noteq> []"
  by (subst numberToString.simps) simp

text \<open>A text that starts with a character that is no digit, or holds one, is no number.\<close>

lemma not_number: "\<not> (48 \<le> (of_char c :: nat) \<and> of_char c < (58 :: nat)) \<Longrightarrow> c \<in> set cs \<Longrightarrow> numberToString n \<noteq> cs"
  using numberToString_digits by metis

lemma not_number_append:
  "\<not> (48 \<le> (of_char c :: nat) \<and> of_char c < (58 :: nat)) \<Longrightarrow> numberToString n @ s \<noteq> c # cs"
  using numberToString_digits [of "hd (numberToString n)" n] numberToString_nonempty [of n] by (cases "numberToString n") auto

lemma number_suffix: "numberToString m @ ''d'' = numberToString n @ ''d'' \<longleftrightarrow> m = n" "numberToString m \<noteq> numberToString n @ ''d''"
  using not_number [of "CHR ''d''"] by (auto simp: numberToString_inject of_char_def)

section \<open>Lookups\<close>

lemma map_of_numbered: "map_of (map (\<lambda>i. (c # numberToString i, f i)) [0..<k]) (c # numberToString n) = (if n < k then Some (f n) else None)"
  by (induction k) (auto simp: map_add_def numberToString_inject less_Suc_eq)

lemma map_of_general: "map_of (concat (map (\<lambda>i. [(''r'' @ numberToString i, f i), (''hw'' @ numberToString i, g i)]) [0..<k])) (''r'' @ numberToString n) =
    (if n < k then Some (f n) else None)"
  by (induction k) (auto simp: map_add_def numberToString_inject less_Suc_eq)

lemma find_gpr: "n < 32 \<Longrightarrow> find_register (''r'' @ numberToString n) = mips_gpr n"
  using map_of_general [of "\<lambda>i. mips_reg 0 i 0 32" "\<lambda>i. mips_reg 8 i 0 32" 32 n]
  by (simp add: find_register_def registerDictionary_def mips_gpr_def map_add_def del: map_of.simps)

end
