(* ===== verification/Mips_Names.thy ===== *)
theory Mips_Names
  imports Mips_Registers
begin

text \<open>
  The registers of the coprocessors as operands: which names of the register dictionary the disassembler
  finds for a register number.
\<close>

section \<open>Floating-point names\<close>

lemma map_of_append_cases: "map_of (xs @ ys) k = (case map_of xs k of None \<Rightarrow> map_of ys k | Some v \<Rightarrow> Some v)"
  by (simp add: map_add_def)

lemma map_of_general_other:
  "c \<noteq> CHR ''r'' \<Longrightarrow> c \<noteq> CHR ''h'' \<Longrightarrow>
    map_of (concat (map (\<lambda>i. [(''r'' @ numberToString i, f i), (''hw'' @ numberToString i, g i)]) [0..<k])) (c # s) = None"
  by (induction k) (auto simp: map_add_def)

lemma map_of_other: "c \<noteq> c' \<Longrightarrow> map_of (map (\<lambda>i. (c' # t i, f i)) is) (c # s) = None"
  by (induction "is") auto

lemma map_of_double: "map_of (map (\<lambda>i. (''f'' @ numberToString i @ ''d'', f i)) [0..<k]) (''f'' @ numberToString n @ ''d'') = (if n < k then Some (f n) else None)"
  by (induction k) (auto simp: map_add_def numberToString_inject less_Suc_eq)

lemma map_of_single_double: "map_of (map (\<lambda>i. (''f'' @ numberToString i, f i)) [0..<k]) (''f'' @ numberToString n @ ''d'') = None"
  by (induction k) (auto simp: map_add_def number_suffix(2) [symmetric])

lemma not_names: "numberToString n \<noteq> ''p''" "numberToString n @ ''d'' \<noteq> CHR ''p'' # s" "numberToString n @ ''d'' \<noteq> CHR ''i'' # s"
  "numberToString n @ ''d'' \<noteq> CHR ''c'' # s" "numberToString n @ ''d'' \<noteq> CHR ''e'' # s"
  using not_number [of "CHR ''p''" "''p''" n] not_number_append [of "CHR ''p''" n "''d''" s] not_number_append [of "CHR ''i''" n "''d''" s]
    not_number_append [of "CHR ''c''" n "''d''" s] not_number_append [of "CHR ''e''" n "''d''" s] by (auto simp: of_char_def)

lemma find_float:
  assumes "s \<noteq> ''p''"
  shows "map_of registerDictionary (''f'' @ s) =
    (case map_of (map (\<lambda>i. (''f'' @ numberToString i, mips_reg 2 i 0 32)) [0..<32]) (''f'' @ s) of
       Some r \<Rightarrow> Some r
     | None \<Rightarrow> (case map_of (map (\<lambda>i. (''f'' @ numberToString i @ ''d'', mips_reg 2 (i * 2) 0 64)) [0..<16]) (''f'' @ s) of
         Some r \<Rightarrow> Some r
       | None \<Rightarrow> map_of [(''fir'', mips_reg 1 3 0 32), (''fcsr'', mips_reg 3 0 0 32), (''fccr'', mips_reg 3 1 0 32), (''fexr'', mips_reg 3 2 0 32),
           (''fenr'', mips_reg 3 3 0 32), (''fir.d'', mips_reg 1 3 17 1), (''fir.s'', mips_reg 1 3 16 1), (''fir.processorid'', mips_reg 1 3 8 8),
           (''fir.revision'', mips_reg 1 3 0 8)] (''f'' @ s)))"
  using assms by (simp add: registerDictionary_def map_of_append_cases map_of_general_other [simplified] map_of_other del: map_of_append cong: option.case_cong)

lemma find_single: "n < 32 \<Longrightarrow> find_register (''f'' @ numberToString n) = mips_reg 2 n 0 32"
  using find_float [of "numberToString n"] map_of_numbered [of "CHR ''f''" "\<lambda>i. mips_reg 2 i 0 32" 32 n]
  by (simp add: find_register_def not_names)

lemma find_double: "find_register (''f'' @ numberToString n @ ''d'') = (if n < 16 then mips_reg 2 (n * 2) 0 64 else RegisterDescriptor_empty)"
  using find_float [of "numberToString n @ ''d''"] map_of_single_double [of "\<lambda>i. mips_reg 2 i 0 32" 32 n]
    map_of_double [of "\<lambda>i. mips_reg 2 (i * 2) 0 64" 16 n]
  by (simp add: find_register_def not_names)

section \<open>Names of coprocessor 0\<close>

text \<open>The names of the dictionary start with a small letter, those of coprocessor 0 with a capital one.\<close>

lemma dictionary_small: "(name, reg) \<in> set registerDictionary \<Longrightarrow> 97 \<le> (of_char (hd name) :: nat)"
  by (auto simp: registerDictionary_def of_char_def)

lemma cp0_capital: "list_all (list_all (\<lambda>s. s = [] \<or> (of_char (hd s) :: nat) < 97)) cp0_names" "length cp0_names = 32"
  by (simp_all add: cp0_names_def of_char_def)

lemma find_capital: "(of_char (hd s) :: nat) < 97 \<Longrightarrow> find_register s = RegisterDescriptor_empty"
  using dictionary_small [of s] by (force simp: find_register_def split: option.split dest: map_of_SomeD)

lemma makeCp0Register_fails: "makeCp0Register regnum sel = None"
proof (cases "regnum < 32")
  case True
  let ?row = "cp0_names ! unat regnum"
  have "list_all (\<lambda>s. s = [] \<or> (of_char (hd s) :: nat) < 97) ?row"
    using cp0_capital True by (simp add: list_all_length word_less_nat_alt)
  then have "s = [] \<or> find_register s = RegisterDescriptor_empty" if "s = (if unat sel < length ?row then ?row ! unat sel else [])" for s
    using that find_capital by (auto simp: list_all_length)
  then show ?thesis by (auto simp: makeCp0Register_def Let_def require_def empty_segment)
qed (simp add: makeCp0Register_def require_def)

section \<open>Operands\<close>

text \<open>
  C38. The registers that a register number of a coprocessor names. A floating-point number of single
  precision is the register of that number. One of double precision is the pair of registers that starts at
  twice the number, and there is none from 16 on: a number of the instruction set's even numbering names the
  wrong pair or no register. A register of coprocessor 0 is never found, whatever its number.
\<close>

theorem coprocessor_registers:
  assumes "n < 32"
  shows "makeFpRegister (of_nat n) mips_fmt_s = Some (DirectRegister (mips_reg 2 n 0 32) 0 32) \<and>
    makeFpRegister (of_nat n) mips_fmt_d = (if n < 16 then Some (DirectRegister (mips_reg 2 (2 * n) 0 64) 0 64) else None) \<and>
    makeCp0Register regnum sel = None"
proof -
  have n: "unat (of_nat n :: 32 word) = n" using assms by (simp add: unat_of_nat)
  have "makeFpRegister (of_nat n) mips_fmt_s = Some (DirectRegister (mips_reg 2 n 0 32) 0 32)"
    using assms find_single [OF assms] by (simp add: makeFpRegister_def n reg_isEmpty_def mips_reg_fields)
  moreover have "makeFpRegister (of_nat n) mips_fmt_d = (if n < 16 then Some (DirectRegister (mips_reg 2 (2 * n) 0 64) 0 64) else None)"
    using assms find_double [of n] by (auto simp: makeFpRegister_def n reg_isEmpty_def mips_reg_fields empty_segment [unfolded reg_isEmpty_def, symmetric] mult.commute Let_def)
  ultimately show ?thesis using makeCp0Register_fails by blast
qed

theorem coprocessor_registers_witness:
  "makeFpRegister 2 mips_fmt_d = Some (DirectRegister (mips_reg 2 4 0 64) 0 64) \<and> makeFpRegister 16 mips_fmt_d = None"
  using coprocessor_registers [of 2] coprocessor_registers [of 16] by simp

end
