(* ===== verification/Mips_Decoders.thy ===== *)
theory Mips_Decoders
  imports Mips_Makers
begin

text \<open>
  The instruction-specific disassemblers of \<^verbatim>\<open>Disassembler/Mips.C\<close>, one definition for each
  \<^verbatim>\<open>Mips::Decoder\<close> subclass in the order of the source: the bits that an instruction word must have
  (\<open>d_match\<close> under \<open>d_mask\<close>) and the instruction made of it. The constants of the source are octal
  unless they have no leading zero.
\<close>

definition mips32_abs_s :: decoder where
  "mips32_abs_s = Decoder Release1 (sOP 17 OR sR0 16 OR sR1 0 OR sFN 5) (mOP OR mR0 OR mR1 OR mFN)
    (\<lambda>insn_va ib. do {
       op1 \<leftarrow> makeFpRegister (gR3 ib) mips_fmt_s;
       op2 \<leftarrow> makeFpRegister (gR2 ib) mips_fmt_s;
       Some (makeInstruction insn_va mips_abs_s [op1, op2])
     })"

definition mips32_abs_d :: decoder where
  "mips32_abs_d = Decoder Release1 (sOP 17 OR sR0 17 OR sR1 0 OR sFN 5) (mOP OR mR0 OR mR1 OR mFN)
    (\<lambda>insn_va ib. do {
       op1 \<leftarrow> makeFpRegister (gR3 ib) mips_fmt_d;
       op2 \<leftarrow> makeFpRegister (gR2 ib) mips_fmt_d;
       Some (makeInstruction insn_va mips_abs_d [op1, op2])
     })"

definition mips32_abs_ps :: decoder where
  "mips32_abs_ps = Decoder Release2 (sOP 17 OR sR0 22 OR sR1 0 OR sFN 5) (mOP OR mR0 OR mR1 OR mFN)
    (\<lambda>insn_va ib. do {
       op1 \<leftarrow> makeFpRegister (gR3 ib) mips_fmt_ps;
       op2 \<leftarrow> makeFpRegister (gR2 ib) mips_fmt_ps;
       Some (makeInstruction insn_va mips_abs_ps [op1, op2])
     })"

definition mips32_add :: decoder where
  "mips32_add = Decoder Release1 (sOP 0 OR sR3 0 OR sFN 32) (mOP OR mR3 OR mFN)
    (\<lambda>insn_va ib. do {
       op1 \<leftarrow> makeRegister (gR2 ib);
       op2 \<leftarrow> makeRegister (gR0 ib);
       op3 \<leftarrow> makeRegister (gR1 ib);
       Some (makeInstruction insn_va mips_add [op1, op2, op3])
     })"

definition mips32_add_s :: decoder where
  "mips32_add_s = Decoder Release1 (sOP 17 OR sR0 16 OR sFN 0) (mOP OR mR0 OR mFN)
    (\<lambda>insn_va ib. do {
       op1 \<leftarrow> makeFpRegister (gR3 ib) mips_fmt_s;
       op2 \<leftarrow> makeFpRegister (gR2 ib) mips_fmt_s;
       op3 \<leftarrow> makeFpRegister (gR1 ib) mips_fmt_s;
       Some (makeInstruction insn_va mips_add_s [op1, op2, op3])
     })"

definition mips32_add_d :: decoder where
  "mips32_add_d = Decoder Release1 (sOP 17 OR sR0 17 OR sFN 0) (mOP OR mR0 OR mFN)
    (\<lambda>insn_va ib. do {
       op1 \<leftarrow> makeFpRegister (gR3 ib) mips_fmt_d;
       op2 \<leftarrow> makeFpRegister (gR2 ib) mips_fmt_d;
       op3 \<leftarrow> makeFpRegister (gR1 ib) mips_fmt_d;
       Some (makeInstruction insn_va mips_add_d [op1, op2, op3])
     })"

definition mips32_add_ps :: decoder where
  "mips32_add_ps = Decoder Release2 (sOP 17 OR sR0 22 OR sFN 0) (mOP OR mR0 OR mFN)
    (\<lambda>insn_va ib. do {
       op1 \<leftarrow> makeFpRegister (gR3 ib) mips_fmt_ps;
       op2 \<leftarrow> makeFpRegister (gR2 ib) mips_fmt_ps;
       op3 \<leftarrow> makeFpRegister (gR1 ib) mips_fmt_ps;
       Some (makeInstruction insn_va mips_add_ps [op1, op2, op3])
     })"

definition mips32_addi :: decoder where
  "mips32_addi = Decoder Release1 (sOP 8) (mOP)
    (\<lambda>insn_va ib. do {
       op1 \<leftarrow> makeRegister (gR1 ib);
       op2 \<leftarrow> makeRegister (gR0 ib);
       op3 \<leftarrow> makeImmediate16 (gIM ib);
       Some (makeInstruction insn_va mips_addi [op1, op2, op3])
     })"

definition mips32_addiu :: decoder where
  "mips32_addiu = Decoder Release1 (sOP 9) (mOP)
    (\<lambda>insn_va ib. do {
       op1 \<leftarrow> makeRegister (gR1 ib);
       op2 \<leftarrow> makeRegister (gR0 ib);
       op3 \<leftarrow> makeImmediate16 (gIM ib);
       Some (makeInstruction insn_va mips_addiu [op1, op2, op3])
     })"

definition mips32_addu :: decoder where
  "mips32_addu = Decoder Release1 (sOP 0 OR sR3 0 OR sFN 33) (mOP OR mR3 OR mFN)
    (\<lambda>insn_va ib. do {
       op1 \<leftarrow> makeRegister (gR2 ib);
       op2 \<leftarrow> makeRegister (gR0 ib);
       op3 \<leftarrow> makeRegister (gR1 ib);
       Some (makeInstruction insn_va mips_addu [op1, op2, op3])
     })"

definition mips32_alnv_ps :: decoder where
  "mips32_alnv_ps = Decoder Release2 (sOP 19 OR sFN 30) (mOP OR mFN)
    (\<lambda>insn_va ib. do {
       op1 \<leftarrow> makeFpRegister (gR3 ib) mips_fmt_ps;
       op2 \<leftarrow> makeFpRegister (gR2 ib) mips_fmt_ps;
       op3 \<leftarrow> makeFpRegister (gR1 ib) mips_fmt_ps;
       op4 \<leftarrow> makeRegister (gR0 ib);
       Some (makeInstruction insn_va mips_alnv_ps [op1, op2, op3, op4])
     })"

definition mips32_and :: decoder where
  "mips32_and = Decoder Release1 (sOP 0 OR sR3 0 OR sFN 36) (mOP OR mR3 OR mFN)
    (\<lambda>insn_va ib. do {
       op1 \<leftarrow> makeRegister (gR2 ib);
       op2 \<leftarrow> makeRegister (gR0 ib);
       op3 \<leftarrow> makeRegister (gR1 ib);
       Some (makeInstruction insn_va mips_and [op1, op2, op3])
     })"

definition mips32_andi :: decoder where
  "mips32_andi = Decoder Release1 (sOP 12) (mOP)
    (\<lambda>insn_va ib. do {
       op1 \<leftarrow> makeRegister (gR1 ib);
       op2 \<leftarrow> makeRegister (gR0 ib);
       op3 \<leftarrow> makeImmediate16 (gIM ib);
       Some (makeInstruction insn_va mips_andi [op1, op2, op3])
     })"

definition mips32_bc1f :: decoder where
  "mips32_bc1f = Decoder Release1 (sOP 17 OR sR0 8 OR shift_to 16 17 0) (mOP OR mR0 OR mask_for 16 17)
    (\<lambda>insn_va ib. do {
       let cc = extract_field 18 20 ib;
       op1 \<leftarrow> makeFpccRegister cc;
       op2 \<leftarrow> makeBranchTargetRelative insn_va (gIM ib);
       Some (makeInstruction insn_va mips_bc1f [op1, op2])
     })"

definition mips32_bc1fl :: decoder where
  "mips32_bc1fl = Decoder Release1 (sOP 17 OR sR0 8 OR shift_to 16 17 2) (mOP OR mR0 OR mask_for 16 17)
    (\<lambda>insn_va ib. do {
       let cc = extract_field 18 20 ib;
       op1 \<leftarrow> makeFpccRegister cc;
       op2 \<leftarrow> makeBranchTargetRelative insn_va (gIM ib);
       Some (makeInstruction insn_va mips_bc1fl [op1, op2])
     })"

definition mips32_bc1t :: decoder where
  "mips32_bc1t = Decoder Release1 (sOP 17 OR sR0 8 OR shift_to 16 17 1) (mOP OR mR0 OR mask_for 16 17)
    (\<lambda>insn_va ib. do {
       let cc = extract_field 18 20 ib;
       op1 \<leftarrow> makeFpccRegister cc;
       op2 \<leftarrow> makeBranchTargetRelative insn_va (gIM ib);
       Some (makeInstruction insn_va mips_bc1t [op1, op2])
     })"

definition mips32_bc1tl :: decoder where
  "mips32_bc1tl = Decoder Release1 (sOP 21 OR sR0 8 OR shift_to 16 17 3) (mOP OR mR0 OR mask_for 16 17)
    (\<lambda>insn_va ib. do {
       let cc = extract_field 18 20 ib;
       op1 \<leftarrow> makeFpccRegister cc;
       op2 \<leftarrow> makeBranchTargetRelative insn_va (gIM ib);
       Some (makeInstruction insn_va mips_bc1tl [op1, op2])
     })"

definition mips32_bc2f :: decoder where
  "mips32_bc2f = Decoder Release1 (sOP 18 OR sR0 8 OR shift_to 16 17 0) (mOP OR mR0 OR mask_for 16 17)
    (\<lambda>insn_va ib. do {
       let cc = extract_field 18 20 ib;
       op1 \<leftarrow> makeCp2ccRegister cc;
       op2 \<leftarrow> makeBranchTargetRelative insn_va (gIM ib);
       Some (makeInstruction insn_va mips_bc2f [op1, op2])
     })"

definition mips32_bc2fl :: decoder where
  "mips32_bc2fl = Decoder Release1 (sOP 18 OR sR0 8 OR shift_to 16 17 2) (mOP OR mR0 OR mask_for 16 17)
    (\<lambda>insn_va ib. do {
       let cc = extract_field 18 20 ib;
       op1 \<leftarrow> makeCp2ccRegister cc;
       op2 \<leftarrow> makeBranchTargetRelative insn_va (gIM ib);
       Some (makeInstruction insn_va mips_bc2fl [op1, op2])
     })"

definition mips32_bc2t :: decoder where
  "mips32_bc2t = Decoder Release1 (sOP 18 OR sR0 8 OR shift_to 16 17 1) (mOP OR mR0 OR mask_for 16 17)
    (\<lambda>insn_va ib. do {
       let cc = extract_field 18 20 ib;
       op1 \<leftarrow> makeCp2ccRegister cc;
       op2 \<leftarrow> makeBranchTargetRelative insn_va (gIM ib);
       Some (makeInstruction insn_va mips_bc2t [op1, op2])
     })"

definition mips32_bc2tl :: decoder where
  "mips32_bc2tl = Decoder Release1 (sOP 18 OR sR0 8 OR shift_to 16 17 3) (mOP OR mR0 OR mask_for 16 17)
    (\<lambda>insn_va ib. do {
       let cc = extract_field 18 20 ib;
       op1 \<leftarrow> makeCp2ccRegister cc;
       op2 \<leftarrow> makeBranchTargetRelative insn_va (gIM ib);
       Some (makeInstruction insn_va mips_bc2tl [op1, op2])
     })"

definition mips32_beq :: decoder where
  "mips32_beq = Decoder Release1 (sOP 4) (mOP)
    (\<lambda>insn_va ib. (if gR0 ib = 0 \<and> gR1 ib = 0 then do {
         op1 \<leftarrow> makeBranchTargetRelative insn_va (gIM ib);
         Some (makeInstruction insn_va mips_b [op1])
       } else do {
         op1 \<leftarrow> makeRegister (gR0 ib);
         op2 \<leftarrow> makeRegister (gR1 ib);
         op3 \<leftarrow> makeBranchTargetRelative insn_va (gIM ib);
         Some (makeInstruction insn_va mips_beq [op1, op2, op3])
       }))"

definition mips32_beql :: decoder where
  "mips32_beql = Decoder Release1 (sOP 20) (mOP)
    (\<lambda>insn_va ib. do {
       op1 \<leftarrow> makeRegister (gR0 ib);
       op2 \<leftarrow> makeRegister (gR1 ib);
       op3 \<leftarrow> makeBranchTargetRelative insn_va (gIM ib);
       Some (makeInstruction insn_va mips_beql [op1, op2, op3])
     })"

definition mips32_bgez :: decoder where
  "mips32_bgez = Decoder Release1 (sOP 1 OR sR1 1) (mOP OR mR1)
    (\<lambda>insn_va ib. do {
       op1 \<leftarrow> makeRegister (gR0 ib);
       op2 \<leftarrow> makeBranchTargetRelative insn_va (gIM ib);
       Some (makeInstruction insn_va mips_bgez [op1, op2])
     })"

definition mips32_bgezal :: decoder where
  "mips32_bgezal = Decoder Release1 (sOP 1 OR sR1 17) (mOP OR mR1)
    (\<lambda>insn_va ib. (if gR0 ib = 0 then do {
         op1 \<leftarrow> makeBranchTargetRelative insn_va (gIM ib);
         Some (makeInstruction insn_va mips_bal [op1])
       } else do {
         op1 \<leftarrow> makeRegister (gR0 ib);
         op2 \<leftarrow> makeBranchTargetRelative insn_va (gIM ib);
         Some (makeInstruction insn_va mips_bgezal [op1, op2])
       }))"

definition mips32_bgezall :: decoder where
  "mips32_bgezall = Decoder Release1 (sOP 1 OR sR1 19) (mOP OR mR1)
    (\<lambda>insn_va ib. do {
       op1 \<leftarrow> makeRegister (gR0 ib);
       op2 \<leftarrow> makeBranchTargetRelative insn_va (gIM ib);
       Some (makeInstruction insn_va mips_bgezall [op1, op2])
     })"

definition mips32_bgezl :: decoder where
  "mips32_bgezl = Decoder Release1 (sOP 1 OR sR1 3) (mOP OR mR1)
    (\<lambda>insn_va ib. do {
       op1 \<leftarrow> makeRegister (gR0 ib);
       op2 \<leftarrow> makeBranchTargetRelative insn_va (gIM ib);
       Some (makeInstruction insn_va mips_bgezl [op1, op2])
     })"

definition mips32_bgtz :: decoder where
  "mips32_bgtz = Decoder Release1 (sOP 7 OR sR1 0) (mOP OR mR1)
    (\<lambda>insn_va ib. do {
       op1 \<leftarrow> makeRegister (gR0 ib);
       op2 \<leftarrow> makeBranchTargetRelative insn_va (gIM ib);
       Some (makeInstruction insn_va mips_bgtz [op1, op2])
     })"

definition mips32_bgtzl :: decoder where
  "mips32_bgtzl = Decoder Release1 (sOP 19 OR sR1 0) (mOP OR mR1)
    (\<lambda>insn_va ib. do {
       op1 \<leftarrow> makeRegister (gR0 ib);
       op2 \<leftarrow> makeBranchTargetRelative insn_va (gIM ib);
       Some (makeInstruction insn_va mips_bgtzl [op1, op2])
     })"

definition mips32_blez :: decoder where
  "mips32_blez = Decoder Release1 (sOP 6 OR sR1 0) (mOP OR mR1)
    (\<lambda>insn_va ib. do {
       op1 \<leftarrow> makeRegister (gR0 ib);
       op2 \<leftarrow> makeBranchTargetRelative insn_va (gIM ib);
       Some (makeInstruction insn_va mips_blez [op1, op2])
     })"

definition mips32_blezl :: decoder where
  "mips32_blezl = Decoder Release1 (sOP 22 OR sR1 0) (mOP OR mR1)
    (\<lambda>insn_va ib. do {
       op1 \<leftarrow> makeRegister (gR0 ib);
       op2 \<leftarrow> makeBranchTargetRelative insn_va (gIM ib);
       Some (makeInstruction insn_va mips_blezl [op1, op2])
     })"

definition mips32_bltz :: decoder where
  "mips32_bltz = Decoder Release1 (sOP 1 OR sR1 0) (mOP OR mR1)
    (\<lambda>insn_va ib. do {
       op1 \<leftarrow> makeRegister (gR0 ib);
       op2 \<leftarrow> makeBranchTargetRelative insn_va (gIM ib);
       Some (makeInstruction insn_va mips_bltz [op1, op2])
     })"

definition mips32_bltzal :: decoder where
  "mips32_bltzal = Decoder Release1 (sOP 1 OR sR1 16) (mOP OR mR1)
    (\<lambda>insn_va ib. do {
       op1 \<leftarrow> makeRegister (gR0 ib);
       op2 \<leftarrow> makeBranchTargetRelative insn_va (gIM ib);
       Some (makeInstruction insn_va mips_bltzal [op1, op2])
     })"

definition mips32_bltzall :: decoder where
  "mips32_bltzall = Decoder Release1 (sOP 1 OR sR1 18) (mOP OR mR1)
    (\<lambda>insn_va ib. do {
       op1 \<leftarrow> makeRegister (gR0 ib);
       op2 \<leftarrow> makeBranchTargetRelative insn_va (gIM ib);
       Some (makeInstruction insn_va mips_bltzall [op1, op2])
     })"

definition mips32_bltzl :: decoder where
  "mips32_bltzl = Decoder Release1 (sOP 1 OR sR1 2) (mOP OR mR1)
    (\<lambda>insn_va ib. do {
       op1 \<leftarrow> makeRegister (gR0 ib);
       op2 \<leftarrow> makeBranchTargetRelative insn_va (gIM ib);
       Some (makeInstruction insn_va mips_bltzl [op1, op2])
     })"

definition mips32_bne :: decoder where
  "mips32_bne = Decoder Release1 (sOP 5) (mOP)
    (\<lambda>insn_va ib. do {
       op1 \<leftarrow> makeRegister (gR0 ib);
       op2 \<leftarrow> makeRegister (gR1 ib);
       op3 \<leftarrow> makeBranchTargetRelative insn_va (gIM ib);
       Some (makeInstruction insn_va mips_bne [op1, op2, op3])
     })"

definition mips32_bnel :: decoder where
  "mips32_bnel = Decoder Release1 (sOP 21) (mOP)
    (\<lambda>insn_va ib. do {
       op1 \<leftarrow> makeRegister (gR0 ib);
       op2 \<leftarrow> makeRegister (gR1 ib);
       op3 \<leftarrow> makeBranchTargetRelative insn_va (gIM ib);
       Some (makeInstruction insn_va mips_bnel [op1, op2, op3])
     })"

definition mips32_break :: decoder where
  "mips32_break = Decoder Release1 (sOP 0 OR sFN 13) (mOP OR mFN)
    (\<lambda>insn_va ib. Some (makeInstruction insn_va mips_break []))"

definition mips32_c_cond_s :: decoder where
  "mips32_c_cond_s = Decoder Release1 (sOP 17 OR sR0 16 OR shift_to 4 7 3) (mOP OR mR0 OR mask_for 4 7)
    (\<lambda>insn_va ib. (let cc = extract_field 8 10 ib; condition = extract_field 0 3 ib;
        kinds = [mips_c_f_s, mips_c_un_s, mips_c_eq_s, mips_c_ueq_s, mips_c_olt_s, mips_c_ult_s, mips_c_ole_s, mips_c_ule_s, mips_c_sf_s, mips_c_ngle_s, mips_c_seq_s, mips_c_ngl_s, mips_c_lt_s, mips_c_nge_s, mips_c_le_s, mips_c_ngt_s] in
        do {
          require (condition < 16);
          op1 \<leftarrow> makeFpccRegister cc;
          op2 \<leftarrow> makeFpRegister (gR2 ib) mips_fmt_s;
          op3 \<leftarrow> makeFpRegister (gR1 ib) mips_fmt_s;
          Some (makeInstruction insn_va (kinds ! unat condition) [op1, op2, op3])
        }))"

definition mips32_c_cond_d :: decoder where
  "mips32_c_cond_d = Decoder Release1 (sOP 17 OR sR0 17 OR shift_to 4 7 3) (mOP OR mR0 OR mask_for 4 7)
    (\<lambda>insn_va ib. (let cc = extract_field 8 10 ib; condition = extract_field 0 3 ib;
        kinds = [mips_c_f_d, mips_c_un_d, mips_c_eq_d, mips_c_ueq_d, mips_c_olt_d, mips_c_ult_d, mips_c_ole_d, mips_c_ule_d, mips_c_sf_d, mips_c_ngle_d, mips_c_seq_d, mips_c_ngl_d, mips_c_lt_d, mips_c_nge_d, mips_c_le_d, mips_c_ngt_d] in
        do {
          require (condition < 16);
          op1 \<leftarrow> makeFpccRegister cc;
          op2 \<leftarrow> makeFpRegister (gR2 ib) mips_fmt_d;
          op3 \<leftarrow> makeFpRegister (gR1 ib) mips_fmt_d;
          Some (makeInstruction insn_va (kinds ! unat condition) [op1, op2, op3])
        }))"

definition mips32_c_cond_ps :: decoder where
  "mips32_c_cond_ps = Decoder Release2 (sOP 17 OR sR0 22 OR shift_to 4 7 3) (mOP OR mR0 OR mask_for 4 7)
    (\<lambda>insn_va ib. (let cc = extract_field 8 10 ib; condition = extract_field 0 3 ib;
        kinds = [mips_c_f_ps, mips_c_un_ps, mips_c_eq_ps, mips_c_ueq_ps, mips_c_olt_ps, mips_c_ult_ps, mips_c_ole_ps, mips_c_ule_ps, mips_c_sf_ps, mips_c_ngle_ps, mips_c_seq_ps, mips_c_ngl_ps, mips_c_lt_ps, mips_c_nge_ps, mips_c_le_ps, mips_c_ngt_ps] in
        do {
          require (condition < 16);
          op1 \<leftarrow> makeFpccRegister cc;
          op2 \<leftarrow> makeFpRegister (gR2 ib) mips_fmt_ps;
          op3 \<leftarrow> makeFpRegister (gR1 ib) mips_fmt_ps;
          Some (makeInstruction insn_va (kinds ! unat condition) [op1, op2, op3])
        }))"

definition mips32_cache :: decoder where
  "mips32_cache = Decoder Release1 (sOP 47) (mOP)
    (\<lambda>insn_va ib. do {
       op1 \<leftarrow> makeImmediate8 (gR1 ib);
       op2 \<leftarrow> makeRegisterOffset (gR0 ib) (gIM ib);
       Some (makeInstruction insn_va mips_cache [op1, op2])
     })"

definition mips32_cachee :: decoder where
  "mips32_cachee = Decoder Release1 (sOP 31 OR sFN 27 OR shift_to 6 6 0) (mOP OR mFN OR mask_for 6 6)
    (\<lambda>insn_va ib. do {
       op1 \<leftarrow> makeImmediate8 (gR1 ib);
       op2 \<leftarrow> makeRegisterOffset (gR0 ib) (extract_field 7 15 ib);
       Some (makeInstruction insn_va mips_cachee [op1, op2])
     })"

definition mips32_ceil_l_s :: decoder where
  "mips32_ceil_l_s = Decoder Release2 (of_bool ((sOP 17 OR sR0 16 OR sR1 0) \<noteq> 0 \<or> (sFN 10) \<noteq> 0)) (mOP OR mR0 OR mR1 OR mFN)
    (\<lambda>insn_va ib. do {
       op1 \<leftarrow> makeFpRegister (gR3 ib) mips_fmt_l;
       op2 \<leftarrow> makeFpRegister (gR2 ib) mips_fmt_s;
       Some (makeInstruction insn_va mips_ceil_l_s [op1, op2])
     })"

definition mips32_ceil_l_d :: decoder where
  "mips32_ceil_l_d = Decoder Release2 (sOP 17 OR sR0 17 OR sR1 0 OR sFN 10) (mOP OR mR0 OR mR1 OR mFN)
    (\<lambda>insn_va ib. do {
       op1 \<leftarrow> makeFpRegister (gR3 ib) mips_fmt_l;
       op2 \<leftarrow> makeFpRegister (gR2 ib) mips_fmt_d;
       Some (makeInstruction insn_va mips_ceil_l_d [op1, op2])
     })"

definition mips32_ceil_w_s :: decoder where
  "mips32_ceil_w_s = Decoder Release1 (sOP 17 OR sR0 16 OR sR1 0 OR sFN 14) (mOP OR mR0 OR mR1 OR mFN)
    (\<lambda>insn_va ib. do {
       op1 \<leftarrow> makeFpRegister (gR3 ib) mips_fmt_w;
       op2 \<leftarrow> makeFpRegister (gR2 ib) mips_fmt_s;
       Some (makeInstruction insn_va mips_ceil_w_s [op1, op2])
     })"

definition mips32_ceil_w_d :: decoder where
  "mips32_ceil_w_d = Decoder Release1 (sOP 17 OR sR0 17 OR sR1 0 OR sFN 14) (mOP OR mR0 OR mR1 OR mFN)
    (\<lambda>insn_va ib. do {
       op1 \<leftarrow> makeFpRegister (gR3 ib) mips_fmt_w;
       op2 \<leftarrow> makeFpRegister (gR2 ib) mips_fmt_d;
       Some (makeInstruction insn_va mips_ceil_w_d [op1, op2])
     })"

definition mips32_cfc1 :: decoder where
  "mips32_cfc1 = Decoder Release1 (sOP 17 OR sR0 2 OR shift_to 0 10 0) (mOP OR mR0 OR mask_for 0 10)
    (\<lambda>insn_va ib. do {
       op1 \<leftarrow> makeRegister (gR1 ib);
       op2 \<leftarrow> makeImmediate8 (gR2 ib);
       Some (makeInstruction insn_va mips_cfc1 [op1, op2])
     })"

definition mips32_cfc2 :: decoder where
  "mips32_cfc2 = Decoder Release1 (sOP 18 OR sR0 2) (mOP OR mR0)
    (\<lambda>insn_va ib. do {
       op1 \<leftarrow> makeRegister (gR1 ib);
       op2 \<leftarrow> makeImmediate16 (gIM ib);
       Some (makeInstruction insn_va mips_cfc2 [op1, op2])
     })"

definition mips32_clo :: decoder where
  "mips32_clo = Decoder Release1 (sOP 28 OR sR3 0 OR sFN 33) (mOP OR mR3 OR mFN)
    (\<lambda>insn_va ib. do {
       op1 \<leftarrow> makeRegister (gR2 ib);
       op2 \<leftarrow> makeRegister (gR0 ib);
       Some (makeInstruction insn_va mips_clo [op1, op2])
     })"

definition mips32_clz :: decoder where
  "mips32_clz = Decoder Release1 (sOP 28 OR sR3 0 OR sFN 32) (mOP OR mR3 OR mFN)
    (\<lambda>insn_va ib. do {
       op1 \<leftarrow> makeRegister (gR2 ib);
       op2 \<leftarrow> makeRegister (gR0 ib);
       Some (makeInstruction insn_va mips_clz [op1, op2])
     })"

definition mips32_cop2 :: decoder where
  "mips32_cop2 = Decoder Release1 (sOP 18 OR shift_to 25 25 1) (mOP OR mask_for 25 25)
    (\<lambda>insn_va ib. do {
       op1 \<leftarrow> makeImmediate32 (extract_field 0 24 ib);
       Some (makeInstruction insn_va mips_cop2 [op1])
     })"

definition mips32_ctc1 :: decoder where
  "mips32_ctc1 = Decoder Release1 (sOP 17 OR sR0 6 OR shift_to 0 10 0) (mOP OR mR0 OR mask_for 0 10)
    (\<lambda>insn_va ib. do {
       op1 \<leftarrow> makeRegister (gR1 ib);
       op2 \<leftarrow> makeImmediate8 (gR2 ib);
       Some (makeInstruction insn_va mips_ctc1 [op1, op2])
     })"

definition mips32_ctc2 :: decoder where
  "mips32_ctc2 = Decoder Release1 (sOP 18 OR sR0 6) (mOP OR mR0)
    (\<lambda>insn_va ib. do {
       op1 \<leftarrow> makeRegister (gR1 ib);
       op2 \<leftarrow> makeImmediate16 (gIM ib);
       Some (makeInstruction insn_va mips_ctc2 [op1, op2])
     })"

definition mips32_cvt_d_s :: decoder where
  "mips32_cvt_d_s = Decoder Release1 (sOP 17 OR sR0 16 OR sR1 0 OR sFN 33) (mOP OR mR0 OR mR1 OR mFN)
    (\<lambda>insn_va ib. do {
       op1 \<leftarrow> makeFpRegister (gR3 ib) mips_fmt_d;
       op2 \<leftarrow> makeFpRegister (gR2 ib) mips_fmt_s;
       Some (makeInstruction insn_va mips_cvt_d_s [op1, op2])
     })"

definition mips32_cvt_d_w :: decoder where
  "mips32_cvt_d_w = Decoder Release1 (sOP 17 OR sR0 20 OR sR1 0 OR sFN 33) (mOP OR mR0 OR mR1 OR mFN)
    (\<lambda>insn_va ib. do {
       op1 \<leftarrow> makeFpRegister (gR3 ib) mips_fmt_d;
       op2 \<leftarrow> makeFpRegister (gR2 ib) mips_fmt_w;
       Some (makeInstruction insn_va mips_cvt_d_w [op1, op2])
     })"

definition mips32_cvt_d_l :: decoder where
  "mips32_cvt_d_l = Decoder Release2 (sOP 17 OR sR0 21 OR sR1 0 OR sFN 33) (mOP OR mR0 OR mR1 OR mFN)
    (\<lambda>insn_va ib. do {
       op1 \<leftarrow> makeFpRegister (gR3 ib) mips_fmt_d;
       op2 \<leftarrow> makeFpRegister (gR2 ib) mips_fmt_l;
       Some (makeInstruction insn_va mips_cvt_d_l [op1, op2])
     })"

definition mips32_cvt_l_s :: decoder where
  "mips32_cvt_l_s = Decoder Release2 (sOP 17 OR sR0 16 OR sR1 0 OR sFN 37) (mOP OR mR0 OR mR1 OR mFN)
    (\<lambda>insn_va ib. do {
       op1 \<leftarrow> makeFpRegister (gR3 ib) mips_fmt_l;
       op2 \<leftarrow> makeFpRegister (gR2 ib) mips_fmt_s;
       Some (makeInstruction insn_va mips_cvt_l_s [op1, op2])
     })"

definition mips32_cvt_l_d :: decoder where
  "mips32_cvt_l_d = Decoder Release2 (sOP 21 OR sR0 17 OR sR1 0 OR sFN 37) (mOP OR mR0 OR mR1 OR mFN)
    (\<lambda>insn_va ib. do {
       op1 \<leftarrow> makeFpRegister (gR3 ib) mips_fmt_l;
       op2 \<leftarrow> makeFpRegister (gR2 ib) mips_fmt_d;
       Some (makeInstruction insn_va mips_cvt_l_d [op1, op2])
     })"

definition mips32_cvt_ps_s :: decoder where
  "mips32_cvt_ps_s = Decoder Release2 (sOP 17 OR sR0 16 OR sFN 38) (mOP OR mR0 OR mFN)
    (\<lambda>insn_va ib. do {
       op1 \<leftarrow> makeFpRegister (gR3 ib) mips_fmt_ps;
       op2 \<leftarrow> makeFpRegister (gR2 ib) mips_fmt_s;
       op3 \<leftarrow> makeFpRegister (gR1 ib) mips_fmt_s;
       Some (makeInstruction insn_va mips_cvt_ps_s [op1, op2, op3])
     })"

definition mips32_cvt_s_d :: decoder where
  "mips32_cvt_s_d = Decoder Release1 (sOP 17 OR sR0 17 OR sR1 0 OR sFN 32) (mOP OR mR0 OR mR1 OR mFN)
    (\<lambda>insn_va ib. do {
       op1 \<leftarrow> makeFpRegister (gR3 ib) mips_fmt_s;
       op2 \<leftarrow> makeFpRegister (gR2 ib) mips_fmt_d;
       Some (makeInstruction insn_va mips_cvt_s_d [op1, op2])
     })"

definition mips32_cvt_s_w :: decoder where
  "mips32_cvt_s_w = Decoder Release1 (sOP 17 OR sR0 20 OR sR1 0 OR sFN 32) (mOP OR mR0 OR mR1 OR mFN)
    (\<lambda>insn_va ib. do {
       op1 \<leftarrow> makeFpRegister (gR3 ib) mips_fmt_s;
       op2 \<leftarrow> makeFpRegister (gR2 ib) mips_fmt_w;
       Some (makeInstruction insn_va mips_cvt_s_w [op1, op2])
     })"

definition mips32_cvt_s_l :: decoder where
  "mips32_cvt_s_l = Decoder Release2 (sOP 17 OR sR0 21 OR sR1 0 OR sFN 32) (mOP OR mR0 OR mR1 OR mFN)
    (\<lambda>insn_va ib. do {
       op1 \<leftarrow> makeFpRegister (gR3 ib) mips_fmt_s;
       op2 \<leftarrow> makeFpRegister (gR2 ib) mips_fmt_l;
       Some (makeInstruction insn_va mips_cvt_s_l [op1, op2])
     })"

definition mips32_cvt_s_pl :: decoder where
  "mips32_cvt_s_pl = Decoder Release2 (sOP 17 OR sR0 22 OR sR1 0 OR sFN 40) (mOP OR mR0 OR mR1 OR mFN)
    (\<lambda>insn_va ib. do {
       op1 \<leftarrow> makeFpRegister (gR3 ib) mips_fmt_s;
       op2 \<leftarrow> makeFpRegister (gR2 ib) mips_fmt_ps;
       Some (makeInstruction insn_va mips_cvt_s_pl [op1, op2])
     })"

definition mips32_cvt_s_pu :: decoder where
  "mips32_cvt_s_pu = Decoder Release2 (sOP 17 OR sR0 22 OR sR1 0 OR sFN 32) (mOP OR mR0 OR mR1 OR mFN)
    (\<lambda>insn_va ib. do {
       op1 \<leftarrow> makeFpRegister (gR3 ib) mips_fmt_s;
       op2 \<leftarrow> makeFpRegister (gR2 ib) mips_fmt_ps;
       Some (makeInstruction insn_va mips_cvt_s_pu [op1, op2])
     })"

definition mips32_cvt_w_s :: decoder where
  "mips32_cvt_w_s = Decoder Release1 (sOP 17 OR sR0 16 OR sR1 0 OR sFN 36) (mOP OR mR0 OR mR1 OR mFN)
    (\<lambda>insn_va ib. do {
       op1 \<leftarrow> makeFpRegister (gR3 ib) mips_fmt_w;
       op2 \<leftarrow> makeFpRegister (gR2 ib) mips_fmt_s;
       Some (makeInstruction insn_va mips_cvt_w_s [op1, op2])
     })"

definition mips32_cvt_w_d :: decoder where
  "mips32_cvt_w_d = Decoder Release1 (sOP 17 OR sR0 17 OR sR1 0 OR sFN 36) (mOP OR mR0 OR mR1 OR mFN)
    (\<lambda>insn_va ib. do {
       op1 \<leftarrow> makeFpRegister (gR3 ib) mips_fmt_w;
       op2 \<leftarrow> makeFpRegister (gR2 ib) mips_fmt_d;
       Some (makeInstruction insn_va mips_cvt_w_d [op1, op2])
     })"

definition mips32_di :: decoder where
  "mips32_di = Decoder Release2 (sOP 16 OR sR0 19 OR sR2 20 OR sR3 0 OR shift_to 5 5 0 OR shift_to 3 4 0 OR shift_to 0 2 0) (mOP OR mR0 OR mR2 OR mR3 OR mask_for 5 5 OR mask_for 3 4 OR mask_for 0 2)
    (\<lambda>insn_va ib. do {
       op1 \<leftarrow> makeRegister (gR1 ib);
       Some (makeInstruction insn_va mips_di [op1])
     })"

definition mips32_div :: decoder where
  "mips32_div = Decoder Release1 (sOP 0 OR shift_to 6 15 0 OR sFN 26) (mOP OR mask_for 6 15 OR mFN)
    (\<lambda>insn_va ib. do {
       op1 \<leftarrow> makeRegister (gR0 ib);
       op2 \<leftarrow> makeRegister (gR1 ib);
       Some (makeInstruction insn_va mips_div [op1, op2])
     })"

definition mips32_div_s :: decoder where
  "mips32_div_s = Decoder Release1 (sOP 17 OR sR0 16 OR sFN 3) (mOP OR mR0 OR mFN)
    (\<lambda>insn_va ib. do {
       op1 \<leftarrow> makeFpRegister (gR3 ib) mips_fmt_s;
       op2 \<leftarrow> makeFpRegister (gR2 ib) mips_fmt_s;
       op3 \<leftarrow> makeFpRegister (gR1 ib) mips_fmt_s;
       Some (makeInstruction insn_va mips_div_s [op1, op2, op3])
     })"

definition mips32_div_d :: decoder where
  "mips32_div_d = Decoder Release1 (sOP 17 OR sR0 17 OR sFN 3) (mOP OR mR0 OR mFN)
    (\<lambda>insn_va ib. do {
       op1 \<leftarrow> makeFpRegister (gR3 ib) mips_fmt_d;
       op2 \<leftarrow> makeFpRegister (gR2 ib) mips_fmt_d;
       op3 \<leftarrow> makeFpRegister (gR1 ib) mips_fmt_d;
       Some (makeInstruction insn_va mips_div_d [op1, op2, op3])
     })"

definition mips32_divu :: decoder where
  "mips32_divu = Decoder Release1 (sOP 0 OR shift_to 6 15 0 OR sFN 27) (mOP OR mask_for 6 15 OR mFN)
    (\<lambda>insn_va ib. do {
       op1 \<leftarrow> makeRegister (gR0 ib);
       op2 \<leftarrow> makeRegister (gR1 ib);
       Some (makeInstruction insn_va mips_divu [op1, op2])
     })"

definition mips32_ei :: decoder where
  "mips32_ei = Decoder Release2 (sOP 16 OR sR0 19 OR sR2 12 OR sR3 0 OR shift_to 5 5 1 OR shift_to 3 4 0 OR shift_to 0 2 0) (mOP OR mR0 OR mR2 OR mR3 OR mask_for 5 5 OR mask_for 3 4 OR mask_for 0 2)
    (\<lambda>insn_va ib. do {
       op1 \<leftarrow> makeRegister (gR1 ib);
       Some (makeInstruction insn_va mips_ei [op1])
     })"

definition mips32_eret :: decoder where
  "mips32_eret = Decoder Release1 (sOP 16 OR shift_to 25 25 1 OR shift_to 6 24 0 OR sFN 24) (mOP OR mask_for 25 25 OR mask_for 6 24 OR mFN)
    (\<lambda>insn_va ib. Some (makeInstruction insn_va mips_eret []))"

definition mips32_ext :: decoder where
  "mips32_ext = Decoder Release2 (sOP 31 OR sFN 0) (mOP OR mFN)
    (\<lambda>insn_va ib. do {
       op1 \<leftarrow> makeRegister (gR1 ib);
       op2 \<leftarrow> makeRegister (gR0 ib);
       op3 \<leftarrow> makeImmediate8 (gR3 ib);
       op4 \<leftarrow> makeImmediate8 ((gR2 ib) + 1);
       Some (makeInstruction insn_va mips_ext [op1, op2, op3, op4])
     })"

definition mips32_floor_l_s :: decoder where
  "mips32_floor_l_s = Decoder Release2 (sOP 17 OR sR0 16 OR sR1 0 OR sFN 11) (mOP OR mR0 OR mR1 OR mFN)
    (\<lambda>insn_va ib. do {
       op1 \<leftarrow> makeFpRegister (gR3 ib) mips_fmt_l;
       op2 \<leftarrow> makeFpRegister (gR2 ib) mips_fmt_s;
       Some (makeInstruction insn_va mips_floor_l_s [op1, op2])
     })"

definition mips32_floor_l_d :: decoder where
  "mips32_floor_l_d = Decoder Release2 (sOP 17 OR sR0 17 OR sR1 0 OR sFN 11) (mOP OR mR0 OR mR1 OR mFN)
    (\<lambda>insn_va ib. do {
       op1 \<leftarrow> makeFpRegister (gR3 ib) mips_fmt_l;
       op2 \<leftarrow> makeFpRegister (gR2 ib) mips_fmt_d;
       Some (makeInstruction insn_va mips_floor_l_d [op1, op2])
     })"

definition mips32_floor_w_s :: decoder where
  "mips32_floor_w_s = Decoder Release1 (sOP 17 OR sR0 16 OR sR1 0 OR sFN 15) (mOP OR mR0 OR mR1 OR mFN)
    (\<lambda>insn_va ib. do {
       op1 \<leftarrow> makeFpRegister (gR3 ib) mips_fmt_w;
       op2 \<leftarrow> makeFpRegister (gR2 ib) mips_fmt_s;
       Some (makeInstruction insn_va mips_floor_w_s [op1, op2])
     })"

definition mips32_floor_w_d :: decoder where
  "mips32_floor_w_d = Decoder Release1 (sOP 17 OR sR0 17 OR sR1 0 OR sFN 15) (mOP OR mR0 OR mR1 OR mFN)
    (\<lambda>insn_va ib. do {
       op1 \<leftarrow> makeFpRegister (gR3 ib) mips_fmt_w;
       op2 \<leftarrow> makeFpRegister (gR2 ib) mips_fmt_d;
       Some (makeInstruction insn_va mips_floor_w_d [op1, op2])
     })"

definition mips32_ins :: decoder where
  "mips32_ins = Decoder Release2 (sOP 31 OR sFN 4) (mOP OR mFN)
    (\<lambda>insn_va ib. (let pos = gR3 ib; nbits = gR2 ib - pos + 1 in
        if pos \<ge> 32 \<or> nbits > 32 \<or> pos + nbits > 32 then Some (makeUnknownInstruction insn_va ib)
        else do {
          op1 \<leftarrow> makeRegister (gR1 ib);
          op2 \<leftarrow> makeRegister (gR0 ib);
          op3 \<leftarrow> makeImmediate8 pos;
          op4 \<leftarrow> makeImmediate8 nbits;
          Some (makeInstruction insn_va mips_ins [op1, op2, op3, op4])
        }))"

definition mips32_j :: decoder where
  "mips32_j = Decoder Release1 (sOP 2) (mOP)
    (\<lambda>insn_va ib. do {
       op1 \<leftarrow> makeBranchTargetAbsolute insn_va (extract_field 0 25 ib) 0 26;
       Some (makeInstruction insn_va mips_j [op1])
     })"

definition mips32_jal :: decoder where
  "mips32_jal = Decoder Release1 (sOP 3) (mOP)
    (\<lambda>insn_va ib. do {
       op1 \<leftarrow> makeBranchTargetAbsolute insn_va (extract_field 0 25 ib) 0 26;
       Some (makeInstruction insn_va mips_jal [op1])
     })"

definition mips32_jalr :: decoder where
  "mips32_jalr = Decoder Release1 (sOP 0 OR sR1 0 OR sR3 0 OR sFN 9) (mOP OR mR1 OR mR3 OR mFN)
    (\<lambda>insn_va ib. do {
       op1 \<leftarrow> makeRegister (gR2 ib);
       op2 \<leftarrow> makeRegister (gR0 ib);
       Some (makeInstruction insn_va mips_jalr [op1, op2])
     })"

definition mips32_jalr_hb :: decoder where
  "mips32_jalr_hb = Decoder Release2 (sOP 0 OR sR1 0 OR shift_to 10 10 1 OR shift_to 6 9 0 OR sFN 9) (mOP OR mR1 OR mask_for 10 10 OR mask_for 6 9 OR mFN)
    (\<lambda>insn_va ib. do {
       op1 \<leftarrow> makeRegister (gR2 ib);
       op2 \<leftarrow> makeRegister (gR0 ib);
       Some (makeInstruction insn_va mips_jalr_hb [op1, op2])
     })"

definition mips32_jalx :: decoder where
  "mips32_jalx = Decoder Release1 (sOP 29) (mOP)
    (\<lambda>insn_va ib. do {
       op1 \<leftarrow> makeBranchTargetAbsolute insn_va (extract_field 0 25 ib) 0 26;
       Some (makeInstruction insn_va mips_jalx [op1])
     })"

definition mips32_jr :: decoder where
  "mips32_jr = Decoder Release1 (sOP 0 OR shift_to 11 20 0 OR shift_to 6 10 0 OR sFN 8) (mOP OR mask_for 11 20 OR mask_for 6 10 OR mFN)
    (\<lambda>insn_va ib. do {
       op1 \<leftarrow> makeRegister (gR0 ib);
       Some (makeInstruction insn_va mips_jr [op1])
     })"

definition mips32_jr_hb :: decoder where
  "mips32_jr_hb = Decoder Release2 (sOP 0 OR shift_to 11 20 0 OR shift_to 10 10 1 OR shift_to 6 9 0 OR sFN 8) (mOP OR mask_for 11 20 OR mask_for 10 10 OR mask_for 6 9 OR mFN)
    (\<lambda>insn_va ib. do {
       op1 \<leftarrow> makeRegister (gR0 ib);
       Some (makeInstruction insn_va mips_jr_hb [op1])
     })"

definition mips32_lb :: decoder where
  "mips32_lb = Decoder Release1 (sOP 32) (mOP)
    (\<lambda>insn_va ib. do {
       addr \<leftarrow> makeRegisterOffset (gR0 ib) (gIM ib);
       op1 \<leftarrow> makeRegister (gR1 ib);
       Some (makeInstruction insn_va mips_lb [op1, makeMemoryReference addr 8])
     })"

definition mips32_lbe :: decoder where
  "mips32_lbe = Decoder Release1 (sOP 31 OR shift_to 6 6 0 OR sFN 44) (mOP OR mask_for 6 6 OR mFN)
    (\<lambda>insn_va ib. do {
       let offset16 = IntegerOps_signExtend 9 16 (extract_field 7 15 ib);
       addr \<leftarrow> makeRegisterOffset (gR0 ib) offset16;
       op1 \<leftarrow> makeRegister (gR1 ib);
       Some (makeInstruction insn_va mips_lbe [op1, makeMemoryReference addr 8])
     })"

definition mips32_lbu :: decoder where
  "mips32_lbu = Decoder Release1 (sOP 36) (mOP)
    (\<lambda>insn_va ib. do {
       addr \<leftarrow> makeRegisterOffset (gR0 ib) (gIM ib);
       op1 \<leftarrow> makeRegister (gR1 ib);
       Some (makeInstruction insn_va mips_lbu [op1, makeMemoryReference addr 8])
     })"

definition mips32_lbue :: decoder where
  "mips32_lbue = Decoder Release1 (sOP 31 OR shift_to 6 6 0 OR sFN 40) (mOP OR mask_for 6 6 OR mFN)
    (\<lambda>insn_va ib. do {
       let offset16 = IntegerOps_signExtend 9 16 (extract_field 7 15 ib);
       addr \<leftarrow> makeRegisterOffset (gR0 ib) offset16;
       op1 \<leftarrow> makeRegister (gR1 ib);
       Some (makeInstruction insn_va mips_lbue [op1, makeMemoryReference addr 8])
     })"

definition mips32_ldc1 :: decoder where
  "mips32_ldc1 = Decoder Release1 (sOP 53) (mOP)
    (\<lambda>insn_va ib. do {
       addr \<leftarrow> makeRegisterOffset (gR0 ib) (gIM ib);
       op1 \<leftarrow> makeFpRegister (gR1 ib) mips_fmt_d;
       Some (makeInstruction insn_va mips_ldc1 [op1, makeMemoryReference addr 64])
     })"

definition mips32_ldc2 :: decoder where
  "mips32_ldc2 = Decoder Release1 (sOP 54) (mOP)
    (\<lambda>insn_va ib. do {
       addr \<leftarrow> makeRegisterOffset (gR0 ib) (gIM ib);
       op1 \<leftarrow> makeCp2Register (gR1 ib);
       Some (makeInstruction insn_va mips_ldc2 [op1, makeMemoryReference addr 64])
     })"

definition mips32_ldxc1 :: decoder where
  "mips32_ldxc1 = Decoder Release2 (sOP 19 OR sR2 0 OR sFN 1) (mOP OR mR2 OR mFN)
    (\<lambda>insn_va ib. do {
       addr \<leftarrow> makeRegisterIndexed (gR0 ib) (gR1 ib);
       op1 \<leftarrow> makeFpRegister (gR3 ib) mips_fmt_d;
       Some (makeInstruction insn_va mips_ldxc1 [op1, makeMemoryReference addr 64])
     })"

definition mips32_lh :: decoder where
  "mips32_lh = Decoder Release1 (sOP 33) (mOP)
    (\<lambda>insn_va ib. do {
       addr \<leftarrow> makeRegisterOffset (gR0 ib) (gIM ib);
       op1 \<leftarrow> makeRegister (gR1 ib);
       Some (makeInstruction insn_va mips_lh [op1, makeMemoryReference addr 16])
     })"

definition mips32_lhe :: decoder where
  "mips32_lhe = Decoder Release1 (sOP 31 OR shift_to 6 6 1 OR sFN 45) (mOP OR mask_for 6 6 OR mFN)
    (\<lambda>insn_va ib. do {
       let offset16 = IntegerOps_signExtend 9 16 (extract_field 7 15 ib);
       addr \<leftarrow> makeRegisterOffset (gR0 ib) offset16;
       op1 \<leftarrow> makeRegister (gR1 ib);
       Some (makeInstruction insn_va mips_lhe [op1, makeMemoryReference addr 16])
     })"

definition mips32_lhu :: decoder where
  "mips32_lhu = Decoder Release1 (sOP 37) (mOP)
    (\<lambda>insn_va ib. do {
       addr \<leftarrow> makeRegisterOffset (gR0 ib) (gIM ib);
       op1 \<leftarrow> makeRegister (gR1 ib);
       Some (makeInstruction insn_va mips_lhu [op1, makeMemoryReference addr 16])
     })"

definition mips32_lhue :: decoder where
  "mips32_lhue = Decoder Release1 (sOP 31 OR shift_to 6 6 0 OR sFN 41) (mOP OR mask_for 6 6 OR mFN)
    (\<lambda>insn_va ib. do {
       let offset16 = IntegerOps_signExtend 9 16 (extract_field 7 15 ib);
       addr \<leftarrow> makeRegisterOffset (gR0 ib) offset16;
       op1 \<leftarrow> makeRegister (gR1 ib);
       Some (makeInstruction insn_va mips_lhue [op1, makeMemoryReference addr 16])
     })"

definition mips32_ll :: decoder where
  "mips32_ll = Decoder Release1 (sOP 48) (mOP)
    (\<lambda>insn_va ib. do {
       addr \<leftarrow> makeRegisterOffset (gR0 ib) (gIM ib);
       op1 \<leftarrow> makeRegister (gR1 ib);
       Some (makeInstruction insn_va mips_ll [op1, makeMemoryReference addr 32])
     })"

definition mips32_lle :: decoder where
  "mips32_lle = Decoder Release1 (sOP 31 OR shift_to 6 6 0 OR sFN 46) (mOP OR mask_for 6 6 OR mFN)
    (\<lambda>insn_va ib. do {
       let offset16 = IntegerOps_signExtend 9 16 (extract_field 7 15 ib);
       addr \<leftarrow> makeRegisterOffset (gR0 ib) offset16;
       op1 \<leftarrow> makeRegister (gR1 ib);
       Some (makeInstruction insn_va mips_lle [op1, makeMemoryReference addr 32])
     })"

definition mips32_lui :: decoder where
  "mips32_lui = Decoder Release1 (sOP 15 OR sR0 0) (mOP OR mR0)
    (\<lambda>insn_va ib. do {
       op1 \<leftarrow> makeRegister (gR1 ib);
       op2 \<leftarrow> makeImmediate16 (gIM ib);
       Some (makeInstruction insn_va mips_lui [op1, op2])
     })"

definition mips32_luxc1 :: decoder where
  "mips32_luxc1 = Decoder Release2 (sOP 19 OR sR2 0 OR sFN 5) (mOP OR mR2 OR mFN)
    (\<lambda>insn_va ib. do {
       op1 \<leftarrow> makeFpRegister (gR3 ib) mips_fmt_d;
       op2 \<leftarrow> makeRegisterIndexed (gR0 ib) (gR1 ib);
       Some (makeInstruction insn_va mips_luxc1 [op1, op2])
     })"

definition mips32_lw :: decoder where
  "mips32_lw = Decoder Release1 (sOP 35) (mOP)
    (\<lambda>insn_va ib. do {
       addr \<leftarrow> makeRegisterOffset (gR0 ib) (gIM ib);
       op1 \<leftarrow> makeRegister (gR1 ib);
       Some (makeInstruction insn_va mips_lw [op1, makeMemoryReference addr 32])
     })"

definition mips32_lwc1 :: decoder where
  "mips32_lwc1 = Decoder Release1 (sOP 49) (mOP)
    (\<lambda>insn_va ib. do {
       addr \<leftarrow> makeRegisterOffset (gR0 ib) (gIM ib);
       op1 \<leftarrow> makeFpRegister (gR1 ib) mips_fmt_s;
       Some (makeInstruction insn_va mips_lwc1 [op1, makeMemoryReference addr 32])
     })"

definition mips32_lwc2 :: decoder where
  "mips32_lwc2 = Decoder Release1 (sOP 50) (mOP)
    (\<lambda>insn_va ib. do {
       addr \<leftarrow> makeRegisterOffset (gR0 ib) (gIM ib);
       op1 \<leftarrow> makeCp2Register (gR1 ib);
       Some (makeInstruction insn_va mips_lwc2 [op1, makeMemoryReference addr 32])
     })"

definition mips32_lwe :: decoder where
  "mips32_lwe = Decoder Release1 (sOP 31 OR shift_to 6 6 0 OR sFN 47) (mOP OR mask_for 6 6 OR mFN)
    (\<lambda>insn_va ib. do {
       let offset16 = IntegerOps_signExtend 9 16 (extract_field 7 15 ib);
       addr \<leftarrow> makeRegisterOffset (gR0 ib) offset16;
       op1 \<leftarrow> makeRegister (gR1 ib);
       Some (makeInstruction insn_va mips_lwe [op1, makeMemoryReference addr 32])
     })"

definition mips32_lwl :: decoder where
  "mips32_lwl = Decoder Release1 (sOP 34) (mOP)
    (\<lambda>insn_va ib. do {
       addr \<leftarrow> makeRegisterOffset (gR0 ib) (gIM ib);
       op1 \<leftarrow> makeRegister (gR1 ib);
       Some (makeInstruction insn_va mips_lwl [op1, makeMemoryReference addr 32])
     })"

definition mips32_lwle :: decoder where
  "mips32_lwle = Decoder Release1 (sOP 31 OR shift_to 6 6 0 OR sFN 25) (mOP OR mask_for 6 6 OR mFN)
    (\<lambda>insn_va ib. do {
       let offset16 = IntegerOps_signExtend 9 16 (extract_field 7 15 ib);
       addr \<leftarrow> makeRegisterOffset (gR0 ib) offset16;
       op1 \<leftarrow> makeRegister (gR1 ib);
       Some (makeInstruction insn_va mips_lwle [op1, makeMemoryReference addr 32])
     })"

definition mips32_lwr :: decoder where
  "mips32_lwr = Decoder Release1 (sOP 38) (mOP)
    (\<lambda>insn_va ib. do {
       addr \<leftarrow> makeRegisterOffset (gR0 ib) (gIM ib);
       op1 \<leftarrow> makeRegister (gR1 ib);
       Some (makeInstruction insn_va mips_lwr [op1, makeMemoryReference addr 32])
     })"

definition mips32_lwre :: decoder where
  "mips32_lwre = Decoder Release1 (sOP 31 OR shift_to 6 6 0 OR sFN 26) (mOP OR mask_for 6 6 OR mFN)
    (\<lambda>insn_va ib. do {
       let offset16 = IntegerOps_signExtend 9 16 (extract_field 7 15 ib);
       addr \<leftarrow> makeRegisterOffset (gR0 ib) offset16;
       op1 \<leftarrow> makeRegister (gR1 ib);
       Some (makeInstruction insn_va mips_lwre [op1, makeMemoryReference addr 32])
     })"

definition mips32_lwu :: decoder where
  "mips32_lwu = Decoder Release1 (sOP 39) (mOP)
    (\<lambda>insn_va ib. do {
       addr \<leftarrow> makeRegisterOffset (gR0 ib) (gIM ib);
       op1 \<leftarrow> makeRegister (gR1 ib);
       Some (makeInstruction insn_va mips_lwu [op1, makeMemoryReference addr 32])
     })"

definition mips32_lwxc1 :: decoder where
  "mips32_lwxc1 = Decoder Release2 (sOP 19 OR sR2 0 OR sFN 0) (mOP OR mR2 OR mFN)
    (\<lambda>insn_va ib. do {
       addr \<leftarrow> makeRegisterIndexed (gR0 ib) (gR1 ib);
       op1 \<leftarrow> makeFpRegister (gR3 ib) mips_fmt_s;
       Some (makeInstruction insn_va mips_lwxc1 [op1, makeMemoryReference addr 32])
     })"

definition mips32_madd :: decoder where
  "mips32_madd = Decoder Release1 (sOP 28 OR sR2 0 OR sR3 0 OR sFN 0) (mOP OR mR2 OR mR3 OR mFN)
    (\<lambda>insn_va ib. do {
       op1 \<leftarrow> makeRegister (gR0 ib);
       op2 \<leftarrow> makeRegister (gR1 ib);
       Some (makeInstruction insn_va mips_madd [op1, op2])
     })"

definition mips32_madd_s :: decoder where
  "mips32_madd_s = Decoder Release2 (sOP 19 OR sFN 32) (mOP OR mFN)
    (\<lambda>insn_va ib. do {
       op1 \<leftarrow> makeFpRegister (gR3 ib) mips_fmt_s;
       op2 \<leftarrow> makeFpRegister (gR0 ib) mips_fmt_s;
       op3 \<leftarrow> makeFpRegister (gR2 ib) mips_fmt_s;
       op4 \<leftarrow> makeFpRegister (gR1 ib) mips_fmt_s;
       Some (makeInstruction insn_va mips_madd_s [op1, op2, op3, op4])
     })"

definition mips32_madd_d :: decoder where
  "mips32_madd_d = Decoder Release2 (sOP 23 OR sFN 33) (mOP OR mFN)
    (\<lambda>insn_va ib. do {
       op1 \<leftarrow> makeFpRegister (gR3 ib) mips_fmt_d;
       op2 \<leftarrow> makeFpRegister (gR0 ib) mips_fmt_d;
       op3 \<leftarrow> makeFpRegister (gR2 ib) mips_fmt_d;
       op4 \<leftarrow> makeFpRegister (gR1 ib) mips_fmt_d;
       Some (makeInstruction insn_va mips_madd_d [op1, op2, op3, op4])
     })"

definition mips32_madd_ps :: decoder where
  "mips32_madd_ps = Decoder Release2 (sOP 23 OR sFN 38) (mOP OR mFN)
    (\<lambda>insn_va ib. do {
       op1 \<leftarrow> makeFpRegister (gR3 ib) mips_fmt_ps;
       op2 \<leftarrow> makeFpRegister (gR0 ib) mips_fmt_ps;
       op3 \<leftarrow> makeFpRegister (gR2 ib) mips_fmt_ps;
       op4 \<leftarrow> makeFpRegister (gR1 ib) mips_fmt_ps;
       Some (makeInstruction insn_va mips_madd_ps [op1, op2, op3, op4])
     })"

definition mips32_maddu :: decoder where
  "mips32_maddu = Decoder Release1 (sOP 28 OR sR2 0 OR sR3 0 OR sFN 1) (mOP OR mR2 OR mR3 OR mFN)
    (\<lambda>insn_va ib. do {
       op1 \<leftarrow> makeRegister (gR0 ib);
       op2 \<leftarrow> makeRegister (gR1 ib);
       Some (makeInstruction insn_va mips_maddu [op1, op2])
     })"

definition mips32_mfc0 :: decoder where
  "mips32_mfc0 = Decoder Release1 (sOP 16 OR sR0 0 OR shift_to 3 10 0) (mOP OR mR0 OR mask_for 3 10)
    (\<lambda>insn_va ib. do {
       let sel = extract_field 0 2 ib;
       op1 \<leftarrow> makeRegister (gR1 ib);
       op2 \<leftarrow> makeCp0Register (gR2 ib) sel;
       op3 \<leftarrow> makeImmediate8 (extract_field 0 2 ib);
       Some (makeInstruction insn_va mips_mfc0 [op1, op2, op3])
     })"

definition mips32_mfc1 :: decoder where
  "mips32_mfc1 = Decoder Release1 (sOP 17 OR sR0 0 OR shift_to 0 10 0) (mOP OR mR0 OR mask_for 0 10)
    (\<lambda>insn_va ib. do {
       op1 \<leftarrow> makeRegister (gR1 ib);
       op2 \<leftarrow> makeFpRegister (gR2 ib) mips_fmt_s;
       Some (makeInstruction insn_va mips_mfc1 [op1, op2])
     })"

definition mips32_mfc2 :: decoder where
  "mips32_mfc2 = Decoder Release1 (sOP 18 OR sR0 0) (mOP OR mR0)
    (\<lambda>insn_va ib. do {
       op1 \<leftarrow> makeRegister (gR1 ib);
       op2 \<leftarrow> makeImmediate16 (gIM ib);
       Some (makeInstruction insn_va mips_mfc2 [op1, op2])
     })"

definition mips32_mfhc1 :: decoder where
  "mips32_mfhc1 = Decoder Release2 (sOP 17 OR sR0 3 OR shift_to 0 10 0) (mOP OR mR0 OR mask_for 0 10)
    (\<lambda>insn_va ib. do {
       op1 \<leftarrow> makeRegister (gR1 ib);
       op2 \<leftarrow> makeFpRegister (gR2 ib) mips_fmt_d;
       Some (makeInstruction insn_va mips_mfhc1 [op1, op2])
     })"

definition mips32_mfhc2 :: decoder where
  "mips32_mfhc2 = Decoder Release2 (sOP 18 OR sR0 3) (mOP OR mR0)
    (\<lambda>insn_va ib. do {
       op1 \<leftarrow> makeRegister (gR1 ib);
       op2 \<leftarrow> makeImmediate16 (gIM ib);
       Some (makeInstruction insn_va mips_mfhc2 [op1, op2])
     })"

definition mips32_mfhi :: decoder where
  "mips32_mfhi = Decoder Release1 (sOP 0 OR sR0 0 OR sR1 0 OR sR3 0 OR sFN 16) (mOP OR mR0 OR mR1 OR mR3 OR mFN)
    (\<lambda>insn_va ib. do {
       op1 \<leftarrow> makeRegister (gR2 ib);
       Some (makeInstruction insn_va mips_mfhi [op1])
     })"

definition mips32_mflo :: decoder where
  "mips32_mflo = Decoder Release1 (sOP 0 OR sR0 0 OR sR1 0 OR sR3 0 OR sFN 18) (mOP OR mR0 OR mR1 OR mR3 OR mFN)
    (\<lambda>insn_va ib. do {
       op1 \<leftarrow> makeRegister (gR2 ib);
       Some (makeInstruction insn_va mips_mflo [op1])
     })"

definition mips32_mov_s :: decoder where
  "mips32_mov_s = Decoder Release1 (sOP 17 OR sR0 16 OR sR1 0 OR sFN 6) (mOP OR mR0 OR mR1 OR mFN)
    (\<lambda>insn_va ib. do {
       op1 \<leftarrow> makeFpRegister (gR3 ib) mips_fmt_s;
       op2 \<leftarrow> makeFpRegister (gR2 ib) mips_fmt_s;
       Some (makeInstruction insn_va mips_mov_s [op1, op2])
     })"

definition mips32_mov_d :: decoder where
  "mips32_mov_d = Decoder Release1 (sOP 17 OR sR0 17 OR sR1 0 OR sFN 6) (mOP OR mR0 OR mR1 OR mFN)
    (\<lambda>insn_va ib. do {
       op1 \<leftarrow> makeFpRegister (gR3 ib) mips_fmt_d;
       op2 \<leftarrow> makeFpRegister (gR2 ib) mips_fmt_d;
       Some (makeInstruction insn_va mips_mov_d [op1, op2])
     })"

definition mips32_mov_ps :: decoder where
  "mips32_mov_ps = Decoder Release2 (sOP 17 OR sR0 22 OR sR1 0 OR sFN 6) (mOP OR mR0 OR mR1 OR mFN)
    (\<lambda>insn_va ib. do {
       op1 \<leftarrow> makeFpRegister (gR3 ib) mips_fmt_ps;
       op2 \<leftarrow> makeFpRegister (gR2 ib) mips_fmt_ps;
       Some (makeInstruction insn_va mips_mov_ps [op1, op2])
     })"

definition mips32_movf :: decoder where
  "mips32_movf = Decoder Release1 (sOP 0 OR shift_to 16 17 0 OR sR3 0 OR sFN 1) (mOP OR mask_for 16 17 OR mR3 OR mFN)
    (\<lambda>insn_va ib. do {
       op1 \<leftarrow> makeRegister (gR2 ib);
       op2 \<leftarrow> makeRegister (gR0 ib);
       op3 \<leftarrow> makeFpccRegister (extract_field 18 20 ib);
       Some (makeInstruction insn_va mips_movf [op1, op2, op3])
     })"

definition mips32_movf_s :: decoder where
  "mips32_movf_s = Decoder Release1 (sOP 17 OR sR0 16 OR shift_to 16 17 0 OR sFN 17) (mOP OR mR0 OR mask_for 16 17 OR mFN)
    (\<lambda>insn_va ib. do {
       op1 \<leftarrow> makeFpRegister (gR3 ib) mips_fmt_s;
       op2 \<leftarrow> makeFpRegister (gR2 ib) mips_fmt_s;
       op3 \<leftarrow> makeFpccRegister (extract_field 18 20 ib);
       Some (makeInstruction insn_va mips_movf_s [op1, op2, op3])
     })"

definition mips32_movf_d :: decoder where
  "mips32_movf_d = Decoder Release1 (sOP 17 OR sR0 17 OR shift_to 16 17 0 OR sFN 17) (mOP OR mR0 OR mask_for 16 17 OR mFN)
    (\<lambda>insn_va ib. do {
       op1 \<leftarrow> makeFpRegister (gR3 ib) mips_fmt_d;
       op2 \<leftarrow> makeFpRegister (gR2 ib) mips_fmt_d;
       op3 \<leftarrow> makeFpccRegister (extract_field 18 20 ib);
       Some (makeInstruction insn_va mips_movf_d [op1, op2, op3])
     })"

definition mips32_movf_ps :: decoder where
  "mips32_movf_ps = Decoder Release2 (sOP 17 OR sR0 22 OR shift_to 16 17 0 OR sFN 17) (mOP OR mR0 OR mask_for 16 17 OR mFN)
    (\<lambda>insn_va ib. do {
       op1 \<leftarrow> makeFpRegister (gR3 ib) mips_fmt_ps;
       op2 \<leftarrow> makeFpRegister (gR2 ib) mips_fmt_ps;
       op3 \<leftarrow> makeFpccRegister (extract_field 18 20 ib);
       Some (makeInstruction insn_va mips_movf_ps [op1, op2, op3])
     })"

definition mips32_movn :: decoder where
  "mips32_movn = Decoder Release1 (sOP 0 OR sR3 0 OR sFN 11) (mOP OR mR3 OR mFN)
    (\<lambda>insn_va ib. do {
       op1 \<leftarrow> makeRegister (gR2 ib);
       op2 \<leftarrow> makeRegister (gR0 ib);
       op3 \<leftarrow> makeRegister (gR1 ib);
       Some (makeInstruction insn_va mips_movn [op1, op2, op3])
     })"

definition mips32_movn_s :: decoder where
  "mips32_movn_s = Decoder Release1 (sOP 17 OR sR0 16 OR sFN 19) (mOP OR mR0 OR mFN)
    (\<lambda>insn_va ib. do {
       op1 \<leftarrow> makeFpRegister (gR3 ib) mips_fmt_s;
       op2 \<leftarrow> makeFpRegister (gR2 ib) mips_fmt_s;
       op3 \<leftarrow> makeFpccRegister (extract_field 18 20 ib);
       Some (makeInstruction insn_va mips_movn_s [op1, op2, op3])
     })"

definition mips32_movn_d :: decoder where
  "mips32_movn_d = Decoder Release1 (sOP 17 OR sR0 17 OR sFN 19) (mOP OR mR0 OR mFN)
    (\<lambda>insn_va ib. do {
       op1 \<leftarrow> makeFpRegister (gR3 ib) mips_fmt_d;
       op2 \<leftarrow> makeFpRegister (gR2 ib) mips_fmt_d;
       op3 \<leftarrow> makeFpccRegister (extract_field 18 20 ib);
       Some (makeInstruction insn_va mips_movn_d [op1, op2, op3])
     })"

definition mips32_movn_ps :: decoder where
  "mips32_movn_ps = Decoder Release2 (sOP 17 OR sR0 22 OR sFN 19) (mOP OR mR0 OR mFN)
    (\<lambda>insn_va ib. do {
       op1 \<leftarrow> makeFpRegister (gR3 ib) mips_fmt_ps;
       op2 \<leftarrow> makeFpRegister (gR2 ib) mips_fmt_ps;
       op3 \<leftarrow> makeFpccRegister (extract_field 18 20 ib);
       Some (makeInstruction insn_va mips_movn_ps [op1, op2, op3])
     })"

definition mips32_movt :: decoder where
  "mips32_movt = Decoder Release1 (sOP 0 OR shift_to 16 17 1 OR sR3 0 OR sFN 1) (mOP OR mask_for 16 17 OR mR3 OR mFN)
    (\<lambda>insn_va ib. do {
       op1 \<leftarrow> makeRegister (gR2 ib);
       op2 \<leftarrow> makeRegister (gR0 ib);
       op3 \<leftarrow> makeFpccRegister (extract_field 18 20 ib);
       Some (makeInstruction insn_va mips_movt [op1, op2, op3])
     })"

definition mips32_movt_s :: decoder where
  "mips32_movt_s = Decoder Release1 (sOP 17 OR sR0 16 OR shift_to 16 17 1 OR sFN 17) (mOP OR mR0 OR mask_for 16 17 OR mFN)
    (\<lambda>insn_va ib. do {
       op1 \<leftarrow> makeFpRegister (gR3 ib) mips_fmt_s;
       op2 \<leftarrow> makeFpRegister (gR2 ib) mips_fmt_s;
       op3 \<leftarrow> makeFpccRegister (extract_field 18 20 ib);
       Some (makeInstruction insn_va mips_movt_s [op1, op2, op3])
     })"

definition mips32_movt_d :: decoder where
  "mips32_movt_d = Decoder Release1 (sOP 17 OR sR0 17 OR shift_to 16 17 1 OR sFN 17) (mOP OR mR0 OR mask_for 16 17 OR mFN)
    (\<lambda>insn_va ib. do {
       op1 \<leftarrow> makeFpRegister (gR3 ib) mips_fmt_d;
       op2 \<leftarrow> makeFpRegister (gR2 ib) mips_fmt_d;
       op3 \<leftarrow> makeFpccRegister (extract_field 18 20 ib);
       Some (makeInstruction insn_va mips_movt_d [op1, op2, op3])
     })"

definition mips32_movt_ps :: decoder where
  "mips32_movt_ps = Decoder Release2 (sOP 17 OR sR0 22 OR shift_to 16 17 1 OR sFN 17) (mOP OR mR0 OR mask_for 16 17 OR mFN)
    (\<lambda>insn_va ib. do {
       op1 \<leftarrow> makeFpRegister (gR3 ib) mips_fmt_ps;
       op2 \<leftarrow> makeFpRegister (gR2 ib) mips_fmt_ps;
       op3 \<leftarrow> makeFpccRegister (extract_field 18 20 ib);
       Some (makeInstruction insn_va mips_movt_ps [op1, op2, op3])
     })"

definition mips32_movz :: decoder where
  "mips32_movz = Decoder Release1 (sOP 0 OR sR3 0 OR sFN 10) (mOP OR mR3 OR mFN)
    (\<lambda>insn_va ib. do {
       op1 \<leftarrow> makeRegister (gR2 ib);
       op2 \<leftarrow> makeRegister (gR0 ib);
       op3 \<leftarrow> makeRegister (gR1 ib);
       Some (makeInstruction insn_va mips_movz [op1, op2, op3])
     })"

definition mips32_movz_s :: decoder where
  "mips32_movz_s = Decoder Release1 (sOP 17 OR sR0 16 OR sFN 18) (mOP OR mR0 OR mFN)
    (\<lambda>insn_va ib. do {
       op1 \<leftarrow> makeFpRegister (gR3 ib) mips_fmt_s;
       op2 \<leftarrow> makeFpRegister (gR2 ib) mips_fmt_s;
       op3 \<leftarrow> makeRegister (gR1 ib);
       Some (makeInstruction insn_va mips_movz_s [op1, op2, op3])
     })"

definition mips32_movz_d :: decoder where
  "mips32_movz_d = Decoder Release1 (sOP 17 OR sR0 17 OR sFN 18) (mOP OR mR0 OR mFN)
    (\<lambda>insn_va ib. do {
       op1 \<leftarrow> makeFpRegister (gR3 ib) mips_fmt_d;
       op2 \<leftarrow> makeFpRegister (gR2 ib) mips_fmt_d;
       op3 \<leftarrow> makeRegister (gR1 ib);
       Some (makeInstruction insn_va mips_movz_d [op1, op2, op3])
     })"

definition mips32_movz_ps :: decoder where
  "mips32_movz_ps = Decoder Release2 (sOP 17 OR sR0 22 OR sFN 18) (mOP OR mR0 OR mFN)
    (\<lambda>insn_va ib. do {
       op1 \<leftarrow> makeFpRegister (gR3 ib) mips_fmt_ps;
       op2 \<leftarrow> makeFpRegister (gR2 ib) mips_fmt_ps;
       op3 \<leftarrow> makeRegister (gR1 ib);
       Some (makeInstruction insn_va mips_movz_ps [op1, op2, op3])
     })"

definition mips32_msub :: decoder where
  "mips32_msub = Decoder Release1 (sOP 28 OR sR2 0 OR sR3 0 OR sFN 4) (mOP OR mR2 OR mR3 OR mFN)
    (\<lambda>insn_va ib. do {
       op1 \<leftarrow> makeRegister (gR0 ib);
       op2 \<leftarrow> makeRegister (gR1 ib);
       Some (makeInstruction insn_va mips_msub [op1, op2])
     })"

definition mips32_msub_s :: decoder where
  "mips32_msub_s = Decoder Release2 (sOP 19 OR sFN 40) (mOP OR mFN)
    (\<lambda>insn_va ib. do {
       op1 \<leftarrow> makeFpRegister (gR3 ib) mips_fmt_s;
       op2 \<leftarrow> makeFpRegister (gR0 ib) mips_fmt_s;
       op3 \<leftarrow> makeFpRegister (gR2 ib) mips_fmt_s;
       op4 \<leftarrow> makeFpRegister (gR1 ib) mips_fmt_s;
       Some (makeInstruction insn_va mips_msub_s [op1, op2, op3, op4])
     })"

definition mips32_msub_d :: decoder where
  "mips32_msub_d = Decoder Release2 (sOP 19 OR sFN 41) (mOP OR mFN)
    (\<lambda>insn_va ib. do {
       op1 \<leftarrow> makeFpRegister (gR3 ib) mips_fmt_d;
       op2 \<leftarrow> makeFpRegister (gR0 ib) mips_fmt_d;
       op3 \<leftarrow> makeFpRegister (gR2 ib) mips_fmt_d;
       op4 \<leftarrow> makeFpRegister (gR1 ib) mips_fmt_d;
       Some (makeInstruction insn_va mips_msub_d [op1, op2, op3, op4])
     })"

definition mips32_msub_ps :: decoder where
  "mips32_msub_ps = Decoder Release2 (sOP 19 OR sFN 46) (mOP OR mFN)
    (\<lambda>insn_va ib. do {
       op1 \<leftarrow> makeFpRegister (gR3 ib) mips_fmt_ps;
       op2 \<leftarrow> makeFpRegister (gR0 ib) mips_fmt_ps;
       op3 \<leftarrow> makeFpRegister (gR2 ib) mips_fmt_ps;
       op4 \<leftarrow> makeFpRegister (gR1 ib) mips_fmt_ps;
       Some (makeInstruction insn_va mips_msub_ps [op1, op2, op3, op4])
     })"

definition mips32_msubu :: decoder where
  "mips32_msubu = Decoder Release1 (sOP 28 OR sR2 0 OR sR3 0 OR sFN 5) (mOP OR mR2 OR mR3 OR mFN)
    (\<lambda>insn_va ib. do {
       op1 \<leftarrow> makeRegister (gR0 ib);
       op2 \<leftarrow> makeRegister (gR1 ib);
       Some (makeInstruction insn_va mips_msubu [op1, op2])
     })"

definition mips32_mtc0 :: decoder where
  "mips32_mtc0 = Decoder Release1 (sOP 16 OR sR0 4 OR shift_to 3 10 0) (mOP OR mR0 OR mask_for 3 10)
    (\<lambda>insn_va ib. do {
       let sel = extract_field 0 2 ib;
       op1 \<leftarrow> makeRegister (gR1 ib);
       op2 \<leftarrow> makeCp0Register (gR2 ib) sel;
       op3 \<leftarrow> makeImmediate8 (extract_field 0 2 ib);
       Some (makeInstruction insn_va mips_mtc0 [op1, op2, op3])
     })"

definition mips32_mtc1 :: decoder where
  "mips32_mtc1 = Decoder Release1 (sOP 17 OR sR0 4 OR shift_to 0 10 0) (mOP OR mR0 OR mask_for 0 10)
    (\<lambda>insn_va ib. do {
       op1 \<leftarrow> makeRegister (gR1 ib);
       op2 \<leftarrow> makeFpRegister (gR2 ib) mips_fmt_s;
       Some (makeInstruction insn_va mips_mtc1 [op1, op2])
     })"

definition mips32_mtc2 :: decoder where
  "mips32_mtc2 = Decoder Release1 (sOP 18 OR sR0 4) (mOP OR mR0)
    (\<lambda>insn_va ib. do {
       op1 \<leftarrow> makeRegister (gR1 ib);
       op2 \<leftarrow> makeImmediate16 (gIM ib);
       Some (makeInstruction insn_va mips_mtc2 [op1, op2])
     })"

definition mips32_mthc1 :: decoder where
  "mips32_mthc1 = Decoder Release2 (sOP 17 OR sR0 7 OR shift_to 0 10 0) (mOP OR mR0 OR mask_for 0 10)
    (\<lambda>insn_va ib. do {
       op1 \<leftarrow> makeRegister (gR1 ib);
       op2 \<leftarrow> makeFpRegister (gR2 ib) mips_fmt_d;
       Some (makeInstruction insn_va mips_mthc1 [op1, op2])
     })"

definition mips32_mthc2 :: decoder where
  "mips32_mthc2 = Decoder Release2 (sOP 18 OR sR0 7) (mOP OR mR0)
    (\<lambda>insn_va ib. do {
       op1 \<leftarrow> makeRegister (gR1 ib);
       op2 \<leftarrow> makeImmediate16 (gIM ib);
       Some (makeInstruction insn_va mips_mthc2 [op1, op2])
     })"

definition mips32_mthi :: decoder where
  "mips32_mthi = Decoder Release1 (sOP 0 OR shift_to 6 20 0 OR sFN 17) (mOP OR mask_for 6 20 OR mFN)
    (\<lambda>insn_va ib. do {
       op1 \<leftarrow> makeRegister (gR0 ib);
       Some (makeInstruction insn_va mips_mthi [op1])
     })"

definition mips32_mtlo :: decoder where
  "mips32_mtlo = Decoder Release1 (sOP 0 OR shift_to 6 20 0 OR sFN 19) (mOP OR mask_for 6 20 OR mFN)
    (\<lambda>insn_va ib. do {
       op1 \<leftarrow> makeRegister (gR0 ib);
       Some (makeInstruction insn_va mips_mtlo [op1])
     })"

definition mips32_mul :: decoder where
  "mips32_mul = Decoder Release1 (sOP 28 OR sR3 0 OR sFN 2) (mOP OR mR3 OR mFN)
    (\<lambda>insn_va ib. do {
       op1 \<leftarrow> makeRegister (gR2 ib);
       op2 \<leftarrow> makeRegister (gR0 ib);
       op3 \<leftarrow> makeRegister (gR1 ib);
       Some (makeInstruction insn_va mips_mul [op1, op2, op3])
     })"

definition mips32_mul_s :: decoder where
  "mips32_mul_s = Decoder Release1 (sOP 17 OR sR0 16 OR sFN 2) (mOP OR mR0 OR mFN)
    (\<lambda>insn_va ib. do {
       op1 \<leftarrow> makeFpRegister (gR3 ib) mips_fmt_s;
       op2 \<leftarrow> makeFpRegister (gR2 ib) mips_fmt_s;
       op3 \<leftarrow> makeFpRegister (gR1 ib) mips_fmt_s;
       Some (makeInstruction insn_va mips_mul_s [op1, op2, op3])
     })"

definition mips32_mul_d :: decoder where
  "mips32_mul_d = Decoder Release1 (sOP 17 OR sR0 17 OR sFN 2) (mOP OR mR0 OR mFN)
    (\<lambda>insn_va ib. do {
       op1 \<leftarrow> makeFpRegister (gR3 ib) mips_fmt_d;
       op2 \<leftarrow> makeFpRegister (gR2 ib) mips_fmt_d;
       op3 \<leftarrow> makeFpRegister (gR1 ib) mips_fmt_d;
       Some (makeInstruction insn_va mips_mul_d [op1, op2, op3])
     })"

definition mips32_mul_ps :: decoder where
  "mips32_mul_ps = Decoder Release2 (sOP 17 OR sR0 22 OR sFN 2) (mOP OR mR0 OR mFN)
    (\<lambda>insn_va ib. do {
       op1 \<leftarrow> makeFpRegister (gR3 ib) mips_fmt_ps;
       op2 \<leftarrow> makeFpRegister (gR2 ib) mips_fmt_ps;
       op3 \<leftarrow> makeFpRegister (gR1 ib) mips_fmt_ps;
       Some (makeInstruction insn_va mips_mul_ps [op1, op2, op3])
     })"

definition mips32_mult :: decoder where
  "mips32_mult = Decoder Release1 (sOP 0 OR shift_to 6 15 0 OR sFN 24) (mOP OR mask_for 6 15 OR mFN)
    (\<lambda>insn_va ib. do {
       op1 \<leftarrow> makeRegister (gR0 ib);
       op2 \<leftarrow> makeRegister (gR1 ib);
       Some (makeInstruction insn_va mips_mult [op1, op2])
     })"

definition mips32_multu :: decoder where
  "mips32_multu = Decoder Release1 (sOP 0 OR shift_to 6 15 0 OR sFN 25) (mOP OR mask_for 6 15 OR mFN)
    (\<lambda>insn_va ib. do {
       op1 \<leftarrow> makeRegister (gR0 ib);
       op2 \<leftarrow> makeRegister (gR1 ib);
       Some (makeInstruction insn_va mips_multu [op1, op2])
     })"

definition mips32_neg_s :: decoder where
  "mips32_neg_s = Decoder Release1 (sOP 17 OR sR0 16 OR sR1 0 OR sFN 7) (mOP OR mR0 OR mR1 OR mFN)
    (\<lambda>insn_va ib. do {
       op1 \<leftarrow> makeFpRegister (gR3 ib) mips_fmt_s;
       op2 \<leftarrow> makeFpRegister (gR2 ib) mips_fmt_s;
       Some (makeInstruction insn_va mips_neg_s [op1, op2])
     })"

definition mips32_neg_d :: decoder where
  "mips32_neg_d = Decoder Release1 (sOP 17 OR sR0 17 OR sR1 0 OR sFN 7) (mOP OR mR0 OR mR1 OR mFN)
    (\<lambda>insn_va ib. do {
       op1 \<leftarrow> makeFpRegister (gR3 ib) mips_fmt_d;
       op2 \<leftarrow> makeFpRegister (gR2 ib) mips_fmt_d;
       Some (makeInstruction insn_va mips_neg_d [op1, op2])
     })"

definition mips32_neg_ps :: decoder where
  "mips32_neg_ps = Decoder Release2 (sOP 17 OR sR0 22 OR sR1 0 OR sFN 7) (mOP OR mR0 OR mR1 OR mFN)
    (\<lambda>insn_va ib. do {
       op1 \<leftarrow> makeFpRegister (gR3 ib) mips_fmt_ps;
       op2 \<leftarrow> makeFpRegister (gR2 ib) mips_fmt_ps;
       Some (makeInstruction insn_va mips_neg_ps [op1, op2])
     })"

definition mips32_nmadd_s :: decoder where
  "mips32_nmadd_s = Decoder Release2 (sOP 19 OR sFN 48) (mOP OR mFN)
    (\<lambda>insn_va ib. do {
       op1 \<leftarrow> makeFpRegister (gR3 ib) mips_fmt_s;
       op2 \<leftarrow> makeFpRegister (gR0 ib) mips_fmt_s;
       op3 \<leftarrow> makeFpRegister (gR2 ib) mips_fmt_s;
       op4 \<leftarrow> makeFpRegister (gR1 ib) mips_fmt_s;
       Some (makeInstruction insn_va mips_nmadd_s [op1, op2, op3, op4])
     })"

definition mips32_nmadd_d :: decoder where
  "mips32_nmadd_d = Decoder Release2 (sOP 19 OR sFN 49) (mOP OR mFN)
    (\<lambda>insn_va ib. do {
       op1 \<leftarrow> makeFpRegister (gR3 ib) mips_fmt_d;
       op2 \<leftarrow> makeFpRegister (gR0 ib) mips_fmt_d;
       op3 \<leftarrow> makeFpRegister (gR2 ib) mips_fmt_d;
       op4 \<leftarrow> makeFpRegister (gR1 ib) mips_fmt_d;
       Some (makeInstruction insn_va mips_nmadd_d [op1, op2, op3, op4])
     })"

definition mips32_nmadd_ps :: decoder where
  "mips32_nmadd_ps = Decoder Release2 (sOP 19 OR sFN 54) (mOP OR mFN)
    (\<lambda>insn_va ib. do {
       op1 \<leftarrow> makeFpRegister (gR3 ib) mips_fmt_ps;
       op2 \<leftarrow> makeFpRegister (gR0 ib) mips_fmt_ps;
       op3 \<leftarrow> makeFpRegister (gR2 ib) mips_fmt_ps;
       op4 \<leftarrow> makeFpRegister (gR1 ib) mips_fmt_ps;
       Some (makeInstruction insn_va mips_nmadd_ps [op1, op2, op3, op4])
     })"

definition mips32_nmsub_s :: decoder where
  "mips32_nmsub_s = Decoder Release2 (sOP 19 OR sFN 56) (mOP OR mFN)
    (\<lambda>insn_va ib. do {
       op1 \<leftarrow> makeFpRegister (gR3 ib) mips_fmt_s;
       op2 \<leftarrow> makeFpRegister (gR0 ib) mips_fmt_s;
       op3 \<leftarrow> makeFpRegister (gR2 ib) mips_fmt_s;
       op4 \<leftarrow> makeFpRegister (gR1 ib) mips_fmt_s;
       Some (makeInstruction insn_va mips_nmsub_s [op1, op2, op3, op4])
     })"

definition mips32_nmsub_d :: decoder where
  "mips32_nmsub_d = Decoder Release2 (sOP 19 OR sFN 57) (mOP OR mFN)
    (\<lambda>insn_va ib. do {
       op1 \<leftarrow> makeFpRegister (gR3 ib) mips_fmt_d;
       op2 \<leftarrow> makeFpRegister (gR0 ib) mips_fmt_d;
       op3 \<leftarrow> makeFpRegister (gR2 ib) mips_fmt_d;
       op4 \<leftarrow> makeFpRegister (gR1 ib) mips_fmt_d;
       Some (makeInstruction insn_va mips_nmsub_d [op1, op2, op3, op4])
     })"

definition mips32_nmsub_ps :: decoder where
  "mips32_nmsub_ps = Decoder Release2 (sOP 19 OR sFN 62) (mOP OR mFN)
    (\<lambda>insn_va ib. do {
       op1 \<leftarrow> makeFpRegister (gR3 ib) mips_fmt_ps;
       op2 \<leftarrow> makeFpRegister (gR0 ib) mips_fmt_ps;
       op3 \<leftarrow> makeFpRegister (gR2 ib) mips_fmt_ps;
       op4 \<leftarrow> makeFpRegister (gR1 ib) mips_fmt_ps;
       Some (makeInstruction insn_va mips_nmsub_ps [op1, op2, op3, op4])
     })"

definition mips32_nor :: decoder where
  "mips32_nor = Decoder Release1 (sOP 0 OR sR3 0 OR sFN 39) (mOP OR mR3 OR mFN)
    (\<lambda>insn_va ib. do {
       op1 \<leftarrow> makeRegister (gR2 ib);
       op2 \<leftarrow> makeRegister (gR0 ib);
       op3 \<leftarrow> makeRegister (gR1 ib);
       Some (makeInstruction insn_va mips_nor [op1, op2, op3])
     })"

definition mips32_or :: decoder where
  "mips32_or = Decoder Release1 (sOP 0 OR sR3 0 OR sFN 37) (mOP OR mR3 OR mFN)
    (\<lambda>insn_va ib. do {
       op1 \<leftarrow> makeRegister (gR2 ib);
       op2 \<leftarrow> makeRegister (gR0 ib);
       op3 \<leftarrow> makeRegister (gR1 ib);
       Some (makeInstruction insn_va mips_or [op1, op2, op3])
     })"

definition mips32_ori :: decoder where
  "mips32_ori = Decoder Release1 (sOP 13) (mOP)
    (\<lambda>insn_va ib. do {
       op1 \<leftarrow> makeRegister (gR1 ib);
       op2 \<leftarrow> makeRegister (gR0 ib);
       op3 \<leftarrow> makeImmediate16 (gIM ib);
       Some (makeInstruction insn_va mips_ori [op1, op2, op3])
     })"

definition mips32_pause :: decoder where
  "mips32_pause = Decoder Release2 (sOP 0 OR sR0 0 OR sR1 0 OR sR2 0 OR sR3 5 OR sFN 0) (mOP OR mR0 OR mR1 OR mR2 OR mR3 OR mFN)
    (\<lambda>insn_va ib. Some (makeInstruction insn_va mips_pause []))"

definition mips32_pll_ps :: decoder where
  "mips32_pll_ps = Decoder Release2 (sOP 17 OR sR0 22 OR sFN 44) (mOP OR mR0 OR mFN)
    (\<lambda>insn_va ib. do {
       op1 \<leftarrow> makeFpRegister (gR3 ib) mips_fmt_ps;
       op2 \<leftarrow> makeFpRegister (gR2 ib) mips_fmt_ps;
       op3 \<leftarrow> makeFpRegister (gR1 ib) mips_fmt_ps;
       Some (makeInstruction insn_va mips_pll_ps [op1, op2, op3])
     })"

definition mips32_plu_ps :: decoder where
  "mips32_plu_ps = Decoder Release2 (sOP 17 OR sR0 22 OR sFN 45) (mOP OR mR0 OR mFN)
    (\<lambda>insn_va ib. do {
       op1 \<leftarrow> makeFpRegister (gR3 ib) mips_fmt_ps;
       op2 \<leftarrow> makeFpRegister (gR2 ib) mips_fmt_ps;
       op3 \<leftarrow> makeFpRegister (gR1 ib) mips_fmt_ps;
       Some (makeInstruction insn_va mips_plu_ps [op1, op2, op3])
     })"

definition mips32_pref :: decoder where
  "mips32_pref = Decoder Release1 (sOP 51) (mOP)
    (\<lambda>insn_va ib. do {
       op1 \<leftarrow> makeImmediate8 (gR1 ib);
       op2 \<leftarrow> makeRegisterOffset (gR0 ib) (gIM ib);
       Some (makeInstruction insn_va mips_pref [op1, op2])
     })"

definition mips32_prefe :: decoder where
  "mips32_prefe = Decoder Release1 (sOP 31 OR shift_to 6 6 0 OR sFN 35) (mOP OR mask_for 6 6 OR mFN)
    (\<lambda>insn_va ib. do {
       let offset16 = IntegerOps_signExtend 9 16 (extract_field 7 15 ib);
       op1 \<leftarrow> makeImmediate8 (gR1 ib);
       op2 \<leftarrow> makeRegisterOffset (gR0 ib) offset16;
       Some (makeInstruction insn_va mips_prefe [op1, op2])
     })"

definition mips32_prefx :: decoder where
  "mips32_prefx = Decoder Release2 (sOP 19 OR sR3 0 OR sFN 15) (mOP OR mR3 OR mFN)
    (\<lambda>insn_va ib. do {
       op1 \<leftarrow> makeImmediate8 (gR2 ib);
       op2 \<leftarrow> makeRegisterIndexed (gR0 ib) (gR1 ib);
       Some (makeInstruction insn_va mips_prefx [op1, op2])
     })"

definition mips32_pul_ps :: decoder where
  "mips32_pul_ps = Decoder Release2 (sOP 17 OR sR0 22 OR sFN 46) (mOP OR mR0 OR mFN)
    (\<lambda>insn_va ib. do {
       op1 \<leftarrow> makeFpRegister (gR3 ib) mips_fmt_ps;
       op2 \<leftarrow> makeFpRegister (gR2 ib) mips_fmt_ps;
       op3 \<leftarrow> makeFpRegister (gR1 ib) mips_fmt_ps;
       Some (makeInstruction insn_va mips_pul_ps [op1, op2, op3])
     })"

definition mips32_puu_ps :: decoder where
  "mips32_puu_ps = Decoder Release2 (sOP 17 OR sR0 22 OR sFN 47) (mOP OR mR0 OR mFN)
    (\<lambda>insn_va ib. do {
       op1 \<leftarrow> makeFpRegister (gR3 ib) mips_fmt_ps;
       op2 \<leftarrow> makeFpRegister (gR2 ib) mips_fmt_ps;
       op3 \<leftarrow> makeFpRegister (gR1 ib) mips_fmt_ps;
       Some (makeInstruction insn_va mips_puu_ps [op1, op2, op3])
     })"

definition mips32_rdhwr :: decoder where
  "mips32_rdhwr = Decoder Release2 (sOP 31 OR sR0 0 OR sR3 0 OR sFN 59) (mOP OR mR0 OR mR3 OR mFN)
    (\<lambda>insn_va ib. do {
       op1 \<leftarrow> makeRegister (gR1 ib);
       op2 \<leftarrow> makeHwRegister (gR2 ib);
       Some (makeInstruction insn_va mips_rdhwr [op1, op2])
     })"

definition mips32_rdpgpr :: decoder where
  "mips32_rdpgpr = Decoder Release2 (sOP 16 OR sR0 10 OR shift_to 0 10 0) (mOP OR mR0 OR mask_for 0 10)
    (\<lambda>insn_va ib. do {
       op1 \<leftarrow> makeRegister (gR2 ib);
       op2 \<leftarrow> makeShadowRegister (gR1 ib);
       Some (makeInstruction insn_va mips_rdpgpr [op1, op2])
     })"

definition mips32_recip_s :: decoder where
  "mips32_recip_s = Decoder Release2 (sOP 17 OR sR0 16 OR sR1 0 OR sFN 21) (mOP OR mR0 OR mR1 OR mFN)
    (\<lambda>insn_va ib. do {
       op1 \<leftarrow> makeFpRegister (gR3 ib) mips_fmt_s;
       op2 \<leftarrow> makeFpRegister (gR2 ib) mips_fmt_s;
       Some (makeInstruction insn_va mips_recip_s [op1, op2])
     })"

definition mips32_recip_d :: decoder where
  "mips32_recip_d = Decoder Release2 (sOP 17 OR sR0 17 OR sR1 0 OR sFN 21) (mOP OR mR0 OR mR1 OR mFN)
    (\<lambda>insn_va ib. do {
       op1 \<leftarrow> makeFpRegister (gR3 ib) mips_fmt_d;
       op2 \<leftarrow> makeFpRegister (gR2 ib) mips_fmt_d;
       Some (makeInstruction insn_va mips_recip_d [op1, op2])
     })"

definition mips32_rotr :: decoder where
  "mips32_rotr = Decoder Release2 (sOP 0 OR sR0 1 OR sFN 2) (mOP OR mR0 OR mFN)
    (\<lambda>insn_va ib. do {
       op1 \<leftarrow> makeRegister (gR2 ib);
       op2 \<leftarrow> makeRegister (gR1 ib);
       op3 \<leftarrow> makeImmediate8 (gR3 ib);
       Some (makeInstruction insn_va mips_rotr [op1, op2, op3])
     })"

definition mips32_rotrv :: decoder where
  "mips32_rotrv = Decoder Release2 (sOP 0 OR sR3 1 OR sFN 6) (mOP OR mR3 OR mFN)
    (\<lambda>insn_va ib. do {
       op1 \<leftarrow> makeRegister (gR2 ib);
       op2 \<leftarrow> makeRegister (gR1 ib);
       op3 \<leftarrow> makeRegister (gR0 ib);
       Some (makeInstruction insn_va mips_rotrv [op1, op2, op3])
     })"

definition mips32_round_l_s :: decoder where
  "mips32_round_l_s = Decoder Release2 (sOP 17 OR sR0 16 OR sR1 0 OR sFN 8) (mOP OR mR0 OR mR1 OR mFN)
    (\<lambda>insn_va ib. do {
       op1 \<leftarrow> makeFpRegister (gR3 ib) mips_fmt_l;
       op2 \<leftarrow> makeFpRegister (gR2 ib) mips_fmt_s;
       Some (makeInstruction insn_va mips_round_l_s [op1, op2])
     })"

definition mips32_round_l_d :: decoder where
  "mips32_round_l_d = Decoder Release2 (sOP 17 OR sR0 17 OR sR1 0 OR sFN 8) (mOP OR mR0 OR mR1 OR mFN)
    (\<lambda>insn_va ib. do {
       op1 \<leftarrow> makeFpRegister (gR3 ib) mips_fmt_l;
       op2 \<leftarrow> makeFpRegister (gR2 ib) mips_fmt_d;
       Some (makeInstruction insn_va mips_round_l_d [op1, op2])
     })"

definition mips32_round_w_s :: decoder where
  "mips32_round_w_s = Decoder Release1 (sOP 17 OR sR0 16 OR sR1 0 OR sFN 12) (mOP OR mR0 OR mR1 OR mFN)
    (\<lambda>insn_va ib. do {
       op1 \<leftarrow> makeFpRegister (gR3 ib) mips_fmt_w;
       op2 \<leftarrow> makeFpRegister (gR2 ib) mips_fmt_s;
       Some (makeInstruction insn_va mips_round_w_s [op1, op2])
     })"

definition mips32_round_w_d :: decoder where
  "mips32_round_w_d = Decoder Release1 (sOP 17 OR sR0 17 OR sR1 0 OR sFN 12) (mOP OR mR0 OR mR1 OR mFN)
    (\<lambda>insn_va ib. do {
       op1 \<leftarrow> makeFpRegister (gR3 ib) mips_fmt_w;
       op2 \<leftarrow> makeFpRegister (gR2 ib) mips_fmt_d;
       Some (makeInstruction insn_va mips_round_w_d [op1, op2])
     })"

definition mips32_rsqrt_s :: decoder where
  "mips32_rsqrt_s = Decoder Release2 (sOP 17 OR sR0 16 OR sR1 0 OR sFN 22) (mOP OR mR0 OR mR1 OR mFN)
    (\<lambda>insn_va ib. do {
       op1 \<leftarrow> makeFpRegister (gR3 ib) mips_fmt_s;
       op2 \<leftarrow> makeFpRegister (gR2 ib) mips_fmt_s;
       Some (makeInstruction insn_va mips_rsqrt_s [op1, op2])
     })"

definition mips32_rsqrt_d :: decoder where
  "mips32_rsqrt_d = Decoder Release2 (sOP 17 OR sR0 17 OR sR1 0 OR sFN 22) (mOP OR mR0 OR mR1 OR mFN)
    (\<lambda>insn_va ib. do {
       op1 \<leftarrow> makeFpRegister (gR3 ib) mips_fmt_d;
       op2 \<leftarrow> makeFpRegister (gR2 ib) mips_fmt_d;
       Some (makeInstruction insn_va mips_rsqrt_d [op1, op2])
     })"

definition mips32_sb :: decoder where
  "mips32_sb = Decoder Release1 (sOP 40) (mOP)
    (\<lambda>insn_va ib. do {
       addr \<leftarrow> makeRegisterOffset (gR0 ib) (gIM ib);
       op1 \<leftarrow> makeRegister (gR1 ib);
       Some (makeInstruction insn_va mips_sb [op1, makeMemoryReference addr 8])
     })"

definition mips32_sbe :: decoder where
  "mips32_sbe = Decoder Release1 (sOP 31 OR shift_to 6 6 0 OR sFN 28) (mOP OR mask_for 6 6 OR mFN)
    (\<lambda>insn_va ib. do {
       let offset16 = IntegerOps_signExtend 9 16 (extract_field 7 15 ib);
       addr \<leftarrow> makeRegisterOffset (gR0 ib) offset16;
       op1 \<leftarrow> makeRegister (gR1 ib);
       Some (makeInstruction insn_va mips_sbe [op1, makeMemoryReference addr 8])
     })"

definition mips32_sc :: decoder where
  "mips32_sc = Decoder Release1 (sOP 56) (mOP)
    (\<lambda>insn_va ib. do {
       addr \<leftarrow> makeRegisterOffset (gR0 ib) (gIM ib);
       op1 \<leftarrow> makeRegister (gR1 ib);
       Some (makeInstruction insn_va mips_sc [op1, makeMemoryReference addr 32])
     })"

definition mips32_sce :: decoder where
  "mips32_sce = Decoder Release1 (sOP 39 OR shift_to 6 6 0 OR sFN 30) (mOP OR mask_for 6 6 OR mFN)
    (\<lambda>insn_va ib. do {
       let offset16 = IntegerOps_signExtend 9 16 (extract_field 7 15 ib);
       addr \<leftarrow> makeRegisterOffset (gR0 ib) offset16;
       op1 \<leftarrow> makeRegister (gR1 ib);
       Some (makeInstruction insn_va mips_sce [op1, makeMemoryReference addr 32])
     })"

definition mips32_sdc1 :: decoder where
  "mips32_sdc1 = Decoder Release1 (sOP 61) (mOP)
    (\<lambda>insn_va ib. do {
       addr \<leftarrow> makeRegisterOffset (gR0 ib) (gIM ib);
       op1 \<leftarrow> makeFpRegister (gR1 ib) mips_fmt_d;
       Some (makeInstruction insn_va mips_sdc1 [op1, makeMemoryReference addr 64])
     })"

definition mips32_sdc2 :: decoder where
  "mips32_sdc2 = Decoder Release1 (sOP 62) (mOP)
    (\<lambda>insn_va ib. do {
       addr \<leftarrow> makeRegisterOffset (gR0 ib) (gIM ib);
       op1 \<leftarrow> makeCp2Register (gR1 ib);
       Some (makeInstruction insn_va mips_sdc2 [op1, makeMemoryReference addr 64])
     })"

definition mips32_sdxc1 :: decoder where
  "mips32_sdxc1 = Decoder Release2 (sOP 19 OR sR3 0 OR sFN 9) (mOP OR mR3 OR mFN)
    (\<lambda>insn_va ib. do {
       addr \<leftarrow> makeRegisterIndexed (gR0 ib) (gR1 ib);
       op1 \<leftarrow> makeFpRegister (gR2 ib) mips_fmt_d;
       Some (makeInstruction insn_va mips_sdxc1 [op1, makeMemoryReference addr 64])
     })"

definition mips32_seb :: decoder where
  "mips32_seb = Decoder Release2 (sOP 31 OR sR0 0 OR sR3 16 OR sFN 32) (mOP OR mR0 OR mR3 OR mFN)
    (\<lambda>insn_va ib. do {
       op1 \<leftarrow> makeRegister (gR2 ib);
       op2 \<leftarrow> makeRegister (gR1 ib);
       Some (makeInstruction insn_va mips_seb [op1, op2])
     })"

definition mips32_seh :: decoder where
  "mips32_seh = Decoder Release2 (sOP 31 OR sR0 0 OR sR3 24 OR sFN 32) (mOP OR mR0 OR mR3 OR mFN)
    (\<lambda>insn_va ib. do {
       op1 \<leftarrow> makeRegister (gR2 ib);
       op2 \<leftarrow> makeRegister (gR1 ib);
       Some (makeInstruction insn_va mips_seh [op1, op2])
     })"

definition mips32_sh :: decoder where
  "mips32_sh = Decoder Release1 (sOP 41) (mOP)
    (\<lambda>insn_va ib. do {
       addr \<leftarrow> makeRegisterOffset (gR0 ib) (gIM ib);
       op1 \<leftarrow> makeRegister (gR1 ib);
       Some (makeInstruction insn_va mips_sh [op1, makeMemoryReference addr 16])
     })"

definition mips32_she :: decoder where
  "mips32_she = Decoder Release1 (sOP 31 OR shift_to 6 6 0 OR sFN 29) (mOP OR mask_for 6 6 OR mFN)
    (\<lambda>insn_va ib. do {
       let offset16 = IntegerOps_signExtend 9 16 (extract_field 7 15 ib);
       addr \<leftarrow> makeRegisterOffset (gR0 ib) offset16;
       op1 \<leftarrow> makeRegister (gR1 ib);
       Some (makeInstruction insn_va mips_she [op1, makeMemoryReference addr 16])
     })"

definition mips32_sll :: decoder where
  "mips32_sll = Decoder Release1 (sOP 0 OR sR0 0 OR sFN 0) (mOP OR mR0 OR mFN)
    (\<lambda>insn_va ib. (if gR1 ib = 0 \<and> gR2 ib = 0 \<and> gR3 ib = 0 then Some (makeInstruction insn_va mips_nop [])
       else if gR1 ib = 0 \<and> gR2 ib = 0 \<and> gR3 ib = 1 then Some (makeInstruction insn_va mips_ssnop [])
       else if gR1 ib = 0 \<and> gR2 ib = 0 \<and> gR3 ib = 3 then Some (makeInstruction insn_va mips_ehb [])
       else do {
         op1 \<leftarrow> makeRegister (gR2 ib);
         op2 \<leftarrow> makeRegister (gR1 ib);
         op3 \<leftarrow> makeImmediate8 (gR3 ib);
         Some (makeInstruction insn_va mips_sll [op1, op2, op3])
       }))"

definition mips32_sllv :: decoder where
  "mips32_sllv = Decoder Release1 (sOP 0 OR sR3 0 OR sFN 4) (mOP OR mR3 OR mFN)
    (\<lambda>insn_va ib. do {
       op1 \<leftarrow> makeRegister (gR2 ib);
       op2 \<leftarrow> makeRegister (gR1 ib);
       op3 \<leftarrow> makeRegister (gR0 ib);
       Some (makeInstruction insn_va mips_sllv [op1, op2, op3])
     })"

definition mips32_slt :: decoder where
  "mips32_slt = Decoder Release1 (sOP 0 OR sR3 0 OR sFN 42) (mOP OR mR3 OR mFN)
    (\<lambda>insn_va ib. do {
       op1 \<leftarrow> makeRegister (gR2 ib);
       op2 \<leftarrow> makeRegister (gR0 ib);
       op3 \<leftarrow> makeRegister (gR1 ib);
       Some (makeInstruction insn_va mips_slt [op1, op2, op3])
     })"

definition mips32_slti :: decoder where
  "mips32_slti = Decoder Release1 (sOP 10) (mOP)
    (\<lambda>insn_va ib. do {
       op1 \<leftarrow> makeRegister (gR1 ib);
       op2 \<leftarrow> makeRegister (gR0 ib);
       op3 \<leftarrow> makeImmediate16 (gIM ib);
       Some (makeInstruction insn_va mips_slti [op1, op2, op3])
     })"

definition mips32_sltiu :: decoder where
  "mips32_sltiu = Decoder Release1 (sOP 11) (mOP)
    (\<lambda>insn_va ib. do {
       op1 \<leftarrow> makeRegister (gR1 ib);
       op2 \<leftarrow> makeRegister (gR0 ib);
       op3 \<leftarrow> makeImmediate16 (gIM ib);
       Some (makeInstruction insn_va mips_sltiu [op1, op2, op3])
     })"

definition mips32_sltu :: decoder where
  "mips32_sltu = Decoder Release1 (sOP 0 OR sR3 0 OR sFN 43) (mOP OR mR3 OR mFN)
    (\<lambda>insn_va ib. do {
       op1 \<leftarrow> makeRegister (gR2 ib);
       op2 \<leftarrow> makeRegister (gR0 ib);
       op3 \<leftarrow> makeRegister (gR1 ib);
       Some (makeInstruction insn_va mips_sltu [op1, op2, op3])
     })"

definition mips32_sqrt_s :: decoder where
  "mips32_sqrt_s = Decoder Release1 (sOP 17 OR sR0 16 OR sR1 0 OR sFN 4) (mOP OR mR0 OR mR1 OR mFN)
    (\<lambda>insn_va ib. do {
       op1 \<leftarrow> makeFpRegister (gR3 ib) mips_fmt_s;
       op2 \<leftarrow> makeFpRegister (gR2 ib) mips_fmt_s;
       Some (makeInstruction insn_va mips_sqrt_s [op1, op2])
     })"

definition mips32_sqrt_d :: decoder where
  "mips32_sqrt_d = Decoder Release1 (sOP 17 OR sR0 17 OR sR1 0 OR sFN 4) (mOP OR mR0 OR mR1 OR mFN)
    (\<lambda>insn_va ib. do {
       op1 \<leftarrow> makeFpRegister (gR3 ib) mips_fmt_d;
       op2 \<leftarrow> makeFpRegister (gR2 ib) mips_fmt_d;
       Some (makeInstruction insn_va mips_sqrt_d [op1, op2])
     })"

definition mips32_sra :: decoder where
  "mips32_sra = Decoder Release1 (sOP 0 OR sR0 0 OR sFN 3) (mOP OR mR0 OR mFN)
    (\<lambda>insn_va ib. do {
       op1 \<leftarrow> makeRegister (gR2 ib);
       op2 \<leftarrow> makeRegister (gR1 ib);
       op3 \<leftarrow> makeImmediate8 (gR3 ib);
       Some (makeInstruction insn_va mips_sra [op1, op2, op3])
     })"

definition mips32_srav :: decoder where
  "mips32_srav = Decoder Release1 (sOP 0 OR sR3 0 OR sFN 7) (mOP OR mR3 OR mFN)
    (\<lambda>insn_va ib. do {
       op1 \<leftarrow> makeRegister (gR2 ib);
       op2 \<leftarrow> makeRegister (gR1 ib);
       op3 \<leftarrow> makeRegister (gR0 ib);
       Some (makeInstruction insn_va mips_srav [op1, op2, op3])
     })"

definition mips32_srl :: decoder where
  "mips32_srl = Decoder Release1 (sOP 0 OR sR0 0 OR sFN 2) (mOP OR mR0 OR mFN)
    (\<lambda>insn_va ib. do {
       op1 \<leftarrow> makeRegister (gR2 ib);
       op2 \<leftarrow> makeRegister (gR1 ib);
       op3 \<leftarrow> makeImmediate8 (gR3 ib);
       Some (makeInstruction insn_va mips_srl [op1, op2, op3])
     })"

definition mips32_srlv :: decoder where
  "mips32_srlv = Decoder Release1 (sOP 0 OR sR3 0 OR sFN 6) (mOP OR mR3 OR mFN)
    (\<lambda>insn_va ib. do {
       op1 \<leftarrow> makeRegister (gR2 ib);
       op2 \<leftarrow> makeRegister (gR1 ib);
       op3 \<leftarrow> makeRegister (gR0 ib);
       Some (makeInstruction insn_va mips_srlv [op1, op2, op3])
     })"

definition mips32_sub :: decoder where
  "mips32_sub = Decoder Release1 (sOP 0 OR sR3 0 OR sFN 34) (mOP OR mR3 OR mFN)
    (\<lambda>insn_va ib. do {
       op1 \<leftarrow> makeRegister (gR2 ib);
       op2 \<leftarrow> makeRegister (gR0 ib);
       op3 \<leftarrow> makeRegister (gR1 ib);
       Some (makeInstruction insn_va mips_sub [op1, op2, op3])
     })"

definition mips32_sub_s :: decoder where
  "mips32_sub_s = Decoder Release1 (sOP 17 OR sR0 16 OR sFN 1) (mOP OR mR0 OR mFN)
    (\<lambda>insn_va ib. do {
       op1 \<leftarrow> makeFpRegister (gR3 ib) mips_fmt_s;
       op2 \<leftarrow> makeFpRegister (gR2 ib) mips_fmt_s;
       op3 \<leftarrow> makeFpRegister (gR1 ib) mips_fmt_s;
       Some (makeInstruction insn_va mips_sub_s [op1, op2, op3])
     })"

definition mips32_sub_d :: decoder where
  "mips32_sub_d = Decoder Release1 (sOP 17 OR sR0 17 OR sFN 1) (mOP OR mR0 OR mFN)
    (\<lambda>insn_va ib. do {
       op1 \<leftarrow> makeFpRegister (gR3 ib) mips_fmt_d;
       op2 \<leftarrow> makeFpRegister (gR2 ib) mips_fmt_d;
       op3 \<leftarrow> makeFpRegister (gR1 ib) mips_fmt_d;
       Some (makeInstruction insn_va mips_sub_d [op1, op2, op3])
     })"

definition mips32_sub_ps :: decoder where
  "mips32_sub_ps = Decoder Release2 (sOP 17 OR sR0 22 OR sFN 1) (mOP OR mR0 OR mFN)
    (\<lambda>insn_va ib. do {
       op1 \<leftarrow> makeFpRegister (gR3 ib) mips_fmt_ps;
       op2 \<leftarrow> makeFpRegister (gR2 ib) mips_fmt_ps;
       op3 \<leftarrow> makeFpRegister (gR1 ib) mips_fmt_ps;
       Some (makeInstruction insn_va mips_sub_ps [op1, op2, op3])
     })"

definition mips32_subu :: decoder where
  "mips32_subu = Decoder Release1 (sOP 0 OR sR3 0 OR sFN 35) (mOP OR mR3 OR mFN)
    (\<lambda>insn_va ib. do {
       op1 \<leftarrow> makeRegister (gR2 ib);
       op2 \<leftarrow> makeRegister (gR0 ib);
       op3 \<leftarrow> makeRegister (gR1 ib);
       Some (makeInstruction insn_va mips_subu [op1, op2, op3])
     })"

definition mips32_suxc1 :: decoder where
  "mips32_suxc1 = Decoder Release2 (sOP 19 OR sR3 0 OR sFN 13) (mOP OR mR3 OR mFN)
    (\<lambda>insn_va ib. do {
       addr \<leftarrow> makeRegisterIndexed (gR0 ib) (gR1 ib);
       op1 \<leftarrow> makeFpRegister (gR2 ib) mips_fmt_d;
       Some (makeInstruction insn_va mips_suxc1 [op1, makeMemoryReference addr 64])
     })"

definition mips32_sw :: decoder where
  "mips32_sw = Decoder Release1 (sOP 43) (mOP)
    (\<lambda>insn_va ib. do {
       addr \<leftarrow> makeRegisterOffset (gR0 ib) (gIM ib);
       op1 \<leftarrow> makeRegister (gR1 ib);
       Some (makeInstruction insn_va mips_sw [op1, makeMemoryReference addr 32])
     })"

definition mips32_swc1 :: decoder where
  "mips32_swc1 = Decoder Release1 (sOP 57) (mOP)
    (\<lambda>insn_va ib. do {
       addr \<leftarrow> makeRegisterOffset (gR0 ib) (gIM ib);
       op1 \<leftarrow> makeFpRegister (gR1 ib) mips_fmt_s;
       Some (makeInstruction insn_va mips_swc1 [op1, makeMemoryReference addr 32])
     })"

definition mips32_swc2 :: decoder where
  "mips32_swc2 = Decoder Release1 (sOP 58) (mOP)
    (\<lambda>insn_va ib. do {
       addr \<leftarrow> makeRegisterOffset (gR0 ib) (gIM ib);
       op1 \<leftarrow> makeCp2Register (gR1 ib);
       Some (makeInstruction insn_va mips_swc2 [op1, makeMemoryReference addr 32])
     })"

definition mips32_swe :: decoder where
  "mips32_swe = Decoder Release1 (sOP 31 OR shift_to 6 6 0 OR sFN 31) (mOP OR mask_for 6 6 OR mFN)
    (\<lambda>insn_va ib. do {
       let offset16 = IntegerOps_signExtend 9 16 (extract_field 7 15 ib);
       addr \<leftarrow> makeRegisterOffset (gR0 ib) offset16;
       op1 \<leftarrow> makeRegister (gR1 ib);
       Some (makeInstruction insn_va mips_swe [op1, makeMemoryReference addr 32])
     })"

definition mips32_swl :: decoder where
  "mips32_swl = Decoder Release1 (sOP 42) (mOP)
    (\<lambda>insn_va ib. do {
       addr \<leftarrow> makeRegisterOffset (gR0 ib) (gIM ib);
       op1 \<leftarrow> makeRegister (gR1 ib);
       Some (makeInstruction insn_va mips_swl [op1, makeMemoryReference addr 32])
     })"

definition mips32_swle :: decoder where
  "mips32_swle = Decoder Release1 (sOP 31 OR shift_to 6 6 0 OR sFN 33) (mOP OR mask_for 6 6 OR mFN)
    (\<lambda>insn_va ib. do {
       let offset16 = IntegerOps_signExtend 9 16 (extract_field 7 15 ib);
       addr \<leftarrow> makeRegisterOffset (gR0 ib) offset16;
       op1 \<leftarrow> makeRegister (gR1 ib);
       Some (makeInstruction insn_va mips_swle [op1, makeMemoryReference addr 32])
     })"

definition mips32_swr :: decoder where
  "mips32_swr = Decoder Release1 (sOP 46) (mOP)
    (\<lambda>insn_va ib. do {
       addr \<leftarrow> makeRegisterOffset (gR0 ib) (gIM ib);
       op1 \<leftarrow> makeRegister (gR1 ib);
       Some (makeInstruction insn_va mips_swr [op1, makeMemoryReference addr 32])
     })"

definition mips32_swre :: decoder where
  "mips32_swre = Decoder Release1 (sOP 31 OR shift_to 6 6 0 OR sFN 34) (mOP OR mask_for 6 6 OR mFN)
    (\<lambda>insn_va ib. do {
       let offset16 = IntegerOps_signExtend 9 16 (extract_field 7 15 ib);
       addr \<leftarrow> makeRegisterOffset (gR0 ib) offset16;
       op1 \<leftarrow> makeRegister (gR1 ib);
       Some (makeInstruction insn_va mips_swre [op1, makeMemoryReference addr 32])
     })"

definition mips32_swxc1 :: decoder where
  "mips32_swxc1 = Decoder Release2 (sOP 19 OR sR3 0 OR sFN 8) (mOP OR mR3 OR mFN)
    (\<lambda>insn_va ib. do {
       addr \<leftarrow> makeRegisterIndexed (gR0 ib) (gR1 ib);
       op1 \<leftarrow> makeFpRegister (gR2 ib) mips_fmt_s;
       Some (makeInstruction insn_va mips_swxc1 [op1, makeMemoryReference addr 32])
     })"

definition mips32_sync :: decoder where
  "mips32_sync = Decoder Release1 (sOP 0 OR shift_to 11 25 0 OR sFN 15) (mOP OR mask_for 11 25 OR mFN)
    (\<lambda>insn_va ib. do {
       op1 \<leftarrow> makeImmediate8 (gR3 ib);
       Some (makeInstruction insn_va mips_sync [op1])
     })"

definition mips32_synci :: decoder where
  "mips32_synci = Decoder Release2 (sOP 1 OR sR1 31) (mOP OR mR1)
    (\<lambda>insn_va ib. do {
       op1 \<leftarrow> makeRegisterOffset (gR0 ib) (gIM ib);
       Some (makeInstruction insn_va mips_synci [op1])
     })"

definition mips32_syscall :: decoder where
  "mips32_syscall = Decoder Release1 (sOP 0 OR sFN 12) (mOP OR mFN)
    (\<lambda>insn_va ib. Some (makeInstruction insn_va mips_syscall []))"

definition mips32_teq :: decoder where
  "mips32_teq = Decoder Release1 (sOP 0 OR sFN 52) (mOP OR mFN)
    (\<lambda>insn_va ib. do {
       op1 \<leftarrow> makeRegister (gR0 ib);
       op2 \<leftarrow> makeRegister (gR1 ib);
       Some (makeInstruction insn_va mips_teq [op1, op2])
     })"

definition mips32_teqi :: decoder where
  "mips32_teqi = Decoder Release1 (sOP 1 OR sR1 12) (mOP OR mR1)
    (\<lambda>insn_va ib. do {
       op1 \<leftarrow> makeRegister (gR0 ib);
       op2 \<leftarrow> makeImmediate16 (gIM ib);
       Some (makeInstruction insn_va mips_teqi [op1, op2])
     })"

definition mips32_tge :: decoder where
  "mips32_tge = Decoder Release1 (sOP 0 OR sFN 48) (mOP OR mFN)
    (\<lambda>insn_va ib. do {
       op1 \<leftarrow> makeRegister (gR0 ib);
       op2 \<leftarrow> makeRegister (gR1 ib);
       Some (makeInstruction insn_va mips_tge [op1, op2])
     })"

definition mips32_tgei :: decoder where
  "mips32_tgei = Decoder Release1 (sOP 1 OR sR1 8) (mOP OR mR1)
    (\<lambda>insn_va ib. do {
       op1 \<leftarrow> makeRegister (gR0 ib);
       op2 \<leftarrow> makeImmediate16 (gIM ib);
       Some (makeInstruction insn_va mips_tgei [op1, op2])
     })"

definition mips32_tgeiu :: decoder where
  "mips32_tgeiu = Decoder Release1 (sOP 1 OR sR1 9) (mOP OR mR1)
    (\<lambda>insn_va ib. do {
       op1 \<leftarrow> makeRegister (gR0 ib);
       op2 \<leftarrow> makeImmediate16 (gIM ib);
       Some (makeInstruction insn_va mips_tgeiu [op1, op2])
     })"

definition mips32_tgeu :: decoder where
  "mips32_tgeu = Decoder Release1 (sOP 0 OR sFN 49) (mOP OR mFN)
    (\<lambda>insn_va ib. do {
       op1 \<leftarrow> makeRegister (gR0 ib);
       op2 \<leftarrow> makeRegister (gR1 ib);
       Some (makeInstruction insn_va mips_tgeu [op1, op2])
     })"

definition mips32_tlbinv :: decoder where
  "mips32_tlbinv = Decoder Release1 (sOP 16 OR shift_to 25 25 1 OR shift_to 6 24 0 OR sFN 3) (mOP OR mask_for 25 25 OR mask_for 6 24 OR mFN)
    (\<lambda>insn_va ib. Some (makeInstruction insn_va mips_tlbinv []))"

definition mips32_tlbinvf :: decoder where
  "mips32_tlbinvf = Decoder Release1 (sOP 16 OR shift_to 25 25 1 OR shift_to 6 24 0 OR sFN 4) (mOP OR mask_for 25 25 OR mask_for 6 24 OR mFN)
    (\<lambda>insn_va ib. Some (makeInstruction insn_va mips_tlbinvf []))"

definition mips32_tlbp :: decoder where
  "mips32_tlbp = Decoder Release1 (sOP 16 OR shift_to 25 25 1 OR shift_to 6 24 0 OR sFN 8) (mOP OR mask_for 25 25 OR mask_for 6 24 OR mFN)
    (\<lambda>insn_va ib. Some (makeInstruction insn_va mips_tlbp []))"

definition mips32_tlbr :: decoder where
  "mips32_tlbr = Decoder Release1 (sOP 16 OR shift_to 25 25 1 OR shift_to 6 24 0 OR sFN 1) (mOP OR mask_for 25 25 OR mask_for 6 24 OR mFN)
    (\<lambda>insn_va ib. Some (makeInstruction insn_va mips_tlbr []))"

definition mips32_tlbwi :: decoder where
  "mips32_tlbwi = Decoder Release1 (sOP 16 OR shift_to 25 25 1 OR shift_to 6 24 0 OR sFN 2) (mOP OR mask_for 25 25 OR mask_for 6 24 OR mFN)
    (\<lambda>insn_va ib. Some (makeInstruction insn_va mips_tlbwi []))"

definition mips32_tlbwr :: decoder where
  "mips32_tlbwr = Decoder Release1 (sOP 16 OR shift_to 25 25 1 OR shift_to 6 24 0 OR sFN 6) (mOP OR mask_for 25 25 OR mask_for 6 24 OR mFN)
    (\<lambda>insn_va ib. Some (makeInstruction insn_va mips_tlbwr []))"

definition mips32_tlt :: decoder where
  "mips32_tlt = Decoder Release1 (sOP 0 OR sFN 50) (mOP OR mFN)
    (\<lambda>insn_va ib. do {
       op1 \<leftarrow> makeRegister (gR0 ib);
       op2 \<leftarrow> makeRegister (gR1 ib);
       Some (makeInstruction insn_va mips_tlt [op1, op2])
     })"

definition mips32_tlti :: decoder where
  "mips32_tlti = Decoder Release1 (sOP 1 OR sR1 10) (mOP OR mR1)
    (\<lambda>insn_va ib. do {
       op1 \<leftarrow> makeRegister (gR0 ib);
       op2 \<leftarrow> makeImmediate16 (gIM ib);
       Some (makeInstruction insn_va mips_tlti [op1, op2])
     })"

definition mips32_tltiu :: decoder where
  "mips32_tltiu = Decoder Release1 (sOP 1 OR sR1 11) (mOP OR mR1)
    (\<lambda>insn_va ib. do {
       op1 \<leftarrow> makeRegister (gR0 ib);
       op2 \<leftarrow> makeImmediate16 (gIM ib);
       Some (makeInstruction insn_va mips_tltiu [op1, op2])
     })"

definition mips32_tltu :: decoder where
  "mips32_tltu = Decoder Release1 (sOP 0 OR sFN 51) (mOP OR mFN)
    (\<lambda>insn_va ib. do {
       op1 \<leftarrow> makeRegister (gR0 ib);
       op2 \<leftarrow> makeRegister (gR1 ib);
       Some (makeInstruction insn_va mips_tltu [op1, op2])
     })"

definition mips32_tne :: decoder where
  "mips32_tne = Decoder Release1 (sOP 0 OR sFN 54) (mOP OR mFN)
    (\<lambda>insn_va ib. do {
       op1 \<leftarrow> makeRegister (gR0 ib);
       op2 \<leftarrow> makeRegister (gR1 ib);
       Some (makeInstruction insn_va mips_tne [op1, op2])
     })"

definition mips32_tnei :: decoder where
  "mips32_tnei = Decoder Release1 (sOP 1 OR sR1 14) (mOP OR mR1)
    (\<lambda>insn_va ib. do {
       op1 \<leftarrow> makeRegister (gR0 ib);
       op2 \<leftarrow> makeImmediate16 (gIM ib);
       Some (makeInstruction insn_va mips_tnei [op1, op2])
     })"

definition mips32_trunc_l_s :: decoder where
  "mips32_trunc_l_s = Decoder Release2 (sOP 17 OR sR0 16 OR sR1 0 OR sFN 9) (mOP OR mR0 OR mR1 OR mFN)
    (\<lambda>insn_va ib. do {
       op1 \<leftarrow> makeFpRegister (gR3 ib) mips_fmt_l;
       op2 \<leftarrow> makeFpRegister (gR2 ib) mips_fmt_s;
       Some (makeInstruction insn_va mips_trunc_l_s [op1, op2])
     })"

definition mips32_trunc_l_d :: decoder where
  "mips32_trunc_l_d = Decoder Release2 (sOP 17 OR sR0 17 OR sR1 0 OR sFN 9) (mOP OR mR0 OR mR1 OR mFN)
    (\<lambda>insn_va ib. do {
       op1 \<leftarrow> makeFpRegister (gR3 ib) mips_fmt_l;
       op2 \<leftarrow> makeFpRegister (gR2 ib) mips_fmt_d;
       Some (makeInstruction insn_va mips_trunc_l_d [op1, op2])
     })"

definition mips32_trunc_w_s :: decoder where
  "mips32_trunc_w_s = Decoder Release1 (sOP 17 OR sR0 16 OR sR1 0 OR sFN 13) (mOP OR mR0 OR mR1 OR mFN)
    (\<lambda>insn_va ib. do {
       op1 \<leftarrow> makeFpRegister (gR3 ib) mips_fmt_w;
       op2 \<leftarrow> makeFpRegister (gR2 ib) mips_fmt_s;
       Some (makeInstruction insn_va mips_trunc_w_s [op1, op2])
     })"

definition mips32_trunc_w_d :: decoder where
  "mips32_trunc_w_d = Decoder Release1 (sOP 17 OR sR0 17 OR sR1 0 OR sFN 13) (mOP OR mR0 OR mR1 OR mFN)
    (\<lambda>insn_va ib. do {
       op1 \<leftarrow> makeFpRegister (gR3 ib) mips_fmt_w;
       op2 \<leftarrow> makeFpRegister (gR2 ib) mips_fmt_d;
       Some (makeInstruction insn_va mips_trunc_w_d [op1, op2])
     })"

definition mips32_wait :: decoder where
  "mips32_wait = Decoder Release1 (sOP 16 OR shift_to 25 25 1 OR sFN 32) (mOP OR mask_for 25 25 OR mFN)
    (\<lambda>insn_va ib. Some (makeInstruction insn_va mips_wait []))"

definition mips32_wrpgpr :: decoder where
  "mips32_wrpgpr = Decoder Release2 (sOP 16 OR sR0 14 OR shift_to 0 10 0) (mOP OR mR0 OR mask_for 0 10)
    (\<lambda>insn_va ib. do {
       op1 \<leftarrow> makeShadowRegister (gR2 ib);
       op2 \<leftarrow> makeRegister (gR1 ib);
       Some (makeInstruction insn_va mips_wrpgpr [op1, op2])
     })"

definition mips32_wsbh :: decoder where
  "mips32_wsbh = Decoder Release2 (sOP 31 OR sR0 0 OR sR3 2 OR sFN 32) (mOP OR mR0 OR mR3 OR mFN)
    (\<lambda>insn_va ib. do {
       op1 \<leftarrow> makeRegister (gR2 ib);
       op2 \<leftarrow> makeRegister (gR1 ib);
       Some (makeInstruction insn_va mips_wsbh [op1, op2])
     })"

definition mips32_xor :: decoder where
  "mips32_xor = Decoder Release1 (sOP 0 OR sR3 0 OR sFN 38) (mOP OR mR3 OR mFN)
    (\<lambda>insn_va ib. do {
       op1 \<leftarrow> makeRegister (gR2 ib);
       op2 \<leftarrow> makeRegister (gR0 ib);
       op3 \<leftarrow> makeRegister (gR1 ib);
       Some (makeInstruction insn_va mips_xor [op1, op2, op3])
     })"

definition mips32_xori :: decoder where
  "mips32_xori = Decoder Release1 (sOP 14) (mOP)
    (\<lambda>insn_va ib. do {
       op1 \<leftarrow> makeRegister (gR1 ib);
       op2 \<leftarrow> makeRegister (gR0 ib);
       op3 \<leftarrow> makeImmediate16 (gIM ib);
       Some (makeInstruction insn_va mips_xori [op1, op2, op3])
     })"

text \<open>The decoders that \<^verbatim>\<open>init\<close> inserts into the table, in this order.\<close>

definition decoders :: "decoder list" where
  "decoders =
    [mips32_abs_s, mips32_abs_d, mips32_abs_ps, mips32_add, mips32_add_s, mips32_add_d, mips32_add_ps, mips32_addi,
     mips32_addiu, mips32_addu, mips32_alnv_ps, mips32_and, mips32_andi, mips32_bc1f, mips32_bc1fl, mips32_bc1t,
     mips32_bc1tl, mips32_bc2f, mips32_bc2fl, mips32_bc2t, mips32_bc2tl, mips32_beq, mips32_beql, mips32_bgez,
     mips32_bgezal, mips32_bgezall, mips32_bgezl, mips32_bgtz, mips32_bgtzl, mips32_blez, mips32_blezl, mips32_bltz,
     mips32_bltzal, mips32_bltzall, mips32_bltzl, mips32_bne, mips32_bnel, mips32_c_cond_s, mips32_c_cond_d, mips32_c_cond_ps,
     mips32_cache, mips32_cachee, mips32_ceil_l_s, mips32_ceil_l_d, mips32_ceil_w_s, mips32_ceil_w_d, mips32_cfc1, mips32_cfc2,
     mips32_clo, mips32_clz, mips32_cop2, mips32_ctc1, mips32_ctc2, mips32_cvt_d_s, mips32_cvt_d_w, mips32_cvt_d_l,
     mips32_cvt_l_s, mips32_cvt_l_d, mips32_cvt_ps_s, mips32_cvt_s_w, mips32_cvt_s_l, mips32_cvt_s_pl, mips32_cvt_s_pu, mips32_cvt_w_s,
     mips32_cvt_w_d, mips32_di, mips32_div, mips32_div_s, mips32_div_d, mips32_divu, mips32_ei, mips32_eret,
     mips32_ext, mips32_floor_l_s, mips32_floor_l_d, mips32_floor_w_s, mips32_floor_w_d, mips32_ins, mips32_j, mips32_jal,
     mips32_jalr, mips32_jalr_hb, mips32_jalx, mips32_jr, mips32_jr_hb, mips32_lb, mips32_lbe, mips32_lbu,
     mips32_lbue, mips32_ldc1, mips32_ldc2, mips32_ldxc1, mips32_lh, mips32_lhe, mips32_lhu, mips32_lhue,
     mips32_ll, mips32_lle, mips32_lui, mips32_luxc1, mips32_lw, mips32_lwc1, mips32_lwc2, mips32_lwe,
     mips32_lwl, mips32_lwle, mips32_lwr, mips32_lwre, mips32_lwu, mips32_lwxc1, mips32_madd, mips32_madd_s,
     mips32_madd_d, mips32_madd_ps, mips32_maddu, mips32_mfc0, mips32_mfc1, mips32_mfc2, mips32_mfhc1, mips32_mfhc2,
     mips32_mfhi, mips32_mflo, mips32_mov_s, mips32_mov_d, mips32_mov_ps, mips32_movf, mips32_movf_s, mips32_movf_d,
     mips32_movf_ps, mips32_movn, mips32_movn_s, mips32_movn_d, mips32_movn_ps, mips32_movt, mips32_movt_s, mips32_movt_d,
     mips32_movt_ps, mips32_movz, mips32_movz_s, mips32_movz_d, mips32_movz_ps, mips32_msub, mips32_msub_s, mips32_msub_d,
     mips32_msub_ps, mips32_msubu, mips32_mtc0, mips32_mtc1, mips32_mtc2, mips32_mthi, mips32_mtlo, mips32_mul,
     mips32_mul_s, mips32_mul_d, mips32_mul_ps, mips32_mult, mips32_multu, mips32_neg_s, mips32_neg_d, mips32_neg_ps,
     mips32_nmadd_s, mips32_nmadd_d, mips32_nmadd_ps, mips32_nmsub_s, mips32_nmsub_d, mips32_nmsub_ps, mips32_nor, mips32_or,
     mips32_ori, mips32_pause, mips32_pll_ps, mips32_plu_ps, mips32_pref, mips32_prefe, mips32_prefx, mips32_pul_ps,
     mips32_puu_ps, mips32_rdhwr, mips32_rdpgpr, mips32_recip_s, mips32_recip_d, mips32_rotr, mips32_rotrv, mips32_round_l_s,
     mips32_round_l_d, mips32_round_w_s, mips32_round_w_d, mips32_rsqrt_s, mips32_rsqrt_d, mips32_sb, mips32_sbe, mips32_sc,
     mips32_sce, mips32_sdc1, mips32_sdc2, mips32_sdxc1, mips32_seb, mips32_seh, mips32_sh, mips32_she,
     mips32_sll, mips32_sllv, mips32_slt, mips32_slti, mips32_sltiu, mips32_sltu, mips32_sqrt_s, mips32_sqrt_d,
     mips32_sra, mips32_srav, mips32_srl, mips32_srlv, mips32_sub, mips32_sub_s, mips32_sub_d, mips32_sub_ps,
     mips32_subu, mips32_suxc1, mips32_sw, mips32_swc1, mips32_swc2, mips32_swe, mips32_swl, mips32_swle,
     mips32_swr, mips32_swre, mips32_swxc1, mips32_sync, mips32_synci, mips32_syscall, mips32_teq, mips32_teqi,
     mips32_tge, mips32_tgei, mips32_tgeiu, mips32_tgeu, mips32_tlbinv, mips32_tlbinvf, mips32_tlbp, mips32_tlbr,
     mips32_tlbwi, mips32_tlbwr, mips32_tlt, mips32_tlti, mips32_tltiu, mips32_tltu, mips32_tne, mips32_tnei,
     mips32_trunc_l_s, mips32_trunc_l_d, mips32_trunc_w_s, mips32_trunc_w_d, mips32_wait, mips32_wrpgpr, mips32_wsbh, mips32_xor,
     mips32_xori]"

text \<open>The definitions of all decoders.\<close>

lemmas decoder_defs =
  mips32_abs_s_def mips32_abs_d_def mips32_abs_ps_def mips32_add_def mips32_add_s_def mips32_add_d_def mips32_add_ps_def mips32_addi_def
  mips32_addiu_def mips32_addu_def mips32_alnv_ps_def mips32_and_def mips32_andi_def mips32_bc1f_def mips32_bc1fl_def mips32_bc1t_def
  mips32_bc1tl_def mips32_bc2f_def mips32_bc2fl_def mips32_bc2t_def mips32_bc2tl_def mips32_beq_def mips32_beql_def mips32_bgez_def
  mips32_bgezal_def mips32_bgezall_def mips32_bgezl_def mips32_bgtz_def mips32_bgtzl_def mips32_blez_def mips32_blezl_def mips32_bltz_def
  mips32_bltzal_def mips32_bltzall_def mips32_bltzl_def mips32_bne_def mips32_bnel_def mips32_break_def mips32_c_cond_s_def mips32_c_cond_d_def
  mips32_c_cond_ps_def mips32_cache_def mips32_cachee_def mips32_ceil_l_s_def mips32_ceil_l_d_def mips32_ceil_w_s_def mips32_ceil_w_d_def mips32_cfc1_def
  mips32_cfc2_def mips32_clo_def mips32_clz_def mips32_cop2_def mips32_ctc1_def mips32_ctc2_def mips32_cvt_d_s_def mips32_cvt_d_w_def
  mips32_cvt_d_l_def mips32_cvt_l_s_def mips32_cvt_l_d_def mips32_cvt_ps_s_def mips32_cvt_s_d_def mips32_cvt_s_w_def mips32_cvt_s_l_def mips32_cvt_s_pl_def
  mips32_cvt_s_pu_def mips32_cvt_w_s_def mips32_cvt_w_d_def mips32_di_def mips32_div_def mips32_div_s_def mips32_div_d_def mips32_divu_def
  mips32_ei_def mips32_eret_def mips32_ext_def mips32_floor_l_s_def mips32_floor_l_d_def mips32_floor_w_s_def mips32_floor_w_d_def mips32_ins_def
  mips32_j_def mips32_jal_def mips32_jalr_def mips32_jalr_hb_def mips32_jalx_def mips32_jr_def mips32_jr_hb_def mips32_lb_def
  mips32_lbe_def mips32_lbu_def mips32_lbue_def mips32_ldc1_def mips32_ldc2_def mips32_ldxc1_def mips32_lh_def mips32_lhe_def
  mips32_lhu_def mips32_lhue_def mips32_ll_def mips32_lle_def mips32_lui_def mips32_luxc1_def mips32_lw_def mips32_lwc1_def
  mips32_lwc2_def mips32_lwe_def mips32_lwl_def mips32_lwle_def mips32_lwr_def mips32_lwre_def mips32_lwu_def mips32_lwxc1_def
  mips32_madd_def mips32_madd_s_def mips32_madd_d_def mips32_madd_ps_def mips32_maddu_def mips32_mfc0_def mips32_mfc1_def mips32_mfc2_def
  mips32_mfhc1_def mips32_mfhc2_def mips32_mfhi_def mips32_mflo_def mips32_mov_s_def mips32_mov_d_def mips32_mov_ps_def mips32_movf_def
  mips32_movf_s_def mips32_movf_d_def mips32_movf_ps_def mips32_movn_def mips32_movn_s_def mips32_movn_d_def mips32_movn_ps_def mips32_movt_def
  mips32_movt_s_def mips32_movt_d_def mips32_movt_ps_def mips32_movz_def mips32_movz_s_def mips32_movz_d_def mips32_movz_ps_def mips32_msub_def
  mips32_msub_s_def mips32_msub_d_def mips32_msub_ps_def mips32_msubu_def mips32_mtc0_def mips32_mtc1_def mips32_mtc2_def mips32_mthc1_def
  mips32_mthc2_def mips32_mthi_def mips32_mtlo_def mips32_mul_def mips32_mul_s_def mips32_mul_d_def mips32_mul_ps_def mips32_mult_def
  mips32_multu_def mips32_neg_s_def mips32_neg_d_def mips32_neg_ps_def mips32_nmadd_s_def mips32_nmadd_d_def mips32_nmadd_ps_def mips32_nmsub_s_def
  mips32_nmsub_d_def mips32_nmsub_ps_def mips32_nor_def mips32_or_def mips32_ori_def mips32_pause_def mips32_pll_ps_def mips32_plu_ps_def
  mips32_pref_def mips32_prefe_def mips32_prefx_def mips32_pul_ps_def mips32_puu_ps_def mips32_rdhwr_def mips32_rdpgpr_def mips32_recip_s_def
  mips32_recip_d_def mips32_rotr_def mips32_rotrv_def mips32_round_l_s_def mips32_round_l_d_def mips32_round_w_s_def mips32_round_w_d_def mips32_rsqrt_s_def
  mips32_rsqrt_d_def mips32_sb_def mips32_sbe_def mips32_sc_def mips32_sce_def mips32_sdc1_def mips32_sdc2_def mips32_sdxc1_def
  mips32_seb_def mips32_seh_def mips32_sh_def mips32_she_def mips32_sll_def mips32_sllv_def mips32_slt_def mips32_slti_def
  mips32_sltiu_def mips32_sltu_def mips32_sqrt_s_def mips32_sqrt_d_def mips32_sra_def mips32_srav_def mips32_srl_def mips32_srlv_def
  mips32_sub_def mips32_sub_s_def mips32_sub_d_def mips32_sub_ps_def mips32_subu_def mips32_suxc1_def mips32_sw_def mips32_swc1_def
  mips32_swc2_def mips32_swe_def mips32_swl_def mips32_swle_def mips32_swr_def mips32_swre_def mips32_swxc1_def mips32_sync_def
  mips32_synci_def mips32_syscall_def mips32_teq_def mips32_teqi_def mips32_tge_def mips32_tgei_def mips32_tgeiu_def mips32_tgeu_def
  mips32_tlbinv_def mips32_tlbinvf_def mips32_tlbp_def mips32_tlbr_def mips32_tlbwi_def mips32_tlbwr_def mips32_tlt_def mips32_tlti_def
  mips32_tltiu_def mips32_tltu_def mips32_tne_def mips32_tnei_def mips32_trunc_l_s_def mips32_trunc_l_d_def mips32_trunc_w_s_def mips32_trunc_w_d_def
  mips32_wait_def mips32_wrpgpr_def mips32_wsbh_def mips32_xor_def mips32_xori_def

end
