(* ===== verification/Mips_Disassembler.thy ===== *)
theory Mips_Disassembler
  imports Mips_Decoders
begin

text \<open>
  The table of decoders and the disassembly of one instruction: \<^verbatim>\<open>insert_idis\<close>, \<^verbatim>\<open>init\<close>,
  \<^verbatim>\<open>find_idis\<close>, \<^verbatim>\<open>disassemble_insn\<close>, \<^verbatim>\<open>nDelaySlots\<close> and \<^verbatim>\<open>disassembleOne\<close>.

  A thrown exception is the value \<open>None\<close> and a null pointer the value \<open>Some None\<close>. The assertions of the
  functions that make operands hold for the fields of a word that the decoders pass, so a decoder that has no
  result has thrown the exception that \<^verbatim>\<open>disassembleOne\<close> catches. The memory map is the
  partial function from addresses to the bytes that are mapped with execute permission.
\<close>

section \<open>The table of decoders\<close>

definition idis_match :: "decoder \<Rightarrow> 32 word \<Rightarrow> bool" where
  "idis_match d insn_bits \<longleftrightarrow> insn_bits AND d_mask d = d_match d"

text \<open>The condition under which the insertion of a decoder is refused because of an entry of the table.\<close>

definition conflicts :: "decoder \<Rightarrow> decoder \<Rightarrow> bool" where
  "conflicts idis entry \<longleftrightarrow>
     bitmask_subset (d_mask idis) (d_mask entry) \<and> d_match idis = d_match entry AND d_mask idis \<or>
     bitmask_subset (d_mask entry) (d_mask idis) \<and> d_match entry = d_match idis AND d_mask entry"

text \<open>The loop over the table: the entry that is replaced, if any, and the check of the others.\<close>

fun insert_loop :: "decoder \<Rightarrow> bool \<Rightarrow> decoder list \<Rightarrow> bool \<Rightarrow> (decoder list \<times> bool) option" where
  "insert_loop idis replace [] inserted = Some ([], inserted)"
| "insert_loop idis replace (entry # entries) inserted =
     (if replace \<and> \<not> inserted \<and> d_mask idis = d_mask entry \<and> d_match idis = d_match entry AND d_mask entry
      then do { (entries, inserted) \<leftarrow> insert_loop idis replace entries True; Some (idis # entries, inserted) }
      else if conflicts idis entry then None
      else do { (entries, inserted) \<leftarrow> insert_loop idis replace entries inserted; Some (entry # entries, inserted) })"

definition insert_idis :: "decoder list \<Rightarrow> decoder \<Rightarrow> bool \<Rightarrow> decoder list option" where
  "insert_idis idis_table idis replace = do {
     require (d_mask idis \<noteq> 0);
     require (d_match idis AND NOT (d_mask idis) = 0);
     (idis_table, inserted) \<leftarrow> insert_loop idis replace idis_table False;
     Some (if \<not> inserted then idis_table @ [idis] else idis_table)
   }"

fun insert_all :: "decoder list \<Rightarrow> decoder list \<Rightarrow> decoder list option" where
  "insert_all idis_table [] = Some idis_table"
| "insert_all idis_table (d # ds) = do { idis_table \<leftarrow> insert_idis idis_table d False; insert_all idis_table ds }"

text \<open>
  The registers of the instruction and the stack pointer are looked up in the dictionary by their names when it is made
  (\<^verbatim>\<open>Architecture/Mips32.C\<close>); they must exist.
\<close>

definition init :: "decoder list option" where
  "init = do {
     let REG_IP = find_register ''pc'';
     let REG_SP = find_register ''sp'';
     require (\<not> reg_isEmpty REG_IP);
     require (\<not> reg_isEmpty REG_SP);
     insert_all [] decoders
   }"

fun find_loop :: "decoder list \<Rightarrow> 32 word \<Rightarrow> decoder option \<Rightarrow> decoder option option" where
  "find_loop [] insn_bits retval = Some retval"
| "find_loop (d # ds) insn_bits retval =
     (if idis_match d insn_bits then
        (if retval \<noteq> None then None else find_loop ds insn_bits (Some d))
      else find_loop ds insn_bits retval)"

definition find_idis :: "decoder list \<Rightarrow> 32 word \<Rightarrow> decoder option option" where
  "find_idis idis_table insn_bits = find_loop idis_table insn_bits None"

section \<open>One instruction\<close>

definition disassemble_insn :: "decoder list \<Rightarrow> 64 word \<Rightarrow> 32 word \<Rightarrow> 8 word list \<Rightarrow> mips_insn option option" where
  "disassemble_insn idis_table insn_va insn_bits bytes = do {
     idis \<leftarrow> find_idis idis_table insn_bits;
     case idis of
       None \<Rightarrow> Some None
     | Some d \<Rightarrow> do { insn \<leftarrow> d_decode d insn_va insn_bits; Some (Some (set_rawBytes insn bytes)) }
   }"

definition nDelaySlots :: "mips_kind \<Rightarrow> nat" where
  "nDelaySlots kind =
     (if kind \<in> {mips_b, mips_bal, mips_bc1f, mips_bc1t, mips_bc2f, mips_bc2t, mips_beq, mips_bgez, mips_bgezal, mips_bgtz,
        mips_blez, mips_bltz, mips_bltzal, mips_bne} then 1
      else if kind \<in> {mips_bc1fl, mips_bc1tl, mips_bc2fl, mips_bc2tl, mips_beql, mips_bgezall, mips_bgezl, mips_bgtzl,
        mips_blezl, mips_bltzall, mips_bltzl, mips_bnel} then 1
      else if kind \<in> {mips_j, mips_jal, mips_jalr, mips_jalr_hb, mips_jalx, mips_jr, mips_jr_hb} then 1
      else 0)"

type_synonym code_map = "64 word \<rightharpoonup> 8 word"

text \<open>The bytes that \<^verbatim>\<open>at(insn_va).limit(4).require(EXECUTABLE).read\<close> finds, when there are four of them.\<close>

definition read_code :: "code_map \<Rightarrow> 64 word \<Rightarrow> 8 word list option" where
  "read_code m va = do {
     b0 \<leftarrow> m va;
     b1 \<leftarrow> m (va + 1);
     b2 \<leftarrow> m (va + 2);
     b3 \<leftarrow> m (va + 3);
     Some [b0, b1, b2, b3]
   }"

definition diskToHost :: "byte_order \<Rightarrow> 8 word list \<Rightarrow> 32 word" where
  "diskToHost sex bytes =
     horner_sum unsigned (2 ^ 8) (if ORDER_LSB = sex then bytes else rev bytes)"

text \<open>
  The recursion follows the delay slots, so it takes fuel: the outer \<open>None\<close> is the value of a recursion
  that did not end, the inner one an exception.
\<close>

fun disassembleOne :: "nat \<Rightarrow> byte_order \<Rightarrow> decoder list \<Rightarrow> code_map \<Rightarrow> 64 word \<Rightarrow> mips_insn option option" where
  "disassembleOne 0 bo idis_table m insn_va = None"
| "disassembleOne (Suc fuel) bo idis_table m insn_va =
     (if insn_va mod 4 \<noteq> 0 then Some None
      else case read_code m insn_va of
        None \<Rightarrow> Some None
      | Some memBytes \<Rightarrow>
          (let insn_bits = diskToHost bo memBytes in
           case disassemble_insn idis_table insn_va insn_bits memBytes of
             None \<Rightarrow> Some (Some (makeUnknownInstruction insn_va insn_bits))
           | Some None \<Rightarrow> Some (Some (makeUnknownInstruction insn_va insn_bits))
           | Some (Some insn) \<Rightarrow>
               if nDelaySlots (get_kind insn) > 0 then
                 (case disassembleOne fuel bo idis_table m (get_address insn + get_size insn) of
                    None \<Rightarrow> None
                  | Some None \<Rightarrow> Some (Some insn)
                  | Some (Some delayInsn) \<Rightarrow> Some (Some (set_delaySlot insn delayInsn)))
               else Some (Some insn)))"

end
