(* ===== verification/Decoder_Table.thy ===== *)
theory Decoder_Table
  imports Mips_Disassembler
begin

text \<open>
  Which words the decoders of the table match. Two decoders match a common word only when their bits
  agree where both masks have them. The table is compared pair by pair, after a first comparison of the
  bits that select a group of instructions: the operation code with the function, format or register
  field that belongs to it.
\<close>

section \<open>The bits of the decoders\<close>

lemma decoder_sel: "d_match (Decoder a m k f) = m" "d_mask (Decoder a m k f) = k" "d_decode (Decoder a m k f) = f"
  by (simp_all add: Decoder_def)

lemma field_masks: "mOP = 0xfc000000" "mR0 = 0x3e00000" "mR1 = 0x1f0000" "mR2 = 0xf800" "mR3 = 0x7c0" "mFN = 0x3f"
  by (simp_all add: mOP_def mR0_def mR1_def mR2_def mR3_def mFN_def mask_for_def genMask_bits_def GenMask_def SHL1_def)

lemma shift_to_eq: "lobit < 32 \<Longrightarrow> shift_to lobit hibit value = push_bit lobit (value AND GenMask (1 + hibit - lobit))"
  by (simp add: shift_to_def IntegerOps_shiftLeft_def SHL1_def GenMask_def push_bit_eq_mult)

lemmas field_values = sOP_def sR0_def sR1_def sR2_def sR3_def sFN_def shift_to_eq mask_for_def genMask_bits_def GenMask_def SHL1_def

lemma decoder_bits:
  "d_match mips32_abs_s = 1174405125" "d_mask mips32_abs_s = 4294901823"
  "d_match mips32_abs_d = 1176502277" "d_mask mips32_abs_d = 4294901823"
  "d_match mips32_abs_ps = 1186988037" "d_mask mips32_abs_ps = 4294901823"
  "d_match mips32_add = 32" "d_mask mips32_add = 4227860479"
  "d_match mips32_add_s = 1174405120" "d_mask mips32_add_s = 4292870207"
  "d_match mips32_add_d = 1176502272" "d_mask mips32_add_d = 4292870207"
  "d_match mips32_add_ps = 1186988032" "d_mask mips32_add_ps = 4292870207"
  "d_match mips32_addi = 536870912" "d_mask mips32_addi = 4227858432"
  "d_match mips32_addiu = 603979776" "d_mask mips32_addiu = 4227858432"
  "d_match mips32_addu = 33" "d_mask mips32_addu = 4227860479"
  "d_match mips32_alnv_ps = 1275068446" "d_mask mips32_alnv_ps = 4227858495"
  "d_match mips32_and = 36" "d_mask mips32_and = 4227860479"
  "d_match mips32_andi = 805306368" "d_mask mips32_andi = 4227858432"
  "d_match mips32_bc1f = 1157627904" "d_mask mips32_bc1f = 4293066752"
  "d_match mips32_bc1fl = 1157758976" "d_mask mips32_bc1fl = 4293066752"
  "d_match mips32_bc1t = 1157693440" "d_mask mips32_bc1t = 4293066752"
  "d_match mips32_bc1tl = 1426259968" "d_mask mips32_bc1tl = 4293066752"
  "d_match mips32_bc2f = 1224736768" "d_mask mips32_bc2f = 4293066752"
  "d_match mips32_bc2fl = 1224867840" "d_mask mips32_bc2fl = 4293066752"
  "d_match mips32_bc2t = 1224802304" "d_mask mips32_bc2t = 4293066752"
  "d_match mips32_bc2tl = 1224933376" "d_mask mips32_bc2tl = 4293066752"
  "d_match mips32_beq = 268435456" "d_mask mips32_beq = 4227858432"
  "d_match mips32_beql = 1342177280" "d_mask mips32_beql = 4227858432"
  "d_match mips32_bgez = 67174400" "d_mask mips32_bgez = 4229890048"
  "d_match mips32_bgezal = 68222976" "d_mask mips32_bgezal = 4229890048"
  "d_match mips32_bgezall = 68354048" "d_mask mips32_bgezall = 4229890048"
  "d_match mips32_bgezl = 67305472" "d_mask mips32_bgezl = 4229890048"
  "d_match mips32_bgtz = 469762048" "d_mask mips32_bgtz = 4229890048"
  "d_match mips32_bgtzl = 1275068416" "d_mask mips32_bgtzl = 4229890048"
  "d_match mips32_blez = 402653184" "d_mask mips32_blez = 4229890048"
  "d_match mips32_blezl = 1476395008" "d_mask mips32_blezl = 4229890048"
  "d_match mips32_bltz = 67108864" "d_mask mips32_bltz = 4229890048"
  "d_match mips32_bltzal = 68157440" "d_mask mips32_bltzal = 4229890048"
  "d_match mips32_bltzall = 68288512" "d_mask mips32_bltzall = 4229890048"
  "d_match mips32_bltzl = 67239936" "d_mask mips32_bltzl = 4229890048"
  "d_match mips32_bne = 335544320" "d_mask mips32_bne = 4227858432"
  "d_match mips32_bnel = 1409286144" "d_mask mips32_bnel = 4227858432"
  "d_match mips32_c_cond_s = 1174405168" "d_mask mips32_c_cond_s = 4292870384"
  "d_match mips32_c_cond_d = 1176502320" "d_mask mips32_c_cond_d = 4292870384"
  "d_match mips32_c_cond_ps = 1186988080" "d_mask mips32_c_cond_ps = 4292870384"
  "d_match mips32_cache = 3154116608" "d_mask mips32_cache = 4227858432"
  "d_match mips32_cachee = 2080374811" "d_mask mips32_cachee = 4227858559"
  "d_match mips32_ceil_l_s = 1" "d_mask mips32_ceil_l_s = 4294901823"
  "d_match mips32_ceil_l_d = 1176502282" "d_mask mips32_ceil_l_d = 4294901823"
  "d_match mips32_ceil_w_s = 1174405134" "d_mask mips32_ceil_w_s = 4294901823"
  "d_match mips32_ceil_w_d = 1176502286" "d_mask mips32_ceil_w_d = 4294901823"
  "d_match mips32_cfc1 = 1145044992" "d_mask mips32_cfc1 = 4292872191"
  "d_match mips32_cfc2 = 1212153856" "d_mask mips32_cfc2 = 4292870144"
  "d_match mips32_clo = 1879048225" "d_mask mips32_clo = 4227860479"
  "d_match mips32_clz = 1879048224" "d_mask mips32_clz = 4227860479"
  "d_match mips32_cop2 = 1241513984" "d_mask mips32_cop2 = 4261412864"
  "d_match mips32_ctc1 = 1153433600" "d_mask mips32_ctc1 = 4292872191"
  "d_match mips32_ctc2 = 1220542464" "d_mask mips32_ctc2 = 4292870144"
  "d_match mips32_cvt_d_s = 1174405153" "d_mask mips32_cvt_d_s = 4294901823"
  "d_match mips32_cvt_d_w = 1182793761" "d_mask mips32_cvt_d_w = 4294901823"
  "d_match mips32_cvt_d_l = 1184890913" "d_mask mips32_cvt_d_l = 4294901823"
  "d_match mips32_cvt_l_s = 1174405157" "d_mask mips32_cvt_l_s = 4294901823"
  "d_match mips32_cvt_l_d = 1444937765" "d_mask mips32_cvt_l_d = 4294901823"
  "d_match mips32_cvt_ps_s = 1174405158" "d_mask mips32_cvt_ps_s = 4292870207"
  "d_match mips32_cvt_s_w = 1182793760" "d_mask mips32_cvt_s_w = 4294901823"
  "d_match mips32_cvt_s_l = 1184890912" "d_mask mips32_cvt_s_l = 4294901823"
  "d_match mips32_cvt_s_pl = 1186988072" "d_mask mips32_cvt_s_pl = 4294901823"
  "d_match mips32_cvt_s_pu = 1186988064" "d_mask mips32_cvt_s_pu = 4294901823"
  "d_match mips32_cvt_w_s = 1174405156" "d_mask mips32_cvt_w_s = 4294901823"
  "d_match mips32_cvt_w_d = 1176502308" "d_mask mips32_cvt_w_d = 4294901823"
  "d_match mips32_di = 1113628672" "d_mask mips32_di = 4292935679"
  "d_match mips32_div = 26" "d_mask mips32_div = 4227923967"
  "d_match mips32_div_s = 1174405123" "d_mask mips32_div_s = 4292870207"
  "d_match mips32_div_d = 1176502275" "d_mask mips32_div_d = 4292870207"
  "d_match mips32_divu = 27" "d_mask mips32_divu = 4227923967"
  "d_match mips32_ei = 1113612320" "d_mask mips32_ei = 4292935679"
  "d_match mips32_eret = 1107296280" "d_mask mips32_eret = 4294967295"
  "d_match mips32_ext = 2080374784" "d_mask mips32_ext = 4227858495"
  "d_match mips32_floor_l_s = 1174405131" "d_mask mips32_floor_l_s = 4294901823"
  "d_match mips32_floor_l_d = 1176502283" "d_mask mips32_floor_l_d = 4294901823"
  "d_match mips32_floor_w_s = 1174405135" "d_mask mips32_floor_w_s = 4294901823"
  "d_match mips32_floor_w_d = 1176502287" "d_mask mips32_floor_w_d = 4294901823"
  "d_match mips32_ins = 2080374788" "d_mask mips32_ins = 4227858495"
  "d_match mips32_j = 134217728" "d_mask mips32_j = 4227858432"
  "d_match mips32_jal = 201326592" "d_mask mips32_jal = 4227858432"
  "d_match mips32_jalr = 9" "d_mask mips32_jalr = 4229892095"
  "d_match mips32_jalr_hb = 1033" "d_mask mips32_jalr_hb = 4229892095"
  "d_match mips32_jalx = 1946157056" "d_mask mips32_jalx = 4227858432"
  "d_match mips32_jr = 8" "d_mask mips32_jr = 4229955583"
  "d_match mips32_jr_hb = 1032" "d_mask mips32_jr_hb = 4229955583"
  "d_match mips32_lb = 2147483648" "d_mask mips32_lb = 4227858432"
  "d_match mips32_lbe = 2080374828" "d_mask mips32_lbe = 4227858559"
  "d_match mips32_lbu = 2415919104" "d_mask mips32_lbu = 4227858432"
  "d_match mips32_lbue = 2080374824" "d_mask mips32_lbue = 4227858559"
  "d_match mips32_ldc1 = 3556769792" "d_mask mips32_ldc1 = 4227858432"
  "d_match mips32_ldc2 = 3623878656" "d_mask mips32_ldc2 = 4227858432"
  "d_match mips32_ldxc1 = 1275068417" "d_mask mips32_ldxc1 = 4227921983"
  "d_match mips32_lh = 2214592512" "d_mask mips32_lh = 4227858432"
  "d_match mips32_lhe = 2080374893" "d_mask mips32_lhe = 4227858559"
  "d_match mips32_lhu = 2483027968" "d_mask mips32_lhu = 4227858432"
  "d_match mips32_lhue = 2080374825" "d_mask mips32_lhue = 4227858559"
  "d_match mips32_ll = 3221225472" "d_mask mips32_ll = 4227858432"
  "d_match mips32_lle = 2080374830" "d_mask mips32_lle = 4227858559"
  "d_match mips32_lui = 1006632960" "d_mask mips32_lui = 4292870144"
  "d_match mips32_luxc1 = 1275068421" "d_mask mips32_luxc1 = 4227921983"
  "d_match mips32_lw = 2348810240" "d_mask mips32_lw = 4227858432"
  "d_match mips32_lwc1 = 3288334336" "d_mask mips32_lwc1 = 4227858432"
  "d_match mips32_lwc2 = 3355443200" "d_mask mips32_lwc2 = 4227858432"
  "d_match mips32_lwe = 2080374831" "d_mask mips32_lwe = 4227858559"
  "d_match mips32_lwl = 2281701376" "d_mask mips32_lwl = 4227858432"
  "d_match mips32_lwle = 2080374809" "d_mask mips32_lwle = 4227858559"
  "d_match mips32_lwr = 2550136832" "d_mask mips32_lwr = 4227858432"
  "d_match mips32_lwre = 2080374810" "d_mask mips32_lwre = 4227858559"
  "d_match mips32_lwu = 2617245696" "d_mask mips32_lwu = 4227858432"
  "d_match mips32_lwxc1 = 1275068416" "d_mask mips32_lwxc1 = 4227921983"
  "d_match mips32_madd = 1879048192" "d_mask mips32_madd = 4227923967"
  "d_match mips32_madd_s = 1275068448" "d_mask mips32_madd_s = 4227858495"
  "d_match mips32_madd_d = 1543503905" "d_mask mips32_madd_d = 4227858495"
  "d_match mips32_madd_ps = 1543503910" "d_mask mips32_madd_ps = 4227858495"
  "d_match mips32_maddu = 1879048193" "d_mask mips32_maddu = 4227923967"
  "d_match mips32_mfc0 = 1073741824" "d_mask mips32_mfc0 = 4292872184"
  "d_match mips32_mfc1 = 1140850688" "d_mask mips32_mfc1 = 4292872191"
  "d_match mips32_mfc2 = 1207959552" "d_mask mips32_mfc2 = 4292870144"
  "d_match mips32_mfhc1 = 1147142144" "d_mask mips32_mfhc1 = 4292872191"
  "d_match mips32_mfhc2 = 1214251008" "d_mask mips32_mfhc2 = 4292870144"
  "d_match mips32_mfhi = 16" "d_mask mips32_mfhi = 4294903807"
  "d_match mips32_mflo = 18" "d_mask mips32_mflo = 4294903807"
  "d_match mips32_mov_s = 1174405126" "d_mask mips32_mov_s = 4294901823"
  "d_match mips32_mov_d = 1176502278" "d_mask mips32_mov_d = 4294901823"
  "d_match mips32_mov_ps = 1186988038" "d_mask mips32_mov_ps = 4294901823"
  "d_match mips32_movf = 1" "d_mask mips32_movf = 4228057087"
  "d_match mips32_movf_s = 1174405137" "d_mask mips32_movf_s = 4293066815"
  "d_match mips32_movf_d = 1176502289" "d_mask mips32_movf_d = 4293066815"
  "d_match mips32_movf_ps = 1186988049" "d_mask mips32_movf_ps = 4293066815"
  "d_match mips32_movn = 11" "d_mask mips32_movn = 4227860479"
  "d_match mips32_movn_s = 1174405139" "d_mask mips32_movn_s = 4292870207"
  "d_match mips32_movn_d = 1176502291" "d_mask mips32_movn_d = 4292870207"
  "d_match mips32_movn_ps = 1186988051" "d_mask mips32_movn_ps = 4292870207"
  "d_match mips32_movt = 65537" "d_mask mips32_movt = 4228057087"
  "d_match mips32_movt_s = 1174470673" "d_mask mips32_movt_s = 4293066815"
  "d_match mips32_movt_d = 1176567825" "d_mask mips32_movt_d = 4293066815"
  "d_match mips32_movt_ps = 1187053585" "d_mask mips32_movt_ps = 4293066815"
  "d_match mips32_movz = 10" "d_mask mips32_movz = 4227860479"
  "d_match mips32_movz_s = 1174405138" "d_mask mips32_movz_s = 4292870207"
  "d_match mips32_movz_d = 1176502290" "d_mask mips32_movz_d = 4292870207"
  "d_match mips32_movz_ps = 1186988050" "d_mask mips32_movz_ps = 4292870207"
  "d_match mips32_msub = 1879048196" "d_mask mips32_msub = 4227923967"
  "d_match mips32_msub_s = 1275068456" "d_mask mips32_msub_s = 4227858495"
  "d_match mips32_msub_d = 1275068457" "d_mask mips32_msub_d = 4227858495"
  "d_match mips32_msub_ps = 1275068462" "d_mask mips32_msub_ps = 4227858495"
  "d_match mips32_msubu = 1879048197" "d_mask mips32_msubu = 4227923967"
  "d_match mips32_mtc0 = 1082130432" "d_mask mips32_mtc0 = 4292872184"
  "d_match mips32_mtc1 = 1149239296" "d_mask mips32_mtc1 = 4292872191"
  "d_match mips32_mtc2 = 1216348160" "d_mask mips32_mtc2 = 4292870144"
  "d_match mips32_mthi = 17" "d_mask mips32_mthi = 4229955583"
  "d_match mips32_mtlo = 19" "d_mask mips32_mtlo = 4229955583"
  "d_match mips32_mul = 1879048194" "d_mask mips32_mul = 4227860479"
  "d_match mips32_mul_s = 1174405122" "d_mask mips32_mul_s = 4292870207"
  "d_match mips32_mul_d = 1176502274" "d_mask mips32_mul_d = 4292870207"
  "d_match mips32_mul_ps = 1186988034" "d_mask mips32_mul_ps = 4292870207"
  "d_match mips32_mult = 24" "d_mask mips32_mult = 4227923967"
  "d_match mips32_multu = 25" "d_mask mips32_multu = 4227923967"
  "d_match mips32_neg_s = 1174405127" "d_mask mips32_neg_s = 4294901823"
  "d_match mips32_neg_d = 1176502279" "d_mask mips32_neg_d = 4294901823"
  "d_match mips32_neg_ps = 1186988039" "d_mask mips32_neg_ps = 4294901823"
  "d_match mips32_nmadd_s = 1275068464" "d_mask mips32_nmadd_s = 4227858495"
  "d_match mips32_nmadd_d = 1275068465" "d_mask mips32_nmadd_d = 4227858495"
  "d_match mips32_nmadd_ps = 1275068470" "d_mask mips32_nmadd_ps = 4227858495"
  "d_match mips32_nmsub_s = 1275068472" "d_mask mips32_nmsub_s = 4227858495"
  "d_match mips32_nmsub_d = 1275068473" "d_mask mips32_nmsub_d = 4227858495"
  "d_match mips32_nmsub_ps = 1275068478" "d_mask mips32_nmsub_ps = 4227858495"
  "d_match mips32_nor = 39" "d_mask mips32_nor = 4227860479"
  "d_match mips32_or = 37" "d_mask mips32_or = 4227860479"
  "d_match mips32_ori = 872415232" "d_mask mips32_ori = 4227858432"
  "d_match mips32_pause = 320" "d_mask mips32_pause = 4294967295"
  "d_match mips32_pll_ps = 1186988076" "d_mask mips32_pll_ps = 4292870207"
  "d_match mips32_plu_ps = 1186988077" "d_mask mips32_plu_ps = 4292870207"
  "d_match mips32_pref = 3422552064" "d_mask mips32_pref = 4227858432"
  "d_match mips32_prefe = 2080374819" "d_mask mips32_prefe = 4227858559"
  "d_match mips32_prefx = 1275068431" "d_mask mips32_prefx = 4227860479"
  "d_match mips32_pul_ps = 1186988078" "d_mask mips32_pul_ps = 4292870207"
  "d_match mips32_puu_ps = 1186988079" "d_mask mips32_puu_ps = 4292870207"
  "d_match mips32_rdhwr = 2080374843" "d_mask mips32_rdhwr = 4292872191"
  "d_match mips32_rdpgpr = 1094713344" "d_mask mips32_rdpgpr = 4292872191"
  "d_match mips32_recip_s = 1174405141" "d_mask mips32_recip_s = 4294901823"
  "d_match mips32_recip_d = 1176502293" "d_mask mips32_recip_d = 4294901823"
  "d_match mips32_rotr = 2097154" "d_mask mips32_rotr = 4292870207"
  "d_match mips32_rotrv = 70" "d_mask mips32_rotrv = 4227860479"
  "d_match mips32_round_l_s = 1174405128" "d_mask mips32_round_l_s = 4294901823"
  "d_match mips32_round_l_d = 1176502280" "d_mask mips32_round_l_d = 4294901823"
  "d_match mips32_round_w_s = 1174405132" "d_mask mips32_round_w_s = 4294901823"
  "d_match mips32_round_w_d = 1176502284" "d_mask mips32_round_w_d = 4294901823"
  "d_match mips32_rsqrt_s = 1174405142" "d_mask mips32_rsqrt_s = 4294901823"
  "d_match mips32_rsqrt_d = 1176502294" "d_mask mips32_rsqrt_d = 4294901823"
  "d_match mips32_sb = 2684354560" "d_mask mips32_sb = 4227858432"
  "d_match mips32_sbe = 2080374812" "d_mask mips32_sbe = 4227858559"
  "d_match mips32_sc = 3758096384" "d_mask mips32_sc = 4227858432"
  "d_match mips32_sce = 2617245726" "d_mask mips32_sce = 4227858559"
  "d_match mips32_sdc1 = 4093640704" "d_mask mips32_sdc1 = 4227858432"
  "d_match mips32_sdc2 = 4160749568" "d_mask mips32_sdc2 = 4227858432"
  "d_match mips32_sdxc1 = 1275068425" "d_mask mips32_sdxc1 = 4227860479"
  "d_match mips32_seb = 2080375840" "d_mask mips32_seb = 4292872191"
  "d_match mips32_seh = 2080376352" "d_mask mips32_seh = 4292872191"
  "d_match mips32_sh = 2751463424" "d_mask mips32_sh = 4227858432"
  "d_match mips32_she = 2080374813" "d_mask mips32_she = 4227858559"
  "d_match mips32_sll = 0" "d_mask mips32_sll = 4292870207"
  "d_match mips32_sllv = 4" "d_mask mips32_sllv = 4227860479"
  "d_match mips32_slt = 42" "d_mask mips32_slt = 4227860479"
  "d_match mips32_slti = 671088640" "d_mask mips32_slti = 4227858432"
  "d_match mips32_sltiu = 738197504" "d_mask mips32_sltiu = 4227858432"
  "d_match mips32_sltu = 43" "d_mask mips32_sltu = 4227860479"
  "d_match mips32_sqrt_s = 1174405124" "d_mask mips32_sqrt_s = 4294901823"
  "d_match mips32_sqrt_d = 1176502276" "d_mask mips32_sqrt_d = 4294901823"
  "d_match mips32_sra = 3" "d_mask mips32_sra = 4292870207"
  "d_match mips32_srav = 7" "d_mask mips32_srav = 4227860479"
  "d_match mips32_srl = 2" "d_mask mips32_srl = 4292870207"
  "d_match mips32_srlv = 6" "d_mask mips32_srlv = 4227860479"
  "d_match mips32_sub = 34" "d_mask mips32_sub = 4227860479"
  "d_match mips32_sub_s = 1174405121" "d_mask mips32_sub_s = 4292870207"
  "d_match mips32_sub_d = 1176502273" "d_mask mips32_sub_d = 4292870207"
  "d_match mips32_sub_ps = 1186988033" "d_mask mips32_sub_ps = 4292870207"
  "d_match mips32_subu = 35" "d_mask mips32_subu = 4227860479"
  "d_match mips32_suxc1 = 1275068429" "d_mask mips32_suxc1 = 4227860479"
  "d_match mips32_sw = 2885681152" "d_mask mips32_sw = 4227858432"
  "d_match mips32_swc1 = 3825205248" "d_mask mips32_swc1 = 4227858432"
  "d_match mips32_swc2 = 3892314112" "d_mask mips32_swc2 = 4227858432"
  "d_match mips32_swe = 2080374815" "d_mask mips32_swe = 4227858559"
  "d_match mips32_swl = 2818572288" "d_mask mips32_swl = 4227858432"
  "d_match mips32_swle = 2080374817" "d_mask mips32_swle = 4227858559"
  "d_match mips32_swr = 3087007744" "d_mask mips32_swr = 4227858432"
  "d_match mips32_swre = 2080374818" "d_mask mips32_swre = 4227858559"
  "d_match mips32_swxc1 = 1275068424" "d_mask mips32_swxc1 = 4227860479"
  "d_match mips32_sync = 15" "d_mask mips32_sync = 4294965311"
  "d_match mips32_synci = 69140480" "d_mask mips32_synci = 4229890048"
  "d_match mips32_syscall = 12" "d_mask mips32_syscall = 4227858495"
  "d_match mips32_teq = 52" "d_mask mips32_teq = 4227858495"
  "d_match mips32_teqi = 67895296" "d_mask mips32_teqi = 4229890048"
  "d_match mips32_tge = 48" "d_mask mips32_tge = 4227858495"
  "d_match mips32_tgei = 67633152" "d_mask mips32_tgei = 4229890048"
  "d_match mips32_tgeiu = 67698688" "d_mask mips32_tgeiu = 4229890048"
  "d_match mips32_tgeu = 49" "d_mask mips32_tgeu = 4227858495"
  "d_match mips32_tlbinv = 1107296259" "d_mask mips32_tlbinv = 4294967295"
  "d_match mips32_tlbinvf = 1107296260" "d_mask mips32_tlbinvf = 4294967295"
  "d_match mips32_tlbp = 1107296264" "d_mask mips32_tlbp = 4294967295"
  "d_match mips32_tlbr = 1107296257" "d_mask mips32_tlbr = 4294967295"
  "d_match mips32_tlbwi = 1107296258" "d_mask mips32_tlbwi = 4294967295"
  "d_match mips32_tlbwr = 1107296262" "d_mask mips32_tlbwr = 4294967295"
  "d_match mips32_tlt = 50" "d_mask mips32_tlt = 4227858495"
  "d_match mips32_tlti = 67764224" "d_mask mips32_tlti = 4229890048"
  "d_match mips32_tltiu = 67829760" "d_mask mips32_tltiu = 4229890048"
  "d_match mips32_tltu = 51" "d_mask mips32_tltu = 4227858495"
  "d_match mips32_tne = 54" "d_mask mips32_tne = 4227858495"
  "d_match mips32_tnei = 68026368" "d_mask mips32_tnei = 4229890048"
  "d_match mips32_trunc_l_s = 1174405129" "d_mask mips32_trunc_l_s = 4294901823"
  "d_match mips32_trunc_l_d = 1176502281" "d_mask mips32_trunc_l_d = 4294901823"
  "d_match mips32_trunc_w_s = 1174405133" "d_mask mips32_trunc_w_s = 4294901823"
  "d_match mips32_trunc_w_d = 1176502285" "d_mask mips32_trunc_w_d = 4294901823"
  "d_match mips32_wait = 1107296288" "d_mask mips32_wait = 4261412927"
  "d_match mips32_wrpgpr = 1103101952" "d_mask mips32_wrpgpr = 4292872191"
  "d_match mips32_wsbh = 2080374944" "d_mask mips32_wsbh = 4292872191"
  "d_match mips32_xor = 38" "d_mask mips32_xor = 4227860479"
  "d_match mips32_xori = 939524096" "d_mask mips32_xori = 4227858432"
  unfolding decoder_defs decoder_sel by (simp_all add: field_masks field_values)

lemma decoders_wf: "d \<in> set decoders \<Longrightarrow> d_mask d \<noteq> 0 \<and> d_match d AND NOT (d_mask d) = 0"
proof -
  have "list_all (\<lambda>d. d_mask d \<noteq> 0 \<and> d_match d AND NOT (d_mask d) = 0) decoders"
    unfolding decoders_def list.pred_inject decoder_bits by simp
  then show "d \<in> set decoders \<Longrightarrow> d_mask d \<noteq> 0 \<and> d_match d AND NOT (d_mask d) = 0" by (simp add: list_all_iff)
qed

section \<open>Groups of decoders\<close>

text \<open>The bits that every decoder of a group has in its mask.\<close>

definition group_mask :: "int \<Rightarrow> int" where
  "group_mask bits = (let op = bits AND 0xfc000000 in
     if op = 0x44000000 then 0xffe00000
     else if op = 0 then 0xfc00003f
     else if op = 0x70000000 then 0xfc00003f
     else if op = 0x7c000000 then 0xfc00003f
     else if op = 0x04000000 then 0xfc1f0000
     else 0xfc000000)"

definition group_key :: "int \<Rightarrow> int" where
  "group_key bits = bits AND group_mask bits"

definition dm :: "decoder \<Rightarrow> int" where "dm d = uint (d_match d)"

definition dk :: "decoder \<Rightarrow> int" where "dk d = uint (d_mask d)"

definition dkey :: "decoder \<Rightarrow> int" where "dkey d = group_key (dm d)"

lemma decoder_numbers:
  "dm mips32_abs_s = 1174405125" "dk mips32_abs_s = 4294901823"
  "dm mips32_abs_d = 1176502277" "dk mips32_abs_d = 4294901823"
  "dm mips32_abs_ps = 1186988037" "dk mips32_abs_ps = 4294901823"
  "dm mips32_add = 32" "dk mips32_add = 4227860479"
  "dm mips32_add_s = 1174405120" "dk mips32_add_s = 4292870207"
  "dm mips32_add_d = 1176502272" "dk mips32_add_d = 4292870207"
  "dm mips32_add_ps = 1186988032" "dk mips32_add_ps = 4292870207"
  "dm mips32_addi = 536870912" "dk mips32_addi = 4227858432"
  "dm mips32_addiu = 603979776" "dk mips32_addiu = 4227858432"
  "dm mips32_addu = 33" "dk mips32_addu = 4227860479"
  "dm mips32_alnv_ps = 1275068446" "dk mips32_alnv_ps = 4227858495"
  "dm mips32_and = 36" "dk mips32_and = 4227860479"
  "dm mips32_andi = 805306368" "dk mips32_andi = 4227858432"
  "dm mips32_bc1f = 1157627904" "dk mips32_bc1f = 4293066752"
  "dm mips32_bc1fl = 1157758976" "dk mips32_bc1fl = 4293066752"
  "dm mips32_bc1t = 1157693440" "dk mips32_bc1t = 4293066752"
  "dm mips32_bc1tl = 1426259968" "dk mips32_bc1tl = 4293066752"
  "dm mips32_bc2f = 1224736768" "dk mips32_bc2f = 4293066752"
  "dm mips32_bc2fl = 1224867840" "dk mips32_bc2fl = 4293066752"
  "dm mips32_bc2t = 1224802304" "dk mips32_bc2t = 4293066752"
  "dm mips32_bc2tl = 1224933376" "dk mips32_bc2tl = 4293066752"
  "dm mips32_beq = 268435456" "dk mips32_beq = 4227858432"
  "dm mips32_beql = 1342177280" "dk mips32_beql = 4227858432"
  "dm mips32_bgez = 67174400" "dk mips32_bgez = 4229890048"
  "dm mips32_bgezal = 68222976" "dk mips32_bgezal = 4229890048"
  "dm mips32_bgezall = 68354048" "dk mips32_bgezall = 4229890048"
  "dm mips32_bgezl = 67305472" "dk mips32_bgezl = 4229890048"
  "dm mips32_bgtz = 469762048" "dk mips32_bgtz = 4229890048"
  "dm mips32_bgtzl = 1275068416" "dk mips32_bgtzl = 4229890048"
  "dm mips32_blez = 402653184" "dk mips32_blez = 4229890048"
  "dm mips32_blezl = 1476395008" "dk mips32_blezl = 4229890048"
  "dm mips32_bltz = 67108864" "dk mips32_bltz = 4229890048"
  "dm mips32_bltzal = 68157440" "dk mips32_bltzal = 4229890048"
  "dm mips32_bltzall = 68288512" "dk mips32_bltzall = 4229890048"
  "dm mips32_bltzl = 67239936" "dk mips32_bltzl = 4229890048"
  "dm mips32_bne = 335544320" "dk mips32_bne = 4227858432"
  "dm mips32_bnel = 1409286144" "dk mips32_bnel = 4227858432"
  "dm mips32_c_cond_s = 1174405168" "dk mips32_c_cond_s = 4292870384"
  "dm mips32_c_cond_d = 1176502320" "dk mips32_c_cond_d = 4292870384"
  "dm mips32_c_cond_ps = 1186988080" "dk mips32_c_cond_ps = 4292870384"
  "dm mips32_cache = 3154116608" "dk mips32_cache = 4227858432"
  "dm mips32_cachee = 2080374811" "dk mips32_cachee = 4227858559"
  "dm mips32_ceil_l_s = 1" "dk mips32_ceil_l_s = 4294901823"
  "dm mips32_ceil_l_d = 1176502282" "dk mips32_ceil_l_d = 4294901823"
  "dm mips32_ceil_w_s = 1174405134" "dk mips32_ceil_w_s = 4294901823"
  "dm mips32_ceil_w_d = 1176502286" "dk mips32_ceil_w_d = 4294901823"
  "dm mips32_cfc1 = 1145044992" "dk mips32_cfc1 = 4292872191"
  "dm mips32_cfc2 = 1212153856" "dk mips32_cfc2 = 4292870144"
  "dm mips32_clo = 1879048225" "dk mips32_clo = 4227860479"
  "dm mips32_clz = 1879048224" "dk mips32_clz = 4227860479"
  "dm mips32_cop2 = 1241513984" "dk mips32_cop2 = 4261412864"
  "dm mips32_ctc1 = 1153433600" "dk mips32_ctc1 = 4292872191"
  "dm mips32_ctc2 = 1220542464" "dk mips32_ctc2 = 4292870144"
  "dm mips32_cvt_d_s = 1174405153" "dk mips32_cvt_d_s = 4294901823"
  "dm mips32_cvt_d_w = 1182793761" "dk mips32_cvt_d_w = 4294901823"
  "dm mips32_cvt_d_l = 1184890913" "dk mips32_cvt_d_l = 4294901823"
  "dm mips32_cvt_l_s = 1174405157" "dk mips32_cvt_l_s = 4294901823"
  "dm mips32_cvt_l_d = 1444937765" "dk mips32_cvt_l_d = 4294901823"
  "dm mips32_cvt_ps_s = 1174405158" "dk mips32_cvt_ps_s = 4292870207"
  "dm mips32_cvt_s_w = 1182793760" "dk mips32_cvt_s_w = 4294901823"
  "dm mips32_cvt_s_l = 1184890912" "dk mips32_cvt_s_l = 4294901823"
  "dm mips32_cvt_s_pl = 1186988072" "dk mips32_cvt_s_pl = 4294901823"
  "dm mips32_cvt_s_pu = 1186988064" "dk mips32_cvt_s_pu = 4294901823"
  "dm mips32_cvt_w_s = 1174405156" "dk mips32_cvt_w_s = 4294901823"
  "dm mips32_cvt_w_d = 1176502308" "dk mips32_cvt_w_d = 4294901823"
  "dm mips32_di = 1113628672" "dk mips32_di = 4292935679"
  "dm mips32_div = 26" "dk mips32_div = 4227923967"
  "dm mips32_div_s = 1174405123" "dk mips32_div_s = 4292870207"
  "dm mips32_div_d = 1176502275" "dk mips32_div_d = 4292870207"
  "dm mips32_divu = 27" "dk mips32_divu = 4227923967"
  "dm mips32_ei = 1113612320" "dk mips32_ei = 4292935679"
  "dm mips32_eret = 1107296280" "dk mips32_eret = 4294967295"
  "dm mips32_ext = 2080374784" "dk mips32_ext = 4227858495"
  "dm mips32_floor_l_s = 1174405131" "dk mips32_floor_l_s = 4294901823"
  "dm mips32_floor_l_d = 1176502283" "dk mips32_floor_l_d = 4294901823"
  "dm mips32_floor_w_s = 1174405135" "dk mips32_floor_w_s = 4294901823"
  "dm mips32_floor_w_d = 1176502287" "dk mips32_floor_w_d = 4294901823"
  "dm mips32_ins = 2080374788" "dk mips32_ins = 4227858495"
  "dm mips32_j = 134217728" "dk mips32_j = 4227858432"
  "dm mips32_jal = 201326592" "dk mips32_jal = 4227858432"
  "dm mips32_jalr = 9" "dk mips32_jalr = 4229892095"
  "dm mips32_jalr_hb = 1033" "dk mips32_jalr_hb = 4229892095"
  "dm mips32_jalx = 1946157056" "dk mips32_jalx = 4227858432"
  "dm mips32_jr = 8" "dk mips32_jr = 4229955583"
  "dm mips32_jr_hb = 1032" "dk mips32_jr_hb = 4229955583"
  "dm mips32_lb = 2147483648" "dk mips32_lb = 4227858432"
  "dm mips32_lbe = 2080374828" "dk mips32_lbe = 4227858559"
  "dm mips32_lbu = 2415919104" "dk mips32_lbu = 4227858432"
  "dm mips32_lbue = 2080374824" "dk mips32_lbue = 4227858559"
  "dm mips32_ldc1 = 3556769792" "dk mips32_ldc1 = 4227858432"
  "dm mips32_ldc2 = 3623878656" "dk mips32_ldc2 = 4227858432"
  "dm mips32_ldxc1 = 1275068417" "dk mips32_ldxc1 = 4227921983"
  "dm mips32_lh = 2214592512" "dk mips32_lh = 4227858432"
  "dm mips32_lhe = 2080374893" "dk mips32_lhe = 4227858559"
  "dm mips32_lhu = 2483027968" "dk mips32_lhu = 4227858432"
  "dm mips32_lhue = 2080374825" "dk mips32_lhue = 4227858559"
  "dm mips32_ll = 3221225472" "dk mips32_ll = 4227858432"
  "dm mips32_lle = 2080374830" "dk mips32_lle = 4227858559"
  "dm mips32_lui = 1006632960" "dk mips32_lui = 4292870144"
  "dm mips32_luxc1 = 1275068421" "dk mips32_luxc1 = 4227921983"
  "dm mips32_lw = 2348810240" "dk mips32_lw = 4227858432"
  "dm mips32_lwc1 = 3288334336" "dk mips32_lwc1 = 4227858432"
  "dm mips32_lwc2 = 3355443200" "dk mips32_lwc2 = 4227858432"
  "dm mips32_lwe = 2080374831" "dk mips32_lwe = 4227858559"
  "dm mips32_lwl = 2281701376" "dk mips32_lwl = 4227858432"
  "dm mips32_lwle = 2080374809" "dk mips32_lwle = 4227858559"
  "dm mips32_lwr = 2550136832" "dk mips32_lwr = 4227858432"
  "dm mips32_lwre = 2080374810" "dk mips32_lwre = 4227858559"
  "dm mips32_lwu = 2617245696" "dk mips32_lwu = 4227858432"
  "dm mips32_lwxc1 = 1275068416" "dk mips32_lwxc1 = 4227921983"
  "dm mips32_madd = 1879048192" "dk mips32_madd = 4227923967"
  "dm mips32_madd_s = 1275068448" "dk mips32_madd_s = 4227858495"
  "dm mips32_madd_d = 1543503905" "dk mips32_madd_d = 4227858495"
  "dm mips32_madd_ps = 1543503910" "dk mips32_madd_ps = 4227858495"
  "dm mips32_maddu = 1879048193" "dk mips32_maddu = 4227923967"
  "dm mips32_mfc0 = 1073741824" "dk mips32_mfc0 = 4292872184"
  "dm mips32_mfc1 = 1140850688" "dk mips32_mfc1 = 4292872191"
  "dm mips32_mfc2 = 1207959552" "dk mips32_mfc2 = 4292870144"
  "dm mips32_mfhc1 = 1147142144" "dk mips32_mfhc1 = 4292872191"
  "dm mips32_mfhc2 = 1214251008" "dk mips32_mfhc2 = 4292870144"
  "dm mips32_mfhi = 16" "dk mips32_mfhi = 4294903807"
  "dm mips32_mflo = 18" "dk mips32_mflo = 4294903807"
  "dm mips32_mov_s = 1174405126" "dk mips32_mov_s = 4294901823"
  "dm mips32_mov_d = 1176502278" "dk mips32_mov_d = 4294901823"
  "dm mips32_mov_ps = 1186988038" "dk mips32_mov_ps = 4294901823"
  "dm mips32_movf = 1" "dk mips32_movf = 4228057087"
  "dm mips32_movf_s = 1174405137" "dk mips32_movf_s = 4293066815"
  "dm mips32_movf_d = 1176502289" "dk mips32_movf_d = 4293066815"
  "dm mips32_movf_ps = 1186988049" "dk mips32_movf_ps = 4293066815"
  "dm mips32_movn = 11" "dk mips32_movn = 4227860479"
  "dm mips32_movn_s = 1174405139" "dk mips32_movn_s = 4292870207"
  "dm mips32_movn_d = 1176502291" "dk mips32_movn_d = 4292870207"
  "dm mips32_movn_ps = 1186988051" "dk mips32_movn_ps = 4292870207"
  "dm mips32_movt = 65537" "dk mips32_movt = 4228057087"
  "dm mips32_movt_s = 1174470673" "dk mips32_movt_s = 4293066815"
  "dm mips32_movt_d = 1176567825" "dk mips32_movt_d = 4293066815"
  "dm mips32_movt_ps = 1187053585" "dk mips32_movt_ps = 4293066815"
  "dm mips32_movz = 10" "dk mips32_movz = 4227860479"
  "dm mips32_movz_s = 1174405138" "dk mips32_movz_s = 4292870207"
  "dm mips32_movz_d = 1176502290" "dk mips32_movz_d = 4292870207"
  "dm mips32_movz_ps = 1186988050" "dk mips32_movz_ps = 4292870207"
  "dm mips32_msub = 1879048196" "dk mips32_msub = 4227923967"
  "dm mips32_msub_s = 1275068456" "dk mips32_msub_s = 4227858495"
  "dm mips32_msub_d = 1275068457" "dk mips32_msub_d = 4227858495"
  "dm mips32_msub_ps = 1275068462" "dk mips32_msub_ps = 4227858495"
  "dm mips32_msubu = 1879048197" "dk mips32_msubu = 4227923967"
  "dm mips32_mtc0 = 1082130432" "dk mips32_mtc0 = 4292872184"
  "dm mips32_mtc1 = 1149239296" "dk mips32_mtc1 = 4292872191"
  "dm mips32_mtc2 = 1216348160" "dk mips32_mtc2 = 4292870144"
  "dm mips32_mthi = 17" "dk mips32_mthi = 4229955583"
  "dm mips32_mtlo = 19" "dk mips32_mtlo = 4229955583"
  "dm mips32_mul = 1879048194" "dk mips32_mul = 4227860479"
  "dm mips32_mul_s = 1174405122" "dk mips32_mul_s = 4292870207"
  "dm mips32_mul_d = 1176502274" "dk mips32_mul_d = 4292870207"
  "dm mips32_mul_ps = 1186988034" "dk mips32_mul_ps = 4292870207"
  "dm mips32_mult = 24" "dk mips32_mult = 4227923967"
  "dm mips32_multu = 25" "dk mips32_multu = 4227923967"
  "dm mips32_neg_s = 1174405127" "dk mips32_neg_s = 4294901823"
  "dm mips32_neg_d = 1176502279" "dk mips32_neg_d = 4294901823"
  "dm mips32_neg_ps = 1186988039" "dk mips32_neg_ps = 4294901823"
  "dm mips32_nmadd_s = 1275068464" "dk mips32_nmadd_s = 4227858495"
  "dm mips32_nmadd_d = 1275068465" "dk mips32_nmadd_d = 4227858495"
  "dm mips32_nmadd_ps = 1275068470" "dk mips32_nmadd_ps = 4227858495"
  "dm mips32_nmsub_s = 1275068472" "dk mips32_nmsub_s = 4227858495"
  "dm mips32_nmsub_d = 1275068473" "dk mips32_nmsub_d = 4227858495"
  "dm mips32_nmsub_ps = 1275068478" "dk mips32_nmsub_ps = 4227858495"
  "dm mips32_nor = 39" "dk mips32_nor = 4227860479"
  "dm mips32_or = 37" "dk mips32_or = 4227860479"
  "dm mips32_ori = 872415232" "dk mips32_ori = 4227858432"
  "dm mips32_pause = 320" "dk mips32_pause = 4294967295"
  "dm mips32_pll_ps = 1186988076" "dk mips32_pll_ps = 4292870207"
  "dm mips32_plu_ps = 1186988077" "dk mips32_plu_ps = 4292870207"
  "dm mips32_pref = 3422552064" "dk mips32_pref = 4227858432"
  "dm mips32_prefe = 2080374819" "dk mips32_prefe = 4227858559"
  "dm mips32_prefx = 1275068431" "dk mips32_prefx = 4227860479"
  "dm mips32_pul_ps = 1186988078" "dk mips32_pul_ps = 4292870207"
  "dm mips32_puu_ps = 1186988079" "dk mips32_puu_ps = 4292870207"
  "dm mips32_rdhwr = 2080374843" "dk mips32_rdhwr = 4292872191"
  "dm mips32_rdpgpr = 1094713344" "dk mips32_rdpgpr = 4292872191"
  "dm mips32_recip_s = 1174405141" "dk mips32_recip_s = 4294901823"
  "dm mips32_recip_d = 1176502293" "dk mips32_recip_d = 4294901823"
  "dm mips32_rotr = 2097154" "dk mips32_rotr = 4292870207"
  "dm mips32_rotrv = 70" "dk mips32_rotrv = 4227860479"
  "dm mips32_round_l_s = 1174405128" "dk mips32_round_l_s = 4294901823"
  "dm mips32_round_l_d = 1176502280" "dk mips32_round_l_d = 4294901823"
  "dm mips32_round_w_s = 1174405132" "dk mips32_round_w_s = 4294901823"
  "dm mips32_round_w_d = 1176502284" "dk mips32_round_w_d = 4294901823"
  "dm mips32_rsqrt_s = 1174405142" "dk mips32_rsqrt_s = 4294901823"
  "dm mips32_rsqrt_d = 1176502294" "dk mips32_rsqrt_d = 4294901823"
  "dm mips32_sb = 2684354560" "dk mips32_sb = 4227858432"
  "dm mips32_sbe = 2080374812" "dk mips32_sbe = 4227858559"
  "dm mips32_sc = 3758096384" "dk mips32_sc = 4227858432"
  "dm mips32_sce = 2617245726" "dk mips32_sce = 4227858559"
  "dm mips32_sdc1 = 4093640704" "dk mips32_sdc1 = 4227858432"
  "dm mips32_sdc2 = 4160749568" "dk mips32_sdc2 = 4227858432"
  "dm mips32_sdxc1 = 1275068425" "dk mips32_sdxc1 = 4227860479"
  "dm mips32_seb = 2080375840" "dk mips32_seb = 4292872191"
  "dm mips32_seh = 2080376352" "dk mips32_seh = 4292872191"
  "dm mips32_sh = 2751463424" "dk mips32_sh = 4227858432"
  "dm mips32_she = 2080374813" "dk mips32_she = 4227858559"
  "dm mips32_sll = 0" "dk mips32_sll = 4292870207"
  "dm mips32_sllv = 4" "dk mips32_sllv = 4227860479"
  "dm mips32_slt = 42" "dk mips32_slt = 4227860479"
  "dm mips32_slti = 671088640" "dk mips32_slti = 4227858432"
  "dm mips32_sltiu = 738197504" "dk mips32_sltiu = 4227858432"
  "dm mips32_sltu = 43" "dk mips32_sltu = 4227860479"
  "dm mips32_sqrt_s = 1174405124" "dk mips32_sqrt_s = 4294901823"
  "dm mips32_sqrt_d = 1176502276" "dk mips32_sqrt_d = 4294901823"
  "dm mips32_sra = 3" "dk mips32_sra = 4292870207"
  "dm mips32_srav = 7" "dk mips32_srav = 4227860479"
  "dm mips32_srl = 2" "dk mips32_srl = 4292870207"
  "dm mips32_srlv = 6" "dk mips32_srlv = 4227860479"
  "dm mips32_sub = 34" "dk mips32_sub = 4227860479"
  "dm mips32_sub_s = 1174405121" "dk mips32_sub_s = 4292870207"
  "dm mips32_sub_d = 1176502273" "dk mips32_sub_d = 4292870207"
  "dm mips32_sub_ps = 1186988033" "dk mips32_sub_ps = 4292870207"
  "dm mips32_subu = 35" "dk mips32_subu = 4227860479"
  "dm mips32_suxc1 = 1275068429" "dk mips32_suxc1 = 4227860479"
  "dm mips32_sw = 2885681152" "dk mips32_sw = 4227858432"
  "dm mips32_swc1 = 3825205248" "dk mips32_swc1 = 4227858432"
  "dm mips32_swc2 = 3892314112" "dk mips32_swc2 = 4227858432"
  "dm mips32_swe = 2080374815" "dk mips32_swe = 4227858559"
  "dm mips32_swl = 2818572288" "dk mips32_swl = 4227858432"
  "dm mips32_swle = 2080374817" "dk mips32_swle = 4227858559"
  "dm mips32_swr = 3087007744" "dk mips32_swr = 4227858432"
  "dm mips32_swre = 2080374818" "dk mips32_swre = 4227858559"
  "dm mips32_swxc1 = 1275068424" "dk mips32_swxc1 = 4227860479"
  "dm mips32_sync = 15" "dk mips32_sync = 4294965311"
  "dm mips32_synci = 69140480" "dk mips32_synci = 4229890048"
  "dm mips32_syscall = 12" "dk mips32_syscall = 4227858495"
  "dm mips32_teq = 52" "dk mips32_teq = 4227858495"
  "dm mips32_teqi = 67895296" "dk mips32_teqi = 4229890048"
  "dm mips32_tge = 48" "dk mips32_tge = 4227858495"
  "dm mips32_tgei = 67633152" "dk mips32_tgei = 4229890048"
  "dm mips32_tgeiu = 67698688" "dk mips32_tgeiu = 4229890048"
  "dm mips32_tgeu = 49" "dk mips32_tgeu = 4227858495"
  "dm mips32_tlbinv = 1107296259" "dk mips32_tlbinv = 4294967295"
  "dm mips32_tlbinvf = 1107296260" "dk mips32_tlbinvf = 4294967295"
  "dm mips32_tlbp = 1107296264" "dk mips32_tlbp = 4294967295"
  "dm mips32_tlbr = 1107296257" "dk mips32_tlbr = 4294967295"
  "dm mips32_tlbwi = 1107296258" "dk mips32_tlbwi = 4294967295"
  "dm mips32_tlbwr = 1107296262" "dk mips32_tlbwr = 4294967295"
  "dm mips32_tlt = 50" "dk mips32_tlt = 4227858495"
  "dm mips32_tlti = 67764224" "dk mips32_tlti = 4229890048"
  "dm mips32_tltiu = 67829760" "dk mips32_tltiu = 4229890048"
  "dm mips32_tltu = 51" "dk mips32_tltu = 4227858495"
  "dm mips32_tne = 54" "dk mips32_tne = 4227858495"
  "dm mips32_tnei = 68026368" "dk mips32_tnei = 4229890048"
  "dm mips32_trunc_l_s = 1174405129" "dk mips32_trunc_l_s = 4294901823"
  "dm mips32_trunc_l_d = 1176502281" "dk mips32_trunc_l_d = 4294901823"
  "dm mips32_trunc_w_s = 1174405133" "dk mips32_trunc_w_s = 4294901823"
  "dm mips32_trunc_w_d = 1176502285" "dk mips32_trunc_w_d = 4294901823"
  "dm mips32_wait = 1107296288" "dk mips32_wait = 4261412927"
  "dm mips32_wrpgpr = 1103101952" "dk mips32_wrpgpr = 4292872191"
  "dm mips32_wsbh = 2080374944" "dk mips32_wsbh = 4292872191"
  "dm mips32_xor = 38" "dk mips32_xor = 4227860479"
  "dm mips32_xori = 939524096" "dk mips32_xori = 4227858432"
  unfolding dm_def dk_def decoder_bits by simp_all

lemma decoder_group: "d \<in> set decoders \<Longrightarrow> group_mask (dm d) AND dk d = group_mask (dm d)"
proof -
  have "list_all (\<lambda>d. group_mask (dm d) AND dk d = group_mask (dm d)) decoders"
    unfolding decoders_def list.pred_inject decoder_numbers by (simp add: group_mask_def Let_def)
  then show "d \<in> set decoders \<Longrightarrow> group_mask (dm d) AND dk d = group_mask (dm d)"
    by (simp add: list_all_iff)
qed

lemma decoder_keys:
  "dkey mips32_abs_s = 1174405120" "dkey mips32_abs_d = 1176502272" "dkey mips32_abs_ps = 1186988032" "dkey mips32_add = 32"
  "dkey mips32_add_s = 1174405120" "dkey mips32_add_d = 1176502272" "dkey mips32_add_ps = 1186988032" "dkey mips32_addi = 536870912"
  "dkey mips32_addiu = 603979776" "dkey mips32_addu = 33" "dkey mips32_alnv_ps = 1275068416" "dkey mips32_and = 36"
  "dkey mips32_andi = 805306368" "dkey mips32_bc1f = 1157627904" "dkey mips32_bc1fl = 1157627904" "dkey mips32_bc1t = 1157627904"
  "dkey mips32_bc1tl = 1409286144" "dkey mips32_bc2f = 1207959552" "dkey mips32_bc2fl = 1207959552" "dkey mips32_bc2t = 1207959552"
  "dkey mips32_bc2tl = 1207959552" "dkey mips32_beq = 268435456" "dkey mips32_beql = 1342177280" "dkey mips32_bgez = 67174400"
  "dkey mips32_bgezal = 68222976" "dkey mips32_bgezall = 68354048" "dkey mips32_bgezl = 67305472" "dkey mips32_bgtz = 469762048"
  "dkey mips32_bgtzl = 1275068416" "dkey mips32_blez = 402653184" "dkey mips32_blezl = 1476395008" "dkey mips32_bltz = 67108864"
  "dkey mips32_bltzal = 68157440" "dkey mips32_bltzall = 68288512" "dkey mips32_bltzl = 67239936" "dkey mips32_bne = 335544320"
  "dkey mips32_bnel = 1409286144" "dkey mips32_c_cond_s = 1174405120" "dkey mips32_c_cond_d = 1176502272" "dkey mips32_c_cond_ps = 1186988032"
  "dkey mips32_cache = 3154116608" "dkey mips32_cachee = 2080374811" "dkey mips32_ceil_l_s = 1" "dkey mips32_ceil_l_d = 1176502272"
  "dkey mips32_ceil_w_s = 1174405120" "dkey mips32_ceil_w_d = 1176502272" "dkey mips32_cfc1 = 1145044992" "dkey mips32_cfc2 = 1207959552"
  "dkey mips32_clo = 1879048225" "dkey mips32_clz = 1879048224" "dkey mips32_cop2 = 1207959552" "dkey mips32_ctc1 = 1153433600"
  "dkey mips32_ctc2 = 1207959552" "dkey mips32_cvt_d_s = 1174405120" "dkey mips32_cvt_d_w = 1182793728" "dkey mips32_cvt_d_l = 1184890880"
  "dkey mips32_cvt_l_s = 1174405120" "dkey mips32_cvt_l_d = 1409286144" "dkey mips32_cvt_ps_s = 1174405120" "dkey mips32_cvt_s_w = 1182793728"
  "dkey mips32_cvt_s_l = 1184890880" "dkey mips32_cvt_s_pl = 1186988032" "dkey mips32_cvt_s_pu = 1186988032" "dkey mips32_cvt_w_s = 1174405120"
  "dkey mips32_cvt_w_d = 1176502272" "dkey mips32_di = 1073741824" "dkey mips32_div = 26" "dkey mips32_div_s = 1174405120"
  "dkey mips32_div_d = 1176502272" "dkey mips32_divu = 27" "dkey mips32_ei = 1073741824" "dkey mips32_eret = 1073741824"
  "dkey mips32_ext = 2080374784" "dkey mips32_floor_l_s = 1174405120" "dkey mips32_floor_l_d = 1176502272" "dkey mips32_floor_w_s = 1174405120"
  "dkey mips32_floor_w_d = 1176502272" "dkey mips32_ins = 2080374788" "dkey mips32_j = 134217728" "dkey mips32_jal = 201326592"
  "dkey mips32_jalr = 9" "dkey mips32_jalr_hb = 9" "dkey mips32_jalx = 1946157056" "dkey mips32_jr = 8"
  "dkey mips32_jr_hb = 8" "dkey mips32_lb = 2147483648" "dkey mips32_lbe = 2080374828" "dkey mips32_lbu = 2415919104"
  "dkey mips32_lbue = 2080374824" "dkey mips32_ldc1 = 3556769792" "dkey mips32_ldc2 = 3623878656" "dkey mips32_ldxc1 = 1275068416"
  "dkey mips32_lh = 2214592512" "dkey mips32_lhe = 2080374829" "dkey mips32_lhu = 2483027968" "dkey mips32_lhue = 2080374825"
  "dkey mips32_ll = 3221225472" "dkey mips32_lle = 2080374830" "dkey mips32_lui = 1006632960" "dkey mips32_luxc1 = 1275068416"
  "dkey mips32_lw = 2348810240" "dkey mips32_lwc1 = 3288334336" "dkey mips32_lwc2 = 3355443200" "dkey mips32_lwe = 2080374831"
  "dkey mips32_lwl = 2281701376" "dkey mips32_lwle = 2080374809" "dkey mips32_lwr = 2550136832" "dkey mips32_lwre = 2080374810"
  "dkey mips32_lwu = 2617245696" "dkey mips32_lwxc1 = 1275068416" "dkey mips32_madd = 1879048192" "dkey mips32_madd_s = 1275068416"
  "dkey mips32_madd_d = 1543503872" "dkey mips32_madd_ps = 1543503872" "dkey mips32_maddu = 1879048193" "dkey mips32_mfc0 = 1073741824"
  "dkey mips32_mfc1 = 1140850688" "dkey mips32_mfc2 = 1207959552" "dkey mips32_mfhc1 = 1147142144" "dkey mips32_mfhc2 = 1207959552"
  "dkey mips32_mfhi = 16" "dkey mips32_mflo = 18" "dkey mips32_mov_s = 1174405120" "dkey mips32_mov_d = 1176502272"
  "dkey mips32_mov_ps = 1186988032" "dkey mips32_movf = 1" "dkey mips32_movf_s = 1174405120" "dkey mips32_movf_d = 1176502272"
  "dkey mips32_movf_ps = 1186988032" "dkey mips32_movn = 11" "dkey mips32_movn_s = 1174405120" "dkey mips32_movn_d = 1176502272"
  "dkey mips32_movn_ps = 1186988032" "dkey mips32_movt = 1" "dkey mips32_movt_s = 1174405120" "dkey mips32_movt_d = 1176502272"
  "dkey mips32_movt_ps = 1186988032" "dkey mips32_movz = 10" "dkey mips32_movz_s = 1174405120" "dkey mips32_movz_d = 1176502272"
  "dkey mips32_movz_ps = 1186988032" "dkey mips32_msub = 1879048196" "dkey mips32_msub_s = 1275068416" "dkey mips32_msub_d = 1275068416"
  "dkey mips32_msub_ps = 1275068416" "dkey mips32_msubu = 1879048197" "dkey mips32_mtc0 = 1073741824" "dkey mips32_mtc1 = 1149239296"
  "dkey mips32_mtc2 = 1207959552" "dkey mips32_mthi = 17" "dkey mips32_mtlo = 19" "dkey mips32_mul = 1879048194"
  "dkey mips32_mul_s = 1174405120" "dkey mips32_mul_d = 1176502272" "dkey mips32_mul_ps = 1186988032" "dkey mips32_mult = 24"
  "dkey mips32_multu = 25" "dkey mips32_neg_s = 1174405120" "dkey mips32_neg_d = 1176502272" "dkey mips32_neg_ps = 1186988032"
  "dkey mips32_nmadd_s = 1275068416" "dkey mips32_nmadd_d = 1275068416" "dkey mips32_nmadd_ps = 1275068416" "dkey mips32_nmsub_s = 1275068416"
  "dkey mips32_nmsub_d = 1275068416" "dkey mips32_nmsub_ps = 1275068416" "dkey mips32_nor = 39" "dkey mips32_or = 37"
  "dkey mips32_ori = 872415232" "dkey mips32_pause = 0" "dkey mips32_pll_ps = 1186988032" "dkey mips32_plu_ps = 1186988032"
  "dkey mips32_pref = 3422552064" "dkey mips32_prefe = 2080374819" "dkey mips32_prefx = 1275068416" "dkey mips32_pul_ps = 1186988032"
  "dkey mips32_puu_ps = 1186988032" "dkey mips32_rdhwr = 2080374843" "dkey mips32_rdpgpr = 1073741824" "dkey mips32_recip_s = 1174405120"
  "dkey mips32_recip_d = 1176502272" "dkey mips32_rotr = 2" "dkey mips32_rotrv = 6" "dkey mips32_round_l_s = 1174405120"
  "dkey mips32_round_l_d = 1176502272" "dkey mips32_round_w_s = 1174405120" "dkey mips32_round_w_d = 1176502272" "dkey mips32_rsqrt_s = 1174405120"
  "dkey mips32_rsqrt_d = 1176502272" "dkey mips32_sb = 2684354560" "dkey mips32_sbe = 2080374812" "dkey mips32_sc = 3758096384"
  "dkey mips32_sce = 2617245696" "dkey mips32_sdc1 = 4093640704" "dkey mips32_sdc2 = 4160749568" "dkey mips32_sdxc1 = 1275068416"
  "dkey mips32_seb = 2080374816" "dkey mips32_seh = 2080374816" "dkey mips32_sh = 2751463424" "dkey mips32_she = 2080374813"
  "dkey mips32_sll = 0" "dkey mips32_sllv = 4" "dkey mips32_slt = 42" "dkey mips32_slti = 671088640"
  "dkey mips32_sltiu = 738197504" "dkey mips32_sltu = 43" "dkey mips32_sqrt_s = 1174405120" "dkey mips32_sqrt_d = 1176502272"
  "dkey mips32_sra = 3" "dkey mips32_srav = 7" "dkey mips32_srl = 2" "dkey mips32_srlv = 6"
  "dkey mips32_sub = 34" "dkey mips32_sub_s = 1174405120" "dkey mips32_sub_d = 1176502272" "dkey mips32_sub_ps = 1186988032"
  "dkey mips32_subu = 35" "dkey mips32_suxc1 = 1275068416" "dkey mips32_sw = 2885681152" "dkey mips32_swc1 = 3825205248"
  "dkey mips32_swc2 = 3892314112" "dkey mips32_swe = 2080374815" "dkey mips32_swl = 2818572288" "dkey mips32_swle = 2080374817"
  "dkey mips32_swr = 3087007744" "dkey mips32_swre = 2080374818" "dkey mips32_swxc1 = 1275068416" "dkey mips32_sync = 15"
  "dkey mips32_synci = 69140480" "dkey mips32_syscall = 12" "dkey mips32_teq = 52" "dkey mips32_teqi = 67895296"
  "dkey mips32_tge = 48" "dkey mips32_tgei = 67633152" "dkey mips32_tgeiu = 67698688" "dkey mips32_tgeu = 49"
  "dkey mips32_tlbinv = 1073741824" "dkey mips32_tlbinvf = 1073741824" "dkey mips32_tlbp = 1073741824" "dkey mips32_tlbr = 1073741824"
  "dkey mips32_tlbwi = 1073741824" "dkey mips32_tlbwr = 1073741824" "dkey mips32_tlt = 50" "dkey mips32_tlti = 67764224"
  "dkey mips32_tltiu = 67829760" "dkey mips32_tltu = 51" "dkey mips32_tne = 54" "dkey mips32_tnei = 68026368"
  "dkey mips32_trunc_l_s = 1174405120" "dkey mips32_trunc_l_d = 1176502272" "dkey mips32_trunc_w_s = 1174405120" "dkey mips32_trunc_w_d = 1176502272"
  "dkey mips32_wait = 1073741824" "dkey mips32_wrpgpr = 1073741824" "dkey mips32_wsbh = 2080374816" "dkey mips32_xor = 38"
  "dkey mips32_xori = 939524096"
  unfolding dkey_def decoder_numbers by (simp_all add: group_key_def group_mask_def Let_def)

section \<open>The words that are matched twice\<close>

text \<open>The pairs of decoders that match a common word, in the order of the table.\<close>

definition ambiguous :: "decoder list list" where
  "ambiguous =
  [[mips32_alnv_ps, mips32_bgtzl],
   [mips32_bc1tl, mips32_bnel],
   [mips32_bnel, mips32_cvt_l_d],
   [mips32_bgtzl, mips32_ldxc1],
   [mips32_bgtzl, mips32_luxc1],
   [mips32_bgtzl, mips32_lwxc1],
   [mips32_bgtzl, mips32_madd_s],
   [mips32_ceil_l_s, mips32_movf],
   [mips32_bgtzl, mips32_msub_s],
   [mips32_bgtzl, mips32_msub_d],
   [mips32_bgtzl, mips32_msub_ps],
   [mips32_bgtzl, mips32_nmadd_s],
   [mips32_bgtzl, mips32_nmadd_d],
   [mips32_bgtzl, mips32_nmadd_ps],
   [mips32_bgtzl, mips32_nmsub_s],
   [mips32_bgtzl, mips32_nmsub_d],
   [mips32_bgtzl, mips32_nmsub_ps],
   [mips32_bgtzl, mips32_prefx],
   [mips32_lwu, mips32_sce],
   [mips32_bgtzl, mips32_sdxc1],
   [mips32_pause, mips32_sll],
   [mips32_bgtzl, mips32_suxc1],
   [mips32_bgtzl, mips32_swxc1],
   [mips32_ei, mips32_wait]]"

definition pair_ok :: "decoder \<Rightarrow> decoder \<Rightarrow> bool" where
  "pair_ok x y \<longleftrightarrow> (if dm x AND dk y = dm y AND dk x then [x, y] \<in> set ambiguous else True)"

definition crowded :: "int list" where
  "crowded = [1174405120, 1176502272, 1186988032, 1275068416, 1157627904, 1409286144, 1207959552, 1, 1182793728, 1184890880, 1073741824, 9, 8, 2617245696, 1543503872, 0, 2, 6, 2080374816]"

lemma crowded_groups:
  "filter (\<lambda>d. dkey d = 1174405120) decoders =
    [mips32_abs_s, mips32_add_s, mips32_c_cond_s, mips32_ceil_w_s, mips32_cvt_d_s, mips32_cvt_l_s, mips32_cvt_ps_s, mips32_cvt_w_s,
     mips32_div_s, mips32_floor_l_s, mips32_floor_w_s, mips32_mov_s, mips32_movf_s, mips32_movn_s, mips32_movt_s, mips32_movz_s,
     mips32_mul_s, mips32_neg_s, mips32_recip_s, mips32_round_l_s, mips32_round_w_s, mips32_rsqrt_s, mips32_sqrt_s, mips32_sub_s,
     mips32_trunc_l_s, mips32_trunc_w_s]"
  "filter (\<lambda>d. dkey d = 1176502272) decoders =
    [mips32_abs_d, mips32_add_d, mips32_c_cond_d, mips32_ceil_l_d, mips32_ceil_w_d, mips32_cvt_w_d, mips32_div_d, mips32_floor_l_d,
     mips32_floor_w_d, mips32_mov_d, mips32_movf_d, mips32_movn_d, mips32_movt_d, mips32_movz_d, mips32_mul_d, mips32_neg_d,
     mips32_recip_d, mips32_round_l_d, mips32_round_w_d, mips32_rsqrt_d, mips32_sqrt_d, mips32_sub_d, mips32_trunc_l_d, mips32_trunc_w_d]"
  "filter (\<lambda>d. dkey d = 1186988032) decoders =
    [mips32_abs_ps, mips32_add_ps, mips32_c_cond_ps, mips32_cvt_s_pl, mips32_cvt_s_pu, mips32_mov_ps, mips32_movf_ps, mips32_movn_ps,
     mips32_movt_ps, mips32_movz_ps, mips32_mul_ps, mips32_neg_ps, mips32_pll_ps, mips32_plu_ps, mips32_pul_ps, mips32_puu_ps,
     mips32_sub_ps]"
  "filter (\<lambda>d. dkey d = 1275068416) decoders =
    [mips32_alnv_ps, mips32_bgtzl, mips32_ldxc1, mips32_luxc1, mips32_lwxc1, mips32_madd_s, mips32_msub_s, mips32_msub_d,
     mips32_msub_ps, mips32_nmadd_s, mips32_nmadd_d, mips32_nmadd_ps, mips32_nmsub_s, mips32_nmsub_d, mips32_nmsub_ps, mips32_prefx,
     mips32_sdxc1, mips32_suxc1, mips32_swxc1]"
  "filter (\<lambda>d. dkey d = 1157627904) decoders =
    [mips32_bc1f, mips32_bc1fl, mips32_bc1t]"
  "filter (\<lambda>d. dkey d = 1409286144) decoders =
    [mips32_bc1tl, mips32_bnel, mips32_cvt_l_d]"
  "filter (\<lambda>d. dkey d = 1207959552) decoders =
    [mips32_bc2f, mips32_bc2fl, mips32_bc2t, mips32_bc2tl, mips32_cfc2, mips32_cop2, mips32_ctc2, mips32_mfc2,
     mips32_mfhc2, mips32_mtc2]"
  "filter (\<lambda>d. dkey d = 1) decoders =
    [mips32_ceil_l_s, mips32_movf, mips32_movt]"
  "filter (\<lambda>d. dkey d = 1182793728) decoders =
    [mips32_cvt_d_w, mips32_cvt_s_w]"
  "filter (\<lambda>d. dkey d = 1184890880) decoders =
    [mips32_cvt_d_l, mips32_cvt_s_l]"
  "filter (\<lambda>d. dkey d = 1073741824) decoders =
    [mips32_di, mips32_ei, mips32_eret, mips32_mfc0, mips32_mtc0, mips32_rdpgpr, mips32_tlbinv, mips32_tlbinvf,
     mips32_tlbp, mips32_tlbr, mips32_tlbwi, mips32_tlbwr, mips32_wait, mips32_wrpgpr]"
  "filter (\<lambda>d. dkey d = 9) decoders =
    [mips32_jalr, mips32_jalr_hb]"
  "filter (\<lambda>d. dkey d = 8) decoders =
    [mips32_jr, mips32_jr_hb]"
  "filter (\<lambda>d. dkey d = 2617245696) decoders =
    [mips32_lwu, mips32_sce]"
  "filter (\<lambda>d. dkey d = 1543503872) decoders =
    [mips32_madd_d, mips32_madd_ps]"
  "filter (\<lambda>d. dkey d = 0) decoders =
    [mips32_pause, mips32_sll]"
  "filter (\<lambda>d. dkey d = 2) decoders =
    [mips32_rotr, mips32_srl]"
  "filter (\<lambda>d. dkey d = 6) decoders =
    [mips32_rotrv, mips32_srlv]"
  "filter (\<lambda>d. dkey d = 2080374816) decoders =
    [mips32_seb, mips32_seh, mips32_wsbh]"
  by (simp_all add: decoders_def decoder_keys)

lemma crowded_pairs:
  "sorted_wrt pair_ok
    [mips32_abs_s, mips32_add_s, mips32_c_cond_s, mips32_ceil_w_s, mips32_cvt_d_s, mips32_cvt_l_s, mips32_cvt_ps_s, mips32_cvt_w_s,
     mips32_div_s, mips32_floor_l_s, mips32_floor_w_s, mips32_mov_s, mips32_movf_s, mips32_movn_s, mips32_movt_s, mips32_movz_s,
     mips32_mul_s, mips32_neg_s, mips32_recip_s, mips32_round_l_s, mips32_round_w_s, mips32_rsqrt_s, mips32_sqrt_s, mips32_sub_s,
     mips32_trunc_l_s, mips32_trunc_w_s]"
  "sorted_wrt pair_ok
    [mips32_abs_d, mips32_add_d, mips32_c_cond_d, mips32_ceil_l_d, mips32_ceil_w_d, mips32_cvt_w_d, mips32_div_d, mips32_floor_l_d,
     mips32_floor_w_d, mips32_mov_d, mips32_movf_d, mips32_movn_d, mips32_movt_d, mips32_movz_d, mips32_mul_d, mips32_neg_d,
     mips32_recip_d, mips32_round_l_d, mips32_round_w_d, mips32_rsqrt_d, mips32_sqrt_d, mips32_sub_d, mips32_trunc_l_d, mips32_trunc_w_d]"
  "sorted_wrt pair_ok
    [mips32_abs_ps, mips32_add_ps, mips32_c_cond_ps, mips32_cvt_s_pl, mips32_cvt_s_pu, mips32_mov_ps, mips32_movf_ps, mips32_movn_ps,
     mips32_movt_ps, mips32_movz_ps, mips32_mul_ps, mips32_neg_ps, mips32_pll_ps, mips32_plu_ps, mips32_pul_ps, mips32_puu_ps,
     mips32_sub_ps]"
  "sorted_wrt pair_ok
    [mips32_alnv_ps, mips32_bgtzl, mips32_ldxc1, mips32_luxc1, mips32_lwxc1, mips32_madd_s, mips32_msub_s, mips32_msub_d,
     mips32_msub_ps, mips32_nmadd_s, mips32_nmadd_d, mips32_nmadd_ps, mips32_nmsub_s, mips32_nmsub_d, mips32_nmsub_ps, mips32_prefx,
     mips32_sdxc1, mips32_suxc1, mips32_swxc1]"
  "sorted_wrt pair_ok
    [mips32_bc1f, mips32_bc1fl, mips32_bc1t]"
  "sorted_wrt pair_ok
    [mips32_bc1tl, mips32_bnel, mips32_cvt_l_d]"
  "sorted_wrt pair_ok
    [mips32_bc2f, mips32_bc2fl, mips32_bc2t, mips32_bc2tl, mips32_cfc2, mips32_cop2, mips32_ctc2, mips32_mfc2,
     mips32_mfhc2, mips32_mtc2]"
  "sorted_wrt pair_ok
    [mips32_ceil_l_s, mips32_movf, mips32_movt]"
  "sorted_wrt pair_ok
    [mips32_cvt_d_w, mips32_cvt_s_w]"
  "sorted_wrt pair_ok
    [mips32_cvt_d_l, mips32_cvt_s_l]"
  "sorted_wrt pair_ok
    [mips32_di, mips32_ei, mips32_eret, mips32_mfc0, mips32_mtc0, mips32_rdpgpr, mips32_tlbinv, mips32_tlbinvf,
     mips32_tlbp, mips32_tlbr, mips32_tlbwi, mips32_tlbwr, mips32_wait, mips32_wrpgpr]"
  "sorted_wrt pair_ok
    [mips32_jalr, mips32_jalr_hb]"
  "sorted_wrt pair_ok
    [mips32_jr, mips32_jr_hb]"
  "sorted_wrt pair_ok
    [mips32_lwu, mips32_sce]"
  "sorted_wrt pair_ok
    [mips32_madd_d, mips32_madd_ps]"
  "sorted_wrt pair_ok
    [mips32_pause, mips32_sll]"
  "sorted_wrt pair_ok
    [mips32_rotr, mips32_srl]"
  "sorted_wrt pair_ok
    [mips32_rotrv, mips32_srlv]"
  "sorted_wrt pair_ok
    [mips32_seb, mips32_seh, mips32_wsbh]"
  by (simp_all add: pair_ok_def decoder_numbers ambiguous_def)

lemma lone_decoders: "distinct (map dkey (filter (\<lambda>d. dkey d \<notin> set crowded) decoders))"
  by (simp add: decoders_def crowded_def decoder_keys)

end
