(* ===== verification/Decoder_Search.thy ===== *)
theory Decoder_Search
  imports Decoder_Table
begin

text \<open>
  What the table of decoders finds: the words that two decoders match are those of the listed pairs, the
  table is built without an exception, and the search returns the only decoder that matches.
\<close>

section \<open>Common words\<close>

lemma match_number: "idis_match d w \<longleftrightarrow> uint w AND dk d = dm d"
  by (simp add: idis_match_def dk_def dm_def uint_and [symmetric] word_uint_eq_iff)

lemma group_mask_op: "group_mask x AND 0xfc000000 = 0xfc000000"
  by (simp add: group_mask_def Let_def)

lemma match_key:
  assumes "d \<in> set decoders" "idis_match d w"
  shows "dkey d = group_key (uint w)"
proof -
  have m: "dm d = uint w AND dk d" using assms(2) by (simp add: match_number)
  have g: "group_mask (dm d) AND dk d = group_mask (dm d)" using decoder_group [OF assms(1)] .
  have "dk d AND 0xfc000000 = (0xfc000000 :: int)"
    using arg_cong [OF g, of "\<lambda>x. x AND 0xfc000000"] group_mask_op [of "dm d"] by (metis and.assoc and.commute)
  then have "dm d AND 0xfc000000 = uint w AND 0xfc000000" unfolding m by (simp only: and.assoc)
  then have "group_mask (dm d) = group_mask (uint w)" by (simp only: group_mask_def)
  moreover have "dm d AND group_mask (dm d) = uint w AND group_mask (dm d)"
    unfolding arg_cong [OF m, of "\<lambda>x. x AND _"] and.assoc by (metis g and.commute)
  ultimately show ?thesis by (simp add: dkey_def group_key_def)
qed

lemma match_pair: "idis_match x w \<Longrightarrow> idis_match y w \<Longrightarrow> dm x AND dk y = dm y AND dk x"
  unfolding match_number by (metis and.assoc and.commute)

lemma sorted_pairs:
  assumes "sorted_wrt pair_ok ds"
  shows "sorted_wrt (\<lambda>x y. [x, y] \<in> set ambiguous) (filter (\<lambda>d. idis_match d w) ds)"
  using assms by (induction ds) (auto simp: pair_ok_def dest: match_pair)

lemma lone_sorted: "distinct (map f ds) \<Longrightarrow> \<forall>d\<in>set ds. f d = v \<Longrightarrow> sorted_wrt P ds"
  by (cases ds rule: list.exhaust; cases "tl ds") auto

text \<open>The decoders that match a word, as a list in the order of the table.\<close>

definition matching :: "32 word \<Rightarrow> decoder list" where
  "matching w = filter (\<lambda>d. idis_match d w) decoders"

lemma matching_key: "matching w = filter (\<lambda>d. idis_match d w) (filter (\<lambda>d. dkey d = group_key (uint w)) decoders)"
  unfolding matching_def filter_filter by (rule filter_cong) (auto dest: match_key)

lemma matching_sorted: "sorted_wrt (\<lambda>x y. [x, y] \<in> set ambiguous) (matching w)"
proof (cases "group_key (uint w) \<in> set crowded")
  case True
  have "sorted_wrt pair_ok (filter (\<lambda>d. dkey d = v) decoders)" if "v \<in> set crowded" for v
    using that unfolding crowded_def by (auto simp only: list.set insert_iff empty_iff crowded_groups crowded_pairs)
  from sorted_pairs [OF this [OF True], of w] show ?thesis unfolding matching_key .
next
  case False
  let ?ds = "filter (\<lambda>d. dkey d \<notin> set crowded) decoders"
  have "matching w = filter (\<lambda>d. idis_match d w) (filter (\<lambda>d. dkey d = group_key (uint w)) ?ds)"
    unfolding matching_key filter_filter using False by (intro filter_cong) auto
  then have "distinct (map dkey (matching w))" by (simp only: distinct_map_filter lone_decoders)
  moreover have "\<forall>d\<in>set (matching w). dkey d = group_key (uint w)" by (auto simp: matching_def match_key)
  ultimately show ?thesis by (rule lone_sorted)
qed

lemma ambiguous_length: "l \<in> set ambiguous \<Longrightarrow> length l = 2"
proof -
  have "list_all (\<lambda>l. length l = 2) ambiguous" by (simp add: ambiguous_def)
  then show "l \<in> set ambiguous \<Longrightarrow> length l = 2" by (simp add: list_all_iff)
qed

lemma ambiguous_pair:
  assumes "l \<in> set ambiguous"
  obtains x y where "l = [x, y]"
  using ambiguous_length [OF assms] that by (auto simp: length_Suc_conv numeral_2_eq_2)

lemma ambiguous_chain: "[x, y] \<in> set ambiguous \<Longrightarrow> [y, z] \<in> set ambiguous \<Longrightarrow> [x, z] \<notin> set ambiguous"
proof -
  define code where "code d = (dm d, dk d)" for d
  define N where "N = map (map code) ambiguous"
  have n: "[x, y] \<in> set ambiguous \<Longrightarrow> [code x, code y] \<in> set N" for x y
    using image_eqI [of "[code x, code y]" "map code" "[x, y]" "set ambiguous"] by (simp add: N_def)
  have "\<forall>p\<in>set N. \<forall>q\<in>set N. p ! 1 = q ! 0 \<longrightarrow> [p ! 0, q ! 1] \<notin> set N"
    unfolding N_def ambiguous_def code_def by (simp add: decoder_numbers)
  then have "[a, b] \<in> set N \<Longrightarrow> [b, c] \<in> set N \<Longrightarrow> [a, c] \<notin> set N" for a b c by fastforce
  with n show "[x, y] \<in> set ambiguous \<Longrightarrow> [y, z] \<in> set ambiguous \<Longrightarrow> [x, z] \<notin> set ambiguous" by metis
qed

lemma matching_cases: "matching w = [] \<or> (\<exists>d. matching w = [d]) \<or> matching w \<in> set ambiguous"
proof -
  consider "matching w = []" | d where "matching w = [d]" | x y where "matching w = [x, y]" | x y z zs where "matching w = x # y # z # zs"
    by (metis list.exhaust)
  then show ?thesis using matching_sorted [of w] by cases (auto dest: ambiguous_chain)
qed

section \<open>The search\<close>

lemma find_loop_is:
  "find_loop ds w (Some r) = (if filter (\<lambda>d. idis_match d w) ds = [] then Some (Some r) else None)"
  "find_loop ds w None = (case filter (\<lambda>d. idis_match d w) ds of [] \<Rightarrow> Some None | [d] \<Rightarrow> Some (Some d) | _ \<Rightarrow> None)"
  by (induction ds arbitrary: r) (auto split: list.split)

lemma find_idis_is: "find_idis decoders w = (case matching w of [] \<Rightarrow> Some None | [d] \<Rightarrow> Some (Some d) | _ \<Rightarrow> None)"
  by (simp add: find_idis_def find_loop_is(2) matching_def)

lemma find_idis_unique:
  assumes "d \<in> set decoders" "idis_match d w" "\<And>e. [d, e] \<in> set ambiguous \<or> [e, d] \<in> set ambiguous \<Longrightarrow> \<not> idis_match e w"
  shows "find_idis decoders w = Some (Some d)"
proof -
  have in_m: "d \<in> set (matching w)" using assms(1,2) by (simp add: matching_def)
  have all_m: "e \<in> set (matching w) \<Longrightarrow> idis_match e w" for e by (simp add: matching_def)
  have "matching w = [d]"
  proof -
    from matching_cases [of w] in_m consider "matching w = [d]" | "matching w \<in> set ambiguous" by auto
    then show ?thesis
    proof cases
      case 2
      with ambiguous_pair obtain x y where xy: "matching w = [x, y]" "[x, y] \<in> set ambiguous" by metis
      with in_m all_m assms(3) [of x] assms(3) [of y] show ?thesis by auto
    qed
  qed
  then show ?thesis by (simp add: find_idis_is)
qed

section \<open>Building the table\<close>

definition idis_ok :: "decoder \<Rightarrow> bool" where
  "idis_ok d \<longleftrightarrow> d_mask d \<noteq> 0 \<and> d_match d AND NOT (d_mask d) = 0"

lemma own_match:
  assumes "idis_ok d"
  shows "idis_match d (d_match d)"
proof -
  have "bit (d_match d) i \<Longrightarrow> bit (d_mask d) i" for i
    using assms bit_imp_le_length [of "d_match d" i] by (auto simp: idis_ok_def bit_eq_iff bit_simps)
  then show ?thesis by (auto simp: idis_match_def bit_eq_iff bit_and_iff)
qed

lemma conflict_common:
  assumes "conflicts idis entry" "idis_ok idis" "idis_ok entry"
  shows "\<exists>w. idis_match idis w \<and> idis_match entry w"
  using assms own_match [OF assms(2)] own_match [OF assms(3)] unfolding conflicts_def idis_match_def by metis

lemma insert_loop_is: "insert_loop idis False ds False = (if \<exists>e\<in>set ds. conflicts idis e then None else Some (ds, False))"
  by (induction ds) auto

lemma insert_all_is:
  "\<forall>d\<in>set ds. idis_ok d \<Longrightarrow> sorted_wrt (\<lambda>x y. \<not> conflicts y x) (tab @ ds) \<Longrightarrow> insert_all tab ds = Some (tab @ ds)"
proof (induction ds arbitrary: tab)
  case (Cons d ds)
  then have "insert_idis tab d False = Some (tab @ [d])"
    by (auto simp: insert_idis_def insert_loop_is idis_ok_def sorted_wrt_append)
  with Cons show ?case by simp
qed simp

lemma sorted_by_words:
  assumes "\<And>w. sorted_wrt A (filter (\<lambda>d. M d w) ds)" "\<And>x y. x \<in> set ds \<Longrightarrow> y \<in> set ds \<Longrightarrow> \<not> R x y \<Longrightarrow> \<exists>w. M x w \<and> M y w"
    "\<And>x y. A x y \<Longrightarrow> R x y"
  shows "sorted_wrt R ds"
  using assms(1,2)
proof (induction ds)
  case (Cons x ds)
  have "sorted_wrt A (filter (\<lambda>d. M d w) ds)" for w using Cons.prems(1) [of w] by (simp split: if_split_asm)
  with Cons have "sorted_wrt R ds" by simp
  moreover have "R x y" if y: "y \<in> set ds" for y
  proof (rule ccontr)
    assume "\<not> R x y"
    with Cons.prems(2) [of x y] y obtain w where "M x w" "M y w" by auto
    with Cons.prems(1) [of w] y assms(3) have "R x y" by auto
    with \<open>\<not> R x y\<close> show False ..
  qed
  ultimately show ?case by simp
qed simp

lemma ambiguous_accepted: "[x, y] \<in> set ambiguous \<Longrightarrow> \<not> conflicts y x"
proof -
  have "list_all (\<lambda>l. \<not> conflicts (l ! 1) (l ! 0)) ambiguous"
    by (simp add: ambiguous_def conflicts_def bitmask_subset_def decoder_bits)
  then show "[x, y] \<in> set ambiguous \<Longrightarrow> \<not> conflicts y x" by (auto simp: list_all_iff)
qed

text \<open>The registers that are asserted to exist when the disassembler is initialized.\<close>

lemma map_of_other_names: "c \<noteq> CHR ''r'' \<Longrightarrow> c \<noteq> CHR ''h'' \<Longrightarrow>
    map_of (concat (map (\<lambda>i. [(''r'' @ numberToString i, f i), (''hw'' @ numberToString i, g i)]) [0..<k])) (c # cs) = None"
  by (induction k) (auto simp: map_add_def)

lemma map_of_middle: "map_of xs k = None \<Longrightarrow> map_of ys k = Some v \<Longrightarrow> map_of (xs @ ys @ zs) k = Some v"
  by (simp add: map_add_def)

lemma find_pc: "find_register ''pc'' = mips_reg 1 2 0 32"
  unfolding find_register_def registerDictionary_def
  by (subst map_of_middle [where v = "mips_reg 1 2 0 32"], rule map_of_other_names, simp_all)

lemma find_sp: "find_register ''sp'' = mips_reg 0 29 0 32"
  unfolding find_register_def registerDictionary_def
  by (subst map_of_middle [where v = "mips_reg 0 29 0 32"], rule map_of_other_names, simp_all)

lemma pointers_exist: "\<not> reg_isEmpty (find_register ''pc'')" "\<not> reg_isEmpty (find_register ''sp'')"
  unfolding find_pc find_sp by code_simp+

lemma init_is: "init = Some decoders"
proof -
  have ok: "\<forall>d\<in>set decoders. idis_ok d" using decoders_wf by (simp add: idis_ok_def)
  have "sorted_wrt (\<lambda>x y. \<not> conflicts y x) decoders"
  proof (rule sorted_by_words [where A = "\<lambda>x y. [x, y] \<in> set ambiguous" and M = idis_match])
    show "sorted_wrt (\<lambda>x y. [x, y] \<in> set ambiguous) (filter (\<lambda>d. idis_match d w) decoders)" for w
      using matching_sorted [of w] by (simp only: matching_def)
  qed (use ok conflict_common ambiguous_accepted in blast)+
  with insert_all_is [OF ok, of "[]"] show ?thesis by (simp add: init_def pointers_exist)
qed

end
