(* ===== verification/Decoder_Coverage.thy ===== *)
theory Decoder_Coverage
  imports Decoder_Search
begin

text \<open>
  Which decoders of the table are ever used, and on which words the search of the table fails.
\<close>

section \<open>The search\<close>

lemma ambiguous_members: "list_all (list_all (\<lambda>d. d \<in> set decoders)) ambiguous"
  unfolding ambiguous_def decoders_def by simp

lemma ambiguous_distinct: "[x, y] \<in> set ambiguous \<Longrightarrow> x \<noteq> y"
proof -
  have "list_all (\<lambda>l. (dm (l ! 0), dk (l ! 0)) \<noteq> (dm (l ! 1), dk (l ! 1))) ambiguous" by (simp add: ambiguous_def decoder_numbers)
  then show "[x, y] \<in> set ambiguous \<Longrightarrow> x \<noteq> y" by (auto simp: list_all_iff)
qed

lemma two_matches:
  assumes "x \<in> set decoders" "y \<in> set decoders" "x \<noteq> y" "idis_match x w" "idis_match y w"
  shows "find_idis decoders w = None"
proof -
  have "x \<in> set (matching w)" "y \<in> set (matching w)" using assms by (simp_all add: matching_def)
  with assms(3) show ?thesis unfolding find_idis_is by (auto split: list.split)
qed

lemma find_fails: "find_idis decoders w = None \<longleftrightarrow> list_ex (list_all (\<lambda>d. idis_match d w)) ambiguous"
proof
  assume "find_idis decoders w = None"
  then have "matching w \<noteq> []" "\<nexists>d. matching w = [d]" by (auto simp: find_idis_is)
  with matching_cases have "matching w \<in> set ambiguous" by blast
  moreover have "list_all (\<lambda>d. idis_match d w) (matching w)" by (simp add: matching_def list_all_iff)
  ultimately show "list_ex (list_all (\<lambda>d. idis_match d w)) ambiguous" by (auto simp: list_ex_iff)
next
  assume "list_ex (list_all (\<lambda>d. idis_match d w)) ambiguous"
  then obtain l where l: "l \<in> set ambiguous" "list_all (\<lambda>d. idis_match d w) l" by (auto simp: list_ex_iff)
  with ambiguous_pair obtain x y where xy: "l = [x, y]" by metis
  with l(1) ambiguous_members have "x \<in> set decoders" "y \<in> set decoders" by (auto simp: list_all_iff)
  with l xy ambiguous_distinct show "find_idis decoders w = None" by (auto intro: two_matches)
qed

text \<open>
  C5. The table of the MIPS decoders is built without an exception, in the order of the insertions, and
  the search for a word returns the only decoder that matches it, nothing when there is none, and throws
  exactly on the words that both decoders of one of twenty-four pairs match.
\<close>

theorem find_idis_exact:
  "init = Some decoders \<and>
   find_idis decoders w = (case filter (\<lambda>d. idis_match d w) decoders of [] \<Rightarrow> Some None | [d] \<Rightarrow> Some (Some d) | _ \<Rightarrow> None) \<and>
   (find_idis decoders w = None \<longleftrightarrow> list_ex (list_all (\<lambda>d. idis_match d w)) ambiguous)"
  using init_is find_fails find_idis_is [unfolded matching_def] by blast

section \<open>Decoders that are never used\<close>

definition shadowed :: "decoder list" where
  "shadowed = [mips32_pause, mips32_ei, mips32_bc1tl, mips32_cvt_l_d, mips32_sce]"

definition shadows :: "decoder list" where
  "shadows = [mips32_sll, mips32_wait, mips32_bnel, mips32_bnel, mips32_lwu]"

lemma subsumed:
  assumes "d_mask d AND d_mask e = d_mask e" "d_match d AND d_mask e = d_match e" "idis_match d w"
  shows "idis_match e w"
  using assms unfolding idis_match_def by (metis and.assoc)

lemma shadows_cover: "list_all2 (\<lambda>d e. d_mask d AND d_mask e = d_mask e \<and> d_match d AND d_mask e = d_match e \<and>
    d_match d \<noteq> d_match e \<and> d \<in> set decoders \<and> e \<in> set decoders) shadowed shadows"
  unfolding shadowed_def shadows_def list_all2_Cons decoder_bits
  by (simp add: decoders_def)

lemma shadowed_lost:
  assumes "d \<in> set shadowed" "idis_match d w"
  shows "find_idis decoders w = None"
proof -
  from assms(1) obtain i where i: "i < length shadowed" "d = shadowed ! i" by (auto simp: in_set_conv_nth)
  from list_all2_nthD [OF shadows_cover i(1)] two_matches subsumed assms(2) show ?thesis
    unfolding i(2) by metis
qed

text \<open>A word that a decoder matches, with every other bit set.\<close>

definition full_word :: "decoder \<Rightarrow> 32 word" where
  "full_word d = d_match d OR NOT (d_mask d)"

lemma full_word_match:
  assumes "idis_ok d"
  shows "idis_match d (full_word d)"
proof -
  have "bit (d_match d) i \<Longrightarrow> bit (d_mask d) i" for i
    using assms bit_imp_le_length [of "d_match d" i] by (auto simp: idis_ok_def bit_eq_iff bit_simps)
  then show ?thesis by (auto simp: idis_match_def full_word_def bit_eq_iff bit_simps)
qed

lemma full_word_number: "idis_match e (full_word d) \<longleftrightarrow> (dm d OR (0xffffffff - dk d)) AND dk e = dm e"
  using take_bit_int_eq_self [of "uint (d_mask d)" 32] uint_bounded [of "d_mask d"]
  by (simp add: match_number full_word_def dm_def dk_def uint_or unsigned_not_eq take_bit_not_eq_mask_diff mask_eq_exp_minus_1)

lemma full_words:
  "\<not> idis_match mips32_bgtzl (full_word mips32_alnv_ps)" "\<not> idis_match mips32_alnv_ps (full_word mips32_bgtzl)"
  "\<not> idis_match mips32_bc1tl (full_word mips32_bnel)" "\<not> idis_match mips32_cvt_l_d (full_word mips32_bnel)"
  "\<not> idis_match mips32_ldxc1 (full_word mips32_bgtzl)" "\<not> idis_match mips32_bgtzl (full_word mips32_ldxc1)"
  "\<not> idis_match mips32_luxc1 (full_word mips32_bgtzl)" "\<not> idis_match mips32_bgtzl (full_word mips32_luxc1)"
  "\<not> idis_match mips32_lwxc1 (full_word mips32_bgtzl)" "\<not> idis_match mips32_bgtzl (full_word mips32_lwxc1)"
  "\<not> idis_match mips32_madd_s (full_word mips32_bgtzl)" "\<not> idis_match mips32_bgtzl (full_word mips32_madd_s)"
  "\<not> idis_match mips32_movf (full_word mips32_ceil_l_s)" "\<not> idis_match mips32_ceil_l_s (full_word mips32_movf)"
  "\<not> idis_match mips32_msub_s (full_word mips32_bgtzl)" "\<not> idis_match mips32_bgtzl (full_word mips32_msub_s)"
  "\<not> idis_match mips32_msub_d (full_word mips32_bgtzl)" "\<not> idis_match mips32_bgtzl (full_word mips32_msub_d)"
  "\<not> idis_match mips32_msub_ps (full_word mips32_bgtzl)" "\<not> idis_match mips32_bgtzl (full_word mips32_msub_ps)"
  "\<not> idis_match mips32_nmadd_s (full_word mips32_bgtzl)" "\<not> idis_match mips32_bgtzl (full_word mips32_nmadd_s)"
  "\<not> idis_match mips32_nmadd_d (full_word mips32_bgtzl)" "\<not> idis_match mips32_bgtzl (full_word mips32_nmadd_d)"
  "\<not> idis_match mips32_nmadd_ps (full_word mips32_bgtzl)" "\<not> idis_match mips32_bgtzl (full_word mips32_nmadd_ps)"
  "\<not> idis_match mips32_nmsub_s (full_word mips32_bgtzl)" "\<not> idis_match mips32_bgtzl (full_word mips32_nmsub_s)"
  "\<not> idis_match mips32_nmsub_d (full_word mips32_bgtzl)" "\<not> idis_match mips32_bgtzl (full_word mips32_nmsub_d)"
  "\<not> idis_match mips32_nmsub_ps (full_word mips32_bgtzl)" "\<not> idis_match mips32_bgtzl (full_word mips32_nmsub_ps)"
  "\<not> idis_match mips32_prefx (full_word mips32_bgtzl)" "\<not> idis_match mips32_bgtzl (full_word mips32_prefx)"
  "\<not> idis_match mips32_sce (full_word mips32_lwu)" "\<not> idis_match mips32_sdxc1 (full_word mips32_bgtzl)"
  "\<not> idis_match mips32_bgtzl (full_word mips32_sdxc1)" "\<not> idis_match mips32_pause (full_word mips32_sll)"
  "\<not> idis_match mips32_suxc1 (full_word mips32_bgtzl)" "\<not> idis_match mips32_bgtzl (full_word mips32_suxc1)"
  "\<not> idis_match mips32_swxc1 (full_word mips32_bgtzl)" "\<not> idis_match mips32_bgtzl (full_word mips32_swxc1)"
  "\<not> idis_match mips32_ei (full_word mips32_wait)"
  unfolding full_word_number decoder_numbers by simp_all

lemma shadowed_in: "mips32_pause \<in> set shadowed" "mips32_ei \<in> set shadowed" "mips32_bc1tl \<in> set shadowed"
    "mips32_cvt_l_d \<in> set shadowed" "mips32_sce \<in> set shadowed"
  by (simp_all add: shadowed_def)

lemma full_word_alone: "list_all (\<lambda>l. (l ! 0 \<in> set shadowed \<or> \<not> idis_match (l ! 1) (full_word (l ! 0))) \<and>
    (l ! 1 \<in> set shadowed \<or> \<not> idis_match (l ! 0) (full_word (l ! 1)))) ambiguous"
  unfolding ambiguous_def by (simp add: full_words shadowed_in)

lemma full_word_found:
  assumes "d \<in> set decoders" "d \<notin> set shadowed"
  shows "find_idis decoders (full_word d) = Some (Some d)"
proof (rule find_idis_unique [OF assms(1)])
  show "idis_match d (full_word d)" using decoders_wf assms(1) by (auto intro: full_word_match simp: idis_ok_def)
  show "\<not> idis_match e (full_word d)" if "[d, e] \<in> set ambiguous \<or> [e, d] \<in> set ambiguous" for e
    using that full_word_alone assms(2) by (fastforce simp: list_all_iff)
qed

text \<open>
  C17. Every decoder of the table is found for some word, except for those of the instructions pause, ei,
  bc1tl, cvt.l.d and sce: each word that one of these matches also matches another decoder, so the search
  throws and the word is disassembled as an unknown instruction.
\<close>

theorem decoders_reached:
  assumes "d \<in> set decoders"
  shows "(\<exists>w. find_idis decoders w = Some (Some d)) \<longleftrightarrow> d \<notin> set [mips32_pause, mips32_ei, mips32_bc1tl, mips32_cvt_l_d, mips32_sce]"
proof -
  have "find_idis decoders w \<noteq> Some (Some d)" if "d \<in> set shadowed" for w
  proof
    assume found: "find_idis decoders w = Some (Some d)"
    then have "d \<in> set (matching w)" by (auto simp: find_idis_is split: list.split_asm)
    then show False using shadowed_lost [OF that, of w] found by (simp add: matching_def)
  qed
  with full_word_found [OF assms] show ?thesis unfolding shadowed_def [symmetric] by blast
qed

theorem decoders_reached_witness: "\<nexists>w. find_idis decoders w = Some (Some mips32_pause)"
  using decoders_reached [of mips32_pause] unfolding decoders_def by simp

end
