(* ===== verification/Sawyer_Set.thy ===== *)
theory Sawyer_Set
  imports Sawyer_Interval
begin

text \<open>
  Ordered sets of values: the class template \<^verbatim>\<open>Set<T>\<close> of \<^verbatim>\<open>src/Sawyer/Set.h\<close>, a wrapper of
  \<^verbatim>\<open>std::set\<close>. The values are a list in the order of iteration, which is strictly increasing; the
  operations of the standard library that the class calls come first. Comparator and allocator are the
  default ones, and the operand of an operation on two sets is another object than the set it changes.
\<close>

section \<open>The ordered set of the standard library\<close>

fun std_insert :: "'a::linorder \<Rightarrow> 'a list \<Rightarrow> 'a list \<times> bool" where
  "std_insert v [] = ([v], True)"
| "std_insert v (x # xs) =
     (if v < x then (v # x # xs, True)
      else if x < v then (let (ys, inserted) = std_insert v xs in (x # ys, inserted))
      else (x # xs, False))"

fun std_erase :: "'a::linorder \<Rightarrow> 'a list \<Rightarrow> 'a list \<times> nat" where
  "std_erase v [] = ([], 0)"
| "std_erase v (x # xs) =
     (if v < x then (x # xs, 0)
      else if x < v then (let (ys, erased) = std_erase v xs in (x # ys, erased))
      else (xs, 1))"

fun std_count :: "'a::linorder \<Rightarrow> 'a list \<Rightarrow> nat" where
  "std_count v [] = 0"
| "std_count v (x # xs) = (if v < x then 0 else if x < v then std_count v xs else 1)"

fun std_mismatch :: "'a list \<Rightarrow> 'a list \<Rightarrow> nat" where
  "std_mismatch (x # xs) (y # ys) = (if x = y then Suc (std_mismatch xs ys) else 0)"
| "std_mismatch xs ys = 0"

section \<open>The class\<close>

type_synonym 'a ordered_set = "'a list"

definition Set_new :: "'a ordered_set" where
  "Set_new = []"

definition Set_of_value :: "'a::linorder \<Rightarrow> 'a ordered_set" where
  "Set_of_value value = fst (std_insert value [])"

definition Set_of_range :: "'a::linorder list \<Rightarrow> 'a ordered_set" where
  "Set_of_range values = fold (\<lambda>value s. fst (std_insert value s)) values []"

definition Set_isEmpty :: "'a ordered_set \<Rightarrow> bool" where
  "Set_isEmpty s \<longleftrightarrow> s = []"

definition Set_exists :: "'a::linorder ordered_set \<Rightarrow> 'a \<Rightarrow> bool" where
  "Set_exists s value \<longleftrightarrow> 1 = std_count value s"

fun Set_existsAny :: "'a::linorder ordered_set \<Rightarrow> 'a ordered_set \<Rightarrow> bool" where
  "Set_existsAny s [] = False"
| "Set_existsAny s (otherValue # rest) = (if Set_exists s otherValue then True else Set_existsAny s rest)"

fun Set_existsAll :: "'a::linorder ordered_set \<Rightarrow> 'a ordered_set \<Rightarrow> bool" where
  "Set_existsAll s [] = True"
| "Set_existsAll s (otherValue # rest) = (if \<not> Set_exists s otherValue then False else Set_existsAll s rest)"

definition Set_size :: "'a ordered_set \<Rightarrow> nat" where
  "Set_size s = length s"

definition Set_least :: "'a ordered_set \<Rightarrow> 'a option" where
  "Set_least s = do { require (\<not> Set_isEmpty s); Some (hd s) }"

definition Set_greatest :: "'a ordered_set \<Rightarrow> 'a option" where
  "Set_greatest s = do { require (\<not> Set_isEmpty s); Some (last s) }"

definition Set_hull :: "'a::{linorder,zero,one} ordered_set \<Rightarrow> 'a interval option" where
  "Set_hull s =
     (if Set_isEmpty s then Some Interval_empty
      else do { lo \<leftarrow> Set_least s; hi \<leftarrow> Set_greatest s; Some (hull lo hi) })"

definition Set_eq :: "'a ordered_set \<Rightarrow> 'a ordered_set \<Rightarrow> bool" where
  "Set_eq s other \<longleftrightarrow> length s = length other \<and> list_all2 (=) s other"

definition Set_ne :: "'a ordered_set \<Rightarrow> 'a ordered_set \<Rightarrow> bool" where
  "Set_ne s other \<longleftrightarrow> length s \<noteq> length other \<or> std_mismatch s other \<noteq> length s"

text \<open>The mutators return the changed set and the flag that the code returns.\<close>

definition Set_insert :: "'a::linorder ordered_set \<Rightarrow> 'a \<Rightarrow> 'a ordered_set \<times> bool" where
  "Set_insert s value = std_insert value s"

fun insert_values :: "'a::linorder ordered_set \<Rightarrow> bool \<Rightarrow> 'a list \<Rightarrow> 'a ordered_set \<times> bool" where
  "insert_values s isInserted [] = (s, isInserted)"
| "insert_values s isInserted (value # rest) =
     (let (s, second) = std_insert value s in insert_values s (if second then True else isInserted) rest)"

definition Set_insertMultiple :: "'a::linorder ordered_set \<Rightarrow> 'a ordered_set \<Rightarrow> 'a ordered_set \<times> bool" where
  "Set_insertMultiple s values = insert_values s False values"

definition Set_erase :: "'a::linorder ordered_set \<Rightarrow> 'a \<Rightarrow> 'a ordered_set \<times> bool" where
  "Set_erase s value = (let (s, n) = std_erase value s in (s, 1 = n))"

fun erase_values :: "'a::linorder ordered_set \<Rightarrow> bool \<Rightarrow> 'a list \<Rightarrow> 'a ordered_set \<times> bool" where
  "erase_values s isErased [] = (s, isErased)"
| "erase_values s isErased (value # rest) =
     (let (s, n) = std_erase value s in erase_values s (if 1 = n then True else isErased) rest)"

definition Set_eraseMultiple :: "'a::linorder ordered_set \<Rightarrow> 'a ordered_set \<Rightarrow> 'a ordered_set \<times> bool" where
  "Set_eraseMultiple s values = erase_values s False values"

definition Set_clear :: "'a ordered_set \<Rightarrow> 'a ordered_set" where
  "Set_clear s = []"

definition Set_and_assign :: "'a::linorder ordered_set \<Rightarrow> 'a ordered_set \<Rightarrow> 'a ordered_set" where
  "Set_and_assign s other =
     (let toErase = filter (\<lambda>value. \<not> Set_exists other value) s in fold (\<lambda>value s. fst (std_erase value s)) toErase s)"

definition Set_or_assign :: "'a::linorder ordered_set \<Rightarrow> 'a ordered_set \<Rightarrow> 'a ordered_set" where
  "Set_or_assign s other = fold (\<lambda>v s. fst (std_insert v s)) other s"

definition Set_minus_assign :: "'a::linorder ordered_set \<Rightarrow> 'a ordered_set \<Rightarrow> 'a ordered_set" where
  "Set_minus_assign s other =
     (let toErase = filter (\<lambda>value. Set_exists other value) s in fold (\<lambda>value s. fst (std_erase value s)) toErase s)"

definition Set_and :: "'a::linorder ordered_set \<Rightarrow> 'a ordered_set \<Rightarrow> 'a ordered_set" where
  "Set_and s other = Set_and_assign s other"

definition Set_or :: "'a::linorder ordered_set \<Rightarrow> 'a ordered_set \<Rightarrow> 'a ordered_set" where
  "Set_or s other = Set_or_assign s other"

definition Set_minus :: "'a::linorder ordered_set \<Rightarrow> 'a ordered_set \<Rightarrow> 'a ordered_set" where
  "Set_minus s other = Set_minus_assign s other"

section \<open>The sets they stand for\<close>

abbreviation set_ok :: "'a::linorder ordered_set \<Rightarrow> bool" where
  "set_ok s \<equiv> sorted_wrt (<) s"

lemma inserted [simp]:
  "set (fst (std_insert v s)) = insert v (set s)"
  "set_ok s \<Longrightarrow> set_ok (fst (std_insert v s))"
  "set_ok s \<Longrightarrow> snd (std_insert v s) \<longleftrightarrow> v \<notin> set s"
proof -
  show elems: "set (fst (std_insert v s)) = insert v (set s)" for s by (induction s) (auto simp: case_prod_unfold Let_def)
  show "set_ok s \<Longrightarrow> set_ok (fst (std_insert v s))" by (induction s) (auto simp: case_prod_unfold Let_def elems)
  show "set_ok s \<Longrightarrow> snd (std_insert v s) \<longleftrightarrow> v \<notin> set s" by (induction s) (auto simp: case_prod_unfold Let_def)
qed

lemma erased [simp]:
  "set_ok s \<Longrightarrow> set (fst (std_erase v s)) = set s - {v}"
  "set_ok s \<Longrightarrow> set_ok (fst (std_erase v s))"
  "set_ok s \<Longrightarrow> snd (std_erase v s) = (if v \<in> set s then 1 else 0)"
proof -
  show elems: "set_ok s \<Longrightarrow> set (fst (std_erase v s)) = set s - {v}" for s by (induction s) (auto simp: case_prod_unfold Let_def)
  show "set_ok s \<Longrightarrow> set_ok (fst (std_erase v s))" by (induction s) (auto simp: case_prod_unfold Let_def elems)
  show "set_ok s \<Longrightarrow> snd (std_erase v s) = (if v \<in> set s then 1 else 0)" by (induction s) (auto simp: case_prod_unfold Let_def)
qed

lemma std_count_is: "set_ok s \<Longrightarrow> std_count v s = (if v \<in> set s then 1 else 0)"
  by (induction v s rule: std_count.induct) auto

lemma exists_is [simp]: "set_ok s \<Longrightarrow> Set_exists s v \<longleftrightarrow> v \<in> set s"
  by (simp add: Set_exists_def std_count_is)

lemma fold_insert_is: "set_ok s \<Longrightarrow> set_ok (fold (\<lambda>v s. fst (std_insert v s)) vs s) \<and> set (fold (\<lambda>v s. fst (std_insert v s)) vs s) = set s \<union> set vs"
  by (induction vs arbitrary: s) auto

lemma fold_erase_is: "set_ok s \<Longrightarrow> set_ok (fold (\<lambda>v s. fst (std_erase v s)) vs s) \<and> set (fold (\<lambda>v s. fst (std_erase v s)) vs s) = set s - set vs"
  by (induction vs arbitrary: s) auto

lemma insert_values_is:
  "insert_values s b vs = (s', b') \<Longrightarrow> set_ok s \<Longrightarrow> set_ok s' \<and> set s' = set s \<union> set vs \<and> b' = (b \<or> \<not> set vs \<subseteq> set s)"
proof (induction vs arbitrary: s b)
  case (Cons v vs)
  from Cons.IH [of "fst (std_insert v s)" "if snd (std_insert v s) then True else b"] Cons.prems show ?case
    by (auto simp: case_prod_unfold Let_def)
qed simp

lemma erase_values_is:
  "erase_values s b vs = (s', b') \<Longrightarrow> set_ok s \<Longrightarrow> set_ok s' \<and> set s' = set s - set vs \<and> b' = (b \<or> set vs \<inter> set s \<noteq> {})"
proof (induction vs arbitrary: s b)
  case (Cons v vs)
  from Cons.IH [of "fst (std_erase v s)" "if 1 = snd (std_erase v s) then True else b"] Cons.prems show ?case
    by (auto simp: case_prod_unfold Let_def)
qed simp

lemma or_assign_is: "set_ok s \<Longrightarrow> set_ok (Set_or_assign s t) \<and> set (Set_or_assign s t) = set s \<union> set t"
  by (simp add: Set_or_assign_def fold_insert_is)

lemma and_assign_is: "set_ok s \<Longrightarrow> set_ok t \<Longrightarrow> set_ok (Set_and_assign s t) \<and> set (Set_and_assign s t) = set s \<inter> set t"
  by (auto simp: Set_and_assign_def fold_erase_is)

lemma minus_assign_is: "set_ok s \<Longrightarrow> set_ok t \<Longrightarrow> set_ok (Set_minus_assign s t) \<and> set (Set_minus_assign s t) = set s - set t"
  by (auto simp: Set_minus_assign_def fold_erase_is)

lemma set_insert_is: "set_ok s \<Longrightarrow> set_ok (fst (Set_insert s v)) \<and> set (fst (Set_insert s v)) = insert v (set s) \<and> snd (Set_insert s v) = (v \<notin> set s)"
  by (simp add: Set_insert_def)

lemma set_erase_is: "set_ok s \<Longrightarrow> set_ok (fst (Set_erase s v)) \<and> set (fst (Set_erase s v)) = set s - {v} \<and> snd (Set_erase s v) = (v \<in> set s)"
  by (simp add: Set_erase_def case_prod_unfold Let_def)

text \<open>
  C39. The operators on ordered sets are union, intersection and difference, and the mutators insert and erase
  what they are given; all of them keep the values strictly increasing, and the flags that the mutators return
  say whether the set was changed.
\<close>

theorem set_operations:
  assumes "set_ok s" "set_ok t"
  shows "set_ok (Set_or s t) \<and> set (Set_or s t) = set s \<union> set t \<and>
    set_ok (Set_and s t) \<and> set (Set_and s t) = set s \<inter> set t \<and>
    set_ok (Set_minus s t) \<and> set (Set_minus s t) = set s - set t \<and>
    (case Set_insert s v of (s', b) \<Rightarrow> set_ok s' \<and> set s' = insert v (set s) \<and> (b \<longleftrightarrow> set s' \<noteq> set s)) \<and>
    (case Set_erase s v of (s', b) \<Rightarrow> set_ok s' \<and> set s' = set s - {v} \<and> (b \<longleftrightarrow> set s' \<noteq> set s)) \<and>
    (case Set_insertMultiple s t of (s', b) \<Rightarrow> set_ok s' \<and> set s' = set s \<union> set t \<and> (b \<longleftrightarrow> set s' \<noteq> set s)) \<and>
    (case Set_eraseMultiple s t of (s', b) \<Rightarrow> set_ok s' \<and> set s' = set s - set t \<and> (b \<longleftrightarrow> set s' \<noteq> set s))"
proof (intro conjI)
  show "set_ok (Set_or s t)" "set (Set_or s t) = set s \<union> set t" using or_assign_is [OF assms(1)] by (simp_all add: Set_or_def)
  show "set_ok (Set_and s t)" "set (Set_and s t) = set s \<inter> set t" using and_assign_is [OF assms] by (simp_all add: Set_and_def)
  show "set_ok (Set_minus s t)" "set (Set_minus s t) = set s - set t" using minus_assign_is [OF assms] by (simp_all add: Set_minus_def)
  show "case Set_insert s v of (s', b) \<Rightarrow> set_ok s' \<and> set s' = insert v (set s) \<and> (b \<longleftrightarrow> set s' \<noteq> set s)"
    using set_insert_is [OF assms(1), of v] by (auto simp: case_prod_unfold)
  show "case Set_erase s v of (s', b) \<Rightarrow> set_ok s' \<and> set s' = set s - {v} \<and> (b \<longleftrightarrow> set s' \<noteq> set s)"
    using set_erase_is [OF assms(1), of v] by (auto simp: case_prod_unfold)
  show "case Set_insertMultiple s t of (s', b) \<Rightarrow> set_ok s' \<and> set s' = set s \<union> set t \<and> (b \<longleftrightarrow> set s' \<noteq> set s)"
    using insert_values_is [OF _ assms(1), of False t] by (auto simp: Set_insertMultiple_def)
  show "case Set_eraseMultiple s t of (s', b) \<Rightarrow> set_ok s' \<and> set s' = set s - set t \<and> (b \<longleftrightarrow> set s' \<noteq> set s)"
    using erase_values_is [OF _ assms(1), of False t] by (auto simp: Set_eraseMultiple_def)
qed

theorem set_operations_witness:
  "set (Set_or [1, 3] [2, 3 :: nat]) = {1, 2, 3} \<and> set (Set_and [1, 3] [2, 3 :: nat]) = {3} \<and> set (Set_minus [1, 3] [2, 3 :: nat]) = {1}"
  using set_operations [of "[1, 3 :: nat]" "[2, 3]"] by auto

lemma constructors_are:
  "set_ok Set_new" "set Set_new = {}" "set_ok (Set_of_value v)" "set (Set_of_value v) = {v}"
  "set_ok (Set_of_range vs)" "set (Set_of_range vs) = set vs" "set_ok (Set_clear s)" "set (Set_clear s) = {}"
  using fold_insert_is [of "[]" vs] by (simp_all add: Set_new_def Set_of_value_def Set_of_range_def Set_clear_def)

section \<open>Queries\<close>

lemma existsAny_is: "set_ok s \<Longrightarrow> Set_existsAny s t \<longleftrightarrow> set s \<inter> set t \<noteq> {}"
  by (induction t) auto

lemma existsAll_is: "set_ok s \<Longrightarrow> Set_existsAll s t \<longleftrightarrow> set t \<subseteq> set s"
  by (induction t) auto

lemma std_mismatch_is: "length s = length t \<Longrightarrow> std_mismatch s t = length s \<longleftrightarrow> s = t"
  by (induction s t rule: std_mismatch.induct) auto

lemma set_ok_eq: "set_ok s \<Longrightarrow> set_ok t \<Longrightarrow> s = t \<longleftrightarrow> set s = set t"
  by (metis sorted_distinct_set_unique strict_sorted_iff)

lemma ends_are: "set_ok s \<Longrightarrow> s \<noteq> [] \<Longrightarrow> hd s = Min (set s) \<and> last s = Max (set s)"
proof
  assume s: "set_ok s" "s \<noteq> []"
  then have le: "sorted s" by (simp add: strict_sorted_iff)
  have "hd s \<le> x" if "x \<in> set s" for x using le that by (cases s) auto
  with s show "hd s = Min (set s)" by (intro Min_eqI [symmetric]) auto
  have "x \<le> last s" if "x \<in> set s" for x using le that by (induction s) (auto split: if_split_asm)
  with s show "last s = Max (set s)" by (intro Max_eqI [symmetric]) auto
qed

text \<open>
  The queries of ordered sets answer for the sets: membership, common members, inclusion, cardinality, equality,
  least and greatest member and the interval between them; least and greatest member of an empty set fail.
\<close>

theorem set_queries:
  fixes s t :: "'a::{linorder,zero,one} ordered_set"
  assumes "set_ok s" "set_ok t"
  shows "(Set_exists s v \<longleftrightarrow> v \<in> set s) \<and> (Set_existsAny s t \<longleftrightarrow> set s \<inter> set t \<noteq> {}) \<and> (Set_existsAll s t \<longleftrightarrow> set t \<subseteq> set s) \<and>
    Set_size s = card (set s) \<and> (Set_eq s t \<longleftrightarrow> set s = set t) \<and> (Set_ne s t \<longleftrightarrow> set s \<noteq> set t) \<and>
    Set_least s = (if set s = {} then None else Some (Min (set s))) \<and> Set_greatest s = (if set s = {} then None else Some (Max (set s))) \<and>
    Set_hull s = Some (if set s = {} then Interval_empty else \<lparr>ilo = Min (set s), ihi = Max (set s)\<rparr>)"
proof (intro conjI)
  show "Set_exists s v \<longleftrightarrow> v \<in> set s" "Set_existsAny s t \<longleftrightarrow> set s \<inter> set t \<noteq> {}" "Set_existsAll s t \<longleftrightarrow> set t \<subseteq> set s"
    using assms by (simp_all add: existsAny_is existsAll_is)
  show "Set_size s = card (set s)" using assms(1) by (simp add: Set_size_def strict_sorted_iff distinct_card)
  show "Set_eq s t \<longleftrightarrow> set s = set t" "Set_ne s t \<longleftrightarrow> set s \<noteq> set t"
    using set_ok_eq [OF assms] std_mismatch_is [of s t] by (auto simp: Set_eq_def Set_ne_def list.rel_eq)
  show "Set_least s = (if set s = {} then None else Some (Min (set s)))" "Set_greatest s = (if set s = {} then None else Some (Max (set s)))"
    using ends_are [OF assms(1)] by (auto simp: Set_least_def Set_greatest_def Set_isEmpty_def)
  show "Set_hull s = Some (if set s = {} then Interval_empty else \<lparr>ilo = Min (set s), ihi = Max (set s)\<rparr>)"
    using ends_are [OF assms(1)] by (auto simp: Set_hull_def Set_least_def Set_greatest_def Set_isEmpty_def hull_def min_def max_def)
qed

theorem set_queries_witness:
  "Set_exists [1, 3 :: nat] 3 \<and> Set_size [1, 3 :: nat] = 2 \<and> Set_greatest [1, 3 :: nat] = Some 3 \<and> Set_ne [1, 3] [2, 3 :: nat]"
  using set_queries [of "[1, 3 :: nat]" "[2, 3]" 3] by auto

end
