(* ===== verification/Mips_Functors.thy ===== *)
theory Mips_Functors
  imports Mips_Operands
begin

text \<open>
  What the MIPS instructions compute, written as arithmetic on numbers, and the proof that each functor
  does that to the abstract machine.
\<close>

section \<open>Results of the instructions\<close>

text \<open>Sign extension of a number of \<open>t\<close> bits to a word, and the word of an integer.\<close>

definition sx :: "nat \<Rightarrow> nat \<Rightarrow> nat" where
  "sx t y = nat (signed_of t y mod 2 ^ 32)"

abbreviation sw :: "nat \<Rightarrow> int" where
  "sw x \<equiv> signed_of 32 x"

definition sra :: "nat \<Rightarrow> nat \<Rightarrow> nat" where
  "sra x k = nat ((sw x div 2 ^ k) mod 2 ^ 32)"

definition ror :: "nat \<Rightarrow> nat \<Rightarrow> nat" where
  "ror x k = bval (\<lambda>i. bit x ((i + k) mod 32)) 32"

text \<open>Two register operands.\<close>

definition alu :: "mips_kind \<Rightarrow> (nat \<Rightarrow> nat \<Rightarrow> nat) option" where
  "alu k = map_of [
     (mips_addu, \<lambda>x y. (x + y) mod 2 ^ 32),
     (mips_subu, \<lambda>x y. (x + (2 ^ 32 - y)) mod 2 ^ 32),
     (mips_and, \<lambda>x y. x AND y),
     (mips_or, \<lambda>x y. x OR y),
     (mips_xor, \<lambda>x y. x XOR y),
     (mips_nor, \<lambda>x y. 2 ^ 32 - 1 - (x OR y)),
     (mips_slt, \<lambda>x y. of_bool (sw x < sw y)),
     (mips_sltu, \<lambda>x y. of_bool (x < y)),
     (mips_mul, \<lambda>x y. nat ((sw x * sw y) mod 2 ^ 32)),
     (mips_sllv, \<lambda>x y. x * 2 ^ (y mod 2 ^ 5) mod 2 ^ 32),
     (mips_srlv, \<lambda>x y. x div 2 ^ (y mod 2 ^ 5)),
     (mips_srav, \<lambda>x y. sra x (y mod 2 ^ 5)),
     (mips_rotrv, \<lambda>x y. ror x (y mod 2 ^ 5))] k"

text \<open>A register operand and an immediate of \<open>t\<close> bits.\<close>

definition alu_imm :: "mips_kind \<Rightarrow> (nat \<Rightarrow> nat \<Rightarrow> nat \<Rightarrow> nat) option" where
  "alu_imm k = map_of [
     (mips_addiu, \<lambda>x t y. (x + sx t y) mod 2 ^ 32),
     (mips_andi, \<lambda>x t y. x AND (y mod 2 ^ 32)),
     (mips_ori, \<lambda>x t y. x OR (y mod 2 ^ 32)),
     (mips_xori, \<lambda>x t y. x XOR (y mod 2 ^ 32)),
     (mips_slti, \<lambda>x t y. of_bool (sw x < sw (sx t y))),
     (mips_sltiu, \<lambda>x t y. of_bool (x < sx t y)),
     (mips_sll, \<lambda>x t y. x * 2 ^ y mod 2 ^ 32),
     (mips_srl, \<lambda>x t y. x div 2 ^ y),
     (mips_sra, \<lambda>x t y. sra x y),
     (mips_rotr, \<lambda>x t y. ror x y)] k"

text \<open>One register operand.\<close>

definition alu_unary :: "mips_kind \<Rightarrow> (nat \<Rightarrow> nat) option" where
  "alu_unary k = map_of [
     (mips_clo, \<lambda>x. leading_zeros 32 (2 ^ 32 - 1 - x)),
     (mips_clz, \<lambda>x. leading_zeros 32 x),
     (mips_seb, \<lambda>x. sx 8 (x mod 2 ^ 8)),
     (mips_seh, \<lambda>x. sx 16 (x mod 2 ^ 16))] k"

text \<open>Addition and subtraction that trap: on overflow the interrupt discards the whole state.\<close>

definition trapped :: "astate \<Rightarrow> nat \<Rightarrow> int \<Rightarrow> astate" where
  "trapped s rd k = (if fits_signed 32 k then set_gpr s rd (nat (k mod 2 ^ 32)) else cleared s)"

text \<open>The pair of registers HI and LO as one number, and what the multiplications put there.\<close>

definition hilo :: "astate \<Rightarrow> nat" where
  "hilo s = get_reg s REG_LO + 2 ^ 32 * get_reg s REG_HI"

definition set_hilo :: "astate \<Rightarrow> nat \<Rightarrow> astate" where
  "set_hilo s v = set_reg (set_reg s REG_HI (v div 2 ^ 32)) REG_LO (v mod 2 ^ 32)"

definition multiply_op :: "mips_kind \<Rightarrow> (nat \<Rightarrow> nat \<Rightarrow> nat \<Rightarrow> nat) option" where
  "multiply_op k = map_of [
     (mips_mult, \<lambda>acc x y. nat ((sw x * sw y) mod 2 ^ 64)),
     (mips_multu, \<lambda>acc x y. x * y),
     (mips_madd, \<lambda>acc x y. (acc + nat ((sw x * sw y) mod 2 ^ 64)) mod 2 ^ 64),
     (mips_maddu, \<lambda>acc x y. (acc + x * y) mod 2 ^ 64),
     (mips_msub, \<lambda>acc x y. (acc + (2 ^ 64 - nat ((sw x * sw y) mod 2 ^ 64))) mod 2 ^ 64),
     (mips_msubu, \<lambda>acc x y. (acc + (2 ^ 64 - x * y)) mod 2 ^ 64)] k"

definition set_lo_hi :: "astate \<Rightarrow> nat \<Rightarrow> nat \<Rightarrow> astate" where
  "set_lo_hi s q r = set_reg (set_reg s REG_LO q) REG_HI r"

section \<open>Helpers\<close>

definition with_args :: "mips_insn \<Rightarrow> operand list \<Rightarrow> bool" where
  "with_args insn ps \<longleftrightarrow> operands insn = map operand_expr ps \<and> (\<forall>p\<in>set ps. operand_ok p)"

lemma with_args_length: "with_args insn ps \<Longrightarrow> length (operands insn) = length ps"
  by (simp add: with_args_def)

lemma with_args_arg: "with_args insn ps \<Longrightarrow> i < length ps \<Longrightarrow> arg insn i (ps ! i)"
  by (simp add: with_args_def arg_def)

lemma with_args3:
  assumes "with_args insn [p, q, r]"
  shows "length (operands insn) = 3" "arg insn 0 p" "arg insn 1 q" "arg insn 2 r" "operand_ok p" "operand_ok q" "operand_ok r"
  using with_args_length [OF assms] with_args_arg [OF assms, of 0] with_args_arg [OF assms, of 1] with_args_arg [OF assms, of 2] assms
  by (simp_all add: with_args_def numeral_2_eq_2)

lemma with_args2:
  assumes "with_args insn [p, q]"
  shows "length (operands insn) = 2" "arg insn 0 p" "arg insn 1 q" "operand_ok p" "operand_ok q"
  using with_args_length [OF assms] with_args_arg [OF assms, of 0] with_args_arg [OF assms, of 1] assms
  by (simp_all add: with_args_def)

lemma with_args1:
  assumes "with_args insn [p]"
  shows "length (operands insn) = 1" "arg insn 0 p" "operand_ok p"
  using with_args_length [OF assms] with_args_arg [OF assms, of 0] assms by (simp_all add: with_args_def)

lemmas kind_simps = numeral_eq_iff eq_num_simps simp_thms if_True if_False insert_iff empty_iff

text \<open>The whole of a word, its low-order five bits, one bit of a value, and the two halves of a double word.\<close>

lemma extract_low_step:
  assumes "sv_is a n x" "0 < j" "j \<le> n" "\<And>r. sv_is r j (x mod 2 ^ j) \<Longrightarrow> succeeds (f r) Q"
  shows "succeeds (Concrete_extract a 0 j \<bind> f) Q"
  by (rule extract_step [OF assms(1-3)]) (use assms(4) in simp)

lemma extract_high_step:
  assumes "sv_is a (32 + 32) x" "\<And>r. sv_is r 32 (x div 2 ^ 32) \<Longrightarrow> succeeds (f r) Q"
  shows "succeeds (Concrete_extract a 32 64 \<bind> f) Q"
proof (rule extract_step [OF assms(1)])
  fix r assume r: "sv_is r (64 - 32) (x div 2 ^ 32 mod 2 ^ (64 - 32))"
  have "x div 2 ^ 32 < 2 ^ 32" using sv_is_less [OF assms(1)] by (intro less_mult_imp_div_less) simp
  with r show "succeeds (f r) Q" by (intro assms(2)) simp
qed simp_all

lemma extract_bit_step:
  assumes "sv_is a n x" "j = Suc i" "i < n" "\<And>r. sv_is r 1 (of_bool (bit x i)) \<Longrightarrow> succeeds (f r) Q"
  shows "succeeds (Concrete_extract a i j \<bind> f) Q"
  unfolding assms(2) by (rule succeeds_bind [OF cv.bit_extract [OF assms(1,3), unfolded concrete_ops_sel]]) (rule assms(4))

lemma if_step: "c \<Longrightarrow> succeeds (a \<bind> f) Q \<Longrightarrow> succeeds ((if c then a else b) \<bind> f) Q"
  by simp

lemma word_of_signed: "nat (signed_of n x mod 2 ^ n) = x mod 2 ^ n"
  by (simp add: signed_of_mod nat_mod_distrib nat_power_eq)

lemma low_word_of_int: "nat (k mod 2 ^ (32 + 32)) mod 2 ^ 32 = nat (k mod 2 ^ 32)"
proof -
  have "k mod 2 ^ (32 + 32) mod 2 ^ 32 = k mod 2 ^ 32" by (intro mod_mod_cancel le_imp_power_dvd) simp
  moreover have "nat (k mod 2 ^ (32 + 32)) mod 2 ^ 32 = nat (k mod 2 ^ (32 + 32) mod 2 ^ 32)"
    by (simp add: nat_mod_distrib nat_power_eq)
  ultimately show ?thesis by simp
qed

text \<open>Steps that leave a word as it is.\<close>

lemma word_extend_step: "sv_is a 32 x \<Longrightarrow> (\<And>r. sv_is r 32 x \<Longrightarrow> succeeds (f r) Q) \<Longrightarrow> succeeds (Concrete_signExtend a 32 \<bind> f) Q"
  by (rule succeeds_bind [OF Concrete_extend_is(2)], assumption, drule sv_is_less) (simp only: word_of_signed mod_less)

lemma word_extract_step: "sv_is a 32 x \<Longrightarrow> (\<And>r. sv_is r 32 x \<Longrightarrow> succeeds (f r) Q) \<Longrightarrow> succeeds (Concrete_extract a 0 32 \<bind> f) Q"
  using extract_low_step [of a 32 x 32 f Q] sv_is_less [of a 32 x] by simp

lemmas word_arith = low_word_of_int sra_def ror_def sx_def

text \<open>The two top bits of a sum of extended words differ exactly when the sum is not a word.\<close>

lemma overflow_bits:
  assumes "- (2 ^ 32) \<le> k" "k < 2 ^ 32"
  shows "bit (nat (k mod 2 ^ (32 + 1))) 31 = bit (nat (k mod 2 ^ (32 + 1))) 32 \<longleftrightarrow> fits_signed 32 k"
proof -
  have b: "bit (nat (k mod 2 ^ (32 + 1))) i = bit k i" if "i < 33" for i
  proof -
    have "nat (k mod 2 ^ (32 + 1)) = nat (take_bit 33 k)" by (simp add: take_bit_eq_mod)
    then show ?thesis using that by (simp add: bit_nat_iff bit_take_bit_iff)
  qed
  define q where "q = k div 2 ^ 31"
  have "k = 2 ^ 31 * q + k mod 2 ^ 31" "0 \<le> k mod 2 ^ 31" "k mod 2 ^ 31 < 2 ^ 31" by (simp_all add: q_def)
  then have fits: "fits_signed 32 k \<longleftrightarrow> q = - 1 \<or> q = 0" and range: "q = - 2 \<or> q = - 1 \<or> q = 0 \<or> q = 1"
    using assms by (auto simp: fits_signed_def)
  have "k div 2 ^ 32 = q div 2" by (simp add: q_def flip: zdiv_zmult2_eq)
  then have "bit k 31 = odd q" "bit k 32 = odd (q div 2)" by (simp_all add: bit_iff_odd q_def)
  with range have "bit k 31 = bit k 32 \<longleftrightarrow> fits_signed 32 k" unfolding fits by auto
  moreover have "bit (nat (k mod 2 ^ (32 + 1))) 31 = bit k 31" "bit (nat (k mod 2 ^ (32 + 1))) 32 = bit k 32" by (rule b; simp)+
  ultimately show ?thesis by (simp only:)
qed

lemma signed_word_range: "x < 2 ^ 32 \<Longrightarrow> - (2 ^ 31) \<le> sw x \<and> sw x < 2 ^ 31"
  using signed_of_range [of x 32] by simp

lemma wide_add: "(nat (a mod 2 ^ n) + nat (b mod 2 ^ n)) mod 2 ^ n = nat ((a + b) mod 2 ^ n)"
proof -
  have "int ((nat (a mod 2 ^ n) + nat (b mod 2 ^ n)) mod 2 ^ n) = (a + b) mod 2 ^ n" by (simp add: zmod_int mod_simps)
  then show ?thesis by simp
qed

lemma wide_sub: "(nat (a mod 2 ^ n) + (2 ^ n - nat (b mod 2 ^ n))) mod 2 ^ n = nat ((a - b) mod 2 ^ n)"
proof -
  have b: "int (2 ^ n - nat (b mod 2 ^ n)) = 2 ^ n - b mod 2 ^ n" by (simp add: of_nat_diff nat_le_iff order_less_imp_le)
  have "int ((nat (a mod 2 ^ n) + (2 ^ n - nat (b mod 2 ^ n))) mod 2 ^ n) = (a mod 2 ^ n + (2 ^ n - b mod 2 ^ n)) mod 2 ^ n"
    unfolding zmod_int of_nat_add b by simp
  also have "a mod 2 ^ n + (2 ^ n - b mod 2 ^ n) = a mod 2 ^ n - b mod 2 ^ n + 2 ^ n" by simp
  also have "\<dots> mod 2 ^ n = (a - b) mod 2 ^ n" by (simp only: mod_add_self2 mod_diff_eq)
  finally show ?thesis by simp
qed

lemma cleared_set_gpr [simp]: "cleared (set_gpr s i x) = cleared s"
  by (simp add: cleared_def set_gpr_def set_reg_def)

context machine_laws
begin

lemmas read_gpr_step = read_gpr_arg [THEN bind_read]
lemmas read_width_step = read_gpr_arg_width [THEN bind_read]
lemmas read_imm_step = read_imm_arg [THEN bind_read]
lemmas read_mem_step = read_mem_arg [THEN bind_read]

lemma write_result:
  assumes "rep mc s" "arg insn i (Gpr j)" "sv_is v n x" "n = 32" "x = y"
  shows "succeeds (write_arg (Mips32 bo ar) insn i v mc) (\<lambda>mc'. rep mc' (set_gpr s j y))"
  using write_gpr_arg [OF assms(1,2)] assms(3-5) by simp

lemmas functor_steps = args_step read_gpr_step word_extend_step word_extract_step extract_low_step concat_step value_steps write_result

section \<open>Arithmetic and logic\<close>

lemma logic_functors:
  assumes "rep mc s" and args: "with_args insn [Gpr rd, Gpr rs, Gpr rt]"
  shows "succeeds (IP_addu (Mips32 bo ar) insn ds mc) (\<lambda>mc'. rep mc' (set_gpr s rd ((gpr s rs + gpr s rt) mod 2 ^ 32)))"
    "succeeds (IP_subu (Mips32 bo ar) insn ds mc) (\<lambda>mc'. rep mc' (set_gpr s rd ((gpr s rs + (2 ^ 32 - gpr s rt)) mod 2 ^ 32)))"
    "succeeds (IP_and (Mips32 bo ar) insn ds mc) (\<lambda>mc'. rep mc' (set_gpr s rd (gpr s rs AND gpr s rt)))"
    "succeeds (IP_or (Mips32 bo ar) insn ds mc) (\<lambda>mc'. rep mc' (set_gpr s rd (gpr s rs OR gpr s rt)))"
    "succeeds (IP_xor (Mips32 bo ar) insn ds mc) (\<lambda>mc'. rep mc' (set_gpr s rd (gpr s rs XOR gpr s rt)))"
    "succeeds (IP_nor (Mips32 bo ar) insn ds mc) (\<lambda>mc'. rep mc' (set_gpr s rd (2 ^ 32 - 1 - (gpr s rs OR gpr s rt))))"
  unfolding IP_addu_def IP_subu_def IP_and_def IP_or_def IP_xor_def IP_nor_def using assms(1) with_args3 [OF args]
  by - ((rule functor_steps | assumption | (simp; fail))+)[6]

lemma compare_functors:
  assumes "rep mc s" and args: "with_args insn [Gpr rd, Gpr rs, Gpr rt]"
  shows "get_kind insn = mips_slt \<Longrightarrow>
      succeeds (IP_slt_su (Mips32 bo ar) insn ds mc) (\<lambda>mc'. rep mc' (set_gpr s rd (of_bool (sw (gpr s rs) < sw (gpr s rt)))))"
    "get_kind insn = mips_sltu \<Longrightarrow>
      succeeds (IP_slt_su (Mips32 bo ar) insn ds mc) (\<lambda>mc'. rep mc' (set_gpr s rd (of_bool (gpr s rs < gpr s rt))))"
    "succeeds (IP_mul (Mips32 bo ar) insn ds mc) (\<lambda>mc'. rep mc' (set_gpr s rd (nat ((sw (gpr s rs) * sw (gpr s rt)) mod 2 ^ 32))))"
  unfolding IP_slt_su_def IP_mul_def Let_def mips32 using assms(1) with_args3 [OF args]
  by - ((simp only: kind_simps)?, (rule functor_steps | assumption | (simp only: word_arith; fail) | (simp; fail))+)+

lemma shift_functors:
  assumes "rep mc s" and args: "with_args insn [Gpr rd, Gpr rs, Gpr rt]"
  shows "get_kind insn = mips_sllv \<Longrightarrow>
      succeeds (IP_shiftv (Mips32 bo ar) insn ds mc) (\<lambda>mc'. rep mc' (set_gpr s rd (gpr s rs * 2 ^ (gpr s rt mod 2 ^ 5) mod 2 ^ 32)))"
    "get_kind insn = mips_srlv \<Longrightarrow>
      succeeds (IP_shiftv (Mips32 bo ar) insn ds mc) (\<lambda>mc'. rep mc' (set_gpr s rd (gpr s rs div 2 ^ (gpr s rt mod 2 ^ 5))))"
    "get_kind insn = mips_srav \<Longrightarrow>
      succeeds (IP_shiftv (Mips32 bo ar) insn ds mc) (\<lambda>mc'. rep mc' (set_gpr s rd (sra (gpr s rs) (gpr s rt mod 2 ^ 5))))"
    "get_kind insn = mips_rotrv \<Longrightarrow>
      succeeds (IP_rotate (Mips32 bo ar) insn ds mc) (\<lambda>mc'. rep mc' (set_gpr s rd (ror (gpr s rs) (gpr s rt mod 2 ^ 5))))"
  unfolding IP_shiftv_def IP_rotate_def Let_def mips32 using assms(1) with_args3 [OF args]
  by - ((simp only: kind_simps bind.bind_lunit)?, (rule functor_steps | assumption | (simp only: word_arith; fail) | (simp; fail))+)+

lemma immediate_functors:
  assumes "rep mc s" and args: "with_args insn [Gpr rd, Gpr rs, Imm t y]"
  shows "succeeds (IP_addiu (Mips32 bo ar) insn ds mc) (\<lambda>mc'. rep mc' (set_gpr s rd ((gpr s rs + sx t y) mod 2 ^ 32)))"
    "succeeds (IP_andi (Mips32 bo ar) insn ds mc) (\<lambda>mc'. rep mc' (set_gpr s rd (gpr s rs AND (y mod 2 ^ 32))))"
    "succeeds (IP_ori (Mips32 bo ar) insn ds mc) (\<lambda>mc'. rep mc' (set_gpr s rd (gpr s rs OR (y mod 2 ^ 32))))"
    "succeeds (IP_xori (Mips32 bo ar) insn ds mc) (\<lambda>mc'. rep mc' (set_gpr s rd (gpr s rs XOR (y mod 2 ^ 32))))"
    "get_kind insn = mips_slti \<Longrightarrow>
      succeeds (IP_slti_su (Mips32 bo ar) insn ds mc) (\<lambda>mc'. rep mc' (set_gpr s rd (of_bool (sw (gpr s rs) < sw (sx t y)))))"
    "get_kind insn = mips_sltiu \<Longrightarrow>
      succeeds (IP_slti_su (Mips32 bo ar) insn ds mc) (\<lambda>mc'. rep mc' (set_gpr s rd (of_bool (gpr s rs < sx t y))))"
    "get_kind insn = mips_sll \<Longrightarrow>
      succeeds (IP_shift (Mips32 bo ar) insn ds mc) (\<lambda>mc'. rep mc' (set_gpr s rd (gpr s rs * 2 ^ y mod 2 ^ 32)))"
    "get_kind insn = mips_srl \<Longrightarrow>
      succeeds (IP_shift (Mips32 bo ar) insn ds mc) (\<lambda>mc'. rep mc' (set_gpr s rd (gpr s rs div 2 ^ y)))"
    "get_kind insn = mips_sra \<Longrightarrow>
      succeeds (IP_shift (Mips32 bo ar) insn ds mc) (\<lambda>mc'. rep mc' (set_gpr s rd (sra (gpr s rs) y)))"
    "get_kind insn = mips_rotr \<Longrightarrow>
      succeeds (IP_rotate (Mips32 bo ar) insn ds mc) (\<lambda>mc'. rep mc' (set_gpr s rd (ror (gpr s rs) y)))"
  unfolding IP_addiu_def IP_andi_def IP_ori_def IP_xori_def IP_slti_su_def IP_shift_def IP_rotate_def Let_def mips32
  using assms(1) with_args3 [OF args]
  by - (((simp only: kind_simps bind.bind_lunit)?,
    ((rule functor_steps read_imm_step | assumption | (simp only: word_arith; fail) | (simp add: sx_def; fail))+; fail))[1])+

lemma unary_functors:
  assumes "rep mc s" and args: "with_args insn [Gpr rd, Gpr rs]"
  shows "succeeds (IP_clo (Mips32 bo ar) insn ds mc) (\<lambda>mc'. rep mc' (set_gpr s rd (leading_zeros 32 (2 ^ 32 - 1 - gpr s rs))))"
    "succeeds (IP_clz (Mips32 bo ar) insn ds mc) (\<lambda>mc'. rep mc' (set_gpr s rd (leading_zeros 32 (gpr s rs))))"
    "succeeds (IP_seb (Mips32 bo ar) insn ds mc) (\<lambda>mc'. rep mc' (set_gpr s rd (sx 8 (gpr s rs mod 2 ^ 8))))"
    "succeeds (IP_seh (Mips32 bo ar) insn ds mc) (\<lambda>mc'. rep mc' (set_gpr s rd (sx 16 (gpr s rs mod 2 ^ 16))))"
  unfolding IP_clo_def IP_clz_def IP_seb_def IP_seh_def Let_def mips32 using assms(1) with_args2 [OF args]
  by - ((rule functor_steps read_width_step | assumption | (simp only: word_arith; fail) | (simp; fail))+)[4]

lemma move_functors:
  assumes "rep mc s" and args: "with_args insn [Gpr rd, Gpr rs, Gpr rt]"
  shows "get_kind insn = mips_movz \<Longrightarrow>
      succeeds (IP_movn (Mips32 bo ar) insn ds mc) (\<lambda>mc'. rep mc' (set_gpr s rd (if gpr s rt = 0 then gpr s rs else gpr s rd)))"
    "get_kind insn = mips_movn \<Longrightarrow>
      succeeds (IP_movn (Mips32 bo ar) insn ds mc) (\<lambda>mc'. rep mc' (set_gpr s rd (if gpr s rt = 0 then gpr s rd else gpr s rs)))"
  unfolding IP_movn_def Let_def mips32 using assms(1) with_args3 [OF args]
  by - ((simp only: kind_simps)?, (rule functor_steps ite_step | assumption | (simp; fail))+)+

section \<open>Trapping arithmetic\<close>

lemma raise_result:
  assumes "rep mc s" "sv_is c 1 (of_bool z)" "(if z then cleared s else s) = s'"
  shows "succeeds (raiseInterrupt mc c) (\<lambda>mc'. rep mc' s')"
  using raise_is [OF assms(1,2)] assms(3) by simp

lemma trap_state:
  assumes "- (2 ^ 32) \<le> k" "k < 2 ^ 32" "X = nat (k mod 2 ^ (32 + 1))" "v = nat (k mod 2 ^ 32)"
  shows "(if (of_bool (bit X 31) :: nat) \<noteq> of_bool (bit X 32)
      then cleared (set_gpr s rd (if (of_bool (bit X 31) :: nat) \<noteq> of_bool (bit X 32) then old else v))
      else set_gpr s rd (if (of_bool (bit X 31) :: nat) \<noteq> of_bool (bit X 32) then old else v)) = trapped s rd k"
  using overflow_bits [OF assms(1,2), folded assms(3)] by (auto simp: trapped_def assms(4))

lemma trap_tail:
  assumes "rep mc s" "arg insn 0 (Gpr rd)" "sv_is w (32 + 1) X" "sv_is v 32 z"
    "X = nat (k mod 2 ^ (32 + 1))" "z = nat (k mod 2 ^ 32)" "- (2 ^ 32) \<le> k" "k < 2 ^ 32"
  shows "succeeds (do {
      wideSum32 \<leftarrow> Concrete_extract w 32 33;
      wideSum31 \<leftarrow> Concrete_extract w 31 32;
      overflow \<leftarrow> ops_isNotEqual concrete_ops wideSum31 wideSum32;
      (oldRd, mc) \<leftarrow> read_arg (Mips32 bo ar) insn 0 32 mc;
      result \<leftarrow> Concrete_ite overflow oldRd v;
      mc \<leftarrow> write_arg (Mips32 bo ar) insn 0 result mc;
      raiseInterrupt mc overflow
    }) (\<lambda>mc'. rep mc' (trapped s rd k))"
  using assms(1-4)
  by - (rule extract_bit_step ite_step read_width_step value_steps write_gpr_arg [THEN succeeds_bind] raise_result
      trap_state [OF assms(7,8,5,6)] | assumption | (simp; fail))+

lemma word_sum: "x < 2 ^ 32 \<Longrightarrow> (x + nat (k mod 2 ^ 32)) mod 2 ^ 32 = nat ((sw x + k) mod 2 ^ 32)"
  using wide_add [of "sw x" 32 k] word_of_signed [of 32 x] by simp

lemma word_difference: "x < 2 ^ 32 \<Longrightarrow> y < 2 ^ 32 \<Longrightarrow> (x + (2 ^ 32 - y)) mod 2 ^ 32 = nat ((sw x - sw y) mod 2 ^ 32)"
  using wide_sub [of "sw x" 32 "sw y"] word_of_signed [of 32 x] word_of_signed [of 32 y] by simp

lemma trap_functors:
  assumes "rep mc s" and args: "with_args insn [Gpr rd, Gpr rs, Gpr rt]"
  shows "succeeds (IP_add (Mips32 bo ar) insn ds mc) (\<lambda>mc'. rep mc' (trapped s rd (sw (gpr s rs) + sw (gpr s rt))))"
    "succeeds (IP_sub (Mips32 bo ar) insn ds mc) (\<lambda>mc'. rep mc' (trapped s rd (sw (gpr s rs) - sw (gpr s rt))))"
proof -
  have less: "gpr s rs < 2 ^ 32" "gpr s rt < 2 ^ 32" using with_args3 [OF args] gpr_less by simp_all
  note r = signed_word_range [OF less(1)] signed_word_range [OF less(2)]
  have sum: "(gpr s rs + gpr s rt) mod 2 ^ 32 = nat ((sw (gpr s rs) + sw (gpr s rt)) mod 2 ^ 32)"
    using word_sum [OF less(1), of "sw (gpr s rt)"] word_of_signed [of 32 "gpr s rt"] less(2) by simp
  show "succeeds (IP_add (Mips32 bo ar) insn ds mc) (\<lambda>mc'. rep mc' (trapped s rd (sw (gpr s rs) + sw (gpr s rt))))"
    unfolding IP_add_def Let_def mips32 using assms(1) with_args3 [OF args]
    by - (rule args_step read_gpr_step value_steps trap_tail wide_add sum | assumption | (use r in simp; fail))+
  show "succeeds (IP_sub (Mips32 bo ar) insn ds mc) (\<lambda>mc'. rep mc' (trapped s rd (sw (gpr s rs) - sw (gpr s rt))))"
    unfolding IP_sub_def Let_def mips32 using assms(1) with_args3 [OF args]
    by - (rule args_step read_gpr_step value_steps trap_tail wide_sub word_difference [OF less] | assumption | (use r in simp; fail))+
qed

lemma addi_functor:
  assumes "rep mc s" and args: "with_args insn [Gpr rd, Gpr rs, Imm t y]" and t: "t \<le> 32"
  shows "succeeds (IP_addi (Mips32 bo ar) insn ds mc) (\<lambda>mc'. rep mc' (trapped s rd (sw (gpr s rs) + signed_of t y)))"
proof -
  have less: "gpr s rs < 2 ^ 32" using with_args3 [OF args] gpr_less by simp
  have y: "y < 2 ^ t" "0 < t" using with_args3 [OF args] by simp_all
  have p: "(2 :: int) ^ (t - 1) \<le> 2 ^ 31" using t by (intro power_increasing) auto
  have "- (2 ^ 31) \<le> signed_of t y" "signed_of t y < 2 ^ 31" using signed_of_range [OF y] p by auto
  note r = signed_word_range [OF less] this
  have sum: "(gpr s rs mod 2 ^ 32 + nat (signed_of t y mod 2 ^ 32)) mod 2 ^ 32 = nat ((sw (gpr s rs) + signed_of t y) mod 2 ^ 32)"
    using word_sum [OF less] less by simp
  show ?thesis
    unfolding IP_addi_def Let_def mips32 using assms(1) with_args3 [OF args]
    by - (rule args_step read_gpr_step read_imm_step read_width_step value_steps trap_tail wide_add sum | assumption | (use r in simp; fail))+
qed

section \<open>The registers HI and LO\<close>

lemma special_steps:
  assumes "rep mc s" "r \<in> {REG_HI, REG_LO, REG_PC}"
  shows "(\<And>v mc. sv_is v 32 (get_reg s r) \<Longrightarrow> rep mc s \<Longrightarrow> succeeds (f v mc) Q) \<Longrightarrow>
      succeeds (readRegister1 mc r \<bind> (\<lambda>(v, mc). f v mc)) Q"
    "sv_is v 32 x \<Longrightarrow> succeeds (ops_writeRegister mc r v) (\<lambda>mc'. rep mc' (set_reg s r x))"
proof -
  have r: "reg_nBits r = 32" "0 < reg_nBits r" "reg_ok r" using assms(2) by auto
  show "succeeds (readRegister1 mc r \<bind> (\<lambda>(v, mc). f v mc)) Q"
    if "\<And>v mc. sv_is v 32 (get_reg s r) \<Longrightarrow> rep mc s \<Longrightarrow> succeeds (f v mc) Q"
    by (rule read_reg_step [OF assms(1) r(2,3)]) (use that r(1) in simp)
  show "succeeds (ops_writeRegister mc r v) (\<lambda>mc'. rep mc' (set_reg s r x))" if "sv_is v 32 x"
    using write_reg [OF assms(1) r(2,3)] that r(1) by simp
qed

lemmas write_special_step = special_steps(2) [THEN succeeds_bind]

lemma write_special:
  assumes "rep mc s" "r \<in> {REG_HI, REG_LO, REG_PC}" "sv_is v 32 x" "set_reg s r x = s'"
  shows "succeeds (ops_writeRegister mc r v) (\<lambda>mc'. rep mc' s')"
  using special_steps(2) [OF assms(1-3)] assms(4) by simp

lemma hilo_tail:
  assumes "rep mc s" "sv_is w (32 + 32) z"
  shows "succeeds (do {
      hi \<leftarrow> Concrete_extract w 32 64;
      hi \<leftarrow> Concrete_signExtend hi 32;
      lo \<leftarrow> Concrete_extract w 0 32;
      lo \<leftarrow> Concrete_signExtend lo 32;
      mc \<leftarrow> ops_writeRegister mc REG_HI hi;
      ops_writeRegister mc REG_LO lo
    }) (\<lambda>mc'. rep mc' (set_hilo s z))"
  using assms
  by - (rule extract_high_step extract_low_step word_extend_step write_special_step write_special | assumption | (simp add: set_hilo_def; fail))+

lemma hilo_result:
  assumes "rep mc s" "sv_is w (32 + 32) z" "z = z'"
  shows "succeeds (do {
      hi \<leftarrow> Concrete_extract w 32 64;
      hi \<leftarrow> Concrete_signExtend hi 32;
      lo \<leftarrow> Concrete_extract w 0 32;
      lo \<leftarrow> Concrete_signExtend lo 32;
      mc \<leftarrow> ops_writeRegister mc REG_HI hi;
      ops_writeRegister mc REG_LO lo
    }) (\<lambda>mc'. rep mc' (set_hilo s z'))"
  using hilo_tail [OF assms(1,2)] assms(3) by simp

lemma mult_functors:
  assumes "rep mc s" and args: "with_args insn [Gpr rs, Gpr rt]"
  shows "get_kind insn = mips_mult \<Longrightarrow> succeeds (IP_mult_su (Mips32 bo ar) insn ds mc)
      (\<lambda>mc'. rep mc' (set_hilo s (nat ((sw (gpr s rs) * sw (gpr s rt)) mod 2 ^ 64))))"
    "get_kind insn = mips_multu \<Longrightarrow> succeeds (IP_mult_su (Mips32 bo ar) insn ds mc)
      (\<lambda>mc'. rep mc' (set_hilo s (gpr s rs * gpr s rt)))"
    "succeeds (IP_madd (Mips32 bo ar) insn ds mc)
      (\<lambda>mc'. rep mc' (set_hilo s ((hilo s + nat ((sw (gpr s rs) * sw (gpr s rt)) mod 2 ^ 64)) mod 2 ^ 64)))"
    "succeeds (IP_maddu (Mips32 bo ar) insn ds mc) (\<lambda>mc'. rep mc' (set_hilo s ((hilo s + gpr s rs * gpr s rt) mod 2 ^ 64)))"
    "get_kind insn = mips_msub \<Longrightarrow> succeeds (IP_msub_su (Mips32 bo ar) insn ds mc)
      (\<lambda>mc'. rep mc' (set_hilo s ((hilo s + (2 ^ 64 - nat ((sw (gpr s rs) * sw (gpr s rt)) mod 2 ^ 64))) mod 2 ^ 64)))"
    "get_kind insn = mips_msubu \<Longrightarrow> succeeds (IP_msub_su (Mips32 bo ar) insn ds mc)
      (\<lambda>mc'. rep mc' (set_hilo s ((hilo s + (2 ^ 64 - gpr s rs * gpr s rt)) mod 2 ^ 64)))"
  unfolding IP_mult_su_def IP_madd_def IP_maddu_def IP_msub_su_def Let_def mips32 using assms(1) with_args2 [OF args]
  by - (((simp only: kind_simps)?, ((rule hilo_result args_step read_gpr_step special_steps(1) concat_step value_steps | assumption | (simp add: hilo_def; fail))+; fail))[1])+

lemma divide_functors:
  assumes "rep mc s" and args: "with_args insn [Gpr rs, Gpr rt]" and y: "gpr s rt \<noteq> 0"
  shows "succeeds (IP_div (Mips32 bo ar) insn ds mc) (\<lambda>mc'. rep mc' (set_lo_hi s
        (nat ((sw (gpr s rs) sdiv sw (gpr s rt)) mod 2 ^ 32)) (nat ((sw (gpr s rs) smod sw (gpr s rt)) mod 2 ^ 32))))"
    "succeeds (IP_divu (Mips32 bo ar) insn ds mc) (\<lambda>mc'. rep mc' (set_lo_hi s (gpr s rs div gpr s rt) (gpr s rs mod gpr s rt)))"
  unfolding IP_div_def IP_divu_def set_lo_hi_def using assms(1) with_args2 [OF args] y
  by - (((rule args_step read_gpr_step value_steps write_special_step write_special | assumption | (simp; fail))+; fail)[1])+

lemma hilo_moves:
  assumes "rep mc s" and args: "with_args insn [Gpr r]"
  shows "get_kind insn = mips_mfhi \<Longrightarrow> succeeds (IP_mfhi (Mips32 bo ar) insn ds mc) (\<lambda>mc'. rep mc' (set_gpr s r (get_reg s REG_HI)))"
    "get_kind insn = mips_mthi \<Longrightarrow> succeeds (IP_mfhi (Mips32 bo ar) insn ds mc) (\<lambda>mc'. rep mc' (set_reg s REG_HI (gpr s r)))"
    "get_kind insn = mips_mflo \<Longrightarrow> succeeds (IP_mflo (Mips32 bo ar) insn ds mc) (\<lambda>mc'. rep mc' (set_gpr s r (get_reg s REG_LO)))"
    "get_kind insn = mips_mtlo \<Longrightarrow> succeeds (IP_mflo (Mips32 bo ar) insn ds mc) (\<lambda>mc'. rep mc' (set_reg s REG_LO (gpr s r)))"
  unfolding IP_mfhi_def IP_mflo_def using assms(1) with_args1 [OF args]
  by - (((simp only: kind_simps)?, ((rule args_step read_gpr_step special_steps write_result | assumption | (simp; fail))+; fail))[1])+

section \<open>Loads and stores\<close>

lemma load_functors:
  assumes "rep mc s" and args: "with_args insn [Gpr rt, Mem b off n]"
  shows "succeeds (IP_lb (Mips32 bo ar) insn ds mc) (\<lambda>mc'. rep mc' (set_gpr s rt (sx (8 * n) (get_mem s (mem_addr s b off) n))))"
    "succeeds (IP_lbu (Mips32 bo ar) insn ds mc) (\<lambda>mc'. rep mc' (set_gpr s rt (get_mem s (mem_addr s b off) n mod 2 ^ 32)))"
  unfolding IP_lb_def IP_lbu_def Let_def mips32 using assms(1) with_args2 [OF args]
  by - (((rule args_step read_mem_step value_steps write_result | assumption | (simp only: sx_def; fail) | (simp; fail))+; fail)[1])+

lemma lui_functor:
  assumes "rep mc s" and args: "with_args insn [Gpr rt, Imm 16 y]"
  shows "succeeds (IP_lui (Mips32 bo ar) insn ds mc) (\<lambda>mc'. rep mc' (set_gpr s rt (2 ^ 16 * y)))"
proof -
  have y: "y < 2 ^ 16" using with_args2 [OF args] by simp
  have "nat (sw (2 ^ 16 * y) mod 2 ^ 32) = 2 ^ 16 * y" using word_of_signed [of 32 "2 ^ 16 * y"] y by simp
  then show ?thesis unfolding IP_lui_def Let_def mips32 using assms(1) with_args2 [OF args]
    by - (rule args_step read_imm_step concat_step value_steps write_result | assumption | (simp; fail))+
qed

lemma store_functor:
  assumes "rep mc s" and args: "with_args insn [Gpr rt, Mem b off n]" and w: "store_width (get_kind insn) = Some (8 * m)" "0 < m"
  shows "succeeds (IP_store (Mips32 bo ar) insn ds mc) (\<lambda>mc'. rep mc' (set_mem s (mem_addr s b off) m (gpr s rt mod 2 ^ (8 * m))))"
  unfolding IP_store_def w(1) bind.bind_lunit using assms(1) with_args2 [OF args] w(2)
  by - (rule args_step read_width_step write_mem_arg | assumption | (simp; fail))+

lemma plain_functors:
  assumes "rep mc s" and args: "with_args insn []"
  shows "succeeds (IP_nop (Mips32 bo ar) insn ds mc) (\<lambda>mc'. rep mc' s)" "succeeds (IP_ehb (Mips32 bo ar) insn ds mc) (\<lambda>mc'. rep mc' s)"
    "succeeds (IP_break (Mips32 bo ar) insn ds mc) (\<lambda>mc'. rep mc' (cleared s))"
  unfolding IP_nop_def IP_ehb_def IP_break_def using assms(1) with_args_length [OF args]
  by - (((rule args_step value_steps raise_result | assumption | (simp; fail))+; fail)[1])+

section \<open>Control transfer\<close>

text \<open>In each lemma \<open>s\<close> is the state that the delay slot leaves.\<close>

lemma link_step:
  assumes "rep mc s" "i < 32" "\<And>mc'. rep mc' (set_gpr s i (unat (get_address insn + 8) mod 2 ^ 32)) \<Longrightarrow> succeeds (f mc') Q"
  shows "succeeds (link_value (Mips32 bo ar) insn \<bind> ops_writeRegister mc (mips_gpr i) \<bind> f) Q"
proof (rule succeeds_bind)
  show "succeeds (link_value (Mips32 bo ar) insn \<bind> ops_writeRegister mc (mips_gpr i))
      (\<lambda>mc'. rep mc' (set_gpr s i (unat (get_address insn + 8) mod 2 ^ 32)))"
  proof (rule succeeds_bind [OF link_is])
    fix v assume "sv_is v 32 (unat (get_address insn + 8) mod 2 ^ 32)"
    then show "succeeds (ops_writeRegister mc (mips_gpr i) v) (\<lambda>mc'. rep mc' (set_gpr s i (unat (get_address insn + 8) mod 2 ^ 32)))"
      using write_reg [OF assms(1), of "mips_gpr i" v] assms(2) by (simp add: set_gpr_def)
  qed
qed (rule assms(3))

lemma no_link_step: "succeeds (f mc) Q \<Longrightarrow> succeeds (Some mc \<bind> f) Q"
  by simp

lemmas branch_steps = args_step read_gpr_step read_imm_step special_steps(1) ite_step value_steps write_special

lemma jump_functors:
  assumes slot: "succeeds (ds mc) (\<lambda>mc. rep mc s)" and args: "with_args insn [Imm 32 target]"
  shows "get_kind insn = mips_b \<Longrightarrow> succeeds (IP_b (Mips32 bo ar) insn ds mc) (\<lambda>mc'. rep mc' (set_reg s REG_PC target))"
    "get_kind insn = mips_bal \<Longrightarrow> succeeds (IP_b (Mips32 bo ar) insn ds mc)
      (\<lambda>mc'. rep mc' (set_reg (set_gpr s 31 (unat (get_address insn + 8) mod 2 ^ 32)) REG_PC target))"
    "get_kind insn = mips_j \<Longrightarrow> succeeds (IP_j (Mips32 bo ar) insn ds mc) (\<lambda>mc'. rep mc' (set_reg s REG_PC target))"
    "get_kind insn \<in> {mips_jal, mips_jalx} \<Longrightarrow> succeeds (IP_j (Mips32 bo ar) insn ds mc)
      (\<lambda>mc'. rep mc' (set_reg (set_gpr s 31 (unat (get_address insn + 8) mod 2 ^ 32)) REG_PC target))"
  unfolding IP_b_def IP_j_def mips32 special_fields using with_args1 [OF args]
  by - (((simp only: kind_simps)?, (elim disjE)?; ((simp only: kind_simps)?, rule args_step, assumption, rule succeeds_bind [OF slot],
    ((rule link_step no_link_step branch_steps | assumption | (simp; fail))+; fail)))[1])+

lemma beq_functors:
  assumes slot: "succeeds (ds mc) (\<lambda>mc. rep mc s)" and args: "with_args insn [Gpr rs, Gpr rt, Imm 32 target]"
  shows "get_kind insn = mips_beq \<Longrightarrow> succeeds (IP_beq (Mips32 bo ar) insn ds mc)
      (\<lambda>mc'. rep mc' (set_reg s REG_PC (if gpr s rs = gpr s rt then target else get_reg s REG_PC)))"
    "get_kind insn = mips_bne \<Longrightarrow> succeeds (IP_beq (Mips32 bo ar) insn ds mc)
      (\<lambda>mc'. rep mc' (set_reg s REG_PC (if gpr s rs \<noteq> gpr s rt then target else get_reg s REG_PC)))"
  unfolding IP_beq_def mips32 using with_args3 [OF args]
  by - ((simp only: kind_simps, rule args_step, assumption, rule succeeds_bind [OF slot],
    ((rule branch_steps | assumption | (simp; fail))+; fail))[1])+

lemma bgez_functors:
  assumes slot: "succeeds (ds mc) (\<lambda>mc. rep mc s)" and args: "with_args insn [Gpr rs, Imm 32 target]"
  shows "get_kind insn = mips_bgez \<Longrightarrow> succeeds (IP_bgez (Mips32 bo ar) insn ds mc)
      (\<lambda>mc'. rep mc' (set_reg s REG_PC (if 0 \<le> sw (gpr s rs) then target else get_reg s REG_PC)))"
    "get_kind insn = mips_bgtz \<Longrightarrow> succeeds (IP_bgez (Mips32 bo ar) insn ds mc)
      (\<lambda>mc'. rep mc' (set_reg s REG_PC (if 0 < sw (gpr s rs) then target else get_reg s REG_PC)))"
    "get_kind insn = mips_blez \<Longrightarrow> succeeds (IP_bgez (Mips32 bo ar) insn ds mc)
      (\<lambda>mc'. rep mc' (set_reg s REG_PC (if sw (gpr s rs) \<le> 0 then target else get_reg s REG_PC)))"
    "get_kind insn = mips_bltz \<Longrightarrow> succeeds (IP_bgez (Mips32 bo ar) insn ds mc)
      (\<lambda>mc'. rep mc' (set_reg s REG_PC (if sw (gpr s rs) < 0 then target else get_reg s REG_PC)))"
    "s1 = set_gpr s 31 (unat (get_address insn + 8) mod 2 ^ 32) \<Longrightarrow> get_kind insn = mips_bgezal \<Longrightarrow> succeeds (IP_bgez (Mips32 bo ar) insn ds mc)
      (\<lambda>mc'. rep mc' (set_reg s1 REG_PC (if 0 \<le> sw (gpr s1 rs) then target else get_reg s1 REG_PC)))"
    "s1 = set_gpr s 31 (unat (get_address insn + 8) mod 2 ^ 32) \<Longrightarrow> get_kind insn = mips_bltzal \<Longrightarrow> succeeds (IP_bgez (Mips32 bo ar) insn ds mc)
      (\<lambda>mc'. rep mc' (set_reg s1 REG_PC (if sw (gpr s1 rs) < 0 then target else get_reg s1 REG_PC)))"
  unfolding IP_bgez_def Let_def mips32 special_fields using with_args2 [OF args]
  by - ((simp only: kind_simps, rule args_step, assumption, rule succeeds_bind [OF slot],
    ((rule link_step no_link_step branch_steps | assumption | (simp add: signed_of_def; fail))+; fail))[1])+

lemma jr_functor:
  assumes slot: "succeeds (ds mc) (\<lambda>mc. rep mc s)" and args: "with_args insn [Gpr rs]"
  shows "succeeds (IP_jr (Mips32 bo ar) insn ds mc) (\<lambda>mc'. rep mc' (set_reg s REG_PC (gpr s rs)))"
  unfolding IP_jr_def mips32 using with_args1 [OF args]
  by - (rule args_step, assumption, rule succeeds_bind [OF slot], (rule branch_steps | assumption | (simp; fail))+)

lemma jalr_functor:
  assumes slot: "succeeds (ds mc) (\<lambda>mc. rep mc s)" and args: "with_args insn [Gpr rd, Gpr rs]"
    and s1: "s1 = set_gpr s (if rd = 0 then 31 else rd) (unat (get_address insn + 8) mod 2 ^ 32)"
  shows "succeeds (IP_jalr (Mips32 bo ar) insn ds mc) (\<lambda>mc'. rep mc' (set_reg s1 REG_PC (gpr s1 rs)))"
proof -
  have rd: "rd < 32" "operands insn ! 0 = gpr_expr rd" using with_args2 [OF args] by (simp_all add: arg_def)
  have reg: "(if majorNumber (mips_gpr rd) = 0 \<and> minorNumber (mips_gpr rd) = 0 then REG_RA else mips_gpr rd) =
      mips_gpr (if rd = 0 then 31 else rd)" using rd(1) by simp
  show ?thesis
    unfolding IP_jalr_def mips32 rd(2) gpr_expr_def asm_expr.case Let_def reg s1 using with_args2 [OF args]
    by - (rule args_step, assumption, rule succeeds_bind [OF slot], (rule link_step branch_steps | assumption | (use rd(1) in simp; fail))+)
qed

end

end
