(* ===== verification/Mips_Refinement.thy ===== *)
theory Mips_Refinement
  imports Mips_Functors
begin

text \<open>
  The instruction set as a function on abstract machines, and the proof that processing an instruction,
  with the instruction in its delay slot, implements that function.
\<close>

section \<open>The instruction set\<close>

datatype ainsn = AInsn (ai_kind: mips_kind) (ai_address: "64 word") (ai_size: "64 word")
  (ai_operands: "operand list") (ai_slot: "ainsn option")

fun encode :: "ainsn \<Rightarrow> mips_insn" where
  "encode (AInsn k a n ps None) = Insn k a n (map operand_expr ps) None"
| "encode (AInsn k a n ps (Some inner)) = Insn k a n (map operand_expr ps) (Some (encode inner))"

fun ainsn_ok :: "ainsn \<Rightarrow> bool" where
  "ainsn_ok (AInsn k a n ps None) \<longleftrightarrow> (\<forall>p\<in>set ps. operand_ok p)"
| "ainsn_ok (AInsn k a n ps (Some inner)) \<longleftrightarrow> (\<forall>p\<in>set ps. operand_ok p) \<and> ainsn_ok inner"

definition loads_signed :: "mips_kind \<Rightarrow> bool" where
  "loads_signed k \<longleftrightarrow> k \<in> {mips_lb, mips_lbe, mips_lh, mips_lhe, mips_lw, mips_lwe}"

definition loads_unsigned :: "mips_kind \<Rightarrow> bool" where
  "loads_unsigned k \<longleftrightarrow> k \<in> {mips_lbu, mips_lbue, mips_lhu, mips_lhue}"

text \<open>Instructions without a delay slot.\<close>

fun exec :: "mips_kind \<Rightarrow> operand list \<Rightarrow> astate \<Rightarrow> astate option" where
  "exec k [Gpr rd, Gpr rs, Gpr rt] s = (case alu k of
      Some f \<Rightarrow> Some (set_gpr s rd (f (gpr s rs) (gpr s rt)))
    | None \<Rightarrow>
        if k = mips_add then Some (trapped s rd (sw (gpr s rs) + sw (gpr s rt)))
        else if k = mips_sub then Some (trapped s rd (sw (gpr s rs) - sw (gpr s rt)))
        else if k = mips_movz then Some (set_gpr s rd (if gpr s rt = 0 then gpr s rs else gpr s rd))
        else if k = mips_movn then Some (set_gpr s rd (if gpr s rt = 0 then gpr s rd else gpr s rs))
        else None)"
| "exec k [Gpr rd, Gpr rs, Imm t y] s = (case alu_imm k of
      Some f \<Rightarrow> Some (set_gpr s rd (f (gpr s rs) t y))
    | None \<Rightarrow> if k = mips_addi \<and> t \<le> 32 then Some (trapped s rd (sw (gpr s rs) + signed_of t y)) else None)"
| "exec k [Gpr a, Gpr b] s = (case alu_unary k of
      Some f \<Rightarrow> Some (set_gpr s a (f (gpr s b)))
    | None \<Rightarrow> (case multiply_op k of
        Some f \<Rightarrow> Some (set_hilo s (f (hilo s) (gpr s a) (gpr s b)))
      | None \<Rightarrow>
          if gpr s b = 0 then None
          else if k = mips_div then Some (set_lo_hi s (nat ((sw (gpr s a) sdiv sw (gpr s b)) mod 2 ^ 32)) (nat ((sw (gpr s a) smod sw (gpr s b)) mod 2 ^ 32)))
          else if k = mips_divu then Some (set_lo_hi s (gpr s a div gpr s b) (gpr s a mod gpr s b))
          else None))"
| "exec k [Gpr r] s =
     (if k = mips_mfhi then Some (set_gpr s r (get_reg s REG_HI))
      else if k = mips_mthi then Some (set_reg s REG_HI (gpr s r))
      else if k = mips_mflo then Some (set_gpr s r (get_reg s REG_LO))
      else if k = mips_mtlo then Some (set_reg s REG_LO (gpr s r))
      else None)"
| "exec k [Gpr rt, Imm t y] s = (if k = mips_lui \<and> t = 16 then Some (set_gpr s rt (2 ^ 16 * y)) else None)"
| "exec k [Gpr rt, Mem b off n] s =
     (if loads_signed k then Some (set_gpr s rt (sx (8 * n) (get_mem s (mem_addr s b off) n)))
      else if loads_unsigned k then Some (set_gpr s rt (get_mem s (mem_addr s b off) n mod 2 ^ 32))
      else map_option (\<lambda>w. set_mem s (mem_addr s b off) (w div 8) (gpr s rt mod 2 ^ w)) (store_width k))"
| "exec k [] s =
     (if k \<in> {mips_nop, mips_ssnop, mips_ehb} then Some s
      else if k = mips_break then Some (cleared s)
      else None)"
| "exec k _ s = None"

text \<open>Control transfers, from the state that the delay slot leaves.\<close>

definition linked :: "astate \<Rightarrow> nat \<Rightarrow> 64 word \<Rightarrow> astate" where
  "linked s i a = set_gpr s i (unat (a + 8) mod 2 ^ 32)"

definition branch_if :: "astate \<Rightarrow> bool \<Rightarrow> nat \<Rightarrow> astate" where
  "branch_if s c target = set_reg s REG_PC (if c then target else get_reg s REG_PC)"

fun branch :: "mips_kind \<Rightarrow> 64 word \<Rightarrow> operand list \<Rightarrow> astate \<Rightarrow> astate option" where
  "branch k a [Imm t target] s =
     (if t \<noteq> 32 then None
      else if k \<in> {mips_b, mips_j} then Some (set_reg s REG_PC target)
      else if k \<in> {mips_bal, mips_jal, mips_jalx} then Some (set_reg (linked s 31 a) REG_PC target)
      else None)"
| "branch k a [Gpr rs, Gpr rt, Imm t target] s =
     (if t \<noteq> 32 then None
      else if k = mips_beq then Some (branch_if s (gpr s rs = gpr s rt) target)
      else if k = mips_bne then Some (branch_if s (gpr s rs \<noteq> gpr s rt) target)
      else None)"
| "branch k a [Gpr rs, Imm t target] s =
     (if t \<noteq> 32 then None
      else if k = mips_bgez then Some (branch_if s (0 \<le> sw (gpr s rs)) target)
      else if k = mips_bgtz then Some (branch_if s (0 < sw (gpr s rs)) target)
      else if k = mips_blez then Some (branch_if s (sw (gpr s rs) \<le> 0) target)
      else if k = mips_bltz then Some (branch_if s (sw (gpr s rs) < 0) target)
      else if k = mips_bgezal then Some (branch_if (linked s 31 a) (0 \<le> sw (gpr (linked s 31 a) rs)) target)
      else if k = mips_bltzal then Some (branch_if (linked s 31 a) (sw (gpr (linked s 31 a) rs) < 0) target)
      else None)"
| "branch k a [Gpr rs] s = (if k \<in> {mips_jr, mips_jr_hb} then Some (set_reg s REG_PC (gpr s rs)) else None)"
| "branch k a [Gpr rd, Gpr rs] s =
     (if k \<in> {mips_jalr, mips_jalr_hb}
      then Some (set_reg (linked s (if rd = 0 then 31 else rd) a) REG_PC (gpr (linked s (if rd = 0 then 31 else rd) a) rs))
      else None)"
| "branch k a _ s = None"

text \<open>
  One instruction. The program counter moves first. The instruction in the delay slot of a control
  transfer is processed before the transfer reads its own operands; a control transfer in a delay slot
  raises the reserved-instruction interrupt, which discards the state.
\<close>

definition advanced :: "astate \<Rightarrow> 64 word \<Rightarrow> 64 word \<Rightarrow> astate" where
  "advanced s a n = set_reg s REG_PC (unat (a + n) mod 2 ^ 32)"

fun astep :: "ainsn \<Rightarrow> astate \<Rightarrow> astate option" where
  "astep (AInsn k a n ps None) s = exec k ps (advanced s a n)"
| "astep (AInsn k a n ps (Some inner)) s =
     (if isControlTransfer k then do {
        s \<leftarrow> astep inner (if isControlTransfer (ai_kind inner) then cleared (advanced s a n) else advanced s a n);
        branch k a ps s
      } else exec k ps (advanced s a n))"

fun asteps :: "ainsn list \<Rightarrow> astate \<Rightarrow> astate option" where
  "asteps [] s = Some s"
| "asteps (i # js) s = do { s \<leftarrow> astep i s; asteps js s }"

section \<open>The dispatch table\<close>

lemma fold_iprocSet:
  "distinct (map fst xs) \<Longrightarrow> fold (\<lambda>(key, iproc). iprocSet key iproc) xs t k = (case map_of xs k of None \<Rightarrow> t k | Some p \<Rightarrow> Some p)"
  by (induction xs arbitrary: t) (force simp: iprocSet_def split: option.split dest: map_of_SomeD)+

lemma dispatch_entries_distinct: "distinct (map fst dispatch_entries)"
  by (simp add: dispatch_entries_def)

lemma dispatch_lookup: "iprocLookup k = map_of dispatch_entries k"
  by (simp add: iprocLookup_def iprocGet_def initializeDispatchTable_def fold_iprocSet [OF dispatch_entries_distinct] split: option.split)

lemma map_of_step: "map_of ((a, b) # xs) k = (if k = a then Some b else map_of xs k)"
  by simp

lemmas table_lookup = dispatch_lookup dispatch_entries_def map_of_step

lemma dispatch_table:
  "iprocLookup mips_add = Some IP_add" "iprocLookup mips_addi = Some IP_addi" "iprocLookup mips_addiu = Some IP_addiu"
  "iprocLookup mips_addu = Some IP_addu" "iprocLookup mips_and = Some IP_and" "iprocLookup mips_andi = Some IP_andi" "iprocLookup mips_b = Some IP_b"
  "iprocLookup mips_bal = Some IP_b" "iprocLookup mips_beq = Some IP_beq" "iprocLookup mips_bgez = Some IP_bgez"
  "iprocLookup mips_bgezal = Some IP_bgez" "iprocLookup mips_bgtz = Some IP_bgez" "iprocLookup mips_blez = Some IP_bgez"
  "iprocLookup mips_bltz = Some IP_bgez" "iprocLookup mips_bltzal = Some IP_bgez" "iprocLookup mips_bne = Some IP_beq"
  "iprocLookup mips_break = Some IP_break" "iprocLookup mips_clo = Some IP_clo" "iprocLookup mips_clz = Some IP_clz"
  "iprocLookup mips_div = Some IP_div" "iprocLookup mips_divu = Some IP_divu" "iprocLookup mips_ehb = Some IP_ehb" "iprocLookup mips_j = Some IP_j"
  "iprocLookup mips_jal = Some IP_j" "iprocLookup mips_jalr = Some IP_jalr" "iprocLookup mips_jalr_hb = Some IP_jalr"
  "iprocLookup mips_jalx = Some IP_j" "iprocLookup mips_jr = Some IP_jr" "iprocLookup mips_jr_hb = Some IP_jr" "iprocLookup mips_lb = Some IP_lb"
  "iprocLookup mips_lbe = Some IP_lb" "iprocLookup mips_lbu = Some IP_lbu" "iprocLookup mips_lbue = Some IP_lbu" "iprocLookup mips_lh = Some IP_lb"
  "iprocLookup mips_lhe = Some IP_lb" "iprocLookup mips_lhu = Some IP_lbu" "iprocLookup mips_lhue = Some IP_lbu" "iprocLookup mips_lui = Some IP_lui"
  "iprocLookup mips_lw = Some IP_lb" "iprocLookup mips_lwc1 = Some IP_lwc1" "iprocLookup mips_lwe = Some IP_lb" "iprocLookup mips_lwl = Some IP_lwl"
  "iprocLookup mips_lwr = Some IP_lwr" "iprocLookup mips_madd = Some IP_madd" "iprocLookup mips_maddu = Some IP_maddu"
  "iprocLookup mips_mfc0 = Some IP_mfc0" "iprocLookup mips_mfc1 = Some IP_mfc1" "iprocLookup mips_mfc2 = Some IP_mfc2"
  "iprocLookup mips_mfhi = Some IP_mfhi" "iprocLookup mips_mflo = Some IP_mflo" "iprocLookup mips_mov_s = Some IP_mov_s"
  "iprocLookup mips_mov_d = Some IP_mov_d" "iprocLookup mips_mov_ps = Some IP_mov_ps" "iprocLookup mips_movf = Some IP_movf"
  "iprocLookup mips_movf_s = Some IP_movf_s" "iprocLookup mips_movf_d = Some IP_movf_d" "iprocLookup mips_movf_ps = Some IP_movf_ps"
  "iprocLookup mips_movn = Some IP_movn" "iprocLookup mips_movt = Some IP_movf" "iprocLookup mips_movz = Some IP_movn"
  "iprocLookup mips_msub = Some IP_msub_su" "iprocLookup mips_msubu = Some IP_msub_su" "iprocLookup mips_mthi = Some IP_mfhi"
  "iprocLookup mips_mtlo = Some IP_mflo" "iprocLookup mips_mul = Some IP_mul" "iprocLookup mips_mult = Some IP_mult_su"
  "iprocLookup mips_multu = Some IP_mult_su" "iprocLookup mips_nop = Some IP_nop" "iprocLookup mips_nor = Some IP_nor"
  "iprocLookup mips_or = Some IP_or" "iprocLookup mips_ori = Some IP_ori" "iprocLookup mips_rdhwr = Some IP_rdhwr"
  "iprocLookup mips_rotr = Some IP_rotate" "iprocLookup mips_rotrv = Some IP_rotate" "iprocLookup mips_sb = Some IP_store"
  "iprocLookup mips_sbe = Some IP_store" "iprocLookup mips_sdc1 = Some IP_store" "iprocLookup mips_seb = Some IP_seb"
  "iprocLookup mips_seh = Some IP_seh" "iprocLookup mips_sh = Some IP_store" "iprocLookup mips_she = Some IP_store"
  "iprocLookup mips_sll = Some IP_shift" "iprocLookup mips_sllv = Some IP_shiftv" "iprocLookup mips_sra = Some IP_shift"
  "iprocLookup mips_srav = Some IP_shiftv" "iprocLookup mips_srl = Some IP_shift" "iprocLookup mips_srlv = Some IP_shiftv"
  "iprocLookup mips_slt = Some IP_slt_su" "iprocLookup mips_sltu = Some IP_slt_su" "iprocLookup mips_slti = Some IP_slti_su"
  "iprocLookup mips_sltiu = Some IP_slti_su" "iprocLookup mips_ssnop = Some IP_nop" "iprocLookup mips_sub = Some IP_sub"
  "iprocLookup mips_subu = Some IP_subu" "iprocLookup mips_suxc1 = Some IP_store" "iprocLookup mips_sw = Some IP_store"
  "iprocLookup mips_swc1 = Some IP_store" "iprocLookup mips_swc2 = Some IP_store" "iprocLookup mips_swe = Some IP_store"
  "iprocLookup mips_swxc1 = Some IP_store" "iprocLookup mips_xor = Some IP_xor" "iprocLookup mips_xori = Some IP_xori"
  unfolding table_lookup by (simp_all only: if_True if_False simp_thms numeral_eq_iff num.inject num.distinct)

section \<open>Instructions without a delay slot\<close>

lemma with_encode: "ainsn_ok i \<Longrightarrow> with_args (encode i) (ai_operands i)"
  by (cases i rule: encode.cases) (auto simp: with_args_def)

lemma encode_sel [simp]: "get_kind (encode i) = ai_kind i" "get_address (encode i) = ai_address i" "get_size (encode i) = ai_size i"
  by (cases i rule: encode.cases; simp)+

text \<open>The functor that an instruction is dispatched to takes the machine to the given state.\<close>

definition runs :: "(machine \<Rightarrow> astate \<Rightarrow> bool) \<Rightarrow> byte_order \<Rightarrow> mips_insn \<Rightarrow> (machine \<Rightarrow> machine option) \<Rightarrow> machine \<Rightarrow> astate \<Rightarrow> bool" where
  "runs rep bo insn ds mc s \<longleftrightarrow> (\<exists>p. iprocLookup (get_kind insn) = Some p \<and> succeeds (p (Mips32 bo True) insn ds mc) (\<lambda>mc'. rep mc' s))"

lemma runsI: "get_kind insn = k \<Longrightarrow> iprocLookup k = Some p \<Longrightarrow> succeeds (p (Mips32 bo True) insn ds mc) (\<lambda>mc'. rep mc' s) \<Longrightarrow> runs rep bo insn ds mc s"
  by (auto simp: runs_def)

context machine_laws
begin

lemma alu_runs:
  assumes "rep mc s" "with_args insn [Gpr rd, Gpr rs, Gpr rt]" "alu (get_kind insn) = Some f"
  shows "runs rep bo insn ds mc (set_gpr s rd (f (gpr s rs) (gpr s rt)))"
  using assms(3) unfolding alu_def
  by (auto simp: runs_def dispatch_table simp del: power_numeral diff_diff_left One_nat_def split: if_splits
    intro: logic_functors [OF assms(1,2)] compare_functors [OF assms(1,2)] shift_functors [OF assms(1,2)])

lemma alu_imm_runs:
  assumes "rep mc s" "with_args insn [Gpr rd, Gpr rs, Imm t y]" "alu_imm (get_kind insn) = Some f"
  shows "runs rep bo insn ds mc (set_gpr s rd (f (gpr s rs) t y))"
  using assms(3) unfolding alu_imm_def
  by (auto simp: runs_def dispatch_table simp del: power_numeral diff_diff_left One_nat_def split: if_splits intro: immediate_functors [OF assms(1,2)])

lemma alu_unary_runs:
  assumes "rep mc s" "with_args insn [Gpr rd, Gpr rs]" "alu_unary (get_kind insn) = Some f"
  shows "runs rep bo insn ds mc (set_gpr s rd (f (gpr s rs)))"
  using assms(3) unfolding alu_unary_def
  by (auto simp: runs_def dispatch_table simp del: power_numeral diff_diff_left One_nat_def split: if_splits intro: unary_functors [OF assms(1,2)])

lemma multiply_runs:
  assumes "rep mc s" "with_args insn [Gpr rs, Gpr rt]" "multiply_op (get_kind insn) = Some f"
  shows "runs rep bo insn ds mc (set_hilo s (f (hilo s) (gpr s rs) (gpr s rt)))"
  using assms(3) unfolding multiply_op_def
  by (auto simp: runs_def dispatch_table simp del: power_numeral diff_diff_left One_nat_def split: if_splits intro: mult_functors [OF assms(1,2)])

lemma three_registers_run:
  assumes "rep mc s" "with_args insn [Gpr rd, Gpr rs, Gpr rt]" "exec (get_kind insn) [Gpr rd, Gpr rs, Gpr rt] s = Some s'"
  shows "runs rep bo insn ds mc s'"
proof (cases "alu (get_kind insn)")
  case None
  with assms(3) move_functors [OF assms(1,2), of bo True ds] show ?thesis
    by (auto simp: runs_def dispatch_table split: if_splits intro: trap_functors [OF assms(1,2)])
next
  case (Some f)
  with assms(3) alu_runs [OF assms(1,2) Some] show ?thesis by simp
qed

lemma immediate_runs:
  assumes "rep mc s" "with_args insn [Gpr rd, Gpr rs, Imm t y]" "exec (get_kind insn) [Gpr rd, Gpr rs, Imm t y] s = Some s'"
  shows "runs rep bo insn ds mc s'"
proof (cases "alu_imm (get_kind insn)")
  case None
  with assms(3) show ?thesis
    by (auto simp: runs_def dispatch_table split: if_splits intro: addi_functor [OF assms(1,2)])
next
  case (Some f)
  with assms(3) alu_imm_runs [OF assms(1,2) Some] show ?thesis by simp
qed

lemma two_registers_run:
  assumes "rep mc s" "with_args insn [Gpr a, Gpr b]" "exec (get_kind insn) [Gpr a, Gpr b] s = Some s'"
  shows "runs rep bo insn ds mc s'"
proof (cases "alu_unary (get_kind insn)")
  case None
  show ?thesis
  proof (cases "multiply_op (get_kind insn)")
    assume "multiply_op (get_kind insn) = None"
    with None assms(3) show ?thesis
      by (auto simp: runs_def dispatch_table simp del: power_numeral split: if_splits intro: divide_functors [OF assms(1,2)])
  next
    fix f assume f: "multiply_op (get_kind insn) = Some f"
    with None assms(3) multiply_runs [OF assms(1,2) f] show ?thesis by simp
  qed
next
  case (Some f)
  with assms(3) alu_unary_runs [OF assms(1,2) Some] show ?thesis by simp
qed

lemma store_widths: "store_width k = Some w \<Longrightarrow> 8 * (w div 8) = w \<and> 0 < w div 8 \<and> iprocLookup k = Some IP_store"
  by (auto simp: store_width_def dispatch_table split: if_splits)

lemma memory_run:
  assumes "rep mc s" "with_args insn [Gpr rt, Mem b off n]" "exec (get_kind insn) [Gpr rt, Mem b off n] s = Some s'"
  shows "runs rep bo insn ds mc s'"
proof (cases "loads_signed (get_kind insn) \<or> loads_unsigned (get_kind insn)")
  case True
  with assms(3) show ?thesis
    by (auto simp: loads_signed_def loads_unsigned_def runs_def dispatch_table simp del: power_numeral intro: load_functors [OF assms(1,2)])
next
  case False
  with assms(3) obtain w where w: "store_width (get_kind insn) = Some w"
    "s' = set_mem s (mem_addr s b off) (w div 8) (gpr s rt mod 2 ^ w)" by auto
  with store_widths [OF w(1)] store_functor [OF assms(1,2), of "w div 8"] show ?thesis by (auto simp: runs_def)
qed

lemma exec_runs:
  assumes "rep mc s" "with_args insn ps" "exec (get_kind insn) ps s = Some s'"
  shows "runs rep bo insn ds mc s'"
proof -
  consider (three) rd rs rt where "ps = [Gpr rd, Gpr rs, Gpr rt]" | (imm) rd rs t y where "ps = [Gpr rd, Gpr rs, Imm t y]"
    | (two) a b where "ps = [Gpr a, Gpr b]" | (one) r where "ps = [Gpr r]" | (lui) rt t y where "ps = [Gpr rt, Imm t y]"
    | (mem) rt b off n where "ps = [Gpr rt, Mem b off n]" | (none) "ps = []"
    using assms(3) by (cases "(get_kind insn, ps, s)" rule: exec.cases) auto
  then show ?thesis
  proof cases
    case three then show ?thesis using three_registers_run assms by blast
  next
    case imm then show ?thesis using immediate_runs assms by blast
  next
    case two then show ?thesis using two_registers_run assms by blast
  next
    case one
    with assms show ?thesis by (auto simp: runs_def dispatch_table split: if_splits intro: hilo_moves)
  next
    case lui
    with assms show ?thesis by (auto simp: runs_def dispatch_table simp del: power_numeral split: if_splits intro: lui_functor)
  next
    case mem then show ?thesis using memory_run assms by blast
  next
    case none
    with assms show ?thesis by (auto simp: runs_def dispatch_table split: if_splits intro: plain_functors)
  qed
qed

section \<open>Control transfers and whole instructions\<close>

lemma branch_runs:
  assumes slot: "succeeds (ds mc) (\<lambda>mc. rep mc s)" and args: "with_args insn ps"
    and b: "branch (get_kind insn) (get_address insn) ps s = Some s'"
  shows "runs rep bo insn ds mc s'"
proof -
  consider (jump) t target where "ps = [Imm t target]" | (beq) rs rt t target where "ps = [Gpr rs, Gpr rt, Imm t target]"
    | (bgez) rs t target where "ps = [Gpr rs, Imm t target]" | (jr) rs where "ps = [Gpr rs]" | (jalr) rd rs where "ps = [Gpr rd, Gpr rs]"
    using b by (cases "(get_kind insn, get_address insn, ps, s)" rule: branch.cases) auto
  then show ?thesis
  proof cases
    case jump
    with b have t: "t = 32" by (auto split: if_splits)
    note f = jump_functors [where ds = ds and mc = mc and s = s, OF slot args [unfolded jump t], of bo True]
    from b show ?thesis unfolding jump t using f
      by (auto simp: runs_def dispatch_table linked_def simp del: power_numeral split: if_split_asm)
  next
    case beq
    with b have t: "t = 32" by (auto split: if_splits)
    note f = beq_functors [where ds = ds and mc = mc and s = s, OF slot args [unfolded beq t], of bo True]
    from b show ?thesis unfolding beq t using f
      by (auto simp: runs_def dispatch_table branch_if_def split: if_split_asm)
  next
    case bgez
    with b have t: "t = 32" by (auto split: if_splits)
    note f = bgez_functors [where ds = ds and mc = mc and s = s, OF slot args [unfolded bgez t], where bo = bo and ar = True]
    note g = f(5,6) [OF refl]
    from b show ?thesis unfolding bgez t using f(1-4) g
      by (auto simp: runs_def dispatch_table branch_if_def linked_def simp del: power_numeral split: if_split_asm)
  next
    case jr
    with b jr_functor [where ds = ds and mc = mc and s = s, OF slot args [unfolded jr], of bo True] show ?thesis
      by (auto simp: runs_def dispatch_table split: if_splits)
  next
    case jalr
    with b jalr_functor [where ds = ds and mc = mc and s = s, OF slot args [unfolded jalr] refl, of bo True] show ?thesis
      by (auto simp: runs_def dispatch_table linked_def simp del: power_numeral split: if_split_asm)
  qed
qed

lemma process_runs:
  assumes "rep mc s" "\<And>mc. rep mc (advanced s (get_address insn) (get_size insn)) \<Longrightarrow> runs rep bo insn ds mc s'"
  shows "\<exists>p. iprocLookup (get_kind insn) = Some p \<and> succeeds (P_process p (Mips32 bo True) insn ds mc) (\<lambda>mc'. rep mc' s')"
proof -
  from advance_is [OF assms(1), of bo "get_address insn" "get_size insn"] obtain mc1 where
    mc1: "advanceInstructionPointer (Mips32 bo True) mc (get_address insn) (get_size insn) = Some mc1"
      "rep mc1 (advanced s (get_address insn) (get_size insn))" by (auto simp: advanced_def elim: succeedsE)
  from assms(2) [OF mc1(2)] show ?thesis by (auto simp: runs_def P_process_def mc1(1))
qed

lemma instruction_is:
  "rep mc s \<Longrightarrow> ainsn_ok i \<Longrightarrow> astep i s = Some s' \<Longrightarrow> succeeds (processCommon (Mips32 bo True) (encode i) mc) (\<lambda>mc'. rep mc' s')"
proof (induction i s arbitrary: mc s' rule: astep.induct)
  case (1 k a n ps s)
  let ?i = "AInsn k a n ps None"
  have "runs rep bo (encode ?i) ds mc s'" if "rep mc (advanced s a n)" for mc ds
    using exec_runs [OF that with_encode [OF 1(2)]] 1(3) by simp
  with process_runs [OF 1(1), of "encode ?i" bo "\<lambda>mc. None" s'] show ?case by auto
next
  case (2 k a n ps inner s)
  let ?i = "AInsn k a n ps (Some inner)"
  let ?ds = "\<lambda>mc. SValue_boolean (isControlTransfer (ai_kind inner)) \<bind> (\<lambda>raise. raiseInterrupt mc raise \<bind> processCommon (Mips32 bo True) (encode inner))"
  have ok: "with_args (encode ?i) ps" "ainsn_ok inner" using with_encode [OF 2(3)] 2(3) by simp_all
  have "runs rep bo (encode ?i) ?ds mc s'" if r: "rep mc (advanced s a n)" for mc
  proof (cases "isControlTransfer k")
    case False
    with 2(4) exec_runs [OF r ok(1)] show ?thesis by simp
  next
    case True
    define s1 where "s1 = (if isControlTransfer (ai_kind inner) then cleared (advanced s a n) else advanced s a n)"
    from True 2(4) obtain s2 where s2: "astep inner s1 = Some s2" "branch k a ps s2 = Some s'"
      by (auto simp: s1_def bind_eq_Some_conv)
    have "succeeds (?ds mc) (\<lambda>mc. rep mc s2)"
    proof (rule succeeds_bind [OF SValue_boolean_is], rule succeeds_bind [OF raise_is [OF r]])
      fix mc2 assume "rep mc2 (if isControlTransfer (ai_kind inner) then cleared (advanced s a n) else advanced s a n)"
      then have "rep mc2 s1" by (simp add: s1_def)
      from 2(1) [OF True, folded s1_def, OF this ok(2) s2(1)]
      show "succeeds (processCommon (Mips32 bo True) (encode inner) mc2) (\<lambda>mc. rep mc s2)" .
    qed
    from branch_runs [where ds = ?ds and mc = mc and s = s2, OF this ok(1)] s2(2) show ?thesis by simp
  qed
  with process_runs [OF 2(2), of "encode ?i" bo ?ds s'] show ?case by auto
qed

end

end
