(* ===== verification/Mips_Correct.thy ===== *)
theory Mips_Correct
  imports Mips_Refinement
begin

text \<open>
  The properties of the MIPS dispatcher on the machine of the concrete semantics.
\<close>

section \<open>Single instructions and programs\<close>

lemma processInstructions_is:
  "machine_rep mc s \<Longrightarrow> \<forall>i\<in>set is. ainsn_ok i \<Longrightarrow> asteps is s = Some s' \<Longrightarrow>
    succeeds (processInstructions (Mips32 bo True) (map encode is) mc) (\<lambda>mc'. machine_rep mc' s')"
proof (induction "is" arbitrary: mc s)
  case (Cons i js)
  from Cons.prems(3) obtain s1 where s1: "astep i s = Some s1" "asteps js s1 = Some s'" by (auto simp: bind_eq_Some_conv)
  have "succeeds (processInstruction (Mips32 bo True) (encode i) mc) (\<lambda>mc'. machine_rep mc' s1)"
    using cm.instruction_is [OF Cons.prems(1) _ s1(1)] Cons.prems(2) by (simp add: processInstruction_def)
  then show ?case using Cons.IH [OF _ _ s1(2)] Cons.prems(2) by (auto intro: succeeds_bind)
qed simp

text \<open>A machine with no register and no byte stored.\<close>

definition zero_state :: astate where
  "zero_state = \<lparr>as_bits = (\<lambda>key i. False), as_bytes = (\<lambda>a. 0), as_order = ORDER_LSB\<rparr>"

lemma sample_rep: "machine_rep sample_machine zero_state"
proof -
  have "reg_rep sv_is (cs_registers (currentState sample_machine)) (\<lambda>key i. None)"
    by (simp add: sample_machine_def RegisterState_new_def reg_rep_def represents_def)
  moreover have "mem_bytes (mc_memory sample_machine) = (\<lambda>a. 0)" using unmapped_zero [OF sample_machine_ok(5)] by (simp add: fun_eq_iff)
  moreover have "accessCreatesLocations (cs_registers (currentState sample_machine))" by (simp add: sample_machine_def RegisterState_new_def)
  ultimately show ?thesis using sample_machine_ok(1-3) by (auto simp: machine_rep_def zero_state_def)
qed

text \<open>
  C1. Processing MIPS instructions refines the instruction set: from a machine of the concrete semantics
  that stands for an abstract machine, a list of instructions whose abstract steps are defined is
  processed without an exception, each with the instruction in its delay slot, and the resulting machine
  stands for the abstract result.
\<close>

theorem mips_refines:
  assumes "machine_rep mc s" "\<forall>i\<in>set is. ainsn_ok i" "asteps is s = Some s'"
  shows "succeeds (processInstructions (Mips32 bo True) (map encode is) mc) (\<lambda>mc'. machine_rep mc' s')"
  by (rule processInstructions_is [OF assms])

theorem mips_refines_witness:
  "succeeds (processInstructions (Mips32 ORDER_LSB True)
      (map encode [AInsn mips_addiu 100 4 [Gpr 2, Gpr 0, Imm 16 5] None, AInsn mips_j 104 4 [Imm 32 400] (Some (AInsn mips_nop 108 4 [] None))]) sample_machine)
    (\<lambda>mc'. \<exists>s'. machine_rep mc' s' \<and> gpr s' 2 = 5 \<and> get_reg s' REG_PC = 400)"
proof -
  let ?is = "[AInsn mips_addiu 100 4 [Gpr 2, Gpr 0, Imm 16 5] None, AInsn mips_j 104 4 [Imm 32 400] (Some (AInsn mips_nop 108 4 [] None))]"
  have s1: "astep (AInsn mips_addiu 100 4 [Gpr 2, Gpr 0, Imm 16 5] None) zero_state = Some (set_gpr (advanced zero_state 100 4) 2 5)"
    by (simp add: alu_imm_def gpr_def sx_def signed_of_def bit_iff_odd)
  have s2: "astep (AInsn mips_j 104 4 [Imm 32 400] (Some (AInsn mips_nop 108 4 [] None))) s =
      Some (set_reg (advanced (advanced s 104 4) 108 4) REG_PC 400)" for s
    by (simp add: isControlTransfer_def)
  let ?s = "set_reg (advanced (advanced (set_gpr (advanced zero_state 100 4) 2 5) 104 4) 108 4) REG_PC 400"
  have "asteps ?is zero_state = Some ?s" by (simp only: asteps.simps s1 s2 bind.bind_lunit)
  from mips_refines [OF sample_rep _ this, of ORDER_LSB]
  have "succeeds (processInstructions (Mips32 ORDER_LSB True) (map encode ?is) sample_machine) (\<lambda>mc'. machine_rep mc' ?s)" by simp
  moreover have "gpr ?s 2 = 5" by (simp add: gpr_def advanced_def set_gpr_def get_set_same get_set_other)
  moreover have "get_reg ?s REG_PC = 400" by (simp add: get_set_same)
  ultimately show ?thesis by (auto elim: succeeds_mono)
qed

section \<open>Progress\<close>

text \<open>The shapes that have a result whatever the operands hold; division is not among them.\<close>

fun exec_shape :: "mips_kind \<Rightarrow> operand list \<Rightarrow> bool" where
  "exec_shape k [Gpr rd, Gpr rs, Gpr rt] \<longleftrightarrow> alu k \<noteq> None \<or> k \<in> {mips_add, mips_sub, mips_movz, mips_movn}"
| "exec_shape k [Gpr rd, Gpr rs, Imm t y] \<longleftrightarrow> alu_imm k \<noteq> None \<or> k = mips_addi \<and> t \<le> 32"
| "exec_shape k [Gpr a, Gpr b] \<longleftrightarrow> alu_unary k \<noteq> None \<or> multiply_op k \<noteq> None"
| "exec_shape k [Gpr r] \<longleftrightarrow> k \<in> {mips_mfhi, mips_mthi, mips_mflo, mips_mtlo}"
| "exec_shape k [Gpr rt, Imm t y] \<longleftrightarrow> k = mips_lui \<and> t = 16"
| "exec_shape k [Gpr rt, Mem b off n] \<longleftrightarrow> loads_signed k \<or> loads_unsigned k \<or> store_width k \<noteq> None"
| "exec_shape k [] \<longleftrightarrow> k \<in> {mips_nop, mips_ssnop, mips_ehb, mips_break}"
| "exec_shape k _ \<longleftrightarrow> False"

fun branch_shape :: "mips_kind \<Rightarrow> operand list \<Rightarrow> bool" where
  "branch_shape k [Imm t target] \<longleftrightarrow> t = 32 \<and> k \<in> {mips_b, mips_j, mips_bal, mips_jal, mips_jalx}"
| "branch_shape k [Gpr rs, Gpr rt, Imm t target] \<longleftrightarrow> t = 32 \<and> k \<in> {mips_beq, mips_bne}"
| "branch_shape k [Gpr rs, Imm t target] \<longleftrightarrow> t = 32 \<and> k \<in> {mips_bgez, mips_bgtz, mips_blez, mips_bltz, mips_bgezal, mips_bltzal}"
| "branch_shape k [Gpr rs] \<longleftrightarrow> k \<in> {mips_jr, mips_jr_hb}"
| "branch_shape k [Gpr rd, Gpr rs] \<longleftrightarrow> k \<in> {mips_jalr, mips_jalr_hb}"
| "branch_shape k _ \<longleftrightarrow> False"

fun well_formed :: "ainsn \<Rightarrow> bool" where
  "well_formed (AInsn k a n ps None) \<longleftrightarrow> (\<forall>p\<in>set ps. operand_ok p) \<and> exec_shape k ps"
| "well_formed (AInsn k a n ps (Some inner)) \<longleftrightarrow> (\<forall>p\<in>set ps. operand_ok p) \<and> branch_shape k ps \<and> well_formed inner"

lemma exec_total: "exec_shape k ps \<Longrightarrow> \<exists>s'. exec k ps s = Some s'"
  by (cases "(k, ps)" rule: exec_shape.cases) (auto split: option.split)

lemma branch_total: "branch_shape k ps \<Longrightarrow> \<exists>s'. branch k a ps s = Some s'"
  by (cases "(k, ps)" rule: branch_shape.cases) auto

lemma branch_shape_transfers: "branch_shape k ps \<Longrightarrow> isControlTransfer k"
  by (cases "(k, ps)" rule: branch_shape.cases) (auto simp: isControlTransfer_def)

lemma well_formed_ok: "well_formed i \<Longrightarrow> ainsn_ok i"
  by (induction i rule: well_formed.induct) auto

lemma astep_total: "well_formed i \<Longrightarrow> \<exists>s'. astep i s = Some s'"
proof (induction i arbitrary: s rule: well_formed.induct)
  case (1 k a n ps)
  then show ?case using exec_total by simp
next
  case (2 k a n ps inner)
  from 2 obtain s1 where "astep inner (if isControlTransfer (ai_kind inner) then cleared (advanced s a n) else advanced s a n) = Some s1"
    by fastforce
  with 2(2) branch_total [of k ps a s1] show ?case by (auto simp: branch_shape_transfers)
qed

lemma asteps_total: "\<forall>i\<in>set is. well_formed i \<Longrightarrow> \<exists>s'. asteps is s = Some s'"
proof (induction "is" arbitrary: s)
  case (Cons i js)
  then obtain s1 where "astep i s = Some s1" using astep_total [of i s] by auto
  with Cons show ?case by auto
qed simp

text \<open>
  C8. Progress: every list of well-formed instructions is processed to its end from every machine that
  stands for an abstract one, and the machine still does afterwards. Well-formed are the instructions of
  the modelled kinds with the operands the disassembler gives them, with a well-formed instruction in the
  delay slot of every control transfer; only the divisions, which stop when the divisor is zero, are left
  out.
\<close>

theorem mips_progress:
  assumes "machine_rep mc s" "\<forall>i\<in>set is. well_formed i"
  shows "succeeds (processInstructions (Mips32 bo True) (map encode is) mc) (\<lambda>mc'. \<exists>s'. asteps is s = Some s' \<and> machine_rep mc' s')"
proof -
  from asteps_total [OF assms(2)] obtain s' where s': "asteps is s = Some s'" by blast
  show ?thesis
    by (rule succeeds_mono [OF processInstructions_is [OF assms(1) _ s']]) (use assms(2) well_formed_ok s' in auto)
qed

theorem mips_progress_witness:
  "\<exists>mc'. processInstructions (Mips32 ORDER_LSB True)
     (map encode [AInsn mips_beq 0 4 [Gpr 1, Gpr 2, Imm 32 16] (Some (AInsn mips_addu 4 4 [Gpr 1, Gpr 1, Gpr 2] None))]) sample_machine = Some mc'"
proof -
  have "well_formed (AInsn mips_beq 0 4 [Gpr 1, Gpr 2, Imm 32 16] (Some (AInsn mips_addu 4 4 [Gpr 1, Gpr 1, Gpr 2] None)))"
    by (simp add: alu_def)
  with mips_progress [OF sample_rep, of "[AInsn mips_beq 0 4 [Gpr 1, Gpr 2, Imm 32 16] (Some (AInsn mips_addu 4 4 [Gpr 1, Gpr 1, Gpr 2] None))]" ORDER_LSB]
  show ?thesis by (auto elim!: succeedsE)
qed

section \<open>What an instruction changes\<close>

lemma bitwise_less:
  fixes x y :: nat
  assumes "x < 2 ^ n" "y < 2 ^ n"
  shows "x AND y < 2 ^ n" "x OR y < 2 ^ n" "x XOR y < 2 ^ n"
  using assms unfolding take_bit_nat_eq_self_iff [symmetric] by (simp_all add: take_bit_or take_bit_xor)

lemma residue_less: "nat (k mod 2 ^ 32) < 2 ^ 32" "x mod 2 ^ 32 < 2 ^ 32" for x :: nat
  by (simp_all add: nat_less_iff)

lemma alu_less:
  assumes "alu k = Some f" "x < 2 ^ 32" "y < 2 ^ 32"
  shows "f x y < 2 ^ 32"
proof -
  have "x div 2 ^ (y mod 2 ^ 5) < 2 ^ 32" using assms(2) div_le_dividend le_less_trans by blast
  moreover have "2 ^ 32 - 1 - (x OR y) < 2 ^ 32" by simp
  moreover have "of_bool b < (2 :: nat) ^ 32" for b by simp
  moreover note bitwise_less [OF assms(2,3)] residue_less bval_less [of _ 32]
  ultimately show ?thesis
    using assms(1) unfolding alu_def by (auto simp: sra_def ror_def simp del: power_numeral diff_diff_left One_nat_def split: if_split_asm)
qed

text \<open>
  The result of an instruction with three register operands, from the old value of the destination and the values of the
  sources; none if the instruction overflows.
\<close>

definition alu_result :: "mips_kind \<Rightarrow> nat \<Rightarrow> nat \<Rightarrow> nat \<Rightarrow> nat option" where
  "alu_result k old x y = (case alu k of
      Some f \<Rightarrow> Some (f x y)
    | None \<Rightarrow>
        if k = mips_add then (if fits_signed 32 (sw x + sw y) then Some (nat ((sw x + sw y) mod 2 ^ 32)) else None)
        else if k = mips_sub then (if fits_signed 32 (sw x - sw y) then Some (nat ((sw x - sw y) mod 2 ^ 32)) else None)
        else if k = mips_movz then Some (if y = 0 then x else old)
        else Some (if y = 0 then old else x))"

text \<open>The two states differ at most in the given registers.\<close>

definition differ_only_in :: "register_descriptor list \<Rightarrow> astate \<Rightarrow> astate \<Rightarrow> bool" where
  "differ_only_in rs s s' \<longleftrightarrow>
     (\<forall>key i. as_bits s' key i \<noteq> as_bits s key i \<longrightarrow> (\<exists>r\<in>set rs. key = RegStore r \<and> in_reg r i)) \<and>
     as_bytes s' = as_bytes s \<and> as_order s' = as_order s"

lemma set_two_registers: "differ_only_in [r, q] s (set_reg (set_reg s q x) r y)"
  by (auto simp: differ_only_in_def set_reg_def split: if_split_asm)

lemma alu_result_less:
  assumes "alu_result k old x y = Some v" "old < 2 ^ 32" "x < 2 ^ 32" "y < 2 ^ 32"
  shows "v < 2 ^ 32"
  using assms alu_less [OF _ assms(3,4), of k] residue_less(1)
  by (auto simp: alu_result_def simp del: power_numeral split: option.split_asm if_split_asm)

lemma exec_three:
  assumes "exec_shape k [Gpr rd, Gpr rs, Gpr rt]"
  shows "exec k [Gpr rd, Gpr rs, Gpr rt] s = Some (case alu_result k (gpr s rd) (gpr s rs) (gpr s rt) of
    None \<Rightarrow> cleared s | Some v \<Rightarrow> set_gpr s rd v)"
  using assms by (auto simp: alu_result_def trapped_def split: option.split)

text \<open>
  C25. An instruction with three register operands (the logical operations, \<^verbatim>\<open>addu\<close>, \<^verbatim>\<open>subu\<close>, \<^verbatim>\<open>slt\<close>, \<^verbatim>\<open>sltu\<close>, \<^verbatim>\<open>mul\<close>, the shifts and the
  rotation by a register, \<^verbatim>\<open>add\<close>, \<^verbatim>\<open>sub\<close>, \<^verbatim>\<open>movz\<close> and \<^verbatim>\<open>movn\<close>) puts its result into the destination register, which reads as zero
  if it is the zero register, and moves the program counter to the next instruction. No other bit of any register, of whatever
  kind, no byte of memory and not the byte order changes. If \<^verbatim>\<open>add\<close> or \<^verbatim>\<open>sub\<close> overflows there is no result, and the whole state is
  discarded instead.
\<close>

theorem mips_alu_effect:
  assumes "machine_rep mc s" "exec_shape k [Gpr rd, Gpr rs, Gpr rt]" "rd < 32" "rs < 32" "rt < 32"
  shows "succeeds (processInstruction (Mips32 bo True) (encode (AInsn k a n [Gpr rd, Gpr rs, Gpr rt] None)) mc) (\<lambda>mc'. \<exists>s'. machine_rep mc' s' \<and>
    (case alu_result k (gpr s rd) (gpr s rs) (gpr s rt) of
       None \<Rightarrow> s' = cleared (advanced s a n)
     | Some v \<Rightarrow> gpr s' rd = (if rd = 0 then 0 else v) \<and> get_reg s' REG_PC = unat (a + n) mod 2 ^ 32 \<and>
         differ_only_in [mips_gpr rd, REG_PC] s s'))"
proof -
  let ?i = "AInsn k a n [Gpr rd, Gpr rs, Gpr rt] None" and ?res = "alu_result k (gpr s rd) (gpr s rs) (gpr s rt)"
  define s1 where "s1 = advanced s a n"
  define s' where "s' = (case ?res of None \<Rightarrow> cleared s1 | Some v \<Rightarrow> set_gpr s1 rd v)"
  have g: "gpr s1 j = gpr s j" if "j < 32" for j using that by (simp add: s1_def advanced_def gpr_def get_set_other)
  have "astep ?i s = Some s'" using exec_three [OF assms(2), of s1] assms(3-5) g by (simp add: s1_def [symmetric] s'_def del: exec.simps)
  from cm.instruction_is [OF assms(1) _ this, of bo] assms(3-5)
  have "succeeds (processInstruction (Mips32 bo True) (encode ?i) mc) (\<lambda>mc'. machine_rep mc' s')"
    by (simp add: processInstruction_def)
  moreover have "gpr s' rd = (if rd = 0 then 0 else v) \<and> get_reg s' REG_PC = unat (a + n) mod 2 ^ 32 \<and> differ_only_in [mips_gpr rd, REG_PC] s s'"
    if "?res = Some v" for v
  proof -
    have v: "v < 2 ^ 32" by (rule alu_result_less [OF that]) (use assms(3-5) gpr_less in auto)
    have "differ_only_in [mips_gpr rd, REG_PC] s s'" using that by (simp add: s'_def s1_def advanced_def set_gpr_def set_two_registers)
    with that gpr_set_gpr [OF assms(3) assms(3) v, of s1] assms(3) show ?thesis
      by (auto simp: s'_def s1_def advanced_def set_gpr_def get_set_other get_set_same gpr_def)
  qed
  ultimately show ?thesis by (auto simp: s'_def s1_def [symmetric] elim!: succeeds_mono split: option.split_asm option.split)
qed

theorem mips_alu_effect_witness:
  "succeeds (processInstruction (Mips32 ORDER_LSB True) (encode (AInsn mips_nor 64 4 [Gpr 3, Gpr 1, Gpr 2] None)) sample_machine)
     (\<lambda>mc'. \<exists>s'. machine_rep mc' s' \<and> gpr s' 3 = 2 ^ 32 - 1 \<and> get_reg s' REG_PC = 68 \<and>
       differ_only_in [mips_gpr 3, REG_PC] zero_state s')"
proof -
  have z: "gpr zero_state j = 0" for j by (simp add: gpr_def get_reg_def zero_state_def)
  show ?thesis
    by (rule succeeds_mono [OF mips_alu_effect [OF sample_rep, of mips_nor 3 1 2 ORDER_LSB 64 4]]) (auto simp: alu_result_def alu_def z)
qed

text \<open>
  C26. Storing a word and loading it back at the same address, in either byte order, leaves the word in
  the register that was loaded.
\<close>

theorem mips_store_load:
  assumes "machine_rep mc s" "rt < 32" "rd < 32" "b < 32" "off < 2 ^ 32" "rd \<noteq> 0"
  shows "succeeds (processInstructions (Mips32 bo True)
      (map encode [AInsn mips_sw a 4 [Gpr rt, Mem b off 4] None, AInsn mips_lw (a + 4) 4 [Gpr rd, Mem b off 4] None]) mc)
    (\<lambda>mc'. \<exists>s'. machine_rep mc' s' \<and> gpr s' rd = gpr s rt)"
proof -
  define s1 where "s1 = advanced s a 4"
  define ad where "ad = mem_addr s1 b off"
  define s2 where "s2 = advanced (set_mem s1 ad 4 (gpr s1 rt)) (a + 4) 4"
  have g1: "gpr s1 rt < 2 ^ 32" "gpr s1 rt = gpr s rt" using gpr_less [OF assms(2)] assms(2)
    by (simp_all add: s1_def advanced_def gpr_def get_set_other)
  have ad: "mem_addr s2 b off = ad" using assms(4) by (simp add: s2_def ad_def mem_addr_def advanced_def gpr_def get_set_other)
  have m: "get_mem s2 ad 4 = gpr s1 rt"
    using load_store [of 32 4 "gpr s1 rt" "as_order s1" ad "as_bytes s1"] g1(1)
    by (simp add: s2_def advanced_def get_mem_def set_mem_def)
  have "sx 32 (gpr s1 rt) = gpr s1 rt" using g1(1) by (simp only: sx_def word_of_signed mod_less)
  then have "asteps [AInsn mips_sw a 4 [Gpr rt, Mem b off 4] None, AInsn mips_lw (a + 4) 4 [Gpr rd, Mem b off 4] None] s =
      Some (set_gpr s2 rd (gpr s1 rt))"
    using g1(1) m ad by (simp add: loads_signed_def loads_unsigned_def store_width_def s1_def [symmetric] ad_def [symmetric] s2_def [symmetric])
  from processInstructions_is [OF assms(1) _ this, of bo] assms(2-5) have
    "succeeds (processInstructions (Mips32 bo True)
      (map encode [AInsn mips_sw a 4 [Gpr rt, Mem b off 4] None, AInsn mips_lw (a + 4) 4 [Gpr rd, Mem b off 4] None]) mc)
      (\<lambda>mc'. machine_rep mc' (set_gpr s2 rd (gpr s1 rt)))" by simp
  then show ?thesis
    by (rule succeeds_mono) (use gpr_set_gpr [OF assms(3,3) g1(1), of s2] g1(2) assms(6) in auto)
qed

theorem mips_store_load_witness:
  "succeeds (processInstructions (Mips32 ORDER_LSB True)
      (map encode [AInsn mips_sw 8 4 [Gpr 0, Mem 29 16 4] None, AInsn mips_lw (8 + 4) 4 [Gpr 7, Mem 29 16 4] None]) sample_machine)
    (\<lambda>mc'. \<exists>s'. machine_rep mc' s' \<and> gpr s' 7 = 0)"
  by (rule succeeds_mono [OF mips_store_load [OF sample_rep, of 0 7 29 16 ORDER_LSB 8]]) (auto simp: gpr_def)

section \<open>Branches and their delay slots\<close>

text \<open>
  C23. A conditional branch compares the registers after the instruction in its delay slot has changed
  them: when the slot adds to one of the compared registers, the branch is taken according to the sum,
  not according to the value the register had when the branch was reached. When the branch is not taken,
  the program continues after the delay slot.
\<close>

theorem branch_sees_slot:
  assumes "machine_rep mc s" "rs < 32" "rs \<noteq> 0" "rt < 32" "rt \<noteq> rs" "target < 2 ^ 32" "y < 2 ^ 16"
  shows "succeeds (processInstruction (Mips32 bo True) (encode (AInsn mips_beq a 4 [Gpr rs, Gpr rt, Imm 32 target]
      (Some (AInsn mips_addiu (a + 4) 4 [Gpr rs, Gpr rs, Imm 16 y] None)))) mc) (\<lambda>mc'. \<exists>s'. machine_rep mc' s' \<and>
    get_reg s' REG_PC = (if (gpr s rs + sx 16 y) mod 2 ^ 32 = gpr s rt then target else unat (a + 8) mod 2 ^ 32))"
proof -
  let ?i = "AInsn mips_beq a 4 [Gpr rs, Gpr rt, Imm 32 target] (Some (AInsn mips_addiu (a + 4) 4 [Gpr rs, Gpr rs, Imm 16 y] None))"
  define s1 where "s1 = advanced (advanced s a 4) (a + 4) 4"
  define v where "v = (gpr s rs + sx 16 y) mod 2 ^ 32"
  define s2 where "s2 = set_gpr s1 rs v"
  have v: "v < 2 ^ 32" by (simp add: v_def)
  have g: "gpr s1 j = gpr s j" if "j < 32" for j using that by (simp add: s1_def advanced_def gpr_def get_set_other)
  have g2: "gpr s2 rs = v" "gpr s2 rt = gpr s rt"
    using gpr_set_gpr [OF assms(2,2) v, of s1] gpr_set_gpr [OF assms(2,4) v, of s1] assms(3,5) g [OF assms(4)] by (simp_all add: s2_def)
  have pc: "get_reg s2 REG_PC = unat (a + 8) mod 2 ^ 32"
    using assms(2) by (simp add: s2_def s1_def set_gpr_def advanced_def get_set_other get_set_same add.commute)
  have "astep ?i s = Some (branch_if s2 (v = gpr s rt) target)"
    using g [OF assms(2)] g2 by (simp add: isControlTransfer_def alu_imm_def s1_def [symmetric] v_def [symmetric, simplified] s2_def [symmetric])
  from cm.instruction_is [OF assms(1) _ this, of bo] assms(2,4,6,7)
  have "succeeds (processInstruction (Mips32 bo True) (encode ?i) mc) (\<lambda>mc'. machine_rep mc' (branch_if s2 (v = gpr s rt) target))"
    by (simp add: processInstruction_def)
  moreover have "get_reg (branch_if s2 (v = gpr s rt) target) REG_PC = (if v = gpr s rt then target else unat (a + 8) mod 2 ^ 32)"
    using assms(6) by (simp add: branch_if_def get_set_same pc)
  ultimately show ?thesis unfolding v_def by (auto elim!: succeeds_mono)
qed

theorem branch_sees_slot_witness:
  "succeeds (processInstruction (Mips32 ORDER_LSB True) (encode (AInsn mips_beq 0 4 [Gpr 1, Gpr 2, Imm 32 64]
      (Some (AInsn mips_addiu (0 + 4) 4 [Gpr 1, Gpr 1, Imm 16 1] None)))) sample_machine) (\<lambda>mc'. \<exists>s'. machine_rep mc' s' \<and> get_reg s' REG_PC = 8)"
proof -
  have z: "gpr zero_state j = 0" for j by (simp add: gpr_def get_reg_def zero_state_def)
  have "sx 16 1 = 1" by (simp add: sx_def signed_of_def bit_iff_odd)
  with z show ?thesis
    by (intro succeeds_mono [OF branch_sees_slot [OF sample_rep, of 1 2 64 1 ORDER_LSB 0]]) auto
qed

section \<open>Instructions that stop\<close>

lemma no_slot:
  "IP_b d insn (\<lambda>mc. None) mc = None" "IP_beq d insn (\<lambda>mc. None) mc = None" "IP_bgez d insn (\<lambda>mc. None) mc = None"
  "IP_j d insn (\<lambda>mc. None) mc = None" "IP_jalr d insn (\<lambda>mc. None) mc = None" "IP_jr d insn (\<lambda>mc. None) mc = None"
  by (simp_all add: IP_b_def IP_beq_def IP_bgez_def IP_j_def IP_jalr_def IP_jr_def assert_args_def Let_def)

lemma processCommon_lookup:
  "iprocLookup (get_kind insn) = None \<Longrightarrow> processCommon d insn mc = None"
  "iprocLookup (get_kind insn) = Some p \<Longrightarrow> get_delaySlot insn = None \<Longrightarrow> processCommon d insn mc = P_process p d insn (\<lambda>mc. None) mc"
  by (cases insn; cases "get_delaySlot insn"; simp)+

context machine_laws
begin

lemma zero_division:
  assumes "rep mc s" and args: "with_args insn [Gpr rs, Gpr rt]" and z: "gpr s rt = 0"
  shows "IP_div (Mips32 bo ar) insn ds mc = None" "IP_divu (Mips32 bo ar) insn ds mc = None"
proof -
  from read_gpr_arg [OF assms(1) with_args2(2) [OF args], of bo ar] obtain v mc1 where
    v: "read_arg (Mips32 bo ar) insn 0 0 mc = Some (v, mc1)" "sv_is v 32 (gpr s rs)" "rep mc1 s" by (auto elim!: succeedsE)
  from read_gpr_arg [OF v(3) with_args2(3) [OF args], of bo ar] z obtain u mc2 where
    u: "read_arg (Mips32 bo ar) insn 1 0 mc1 = Some (u, mc2)" "sv_is u 32 0" by (auto elim!: succeedsE)
  show "IP_div (Mips32 bo ar) insn ds mc = None" "IP_divu (Mips32 bo ar) insn ds mc = None"
    using zero_divisor [OF v(2) u(2)] by (simp_all add: IP_div_def IP_divu_def v(1) u(1) del: One_nat_def)
qed

end

definition transfer_kinds :: "mips_kind set" where
  "transfer_kinds = {mips_b, mips_bal, mips_beq, mips_bne, mips_bgez, mips_bgezal, mips_bgtz, mips_blez, mips_bltz, mips_bltzal,
     mips_j, mips_jal, mips_jalx, mips_jalr, mips_jalr_hb, mips_jr, mips_jr_hb}"

text \<open>
  C16. Processing stops with an exception when no functor is registered for the kind of the instruction,
  when a control transfer has no instruction in its delay slot, and when the divisor of a division is
  zero.
\<close>

theorem mips_stops:
  assumes "iprocLookup (get_kind insn) = None \<or> get_kind insn \<in> transfer_kinds \<and> get_delaySlot insn = None \<or>
    (\<exists>s rs rt. machine_rep mc s \<and> with_args insn [Gpr rs, Gpr rt] \<and> gpr s rt = 0) \<and>
      get_kind insn \<in> {mips_div, mips_divu} \<and> get_delaySlot insn = None"
  shows "processInstruction (Mips32 bo True) insn mc = None"
  using assms
proof (elim disjE conjE exE)
  assume "iprocLookup (get_kind insn) = None"
  then show ?thesis by (simp add: processInstruction_def processCommon_lookup(1))
next
  assume a: "get_kind insn \<in> transfer_kinds" "get_delaySlot insn = None"
  have "\<exists>p\<in>{IP_b, IP_beq, IP_bgez, IP_j, IP_jalr, IP_jr}. iprocLookup (get_kind insn) = Some p"
    using a(1) unfolding transfer_kinds_def by (auto simp: dispatch_table)
  then obtain p where p: "iprocLookup (get_kind insn) = Some p" "p \<in> {IP_b, IP_beq, IP_bgez, IP_j, IP_jalr, IP_jr}" by blast
  from p(2) have "P_process p (Mips32 bo True) insn (\<lambda>mc. None) mc = None" by (auto simp: P_process_def no_slot)
  with p(1) a(2) show ?thesis by (simp add: processInstruction_def processCommon_lookup(2))
next
  fix s rs rt assume a: "machine_rep mc s" "with_args insn [Gpr rs, Gpr rt]" "gpr s rt = 0"
    and k: "get_kind insn \<in> {mips_div, mips_divu}" and slot: "get_delaySlot insn = None"
  from cm.advance_is [OF a(1), of bo "get_address insn" "get_size insn"] obtain mc1 where
    mc1: "advanceInstructionPointer (Mips32 bo True) mc (get_address insn) (get_size insn) = Some mc1"
      "machine_rep mc1 (advanced s (get_address insn) (get_size insn))" by (auto simp: advanced_def elim: succeedsE)
  have rt: "rt < 32" using with_args2 [OF a(2)] by simp
  have "gpr (advanced s (get_address insn) (get_size insn)) rt = 0" using a(3) rt by (auto simp: gpr_def advanced_def get_set_other split: if_splits)
  with cm.zero_division [OF mc1(2) a(2)] k show ?thesis
    by (auto simp: processInstruction_def processCommon_lookup(2) [OF _ slot] dispatch_table P_process_def mc1(1))
qed

theorem mips_stops_witness:
  "processInstruction (Mips32 ORDER_LSB True) (encode (AInsn mips_div 0 4 [Gpr 1, Gpr 2] None)) sample_machine = None \<and>
   processInstruction (Mips32 ORDER_LSB True) (Insn mips_eret 0 4 [] None) sample_machine = None \<and>
   processInstruction (Mips32 ORDER_LSB True) (Insn mips_jr 0 4 [] None) sample_machine = None"
proof (intro conjI mips_stops)
  have z: "gpr zero_state 2 = 0" by (simp add: gpr_def get_reg_def zero_state_def)
  have "with_args (encode (AInsn mips_div 0 4 [Gpr 1, Gpr 2] None)) [Gpr 1, Gpr 2]" by (simp add: with_args_def)
  with sample_rep z have "\<exists>s rs rt. machine_rep sample_machine s \<and> with_args (encode (AInsn mips_div 0 4 [Gpr 1, Gpr 2] None)) [Gpr rs, Gpr rt] \<and> gpr s rt = 0"
    by blast
  then show "iprocLookup (get_kind (encode (AInsn mips_div 0 4 [Gpr 1, Gpr 2] None))) = None \<or>
    get_kind (encode (AInsn mips_div 0 4 [Gpr 1, Gpr 2] None)) \<in> transfer_kinds \<and> get_delaySlot (encode (AInsn mips_div 0 4 [Gpr 1, Gpr 2] None)) = None \<or>
    (\<exists>s rs rt. machine_rep sample_machine s \<and> with_args (encode (AInsn mips_div 0 4 [Gpr 1, Gpr 2] None)) [Gpr rs, Gpr rt] \<and> gpr s rt = 0) \<and>
      get_kind (encode (AInsn mips_div 0 4 [Gpr 1, Gpr 2] None)) \<in> {mips_div, mips_divu} \<and>
      get_delaySlot (encode (AInsn mips_div 0 4 [Gpr 1, Gpr 2] None)) = None" by simp
  have "iprocLookup mips_eret = None" by (simp add: dispatch_lookup dispatch_entries_def)
  then show "iprocLookup (get_kind (Insn mips_eret 0 4 [] None)) = None \<or>
    get_kind (Insn mips_eret 0 4 [] None) \<in> transfer_kinds \<and> get_delaySlot (Insn mips_eret 0 4 [] None) = None \<or>
    (\<exists>s rs rt. machine_rep sample_machine s \<and> with_args (Insn mips_eret 0 4 [] None) [Gpr rs, Gpr rt] \<and> gpr s rt = 0) \<and>
      get_kind (Insn mips_eret 0 4 [] None) \<in> {mips_div, mips_divu} \<and> get_delaySlot (Insn mips_eret 0 4 [] None) = None" by simp
  show "iprocLookup (get_kind (Insn mips_jr 0 4 [] None)) = None \<or>
    get_kind (Insn mips_jr 0 4 [] None) \<in> transfer_kinds \<and> get_delaySlot (Insn mips_jr 0 4 [] None) = None \<or>
    (\<exists>s rs rt. machine_rep sample_machine s \<and> with_args (Insn mips_jr 0 4 [] None) [Gpr rs, Gpr rt] \<and> gpr s rt = 0) \<and>
      get_kind (Insn mips_jr 0 4 [] None) \<in> {mips_div, mips_divu} \<and> get_delaySlot (Insn mips_jr 0 4 [] None) = None"
    by (simp add: transfer_kinds_def)
qed

section \<open>Unaligned loads\<close>

text \<open>The word that joins the \<open>k\<close> low-order bytes of memory with the rest of the register.\<close>

definition merged_right :: "byte_order \<Rightarrow> nat \<Rightarrow> nat \<Rightarrow> nat \<Rightarrow> nat" where
  "merged_right bo offset reg mem =
     (let k = 8 * (if bo = ORDER_MSB then offset + 1 else 4 - offset) in mem mod 2 ^ k + 2 ^ k * (reg div 2 ^ k))"

context machine_laws
begin

lemma merge_take_is:
  assumes "sv_is offset 2 w" "sv_is mem 32 m" "sv_is reg 32 r" "sv_is res 32 z" "0 < j" "j < 32" "k = j"
  shows "succeeds (merge_take (\<lambda>src dst. concatHiLo dst src) p offset mem reg 0 j k 32 res)
    (\<lambda>v. sv_is v 32 (if unat p mod 2 ^ 2 = w then m mod 2 ^ j + 2 ^ j * (r div 2 ^ j) else z))"
proof -
  have d: "r div 2 ^ j mod 2 ^ (32 - j) = r div 2 ^ j"
    using sv_is_less [OF assms(3)] assms(6) by (intro mod_less less_mult_imp_div_less) (simp flip: power_add)
  have w: "j + (32 - j) = 32" using assms(6) by simp
  show ?thesis unfolding merge_take_def assms(7)
  proof (rule value_steps, rule value_steps, assumption, rule assms(1), rule extract_low_step [OF assms(2)])
    fix q c src
    assume c: "sv_is c 1 (of_bool (unat p mod 2 ^ 2 = w))" and src: "sv_is src j (m mod 2 ^ j)"
    show "succeeds (Concrete_extract reg j 32 \<bind> (\<lambda>dst. concatHiLo dst src \<bind> (\<lambda>word. Concrete_ite c word res)))
      (\<lambda>v. sv_is v 32 (if unat p mod 2 ^ 2 = w then m mod 2 ^ j + 2 ^ j * (r div 2 ^ j) else z))"
    proof (rule extract_step [OF assms(3)])
      fix dst assume "sv_is dst (32 - j) (r div 2 ^ j mod 2 ^ (32 - j))"
      then have dst: "sv_is dst (32 - j) (r div 2 ^ j)" by (simp only: d)
      show "succeeds (concatHiLo dst src \<bind> (\<lambda>word. Concrete_ite c word res))
        (\<lambda>v. sv_is v 32 (if unat p mod 2 ^ 2 = w then m mod 2 ^ j + 2 ^ j * (r div 2 ^ j) else z))"
      proof (rule concat_step [OF dst src])
        fix word assume "sv_is word (j + (32 - j)) (m mod 2 ^ j + 2 ^ j * (r div 2 ^ j))"
        then have word: "sv_is word 32 (m mod 2 ^ j + 2 ^ j * (r div 2 ^ j))" by (simp only: w)
        from ite_step [OF c word assms(4), of Some] show "succeeds (Concrete_ite c word res)
          (\<lambda>v. sv_is v 32 (if unat p mod 2 ^ 2 = w then m mod 2 ^ j + 2 ^ j * (r div 2 ^ j) else z))" by simp
      qed (use assms(6) in simp)
    qed (use assms(6) in simp_all)
  qed (use assms(5,6) in simp_all)
qed

lemma merged_right_cases:
  fixes p1 p2 p3 :: "64 word" and w m r :: nat
  assumes "w < 4" "m < 2 ^ 32" "(p1, p2, p3) = (if ORDER_MSB = bo then (0, 1, 2) else (3, 2, 1 :: 64 word))" "r < 2 ^ 32"
  shows "(if unat p3 mod 2 ^ 2 = w then m mod 2 ^ 24 + 2 ^ 24 * (r div 2 ^ 24)
     else if unat p2 mod 2 ^ 2 = w then m mod 2 ^ 16 + 2 ^ 16 * (r div 2 ^ 16)
     else if unat p1 mod 2 ^ 2 = w then m mod 2 ^ 8 + 2 ^ 8 * (r div 2 ^ 8) else m) = merged_right bo w r m"
proof -
  have "w = 0 \<or> w = 1 \<or> w = 2 \<or> w = 3" using assms(1) by auto
  with assms(2-4) show ?thesis by (cases "bo = ORDER_MSB") (auto simp: merged_right_def)
qed

lemma mergeRight_is:
  assumes "rep mc s" and args: "with_args insn [Gpr rt, Mem b off 4]" and v: "sv_is reg 32 r" "sv_is mem 32 m"
  shows "succeeds (mergeRight (Mips32 bo ar) insn mc reg mem)
    (\<lambda>(v, mc'). sv_is v 32 (merged_right bo (mem_addr s b off mod 4) r m) \<and> rep mc' s)"
proof -
  define w where "w = mem_addr s b off mod 4"
  have ok: "b < 32" "off < 2 ^ 32" using with_args2 [OF args] by simp_all
  have e: "merge_address (Mips32 bo ar) insn mc 32 =
      effectiveAddress (Mips32 bo ar) mc (mem_expr (offset_expr b off) (8 * 4)) 32"
    using args by (simp add: merge_address_def with_args_def mem_expr_def del: effectiveAddress.simps)
  from mem_address [OF assms(1) ok, of 32 bo ar "8 * 4"] obtain a mc1 where
    a: "merge_address (Mips32 bo ar) insn mc 32 = Some (a, mc1)" "sv_is a 32 (mem_addr s b off)" "rep mc1 s"
    unfolding e by (auto elim!: succeedsE)
  from cv.extract_law [OF a(2), of 0 2] obtain q where q: "Concrete_extract a 0 2 = Some q" "sv_is q 2 w"
    by (auto simp: concrete_ops_sel w_def elim!: succeedsE)
  obtain p1 p2 p3 :: "64 word" where p: "(if ORDER_MSB = bo then (0, 1, 2) else (3, 2, 1 :: 64 word)) = (p1, p2, p3)" by (cases "ORDER_MSB = bo") auto
  have w4: "w < 4" by (simp add: w_def)
  let ?take = "merge_take (\<lambda>src dst. concatHiLo dst src)"
  note take = merge_take_is [OF q(2) v(2,1), THEN succeedsE]
  obtain r1 where r1: "?take p1 q mem reg 0 8 (32 - 24) 32 mem = Some r1"
    "sv_is r1 32 (if unat p1 mod 2 ^ 2 = w then m mod 2 ^ 8 + 2 ^ 8 * (r div 2 ^ 8) else m)"
    by (rule take [OF v(2), of 8 "32 - 24" p1]) simp_all
  obtain r2 where r2: "?take p2 q mem reg 0 16 (32 - 16) 32 r1 = Some r2"
    "sv_is r2 32 (if unat p2 mod 2 ^ 2 = w then m mod 2 ^ 16 + 2 ^ 16 * (r div 2 ^ 16)
      else if unat p1 mod 2 ^ 2 = w then m mod 2 ^ 8 + 2 ^ 8 * (r div 2 ^ 8) else m)"
    by (rule take [OF r1(2), of 16 "32 - 16" p2]) simp_all
  obtain r3 where r3: "?take p3 q mem reg 0 24 (32 - 8) 32 r2 = Some r3"
    "sv_is r3 32 (if unat p3 mod 2 ^ 2 = w then m mod 2 ^ 24 + 2 ^ 24 * (r div 2 ^ 24)
      else if unat p2 mod 2 ^ 2 = w then m mod 2 ^ 16 + 2 ^ 16 * (r div 2 ^ 16)
      else if unat p1 mod 2 ^ 2 = w then m mod 2 ^ 8 + 2 ^ 8 * (r div 2 ^ 8) else m)"
    by (rule take [OF r2(2), of 24 "32 - 8" p3]) simp_all
  have "mergeRight (Mips32 bo ar) insn mc reg mem = Some (r3, mc1)"
    by (simp only: mergeRight_def Let_def mips32 a(1) q(1) p r1(1) r2(1) r3(1) bind.bind_lunit prod.case)
  then show ?thesis
    using r3(2) a(3) merged_right_cases [OF w4 sv_is_less [OF v(2)] p [symmetric] sv_is_less [OF v(1)]]
    by (simp only: w_def succeeds_def) (auto simp only: prod.case)
qed

lemma unaligned_functors:
  assumes "rep mc s" and args: "with_args insn [Gpr rt, Mem b off 4]"
  shows "succeeds (IP_lwr (Mips32 bo ar) insn ds mc)
      (\<lambda>mc'. rep mc' (set_gpr s rt (merged_right bo (mem_addr s b off mod 4) (gpr s rt) (get_mem s (mem_addr s b off) 4))))"
    "succeeds (IP_lwl (Mips32 bo ar) insn ds mc)
      (\<lambda>mc'. rep mc' (set_gpr s rt (merged_right bo (mem_addr s b off mod 4) (gpr s rt) (get_mem s (mem_addr s b off) 4))))"
proof -
  have read4: "\<And>mc. rep mc s \<Longrightarrow> succeeds (read_arg (Mips32 bo ar) insn 1 0 mc) (\<lambda>(v, mc'). sv_is v 32 (get_mem s (mem_addr s b off) 4) \<and> rep mc' s)"
    using read_mem_arg [OF _ with_args2(3) [OF args]] by simp
  note steps = args_step read_gpr_step read4 [THEN bind_read] mergeRight_is [OF _ args, THEN bind_read] word_extend_step write_result
  show "succeeds (IP_lwr (Mips32 bo ar) insn ds mc)
      (\<lambda>mc'. rep mc' (set_gpr s rt (merged_right bo (mem_addr s b off mod 4) (gpr s rt) (get_mem s (mem_addr s b off) 4))))"
    unfolding IP_lwr_def Let_def mips32 using assms(1) with_args2 [OF args] by - (rule steps | assumption | (simp; fail))+
  show "succeeds (IP_lwl (Mips32 bo ar) insn ds mc)
      (\<lambda>mc'. rep mc' (set_gpr s rt (merged_right bo (mem_addr s b off mod 4) (gpr s rt) (get_mem s (mem_addr s b off) 4))))"
    unfolding IP_lwl_def Let_def mips32 using assms(1) with_args2 [OF args] by - (rule steps | assumption | (simp; fail))+
qed

end

lemma advanced_frame:
  assumes "j < 32"
  shows "gpr (advanced s a n) j = gpr s j" "mem_addr (advanced s a n) j off = mem_addr s j off"
    "get_mem (advanced s a n) x k = get_mem s x k"
  using assms by (simp_all add: advanced_def gpr_def mem_addr_def get_set_other)

text \<open>
  C37. The loads of an unaligned word, to the left and to the right alike, replace the low-order bytes of
  the register, one to four of them by the two low bits of the address and the byte order, by the
  low-order bytes of the four bytes at the address itself, which is not aligned; no other register and no
  byte of memory changes.
\<close>

theorem unaligned_loads:
  assumes "machine_rep mc s" "k \<in> {mips_lwl, mips_lwr}" "rt < 32" "b < 32" "off < 2 ^ 32"
  shows "succeeds (processInstruction (Mips32 bo True) (encode (AInsn k a n [Gpr rt, Mem b off 4] None)) mc)
    (\<lambda>mc'. machine_rep mc' (set_gpr (set_reg s REG_PC (unat (a + n) mod 2 ^ 32)) rt
       (merged_right bo (mem_addr s b off mod 4) (gpr s rt) (get_mem s (mem_addr s b off) 4))))"
proof -
  let ?i = "encode (AInsn k a n [Gpr rt, Mem b off 4] None)"
  let ?s = "set_gpr (advanced s a n) rt (merged_right bo (mem_addr s b off mod 4) (gpr s rt) (get_mem s (mem_addr s b off) 4))"
  have args: "with_args ?i [Gpr rt, Mem b off 4]" using assms(3-5) by (simp add: with_args_def)
  have "runs machine_rep bo ?i (\<lambda>mc. None) mc ?s" if r: "machine_rep mc (advanced s a n)" for mc
    using cm.unaligned_functors [OF r args, of bo True "\<lambda>mc. None"] assms(2)
    unfolding advanced_frame [OF assms(3)] advanced_frame [OF assms(4)] by (auto simp: runs_def dispatch_table)
  with cm.process_runs [OF assms(1), of ?i bo "\<lambda>mc. None" ?s]
  show ?thesis by (auto simp: processInstruction_def advanced_def)
qed

theorem unaligned_loads_witness:
  "succeeds (processInstruction (Mips32 ORDER_MSB True) (encode (AInsn mips_lwl 0 4 [Gpr 2, Mem 0 5 4] None)) sample_machine)
     (\<lambda>mc'. machine_rep mc' (set_gpr (set_reg zero_state REG_PC (unat (0 + 4 :: 64 word) mod 2 ^ 32)) 2
       (merged_right ORDER_MSB (mem_addr zero_state 0 5 mod 4) (gpr zero_state 2) (get_mem zero_state (mem_addr zero_state 0 5) 4))))"
  by (rule unaligned_loads [OF sample_rep]) simp_all

text \<open>The manual's reading of a load to the left differs: the high-order bytes of the register are replaced.\<close>

lemma unaligned_left_example:
  "merged_right ORDER_MSB 3 0x11223344 0xAABBCCDD = 0xAABBCCDD" "merged_right ORDER_MSB 0 0x11223344 0xAABBCCDD = 0x112233DD"
  "merged_right ORDER_LSB 1 0x11223344 0xAABBCCDD = 0x11BBCCDD"
  by (simp_all add: merged_right_def)

end
