(* ===== verification/Mips_Decode.thy ===== *)
theory Mips_Decode
  imports Decoder_Search Mips_Registers Mips_Correct
begin

text \<open>
  The instructions that the decoders make, in terms of the operands of the abstract instruction set:
  every field of a word names a register or a number, and the decoders of the kinds of the abstract
  instruction set make well-formed instructions.
\<close>

section \<open>Fields as numbers\<close>

lemma GenMask_eq: "n \<le> 32 \<Longrightarrow> GenMask n = mask n"
  by (auto simp: GenMask_def SHL1_def mask_eq_exp_minus_1 push_bit_eq_mult)

lemma extract_field_unat:
  assumes "lobit \<le> hibit" "hibit < 32" "hibit - lobit < 31"
  shows "unat (extract_field lobit hibit w) = unat w div 2 ^ lobit mod 2 ^ (1 + hibit - lobit)"
proof -
  have "extract_field lobit hibit w = take_bit (1 + hibit - lobit) (drop_bit lobit w)"
    using assms by (simp add: extract_field_def shiftRightLogical_def GenMask_eq take_bit_eq_mask)
  moreover have "unat w < 2 ^ LENGTH(32)" by (rule unsigned_less)
  ultimately show ?thesis by (simp only: unsigned_take_bit_eq unsigned_drop_bit_eq) (simp add: take_bit_eq_mod drop_bit_eq_div)
qed

lemma field_numbers:
  "unat (gR0 w) = unat w div 2 ^ 21 mod 32" "unat (gR1 w) = unat w div 2 ^ 16 mod 32" "unat (gR2 w) = unat w div 2 ^ 11 mod 32"
  "unat (gR3 w) = unat w div 2 ^ 6 mod 32" "unat (gIM w) = unat w mod 2 ^ 16"
  by (simp_all add: gR0_def gR1_def gR2_def gR3_def gIM_def extract_field_unat)

lemma field_less:
  "unat (gR0 w) < 32" "unat (gR1 w) < 32" "unat (gR2 w) < 32" "unat (gR3 w) < 32" "unat (gIM w) < 2 ^ 16"
  "unat (extract_field 7 15 w) < 2 ^ 9" "unat (extract_field 0 25 w) < 2 ^ 26"
  by (simp_all add: field_numbers extract_field_unat)

lemma high_bits_clear:
  fixes v :: "32 word"
  assumes "unat v < 2 ^ n"
  shows "v AND NOT (mask n) = 0"
proof -
  have "take_bit n v = v" using assms by (simp add: word_unat_eq_iff unsigned_take_bit_eq take_bit_nat_eq_self_iff)
  then have "v AND mask n = v" by (simp add: take_bit_eq_mask)
  then have "v AND NOT (mask n) = (v AND mask n) AND NOT (mask n)" by simp
  then show ?thesis by (simp add: and.assoc)
qed

lemma signed_of_take_bit:
  assumes "x < 2 ^ n" "0 < n"
  shows "signed_of n x = signed_take_bit (n - 1) (int x)"
  using assms by (auto simp: signed_of_def signed_take_bit_eq_if_positive signed_take_bit_eq_if_negative bit_of_nat_iff
      take_bit_int_eq_self signed_take_bit_eq_take_bit_minus)

lemma signExtend_number:
  fixes v :: "32 word"
  assumes v: "unat v < 2 ^ n" and n: "0 < n" "n \<le> m" "m \<le> 32"
  shows "int (unat (IntegerOps_signExtend n m v)) = signed_of n (unat v) mod 2 ^ m"
proof (rule bit_eqI)
  fix i
  have n1: "n - 1 < 32" using n by simp
  have s: "signBit n v \<longleftrightarrow> bit v (n - 1)"
    using n1 by (simp add: signBit_def SHL1_def push_bit_eq_mult and_exp_eq_0_iff_not_bit)
  have "take_bit n v = v" using v by (simp add: word_unat_eq_iff unsigned_take_bit_eq take_bit_nat_eq_self_iff)
  then have h: "n \<le> i \<Longrightarrow> \<not> bit v i" by (metis bit_take_bit_iff not_le)
  have l: "bit (int (unat (IntegerOps_signExtend n m v))) i \<longleftrightarrow> bit v i \<or> bit v (n - 1) \<and> n \<le> i \<and> i < m"
    using n s by (auto simp: IntegerOps_signExtend_def GenMask_eq bit_of_nat_iff bit_unsigned_iff bit_simps)
  have r: "bit (signed_of n (unat v) mod 2 ^ m) i \<longleftrightarrow> i < m \<and> bit v (if i < n then i else n - 1)"
    using n by (cases "i = n - 1") (auto simp: signed_of_take_bit [OF v n(1)] bit_simps bit_of_nat_iff min_def simp flip: take_bit_eq_mod)
  show "bit (int (unat (IntegerOps_signExtend n m v))) i = bit (signed_of n (unat v) mod 2 ^ m) i"
    unfolding l r using n h by auto
qed

lemma signExtend_sx:
  assumes "unat v < 2 ^ n" "0 < n" "n \<le> 32"
  shows "unat (IntegerOps_signExtend n 32 v) = sx n (unat v)"
  using arg_cong [OF signExtend_number [OF assms order_refl], of nat] by (simp only: nat_int sx_def)

section \<open>Operands\<close>

lemma makeRegister_is: "unat r < 32 \<Longrightarrow> makeRegister r = Some (operand_expr (Gpr (unat r)))"
  by (simp add: makeRegister_def find_gpr [simplified] reg_isEmpty_def register_expr_def gpr_expr_def)

lemma integer_operand:
  fixes v :: "32 word"
  assumes "unat v < 2 ^ t" "t \<le> 64"
  shows "IntegerValue_new (ucast v) t = Some (operand_expr (Imm t (unat v)))"
  using IntegerValue_new_is(2) [OF assms(2,1)] by simp

lemma makeImmediate8_is:
  assumes "unat v < 2 ^ 8"
  shows "makeImmediate8 v = Some (operand_expr (Imm 8 (unat v)))"
proof -
  have "unat (ucast v :: 8 word) = unat v" using assms by (simp add: unsigned_ucast_eq take_bit_nat_eq_self_iff)
  then have e: "ucast (ucast v :: 8 word) = (of_nat (unat v) :: 64 word)" by (metis of_nat_unat)
  have "v AND NOT 0xff = 0" using high_bits_clear [OF assms] by (simp add: mask_eq_exp_minus_1)
  with e show ?thesis using assms integer_operand [of v 8] by (simp add: makeImmediate8_def)
qed

lemma makeImmediate16_is:
  assumes "unat v < 2 ^ 16"
  shows "makeImmediate16 v = Some (operand_expr (Imm 16 (unat v)))"
proof -
  have "unat (ucast v :: 16 word) = unat v" using assms by (simp add: unsigned_ucast_eq take_bit_nat_eq_self_iff)
  then have e: "ucast (ucast v :: 16 word) = (of_nat (unat v) :: 64 word)" by (metis of_nat_unat)
  have "v AND NOT 0xffff = 0" using high_bits_clear [OF assms] by (simp add: mask_eq_exp_minus_1)
  with e show ?thesis using assms integer_operand [of v 16] by (simp add: makeImmediate16_def)
qed

lemma immediate32: "IntegerValue_new (ucast (v :: 32 word)) 32 = Some (operand_expr (Imm 32 (unat v)))"
  using integer_operand [of v 32] unsigned_less [of v] by simp

lemma makeRegisterOffset_is:
  assumes "unat r < 32" "unat v < 2 ^ 16"
  shows "makeRegisterOffset r v = Some (offset_expr (unat r) (sx 16 (unat v)))"
proof -
  have "v AND NOT 0xffff = 0" using high_bits_clear [OF assms(2)] by (simp add: mask_eq_exp_minus_1)
  then show ?thesis using signExtend_sx [OF assms(2)]
    by (simp add: makeRegisterOffset_def makeRegister_is [OF assms(1)] immediate32 offset_expr_def buildAddExpression_def)
qed

lemma sx_less: "sx t y < 2 ^ 32"
  unfolding sx_def by (simp add: nat_less_iff)

text \<open>The offsets of nine bits are extended twice.\<close>

lemma makeRegisterOffset9_is:
  assumes "unat r < 32" "unat v < 2 ^ 9"
  shows "makeRegisterOffset r (IntegerOps_signExtend 9 16 v) = Some (offset_expr (unat r) (sx 9 (unat v)))"
proof -
  let ?u = "IntegerOps_signExtend 9 16 v"
  have u: "int (unat ?u) = signed_of 9 (unat v) mod 2 ^ 16" using signExtend_number [of v 9 16] assms(2) by simp
  then have less: "unat ?u < 2 ^ 16" by (metis of_nat_less_numeral_power_cancel_iff pos_mod_bound zero_less_numeral zero_less_power)
  have "signed_of 16 (unat ?u) = signed_take_bit 15 (signed_of 9 (unat v))"
    using signed_of_take_bit [OF less] u signed_take_bit_take_bit [of 15 16 "signed_of 9 (unat v)"] by (simp add: take_bit_eq_mod)
  also have "\<dots> = signed_of 9 (unat v)" using signed_of_take_bit [OF assms(2)] by (simp add: signed_take_bit_signed_take_bit)
  finally show ?thesis using makeRegisterOffset_is [OF assms(1) less] by (simp add: sx_def)
qed

lemma makeMemoryReference_is: "0 < n \<Longrightarrow> makeMemoryReference (offset_expr b off) (8 * n) = operand_expr (Mem b off n)"
  by (simp add: makeMemoryReference_def mem_expr_def)

section \<open>Branch targets\<close>

definition relative_target :: "64 word \<Rightarrow> nat \<Rightarrow> nat" where
  "relative_target va y = nat ((int (unat va) + 4 + 4 * signed_of 16 y) mod 2 ^ 32)"

definition absolute_target :: "64 word \<Rightarrow> nat \<Rightarrow> nat" where
  "absolute_target va y = (unat va + 4) mod 2 ^ 32 div 2 ^ 28 * 2 ^ 28 + 4 * y"

lemma low_half: "ucast (x AND ucast (GenMask 32)) = (ucast (x :: 64 word) :: 32 word)"
  by (rule bit_word_eqI) (simp add: GenMask_eq bit_simps)

lemma low_sum: "uint (ucast (x + 4 + ucast (y :: 32 word) :: 64 word) :: 32 word) = (uint x + 4 + uint y) mod 2 ^ 32"
proof -
  have "(a mod 2 ^ 64 + b mod 2 ^ 64) mod 2 ^ 32 = (a + b) mod (2 ^ 32 :: int)" for a b
    by (subst (1 2) mod_add_eq [symmetric]) (simp add: mod_mod_cancel)
  from this [of "uint x + 4" "uint y"] show ?thesis
    by (simp add: unsigned_ucast_eq take_bit_eq_mod uint_word_ariths mod_mod_cancel)
qed

lemma makeBranchTargetRelative_is:
  assumes "unat v < 2 ^ 16"
  shows "makeBranchTargetRelative va v = Some (operand_expr (Imm 32 (relative_target va (unat v))))"
proof -
  have z: "v AND NOT 0xffff = 0" using high_bits_clear [OF assms] by (simp add: mask_eq_exp_minus_1)
  define u where "u = IntegerOps_shiftLeft v 2"
  have "u = 4 * v" by (simp add: u_def IntegerOps_shiftLeft_def SHL1_def GenMask_def push_bit_eq_mult mult.commute)
  then have u: "unat u = 4 * unat v" using assms by (simp add: unat_word_ariths)
  then have less: "unat u < 2 ^ 18" using assms by simp
  have "signed_of 18 (4 * unat v) = 4 * signed_of 16 (unat v)"
    using bit_push_bit_iff [of 2 "unat v" 17] by (simp add: signed_of_def push_bit_eq_mult mult.commute)
  then have e: "int (unat (IntegerOps_signExtend 18 32 u)) = (4 * signed_of 16 (unat v)) mod 2 ^ 32"
    using signExtend_number [OF less, of 32] u by simp
  define t :: "32 word" where "t = ucast ((va + 4 + ucast (IntegerOps_signExtend 18 32 u)) AND ucast (GenMask 32))"
  have "t = ucast (va + 4 + ucast (IntegerOps_signExtend 18 32 u))" unfolding t_def by (rule low_half)
  then have "uint t = (uint va + 4 + uint (IntegerOps_signExtend 18 32 u)) mod 2 ^ 32" by (simp only: low_sum)
  also have "\<dots> = (int (unat va) + 4 + 4 * signed_of 16 (unat v)) mod 2 ^ 32"
    using e by (simp only: uint_nat mod_add_right_eq)
  finally have "uint t = (int (unat va) + 4 + 4 * signed_of 16 (unat v)) mod 2 ^ 32" .
  then have "unat t = relative_target va (unat v)" by (simp add: relative_target_def flip: nat_uint_eq)
  with immediate32 [of t] show ?thesis using z by (simp add: makeBranchTargetRelative_def Let_def u_def [symmetric] t_def [symmetric])
qed

lemma makeBranchTargetAbsolute_is:
  assumes "unat v < 2 ^ 26"
  shows "makeBranchTargetAbsolute va v 0 26 = Some (operand_expr (Imm 32 (absolute_target va (unat v))))"
proof -
  have "take_bit 26 v = v" using assms by (simp add: word_unat_eq_iff unsigned_take_bit_eq take_bit_nat_eq_self_iff)
  then have v: "bit v i \<Longrightarrow> i < 26" for i by (metis bit_take_bit_iff)
  have z: "ucast v AND NOT (genMask 26) = (0 :: 64 word)" by (rule bit_word_eqI) (auto simp: genMask_eq bit_simps dest: v)
  define lo where "lo = IntegerOps_shiftLeft v 2 AND mask 28"
  define hi :: "32 word" where "hi = ucast ((va + 4) AND ucast (NOT (mask 28) :: 32 word))"
  have sl: "IntegerOps_shiftLeft v 2 = push_bit 2 v" by (simp add: IntegerOps_shiftLeft_def SHL1_def GenMask_def push_bit_eq_mult)
  have "bit lo i = bit (push_bit 2 v) i" for i using v [of "i - 2"] by (auto simp: lo_def sl bit_simps)
  then have "lo = push_bit 2 v" by (rule bit_eqI)
  then have lo: "unat lo = 4 * unat v" using assms by (simp add: push_bit_eq_mult unat_word_ariths mult.commute)
  have hi: "hi = push_bit 28 (drop_bit 28 (ucast (va + 4)))" unfolding hi_def by (rule bit_word_eqI) (auto simp: bit_simps)
  have x: "unat (ucast (va + 4) :: 32 word) = (unat va + 4) mod 2 ^ 32"
    by (simp add: unsigned_ucast_eq take_bit_eq_mod unat_word_ariths mod_mod_cancel)
  have uhi: "unat hi = (unat va + 4) mod 2 ^ 32 div 2 ^ 28 * 2 ^ 28"
    unfolding hi unsigned_push_bit_eq unsigned_drop_bit_eq x by (simp add: push_bit_eq_mult drop_bit_eq_div take_bit_eq_mod mult.commute)
  have "hi AND lo = 0" unfolding hi lo_def by (rule bit_word_eqI) (auto simp: bit_simps)
  then have "hi OR lo = hi + lo" by (simp add: disjunctive_add_eq_or)
  moreover have "unat hi + unat lo < 2 ^ 32"
  proof -
    have "(unat va + 4) mod 2 ^ 32 div 2 ^ 28 < 16" by (rule less_mult_imp_div_less) simp
    then show ?thesis using assms unfolding lo uhi by simp
  qed
  ultimately have "unat (hi OR lo) = absolute_target va (unat v)"
    by (simp add: unat_plus_if' absolute_target_def lo uhi)
  moreover have "ucast (genMask 28) = (mask 28 :: 32 word)" by (rule bit_word_eqI) (simp add: genMask_eq bit_simps)
  ultimately show ?thesis using immediate32 [of "hi OR lo"] z
    by (simp add: makeBranchTargetAbsolute_def Let_def lo_def hi_def)
qed

end
