(* ===== verification/Mips_Decoded.thy ===== *)
theory Mips_Decoded
  imports Mips_Decode
begin

text \<open>
  The instructions that each decoder makes, for the kinds of the abstract instruction set, and that the
  other decoders make none of these kinds.
\<close>

section \<open>The makers on the fields of a word\<close>

lemma small_field: "unat v < 32 \<Longrightarrow> unat v < 2 ^ 8" for v :: "32 word"
  by simp

lemmas made = field_less(1-4) [THEN makeRegister_is] field_less(1-4) [THEN small_field, THEN makeImmediate8_is]
  field_less(5) [THEN makeImmediate16_is] field_less(5) [THEN makeBranchTargetRelative_is]
  field_less(7) [THEN makeBranchTargetAbsolute_is] makeRegisterOffset_is [OF field_less(1) field_less(5)]
  makeRegisterOffset9_is [OF field_less(1) field_less(6)]

lemma made_memory:
  "makeMemoryReference (offset_expr b off) 8 = operand_expr (Mem b off 1)" "makeMemoryReference (offset_expr b off) 16 = operand_expr (Mem b off 2)"
  "makeMemoryReference (offset_expr b off) 32 = operand_expr (Mem b off 4)" "makeMemoryReference (offset_expr b off) 64 = operand_expr (Mem b off 8)"
  using makeMemoryReference_is [of 1 b off] makeMemoryReference_is [of 2 b off] makeMemoryReference_is [of 4 b off] makeMemoryReference_is [of 8 b off]
  by (simp_all del: operand_expr.simps)

section \<open>Decoding\<close>

definition plain :: "64 word \<Rightarrow> mips_kind \<Rightarrow> operand list \<Rightarrow> mips_insn" where
  "plain va k ps = makeInstruction va k (map operand_expr ps)"

lemma decoded:
  "d_decode mips32_add va w = Some (plain va mips_add [Gpr (unat (gR2 w)), Gpr (unat (gR0 w)), Gpr (unat (gR1 w))])"
  "d_decode mips32_addu va w = Some (plain va mips_addu [Gpr (unat (gR2 w)), Gpr (unat (gR0 w)), Gpr (unat (gR1 w))])"
  "d_decode mips32_and va w = Some (plain va mips_and [Gpr (unat (gR2 w)), Gpr (unat (gR0 w)), Gpr (unat (gR1 w))])"
  "d_decode mips32_mul va w = Some (plain va mips_mul [Gpr (unat (gR2 w)), Gpr (unat (gR0 w)), Gpr (unat (gR1 w))])"
  "d_decode mips32_nor va w = Some (plain va mips_nor [Gpr (unat (gR2 w)), Gpr (unat (gR0 w)), Gpr (unat (gR1 w))])"
  "d_decode mips32_or va w = Some (plain va mips_or [Gpr (unat (gR2 w)), Gpr (unat (gR0 w)), Gpr (unat (gR1 w))])"
  "d_decode mips32_sub va w = Some (plain va mips_sub [Gpr (unat (gR2 w)), Gpr (unat (gR0 w)), Gpr (unat (gR1 w))])"
  "d_decode mips32_subu va w = Some (plain va mips_subu [Gpr (unat (gR2 w)), Gpr (unat (gR0 w)), Gpr (unat (gR1 w))])"
  "d_decode mips32_xor va w = Some (plain va mips_xor [Gpr (unat (gR2 w)), Gpr (unat (gR0 w)), Gpr (unat (gR1 w))])"
  "d_decode mips32_slt va w = Some (plain va mips_slt [Gpr (unat (gR2 w)), Gpr (unat (gR0 w)), Gpr (unat (gR1 w))])"
  "d_decode mips32_sltu va w = Some (plain va mips_sltu [Gpr (unat (gR2 w)), Gpr (unat (gR0 w)), Gpr (unat (gR1 w))])"
  "d_decode mips32_movz va w = Some (plain va mips_movz [Gpr (unat (gR2 w)), Gpr (unat (gR0 w)), Gpr (unat (gR1 w))])"
  "d_decode mips32_movn va w = Some (plain va mips_movn [Gpr (unat (gR2 w)), Gpr (unat (gR0 w)), Gpr (unat (gR1 w))])"
  "d_decode mips32_sllv va w = Some (plain va mips_sllv [Gpr (unat (gR2 w)), Gpr (unat (gR1 w)), Gpr (unat (gR0 w))])"
  "d_decode mips32_srlv va w = Some (plain va mips_srlv [Gpr (unat (gR2 w)), Gpr (unat (gR1 w)), Gpr (unat (gR0 w))])"
  "d_decode mips32_srav va w = Some (plain va mips_srav [Gpr (unat (gR2 w)), Gpr (unat (gR1 w)), Gpr (unat (gR0 w))])"
  "d_decode mips32_rotrv va w = Some (plain va mips_rotrv [Gpr (unat (gR2 w)), Gpr (unat (gR1 w)), Gpr (unat (gR0 w))])"
  "d_decode mips32_addi va w = Some (plain va mips_addi [Gpr (unat (gR1 w)), Gpr (unat (gR0 w)), Imm 16 (unat (gIM w))])"
  "d_decode mips32_addiu va w = Some (plain va mips_addiu [Gpr (unat (gR1 w)), Gpr (unat (gR0 w)), Imm 16 (unat (gIM w))])"
  "d_decode mips32_andi va w = Some (plain va mips_andi [Gpr (unat (gR1 w)), Gpr (unat (gR0 w)), Imm 16 (unat (gIM w))])"
  "d_decode mips32_ori va w = Some (plain va mips_ori [Gpr (unat (gR1 w)), Gpr (unat (gR0 w)), Imm 16 (unat (gIM w))])"
  "d_decode mips32_xori va w = Some (plain va mips_xori [Gpr (unat (gR1 w)), Gpr (unat (gR0 w)), Imm 16 (unat (gIM w))])"
  "d_decode mips32_slti va w = Some (plain va mips_slti [Gpr (unat (gR1 w)), Gpr (unat (gR0 w)), Imm 16 (unat (gIM w))])"
  "d_decode mips32_sltiu va w = Some (plain va mips_sltiu [Gpr (unat (gR1 w)), Gpr (unat (gR0 w)), Imm 16 (unat (gIM w))])"
  "d_decode mips32_srl va w = Some (plain va mips_srl [Gpr (unat (gR2 w)), Gpr (unat (gR1 w)), Imm 8 (unat (gR3 w))])"
  "d_decode mips32_sra va w = Some (plain va mips_sra [Gpr (unat (gR2 w)), Gpr (unat (gR1 w)), Imm 8 (unat (gR3 w))])"
  "d_decode mips32_rotr va w = Some (plain va mips_rotr [Gpr (unat (gR2 w)), Gpr (unat (gR1 w)), Imm 8 (unat (gR3 w))])"
  "d_decode mips32_clo va w = Some (plain va mips_clo [Gpr (unat (gR2 w)), Gpr (unat (gR0 w))])"
  "d_decode mips32_clz va w = Some (plain va mips_clz [Gpr (unat (gR2 w)), Gpr (unat (gR0 w))])"
  "d_decode mips32_seb va w = Some (plain va mips_seb [Gpr (unat (gR2 w)), Gpr (unat (gR1 w))])"
  "d_decode mips32_seh va w = Some (plain va mips_seh [Gpr (unat (gR2 w)), Gpr (unat (gR1 w))])"
  "d_decode mips32_mult va w = Some (plain va mips_mult [Gpr (unat (gR0 w)), Gpr (unat (gR1 w))])"
  "d_decode mips32_multu va w = Some (plain va mips_multu [Gpr (unat (gR0 w)), Gpr (unat (gR1 w))])"
  "d_decode mips32_madd va w = Some (plain va mips_madd [Gpr (unat (gR0 w)), Gpr (unat (gR1 w))])"
  "d_decode mips32_maddu va w = Some (plain va mips_maddu [Gpr (unat (gR0 w)), Gpr (unat (gR1 w))])"
  "d_decode mips32_msub va w = Some (plain va mips_msub [Gpr (unat (gR0 w)), Gpr (unat (gR1 w))])"
  "d_decode mips32_msubu va w = Some (plain va mips_msubu [Gpr (unat (gR0 w)), Gpr (unat (gR1 w))])"
  "d_decode mips32_mfhi va w = Some (plain va mips_mfhi [Gpr (unat (gR2 w))])"
  "d_decode mips32_mflo va w = Some (plain va mips_mflo [Gpr (unat (gR2 w))])"
  "d_decode mips32_mthi va w = Some (plain va mips_mthi [Gpr (unat (gR0 w))])"
  "d_decode mips32_mtlo va w = Some (plain va mips_mtlo [Gpr (unat (gR0 w))])"
  "d_decode mips32_lui va w = Some (plain va mips_lui [Gpr (unat (gR1 w)), Imm 16 (unat (gIM w))])"
  "d_decode mips32_lb va w = Some (plain va mips_lb [Gpr (unat (gR1 w)), Mem (unat (gR0 w)) (sx 16 (unat (gIM w))) 1])"
  "d_decode mips32_lbe va w = Some (plain va mips_lbe [Gpr (unat (gR1 w)), Mem (unat (gR0 w)) (sx 9 (unat (extract_field 7 15 w))) 1])"
  "d_decode mips32_lbu va w = Some (plain va mips_lbu [Gpr (unat (gR1 w)), Mem (unat (gR0 w)) (sx 16 (unat (gIM w))) 1])"
  "d_decode mips32_lbue va w = Some (plain va mips_lbue [Gpr (unat (gR1 w)), Mem (unat (gR0 w)) (sx 9 (unat (extract_field 7 15 w))) 1])"
  "d_decode mips32_lh va w = Some (plain va mips_lh [Gpr (unat (gR1 w)), Mem (unat (gR0 w)) (sx 16 (unat (gIM w))) 2])"
  "d_decode mips32_lhe va w = Some (plain va mips_lhe [Gpr (unat (gR1 w)), Mem (unat (gR0 w)) (sx 9 (unat (extract_field 7 15 w))) 2])"
  "d_decode mips32_lhu va w = Some (plain va mips_lhu [Gpr (unat (gR1 w)), Mem (unat (gR0 w)) (sx 16 (unat (gIM w))) 2])"
  "d_decode mips32_lhue va w = Some (plain va mips_lhue [Gpr (unat (gR1 w)), Mem (unat (gR0 w)) (sx 9 (unat (extract_field 7 15 w))) 2])"
  "d_decode mips32_lw va w = Some (plain va mips_lw [Gpr (unat (gR1 w)), Mem (unat (gR0 w)) (sx 16 (unat (gIM w))) 4])"
  "d_decode mips32_lwe va w = Some (plain va mips_lwe [Gpr (unat (gR1 w)), Mem (unat (gR0 w)) (sx 9 (unat (extract_field 7 15 w))) 4])"
  "d_decode mips32_sb va w = Some (plain va mips_sb [Gpr (unat (gR1 w)), Mem (unat (gR0 w)) (sx 16 (unat (gIM w))) 1])"
  "d_decode mips32_sbe va w = Some (plain va mips_sbe [Gpr (unat (gR1 w)), Mem (unat (gR0 w)) (sx 9 (unat (extract_field 7 15 w))) 1])"
  "d_decode mips32_sh va w = Some (plain va mips_sh [Gpr (unat (gR1 w)), Mem (unat (gR0 w)) (sx 16 (unat (gIM w))) 2])"
  "d_decode mips32_she va w = Some (plain va mips_she [Gpr (unat (gR1 w)), Mem (unat (gR0 w)) (sx 9 (unat (extract_field 7 15 w))) 2])"
  "d_decode mips32_sw va w = Some (plain va mips_sw [Gpr (unat (gR1 w)), Mem (unat (gR0 w)) (sx 16 (unat (gIM w))) 4])"
  "d_decode mips32_swe va w = Some (plain va mips_swe [Gpr (unat (gR1 w)), Mem (unat (gR0 w)) (sx 9 (unat (extract_field 7 15 w))) 4])"
  "d_decode mips32_bne va w = Some (plain va mips_bne [Gpr (unat (gR0 w)), Gpr (unat (gR1 w)), Imm 32 (relative_target va (unat (gIM w)))])"
  "d_decode mips32_bgez va w = Some (plain va mips_bgez [Gpr (unat (gR0 w)), Imm 32 (relative_target va (unat (gIM w)))])"
  "d_decode mips32_bgtz va w = Some (plain va mips_bgtz [Gpr (unat (gR0 w)), Imm 32 (relative_target va (unat (gIM w)))])"
  "d_decode mips32_blez va w = Some (plain va mips_blez [Gpr (unat (gR0 w)), Imm 32 (relative_target va (unat (gIM w)))])"
  "d_decode mips32_bltz va w = Some (plain va mips_bltz [Gpr (unat (gR0 w)), Imm 32 (relative_target va (unat (gIM w)))])"
  "d_decode mips32_bltzal va w = Some (plain va mips_bltzal [Gpr (unat (gR0 w)), Imm 32 (relative_target va (unat (gIM w)))])"
  "d_decode mips32_j va w = Some (plain va mips_j [Imm 32 (absolute_target va (unat (extract_field 0 25 w)))])"
  "d_decode mips32_jal va w = Some (plain va mips_jal [Imm 32 (absolute_target va (unat (extract_field 0 25 w)))])"
  "d_decode mips32_jalx va w = Some (plain va mips_jalx [Imm 32 (absolute_target va (unat (extract_field 0 25 w)))])"
  "d_decode mips32_jr va w = Some (plain va mips_jr [Gpr (unat (gR0 w))])"
  "d_decode mips32_jr_hb va w = Some (plain va mips_jr_hb [Gpr (unat (gR0 w))])"
  "d_decode mips32_jalr va w = Some (plain va mips_jalr [Gpr (unat (gR2 w)), Gpr (unat (gR0 w))])"
  "d_decode mips32_jalr_hb va w = Some (plain va mips_jalr_hb [Gpr (unat (gR2 w)), Gpr (unat (gR0 w))])"
  unfolding decoder_defs decoder_sel by (simp_all only: made made_memory bind.bind_lunit plain_def list.map Let_def)

lemma decoded_beq: "d_decode mips32_beq va w =
    Some (if gR0 w = 0 \<and> gR1 w = 0 then plain va mips_b [Imm 32 (relative_target va (unat (gIM w)))]
      else plain va mips_beq [Gpr (unat (gR0 w)), Gpr (unat (gR1 w)), Imm 32 (relative_target va (unat (gIM w)))])"
  unfolding mips32_beq_def decoder_sel by (simp only: made bind.bind_lunit plain_def list.map if_distrib [of Some])

lemma decoded_bgezal: "d_decode mips32_bgezal va w =
    Some (if gR0 w = 0 then plain va mips_bal [Imm 32 (relative_target va (unat (gIM w)))]
      else plain va mips_bgezal [Gpr (unat (gR0 w)), Imm 32 (relative_target va (unat (gIM w)))])"
  unfolding mips32_bgezal_def decoder_sel by (simp only: made bind.bind_lunit plain_def list.map if_distrib [of Some])

lemma decoded_sll: "d_decode mips32_sll va w =
    Some (if gR1 w = 0 \<and> gR2 w = 0 \<and> gR3 w = 0 then plain va mips_nop []
      else if gR1 w = 0 \<and> gR2 w = 0 \<and> gR3 w = 1 then plain va mips_ssnop []
      else if gR1 w = 0 \<and> gR2 w = 0 \<and> gR3 w = 3 then plain va mips_ehb []
      else plain va mips_sll [Gpr (unat (gR2 w)), Gpr (unat (gR1 w)), Imm 8 (unat (gR3 w))])"
  unfolding mips32_sll_def decoder_sel by (simp only: made bind.bind_lunit plain_def list.map if_distrib [of Some])

section \<open>The kinds that are decoded\<close>

text \<open>The kinds of the abstract instruction set that the table can decode, without and with a delay slot.\<close>

definition exec_kinds :: "mips_kind list" where
  "exec_kinds = [mips_add, mips_addu, mips_and, mips_mul, mips_nor, mips_or, mips_sub, mips_subu, mips_xor, mips_slt, mips_sltu, mips_movz, mips_movn, mips_sllv, mips_srlv, mips_srav, mips_rotrv, mips_addi, mips_addiu, mips_andi, mips_ori, mips_xori, mips_slti, mips_sltiu, mips_srl, mips_sra, mips_rotr, mips_clo, mips_clz, mips_seb, mips_seh, mips_mult, mips_multu, mips_madd, mips_maddu, mips_msub, mips_msubu, mips_mfhi, mips_mflo, mips_mthi, mips_mtlo, mips_lui, mips_lb, mips_lbe, mips_lbu, mips_lbue, mips_lh, mips_lhe, mips_lhu, mips_lhue, mips_lw, mips_lwe, mips_sb, mips_sbe, mips_sh, mips_she, mips_sw, mips_swe, mips_nop, mips_ssnop, mips_ehb, mips_sll]"

definition branch_kinds :: "mips_kind list" where
  "branch_kinds = [mips_bne, mips_bgez, mips_bgtz, mips_blez, mips_bltz, mips_bltzal, mips_j, mips_jal, mips_jalx, mips_jr, mips_jr_hb, mips_jalr, mips_jalr_hb, mips_b, mips_bal, mips_beq, mips_bgezal]"

definition modelled_kinds :: "mips_kind list" where
  "modelled_kinds = exec_kinds @ branch_kinds"

lemma modelled_numbers: "modelled_kinds = [4, 10, 12, 204, 220, 221, 267, 271, 310, 256, 259, 188, 180, 255, 265, 263, 236, 8, 9, 13, 222, 311, 257, 258, 264, 262, 235, 97, 98, 250, 251, 208, 209, 161, 165, 192, 196, 171, 172, 202, 203, 149, 136, 137, 138, 139, 143, 144, 145, 146, 151, 154, 243, 244, 252, 253, 273, 276, 219, 266, 120, 254, 38, 26, 30, 32, 34, 35, 129, 130, 133, 134, 135, 131, 132, 14, 15, 24, 27]"
  by (simp add: modelled_kinds_def exec_kinds_def branch_kinds_def)

definition well_made :: "64 word \<Rightarrow> mips_insn \<Rightarrow> bool" where
  "well_made va insn \<longleftrightarrow> (\<exists>ps. insn = plain va (get_kind insn) ps \<and> (\<forall>p\<in>set ps. operand_ok p) \<and>
     (if get_kind insn \<in> set exec_kinds then exec_shape (get_kind insn) ps else branch_shape (get_kind insn) ps))"

definition decodes_well :: "decoder \<Rightarrow> bool" where
  "decodes_well d \<longleftrightarrow> (\<forall>va w insn. d_decode d va w = Some insn \<longrightarrow> get_kind insn \<in> set modelled_kinds \<longrightarrow> well_made va insn)"

text \<open>Decoders that make none of these kinds.\<close>

definition makes_other :: "mips_insn option \<Rightarrow> bool" where
  "makes_other r \<longleftrightarrow> (\<forall>insn. r = Some insn \<longrightarrow> get_kind insn \<notin> set modelled_kinds)"

lemma makes_other_bind: "(\<And>a. makes_other (f a)) \<Longrightarrow> makes_other (r \<bind> f)"
  by (auto simp: makes_other_def bind_eq_Some_conv)

lemma makes_other_Some: "makes_other (Some (makeInstruction va k ops)) \<longleftrightarrow> k \<notin> set modelled_kinds"
  by (simp add: makes_other_def makeInstruction_def)

lemma makes_otherI: "(\<And>va w. makes_other (d_decode d va w)) \<Longrightarrow> decodes_well d"
  by (auto simp: makes_other_def decodes_well_def)

lemma makes_other_conditions:
  "makes_other (d_decode mips32_c_cond_s va w)" "makes_other (d_decode mips32_c_cond_d va w)" "makes_other (d_decode mips32_c_cond_ps va w)"
proof -
  have k: "makes_other (do { require (c < 16); op1 \<leftarrow> r1; op2 \<leftarrow> r2; op3 \<leftarrow> r3; Some (makeInstruction va (ks ! unat c) [op1, op2, op3]) })"
    if "length ks = 16" "set ks \<inter> set modelled_kinds = {}" for r1 r2 r3 ks and c :: "32 word"
  proof -
    have "c < 16 \<Longrightarrow> ks ! unat c \<in> set ks" using that(1) by (intro nth_mem) (simp add: word_less_nat_alt)
    with that(2) show ?thesis by (auto simp: makes_other_def bind_eq_Some_conv makeInstruction_def require_def split: if_split_asm)
  qed
  show "makes_other (d_decode mips32_c_cond_s va w)" "makes_other (d_decode mips32_c_cond_d va w)" "makes_other (d_decode mips32_c_cond_ps va w)"
    unfolding mips32_c_cond_s_def mips32_c_cond_d_def mips32_c_cond_ps_def decoder_sel Let_def by (rule k; simp add: modelled_numbers)+
qed

lemma makes_other_ins: "makes_other (d_decode mips32_ins va w)"
  unfolding mips32_ins_def decoder_sel Let_def
  by (auto simp: makes_other_Some modelled_numbers makeUnknownInstruction_def set_rawBytes_def makes_other_def bind_eq_Some_conv makeInstruction_def)

lemma makes_other_decoders:
  "makes_other (d_decode mips32_abs_s va w)" "makes_other (d_decode mips32_abs_d va w)" "makes_other (d_decode mips32_abs_ps va w)"
  "makes_other (d_decode mips32_add_s va w)" "makes_other (d_decode mips32_add_d va w)" "makes_other (d_decode mips32_add_ps va w)"
  "makes_other (d_decode mips32_alnv_ps va w)" "makes_other (d_decode mips32_bc1f va w)" "makes_other (d_decode mips32_bc1fl va w)"
  "makes_other (d_decode mips32_bc1t va w)" "makes_other (d_decode mips32_bc1tl va w)" "makes_other (d_decode mips32_bc2f va w)"
  "makes_other (d_decode mips32_bc2fl va w)" "makes_other (d_decode mips32_bc2t va w)" "makes_other (d_decode mips32_bc2tl va w)"
  "makes_other (d_decode mips32_beql va w)" "makes_other (d_decode mips32_bgezall va w)" "makes_other (d_decode mips32_bgezl va w)"
  "makes_other (d_decode mips32_bgtzl va w)" "makes_other (d_decode mips32_blezl va w)" "makes_other (d_decode mips32_bltzall va w)"
  "makes_other (d_decode mips32_bltzl va w)" "makes_other (d_decode mips32_bnel va w)" "makes_other (d_decode mips32_cache va w)"
  "makes_other (d_decode mips32_cachee va w)" "makes_other (d_decode mips32_ceil_l_s va w)" "makes_other (d_decode mips32_ceil_l_d va w)"
  "makes_other (d_decode mips32_ceil_w_s va w)" "makes_other (d_decode mips32_ceil_w_d va w)" "makes_other (d_decode mips32_cfc1 va w)"
  "makes_other (d_decode mips32_cfc2 va w)" "makes_other (d_decode mips32_cop2 va w)" "makes_other (d_decode mips32_ctc1 va w)"
  "makes_other (d_decode mips32_ctc2 va w)" "makes_other (d_decode mips32_cvt_d_s va w)" "makes_other (d_decode mips32_cvt_d_w va w)"
  "makes_other (d_decode mips32_cvt_d_l va w)" "makes_other (d_decode mips32_cvt_l_s va w)" "makes_other (d_decode mips32_cvt_l_d va w)"
  "makes_other (d_decode mips32_cvt_ps_s va w)" "makes_other (d_decode mips32_cvt_s_w va w)" "makes_other (d_decode mips32_cvt_s_l va w)"
  "makes_other (d_decode mips32_cvt_s_pl va w)" "makes_other (d_decode mips32_cvt_s_pu va w)" "makes_other (d_decode mips32_cvt_w_s va w)"
  "makes_other (d_decode mips32_cvt_w_d va w)" "makes_other (d_decode mips32_di va w)" "makes_other (d_decode mips32_div va w)"
  "makes_other (d_decode mips32_div_s va w)" "makes_other (d_decode mips32_div_d va w)" "makes_other (d_decode mips32_divu va w)"
  "makes_other (d_decode mips32_ei va w)" "makes_other (d_decode mips32_eret va w)" "makes_other (d_decode mips32_ext va w)"
  "makes_other (d_decode mips32_floor_l_s va w)" "makes_other (d_decode mips32_floor_l_d va w)" "makes_other (d_decode mips32_floor_w_s va w)"
  "makes_other (d_decode mips32_floor_w_d va w)" "makes_other (d_decode mips32_ldc1 va w)" "makes_other (d_decode mips32_ldc2 va w)"
  "makes_other (d_decode mips32_ldxc1 va w)" "makes_other (d_decode mips32_ll va w)" "makes_other (d_decode mips32_lle va w)"
  "makes_other (d_decode mips32_luxc1 va w)" "makes_other (d_decode mips32_lwc1 va w)" "makes_other (d_decode mips32_lwc2 va w)"
  "makes_other (d_decode mips32_lwl va w)" "makes_other (d_decode mips32_lwle va w)" "makes_other (d_decode mips32_lwr va w)"
  "makes_other (d_decode mips32_lwre va w)" "makes_other (d_decode mips32_lwu va w)" "makes_other (d_decode mips32_lwxc1 va w)"
  "makes_other (d_decode mips32_madd_s va w)" "makes_other (d_decode mips32_madd_d va w)" "makes_other (d_decode mips32_madd_ps va w)"
  "makes_other (d_decode mips32_mfc0 va w)" "makes_other (d_decode mips32_mfc1 va w)" "makes_other (d_decode mips32_mfc2 va w)"
  "makes_other (d_decode mips32_mfhc1 va w)" "makes_other (d_decode mips32_mfhc2 va w)" "makes_other (d_decode mips32_mov_s va w)"
  "makes_other (d_decode mips32_mov_d va w)" "makes_other (d_decode mips32_mov_ps va w)" "makes_other (d_decode mips32_movf va w)"
  "makes_other (d_decode mips32_movf_s va w)" "makes_other (d_decode mips32_movf_d va w)" "makes_other (d_decode mips32_movf_ps va w)"
  "makes_other (d_decode mips32_movn_s va w)" "makes_other (d_decode mips32_movn_d va w)" "makes_other (d_decode mips32_movn_ps va w)"
  "makes_other (d_decode mips32_movt va w)" "makes_other (d_decode mips32_movt_s va w)" "makes_other (d_decode mips32_movt_d va w)"
  "makes_other (d_decode mips32_movt_ps va w)" "makes_other (d_decode mips32_movz_s va w)" "makes_other (d_decode mips32_movz_d va w)"
  "makes_other (d_decode mips32_movz_ps va w)" "makes_other (d_decode mips32_msub_s va w)" "makes_other (d_decode mips32_msub_d va w)"
  "makes_other (d_decode mips32_msub_ps va w)" "makes_other (d_decode mips32_mtc0 va w)" "makes_other (d_decode mips32_mtc1 va w)"
  "makes_other (d_decode mips32_mtc2 va w)" "makes_other (d_decode mips32_mul_s va w)" "makes_other (d_decode mips32_mul_d va w)"
  "makes_other (d_decode mips32_mul_ps va w)" "makes_other (d_decode mips32_neg_s va w)" "makes_other (d_decode mips32_neg_d va w)"
  "makes_other (d_decode mips32_neg_ps va w)" "makes_other (d_decode mips32_nmadd_s va w)" "makes_other (d_decode mips32_nmadd_d va w)"
  "makes_other (d_decode mips32_nmadd_ps va w)" "makes_other (d_decode mips32_nmsub_s va w)" "makes_other (d_decode mips32_nmsub_d va w)"
  "makes_other (d_decode mips32_nmsub_ps va w)" "makes_other (d_decode mips32_pause va w)" "makes_other (d_decode mips32_pll_ps va w)"
  "makes_other (d_decode mips32_plu_ps va w)" "makes_other (d_decode mips32_pref va w)" "makes_other (d_decode mips32_prefe va w)"
  "makes_other (d_decode mips32_prefx va w)" "makes_other (d_decode mips32_pul_ps va w)" "makes_other (d_decode mips32_puu_ps va w)"
  "makes_other (d_decode mips32_rdhwr va w)" "makes_other (d_decode mips32_rdpgpr va w)" "makes_other (d_decode mips32_recip_s va w)"
  "makes_other (d_decode mips32_recip_d va w)" "makes_other (d_decode mips32_round_l_s va w)" "makes_other (d_decode mips32_round_l_d va w)"
  "makes_other (d_decode mips32_round_w_s va w)" "makes_other (d_decode mips32_round_w_d va w)" "makes_other (d_decode mips32_rsqrt_s va w)"
  "makes_other (d_decode mips32_rsqrt_d va w)" "makes_other (d_decode mips32_sc va w)" "makes_other (d_decode mips32_sce va w)"
  "makes_other (d_decode mips32_sdc1 va w)" "makes_other (d_decode mips32_sdc2 va w)" "makes_other (d_decode mips32_sdxc1 va w)"
  "makes_other (d_decode mips32_sqrt_s va w)" "makes_other (d_decode mips32_sqrt_d va w)" "makes_other (d_decode mips32_sub_s va w)"
  "makes_other (d_decode mips32_sub_d va w)" "makes_other (d_decode mips32_sub_ps va w)" "makes_other (d_decode mips32_suxc1 va w)"
  "makes_other (d_decode mips32_swc1 va w)" "makes_other (d_decode mips32_swc2 va w)" "makes_other (d_decode mips32_swl va w)"
  "makes_other (d_decode mips32_swle va w)" "makes_other (d_decode mips32_swr va w)" "makes_other (d_decode mips32_swre va w)"
  "makes_other (d_decode mips32_swxc1 va w)" "makes_other (d_decode mips32_sync va w)" "makes_other (d_decode mips32_synci va w)"
  "makes_other (d_decode mips32_syscall va w)" "makes_other (d_decode mips32_teq va w)" "makes_other (d_decode mips32_teqi va w)"
  "makes_other (d_decode mips32_tge va w)" "makes_other (d_decode mips32_tgei va w)" "makes_other (d_decode mips32_tgeiu va w)"
  "makes_other (d_decode mips32_tgeu va w)" "makes_other (d_decode mips32_tlbinv va w)" "makes_other (d_decode mips32_tlbinvf va w)"
  "makes_other (d_decode mips32_tlbp va w)" "makes_other (d_decode mips32_tlbr va w)" "makes_other (d_decode mips32_tlbwi va w)"
  "makes_other (d_decode mips32_tlbwr va w)" "makes_other (d_decode mips32_tlt va w)" "makes_other (d_decode mips32_tlti va w)"
  "makes_other (d_decode mips32_tltiu va w)" "makes_other (d_decode mips32_tltu va w)" "makes_other (d_decode mips32_tne va w)"
  "makes_other (d_decode mips32_tnei va w)" "makes_other (d_decode mips32_trunc_l_s va w)" "makes_other (d_decode mips32_trunc_l_d va w)"
  "makes_other (d_decode mips32_trunc_w_s va w)" "makes_other (d_decode mips32_trunc_w_d va w)" "makes_other (d_decode mips32_wait va w)"
  "makes_other (d_decode mips32_wrpgpr va w)" "makes_other (d_decode mips32_wsbh va w)"
  unfolding decoder_defs decoder_sel Let_def
  by (rule makes_other_bind | (simp only: makes_other_Some, simp add: modelled_numbers; fail))+

section \<open>Every decoder of the table\<close>

lemma target_less: "relative_target va x < 2 ^ 32" "x < 2 ^ 26 \<Longrightarrow> absolute_target va x < 2 ^ 32"
proof -
  show "relative_target va x < 2 ^ 32" by (simp add: relative_target_def nat_less_iff)
  have "(unat va + 4) mod 2 ^ 32 div 2 ^ 28 < 16" by (rule less_mult_imp_div_less) simp
  then show "x < 2 ^ 26 \<Longrightarrow> absolute_target va x < 2 ^ 32" by (simp add: absolute_target_def)
qed

lemma well_plain:
  assumes "list_all operand_ok ps" "if k \<in> set exec_kinds then exec_shape k ps else branch_shape k ps"
  shows "well_made va (plain va k ps)"
  using assms by (auto simp: well_made_def plain_def makeInstruction_def list_all_iff)

lemma decodes_plain:
  assumes "\<And>va w. d_decode d va w = Some (plain va k (ps va w))" "\<And>va w. list_all operand_ok (ps va w)"
    "\<And>va w. if k \<in> set exec_kinds then exec_shape k (ps va w) else branch_shape k (ps va w)"
  shows "decodes_well d"
proof -
  have "well_made va (plain va k (ps va w))" for va w by (rule well_plain [OF assms(2,3)])
  then show ?thesis by (simp add: decodes_well_def assms(1))
qed

lemmas fields_ok = field_less(1-4) field_less(1-4) [THEN small_field] field_less(5)
  target_less(1) target_less(2) [OF field_less(7)] sx_less

lemmas shapes = alu_def alu_imm_def alu_unary_def multiply_op_def loads_signed_def loads_unsigned_def store_width_def

lemma special_decoders: "decodes_well mips32_beq" "decodes_well mips32_bgezal" "decodes_well mips32_sll"
  unfolding decodes_well_def decoded_beq decoded_bgezal decoded_sll
  by (auto split: if_split_asm intro!: well_plain simp: fields_ok exec_kinds_def shapes simp del: power_numeral)

lemma decodes_well_all: "list_all decodes_well decoders"
  unfolding decoders_def list.pred_inject
  by (intro conjI,
    (rule list.pred_inject(1) | rule special_decoders
     | rule decodes_plain, rule decoded, simp add: fields_ok del: power_numeral, simp add: exec_kinds_def shapes
     | rule makes_otherI, rule makes_other_decoders makes_other_conditions makes_other_ins)+)

end
