(* ===== verification/Disassembly.thy ===== *)
theory Disassembly
  imports Mips_Decoded
begin

text \<open>
  The disassembly of one instruction with its delay slot: that it ends, where the instruction and its delay
  slot stand, and that an instruction of a modelled kind is one of the abstract instruction set.
\<close>

section \<open>Address, size and delay slot of what is decoded\<close>

definition makes_at :: "64 word \<Rightarrow> mips_insn option \<Rightarrow> bool" where
  "makes_at va r \<longleftrightarrow> (\<forall>insn. r = Some insn \<longrightarrow> get_address insn = va \<and> get_delaySlot insn = None)"

lemma makes_at_bind: "(\<And>a. makes_at va (f a)) \<Longrightarrow> makes_at va (r \<bind> f)"
  by (auto simp: makes_at_def bind_eq_Some_conv)

lemma makes_at_Some: "makes_at va (Some (makeInstruction va k ops))" "makes_at va (Some (makeUnknownInstruction va w))"
  by (simp_all add: makes_at_def makeInstruction_def makeUnknownInstruction_def set_rawBytes_def)

lemma makes_at_if: "makes_at va x \<Longrightarrow> makes_at va y \<Longrightarrow> makes_at va (if c then x else y)"
  by simp

lemma makes_at_all: "list_all (\<lambda>d. \<forall>va w. makes_at va (d_decode d va w)) decoders"
  unfolding decoders_def list.pred_inject decoder_defs decoder_sel Let_def
  by (intro conjI list.pred_inject(1) allI makes_at_bind makes_at_Some makes_at_if)

lemma decoded_at:
  assumes "disassemble_insn decoders va w bytes = Some (Some insn)"
  shows "get_address insn = va \<and> get_size insn = of_nat (length bytes) \<and> get_delaySlot insn = None"
proof -
  from assms obtain d insn0 where d: "find_idis decoders w = Some (Some d)" "d_decode d va w = Some insn0" "insn = set_rawBytes insn0 bytes"
    by (auto simp: disassemble_insn_def bind_eq_Some_conv split: option.split_asm)
  from d(1) have "d \<in> set (matching w)" by (auto simp: find_idis_is split: list.split_asm)
  then have "d \<in> set decoders" by (simp add: matching_def)
  with makes_at_all d(2) have "get_address insn0 = va \<and> get_delaySlot insn0 = None" by (auto simp: list_all_iff makes_at_def)
  then show ?thesis unfolding d(3) by (cases insn0) (simp add: set_rawBytes_def)
qed

lemma decoded_word:
  assumes "read_code m va = Some bytes" "disassemble_insn decoders va w bytes = Some (Some insn)"
  shows "get_address insn = va" "get_size insn = 4" "get_delaySlot insn = None"
  using decoded_at [OF assms(2)] assms(1) by (auto simp: read_code_def bind_eq_Some_conv)

section \<open>The recursion over delay slots\<close>

lemma aligned: "va mod 4 = 0 \<longleftrightarrow> 4 dvd unat va" for va :: "64 word"
  by (simp only: word_unat_eq_iff unat_mod_distrib) (simp add: mod_eq_0_iff_dvd)

lemma next_aligned: "va mod 4 = 0 \<Longrightarrow> (va + 4) mod 4 = 0" for va :: "64 word"
  unfolding aligned by (simp add: unat_plus_if')

lemma distance:
  fixes va u :: "64 word"
  assumes "va mod 4 = 0" "u mod 4 = 0" "va \<noteq> u"
  shows "unat (u - va) div 4 = Suc (unat (u - (va + 4)) div 4)"
proof -
  have "4 dvd unat (u - va)" using assms(1,2) unfolding aligned by (auto simp: unat_sub_if' intro!: dvd_diff_nat dvd_add)
  moreover have "unat (u - va) \<noteq> 0" using assms(3) by (simp add: unat_eq_zero)
  ultimately obtain k where k: "unat (u - va) = 4 * Suc k" by (metis dvd_def mult_0_right not0_implies_Suc)
  have "u - va = of_nat (unat (u - va))" by simp
  also have "\<dots> = of_nat (4 * Suc k)" by (simp only: k)
  finally have "u - va = of_nat (4 * Suc k)" .
  then have "u - (va + 4) = of_nat (4 * k)" by (simp add: algebra_simps)
  moreover have "unat (u - va) < 2 ^ LENGTH(64)" by (rule unsigned_less)
  then have "4 * k < 2 ^ LENGTH(64)" using k by simp
  ultimately have "unat (u - (va + 4)) = 4 * k" by (metis of_nat_inverse)
  with k show ?thesis by simp
qed

lemma disassembleOne_none: "va mod 4 \<noteq> 0 \<or> read_code m va = None \<Longrightarrow> disassembleOne (Suc fuel) bo tab m va = Some None"
  by auto

lemma disassembleOne_some:
  assumes "va mod 4 = 0" "read_code m va = Some bytes"
  shows "disassembleOne (Suc fuel) bo decoders m va =
    (case disassemble_insn decoders va (diskToHost bo bytes) bytes of
       Some (Some insn) \<Rightarrow>
         if nDelaySlots (get_kind insn) > 0 then
           map_option (\<lambda>r. Some (case r of None \<Rightarrow> insn | Some inner \<Rightarrow> set_delaySlot insn inner)) (disassembleOne fuel bo decoders m (va + 4))
         else Some (Some insn)
     | _ \<Rightarrow> Some (Some (makeUnknownInstruction va (diskToHost bo bytes))))"
proof (cases "disassemble_insn decoders va (diskToHost bo bytes) bytes")
  case (Some r)
  then show ?thesis using assms decoded_word [OF assms(2)] by (cases r) (auto simp: Let_def split: option.split)
qed (use assms in \<open>simp add: Let_def\<close>)

lemma disassembleOne_mono: "disassembleOne fuel bo tab m va = Some r \<Longrightarrow> fuel \<le> fuel' \<Longrightarrow> disassembleOne fuel' bo tab m va = Some r"
proof (induction fuel arbitrary: fuel' va r)
  case (Suc fuel)
  from Suc.prems(2) obtain f where f: "fuel' = Suc f" "fuel \<le> f" by (metis Suc_le_D Suc_le_mono)
  show ?case using Suc.prems(1) Suc.IH [OF _ f(2)] unfolding f(1)
    by (auto simp: Let_def split: if_split_asm option.split_asm option.split)
qed simp

lemma disassembleOne_ends:
  assumes "u mod 4 = 0" "read_code m u = None"
  shows "unat (u - va) div 4 < fuel \<Longrightarrow> \<exists>r. disassembleOne fuel bo decoders m va = Some r"
proof (induction fuel arbitrary: va)
  case (Suc fuel)
  have next_ends: "\<exists>r. disassembleOne fuel bo decoders m (va + 4) = Some r" if "va mod 4 = 0" "read_code m va \<noteq> None"
    using that assms distance [OF that(1) assms(1)] Suc by fastforce
  show ?case
  proof (cases "va mod 4 \<noteq> 0 \<or> read_code m va = None")
    case False
    then obtain bytes where "va mod 4 = 0" "read_code m va = Some bytes" by (auto simp del: mod_0_imp_dvd)
    with next_ends show ?thesis by (auto simp only: disassembleOne_some option.map split: option.split if_split)
  qed (use disassembleOne_none in blast)
qed simp

text \<open>
  C19. The disassembly of one instruction ends: the recursion over delay slots needs no more steps than
  there are words up to an address without code, and more fuel does not change the result.
\<close>

theorem disassembleOne_returns:
  assumes "u mod 4 = 0" "read_code m u = None" "unat (u - va) div 4 < fuel"
  shows "\<exists>r. \<forall>more. disassembleOne (fuel + more) bo decoders m va = Some r"
  using disassembleOne_ends [OF assms] disassembleOne_mono by (metis le_add1)

theorem disassembleOne_returns_witness:
  "\<exists>r. \<forall>more. disassembleOne (3 + more) ORDER_MSB decoders (\<lambda>a. if a < 8 then Some 0x10 else None) 0 = Some r"
  by (rule disassembleOne_returns [of 8]) (simp_all add: read_code_def)

section \<open>Where the parts of an instruction stand\<close>

fun laid_out :: "code_map \<Rightarrow> 64 word \<Rightarrow> mips_insn \<Rightarrow> bool" where
  "laid_out m va (Insn k a n ops None) \<longleftrightarrow> a = va \<and> n = 4 \<and> read_code m va \<noteq> None \<and> (nDelaySlots k = 0 \<or> read_code m (va + 4) = None)"
| "laid_out m va (Insn k a n ops (Some inner)) \<longleftrightarrow>
     a = va \<and> n = 4 \<and> read_code m va \<noteq> None \<and> nDelaySlots k = 1 \<and> laid_out m (va + 4) inner"

lemma one_slot: "nDelaySlots k > 0 \<Longrightarrow> nDelaySlots k = 1"
  by (simp add: nDelaySlots_def split: if_split_asm)

lemma unknown_is: "makeUnknownInstruction va w = Insn mips_unknown_instruction va 4 [] None"
  by (simp add: makeUnknownInstruction_def set_rawBytes_def makeInstruction_def)

lemma disassembleOne_None:
  assumes "disassembleOne fuel bo decoders m va = Some None" "va mod 4 = 0"
  shows "read_code m va = None"
proof (rule ccontr)
  assume "read_code m va \<noteq> None"
  then obtain bytes where "read_code m va = Some bytes" by blast
  with assms show False by (cases fuel) (auto simp only: disassembleOne.simps(1) disassembleOne_some split: option.split_asm if_split_asm)
qed

lemma disassembleOneE:
  assumes "disassembleOne (Suc fuel) bo decoders m va = Some (Some insn)"
  obtains (unknown) w where "insn = makeUnknownInstruction va w" "va mod 4 = 0" "read_code m va \<noteq> None"
  | (single) bytes where "va mod 4 = 0" "read_code m va = Some bytes" "disassemble_insn decoders va (diskToHost bo bytes) bytes = Some (Some insn)"
      "nDelaySlots (get_kind insn) = 0 \<or> disassembleOne fuel bo decoders m (va + 4) = Some None"
  | (slot) bytes insn0 inner where "va mod 4 = 0" "read_code m va = Some bytes" "disassemble_insn decoders va (diskToHost bo bytes) bytes = Some (Some insn0)"
      "nDelaySlots (get_kind insn0) > 0" "disassembleOne fuel bo decoders m (va + 4) = Some (Some inner)" "insn = set_delaySlot insn0 inner"
proof -
  have va: "va mod 4 = 0" "read_code m va \<noteq> None"
    using assms disassembleOne_none [of va m fuel bo decoders] by (metis option.distinct(1) option.inject)+
  then obtain bytes where b: "read_code m va = Some bytes" by blast
  note step = assms [unfolded disassembleOne_some [OF va(1) b]]
  consider "disassemble_insn decoders va (diskToHost bo bytes) bytes = None \<or> disassemble_insn decoders va (diskToHost bo bytes) bytes = Some None"
    | insn0 where "disassemble_insn decoders va (diskToHost bo bytes) bytes = Some (Some insn0)" by (metis option.exhaust)
  then show thesis
  proof cases
    case 1
    with step have "insn = makeUnknownInstruction va (diskToHost bo bytes)" by auto
    then show thesis using va by (rule unknown)
  next
    case (2 insn0)
    show thesis
    proof (cases "nDelaySlots (get_kind insn0) > 0")
      case True
      with step 2 obtain r where r: "disassembleOne fuel bo decoders m (va + 4) = Some r"
        "insn = (case r of None \<Rightarrow> insn0 | Some inner \<Rightarrow> set_delaySlot insn0 inner)" by auto
      show thesis using r single [OF va(1) b] slot [OF va(1) b 2 True] 2 by (cases r) auto
    qed (use step 2 single [OF va(1) b] in auto)
  qed
qed

lemma decoded_form:
  assumes "read_code m va = Some bytes" "disassemble_insn decoders va w bytes = Some (Some insn)"
  obtains k ops where "insn = Insn k va 4 ops None"
  using decoded_word [OF assms] that by (cases insn) auto

lemma disassembleOne_laid_out:
  "disassembleOne fuel bo decoders m va = Some (Some insn) \<Longrightarrow> va mod 4 = 0 \<and> laid_out m va insn"
proof (induction fuel arbitrary: va insn)
  case (Suc fuel)
  from Suc.prems show ?case
  proof (cases rule: disassembleOneE)
    case (single bytes)
    obtain k ops where "insn = Insn k va 4 ops None" by (rule decoded_form [OF single(2,3)])
    then show ?thesis using single disassembleOne_None [OF _ next_aligned [OF single(1)]] by (auto simp del: mod_0_imp_dvd)
  next
    case (slot bytes insn0 inner)
    obtain k ops where "insn0 = Insn k va 4 ops None" by (rule decoded_form [OF slot(2,3)])
    then show ?thesis using slot Suc.IH [OF slot(5)] one_slot [OF slot(4)] by (auto simp: set_delaySlot_def simp del: mod_0_imp_dvd)
  qed (simp add: unknown_is nDelaySlots_def)
qed simp

text \<open>
  C20. What one disassembly yields is laid out as its words are: an exception exactly for an address that
  is not aligned or has no four bytes of code; otherwise an instruction of four bytes at that address,
  whose delay slot holds the instruction at the next address if and only if it is a branch or jump and there
  is code at that address, and so on for the instruction in the delay slot.
\<close>

theorem disassembled_layout:
  assumes "disassembleOne fuel bo decoders m va = Some r"
  shows "(r = None \<longleftrightarrow> va mod 4 \<noteq> 0 \<or> read_code m va = None) \<and> (\<forall>insn. r = Some insn \<longrightarrow> laid_out m va insn)"
proof (cases r)
  case None
  with assms disassembleOne_None [of fuel bo m va] show ?thesis by (auto simp del: mod_0_imp_dvd)
next
  case (Some insn)
  moreover from this assms have "va mod 4 = 0 \<and> laid_out m va insn" using disassembleOne_laid_out by blast
  ultimately show ?thesis by (cases "(m, va, insn)" rule: laid_out.cases) auto
qed

theorem disassembled_layout_witness:
  "\<exists>insn. disassembleOne 3 ORDER_MSB decoders (\<lambda>a. if a < 8 then Some 0x10 else None) 0 = Some (Some insn) \<and>
    laid_out (\<lambda>a. if a < 8 then Some 0x10 else None) 0 insn"
proof -
  let ?m = "(\<lambda>a. if a < 8 then Some 0x10 else None) :: code_map"
  obtain r where r: "disassembleOne 3 ORDER_MSB decoders ?m 0 = Some r"
    using disassembleOne_ends [of 8 ?m 0 3] by (auto simp: read_code_def)
  have "read_code ?m 0 \<noteq> None" by (simp add: read_code_def)
  with disassembled_layout [OF r] obtain insn where "r = Some insn" "laid_out ?m 0 insn" by auto
  with r show ?thesis by blast
qed

section \<open>Processing what was disassembled\<close>

text \<open>The instructions of the modelled kinds, with one in the delay slot of each branch and jump.\<close>

fun runnable :: "mips_insn \<Rightarrow> bool" where
  "runnable (Insn k a n ops None) \<longleftrightarrow> k \<in> set exec_kinds"
| "runnable (Insn k a n ops (Some inner)) \<longleftrightarrow> k \<in> set branch_kinds \<and> runnable inner"

lemma kinds_disjoint: "k \<in> set branch_kinds \<Longrightarrow> k \<notin> set exec_kinds"
proof -
  have "list_all (\<lambda>k. k \<notin> set exec_kinds) branch_kinds" by (simp add: branch_kinds_def exec_kinds_def)
  then show "k \<in> set branch_kinds \<Longrightarrow> k \<notin> set exec_kinds" by (simp add: list_all_iff)
qed

lemma decoded_well:
  assumes "disassemble_insn decoders va w bytes = Some (Some insn)" "get_kind insn \<in> set modelled_kinds" "length bytes = 4"
  shows "\<exists>ps. insn = Insn (get_kind insn) va 4 (map operand_expr ps) None \<and> (\<forall>p\<in>set ps. operand_ok p) \<and>
    (if get_kind insn \<in> set exec_kinds then exec_shape (get_kind insn) ps else branch_shape (get_kind insn) ps)"
proof -
  from assms(1) obtain d insn0 where d: "find_idis decoders w = Some (Some d)" "d_decode d va w = Some insn0" "insn = set_rawBytes insn0 bytes"
    by (auto simp: disassemble_insn_def bind_eq_Some_conv split: option.split_asm)
  from d(1) have "d \<in> set (matching w)" by (auto simp: find_idis_is split: list.split_asm)
  then have "decodes_well d" using decodes_well_all by (auto simp: matching_def list_all_iff)
  moreover have k: "get_kind insn0 = get_kind insn" unfolding d(3) by (cases insn0) (simp add: set_rawBytes_def)
  ultimately have "well_made va insn0" using d(2) assms(2) by (simp add: decodes_well_def)
  then obtain ps where ps: "insn0 = plain va (get_kind insn) ps" "\<forall>p\<in>set ps. operand_ok p"
    "if get_kind insn \<in> set exec_kinds then exec_shape (get_kind insn) ps else branch_shape (get_kind insn) ps"
    unfolding well_made_def k by blast
  have "set_rawBytes (plain va k ps) bytes = Insn k va 4 (map operand_expr ps) None" for k
    by (simp add: set_rawBytes_def plain_def makeInstruction_def assms(3))
  with d(3) ps(1) have "insn = Insn (get_kind insn) va 4 (map operand_expr ps) None" by metis
  with ps(2,3) show ?thesis by blast
qed

lemma disassembleOne_well:
  "disassembleOne fuel bo decoders m va = Some (Some insn) \<Longrightarrow> runnable insn \<Longrightarrow> \<exists>i. insn = encode i \<and> well_formed i"
proof (induction fuel arbitrary: va insn)
  case (Suc fuel)
  from Suc.prems(1) show ?case
  proof (cases rule: disassembleOneE)
    case (unknown w)
    with Suc.prems(2) show ?thesis by (simp add: unknown_is exec_kinds_def)
  next
    case (single bytes)
    obtain k ops where i: "insn = Insn k va 4 ops None" by (rule decoded_form [OF single(2,3)])
    with Suc.prems(2) have k: "k \<in> set exec_kinds" by simp
    moreover have "length bytes = 4" using single(2) by (auto simp: read_code_def bind_eq_Some_conv)
    ultimately obtain ps where "ops = map operand_expr ps" "\<forall>p\<in>set ps. operand_ok p" "exec_shape k ps"
      using decoded_well [OF single(3)] i by (auto simp: modelled_kinds_def)
    then have "insn = encode (AInsn k va 4 ps None)" "well_formed (AInsn k va 4 ps None)" using i by simp_all
    then show ?thesis by blast
  next
    case (slot bytes insn0 inner)
    obtain k ops where i: "insn0 = Insn k va 4 ops None" by (rule decoded_form [OF slot(2,3)])
    with slot(6) Suc.prems(2) have k: "k \<in> set branch_kinds" and inner: "runnable inner" by (simp_all add: set_delaySlot_def)
    from Suc.IH [OF slot(5) inner] obtain j where j: "inner = encode j" "well_formed j" by blast
    have "length bytes = 4" using slot(2) by (auto simp: read_code_def bind_eq_Some_conv)
    with k obtain ps where "ops = map operand_expr ps" "\<forall>p\<in>set ps. operand_ok p" "branch_shape k ps"
      using decoded_well [OF slot(3)] i kinds_disjoint by (auto simp: modelled_kinds_def)
    then have "insn = encode (AInsn k va 4 ps (Some j))" "well_formed (AInsn k va 4 ps (Some j))" using i j slot(6) by (simp_all add: set_delaySlot_def)
    then show ?thesis by blast
  qed
qed simp

end
