(* ===== verification/Mips_Assembly.thy ===== *)
theory Mips_Assembly
  imports Disassembly
begin

text \<open>
  An assembler for the instructions of the abstract set, from the formats of the instruction words; that the
  disassembler inverts it; and that what the disassembler makes of the bytes of memory is processed by the
  dispatcher as the instruction set says.
\<close>

section \<open>Instruction words\<close>

text \<open>The words of the register format and of the immediate format, from the numbers of their fields.\<close>

definition rword :: "nat \<Rightarrow> nat \<Rightarrow> nat \<Rightarrow> nat \<Rightarrow> nat \<Rightarrow> nat \<Rightarrow> 32 word" where
  "rword op rs rt rd sa fn = of_nat (((((op * 32 + rs) * 32 + rt) * 32 + rd) * 32 + sa) * 64 + fn)"

definition iword :: "nat \<Rightarrow> nat \<Rightarrow> nat \<Rightarrow> nat \<Rightarrow> 32 word" where
  "iword op rs rt imm = of_nat (((op * 32 + rs) * 32 + rt) * 65536 + imm)"

definition jword :: "nat \<Rightarrow> nat \<Rightarrow> 32 word" where
  "jword op index = of_nat (op * 67108864 + index)"

text \<open>The operation codes and functions of the kinds.\<close>

definition register_codes :: "(mips_kind \<times> nat \<times> nat) list" where
  "register_codes = [(mips_add, 0, 32), (mips_addu, 0, 33), (mips_sub, 0, 34), (mips_subu, 0, 35), (mips_and, 0, 36), (mips_or, 0, 37), (mips_xor, 0, 38), (mips_nor, 0, 39), (mips_slt, 0, 42), (mips_sltu, 0, 43), (mips_movz, 0, 10), (mips_movn, 0, 11), (mips_mul, 28, 2)]"

definition shift_codes :: "(mips_kind \<times> nat \<times> nat) list" where
  "shift_codes = [(mips_sllv, 0, 4), (mips_srlv, 0, 6), (mips_srav, 0, 7), (mips_rotrv, 1, 6)]"

definition immediate_codes :: "(mips_kind \<times> nat) list" where
  "immediate_codes = [(mips_addi, 8), (mips_addiu, 9), (mips_slti, 10), (mips_sltiu, 11), (mips_andi, 12), (mips_ori, 13), (mips_xori, 14)]"

definition amount_codes :: "(mips_kind \<times> nat \<times> nat) list" where
  "amount_codes = [(mips_srl, 0, 2), (mips_sra, 0, 3), (mips_rotr, 1, 2)]"

definition multiply_codes :: "(mips_kind \<times> nat \<times> nat) list" where
  "multiply_codes = [(mips_mult, 0, 24), (mips_multu, 0, 25), (mips_madd, 28, 0), (mips_maddu, 28, 1), (mips_msub, 28, 4), (mips_msubu, 28, 5)]"

definition memory_codes :: "(mips_kind \<times> nat \<times> nat) list" where
  "memory_codes = [(mips_lb, 32, 1), (mips_lh, 33, 2), (mips_lw, 35, 4), (mips_lbu, 36, 1), (mips_lhu, 37, 2), (mips_sb, 40, 1), (mips_sh, 41, 2), (mips_sw, 43, 4)]"

definition zero_codes :: "(mips_kind \<times> nat \<times> nat) list" where
  "zero_codes = [(mips_bgtz, 7, 0), (mips_blez, 6, 0), (mips_bltz, 1, 0), (mips_bgez, 1, 1), (mips_bltzal, 1, 16)]"

definition jump_codes :: "(mips_kind \<times> nat) list" where
  "jump_codes = [(mips_j, 2), (mips_jal, 3), (mips_jalx, 29)]"

definition move_codes :: "(mips_kind \<times> nat) list" where
  "move_codes = [(mips_mfhi, 16), (mips_mflo, 18)]"

text \<open>The offset of a branch in words and the index of a jump.\<close>

definition relative_offset :: "64 word \<Rightarrow> nat \<Rightarrow> nat" where
  "relative_offset va target = nat ((int target - int (unat va) - 4) div 4 mod 2 ^ 16)"

definition jump_index :: "nat \<Rightarrow> nat" where
  "jump_index target = target div 4 mod 2 ^ 26"

text \<open>The word of an instruction, if its operands can be written in it.\<close>

fun assemble :: "64 word \<Rightarrow> mips_kind \<Rightarrow> operand list \<Rightarrow> 32 word option" where
  "assemble va k [Gpr a, Gpr b, Gpr c] =
     (case map_of register_codes k of
        Some (op, fn) \<Rightarrow> Some (rword op b c a 0 fn)
      | None \<Rightarrow> map_option (\<lambda>(sa, fn). rword 0 c b a sa fn) (map_of shift_codes k))"
| "assemble va k [Gpr a, Gpr b, Imm t y] =
     (if t = 16 then map_option (\<lambda>op. iword op b a y) (map_of immediate_codes k)
      else if t = 8 \<and> y < 32 then map_option (\<lambda>(r, fn). rword 0 r b a y fn) (map_of amount_codes k)
      else if t = 32 \<and> k = mips_bne \<and> relative_target va (relative_offset va y) = y then Some (iword 5 a b (relative_offset va y))
      else None)"
| "assemble va k [Gpr a, Gpr b] = map_option (\<lambda>(op, fn). rword op a b 0 0 fn) (map_of multiply_codes k)"
| "assemble va k [Gpr a] = map_option (\<lambda>fn. rword 0 0 0 a 0 fn) (map_of move_codes k)"
| "assemble va k [Gpr a, Imm t y] =
     (if t = 16 then (if k = mips_lui then Some (iword 15 0 a y) else None)
      else if t = 32 \<and> relative_target va (relative_offset va y) = y
      then map_option (\<lambda>(op, r). iword op a r (relative_offset va y)) (map_of zero_codes k)
      else None)"
| "assemble va k [Gpr a, Mem b off n] =
     (if sx 16 (off mod 2 ^ 16) = off
      then (case map_of memory_codes k of
              Some (op, n') \<Rightarrow> (if n = n' then Some (iword op b a (off mod 2 ^ 16)) else None)
            | None \<Rightarrow> None)
      else None)"
| "assemble va k [Imm t y] =
     (if t = 32 \<and> absolute_target va (jump_index y) = y then map_option (\<lambda>op. jword op (jump_index y)) (map_of jump_codes k) else None)"
| "assemble va k _ = None"

section \<open>The fields of a word\<close>

lemma digit_div: "x < b \<Longrightarrow> (a * b + x) div b = a" "x < b \<Longrightarrow> (a * b + x) mod b = x" for a b x :: nat
  by simp_all

lemma word_number: "n < 2 ^ 32 \<Longrightarrow> unat (of_nat n :: 32 word) = n"
  by (simp add: unat_of_nat)

lemma rword_unat:
  assumes "op < 64" "rs < 32" "rt < 32" "rd < 32" "sa < 32" "fn < 64"
  shows "unat (rword op rs rt rd sa fn) = ((((op * 32 + rs) * 32 + rt) * 32 + rd) * 32 + sa) * 64 + fn"
  unfolding rword_def using assms by (intro word_number) simp

lemma field_split: "n div 2 ^ 6 = n div 64" "n div 2 ^ 11 = n div 64 div 32" "n div 2 ^ 16 = n div 64 div 32 div 32"
  "n div 2 ^ 21 = n div 64 div 32 div 32 div 32" "n div 2 ^ 26 = n div 64 div 32 div 32 div 32 div 32" for n :: nat
  by (simp_all add: div_mult2_eq [symmetric])

lemma rword_fields:
  assumes "op < 64" "rs < 32" "rt < 32" "rd < 32" "sa < 32" "fn < 64"
  defines "w \<equiv> rword op rs rt rd sa fn"
  shows "unat (extract_field 26 31 w) = op" "unat (gR0 w) = rs" "unat (gR1 w) = rt" "unat (gR2 w) = rd" "unat (gR3 w) = sa"
    "unat (extract_field 0 5 w) = fn" "unat (extract_field 6 15 w) = rd * 32 + sa"
proof -
  define N1 N2 N3 N4 where "N1 = op * 32 + rs" "N2 = N1 * 32 + rt" "N3 = N2 * 32 + rd" "N4 = N3 * 32 + sa"
  then have "unat w = N4 * 64 + fn" using rword_unat [OF assms(1-6)] by (simp add: w_def)
  then have n: "unat w div 64 = N4" "N4 div 32 = N3" "N3 div 32 = N2" "N2 div 32 = N1" "N1 div 32 = op"
    "unat w mod 64 = fn" "N4 mod 32 = sa" "N3 mod 32 = rd" "N2 mod 32 = rt" "N1 mod 32 = rs"
    using digit_div assms(1-6) \<open>N1 = _\<close> \<open>N2 = _\<close> \<open>N3 = _\<close> \<open>N4 = _\<close> by (simp_all only:)
  show "unat (gR0 w) = rs" "unat (gR1 w) = rt" "unat (gR2 w) = rd" "unat (gR3 w) = sa"
    by (simp_all only: field_numbers field_split n)
  show "unat (extract_field 26 31 w) = op" "unat (extract_field 0 5 w) = fn"
    using assms(1) extract_field_unat [of 26 31 w] extract_field_unat [of 0 5 w] field_split(5) [of "unat w"] n by simp_all
  have "N4 = N2 * 1024 + (rd * 32 + sa)" using \<open>N3 = _\<close> \<open>N4 = _\<close> by simp
  moreover have "rd * 32 + sa < 1024" using assms(4,5) by simp
  ultimately have "N4 mod 1024 = rd * 32 + sa" by (simp only: digit_div(2))
  then show "unat (extract_field 6 15 w) = rd * 32 + sa" using extract_field_unat [of 6 15 w] n(1) by simp
qed

lemma iword_fields:
  assumes "op < 64" "rs < 32" "rt < 32" "imm < 2 ^ 16"
  defines "w \<equiv> iword op rs rt imm"
  shows "unat (extract_field 26 31 w) = op" "unat (gR0 w) = rs" "unat (gR1 w) = rt" "unat (gIM w) = imm"
proof -
  define N1 N2 where "N1 = op * 32 + rs" "N2 = N1 * 32 + rt"
  have "unat w = ((op * 32 + rs) * 32 + rt) * 65536 + imm"
    unfolding w_def iword_def using assms(1-4) by (intro word_number) simp
  then have "unat w = N2 * 65536 + imm" by (simp add: N1_N2_def)
  moreover have "imm < 65536" using assms(4) by simp
  ultimately have n: "unat w div 65536 = N2" "unat w mod 65536 = imm" "N2 div 32 = N1" "N1 div 32 = op" "N2 mod 32 = rt" "N1 mod 32 = rs"
    using digit_div assms(1-3) N1_N2_def by (simp_all only:)
  have "unat w div 2 ^ 21 = unat w div 65536 div 32" "unat w div 2 ^ 26 = unat w div 65536 div 32 div 32"
    by (simp_all add: div_mult2_eq [symmetric])
  with n extract_field_unat [of 26 31 w] assms(1)
  show "unat (extract_field 26 31 w) = op" "unat (gR0 w) = rs" "unat (gR1 w) = rt" "unat (gIM w) = imm"
    by (simp_all add: field_numbers)
qed

lemma jword_fields:
  assumes "op < 64" "index < 2 ^ 26"
  defines "w \<equiv> jword op index"
  shows "unat (extract_field 26 31 w) = op" "unat (extract_field 0 25 w) = index"
proof -
  have "unat w = op * 67108864 + index" unfolding w_def jword_def using assms(1,2) by (intro word_number) simp
  then show "unat (extract_field 26 31 w) = op" "unat (extract_field 0 25 w) = index"
    using assms(1,2) extract_field_unat [of 26 31 w] extract_field_unat [of 0 25 w] digit_div [of index 67108864 op] by simp_all
qed

section \<open>Finding the decoder\<close>

lemma and_field:
  assumes "lo \<le> hi" "hi < 32"
  shows "w AND mask_for lo hi = shift_to lo hi (extract_field lo hi w)"
  by (rule bit_word_eqI)
    (use assms in \<open>auto simp: mask_for_def genMask_bits_def shift_to_eq extract_field_def shiftRightLogical_def GenMask_eq IntegerOps_shiftLeft_def SHL1_def bit_simps\<close>)

lemma and_fields: "w AND mOP = sOP (extract_field 26 31 w)" "w AND mR0 = sR0 (gR0 w)" "w AND mR1 = sR1 (gR1 w)"
  "w AND mR2 = sR2 (gR2 w)" "w AND mR3 = sR3 (gR3 w)" "w AND mFN = sFN (extract_field 0 5 w)"
  by (simp_all add: mOP_def mR0_def mR1_def mR2_def mR3_def mFN_def sOP_def sR0_def sR1_def sR2_def sR3_def sFN_def
    gR0_def gR1_def gR2_def gR3_def and_field)

text \<open>The decoder is in no pair of decoders that match a common word.\<close>

definition alone :: "decoder \<Rightarrow> bool" where
  "alone d \<longleftrightarrow> list_all (\<lambda>l. d \<notin> set l) ambiguous"

lemma alone_number:
  assumes "(dm d, dk d) \<notin> set (map (\<lambda>e. (dm e, dk e)) (concat ambiguous))"
  shows "alone d"
  using assms by (force simp: alone_def list_all_iff)

lemma ambiguous_numbers: "map (\<lambda>e. (dm e, dk e)) (concat ambiguous) =
    [(1275068446, 4227858495), (1275068416, 4229890048), (1426259968, 4293066752), (1409286144, 4227858432), (1409286144, 4227858432), (1444937765, 4294901823),
     (1275068416, 4229890048), (1275068417, 4227921983), (1275068416, 4229890048), (1275068421, 4227921983), (1275068416, 4229890048), (1275068416, 4227921983),
     (1275068416, 4229890048), (1275068448, 4227858495), (1, 4294901823), (1, 4228057087), (1275068416, 4229890048), (1275068456, 4227858495),
     (1275068416, 4229890048), (1275068457, 4227858495), (1275068416, 4229890048), (1275068462, 4227858495), (1275068416, 4229890048), (1275068464, 4227858495),
     (1275068416, 4229890048), (1275068465, 4227858495), (1275068416, 4229890048), (1275068470, 4227858495), (1275068416, 4229890048), (1275068472, 4227858495),
     (1275068416, 4229890048), (1275068473, 4227858495), (1275068416, 4229890048), (1275068478, 4227858495), (1275068416, 4229890048), (1275068431, 4227860479),
     (2617245696, 4227858432), (2617245726, 4227858559), (1275068416, 4229890048), (1275068425, 4227860479), (320, 4294967295), (0, 4292870207),
     (1275068416, 4229890048), (1275068429, 4227860479), (1275068416, 4229890048), (1275068424, 4227860479), (1113612320, 4292935679), (1107296288, 4261412927)]"
  unfolding ambiguous_def by (simp add: decoder_numbers)

text \<open>On the words of a class, the search finds the decoder, and it makes the given instruction.\<close>

definition decodes_as :: "decoder \<Rightarrow> (32 word \<Rightarrow> bool) \<Rightarrow> (64 word \<Rightarrow> 32 word \<Rightarrow> mips_insn) \<Rightarrow> bool" where
  "decodes_as d C f \<longleftrightarrow> d \<in> set decoders \<and> alone d \<and> (\<forall>va w. C w \<longrightarrow> idis_match d w \<and> d_decode d va w = Some (f va w))"

lemma decodes_asI:
  assumes "d \<in> set decoders" "(dm d, dk d) \<notin> set (map (\<lambda>e. (dm e, dk e)) (concat ambiguous))"
    "\<And>w. C w \<Longrightarrow> w AND d_mask d = d_match d" "\<And>va w. d_decode d va w = Some (f va w)"
  shows "decodes_as d C f"
  using assms alone_number by (simp add: decodes_as_def idis_match_def)

lemma decodes_as_found:
  assumes "decodes_as d C f" "C w" "f va w = plain va k ps"
  shows "disassemble_insn decoders va w bytes = Some (Some (encode (AInsn k va (of_nat (length bytes)) ps None)))"
proof -
  have "find_idis decoders w = Some (Some d)" using assms(1,2)
    by (intro find_idis_unique) (auto simp: decodes_as_def alone_def list_all_iff)
  with assms show ?thesis
    by (simp add: disassemble_insn_def decodes_as_def plain_def makeInstruction_def set_rawBytes_def)
qed

lemma decoder_of: "list_all2 P xs ds \<Longrightarrow> map_of xs k = Some c \<Longrightarrow> \<exists>d. P (k, c) d"
  by (induction rule: list_all2_induct) (auto split: if_split_asm)

lemmas decoder_match = decoders_def decoder_defs decoder_sel and_fields and_field bit.conj_disj_distrib

lemma register_decoders: "list_all2 (\<lambda>(k, op, fn) d. decodes_as d
      (\<lambda>w. extract_field 26 31 w = of_nat op \<and> gR3 w = 0 \<and> extract_field 0 5 w = of_nat fn)
      (\<lambda>va w. plain va k [Gpr (unat (gR2 w)), Gpr (unat (gR0 w)), Gpr (unat (gR1 w))]))
    register_codes [mips32_add, mips32_addu, mips32_sub, mips32_subu, mips32_and, mips32_or, mips32_xor, mips32_nor, mips32_slt, mips32_sltu, mips32_movz, mips32_movn, mips32_mul]"
  unfolding register_codes_def list.rel_inject prod.case
  by (intro conjI list.rel_intros(1) decodes_asI)
    (simp_all only: decoded ambiguous_numbers decoder_numbers, simp_all add: decoder_match)

lemma shift_decoders: "list_all2 (\<lambda>(k, sa, fn) d. decodes_as d
      (\<lambda>w. extract_field 26 31 w = 0 \<and> gR3 w = of_nat sa \<and> extract_field 0 5 w = of_nat fn)
      (\<lambda>va w. plain va k [Gpr (unat (gR2 w)), Gpr (unat (gR1 w)), Gpr (unat (gR0 w))]))
    shift_codes [mips32_sllv, mips32_srlv, mips32_srav, mips32_rotrv]"
  unfolding shift_codes_def list.rel_inject prod.case
  by (intro conjI list.rel_intros(1) decodes_asI)
    (simp_all only: decoded ambiguous_numbers decoder_numbers, simp_all add: decoder_match)

lemma immediate_decoders: "list_all2 (\<lambda>(k, op) d. decodes_as d (\<lambda>w. extract_field 26 31 w = of_nat op)
      (\<lambda>va w. plain va k [Gpr (unat (gR1 w)), Gpr (unat (gR0 w)), Imm 16 (unat (gIM w))]))
    immediate_codes [mips32_addi, mips32_addiu, mips32_slti, mips32_sltiu, mips32_andi, mips32_ori, mips32_xori]"
  unfolding immediate_codes_def list.rel_inject prod.case
  by (intro conjI list.rel_intros(1) decodes_asI)
    (simp_all only: decoded ambiguous_numbers decoder_numbers, simp_all add: decoder_match)

lemma amount_decoders: "list_all2 (\<lambda>(k, r, fn) d. decodes_as d
      (\<lambda>w. extract_field 26 31 w = 0 \<and> gR0 w = of_nat r \<and> extract_field 0 5 w = of_nat fn)
      (\<lambda>va w. plain va k [Gpr (unat (gR2 w)), Gpr (unat (gR1 w)), Imm 8 (unat (gR3 w))]))
    amount_codes [mips32_srl, mips32_sra, mips32_rotr]"
  unfolding amount_codes_def list.rel_inject prod.case
  by (intro conjI list.rel_intros(1) decodes_asI)
    (simp_all only: decoded ambiguous_numbers decoder_numbers, simp_all add: decoder_match)

lemma multiply_decoders: "list_all2 (\<lambda>(k, op, fn) d. decodes_as d
      (\<lambda>w. extract_field 26 31 w = of_nat op \<and> gR2 w = 0 \<and> gR3 w = 0 \<and> extract_field 6 15 w = 0 \<and> extract_field 0 5 w = of_nat fn)
      (\<lambda>va w. plain va k [Gpr (unat (gR0 w)), Gpr (unat (gR1 w))]))
    multiply_codes [mips32_mult, mips32_multu, mips32_madd, mips32_maddu, mips32_msub, mips32_msubu]"
  unfolding multiply_codes_def list.rel_inject prod.case
  by (intro conjI list.rel_intros(1) decodes_asI)
    (simp_all only: decoded ambiguous_numbers decoder_numbers, simp_all add: decoder_match)

lemma memory_decoders: "list_all2 (\<lambda>(k, op, n) d. decodes_as d (\<lambda>w. extract_field 26 31 w = of_nat op)
      (\<lambda>va w. plain va k [Gpr (unat (gR1 w)), Mem (unat (gR0 w)) (sx 16 (unat (gIM w))) n]))
    memory_codes [mips32_lb, mips32_lh, mips32_lw, mips32_lbu, mips32_lhu, mips32_sb, mips32_sh, mips32_sw]"
  unfolding memory_codes_def list.rel_inject prod.case
  by (intro conjI list.rel_intros(1) decodes_asI)
    (simp_all only: decoded ambiguous_numbers decoder_numbers, simp_all add: decoder_match)

lemma zero_decoders: "list_all2 (\<lambda>(k, op, r) d. decodes_as d (\<lambda>w. extract_field 26 31 w = of_nat op \<and> gR1 w = of_nat r)
      (\<lambda>va w. plain va k [Gpr (unat (gR0 w)), Imm 32 (relative_target va (unat (gIM w)))]))
    zero_codes [mips32_bgtz, mips32_blez, mips32_bltz, mips32_bgez, mips32_bltzal]"
  unfolding zero_codes_def list.rel_inject prod.case
  by (intro conjI list.rel_intros(1) decodes_asI)
    (simp_all only: decoded ambiguous_numbers decoder_numbers, simp_all add: decoder_match)

lemma jump_decoders: "list_all2 (\<lambda>(k, op) d. decodes_as d (\<lambda>w. extract_field 26 31 w = of_nat op)
      (\<lambda>va w. plain va k [Imm 32 (absolute_target va (unat (extract_field 0 25 w)))]))
    jump_codes [mips32_j, mips32_jal, mips32_jalx]"
  unfolding jump_codes_def list.rel_inject prod.case
  by (intro conjI list.rel_intros(1) decodes_asI)
    (simp_all only: decoded ambiguous_numbers decoder_numbers, simp_all add: decoder_match)

lemma move_decoders: "list_all2 (\<lambda>(k, fn) d. decodes_as d
      (\<lambda>w. extract_field 26 31 w = 0 \<and> gR0 w = 0 \<and> gR1 w = 0 \<and> gR3 w = 0 \<and> extract_field 0 5 w = of_nat fn)
      (\<lambda>va w. plain va k [Gpr (unat (gR2 w))]))
    move_codes [mips32_mfhi, mips32_mflo]"
  unfolding move_codes_def list.rel_inject prod.case
  by (intro conjI list.rel_intros(1) decodes_asI)
    (simp_all only: decoded ambiguous_numbers decoder_numbers, simp_all add: decoder_match)

lemma upper_decoder: "decodes_as mips32_lui (\<lambda>w. extract_field 26 31 w = 15 \<and> gR0 w = 0)
    (\<lambda>va w. plain va mips_lui [Gpr (unat (gR1 w)), Imm 16 (unat (gIM w))])"
  by (intro conjI list.rel_intros(1) decodes_asI)
    (simp_all only: decoded ambiguous_numbers decoder_numbers, simp_all add: decoder_match)

lemma branch_decoder: "decodes_as mips32_bne (\<lambda>w. extract_field 26 31 w = 5)
    (\<lambda>va w. plain va mips_bne [Gpr (unat (gR0 w)), Gpr (unat (gR1 w)), Imm 32 (relative_target va (unat (gIM w)))])"
  by (intro conjI list.rel_intros(1) decodes_asI)
    (simp_all only: decoded ambiguous_numbers decoder_numbers, simp_all add: decoder_match)

section \<open>Round trip\<close>

lemma code_bounds: "list_all P xs \<Longrightarrow> map_of xs k = Some c \<Longrightarrow> P (k, c)"
  by (auto simp: list_all_iff dest: map_of_SomeD)

lemma two_codes:
  assumes "map_of register_codes k = Some (op, fn) \<or> map_of multiply_codes k = Some (op, fn) \<or>
    map_of shift_codes k = Some (op, fn) \<or> map_of amount_codes k = Some (op, fn)"
  shows "op < 32" "fn < 64"
proof -
  have "list_all (\<lambda>(k, op, fn). op < 32 \<and> fn < 64) (register_codes @ multiply_codes @ shift_codes @ amount_codes)"
    by (simp add: register_codes_def multiply_codes_def shift_codes_def amount_codes_def)
  with assms show "op < 32" "fn < 64" by (auto simp: list_all_append dest!: code_bounds)
qed

lemma other_codes: "map_of memory_codes k = Some (op, n) \<Longrightarrow> op < 64" "map_of zero_codes k = Some (op, n) \<Longrightarrow> op < 64 \<and> n < 32"
  "map_of immediate_codes k = Some op \<Longrightarrow> op < 64" "map_of jump_codes k = Some op \<Longrightarrow> op < 64" "map_of move_codes k = Some fn \<Longrightarrow> fn < 64"
proof -
  have "list_all (\<lambda>(k, op, n). op < 64) memory_codes" "list_all (\<lambda>(k, op, n). op < 64 \<and> n < 32) zero_codes"
    "list_all (\<lambda>(k, op). op < 64) (immediate_codes @ jump_codes @ move_codes)"
    by (simp_all add: memory_codes_def zero_codes_def immediate_codes_def jump_codes_def move_codes_def)
  then show "map_of memory_codes k = Some (op, n) \<Longrightarrow> op < 64" "map_of zero_codes k = Some (op, n) \<Longrightarrow> op < 64 \<and> n < 32"
    "map_of immediate_codes k = Some op \<Longrightarrow> op < 64" "map_of jump_codes k = Some op \<Longrightarrow> op < 64" "map_of move_codes k = Some fn \<Longrightarrow> fn < 64"
    by (auto simp: list_all_append dest!: code_bounds)
qed

lemma of_unat: "unat x = n \<Longrightarrow> x = of_nat n" for x :: "32 word"
  by auto

lemmas field_class = rword_fields(1-7) [THEN of_unat] iword_fields(1-4) [THEN of_unat] jword_fields(1-2) [THEN of_unat] word_number

lemma target_fields: "relative_offset va y < 2 ^ 16" "jump_index y < 2 ^ 26" "off mod 2 ^ 16 < (2 :: nat) ^ 16"
  by (simp_all add: relative_offset_def jump_index_def nat_less_iff)

abbreviation assembled :: "64 word \<Rightarrow> mips_kind \<Rightarrow> operand list \<Rightarrow> 32 word \<Rightarrow> 8 word list \<Rightarrow> bool" where
  "assembled va k ps w bytes \<equiv> disassemble_insn decoders va w bytes = Some (Some (encode (AInsn k va (of_nat (length bytes)) ps None)))"

lemma assembled_register:
  "map_of register_codes k = Some (op, fn) \<Longrightarrow> a < 32 \<Longrightarrow> b < 32 \<Longrightarrow> c < 32 \<Longrightarrow> assembled va k [Gpr a, Gpr b, Gpr c] (rword op b c a 0 fn) bytes"
  using decoder_of [OF register_decoders, of k "(op, fn)"] two_codes [of k op fn]
  by (auto intro!: decodes_as_found simp: field_class simp del: encode.simps)

lemma assembled_shift:
  "map_of shift_codes k = Some (sa, fn) \<Longrightarrow> a < 32 \<Longrightarrow> b < 32 \<Longrightarrow> c < 32 \<Longrightarrow> assembled va k [Gpr a, Gpr b, Gpr c] (rword 0 c b a sa fn) bytes"
  using decoder_of [OF shift_decoders, of k "(sa, fn)"] two_codes [of k sa fn]
  by (auto intro!: decodes_as_found simp: field_class simp del: encode.simps)

lemma assembled_immediate:
  "map_of immediate_codes k = Some op \<Longrightarrow> a < 32 \<Longrightarrow> b < 32 \<Longrightarrow> y < 2 ^ 16 \<Longrightarrow> assembled va k [Gpr a, Gpr b, Imm 16 y] (iword op b a y) bytes"
  using decoder_of [OF immediate_decoders, of k "op"] other_codes(3)
  by (auto intro!: decodes_as_found simp: field_class simp del: encode.simps)

lemma assembled_amount:
  "map_of amount_codes k = Some (r, fn) \<Longrightarrow> a < 32 \<Longrightarrow> b < 32 \<Longrightarrow> y < 32 \<Longrightarrow> assembled va k [Gpr a, Gpr b, Imm 8 y] (rword 0 r b a y fn) bytes"
  using decoder_of [OF amount_decoders, of k "(r, fn)"] two_codes [of k r fn]
  by (auto intro!: decodes_as_found simp: field_class simp del: encode.simps)

lemma assembled_multiply:
  "map_of multiply_codes k = Some (op, fn) \<Longrightarrow> a < 32 \<Longrightarrow> b < 32 \<Longrightarrow> assembled va k [Gpr a, Gpr b] (rword op a b 0 0 fn) bytes"
  using decoder_of [OF multiply_decoders, of k "(op, fn)"] two_codes [of k op fn]
  by (auto intro!: decodes_as_found simp: field_class simp del: encode.simps)

lemma assembled_move:
  "map_of move_codes k = Some fn \<Longrightarrow> a < 32 \<Longrightarrow> assembled va k [Gpr a] (rword 0 0 0 a 0 fn) bytes"
  using decoder_of [OF move_decoders, of k "fn"] other_codes(5)
  by (auto intro!: decodes_as_found simp: field_class simp del: encode.simps)

lemma assembled_memory:
  "map_of memory_codes k = Some (op, n) \<Longrightarrow> a < 32 \<Longrightarrow> b < 32 \<Longrightarrow> y < 2 ^ 16 \<Longrightarrow> assembled va k [Gpr a, Mem b (sx 16 y) n] (iword op b a y) bytes"
  using decoder_of [OF memory_decoders, of k "(op, n)"] other_codes(1)
  by (auto intro!: decodes_as_found simp: field_class simp del: encode.simps)

lemma assembled_zero:
  "map_of zero_codes k = Some (op, r) \<Longrightarrow> a < 32 \<Longrightarrow> y < 2 ^ 16 \<Longrightarrow> assembled va k [Gpr a, Imm 32 (relative_target va y)] (iword op a r y) bytes"
  using decoder_of [OF zero_decoders, of k "(op, r)"] other_codes(2)
  by (auto intro!: decodes_as_found simp: field_class simp del: encode.simps)

lemma assembled_jump:
  "map_of jump_codes k = Some op \<Longrightarrow> y < 2 ^ 26 \<Longrightarrow> assembled va k [Imm 32 (absolute_target va y)] (jword op y) bytes"
  using decoder_of [OF jump_decoders, of k "op"] other_codes(4)
  by (auto intro!: decodes_as_found simp: field_class simp del: encode.simps)

lemma assembled_branch: "a < 32 \<Longrightarrow> b < 32 \<Longrightarrow> y < 2 ^ 16 \<Longrightarrow> assembled va mips_bne [Gpr a, Gpr b, Imm 32 (relative_target va y)] (iword 5 a b y) bytes"
  by (rule decodes_as_found [OF branch_decoder]) (simp_all add: field_class)

lemma assembled_upper: "a < 32 \<Longrightarrow> y < 2 ^ 16 \<Longrightarrow> assembled va mips_lui [Gpr a, Imm 16 y] (iword 15 0 a y) bytes"
  by (rule decodes_as_found [OF upper_decoder]) (simp_all add: field_class)

text \<open>
  C4. Round trip: the disassembler makes of an assembled word exactly the instruction that was
  assembled. This holds for the arithmetic and logical instructions with registers, immediates and shift
  amounts, multiplications, loads and stores with offsets of 16 bits, conditional branches, jumps and moves,
  at every address and with every operand that the format can hold.
\<close>

theorem assemble_roundtrip:
  assumes "assemble va k ps = Some w" "\<forall>p\<in>set ps. operand_ok p"
  shows "disassemble_insn decoders va w bytes = Some (Some (encode (AInsn k va (of_nat (length bytes)) ps None)))"
  using assms
proof (cases "(va, k, ps)" rule: assemble.cases)
  case (1 va' k' a b c)
  with assms show ?thesis
    by (auto intro: assembled_register assembled_shift split: option.split_asm simp del: encode.simps)
next
  case (2 va' k' a b t y)
  with assms show ?thesis using assembled_branch [of a b "relative_offset va y" va] target_fields
    by (auto intro: assembled_immediate assembled_amount split: if_split_asm simp del: encode.simps power_numeral)
next
  case (5 va' k' a t y)
  with assms show ?thesis using assembled_zero [of k _ _ a "relative_offset va y" va] target_fields
    by (auto intro: assembled_upper split: if_split_asm simp del: encode.simps power_numeral)
next
  case (6 va' k' a b off n)
  with assms show ?thesis using assembled_memory [of k _ n a b "off mod 2 ^ 16"] target_fields
    by (auto split: if_split_asm option.split_asm simp del: encode.simps power_numeral)
next
  case (7 va' k' t y)
  with assms show ?thesis using assembled_jump [of k _ "jump_index y" va] target_fields
    by (auto split: if_split_asm simp del: encode.simps power_numeral)
qed (auto intro: assembled_multiply assembled_move simp del: encode.simps)

theorem assemble_roundtrip_witness:
  "disassemble_insn decoders 0x1000 0x00851021 [0, 0x85, 0x10, 0x21] = Some (Some (encode (AInsn mips_addu 0x1000 4 [Gpr 2, Gpr 4, Gpr 5] None)))"
proof -
  have "assemble 0x1000 mips_addu [Gpr 2, Gpr 4, Gpr 5] = Some 0x00851021" by (simp add: register_codes_def rword_def)
  from assemble_roundtrip [OF this, of "[0, 0x85, 0x10, 0x21]"] show ?thesis by (simp del: encode.simps)
qed

section \<open>From memory to the machine\<close>

text \<open>
  C2. From memory to the machine: an instruction that the disassembler makes of the bytes of memory, of a
  modelled kind and with such an instruction in the delay slot if it is a branch or jump, is an instruction
  of the abstract set with operands in range; from every machine that stands for an abstract one it is
  processed without an exception and the machine then stands for the result of the abstract step.
\<close>

theorem disassembled_progress:
  assumes "disassembleOne fuel bo decoders m va = Some (Some insn)" "runnable insn" "machine_rep mc s"
  shows "\<exists>i s'. insn = encode i \<and> well_formed i \<and> astep i s = Some s' \<and>
    succeeds (processInstruction (Mips32 bo True) insn mc) (\<lambda>mc'. machine_rep mc' s')"
proof -
  from disassembleOne_well [OF assms(1,2)] obtain i where i: "insn = encode i" "well_formed i" by blast
  with astep_total obtain s' where s': "astep i s = Some s'" by blast
  with i well_formed_ok show ?thesis using cm.instruction_is [OF assms(3) _ s'] by (auto simp: processInstruction_def)
qed

text \<open>A branch with an addition in its delay slot.\<close>

definition sample_code :: code_map where
  "sample_code = map_of (zip [0, 1, 2, 3, 4, 5, 6, 7] [0x14, 0x85, 0x00, 0x03, 0x00, 0x85, 0x10, 0x21])"

lemma sample_bytes: "read_code sample_code 0 = Some [0x14, 0x85, 0x00, 0x03]" "read_code sample_code 4 = Some [0x00, 0x85, 0x10, 0x21]"
  by (simp_all add: read_code_def sample_code_def)

lemma sample_words: "diskToHost ORDER_MSB [0x14, 0x85, 0x00, 0x03] = 0x14850003" "diskToHost ORDER_MSB [0x00, 0x85, 0x10, 0x21] = 0x00851021"
  by (simp_all add: diskToHost_def)

lemma sample_disassembled:
  "disassembleOne 2 ORDER_MSB decoders sample_code 0 = Some (Some (encode
    (AInsn mips_bne 0 4 [Gpr 4, Gpr 5, Imm 32 16] (Some (AInsn mips_addu 4 4 [Gpr 2, Gpr 4, Gpr 5] None)))))"
proof -
  have "assembled 0 mips_bne [Gpr 4, Gpr 5, Imm 32 16] 0x14850003 [0x14, 0x85, 0x00, 0x03]"
    using assembled_branch [of 4 5 3 0] by (simp add: iword_def relative_target_def signed_of_def bit_iff_odd)
  moreover have "assembled 4 mips_addu [Gpr 2, Gpr 4, Gpr 5] 0x00851021 [0x00, 0x85, 0x10, 0x21]"
    using assembled_register [of mips_addu 0 33 2 4 5] by (simp add: rword_def register_codes_def)
  ultimately show ?thesis unfolding numeral_2_eq_2
    by (simp add: disassembleOne_some [OF _ sample_bytes(1)] disassembleOne_some [OF _ sample_bytes(2)] sample_words nDelaySlots_def set_delaySlot_def
      del: disassembleOne.simps)
qed

theorem disassembled_progress_witness:
  "\<exists>insn. disassembleOne 2 ORDER_MSB decoders sample_code 0 = Some (Some insn) \<and>
    succeeds (processInstruction (Mips32 ORDER_MSB True) insn sample_machine) (\<lambda>mc'. \<exists>s'. machine_rep mc' s')"
  using disassembled_progress [OF sample_disassembled _ sample_rep]
  by (auto simp: sample_disassembled exec_kinds_def branch_kinds_def elim: succeeds_mono simp del: disassembleOne.simps)

end
