(* ===== verification/Mips_Architecture.thy ===== *)
theory Mips_Architecture
  imports Sawyer_Set Mips_Assembly
begin

text \<open>
  What the architecture definition says about the flow of control (\<^verbatim>\<open>Architecture/Mips32.C\<close>): the ends of
  basic blocks, calls and returns, the target of a branch and the successors of an instruction. An
  instruction is one of the MIPS architecture, so the assertions that its pointer is not null have no
  counterpart; a failed assertion about the operands is the value \<open>None\<close>.
\<close>

section \<open>Instructions and their successors\<close>

definition isUnknown :: "mips_insn \<Rightarrow> bool" where
  "isUnknown insn \<longleftrightarrow> mips_unknown_instruction = get_kind insn"

definition terminatesBasicBlock :: "mips_insn \<Rightarrow> bool" where
  "terminatesBasicBlock insn \<longleftrightarrow> get_kind insn \<in>
     {mips_b, mips_bal, mips_bc1f, mips_bc1fl, mips_bc1t, mips_bc1tl, mips_bc2f, mips_bc2fl, mips_bc2t, mips_bc2tl,
      mips_beq, mips_beql, mips_bgez, mips_bgezal, mips_bgezall, mips_bgezl, mips_bgtz, mips_bgtzl, mips_blez,
      mips_blezl, mips_bltz, mips_bltzal, mips_bltzall, mips_bltzl, mips_bne, mips_bnel, mips_break, mips_j, mips_jal,
      mips_jalr, mips_jalr_hb, mips_jalx, mips_jr, mips_jr_hb, mips_syscall, mips_teq, mips_teqi, mips_tge, mips_tgei,
      mips_tgeiu, mips_tgeu, mips_tlt, mips_tlti, mips_tltiu, mips_tltu, mips_tne, mips_tnei}"

text \<open>The absolute value of the operand with the given index, which is asserted to be a number.\<close>

definition target_operand :: "mips_insn \<Rightarrow> nat \<Rightarrow> 64 word option" where
  "target_operand insn i = do {
     require (length (operands insn) \<ge> i + 1);
     case operands insn ! i of
       IntegerValue v base t \<Rightarrow> get_absoluteValue v base 0
     | _ \<Rightarrow> None
   }"

definition branchTarget :: "mips_insn \<Rightarrow> 64 word option option" where
  "branchTarget insn =
     (if get_kind insn \<in> {mips_b, mips_bal, mips_j, mips_jal, mips_jalx} then do { t \<leftarrow> target_operand insn 0; Some (Some t) }
      else if get_kind insn \<in> {mips_bgez, mips_bgezal, mips_bgezall, mips_bgezl, mips_bgtz, mips_bgtzl, mips_blez, mips_blezl,
        mips_bltz, mips_bltzal, mips_bltzall, mips_bltzl} then do { t \<leftarrow> target_operand insn 1; Some (Some t) }
      else if get_kind insn \<in> {mips_beq, mips_beql, mips_bne, mips_bnel} then do { t \<leftarrow> target_operand insn 2; Some (Some t) }
      else Some None)"

text \<open>
  Call and return. \<^verbatim>\<open>isFunctionCallFast\<close> is called with both pointers; its result holds the values that are assigned through
  them, if any.
\<close>

definition isFunctionCallFast :: "mips_insn list \<Rightarrow> (bool \<times> 64 word option \<times> 64 word option) option" where
  "isFunctionCallFast insns =
     (if insns = [] then Some (False, None, None)
      else if get_kind (last insns) \<in> {mips_bgezal, mips_bgezall, mips_bltzal, mips_bltzall, mips_jal, mips_jalr, mips_jalr_hb, mips_jalx}
      then do {
        target \<leftarrow> branchTarget (last insns);
        Some (True, target, Some (get_address (last insns) + get_size (last insns)))
      }
      else Some (False, None, None))"

fun expr_register :: "asm_expr \<Rightarrow> register_descriptor option" where
  "expr_register (DirectRegister reg adj t) = Some reg"
| "expr_register (IndirectRegister reg adj stride offset index modulus t) = Some reg"
| "expr_register e = None"

definition isFunctionReturnFast :: "mips_insn list \<Rightarrow> bool" where
  "isFunctionReturnFast insns =
     (if insns = [] then False
      else if get_kind (last insns) \<noteq> mips_jr then False
      else if length (operands (last insns)) < 1 then False
      else case expr_register (operands (last insns) ! 0) of
        None \<Rightarrow> False
      | Some reg \<Rightarrow> majorNumber reg = 0 \<and> minorNumber reg = 31)"

text \<open>
  The successors are a set of addresses, and a flag that says whether the set is complete.
\<close>

type_synonym address_set = "64 word ordered_set"

definition insert_target :: "mips_insn \<Rightarrow> address_set \<Rightarrow> (address_set \<times> bool) option" where
  "insert_target insn successors = do {
     target \<leftarrow> branchTarget insn;
     case target of
       Some t \<Rightarrow> Some (fst (Set_insert successors t), True)
     | None \<Rightarrow> Some (successors, False)
   }"

definition insert_fallthrough :: "mips_insn \<Rightarrow> address_set \<Rightarrow> address_set" where
  "insert_fallthrough insn successors = fst (Set_insert successors (get_address insn + get_size insn))"

definition getSuccessors :: "mips_insn \<Rightarrow> (address_set \<times> bool) option" where
  "getSuccessors insn =
     (if get_kind insn \<in> {mips_b, mips_bal, mips_break, mips_j, mips_jal, mips_jalr, mips_jalx, mips_jr, mips_jr_hb, mips_syscall}
      then insert_target insn Set_new
      else if get_kind insn \<in> {mips_beq, mips_beql, mips_bgez, mips_bgezal, mips_bgezall, mips_bgezl, mips_bgtz, mips_bgtzl, mips_blez,
        mips_blezl, mips_bltz, mips_bltzal, mips_bltzall, mips_bltzl, mips_bne, mips_bnel, mips_teq, mips_teqi, mips_tge, mips_tgei,
        mips_tgeiu, mips_tgeu, mips_tlt, mips_tlti, mips_tltiu, mips_tltu, mips_tne, mips_tnei}
      then do {
        (successors, complete) \<leftarrow> insert_target insn Set_new;
        Some (insert_fallthrough insn successors, complete)
      }
      else Some (insert_fallthrough insn Set_new, True))"

text \<open>
  The successors of a basic block are those of its last instruction (\<^verbatim>\<open>Architecture/Base.C\<close>); the disassembler adds the
  address that a call returns to (\<^verbatim>\<open>Disassembler/Base.C\<close>). The instruction map is the list of its instructions in the order of
  their addresses.
\<close>

definition getSuccessors_block :: "mips_insn list \<Rightarrow> (address_set \<times> bool) option" where
  "getSuccessors_block insns = (if insns = [] then Some (Set_new, True) else getSuccessors (last insns))"

definition isFunctionCallSlow :: "mips_insn list \<Rightarrow> (bool \<times> 64 word option \<times> 64 word option) option" where
  "isFunctionCallSlow insns = isFunctionCallFast insns"

definition get_block_successors :: "mips_insn list \<Rightarrow> (address_set \<times> bool) option" where
  "get_block_successors insns = do {
     (successors, complete) \<leftarrow> getSuccessors_block insns;
     (call, target, return_va) \<leftarrow> isFunctionCallSlow insns;
     Some (case (call, return_va) of
         (True, Some va) \<Rightarrow> (fst (Set_insert successors va), complete)
       | _ \<Rightarrow> (successors, complete))
   }"

text \<open>
  \<^verbatim>\<open>disassembleOne\<close> with a set of successors, to which it adds those of the instruction before it looks at the delay slot. The
  recursion for the delay slot passes no set.
\<close>

definition disassembleOne_successors ::
  "nat \<Rightarrow> byte_order \<Rightarrow> decoder list \<Rightarrow> code_map \<Rightarrow> 64 word \<Rightarrow> address_set \<Rightarrow> (mips_insn \<times> address_set) option option" where
  "disassembleOne_successors fuel bo idis_table m insn_va successors =
     (if insn_va mod 4 \<noteq> 0 then Some None
      else case read_code m insn_va of
        None \<Rightarrow> Some None
      | Some memBytes \<Rightarrow>
          (let insn_bits = diskToHost bo memBytes in
           case disassemble_insn idis_table insn_va insn_bits memBytes of
             None \<Rightarrow> Some (Some (makeUnknownInstruction insn_va insn_bits, successors))
           | Some None \<Rightarrow> Some (Some (makeUnknownInstruction insn_va insn_bits, successors))
           | Some (Some insn) \<Rightarrow>
               (case getSuccessors insn of
                  None \<Rightarrow> Some None
                | Some (following, complete) \<Rightarrow>
                    (let successors = Set_or_assign successors following in
                     if nDelaySlots (get_kind insn) > 0 then
                       (case disassembleOne fuel bo idis_table m (get_address insn + get_size insn) of
                          None \<Rightarrow> None
                        | Some None \<Rightarrow> Some (Some (insn, successors))
                        | Some (Some delayInsn) \<Rightarrow> Some (Some (set_delaySlot insn delayInsn, successors)))
                     else Some (Some (insn, successors))))))"

section \<open>The successors of the abstract instructions\<close>

lemma target_operand_is:
  assumes "i < length ps" "ps ! i = Imm 32 y" "y < 2 ^ 32"
  shows "target_operand (Insn k a n (map operand_expr ps) slot) i = Some (of_nat y)"
proof -
  from assms IntegerValue_new_is(1) [of 32 y] obtain v where v: "imm_expr 32 y = IntegerValue v 0 32" "bv_is v 32 y" by auto
  with assms show ?thesis
    by (simp add: target_operand_def get_absoluteValue_def relative_value [OF v(2)] masked_immediate)
qed

text \<open>The target is the last operand of the branches and jumps that have one.\<close>

fun target_of :: "operand list \<Rightarrow> nat" where
  "target_of [Imm t y] = y"
| "target_of [Gpr a, Imm t y] = y"
| "target_of [Gpr a, Gpr b, Imm t y] = y"
| "target_of ps = 0"

definition direct_kinds :: "mips_kind list" where
  "direct_kinds = [mips_b, mips_bal, mips_j, mips_jal, mips_jalx]"

definition conditional_kinds :: "mips_kind list" where
  "conditional_kinds = [mips_beq, mips_bne, mips_bgez, mips_bgtz, mips_blez, mips_bltz, mips_bgezal, mips_bltzal]"

definition indirect_kinds :: "mips_kind list" where
  "indirect_kinds = [mips_jr, mips_jr_hb, mips_jalr, mips_jalr_hb]"

lemma branch_shape_cases:
  assumes "branch_shape k ps"
  obtains (direct) y where "k \<in> set direct_kinds" "ps = [Imm 32 y]"
  | (conditional) y where "k \<in> set conditional_kinds" "last ps = Imm 32 y" "target_of ps = y"
  | (indirect) "k \<in> set indirect_kinds"
  using assms
  by (cases "(k, ps)" rule: branch_shape.cases) (auto simp: direct_kinds_def conditional_kinds_def indirect_kinds_def)

lemma branchTarget_is:
  assumes "\<forall>p\<in>set ps. operand_ok p" "branch_shape k ps"
  shows "branchTarget (Insn k a n (map operand_expr ps) slot) =
    Some (if k \<in> set indirect_kinds then None else Some (of_nat (target_of ps)))"
  using assms target_operand_is [of 0 ps] target_operand_is [of 1 ps] target_operand_is [of 2 ps]
  by (cases "(k, ps)" rule: branch_shape.cases)
    (auto simp: branchTarget_def indirect_kinds_def simp del: operand_expr.simps power_numeral)

text \<open>What the successors should be read as, for the instructions of the abstract set.\<close>

definition succ_set :: "ainsn \<Rightarrow> 64 word set" where
  "succ_set i =
     (if ai_kind i \<in> set direct_kinds then {of_nat (target_of (ai_operands i))}
      else if ai_kind i \<in> set conditional_kinds then {of_nat (target_of (ai_operands i)), ai_address i + ai_size i}
      else if ai_kind i \<in> {mips_jr, mips_jr_hb, mips_jalr, mips_break} then {}
      else {ai_address i + ai_size i})"

definition succ_complete :: "ainsn \<Rightarrow> bool" where
  "succ_complete i \<longleftrightarrow> ai_kind i \<notin> {mips_jr, mips_jr_hb, mips_jalr, mips_break}"

definition flow_kinds :: "mips_kind list" where
  "flow_kinds = [mips_b, mips_bal, mips_j, mips_jal, mips_jalr, mips_jalr_hb, mips_jalx, mips_jr, mips_jr_hb, mips_syscall, mips_beq, mips_beql, mips_bgez,
     mips_bgezal, mips_bgezall, mips_bgezl, mips_bgtz, mips_bgtzl, mips_blez, mips_blezl, mips_bltz, mips_bltzal, mips_bltzall, mips_bltzl,
     mips_bne, mips_bnel, mips_teq, mips_teqi, mips_tge, mips_tgei, mips_tgeiu, mips_tgeu, mips_tlt, mips_tlti, mips_tltiu, mips_tltu,
     mips_tne, mips_tnei]"

definition coprocessor_branches :: "mips_kind list" where
  "coprocessor_branches = [mips_bc1f, mips_bc1fl, mips_bc1t, mips_bc1tl, mips_bc2f, mips_bc2fl, mips_bc2t, mips_bc2tl]"

lemma map_of_keys: "map_of xs k \<noteq> None \<Longrightarrow> list_all P (map fst xs) \<Longrightarrow> P k"
  by (induction xs) (auto split: if_split_asm)

lemma tables_no_flow:
  "alu k \<noteq> None \<Longrightarrow> k \<notin> set (flow_kinds @ coprocessor_branches)" "alu_imm k \<noteq> None \<Longrightarrow> k \<notin> set (flow_kinds @ coprocessor_branches)"
  "alu_unary k \<noteq> None \<Longrightarrow> k \<notin> set (flow_kinds @ coprocessor_branches)"
  "multiply_op k \<noteq> None \<Longrightarrow> k \<notin> set (flow_kinds @ coprocessor_branches)"
  unfolding alu_def alu_imm_def alu_unary_def multiply_op_def by (erule map_of_keys, simp add: flow_kinds_def coprocessor_branches_def)+

text \<open>The kinds of the remaining instructions without a delay slot.\<close>

definition plain_kinds :: "mips_kind list" where
  "plain_kinds = [mips_add, mips_sub, mips_movz, mips_movn, mips_addi, mips_mfhi, mips_mthi, mips_mflo, mips_mtlo, mips_lui, mips_nop, mips_ssnop, mips_ehb,
     mips_break, mips_lb, mips_lbe, mips_lh, mips_lhe, mips_lw, mips_lwe, mips_lbu, mips_lbue, mips_lhu, mips_lhue, mips_sb, mips_sbe, mips_sh, mips_she,
     mips_sw, mips_swe, mips_sdc1, mips_suxc1, mips_swc1, mips_swc2, mips_swxc1]"

lemma plain_no_flow: "k \<in> set plain_kinds \<Longrightarrow> k \<notin> set (flow_kinds @ coprocessor_branches)"
proof -
  have "list_all (\<lambda>k. k \<notin> set (flow_kinds @ coprocessor_branches)) plain_kinds" by (simp add: plain_kinds_def flow_kinds_def coprocessor_branches_def)
  then show "k \<in> set plain_kinds \<Longrightarrow> k \<notin> set (flow_kinds @ coprocessor_branches)" by (simp add: list_all_iff)
qed

lemma accesses_plain: "loads_signed k \<or> loads_unsigned k \<or> store_width k \<noteq> None \<Longrightarrow> k \<in> set plain_kinds"
  by (auto simp: loads_signed_def loads_unsigned_def store_width_def plain_kinds_def split: if_split_asm)

lemma exec_shape_kinds:
  "exec_shape k ps \<Longrightarrow> alu k \<noteq> None \<or> alu_imm k \<noteq> None \<or> alu_unary k \<noteq> None \<or> multiply_op k \<noteq> None \<or> k \<in> set plain_kinds"
  using accesses_plain [of k] by (cases "(k, ps)" rule: exec_shape.cases) (auto simp: plain_kinds_def)

lemma exec_shape_flow: "exec_shape k ps \<Longrightarrow> k \<notin> set (flow_kinds @ coprocessor_branches)"
  using exec_shape_kinds tables_no_flow plain_no_flow by blast

lemma exec_no_flow: "exec_shape k ps \<Longrightarrow> k \<notin> set flow_kinds"
  using exec_shape_flow [of k ps] by simp

lemma fallthrough_is:
  assumes "set_ok s"
  shows "set_ok (insert_fallthrough insn s) \<and> set (insert_fallthrough insn s) = insert (get_address insn + get_size insn) (set s)"
  using set_insert_is [OF assms] by (simp add: insert_fallthrough_def)

lemma insert_target_is:
  assumes "branchTarget insn = Some t" "set_ok s"
  shows "succeeds (insert_target insn s) (\<lambda>(s', c). set_ok s' \<and> set s' = set s \<union> set_option t \<and> c = (t \<noteq> None))"
  using assms set_insert_is [OF assms(2)] by (cases t) (auto simp: insert_target_def)

text \<open>The classes of kinds that the switch distinguishes.\<close>

lemma getSuccessors_class:
  "get_kind insn \<in> set direct_kinds \<or> get_kind insn \<in> {mips_jr, mips_jr_hb, mips_jalr, mips_break} \<Longrightarrow>
    getSuccessors insn = insert_target insn Set_new"
  "get_kind insn \<in> set conditional_kinds \<Longrightarrow> getSuccessors insn = do {
     (successors, complete) \<leftarrow> insert_target insn Set_new;
     Some (insert_fallthrough insn successors, complete) }"
  "get_kind insn \<notin> set flow_kinds - {mips_jalr_hb} \<Longrightarrow> get_kind insn \<noteq> mips_break \<Longrightarrow> getSuccessors insn = Some (insert_fallthrough insn Set_new, True)"
  unfolding getSuccessors_def direct_kinds_def conditional_kinds_def flow_kinds_def by auto

lemma direct_disjoint: "k \<in> set direct_kinds \<Longrightarrow> k \<in> set flow_kinds" "k \<in> set conditional_kinds \<Longrightarrow> k \<in> set flow_kinds"
  "k \<in> set indirect_kinds \<Longrightarrow> k \<in> set flow_kinds" "k \<in> set direct_kinds \<Longrightarrow> k \<notin> set conditional_kinds"
  "k \<in> set direct_kinds \<Longrightarrow> k \<notin> set indirect_kinds" "k \<in> set conditional_kinds \<Longrightarrow> k \<notin> set indirect_kinds"
  by (auto simp: direct_kinds_def conditional_kinds_def indirect_kinds_def flow_kinds_def)

lemma branchTarget_none: "get_kind insn \<notin> set flow_kinds \<Longrightarrow> branchTarget insn = Some None"
  unfolding branchTarget_def flow_kinds_def by simp

lemma branch_shape_kinds: "branch_shape k ps \<Longrightarrow> k \<in> set direct_kinds \<or> k \<in> set conditional_kinds \<or> k \<in> set indirect_kinds"
  by (auto elim: branch_shape_cases)

lemma branchTarget_encode:
  assumes "well_formed i"
  shows "branchTarget (encode i) =
    Some (if ai_kind i \<in> set direct_kinds \<or> ai_kind i \<in> set conditional_kinds then Some (of_nat (target_of (ai_operands i))) else None)"
proof (cases i rule: well_formed.cases)
  case (1 k a n ps)
  with assms have "k \<notin> set flow_kinds" using exec_no_flow by auto
  with 1 direct_disjoint(1,2) show ?thesis by (auto simp: branchTarget_none)
next
  case (2 k a n ps inner)
  with assms have shape: "branch_shape k ps" by simp
  from 2 assms branchTarget_is [OF _ shape] have "branchTarget (encode i) = Some (if k \<in> set indirect_kinds then None else Some (of_nat (target_of ps)))" by simp
  with 2 branch_shape_kinds [OF shape] direct_disjoint(5,6) show ?thesis by auto
qed

lemma indirect_known: "k \<in> set indirect_kinds \<Longrightarrow> k \<noteq> mips_jalr_hb \<Longrightarrow> k \<in> {mips_jr, mips_jr_hb, mips_jalr, mips_break}"
  by (auto simp: indirect_kinds_def)

lemma special_not: "k \<in> {mips_jr, mips_jr_hb, mips_jalr, mips_break} \<Longrightarrow> k \<notin> set direct_kinds \<and> k \<notin> set conditional_kinds"
  by (auto simp: direct_kinds_def conditional_kinds_def)

lemma well_formed_kinds:
  assumes "well_formed i"
  obtains (direct) "ai_kind i \<in> set direct_kinds"
  | (conditional) "ai_kind i \<in> set conditional_kinds"
  | (unknown) "ai_kind i \<in> {mips_jr, mips_jr_hb, mips_jalr, mips_break}" "ai_kind i \<notin> set direct_kinds" "ai_kind i \<notin> set conditional_kinds"
  | (next_insn) "ai_kind i \<notin> set flow_kinds - {mips_jalr_hb}" "ai_kind i \<noteq> mips_break" "ai_kind i \<notin> {mips_jr, mips_jr_hb, mips_jalr, mips_break}"
proof (cases i rule: well_formed.cases)
  case (1 k a n ps)
  with assms have "k \<notin> set flow_kinds" using exec_no_flow by auto
  then show thesis using 1 unknown next_insn special_not [of k] direct_disjoint(3) [of k] by (auto simp: indirect_kinds_def)
next
  case (2 k a n ps inner)
  with assms branch_shape_kinds [of k ps] show thesis
    using direct conditional unknown next_insn special_not [of k] indirect_known [of k] by auto
qed

lemma getSuccessors_is:
  assumes "well_formed i"
  shows "succeeds (getSuccessors (encode i)) (\<lambda>(ss, c). set_ok ss \<and> set ss = succ_set i \<and> c = succ_complete i)"
  using assms
proof (cases rule: well_formed_kinds)
  case direct
  with insert_target_is [OF branchTarget_encode [OF assms] constructors_are(1)] show ?thesis
    using special_not by (fastforce simp: getSuccessors_class(1) succ_set_def succ_complete_def constructors_are(1,2) elim!: succeeds_mono)
next
  case unknown
  with insert_target_is [OF branchTarget_encode [OF assms] constructors_are(1)] show ?thesis
    by (fastforce simp: getSuccessors_class(1) succ_set_def succ_complete_def constructors_are(1,2) elim!: succeeds_mono)
next
  case conditional
  from insert_target_is [OF branchTarget_encode [OF assms] constructors_are(1)] conditional obtain ss where
    ss: "insert_target (encode i) Set_new = Some (ss, True)" "set_ok ss" "set ss = {of_nat (target_of (ai_operands i))}"
    by (auto simp: constructors_are(1,2) elim!: succeedsE)
  with fallthrough_is [OF ss(2), of "encode i"] conditional show ?thesis
    using special_not direct_disjoint(4) by (fastforce simp: getSuccessors_class(2) succ_set_def succ_complete_def elim!: succeedsE)
next
  case next_insn
  have "mips_jalr_hb \<in> set indirect_kinds" by (simp add: indirect_kinds_def)
  with next_insn(1) have "ai_kind i \<notin> set direct_kinds" "ai_kind i \<notin> set conditional_kinds" using direct_disjoint by (metis DiffI singletonD)+
  with next_insn fallthrough_is [OF constructors_are(1), of "encode i"] show ?thesis
    by (auto simp: getSuccessors_class(3) succ_set_def succ_complete_def constructors_are(1,2) elim!: succeedsE)
qed

section \<open>Where an instruction goes\<close>

text \<open>The kinds that can raise an interrupt: on overflow, and always.\<close>

definition overflow_kinds :: "mips_kind list" where
  "overflow_kinds = [mips_add, mips_sub, mips_addi]"

definition raising_kinds :: "mips_kind list" where
  "raising_kinds = mips_break # overflow_kinds"

lemma pc_kept: "i < 32 \<Longrightarrow> get_reg (set_gpr s i x) REG_PC = get_reg s REG_PC" "get_reg (set_hilo s v) REG_PC = get_reg s REG_PC"
  "get_reg (set_lo_hi s q r) REG_PC = get_reg s REG_PC" "get_reg (set_reg s REG_HI x) REG_PC = get_reg s REG_PC"
  "get_reg (set_reg s REG_LO x) REG_PC = get_reg s REG_PC"
  by (simp_all add: set_gpr_def set_hilo_def set_lo_hi_def get_set_other registers_apart(6,7) [symmetric])

lemma pc_kept_store: "get_reg (set_mem s b n x) REG_PC = get_reg s REG_PC"
  by (simp add: set_mem_def get_reg_def)

lemma exec_pc:
  assumes "exec k ps s = Some s'" "\<forall>p\<in>set ps. operand_ok p" "k \<noteq> mips_break"
  shows "get_reg s' REG_PC = get_reg s REG_PC \<or> k \<in> set overflow_kinds \<and> s' = cleared s"
  using assms
  by (cases "(k, ps, s)" rule: exec.cases)
    (auto simp: pc_kept pc_kept_store overflow_kinds_def trapped_def split: option.split_asm if_split_asm)

lemma branch_pc:
  assumes "branch k a ps s = Some s'" "\<forall>p\<in>set ps. operand_ok p" "branch_shape k ps"
  shows "k \<in> set direct_kinds \<Longrightarrow> get_reg s' REG_PC = target_of ps"
    "k \<in> set conditional_kinds \<Longrightarrow> get_reg s' REG_PC \<in> {target_of ps, get_reg s REG_PC}"
proof -
  have set_pc: "y < 2 ^ 32 \<Longrightarrow> get_reg (set_reg s REG_PC y) REG_PC = y" for s y by (simp add: get_set_same)
  have "get_reg s REG_PC < 2 ^ 32" for s using get_reg_less [of s REG_PC] by simp
  then have if_pc: "y < 2 ^ 32 \<Longrightarrow> get_reg (branch_if s c y) REG_PC = (if c then y else get_reg s REG_PC)" for s c y
    by (simp add: branch_if_def set_pc)
  have link: "get_reg (linked s 31 a) REG_PC = get_reg s REG_PC" for s by (simp add: linked_def pc_kept)
  show "k \<in> set direct_kinds \<Longrightarrow> get_reg s' REG_PC = target_of ps"
    using assms by (cases "(k, ps)" rule: branch_shape.cases)
      (auto simp: direct_kinds_def set_pc simp del: power_numeral split: if_split_asm)
  show "k \<in> set conditional_kinds \<Longrightarrow> get_reg s' REG_PC \<in> {target_of ps, get_reg s REG_PC}"
    using assms by (cases "(k, ps)" rule: branch_shape.cases)
      (auto simp: conditional_kinds_def if_pc link simp del: power_numeral split: if_split_asm)
qed

lemma branch_jalr_pc:
  assumes "branch k a ps s = Some s'" "\<forall>p\<in>set ps. operand_ok p" "branch_shape k ps" "k \<in> {mips_jalr, mips_jalr_hb}"
  obtains rd rs where "ps = [Gpr rd, Gpr rs]" "get_reg s' REG_PC = gpr s' rs"
proof -
  from assms(2-4) obtain rd rs where ps: "ps = [Gpr rd, Gpr rs]" "rd < 32" "rs < 32"
    by (cases "(k, ps)" rule: branch_shape.cases) auto
  define s1 where "s1 = linked s (if rd = 0 then 31 else rd) a"
  from assms(1,4) ps(1) have s': "s' = set_reg s1 REG_PC (gpr s1 rs)" by (auto simp: s1_def split: if_split_asm)
  have "gpr s1 rs < 2 ^ 32" using get_reg_less [of s1 "mips_gpr rs"] ps(3) by (simp add: gpr_def)
  with ps(3) have "get_reg s' REG_PC = gpr s' rs" by (simp add: s' get_set_same gpr_def get_set_other)
  with ps(1) that show thesis by blast
qed

text \<open>
  The delay slot of an instruction is quiet if it holds the instruction that follows, which raises no interrupt and is no
  control transfer itself.
\<close>

fun quiet_slot :: "ainsn \<Rightarrow> bool" where
  "quiet_slot (AInsn k a n ps None) \<longleftrightarrow> True"
| "quiet_slot (AInsn k a n ps (Some (AInsn k' a' n' ps' slot))) \<longleftrightarrow>
     slot = None \<and> a' = a + n \<and> n' = n \<and> k' \<notin> set raising_kinds \<and> \<not> isControlTransfer k'"

text \<open>The state that the instruction in the delay slot leaves for its control transfer.\<close>

fun slot_state :: "ainsn \<Rightarrow> astate \<Rightarrow> astate option" where
  "slot_state (AInsn k a n ps None) s = Some (advanced s a n)"
| "slot_state (AInsn k a n ps (Some inner)) s =
     astep inner (if isControlTransfer (ai_kind inner) then cleared (advanced s a n) else advanced s a n)"

lemma advanced_pc: "get_reg (advanced s a n) REG_PC = unat (a + n) mod 2 ^ 32"
  by (simp add: advanced_def get_set_same)

lemma step_next:
  assumes "well_formed (AInsn k a n ps None)" "k \<noteq> mips_break" "astep (AInsn k a n ps None) s = Some s'"
  shows "get_reg s' REG_PC = unat (a + n) mod 2 ^ 32 \<or> k \<in> set overflow_kinds \<and> s' = cleared (advanced s a n)"
  using exec_pc [of k ps "advanced s a n" s'] assms advanced_pc [of s a n] by simp

lemma quiet_slot_pc:
  assumes "well_formed i" "quiet_slot i" "slot_state i s = Some s1" "ai_slot i \<noteq> None"
  shows "get_reg s1 REG_PC = unat (ai_address i + 2 * ai_size i) mod 2 ^ 32"
proof (cases i rule: quiet_slot.cases)
  case (2 k a n ps k' a' n' ps' slot)
  with assms step_next [of k' a' n' ps' "advanced s a n" s1] show ?thesis
    by (auto simp: raising_kinds_def algebra_simps)
qed (use assms(4) in simp)

lemma step_transfer:
  assumes "branch_shape (ai_kind i) (ai_operands i)" "ai_slot i \<noteq> None" "astep i s = Some s'"
  obtains s1 where "slot_state i s = Some s1" "branch (ai_kind i) (ai_address i) (ai_operands i) s1 = Some s'"
  using assms branch_shape_transfers [OF assms(1)] by (cases i rule: well_formed.cases) (auto simp: bind_eq_Some_conv)

text \<open>
  Where an instruction goes whose successors are said to be complete, with every deviation: a branch that is not taken leaves
  the program counter where its delay slot left it, an overflow discards the state, and \<^verbatim>\<open>jalr.hb\<close> jumps to a register.
\<close>

definition goes_to :: "ainsn \<Rightarrow> astate \<Rightarrow> astate \<Rightarrow> 64 word set \<Rightarrow> bool" where
  "goes_to i s s' succs \<longleftrightarrow>
     get_reg s' REG_PC \<in> (\<lambda>x. unat x mod 2 ^ 32) ` succs \<or>
     ai_kind i \<in> set conditional_kinds \<and> ai_address i + ai_size i \<in> succs \<and>
       (\<exists>s1. slot_state i s = Some s1 \<and> get_reg s' REG_PC = get_reg s1 REG_PC) \<and>
       (quiet_slot i \<longrightarrow> get_reg s' REG_PC = unat (ai_address i + 2 * ai_size i) mod 2 ^ 32) \<or>
     ai_kind i \<in> set overflow_kinds \<and> s' = cleared (advanced s (ai_address i) (ai_size i)) \<or>
     ai_kind i = mips_jalr_hb \<and> succs = {ai_address i + ai_size i} \<and>
       (\<exists>rd rs. ai_operands i = [Gpr rd, Gpr rs] \<and> get_reg s' REG_PC = gpr s' rs)"

lemma branch_target_less: "branch_shape k ps \<Longrightarrow> \<forall>p\<in>set ps. operand_ok p \<Longrightarrow> target_of ps < 2 ^ 32"
  by (cases "(k, ps)" rule: branch_shape.cases) auto

lemma successors_step:
  assumes "well_formed i" "astep i s = Some s'" "succ_complete i"
  shows "goes_to i s s' (succ_set i)"
proof (cases i rule: well_formed.cases)
  case (1 k a n ps)
  then have "k \<notin> set flow_kinds" "k \<noteq> mips_break" using assms(1,3) exec_no_flow by (auto simp: succ_complete_def)
  then have "succ_set i = {a + n}" using 1 assms(3) direct_disjoint(1,2) by (auto simp: succ_set_def succ_complete_def)
  with 1 step_next [of k a n ps s s'] assms(1,2) \<open>k \<noteq> mips_break\<close> show ?thesis by (auto simp: goes_to_def)
next
  case (2 k a n ps inner)
  with assms(1) have shape: "branch_shape k ps" "\<forall>p\<in>set ps. operand_ok p" by simp_all
  from step_transfer [of i s s'] assms(2) 2 shape(1) obtain s1 where
    s1: "slot_state i s = Some s1" "branch k a ps s1 = Some s'" by auto
  have target: "unat (of_nat (target_of ps) :: 64 word) mod 2 ^ 32 = target_of ps"
    using branch_target_less [OF shape] by (simp add: unat_of_nat)
  consider (direct) "k \<in> set direct_kinds" | (conditional) "k \<in> set conditional_kinds" | (jalr) "k = mips_jalr_hb"
    using 2 assms(3) branch_shape_kinds [OF shape(1)] indirect_known [of k] by (auto simp: succ_complete_def)
  then show ?thesis
  proof cases
    case direct
    with branch_pc(1) [OF s1(2) shape(2,1)] 2 target show ?thesis by (simp add: goes_to_def succ_set_def)
  next
    case conditional
    with branch_pc(2) [OF s1(2) shape(2,1)] quiet_slot_pc [OF assms(1) _ s1(1)] 2 target s1(1) direct_disjoint(4) show ?thesis
      by (auto simp: goes_to_def succ_set_def)
  next
    case jalr
    obtain rd rs where "ps = [Gpr rd, Gpr rs]" "get_reg s' REG_PC = gpr s' rs"
      by (rule branch_jalr_pc [OF s1(2) shape(2,1)]) (use jalr in simp)
    with 2 jalr show ?thesis by (simp add: goes_to_def succ_set_def direct_kinds_def conditional_kinds_def)
  qed
qed

lemma process_well_formed:
  assumes "machine_rep mc s" "well_formed i"
  obtains s' where "astep i s = Some s'" "succeeds (processInstruction (Mips32 bo True) (encode i) mc) (\<lambda>mc'. machine_rep mc' s')"
proof -
  from astep_total [OF assms(2)] obtain s' where "astep i s = Some s'" by blast
  with that cm.instruction_is [OF assms(1) well_formed_ok [OF assms(2)]] show thesis by (auto simp: processInstruction_def)
qed

text \<open>
  C18. The successors of a well-formed instruction (of a modelled kind other than \<^verbatim>\<open>div\<close> and \<^verbatim>\<open>divu\<close>) against what processing
  it does. If the successors are said to be complete then the program counter after the instruction is one of them, modulo the
  width of the program counter, with three exceptions and no others (\<open>goes_to\<close>). A conditional branch that is not taken leaves
  the program counter where the instruction in its delay slot left it, which is the address after the delay slot if that
  instruction follows the branch, raises no interrupt and is no control transfer, while the successors hold the address of the
  delay slot. An \<^verbatim>\<open>add\<close>, \<^verbatim>\<open>sub\<close> or \<^verbatim>\<open>addi\<close> that overflows discards the state. \<^verbatim>\<open>jalr.hb\<close>, which is not a case of the switch,
  jumps to the address in its register, while the address of the delay slot is said to be its only successor.
\<close>

theorem successors_sound:
  assumes "machine_rep mc s" "well_formed i"
  shows "succeeds (getSuccessors (encode i)) (\<lambda>(successors, complete). set_ok successors \<and>
    succeeds (processInstruction (Mips32 bo True) (encode i) mc) (\<lambda>mc'. \<exists>s'. machine_rep mc' s' \<and>
      (complete \<longrightarrow> goes_to i s s' (set successors))))"
proof -
  from process_well_formed [OF assms(1,2)] obtain s' where
    s': "astep i s = Some s'" "succeeds (processInstruction (Mips32 bo True) (encode i) mc) (\<lambda>mc'. machine_rep mc' s')" .
  from getSuccessors_is [OF assms(2)] obtain ss where
    ss: "getSuccessors (encode i) = Some (ss, succ_complete i)" "set_ok ss" "set ss = succ_set i" by (auto elim!: succeedsE)
  with successors_step [OF assms(2) s'(1)] have "succ_complete i \<longrightarrow> goes_to i s s' (set ss)" by simp
  with ss(2) s'(2) show ?thesis unfolding ss(1) succeeds_Some prod.case by (blast intro: succeeds_mono)
qed

theorem successors_sound_witness:
  "succeeds (getSuccessors (encode (AInsn mips_j 104 4 [Imm 32 400] (Some (AInsn mips_nop 108 4 [] None)))))
    (\<lambda>(successors, complete). set_ok successors \<and>
      succeeds (processInstruction (Mips32 ORDER_LSB True) (encode (AInsn mips_j 104 4 [Imm 32 400] (Some (AInsn mips_nop 108 4 [] None)))) sample_machine)
        (\<lambda>mc'. \<exists>s'. machine_rep mc' s' \<and> (complete \<longrightarrow> get_reg s' REG_PC \<in> (\<lambda>x. unat x mod 2 ^ 32) ` set successors)))"
  by (rule succeeds_mono [OF successors_sound [OF sample_rep, of "AInsn mips_j 104 4 [Imm 32 400] (Some (AInsn mips_nop 108 4 [] None))" ORDER_LSB]])
    (auto simp: goes_to_def overflow_kinds_def conditional_kinds_def elim!: succeeds_mono)

section \<open>Blocks, calls and returns\<close>

lemma getSuccessors_slot: "getSuccessors (set_delaySlot insn inner) = getSuccessors insn"
  by (cases insn) (simp add: set_delaySlot_def getSuccessors_def insert_target_def insert_fallthrough_def branchTarget_def target_operand_def)

lemma makeUnknown_not_runnable: "\<not> runnable (makeUnknownInstruction va w)"
  by (simp add: makeUnknownInstruction_def makeInstruction_def set_rawBytes_def exec_kinds_def)

text \<open>
  C40. Disassembling with a set of successors makes the same instruction as without one and adds exactly the
  successors of the instruction to the set, for the instructions of the modelled kinds.
\<close>

theorem disassembled_successors:
  assumes "disassembleOne (Suc fuel) bo decoders m va = Some (Some insn)" "runnable insn" "set_ok successors"
  shows "\<exists>i successors'. insn = encode i \<and> well_formed i \<and>
    disassembleOne_successors fuel bo decoders m va successors = Some (Some (insn, successors')) \<and>
    set_ok successors' \<and> set successors' = set successors \<union> succ_set i"
proof -
  from disassembleOne_well [OF assms(1,2)] obtain i where i: "insn = encode i" "well_formed i" by blast
  from getSuccessors_is [OF i(2)] obtain ss where ss: "getSuccessors insn = Some (ss, succ_complete i)" "set_ok ss" "set ss = succ_set i"
    unfolding i(1) by (auto elim!: succeedsE)
  define ss' where "ss' = Set_or_assign successors ss"
  with or_assign_is [OF assms(3), of ss] have ss': "set_ok ss'" "set ss' = set successors \<union> succ_set i" by (simp_all add: ss(3))
  from assms(1) have "disassembleOne_successors fuel bo decoders m va successors = Some (Some (insn, ss'))"
  proof (cases rule: disassembleOneE)
    case (unknown w)
    with assms(2) makeUnknown_not_runnable show ?thesis by simp
  next
    case (single bytes)
    from decoded_form [OF single(2,3)] have "get_address insn + get_size insn = va + 4" by (metis mips_insn.sel(2,3))
    with single ss(1) ss'_def show ?thesis by (auto simp: disassembleOne_successors_def Let_def)
  next
    case (slot bytes insn0 inner)
    from decoded_form [OF slot(2,3)] have "get_address insn0 + get_size insn0 = va + 4" by (metis mips_insn.sel(2,3))
    with slot ss(1) ss'_def show ?thesis by (auto simp: disassembleOne_successors_def Let_def getSuccessors_slot)
  qed
  with i ss' show ?thesis by blast
qed

theorem disassembled_successors_witness:
  "\<exists>insn successors. disassembleOne_successors 1 ORDER_MSB decoders sample_code 0 Set_new = Some (Some (insn, successors)) \<and> set_ok successors"
proof -
  have "\<exists>i ss. encode (AInsn mips_bne 0 4 [Gpr 4, Gpr 5, Imm 32 16] (Some (AInsn mips_addu 4 4 [Gpr 2, Gpr 4, Gpr 5] None))) = encode i \<and> well_formed i \<and>
      disassembleOne_successors 1 ORDER_MSB decoders sample_code 0 Set_new =
        Some (Some (encode (AInsn mips_bne 0 4 [Gpr 4, Gpr 5, Imm 32 16] (Some (AInsn mips_addu 4 4 [Gpr 2, Gpr 4, Gpr 5] None))), ss)) \<and>
      set_ok ss \<and> set ss = set Set_new \<union> succ_set i"
    by (rule disassembled_successors) (use sample_disassembled in \<open>simp_all add: numeral_2_eq_2 exec_kinds_def branch_kinds_def constructors_are(1,2) del: disassembleOne.simps\<close>)
  then show ?thesis by blast
qed

text \<open>The calls among the modelled kinds, the register that each leaves its return address in, and its targets.\<close>

definition call_kinds :: "mips_kind list" where
  "call_kinds = [mips_jal, mips_jalx, mips_bgezal, mips_bltzal, mips_jalr, mips_jalr_hb]"

fun link_register :: "operand list \<Rightarrow> nat" where
  "link_register [Gpr rd, Gpr rs] = (if rd = 0 then 31 else rd)"
| "link_register ps = 31"

definition call_targets :: "ainsn \<Rightarrow> 64 word set" where
  "call_targets i = (if ai_kind i \<in> {mips_jalr, mips_jalr_hb} then {} else {of_nat (target_of (ai_operands i))})"

lemma call_shape:
  assumes "well_formed i" "ai_kind i \<in> set call_kinds"
  shows "branch_shape (ai_kind i) (ai_operands i)" "ai_slot i \<noteq> None" "\<forall>p\<in>set (ai_operands i). operand_ok p"
proof -
  have "set call_kinds \<subseteq> set flow_kinds" by (simp add: call_kinds_def flow_kinds_def)
  then have "\<not> exec_shape (ai_kind i) (ai_operands i)" using assms(2) exec_no_flow by blast
  with assms(1) show "branch_shape (ai_kind i) (ai_operands i)" "ai_slot i \<noteq> None" "\<forall>p\<in>set (ai_operands i). operand_ok p"
    by (cases i rule: well_formed.cases; auto)+
qed

lemma linked_link:
  assumes "r < 32" "r \<noteq> 0"
  shows "gpr (set_reg (linked s r a) REG_PC x) r = unat (a + 8) mod 2 ^ 32"
  using assms by (simp add: get_set_same gpr_def get_set_other linked_def set_gpr_def)

lemma step_call:
  assumes "well_formed i" "ai_kind i \<in> set call_kinds" "astep i s = Some s'"
  shows "gpr s' (link_register (ai_operands i)) = unat (ai_address i + 8) mod 2 ^ 32"
    "ai_kind i \<in> {mips_jal, mips_jalx} \<longrightarrow> get_reg s' REG_PC = target_of (ai_operands i)"
proof -
  note shape = call_shape [OF assms(1,2)]
  obtain s1 where s1: "branch (ai_kind i) (ai_address i) (ai_operands i) s1 = Some s'" by (rule step_transfer [OF shape(1,2) assms(3)])
  show "ai_kind i \<in> {mips_jal, mips_jalx} \<longrightarrow> get_reg s' REG_PC = target_of (ai_operands i)"
    using branch_pc(1) [OF s1 shape(3,1)] by (auto simp: direct_kinds_def)
  show "gpr s' (link_register (ai_operands i)) = unat (ai_address i + 8) mod 2 ^ 32"
    using shape(1,3) assms(2) s1
    by (cases "(ai_kind i, ai_operands i)" rule: branch_shape.cases)
      (auto simp: call_kinds_def branch_if_def linked_link simp del: power_numeral split: if_split_asm)
qed

lemma call_block_successors:
  assumes "well_formed i" "ai_kind i \<in> set call_kinds"
  shows "succeeds (get_block_successors (insns @ [encode i])) (\<lambda>(successors, complete).
    complete = (ai_kind i \<noteq> mips_jalr) \<and> set successors = call_targets i \<union> {ai_address i + ai_size i})"
proof -
  have k: "ai_kind i \<in> {mips_bgezal, mips_bgezall, mips_bltzal, mips_bltzall, mips_jal, mips_jalr, mips_jalr_hb, mips_jalx}"
    using assms(2) by (auto simp: call_kinds_def)
  from branchTarget_encode [OF assms(1)] obtain t where "branchTarget (encode i) = Some t" by blast
  with k have "isFunctionCallFast (insns @ [encode i]) = Some (True, t, Some (ai_address i + ai_size i))"
    by (simp add: isFunctionCallFast_def)
  moreover from getSuccessors_is [OF assms(1)] obtain ss where
    ss: "getSuccessors (encode i) = Some (ss, succ_complete i)" "set_ok ss" "set ss = succ_set i" by (auto elim!: succeedsE)
  moreover have "succ_complete i \<longleftrightarrow> ai_kind i \<noteq> mips_jalr" "succ_set i \<union> {ai_address i + ai_size i} = call_targets i \<union> {ai_address i + ai_size i}"
    using assms(2) by (auto simp: succ_complete_def succ_set_def call_targets_def call_kinds_def direct_kinds_def conditional_kinds_def)
  ultimately show ?thesis
    using set_insert_is [OF ss(2), of "ai_address i + ai_size i"]
    by (auto simp: get_block_successors_def getSuccessors_block_def isFunctionCallSlow_def elim!: succeedsE)
qed

lemma call_recognized:
  assumes "well_formed i"
  shows "succeeds (isFunctionCallSlow (insns @ [encode i])) (\<lambda>(call, target, return_va).
    (call \<longleftrightarrow> ai_kind i \<in> set call_kinds) \<and> (call \<longrightarrow> return_va = Some (ai_address i + ai_size i)))"
proof -
  from branchTarget_encode [OF assms] obtain t where t: "branchTarget (encode i) = Some t" by blast
  have "ai_kind i \<notin> {mips_bgezall, mips_bltzall}"
    using assms exec_no_flow by (cases i rule: well_formed.cases) (auto simp: flow_kinds_def dest!: branch_shape_kinds
      simp: direct_kinds_def conditional_kinds_def indirect_kinds_def)
  with t show ?thesis by (auto simp: isFunctionCallSlow_def isFunctionCallFast_def call_kinds_def)
qed

text \<open>
  C22. A block that ends in a well-formed instruction is taken for a call exactly if that is one of \<^verbatim>\<open>jal\<close>, \<^verbatim>\<open>jalx\<close>, \<^verbatim>\<open>bgezal\<close>,
  \<^verbatim>\<open>bltzal\<close>, \<^verbatim>\<open>jalr\<close> and \<^verbatim>\<open>jalr.hb\<close> (so not \<^verbatim>\<open>bal\<close>), and the return address is given as the address of the delay slot. The
  successors of a block that ends in a call are the target, where the instruction holds one, and that address; they are said to
  be complete unless the call is \<^verbatim>\<open>jalr\<close>. Processing the call leaves the address after the delay slot in the link register, for
  instructions of four bytes, so the function returns there and not to the address among the successors; \<^verbatim>\<open>jal\<close> and \<^verbatim>\<open>jalx\<close> go to
  the target.
\<close>

theorem call_successors:
  assumes "machine_rep mc s" "well_formed i"
  shows "succeeds (isFunctionCallSlow (insns @ [encode i])) (\<lambda>(call, target, return_va).
      (call \<longleftrightarrow> ai_kind i \<in> set call_kinds) \<and> (call \<longrightarrow> return_va = Some (ai_address i + ai_size i))) \<and>
    (ai_kind i \<in> set call_kinds \<longrightarrow>
      succeeds (get_block_successors (insns @ [encode i])) (\<lambda>(successors, complete).
        complete = (ai_kind i \<noteq> mips_jalr) \<and> set successors = call_targets i \<union> {ai_address i + ai_size i}) \<and>
      succeeds (processInstruction (Mips32 bo True) (encode i) mc) (\<lambda>mc'. \<exists>s'. machine_rep mc' s' \<and>
        gpr s' (link_register (ai_operands i)) = unat (ai_address i + 8) mod 2 ^ 32 \<and>
        (ai_kind i \<in> {mips_jal, mips_jalx} \<longrightarrow> get_reg s' REG_PC = target_of (ai_operands i))))"
proof (intro conjI impI)
  assume call: "ai_kind i \<in> set call_kinds"
  from process_well_formed [OF assms(1,2)] obtain s' where
    s': "astep i s = Some s'" "succeeds (processInstruction (Mips32 bo True) (encode i) mc) (\<lambda>mc'. machine_rep mc' s')" .
  from s'(2) step_call [OF assms(2) call s'(1)]
  show "succeeds (processInstruction (Mips32 bo True) (encode i) mc) (\<lambda>mc'. \<exists>s'. machine_rep mc' s' \<and>
      gpr s' (link_register (ai_operands i)) = unat (ai_address i + 8) mod 2 ^ 32 \<and>
      (ai_kind i \<in> {mips_jal, mips_jalx} \<longrightarrow> get_reg s' REG_PC = target_of (ai_operands i)))" by (blast intro: succeeds_mono)
qed (use call_recognized [OF assms(2)] call_block_successors [OF assms(2)] in auto)

theorem call_successors_witness:
  "succeeds (get_block_successors ([] @ [encode (AInsn mips_jal 104 4 [Imm 32 400] (Some (AInsn mips_nop 108 4 [] None)))]))
      (\<lambda>(successors, complete). complete \<and> set successors = {400, 108}) \<and>
    succeeds (processInstruction (Mips32 ORDER_LSB True) (encode (AInsn mips_jal 104 4 [Imm 32 400] (Some (AInsn mips_nop 108 4 [] None)))) sample_machine)
      (\<lambda>mc'. \<exists>s'. machine_rep mc' s' \<and> get_reg s' REG_PC = 400 \<and> gpr s' 31 = 112)"
  using call_successors [OF sample_rep, of "AInsn mips_jal 104 4 [Imm 32 400] (Some (AInsn mips_nop 108 4 [] None))" "[]" ORDER_LSB]
  by (simp add: call_kinds_def call_targets_def) (auto elim!: succeeds_mono)

lemma step_return:
  assumes "well_formed i" "ai_kind i = mips_jr"
  obtains r where "ai_operands i = [Gpr r]" "r < 32" "\<And>s s'. astep i s = Some s' \<Longrightarrow> get_reg s' REG_PC = gpr s' r"
proof -
  have no_exec: "\<not> exec_shape mips_jr ps" for ps using exec_no_flow [of mips_jr ps] by (auto simp: flow_kinds_def)
  obtain k a n ps inner where i: "i = AInsn mips_jr a n ps (Some inner)" "branch_shape mips_jr ps" "\<forall>p\<in>set ps. operand_ok p"
    using assms no_exec by (cases i rule: well_formed.cases) auto
  then obtain r where r: "ps = [Gpr r]" "r < 32" by (cases "(mips_jr, ps)" rule: branch_shape.cases) auto
  have "get_reg s' REG_PC = gpr s' r" if "astep i s = Some s'" for s s'
  proof -
    from i that branch_shape_transfers [OF i(2)] obtain s1 where "branch mips_jr a ps s1 = Some s'" by (auto simp: bind_eq_Some_conv)
    then have s': "s' = set_reg s1 REG_PC (gpr s1 r)" by (simp add: r)
    have "gpr s1 r < 2 ^ 32" using get_reg_less [of s1 "mips_gpr r"] r(2) by (simp add: gpr_def)
    with r(2) show ?thesis by (simp add: s' get_set_same gpr_def get_set_other)
  qed
  with that i r show thesis by simp
qed

text \<open>
  The last instruction of a block is taken for the return of a function exactly if it is a jump to the address in the
  link register, and processing it leaves the program counter at the address that the link register holds.
\<close>

theorem return_recognized:
  assumes "machine_rep mc s" "well_formed i"
  shows "(isFunctionReturnFast (insns @ [encode i]) \<longleftrightarrow> ai_kind i = mips_jr \<and> ai_operands i = [Gpr 31]) \<and>
    (isFunctionReturnFast (insns @ [encode i]) \<longrightarrow>
      succeeds (processInstruction (Mips32 bo True) (encode i) mc) (\<lambda>mc'. \<exists>s'. machine_rep mc' s' \<and> get_reg s' REG_PC = gpr s' 31))"
proof (cases "ai_kind i = mips_jr")
  case True
  then obtain r where r: "ai_operands i = [Gpr r]" "r < 32" "\<And>s s'. astep i s = Some s' \<Longrightarrow> get_reg s' REG_PC = gpr s' r"
    using step_return [OF assms(2)] by blast
  have "isFunctionReturnFast (insns @ [encode i]) \<longleftrightarrow> r = 31"
    using True r(1,2) by (cases i rule: encode.cases) (simp_all add: isFunctionReturnFast_def gpr_expr_def)
  moreover from process_well_formed [OF assms] obtain s' where
    "astep i s = Some s'" "succeeds (processInstruction (Mips32 bo True) (encode i) mc) (\<lambda>mc'. machine_rep mc' s')" .
  ultimately show ?thesis using True r by (auto elim!: succeeds_mono)
next
  case False
  then show ?thesis by (cases i rule: encode.cases) (simp_all add: isFunctionReturnFast_def)
qed

theorem return_recognized_witness:
  "isFunctionReturnFast ([] @ [encode (AInsn mips_jr 40 4 [Gpr 31] (Some (AInsn mips_nop 44 4 [] None)))]) \<and>
    succeeds (processInstruction (Mips32 ORDER_LSB True) (encode (AInsn mips_jr 40 4 [Gpr 31] (Some (AInsn mips_nop 44 4 [] None)))) sample_machine)
      (\<lambda>mc'. \<exists>s'. machine_rep mc' s' \<and> get_reg s' REG_PC = gpr s' 31)"
  using return_recognized [OF sample_rep, of "AInsn mips_jr 40 4 [Gpr 31] (Some (AInsn mips_nop 44 4 [] None))" "[]" ORDER_LSB]
  by simp

lemma terminates_flow: "terminatesBasicBlock insn \<longleftrightarrow> get_kind insn \<in> set flow_kinds \<or>
    get_kind insn = mips_break \<or> get_kind insn \<in> set coprocessor_branches"
  unfolding terminatesBasicBlock_def flow_kinds_def coprocessor_branches_def by auto

lemma terminates_kinds:
  "terminatesBasicBlock insn \<longleftrightarrow> isControlTransfer (get_kind insn) \<and> get_kind insn \<notin> {mips_eret, mips_pause, mips_wait} \<or>
    get_kind insn \<in> {mips_break, mips_syscall, mips_teq, mips_teqi, mips_tge, mips_tgei, mips_tgeiu, mips_tgeu, mips_tlt, mips_tlti,
      mips_tltiu, mips_tltu, mips_tne, mips_tnei}"
  unfolding terminatesBasicBlock_def isControlTransfer_def by auto

text \<open>
  C21. An instruction, well formed or not, ends a basic block exactly if the dispatcher takes it for a control transfer other than
  \<^verbatim>\<open>eret\<close>, \<^verbatim>\<open>pause\<close> and \<^verbatim>\<open>wait\<close>, or it is \<^verbatim>\<open>break\<close>, \<^verbatim>\<open>syscall\<close> or a trap. Among the well-formed instructions (of the modelled kinds
  other than \<^verbatim>\<open>div\<close> and \<^verbatim>\<open>divu\<close>, which hold neither \<^verbatim>\<open>syscall\<close> nor the traps) these are the ones with a delay slot and \<^verbatim>\<open>break\<close>. The
  others go on to the next instruction: their complete successors are the address after them, and the program counter is there
  when they were processed, unless an \<^verbatim>\<open>add\<close>, \<^verbatim>\<open>sub\<close> or \<^verbatim>\<open>addi\<close> overflows, which discards the state.
\<close>

theorem block_interior:
  assumes "machine_rep mc s" "well_formed i"
  shows "(\<forall>insn. terminatesBasicBlock insn \<longleftrightarrow> isControlTransfer (get_kind insn) \<and> get_kind insn \<notin> {mips_eret, mips_pause, mips_wait} \<or>
      get_kind insn \<in> {mips_break, mips_syscall, mips_teq, mips_teqi, mips_tge, mips_tgei, mips_tgeiu, mips_tgeu, mips_tlt, mips_tlti,
        mips_tltiu, mips_tltu, mips_tne, mips_tnei}) \<and>
    (terminatesBasicBlock (encode i) \<longleftrightarrow> ai_slot i \<noteq> None \<or> ai_kind i = mips_break) \<and>
    (\<not> terminatesBasicBlock (encode i) \<longrightarrow>
      succeeds (getSuccessors (encode i)) (\<lambda>(successors, complete). complete \<and> set successors = {ai_address i + ai_size i}) \<and>
      succeeds (processInstruction (Mips32 bo True) (encode i) mc) (\<lambda>mc'. \<exists>s'. machine_rep mc' s' \<and>
        (get_reg s' REG_PC = unat (ai_address i + ai_size i) mod 2 ^ 32 \<or>
         ai_kind i \<in> set overflow_kinds \<and> s' = cleared (advanced s (ai_address i) (ai_size i)))))"
proof (rule conjI, intro allI terminates_kinds, cases i rule: well_formed.cases)
  case (1 k a n ps)
  with assms(2) have flow: "k \<notin> set flow_kinds" "k \<notin> set coprocessor_branches" using exec_shape_flow by auto
  with 1 have t: "terminatesBasicBlock (encode i) \<longleftrightarrow> k = mips_break" by (auto simp: terminates_flow)
  have c: "succ_complete i \<and> succ_set i = {a + n}" if "k \<noteq> mips_break"
    using that 1 flow direct_disjoint [of k] by (auto simp: succ_set_def succ_complete_def indirect_kinds_def)
  from process_well_formed [OF assms] obtain s' where
    s': "astep i s = Some s'" "succeeds (processInstruction (Mips32 bo True) (encode i) mc) (\<lambda>mc'. machine_rep mc' s')" .
  have "get_reg s' REG_PC = unat (a + n) mod 2 ^ 32 \<or> k \<in> set overflow_kinds \<and> s' = cleared (advanced s a n)" if "k \<noteq> mips_break"
    using step_next [of k a n ps s s'] s'(1) assms(2) 1 that by simp
  with t c s'(2) getSuccessors_is [OF assms(2)] 1 show "(terminatesBasicBlock (encode i) \<longleftrightarrow> ai_slot i \<noteq> None \<or> ai_kind i = mips_break) \<and>
    (\<not> terminatesBasicBlock (encode i) \<longrightarrow>
      succeeds (getSuccessors (encode i)) (\<lambda>(successors, complete). complete \<and> set successors = {ai_address i + ai_size i}) \<and>
      succeeds (processInstruction (Mips32 bo True) (encode i) mc) (\<lambda>mc'. \<exists>s'. machine_rep mc' s' \<and>
        (get_reg s' REG_PC = unat (ai_address i + ai_size i) mod 2 ^ 32 \<or>
         ai_kind i \<in> set overflow_kinds \<and> s' = cleared (advanced s (ai_address i) (ai_size i)))))"
    by (auto elim!: succeeds_mono)
next
  case (2 k a n ps inner)
  with assms(2) branch_shape_kinds direct_disjoint(1-3) have "k \<in> set flow_kinds" by (metis well_formed.simps(2))
  with 2 show "(terminatesBasicBlock (encode i) \<longleftrightarrow> ai_slot i \<noteq> None \<or> ai_kind i = mips_break) \<and>
    (\<not> terminatesBasicBlock (encode i) \<longrightarrow>
      succeeds (getSuccessors (encode i)) (\<lambda>(successors, complete). complete \<and> set successors = {ai_address i + ai_size i}) \<and>
      succeeds (processInstruction (Mips32 bo True) (encode i) mc) (\<lambda>mc'. \<exists>s'. machine_rep mc' s' \<and>
        (get_reg s' REG_PC = unat (ai_address i + ai_size i) mod 2 ^ 32 \<or>
         ai_kind i \<in> set overflow_kinds \<and> s' = cleared (advanced s (ai_address i) (ai_size i)))))" by (simp add: terminates_flow)
qed

theorem block_interior_witness:
  "\<not> terminatesBasicBlock (encode (AInsn mips_nop 64 4 [] None)) \<and>
    succeeds (processInstruction (Mips32 ORDER_LSB True) (encode (AInsn mips_nop 64 4 [] None)) sample_machine)
      (\<lambda>mc'. \<exists>s'. machine_rep mc' s' \<and> get_reg s' REG_PC = 68)"
  using block_interior [OF sample_rep, of "AInsn mips_nop 64 4 [] None" ORDER_LSB, THEN conjunct2] by (simp add: overflow_kinds_def)

end
