(* ===== verification/Spec2Isabelle.thy ===== *)
theory Spec2Isabelle
  imports BVS_Spec Bit_Vector_Spec Interval_Set Operand_Types Mips_Names Decoder_Coverage Mips_Architecture
begin

text \<open>
  \<^bold>\<open>The program.\<close> The repository is the ROSE compiler infrastructure, a C++ library for the analysis of
  source and binary programs. This development verifies the path that gives meaning to machine code: the
  containers of the library Sawyer at the bottom, the concrete instruction semantics on top of them, and the
  MIPS disassembler and dispatcher, which take bytes of memory to instructions and instructions to changes of
  a machine state. File names below are relative to \<^verbatim>\<open>src/src/\<close>.

  \<^bold>\<open>How the parts interact.\<close> \<^verbatim>\<open>Disassembler::Mips::disassembleOne\<close> reads a word, searches a table of 257
  decoders for the one that matches, and makes an instruction whose operands are expressions over registers
  and numbers; a branch gets the next instruction as its delay slot.
  \<^verbatim>\<open>BaseSemantics::Dispatcher::processInstruction\<close> advances the program counter, looks the instruction's
  functor up and runs it; the functor evaluates operands, calls operators on values, and writes registers and
  memory. Values are bit vectors; registers are kept as pieces in a list per register, which the accesses split
  and join; memory is a map of pages allocated on demand; both rest on interval maps.

  \<^bold>\<open>Conventions of the model.\<close> Every definition is a function of HOL that can be evaluated. A failed assertion, a
  thrown exception and an access outside an array are the value \<open>None\<close> of the option monad, so each theorem
  that an operation \<open>succeeds\<close> shows that no assertion fails on its way. Where the text of an exception or an
  object's identity cannot be observed it is not kept. Machine words of the C++ code are words of the same width
  (\<^verbatim>\<open>unsigned\<close> of 32 bits, addresses of 64 bits), sizes and bit positions are natural numbers. State is
  passed explicitly. C++ leaves the order in which arguments of a call are evaluated open; the model evaluates
  them from left to right. Templates over words and scalars are functions with a type variable.

  \<^bold>\<open>Theories, from the bottom.\<close>

  \<^descr> \<open>Prelude\<close>: assertions as \<open>require\<close>, total correctness as \<open>succeeds\<close>, numbers read off runs of bits.
  \<^descr> \<open>Sawyer_Interval\<close> (\<^verbatim>\<open>Sawyer/Interval.h\<close>): the interval type, every member and the iterator. Iteration
    ends and visits each value once; construction from base and size succeeds exactly when it fits.
  \<^descr> \<open>BVS_Traverse\<close>, \<open>BVS_Rules\<close>, \<open>BVS_Bits\<close>, \<open>BVS_Search\<close>, \<open>BVS_Arith\<close>, \<open>BVS_Numeric\<close>, \<open>BVS_Spec\<close>
    (\<^verbatim>\<open>Sawyer/BitVectorSupport.h\<close>): traversals of bit ranges in arrays of words and the algorithms built on them.
    The rules turn a traversal into a statement about single bits; the locales \<open>bit_mapper\<close>, \<open>bit_combiner\<close>,
    \<open>searcher_up\<close>, \<open>searcher_down\<close>, \<open>bit_counter\<close> and \<open>ripple\<close> are the contracts of the word processors, each
    interpreted for the processors of the code. \<open>BVS_Spec\<close> holds the results: copies, sums, differences, shifts,
    comparisons and conversions are exact and leave the other bits alone.
  \<^descr> \<open>Bit_Vector\<close>, \<open>Bit_Vector_Spec\<close> (\<^verbatim>\<open>Sawyer/BitVector.h\<close>): the class with its size; the products are exact.
    \<open>Bit_Vector_Spec\<close> specifies the mutators over lists of booleans; every sequence of mutators refines it.
  \<^descr> \<open>Interval_Map\<close>, \<open>Interval_Set\<close> (\<^verbatim>\<open>Sawyer/IntervalMap.h\<close>, \<^verbatim>\<open>IntervalSet.h\<close>): nodes in a sorted list. The
    operations implement update and restriction of partial functions, and the set operations, and keep touching
    nodes of equal values merged, for the scalars of the locale \<open>scalar\<close>, which 64-bit words and natural numbers satisfy.
  \<^descr> \<open>Sawyer_Set\<close> (\<^verbatim>\<open>Sawyer/Set.h\<close>): ordered sets over \<^verbatim>\<open>std::set\<close>, a strictly increasing list; the operations are
    the set operations, the queries answer for the sets.
  \<^descr> \<open>Risc_Operators\<close>, \<open>Concrete_Value\<close> (\<^verbatim>\<open>BaseSemantics/RiscOperators.C\<close>, \<^verbatim>\<open>ConcreteSemantics.C\<close>,
    \<^verbatim>\<open>integerOps.h\<close>): a record of the virtual operators, the operators derived from them, and the concrete ones. The
    locale \<open>risc_laws\<close> says what the virtual operators compute on numbers; it is interpreted on the concrete ones.
  \<^descr> \<open>Register_Descriptor\<close> (\<^verbatim>\<open>RegisterDescriptor.h\<close>): the packed word with its fields.
  \<^descr> \<open>Register_State\<close>, \<open>Register_Refinement\<close> (\<^verbatim>\<open>BaseSemantics/RegisterStateGeneric.C\<close>): reading, writing and
    erasing registers whose parts are stored in pieces. A state stands for a partial map from bit positions to
    bits; the operations refine that map for every operator record that satisfies \<open>risc_laws\<close>, and every
    reachable state passes the class's own consistency check.
  \<^descr> \<open>Concrete_Memory\<close> (\<^verbatim>\<open>ConcreteSemantics::MemoryState\<close>, \<^verbatim>\<open>MemoryMap.h\<close>, \<^verbatim>\<open>Sawyer/AddressMap.h\<close>,
    \<^verbatim>\<open>BaseSemantics/State.C\<close>): pages, reads and writes of several bytes in both byte orders. Memory stands for a
    total array of bytes; accesses are loads and stores on it, with addresses that wrap at their width.
  \<^descr> \<open>Dispatcher\<close>, \<open>Operand_Types\<close> (\<^verbatim>\<open>BaseSemantics/Dispatcher.C\<close>): operand expressions, effective addresses,
    reads and writes of operands, pre- and post-updates, processing with delay slots; operands have the asked width.
  \<^descr> \<open>Mips_Dispatcher\<close> (\<^verbatim>\<open>DispatcherMips.C\<close>, \<^verbatim>\<open>Architecture/Mips32.C\<close>): all functors and the dispatch table.
  \<^descr> \<open>Machine_Refinement\<close>, \<open>Mips_Operands\<close>, \<open>Mips_Functors\<close>, \<open>Mips_Refinement\<close>, \<open>Mips_Correct\<close>: an abstract machine
    of register bits and bytes, the locale \<open>machine_laws\<close> between the dispatcher and the state, interpreted on the
    machine built from the theories above, and the instruction set as a function \<open>astep\<close> on abstract machines. Each
    functor is run symbolically by rules for the single operators; processing a list of instructions refines
    \<open>asteps\<close>, and never stops on well-formed ones.
  \<^descr> \<open>Mips_Makers\<close>, \<open>Mips_Decoders\<close>, \<open>Mips_Disassembler\<close> (\<^verbatim>\<open>Disassembler/Mips.C\<close>, \<^verbatim>\<open>Disassembler/Mips.h\<close>): the
    fields of a word, the register dictionary, the functions that make operands, the 261 decoders, the table, and
    the disassembly of one instruction.
  \<^descr> \<open>Decoder_Table\<close>, \<open>Decoder_Search\<close>, \<open>Decoder_Coverage\<close>: the bits of all decoders, the 24 pairs that match common
    words, what the search returns for every word, and which decoders are ever found.
  \<^descr> \<open>Mips_Registers\<close>, \<open>Mips_Names\<close>: decimal notation and what the names of registers are found to be.
  \<^descr> \<open>Mips_Decode\<close>, \<open>Mips_Decoded\<close>, \<open>Disassembly\<close>, \<open>Mips_Assembly\<close>: what each decoder makes of a word in terms of the
    operands of the abstract instruction set, the recursion over delay slots, an assembler that the disassembler
    inverts, and the theorem that joins the halves: what is disassembled from memory is processed as \<open>astep\<close> says.
  \<^descr> \<open>Mips_Architecture\<close> (\<^verbatim>\<open>Architecture/Mips32.C\<close>, \<^verbatim>\<open>Architecture/Base.C\<close>, \<^verbatim>\<open>Disassembler/Base.C\<close>): branch targets, calls,
    returns, ends of basic blocks and successors, and \<^verbatim>\<open>disassembleOne\<close> with a set of successors. The theorems compare
    the static answers with where processing the instruction goes.

  \<^bold>\<open>Termination and fuel.\<close> Loops are structural recursions or have termination proofs. Only \<open>disassembleOne\<close> takes
  fuel, because it follows delay slots; \<open>disassembleOne_returns\<close> shows that the number of words up to any address
  without code is enough, and that more fuel gives the same result. On a memory that is mapped everywhere and
  full of branches the code does not return either.

  \<^bold>\<open>Where the code deviates.\<close> Several theorems state what the code does where that is not what its comments or
  the instruction set ask for: a branch compares registers after its delay slot has run (\<open>branch_sees_slot\<close>), \<^verbatim>\<open>lwl\<close>
  merges like \<^verbatim>\<open>lwr\<close> (\<open>unaligned_loads\<close>), five decoders are never found (\<open>decoders_reached\<close>), the ambiguity check of
  the decoder table accepts ambiguous entries (\<open>find_idis_exact\<close>), double-precision and coprocessor 0 registers are
  named wrongly or not at all (\<open>coprocessor_registers\<close>), the 64-bit product loses a carry
  (\<open>multiply_64_loses_carry\<close>), the flags of a subtraction of zero are inverted (\<open>subtractCarry_flags\<close>), a default
  value of several bytes is lost when a page is allocated (\<open>default_bytes_lost\<close>), the intersection of a set with an
  interval loses a value (\<open>intersect_interval\<close>), and the successors of branches not taken and of calls hold the address of
  the delay slot, although the program goes on after it, and of \<^verbatim>\<open>jalr.hb\<close> only that (\<open>successors_sound\<close>, \<open>call_successors\<close>).

  \<^bold>\<open>Not modelled.\<close> Within the components: conversions between bit vectors and strings or byte arrays, floating-point
  arithmetic on host floats, the sets of writers and access properties of registers, merging of states, the names of
  values and comments, the descriptions of instructions, the types of expressions beyond
  their widths. Functors exist in the code for a part of the instruction kinds only; for the others the model,
  like the code, has no functor and processing stops (\<open>mips_stops\<close>). The abstract instruction set covers
  the kinds that have a functor except for \<^verbatim>\<open>lwl\<close> and \<^verbatim>\<open>lwr\<close>, whose effect \<open>unaligned_loads\<close> states, the moves of
  the coprocessors and of floating-point registers, \<^verbatim>\<open>lwc1\<close> and \<^verbatim>\<open>rdhwr\<close>, whose functors are modelled without a
  specification of their own. Outside: the other semantic domains, disassemblers and
  dispatchers, the partitioner and the binary analyses, the front ends, the generated syntax tree, the transformations,
  the unparsers and the tools, which are clients of or independent from the parts above, and third-party code.
\<close>

end
